(* ===== verification/LF_Prelude.thy ===== *)
theory LF_Prelude imports Complex_Main "HOL-Library.AList" begin

text \<open>
  What every component of the development shares.

  \<^item> \<open>pyval\<close>: the Python values that pass through task parameters, results and metadata.
  \<^item> Python dictionaries: insertion-ordered association lists with one entry per key
    (\<open>dict_wf\<close>). \<open>dict_set\<close> keeps the position of an existing key and appends a new one, as
    CPython does; \<open>dict_adjust\<close> is a mutation of the object stored under a key.
  \<^item> Python strings are \<open>string\<close>; \<open>py_split\<close>, \<open>py_prefix\<close>, \<open>py_contains\<close> and \<open>py_replace\<close> are
    \<open>str.split\<close>, \<open>str.startswith\<close>, \<open>in\<close> and \<open>str.replace\<close>.
  \<^item> \<open>outcome\<close>: a call that may raise. \<open>Ret v\<close> is the returned value, \<open>Raise e\<close> an exception
    whose text is \<open>e\<close>.

  Clock readings and durations are \<open>real\<close>: the sources only compare and add them.
\<close>

named_theorems dict_simps "lookups after dictionary operations"
named_theorems frame_simps "fields and statuses an operation leaves alone"
named_theorems inv_intros "operations keep their component's invariant"

section \<open>Values\<close>

datatype pyval =
    PNone
  | PBool bool
  | PInt int
  | PFloat real
  | PStr string
  | PList "pyval list"
  | PDict "(string \<times> pyval) list"

text \<open>Truth value testing, as in \<open>if x:\<close> and \<open>x or y\<close>.\<close>

definition py_truthy :: "pyval \<Rightarrow> bool" where
  "py_truthy v = (case v of
      PNone \<Rightarrow> False | PBool b \<Rightarrow> b | PInt i \<Rightarrow> i \<noteq> 0 | PFloat x \<Rightarrow> x \<noteq> 0
    | PStr s \<Rightarrow> s \<noteq> [] | PList xs \<Rightarrow> xs \<noteq> [] | PDict d \<Rightarrow> d \<noteq> [])"

datatype 'a outcome = Ret 'a | Raise string

section \<open>Dictionaries\<close>

type_synonym 'v dict = "(string \<times> 'v) list"

definition dict_wf :: "('k \<times> 'v) list \<Rightarrow> bool" where
  "dict_wf d \<longleftrightarrow> distinct (map fst d)"

definition dict_set :: "'k \<Rightarrow> 'v \<Rightarrow> ('k \<times> 'v) list \<Rightarrow> ('k \<times> 'v) list" where
  "dict_set k v d = AList.update k v d"

definition dict_adjust :: "'k \<Rightarrow> ('v \<Rightarrow> 'v) \<Rightarrow> ('k \<times> 'v) list \<Rightarrow> ('k \<times> 'v) list" where
  "dict_adjust k f d = map (\<lambda>(j, v). if j = k then (j, f v) else (j, v)) d"

definition dict_pop :: "'k \<Rightarrow> ('k \<times> 'v) list \<Rightarrow> ('k \<times> 'v) list" where
  "dict_pop k d = filter (\<lambda>(j, _). j \<noteq> k) d"

lemma map_of_dict_set [dict_simps]: "map_of (dict_set k v d) = (map_of d)(k \<mapsto> v)"
  by (simp add: dict_set_def update_conv')

lemma keys_dict_set: "set (map fst (dict_set k v d)) = insert k (set (map fst d))"
  by (auto simp: dict_set_def dom_update)

lemma dict_wf_set [inv_intros]: "dict_wf d \<Longrightarrow> dict_wf (dict_set k v d)"
  by (simp add: dict_wf_def dict_set_def distinct_update)

lemma map_fst_dict_adjust [simp]: "map fst (dict_adjust k f d) = map fst d"
  by (induction d) (auto simp: dict_adjust_def)

lemma length_dict_adjust [simp]: "length (dict_adjust k f d) = length d"
  by (simp add: dict_adjust_def)

lemma map_of_dict_adjust [dict_simps]:
  "map_of (dict_adjust k f d) j = (if j = k then map_option f (map_of d j) else map_of d j)"
  by (induction d) (auto simp: dict_adjust_def)

lemma dict_wf_adjust [inv_intros]: "dict_wf d \<Longrightarrow> dict_wf (dict_adjust k f d)"
  by (simp add: dict_wf_def)

lemma map_of_dict_pop [dict_simps]:
  "map_of (dict_pop k d) j = (if j = k then None else map_of d j)"
  by (induction d) (auto simp: dict_pop_def)

lemma dict_wf_pop [inv_intros]: "dict_wf d \<Longrightarrow> dict_wf (dict_pop k d)"
  by (induction d) (auto simp: dict_pop_def dict_wf_def)

lemma map_of_in_values: "map_of d k = Some v \<Longrightarrow> (k, v) \<in> set d"
  by (rule map_of_SomeD)

lemma dict_wf_lookup: "dict_wf d \<Longrightarrow> (k, v) \<in> set d \<Longrightarrow> map_of d k = Some v"
  by (simp add: dict_wf_def)

lemma key_of_entry: "(k, v) \<in> set d \<Longrightarrow> k \<in> fst ` set d"
  by force

lemma map_of_key_iff: "(\<exists>v. map_of d k = Some v) \<longleftrightarrow> k \<in> set (map fst d)"
  by (induction d) auto

section \<open>Strings\<close>

fun py_split :: "char \<Rightarrow> string \<Rightarrow> string list" where
  "py_split sep [] = [[]]"
| "py_split sep (c # cs) =
     (if c = sep then [] # py_split sep cs
      else (case py_split sep cs of [] \<Rightarrow> [[c]] | p # ps \<Rightarrow> (c # p) # ps))"

fun py_prefix :: "string \<Rightarrow> string \<Rightarrow> bool" where
  "py_prefix [] s = True"
| "py_prefix (p # ps) [] = False"
| "py_prefix (p # ps) (c # cs) = (p = c \<and> py_prefix ps cs)"

fun py_contains :: "string \<Rightarrow> string \<Rightarrow> bool" where
  "py_contains p [] = (p = [])"
| "py_contains p (c # cs) = (py_prefix p (c # cs) \<or> py_contains p cs)"

text \<open>\<open>str.isspace\<close> and \<open>str.strip\<close> on the characters a \<open>char\<close> holds.\<close>

definition py_space :: "char \<Rightarrow> bool" where
  "py_space c \<longleftrightarrow> of_char c \<in> {9, 10, 11, 12, 13, 28, 29, 30, 31, 32, 133, 160 :: nat}"

definition py_strip :: "string \<Rightarrow> string" where
  "py_strip s = rev (dropWhile py_space (rev (dropWhile py_space s)))"

text \<open>A name between single quotes, as the f-strings of error messages print it.\<close>

definition quoted :: "string \<Rightarrow> string" where
  "quoted s = CHR 0x27 # s @ [CHR 0x27]"

lemma py_prefix_append: "py_prefix p s \<longleftrightarrow> (\<exists>t. s = p @ t)"
  by (induction p s rule: py_prefix.induct) auto

lemma py_contains_append: "py_contains p s \<longleftrightarrow> (\<exists>u t. s = u @ p @ t)"
proof (induction s)
  case Nil
  then show ?case by simp
next
  case (Cons c cs)
  have "(\<exists>u t. c # cs = u @ p @ t) \<longleftrightarrow> (\<exists>t. c # cs = p @ t) \<or> (\<exists>u t. cs = u @ p @ t)"
    by (metis Cons_eq_append_conv append_Cons append_Nil)
  with Cons show ?case by (simp add: py_prefix_append)
qed

text \<open>\<open>str.replace\<close> with a non-empty pattern: leftmost, non-overlapping, left to right.\<close>

function py_replace :: "string \<Rightarrow> string \<Rightarrow> string \<Rightarrow> string" where
  "py_replace old new [] = []"
| "py_replace old new (c # cs) =
     (if old \<noteq> [] \<and> py_prefix old (c # cs)
      then new @ py_replace old new (drop (length old) (c # cs))
      else c # py_replace old new cs)"
  by pat_completeness auto
termination
  by (relation "measure (\<lambda>(old, new, s). length s)") auto

lemma py_split_nonempty [simp]: "py_split sep s \<noteq> []"
  by (induction s) (auto split: list.splits)

text \<open>The literal \<open>sep.join(parts)\<close>, and that splitting is its inverse.\<close>

fun py_join :: "string \<Rightarrow> string list \<Rightarrow> string" where
  "py_join sep [] = []"
| "py_join sep [p] = p"
| "py_join sep (p # q # ps) = p @ sep @ py_join sep (q # ps)"

lemma py_join_split: "py_join [sep] (py_split sep s) = s"
proof (induction s)
  case Nil
  then show ?case by simp
next
  case (Cons c cs)
  obtain p ps where ps: "py_split sep cs = p # ps"
    by (cases "py_split sep cs") auto
  with Cons show ?case by (cases ps) auto
qed

lemma py_split_parts: "p \<in> set (py_split sep s) \<Longrightarrow> sep \<notin> set p"
  by (induction s arbitrary: p) (auto split: list.splits if_splits)

text \<open>\<open>str.lower\<close> on ASCII; other characters are kept.\<close>

definition py_lower_char :: "char \<Rightarrow> char" where
  "py_lower_char c =
     (let n = of_char c :: nat in if 65 \<le> n \<and> n \<le> 90 then char_of (n + 32) else c)"

definition py_lower :: "string \<Rightarrow> string" where
  "py_lower s = map py_lower_char s"

text \<open>
  An f-string as the list of its pieces: literal text, and the numbers it formats, which are kept
  as numbers.
\<close>

datatype text_part = Txt string | Num int | Flt real

type_synonym ftext = "text_part list"

end
