(* ===== verification/Graph_Loops.thy ===== *)
theory Graph_Loops imports LF_Prelude "HOL-Library.Multiset" begin

text \<open>
  The two worklist loops that \<open>engine/task_planning/task_graph.py\<close> writes out several times:
  Kahn's loop (\<open>topological_order\<close>, \<open>_detect_cycle\<close>) and the breadth-first closure
  (\<open>downstream_of\<close>, \<open>upstream_of\<close>). Each is given once, over an adjacency dictionary, and the
  locales below state what a caller must provide for its result to be right.
\<close>

definition succ_of :: "('a \<times> 'a list) list \<Rightarrow> 'a \<Rightarrow> 'a list" where
  "succ_of adj x = (case map_of adj x of Some l \<Rightarrow> l | None \<Rightarrow> [])"

section \<open>Kahn's loop\<close>

text \<open>One pass over the outgoing edges: decrement, and enqueue what reached zero.\<close>

fun relax :: "'a list \<Rightarrow> ('a \<Rightarrow> int) \<Rightarrow> 'a list \<Rightarrow> ('a \<Rightarrow> int) \<times> 'a list" where
  "relax [] deg q = (deg, q)"
| "relax (d # ds) deg q =
     (let deg' = deg(d := deg d - 1)
      in relax ds deg' (if deg' d = 0 then q @ [d] else q))"

definition pos_nodes :: "'a list \<Rightarrow> ('a \<Rightarrow> int) \<Rightarrow> 'a set" where
  "pos_nodes xs deg = {x \<in> set xs. 0 < deg x}"

lemma count_list_pos: "x \<in> set xs \<Longrightarrow> 0 < count_list xs x"
  by (induction xs) auto

lemma count_list_pos_iff: "0 < count_list xs x \<longleftrightarrow> x \<in> set xs"
  by (induction xs) auto

lemma finite_pos_nodes [simp]: "finite (pos_nodes xs deg)"
  by (simp add: pos_nodes_def)

lemma pos_nodes_decr_le: "pos_nodes xs (deg(d := deg d - 1)) \<subseteq> pos_nodes xs deg"
  by (auto simp: pos_nodes_def)

lemma relax_measure:
  assumes "set ds \<subseteq> set xs"
  shows "length (snd (relax ds deg q)) + card (pos_nodes xs (fst (relax ds deg q)))
           \<le> length q + card (pos_nodes xs deg)"
  using assms
proof (induction ds arbitrary: deg q)
  case Nil
  then show ?case by simp
next
  case (Cons d ds)
  let ?deg = "deg(d := deg d - 1)"
  let ?q = "if ?deg d = 0 then q @ [d] else q"
  have "length ?q + card (pos_nodes xs ?deg) \<le> length q + card (pos_nodes xs deg)"
  proof (cases "deg d = 1")
    case True
    with Cons.prems have "pos_nodes xs deg = insert d (pos_nodes xs ?deg)"
      and "d \<notin> pos_nodes xs ?deg"
      by (auto simp: pos_nodes_def)
    then have "card (pos_nodes xs deg) = Suc (card (pos_nodes xs ?deg))" by simp
    with True show ?thesis by simp
  next
    case False
    moreover have "card (pos_nodes xs ?deg) \<le> card (pos_nodes xs deg)"
      by (intro card_mono pos_nodes_decr_le finite_pos_nodes)
    ultimately show ?thesis by auto
  qed
  moreover have "length (snd (relax ds ?deg ?q)) + card (pos_nodes xs (fst (relax ds ?deg ?q)))
      \<le> length ?q + card (pos_nodes xs ?deg)"
    using Cons.prems by (intro Cons.IH) auto
  ultimately have "length (snd (relax ds ?deg ?q)) + card (pos_nodes xs (fst (relax ds ?deg ?q)))
      \<le> length q + card (pos_nodes xs deg)"
    by linarith
  then show ?case by (simp add: Let_def)
qed

lemma succ_of_subset: "set (succ_of adj x) \<subseteq> set (concat (map snd adj))"
proof (cases "map_of adj x")
  case None
  then show ?thesis by (simp add: succ_of_def)
next
  case (Some l)
  then have "(x, l) \<in> set adj" by (rule map_of_SomeD)
  then have "set l \<subseteq> set (concat (map snd adj))" by force
  with Some show ?thesis by (simp add: succ_of_def)
qed

text \<open>
  The loop of the sources: pop, record, relax. Every enqueued node loses its last positive
  degree, so queue length plus the number of nodes with positive degree decreases.
\<close>

function kahn_loop :: "('a \<times> 'a list) list \<Rightarrow> ('a \<Rightarrow> int) \<Rightarrow> 'a list \<Rightarrow> 'a list \<Rightarrow> 'a list" where
  "kahn_loop adj deg [] order = order"
| "kahn_loop adj deg (x # q) order =
     (let r = relax (succ_of adj x) deg q
      in kahn_loop adj (fst r) (snd r) (order @ [x]))"
  by pat_completeness auto
termination
proof (relation "measure (\<lambda>(adj, deg, q, order).
    length q + card (pos_nodes (concat (map snd adj)) deg))", goal_cases)
  case 1
  show ?case by simp
next
  case (2 adj deg x q order r)
  then show ?case
    using relax_measure [OF succ_of_subset, of adj x deg q] by (simp add: less_Suc_eq_le)
qed

text \<open>What one pass does, when no node is decremented below zero.\<close>

lemma relax_spec:
  assumes "\<And>x. int (count_list ds x) \<le> deg x \<or> x \<notin> set ds"
  shows "\<exists>ps. relax ds deg q = (\<lambda>x. deg x - int (count_list ds x), q @ ps)
     \<and> distinct ps \<and> set ps = {x \<in> set ds. deg x = int (count_list ds x)}"
  using assms
proof (induction ds arbitrary: deg q)
  case Nil
  then show ?case by (intro exI [of _ "[]"]) auto
next
  case (Cons d ds)
  let ?deg = "deg(d := deg d - 1)"
  let ?q = "if ?deg d = 0 then q @ [d] else q"
  have pre: "int (count_list ds x) \<le> ?deg x \<or> x \<notin> set ds" for x
    using Cons.prems [of x] by (cases "x = d") auto
  from Cons.IH [OF this] obtain ps where ps:
    "relax ds ?deg ?q = (\<lambda>x. ?deg x - int (count_list ds x), ?q @ ps)"
    "distinct ps" "set ps = {x \<in> set ds. ?deg x = int (count_list ds x)}"
    by blast
  have deg_eq: "(\<lambda>x. ?deg x - int (count_list ds x)) = (\<lambda>x. deg x - int (count_list (d # ds) x))"
    by (auto simp: fun_eq_iff)
  have mem_ds: "x \<in> {x \<in> set (d # ds). deg x = int (count_list (d # ds) x)} \<longleftrightarrow>
      (if x = d then deg d = 1 + int (count_list ds d)
       else x \<in> set ds \<and> deg x = int (count_list ds x))" for x
    by (cases "x = d") simp_all
  have mem_ps: "x \<in> set ps \<longleftrightarrow>
      (if x = d then d \<in> set ds \<and> deg d = 1 + int (count_list ds d)
       else x \<in> set ds \<and> deg x = int (count_list ds x))" for x
    using ps(3) by (cases "x = d") auto
  show ?case
  proof (cases "deg d = 1")
    case True
    with Cons.prems [of d] have none: "count_list ds d = 0" by simp
    then have "d \<notin> set ds" by (simp add: count_list_0_iff)
    then have "d \<notin> set ps" using mem_ps [of d] by simp
    moreover have "set (d # ps) = {x \<in> set (d # ds). deg x = int (count_list (d # ds) x)}"
      using True none \<open>d \<notin> set ds\<close> mem_ds mem_ps by (intro set_eqI) simp
    moreover have "relax (d # ds) deg q = (\<lambda>x. deg x - int (count_list (d # ds) x), q @ d # ps)"
      using True ps(1) deg_eq by (simp add: Let_def)
    ultimately show ?thesis using ps(2) by (intro exI [of _ "d # ps"]) simp
  next
    case False
    have "d \<in> set ds" if "deg d = 1 + int (count_list ds d)"
      using that False by (cases "d \<in> set ds") (simp_all add: count_list_0_iff)
    then have "set ps = {x \<in> set (d # ds). deg x = int (count_list (d # ds) x)}"
      using mem_ds mem_ps by (intro set_eqI) auto
    moreover have "relax (d # ds) deg q = (\<lambda>x. deg x - int (count_list (d # ds) x), q @ ps)"
      using False ps(1) deg_eq by (simp add: Let_def)
    ultimately show ?thesis using ps(2) by (intro exI [of _ ps]) simp
  qed
qed

text \<open>
  An order is topological for a relation when everything an element depends on comes earlier.
\<close>

definition topo_sorted :: "('a \<times> 'a) set \<Rightarrow> 'a list \<Rightarrow> bool" where
  "topo_sorted E ord \<longleftrightarrow>
     (\<forall>xs y ys m. ord = xs @ y # ys \<longrightarrow> (m, y) \<in> E \<longrightarrow> m \<in> set xs)"

lemma topo_sorted_Nil [simp]: "topo_sorted E []"
  by (simp add: topo_sorted_def)

lemma topo_sorted_snoc:
  "topo_sorted E (ord @ [x]) \<longleftrightarrow> topo_sorted E ord \<and> (\<forall>m. (m, x) \<in> E \<longrightarrow> m \<in> set ord)"
proof
  assume L: "topo_sorted E (ord @ [x])"
  have "topo_sorted E ord"
    unfolding topo_sorted_def
  proof (intro allI impI)
    fix xs y ys m
    assume "ord = xs @ y # ys" "(m, y) \<in> E"
    then show "m \<in> set xs"
      using L [unfolded topo_sorted_def, rule_format, of xs y "ys @ [x]" m] by simp
  qed
  moreover have "m \<in> set ord" if "(m, x) \<in> E" for m
    using L [unfolded topo_sorted_def, rule_format, of ord x "[]" m] that by simp
  ultimately show "topo_sorted E ord \<and> (\<forall>m. (m, x) \<in> E \<longrightarrow> m \<in> set ord)" by blast
next
  assume R: "topo_sorted E ord \<and> (\<forall>m. (m, x) \<in> E \<longrightarrow> m \<in> set ord)"
  show "topo_sorted E (ord @ [x])"
    unfolding topo_sorted_def
  proof (intro allI impI)
    fix xs y ys m
    assume eq: "ord @ [x] = xs @ y # ys" and E: "(m, y) \<in> E"
    show "m \<in> set xs"
    proof (cases ys rule: rev_cases)
      case Nil
      with eq R E show ?thesis by simp
    next
      case (snoc zs z)
      with eq have "ord = xs @ y # zs" by simp
      with R E show ?thesis unfolding topo_sorted_def by blast
    qed
  qed
qed

text \<open>A relation with a topological order of all its targets has no cycle.\<close>

lemma topo_sorted_rank:
  assumes "topo_sorted E ord" "distinct ord" "(m, x) \<in> E" "x \<in> set ord"
  shows "m \<in> set ord \<and> (\<exists>xs ys zs. ord = xs @ m # ys @ x # zs)"
proof -
  from \<open>x \<in> set ord\<close> obtain us vs where ord: "ord = us @ x # vs"
    by (meson split_list)
  with assms have "m \<in> set us" unfolding topo_sorted_def by blast
  then obtain xs ys where "us = xs @ m # ys" by (meson split_list)
  with ord show ?thesis by auto
qed

lemma topo_sorted_acyclic:
  assumes "topo_sorted E ord" "distinct ord" "Range E \<subseteq> set ord"
  shows "acyclic E"
proof -
  let ?rank = "\<lambda>x. length (takeWhile (\<lambda>y. y \<noteq> x) ord)"
  have less: "?rank m < ?rank x" if E: "(m, x) \<in> E" for m x
  proof -
    from E assms(3) have "x \<in> set ord" by blast
    from topo_sorted_rank [OF assms(1,2) E this]
    obtain xs ys zs where ord: "ord = xs @ m # ys @ x # zs" by blast
    with assms(2) have "takeWhile (\<lambda>y. y \<noteq> m) ord = xs"
      and "takeWhile (\<lambda>y. y \<noteq> x) ord = xs @ m # ys"
      by (auto simp: takeWhile_append takeWhile_eq_all_conv)
    then show ?thesis by simp
  qed
  have "E \<subseteq> measure ?rank" using less by auto
  then have "wf E" by (rule wf_subset [OF wf_measure])
  then show ?thesis by (rule wf_acyclic)
qed

locale kahn_graph =
  fixes V :: "'a list" and adj :: "('a \<times> 'a list) list" and indeg :: "'a \<Rightarrow> int"
  assumes V_distinct: "distinct V"
    and succ_in_V: "x \<in> set V \<Longrightarrow> set (succ_of adj x) \<subseteq> set V"
    and indeg_ge: "x \<in> set V \<Longrightarrow> (\<Sum>m\<in>set V. int (count_list (succ_of adj m) x)) \<le> indeg x"
begin

definition edges :: "('a \<times> 'a) set" where
  "edges = {(m, x). m \<in> set V \<and> x \<in> set (succ_of adj m)}"

definition sources :: "'a list" where
  "sources = filter (\<lambda>x. indeg x = 0) V"

definition from_set :: "'a set \<Rightarrow> 'a \<Rightarrow> int" where
  "from_set M x = (\<Sum>m\<in>M. int (count_list (succ_of adj m) x))"

definition kahn_inv :: "('a \<Rightarrow> int) \<Rightarrow> 'a list \<Rightarrow> 'a list \<Rightarrow> bool" where
  "kahn_inv deg q ord \<longleftrightarrow>
     distinct (ord @ q) \<and> set (ord @ q) \<subseteq> set V
   \<and> (\<forall>x\<in>set V. deg x = indeg x - from_set (set ord) x)
   \<and> (\<forall>x\<in>set V. x \<in> set (ord @ q) \<longleftrightarrow> deg x = 0)
   \<and> topo_sorted edges ord"

lemma from_set_mono: "M \<subseteq> set V \<Longrightarrow> from_set M x \<le> from_set (set V) x"
  unfolding from_set_def by (intro sum_mono2) auto

lemma from_set_insert:
  "finite M \<Longrightarrow> m \<notin> M \<Longrightarrow> from_set (insert m M) x = int (count_list (succ_of adj m) x) + from_set M x"
  by (simp add: from_set_def)

lemma indeg_ge_from: "x \<in> set V \<Longrightarrow> M \<subseteq> set V \<Longrightarrow> from_set M x \<le> indeg x"
  using indeg_ge [of x] from_set_mono [of M x] by (simp add: from_set_def)

lemma kahn_inv_start: "kahn_inv indeg sources []"
  using V_distinct by (auto simp: kahn_inv_def sources_def from_set_def)

lemma preds_done:
  assumes inv: "kahn_inv deg (x # q) ord" and E: "(m, x) \<in> edges"
  shows "m \<in> set ord"
proof (rule ccontr)
  assume m: "m \<notin> set ord"
  from inv have x: "x \<in> set V" and "deg x = 0" by (auto simp: kahn_inv_def)
  with inv have "from_set (set ord) x = indeg x" by (auto simp: kahn_inv_def)
  moreover from E have "m \<in> set V" "0 < count_list (succ_of adj m) x"
    by (auto simp: edges_def intro: count_list_pos)
  moreover have "from_set (insert m (set ord)) x \<le> indeg x"
    using inv \<open>m \<in> set V\<close> x by (intro indeg_ge_from) (auto simp: kahn_inv_def)
  ultimately show False using from_set_insert [OF _ m, of x] by simp
qed

lemma kahn_inv_step:
  assumes inv: "kahn_inv deg (x # q) ord"
  shows "kahn_inv (fst (relax (succ_of adj x) deg q)) (snd (relax (succ_of adj x) deg q)) (ord @ [x])"
proof -
  let ?ds = "succ_of adj x"
  from inv have x: "x \<in> set V" "x \<notin> set ord" "set ord \<subseteq> set V"
    and deg: "\<And>y. y \<in> set V \<Longrightarrow> deg y = indeg y - from_set (set ord) y"
    and zero: "\<And>y. y \<in> set V \<Longrightarrow> y \<in> set (ord @ x # q) \<longleftrightarrow> deg y = 0"
    and dist: "distinct (ord @ x # q)" and sub: "set (ord @ x # q) \<subseteq> set V"
    by (auto simp: kahn_inv_def)
  have le: "int (count_list ?ds y) \<le> deg y" if "y \<in> set V" for y
    using indeg_ge_from [OF that, of "insert x (set ord)"] from_set_insert [OF _ x(2), of y]
      deg [OF that] x by simp
  have dsV: "set ?ds \<subseteq> set V" using succ_in_V [OF x(1)] .
  obtain ps where rel: "relax ?ds deg q = (\<lambda>y. deg y - int (count_list ?ds y), q @ ps)"
    and ps: "distinct ps" "set ps = {y \<in> set ?ds. deg y = int (count_list ?ds y)}"
    using relax_spec [of ?ds deg q] le dsV by blast
  have new: "deg y \<noteq> 0" if "y \<in> set ps" for y
    using that ps(2) by (auto simp: count_list_0_iff)
  have disj: "set ps \<inter> set (ord @ x # q) = {}"
    using new zero ps(2) dsV by blast
  have zero': "y \<in> set (ord @ x # q @ ps) \<longleftrightarrow> deg y - int (count_list ?ds y) = 0"
    if y: "y \<in> set V" for y
  proof (cases "y \<in> set ?ds")
    case True
    then have "0 < count_list ?ds y" by (rule count_list_pos)
    with le [OF y] have "deg y \<noteq> 0" by simp
    with zero [OF y] ps(2) True show ?thesis by auto
  next
    case False
    then have "count_list ?ds y = 0" by (simp add: count_list_0_iff)
    with zero [OF y] ps(2) False show ?thesis by auto
  qed
  have "kahn_inv (\<lambda>y. deg y - int (count_list ?ds y)) (q @ ps) (ord @ [x])"
    unfolding kahn_inv_def
  proof (intro conjI ballI)
    show "distinct ((ord @ [x]) @ q @ ps)" using dist ps(1) disj by auto
    show "set ((ord @ [x]) @ q @ ps) \<subseteq> set V" using sub ps(2) dsV by auto
    show "deg y - int (count_list ?ds y) = indeg y - from_set (set (ord @ [x])) y"
      if "y \<in> set V" for y
      using deg [OF that] from_set_insert [OF _ x(2), of y] by simp
    show "y \<in> set ((ord @ [x]) @ q @ ps) \<longleftrightarrow> deg y - int (count_list ?ds y) = 0"
      if "y \<in> set V" for y
      using zero' [OF that] by simp
    show "topo_sorted edges (ord @ [x])"
      using inv preds_done [OF inv] by (auto simp: topo_sorted_snoc kahn_inv_def)
  qed
  with rel show ?thesis by simp
qed

lemma kahn_loop_inv:
  "a = adj \<Longrightarrow> kahn_inv deg q ord \<Longrightarrow> \<exists>deg'. kahn_inv deg' [] (kahn_loop a deg q ord)"
proof (induction a deg q ord rule: kahn_loop.induct [case_names finish step])
  case (finish a deg ord)
  then show ?case by auto
next
  case (step a deg x q ord)
  then show ?case using kahn_inv_step by (auto simp: Let_def)
qed

definition kahn_order :: "'a list" where
  "kahn_order = kahn_loop adj indeg sources []"

lemma kahn_order_inv: "\<exists>deg. kahn_inv deg [] kahn_order"
  unfolding kahn_order_def by (rule kahn_loop_inv [OF refl kahn_inv_start])

lemma kahn_order_props:
  "distinct kahn_order" "set kahn_order \<subseteq> set V" "topo_sorted edges kahn_order"
  using kahn_order_inv by (auto simp: kahn_inv_def)

lemma popped_exact: "x \<in> set kahn_order \<Longrightarrow> indeg x = from_set (set kahn_order) x"
  using kahn_order_inv kahn_order_props(2) by (auto simp: kahn_inv_def)

lemma kahn_order_complete_iff: "length kahn_order = length V \<longleftrightarrow> set kahn_order = set V"
proof
  assume "length kahn_order = length V"
  then have "card (set kahn_order) = card (set V)"
    using kahn_order_props(1) V_distinct by (simp add: distinct_card)
  then show "set kahn_order = set V"
    using kahn_order_props(2) by (intro card_subset_eq) auto
next
  assume "set kahn_order = set V"
  then show "length kahn_order = length V"
    using kahn_order_props(1) V_distinct by (metis distinct_card)
qed

lemma edges_in_V: "edges \<subseteq> set V \<times> set V"
  using succ_in_V by (auto simp: edges_def)

text \<open>Soundness: when every node was popped, there is no cycle.\<close>

theorem kahn_sound: "length kahn_order = length V \<Longrightarrow> acyclic edges"
proof -
  assume "length kahn_order = length V"
  then have "Range edges \<subseteq> set kahn_order"
    using kahn_order_complete_iff edges_in_V by auto
  then show ?thesis
    using topo_sorted_acyclic kahn_order_props by blast
qed

end

text \<open>
  With exact in-degrees the converse holds as well: a node left over has an unpopped
  predecessor, and in a finite acyclic relation that cannot go on.
\<close>

locale kahn_exact = kahn_graph +
  assumes indeg_exact: "x \<in> set V \<Longrightarrow> indeg x = (\<Sum>m\<in>set V. int (count_list (succ_of adj m) x))"
begin

lemma left_over_pred:
  assumes "x \<in> set V - set kahn_order"
  shows "\<exists>m \<in> set V - set kahn_order. (m, x) \<in> edges"
proof (rule ccontr)
  assume none: "\<not> ?thesis"
  obtain deg where inv: "kahn_inv deg [] kahn_order" using kahn_order_inv by blast
  have "from_set (set V) x = from_set (set kahn_order) x"
    unfolding from_set_def
  proof (rule sum.mono_neutral_right)
    show "\<forall>m\<in>set V - set kahn_order. int (count_list (succ_of adj m) x) = 0"
      using none by (auto simp: edges_def count_list_0_iff)
  qed (use kahn_order_props(2) in auto)
  with assms have "indeg x = from_set (set kahn_order) x"
    using indeg_exact [of x] by (simp add: from_set_def)
  with inv assms show False by (auto simp: kahn_inv_def)
qed

theorem kahn_complete:
  assumes "acyclic edges"
  shows "length kahn_order = length V"
proof (rule ccontr)
  assume "length kahn_order \<noteq> length V"
  then obtain x where x: "x \<in> set V - set kahn_order"
    using kahn_order_complete_iff kahn_order_props(2) by blast
  have "finite edges" using edges_in_V by (rule finite_subset) simp
  then have "wf edges" using assms by (rule finite_acyclic_wf)
  then obtain z where "z \<in> set V - set kahn_order"
    and "\<And>y. (y, z) \<in> edges \<Longrightarrow> y \<notin> set V - set kahn_order"
    using x by (rule wfE_min) blast
  then show False using left_over_pred by blast
qed

end

section \<open>Breadth-first closure\<close>

text \<open>
  \<open>bfs_push\<close> is the inner loop: enqueue and record each neighbour not yet recorded.
  A node that is not a key of the dictionary is the source's \<open>KeyError\<close>.
\<close>

fun bfs_push :: "'a list \<Rightarrow> 'a list \<Rightarrow> 'a list \<Rightarrow> 'a list \<times> 'a list" where
  "bfs_push [] result q = (result, q)"
| "bfs_push (d # ds) result q =
     (if d \<in> set result then bfs_push ds result q
      else bfs_push ds (result @ [d]) (q @ [d]))"

lemma bfs_push_spec:
  "\<exists>ps. bfs_push ds result q = (result @ ps, q @ ps) \<and> distinct ps
      \<and> set ps = set ds - set result"
proof (induction ds arbitrary: result q)
  case Nil
  then show ?case by auto
next
  case (Cons d ds)
  show ?case
  proof (cases "d \<in> set result")
    case True
    with Cons.IH [of result q] show ?thesis by (auto simp: insert_Diff_if)
  next
    case False
    from Cons.IH [of "result @ [d]" "q @ [d]"] obtain ps where
      "bfs_push ds (result @ [d]) (q @ [d]) = ((result @ [d]) @ ps, (q @ [d]) @ ps)"
      "distinct ps" "set ps = set ds - set (result @ [d])" by blast
    moreover from this False have "set (d # ps) = set (d # ds) - set result" by auto
    moreover have "distinct (d # ps)" using calculation by simp
    ultimately show ?thesis using False by (intro exI [of _ "d # ps"]) simp
  qed
qed

function bfs_loop :: "('a \<times> 'a list) list \<Rightarrow> 'a list \<Rightarrow> 'a list \<Rightarrow> 'a + 'a list" where
  "bfs_loop adj result [] = Inr result"
| "bfs_loop adj result (x # q) =
     (case map_of adj x of
        None \<Rightarrow> Inl x
      | Some ds \<Rightarrow> (let r = bfs_push ds result q in bfs_loop adj (fst r) (snd r)))"
  by pat_completeness auto
termination
proof (relation "measure (\<lambda>(adj, result, q).
    length q + card (set (concat (map snd adj)) - set result))", goal_cases)
  case 1
  show ?case by simp
next
  case (2 adj result x q ds r)
  obtain ps where ps: "bfs_push ds result q = (result @ ps, q @ ps)" "distinct ps"
    "set ps = set ds - set result"
    using bfs_push_spec [of ds result q] by blast
  let ?U = "set (concat (map snd adj))"
  from \<open>map_of adj x = Some ds\<close> have "(x, ds) \<in> set adj" by (rule map_of_SomeD)
  then have sub: "set ps \<subseteq> ?U - set result" using ps(3) by force
  have "?U - set (result @ ps) = (?U - set result) - set ps" by auto
  then have "card (?U - set (result @ ps)) = card (?U - set result) - length ps"
    using sub ps(2) by (simp add: card_Diff_subset distinct_card)
  moreover have "length ps \<le> card (?U - set result)"
    using sub ps(2) by (metis card_mono distinct_card finite_Diff finite_set)
  ultimately show ?case using 2(2) ps(1) by simp
qed

locale bfs_graph =
  fixes adj :: "('a \<times> 'a list) list"
  assumes closed: "map_of adj x = Some ds \<Longrightarrow> d \<in> set ds \<Longrightarrow> \<exists>ds'. map_of adj d = Some ds'"
begin

definition bfs_edges :: "('a \<times> 'a) set" where
  "bfs_edges = {(x, d). \<exists>ds. map_of adj x = Some ds \<and> d \<in> set ds}"

definition bfs_inv :: "'a \<Rightarrow> 'a list \<Rightarrow> 'a list \<Rightarrow> bool" where
  "bfs_inv s result q \<longleftrightarrow>
     distinct result
   \<and> set q \<subseteq> insert s (set result)
   \<and> set result \<subseteq> bfs_edges\<^sup>+ `` {s}
   \<and> (\<forall>x\<in>insert s (set result) - set q. bfs_edges `` {x} \<subseteq> set result)
   \<and> (\<forall>x\<in>insert s (set result). \<exists>ds. map_of adj x = Some ds)"

lemma bfs_inv_start: "map_of adj s = Some ds \<Longrightarrow> bfs_inv s [] [s]"
  by (auto simp: bfs_inv_def)

lemma bfs_inv_step:
  assumes inv: "bfs_inv s result (x # q)" and ds: "map_of adj x = Some ds"
  shows "bfs_inv s (fst (bfs_push ds result q)) (snd (bfs_push ds result q))"
proof -
  obtain ps where ps: "bfs_push ds result q = (result @ ps, q @ ps)" "distinct ps"
    "set ps = set ds - set result"
    using bfs_push_spec [of ds result q] by blast
  have x: "x \<in> insert s (set result)" using inv by (auto simp: bfs_inv_def)
  have img: "bfs_edges `` {x} = set ds" using ds by (auto simp: bfs_edges_def)
  have "set ps \<subseteq> bfs_edges\<^sup>+ `` {s}"
  proof
    fix d assume "d \<in> set ps"
    with ps(3) img have "(x, d) \<in> bfs_edges" by auto
    with x inv show "d \<in> bfs_edges\<^sup>+ `` {s}"
      by (auto simp: bfs_inv_def intro: trancl.trancl_into_trancl)
  qed
  moreover have "\<exists>ds'. map_of adj d = Some ds'" if "d \<in> set ps" for d
    using closed [OF ds] that ps(3) by auto
  moreover have "bfs_edges `` {y} \<subseteq> set result \<union> set ps"
    if "y \<in> insert s (set result) - set q" for y
  proof (cases "y = x")
    case True
    with img ps(3) show ?thesis by auto
  next
    case False
    with that inv show ?thesis by (auto simp: bfs_inv_def)
  qed
  moreover have "bfs_edges `` {y} \<subseteq> set (result @ ps)"
    if y: "y \<in> insert s (set (result @ ps)) - set (q @ ps)" for y
  proof -
    from y have "y \<in> insert s (set result) - set q" by auto
    with calculation(3) show ?thesis by simp
  qed
  moreover have "distinct (result @ ps)" "set (q @ ps) \<subseteq> insert s (set (result @ ps))"
    using inv ps(2,3) by (auto simp: bfs_inv_def)
  moreover have "set (result @ ps) \<subseteq> bfs_edges\<^sup>+ `` {s}"
    using inv calculation(1) by (simp add: bfs_inv_def)
  moreover have "\<exists>ds. map_of adj y = Some ds" if "y \<in> insert s (set (result @ ps))" for y
  proof (cases "y \<in> set ps")
    case True
    then show ?thesis by (rule calculation(2))
  next
    case False
    with that inv show ?thesis by (auto simp: bfs_inv_def)
  qed
  ultimately have "bfs_inv s (result @ ps) (q @ ps)"
    unfolding bfs_inv_def by (intro conjI ballI) assumption+
  with ps(1) show ?thesis by simp
qed

lemma bfs_inv_final: "bfs_inv s result [] \<Longrightarrow> distinct result \<and> set result = bfs_edges\<^sup>+ `` {s}"
proof -
  assume inv: "bfs_inv s result []"
  have "y \<in> set result" if "(s, y) \<in> bfs_edges\<^sup>+" for y
    using that
  proof (induction rule: trancl_induct)
    case (base y)
    with inv show ?case by (auto simp: bfs_inv_def)
  next
    case (step y z)
    with inv show ?case by (auto simp: bfs_inv_def)
  qed
  with inv show ?thesis by (auto simp: bfs_inv_def)
qed

lemma bfs_loop_inv:
  "a = adj \<Longrightarrow> bfs_inv s result q \<Longrightarrow> \<exists>r. bfs_loop a result q = Inr r \<and> bfs_inv s r []"
proof (induction a result q rule: bfs_loop.induct [case_names finish step])
  case (finish a result)
  then show ?case by simp
next
  case (step a result x q)
  from step.prems obtain ds where ds: "map_of a x = Some ds" by (auto simp: bfs_inv_def)
  have "bfs_inv s (fst (bfs_push ds result q)) (snd (bfs_push ds result q))"
    using bfs_inv_step step.prems ds by blast
  with step.IH [OF ds refl step.prems(1)] ds show ?case by (simp add: Let_def)
qed

text \<open>The loop never meets a missing key, stops, and returns exactly what is reachable.\<close>

theorem bfs_correct:
  assumes "map_of adj s = Some ds"
  shows "\<exists>r. bfs_loop adj [] [s] = Inr r \<and> distinct r \<and> set r = bfs_edges\<^sup>+ `` {s}"
  using bfs_loop_inv [OF refl bfs_inv_start [OF assms]] bfs_inv_final by blast

end

end
