(* ===== verification/Templates.thy ===== *)
theory Templates imports LF_Prelude begin

text \<open>
  Template references inside task parameters (\<open>engine/task_planning/task_graph.py\<close>):
  the pattern \<open>_TEMPLATE_PATTERN\<close>, i.e. a dollar sign and an opening brace, one or more
  characters other than the closing brace, and the closing brace; its \<open>fullmatch\<close>,
  \<open>finditer\<close> and \<open>sub\<close>; the extraction of all references of a value and their resolution.
  What a single reference stands for is a function argument here; the task graph supplies it.
\<close>

datatype template_token = TLit char | TRef string

text \<open>A match of the pattern at the head of a string: the group and the rest.\<close>

definition template_at :: "string \<Rightarrow> (string \<times> string) option" where
  "template_at s =
     (if py_prefix ''${'' s then
        let body = takeWhile (\<lambda>c. c \<noteq> CHR ''}'') (drop 2 s);
            rest = dropWhile (\<lambda>c. c \<noteq> CHR ''}'') (drop 2 s)
        in if body \<noteq> [] \<and> rest \<noteq> [] then Some (body, tl rest) else None
      else None)"

lemma template_at_Some_iff:
  "template_at s = Some (r, rest) \<longleftrightarrow>
     s = ''${'' @ r @ ''}'' @ rest \<and> r \<noteq> [] \<and> CHR ''}'' \<notin> set r"
proof
  assume L: "template_at s = Some (r, rest)"
  then obtain t where s: "s = ''${'' @ t" and r: "r = takeWhile (\<lambda>c. c \<noteq> CHR ''}'') t"
    and ne: "r \<noteq> []" "dropWhile (\<lambda>c. c \<noteq> CHR ''}'') t \<noteq> []"
    and rest: "rest = tl (dropWhile (\<lambda>c. c \<noteq> CHR ''}'') t)"
    by (auto simp: template_at_def py_prefix_append Let_def split: if_splits)
  have "hd (dropWhile (\<lambda>c. c \<noteq> CHR ''}'') t) = CHR ''}''"
    using hd_dropWhile [OF ne(2)] by simp
  then have "dropWhile (\<lambda>c. c \<noteq> CHR ''}'') t = CHR ''}'' # rest"
    using ne(2) rest by (metis list.collapse)
  then have "t = r @ CHR ''}'' # rest"
    using r by (metis takeWhile_dropWhile_id)
  moreover have "CHR ''}'' \<notin> set r"
    using r by (auto dest: set_takeWhileD)
  ultimately show "s = ''${'' @ r @ ''}'' @ rest \<and> r \<noteq> [] \<and> CHR ''}'' \<notin> set r"
    using s ne by simp
next
  assume R: "s = ''${'' @ r @ ''}'' @ rest \<and> r \<noteq> [] \<and> CHR ''}'' \<notin> set r"
  have "takeWhile (\<lambda>c. c \<noteq> CHR ''}'') (r @ CHR ''}'' # rest) = r"
    and "dropWhile (\<lambda>c. c \<noteq> CHR ''}'') (r @ CHR ''}'' # rest) = CHR ''}'' # rest"
    using R by (auto simp: takeWhile_append dropWhile_append)
  with R show "template_at s = Some (r, rest)"
    by (simp add: template_at_def)
qed

lemma template_at_shorter: "template_at s = Some (r, rest) \<Longrightarrow> length rest < length s"
  by (simp add: template_at_Some_iff)

text \<open>The left-to-right, non-overlapping scan of \<open>finditer\<close> and \<open>sub\<close>.\<close>

function template_tokens :: "string \<Rightarrow> template_token list" where
  "template_tokens [] = []"
| "template_tokens (c # cs) =
     (case template_at (c # cs) of
        Some (r, rest) \<Rightarrow> TRef r # template_tokens rest
      | None \<Rightarrow> TLit c # template_tokens cs)"
  by pat_completeness auto
termination
  by (relation "measure length") (auto dest: template_at_shorter)

definition template_fullmatch :: "string \<Rightarrow> string option" where
  "template_fullmatch s =
     (case template_at s of Some (r, rest) \<Rightarrow> if rest = [] then Some r else None | None \<Rightarrow> None)"

fun token_refs :: "template_token list \<Rightarrow> string list" where
  "token_refs [] = []"
| "token_refs (TLit c # ts) = token_refs ts"
| "token_refs (TRef r # ts) = r # token_refs ts"

definition template_finditer :: "string \<Rightarrow> string list" where
  "template_finditer s = token_refs (template_tokens s)"

fun token_text :: "(string \<Rightarrow> string) \<Rightarrow> template_token \<Rightarrow> string" where
  "token_text repl (TLit c) = [c]"
| "token_text repl (TRef r) = repl r"

definition template_sub :: "(string \<Rightarrow> string) \<Rightarrow> string \<Rightarrow> string" where
  "template_sub repl s = concat (map (token_text repl) (template_tokens s))"

lemma template_sub_identity: "template_sub (\<lambda>r. ''${'' @ r @ ''}'') s = s"
  unfolding template_sub_def
proof (induction s rule: template_tokens.induct)
  case 1
  then show ?case by simp
next
  case (2 c cs)
  show ?case
  proof (cases "template_at (c # cs)")
    case None
    with 2 show ?thesis by simp
  next
    case (Some p)
    obtain r rest where p: "p = (r, rest)" by (cases p)
    with Some have "c # cs = ''${'' @ r @ ''}'' @ rest"
      using template_at_Some_iff by blast
    with Some p 2 show ?thesis by simp
  qed
qed

lemma token_text_cong:
  "(\<And>r. r \<in> set (token_refs ts) \<Longrightarrow> f r = g r) \<Longrightarrow> map (token_text f) ts = map (token_text g) ts"
  by (induction ts rule: token_refs.induct) auto

lemma template_sub_cong:
  "(\<And>r. r \<in> set (template_finditer s) \<Longrightarrow> f r = g r) \<Longrightarrow> template_sub f s = template_sub g s"
  unfolding template_sub_def template_finditer_def using token_text_cong by metis

lemma template_sub_no_refs: "template_finditer s = [] \<Longrightarrow> template_sub repl s = s"
  using template_sub_cong [of s repl "\<lambda>r. ''${'' @ r @ ''}''"] template_sub_identity [of s] by simp

lemma template_fullmatch_tokens: "template_fullmatch s = Some r \<Longrightarrow> template_tokens s = [TRef r]"
  by (cases s) (auto simp: template_fullmatch_def template_at_def split: option.splits if_splits)

lemma template_fullmatch_finditer:
  "template_fullmatch s = Some r \<Longrightarrow> template_finditer s = [r]"
  by (simp add: template_finditer_def template_fullmatch_tokens)

lemma template_finditer_group:
  "r \<in> set (template_finditer s) \<Longrightarrow> r \<noteq> [] \<and> CHR ''}'' \<notin> set r"
  unfolding template_finditer_def
proof (induction s rule: template_tokens.induct)
  case 1
  then show ?case by simp
next
  case (2 c cs)
  show ?case
  proof (cases "template_at (c # cs)")
    case None
    with 2 show ?thesis by simp
  next
    case (Some p)
    obtain q rest where p: "p = (q, rest)" by (cases p)
    with Some have "q \<noteq> [] \<and> CHR ''}'' \<notin> set q" using template_at_Some_iff by blast
    with 2 Some p show ?thesis by auto
  qed
qed

section \<open>References of a value and their resolution\<close>

text \<open>
  \<open>extract_refs\<close> is \<open>_extract_refs\<close>; \<open>resolve_value\<close> is \<open>_resolve_value\<close>. \<open>str_of\<close> is Python's
  \<open>str\<close> on values other than strings, where it is the identity.
\<close>

fun extract_refs :: "pyval \<Rightarrow> string list" where
  "extract_refs (PStr s) = template_finditer s"
| "extract_refs (PDict d) = concat (map (\<lambda>kv. extract_refs (snd kv)) d)"
| "extract_refs (PList xs) = concat (map extract_refs xs)"
| "extract_refs _ = []"

definition py_str :: "(pyval \<Rightarrow> string) \<Rightarrow> pyval \<Rightarrow> string" where
  "py_str str_of v = (case v of PStr s \<Rightarrow> s | _ \<Rightarrow> str_of v)"

definition template_replacer :: "(pyval \<Rightarrow> string) \<Rightarrow> (string \<Rightarrow> pyval) \<Rightarrow> string \<Rightarrow> string" where
  "template_replacer str_of ref r =
     (case ref r of PNone \<Rightarrow> [] | v \<Rightarrow> py_str str_of v)"

fun resolve_value :: "(pyval \<Rightarrow> string) \<Rightarrow> (string \<Rightarrow> pyval) \<Rightarrow> pyval \<Rightarrow> pyval" where
  "resolve_value str_of ref (PStr s) =
     (case template_fullmatch s of
        Some r \<Rightarrow> ref r
      | None \<Rightarrow> PStr (template_sub (template_replacer str_of ref) s))"
| "resolve_value str_of ref (PDict d) =
     PDict (map (\<lambda>kv. (fst kv, resolve_value str_of ref (snd kv))) d)"
| "resolve_value str_of ref (PList xs) = PList (map (resolve_value str_of ref) xs)"
| "resolve_value str_of ref v = v"

text \<open>Resolution looks at nothing but the extracted references.\<close>

lemma resolve_value_cong:
  "(\<And>r. r \<in> set (extract_refs v) \<Longrightarrow> f r = g r) \<Longrightarrow>
     resolve_value str_of f v = resolve_value str_of g v"
proof (induction v)
  case (PStr s)
  then have eq: "\<And>r. r \<in> set (template_finditer s) \<Longrightarrow> f r = g r" by simp
  show ?case
  proof (cases "template_fullmatch s")
    case None
    have "template_sub (template_replacer str_of f) s = template_sub (template_replacer str_of g) s"
      using eq by (intro template_sub_cong) (simp add: template_replacer_def)
    with None show ?thesis by simp
  next
    case (Some r)
    with eq [of r] template_fullmatch_finditer [OF Some] show ?thesis by simp
  qed
next
  case (PList xs)
  have "resolve_value str_of f x = resolve_value str_of g x" if "x \<in> set xs" for x
    using PList.IH [OF that] PList.prems that by auto
  then show ?case by simp
next
  case (PDict d)
  have "resolve_value str_of f (snd kv) = resolve_value str_of g (snd kv)" if "kv \<in> set d" for kv
    using PDict.IH [OF that, of "snd kv"] PDict.prems that
    by (cases kv) (fastforce intro: snds.intros)
  then show ?case by simp
qed simp_all

lemma resolve_value_no_refs: "extract_refs v = [] \<Longrightarrow> resolve_value str_of ref v = v"
proof (induction v)
  case (PStr s)
  then have none: "template_finditer s = []" by simp
  then have "template_fullmatch s = None"
    using template_fullmatch_finditer by (cases "template_fullmatch s") auto
  with none show ?case by (simp add: template_sub_no_refs)
next
  case (PList xs)
  then show ?case by (auto intro: map_idI)
next
  case (PDict d)
  have "resolve_value str_of ref (snd kv) = snd kv" if "kv \<in> set d" for kv
    using PDict.IH [OF that, of "snd kv"] PDict.prems that
    by (cases kv) (fastforce intro: snds.intros)
  then show ?case by (auto intro: map_idI)
qed simp_all

end
