(* ===== verification/Task_Graph.thy ===== *)
theory Task_Graph imports Graph_Loops Templates begin

text \<open>
  The task DAG of \<open>engine/task_planning/task_graph.py\<close>: the data model (\<open>TaskStatus\<close>,
  \<open>RetryPolicy\<close>, \<open>TaskNode\<close>, \<open>TaskGraph\<close>), construction, queries, validation and the state
  transitions of nodes. \<open>TaskGraph.nodes\<close> is an ordered dictionary; a method that mutates a
  node looked up by id is \<open>dict_adjust\<close> on it. Raised exceptions are values of \<open>graph_exn\<close>;
  validation messages are constructors of \<open>graph_error\<close>.
\<close>

section \<open>Data model\<close>

datatype task_status = PENDING | READY | RUNNING | COMPLETED | FAILED | SKIPPED

record retry_policy =
  rp_max_retries :: int
  rp_backoff_seconds :: real
  rp_backoff_multiplier :: real
  rp_fallback_action :: "string option"
  rp_retryable_errors :: "string list"

definition default_retry_policy :: retry_policy where
  "default_retry_policy =
     \<lparr>rp_max_retries = 3, rp_backoff_seconds = 1, rp_backoff_multiplier = 2,
      rp_fallback_action = None, rp_retryable_errors = []\<rparr>"

definition delay_for_attempt :: "retry_policy \<Rightarrow> nat \<Rightarrow> real" where
  "delay_for_attempt p attempt = rp_backoff_seconds p * rp_backoff_multiplier p ^ attempt"

definition is_retryable :: "retry_policy \<Rightarrow> string \<Rightarrow> bool" where
  "is_retryable p err =
     (if rp_retryable_errors p = [] then True
      else list_ex (\<lambda>pattern. py_contains pattern err) (rp_retryable_errors p))"

record task_node =
  tn_id :: string
  tn_name :: string
  tn_action :: string
  tn_action_type :: string
  tn_params :: "pyval dict"
  tn_depends_on :: "string list"
  tn_condition :: "string option"
  tn_expected_effect :: "string option"
  tn_retry_policy :: "retry_policy option"
  tn_timeout_seconds :: real
  tn_repeat_count :: int
  tn_repeat_until :: "string option"
  tn_execution_mode :: string
  tn_status :: task_status
  tn_result :: pyval
  tn_error :: "string option"
  tn_attempt_count :: int
  tn_started_at :: "real option"
  tn_completed_at :: "real option"

definition duration_s :: "task_node \<Rightarrow> real option" where
  "duration_s n =
     (case (tn_started_at n, tn_completed_at n) of
        (Some s, Some c) \<Rightarrow> if s \<noteq> 0 \<and> c \<noteq> 0 then Some (c - s) else None
      | _ \<Rightarrow> None)"

definition terminal_status :: "task_status \<Rightarrow> bool" where
  "terminal_status s \<longleftrightarrow> s = COMPLETED \<or> s = FAILED \<or> s = SKIPPED"

definition is_terminal :: "task_node \<Rightarrow> bool" where
  "is_terminal n = terminal_status (tn_status n)"

record task_graph =
  tg_id :: string
  tg_goal :: string
  tg_nodes :: "task_node dict"
  tg_created_at :: real
  tg_metadata :: "pyval dict"

datatype graph_error =
    SelfDependency string
  | UnknownDependency string string
  | CycleInGraph
  | UnknownTemplateRef string string
  | NonUpstreamTemplateRef string string

datatype graph_exn =
    DuplicateNode string
  | AddUnknownDependency string string
  | AddSelfDependency string
  | ValidationFailed "graph_error list"
  | CycleDetected
  | NodeKeyError string

abbreviation node_ids :: "task_graph \<Rightarrow> string list" where
  "node_ids g \<equiv> map fst (tg_nodes g)"

abbreviation get_node :: "task_graph \<Rightarrow> string \<Rightarrow> task_node option" where
  "get_node g \<equiv> map_of (tg_nodes g)"

text \<open>
  The dictionary discipline: every node is stored once, under its own id
  (\<open>add_node\<close>, \<open>from_dict\<close> and the planner all insert with \<open>nodes[node.id] = node\<close>).
\<close>

definition graph_wf :: "task_graph \<Rightarrow> bool" where
  "graph_wf g \<longleftrightarrow> dict_wf (tg_nodes g) \<and> (\<forall>(k, n) \<in> set (tg_nodes g). tn_id n = k)"

lemma graph_wfI:
  "distinct (node_ids g) \<Longrightarrow> (\<And>k n. (k, n) \<in> set (tg_nodes g) \<Longrightarrow> tn_id n = k) \<Longrightarrow> graph_wf g"
  by (auto simp: graph_wf_def dict_wf_def)

lemma graph_wf_id: "graph_wf g \<Longrightarrow> (k, n) \<in> set (tg_nodes g) \<Longrightarrow> tn_id n = k"
  by (auto simp: graph_wf_def)

lemma graph_wf_get: "graph_wf g \<Longrightarrow> (k, n) \<in> set (tg_nodes g) \<longleftrightarrow> get_node g k = Some n"
  by (auto simp: graph_wf_def dict_wf_lookup dest: map_of_SomeD)

lemma graph_wf_get_id: "graph_wf g \<Longrightarrow> get_node g k = Some n \<Longrightarrow> tn_id n = k"
  by (meson graph_wf_get graph_wf_id)

section \<open>Dependencies\<close>

text \<open>\<open>(d, k) \<in> dep_rel g\<close>: node \<open>k\<close> lists \<open>d\<close> in its \<open>depends_on\<close>.\<close>

definition dep_rel :: "task_graph \<Rightarrow> (string \<times> string) set" where
  "dep_rel g = {(d, k). \<exists>n. get_node g k = Some n \<and> d \<in> set (tn_depends_on n)}"

definition deps_closed :: "task_graph \<Rightarrow> bool" where
  "deps_closed g \<longleftrightarrow> (\<forall>(k, n) \<in> set (tg_nodes g). set (tn_depends_on n) \<subseteq> set (node_ids g))"

lemma dep_rel_range: "(d, k) \<in> dep_rel g \<Longrightarrow> k \<in> set (node_ids g)"
  by (auto simp: dep_rel_def dest: map_of_SomeD intro: rev_image_eqI)

lemma dep_rel_closed: "deps_closed g \<Longrightarrow> (d, k) \<in> dep_rel g \<Longrightarrow> d \<in> set (node_ids g)"
  by (fastforce simp: dep_rel_def deps_closed_def dest: map_of_SomeD)

lemma dep_rel_iff:
  "graph_wf g \<Longrightarrow> (d, k) \<in> dep_rel g \<longleftrightarrow> (\<exists>n. (k, n) \<in> set (tg_nodes g) \<and> d \<in> set (tn_depends_on n))"
  by (simp add: dep_rel_def graph_wf_get)

section \<open>Construction\<close>

fun check_new_deps :: "task_node dict \<Rightarrow> string \<Rightarrow> string list \<Rightarrow> graph_exn option" where
  "check_new_deps nodes nid [] = None"
| "check_new_deps nodes nid (d # ds) =
     (if map_of nodes d = None then Some (AddUnknownDependency nid d)
      else if d = nid then Some (AddSelfDependency nid)
      else check_new_deps nodes nid ds)"

definition add_node :: "task_graph \<Rightarrow> task_node \<Rightarrow> graph_exn + task_graph" where
  "add_node g n =
     (if get_node g (tn_id n) \<noteq> None then Inl (DuplicateNode (tn_id n))
      else case check_new_deps (tg_nodes g) (tn_id n) (tn_depends_on n) of
        Some e \<Rightarrow> Inl e
      | None \<Rightarrow> Inr (g\<lparr>tg_nodes := dict_set (tn_id n) n (tg_nodes g)\<rparr>))"

section \<open>Queries\<close>

definition dep_satisfied :: "task_graph \<Rightarrow> string \<Rightarrow> bool" where
  "dep_satisfied g d =
     (case get_node g d of Some n \<Rightarrow> tn_status n = COMPLETED \<or> tn_status n = SKIPPED | None \<Rightarrow> False)"

text \<open>
  \<open>ready_nodes\<close>: a pending node is ready when all its dependencies are satisfied. A dependency
  that is not in the graph would be a \<open>KeyError\<close>; callers validate first.
\<close>

definition ready_nodes :: "task_graph \<Rightarrow> task_node list" where
  "ready_nodes g =
     filter (\<lambda>n. tn_status n = PENDING \<and> list_all (dep_satisfied g) (tn_depends_on n))
       (map snd (tg_nodes g))"

definition is_complete :: "task_graph \<Rightarrow> bool" where
  "is_complete g \<longleftrightarrow> tg_nodes g \<noteq> [] \<and> list_all (\<lambda>(k, n). is_terminal n) (tg_nodes g)"

definition has_failed :: "task_graph \<Rightarrow> bool" where
  "has_failed g \<longleftrightarrow> list_ex (\<lambda>(k, n). tn_status n = FAILED) (tg_nodes g)"

definition progress :: "task_graph \<Rightarrow> real" where
  "progress g =
     (if tg_nodes g = [] then 1
      else real (length (filter (\<lambda>(k, n). is_terminal n) (tg_nodes g))) / real (length (tg_nodes g)))"

section \<open>Topological order and cycle detection\<close>

text \<open>\<open>topological_order\<close>: adjacency lists and in-degrees count parallel edges.\<close>

definition topo_adjacency :: "task_graph \<Rightarrow> (string \<times> string list) list" where
  "topo_adjacency g =
     map (\<lambda>d. (d, concat (map (\<lambda>(k, n). map (\<lambda>_. tn_id n) (filter (\<lambda>x. x = d) (tn_depends_on n)))
                              (tg_nodes g))))
       (node_ids g)"

definition topo_in_degree :: "task_graph \<Rightarrow> string \<Rightarrow> int" where
  "topo_in_degree g x =
     sum_list (map (\<lambda>(k, n). if tn_id n = x then int (length (tn_depends_on n)) else 0) (tg_nodes g))"

definition missing_dep :: "task_graph \<Rightarrow> string option" where
  "missing_dep g =
     find (\<lambda>d. get_node g d = None) (concat (map (\<lambda>(k, n). tn_depends_on n) (tg_nodes g)))"

definition topological_order :: "task_graph \<Rightarrow> graph_exn + string list" where
  "topological_order g =
     (case missing_dep g of
        Some d \<Rightarrow> Inl (NodeKeyError d)
      | None \<Rightarrow>
          let queue = filter (\<lambda>nid. topo_in_degree g nid = 0) (node_ids g);
              order = kahn_loop (topo_adjacency g) (topo_in_degree g) queue []
          in if length order \<noteq> length (tg_nodes g) then Inl CycleDetected else Inr order)"

text \<open>
  \<open>_detect_cycle\<close>: in-degrees count every entry of \<open>depends_on\<close>, but the scan
  \<open>if nid in other.depends_on\<close> decrements a dependent once.
\<close>

definition cycle_adjacency :: "task_graph \<Rightarrow> (string \<times> string list) list" where
  "cycle_adjacency g =
     map (\<lambda>nid. (nid, map (\<lambda>(k, n). tn_id n)
                        (filter (\<lambda>(k, n). nid \<in> set (tn_depends_on n)) (tg_nodes g))))
       (node_ids g)"

definition cycle_in_degree :: "task_graph \<Rightarrow> string \<Rightarrow> int" where
  "cycle_in_degree g x =
     sum_list (map (\<lambda>(k, n). if tn_id n = x
                             then int (length (filter (\<lambda>d. get_node g d \<noteq> None) (tn_depends_on n)))
                             else 0) (tg_nodes g))"

definition detect_cycle :: "task_graph \<Rightarrow> bool" where
  "detect_cycle g =
     (let queue = filter (\<lambda>nid. cycle_in_degree g nid = 0) (node_ids g);
          visited = length (kahn_loop (cycle_adjacency g) (cycle_in_degree g) queue [])
      in visited \<noteq> length (tg_nodes g))"

section \<open>Transitive dependencies\<close>

fun upstream_step :: "(string \<times> string list) list \<Rightarrow> string list \<Rightarrow> string list" where
  "upstream_step up [] = []"
| "upstream_step up (d # ds) = List.union [d] (List.union (succ_of up d) (upstream_step up ds))"

fun upstream_loop :: "task_graph \<Rightarrow> string list \<Rightarrow> (string \<times> string list) list \<Rightarrow> (string \<times> string list) list" where
  "upstream_loop g [] up = up"
| "upstream_loop g (nid # order) up =
     upstream_loop g order
       (case get_node g nid of
          Some n \<Rightarrow> dict_set nid (upstream_step up (tn_depends_on n)) up
        | None \<Rightarrow> up)"

text \<open>\<open>_build_upstream_map\<close>; the sets are duplicate-free lists.\<close>

definition build_upstream_map :: "task_graph \<Rightarrow> graph_exn + (string \<times> string list) list" where
  "build_upstream_map g =
     (case topological_order g of
        Inl e \<Rightarrow> Inl e
      | Inr order \<Rightarrow> Inr (upstream_loop g order (map (\<lambda>nid. (nid, [])) (node_ids g))))"

definition dependents_of :: "task_graph \<Rightarrow> string \<Rightarrow> string list" where
  "dependents_of g nid =
     map (\<lambda>(k, n). tn_id n) (filter (\<lambda>(k, n). nid \<in> set (tn_depends_on n)) (tg_nodes g))"

definition down_adjacency :: "task_graph \<Rightarrow> (string \<times> string list) list" where
  "down_adjacency g = map (\<lambda>i. (i, dependents_of g i)) (node_ids g)"

definition up_adjacency :: "task_graph \<Rightarrow> (string \<times> string list) list" where
  "up_adjacency g = map (\<lambda>(k, n). (k, tn_depends_on n)) (tg_nodes g)"

definition downstream_of :: "task_graph \<Rightarrow> string \<Rightarrow> graph_exn + string list" where
  "downstream_of g nid =
     (case get_node g nid of
        None \<Rightarrow> Inl (NodeKeyError nid)
      | Some _ \<Rightarrow>
          (case bfs_loop (down_adjacency g) [] [nid] of
             Inl k \<Rightarrow> Inl (NodeKeyError k)
           | Inr r \<Rightarrow> Inr r))"

definition upstream_of :: "task_graph \<Rightarrow> string \<Rightarrow> graph_exn + string list" where
  "upstream_of g nid =
     (case get_node g nid of
        None \<Rightarrow> Inl (NodeKeyError nid)
      | Some _ \<Rightarrow>
          (case bfs_loop (up_adjacency g) [] [nid] of
             Inl k \<Rightarrow> Inl (NodeKeyError k)
           | Inr r \<Rightarrow> Inr r))"

section \<open>Validation\<close>

definition structure_errors :: "task_graph \<Rightarrow> graph_error list" where
  "structure_errors g =
     concat (map (\<lambda>(k, n).
       (if tn_id n \<in> set (tn_depends_on n) then [SelfDependency (tn_id n)] else []) @
       map (UnknownDependency (tn_id n)) (filter (\<lambda>d. get_node g d = None) (tn_depends_on n)))
     (tg_nodes g))"

definition ref_root :: "string \<Rightarrow> string" where
  "ref_root ref = hd (py_split CHR ''.'' ref)"

definition template_error :: "task_graph \<Rightarrow> string \<Rightarrow> string list \<Rightarrow> string \<Rightarrow> graph_error option" where
  "template_error g nid ups ref =
     (let rt = ref_root ref
      in if rt = ''graph'' \<or> rt = ''env'' then None
         else if get_node g rt = None then Some (UnknownTemplateRef nid rt)
         else if rt \<notin> set ups then Some (NonUpstreamTemplateRef nid rt)
         else None)"

definition validate_templates :: "task_graph \<Rightarrow> task_node \<Rightarrow> (string \<times> string list) list \<Rightarrow> graph_error list" where
  "validate_templates g n up =
     List.map_filter (template_error g (tn_id n) (succ_of up (tn_id n)))
       (extract_refs (PDict (tn_params n)))"

definition validate :: "task_graph \<Rightarrow> graph_exn + graph_error list" where
  "validate g =
     (let errors = structure_errors g;
          errors = (if errors = [] \<and> detect_cycle g then [CycleInGraph] else errors)
      in if errors \<noteq> [] then Inr errors
         else case build_upstream_map g of
           Inl e \<Rightarrow> Inl e
         | Inr up \<Rightarrow> Inr (concat (map (\<lambda>(k, n). validate_templates g n up) (tg_nodes g))))"

section \<open>A small plan\<close>

text \<open>Three nodes in a row; the second reads the first one's output. The examples use it.\<close>

definition sample_node :: "string \<Rightarrow> string list \<Rightarrow> pyval dict \<Rightarrow> task_node" where
  "sample_node nid deps params =
     \<lparr>tn_id = nid, tn_name = nid, tn_action = ''act'', tn_action_type = ''skill'', tn_params = params,
      tn_depends_on = deps, tn_condition = None, tn_expected_effect = None, tn_retry_policy = None,
      tn_timeout_seconds = 300, tn_repeat_count = 1, tn_repeat_until = None,
      tn_execution_mode = ''default'', tn_status = PENDING, tn_result = PNone, tn_error = None,
      tn_attempt_count = 0, tn_started_at = None, tn_completed_at = None\<rparr>"

definition sample_graph :: task_graph where
  "sample_graph = \<lparr>tg_id = ''g'', tg_goal = ''goal'',
     tg_nodes = [(''a'', sample_node ''a'' [] []),
                 (''b'', sample_node ''b'' [''a''] [(''x'', PStr ''${a.output}'')]),
                 (''c'', sample_node ''c'' [''b''] [])],
     tg_created_at = 0, tg_metadata = []\<rparr>"

lemma sample_wf: "graph_wf sample_graph" "deps_closed sample_graph"
  by (simp_all add: graph_wf_def dict_wf_def deps_closed_def sample_graph_def sample_node_def)

lemma sample_ids: "set (node_ids sample_graph) = {''a'', ''b'', ''c''}"
  by (simp add: sample_graph_def)

end
