(* ===== verification/Task_Graph_State.thy ===== *)
theory Task_Graph_State imports Task_Graph begin

text \<open>
  State transitions of nodes and parameter resolution of \<open>TaskGraph\<close>. \<open>now\<close> is the reading of
  \<open>time.time()\<close>. \<open>getattr_of\<close> is Python's attribute lookup on values that are not dictionaries
  (\<open>hasattr\<close>/\<open>getattr\<close> in \<open>_nested_get\<close>), \<open>str_of\<close> is \<open>str\<close> on values other than strings.
\<close>

section \<open>State transitions\<close>

definition adjust_node :: "string \<Rightarrow> (task_node \<Rightarrow> task_node) \<Rightarrow> task_graph \<Rightarrow> task_graph" where
  "adjust_node nid f g = g\<lparr>tg_nodes := dict_adjust nid f (tg_nodes g)\<rparr>"

text \<open>\<open>_get_node\<close> raises \<open>KeyError\<close> for an unknown id before anything is written.\<close>

definition with_node :: "string \<Rightarrow> (task_node \<Rightarrow> task_node) \<Rightarrow> task_graph \<Rightarrow> graph_exn + task_graph" where
  "with_node nid f g =
     (if get_node g nid = None then Inl (NodeKeyError nid) else Inr (adjust_node nid f g))"

definition set_running :: "real \<Rightarrow> task_node \<Rightarrow> task_node" where
  "set_running now n = n\<lparr>tn_status := RUNNING, tn_started_at := Some now,
     tn_attempt_count := tn_attempt_count n + 1\<rparr>"

definition set_completed :: "real \<Rightarrow> pyval \<Rightarrow> task_node \<Rightarrow> task_node" where
  "set_completed now result n = n\<lparr>tn_status := COMPLETED, tn_result := result, tn_error := None,
     tn_completed_at := Some now\<rparr>"

definition set_failed :: "real \<Rightarrow> string \<Rightarrow> task_node \<Rightarrow> task_node" where
  "set_failed now err n = n\<lparr>tn_status := FAILED, tn_error := Some err, tn_completed_at := Some now\<rparr>"

definition set_skipped :: "real \<Rightarrow> string \<Rightarrow> task_node \<Rightarrow> task_node" where
  "set_skipped now reason n = n\<lparr>tn_status := SKIPPED,
     tn_error := (if reason = [] then None else Some reason), tn_completed_at := Some now\<rparr>"

definition set_reset :: "task_node \<Rightarrow> task_node" where
  "set_reset n = n\<lparr>tn_status := PENDING, tn_result := PNone, tn_error := None,
     tn_started_at := None, tn_completed_at := None\<rparr>"

definition mark_running :: "real \<Rightarrow> string \<Rightarrow> task_graph \<Rightarrow> graph_exn + task_graph" where
  "mark_running now nid g = with_node nid (set_running now) g"

definition mark_completed :: "real \<Rightarrow> string \<Rightarrow> pyval \<Rightarrow> task_graph \<Rightarrow> graph_exn + task_graph" where
  "mark_completed now nid result g = with_node nid (set_completed now result) g"

definition mark_failed :: "real \<Rightarrow> string \<Rightarrow> string \<Rightarrow> task_graph \<Rightarrow> graph_exn + task_graph" where
  "mark_failed now nid err g = with_node nid (set_failed now err) g"

definition mark_skipped :: "real \<Rightarrow> string \<Rightarrow> string \<Rightarrow> task_graph \<Rightarrow> graph_exn + task_graph" where
  "mark_skipped now nid reason g = with_node nid (set_skipped now reason) g"

definition reset_node :: "string \<Rightarrow> task_graph \<Rightarrow> graph_exn + task_graph" where
  "reset_node nid g = with_node nid set_reset g"

section \<open>What a transition leaves alone\<close>

text \<open>\<open>same_plan\<close>: the static part of a node (everything \<open>from_dict\<close> reads) is unchanged.\<close>

definition same_plan :: "task_node \<Rightarrow> task_node \<Rightarrow> bool" where
  "same_plan n m \<longleftrightarrow>
     tn_id n = tn_id m \<and> tn_name n = tn_name m \<and> tn_action n = tn_action m
   \<and> tn_action_type n = tn_action_type m \<and> tn_params n = tn_params m
   \<and> tn_depends_on n = tn_depends_on m \<and> tn_condition n = tn_condition m
   \<and> tn_expected_effect n = tn_expected_effect m \<and> tn_retry_policy n = tn_retry_policy m
   \<and> tn_timeout_seconds n = tn_timeout_seconds m \<and> tn_repeat_count n = tn_repeat_count m
   \<and> tn_repeat_until n = tn_repeat_until m \<and> tn_execution_mode n = tn_execution_mode m"

lemma same_plan_refl [simp]: "same_plan n n"
  by (simp add: same_plan_def)

lemma same_plan_trans: "same_plan a b \<Longrightarrow> same_plan b c \<Longrightarrow> same_plan a c"
  by (simp add: same_plan_def)

lemma same_plan_set [simp]:
  "same_plan n (set_running now n)" "same_plan n (set_completed now r n)"
  "same_plan n (set_failed now e n)" "same_plan n (set_skipped now s n)" "same_plan n (set_reset n)"
  by (simp_all add: same_plan_def set_running_def set_completed_def set_failed_def
      set_skipped_def set_reset_def)

lemma status_set [simp]:
  "tn_status (set_running now n) = RUNNING" "tn_status (set_completed now r n) = COMPLETED"
  "tn_status (set_failed now e n) = FAILED" "tn_status (set_skipped now s n) = SKIPPED"
  "tn_status (set_reset n) = PENDING"
  by (simp_all add: set_running_def set_completed_def set_failed_def set_skipped_def set_reset_def)

lemma get_adjust_node [dict_simps]:
  "get_node (adjust_node nid f g) k = (if k = nid then map_option f (get_node g k) else get_node g k)"
  by (simp add: adjust_node_def map_of_dict_adjust)

lemma node_ids_adjust [simp]: "node_ids (adjust_node nid f g) = node_ids g"
  by (simp add: adjust_node_def)

lemma adjust_node_frame [simp]:
  "tg_id (adjust_node nid f g) = tg_id g" "tg_goal (adjust_node nid f g) = tg_goal g"
  "tg_metadata (adjust_node nid f g) = tg_metadata g"
  "length (tg_nodes (adjust_node nid f g)) = length (tg_nodes g)"
  by (simp_all add: adjust_node_def)

text \<open>
  \<open>plan_eq\<close>: two graphs with the same node ids in the same order and the same plan under each
  id. All structural facts (dependencies, order, validity) only depend on that.
\<close>

definition plan_eq :: "task_graph \<Rightarrow> task_graph \<Rightarrow> bool" where
  "plan_eq g h \<longleftrightarrow>
     list_all2 (rel_prod (=) same_plan) (tg_nodes g) (tg_nodes h)
   \<and> tg_id g = tg_id h \<and> tg_goal g = tg_goal h \<and> tg_metadata g = tg_metadata h"

lemma plan_eq_refl [simp]: "plan_eq g g"
  by (auto simp: plan_eq_def intro: list_all2_refl)

lemma plan_entry_trans:
  "rel_prod (=) same_plan x y \<Longrightarrow> rel_prod (=) same_plan y z \<Longrightarrow> rel_prod (=) same_plan x z"
  by (auto simp: rel_prod_sel intro: same_plan_trans)

lemma plan_eq_trans: "plan_eq a b \<Longrightarrow> plan_eq b c \<Longrightarrow> plan_eq a c"
  using list_all2_trans [of "rel_prod (=) same_plan" "rel_prod (=) same_plan"
      "rel_prod (=) same_plan" "tg_nodes a" "tg_nodes b" "tg_nodes c", OF plan_entry_trans]
  by (simp add: plan_eq_def)

lemma plan_eq_adjust:
  assumes "\<And>n. same_plan n (f n)"
  shows "plan_eq g (adjust_node nid f g)"
proof -
  have "list_all2 (rel_prod (=) same_plan) d (dict_adjust nid f d)" for d
    using assms by (induction d) (auto simp: dict_adjust_def rel_prod_sel)
  then show ?thesis by (simp add: plan_eq_def adjust_node_def)
qed

lemma plan_eq_node_ids: "plan_eq g h \<Longrightarrow> node_ids g = node_ids h"
proof -
  have "list_all2 (rel_prod (=) same_plan) xs ys \<Longrightarrow> map fst xs = map fst ys" for xs ys
    by (induction rule: list_all2_induct) auto
  then show "plan_eq g h \<Longrightarrow> node_ids g = node_ids h" unfolding plan_eq_def by blast
qed

lemma plan_eq_get:
  assumes "plan_eq g h"
  shows "rel_option same_plan (get_node g k) (get_node h k)"
proof -
  have "list_all2 (rel_prod (=) same_plan) xs ys
      \<Longrightarrow> rel_option same_plan (map_of xs k) (map_of ys k)" for xs ys
    by (induction rule: list_all2_induct) auto
  with assms show ?thesis unfolding plan_eq_def by blast
qed

lemma plan_eq_getE:
  assumes "plan_eq g h" "get_node g k = Some n"
  obtains m where "get_node h k = Some m" "same_plan n m"
  using plan_eq_get [OF assms(1), of k] assms(2) by (auto simp: option_rel_Some1)

lemma plan_eq_getE':
  assumes "plan_eq g h" "get_node h k = Some m"
  obtains n where "get_node g k = Some n" "same_plan n m"
  using plan_eq_get [OF assms(1), of k] assms(2) by (auto simp: option_rel_Some2)

lemma plan_eq_deps:
  "plan_eq g h \<Longrightarrow> map_option tn_depends_on (get_node h k) = map_option tn_depends_on (get_node g k)"
  using plan_eq_get [of g h k]
  by (cases "get_node g k"; cases "get_node h k") (auto simp: same_plan_def)

lemma dep_rel_alt:
  "(d, k) \<in> dep_rel g \<longleftrightarrow>
     (case map_option tn_depends_on (get_node g k) of None \<Rightarrow> False | Some ds \<Rightarrow> d \<in> set ds)"
  by (auto simp: dep_rel_def split: option.splits)

lemma plan_eq_dep_rel: "plan_eq g h \<Longrightarrow> dep_rel h = dep_rel g"
  by (auto simp: dep_rel_alt plan_eq_deps)

lemma plan_eq_wf:
  assumes "plan_eq g h" "graph_wf g"
  shows "graph_wf h"
proof -
  have wf: "dict_wf (tg_nodes h)"
    using assms plan_eq_node_ids [OF assms(1)] by (simp add: graph_wf_def dict_wf_def)
  have "tn_id n = k" if "(k, n) \<in> set (tg_nodes h)" for k n
  proof -
    from that wf have "get_node h k = Some n" by (simp add: dict_wf_lookup)
    then obtain m where "get_node g k = Some m" "same_plan m n"
      using plan_eq_getE' [OF assms(1)] by blast
    with assms(2) show ?thesis by (metis graph_wf_get_id same_plan_def)
  qed
  with wf show ?thesis by (auto simp: graph_wf_def)
qed

lemma plan_eq_deps_closed:
  assumes "plan_eq g h" "graph_wf g" "deps_closed g"
  shows "deps_closed h"
  unfolding deps_closed_def
proof (intro ballI, clarify)
  fix k n d
  assume "(k, n) \<in> set (tg_nodes h)" "d \<in> set (tn_depends_on n)"
  then have "(d, k) \<in> dep_rel h"
    using dep_rel_iff [OF plan_eq_wf [OF assms(1,2)]] by blast
  then have "d \<in> set (node_ids g)"
    using plan_eq_dep_rel [OF assms(1)] dep_rel_closed [OF assms(3)] by simp
  then show "d \<in> set (node_ids h)"
    using plan_eq_node_ids [OF assms(1)] by simp
qed

text \<open>The same update applied to several nodes in turn.\<close>

definition adjust_nodes :: "string list \<Rightarrow> (task_node \<Rightarrow> task_node) \<Rightarrow> task_graph \<Rightarrow> task_graph" where
  "adjust_nodes ids f g = foldl (\<lambda>h nid. adjust_node nid f h) g ids"

lemma adjust_nodes_simps [simp]:
  "adjust_nodes [] f g = g" "adjust_nodes (nid # ids) f g = adjust_nodes ids f (adjust_node nid f g)"
  by (simp_all add: adjust_nodes_def)

lemma node_ids_adjust_nodes [simp]: "node_ids (adjust_nodes ids f g) = node_ids g"
  by (induction ids arbitrary: g) auto

lemma get_adjust_nodes [dict_simps]:
  "distinct ids \<Longrightarrow>
     get_node (adjust_nodes ids f g) k = (if k \<in> set ids then map_option f (get_node g k) else get_node g k)"
  by (induction ids arbitrary: g) (auto simp: get_adjust_node option.map_comp)

lemma plan_eq_adjust_nodes:
  "(\<And>n. same_plan n (f n)) \<Longrightarrow> plan_eq g (adjust_nodes ids f g)"
  by (induction ids arbitrary: g) (auto intro: plan_eq_trans [OF plan_eq_adjust])

lemma with_node_Inr:
  "with_node nid f g = Inr h \<longleftrightarrow> (\<exists>n. get_node g nid = Some n) \<and> h = adjust_node nid f g"
  by (auto simp: with_node_def)

lemmas mark_defs = mark_running_def mark_completed_def mark_failed_def mark_skipped_def reset_node_def

section \<open>Parameter resolution\<close>

fun nested_get :: "(pyval \<Rightarrow> string \<Rightarrow> pyval option) \<Rightarrow> pyval \<Rightarrow> string list \<Rightarrow> pyval" where
  "nested_get getattr_of current [] = current"
| "nested_get getattr_of current (key # keys) =
     (case current of
        PNone \<Rightarrow> PNone
      | PDict d \<Rightarrow> nested_get getattr_of (case map_of d key of Some v \<Rightarrow> v | None \<Rightarrow> PNone) keys
      | v \<Rightarrow> (case getattr_of v key of Some w \<Rightarrow> nested_get getattr_of w keys | None \<Rightarrow> PNone))"

definition none_to_empty :: "pyval \<Rightarrow> pyval" where
  "none_to_empty v = (if v = PNone then PStr [] else v)"

definition resolve_reference :: "(pyval \<Rightarrow> string \<Rightarrow> pyval option) \<Rightarrow> task_graph \<Rightarrow> string \<Rightarrow> pyval" where
  "resolve_reference getattr_of g ref =
     (case py_split CHR ''.'' ref of
        [] \<Rightarrow> PStr []
      | rt # parts \<Rightarrow>
          if rt = ''graph'' then
            (case parts of p # _ \<Rightarrow> if p = ''goal'' then PStr (tg_goal g) else PStr [] | [] \<Rightarrow> PStr [])
          else if rt = ''env'' then
            none_to_empty (nested_get getattr_of
              (case map_of (tg_metadata g) ''env'' of Some v \<Rightarrow> v | None \<Rightarrow> PDict []) parts)
          else case get_node g rt of
            None \<Rightarrow> PStr []
          | Some upstream \<Rightarrow>
              (case parts of
                 [] \<Rightarrow> none_to_empty (tn_result upstream)
               | accessor # rest \<Rightarrow>
                   if accessor = ''output'' \<or> accessor = ''result'' then
                     none_to_empty (if rest = [] then tn_result upstream
                                    else nested_get getattr_of (tn_result upstream) rest)
                   else PStr []))"

definition resolve_params ::
  "(pyval \<Rightarrow> string) \<Rightarrow> (pyval \<Rightarrow> string \<Rightarrow> pyval option) \<Rightarrow> task_graph \<Rightarrow> task_node \<Rightarrow> pyval dict" where
  "resolve_params str_of getattr_of g n =
     map (\<lambda>(key, value).
       (key, none_to_empty (resolve_value str_of (resolve_reference getattr_of g) value)))
     (tn_params n)"

lemma resolve_reference_not_None: "resolve_reference getattr_of g ref \<noteq> PNone"
  by (auto simp: resolve_reference_def none_to_empty_def Let_def split: list.splits option.splits)

text \<open>A reference reads the goal, the metadata and the result of its root node, nothing else.\<close>

lemma resolve_reference_local:
  assumes "tg_goal g = tg_goal h" "tg_metadata g = tg_metadata h"
    and "ref_root ref \<noteq> ''graph'' \<Longrightarrow> ref_root ref \<noteq> ''env'' \<Longrightarrow>
           map_option tn_result (get_node g (ref_root ref)) = map_option tn_result (get_node h (ref_root ref))"
  shows "resolve_reference getattr_of g ref = resolve_reference getattr_of h ref"
proof -
  obtain rt parts where sp: "py_split CHR ''.'' ref = rt # parts"
    by (cases "py_split CHR ''.'' ref") auto
  with assms show ?thesis
    by (cases "get_node g rt"; cases "get_node h rt")
      (auto simp: resolve_reference_def ref_root_def split: list.splits)
qed

end
