(* ===== verification/Task_Graph_Props.thy ===== *)
theory Task_Graph_Props imports Task_Graph_State begin

text \<open>
  Correctness of the structural queries of the task graph. \<open>checked g\<close> is \<open>g\<close> when its
  dictionary is well formed and its dependencies exist (the first two checks of \<open>validate\<close>)
  and the empty graph otherwise, so that the loop contracts of \<open>Graph_Loops\<close> can be
  interpreted on the model's own adjacency and in-degree dictionaries for every graph.
\<close>

section \<open>Counting edges in the dictionaries\<close>

lemma count_list_concat: "count_list (concat xss) x = sum_list (map (\<lambda>xs. count_list xs x) xss)"
  by (induction xss) auto

lemma count_list_const: "count_list (map (\<lambda>_. c) ys) x = (if c = x then length ys else 0)"
  by (induction ys) auto

lemma length_filter_eq: "length (filter (\<lambda>y. y = x) ys) = count_list ys x"
  by (induction ys) auto

text \<open>In a well-formed dictionary only one entry has a given id.\<close>

lemma sum_list_id:
  fixes f :: "task_node \<Rightarrow> 'b :: comm_monoid_add"
  assumes "dict_wf d" "\<And>k n. (k, n) \<in> set d \<Longrightarrow> tn_id n = k"
  shows "sum_list (map (\<lambda>(k, n). if tn_id n = x then f n else 0) d)
       = (case map_of d x of Some n \<Rightarrow> f n | None \<Rightarrow> 0)"
  using assms
proof (induction d)
  case Nil
  then show ?case by simp
next
  case (Cons e d)
  obtain k n where e: "e = (k, n)" by (cases e)
  with Cons.prems have id: "tn_id n = k" and wf: "dict_wf d" and k: "k \<notin> set (map fst d)"
    by (auto simp: dict_wf_def)
  have ids: "tn_id m = j" if "(j, m) \<in> set d" for j m using Cons.prems(2) that by simp
  from k have "map_of d k = None" by (simp add: map_of_eq_None_iff)
  with Cons.IH [OF wf ids] e id show ?case by simp
qed

lemma sum_list_node:
  fixes f :: "task_node \<Rightarrow> 'b :: comm_monoid_add"
  assumes "graph_wf g"
  shows "sum_list (map (\<lambda>(k, n). if tn_id n = x then f n else 0) (tg_nodes g))
       = (case get_node g x of Some n \<Rightarrow> f n | None \<Rightarrow> 0)"
  using assms by (intro sum_list_id) (auto simp: graph_wf_def)

lemma succ_of_map: "x \<in> set xs \<Longrightarrow> succ_of (map (\<lambda>d. (d, f d)) xs) x = f x"
  by (induction xs) (auto simp: succ_of_def)

lemma topo_count:
  assumes "graph_wf g" "m \<in> set (node_ids g)"
  shows "count_list (succ_of (topo_adjacency g) m) x
       = (case get_node g x of Some n \<Rightarrow> count_list (tn_depends_on n) m | None \<Rightarrow> 0)"
proof -
  have "succ_of (topo_adjacency g) m
      = concat (map (\<lambda>(k, n). map (\<lambda>_. tn_id n) (filter (\<lambda>x. x = m) (tn_depends_on n))) (tg_nodes g))"
    unfolding topo_adjacency_def using assms(2) by (rule succ_of_map)
  moreover have "count_list (concat (map (\<lambda>(k, n).
        map (\<lambda>_. tn_id n) (filter (\<lambda>x. x = m) (tn_depends_on n))) d)) x
      = sum_list (map (\<lambda>(k, n). if tn_id n = x then count_list (tn_depends_on n) m else 0) d)" for d
    by (induction d) (auto simp: count_list_const length_filter_eq)
  ultimately have "count_list (succ_of (topo_adjacency g) m) x
      = sum_list (map (\<lambda>(k, n). if tn_id n = x then count_list (tn_depends_on n) m else 0) (tg_nodes g))"
    by simp
  with sum_list_node [OF assms(1)] show ?thesis by simp
qed

lemma topo_in_degree_eq:
  "graph_wf g \<Longrightarrow> topo_in_degree g x
     = (case get_node g x of Some n \<Rightarrow> int (length (tn_depends_on n)) | None \<Rightarrow> 0)"
  by (simp add: topo_in_degree_def sum_list_node)

lemma cycle_count:
  assumes "graph_wf g" "m \<in> set (node_ids g)"
  shows "count_list (succ_of (cycle_adjacency g) m) x
       = (case get_node g x of Some n \<Rightarrow> if m \<in> set (tn_depends_on n) then 1 else 0 | None \<Rightarrow> 0)"
proof -
  have succ: "succ_of (cycle_adjacency g) m
      = map (\<lambda>(k, n). tn_id n) (filter (\<lambda>(k, n). m \<in> set (tn_depends_on n)) (tg_nodes g))"
    unfolding cycle_adjacency_def using assms(2) by (rule succ_of_map)
  have cnt: "count_list (map (\<lambda>(k, n). tn_id n) (filter (\<lambda>(k, n). m \<in> set (tn_depends_on n)) d)) x
      = sum_list (map (\<lambda>(k, n). if tn_id n = x then if m \<in> set (tn_depends_on n) then 1 else 0 else 0) d)"
    for d by (induction d) auto
  show ?thesis
    unfolding succ cnt
    by (rule sum_list_node [OF assms(1), where f = "\<lambda>n. if m \<in> set (tn_depends_on n) then 1 else 0"])
qed

lemma cycle_in_degree_eq:
  "graph_wf g \<Longrightarrow> cycle_in_degree g x
     = (case get_node g x of
          Some n \<Rightarrow> int (length (filter (\<lambda>d. get_node g d \<noteq> None) (tn_depends_on n))) | None \<Rightarrow> 0)"
  by (simp add: cycle_in_degree_def
      sum_list_node [where f = "\<lambda>n. int (length (filter (\<lambda>d. get_node g d \<noteq> None) (tn_depends_on n)))"])

section \<open>Interpreting the loop contracts\<close>

definition empty_graph :: task_graph where
  "empty_graph = \<lparr>tg_id = [], tg_goal = [], tg_nodes = [], tg_created_at = 0, tg_metadata = []\<rparr>"

definition checked :: "task_graph \<Rightarrow> task_graph" where
  "checked g = (if graph_wf g \<and> deps_closed g then g else empty_graph)"

text \<open>Without repeated dependencies the counts of \<open>_detect_cycle\<close> are exact too.\<close>

definition deps_distinct :: "task_graph \<Rightarrow> bool" where
  "deps_distinct g \<longleftrightarrow> (\<forall>(k, n) \<in> set (tg_nodes g). distinct (tn_depends_on n))"

definition checked_distinct :: "task_graph \<Rightarrow> task_graph" where
  "checked_distinct g = (if deps_distinct g then checked g else empty_graph)"

lemma empty_graph_simps [simp]: "tg_nodes empty_graph = []" "graph_wf empty_graph" "deps_closed empty_graph"
  by (simp_all add: empty_graph_def graph_wf_def dict_wf_def deps_closed_def)

lemma checked_ok [simp]: "graph_wf (checked g)" "deps_closed (checked g)"
  by (simp_all add: checked_def)

lemma checked_id [simp]: "graph_wf g \<Longrightarrow> deps_closed g \<Longrightarrow> checked g = g"
  by (simp add: checked_def)

lemma checked_distinct_ok [simp]:
  "graph_wf (checked_distinct g)" "deps_closed (checked_distinct g)" "deps_distinct (checked_distinct g)"
  by (auto simp: checked_distinct_def checked_def deps_distinct_def)

lemma checked_distinct_id [simp]:
  "graph_wf g \<Longrightarrow> deps_closed g \<Longrightarrow> deps_distinct g \<Longrightarrow> checked_distinct g = g"
  by (simp add: checked_distinct_def)

lemma get_node_id_mem: "get_node g k = Some n \<Longrightarrow> k \<in> set (node_ids g)"
  by (metis map_of_key_iff)

lemma deps_known:
  "deps_closed g \<Longrightarrow> get_node g k = Some n \<Longrightarrow> set (tn_depends_on n) \<subseteq> set (node_ids g)"
  by (auto simp: deps_closed_def dest!: map_of_SomeD)

lemma in_ids_iff: "k \<in> set (node_ids g) \<longleftrightarrow> (\<exists>n. get_node g k = Some n)"
  by (metis map_of_key_iff)

lemma topo_succ_mem:
  assumes "graph_wf g" "m \<in> set (node_ids g)"
  shows "x \<in> set (succ_of (topo_adjacency g) m) \<longleftrightarrow> (m, x) \<in> dep_rel g"
  using topo_count [OF assms, of x] count_list_pos_iff [of "succ_of (topo_adjacency g) m" x]
  by (auto simp: dep_rel_def count_list_pos_iff split: option.splits)

lemma cycle_succ_mem:
  assumes "graph_wf g" "m \<in> set (node_ids g)"
  shows "x \<in> set (succ_of (cycle_adjacency g) m) \<longleftrightarrow> (m, x) \<in> dep_rel g"
  using cycle_count [OF assms, of x] count_list_pos_iff [of "succ_of (cycle_adjacency g) m" x]
  by (auto simp: dep_rel_def split: option.splits if_splits)

lemma topo_exact:
  assumes "graph_wf g" "deps_closed g"
  shows "topo_in_degree g x
       = (\<Sum>m\<in>set (node_ids g). int (count_list (succ_of (topo_adjacency g) m) x))"
proof (cases "get_node g x")
  case None
  then show ?thesis using assms(1) by (simp add: topo_in_degree_eq topo_count)
next
  case (Some n)
  have "sum (count_list (tn_depends_on n)) (set (node_ids g)) = length (tn_depends_on n)"
    using deps_known [OF assms(2) Some] by (intro sum_count_set) auto
  then have "(\<Sum>m\<in>set (node_ids g). int (count_list (tn_depends_on n) m)) = int (length (tn_depends_on n))"
    by (metis of_nat_sum)
  with Some assms(1) show ?thesis by (simp add: topo_in_degree_eq topo_count)
qed

lemma cycle_degree_card:
  assumes "graph_wf g" "deps_closed g" "get_node g x = Some n"
  shows "cycle_in_degree g x = int (length (tn_depends_on n))"
    and "(\<Sum>m\<in>set (node_ids g). int (count_list (succ_of (cycle_adjacency g) m) x))
           = int (card (set (tn_depends_on n)))"
proof -
  have sub: "set (tn_depends_on n) \<subseteq> set (node_ids g)" using deps_known [OF assms(2,3)] .
  then have "filter (\<lambda>d. get_node g d \<noteq> None) (tn_depends_on n) = tn_depends_on n"
    by (intro filter_True) (metis in_ids_iff option.distinct(1) subsetD)
  then show "cycle_in_degree g x = int (length (tn_depends_on n))"
    using assms by (simp add: cycle_in_degree_eq)
  have "(\<Sum>m\<in>set (node_ids g). int (count_list (succ_of (cycle_adjacency g) m) x))
      = (\<Sum>m\<in>set (node_ids g). if m \<in> set (tn_depends_on n) then 1 else 0)"
    using assms by (intro sum.cong) (simp_all add: cycle_count)
  also have "\<dots> = int (card (set (node_ids g) \<inter> set (tn_depends_on n)))"
    by (simp add: sum.If_cases Int_def)
  finally show "(\<Sum>m\<in>set (node_ids g). int (count_list (succ_of (cycle_adjacency g) m) x))
           = int (card (set (tn_depends_on n)))"
    using sub by (simp add: Int_absorb1)
qed

lemma cycle_ge:
  assumes "graph_wf g" "deps_closed g" "x \<in> set (node_ids g)"
  shows "(\<Sum>m\<in>set (node_ids g). int (count_list (succ_of (cycle_adjacency g) m) x)) \<le> cycle_in_degree g x"
proof -
  obtain n where n: "get_node g x = Some n" using assms(3) in_ids_iff by blast
  show ?thesis using cycle_degree_card [OF assms(1,2) n] by (simp add: card_length)
qed

interpretation topo: kahn_exact "node_ids (checked g)" "topo_adjacency (checked g)" "topo_in_degree (checked g)"
  for g
proof unfold_locales
  show "distinct (node_ids (checked g))"
    using checked_ok(1) [of g] by (simp add: graph_wf_def dict_wf_def)
  show "set (succ_of (topo_adjacency (checked g)) x) \<subseteq> set (node_ids (checked g))"
    if "x \<in> set (node_ids (checked g))" for x
    using topo_succ_mem [OF checked_ok(1) that] dep_rel_range by blast
qed (simp_all only: topo_exact [OF checked_ok] order_refl)

interpretation cyc: kahn_graph "node_ids (checked g)" "cycle_adjacency (checked g)" "cycle_in_degree (checked g)"
  for g
proof unfold_locales
  show "distinct (node_ids (checked g))"
    using checked_ok(1) [of g] by (simp add: graph_wf_def dict_wf_def)
  show "set (succ_of (cycle_adjacency (checked g)) x) \<subseteq> set (node_ids (checked g))"
    if "x \<in> set (node_ids (checked g))" for x
    using cycle_succ_mem [OF checked_ok(1) that] dep_rel_range by blast
qed (rule cycle_ge [OF checked_ok])

interpretation cycd: kahn_exact "node_ids (checked_distinct g)" "cycle_adjacency (checked_distinct g)"
  "cycle_in_degree (checked_distinct g)"
  for g
proof unfold_locales
  let ?h = "checked_distinct g"
  show "distinct (node_ids ?h)"
    using checked_distinct_ok(1) [of g] by (simp add: graph_wf_def dict_wf_def)
  show "set (succ_of (cycle_adjacency ?h) x) \<subseteq> set (node_ids ?h)" if "x \<in> set (node_ids ?h)" for x
    using cycle_succ_mem [OF checked_distinct_ok(1) that] dep_rel_range by blast
  show eq: "cycle_in_degree ?h x = (\<Sum>m\<in>set (node_ids ?h). int (count_list (succ_of (cycle_adjacency ?h) m) x))"
    if "x \<in> set (node_ids ?h)" for x
  proof -
    obtain n where n: "get_node ?h x = Some n" using \<open>x \<in> set (node_ids ?h)\<close> in_ids_iff by blast
    then have "distinct (tn_depends_on n)"
      using checked_distinct_ok(3) [of g] by (auto simp: deps_distinct_def dest!: map_of_SomeD)
    with cycle_degree_card [OF checked_distinct_ok(1,2) n] show ?thesis by (simp add: distinct_card)
  qed
  then show "(\<Sum>m\<in>set (node_ids ?h). int (count_list (succ_of (cycle_adjacency ?h) m) x)) \<le> cycle_in_degree ?h x"
    if "x \<in> set (node_ids ?h)" for x
    using that by simp
qed

lemma topo_edges: "topo.edges g = dep_rel (checked g)"
  using topo_succ_mem [OF checked_ok(1), of _ g] dep_rel_closed [OF checked_ok(2), of _ _ g]
  by (auto simp: topo.edges_def)

lemma cyc_edges: "cyc.edges g = dep_rel (checked g)"
  using cycle_succ_mem [OF checked_ok(1), of _ g] dep_rel_closed [OF checked_ok(2), of _ _ g]
  by (auto simp: cyc.edges_def)

lemma cycd_edges: "cycd.edges g = dep_rel (checked_distinct g)"
  using cycle_succ_mem [OF checked_distinct_ok(1), of _ g]
    dep_rel_closed [OF checked_distinct_ok(2), of _ _ g]
  by (auto simp: cycd.edges_def)

section \<open>Topological order\<close>

lemma missing_dep_None: "missing_dep g = None \<longleftrightarrow> deps_closed g"
proof -
  have "missing_dep g = None \<longleftrightarrow> (\<forall>(k, n)\<in>set (tg_nodes g). \<forall>d\<in>set (tn_depends_on n). get_node g d \<noteq> None)"
    unfolding missing_dep_def find_None_iff by (simp add: case_prod_beta) blast
  also have "\<dots> \<longleftrightarrow> deps_closed g"
    by (simp add: deps_closed_def subset_eq in_ids_iff del: set_map)
  finally show ?thesis .
qed

lemma missing_dep_Some:
  assumes "graph_wf g" "missing_dep g = Some d"
  shows "d \<notin> set (node_ids g) \<and> (\<exists>k. (d, k) \<in> dep_rel g)"
proof -
  from assms(2) have none: "get_node g d = None"
    and mem: "d \<in> set (concat (map (\<lambda>(k, n). tn_depends_on n) (tg_nodes g)))"
    unfolding missing_dep_def find_Some_iff by (blast, metis nth_mem)
  then show ?thesis using dep_rel_iff [OF assms(1)] in_ids_iff [of d g] by auto
qed

lemma topological_order_loop:
  assumes "graph_wf g" "deps_closed g"
  shows "topological_order g =
    (if length (topo.kahn_order g) \<noteq> length (node_ids g) then Inl CycleDetected else Inr (topo.kahn_order g))"
  using assms missing_dep_None [of g] topo.kahn_order_def [of g] topo.sources_def [of g]
  by (simp add: topological_order_def Let_def)

lemma topological_order_spec:
  assumes "graph_wf g"
  shows "(deps_closed g \<and> acyclic (dep_rel g) \<longleftrightarrow> (\<exists>order. topological_order g = Inr order))
    \<and> (deps_closed g \<and> \<not> acyclic (dep_rel g) \<longleftrightarrow> topological_order g = Inl CycleDetected)
    \<and> (\<forall>order. topological_order g = Inr order \<longrightarrow>
          distinct order \<and> set order = set (node_ids g) \<and> topo_sorted (dep_rel g) order)"
proof (cases "deps_closed g")
  case True
  note loop = topological_order_loop [OF assms True]
  have edges: "topo.edges g = dep_rel g" using topo_edges [of g] assms True by simp
  have iff: "length (topo.kahn_order g) = length (node_ids g) \<longleftrightarrow> acyclic (dep_rel g)"
    using topo.kahn_sound [of g] topo.kahn_complete [of g] edges assms True by auto
  have props: "distinct (topo.kahn_order g)" "topo_sorted (dep_rel g) (topo.kahn_order g)"
    using topo.kahn_order_props [of g] edges by auto
  have full: "length (topo.kahn_order g) = length (node_ids g)
      \<Longrightarrow> set (topo.kahn_order g) = set (node_ids g)"
    using topo.kahn_order_complete_iff [of g] assms True by simp
  show ?thesis using True loop iff props full by auto
next
  case False
  then obtain d where "missing_dep g = Some d"
    using missing_dep_None [of g] by (cases "missing_dep g") auto
  then show ?thesis using False by (simp add: topological_order_def)
qed

lemma topological_order_facts:
  assumes "graph_wf g" "deps_closed g" "acyclic (dep_rel g)"
  shows "\<exists>order. topological_order g = Inr order \<and> distinct order
    \<and> set order = set (node_ids g) \<and> topo_sorted (dep_rel g) order"
  using topological_order_spec [OF assms(1)] assms(2,3) by blast

text \<open>
  What \<open>topological_order\<close> returns, on every graph whose nodes are stored under their own
  ids: an order exactly when all dependencies exist and there is no cycle, the cycle error
  exactly when they exist and there is one, and a \<open>KeyError\<close> otherwise. An order that is
  returned lists every node once and each node after everything it depends on.
\<close>

theorem topological_order_correct:
  assumes "graph_wf g"
  shows "(deps_closed g \<and> acyclic (dep_rel g) \<longleftrightarrow> (\<exists>order. topological_order g = Inr order))
    \<and> (deps_closed g \<and> \<not> acyclic (dep_rel g) \<longleftrightarrow> topological_order g = Inl CycleDetected)
    \<and> (\<forall>order. topological_order g = Inr order \<longrightarrow>
          distinct order \<and> set order = set (node_ids g) \<and> topo_sorted (dep_rel g) order)"
  by (rule topological_order_spec [OF assms])

theorem topological_order_correct_witness:
  "\<exists>order. topological_order sample_graph = Inr order \<and> set order = {''a'', ''b'', ''c''}
     \<and> topo_sorted (dep_rel sample_graph) order"
proof -
  have "topological_order sample_graph = Inr [''a'', ''b'', ''c'']" by code_simp
  with topological_order_correct [OF sample_wf(1)] sample_ids show ?thesis by auto
qed

section \<open>Cycle detection\<close>

lemma detect_cycle_loop:
  "graph_wf g \<Longrightarrow> deps_closed g \<Longrightarrow> detect_cycle g \<longleftrightarrow> length (cyc.kahn_order g) \<noteq> length (node_ids g)"
  using cyc.kahn_order_def [of g] cyc.sources_def [of g]
  by (simp add: detect_cycle_def Let_def)

text \<open>A node with a repeated dependency keeps a positive in-degree and is never visited.\<close>

lemma repeated_dep_unvisited:
  assumes "graph_wf g" "deps_closed g" "get_node g x = Some n" "\<not> distinct (tn_depends_on n)"
  shows "x \<notin> set (cyc.kahn_order g)"
proof
  assume x: "x \<in> set (cyc.kahn_order g)"
  have "cycle_in_degree g x = cyc.from_set g (set (cyc.kahn_order g)) x"
    using cyc.popped_exact [OF x] assms(1,2) by simp
  also have "\<dots> \<le> cyc.from_set g (set (node_ids g)) x"
    using cyc.from_set_mono [of "set (cyc.kahn_order g)" g x] cyc.kahn_order_props(2) [of g] assms by simp
  also have "\<dots> = int (card (set (tn_depends_on n)))"
    using cycle_degree_card(2) [OF assms(1-3)] cyc.from_set_def [of g "set (node_ids g)" x] assms(1,2)
    by simp
  also have "\<dots> < int (length (tn_depends_on n))"
    using assms(4) by (metis card_distinct card_length le_neq_implies_less of_nat_less_iff)
  finally show False using cycle_degree_card(1) [OF assms(1-3)] by simp
qed

lemma detect_cycle_facts:
  assumes "graph_wf g" "deps_closed g"
  shows "detect_cycle g \<longleftrightarrow> \<not> acyclic (dep_rel g) \<or> \<not> deps_distinct g"
proof (cases "deps_distinct g")
  case True
  have edges: "cycd.edges g = dep_rel g" using cycd_edges [of g] assms True by simp
  have "length (cycd.kahn_order g) = length (node_ids g) \<longleftrightarrow> acyclic (dep_rel g)"
    using cycd.kahn_sound [of g] cycd.kahn_complete [of g] edges assms True by auto
  moreover have "cycd.kahn_order g = cyc.kahn_order g"
    using assms True by simp
  ultimately show ?thesis using detect_cycle_loop [OF assms] True by simp
next
  case False
  then obtain k n where kn: "(k, n) \<in> set (tg_nodes g)" "\<not> distinct (tn_depends_on n)"
    by (auto simp: deps_distinct_def)
  then have get: "get_node g k = Some n" using graph_wf_get [OF assms(1)] by simp
  then have "k \<in> set (node_ids g)" using in_ids_iff by blast
  moreover have "k \<notin> set (cyc.kahn_order g)" using repeated_dep_unvisited [OF assms get kn(2)] .
  ultimately have "length (cyc.kahn_order g) \<noteq> length (node_ids g)"
    using cyc.kahn_order_complete_iff [of g] assms by auto
  then show ?thesis using detect_cycle_loop [OF assms] False by simp
qed

text \<open>
  \<open>_detect_cycle\<close> reports a cycle exactly when the dependency relation has one \<^emph>\<open>or\<close> some
  node lists a dependency twice: in-degrees count list entries while the scan decrements a
  dependent once. It never misses a cycle, but its verdict on an acyclic graph with a repeated
  dependency is wrong.
\<close>

theorem detect_cycle_exact:
  assumes "graph_wf g" "deps_closed g"
  shows "detect_cycle g \<longleftrightarrow> \<not> acyclic (dep_rel g) \<or> \<not> deps_distinct g"
  by (rule detect_cycle_facts [OF assms])

theorem detect_cycle_exact_witness:
  "\<not> detect_cycle sample_graph \<and> acyclic (dep_rel sample_graph) \<and> deps_distinct sample_graph"
proof -
  have "\<not> detect_cycle sample_graph" by code_simp
  with detect_cycle_exact [OF sample_wf] show ?thesis by simp
qed

section \<open>Transitive closure queries\<close>

lemma dependents_mem:
  "graph_wf g \<Longrightarrow> x \<in> set (dependents_of g nid) \<longleftrightarrow> (nid, x) \<in> dep_rel g"
  using dep_rel_iff [of g nid x] graph_wf_id [of g] by (force simp: dependents_of_def)

lemma map_of_ids: "map_of (map (\<lambda>i. (i, f i)) ks) k = (if k \<in> set ks then Some (f k) else None)"
  by (induction ks) auto

lemma map_of_down:
  "map_of (down_adjacency g) k = (if k \<in> set (node_ids g) then Some (dependents_of g k) else None)"
  unfolding down_adjacency_def by (rule map_of_ids)

interpretation down: bfs_graph "down_adjacency (checked g)" for g
proof unfold_locales
  fix x ds d
  assume "map_of (down_adjacency (checked g)) x = Some ds" "d \<in> set ds"
  then have "(x, d) \<in> dep_rel (checked g)"
    using dependents_mem [OF checked_ok(1), of d g x] by (auto simp: map_of_down split: if_splits)
  then have "d \<in> set (node_ids (checked g))" by (rule dep_rel_range)
  then show "\<exists>ds'. map_of (down_adjacency (checked g)) d = Some ds'"
    by (simp add: map_of_down)
qed

lemma map_of_up: "map_of (up_adjacency g) k = map_option tn_depends_on (get_node g k)"
  unfolding up_adjacency_def by (induction "tg_nodes g") (auto simp: map_of_map)

interpretation up: bfs_graph "up_adjacency (checked g)" for g
proof unfold_locales
  fix x ds d
  assume "map_of (up_adjacency (checked g)) x = Some ds" "d \<in> set ds"
  then have "d \<in> set (node_ids (checked g))"
    using deps_known [OF checked_ok(2), of g x] by (auto simp: map_of_up)
  then show "\<exists>ds'. map_of (up_adjacency (checked g)) d = Some ds'"
    using in_ids_iff [of d "checked g"] by (auto simp: map_of_up)
qed

lemma down_edges: "down.bfs_edges g = dep_rel (checked g)"
proof -
  have "(x, d) \<in> down.bfs_edges g \<longleftrightarrow> (x, d) \<in> dep_rel (checked g)" for x d
    using dependents_mem [OF checked_ok(1), of d g x] dep_rel_closed [OF checked_ok(2), of x d g]
    by (auto simp: down.bfs_edges_def map_of_down simp del: set_map)
  then show ?thesis by auto
qed

lemma up_edges: "up.bfs_edges g = (dep_rel (checked g))\<inverse>"
  by (auto simp: up.bfs_edges_def map_of_up dep_rel_def)

lemma transitive_queries_spec:
  assumes "graph_wf g" "deps_closed g"
  shows "if get_node g nid = None
    then downstream_of g nid = Inl (NodeKeyError nid) \<and> upstream_of g nid = Inl (NodeKeyError nid)
    else \<exists>down up. downstream_of g nid = Inr down \<and> upstream_of g nid = Inr up
      \<and> distinct down \<and> set down = {k. (nid, k) \<in> (dep_rel g)\<^sup>+}
      \<and> distinct up \<and> set up = {d. (d, nid) \<in> (dep_rel g)\<^sup>+}"
proof (cases "get_node g nid")
  case None
  then show ?thesis by (simp add: downstream_of_def upstream_of_def)
next
  case (Some n)
  then have ids: "nid \<in> set (node_ids g)" using in_ids_iff by blast
  have "\<exists>r. bfs_loop (down_adjacency g) [] [nid] = Inr r \<and> distinct r \<and> set r = (dep_rel g)\<^sup>+ `` {nid}"
    using down.bfs_correct [of g nid "dependents_of g nid"] down_edges [of g] assms ids
    by (simp add: map_of_down del: set_map)
  moreover have "\<exists>u. bfs_loop (up_adjacency g) [] [nid] = Inr u \<and> distinct u
      \<and> set u = ((dep_rel g)\<inverse>)\<^sup>+ `` {nid}"
    using up.bfs_correct [of g nid "tn_depends_on n"] up_edges [of g] assms Some
    by (simp add: map_of_up)
  ultimately show ?thesis
    using Some by (auto simp: downstream_of_def upstream_of_def trancl_converse)
qed

text \<open>
  \<open>downstream_of\<close> and \<open>upstream_of\<close> compute the transitive dependents and dependencies of
  a node, exactly, without repetitions and without raising, when all dependencies exist; an
  unknown id is a \<open>KeyError\<close>.
\<close>

theorem transitive_queries_correct:
  assumes "graph_wf g" "deps_closed g"
  shows "if get_node g nid = None
    then downstream_of g nid = Inl (NodeKeyError nid) \<and> upstream_of g nid = Inl (NodeKeyError nid)
    else \<exists>down up. downstream_of g nid = Inr down \<and> upstream_of g nid = Inr up
      \<and> distinct down \<and> set down = {k. (nid, k) \<in> (dep_rel g)\<^sup>+}
      \<and> distinct up \<and> set up = {d. (d, nid) \<in> (dep_rel g)\<^sup>+}"
  by (rule transitive_queries_spec [OF assms])

theorem transitive_queries_correct_witness:
  "\<exists>down. downstream_of sample_graph ''a'' = Inr down \<and> set down = {k. (''a'', k) \<in> (dep_rel sample_graph)\<^sup>+}
     \<and> ''c'' \<in> set down"
proof -
  have "get_node sample_graph ''a'' \<noteq> None" by (simp add: sample_graph_def)
  moreover have "downstream_of sample_graph ''a'' = Inr [''b'', ''c'']" by code_simp
  ultimately show ?thesis using transitive_queries_correct [OF sample_wf, of "''a''"] by auto
qed

end
