(* ===== verification/Task_Graph_Validate.thy ===== *)
theory Task_Graph_Validate imports Task_Graph_Props begin

text \<open>
  What \<open>validate\<close> accepts, and what acceptance buys: graphs grown by \<open>add_node\<close> stay sound,
  ready nodes exist while work is left, and a node's parameters depend on upstream results only.
\<close>

section \<open>The upstream map\<close>

lemma set_upstream_step:
  "set (upstream_step up ds) = (\<Union>d\<in>set ds. insert d (set (succ_of up d)))"
  by (induction ds) auto

lemma succ_of_dict_set: "succ_of (dict_set k v d) x = (if x = k then v else succ_of d x)"
  by (simp add: succ_of_def map_of_dict_set)

lemma trancl_by_last:
  "{m. (m, n) \<in> E\<^sup>+} = (\<Union>d\<in>{d. (d, n) \<in> E}. insert d {m. (m, d) \<in> E\<^sup>+})"
  by (auto dest: tranclD2 rtranclD intro: trancl_into_trancl)

lemma upstream_loop_correct:
  assumes "graph_wf g" "topo_sorted (dep_rel g) (xs @ order)" "distinct (xs @ order)"
    and "set (xs @ order) \<subseteq> set (node_ids g)"
    and "\<And>n. n \<in> set xs \<Longrightarrow> set (succ_of up n) = {m. (m, n) \<in> (dep_rel g)\<^sup>+}"
  shows "\<forall>n\<in>set (xs @ order). set (succ_of (upstream_loop g order up) n) = {m. (m, n) \<in> (dep_rel g)\<^sup>+}"
  using assms
proof (induction order arbitrary: xs up)
  case Nil
  then show ?case by simp
next
  case (Cons nid order)
  from Cons.prems(4) obtain n where n: "get_node g nid = Some n"
    using in_ids_iff [of nid g] by auto
  let ?up = "dict_set nid (upstream_step up (tn_depends_on n)) up"
  have deps: "set (tn_depends_on n) = {d. (d, nid) \<in> dep_rel g}" using n by (auto simp: dep_rel_def)
  have "set (tn_depends_on n) \<subseteq> set xs"
    using Cons.prems(2) deps unfolding topo_sorted_def by blast
  then have "set (upstream_step up (tn_depends_on n))
      = (\<Union>d\<in>set (tn_depends_on n). insert d {m. (m, d) \<in> (dep_rel g)\<^sup>+})"
    using Cons.prems(5) by (auto simp: set_upstream_step)
  also have "\<dots> = {m. (m, nid) \<in> (dep_rel g)\<^sup>+}"
    unfolding deps trancl_by_last [of nid] ..
  finally have new: "set (succ_of ?up nid) = {m. (m, nid) \<in> (dep_rel g)\<^sup>+}"
    by (simp add: succ_of_dict_set)
  have old: "set (succ_of ?up k) = {m. (m, k) \<in> (dep_rel g)\<^sup>+}" if "k \<in> set xs" for k
    using that Cons.prems(3,5) by (auto simp: succ_of_dict_set)
  have "\<forall>k\<in>set ((xs @ [nid]) @ order).
      set (succ_of (upstream_loop g order ?up) k) = {m. (m, k) \<in> (dep_rel g)\<^sup>+}"
  proof (rule Cons.IH)
    show "set (succ_of ?up k) = {m. (m, k) \<in> (dep_rel g)\<^sup>+}" if "k \<in> set (xs @ [nid])" for k
      using that new old by auto
  qed (use Cons.prems in simp_all)
  with n show ?case by simp
qed

lemma upstream_map_facts:
  assumes "graph_wf g" "deps_closed g" "acyclic (dep_rel g)"
  shows "\<exists>up. build_upstream_map g = Inr up
    \<and> (\<forall>nid\<in>set (node_ids g). set (succ_of up nid) = {m. (m, nid) \<in> (dep_rel g)\<^sup>+})"
proof -
  obtain order where order: "topological_order g = Inr order" "distinct order"
    "set order = set (node_ids g)" "topo_sorted (dep_rel g) order"
    using topological_order_facts [OF assms] by blast
  let ?up = "upstream_loop g order (map (\<lambda>nid. (nid, [])) (node_ids g))"
  have "\<forall>n\<in>set ([] @ order). set (succ_of ?up n) = {m. (m, n) \<in> (dep_rel g)\<^sup>+}"
    by (rule upstream_loop_correct) (use assms order in simp_all)
  with order show ?thesis by (simp add: build_upstream_map_def)
qed

text \<open>
  \<open>_build_upstream_map\<close> succeeds on every acyclic graph with existing dependencies and
  maps each node to exactly the nodes it transitively depends on.
\<close>

theorem build_upstream_map_correct:
  assumes "graph_wf g" "deps_closed g" "acyclic (dep_rel g)"
  shows "\<exists>up. build_upstream_map g = Inr up
    \<and> (\<forall>nid\<in>set (node_ids g). set (succ_of up nid) = {m. (m, nid) \<in> (dep_rel g)\<^sup>+})"
  by (rule upstream_map_facts [OF assms])

lemma sample_acyclic: "acyclic (dep_rel sample_graph)" "deps_distinct sample_graph"
proof -
  have "\<not> detect_cycle sample_graph" by code_simp
  then show "acyclic (dep_rel sample_graph)" "deps_distinct sample_graph"
    using detect_cycle_facts [OF sample_wf] by auto
qed

theorem build_upstream_map_correct_witness:
  "\<exists>up. build_upstream_map sample_graph = Inr up
     \<and> (\<forall>nid\<in>{''a'', ''b'', ''c''}. set (succ_of up nid) = {m. (m, nid) \<in> (dep_rel sample_graph)\<^sup>+})"
  using build_upstream_map_correct [OF sample_wf sample_acyclic(1)] unfolding sample_ids .

section \<open>Acceptance\<close>

definition ref_ok :: "task_graph \<Rightarrow> string \<Rightarrow> string \<Rightarrow> bool" where
  "ref_ok g nid ref \<longleftrightarrow>
     ref_root ref = ''graph'' \<or> ref_root ref = ''env'' \<or> (ref_root ref, nid) \<in> (dep_rel g)\<^sup>+"

definition templates_upstream :: "task_graph \<Rightarrow> bool" where
  "templates_upstream g \<longleftrightarrow>
     (\<forall>(k, n) \<in> set (tg_nodes g). \<forall>ref \<in> set (extract_refs (PDict (tn_params n))). ref_ok g k ref)"

definition valid_graph :: "task_graph \<Rightarrow> bool" where
  "valid_graph g \<longleftrightarrow> graph_wf g \<and> deps_closed g \<and> acyclic (dep_rel g) \<and> deps_distinct g
     \<and> templates_upstream g"

lemma structure_errors_Nil:
  assumes "graph_wf g"
  shows "structure_errors g = [] \<longleftrightarrow> deps_closed g \<and> (\<forall>k. (k, k) \<notin> dep_rel g)"
proof -
  have self: "(\<forall>k. (k, k) \<notin> dep_rel g) \<longleftrightarrow> (\<forall>(k, n)\<in>set (tg_nodes g). tn_id n \<notin> set (tn_depends_on n))"
    using dep_rel_iff [OF assms] graph_wf_id [OF assms] by fastforce
  have closed: "deps_closed g \<longleftrightarrow>
      (\<forall>(k, n)\<in>set (tg_nodes g). filter (\<lambda>d. get_node g d = None) (tn_depends_on n) = [])"
    by (simp add: deps_closed_def filter_empty_conv subset_eq in_ids_iff del: set_map)
  show ?thesis
    unfolding self closed structure_errors_def by (auto split: if_splits)
qed

lemma trancl_root_known:
  "deps_closed g \<Longrightarrow> (r, k) \<in> (dep_rel g)\<^sup>+ \<Longrightarrow> get_node g r \<noteq> None"
  using dep_rel_closed [of g] in_ids_iff [of r g] by (auto dest!: tranclD)

lemma template_error_None:
  assumes "deps_closed g" "set ups = {m. (m, nid) \<in> (dep_rel g)\<^sup>+}"
  shows "template_error g nid ups ref = None \<longleftrightarrow> ref_ok g nid ref"
  using assms(2) trancl_root_known [OF assms(1), of "ref_root ref" nid]
  by (auto simp: template_error_def ref_ok_def Let_def)

lemma map_filter_Nil: "List.map_filter f xs = [] \<longleftrightarrow> (\<forall>x\<in>set xs. f x = None)"
  by (induction xs) (auto simp: List.map_filter_def)

lemma validate_spec:
  assumes "graph_wf g"
  shows "\<exists>errors. validate g = Inr errors \<and> (errors = [] \<longleftrightarrow> valid_graph g)"
proof (cases "structure_errors g = [] \<and> \<not> detect_cycle g")
  case True
  then have closed: "deps_closed g" using structure_errors_Nil [OF assms] by simp
  have ok: "acyclic (dep_rel g)" "deps_distinct g"
    using True detect_cycle_facts [OF assms closed] by auto
  obtain up where up: "build_upstream_map g = Inr up"
    "\<forall>nid\<in>set (node_ids g). set (succ_of up nid) = {m. (m, nid) \<in> (dep_rel g)\<^sup>+}"
    using upstream_map_facts [OF assms closed ok(1)] by blast
  have node: "validate_templates g n up = [] \<longleftrightarrow>
      (\<forall>ref\<in>set (extract_refs (PDict (tn_params n))). ref_ok g k ref)"
    if "(k, n) \<in> set (tg_nodes g)" for k n
  proof -
    from that have "k \<in> set (node_ids g)" by force
    with up(2) have "set (succ_of up k) = {m. (m, k) \<in> (dep_rel g)\<^sup>+}" by blast
    then show ?thesis
      using template_error_None [OF closed] graph_wf_id [OF assms that]
      by (simp add: validate_templates_def map_filter_Nil)
  qed
  have "concat (map (\<lambda>(k, n). validate_templates g n up) (tg_nodes g)) = [] \<longleftrightarrow> templates_upstream g"
    using node by (auto simp: templates_upstream_def)
  then show ?thesis
    using True up(1) assms closed ok by (simp add: validate_def valid_graph_def Let_def)
next
  case False
  have "\<not> valid_graph g"
  proof
    assume "valid_graph g"
    then have "structure_errors g = []"
      using structure_errors_Nil [OF assms] by (auto simp: valid_graph_def acyclic_def)
    with False \<open>valid_graph g\<close> detect_cycle_facts [OF assms] show False
      by (simp add: valid_graph_def)
  qed
  with False show ?thesis by (auto simp: validate_def Let_def)
qed

text \<open>
  C32. \<open>validate\<close> never raises on a graph whose nodes are stored under their own ids, and it
  accepts exactly the graphs whose dependencies exist, are acyclic and not repeated, and whose
  template references name the goal, the environment or a node transitively upstream.
\<close>

theorem validate_correct:
  assumes "graph_wf g"
  shows "\<exists>errors. validate g = Inr errors \<and> (errors = [] \<longleftrightarrow> valid_graph g)"
  by (rule validate_spec [OF assms])

lemma sample_valid: "validate sample_graph = Inr []" "valid_graph sample_graph"
proof -
  show "validate sample_graph = Inr []" by code_simp
  then show "valid_graph sample_graph" using validate_spec [OF sample_wf(1)] by simp
qed

theorem validate_correct_witness:
  "validate sample_graph = Inr [] \<and> valid_graph sample_graph"
proof -
  have "validate sample_graph = Inr []" by code_simp
  with validate_correct [OF sample_wf(1)] show ?thesis by auto
qed

end
