(* ===== verification/Task_Graph_Plan.thy ===== *)
theory Task_Graph_Plan imports Task_Graph_Validate begin

text \<open>
  Working with a task graph: graphs grown by \<open>add_node\<close> stay sound, ready nodes exist while
  work is left, and a validated node's resolved parameters depend on upstream results only.
\<close>

section \<open>Growing a graph\<close>

definition sound_graph :: "task_graph \<Rightarrow> bool" where
  "sound_graph g \<longleftrightarrow> graph_wf g \<and> deps_closed g \<and> acyclic (dep_rel g)"

fun build_graph :: "task_graph \<Rightarrow> task_node list \<Rightarrow> graph_exn + task_graph" where
  "build_graph g [] = Inr g"
| "build_graph g (n # ns) = (case add_node g n of Inl e \<Rightarrow> Inl e | Inr h \<Rightarrow> build_graph h ns)"

lemma check_new_deps_None:
  "check_new_deps nodes nid ds = None \<longleftrightarrow> (\<forall>d\<in>set ds. map_of nodes d \<noteq> None \<and> d \<noteq> nid)"
  by (induction ds) auto

lemma check_new_deps_Some:
  "check_new_deps nodes nid ds = Some e \<Longrightarrow>
     (\<exists>d\<in>set ds. e = AddUnknownDependency nid d \<and> map_of nodes d = None)
   \<or> (e = AddSelfDependency nid \<and> nid \<in> set ds)"
  by (induction ds) (auto split: if_splits)

lemma dict_set_new: "map_of d k = None \<Longrightarrow> dict_set k v d = d @ [(k, v)]"
  by (induction d) (auto simp: dict_set_def split: if_splits)

lemma add_node_Inr:
  "add_node g n = Inr h \<longleftrightarrow>
     get_node g (tn_id n) = None \<and> (\<forall>d\<in>set (tn_depends_on n). get_node g d \<noteq> None)
   \<and> h = g\<lparr>tg_nodes := tg_nodes g @ [(tn_id n, n)]\<rparr>"
  using check_new_deps_None [of "tg_nodes g" "tn_id n" "tn_depends_on n"]
  by (cases "check_new_deps (tg_nodes g) (tn_id n) (tn_depends_on n)")
    (auto simp: add_node_def dict_set_new split: option.splits)

lemma dep_rel_add_node:
  assumes "deps_closed g" "add_node g n = Inr h"
  shows "dep_rel h = dep_rel g \<union> set (tn_depends_on n) \<times> {tn_id n}"
proof -
  have new: "get_node g (tn_id n) = None" and h: "tg_nodes h = tg_nodes g @ [(tn_id n, n)]"
    using assms(2) by (auto simp: add_node_Inr)
  have "get_node h k = (if k = tn_id n then Some n else get_node g k)" for k
    using new by (cases "get_node g k") (auto simp: h map_add_def)
  with new show ?thesis by (auto simp: dep_rel_def split: if_splits)
qed

lemma sound_add_node:
  assumes "sound_graph g" "add_node g n = Inr h"
  shows "sound_graph h"
proof -
  from assms(1) have g: "graph_wf g" "deps_closed g" "acyclic (dep_rel g)"
    by (auto simp: sound_graph_def)
  have new: "get_node g (tn_id n) = None"
    and known: "\<forall>d\<in>set (tn_depends_on n). get_node g d \<noteq> None"
    and h: "tg_nodes h = tg_nodes g @ [(tn_id n, n)]"
    using assms(2) by (auto simp: add_node_Inr)
  have nid: "tn_id n \<notin> set (node_ids g)" using new in_ids_iff [of "tn_id n" g] by simp
  have wf: "graph_wf h" using g(1) nid by (auto simp: graph_wf_def dict_wf_def h)
  have closed: "deps_closed h"
    using g(2) known in_ids_iff [of _ g] by (fastforce simp: deps_closed_def h)
  have src: "(tn_id n, y) \<notin> dep_rel h" for y
  proof
    assume "(tn_id n, y) \<in> dep_rel h"
    then have "(tn_id n, y) \<in> dep_rel g \<or> tn_id n \<in> set (tn_depends_on n)"
      using dep_rel_add_node [OF g(2) assms(2)] by auto
    with nid known new dep_rel_closed [OF g(2)] show False by auto
  qed
  have "acyclic (dep_rel h)"
    unfolding acyclic_def
  proof (intro allI notI)
    fix x assume x: "(x, x) \<in> (dep_rel h)\<^sup>+"
    have stay: "(a, b) \<in> (dep_rel h)\<^sup>+ \<Longrightarrow> b \<noteq> tn_id n \<Longrightarrow> (a, b) \<in> (dep_rel g)\<^sup>+" for a b
    proof (induction rule: trancl_induct)
      case (base y)
      then show ?case using dep_rel_add_node [OF g(2) assms(2)] by auto
    next
      case (step y z)
      from step.hyps(2) src have "y \<noteq> tn_id n" by blast
      with step have "(a, y) \<in> (dep_rel g)\<^sup>+" by blast
      moreover have "(y, z) \<in> dep_rel g"
        using step.hyps(2) step.prems dep_rel_add_node [OF g(2) assms(2)] by auto
      ultimately show ?case by simp
    qed
    show False
    proof (cases "x = tn_id n")
      case True
      with x src show False by (meson tranclD)
    next
      case False
      with x stay g(3) show False by (auto simp: acyclic_def)
    qed
  qed
  with wf closed show ?thesis by (simp add: sound_graph_def)
qed

lemma sound_build_graph: "sound_graph g \<Longrightarrow> build_graph g ns = Inr h \<Longrightarrow> sound_graph h"
  by (induction ns arbitrary: g) (auto split: sum.splits dest: sound_add_node)

text \<open>
  Nodes can only be added in dependency order, so a graph built from nothing by any sequence
  of \<open>add_node\<close> calls is keyed by node id, has only existing dependencies and is acyclic; its
  topological order therefore exists.
\<close>

theorem build_graph_sound:
  assumes "build_graph (g\<lparr>tg_nodes := []\<rparr>) ns = Inr h"
  shows "graph_wf h \<and> deps_closed h \<and> acyclic (dep_rel h)
    \<and> (\<exists>order. topological_order h = Inr order \<and> topo_sorted (dep_rel h) order)"
proof -
  have "sound_graph (g\<lparr>tg_nodes := []\<rparr>)"
    by (simp add: sound_graph_def graph_wf_def dict_wf_def deps_closed_def dep_rel_def acyclic_def)
  from sound_build_graph [OF this assms] have s: "graph_wf h" "deps_closed h" "acyclic (dep_rel h)"
    by (auto simp: sound_graph_def)
  with topological_order_facts [OF s] show ?thesis by blast
qed

theorem build_graph_sound_witness:
  "\<exists>h. build_graph (sample_graph\<lparr>tg_nodes := []\<rparr>) [sample_node ''a'' [] [], sample_node ''b'' [''a''] []] = Inr h
     \<and> node_ids h = [''a'', ''b''] \<and> acyclic (dep_rel h)"
proof -
  let ?h = "sample_graph\<lparr>tg_nodes := [(''a'', sample_node ''a'' [] []), (''b'', sample_node ''b'' [''a''] [])]\<rparr>"
  have "build_graph (sample_graph\<lparr>tg_nodes := []\<rparr>) [sample_node ''a'' [] [], sample_node ''b'' [''a''] []] = Inr ?h"
    by (simp add: add_node_def sample_node_def dict_set_def)
  with build_graph_sound [OF this] show ?thesis by auto
qed

text \<open>
  \<open>add_node\<close> succeeds exactly when the id is new and every dependency exists, and then it
  appends the node; a refusal names a duplicate id or a dependency that is not in the graph
  (the self-dependency error is unreachable, because the id is not in the graph yet).
\<close>

theorem add_node_outcomes:
  "(case add_node g n of
      Inr h \<Rightarrow> get_node g (tn_id n) = None \<and> (\<forall>d\<in>set (tn_depends_on n). get_node g d \<noteq> None)
               \<and> tg_nodes h = tg_nodes g @ [(tn_id n, n)]
    | Inl (DuplicateNode k) \<Rightarrow> k = tn_id n \<and> get_node g k \<noteq> None
    | Inl (AddUnknownDependency k d) \<Rightarrow>
        k = tn_id n \<and> get_node g k = None \<and> d \<in> set (tn_depends_on n) \<and> get_node g d = None
    | Inl _ \<Rightarrow> False)"
proof (cases "add_node g n")
  case (Inr h)
  then show ?thesis using add_node_Inr [of g n h] by simp
next
  case (Inl e)
  have self: "check_new_deps (tg_nodes g) k ds \<noteq> Some (AddSelfDependency j)"
    if "get_node g k = None" for k j ds
    using that by (induction ds) auto
  show ?thesis
  proof (cases "get_node g (tn_id n)")
    case None
    with Inl have "check_new_deps (tg_nodes g) (tn_id n) (tn_depends_on n) = Some e"
      by (auto simp: add_node_def split: option.splits)
    with None self [OF None] check_new_deps_Some [OF this] Inl show ?thesis by auto
  next
    case (Some m)
    with Inl show ?thesis by (auto simp: add_node_def)
  qed
qed

theorem add_node_outcomes_witness:
  "add_node sample_graph (sample_node ''d'' [''x''] []) = Inl (AddUnknownDependency ''d'' ''x'')
   \<and> get_node sample_graph ''x'' = None"
proof -
  have "add_node sample_graph (sample_node ''d'' [''x''] []) = Inl (AddUnknownDependency ''d'' ''x'')"
    by (simp add: add_node_def sample_graph_def sample_node_def)
  with add_node_outcomes [where g = sample_graph and n = "sample_node ''d'' [''x''] []"] show ?thesis by simp
qed

section \<open>Ready nodes\<close>

lemma finite_dep_rel: "deps_closed g \<Longrightarrow> finite (dep_rel g)"
  by (rule finite_subset [of _ "set (node_ids g) \<times> set (node_ids g)"])
    (use dep_rel_closed [of g] dep_rel_range [of _ _ g] in auto)

lemma wf_dep_rel: "sound_graph g \<Longrightarrow> wf (dep_rel g)"
  using finite_dep_rel [of g] by (auto simp: sound_graph_def intro: finite_acyclic_wf)

lemma dep_satisfied_iff:
  "dep_satisfied g d \<longleftrightarrow> (\<exists>n. get_node g d = Some n \<and> tn_status n \<in> {COMPLETED, SKIPPED})"
  by (auto simp: dep_satisfied_def split: option.splits)

lemma ready_nodes_iff:
  assumes "graph_wf g"
  shows "n \<in> set (ready_nodes g) \<longleftrightarrow>
     get_node g (tn_id n) = Some n \<and> tn_status n = PENDING
   \<and> (\<forall>d. (d, tn_id n) \<in> dep_rel g \<longrightarrow> dep_satisfied g d)"
proof -
  have "n \<in> snd ` set (tg_nodes g) \<longleftrightarrow> (\<exists>k. (k, n) \<in> set (tg_nodes g))" by force
  also have "\<dots> \<longleftrightarrow> get_node g (tn_id n) = Some n"
    using graph_wf_get [OF assms] graph_wf_id [OF assms, of _ n] by blast
  finally have mem: "n \<in> snd ` set (tg_nodes g) \<longleftrightarrow> get_node g (tn_id n) = Some n" .
  show ?thesis
    unfolding ready_nodes_def set_filter list_all_iff dep_rel_def using mem by auto
qed

lemma map_tn_id_nodes: "graph_wf g \<Longrightarrow> map tn_id (map snd (tg_nodes g)) = node_ids g"
  by (auto simp: graph_wf_def)

lemma ready_nodes_distinct:
  assumes "graph_wf g"
  shows "distinct (map tn_id (ready_nodes g))"
proof -
  have "distinct (map tn_id (map snd (tg_nodes g)))"
    unfolding map_tn_id_nodes [OF assms] using assms by (simp add: graph_wf_def dict_wf_def)
  then show ?thesis unfolding ready_nodes_def by (rule distinct_map_filter)
qed

text \<open>A pending node whose ancestors are pending or satisfied has a ready node at or above it.\<close>

lemma ready_above:
  assumes "sound_graph g" "get_node g k = Some n" "tn_status n = PENDING"
    and "\<And>a m. (a, k) \<in> (dep_rel g)\<^sup>+ \<Longrightarrow> get_node g a = Some m
           \<Longrightarrow> tn_status m \<in> {PENDING, COMPLETED, SKIPPED}"
  shows "\<exists>r. r \<in> set (ready_nodes g) \<and> (tn_id r, k) \<in> (dep_rel g)\<^sup>*"
  using wf_dep_rel [OF assms(1)] assms(2-4)
proof (induction k arbitrary: n rule: wf_induct_rule)
  case (less k)
  from assms(1) have g: "graph_wf g" "deps_closed g" by (auto simp: sound_graph_def)
  show ?case
  proof (cases "\<exists>d m. (d, k) \<in> dep_rel g \<and> get_node g d = Some m \<and> tn_status m = PENDING")
    case True
    then obtain d m where d: "(d, k) \<in> dep_rel g" "get_node g d = Some m" "tn_status m = PENDING"
      by blast
    have "\<exists>r. r \<in> set (ready_nodes g) \<and> (tn_id r, d) \<in> (dep_rel g)\<^sup>*"
      by (rule less.IH [OF d]) (use less.prems(3) d(1) in \<open>blast intro: trancl_into_trancl\<close>)
    with d(1) show ?thesis by (blast intro: rtrancl_into_rtrancl)
  next
    case False
    have "dep_satisfied g d" if d: "(d, k) \<in> dep_rel g" for d
    proof -
      obtain m where m: "get_node g d = Some m"
        using dep_rel_closed [OF g(2) d] in_ids_iff [of d g] by blast
      with False d less.prems(3) [of d m] show ?thesis by (auto simp: dep_satisfied_iff)
    qed
    moreover have "tn_id n = k" using graph_wf_get_id [OF g(1) less.prems(1)] .
    ultimately have "n \<in> set (ready_nodes g)"
      using less.prems(1,2) ready_nodes_iff [OF g(1)] by simp
    with \<open>tn_id n = k\<close> show ?thesis by auto
  qed
qed

text \<open>
  \<open>ready_nodes\<close> lists, without repetition, exactly the pending nodes whose dependencies are
  all completed or skipped; and as long as no node has failed or is in flight, an unfinished
  sound graph has a ready node.
\<close>

theorem ready_nodes_correct:
  assumes "graph_wf g" "deps_closed g" "acyclic (dep_rel g)"
  shows "distinct (map tn_id (ready_nodes g))
    \<and> (\<forall>n. n \<in> set (ready_nodes g) \<longleftrightarrow> get_node g (tn_id n) = Some n \<and> tn_status n = PENDING
          \<and> (\<forall>d. (d, tn_id n) \<in> dep_rel g \<longrightarrow> dep_satisfied g d))
    \<and> (list_all (\<lambda>(k, n). tn_status n \<in> {PENDING, COMPLETED, SKIPPED}) (tg_nodes g)
         \<longrightarrow> tg_nodes g \<noteq> [] \<longrightarrow> \<not> is_complete g \<longrightarrow> ready_nodes g \<noteq> [])"
proof (intro conjI impI)
  assume st: "list_all (\<lambda>(k, n). tn_status n \<in> {PENDING, COMPLETED, SKIPPED}) (tg_nodes g)"
    and "tg_nodes g \<noteq> []" "\<not> is_complete g"
  then obtain k n where kn: "(k, n) \<in> set (tg_nodes g)" "\<not> is_terminal n"
    by (auto simp: is_complete_def list_all_iff)
  with st have "tn_status n = PENDING"
    by (auto simp: list_all_iff is_terminal_def terminal_status_def)
  moreover have "get_node g k = Some n" using kn(1) graph_wf_get [OF assms(1)] by simp
  moreover have "tn_status m \<in> {PENDING, COMPLETED, SKIPPED}" if "get_node g a = Some m" for a m
    using st map_of_SomeD [OF that] by (auto simp: list_all_iff)
  ultimately obtain r where "r \<in> set (ready_nodes g)"
    using ready_above [of g k n] assms by (auto simp: sound_graph_def)
  then show "ready_nodes g \<noteq> []" by auto
qed (use ready_nodes_distinct [OF assms(1)] ready_nodes_iff [OF assms(1)] in auto)

theorem ready_nodes_correct_witness:
  "ready_nodes sample_graph = [sample_node ''a'' [] []] \<and> ready_nodes sample_graph \<noteq> []"
proof
  show "ready_nodes sample_graph = [sample_node ''a'' [] []]"
    by (simp add: ready_nodes_def sample_graph_def sample_node_def dep_satisfied_def)
  have "list_all (\<lambda>(k, n). tn_status n \<in> {PENDING, COMPLETED, SKIPPED}) (tg_nodes sample_graph)"
    "tg_nodes sample_graph \<noteq> []" "\<not> is_complete sample_graph"
    by (simp_all add: sample_graph_def sample_node_def is_complete_def is_terminal_def terminal_status_def)
  with ready_nodes_correct [OF sample_wf sample_acyclic(1)] show "ready_nodes sample_graph \<noteq> []" by blast
qed

section \<open>Parameters\<close>

lemma ref_ok_stable:
  assumes "plan_eq g h" "ref_ok g k ref"
    and "\<And>a. (a, k) \<in> (dep_rel g)\<^sup>+ \<Longrightarrow>
           map_option tn_result (get_node g a) = map_option tn_result (get_node h a)"
  shows "resolve_reference getattr_of g ref = resolve_reference getattr_of h ref"
proof (rule resolve_reference_local)
  show "tg_goal g = tg_goal h" "tg_metadata g = tg_metadata h"
    using assms(1) by (simp_all add: plan_eq_def)
  show "map_option tn_result (get_node g (ref_root ref)) = map_option tn_result (get_node h (ref_root ref))"
    if "ref_root ref \<noteq> ''graph''" "ref_root ref \<noteq> ''env''"
    using assms(2,3) that by (auto simp: ref_ok_def)
qed

lemma resolve_params_cong:
  assumes "\<And>ref. ref \<in> set (extract_refs (PDict (tn_params n)))
             \<Longrightarrow> resolve_reference getattr_of g ref = resolve_reference getattr_of h ref"
  shows "resolve_params str_of getattr_of g n = resolve_params str_of getattr_of h n"
  unfolding resolve_params_def
proof (rule map_cong [OF refl])
  fix x assume "x \<in> set (tn_params n)"
  then have "set (extract_refs (snd x)) \<subseteq> set (extract_refs (PDict (tn_params n)))" by auto
  with assms have "resolve_value str_of (resolve_reference getattr_of g) (snd x)
      = resolve_value str_of (resolve_reference getattr_of h) (snd x)"
    by (intro resolve_value_cong) blast
  then show "(case x of (key, value) \<Rightarrow> (key, none_to_empty (resolve_value str_of (resolve_reference getattr_of g) value)))
      = (case x of (key, value) \<Rightarrow> (key, none_to_empty (resolve_value str_of (resolve_reference getattr_of h) value)))"
    by (cases x) simp
qed

lemma resolve_params_stable:
  assumes "valid_graph g" "plan_eq g h" "get_node g k = Some n"
    and "\<And>a. (a, k) \<in> (dep_rel g)\<^sup>+ \<Longrightarrow>
           map_option tn_result (get_node g a) = map_option tn_result (get_node h a)"
  shows "resolve_params str_of getattr_of g n = resolve_params str_of getattr_of h n"
proof (rule resolve_params_cong)
  fix ref assume "ref \<in> set (extract_refs (PDict (tn_params n)))"
  with assms(1) map_of_SomeD [OF assms(3)] have "ref_ok g k ref"
    by (auto simp: valid_graph_def templates_upstream_def)
  then show "resolve_reference getattr_of g ref = resolve_reference getattr_of h ref"
    using ref_ok_stable [OF assms(2), of k ref] assms(4) by blast
qed

text \<open>
  Once \<open>validate\<close> accepts a graph, the parameters resolved for a node are a function of its
  plan and of the results of the nodes it transitively depends on: progress elsewhere in the
  graph cannot change them, and no resolved parameter is \<open>None\<close>.
\<close>

theorem resolve_params_upstream_only:
  assumes "graph_wf g" "validate g = Inr []" "plan_eq g h" "get_node g k = Some n"
    and "\<And>a. (a, k) \<in> (dep_rel g)\<^sup>+ \<Longrightarrow>
           map_option tn_result (get_node g a) = map_option tn_result (get_node h a)"
  shows "resolve_params str_of getattr_of g n = resolve_params str_of getattr_of h n
    \<and> PNone \<notin> snd ` set (resolve_params str_of getattr_of g n)"
proof
  have "valid_graph g" using validate_spec [OF assms(1)] assms(2) by simp
  then show "resolve_params str_of getattr_of g n = resolve_params str_of getattr_of h n"
    using resolve_params_stable [OF _ assms(3,4)] assms(5) by blast
  show "PNone \<notin> snd ` set (resolve_params str_of getattr_of g n)"
    by (auto simp: resolve_params_def none_to_empty_def split: if_splits)
qed

theorem resolve_params_upstream_only_witness:
  "resolve_params (\<lambda>_. []) (\<lambda>_ _. None) sample_graph (sample_node ''b'' [''a''] [(''x'', PStr ''${a.output}'')])
     = resolve_params (\<lambda>_. []) (\<lambda>_ _. None) (adjust_node ''c'' (set_completed 1 (PInt 5)) sample_graph)
         (sample_node ''b'' [''a''] [(''x'', PStr ''${a.output}'')])"
proof -
  let ?h = "adjust_node ''c'' (set_completed 1 (PInt 5)) sample_graph"
  have "get_node sample_graph ''b'' = Some (sample_node ''b'' [''a''] [(''x'', PStr ''${a.output}'')])"
    by (simp add: sample_graph_def)
  moreover have "plan_eq sample_graph ?h" by (rule plan_eq_adjust) simp
  moreover have "map_option tn_result (get_node sample_graph k) = map_option tn_result (get_node ?h k)"
    if "(k, ''b'') \<in> (dep_rel sample_graph)\<^sup>+" for k
  proof -
    have "(''b'', ''c'') \<in> dep_rel sample_graph"
      by (simp add: dep_rel_def sample_graph_def sample_node_def)
    with that sample_acyclic(1) have "k \<noteq> ''c''"
      by (auto simp: acyclic_def dest: trancl_into_trancl2)
    then show ?thesis by (simp add: get_adjust_node)
  qed
  ultimately show ?thesis
    using resolve_params_upstream_only [OF sample_wf(1) sample_valid(1), of ?h "''b''"] by blast
qed

end
