(* ===== verification/Task_Graph_Codec.thy ===== *)
theory Task_Graph_Codec imports Task_Graph_Plan begin

text \<open>
  Serialisation of task graphs (\<open>TaskGraph.from_dict\<close>, \<open>TaskGraph.to_dict\<close>). The serialised
  form is a record with one field per key that the code reads or writes; \<open>None\<close> in an option
  field is an absent key. Keys whose absent and null values mean the same (\<open>condition\<close>,
  \<open>expected_effect\<close>, \<open>repeat_until\<close>, \<open>fallback_action\<close>) share one \<open>None\<close>.
\<close>

section \<open>Serialised form\<close>

record retry_data =
  rd_max_retries :: "int option"
  rd_backoff_seconds :: "real option"
  rd_backoff_multiplier :: "real option"
  rd_fallback_action :: "string option option"
  rd_retryable_errors :: "string list option"

record node_data =
  nd_id :: "string option"
  nd_name :: "string option"
  nd_action :: "string option"
  nd_action_type :: "string option"
  nd_params :: "pyval dict option"
  nd_depends_on :: "string list option"
  nd_condition :: "string option"
  nd_expected_effect :: "string option"
  nd_retry_policy :: "retry_data option"
  nd_timeout_seconds :: "real option"
  nd_repeat_count :: "int option"
  nd_repeat_until :: "string option"
  nd_execution_mode :: "string option"
  nd_status :: "task_status option"
  nd_result :: "pyval option"
  nd_error :: "string option"
  nd_attempt_count :: "int option"
  nd_started_at :: "real option"
  nd_completed_at :: "real option"

record graph_data =
  gd_id :: "string option"
  gd_goal :: "string option"
  gd_nodes :: "node_data list option"
  gd_created_at :: "real option"
  gd_metadata :: "pyval dict option"

datatype codec_error = MissingKey string | InvalidGraph "graph_error list" | ValidateRaised graph_exn

definition get_or :: "'a option \<Rightarrow> 'a \<Rightarrow> 'a" where
  "get_or x d = (case x of Some v \<Rightarrow> v | None \<Rightarrow> d)"

lemma get_or_simps [simp]: "get_or (Some v) d = v" "get_or None d = d"
  by (simp_all add: get_or_def)

section \<open>Decoding\<close>

text \<open>An empty retry dictionary is falsy: no policy is built for it.\<close>

definition retry_empty :: "retry_data \<Rightarrow> bool" where
  "retry_empty r \<longleftrightarrow> rd_max_retries r = None \<and> rd_backoff_seconds r = None
     \<and> rd_backoff_multiplier r = None \<and> rd_fallback_action r = None \<and> rd_retryable_errors r = None"

definition retry_from_dict :: "retry_data option \<Rightarrow> retry_policy option" where
  "retry_from_dict r =
     (case r of
        None \<Rightarrow> None
      | Some d \<Rightarrow> if retry_empty d then None
          else Some \<lparr>rp_max_retries = get_or (rd_max_retries d) 3,
                     rp_backoff_seconds = get_or (rd_backoff_seconds d) 1,
                     rp_backoff_multiplier = get_or (rd_backoff_multiplier d) 2,
                     rp_fallback_action = get_or (rd_fallback_action d) None,
                     rp_retryable_errors = get_or (rd_retryable_errors d) []\<rparr>)"

definition node_from_dict :: "node_data \<Rightarrow> codec_error + task_node" where
  "node_from_dict d =
     (case nd_id d of
        None \<Rightarrow> Inl (MissingKey ''id'')
      | Some nid \<Rightarrow>
        (case nd_action d of
           None \<Rightarrow> Inl (MissingKey ''action'')
         | Some act \<Rightarrow> Inr
            \<lparr>tn_id = nid, tn_name = get_or (nd_name d) nid, tn_action = act,
             tn_action_type = get_or (nd_action_type d) ''skill'',
             tn_params = get_or (nd_params d) [], tn_depends_on = get_or (nd_depends_on d) [],
             tn_condition = nd_condition d, tn_expected_effect = nd_expected_effect d,
             tn_retry_policy = retry_from_dict (nd_retry_policy d),
             tn_timeout_seconds = get_or (nd_timeout_seconds d) 300,
             tn_repeat_count = get_or (nd_repeat_count d) 1, tn_repeat_until = nd_repeat_until d,
             tn_execution_mode = get_or (nd_execution_mode d) ''default'',
             tn_status = PENDING, tn_result = PNone, tn_error = None, tn_attempt_count = 0,
             tn_started_at = None, tn_completed_at = None\<rparr>))"

fun nodes_from_dict :: "task_node dict \<Rightarrow> node_data list \<Rightarrow> codec_error + task_node dict" where
  "nodes_from_dict acc [] = Inr acc"
| "nodes_from_dict acc (d # ds) =
     (case node_from_dict d of
        Inl e \<Rightarrow> Inl e
      | Inr n \<Rightarrow> nodes_from_dict (dict_set (tn_id n) n acc) ds)"

text \<open>\<open>fresh_id\<close> is \<open>uuid.uuid4().hex[:12]\<close> and \<open>now\<close> the clock, used when the keys are absent.\<close>

definition from_dict :: "string \<Rightarrow> real \<Rightarrow> graph_data \<Rightarrow> codec_error + task_graph" where
  "from_dict fresh_id now d =
     (case nodes_from_dict [] (get_or (gd_nodes d) []) of
        Inl e \<Rightarrow> Inl e
      | Inr nodes \<Rightarrow>
          let g = \<lparr>tg_id = get_or (gd_id d) fresh_id, tg_goal = get_or (gd_goal d) [],
                   tg_nodes = nodes, tg_created_at = get_or (gd_created_at d) now,
                   tg_metadata = get_or (gd_metadata d) []\<rparr>
          in (case validate g of
                Inl e \<Rightarrow> Inl (ValidateRaised e)
              | Inr [] \<Rightarrow> Inr g
              | Inr errors \<Rightarrow> Inl (InvalidGraph errors)))"

section \<open>Encoding\<close>

definition retry_to_dict :: "retry_policy \<Rightarrow> retry_data" where
  "retry_to_dict p =
     \<lparr>rd_max_retries = Some (rp_max_retries p), rd_backoff_seconds = Some (rp_backoff_seconds p),
      rd_backoff_multiplier = Some (rp_backoff_multiplier p),
      rd_fallback_action = Some (rp_fallback_action p),
      rd_retryable_errors = Some (rp_retryable_errors p)\<rparr>"

definition node_to_dict :: "task_node \<Rightarrow> node_data" where
  "node_to_dict n =
     \<lparr>nd_id = Some (tn_id n), nd_name = Some (tn_name n), nd_action = Some (tn_action n),
      nd_action_type = Some (tn_action_type n), nd_params = Some (tn_params n),
      nd_depends_on = Some (tn_depends_on n), nd_condition = tn_condition n,
      nd_expected_effect = tn_expected_effect n,
      nd_retry_policy = map_option retry_to_dict (tn_retry_policy n),
      nd_timeout_seconds = Some (tn_timeout_seconds n), nd_repeat_count = Some (tn_repeat_count n),
      nd_repeat_until = tn_repeat_until n, nd_execution_mode = Some (tn_execution_mode n),
      nd_status = Some (tn_status n), nd_result = Some (tn_result n), nd_error = tn_error n,
      nd_attempt_count = Some (tn_attempt_count n), nd_started_at = tn_started_at n,
      nd_completed_at = tn_completed_at n\<rparr>"

definition to_dict :: "task_graph \<Rightarrow> graph_data" where
  "to_dict g =
     \<lparr>gd_id = Some (tg_id g), gd_goal = Some (tg_goal g),
      gd_nodes = Some (map (\<lambda>(k, n). node_to_dict n) (tg_nodes g)),
      gd_created_at = Some (tg_created_at g), gd_metadata = Some (tg_metadata g)\<rparr>"

section \<open>Round trip\<close>

text \<open>A node as \<open>from_dict\<close> leaves it: the plan, with the runtime fields at their defaults.\<close>

definition fresh_node :: "task_node \<Rightarrow> task_node" where
  "fresh_node n = n\<lparr>tn_status := PENDING, tn_result := PNone, tn_error := None,
     tn_attempt_count := 0, tn_started_at := None, tn_completed_at := None\<rparr>"

definition fresh_graph :: "task_graph \<Rightarrow> task_graph" where
  "fresh_graph g = g\<lparr>tg_nodes := map (\<lambda>(k, n). (k, fresh_node n)) (tg_nodes g)\<rparr>"

lemma same_plan_fresh: "same_plan n (fresh_node n)"
  by (simp add: same_plan_def fresh_node_def)

lemma plan_eq_fresh: "plan_eq g (fresh_graph g)"
proof -
  have "list_all2 (rel_prod (=) same_plan) d (map (\<lambda>(k, n). (k, fresh_node n)) d)" for d
    by (induction d) (auto simp: rel_prod_sel same_plan_fresh)
  then show ?thesis by (simp add: plan_eq_def fresh_graph_def)
qed

lemma retry_roundtrip: "retry_from_dict (map_option retry_to_dict p) = p"
  by (cases p) (simp_all add: retry_from_dict_def retry_to_dict_def retry_empty_def)

lemma node_roundtrip: "node_from_dict (node_to_dict n) = Inr (fresh_node n)"
  by (simp add: node_from_dict_def node_to_dict_def retry_roundtrip fresh_node_def)

lemma nodes_roundtrip:
  assumes "dict_wf (acc @ d)" "\<And>k n. (k, n) \<in> set d \<Longrightarrow> tn_id n = k"
  shows "nodes_from_dict acc (map (\<lambda>(k, n). node_to_dict n) d)
       = Inr (acc @ map (\<lambda>(k, n). (k, fresh_node n)) d)"
  using assms
proof (induction d arbitrary: acc)
  case Nil
  then show ?case by simp
next
  case (Cons e d)
  obtain k n where e: "e = (k, n)" by (cases e)
  with Cons.prems(2) have id: "tn_id (fresh_node n) = k" by (simp add: fresh_node_def)
  have "map_of acc k = None"
    using Cons.prems(1) e by (auto simp: dict_wf_def map_of_eq_None_iff)
  then have upd: "dict_set k (fresh_node n) acc = acc @ [(k, fresh_node n)]" by (rule dict_set_new)
  have "dict_wf ((acc @ [(k, fresh_node n)]) @ d)"
    using Cons.prems(1) e by (auto simp: dict_wf_def)
  moreover have "tn_id m = j" if "(j, m) \<in> set d" for j m
    using that Cons.prems(2) [of j m] by simp
  ultimately have "nodes_from_dict (acc @ [(k, fresh_node n)]) (map (\<lambda>(k, n). node_to_dict n) d)
      = Inr ((acc @ [(k, fresh_node n)]) @ map (\<lambda>(k, n). (k, fresh_node n)) d)"
    by (rule Cons.IH)
  with e id upd show ?case by (simp add: node_roundtrip)
qed

lemma nodes_from_dict_fresh:
  assumes "nodes_from_dict acc ds = Inr nodes" "dict_wf acc"
    and "\<And>k n. (k, n) \<in> set acc \<Longrightarrow> tn_id n = k \<and> fresh_node n = n"
  shows "dict_wf nodes \<and> (\<forall>(k, n) \<in> set nodes. tn_id n = k \<and> fresh_node n = n)"
  using assms
proof (induction ds arbitrary: acc)
  case Nil
  then show ?case by auto
next
  case (Cons d ds)
  then obtain n where n: "node_from_dict d = Inr n"
    "nodes_from_dict (dict_set (tn_id n) n acc) ds = Inr nodes"
    by (auto split: sum.splits)
  have fresh: "fresh_node n = n"
    using n(1) by (auto simp: node_from_dict_def fresh_node_def split: option.splits)
  have sub: "set (dict_set (tn_id n) n acc) \<subseteq> insert (tn_id n, n) (set acc)"
    unfolding dict_set_def by (induction acc) auto
  show ?case
  proof (rule Cons.IH [OF n(2)])
    show "dict_wf (dict_set (tn_id n) n acc)" using Cons.prems(2) by (rule dict_wf_set)
    show "tn_id m = k \<and> fresh_node m = m" if "(k, m) \<in> set (dict_set (tn_id n) n acc)" for k m
      using that sub Cons.prems(3) fresh by blast
  qed
qed

text \<open>
  Whatever \<open>from_dict\<close> returns passes validation, is keyed by node id and is entirely
  pending: decoding never yields a graph the scheduler would refuse.
\<close>

theorem from_dict_valid:
  assumes "from_dict fresh_id now d = Inr g"
  shows "graph_wf g \<and> validate g = Inr [] \<and> valid_graph g \<and> fresh_graph g = g"
proof -
  obtain nodes where nodes: "nodes_from_dict [] (get_or (gd_nodes d) []) = Inr nodes"
    using assms by (auto simp: from_dict_def split: sum.splits)
  with assms have g: "tg_nodes g = nodes" and ok: "validate g = Inr []"
    by (auto simp: from_dict_def Let_def split: sum.splits list.splits)
  have fresh: "dict_wf nodes \<and> (\<forall>(k, n) \<in> set nodes. tn_id n = k \<and> fresh_node n = n)"
    by (rule nodes_from_dict_fresh [OF nodes]) (simp_all add: dict_wf_def)
  then have wf: "graph_wf g" by (auto simp: graph_wf_def g)
  have "map (\<lambda>(k, n). (k, fresh_node n)) nodes = nodes"
    by (rule map_idI) (use fresh in auto)
  then have "fresh_graph g = g" by (simp add: fresh_graph_def g)
  with wf ok validate_spec [OF wf] show ?thesis by auto
qed

theorem from_dict_valid_witness:
  "\<exists>g. from_dict ''id'' 0 (to_dict sample_graph) = Inr g \<and> valid_graph g \<and> fresh_graph g = g"
proof -
  have "from_dict ''id'' 0 (to_dict sample_graph) = Inr sample_graph" by code_simp
  with from_dict_valid [OF this] show ?thesis by blast
qed

lemma validate_plan_eq:
  assumes "plan_eq g h" "graph_wf g" "validate g = Inr []"
  shows "validate h = Inr []"
proof -
  have wf: "graph_wf h" by (rule plan_eq_wf [OF assms(1,2)])
  have g: "valid_graph g" using validate_spec [OF assms(2)] assms(3) by simp
  have nodes: "\<exists>n. (k, n) \<in> set (tg_nodes g) \<and> same_plan n m" if "(k, m) \<in> set (tg_nodes h)" for k m
  proof -
    from that have "get_node h k = Some m" using graph_wf_get [OF wf] by simp
    then obtain n where "get_node g k = Some n" "same_plan n m" by (rule plan_eq_getE' [OF assms(1)])
    then show ?thesis using graph_wf_get [OF assms(2)] by blast
  qed
  have "templates_upstream h"
    unfolding templates_upstream_def
  proof (intro ballI, clarify)
    fix k m ref
    assume "(k, m) \<in> set (tg_nodes h)" and ref: "ref \<in> set (extract_refs (PDict (tn_params m)))"
    then obtain n where "(k, n) \<in> set (tg_nodes g)" "same_plan n m" using nodes by blast
    moreover from this have "tn_params n = tn_params m" by (simp add: same_plan_def)
    ultimately have "ref_ok g k ref"
      using ref g by (auto simp: valid_graph_def templates_upstream_def simp del: extract_refs.simps)
    then show "ref_ok h k ref" by (simp add: ref_ok_def plan_eq_dep_rel [OF assms(1)])
  qed
  moreover have "deps_distinct h"
    unfolding deps_distinct_def
  proof (intro ballI, clarify)
    fix k m assume "(k, m) \<in> set (tg_nodes h)"
    then obtain n where "(k, n) \<in> set (tg_nodes g)" "same_plan n m" using nodes by blast
    with g show "distinct (tn_depends_on m)" by (auto simp: valid_graph_def deps_distinct_def same_plan_def)
  qed
  ultimately have "valid_graph h"
    using g wf plan_eq_deps_closed [OF assms(1,2)] plan_eq_dep_rel [OF assms(1)]
    by (simp add: valid_graph_def)
  with validate_spec [OF wf] show ?thesis by auto
qed

text \<open>
  Decoding an encoded valid graph gives back its plan, node by node and in order, with every
  runtime field at its default: the status, result, error, attempt count and times that
  \<open>to_dict\<close> writes are not read back.
\<close>

theorem to_dict_roundtrip:
  assumes "graph_wf g" "validate g = Inr []"
  shows "from_dict fresh_id now (to_dict g) = Inr (fresh_graph g)"
proof -
  have "nodes_from_dict [] (map (\<lambda>(k, n). node_to_dict n) (tg_nodes g))
      = Inr ([] @ map (\<lambda>(k, n). (k, fresh_node n)) (tg_nodes g))"
    using assms(1) by (intro nodes_roundtrip) (auto simp: graph_wf_def)
  moreover have "validate (fresh_graph g) = Inr []"
    by (rule validate_plan_eq [OF plan_eq_fresh assms])
  moreover have "\<lparr>tg_id = tg_id g, tg_goal = tg_goal g, tg_nodes = ns,
      tg_created_at = tg_created_at g, tg_metadata = tg_metadata g\<rparr> = g\<lparr>tg_nodes := ns\<rparr>" for ns
    by simp
  ultimately show ?thesis
    unfolding from_dict_def to_dict_def Let_def fresh_graph_def by (simp only: graph_data.simps get_or_simps) simp
qed

theorem to_dict_roundtrip_witness:
  "from_dict ''id'' 0 (to_dict sample_graph) = Inr (fresh_graph sample_graph)"
  by (rule to_dict_roundtrip [OF sample_wf(1) sample_valid(1)])

end
