(* ===== verification/Graph_Planner.thy ===== *)
theory Graph_Planner imports Task_Graph_Codec begin

text \<open>
  \<open>engine/task_planning/graph_planner.py\<close>: what happens to the text a language model returns,
  from \<open>_extract_json\<close> through parsing and \<open>_auto_fix_graph\<close> to a validated graph (\<open>plan\<close>),
  and the surgery \<open>_apply_replacement\<close> performs on a running graph (\<open>replan_on_failure\<close>).
  The model's reply is an argument. \<open>loads\<close> is \<open>json.loads\<close> read as a plan object: the keys of
  it that the code looks at, \<open>Raise\<close> when the text is no JSON.
\<close>

section \<open>Extracting the JSON text\<close>

abbreviation fence :: string where
  "fence \<equiv> [CHR 0x60, CHR 0x60, CHR 0x60]"

text \<open>The lazy group: everything before the first closing fence, a newline before it dropped.\<close>

fun until_fence :: "string \<Rightarrow> string option" where
  "until_fence [] = None"
| "until_fence (c # cs) =
     (if py_prefix fence (c # cs) \<or> py_prefix (CHR 0x0A # fence) (c # cs) then Some []
      else map_option (Cons c) (until_fence cs))"

definition after_fence :: "string \<Rightarrow> string" where
  "after_fence s =
     (let t = drop 3 s
      in dropWhile py_space (if py_prefix ''json'' t then drop 4 t else t))"

fun search_block :: "string \<Rightarrow> string option" where
  "search_block [] = None"
| "search_block (c # cs) =
     (case (if py_prefix fence (c # cs) then until_fence (after_fence (c # cs)) else None) of
        Some body \<Rightarrow> Some body
      | None \<Rightarrow> search_block cs)"

text \<open>\<open>text[text.find('{') : text.rfind('}') + 1]\<close>, when the last \<open>}\<close> is after the first \<open>{\<close>.\<close>

definition brace_span :: "string \<Rightarrow> string option" where
  "brace_span s =
     (let t = dropWhile (\<lambda>c. c \<noteq> CHR ''{'') s;
          u = rev (dropWhile (\<lambda>c. c \<noteq> CHR ''}'') (rev t))
      in if t = [] \<or> u = [] then None else Some u)"

definition extract_json :: "string \<Rightarrow> string outcome" where
  "extract_json s =
     (case search_block s of
        Some body \<Rightarrow> Ret (py_strip body)
      | None \<Rightarrow>
          (case brace_span s of
             Some t \<Rightarrow> Ret t
           | None \<Rightarrow> Raise ''No JSON object found in LLM response''))"

section \<open>Parsing\<close>

record plan_node =
  pn_id :: "string option"
  pn_name :: "string option"
  pn_action :: "string option"
  pn_action_type :: "string option"
  pn_params :: "pyval dict option"
  pn_depends_on :: "string list option"
  pn_condition :: "string option"
  pn_retry :: "retry_data option"
  pn_timeout_seconds :: "real option"

record plan_data =
  pd_nodes :: "plan_node list option"
  pd_steps :: "plan_node list option"

definition plan_nodes :: "plan_data \<Rightarrow> plan_node list" where
  "plan_nodes d = (let ns = get_or (pd_nodes d) [] in if ns \<noteq> [] then ns else get_or (pd_steps d) [])"

definition parse_retry :: "retry_data option \<Rightarrow> retry_policy option" where
  "parse_retry r =
     (case r of
        None \<Rightarrow> None
      | Some d \<Rightarrow> if retry_empty d then None
          else Some \<lparr>rp_max_retries = get_or (rd_max_retries d) 3,
                     rp_backoff_seconds = get_or (rd_backoff_seconds d) 1,
                     rp_backoff_multiplier = get_or (rd_backoff_multiplier d) 2,
                     rp_fallback_action = get_or (rd_fallback_action d) None,
                     rp_retryable_errors = get_or (rd_retryable_errors d) []\<rparr>)"

text \<open>\<open>timeout\<close> is the node's own timeout in \<open>plan\<close>; replacement nodes keep the default of 300.\<close>

definition parse_node :: "real option \<Rightarrow> plan_node \<Rightarrow> task_node" where
  "parse_node timeout d =
     \<lparr>tn_id = get_or (pn_id d) [],
      tn_name = get_or (pn_name d) (get_or (pn_id d) ''unnamed''),
      tn_action = get_or (pn_action d) [], tn_action_type = get_or (pn_action_type d) ''skill'',
      tn_params = get_or (pn_params d) [], tn_depends_on = get_or (pn_depends_on d) [],
      tn_condition = pn_condition d, tn_expected_effect = None,
      tn_retry_policy = parse_retry (pn_retry d), tn_timeout_seconds = get_or timeout 300,
      tn_repeat_count = 1, tn_repeat_until = None, tn_execution_mode = ''default'',
      tn_status = PENDING, tn_result = PNone, tn_error = None, tn_attempt_count = 0,
      tn_started_at = None, tn_completed_at = None\<rparr>"

definition insert_nodes :: "task_node list \<Rightarrow> task_node dict \<Rightarrow> task_node dict" where
  "insert_nodes ns d = foldl (\<lambda>d n. dict_set (tn_id n) n d) d ns"

datatype plan_error =
    NoJson
  | InvalidJson string
  | NoNodes
  | PlanValidateRaised graph_exn
  | PlanInvalid "graph_error list"

definition parse_plan_response ::
  "(string \<Rightarrow> plan_data outcome) \<Rightarrow> string \<Rightarrow> real \<Rightarrow> string \<Rightarrow> string \<Rightarrow> plan_error + task_graph" where
  "parse_plan_response loads fresh_id now response goal =
     (case extract_json response of
        Raise _ \<Rightarrow> Inl NoJson
      | Ret js \<Rightarrow>
          (case loads js of
             Raise e \<Rightarrow> Inl (InvalidJson e)
           | Ret d \<Rightarrow>
               if plan_nodes d = [] then Inl NoNodes
               else Inr \<lparr>tg_id = fresh_id, tg_goal = goal,
                         tg_nodes = insert_nodes
                           (map (\<lambda>p. parse_node (pn_timeout_seconds p) p) (plan_nodes d)) [],
                         tg_created_at = now, tg_metadata = []\<rparr>))"

text \<open>Every failure of the replacement parser is logged and gives no nodes.\<close>

definition parse_replacement_nodes :: "(string \<Rightarrow> plan_data outcome) \<Rightarrow> string \<Rightarrow> task_node list" where
  "parse_replacement_nodes loads response =
     (case extract_json response of
        Raise _ \<Rightarrow> []
      | Ret js \<Rightarrow> (case loads js of Raise _ \<Rightarrow> [] | Ret d \<Rightarrow> map (parse_node None) (plan_nodes d)))"

section \<open>Fixing and planning\<close>

definition fix_deps :: "task_graph \<Rightarrow> task_node \<Rightarrow> task_node" where
  "fix_deps g n =
     n\<lparr>tn_depends_on := filter (\<lambda>d. get_node g d \<noteq> None \<and> d \<noteq> tn_id n) (tn_depends_on n)\<rparr>"

definition auto_fix_graph :: "task_graph \<Rightarrow> task_graph" where
  "auto_fix_graph g = g\<lparr>tg_nodes := map (\<lambda>(k, n). (k, fix_deps g n)) (tg_nodes g)\<rparr>"

definition plan ::
  "(string \<Rightarrow> plan_data outcome) \<Rightarrow> string \<Rightarrow> real \<Rightarrow> string \<Rightarrow> string \<Rightarrow> plan_error + task_graph" where
  "plan loads fresh_id now response goal =
     (case parse_plan_response loads fresh_id now response goal of
        Inl e \<Rightarrow> Inl e
      | Inr g \<Rightarrow>
          (case validate g of
             Inl e \<Rightarrow> Inl (PlanValidateRaised e)
           | Inr [] \<Rightarrow> Inr g
           | Inr errors \<Rightarrow>
               let h = auto_fix_graph g
               in (case validate h of
                     Inl e \<Rightarrow> Inl (PlanValidateRaised e)
                   | Inr [] \<Rightarrow> Inr h
                   | Inr remaining \<Rightarrow> Inl (PlanInvalid remaining))))"

section \<open>Replacing a failed node\<close>

definition insert_replacement :: "string list \<Rightarrow> task_node dict \<Rightarrow> task_node \<Rightarrow> task_node dict" where
  "insert_replacement new_ids d n =
     dict_set (tn_id n)
       (n\<lparr>tn_depends_on := filter (\<lambda>x. map_of d x \<noteq> None \<or> x \<in> set new_ids) (tn_depends_on n)\<rparr>) d"

text \<open>One downstream node: its dependency on the failed node is redirected, a finished one reset.\<close>

definition rewire_node :: "string \<Rightarrow> string \<Rightarrow> task_node \<Rightarrow> task_node" where
  "rewire_node failed_id last_id n =
     (let n1 = (if failed_id \<in> set (tn_depends_on n)
                then n\<lparr>tn_depends_on := map (\<lambda>d. if d = failed_id then last_id else d) (tn_depends_on n)\<rparr>
                else n)
      in if is_terminal n1 then set_reset n1 else n1)"

definition apply_replacement ::
  "task_graph \<Rightarrow> string \<Rightarrow> task_node list \<Rightarrow> graph_exn + task_graph" where
  "apply_replacement g failed_id new_nodes =
     (case downstream_of g failed_id of
        Inl e \<Rightarrow> Inl e
      | Inr downstream \<Rightarrow>
          let new_ids = map tn_id new_nodes;
              h = g\<lparr>tg_nodes := foldl (insert_replacement new_ids) (tg_nodes g) new_nodes\<rparr>
          in Inr (if new_nodes = [] then h
                  else adjust_nodes downstream (rewire_node failed_id (tn_id (last new_nodes))) h))"

definition safe_topological_order :: "task_graph \<Rightarrow> graph_exn + string list" where
  "safe_topological_order g =
     (case topological_order g of
        Inl (NodeKeyError k) \<Rightarrow> Inl (NodeKeyError k)
      | Inl _ \<Rightarrow> Inr (node_ids g)
      | Inr order \<Rightarrow> Inr order)"

text \<open>
  \<open>replan_on_failure\<close> up to its call of the model: nothing to do when a fallback action is set
  or nothing depends on the node; the prompt prints the graph in topological order.
\<close>

datatype replan_start = ReplanNoop | ReplanAsk | ReplanRaise graph_exn

definition has_fallback :: "task_node \<Rightarrow> bool" where
  "has_fallback n =
     (case tn_retry_policy n of
        None \<Rightarrow> False
      | Some p \<Rightarrow> (case rp_fallback_action p of None \<Rightarrow> False | Some a \<Rightarrow> a \<noteq> []))"

definition replan_start :: "task_graph \<Rightarrow> task_node \<Rightarrow> replan_start" where
  "replan_start g n =
     (if has_fallback n then ReplanNoop
      else case downstream_of g (tn_id n) of
        Inl e \<Rightarrow> ReplanRaise e
      | Inr [] \<Rightarrow> ReplanNoop
      | Inr (d # ds) \<Rightarrow>
          (case safe_topological_order g of Inl e \<Rightarrow> ReplanRaise e | Inr _ \<Rightarrow> ReplanAsk))"

text \<open>The rest of it, on the model's reply: any exception leaves the graph as it is.\<close>

definition replan_reply ::
  "(string \<Rightarrow> plan_data outcome) \<Rightarrow> task_graph \<Rightarrow> string \<Rightarrow> string outcome \<Rightarrow> task_graph" where
  "replan_reply loads g failed_id reply =
     (case reply of
        Raise _ \<Rightarrow> g
      | Ret content \<Rightarrow>
          (let ns = parse_replacement_nodes loads content
           in if ns = [] then g
              else case apply_replacement g failed_id ns of Inl _ \<Rightarrow> g | Inr h \<Rightarrow> h))"

end
