(* ===== verification/Graph_Planner_Props.thy ===== *)
theory Graph_Planner_Props imports Graph_Planner begin

text \<open>
  What planning and replanning promise: a returned plan is valid and pending, the automatic fix
  removes exactly the dangling and self dependencies, and a replacement redirects the failed
  node's dependents without losing the graph's structure.
\<close>

section \<open>Plans\<close>

lemma insert_nodes_fresh:
  assumes "dict_wf d" "\<And>k n. (k, n) \<in> set d \<Longrightarrow> tn_id n = k \<and> fresh_node n = n"
    and "\<And>n. n \<in> set ns \<Longrightarrow> fresh_node n = n"
  shows "dict_wf (insert_nodes ns d) \<and> (\<forall>(k, n) \<in> set (insert_nodes ns d). tn_id n = k \<and> fresh_node n = n)"
  using assms
proof (induction ns arbitrary: d)
  case Nil
  then show ?case by (auto simp: insert_nodes_def)
next
  case (Cons n ns)
  have sub: "set (dict_set (tn_id n) n d) \<subseteq> insert (tn_id n, n) (set d)"
    unfolding dict_set_def by (induction d) auto
  have "dict_wf (insert_nodes ns (dict_set (tn_id n) n d))
    \<and> (\<forall>(k, m) \<in> set (insert_nodes ns (dict_set (tn_id n) n d)). tn_id m = k \<and> fresh_node m = m)"
  proof (rule Cons.IH)
    show "dict_wf (dict_set (tn_id n) n d)" using Cons.prems(1) by (rule dict_wf_set)
    show "tn_id m = k \<and> fresh_node m = m" if "(k, m) \<in> set (dict_set (tn_id n) n d)" for k m
      using that sub Cons.prems(2) Cons.prems(3) [of n] by auto
    show "fresh_node m = m" if "m \<in> set ns" for m
      using that Cons.prems(3) [of m] by simp
  qed
  then show ?case by (simp add: insert_nodes_def)
qed

lemma fresh_graph_id: "(\<And>k n. (k, n) \<in> set (tg_nodes g) \<Longrightarrow> fresh_node n = n) \<Longrightarrow> fresh_graph g = g"
proof -
  assume "\<And>k n. (k, n) \<in> set (tg_nodes g) \<Longrightarrow> fresh_node n = n"
  then have "map (\<lambda>(k, n). (k, fresh_node n)) (tg_nodes g) = tg_nodes g" by (intro map_idI) auto
  then show ?thesis by (simp add: fresh_graph_def)
qed

lemma parse_node_fresh: "fresh_node (parse_node t p) = parse_node t p"
  by (simp add: fresh_node_def parse_node_def)

lemma parse_plan_fresh:
  assumes "parse_plan_response loads fresh_id now response goal = Inr g"
  shows "graph_wf g \<and> fresh_graph g = g"
proof -
  obtain d where g: "tg_nodes g = insert_nodes (map (\<lambda>p. parse_node (pn_timeout_seconds p) p) (plan_nodes d)) []"
    using assms by (auto simp: parse_plan_response_def split: outcome.splits if_splits)
  have "dict_wf (tg_nodes g) \<and> (\<forall>(k, n) \<in> set (tg_nodes g). tn_id n = k \<and> fresh_node n = n)"
    unfolding g by (rule insert_nodes_fresh) (auto simp: dict_wf_def parse_node_fresh)
  then show ?thesis using fresh_graph_id [of g] by (auto simp: graph_wf_def)
qed

lemma auto_fix_entry:
  "(k, m) \<in> set (tg_nodes (auto_fix_graph g)) \<longleftrightarrow> (\<exists>n. (k, n) \<in> set (tg_nodes g) \<and> m = fix_deps g n)"
  by (force simp: auto_fix_graph_def)

lemma get_auto_fix: "get_node (auto_fix_graph g) k = map_option (fix_deps g) (get_node g k)"
  by (simp add: auto_fix_graph_def map_of_map)

lemma node_ids_auto_fix: "node_ids (auto_fix_graph g) = node_ids g"
  by (simp add: auto_fix_graph_def case_prod_beta comp_def)

lemma wf_auto_fix: "graph_wf g \<Longrightarrow> graph_wf (auto_fix_graph g)"
proof (rule graph_wfI)
  assume wf: "graph_wf g"
  show "distinct (node_ids (auto_fix_graph g))"
    using wf unfolding node_ids_auto_fix by (simp add: graph_wf_def dict_wf_def)
  show "tn_id m = k" if "(k, m) \<in> set (tg_nodes (auto_fix_graph g))" for k m
    using that graph_wf_id [OF wf] by (auto simp: auto_fix_entry fix_deps_def)
qed

lemma auto_fix_deps:
  assumes "graph_wf g"
  shows "dep_rel (auto_fix_graph g) = {(d, k) \<in> dep_rel g. d \<in> set (node_ids g) \<and> d \<noteq> k}"
  using graph_wf_get_id [OF assms] in_ids_iff [of _ g]
  by (auto simp: dep_rel_def get_auto_fix fix_deps_def)

lemma auto_fix_structure:
  assumes "graph_wf g"
  shows "structure_errors (auto_fix_graph g) = []" "deps_closed (auto_fix_graph g)"
proof -
  have wf: "graph_wf (auto_fix_graph g)" by (rule wf_auto_fix [OF assms])
  show closed: "deps_closed (auto_fix_graph g)"
    unfolding deps_closed_def node_ids_auto_fix subset_eq in_ids_iff
    by (auto simp: auto_fix_entry fix_deps_def)
  show "structure_errors (auto_fix_graph g) = []"
    using structure_errors_Nil [OF wf] closed auto_fix_deps [OF assms] by auto
qed

text \<open>
  \<open>_auto_fix_graph\<close> removes exactly the dependencies on missing nodes and on the node
  itself, and nothing else: afterwards \<open>validate\<close> can only complain about cycles or templates.
\<close>

theorem auto_fix_correct:
  assumes "graph_wf g"
  shows "dep_rel (auto_fix_graph g) = {(d, k) \<in> dep_rel g. d \<in> set (node_ids g) \<and> d \<noteq> k}
    \<and> node_ids (auto_fix_graph g) = node_ids g
    \<and> structure_errors (auto_fix_graph g) = []
    \<and> auto_fix_graph (auto_fix_graph g) = auto_fix_graph g"
proof -
  have "fix_deps (auto_fix_graph g) (fix_deps g n) = fix_deps g n" for n
    by (simp add: fix_deps_def get_auto_fix conj_commute)
  then have "map (\<lambda>(k, n). (k, fix_deps (auto_fix_graph g) n)) (tg_nodes (auto_fix_graph g))
      = tg_nodes (auto_fix_graph g)"
    by (intro map_idI) (auto simp: auto_fix_entry)
  then have "auto_fix_graph (auto_fix_graph g) = auto_fix_graph g"
    by (simp add: auto_fix_graph_def [of "auto_fix_graph g"])
  then show ?thesis
    using auto_fix_deps [OF assms] node_ids_auto_fix [of g] auto_fix_structure [OF assms] by blast
qed

theorem auto_fix_correct_witness:
  "structure_errors (auto_fix_graph (sample_graph\<lparr>tg_nodes := [(''a'', sample_node ''a'' [''a'', ''x''] [])]\<rparr>)) = []"
proof -
  have "graph_wf (sample_graph\<lparr>tg_nodes := [(''a'', sample_node ''a'' [''a'', ''x''] [])]\<rparr>)"
    by (simp add: graph_wf_def dict_wf_def sample_node_def)
  from auto_fix_correct [OF this] show ?thesis by blast
qed

lemma fresh_auto_fix: "fresh_graph g = g \<Longrightarrow> fresh_graph (auto_fix_graph g) = auto_fix_graph g"
proof -
  have comm: "fresh_node (fix_deps g n) = fix_deps g (fresh_node n)" for n
    by (simp add: fresh_node_def fix_deps_def)
  assume "fresh_graph g = g"
  then have "tg_nodes (fresh_graph g) = tg_nodes g" by simp
  then have eq: "map (\<lambda>(k, n). (k, fresh_node n)) (tg_nodes g) = tg_nodes g"
    by (simp add: fresh_graph_def)
  have "fresh_node n = n" if "(k, n) \<in> set (tg_nodes g)" for k n
    using that eq map_eq_conv [of "\<lambda>(k, n). (k, fresh_node n)" "tg_nodes g" "\<lambda>x. x"] by auto
  then show ?thesis by (intro fresh_graph_id) (auto simp: auto_fix_graph_def comm)
qed

text \<open>
  Whatever graph \<open>plan\<close> returns, for any reply of the model, is keyed by node id, passes
  validation and has every node pending; and \<open>validate\<close> itself never raises on the way.
\<close>

theorem plan_valid:
  "case plan loads fresh_id now response goal of
     Inr g \<Rightarrow> graph_wf g \<and> valid_graph g \<and> fresh_graph g = g \<and> tg_goal g = goal
   | Inl e \<Rightarrow> (\<forall>x. e \<noteq> PlanValidateRaised x)
       \<and> (\<forall>errors. e = PlanInvalid errors \<longrightarrow> errors \<noteq> [])"
proof (cases "parse_plan_response loads fresh_id now response goal")
  case (Inl e)
  then show ?thesis
    by (auto simp: plan_def parse_plan_response_def split: outcome.splits if_splits)
next
  case (Inr g)
  then have g: "graph_wf g" "fresh_graph g = g" using parse_plan_fresh by blast+
  let ?h = "auto_fix_graph g"
  have h: "graph_wf ?h" "fresh_graph ?h = ?h"
    using wf_auto_fix [OF g(1)] fresh_auto_fix [OF g(2)] by auto
  have goal: "tg_goal g = goal" "tg_goal ?h = goal"
    using Inr by (auto simp: parse_plan_response_def auto_fix_graph_def split: outcome.splits if_splits)
  obtain es where es: "validate g = Inr es" "es = [] \<longleftrightarrow> valid_graph g"
    using validate_spec [OF g(1)] by blast
  obtain fs where fs: "validate ?h = Inr fs" "fs = [] \<longleftrightarrow> valid_graph ?h"
    using validate_spec [OF h(1)] by blast
  show ?thesis
    using Inr g h goal es fs by (cases es; cases fs) (simp_all add: plan_def Let_def)
qed

text \<open>A reply with one node that depends on itself and on a missing node: fixed, then valid.\<close>

definition sample_plan_node :: plan_node where
  "sample_plan_node = \<lparr>pn_id = Some ''a'', pn_name = None, pn_action = Some ''act'', pn_action_type = None,
     pn_params = None, pn_depends_on = Some [''a'', ''x''], pn_condition = None, pn_retry = None,
     pn_timeout_seconds = None\<rparr>"

definition sample_loads :: "string \<Rightarrow> plan_data outcome" where
  "sample_loads s = Ret \<lparr>pd_nodes = Some [sample_plan_node], pd_steps = None\<rparr>"

theorem plan_valid_witness:
  "\<exists>g. plan sample_loads ''id'' 0 ''{}'' ''goal'' = Inr g \<and> valid_graph g \<and> tg_goal g = ''goal''"
proof -
  have "(case plan sample_loads ''id'' 0 ''{}'' ''goal'' of Inr _ \<Rightarrow> True | Inl _ \<Rightarrow> False)" by code_simp
  then obtain g where "plan sample_loads ''id'' 0 ''{}'' ''goal'' = Inr g" by (auto split: sum.splits)
  with plan_valid [where loads = sample_loads and fresh_id = "''id''" and now = 0 and response = "''{}''" and goal = "''goal''"] show ?thesis by auto
qed

section \<open>JSON extraction\<close>

text \<open>
  A reply that holds no fence is cut from its first opening to its last closing brace, so
  prose around a bare JSON object is dropped and the object kept whole.
\<close>

theorem extract_json_bare:
  assumes "CHR 0x60 \<notin> set (pre @ body @ post)" "CHR ''{'' \<notin> set pre" "CHR ''}'' \<notin> set post"
  shows "extract_json (pre @ ''{'' @ body @ ''}'' @ post) = Ret (''{'' @ body @ ''}'')"
proof -
  have no_block: "search_block s = None" if "CHR 0x60 \<notin> set s" for s
    using that by (induction s) auto
  have "search_block (pre @ ''{'' @ body @ ''}'' @ post) = None"
    by (rule no_block) (use assms(1) in auto)
  moreover have "dropWhile (\<lambda>c. c \<noteq> CHR ''{'') (pre @ t) = dropWhile (\<lambda>c. c \<noteq> CHR ''{'') t" for t
    using assms(2) by (intro dropWhile_append2) auto
  moreover have "dropWhile (\<lambda>c. c \<noteq> CHR ''}'') (rev post @ t) = dropWhile (\<lambda>c. c \<noteq> CHR ''}'') t" for t
    using assms(3) by (intro dropWhile_append2) auto
  ultimately show ?thesis by (simp add: extract_json_def brace_span_def Let_def)
qed

theorem extract_json_bare_witness:
  "extract_json (''Here: '' @ ''{'' @ ''1'' @ ''}'' @ '' ok'') = Ret (''{'' @ ''1'' @ ''}'')"
  by (rule extract_json_bare) simp_all

section \<open>Replacement\<close>

definition new_node :: "task_graph \<Rightarrow> string list \<Rightarrow> task_node \<Rightarrow> task_node" where
  "new_node g new_ids n =
     n\<lparr>tn_depends_on := filter (\<lambda>x. x \<in> set (node_ids g) \<union> set new_ids) (tn_depends_on n)\<rparr>"

lemma new_node_id [simp]: "tn_id (new_node g ids n) = tn_id n"
  by (simp add: new_node_def)

lemma rewire_node_id [simp]: "tn_id (rewire_node f l n) = tn_id n"
  by (simp add: rewire_node_def Let_def set_reset_def)

lemma rewire_node_deps:
  "tn_depends_on (rewire_node f l n) = map (\<lambda>d. if d = f then l else d) (tn_depends_on n)"
  by (auto simp: rewire_node_def Let_def set_reset_def intro: map_idI [symmetric])

lemma insert_replacements:
  assumes "distinct (map fst d @ map tn_id ns)" "set (map tn_id ns) \<subseteq> set ids"
    "set (map fst d) \<subseteq> set (node_ids g) \<union> set ids" "set (node_ids g) \<subseteq> set (map fst d)"
  shows "foldl (insert_replacement ids) d ns = d @ map (\<lambda>n. (tn_id n, new_node g ids n)) ns"
  using assms
proof (induction ns arbitrary: d)
  case Nil
  then show ?case by simp
next
  case (Cons n ns)
  have known: "map_of d x \<noteq> None \<or> x \<in> set ids \<longleftrightarrow> x \<in> set (node_ids g) \<union> set ids" for x
    using Cons.prems(3,4) map_of_key_iff [of d x] by blast
  have "map_of d (tn_id n) = None"
    using Cons.prems(1) by (auto simp: map_of_eq_None_iff)
  then have "insert_replacement ids d n = d @ [(tn_id n, new_node g ids n)]"
    by (simp only: insert_replacement_def dict_set_new new_node_def known)
  moreover have "foldl (insert_replacement ids) (d @ [(tn_id n, new_node g ids n)]) ns
      = (d @ [(tn_id n, new_node g ids n)]) @ map (\<lambda>n. (tn_id n, new_node g ids n)) ns"
    by (rule Cons.IH) (use Cons.prems in auto)
  ultimately show ?case by simp
qed

definition replacement_ok :: "task_graph \<Rightarrow> string \<Rightarrow> task_node list \<Rightarrow> bool" where
  "replacement_ok g failed ns \<longleftrightarrow>
     graph_wf g \<and> deps_closed g \<and> get_node g failed \<noteq> None \<and> ns \<noteq> []
   \<and> distinct (map tn_id ns) \<and> set (map tn_id ns) \<inter> set (node_ids g) = {}"

lemma apply_replacement_nodes:
  assumes "replacement_ok g f ns"
  shows "\<exists>h. apply_replacement g f ns = Inr h
    \<and> node_ids h = node_ids g @ map tn_id ns
    \<and> (\<forall>k n. get_node g k = Some n \<longrightarrow>
         get_node h k = Some (if (f, k) \<in> (dep_rel g)\<^sup>+ then rewire_node f (tn_id (last ns)) n else n))
    \<and> (\<forall>n\<in>set ns. get_node h (tn_id n) = Some (new_node g (map tn_id ns) n))"
proof -
  from assms have g: "graph_wf g" "deps_closed g" "get_node g f \<noteq> None" "ns \<noteq> []"
    and new: "distinct (map tn_id ns)" "set (map tn_id ns) \<inter> set (node_ids g) = {}"
    by (auto simp: replacement_ok_def simp del: set_map)
  let ?ids = "map tn_id ns"
  let ?m = "g\<lparr>tg_nodes := tg_nodes g @ map (\<lambda>n. (tn_id n, new_node g ?ids n)) ns\<rparr>"
  obtain down where down: "downstream_of g f = Inr down" "distinct down"
    "set down = {k. (f, k) \<in> (dep_rel g)\<^sup>+}"
    using transitive_queries_spec [OF g(1,2), of f] g(3) by auto
  have fold: "foldl (insert_replacement ?ids) (tg_nodes g) ns
      = tg_nodes g @ map (\<lambda>n. (tn_id n, new_node g ?ids n)) ns"
    by (rule insert_replacements) (use g(1) new in \<open>auto simp: graph_wf_def dict_wf_def simp del: set_map\<close>)
  define h where "h = adjust_nodes down (rewire_node f (tn_id (last ns))) ?m"
  have app: "apply_replacement g f ns = Inr h"
    using down(1) g(4) fold by (simp add: apply_replacement_def h_def Let_def)
  have ids: "node_ids h = node_ids g @ ?ids"
    by (simp add: h_def comp_def)
  have mid: "get_node ?m k = (case get_node g k of Some n \<Rightarrow> Some n
      | None \<Rightarrow> map_of (map (\<lambda>n. (tn_id n, new_node g ?ids n)) ns) k)" for k
    by (simp add: map_add_def split: option.splits)
  have old: "get_node h k = Some (if (f, k) \<in> (dep_rel g)\<^sup>+ then rewire_node f (tn_id (last ns)) n else n)"
    if "get_node g k = Some n" for k n
    using that mid [of k] down(2,3) by (simp add: h_def get_adjust_nodes)
  have fresh: "get_node h (tn_id n) = Some (new_node g ?ids n)" if n: "n \<in> set ns" for n
  proof -
    have "tn_id n \<notin> set (node_ids g)" using n new(2) by auto
    then have none: "get_node g (tn_id n) = None" using in_ids_iff [of "tn_id n" g] by simp
    have "map_of (map (\<lambda>n. (tn_id n, new_node g ?ids n)) ns) (tn_id n) = Some (new_node g ?ids n)"
      using n new(1) by (intro map_of_is_SomeI) (auto simp: comp_def)
    with none mid have "get_node ?m (tn_id n) = Some (new_node g ?ids n)" by simp
    moreover have "tn_id n \<notin> set down"
      using \<open>tn_id n \<notin> set (node_ids g)\<close> down(3) dep_rel_range [of _ "tn_id n" g]
      by (auto elim: tranclE)
    ultimately show ?thesis using down(2) by (simp add: h_def get_adjust_nodes)
  qed
  from app ids old fresh show ?thesis by blast
qed

text \<open>
  The order in which nodes can run after a replacement: first what is not below the failed
  node, then the new nodes in the order given, then what was below the failed node.
\<close>

definition replacement_rank :: "task_graph \<Rightarrow> string \<Rightarrow> task_node list \<Rightarrow> string \<Rightarrow> nat \<times> nat \<times> string" where
  "replacement_rank g f ns k =
     (if k \<in> tn_id ` set ns then (1, length (takeWhile (\<lambda>x. x \<noteq> k) (map tn_id ns)), k)
      else if (f, k) \<in> (dep_rel g)\<^sup>+ then (2, 0, k) else (0, 0, k))"

text \<open>New nodes may use old nodes that are not below the failed one, and earlier new nodes.\<close>

definition replacement_ordered :: "task_graph \<Rightarrow> string \<Rightarrow> task_node list \<Rightarrow> bool" where
  "replacement_ordered g f ns \<longleftrightarrow>
     (\<forall>i<length ns. \<forall>d\<in>set (tn_depends_on (ns ! i)).
        (f, d) \<notin> (dep_rel g)\<^sup>+ \<and> (d \<in> tn_id ` set ns \<longrightarrow> d \<in> tn_id ` set (take i ns)))"

lemma takeWhile_index:
  assumes "distinct xs" "i < length xs"
  shows "length (takeWhile (\<lambda>x. x \<noteq> xs ! i) xs) = i"
proof -
  have "xs = take i xs @ xs ! i # drop (Suc i) xs" using assms(2) by (rule id_take_nth_drop)
  moreover have "xs ! i \<notin> set (take i xs)"
    using assms by (auto simp: in_set_conv_nth nth_eq_iff_index_eq)
  moreover from this have "takeWhile (\<lambda>x. x \<noteq> xs ! i) (take i xs @ xs ! i # drop (Suc i) xs) = take i xs"
    by (subst takeWhile_append2) auto
  ultimately show ?thesis using assms(2) by simp
qed

lemma replacement_acyclic:
  assumes ok: "replacement_ok g f ns" and acyc: "acyclic (dep_rel g)"
    and ord: "replacement_ordered g f ns"
    and rel: "\<And>d k. (d, k) \<in> dep_rel h \<Longrightarrow>
        (\<exists>i<length ns. k = tn_id (ns ! i) \<and> d \<in> set (tn_depends_on (ns ! i)) \<and>
             d \<in> set (node_ids g) \<union> tn_id ` set ns)
      \<or> (k \<notin> tn_id ` set ns \<and> (d, k) \<in> dep_rel g)
      \<or> (k \<notin> tn_id ` set ns \<and> (f, k) \<in> (dep_rel g)\<^sup>+ \<and> d = tn_id (last ns))"
  shows "acyclic (dep_rel h)"
proof -
  have g: "graph_wf g" "deps_closed g" using ok by (auto simp: replacement_ok_def)
  have disj: "d \<notin> tn_id ` set ns" if "d \<in> set (node_ids g)" for d
    using ok that by (auto simp: replacement_ok_def simp flip: set_map)
  have wfg: "wf (dep_rel g)" using wf_dep_rel [of g] g acyc by (simp add: sound_graph_def)
  let ?r = "less_than <*lex*> less_than <*lex*> dep_rel g"
  have "dep_rel h \<subseteq> inv_image ?r (replacement_rank g f ns)"
  proof
    fix e assume e: "e \<in> dep_rel h"
    obtain d k where dk: "e = (d, k)" by (cases e)
    consider (new) i where "i < length ns" "k = tn_id (ns ! i)" "d \<in> set (tn_depends_on (ns ! i))"
        "d \<in> set (node_ids g) \<union> tn_id ` set ns"
      | (old) "k \<notin> tn_id ` set ns" "(d, k) \<in> dep_rel g"
      | (below) "k \<notin> tn_id ` set ns" "(f, k) \<in> (dep_rel g)\<^sup>+" "d = tn_id (last ns)"
      using rel e dk by blast
    then have "(replacement_rank g f ns d, replacement_rank g f ns k) \<in> ?r"
    proof cases
      case new
      have d: "(f, d) \<notin> (dep_rel g)\<^sup>+" "d \<in> tn_id ` set ns \<Longrightarrow> d \<in> tn_id ` set (take i ns)"
        using ord new(1,3) by (auto simp: replacement_ordered_def)
      have idx: "length (takeWhile (\<lambda>x. x \<noteq> tn_id (ns ! j)) (map tn_id ns)) = j" if "j < length ns" for j
        using takeWhile_index [of "map tn_id ns" j] that ok by (simp add: replacement_ok_def)
      show ?thesis
      proof (cases "d \<in> tn_id ` set ns")
        case True
        then obtain j where "j < i" "d = tn_id (ns ! j)"
          using d(2) new(1) by (auto simp: in_set_conv_nth)
        with new(1,2) idx [of j] idx [of i] show ?thesis
          by (auto simp: replacement_rank_def)
      next
        case False
        with d(1) new(1,2) show ?thesis by (auto simp: replacement_rank_def)
      qed
    next
      case old
      have "d \<notin> tn_id ` set ns" using disj dep_rel_closed [OF g(2) old(2)] by blast
      moreover have "(f, d) \<in> (dep_rel g)\<^sup>+ \<Longrightarrow> (f, k) \<in> (dep_rel g)\<^sup>+"
        using old(2) by (blast intro: trancl_into_trancl)
      ultimately show ?thesis using old by (auto simp: replacement_rank_def)
    next
      case below
      have "d \<in> tn_id ` set ns" using below(3) ok by (simp add: replacement_ok_def)
      with below show ?thesis by (auto simp: replacement_rank_def)
    qed
    with dk show "e \<in> inv_image ?r (replacement_rank g f ns)" by simp
  qed
  moreover have "wf (inv_image ?r (replacement_rank g f ns))"
    using wfg by (intro wf_inv_image wf_lex_prod wf_less_than)
  ultimately show ?thesis using wf_subset wf_acyclic by blast
qed

text \<open>What replacing the node \<open>f\<close> by \<open>ns\<close> does to every entry of the graph.\<close>

definition replaced :: "task_graph \<Rightarrow> string \<Rightarrow> task_node list \<Rightarrow> task_graph \<Rightarrow> bool" where
  "replaced g f ns h \<longleftrightarrow> node_ids h = node_ids g @ map tn_id ns
     \<and> (\<forall>k n. get_node g k = Some n \<longrightarrow>
          get_node h k = Some (if (f, k) \<in> (dep_rel g)\<^sup>+ then rewire_node f (tn_id (last ns)) n else n))
     \<and> (\<forall>n \<in> set ns. get_node h (tn_id n) = Some (new_node g (map tn_id ns) n))"

lemma replacement_okD:
  assumes "replacement_ok g f ns"
  shows "graph_wf g" "deps_closed g" "get_node g f \<noteq> None" "ns \<noteq> []" "distinct (map tn_id ns)"
    "set (map tn_id ns) \<inter> set (node_ids g) = {}" "f \<notin> tn_id ` set ns" "tn_id (last ns) \<in> tn_id ` set ns"
  using assms in_ids_iff [of f g] by (auto simp: replacement_ok_def)

lemma replaced_apply:
  assumes "replacement_ok g f ns"
  shows "\<exists>h. apply_replacement g f ns = Inr h \<and> replaced g f ns h"
  using apply_replacement_nodes [OF assms] unfolding replaced_def by blast

lemma replaced_node:
  assumes "replacement_ok g f ns" "replaced g f ns h" "k \<in> set (node_ids h)"
  shows "(\<exists>n\<in>set ns. k = tn_id n \<and> get_node h k = Some (new_node g (map tn_id ns) n))
      \<or> (k \<notin> tn_id ` set ns \<and> k \<in> set (node_ids g))"
  using assms(2,3) replacement_okD(6) [OF assms(1)] by (auto simp: replaced_def)

lemma replaced_edge:
  assumes ok: "replacement_ok g f ns" and h: "replaced g f ns h" and dk: "(d, k) \<in> dep_rel h"
  shows "(\<exists>i<length ns. k = tn_id (ns ! i) \<and> d \<in> set (tn_depends_on (ns ! i)) \<and>
             d \<in> set (node_ids g) \<union> tn_id ` set ns)
      \<or> (k \<notin> tn_id ` set ns \<and> (d, k) \<in> dep_rel g \<and> d \<noteq> f)
      \<or> (k \<notin> tn_id ` set ns \<and> (f, k) \<in> (dep_rel g)\<^sup>+ \<and> d = tn_id (last ns))"
proof -
  obtain m where m: "get_node h k = Some m" "d \<in> set (tn_depends_on m)"
    using dk by (auto simp: dep_rel_def)
  consider n where "n \<in> set ns" "k = tn_id n" "m = new_node g (map tn_id ns) n"
    | "k \<notin> tn_id ` set ns" "k \<in> set (node_ids g)"
    using replaced_node [OF ok h dep_rel_range [OF dk]] m(1) by auto
  then show ?thesis
  proof cases
    case (1 n)
    then obtain i where "i < length ns" "n = ns ! i" by (auto simp: in_set_conv_nth)
    with 1 m(2) show ?thesis by (auto simp: new_node_def)
  next
    case 2
    then obtain n where n: "get_node g k = Some n" using in_ids_iff by blast
    have "(f, k) \<in> (dep_rel g)\<^sup>+" if "f \<in> set (tn_depends_on n)"
      using that n by (auto simp: dep_rel_def)
    moreover have "get_node h k = Some (if (f, k) \<in> (dep_rel g)\<^sup>+ then rewire_node f (tn_id (last ns)) n else n)"
      using h n by (simp add: replaced_def)
    ultimately show ?thesis using 2 m n by (auto simp: dep_rel_def rewire_node_deps split: if_splits)
  qed
qed

lemma replaced_wf:
  assumes ok: "replacement_ok g f ns" and h: "replaced g f ns h"
  shows "graph_wf h"
proof (rule graph_wfI)
  note g = replacement_okD [OF ok]
  show dist: "distinct (node_ids h)"
    using g(1,5,6) h by (auto simp: graph_wf_def dict_wf_def replaced_def)
  fix k m assume "(k, m) \<in> set (tg_nodes h)"
  then have m: "get_node h k = Some m" "k \<in> set (node_ids h)"
    using dist by (auto intro: rev_image_eqI)
  show "tn_id m = k"
  proof (cases "k \<in> set (node_ids g)")
    case True
    then obtain n where n: "get_node g k = Some n" using in_ids_iff by blast
    then have "tn_id n = k" by (rule graph_wf_get_id [OF g(1)])
    with n m(1) h show ?thesis by (auto simp: replaced_def split: if_splits)
  next
    case False
    with replaced_node [OF ok h m(2)] m(1) show ?thesis by auto
  qed
qed

lemma replaced_closed:
  assumes ok: "replacement_ok g f ns" and h: "replaced g f ns h"
  shows "deps_closed h"
  unfolding deps_closed_def
proof (intro ballI, clarify)
  fix k n d assume "(k, n) \<in> set (tg_nodes h)" "d \<in> set (tn_depends_on n)"
  then have "(d, k) \<in> dep_rel h" using dep_rel_iff [OF replaced_wf [OF ok h]] by blast
  from replaced_edge [OF ok h this] show "d \<in> set (node_ids h)"
    using dep_rel_closed [OF replacement_okD(2) [OF ok]] replacement_okD(8) [OF ok] h
    by (auto simp: replaced_def)
qed

lemma replaced_leaves_failed:
  assumes ok: "replacement_ok g f ns" and h: "replaced g f ns h" and k: "k \<in> set (node_ids g)"
  shows "(f, k) \<notin> dep_rel h"
proof
  assume "(f, k) \<in> dep_rel h"
  moreover have "k \<notin> tn_id ` set ns" using k replacement_okD(6) [OF ok] by auto
  then have "k \<noteq> tn_id (ns ! i)" if "i < length ns" for i using that by auto
  ultimately show False using replaced_edge [OF ok h, of f k] replacement_okD(7,8) [OF ok] by metis
qed

text \<open>
  Replacing a failed node by new nodes with fresh ids: the graph keeps its nodes in place and
  gains the new ones; dependencies of new nodes on nobody are dropped; exactly the nodes below
  the failed one are touched (dependency redirected to the last new node, finished ones reset to
  pending); no old node depends on the failed one any more; and if the new nodes only build on
  nodes that are not below the failed one and on earlier new nodes, the graph stays acyclic.
\<close>

theorem apply_replacement_correct:
  assumes "replacement_ok g f ns"
  shows "\<exists>h. apply_replacement g f ns = Inr h
    \<and> graph_wf h \<and> deps_closed h \<and> node_ids h = node_ids g @ map tn_id ns
    \<and> (\<forall>k n. get_node g k = Some n \<longrightarrow>
         get_node h k = Some (if (f, k) \<in> (dep_rel g)\<^sup>+ then rewire_node f (tn_id (last ns)) n else n))
    \<and> (\<forall>k\<in>set (node_ids g). (f, k) \<notin> dep_rel h)
    \<and> (acyclic (dep_rel g) \<longrightarrow> replacement_ordered g f ns \<longrightarrow> acyclic (dep_rel h))"
proof -
  obtain h where h: "apply_replacement g f ns = Inr h" "replaced g f ns h"
    using replaced_apply [OF assms] by blast
  have "acyclic (dep_rel h)" if "acyclic (dep_rel g)" "replacement_ordered g f ns"
    using replacement_acyclic [OF assms that] replaced_edge [OF assms h(2)] by blast
  then show ?thesis
    using h replaced_wf [OF assms h(2)] replaced_closed [OF assms h(2)] replaced_leaves_failed [OF assms h(2)]
    unfolding replaced_def by blast
qed

theorem apply_replacement_correct_witness:
  "\<exists>h. apply_replacement sample_graph ''a'' [sample_node ''n'' [] []] = Inr h
     \<and> node_ids h = [''a'', ''b'', ''c'', ''n''] \<and> acyclic (dep_rel h) \<and> (''a'', ''b'') \<notin> dep_rel h"
proof -
  have "replacement_ok sample_graph ''a'' [sample_node ''n'' [] []]"
    using sample_wf by (simp add: replacement_ok_def sample_graph_def sample_node_def)
  moreover have "replacement_ordered sample_graph ''a'' [sample_node ''n'' [] []]"
    by (simp add: replacement_ordered_def sample_node_def)
  moreover have "node_ids sample_graph = [''a'', ''b'', ''c'']" "tn_id (sample_node ''n'' [] []) = ''n''"
    by (simp_all add: sample_graph_def sample_node_def)
  ultimately show ?thesis
    using apply_replacement_correct [of sample_graph "''a''" "[sample_node ''n'' [] []]"] sample_acyclic(1)
    by (auto simp del: set_map)
qed

text \<open>
  The rewired node \<open>b\<close> still reads \<open>${a.output}\<close>, and \<open>a\<close> is not above it any more: the graph
  that was valid no longer is.
\<close>

lemma replacement_leaves_template:
  "(case apply_replacement sample_graph ''a'' [sample_node ''n'' [] []] of Inr h \<Rightarrow> validate h | Inl e \<Rightarrow> Inl e)
     = Inr [NonUpstreamTemplateRef ''b'' ''a'']"
  by code_simp

end
