(* ===== verification/Task_Scheduler.thy ===== *)
theory Task_Scheduler imports Graph_Planner begin

text \<open>
  \<open>engine/task_planning/scheduler.py\<close>: \<open>execute_graph\<close> as a transition system.

  A wave is the list of nodes handed to one \<open>asyncio.gather\<close>; each has a phase that says at which
  \<open>await\<close> of \<open>_execute_node\<close> its coroutine is suspended. An event is what resumes one coroutine
  (the semaphore, a dispatcher or subagent reply, the end of a backoff sleep, the planner's
  model) or the loop of \<open>execute_graph\<close>; the code between two awaits is one atomic function from
  graph to phase and graph, as in a single-threaded event loop. Events carry the clock reading.

  Parameters (\<open>sched_env\<close>): whether a dispatcher, a subagent executor and a planner are bound, the
  skill registry's membership test, \<open>eval\<close> on a resolved condition, \<open>repr\<close>, \<open>str\<close>, attribute
  lookup, and the two callbacks, which only observe and may raise (\<open>Some\<close> exception text).
  Nodes are looked up by id: the model is exact as long as replacement nodes have new ids.
\<close>

section \<open>Parameters and state\<close>

record sched_env =
  se_max_concurrency :: int
  se_dispatcher :: bool
  se_subagent :: bool
  se_planner :: bool
  se_registry_has :: "string \<Rightarrow> bool"
  se_loads :: "string \<Rightarrow> plan_data outcome"
  se_eval :: "string \<Rightarrow> pyval outcome"
  se_repr :: "pyval \<Rightarrow> string"
  se_str :: "pyval \<Rightarrow> string"
  se_getattr :: "pyval \<Rightarrow> string \<Rightarrow> pyval option"
  se_on_complete :: "task_node \<Rightarrow> task_graph \<Rightarrow> string option"
  se_on_failed :: "task_node \<Rightarrow> task_graph \<Rightarrow> string option"

text \<open>
  \<open>Waiting\<close>: for the semaphore. \<open>Dispatched params i a\<close>: attempt \<open>a\<close> of iteration \<open>i\<close> is awaited.
  \<open>Sleeping\<close>: the backoff delay after a failed attempt. \<open>InFallback fb\<close>: the fallback action is
  awaited. \<open>Replanning\<close>: the planner's model is awaited. \<open>Escaped e\<close>: the coroutine ended with an
  exception that \<open>gather\<close> returns as a value.
\<close>

datatype task_phase =
    Waiting
  | Dispatched "pyval dict" nat nat
  | Sleeping "pyval dict" nat nat real
  | InFallback string
  | Replanning
  | Finished
  | Escaped string

record sched =
  sc_graph :: task_graph
  sc_wave :: "(string \<times> task_phase) list"
  sc_done :: bool

datatype reply =
    ActionReply pyval
  | AgentReply string "string option" string

datatype sched_event =
    NextWave real
  | Start real string
  | Reply real string "reply outcome"
  | Wake real string
  | PlannerReply real string "string outcome"
  | Abort real string string

section \<open>Conditions\<close>

fun status_value :: "task_status \<Rightarrow> string" where
  "status_value PENDING = ''pending''"
| "status_value READY = ''ready''"
| "status_value RUNNING = ''running''"
| "status_value COMPLETED = ''completed''"
| "status_value FAILED = ''failed''"
| "status_value SKIPPED = ''skipped''"

fun cond_nested :: "(pyval \<Rightarrow> string \<Rightarrow> pyval option) \<Rightarrow> pyval \<Rightarrow> string list \<Rightarrow> pyval" where
  "cond_nested getattr_of current [] = current"
| "cond_nested getattr_of current (key # keys) =
     (case current of
        PDict d \<Rightarrow> cond_nested getattr_of (case map_of d key of Some v \<Rightarrow> v | None \<Rightarrow> PNone) keys
      | v \<Rightarrow> (case getattr_of v key of Some w \<Rightarrow> cond_nested getattr_of w keys | None \<Rightarrow> PNone))"

definition resolve_condition_ref :: "(pyval \<Rightarrow> string \<Rightarrow> pyval option) \<Rightarrow> string \<Rightarrow> task_graph \<Rightarrow> pyval" where
  "resolve_condition_ref getattr_of ref g =
     (case py_split CHR ''.'' ref of
        [] \<Rightarrow> PNone
      | rt # parts \<Rightarrow>
          (case get_node g rt of
             None \<Rightarrow> PNone
           | Some n \<Rightarrow>
               (case parts of
                  [] \<Rightarrow> tn_result n
                | accessor # keys \<Rightarrow>
                    if accessor = ''status'' then PStr (status_value (tn_status n))
                    else if accessor = ''output'' \<or> accessor = ''result''
                      then cond_nested getattr_of (tn_result n) keys
                    else PNone)))"

definition resolve_condition :: "sched_env \<Rightarrow> string \<Rightarrow> task_graph \<Rightarrow> string" where
  "resolve_condition env cond g =
     foldl (\<lambda>s ref. py_replace (''${'' @ ref @ ''}'')
                      (se_repr env (resolve_condition_ref (se_getattr env) ref g)) s)
       cond (template_finditer cond)"

definition evaluate_condition :: "sched_env \<Rightarrow> string \<Rightarrow> task_graph \<Rightarrow> bool" where
  "evaluate_condition env cond g =
     (case se_eval env (resolve_condition env cond g) of Ret v \<Rightarrow> py_truthy v | Raise _ \<Rightarrow> True)"

section \<open>Dispatch\<close>

definition dispatcher_missing :: string where
  "dispatcher_missing = ''TaskScheduler requires the runtime action dispatcher''"

text \<open>The exception, if any, that \<open>_dispatch_action\<close> raises before it awaits anything.\<close>

definition dispatch_check :: "sched_env \<Rightarrow> task_node \<Rightarrow> string option" where
  "dispatch_check env n =
     (if tn_execution_mode n = ''agent'' then
        (if se_subagent env then None
         else Some (''Node '' @ quoted (tn_id n) @ '' requires execution_mode='' @ quoted ''agent'' @
               '' but no SubagentExecutor is configured on TaskScheduler''))
      else if tn_action_type n \<noteq> ''skill'' \<and> tn_action_type n \<noteq> ''bridge''
        then Some (''Unknown action_type: '' @ quoted (tn_action_type n))
      else if \<not> se_dispatcher env then Some dispatcher_missing
      else None)"

text \<open>\<open>_dispatch\<close> on the dispatcher's return value.\<close>

definition action_result :: "sched_env \<Rightarrow> string \<Rightarrow> pyval \<Rightarrow> pyval outcome" where
  "action_result env action_name result =
     (case result of
        PDict d \<Rightarrow>
          if map_of d ''ok'' = Some (PBool False) then
            Raise (case map_of d ''error'' of
                     Some e \<Rightarrow> if py_truthy e then py_str (se_str env) e else ''Action '' @ quoted action_name @ '' failed''
                   | None \<Rightarrow> ''Action '' @ quoted action_name @ '' failed'')
          else (case map_of d ''result'' of Some v \<Rightarrow> Ret v | None \<Rightarrow> Ret result)
      | _ \<Rightarrow> Ret result)"

text \<open>\<open>_dispatch_agent_node\<close> on the subagent's result.\<close>

definition agent_result :: "task_node \<Rightarrow> string \<Rightarrow> string option \<Rightarrow> string \<Rightarrow> pyval outcome" where
  "agent_result n status err summary =
     (if status \<noteq> ''completed'' then
        Raise (''Agent-mode node '' @ quoted (tn_id n) @ '' failed: '' @
          (case err of Some e \<Rightarrow> if e = [] then summary else e | None \<Rightarrow> summary))
      else Ret (PStr summary))"

fun dispatch_result :: "sched_env \<Rightarrow> task_node \<Rightarrow> reply \<Rightarrow> pyval outcome" where
  "dispatch_result env n (ActionReply v) = action_result env (tn_action n) v"
| "dispatch_result env n (AgentReply status err summary) = agent_result n status err summary"

text \<open>The kind of reply a dispatched node waits for.\<close>

definition reply_fits :: "task_node \<Rightarrow> reply outcome \<Rightarrow> bool" where
  "reply_fits n r =
     (case r of
        Raise _ \<Rightarrow> True
      | Ret (ActionReply _) \<Rightarrow> tn_execution_mode n \<noteq> ''agent''
      | Ret (AgentReply _ _ _) \<Rightarrow> tn_execution_mode n = ''agent'')"

section \<open>Ends of a node\<close>

definition skip_open :: "real \<Rightarrow> string \<Rightarrow> task_node \<Rightarrow> task_node" where
  "skip_open now reason n = (if is_terminal n then n else set_skipped now reason n)"

definition cascade_skip :: "real \<Rightarrow> string \<Rightarrow> task_graph \<Rightarrow> graph_exn + task_graph" where
  "cascade_skip now failed_id g =
     (case downstream_of g failed_id of
        Inl e \<Rightarrow> Inl e
      | Inr downstream \<Rightarrow>
          Inr (adjust_nodes downstream
                 (skip_open now (''Skipped: upstream '' @ quoted failed_id @ '' failed'')) g))"

definition finish_failed :: "real \<Rightarrow> string \<Rightarrow> task_graph \<Rightarrow> task_phase \<times> task_graph" where
  "finish_failed now nid g =
     (case cascade_skip now nid g of Inl _ \<Rightarrow> (Escaped ''KeyError'', g) | Inr h \<Rightarrow> (Finished, h))"

definition after_replan :: "real \<Rightarrow> string \<Rightarrow> task_graph \<Rightarrow> task_phase \<times> task_graph" where
  "after_replan now nid g =
     (case downstream_of g nid of
        Inl _ \<Rightarrow> finish_failed now nid g
      | Inr downstream \<Rightarrow> if downstream = [] then (Finished, g) else finish_failed now nid g)"

definition fail_node :: "sched_env \<Rightarrow> real \<Rightarrow> string \<Rightarrow> string option \<Rightarrow> task_graph \<Rightarrow> task_phase \<times> task_graph" where
  "fail_node env now nid err g =
     (let msg = (case err of Some e \<Rightarrow> if e = [] then ''Unknown error'' else e | None \<Rightarrow> ''Unknown error'');
          h = adjust_node nid (set_failed now msg) g
      in case get_node h nid of
           None \<Rightarrow> (Escaped ''KeyError'', g)
         | Some n \<Rightarrow>
             (case se_on_failed env n h of
                Some e \<Rightarrow> (Escaped e, h)
              | None \<Rightarrow>
                  if se_planner env then
                    (case replan_start h n of
                       ReplanAsk \<Rightarrow> (Replanning, h)
                     | ReplanNoop \<Rightarrow> after_replan now nid h
                     | ReplanRaise _ \<Rightarrow> finish_failed now nid h)
                  else finish_failed now nid h))"

text \<open>\<open>mark_completed\<close> and the completion callback; the callback's exception, if any, comes first.\<close>

definition complete_node ::
  "sched_env \<Rightarrow> real \<Rightarrow> string \<Rightarrow> pyval \<Rightarrow> task_graph \<Rightarrow> string option \<times> task_graph" where
  "complete_node env now nid result g =
     (let h = adjust_node nid (set_completed now result) g
      in case get_node h nid of
           None \<Rightarrow> (Some ''KeyError'', g)
         | Some n \<Rightarrow> (se_on_complete env n h, h))"

definition finish_completed ::
  "sched_env \<Rightarrow> real \<Rightarrow> string \<Rightarrow> pyval \<Rightarrow> task_graph \<Rightarrow> task_phase \<times> task_graph" where
  "finish_completed env now nid result g =
     (case complete_node env now nid result g of
        (Some e, h) \<Rightarrow> (Escaped e, h)
      | (None, h) \<Rightarrow> (Finished, h))"

section \<open>Attempts\<close>

text \<open>\<open>node.retry_policy or RetryPolicy(max_retries=0)\<close>.\<close>

definition node_policy :: "task_node \<Rightarrow> retry_policy" where
  "node_policy n = (case tn_retry_policy n of Some p \<Rightarrow> p | None \<Rightarrow> default_retry_policy\<lparr>rp_max_retries := 0\<rparr>)"

definition total_iterations :: "task_node \<Rightarrow> nat" where
  "total_iterations n = nat (max 1 (tn_repeat_count n))"

definition fallback_message :: "string \<Rightarrow> string \<Rightarrow> string" where
  "fallback_message fb e = ''Fallback '' @ quoted fb @ '' also failed: '' @ e"

text \<open>All retries are exhausted: the fallback action, or the end.\<close>

definition give_up ::
  "sched_env \<Rightarrow> real \<Rightarrow> task_node \<Rightarrow> string option \<Rightarrow> task_graph \<Rightarrow> task_phase \<times> task_graph" where
  "give_up env now n last_error g =
     (case rp_fallback_action (node_policy n) of
        None \<Rightarrow> fail_node env now (tn_id n) last_error g
      | Some fb \<Rightarrow>
          if fb = [] then fail_node env now (tn_id n) last_error g
          else if \<not> se_dispatcher env
            then fail_node env now (tn_id n) (Some (fallback_message fb dispatcher_missing)) g
          else (InFallback fb, g))"

text \<open>The action type that \<open>_dispatch_fallback\<close> sends with the fallback action.\<close>

definition fallback_type :: "sched_env \<Rightarrow> string \<Rightarrow> string" where
  "fallback_type env fb = (if se_registry_has env fb then ''skill'' else ''bridge'')"

definition attempt_failed ::
  "sched_env \<Rightarrow> real \<Rightarrow> task_node \<Rightarrow> pyval dict \<Rightarrow> nat \<Rightarrow> nat \<Rightarrow> string \<Rightarrow> task_graph \<Rightarrow> task_phase \<times> task_graph" where
  "attempt_failed env now n params i a err g =
     (let policy = node_policy n
      in if int a < rp_max_retries policy \<and> is_retryable policy err
         then (Sleeping params i a (delay_for_attempt policy a), g)
         else give_up env now n (Some err) g)"

definition begin_attempt ::
  "sched_env \<Rightarrow> real \<Rightarrow> task_node \<Rightarrow> pyval dict \<Rightarrow> nat \<Rightarrow> nat \<Rightarrow> task_graph \<Rightarrow> task_phase \<times> task_graph" where
  "begin_attempt env now n params i a g =
     (case dispatch_check env n of
        Some err \<Rightarrow> attempt_failed env now n params i a err g
      | None \<Rightarrow> (Dispatched params i a, g))"

text \<open>With a negative \<open>max_retries\<close> the attempt range is empty.\<close>

definition begin_iteration ::
  "sched_env \<Rightarrow> real \<Rightarrow> task_node \<Rightarrow> pyval dict \<Rightarrow> nat \<Rightarrow> task_graph \<Rightarrow> task_phase \<times> task_graph" where
  "begin_iteration env now n params i g =
     (if rp_max_retries (node_policy n) + 1 \<le> 0 then give_up env now n None g
      else begin_attempt env now n params i 0 g)"

definition stop_repeating :: "sched_env \<Rightarrow> task_node \<Rightarrow> nat \<Rightarrow> task_graph \<Rightarrow> bool" where
  "stop_repeating env n i g =
     (case tn_repeat_until n of
        None \<Rightarrow> False
      | Some c \<Rightarrow> c \<noteq> [] \<and> i + 1 < total_iterations n \<and> evaluate_condition env c g)"

definition attempt_succeeded ::
  "sched_env \<Rightarrow> real \<Rightarrow> task_node \<Rightarrow> pyval dict \<Rightarrow> nat \<Rightarrow> pyval \<Rightarrow> task_graph \<Rightarrow> task_phase \<times> task_graph" where
  "attempt_succeeded env now n params i result g =
     (let h = adjust_node (tn_id n) (\<lambda>m. m\<lparr>tn_result := result\<rparr>) g
      in if i + 1 < total_iterations n \<and> \<not> stop_repeating env n i h
         then begin_iteration env now n params (i + 1) h
         else finish_completed env now (tn_id n) result h)"

text \<open>\<open>_execute_node\<close> up to its first await: condition, \<open>mark_running\<close>, parameters.\<close>

definition run_node :: "sched_env \<Rightarrow> real \<Rightarrow> task_node \<Rightarrow> task_graph \<Rightarrow> task_phase \<times> task_graph" where
  "run_node env now n g =
     (let h = adjust_node (tn_id n) (set_running now) g
      in begin_iteration env now n (resolve_params (se_str env) (se_getattr env) h n) 0 h)"

definition condition_holds :: "sched_env \<Rightarrow> task_node \<Rightarrow> task_graph \<Rightarrow> bool" where
  "condition_holds env n g =
     (case tn_condition n of None \<Rightarrow> True | Some c \<Rightarrow> c = [] \<or> evaluate_condition env c g)"

definition start_node :: "sched_env \<Rightarrow> real \<Rightarrow> task_node \<Rightarrow> task_graph \<Rightarrow> task_phase \<times> task_graph" where
  "start_node env now n g =
     (if condition_holds env n g then run_node env now n g
      else (Finished,
        adjust_node (tn_id n) (set_skipped now (''Condition false: '' @ the (tn_condition n))) g))"

definition attempt_replied ::
  "sched_env \<Rightarrow> real \<Rightarrow> task_node \<Rightarrow> pyval dict \<Rightarrow> nat \<Rightarrow> nat \<Rightarrow> reply outcome \<Rightarrow> task_graph
     \<Rightarrow> task_phase \<times> task_graph" where
  "attempt_replied env now n params i a r g =
     (case r of
        Raise e \<Rightarrow> attempt_failed env now n params i a e g
      | Ret v \<Rightarrow>
          (case dispatch_result env n v of
             Raise e \<Rightarrow> attempt_failed env now n params i a e g
           | Ret result \<Rightarrow> attempt_succeeded env now n params i result g))"

text \<open>
  The reply of the fallback action. The completion callback runs inside the same \<open>try\<close>: if it
  raises, the node that was just completed is failed.
\<close>

definition fallback_replied ::
  "sched_env \<Rightarrow> real \<Rightarrow> task_node \<Rightarrow> string \<Rightarrow> pyval outcome \<Rightarrow> task_graph \<Rightarrow> task_phase \<times> task_graph" where
  "fallback_replied env now n fb r g =
     (case (case r of Raise e \<Rightarrow> Raise e | Ret v \<Rightarrow> action_result env fb v) of
        Raise e \<Rightarrow> fail_node env now (tn_id n) (Some (fallback_message fb e)) g
      | Ret result \<Rightarrow>
          (case complete_node env now (tn_id n) result g of
             (Some e, h) \<Rightarrow> fail_node env now (tn_id n) (Some (fallback_message fb e)) h
           | (None, h) \<Rightarrow> (Finished, h)))"

section \<open>The loop\<close>

fun in_flight :: "task_phase \<Rightarrow> bool" where
  "in_flight (Dispatched _ _ _) = True"
| "in_flight (Sleeping _ _ _ _) = True"
| "in_flight (InFallback _) = True"
| "in_flight Replanning = True"
| "in_flight _ = False"

fun settled :: "task_phase \<Rightarrow> bool" where
  "settled Finished = True"
| "settled (Escaped _) = True"
| "settled _ = False"

definition running_count :: "sched \<Rightarrow> nat" where
  "running_count s = length (filter (\<lambda>(k, p). in_flight p) (sc_wave s))"

text \<open>What \<open>execute_graph\<close> does with the exceptions that \<open>gather\<close> returned.\<close>

definition settle_one :: "real \<Rightarrow> task_graph \<Rightarrow> string \<times> task_phase \<Rightarrow> task_graph" where
  "settle_one now g kp =
     (case kp of
        (nid, Escaped e) \<Rightarrow>
          adjust_node nid (\<lambda>n. if tn_status n = RUNNING then set_failed now (''Unhandled: '' @ e) n else n) g
      | _ \<Rightarrow> g)"

definition settle_wave :: "real \<Rightarrow> (string \<times> task_phase) list \<Rightarrow> task_graph \<Rightarrow> task_graph" where
  "settle_wave now wave g = foldl (settle_one now) g wave"

definition resolve_deadlocked :: "real \<Rightarrow> string list \<Rightarrow> task_node \<Rightarrow> task_node" where
  "resolve_deadlocked now failed_ids n =
     (if is_terminal n then n
      else if list_ex (\<lambda>d. d \<in> set failed_ids) (tn_depends_on n)
        then set_skipped now ''Skipped: upstream dependency failed'' n
      else set_failed now ''Deadlock: no progress possible'' n)"

definition handle_deadlock :: "real \<Rightarrow> task_graph \<Rightarrow> task_graph" where
  "handle_deadlock now g =
     (let failed_ids = map (\<lambda>(k, n). tn_id n) (filter (\<lambda>(k, n). tn_status n = FAILED) (tg_nodes g))
      in g\<lparr>tg_nodes := map (\<lambda>(k, n). (k, resolve_deadlocked now failed_ids n)) (tg_nodes g)\<rparr>)"

definition next_wave :: "real \<Rightarrow> sched \<Rightarrow> sched" where
  "next_wave now s =
     (let g = settle_wave now (sc_wave s) (sc_graph s)
      in if is_complete g then s\<lparr>sc_graph := g, sc_wave := [], sc_done := True\<rparr>
         else if ready_nodes g = []
           then s\<lparr>sc_graph := handle_deadlock now g, sc_wave := [], sc_done := True\<rparr>
         else s\<lparr>sc_graph := g, sc_wave := map (\<lambda>n. (tn_id n, Waiting)) (ready_nodes g)\<rparr>)"

text \<open>The coroutine of \<open>nid\<close> has run to its next suspension.\<close>

definition resume :: "string \<Rightarrow> task_phase \<times> task_graph \<Rightarrow> sched \<Rightarrow> sched" where
  "resume nid pg s = s\<lparr>sc_graph := snd pg, sc_wave := dict_adjust nid (\<lambda>_. fst pg) (sc_wave s)\<rparr>"

fun node_event :: "sched_env \<Rightarrow> sched_event \<Rightarrow> nat \<Rightarrow> task_graph \<Rightarrow> task_node \<Rightarrow> task_phase
    \<Rightarrow> (task_phase \<times> task_graph) option" where
  "node_event env (Start now nid) running g n Waiting =
     (if int running < se_max_concurrency env then Some (start_node env now n g) else None)"
| "node_event env (Reply now nid r) running g n (Dispatched params i a) =
     (if reply_fits n r then Some (attempt_replied env now n params i a r g) else None)"
| "node_event env (Reply now nid r) running g n (InFallback fb) =
     (case r of
        Raise e \<Rightarrow> Some (fallback_replied env now n fb (Raise e) g)
      | Ret (ActionReply v) \<Rightarrow> Some (fallback_replied env now n fb (Ret v) g)
      | Ret (AgentReply _ _ _) \<Rightarrow> None)"
| "node_event env (Wake now nid) running g n (Sleeping params i a delay) =
     Some (begin_attempt env now n params i (a + 1)
       (adjust_node nid (\<lambda>m. m\<lparr>tn_attempt_count := tn_attempt_count m + 1\<rparr>) g))"
| "node_event env (PlannerReply now nid reply) running g n Replanning =
     Some (after_replan now nid (replan_reply (se_loads env) g nid reply))"
| "node_event env (Abort now nid e) running g n p = (if in_flight p then Some (Escaped e, g) else None)"
| "node_event env ev running g n p = None"

fun event_node :: "sched_event \<Rightarrow> string option" where
  "event_node (NextWave _) = None"
| "event_node (Start _ nid) = Some nid"
| "event_node (Reply _ nid _) = Some nid"
| "event_node (Wake _ nid) = Some nid"
| "event_node (PlannerReply _ nid _) = Some nid"
| "event_node (Abort _ nid _) = Some nid"

definition sched_next :: "sched_env \<Rightarrow> sched_event \<Rightarrow> sched \<Rightarrow> sched option" where
  "sched_next env ev s =
     (if sc_done s then None
      else case event_node ev of
        None \<Rightarrow>
          if list_all (\<lambda>(k, p). settled p) (sc_wave s)
          then (case ev of NextWave now \<Rightarrow> Some (next_wave now s) | _ \<Rightarrow> None)
          else None
      | Some nid \<Rightarrow>
          (case (map_of (sc_wave s) nid, get_node (sc_graph s) nid) of
             (Some p, Some n) \<Rightarrow>
               map_option (\<lambda>pg. resume nid pg s)
                 (node_event env ev (running_count s) (sc_graph s) n p)
           | _ \<Rightarrow> None))"

datatype sched_error = InvalidTaskGraph "graph_error list" | ValidateError graph_exn | BadSemaphore

definition sched_init :: "sched_env \<Rightarrow> task_graph \<Rightarrow> sched_error + sched" where
  "sched_init env g =
     (case validate g of
        Inl e \<Rightarrow> Inl (ValidateError e)
      | Inr errors \<Rightarrow>
          if errors \<noteq> [] then Inl (InvalidTaskGraph errors)
          else if se_max_concurrency env < 0 then Inl BadSemaphore
          else Inr \<lparr>sc_graph = g, sc_wave = [], sc_done = False\<rparr>)"

fun sched_run :: "sched_env \<Rightarrow> sched_event list \<Rightarrow> sched \<Rightarrow> sched option" where
  "sched_run env [] s = Some s"
| "sched_run env (ev # evs) s =
     (case sched_next env ev s of None \<Rightarrow> None | Some t \<Rightarrow> sched_run env evs t)"

inductive sched_step :: "sched_env \<Rightarrow> sched \<Rightarrow> sched \<Rightarrow> bool" for env where
  sched_step: "sched_next env ev s = Some t \<Longrightarrow> sched_step env s t"

inductive sched_reach :: "sched_env \<Rightarrow> task_graph \<Rightarrow> sched \<Rightarrow> bool" for env g where
  reach_init: "sched_init env g = Inr s \<Longrightarrow> sched_reach env g s"
| reach_step: "sched_reach env g s \<Longrightarrow> sched_step env s t \<Longrightarrow> sched_reach env g t"

inductive_cases sched_stepE: "sched_step env s t"

section \<open>A small run\<close>

text \<open>The sample plan with two slots: \<open>a\<close> completes, \<open>b\<close> fails, \<open>c\<close> is below \<open>b\<close>.\<close>

definition sample_env :: sched_env where
  "sample_env = \<lparr>se_max_concurrency = 2, se_dispatcher = True, se_subagent = False, se_planner = False,
     se_registry_has = (\<lambda>_. True), se_loads = (\<lambda>_. Raise []), se_eval = (\<lambda>_. Ret (PBool True)),
     se_repr = (\<lambda>_. []), se_str = (\<lambda>_. []), se_getattr = (\<lambda>_ _. None),
     se_on_complete = (\<lambda>_ _. None), se_on_failed = (\<lambda>_ _. None)\<rparr>"

definition sample_events :: "sched_event list" where
  "sample_events =
     [NextWave 1, Start 1 ''a'', Reply 2 ''a'' (Ret (ActionReply (PInt 7))),
      NextWave 3, Start 3 ''b'', Reply 4 ''b'' (Raise ''boom''), NextWave 5]"

definition sample_state :: "nat \<Rightarrow> sched option" where
  "sample_state k =
     (case sched_init sample_env sample_graph of
        Inl _ \<Rightarrow> None
      | Inr s \<Rightarrow> sched_run sample_env (take k sample_events) s)"

lemma sample_stateE:
  assumes "sample_state k = Some t"
  obtains s where "sched_init sample_env sample_graph = Inr s" "sched_run sample_env (take k sample_events) s = Some t"
  using assms by (auto simp: sample_state_def split: sum.splits)

end
