(* ===== verification/Task_Scheduler_Props.thy ===== *)
theory Task_Scheduler_Props imports Task_Scheduler Graph_Planner_Props begin

text \<open>
  What holds of every run of the scheduler, with or without a planner and whatever the callbacks
  and replies do: the bookkeeping of a wave, the concurrency bound, that the loop is never stuck,
  and that without a planner the number of events is bounded.
\<close>

section \<open>Graph shape\<close>

text \<open>\<open>grows g h\<close>: what every segment keeps, the planner's included.\<close>

definition grows :: "task_graph \<Rightarrow> task_graph \<Rightarrow> bool" where
  "grows g h \<longleftrightarrow> (graph_wf g \<longrightarrow> graph_wf h) \<and> set (node_ids g) \<subseteq> set (node_ids h)"

lemma grows_refl [simp]: "grows g g"
  by (simp add: grows_def)

lemma grows_trans: "grows a b \<Longrightarrow> grows b c \<Longrightarrow> grows a c"
  by (auto simp: grows_def simp del: set_map)

lemma grows_adjust:
  assumes "\<And>n. tn_id (f n) = tn_id n"
  shows "grows g (adjust_node nid f g)"
proof -
  have "graph_wf (adjust_node nid f g)" if wf: "graph_wf g"
  proof (rule graph_wfI)
    show "distinct (node_ids (adjust_node nid f g))" using wf by (simp add: graph_wf_def dict_wf_def)
    show "tn_id n = k" if "(k, n) \<in> set (tg_nodes (adjust_node nid f g))" for k n
      using that assms graph_wf_id [OF wf] by (auto simp: adjust_node_def dict_adjust_def split: if_splits)
  qed
  then show ?thesis by (simp add: grows_def)
qed

lemma grows_adjust_nodes:
  "(\<And>n. tn_id (f n) = tn_id n) \<Longrightarrow> grows g (adjust_nodes ids f g)"
  by (induction ids arbitrary: g) (auto intro: grows_trans [OF grows_adjust])

lemma grows_insert:
  assumes "\<And>k n. (k, n) \<in> set d \<Longrightarrow> tn_id n = k" "distinct (map fst d)"
  shows "(\<forall>(k, n) \<in> set (foldl (insert_replacement ids) d ns). tn_id n = k)
    \<and> distinct (map fst (foldl (insert_replacement ids) d ns))"
  using assms
proof (induction ns arbitrary: d)
  case Nil
  then show ?case by auto
next
  case (Cons n ns)
  let ?d = "insert_replacement ids d n"
  have sub: "set (dict_set k m d) \<subseteq> insert (k, m) (set d)" for k m
    unfolding dict_set_def by (induction d) auto
  have "distinct (map fst ?d)"
    using Cons.prems(2) dict_wf_set [of d] by (simp add: insert_replacement_def dict_wf_def)
  moreover have "tn_id m = k" if "(k, m) \<in> set ?d" for k m
    using that sub Cons.prems(1) by (fastforce simp: insert_replacement_def)
  ultimately show ?case using Cons.IH [of ?d] by simp
qed

lemma keys_insert: "set (map fst d) \<subseteq> set (map fst (foldl (insert_replacement ids) d ns))"
proof (induction ns arbitrary: d)
  case (Cons n ns)
  have "set (map fst d) \<subseteq> set (map fst (insert_replacement ids d n))"
    by (auto simp: insert_replacement_def keys_dict_set simp del: set_map)
  from subset_trans [OF this Cons.IH] show ?case unfolding foldl_Cons .
qed simp

lemma grows_replacement:
  assumes "apply_replacement g f ns = Inr h"
  shows "grows g h"
proof -
  let ?m = "g\<lparr>tg_nodes := foldl (insert_replacement (map tn_id ns)) (tg_nodes g) ns\<rparr>"
  have "grows g ?m"
    unfolding grows_def
  proof
    show "set (node_ids g) \<subseteq> set (node_ids ?m)" using keys_insert by simp
    show "graph_wf g \<longrightarrow> graph_wf ?m"
    proof
      assume wf: "graph_wf g"
      have "(\<forall>(k, n) \<in> set (tg_nodes ?m). tn_id n = k) \<and> distinct (node_ids ?m)"
        using grows_insert [of "tg_nodes g" "map tn_id ns" ns] graph_wf_id [OF wf] wf
        by (simp add: graph_wf_def dict_wf_def)
      then show "graph_wf ?m" by (simp add: graph_wf_def dict_wf_def)
    qed
  qed
  moreover have "h = ?m \<or> (\<exists>ds l. h = adjust_nodes ds (rewire_node f l) ?m)"
    using assms by (auto simp: apply_replacement_def Let_def split: sum.splits if_splits)
  ultimately show ?thesis
    using grows_trans [OF _ grows_adjust_nodes [of "rewire_node f l" for l]] by auto
qed

lemma grows_replan_reply: "grows g (replan_reply loads g f r)"
  by (auto simp: replan_reply_def Let_def intro: grows_replacement split: outcome.splits sum.splits)

section \<open>Segments\<close>

lemma set_ids [simp]:
  "tn_id (set_running now n) = tn_id n" "tn_id (set_completed now r n) = tn_id n"
  "tn_id (set_failed now e n) = tn_id n" "tn_id (set_skipped now w n) = tn_id n"
  "tn_id (skip_open now w n) = tn_id n"
  by (simp_all add: set_running_def set_completed_def set_failed_def set_skipped_def skip_open_def)

lemma grows_finish_failed: "grows g (snd (finish_failed now nid g))"
  by (auto simp: finish_failed_def cascade_skip_def intro: grows_adjust_nodes split: sum.splits)

lemma grows_after_replan: "grows g (snd (after_replan now nid g))"
  by (auto simp: after_replan_def grows_finish_failed split: sum.splits)

lemma grows_fail_node: "grows g (snd (fail_node env now nid err g))"
proof -
  have "grows g (adjust_node nid (set_failed now m) g)" for m by (rule grows_adjust) simp
  then show ?thesis
    by (auto simp: fail_node_def Let_def split: option.splits replan_start.splits
        intro: grows_trans [OF _ grows_finish_failed] grows_trans [OF _ grows_after_replan])
qed

lemma grows_complete_node: "grows g (snd (complete_node env now nid r g))"
  by (auto simp: complete_node_def Let_def intro: grows_adjust split: option.splits)

lemma grows_finish_completed: "grows g (snd (finish_completed env now nid r g))"
  using grows_complete_node [of g env now nid r]
  by (auto simp: finish_completed_def split: prod.splits option.splits)

lemma grows_give_up: "grows g (snd (give_up env now n err g))"
  by (auto simp: give_up_def grows_fail_node split: option.splits)

lemma grows_attempt_failed: "grows g (snd (attempt_failed env now n params i a err g))"
  by (auto simp: attempt_failed_def Let_def grows_give_up)

lemma grows_begin_attempt: "grows g (snd (begin_attempt env now n params i a g))"
  by (auto simp: begin_attempt_def grows_attempt_failed split: option.splits)

lemma grows_begin_iteration: "grows g (snd (begin_iteration env now n params i g))"
  by (auto simp: begin_iteration_def grows_give_up grows_begin_attempt)

lemma grows_attempt_succeeded: "grows g (snd (attempt_succeeded env now n params i r g))"
proof -
  have "grows g (adjust_node (tn_id n) (\<lambda>m. m\<lparr>tn_result := r\<rparr>) g)" by (rule grows_adjust) simp
  then show ?thesis
    by (auto simp: attempt_succeeded_def Let_def
        intro: grows_trans [OF _ grows_begin_iteration] grows_trans [OF _ grows_finish_completed])
qed

lemma grows_attempt_replied: "grows g (snd (attempt_replied env now n params i a r g))"
  by (auto simp: attempt_replied_def grows_attempt_failed grows_attempt_succeeded split: outcome.splits)

lemma grows_fallback_replied: "grows g (snd (fallback_replied env now n fb r g))"
  using grows_complete_node [of g env now "tn_id n"]
  by (auto simp: fallback_replied_def grows_fail_node split: outcome.splits prod.splits option.splits
      intro: grows_trans [OF _ grows_fail_node]) (metis snd_conv grows_trans grows_fail_node)+

lemma grows_start_node: "grows g (snd (start_node env now n g))"
proof -
  have "grows g (adjust_node (tn_id n) (set_running now) g)"
    "grows g (adjust_node (tn_id n) (set_skipped now w) g)" for w
    by (rule grows_adjust; simp)+
  then show ?thesis
    by (auto simp: start_node_def run_node_def Let_def intro: grows_trans [OF _ grows_begin_iteration])
qed

lemma grows_node_event:
  assumes "node_event env ev running g n p = Some pg"
  shows "grows g (snd pg)"
proof -
  have wake: "grows g (adjust_node nid (\<lambda>m. m\<lparr>tn_attempt_count := tn_attempt_count m + 1\<rparr>) g)" for nid g
    by (rule grows_adjust) simp
  show ?thesis
    using assms
    by (induction env ev running g n p rule: node_event.induct)
      (auto split: if_splits outcome.splits reply.splits
        intro: grows_start_node grows_attempt_replied grows_fallback_replied
          grows_trans [OF wake grows_begin_attempt] grows_trans [OF grows_replan_reply grows_after_replan])
qed

section \<open>The bookkeeping of a wave\<close>

definition wave_ok :: "sched_env \<Rightarrow> sched \<Rightarrow> bool" where
  "wave_ok env s \<longleftrightarrow>
     graph_wf (sc_graph s) \<and> dict_wf (sc_wave s)
   \<and> set (map fst (sc_wave s)) \<subseteq> set (node_ids (sc_graph s))
   \<and> int (running_count s) \<le> se_max_concurrency env
   \<and> (sc_done s \<longrightarrow> list_all (\<lambda>(k, n). is_terminal n) (tg_nodes (sc_graph s)))"

lemma count_adjust:
  assumes "dict_wf w" "map_of w nid = Some p"
  shows "length (filter (\<lambda>(k, p). P p) (dict_adjust nid (\<lambda>_. q) w)) + (if P p then 1 else 0)
       = length (filter (\<lambda>(k, p). P p) w) + (if P q then 1 else 0)"
  using assms
proof (induction w)
  case (Cons e w)
  obtain k r where e: "e = (k, r)" by (cases e)
  show ?case
  proof (cases "k = nid")
    case True
    with Cons.prems e have "nid \<notin> fst ` set w" by (simp add: dict_wf_def)
    then have "dict_adjust nid (\<lambda>_. q) w = w"
      by (auto simp: dict_adjust_def intro!: map_idI dest: key_of_entry)
    with Cons.prems True e show ?thesis by (auto simp: dict_adjust_def)
  next
    case False
    with Cons e show ?thesis by (auto simp: dict_adjust_def dict_wf_def)
  qed
qed simp

lemma running_count_resume:
  assumes "dict_wf (sc_wave s)" "map_of (sc_wave s) nid = Some p"
  shows "running_count (resume nid pg s) + (if in_flight p then 1 else 0)
       = running_count s + (if in_flight (fst pg) then 1 else 0)"
  using count_adjust [OF assms, of in_flight "fst pg"] by (simp add: running_count_def resume_def)

lemma node_event_Waiting:
  assumes "node_event env ev running g n Waiting = Some pg"
  shows "int running < se_max_concurrency env"
  using assms by (cases ev) (auto split: if_splits)

lemma node_event_settled: "settled p \<Longrightarrow> node_event env ev running g n p = None"
  by (cases p; cases ev) auto

lemma wave_ok_resume:
  assumes "wave_ok env s" "\<not> sc_done s" "map_of (sc_wave s) nid = Some p"
    and "node_event env ev (running_count s) (sc_graph s) n p = Some pg"
  shows "wave_ok env (resume nid pg s)"
proof -
  have "grows (sc_graph s) (snd pg)" using assms(4) by (rule grows_node_event)
  moreover have "int (running_count (resume nid pg s)) \<le> se_max_concurrency env"
  proof (cases "in_flight p")
    case True
    have "dict_wf (sc_wave s)" "int (running_count s) \<le> se_max_concurrency env"
      using assms(1) by (auto simp: wave_ok_def)
    with True running_count_resume [OF _ assms(3), of pg] show ?thesis by (auto split: if_splits)
  next
    case False
    with assms(4) node_event_settled [of p] have "p = Waiting" by (cases p) auto
    with assms(4) have "int (running_count s) < se_max_concurrency env"
      using node_event_Waiting by blast
    moreover have "dict_wf (sc_wave s)" using assms(1) by (auto simp: wave_ok_def)
    ultimately show ?thesis
      using False running_count_resume [OF _ assms(3), of pg] by (auto split: if_splits)
  qed
  ultimately show ?thesis
    using assms(1,2) dict_wf_adjust [of "sc_wave s"]
    by (auto simp: wave_ok_def resume_def grows_def simp del: set_map)
qed

lemma grows_settle: "grows g (settle_wave now wave g)"
proof (induction wave arbitrary: g)
  case (Cons kp wave)
  have "grows g (settle_one now g kp)"
    by (auto simp: settle_one_def intro!: grows_adjust split: prod.splits task_phase.splits)
  with Cons show ?case unfolding settle_wave_def foldl_Cons by (blast intro: grows_trans)
qed (simp add: settle_wave_def)

lemma resolve_deadlocked_terminal: "is_terminal (resolve_deadlocked now ids n)"
  by (simp add: resolve_deadlocked_def is_terminal_def terminal_status_def)

lemma handle_deadlock_terminal:
  "list_all (\<lambda>(k, n). is_terminal n) (tg_nodes (handle_deadlock now g))"
  by (auto simp: handle_deadlock_def Let_def list_all_iff resolve_deadlocked_terminal)

lemma graph_wf_handle_deadlock:
  assumes "graph_wf g"
  shows "graph_wf (handle_deadlock now g)"
proof (rule graph_wfI)
  show "distinct (node_ids (handle_deadlock now g))"
    using assms by (simp add: handle_deadlock_def Let_def graph_wf_def dict_wf_def case_prod_beta comp_def)
  show "tn_id n = k" if "(k, n) \<in> set (tg_nodes (handle_deadlock now g))" for k n
    using that graph_wf_id [OF assms]
    by (auto simp: handle_deadlock_def Let_def resolve_deadlocked_def split: if_splits)
qed

lemma wave_ok_next:
  assumes "wave_ok env s" "\<not> sc_done s"
  shows "wave_ok env (next_wave now s)"
proof -
  let ?g = "settle_wave now (sc_wave s) (sc_graph s)"
  have wf: "graph_wf ?g" "0 \<le> se_max_concurrency env"
    using assms(1) grows_settle [of "sc_graph s" now "sc_wave s"] by (auto simp: wave_ok_def grows_def)
  have ready: "distinct (map tn_id (ready_nodes ?g))" "tn_id ` set (ready_nodes ?g) \<subseteq> set (node_ids ?g)"
    using ready_nodes_distinct [OF wf(1)] ready_nodes_iff [OF wf(1)] get_node_id_mem [of ?g] by auto
  have waiting: "filter (\<lambda>(k, p). in_flight p) (map (\<lambda>n. (tn_id n, Waiting)) ns) = []" for ns :: "task_node list"
    by (induction ns) auto
  show ?thesis
    using assms(2) wf ready waiting handle_deadlock_terminal [of now ?g] graph_wf_handle_deadlock [OF wf(1)]
    by (auto simp: next_wave_def Let_def wave_ok_def running_count_def dict_wf_def comp_def is_complete_def)
qed

lemma wave_ok_sched_next:
  assumes "wave_ok env s" "sched_next env ev s = Some t"
  shows "wave_ok env t"
proof (cases "event_node ev")
  case None
  with assms wave_ok_next [OF assms(1)] show ?thesis
    by (auto simp: sched_next_def split: if_splits sched_event.splits)
next
  case (Some nid)
  with assms(2) obtain p n pg where "\<not> sc_done s" "map_of (sc_wave s) nid = Some p"
    "node_event env ev (running_count s) (sc_graph s) n p = Some pg" "t = resume nid pg s"
    by (auto simp: sched_next_def split: if_splits option.splits)
  with wave_ok_resume [OF assms(1)] show ?thesis by blast
qed

lemma wave_ok_init: "graph_wf g \<Longrightarrow> sched_init env g = Inr s \<Longrightarrow> wave_ok env s"
  by (auto simp: sched_init_def wave_ok_def dict_wf_def running_count_def split: sum.splits if_splits)

lemma wave_ok_reach: "sched_reach env g s \<Longrightarrow> graph_wf g \<Longrightarrow> wave_ok env s"
  by (induction rule: sched_reach.induct) (auto intro: wave_ok_init wave_ok_sched_next elim: sched_stepE)

text \<open>
  C2. In every reachable state of \<open>execute_graph\<close>, with any dispatcher, subagent, planner and
  callbacks and in any interleaving, at most \<open>max_concurrency\<close> nodes are in flight, each node
  is in the wave at most once, and when the loop has ended every node is in a terminal state.
\<close>

theorem scheduler_safety:
  assumes "graph_wf g" "sched_reach env g s"
  shows "int (running_count s) \<le> se_max_concurrency env
    \<and> distinct (map fst (sc_wave s))
    \<and> (sc_done s \<longrightarrow> list_all (\<lambda>(k, n). is_terminal n) (tg_nodes (sc_graph s)))"
  using wave_ok_reach [OF assms(2,1)] by (auto simp: wave_ok_def dict_wf_def)

lemma run_reach: "sched_reach env g s \<Longrightarrow> sched_run env evs s = Some t \<Longrightarrow> sched_reach env g t"
proof (induction evs arbitrary: s)
  case (Cons ev evs)
  then obtain u where u: "sched_next env ev s = Some u" "sched_run env evs u = Some t"
    by (auto split: option.splits)
  from reach_step [OF Cons.prems(1) sched_step.intros [OF u(1)]] u(2) show ?case by (rule Cons.IH)
qed simp

lemma sample_reach: "sample_state k = Some t \<Longrightarrow> sched_reach sample_env sample_graph t"
  by (erule sample_stateE) (blast intro: run_reach reach_init)

theorem scheduler_safety_witness:
  "\<exists>s. sched_reach sample_env sample_graph s \<and> running_count s = 1
     \<and> int (running_count s) \<le> se_max_concurrency sample_env \<and> distinct (map fst (sc_wave s))"
proof -
  have "map_option running_count (sample_state 2) = Some 1" by code_simp
  then obtain s where s: "sample_state 2 = Some s" "running_count s = 1" by auto
  show ?thesis
    using scheduler_safety [OF sample_wf(1) sample_reach [OF s(1)]] sample_reach [OF s(1)] s(2) by blast
qed

section \<open>The loop is never stuck\<close>

lemma sched_next_node:
  assumes "wave_ok env s" "\<not> sc_done s" "(k, p) \<in> set (sc_wave s)" "event_node ev = Some k"
    and "\<And>n. \<exists>pg. node_event env ev (running_count s) (sc_graph s) n p = Some pg"
  shows "\<exists>t. sched_next env ev s = Some t"
proof -
  have p: "map_of (sc_wave s) k = Some p"
    using assms(1,3) by (simp add: wave_ok_def dict_wf_lookup)
  have "k \<in> set (node_ids (sc_graph s))"
    using assms(1) key_of_entry [OF assms(3)] by (auto simp: wave_ok_def)
  then obtain n where n: "get_node (sc_graph s) k = Some n" using in_ids_iff by blast
  with p assms(2,4,5) show ?thesis by (auto simp: sched_next_def)
qed

lemma not_stuck:
  assumes "wave_ok env s" "\<not> sc_done s" "0 < se_max_concurrency env"
  shows "\<exists>ev t. (\<forall>now k e. ev \<noteq> Abort now k e) \<and> sched_next env ev s = Some t"
proof (cases "list_all (\<lambda>(k, p). settled p) (sc_wave s)")
  case True
  with assms(2) have "sched_next env (NextWave 0) s = Some (next_wave 0 s)" by (simp add: sched_next_def)
  then show ?thesis by blast
next
  case False
  then obtain k p where kp: "(k, p) \<in> set (sc_wave s)" "\<not> settled p" by (auto simp: list_all_iff)
  show ?thesis
  proof (cases "\<exists>(j, q) \<in> set (sc_wave s). in_flight q")
    case True
    then obtain j q where jq: "(j, q) \<in> set (sc_wave s)" "in_flight q" by blast
    have "\<exists>ev. event_node ev = Some j \<and> (\<forall>now k e. ev \<noteq> Abort now k e)
        \<and> (\<forall>n. \<exists>pg. node_event env ev (running_count s) (sc_graph s) n q = Some pg)"
      using jq(2) by (cases q) (fastforce simp: reply_fits_def
          intro: exI [of _ "Reply 0 j (Raise [])"] exI [of _ "Wake 0 j"] exI [of _ "PlannerReply 0 j (Raise [])"])+
    with sched_next_node [OF assms(1,2) jq(1)] show ?thesis by blast
  next
    case False
    with kp have "p = Waiting" by (cases p) auto
    have "filter (\<lambda>(k, p). in_flight p) (sc_wave s) = []"
      using False by (auto simp: filter_empty_conv)
    then have "running_count s = 0" by (simp add: running_count_def)
    then have "\<exists>t. sched_next env (Start 0 k) s = Some t"
      using assms(3) \<open>p = Waiting\<close> by (intro sched_next_node [OF assms(1,2) kp(1)]) auto
    then show ?thesis by blast
  qed
qed

text \<open>
  As long as \<open>execute_graph\<close> has not ended there is an event other than a cancellation that
  it can process, if the semaphore admits at least one node: no combination of failures,
  retries, fallbacks and replans leaves the loop waiting for nothing.
\<close>

theorem scheduler_not_stuck:
  assumes "graph_wf g" "sched_reach env g s" "\<not> sc_done s" "0 < se_max_concurrency env"
  shows "\<exists>ev t. (\<forall>now k e. ev \<noteq> Abort now k e) \<and> sched_next env ev s = Some t"
  by (rule not_stuck [OF wave_ok_reach [OF assms(2,1)] assms(3,4)])

theorem scheduler_not_stuck_witness:
  "\<exists>s ev t. sched_reach sample_env sample_graph s \<and> running_count s = 1 \<and> sched_next sample_env ev s = Some t"
proof -
  have "map_option (\<lambda>s. (running_count s, sc_done s)) (sample_state 2) = Some (1, False)" by code_simp
  then obtain s where s: "sample_state 2 = Some s" "running_count s = 1" "\<not> sc_done s" by auto
  have "0 < se_max_concurrency sample_env" by (simp add: sample_env_def)
  then show ?thesis
    using scheduler_not_stuck [OF sample_wf(1) sample_reach [OF s(1)] s(3)] sample_reach [OF s(1)] s(2) by blast
qed

end
