(* ===== verification/Task_Scheduler_Turns.thy ===== *)
theory Task_Scheduler_Turns imports Task_Scheduler_Props begin

text \<open>
  One coroutine segment of a scheduler without planner, as an inductive relation: it changes the
  node it executes and, if that node failed, the open nodes below it. \<open>silent\<close> environments
  have callbacks that never raise. The work left in a phase bounds the events a node can take.
\<close>

section \<open>What a segment may do\<close>

definition status_of :: "task_graph \<Rightarrow> string \<Rightarrow> task_status option" where
  "status_of g k = map_option tn_status (get_node g k)"

definition off :: "string \<Rightarrow> task_graph \<Rightarrow> task_graph \<Rightarrow> bool" where
  "off nid g h \<longleftrightarrow> plan_eq g h \<and> (\<forall>k. k \<noteq> nid \<longrightarrow> get_node h k = get_node g k)"

definition silent :: "sched_env \<Rightarrow> bool" where
  "silent env \<longleftrightarrow> (\<forall>n g. se_on_complete env n g = None \<and> se_on_failed env n g = None)"

inductive turn_result :: "sched_env \<Rightarrow> string \<Rightarrow> task_graph \<Rightarrow> task_phase \<times> task_graph \<Rightarrow> bool"
  for env nid g where
  turn_running: "off nid g h \<Longrightarrow> status_of h nid = Some RUNNING \<or> status_of h nid = status_of g nid
    \<Longrightarrow> in_flight p \<Longrightarrow> p \<noteq> Replanning
    \<Longrightarrow> turn_result env nid g (p, h)"
| turn_ended: "off nid g h \<Longrightarrow> status_of h nid = Some COMPLETED \<or> status_of h nid = Some SKIPPED
    \<Longrightarrow> turn_result env nid g (Finished, h)"
| turn_failed: "off nid g m \<Longrightarrow> status_of m nid = Some FAILED \<Longrightarrow> plan_eq g h \<Longrightarrow>
    (\<And>k. get_node h k = (if (nid, k) \<in> (dep_rel g)\<^sup>+ then map_option (skip_open now r) (get_node m k)
                         else get_node m k))
    \<Longrightarrow> turn_result env nid g (Finished, h)"
| turn_escaped: "off nid g h \<Longrightarrow> status_of h nid = Some COMPLETED \<or> status_of h nid = Some FAILED
    \<Longrightarrow> \<not> silent env \<Longrightarrow> turn_result env nid g (Escaped e, h)"

inductive_cases turn_resultE: "turn_result env nid g (p, h)"

lemma off_refl [simp]: "off nid g g"
  by (simp add: off_def)

lemma off_trans: "off nid g h \<Longrightarrow> off nid h m \<Longrightarrow> off nid g m"
  by (auto simp: off_def intro: plan_eq_trans)

lemma off_adjust: "(\<And>n. same_plan n (f n)) \<Longrightarrow> off nid g (adjust_node nid f g)"
  by (simp add: off_def plan_eq_adjust get_adjust_node)

lemma off_dep_rel: "off nid g h \<Longrightarrow> dep_rel h = dep_rel g"
  by (simp add: off_def plan_eq_dep_rel)

lemma turn_off:
  assumes "off nid g m" "turn_result env nid m pg"
    and "in_flight (fst pg) \<Longrightarrow> status_of m nid = Some RUNNING \<or> status_of m nid = status_of g nid"
  shows "turn_result env nid g pg"
  using assms(2)
proof cases
  case (turn_running h p)
  with assms(3) have "status_of h nid = Some RUNNING \<or> status_of h nid = status_of g nid" by auto
  with turn_running show ?thesis using off_trans [OF assms(1)] by (auto intro: turn_result.turn_running)
next
  case (turn_ended h)
  then show ?thesis using off_trans [OF assms(1)] by (auto intro: turn_result.turn_ended)
next
  case (turn_failed m' h now r)
  have "plan_eq g h" using assms(1) turn_failed(4) by (auto simp: off_def intro: plan_eq_trans)
  then show ?thesis
    using turn_failed off_trans [OF assms(1)] off_dep_rel [OF assms(1)]
    by (auto intro: turn_result.turn_failed)
next
  case (turn_escaped h e)
  then show ?thesis using off_trans [OF assms(1)] by (auto intro: turn_result.turn_escaped)
qed

lemma status_adjust:
  "status_of (adjust_node nid f g) k =
     (if k = nid then map_option (\<lambda>n. tn_status (f n)) (get_node g k) else status_of g k)"
  by (simp add: status_of_def get_adjust_node option.map_comp comp_def)

section \<open>Segments without a planner\<close>

text \<open>The graph and node a segment of \<open>nid\<close> works on.\<close>

definition at_node :: "sched_env \<Rightarrow> task_graph \<Rightarrow> task_node \<Rightarrow> bool" where
  "at_node env g n \<longleftrightarrow> graph_wf g \<and> deps_closed g \<and> \<not> se_planner env
     \<and> (\<exists>m. get_node g (tn_id n) = Some m \<and> same_plan m n)"

lemma at_node_off:
  assumes "at_node env g n" "off (tn_id n) g h"
  shows "at_node env h n"
proof -
  from assms(1) obtain m where g: "graph_wf g" "deps_closed g" "\<not> se_planner env"
    "get_node g (tn_id n) = Some m" "same_plan m n" by (auto simp: at_node_def)
  have "plan_eq g h" using assms(2) by (simp add: off_def)
  then obtain m' where "get_node h (tn_id n) = Some m'" "same_plan m m'"
    using plan_eq_getE g(4) by blast
  moreover have "same_plan m' n" using \<open>same_plan m m'\<close> g(5) by (simp add: same_plan_def)
  ultimately show ?thesis
    using g plan_eq_wf [OF \<open>plan_eq g h\<close>] plan_eq_deps_closed [OF \<open>plan_eq g h\<close>]
    by (auto simp: at_node_def)
qed

lemma finish_failed_turn:
  assumes "at_node env g n" "status_of g (tn_id n) = Some FAILED"
  shows "turn_result env (tn_id n) g (finish_failed now (tn_id n) g)"
proof -
  have g: "graph_wf g" "deps_closed g" "get_node g (tn_id n) \<noteq> None"
    using assms(1) by (auto simp: at_node_def)
  obtain ds where ds: "downstream_of g (tn_id n) = Inr ds" "distinct ds"
    "set ds = {k. (tn_id n, k) \<in> (dep_rel g)\<^sup>+}"
    using transitive_queries_spec [OF g(1,2), of "tn_id n"] g(3) by auto
  let ?r = "''Skipped: upstream '' @ quoted (tn_id n) @ '' failed''"
  have "same_plan m (skip_open now ?r m)" for m by (simp add: skip_open_def)
  then have "plan_eq g (adjust_nodes ds (skip_open now ?r) g)" by (rule plan_eq_adjust_nodes)
  then have "turn_result env (tn_id n) g (Finished, adjust_nodes ds (skip_open now ?r) g)"
    using ds assms(2) by (intro turn_failed [where m = g]) (auto simp: get_adjust_nodes)
  with ds(1) show ?thesis by (simp add: finish_failed_def cascade_skip_def)
qed

lemma finish_failed_settled: "\<not> in_flight (fst (finish_failed now nid g))"
  by (simp add: finish_failed_def split: sum.splits)

lemma fail_node_turn:
  assumes "at_node env g n"
  shows "turn_result env (tn_id n) g (fail_node env now (tn_id n) err g)"
proof -
  define msg where "msg = (case err of Some e \<Rightarrow> if e = [] then ''Unknown error'' else e | None \<Rightarrow> ''Unknown error'')"
  let ?h = "adjust_node (tn_id n) (set_failed now msg) g"
  obtain m where m: "get_node g (tn_id n) = Some m" using assms by (auto simp: at_node_def)
  have off: "off (tn_id n) g ?h" by (rule off_adjust) simp
  have st: "status_of ?h (tn_id n) = Some FAILED" using m by (simp add: status_adjust)
  have get: "get_node ?h (tn_id n) = Some (set_failed now msg m)" using m by (simp add: get_adjust_node)
  have nop: "\<not> se_planner env" using assms by (simp add: at_node_def)
  have fin: "turn_result env (tn_id n) g (finish_failed now (tn_id n) ?h)"
    using turn_off [OF off finish_failed_turn [OF at_node_off [OF assms off] st]] finish_failed_settled
    by blast
  show ?thesis
  proof (cases "se_on_failed env (set_failed now msg m) ?h")
    case None
    with fin get nop show ?thesis by (simp add: fail_node_def Let_def msg_def)
  next
    case (Some e)
    then have "\<not> silent env" by (auto simp: silent_def)
    with Some off st get show ?thesis
      by (simp add: fail_node_def Let_def msg_def turn_escaped)
  qed
qed

lemma fail_node_settled: "\<not> se_planner env \<Longrightarrow> \<not> in_flight (fst (fail_node env now nid err g))"
  by (auto simp: fail_node_def Let_def finish_failed_settled split: option.splits)

lemma complete_node_cases:
  assumes "at_node env g n"
  obtains h where "off (tn_id n) g h" "status_of h (tn_id n) = Some COMPLETED"
    "complete_node env now (tn_id n) r g = (None, h)"
  | e h where "off (tn_id n) g h" "status_of h (tn_id n) = Some COMPLETED"
    "complete_node env now (tn_id n) r g = (Some e, h)" "\<not> silent env"
proof -
  let ?h = "adjust_node (tn_id n) (set_completed now r) g"
  obtain m where m: "get_node g (tn_id n) = Some m" using assms by (auto simp: at_node_def)
  have h: "off (tn_id n) g ?h" "status_of ?h (tn_id n) = Some COMPLETED"
    using m by (simp_all add: status_adjust off_adjust)
  have c: "complete_node env now (tn_id n) r g = (se_on_complete env (set_completed now r m) ?h, ?h)"
    using m by (simp add: complete_node_def Let_def get_adjust_node)
  show thesis
  proof (cases "se_on_complete env (set_completed now r m) ?h")
    case None
    with that(1) [OF h] c show thesis by simp
  next
    case (Some e)
    then have "\<not> silent env" by (auto simp: silent_def)
    with that(2) [OF h] c Some show thesis by simp
  qed
qed

lemma finish_completed_turn:
  assumes "at_node env g n"
  shows "turn_result env (tn_id n) g (finish_completed env now (tn_id n) r g)"
  using assms
  by (rule complete_node_cases [of env g n now r])
    (simp_all add: finish_completed_def turn_ended turn_escaped)

lemma give_up_turn:
  assumes "at_node env g n"
  shows "turn_result env (tn_id n) g (give_up env now n err g)"
  using fail_node_turn [OF assms]
  by (auto simp: give_up_def intro: turn_running split: option.splits)

lemma attempt_failed_turn:
  assumes "at_node env g n"
  shows "turn_result env (tn_id n) g (attempt_failed env now n params i a err g)"
  using give_up_turn [OF assms]
  by (auto simp: attempt_failed_def Let_def intro: turn_running)

lemma begin_attempt_turn:
  assumes "at_node env g n"
  shows "turn_result env (tn_id n) g (begin_attempt env now n params i a g)"
  using attempt_failed_turn [OF assms]
  by (auto simp: begin_attempt_def intro: turn_running split: option.splits)

lemma begin_iteration_turn:
  assumes "at_node env g n"
  shows "turn_result env (tn_id n) g (begin_iteration env now n params i g)"
  using give_up_turn [OF assms] begin_attempt_turn [OF assms]
  by (auto simp: begin_iteration_def)

lemma attempt_succeeded_turn:
  assumes "at_node env g n"
  shows "turn_result env (tn_id n) g (attempt_succeeded env now n params i r g)"
proof -
  let ?h = "adjust_node (tn_id n) (\<lambda>m. m\<lparr>tn_result := r\<rparr>) g"
  have off: "off (tn_id n) g ?h" by (rule off_adjust) (simp add: same_plan_def)
  have "status_of ?h (tn_id n) = status_of g (tn_id n)"
    by (simp add: status_adjust) (simp add: status_of_def)
  then show ?thesis
    using turn_off [OF off begin_iteration_turn [OF at_node_off [OF assms off]]]
      turn_off [OF off finish_completed_turn [OF at_node_off [OF assms off]]]
    by (simp add: attempt_succeeded_def Let_def)
qed

lemma attempt_replied_turn:
  assumes "at_node env g n"
  shows "turn_result env (tn_id n) g (attempt_replied env now n params i a r g)"
  using attempt_failed_turn [OF assms] attempt_succeeded_turn [OF assms]
  by (auto simp: attempt_replied_def split: outcome.splits)

lemma fallback_replied_turn:
  assumes "at_node env g n"
  shows "turn_result env (tn_id n) g (fallback_replied env now n fb r g)"
proof (cases "case r of Raise e \<Rightarrow> Raise e | Ret v \<Rightarrow> action_result env fb v")
  case (Raise e)
  then show ?thesis using fail_node_turn [OF assms] by (simp add: fallback_replied_def)
next
  case (Ret v)
  from assms show ?thesis
  proof (rule complete_node_cases [of env g n now v])
    fix h assume "off (tn_id n) g h" "status_of h (tn_id n) = Some COMPLETED"
      "complete_node env now (tn_id n) v g = (None, h)"
    with Ret show ?thesis by (simp add: fallback_replied_def turn_ended)
  next
    fix e h assume h: "off (tn_id n) g h" "complete_node env now (tn_id n) v g = (Some e, h)"
    have "\<not> se_planner env" using assms by (simp add: at_node_def)
    with Ret h show ?thesis
      using turn_off [OF h(1) fail_node_turn [OF at_node_off [OF assms h(1)]]] fail_node_settled
      by (simp add: fallback_replied_def)
  qed
qed

lemma start_node_turn:
  assumes "at_node env g n"
  shows "turn_result env (tn_id n) g (start_node env now n g)"
proof -
  let ?h = "adjust_node (tn_id n) (set_running now) g"
  obtain m where m: "get_node g (tn_id n) = Some m" using assms by (auto simp: at_node_def)
  have off: "off (tn_id n) g ?h" by (rule off_adjust) simp
  have "status_of ?h (tn_id n) = Some RUNNING" using m by (simp add: status_adjust)
  with turn_off [OF off begin_iteration_turn [OF at_node_off [OF assms off]]]
  have run: "turn_result env (tn_id n) g (run_node env now n g)" by (simp add: run_node_def Let_def)
  have "turn_result env (tn_id n) g (Finished, adjust_node (tn_id n) (set_skipped now w) g)" for w
    using m by (intro turn_ended off_adjust) (simp_all add: status_adjust)
  with run show ?thesis by (simp add: start_node_def)
qed

text \<open>Every event of a node but a cancellation, from the phases a planner-free run can be in.\<close>

lemma node_event_turn:
  assumes "node_event env ev running g n p = Some pg" "\<And>now k e. ev \<noteq> Abort now k e"
    and "at_node env g n" "event_node ev = Some (tn_id n)"
    and "p \<noteq> Replanning"
  shows "turn_result env (tn_id n) g pg"
proof -
  let ?w = "adjust_node (tn_id n) (\<lambda>m. m\<lparr>tn_attempt_count := tn_attempt_count m + 1\<rparr>) g"
  have off: "off (tn_id n) g ?w" by (rule off_adjust) (simp add: same_plan_def)
  have "status_of ?w (tn_id n) = status_of g (tn_id n)"
    by (simp add: status_adjust) (simp add: status_of_def)
  then have wake: "turn_result env (tn_id n) g (begin_attempt env now n params i a ?w)" for now params i a
    using turn_off [OF off begin_attempt_turn [OF at_node_off [OF assms(3) off]]] by simp
  show ?thesis
  proof (cases p)
    case Waiting
    with assms(1,4) show ?thesis
      by (cases ev) (auto split: if_splits intro: start_node_turn [OF assms(3)])
  next
    case (Dispatched params i a)
    with assms show ?thesis
      by (cases ev) (auto split: if_splits intro: attempt_replied_turn [OF assms(3)])
  next
    case (Sleeping params i a d)
    with assms wake show ?thesis by (cases ev) auto
  next
    case (InFallback fb)
    with assms(1,2) show ?thesis
      by (cases ev) (auto split: outcome.splits reply.splits intro: fallback_replied_turn [OF assms(3)])
  qed (use assms in \<open>cases ev; auto\<close>)+
qed

end
