(* ===== verification/Task_Scheduler_Bound.thy ===== *)
theory Task_Scheduler_Bound imports Task_Scheduler_Turns begin

text \<open>
  Termination of \<open>execute_graph\<close> without a planner: every event uses up work that is fixed by the
  retry policies and repeat counts of the graph, whatever is replied, raised or cancelled.
\<close>

section \<open>Work\<close>

definition retry_slots :: "task_node \<Rightarrow> nat" where
  "retry_slots n = nat (rp_max_retries (node_policy n) + 1)"

definition node_bound :: "task_node \<Rightarrow> nat" where
  "node_bound n = 2 * (total_iterations n * retry_slots n) + 4"

fun phase_ok :: "task_node \<Rightarrow> task_phase \<Rightarrow> bool" where
  "phase_ok n (Dispatched params i a) = (i < total_iterations n \<and> a < retry_slots n)"
| "phase_ok n (Sleeping params i a d) = (i < total_iterations n \<and> Suc a < retry_slots n)"
| "phase_ok n Replanning = False"
| "phase_ok n _ = True"

fun phase_work :: "task_node \<Rightarrow> task_phase \<Rightarrow> nat" where
  "phase_work n Waiting = 2 * (total_iterations n * retry_slots n) + 3"
| "phase_work n (Dispatched params i a) = 2 * ((total_iterations n - i) * retry_slots n - a) + 2"
| "phase_work n (Sleeping params i a d) = 2 * ((total_iterations n - i) * retry_slots n - a) + 1"
| "phase_work n (InFallback fb) = 1"
| "phase_work n Replanning = 1"
| "phase_work n Finished = 0"
| "phase_work n (Escaped e) = 0"

definition fits :: "task_node \<Rightarrow> nat \<Rightarrow> task_phase \<times> task_graph \<Rightarrow> bool" where
  "fits n w pg \<longleftrightarrow> phase_ok n (fst pg) \<and> phase_work n (fst pg) \<le> w"

lemma fits_mono: "fits n v pg \<Longrightarrow> v \<le> w \<Longrightarrow> fits n w pg"
  by (simp add: fits_def)

lemma same_plan_work:
  assumes "same_plan m n"
  shows "phase_ok m p = phase_ok n p" "phase_work m p = phase_work n p" "node_bound m = node_bound n"
proof -
  have t: "total_iterations m = total_iterations n" and r: "retry_slots m = retry_slots n"
    using assms by (simp_all add: same_plan_def total_iterations_def retry_slots_def node_policy_def)
  show "phase_ok m p = phase_ok n p" by (cases p) (simp_all add: t r)
  show "phase_work m p = phase_work n p" by (cases p) (simp_all add: t r)
  show "node_bound m = node_bound n" by (simp add: node_bound_def t r)
qed

lemma settled_fits: "settled p \<Longrightarrow> fits n w (p, g)"
  by (cases p) (auto simp: fits_def)

lemma fail_node_fits: "\<not> se_planner env \<Longrightarrow> fits n w (fail_node env now nid err g)"
  by (auto simp: fail_node_def Let_def finish_failed_def intro: settled_fits split: option.splits sum.splits)

lemma finish_completed_fits: "fits n w (finish_completed env now nid r g)"
  by (auto simp: finish_completed_def intro: settled_fits split: prod.splits option.splits)

lemma give_up_fits: "\<not> se_planner env \<Longrightarrow> 1 \<le> w \<Longrightarrow> fits n w (give_up env now n err g)"
  by (auto simp: give_up_def fail_node_fits split: option.splits) (simp add: fits_def)

lemma fallback_replied_fits: "\<not> se_planner env \<Longrightarrow> fits n 0 (fallback_replied env now n fb r g)"
  by (auto simp: fallback_replied_def fail_node_fits intro: settled_fits
      split: outcome.splits prod.splits option.splits)

lemma attempt_failed_fits:
  assumes "\<not> se_planner env" "i < total_iterations n" "a < retry_slots n"
  shows "fits n (2 * ((total_iterations n - i) * retry_slots n - a) + 1)
           (attempt_failed env now n params i a err g)"
proof -
  have "Suc a < retry_slots n" if "int a < rp_max_retries (node_policy n)"
    using that by (simp add: retry_slots_def)
  then show ?thesis
    using assms give_up_fits [OF assms(1), of "2 * ((total_iterations n - i) * retry_slots n - a) + 1" n now "Some err" g]
    by (simp add: attempt_failed_def Let_def fits_def)
qed

lemma begin_attempt_fits:
  assumes "\<not> se_planner env" "i < total_iterations n" "a < retry_slots n"
  shows "fits n (2 * ((total_iterations n - i) * retry_slots n - a) + 2)
           (begin_attempt env now n params i a g)"
proof (cases "dispatch_check env n")
  case None
  with assms show ?thesis by (simp add: begin_attempt_def fits_def)
next
  case (Some err)
  then show ?thesis
    using fits_mono [OF attempt_failed_fits [OF assms]] by (simp add: begin_attempt_def)
qed

lemma begin_iteration_fits:
  assumes "\<not> se_planner env" "i < total_iterations n"
  shows "fits n (2 * ((total_iterations n - i) * retry_slots n) + 2) (begin_iteration env now n params i g)"
proof (cases "rp_max_retries (node_policy n) + 1 \<le> 0")
  case True
  then show ?thesis using give_up_fits [OF assms(1)] by (simp add: begin_iteration_def)
next
  case False
  then have "0 < retry_slots n" by (simp add: retry_slots_def)
  with False begin_attempt_fits [OF assms, of 0] show ?thesis by (simp add: begin_iteration_def)
qed

lemma slots_step:
  assumes "i < t" "a < (r :: nat)"
  shows "(t - Suc i) * r < (t - i) * r - a"
proof -
  have "(t - i) * r = (t - Suc i) * r + r"
    using assms(1) by (metis Suc_diff_Suc add.commute mult_Suc)
  with assms(2) show ?thesis by simp
qed

lemma attempt_succeeded_fits:
  assumes "\<not> se_planner env" "i < total_iterations n" "a < retry_slots n"
  shows "fits n (2 * ((total_iterations n - i) * retry_slots n - a) + 1)
           (attempt_succeeded env now n params i r g)"
proof -
  have "2 * ((total_iterations n - Suc i) * retry_slots n) + 2
      \<le> 2 * ((total_iterations n - i) * retry_slots n - a) + 1"
    using slots_step [OF assms(2,3)] by simp
  then have "fits n (2 * ((total_iterations n - i) * retry_slots n - a) + 1)
      (begin_iteration env now n params (Suc i) h)" if "Suc i < total_iterations n" for h
    using fits_mono [OF begin_iteration_fits [OF assms(1) that]] by blast
  then show ?thesis
    by (auto simp: attempt_succeeded_def Let_def finish_completed_fits)
qed

lemma attempt_replied_fits:
  assumes "\<not> se_planner env" "i < total_iterations n" "a < retry_slots n"
  shows "fits n (2 * ((total_iterations n - i) * retry_slots n - a) + 1)
           (attempt_replied env now n params i a r g)"
  using attempt_failed_fits [OF assms] attempt_succeeded_fits [OF assms]
  by (auto simp: attempt_replied_def split: outcome.splits)

lemma start_node_fits:
  assumes "\<not> se_planner env"
  shows "fits n (2 * (total_iterations n * retry_slots n) + 2) (start_node env now n g)"
proof -
  have "0 < total_iterations n" by (simp add: total_iterations_def)
  from begin_iteration_fits [OF assms this] show ?thesis
    by (auto simp: start_node_def run_node_def Let_def intro: settled_fits)
qed

lemma node_event_work:
  assumes "node_event env ev running g n p = Some pg" "\<not> se_planner env" "phase_ok n p"
  shows "phase_ok n (fst pg) \<and> phase_work n (fst pg) < phase_work n p"
proof (cases "\<exists>now nid e. ev = Abort now nid e")
  case True
  with assms show ?thesis by (cases p) (auto split: if_splits)
next
  case False
  show ?thesis
  proof (cases p)
    case Waiting
    then obtain now where "pg = start_node env now n g"
      using assms(1) False by (cases ev) (auto split: if_splits)
    with Waiting start_node_fits [OF assms(2), of n now g] show ?thesis by (simp add: fits_def)
  next
    case (Dispatched params i a)
    then obtain now r where "pg = attempt_replied env now n params i a r g"
      using assms(1) False by (cases ev) (auto split: if_splits)
    moreover have "i < total_iterations n" "a < retry_slots n" using Dispatched assms(3) by auto
    ultimately show ?thesis
      using Dispatched attempt_replied_fits [OF assms(2), of i n a now params r g] by (simp add: fits_def)
  next
    case (Sleeping params i a d)
    then have "Suc a < (total_iterations n - i) * retry_slots n"
      using assms(3) by (cases "total_iterations n - i") auto
    moreover have "Suc (Suc (2 * (w - Suc a))) < Suc (2 * (w - a))" if "Suc a < w" for w :: nat
      using that by simp
    ultimately have step: "Suc (Suc (2 * ((total_iterations n - i) * retry_slots n - Suc a)))
        < Suc (2 * ((total_iterations n - i) * retry_slots n - a))" by blast
    obtain now h where "pg = begin_attempt env now n params i (Suc a) h"
      using Sleeping assms(1) False by (cases ev) auto
    moreover have "i < total_iterations n" "Suc a < retry_slots n" using Sleeping assms(3) by auto
    ultimately show ?thesis
      using Sleeping step begin_attempt_fits [OF assms(2), of i n "Suc a" now params h]
      by (simp add: fits_def)
  next
    case (InFallback fb)
    then obtain now r where "pg = fallback_replied env now n fb r g"
      using assms(1) False by (cases ev) (auto split: outcome.splits reply.splits)
    with InFallback fallback_replied_fits [OF assms(2), of n now fb r g] show ?thesis
      by (simp add: fits_def)
  qed (use assms False in \<open>cases ev; auto\<close>)+
qed

section \<open>The state of a planner-free run\<close>

definition ended :: "task_graph \<Rightarrow> string \<Rightarrow> bool" where
  "ended g k \<longleftrightarrow> (\<exists>st. status_of g k = Some st \<and> terminal_status st)"

definition begun :: "task_graph \<Rightarrow> string \<Rightarrow> bool" where
  "begun g k \<longleftrightarrow> status_of g k = Some RUNNING \<or> ended g k"

definition phase_tracks :: "task_graph \<Rightarrow> string \<Rightarrow> task_phase \<Rightarrow> bool" where
  "phase_tracks g k p \<longleftrightarrow>
     (in_flight p \<longrightarrow> begun g k) \<and> (p = Finished \<longrightarrow> ended g k) \<and> ((\<exists>e. p = Escaped e) \<longrightarrow> begun g k)
   \<and> (\<exists>n. get_node g k = Some n \<and> phase_ok n p)"

definition tracked :: "sched_env \<Rightarrow> task_graph \<Rightarrow> sched \<Rightarrow> bool" where
  "tracked env g0 s \<longleftrightarrow>
     wave_ok env s \<and> \<not> se_planner env \<and> graph_wf g0 \<and> deps_closed g0 \<and> plan_eq g0 (sc_graph s)
   \<and> (\<forall>(k, p) \<in> set (sc_wave s). phase_tracks (sc_graph s) k p)"

lemma turn_plan: "turn_result env nid g pg \<Longrightarrow> plan_eq g (snd pg)"
  by (auto elim!: turn_result.cases simp: off_def)

lemma status_skip:
  "map_option tn_status (map_option (skip_open now r) x)
     = map_option (\<lambda>st. if terminal_status st then st else SKIPPED) (map_option tn_status x)"
  by (cases x) (simp_all add: skip_open_def is_terminal_def)

lemma failed_status:
  assumes "\<forall>k. get_node h k = (if P k then map_option (skip_open now r) (get_node m k) else get_node m k)"
  shows "status_of h k =
    (if P k then map_option (\<lambda>st. if terminal_status st then st else SKIPPED) (status_of m k) else status_of m k)"
  using assms by (simp only: status_of_def status_skip split: if_splits) simp

lemma off_status: "off nid g h \<Longrightarrow> k \<noteq> nid \<Longrightarrow> status_of h k = status_of g k"
  by (simp add: off_def status_of_def)

lemma turn_others:
  assumes "turn_result env nid g pg" "k \<noteq> nid"
  shows "status_of (snd pg) k = status_of g k
    \<or> (status_of (snd pg) k = Some SKIPPED \<and> \<not> ended g k \<and> (nid, k) \<in> (dep_rel g)\<^sup>+)"
  using assms(1)
proof cases
  case (turn_failed m h now r)
  with failed_status [of h "\<lambda>k. (nid, k) \<in> (dep_rel g)\<^sup>+" now r m k] off_status [OF _ assms(2)]
  show ?thesis by (cases "status_of g k") (auto simp: ended_def)
qed (use off_status [OF _ assms(2)] in auto)

lemma turn_self:
  assumes "turn_result env nid g (p, h)"
  shows "(in_flight p \<longrightarrow> p \<noteq> Replanning \<and> (status_of h nid = Some RUNNING \<or> status_of h nid = status_of g nid))
    \<and> (p = Finished \<longrightarrow> ended h nid) \<and> ((\<exists>e. p = Escaped e) \<longrightarrow> ended h nid)
    \<and> p \<noteq> Waiting"
  using assms
proof (rule turn_resultE)
  fix m now r
  assume "p = Finished" "status_of m nid = Some FAILED"
    "\<And>k. get_node h k = (if (nid, k) \<in> (dep_rel g)\<^sup>+ then map_option (skip_open now r) (get_node m k) else get_node m k)"
  with failed_status [of h "\<lambda>k. (nid, k) \<in> (dep_rel g)\<^sup>+" now r m nid] show ?thesis
    by (auto simp: ended_def terminal_status_def)
qed (auto simp: ended_def terminal_status_def)

lemma turn_ended_stays:
  assumes "turn_result env nid g pg" "k \<noteq> nid" "ended g k"
  shows "status_of (snd pg) k = status_of g k"
  using turn_others [OF assms(1,2)] assms(3) by auto

lemma turn_begun_stays:
  assumes "turn_result env nid g pg" "k \<noteq> nid"
  shows "begun g k \<Longrightarrow> begun (snd pg) k" "ended g k \<Longrightarrow> ended (snd pg) k"
  using turn_others [OF assms] by (auto simp: begun_def ended_def terminal_status_def)

text \<open>The event of a node, seen from the state: which node, phase and segment it is.\<close>

lemma sched_next_nodeE:
  assumes "sched_next env ev s = Some t" "event_node ev = Some nid" "tracked env g0 s"
  obtains p n pg where "(nid, p) \<in> set (sc_wave s)" "map_of (sc_wave s) nid = Some p"
    "get_node (sc_graph s) nid = Some n" "tn_id n = nid" "at_node env (sc_graph s) n"
    "node_event env ev (running_count s) (sc_graph s) n p = Some pg" "t = resume nid pg s"
    "phase_ok n p" "\<not> sc_done s"
proof -
  from assms(1,2) obtain p n pg where x: "map_of (sc_wave s) nid = Some p"
    "get_node (sc_graph s) nid = Some n" "\<not> sc_done s"
    "node_event env ev (running_count s) (sc_graph s) n p = Some pg" "t = resume nid pg s"
    by (auto simp: sched_next_def split: if_splits option.splits)
  have pe: "plan_eq g0 (sc_graph s)" and g0: "graph_wf g0" "deps_closed g0" and np: "\<not> se_planner env"
    using assms(3) by (auto simp: tracked_def)
  have wf: "graph_wf (sc_graph s)" "deps_closed (sc_graph s)"
    using plan_eq_wf [OF pe g0(1)] plan_eq_deps_closed [OF pe g0] by auto
  have id: "tn_id n = nid" by (rule graph_wf_get_id [OF wf(1) x(2)])
  have "at_node env (sc_graph s) n" using wf np x(2) id by (simp add: at_node_def)
  moreover have mem: "(nid, p) \<in> set (sc_wave s)" by (rule map_of_SomeD [OF x(1)])
  moreover have "phase_ok n p"
    using assms(3) mem x(2) by (fastforce simp: tracked_def phase_tracks_def)
  ultimately show thesis using that x id by blast
qed

text \<open>A node that starts and is then in flight has been marked running.\<close>

lemma turn_running_keeps:
  assumes "turn_result env nid g (p, h)" "in_flight p" "status_of g nid = Some RUNNING"
  shows "status_of h nid = Some RUNNING"
  using turn_self [OF assms(1)] assms(2,3) by auto

lemma start_running:
  assumes "node_event env ev running g n Waiting = Some pg" "at_node env g n" "in_flight (fst pg)"
  shows "status_of (snd pg) (tn_id n) = Some RUNNING"
proof -
  let ?h = "\<lambda>now. adjust_node (tn_id n) (set_running now) g"
  obtain now where pg: "pg = start_node env now n g" using assms(1,3) by (cases ev) (auto split: if_splits)
  then have run: "pg = begin_iteration env now n (resolve_params (se_str env) (se_getattr env) (?h now) n) 0 (?h now)"
    using assms(3) by (auto simp: start_node_def run_node_def Let_def split: if_splits)
  obtain m where m: "get_node g (tn_id n) = Some m" using assms(2) by (auto simp: at_node_def)
  have "off (tn_id n) g (?h now)" by (rule off_adjust) simp
  then have "turn_result env (tn_id n) (?h now) pg"
    unfolding run by (rule begin_iteration_turn [OF at_node_off [OF assms(2)]])
  moreover have "status_of (?h now) (tn_id n) = Some RUNNING" using m by (simp add: status_adjust)
  ultimately show ?thesis using turn_running_keeps assms(3) by (cases pg) auto
qed

lemma phase_ok_not_replanning: "phase_ok n p \<Longrightarrow> p \<noteq> Replanning"
  by auto

lemma wave_resume:
  assumes "dict_wf (sc_wave s)" "(k, q) \<in> set (sc_wave (resume nid pg s))"
  shows "(k \<noteq> nid \<and> (k, q) \<in> set (sc_wave s)) \<or> (k = nid \<and> q = fst pg)"
  using assms(2) by (auto simp: resume_def dict_adjust_def split: if_splits)

lemma phase_tracks_frame:
  assumes "phase_tracks g k p" "plan_eq g h" "begun g k \<Longrightarrow> begun h k" "ended g k \<Longrightarrow> ended h k"
  shows "phase_tracks h k p"
proof -
  obtain n where n: "get_node g k = Some n" "phase_ok n p" using assms(1) by (auto simp: phase_tracks_def)
  from assms(2) n(1) obtain m where "get_node h k = Some m" "same_plan n m" by (rule plan_eq_getE)
  with n(2) same_plan_work(1) have "\<exists>m. get_node h k = Some m \<and> phase_ok m p" by blast
  with assms show ?thesis by (auto simp: phase_tracks_def)
qed

lemma tracked_node_event:
  assumes "tracked env g0 s" "sched_next env ev s = Some t" "event_node ev = Some nid"
  shows "tracked env g0 t"
proof -
  obtain p n pg where x: "(nid, p) \<in> set (sc_wave s)" "map_of (sc_wave s) nid = Some p"
    "get_node (sc_graph s) nid = Some n" "tn_id n = nid" "at_node env (sc_graph s) n"
    "node_event env ev (running_count s) (sc_graph s) n p = Some pg" "t = resume nid pg s"
    "phase_ok n p" "\<not> sc_done s"
    using sched_next_nodeE [OF assms(2,3,1)] by blast
  have tr: "phase_tracks (sc_graph s) k q" if "(k, q) \<in> set (sc_wave s)" for k q
    using assms(1) that by (auto simp: tracked_def)
  have wave: "dict_wf (sc_wave s)" and np: "\<not> se_planner env"
    using assms(1) by (auto simp: tracked_def wave_ok_def)
  have work: "phase_ok n (fst pg)" using node_event_work [OF x(6) np x(8)] by simp
  have ok: "wave_ok env t" using wave_ok_sched_next assms by (auto simp: tracked_def)
  have main: "plan_eq (sc_graph s) (snd pg) \<and> phase_tracks (snd pg) nid (fst pg)
    \<and> (\<forall>k. k \<noteq> nid \<longrightarrow> (begun (sc_graph s) k \<longrightarrow> begun (snd pg) k) \<and> (ended (sc_graph s) k \<longrightarrow> ended (snd pg) k))"
  proof (cases "\<exists>now k e. ev = Abort now k e")
    case True
    from True x(6) obtain e where "pg = (Escaped e, sc_graph s)" "in_flight p"
      by (cases p) (auto split: if_splits)
    with tr [OF x(1)] x(3) show ?thesis by (auto simp: phase_tracks_def)
  next
    case False
    have turn: "turn_result env nid (sc_graph s) pg"
      using node_event_turn [OF x(6) _ x(5)] False assms(3) x(4) phase_ok_not_replanning [OF x(8)] by blast
    obtain q h where pg: "pg = (q, h)" by (cases pg)
    have plan: "plan_eq (sc_graph s) h" using turn_plan [OF turn] pg by simp
    obtain m where m: "get_node h nid = Some m" "same_plan n m"
      using plan x(3) by (rule plan_eq_getE)
    have begun: "begun h nid"
    proof (cases "in_flight q")
      case True
      have "status_of h nid = Some RUNNING \<or> status_of h nid = status_of (sc_graph s) nid"
        using turn_self [OF turn [unfolded pg]] True by simp
      moreover have "p \<noteq> Waiting \<or> status_of h nid = Some RUNNING"
        using start_running [of env ev "running_count s" "sc_graph s" n pg] x pg True by auto
      moreover have "begun (sc_graph s) nid" if "p \<noteq> Waiting"
        using tr [OF x(1)] that x(6) node_event_settled [of p] by (cases p) (auto simp: phase_tracks_def)
      ultimately show ?thesis by (auto simp: begun_def ended_def)
    next
      case False
      then show ?thesis using turn_self [OF turn [unfolded pg]] by (cases q) (auto simp: begun_def)
    qed
    then have "phase_tracks h nid q"
      using turn_self [OF turn [unfolded pg]] m work same_plan_work(1) [OF m(2)] pg
      by (auto simp: phase_tracks_def)
    with plan turn_begun_stays [OF turn] pg show ?thesis by simp
  qed
  have "phase_tracks (sc_graph t) k q" if kq: "(k, q) \<in> set (sc_wave t)" for k q
  proof -
    have "(k \<noteq> nid \<and> (k, q) \<in> set (sc_wave s)) \<or> (k = nid \<and> q = fst pg)"
      using wave_resume [OF wave] kq x(7) by blast
    then show ?thesis
    proof
      assume k: "k \<noteq> nid \<and> (k, q) \<in> set (sc_wave s)"
      then have "phase_tracks (snd pg) k q"
        using phase_tracks_frame [OF tr] main by blast
      with x(7) show ?thesis by (simp add: resume_def)
    qed (use main x(7) in \<open>simp add: resume_def\<close>)
  qed
  moreover have "plan_eq g0 (sc_graph t)"
    using assms(1) main x(7) by (auto simp: tracked_def resume_def intro: plan_eq_trans)
  ultimately show ?thesis using ok assms(1) by (auto simp: tracked_def)
qed

section \<open>The end of a wave\<close>

lemma settle_one_status:
  "status_of (settle_one now g (j, p)) k =
     (if k = j \<and> (\<exists>e. p = Escaped e) \<and> status_of g k = Some RUNNING then Some FAILED else status_of g k)"
  by (cases p; cases "get_node g k")
    (auto simp: settle_one_def status_of_def get_adjust_node)

lemma settle_status:
  "status_of (settle_wave now w g) k =
     (if (\<exists>e. (k, Escaped e) \<in> set w) \<and> status_of g k = Some RUNNING then Some FAILED else status_of g k)"
proof (induction w arbitrary: g)
  case (Cons kp w)
  obtain j p where kp: "kp = (j, p)" by (cases kp)
  have "status_of (settle_wave now (kp # w) g) k = status_of (settle_wave now w (settle_one now g kp)) k"
    by (simp add: settle_wave_def)
  then show ?case unfolding Cons.IH kp settle_one_status by auto
qed (simp add: settle_wave_def)

lemma settle_plan: "plan_eq g (settle_wave now w g)"
proof (induction w arbitrary: g)
  case (Cons kp w)
  have "plan_eq g (settle_one now g kp)"
    by (auto simp: settle_one_def intro!: plan_eq_adjust split: prod.splits task_phase.splits)
  with Cons show ?case unfolding settle_wave_def foldl_Cons by (blast intro: plan_eq_trans)
qed (simp add: settle_wave_def)

lemma deadlock_plan: "plan_eq g (handle_deadlock now g)"
proof -
  have same: "same_plan n (resolve_deadlocked now ids n)" for n ids
    by (simp add: resolve_deadlocked_def)
  have "list_all2 (rel_prod (=) same_plan) d (map (\<lambda>(k, n). (k, resolve_deadlocked now ids n)) d)" for d ids
    by (induction d) (auto simp: rel_prod_sel same)
  then show ?thesis by (simp add: plan_eq_def handle_deadlock_def Let_def)
qed

lemma settled_ended:
  assumes "tracked env g0 s" "list_all (\<lambda>(k, p). settled p) (sc_wave s)" "(k, p) \<in> set (sc_wave s)"
  shows "ended (settle_wave now (sc_wave s) (sc_graph s)) k"
proof -
  have "settled p" "phase_tracks (sc_graph s) k p"
    using assms by (auto simp: tracked_def list_all_iff)
  with assms(3) show ?thesis
    by (cases p) (auto simp: phase_tracks_def begun_def ended_def settle_status terminal_status_def)
qed

lemma next_wave_cases:
  obtains "is_complete (settle_wave now (sc_wave s) (sc_graph s))"
    "next_wave now s = s\<lparr>sc_graph := settle_wave now (sc_wave s) (sc_graph s), sc_wave := [], sc_done := True\<rparr>"
  | "ready_nodes (settle_wave now (sc_wave s) (sc_graph s)) = []"
    "next_wave now s = s\<lparr>sc_graph := handle_deadlock now (settle_wave now (sc_wave s) (sc_graph s)),
       sc_wave := [], sc_done := True\<rparr>"
  | "ready_nodes (settle_wave now (sc_wave s) (sc_graph s)) \<noteq> []"
    "next_wave now s = s\<lparr>sc_graph := settle_wave now (sc_wave s) (sc_graph s),
       sc_wave := map (\<lambda>n. (tn_id n, Waiting)) (ready_nodes (settle_wave now (sc_wave s) (sc_graph s)))\<rparr>"
  by (cases "is_complete (settle_wave now (sc_wave s) (sc_graph s))";
      cases "ready_nodes (settle_wave now (sc_wave s) (sc_graph s)) = []")
    (simp_all add: next_wave_def Let_def)

lemma tracked_next_wave:
  assumes "tracked env g0 s" "\<not> sc_done s"
  shows "tracked env g0 (next_wave now s)"
proof -
  let ?g = "settle_wave now (sc_wave s) (sc_graph s)"
  have pe: "plan_eq g0 ?g" using assms(1) settle_plan plan_eq_trans by (fastforce simp: tracked_def)
  have wf: "graph_wf ?g" using pe assms(1) plan_eq_wf by (auto simp: tracked_def)
  have "phase_tracks ?g (tn_id n) Waiting" if "n \<in> set (ready_nodes ?g)" for n
    using that ready_nodes_iff [OF wf, of n] by (simp add: phase_tracks_def)
  moreover have "wave_ok env (next_wave now s)" using wave_ok_next assms by (auto simp: tracked_def)
  ultimately show ?thesis
    using assms(1) pe plan_eq_trans [OF pe deadlock_plan]
    by (cases rule: next_wave_cases [of now s]) (auto simp: tracked_def)
qed

lemma sched_next_wave:
  assumes "sched_next env ev s = Some t" "event_node ev = None"
  shows "\<exists>now. t = next_wave now s" "\<not> sc_done s" "list_all (\<lambda>(k, p). settled p) (sc_wave s)"
  using assms by (auto simp: sched_next_def split: if_splits sched_event.splits)

lemma tracked_sched_next:
  assumes "tracked env g0 s" "sched_next env ev s = Some t"
  shows "tracked env g0 t"
proof (cases "event_node ev")
  case None
  then show ?thesis
    using sched_next_wave [OF assms(2)] tracked_next_wave [OF assms(1)] by blast
qed (rule tracked_node_event [OF assms])

section \<open>The measure\<close>

definition node_work :: "task_graph \<Rightarrow> sched \<Rightarrow> string \<Rightarrow> nat" where
  "node_work g0 s k =
     (case get_node g0 k of
        None \<Rightarrow> 0
      | Some n \<Rightarrow>
          (case map_of (sc_wave s) k of
             Some p \<Rightarrow> phase_work n p
           | None \<Rightarrow> if ended (sc_graph s) k then 0 else node_bound n))"

definition sched_work :: "task_graph \<Rightarrow> sched \<Rightarrow> nat" where
  "sched_work g0 s = (\<Sum>k\<in>set (node_ids g0). node_work g0 s k) + (if sc_done s then 0 else 1)"

lemma work_node_event:
  assumes "tracked env g0 s" "sched_next env ev s = Some t" "event_node ev = Some nid"
  shows "sched_work g0 t < sched_work g0 s"
proof -
  obtain p n pg where x: "(nid, p) \<in> set (sc_wave s)" "map_of (sc_wave s) nid = Some p"
    "get_node (sc_graph s) nid = Some n" "tn_id n = nid" "at_node env (sc_graph s) n"
    "node_event env ev (running_count s) (sc_graph s) n p = Some pg" "t = resume nid pg s"
    "phase_ok n p" "\<not> sc_done s"
    using sched_next_nodeE [OF assms(2,3,1)] by blast
  have np: "\<not> se_planner env" and pe: "plan_eq g0 (sc_graph s)" using assms(1) by (auto simp: tracked_def)
  obtain m where m: "get_node g0 nid = Some m" "same_plan m n" using pe x(3) by (rule plan_eq_getE')
  have "phase_work n (fst pg) < phase_work n p" using node_event_work [OF x(6) np x(8)] by simp
  then have less: "node_work g0 t nid < node_work g0 s nid"
    using m x(2,7) same_plan_work [OF m(2)] by (simp add: node_work_def resume_def map_of_dict_adjust)
  have stays: "ended (snd pg) k" if "ended (sc_graph s) k" "k \<noteq> nid" for k
  proof (cases "\<exists>now j e. ev = Abort now j e")
    case True
    with x(6) have "snd pg = sc_graph s" by (cases p) (auto split: if_splits)
    with that show ?thesis by simp
  next
    case False
    have "turn_result env nid (sc_graph s) pg"
      using node_event_turn [OF x(6) _ x(5)] False assms(3) x(4) phase_ok_not_replanning [OF x(8)] by blast
    from turn_begun_stays(2) [OF this that(2,1)] show ?thesis .
  qed
  have "node_work g0 t k \<le> node_work g0 s k" for k
  proof (cases "k = nid")
    case True
    with less show ?thesis by simp
  next
    case False
    then have "map_of (sc_wave t) k = map_of (sc_wave s) k"
      using x(7) by (simp add: resume_def map_of_dict_adjust)
    moreover have "ended (sc_graph t) k" if "ended (sc_graph s) k"
      using stays [OF that False] x(7) by (simp add: resume_def)
    ultimately show ?thesis
      unfolding node_work_def by (cases "get_node g0 k"; cases "map_of (sc_wave s) k") auto
  qed
  moreover have "nid \<in> set (node_ids g0)" using m(1) in_ids_iff [of nid g0] by blast
  ultimately have "(\<Sum>k\<in>set (node_ids g0). node_work g0 t k) < (\<Sum>k\<in>set (node_ids g0). node_work g0 s k)"
    using less by (intro sum_strict_mono_ex1) auto
  then show ?thesis using x(7,9) by (simp add: sched_work_def resume_def)
qed

lemma ended_iff: "get_node g k = Some n \<Longrightarrow> ended g k \<longleftrightarrow> is_terminal n"
  by (auto simp: ended_def status_of_def is_terminal_def)

lemma ended_all:
  assumes "list_all (\<lambda>(k, n). is_terminal n) (tg_nodes g)" "k \<in> set (node_ids g)"
  shows "ended g k"
proof -
  obtain n where n: "get_node g k = Some n" using assms(2) in_ids_iff [of k g] by blast
  with assms(1) map_of_SomeD [OF n] show ?thesis by (auto simp: ended_iff list_all_iff)
qed

lemma work_next_wave:
  assumes "tracked env g0 s" "\<not> sc_done s" "list_all (\<lambda>(k, p). settled p) (sc_wave s)"
  shows "sched_work g0 (next_wave now s) < sched_work g0 s"
proof -
  let ?g = "settle_wave now (sc_wave s) (sc_graph s)" and ?t = "next_wave now s"
  have tt: "tracked env g0 ?t" by (rule tracked_next_wave [OF assms(1,2)])
  then have ids: "set (node_ids (sc_graph ?t)) = set (node_ids g0)"
    using plan_eq_node_ids by (fastforce simp: tracked_def)
  have waves: "map_of (sc_wave s) k = None" if "\<not> ended ?g k" for k
  proof (cases "map_of (sc_wave s) k")
    case (Some p)
    then show ?thesis using settled_ended [OF assms(1,3)] map_of_SomeD that by metis
  qed simp
  have before: "\<not> ended (sc_graph s) k" if "\<not> ended ?g k" for k
    using that by (force simp: ended_def settle_status terminal_status_def)
  have done_work: "sched_work g0 ?t < sched_work g0 s" if d: "sc_done ?t" "sc_wave ?t = []"
  proof -
    have "list_all (\<lambda>(k, n). is_terminal n) (tg_nodes (sc_graph ?t))"
      using tt d by (auto simp: tracked_def wave_ok_def)
    then have "node_work g0 ?t k = 0" if "k \<in> set (node_ids g0)" for k
      using ended_all that ids d(2) by (simp add: node_work_def split: option.splits del: set_map)
    then show ?thesis using d(1) assms(2) by (simp add: sched_work_def del: set_map)
  qed
  show ?thesis
  proof (cases rule: next_wave_cases [of now s])
    case 3
    have pe: "plan_eq g0 ?g" using tt 3 by (simp add: tracked_def)
    have wf: "graph_wf ?g" using pe assms(1) plan_eq_wf by (auto simp: tracked_def)
    have sel: "sc_wave ?t = map (\<lambda>n. (tn_id n, Waiting)) (ready_nodes ?g)"
      "sc_graph ?t = ?g" "sc_done ?t = sc_done s" using 3 by simp_all
    have "map_of (map (\<lambda>n. (tn_id n, Waiting)) ns) k
        = (if k \<in> tn_id ` set ns then Some Waiting else None)" for ns :: "task_node list" and k
      by (induction ns) auto
    then have wave: "map_of (sc_wave ?t) k = (if k \<in> tn_id ` set (ready_nodes ?g) then Some Waiting else None)" for k
      by (simp add: sel)
    have open_ready: "\<not> ended ?g k" if "k \<in> tn_id ` set (ready_nodes ?g)" for k
      using that ready_nodes_iff [OF wf] by (auto simp: ended_iff is_terminal_def terminal_status_def)
    have old: "node_work g0 s k = node_bound m" if "\<not> ended ?g k" "get_node g0 k = Some m" for k m
      using that waves [OF that(1)] before [OF that(1)] by (simp add: node_work_def)
    have le: "node_work g0 ?t k \<le> node_work g0 s k \<and> (k \<in> tn_id ` set (ready_nodes ?g) \<longrightarrow> node_work g0 ?t k < node_work g0 s k)"
      if kk: "k \<in> set (node_ids g0)" for k
    proof -
      obtain m where m: "get_node g0 k = Some m" using kk in_ids_iff [of k g0] by blast
      then have new: "node_work g0 ?t k = (if k \<in> tn_id ` set (ready_nodes ?g) then node_bound m - 1
          else if ended ?g k then 0 else node_bound m)"
        by (simp add: node_work_def wave sel(2) node_bound_def)
      show ?thesis
      proof (cases "ended ?g k")
        case True
        with new open_ready show ?thesis by auto
      next
        case False
        with new old [OF False m] show ?thesis by (simp add: node_bound_def)
      qed
    qed
    obtain r where r: "r \<in> set (ready_nodes ?g)" using 3(1) by (cases "ready_nodes ?g") auto
    then have rid: "tn_id r \<in> set (node_ids g0)"
      using ready_nodes_iff [OF wf] get_node_id_mem plan_eq_node_ids [OF pe] by metis
    have "(\<Sum>k\<in>set (node_ids g0). node_work g0 ?t k) < (\<Sum>k\<in>set (node_ids g0). node_work g0 s k)"
    proof (rule sum_strict_mono_ex1)
      show "\<exists>k\<in>set (node_ids g0). node_work g0 ?t k < node_work g0 s k"
        using rid le [OF rid] r by blast
    qed (use le in blast)+
    then show ?thesis by (simp add: sched_work_def sel(3))
  qed (use done_work in simp_all)
qed

lemma work_decreases:
  assumes "tracked env g0 s" "sched_next env ev s = Some t"
  shows "sched_work g0 t < sched_work g0 s"
proof (cases "event_node ev")
  case None
  then show ?thesis using sched_next_wave [OF assms(2)] work_next_wave [OF assms(1)] by blast
qed (rule work_node_event [OF assms])

lemma tracked_init:
  assumes "graph_wf g" "sched_init env g = Inr s" "\<not> se_planner env"
  shows "tracked env g s" "sc_graph s = g" "sc_wave s = []" "\<not> sc_done s"
proof -
  have v: "validate g = Inr []" and s: "s = \<lparr>sc_graph = g, sc_wave = [], sc_done = False\<rparr>"
    using assms(2) by (auto simp: sched_init_def split: sum.splits if_splits)
  have "deps_closed g" using validate_spec [OF assms(1)] v by (simp add: valid_graph_def)
  then show "tracked env g s" using wave_ok_init [OF assms(1,2)] assms s by (simp add: tracked_def)
qed (use assms in \<open>auto simp: sched_init_def split: sum.splits if_splits\<close>)

lemma run_bound:
  assumes "tracked env g0 s" "sched_run env evs s = Some t"
  shows "tracked env g0 t \<and> length evs + sched_work g0 t \<le> sched_work g0 s"
  using assms
proof (induction evs arbitrary: s)
  case (Cons ev evs)
  then obtain u where u: "sched_next env ev s = Some u" "sched_run env evs u = Some t"
    by (auto split: option.splits)
  have "tracked env g0 u" "sched_work g0 u < sched_work g0 s"
    using tracked_sched_next work_decreases Cons.prems(1) u(1) by blast+
  with Cons.IH [OF _ u(2)] show ?case by auto
qed simp

lemma run_append:
  "sched_run env (xs @ ys) s = (case sched_run env xs s of None \<Rightarrow> None | Some t \<Rightarrow> sched_run env ys t)"
  by (induction xs arbitrary: s) (auto split: option.splits)

lemma run_completes:
  assumes "tracked env g0 s" "0 < se_max_concurrency env"
  shows "\<exists>evs t. sched_run env evs s = Some t \<and> sc_done t"
  using assms(1)
proof (induction "sched_work g0 s" arbitrary: s rule: less_induct)
  case less
  show ?case
  proof (cases "sc_done s")
    case True
    then show ?thesis by (intro exI [of _ "[]"]) simp
  next
    case False
    have "wave_ok env s" using less.prems by (simp add: tracked_def)
    from not_stuck [OF this False assms(2)] obtain ev u where u: "sched_next env ev s = Some u" by blast
    with less work_decreases tracked_sched_next obtain evs t where
      "sched_run env evs u = Some t" "sc_done t" by metis
    with u show ?thesis by (intro exI [of _ "ev # evs"]) auto
  qed
qed

text \<open>
  C3. Without a planner \<open>execute_graph\<close> terminates whatever is replied, raised, cancelled or
  interleaved: no run has more events than the sum over the nodes of
  \<open>2 * iterations * (max_retries + 1) + 4\<close>, plus one; and every run can be continued until the
  loop has ended.
\<close>

theorem scheduler_terminates:
  assumes "graph_wf g" "sched_init env g = Inr s" "\<not> se_planner env" "0 < se_max_concurrency env"
    and "sched_run env evs s = Some t"
  shows "length evs \<le> (\<Sum>(k, n) \<leftarrow> tg_nodes g. node_bound n) + 1
    \<and> (\<exists>more u. sched_run env (evs @ more) s = Some u \<and> sc_done u)"
proof -
  have tr: "tracked env g s" using tracked_init(1) [OF assms(1-3)] .
  have run: "tracked env g t" "length evs \<le> sched_work g s"
    using run_bound [OF tr assms(5)] by auto
  have le: "node_work g s k \<le> (case get_node g k of Some n \<Rightarrow> node_bound n | None \<Rightarrow> 0)" for k
    using tracked_init(2,3) [OF assms(1-3)] by (simp add: node_work_def split: option.splits)
  have dist: "distinct (node_ids g)" using assms(1) by (simp add: graph_wf_def dict_wf_def)
  have "(\<Sum>k\<in>set (node_ids g). node_work g s k)
      \<le> (\<Sum>k\<in>set (node_ids g). case get_node g k of Some n \<Rightarrow> node_bound n | None \<Rightarrow> 0)"
    by (rule sum_mono) (rule le)
  also have "\<dots> = (\<Sum>k\<leftarrow>node_ids g. case get_node g k of Some n \<Rightarrow> node_bound n | None \<Rightarrow> 0)"
    by (rule sum_list_distinct_conv_sum_set [OF dist, symmetric])
  also have "\<dots> = (\<Sum>(k, n) \<leftarrow> tg_nodes g. node_bound n)"
    unfolding map_map
    by (rule arg_cong [where f = sum_list], rule map_cong [OF refl])
      (use graph_wf_get [OF assms(1)] in \<open>force split: option.splits\<close>)
  finally have "length evs \<le> (\<Sum>(k, n) \<leftarrow> tg_nodes g. node_bound n) + 1"
    using run(2) by (simp add: sched_work_def split: if_splits)
  moreover obtain more u where "sched_run env more t = Some u" "sc_done u"
    using run_completes [OF run(1) assms(4)] by blast
  ultimately show ?thesis using assms(5) by (auto simp: run_append intro!: exI [of _ more])
qed

theorem scheduler_terminates_witness:
  "\<exists>s t. sched_init sample_env sample_graph = Inr s \<and> sched_run sample_env sample_events s = Some t
     \<and> length sample_events \<le> (\<Sum>(k, n) \<leftarrow> tg_nodes sample_graph. node_bound n) + 1"
proof -
  have "map_option sc_done (sample_state 7) = Some True" by code_simp
  then obtain t where "sample_state 7 = Some t" by auto
  then obtain s where s: "sched_init sample_env sample_graph = Inr s" "sched_run sample_env sample_events s = Some t"
    by (rule sample_stateE) (simp add: sample_events_def)
  have "\<not> se_planner sample_env" "0 < se_max_concurrency sample_env" by (simp_all add: sample_env_def)
  from scheduler_terminates [OF sample_wf(1) s(1) this s(2)] s show ?thesis by blast
qed

end
