(* ===== verification/Task_Scheduler_Outcome.thy ===== *)
theory Task_Scheduler_Outcome imports Task_Scheduler_Bound begin

text \<open>
  The outcome of runs without a planner, with callbacks that do not raise and without
  cancellations, from a fresh graph: nodes only run on satisfied dependencies, a failure skips
  exactly what is below it, the deadlock branch is never taken and finished nodes are final.
\<close>

section \<open>The invariant of a calm run\<close>

definition satisfied :: "task_graph \<Rightarrow> string \<Rightarrow> bool" where
  "satisfied g d \<longleftrightarrow> status_of g d = Some COMPLETED \<or> status_of g d = Some SKIPPED"

definition sat :: "task_graph \<Rightarrow> string \<Rightarrow> bool" where
  "sat g k \<longleftrightarrow> (\<forall>d. (d, k) \<in> dep_rel g \<longrightarrow> satisfied g d)"

definition calm_graph :: "task_graph \<Rightarrow> bool" where
  "calm_graph g \<longleftrightarrow>
     (\<forall>k. status_of g k \<noteq> Some READY)
   \<and> (\<forall>k. status_of g k \<in> {Some RUNNING, Some COMPLETED, Some FAILED} \<longrightarrow> sat g k)
   \<and> (\<forall>k. status_of g k = Some SKIPPED \<longrightarrow>
         sat g k \<or> (\<exists>f. status_of g f = Some FAILED \<and> (f, k) \<in> (dep_rel g)\<^sup>+))
   \<and> (\<forall>f k. status_of g f = Some FAILED \<longrightarrow> (f, k) \<in> (dep_rel g)\<^sup>+ \<longrightarrow> status_of g k = Some SKIPPED)"

definition calm_phase :: "task_graph \<Rightarrow> string \<Rightarrow> task_phase \<Rightarrow> bool" where
  "calm_phase g k p \<longleftrightarrow>
     (p = Waiting \<longrightarrow> status_of g k = Some PENDING \<and> sat g k)
   \<and> (in_flight p \<longrightarrow> status_of g k = Some RUNNING)
   \<and> (\<forall>e. p \<noteq> Escaped e)"

definition calm :: "sched_env \<Rightarrow> task_graph \<Rightarrow> sched \<Rightarrow> bool" where
  "calm env g0 s \<longleftrightarrow>
     tracked env g0 s \<and> valid_graph g0 \<and> silent env \<and> calm_graph (sc_graph s)
   \<and> (\<forall>(k, p) \<in> set (sc_wave s). calm_phase (sc_graph s) k p)
   \<and> (\<forall>k. status_of (sc_graph s) k = Some RUNNING \<longrightarrow> (\<exists>p. (k, p) \<in> set (sc_wave s) \<and> in_flight p))"

lemma calm_graphD:
  assumes "calm_graph g"
  shows "status_of g k \<noteq> Some READY"
    and "status_of g k = Some RUNNING \<or> status_of g k = Some COMPLETED \<or> status_of g k = Some FAILED \<Longrightarrow> sat g k"
    and "status_of g k = Some SKIPPED \<Longrightarrow>
         sat g k \<or> (\<exists>f. status_of g f = Some FAILED \<and> (f, k) \<in> (dep_rel g)\<^sup>+)"
    and "status_of g f = Some FAILED \<Longrightarrow> (f, k) \<in> (dep_rel g)\<^sup>+ \<Longrightarrow> status_of g k = Some SKIPPED"
  using assms by (auto simp: calm_graph_def)

lemma satisfied_iff: "dep_satisfied g d \<longleftrightarrow> satisfied g d"
  by (auto simp: dep_satisfied_iff satisfied_def status_of_def)

lemma satisfied_ended: "satisfied g d \<Longrightarrow> ended g d"
  by (auto simp: satisfied_def ended_def terminal_status_def)

text \<open>Above a node whose dependencies are satisfied, and that no failure reaches, all is satisfied.\<close>

lemma satisfied_above:
  assumes "wf (dep_rel g)" "calm_graph g" "sat g k" "(a, k) \<in> (dep_rel g)\<^sup>+"
    and "\<And>f. (f, k) \<in> (dep_rel g)\<^sup>+ \<Longrightarrow> status_of g f \<noteq> Some FAILED"
  shows "satisfied g a"
  using assms(1,3-5)
proof (induction k rule: wf_induct_rule)
  case (less k)
  from less.prems(2) obtain d where d: "(a, d) \<in> (dep_rel g)\<^sup>*" "(d, k) \<in> dep_rel g"
    by (meson tranclD2)
  have sat_d: "satisfied g d" using less.prems(1) d(2) by (simp add: sat_def)
  have nof: "status_of g f \<noteq> Some FAILED" if "(f, d) \<in> (dep_rel g)\<^sup>+" for f
    using less.prems(3) that d(2) by (blast intro: trancl_into_trancl)
  have "sat g d" using assms(2) sat_d nof by (auto simp: calm_graph_def satisfied_def)
  show ?case
  proof (cases "a = d")
    case True
    with sat_d show ?thesis by simp
  next
    case False
    with d(1) have "(a, d) \<in> (dep_rel g)\<^sup>+" by (simp add: rtrancl_eq_or_trancl)
    from less.IH [OF d(2) \<open>sat g d\<close> this nof] show ?thesis .
  qed
qed

lemma calm_above:
  assumes "wf (dep_rel g)" "calm_graph g" "sat g k" "status_of g k \<noteq> Some SKIPPED"
    and "(a, k) \<in> (dep_rel g)\<^sup>+"
  shows "satisfied g a"
proof (rule satisfied_above [OF assms(1,2,3,5)])
  fix f assume "(f, k) \<in> (dep_rel g)\<^sup>+"
  then show "status_of g f \<noteq> Some FAILED" using calm_graphD(4) [OF assms(2)] assms(4) by blast
qed

section \<open>One segment\<close>

lemma turn_failed_only:
  assumes "turn_result env nid g pg" "k \<noteq> nid" "status_of (snd pg) k \<noteq> status_of g k"
  shows "status_of (snd pg) nid = Some FAILED"
  using assms(1)
proof cases
  case (turn_failed m h now r)
  with failed_status [of h "\<lambda>k. (nid, k) \<in> (dep_rel g)\<^sup>+" now r m nid] show ?thesis
    by (simp add: terminal_status_def)
qed (use assms(2,3) off_status [OF _ assms(2)] in auto)

lemma turn_failed_skips:
  assumes "turn_result env nid g pg" "silent env" "status_of (snd pg) nid = Some FAILED"
    and "(nid, k) \<in> (dep_rel g)\<^sup>+" "k \<noteq> nid" "status_of g nid \<noteq> Some FAILED"
  shows "ended (snd pg) k \<or> status_of g k = None"
  using assms(1)
proof cases
  case (turn_failed m h now r)
  have "status_of h k = map_option (\<lambda>st. if terminal_status st then st else SKIPPED) (status_of m k)"
    using failed_status [of h "\<lambda>k. (nid, k) \<in> (dep_rel g)\<^sup>+" now r m k] turn_failed(5) assms(4) by simp
  moreover have "status_of m k = status_of g k" using off_status [OF turn_failed(2) assms(5)] .
  ultimately show ?thesis
    using turn_failed(1) by (cases "status_of g k") (auto simp: ended_def terminal_status_def)
next
  case (turn_running h p)
  with assms(3,6) show ?thesis by auto
qed (use assms(2,3) in auto)

text \<open>
  What a turn of an unfinished node \<open>nid\<close> whose dependencies are satisfied does to a calm graph: other
  nodes keep their status unless they are skipped below it, and if it failed all below it are skipped.
\<close>

definition turned :: "task_graph \<Rightarrow> string \<Rightarrow> task_graph \<Rightarrow> bool" where
  "turned g nid h \<longleftrightarrow> dep_rel h = dep_rel g
     \<and> (\<forall>k. k \<noteq> nid \<longrightarrow> status_of h k = status_of g k
          \<or> (status_of h k = Some SKIPPED \<and> \<not> ended g k \<and> (nid, k) \<in> (dep_rel g)\<^sup>+ \<and> status_of h nid = Some FAILED))
     \<and> status_of h nid \<in> {Some RUNNING, Some COMPLETED, Some SKIPPED, Some FAILED}
     \<and> (status_of h nid = Some FAILED \<longrightarrow> (\<forall>k. (nid, k) \<in> (dep_rel g)\<^sup>+ \<longrightarrow> status_of h k = Some SKIPPED))"

lemma turnedD:
  assumes "turned g nid h"
  shows "dep_rel h = dep_rel g"
    "k \<noteq> nid \<Longrightarrow> status_of h k = status_of g k
          \<or> (status_of h k = Some SKIPPED \<and> \<not> ended g k \<and> (nid, k) \<in> (dep_rel g)\<^sup>+ \<and> status_of h nid = Some FAILED)"
    "status_of h nid \<in> {Some RUNNING, Some COMPLETED, Some SKIPPED, Some FAILED}"
    "status_of h nid = Some FAILED \<Longrightarrow> (nid, k) \<in> (dep_rel g)\<^sup>+ \<Longrightarrow> status_of h k = Some SKIPPED"
  using assms unfolding turned_def by blast+

definition unfinished :: "task_graph \<Rightarrow> string \<Rightarrow> bool" where
  "unfinished g nid \<longleftrightarrow> status_of g nid = Some PENDING \<or> status_of g nid = Some RUNNING"

lemma unfinished_not:
  "unfinished g nid \<Longrightarrow> \<not> satisfied g nid \<and> status_of g nid \<noteq> Some SKIPPED \<and> status_of g nid \<noteq> Some FAILED"
  by (auto simp: unfinished_def satisfied_def)

lemma turn_below_skipped:
  assumes calm: "calm_graph g" and wf: "wf (dep_rel g)" and un: "unfinished g nid"
    and turn: "turn_result env nid g (p, h)" and sil: "silent env"
    and fl: "status_of h nid = Some FAILED" and bl: "(nid, k) \<in> (dep_rel g)\<^sup>+"
  shows "status_of h k = Some SKIPPED"
proof -
  note not_nid = unfinished_not [OF un]
  have k: "k \<noteq> nid" using bl wf_acyclic [OF wf] by (auto simp: acyclic_def)
  have gk: "\<not> (status_of g k = Some RUNNING \<or> status_of g k = Some COMPLETED \<or> status_of g k = Some FAILED)"
  proof
    assume a: "status_of g k = Some RUNNING \<or> status_of g k = Some COMPLETED \<or> status_of g k = Some FAILED"
    then have "sat g k" "status_of g k \<noteq> Some SKIPPED" using calm_graphD(2) [OF calm] by auto
    with calm_above [OF wf calm _ _ bl] not_nid show False by blast
  qed
  obtain d where "(d, k) \<in> dep_rel g" using bl by (meson tranclD2)
  then have known: "status_of g k \<noteq> None" by (auto simp: dep_rel_def status_of_def)
  have "ended h k"
    using turn_failed_skips [OF turn sil _ bl k] not_nid fl known by simp
  with turn_others [OF turn k] turn_failed_only [OF turn k] gk show ?thesis
    by (auto simp: ended_def terminal_status_def)
qed

lemma calm_turned:
  assumes calm: "calm_graph g" and wf: "wf (dep_rel g)" and un: "unfinished g nid"
    and turn: "turn_result env nid g (p, h)" and sil: "silent env"
    and run: "in_flight p \<Longrightarrow> status_of h nid = Some RUNNING" and esc: "\<And>e. p \<noteq> Escaped e"
  shows "turned g nid h"
  unfolding turned_def
proof (intro conjI allI impI)
  show "dep_rel h = dep_rel g" using turn_plan [OF turn] plan_eq_dep_rel by simp
  show "status_of h nid \<in> {Some RUNNING, Some COMPLETED, Some SKIPPED, Some FAILED}"
    using turn_self [OF turn] run esc by (cases p) (auto simp: ended_def terminal_status_def)
  fix k
  show "status_of h k = status_of g k \<or> (status_of h k = Some SKIPPED \<and> \<not> ended g k \<and> (nid, k) \<in> (dep_rel g)\<^sup>+
      \<and> status_of h nid = Some FAILED)" if "k \<noteq> nid"
    using turn_others [OF turn that] turn_failed_only [OF turn that] by auto
qed (rule turn_below_skipped [OF calm wf un turn sil])

lemma turned_keeps:
  assumes "turned g nid h" "ended g d" "d \<noteq> nid"
  shows "status_of h d = status_of g d"
  using turnedD(2) [OF assms(1,3)] assms(2) by blast

lemma turned_sat:
  assumes t: "turned g nid h" and un: "unfinished g nid" and k: "sat g k"
  shows "sat h k"
  unfolding sat_def turnedD(1) [OF t]
proof (intro allI impI)
  fix d assume "(d, k) \<in> dep_rel g"
  with k have d: "satisfied g d" by (simp add: sat_def)
  with unfinished_not [OF un] have "d \<noteq> nid" by blast
  with d turned_keeps [OF t satisfied_ended [OF d]] show "satisfied h d" by (simp add: satisfied_def)
qed

lemma turned_failed:
  assumes t: "turned g nid h" and un: "unfinished g nid" and f: "status_of g f = Some FAILED"
  shows "status_of h f = Some FAILED"
proof -
  have "f \<noteq> nid" "ended g f" using f unfinished_not [OF un] by (auto simp: ended_def terminal_status_def)
  with turned_keeps [OF t] f show ?thesis by simp
qed

lemma turned_skipped:
  assumes t: "turned g nid h" and calm: "calm_graph g" and un: "unfinished g nid" and nid: "sat g nid"
    and sk: "status_of h k = Some SKIPPED"
  shows "sat h k \<or> (\<exists>f. status_of h f = Some FAILED \<and> (f, k) \<in> (dep_rel g)\<^sup>+)"
proof (cases "k = nid")
  case False
  then consider "status_of g k = Some SKIPPED" | "(nid, k) \<in> (dep_rel g)\<^sup>+" "status_of h nid = Some FAILED"
    using turnedD(2) [OF t False] sk by auto
  then show ?thesis
  proof cases
    case 1
    then have "sat g k \<or> (\<exists>f. status_of g f = Some FAILED \<and> (f, k) \<in> (dep_rel g)\<^sup>+)"
      by (rule calm_graphD(3) [OF calm])
    then show ?thesis using turned_sat [OF t un] turned_failed [OF t un] by blast
  qed blast
qed (use nid turned_sat [OF t un] in simp)

lemma turned_below:
  assumes t: "turned g nid h" and calm: "calm_graph g" and un: "unfinished g nid"
    and f: "status_of h f = Some FAILED" "(f, k) \<in> (dep_rel g)\<^sup>+"
  shows "status_of h k = Some SKIPPED"
proof (cases "f = nid")
  case True
  with f turnedD(4) [OF t] show ?thesis by simp
next
  case False
  with f(1) turnedD(2) [OF t False] have "status_of g f = Some FAILED" by auto
  then have k: "status_of g k = Some SKIPPED" using calm_graphD(4) [OF calm _ f(2)] by simp
  with unfinished_not [OF un] have "k \<noteq> nid" by blast
  with k turned_keeps [OF t, of k] show ?thesis by (simp add: ended_def terminal_status_def)
qed

lemma turned_calm:
  assumes t: "turned g nid h" and calm: "calm_graph g" and un: "unfinished g nid" and nid: "sat g nid"
  shows "calm_graph h"
  unfolding calm_graph_def turnedD(1) [OF t]
proof (intro conjI allI impI)
  fix k
  show "status_of h k \<noteq> Some READY"
    using turnedD(3) [OF t] turnedD(2) [OF t, of k] calm by (cases "k = nid") (auto simp: calm_graphD(1))
  show "sat h k" if "status_of h k \<in> {Some RUNNING, Some COMPLETED, Some FAILED}"
  proof (cases "k = nid")
    case False
    with that turnedD(2) [OF t False] have "status_of g k \<in> {Some RUNNING, Some COMPLETED, Some FAILED}" by auto
    then have "sat g k" using calm_graphD(2) [OF calm] by blast
    then show ?thesis by (rule turned_sat [OF t un])
  qed (use nid turned_sat [OF t un] in simp)
qed (use turned_skipped [OF t calm un nid] turned_below [OF t calm un] in blast)+

lemma calm_turn:
  assumes calm: "calm_graph g" and wf: "wf (dep_rel g)" and nid: "sat g nid"
    "status_of g nid = Some PENDING \<or> status_of g nid = Some RUNNING"
    and turn: "turn_result env nid g (p, h)" and sil: "silent env"
    and run: "in_flight p \<Longrightarrow> status_of h nid = Some RUNNING"
  shows "calm_graph h"
    and "\<And>k. k \<noteq> nid \<Longrightarrow> sat g k \<Longrightarrow> status_of g k \<noteq> Some SKIPPED \<Longrightarrow> status_of h k = status_of g k \<and> sat h k"
    and "\<And>e. p \<noteq> Escaped e"
    and "status_of h nid = Some RUNNING \<Longrightarrow> in_flight p"
proof -
  have un: "unfinished g nid" using nid(2) by (simp add: unfinished_def)
  show esc: "p \<noteq> Escaped e" for e
    using turn sil by (auto elim: turn_resultE)
  show "in_flight p" if "status_of h nid = Some RUNNING"
    using turn_self [OF turn] that esc by (cases p) (auto simp: ended_def terminal_status_def)
  have t: "turned g nid h" by (rule calm_turned [OF calm wf un turn sil run esc])
  show "calm_graph h" by (rule turned_calm [OF t calm un nid(1)])
  show "status_of h k = status_of g k \<and> sat h k"
    if "k \<noteq> nid" "sat g k" "status_of g k \<noteq> Some SKIPPED" for k
  proof -
    have "(nid, k) \<notin> (dep_rel g)\<^sup>+" using calm_above [OF wf calm that(2,3)] unfinished_not [OF un] by blast
    with turnedD(2) [OF t that(1)] turned_sat [OF t un that(2)] show ?thesis by blast
  qed
qed

section \<open>Calm runs\<close>

text \<open>An event that is not a cancellation.\<close>

definition no_abort :: "sched_event \<Rightarrow> bool" where
  "no_abort ev = (case ev of Abort _ _ _ \<Rightarrow> False | _ \<Rightarrow> True)"

lemma no_abortD: "no_abort ev \<Longrightarrow> ev \<noteq> Abort now k e"
  by (auto simp: no_abort_def)

lemma calm_wf: "calm env g0 s \<Longrightarrow> wf (dep_rel (sc_graph s)) \<and> graph_wf (sc_graph s) \<and> sound_graph (sc_graph s)"
proof -
  assume c: "calm env g0 s"
  then have g0: "graph_wf g0" "deps_closed g0" "acyclic (dep_rel g0)" and pe: "plan_eq g0 (sc_graph s)"
    by (auto simp: calm_def tracked_def valid_graph_def)
  have "sound_graph (sc_graph s)"
    unfolding sound_graph_def
    using plan_eq_wf [OF pe g0(1)] plan_eq_deps_closed [OF pe g0(1,2)] plan_eq_dep_rel [OF pe] g0(3) by simp
  then show ?thesis using wf_dep_rel by (auto simp: sound_graph_def)
qed

lemma calm_node_event:
  assumes c: "calm env g0 s" and step: "sched_next env ev s = Some t" "event_node ev = Some nid" "no_abort ev"
  shows "calm env g0 t"
proof -
  let ?g = "sc_graph s"
  have tr: "tracked env g0 s" and cg: "calm_graph ?g" and sil: "silent env"
    using c by (auto simp: calm_def)
  have cp: "calm_phase ?g k p" if "(k, p) \<in> set (sc_wave s)" for k p using c that by (auto simp: calm_def)
  have cr: "\<exists>p. (k, p) \<in> set (sc_wave s) \<and> in_flight p" if "status_of ?g k = Some RUNNING" for k
    using c that by (auto simp: calm_def)
  have wf: "wf (dep_rel ?g)" using calm_wf [OF c] by simp
  have wave: "dict_wf (sc_wave s)" using tr by (simp add: tracked_def wave_ok_def)
  obtain p n pg where x: "(nid, p) \<in> set (sc_wave s)" "map_of (sc_wave s) nid = Some p"
    "get_node ?g nid = Some n" "tn_id n = nid" "at_node env ?g n"
    "node_event env ev (running_count s) ?g n p = Some pg" "t = resume nid pg s"
    "phase_ok n p" "\<not> sc_done s"
    using sched_next_nodeE [OF step(1,2) tr] by blast
  have turn0: "turn_result env nid ?g pg"
    using node_event_turn [OF x(6) no_abortD [OF step(3)] x(5)] step(2) x(4)
      phase_ok_not_replanning [OF x(8)] by simp
  obtain q h where pg: "pg = (q, h)" by (cases pg)
  note turn = turn0 [unfolded pg]
  have phase: "p = Waiting \<or> in_flight p" using x(6) node_event_settled [of p] by (cases p) auto
  have nid: "sat ?g nid" "status_of ?g nid = Some PENDING \<or> status_of ?g nid = Some RUNNING"
    using phase cp [OF x(1)] calm_graphD(2) [OF cg, of nid] by (auto simp: calm_phase_def)
  have run: "status_of h nid = Some RUNNING" if "in_flight q"
  proof (cases "p = Waiting")
    case True
    with x(6) start_running [OF _ x(5)] that x(4) pg show ?thesis by auto
  next
    case False
    with phase cp [OF x(1)] have "status_of ?g nid = Some RUNNING" by (simp add: calm_phase_def)
    then show ?thesis using turn_running_keeps [OF turn that] by blast
  qed
  note ct = calm_turn [OF cg wf nid turn sil run]
  have "calm_phase h k r" if kr: "(k, r) \<in> set (sc_wave t)" for k r
  proof -
    have "(k \<noteq> nid \<and> (k, r) \<in> set (sc_wave s)) \<or> (k = nid \<and> r = q)"
      using wave_resume [OF wave kr [unfolded x(7)]] pg by simp
    then show ?thesis
    proof
      assume k: "k \<noteq> nid \<and> (k, r) \<in> set (sc_wave s)"
      then have r: "calm_phase ?g k r" using cp by blast
      show ?thesis
      proof (cases "r = Waiting \<or> in_flight r")
        case True
        then have "sat ?g k" "status_of ?g k \<noteq> Some SKIPPED"
          using r calm_graphD(2) [OF cg, of k] by (auto simp: calm_phase_def)
        with ct(2) k r show ?thesis by (simp add: calm_phase_def)
      next
        case False
        with r show ?thesis by (simp add: calm_phase_def)
      qed
    next
      assume "k = nid \<and> r = q"
      then show ?thesis using run ct(3) turn_self [OF turn] by (simp add: calm_phase_def)
    qed
  qed
  moreover have "\<exists>r. (k, r) \<in> set (sc_wave t) \<and> in_flight r" if st: "status_of h k = Some RUNNING" for k
  proof (cases "k = nid")
    case True
    have "(nid, q) \<in> set (sc_wave t)"
      using x(1,7) pg by (force simp: resume_def dict_adjust_def)
    with True st ct(4) show ?thesis by blast
  next
    case False
    with st turn_others [OF turn False] have "status_of ?g k = Some RUNNING" by auto
    then obtain r where "(k, r) \<in> set (sc_wave s)" "in_flight r" using cr by blast
    moreover from this(1) False have "(k, r) \<in> set (sc_wave t)"
      using x(7) by (force simp: resume_def dict_adjust_def)
    ultimately show ?thesis by blast
  qed
  moreover have "sc_graph t = h" using x(7) pg by (simp add: resume_def)
  moreover have "tracked env g0 t" by (rule tracked_sched_next [OF tr step(1)])
  ultimately show ?thesis using c ct(1) by (auto simp: calm_def)
qed

text \<open>Between waves: nothing escaped, so the graph is as it was, and a pending node is ready.\<close>

lemma calm_settle:
  assumes "\<And>k p. (k, p) \<in> set w \<Longrightarrow> calm_phase g k p"
  shows "settle_wave now w g = g"
  using assms
proof (induction w)
  case (Cons kp w)
  obtain k p where kp: "kp = (k, p)" by (cases kp)
  then have "calm_phase g k p" using Cons.prems by simp
  then have "settle_one now g kp = g" by (cases p) (auto simp: settle_one_def calm_phase_def kp)
  with Cons show ?case by (simp add: settle_wave_def)
qed (simp add: settle_wave_def)

lemma calm_ready:
  assumes "calm env g0 s" "list_all (\<lambda>(k, p). settled p) (sc_wave s)"
    "\<not> is_complete (sc_graph s)" "tg_nodes (sc_graph s) \<noteq> []"
  shows "ready_nodes (sc_graph s) \<noteq> []"
proof -
  let ?g = "sc_graph s"
  have cg: "calm_graph ?g" using assms(1) by (simp add: calm_def)
  have sound: "sound_graph ?g" "graph_wf ?g" using calm_wf [OF assms(1)] by auto
  have no_run: "status_of ?g k \<noteq> Some RUNNING" for k
  proof
    assume "status_of ?g k = Some RUNNING"
    then obtain p where "(k, p) \<in> set (sc_wave s)" "in_flight p"
      using assms(1) by (auto simp: calm_def)
    with assms(2) show False by (cases p) (auto simp: list_all_iff)
  qed
  obtain k n where kn: "(k, n) \<in> set (tg_nodes ?g)" "\<not> is_terminal n"
    using assms(3,4) by (auto simp: is_complete_def list_all_iff)
  then have get: "get_node ?g k = Some n" using graph_wf_get [OF sound(2)] by simp
  then have st: "status_of ?g k = Some (tn_status n)" by (simp add: status_of_def)
  have pend: "tn_status n = PENDING"
    using kn(2) st no_run [of k] calm_graphD(1) [OF cg, of k]
    by (cases "tn_status n") (auto simp: is_terminal_def terminal_status_def)
  have "tn_status m \<in> {PENDING, COMPLETED, SKIPPED}"
    if "(a, k) \<in> (dep_rel ?g)\<^sup>+" "get_node ?g a = Some m" for a m
  proof -
    have "status_of ?g a = Some (tn_status m)" using that(2) by (simp add: status_of_def)
    moreover have "status_of ?g a \<noteq> Some FAILED"
      using calm_graphD(4) [OF cg _ that(1)] st pend by auto
    ultimately show ?thesis
      using no_run [of a] calm_graphD(1) [OF cg, of a] by (cases "tn_status m") auto
  qed
  from ready_above [OF sound(1) get pend this] show ?thesis by auto
qed

lemma deadlock_complete:
  assumes "tg_nodes g = []"
  shows "handle_deadlock now g = g"
  using assms by (simp add: handle_deadlock_def Let_def)

lemma calm_next_wave:
  assumes c: "calm env g0 s" and opn: "\<not> sc_done s" and stl: "list_all (\<lambda>(k, p). settled p) (sc_wave s)"
  shows "calm env g0 (next_wave now s)" "sc_graph (next_wave now s) = sc_graph s"
proof -
  let ?g = "sc_graph s"
  have same: "settle_wave now (sc_wave s) ?g = ?g"
    using c by (intro calm_settle) (auto simp: calm_def)
  have no_run: "status_of ?g k \<noteq> Some RUNNING" for k
  proof
    assume "status_of ?g k = Some RUNNING"
    then obtain p where "(k, p) \<in> set (sc_wave s)" "in_flight p" using c by (auto simp: calm_def)
    with stl show False by (cases p) (auto simp: list_all_iff)
  qed
  have sound: "graph_wf ?g" using calm_wf [OF c] by simp
  show g: "sc_graph (next_wave now s) = ?g"
  proof (cases rule: next_wave_cases [of now s])
    case 2
    then have "tg_nodes ?g = [] \<or> is_complete ?g" using calm_ready [OF c stl] same by auto
    then show ?thesis
    proof
      assume "is_complete ?g"
      then show ?thesis using same by (simp add: next_wave_def Let_def)
    qed (use 2 same deadlock_complete in simp)
  qed (use same in simp_all)
  have "calm_phase ?g k p" if "(k, p) \<in> set (sc_wave (next_wave now s))" for k p
    using that same ready_nodes_iff [OF sound]
    by (cases rule: next_wave_cases [of now s])
      (auto simp: calm_phase_def sat_def satisfied_iff status_of_def)
  moreover have "tracked env g0 (next_wave now s)"
    using c opn by (intro tracked_next_wave) (auto simp: calm_def)
  ultimately show "calm env g0 (next_wave now s)"
    using c no_run unfolding calm_def g by auto
qed

lemma calm_sched_next:
  assumes "calm env g0 s" "sched_next env ev s = Some t" "no_abort ev"
  shows "calm env g0 t"
proof (cases "event_node ev")
  case None
  then show ?thesis using sched_next_wave [OF assms(2)] calm_next_wave(1) [OF assms(1)] by blast
qed (use calm_node_event [OF assms(1,2)] assms(3) in blast)

lemma calm_run:
  assumes "calm env g0 s" "sched_run env evs s = Some t" "list_all no_abort evs"
  shows "calm env g0 t"
  using assms
  by (induction evs arbitrary: s) (auto split: option.splits intro: calm_sched_next)

lemma fresh_status:
  assumes "fresh_graph g = g"
  shows "status_of g k \<in> {None, Some PENDING}"
proof -
  have "tg_nodes (fresh_graph g) = tg_nodes g" using assms by simp
  then have eq: "map (\<lambda>(k, n). (k, fresh_node n)) (tg_nodes g) = tg_nodes g" by (simp add: fresh_graph_def)
  have "map_of (map (\<lambda>(k, n). (k, fresh_node n)) (tg_nodes g)) k = map_option fresh_node (get_node g k)"
    by (simp add: map_of_map)
  then have stable: "get_node g k = map_option fresh_node (get_node g k)" by (simp only: eq)
  show ?thesis
  proof (cases "get_node g k")
    case (Some n)
    with stable have "n = fresh_node n" by simp
    then have "tn_status n = tn_status (fresh_node n)" by simp
    also have "\<dots> = PENDING" by (simp add: fresh_node_def)
    finally show ?thesis using Some by (simp add: status_of_def)
  qed (simp add: status_of_def)
qed

lemma calm_init:
  assumes "graph_wf g" "sched_init env g = Inr s" "\<not> se_planner env" "silent env" "fresh_graph g = g"
  shows "calm env g s"
proof -
  have v: "validate g = Inr []" using assms(2) by (auto simp: sched_init_def split: sum.splits if_splits)
  have "valid_graph g" using validate_spec [OF assms(1)] v by simp
  moreover have st: "status_of g k \<noteq> Some READY" "status_of g k \<noteq> Some RUNNING"
    "status_of g k \<noteq> Some COMPLETED" "status_of g k \<noteq> Some FAILED" "status_of g k \<noteq> Some SKIPPED" for k
    using fresh_status [OF assms(5), of k] by auto
  moreover have "calm_graph g" by (simp add: calm_graph_def st)
  ultimately show ?thesis using tracked_init [OF assms(1-3)] assms(4) by (simp add: calm_def)
qed

text \<open>The runs the properties below are about.\<close>

definition calm_run_of :: "sched_env \<Rightarrow> task_graph \<Rightarrow> sched_event list \<Rightarrow> sched \<Rightarrow> bool" where
  "calm_run_of env g evs s \<longleftrightarrow>
     graph_wf g \<and> fresh_graph g = g \<and> \<not> se_planner env \<and> silent env \<and> list_all no_abort evs
   \<and> (\<exists>s0. sched_init env g = Inr s0 \<and> sched_run env evs s0 = Some s)"

lemma calm_run_of: "calm_run_of env g evs s \<Longrightarrow> calm env g s"
  unfolding calm_run_of_def by (blast intro: calm_run calm_init)

section \<open>Properties\<close>

lemma ended_ids: "k \<in> set (node_ids g) \<Longrightarrow> list_all (\<lambda>(k, n). is_terminal n) (tg_nodes g) \<Longrightarrow> ended g k"
  by (rule ended_all)

text \<open>
  C1. A run from a fresh valid graph that has ended (no planner, callbacks that do not raise, no
  cancellation; any interleaving and any replies) leaves every node completed, failed or skipped
  with its plan unchanged; a completed or failed node has all its ancestors completed or
  skipped; everything below a failed node is skipped; and a skipped node is below a failed one
  or has satisfied dependencies (its own condition was false). In particular no node is failed
  by the deadlock branch.
\<close>

theorem scheduler_outcome:
  assumes "calm_run_of env g evs s" "sc_done s"
  shows "plan_eq g (sc_graph s)
    \<and> (\<forall>k\<in>set (node_ids g). status_of (sc_graph s) k \<in> {Some COMPLETED, Some FAILED, Some SKIPPED})
    \<and> (\<forall>a k. status_of (sc_graph s) k \<in> {Some COMPLETED, Some FAILED} \<longrightarrow> (a, k) \<in> (dep_rel g)\<^sup>+
         \<longrightarrow> status_of (sc_graph s) a \<in> {Some COMPLETED, Some SKIPPED})
    \<and> (\<forall>f k. status_of (sc_graph s) f = Some FAILED \<longrightarrow> (f, k) \<in> (dep_rel g)\<^sup>+
         \<longrightarrow> status_of (sc_graph s) k = Some SKIPPED)
    \<and> (\<forall>k. status_of (sc_graph s) k = Some SKIPPED \<longrightarrow>
         (\<exists>f. status_of (sc_graph s) f = Some FAILED \<and> (f, k) \<in> (dep_rel g)\<^sup>+)
       \<or> (\<forall>d. (d, k) \<in> dep_rel g \<longrightarrow> status_of (sc_graph s) d \<in> {Some COMPLETED, Some SKIPPED}))"
proof -
  have c: "calm env g s" using calm_run_of assms(1) .
  have cg: "calm_graph (sc_graph s)" and pe: "plan_eq g (sc_graph s)" and wo: "wave_ok env s"
    using c by (auto simp: calm_def tracked_def)
  have E: "dep_rel (sc_graph s) = dep_rel g" by (rule plan_eq_dep_rel [OF pe])
  have wf: "wf (dep_rel (sc_graph s))" using calm_wf [OF c] by simp
  have "list_all (\<lambda>(k, n). is_terminal n) (tg_nodes (sc_graph s))"
    using wo assms(2) by (simp add: wave_ok_def)
  then have fin: "ended (sc_graph s) k" if "k \<in> set (node_ids g)" for k
    using that plan_eq_node_ids [OF pe] by (intro ended_ids) simp_all
  have above: "satisfied (sc_graph s) a"
    if st: "status_of (sc_graph s) k \<in> {Some COMPLETED, Some FAILED}" and a: "(a, k) \<in> (dep_rel g)\<^sup>+" for a k
  proof -
    from st have st': "status_of (sc_graph s) k = Some COMPLETED \<or> status_of (sc_graph s) k = Some FAILED"
      by simp
    then have "sat (sc_graph s) k" using calm_graphD(2) [OF cg] by blast
    moreover from st' have "status_of (sc_graph s) k \<noteq> Some SKIPPED" by auto
    ultimately show ?thesis using calm_above [OF wf cg] a E by simp
  qed
  show ?thesis
  proof (intro conjI allI ballI impI)
    show "status_of (sc_graph s) k \<in> {Some COMPLETED, Some FAILED, Some SKIPPED}" if "k \<in> set (node_ids g)" for k
      using fin [OF that] by (auto simp: ended_def terminal_status_def)
    show "status_of (sc_graph s) a \<in> {Some COMPLETED, Some SKIPPED}"
      if "status_of (sc_graph s) k \<in> {Some COMPLETED, Some FAILED}" "(a, k) \<in> (dep_rel g)\<^sup>+" for a k
      using above [OF that] by (simp add: satisfied_def)
    show "status_of (sc_graph s) k = Some SKIPPED"
      if "status_of (sc_graph s) f = Some FAILED" "(f, k) \<in> (dep_rel g)\<^sup>+" for f k
      using calm_graphD(4) [OF cg that(1)] that(2) E by simp
    show "(\<exists>f. status_of (sc_graph s) f = Some FAILED \<and> (f, k) \<in> (dep_rel g)\<^sup>+)
       \<or> (\<forall>d. (d, k) \<in> dep_rel g \<longrightarrow> status_of (sc_graph s) d \<in> {Some COMPLETED, Some SKIPPED})"
      if "status_of (sc_graph s) k = Some SKIPPED" for k
      using calm_graphD(3) [OF cg that] E by (auto simp: sat_def satisfied_def)
  qed (rule pe)
qed

lemma sample_calm: "sample_state k = Some t \<Longrightarrow> calm_run_of sample_env sample_graph (take k sample_events) t"
proof -
  assume t: "sample_state k = Some t"
  have "list_all no_abort sample_events" by (simp add: sample_events_def no_abort_def)
  then have "list_all no_abort (take k sample_events)" by (auto simp: list_all_iff dest: in_set_takeD)
  moreover have "fresh_graph sample_graph = sample_graph"
    by (simp add: fresh_graph_def sample_graph_def sample_node_def fresh_node_def)
  ultimately show ?thesis
    using sample_wf(1) sample_stateE [OF t] by (auto simp: calm_run_of_def silent_def sample_env_def)
qed

theorem scheduler_outcome_witness:
  "\<exists>s. calm_run_of sample_env sample_graph sample_events s \<and> sc_done s
     \<and> status_of (sc_graph s) ''b'' = Some FAILED \<and> status_of (sc_graph s) ''c'' = Some SKIPPED"
proof -
  have "map_option (\<lambda>s. (sc_done s, status_of (sc_graph s) ''b'')) (sample_state 7) = Some (True, Some FAILED)"
    by code_simp
  then obtain s where s: "sample_state 7 = Some s" "sc_done s" "status_of (sc_graph s) ''b'' = Some FAILED"
    by auto
  have run: "calm_run_of sample_env sample_graph sample_events s"
    using sample_calm [OF s(1)] by (simp add: sample_events_def)
  have "(''b'', ''c'') \<in> dep_rel sample_graph" by (simp add: dep_rel_def sample_graph_def sample_node_def)
  then have "status_of (sc_graph s) ''c'' = Some SKIPPED"
    using scheduler_outcome [OF run s(2)] s(3) by blast
  with run s show ?thesis by blast
qed

text \<open>
  At any moment of such a run, a node whose coroutine is in flight is \<open>RUNNING\<close> and every
  node it transitively depends on is completed or skipped; so of two nodes in flight neither
  depends on the other, however the replies are interleaved.
\<close>

theorem in_flight_dependencies:
  assumes "calm_run_of env g evs s" "(k, p) \<in> set (sc_wave s)" "in_flight p"
  shows "status_of (sc_graph s) k = Some RUNNING
    \<and> (\<forall>a. (a, k) \<in> (dep_rel g)\<^sup>+ \<longrightarrow> status_of (sc_graph s) a \<in> {Some COMPLETED, Some SKIPPED})
    \<and> (\<forall>j q. (j, q) \<in> set (sc_wave s) \<longrightarrow> in_flight q \<longrightarrow> (j, k) \<notin> (dep_rel g)\<^sup>+)"
proof -
  have c: "calm env g s" using calm_run_of assms(1) .
  have cg: "calm_graph (sc_graph s)" and pe: "plan_eq g (sc_graph s)"
    using c by (auto simp: calm_def tracked_def)
  have E: "dep_rel (sc_graph s) = dep_rel g" by (rule plan_eq_dep_rel [OF pe])
  have run: "status_of (sc_graph s) j = Some RUNNING" if "(j, q) \<in> set (sc_wave s)" "in_flight q" for j q
    using c that by (auto simp: calm_def calm_phase_def)
  have "sat (sc_graph s) k" "status_of (sc_graph s) k \<noteq> Some SKIPPED"
    using run [OF assms(2,3)] calm_graphD(2) [OF cg, of k] by auto
  then have above: "satisfied (sc_graph s) a" if "(a, k) \<in> (dep_rel g)\<^sup>+" for a
    using calm_above [OF _ cg] calm_wf [OF c] that E by auto
  have "(j, k) \<notin> (dep_rel g)\<^sup>+" if "(j, q) \<in> set (sc_wave s)" "in_flight q" for j q
  proof
    assume "(j, k) \<in> (dep_rel g)\<^sup>+"
    with above run [OF that] show False by (fastforce simp: satisfied_def)
  qed
  with above run [OF assms(2,3)] show ?thesis by (auto simp: satisfied_def)
qed

theorem in_flight_dependencies_witness:
  "\<exists>s p. calm_run_of sample_env sample_graph (take 5 sample_events) s \<and> (''b'', p) \<in> set (sc_wave s)
     \<and> in_flight p \<and> status_of (sc_graph s) ''b'' = Some RUNNING"
proof -
  have "map_option (\<lambda>s. map_option in_flight (map_of (sc_wave s) ''b'')) (sample_state 5) = Some (Some True)"
    by code_simp
  then obtain s p where s: "sample_state 5 = Some s" "map_of (sc_wave s) ''b'' = Some p" "in_flight p"
    by auto
  have "(''b'', p) \<in> set (sc_wave s)" by (rule map_of_SomeD [OF s(2)])
  then show ?thesis using in_flight_dependencies [OF sample_calm [OF s(1)] _ s(3)] sample_calm [OF s(1)] s(3) by blast
qed

section \<open>Finished nodes are final\<close>

lemma turn_final:
  assumes "turn_result env nid g pg" "k \<noteq> nid" "ended g k"
  shows "get_node (snd pg) k = get_node g k"
  using assms(1)
proof cases
  case (turn_failed m h now r)
  have m: "get_node m k = get_node g k" using turn_failed(2) assms(2) by (simp add: off_def)
  obtain n where n: "get_node g k = Some n" "is_terminal n"
    using assms(3) by (auto simp: ended_def status_of_def is_terminal_def)
  have "get_node h k = (if (nid, k) \<in> (dep_rel g)\<^sup>+ then map_option (skip_open now r) (get_node m k) else get_node m k)"
    using turn_failed(5) by blast
  with m n turn_failed(1) show ?thesis by (simp add: skip_open_def)
qed (use assms(2) in \<open>auto simp: off_def\<close>)

lemma calm_final:
  assumes c: "calm env g0 s" and step: "sched_next env ev s = Some t" "no_abort ev" and k: "ended (sc_graph s) k"
  shows "get_node (sc_graph t) k = get_node (sc_graph s) k"
proof (cases "event_node ev")
  case None
  then show ?thesis
    using sched_next_wave [OF step(1)] calm_next_wave(2) [OF c] by auto
next
  case (Some nid)
  have tr: "tracked env g0 s" and cg: "calm_graph (sc_graph s)" using c by (auto simp: calm_def)
  obtain p n pg where x: "(nid, p) \<in> set (sc_wave s)" "map_of (sc_wave s) nid = Some p"
    "get_node (sc_graph s) nid = Some n" "tn_id n = nid" "at_node env (sc_graph s) n"
    "node_event env ev (running_count s) (sc_graph s) n p = Some pg" "t = resume nid pg s"
    "phase_ok n p" "\<not> sc_done s"
    using sched_next_nodeE [OF step(1) Some tr] by blast
  have turn: "turn_result env nid (sc_graph s) pg"
    using node_event_turn [OF x(6) no_abortD [OF step(2)] x(5)] Some x(4)
      phase_ok_not_replanning [OF x(8)] by simp
  have "p = Waiting \<or> in_flight p" using x(6) node_event_settled [of p] by (cases p) auto
  then have "\<not> ended (sc_graph s) nid"
    using c x(1) by (auto simp: calm_def calm_phase_def ended_def terminal_status_def)
  with k have "k \<noteq> nid" by blast
  from turn_final [OF turn this k] x(7) show ?thesis by (simp add: resume_def)
qed

lemma calm_run_final:
  assumes "calm env g0 s" "sched_run env evs s = Some t" "list_all no_abort evs" "ended (sc_graph s) k"
  shows "get_node (sc_graph t) k = get_node (sc_graph s) k"
  using assms
proof (induction evs arbitrary: s)
  case (Cons ev evs)
  then obtain u where u: "sched_next env ev s = Some u" "sched_run env evs u = Some t"
    by (auto split: option.splits)
  have same: "get_node (sc_graph u) k = get_node (sc_graph s) k"
    using calm_final [OF Cons.prems(1) u(1)] Cons.prems(3,4) by simp
  have "calm env g0 u" using calm_sched_next [OF Cons.prems(1) u(1)] Cons.prems(3) by simp
  moreover have "ended (sc_graph u) k" using Cons.prems(4) same by (simp add: ended_def status_of_def)
  ultimately show ?case using Cons.IH [OF _ u(2)] Cons.prems(3) same by simp
qed simp

text \<open>
  Once a node of such a run is completed, failed or skipped, nothing that happens later
  changes any of its fields: status, result, error, attempt count and times are final.
\<close>

theorem terminal_nodes_final:
  assumes "calm_run_of env g evs s" "calm_run_of env g (evs @ later) t"
    and "get_node (sc_graph s) k = Some n" "is_terminal n"
  shows "get_node (sc_graph t) k = Some n"
proof -
  obtain s0 where s0: "sched_init env g = Inr s0" "sched_run env evs s0 = Some s"
    using assms(1) by (auto simp: calm_run_of_def)
  with assms(2) have "sched_run env later s = Some t" "list_all no_abort later"
    by (auto simp: calm_run_of_def run_append)
  from calm_run_final [OF calm_run_of [OF assms(1)] this] assms(3,4) show ?thesis
    by (simp add: ended_iff)
qed

theorem terminal_nodes_final_witness:
  "\<exists>s t n. calm_run_of sample_env sample_graph (take 3 sample_events) s
     \<and> calm_run_of sample_env sample_graph (take 3 sample_events @ drop 3 sample_events) t
     \<and> get_node (sc_graph s) ''a'' = Some n \<and> tn_result n = PInt 7 \<and> get_node (sc_graph t) ''a'' = Some n"
proof -
  have "map_option (\<lambda>s. map_option (\<lambda>n. (is_terminal n, tn_result n)) (get_node (sc_graph s) ''a'')) (sample_state 3)
      = Some (Some (True, PInt 7))" by code_simp
  then obtain s n where s: "sample_state 3 = Some s" "get_node (sc_graph s) ''a'' = Some n"
    "is_terminal n" "tn_result n = PInt 7" by auto
  have "map_option sc_done (sample_state 7) = Some True" by code_simp
  then obtain t where t: "sample_state 7 = Some t" by auto
  have "take 7 sample_events = take 3 sample_events @ drop 3 sample_events" by (simp add: sample_events_def)
  with sample_calm [OF t] have run: "calm_run_of sample_env sample_graph (take 3 sample_events @ drop 3 sample_events) t"
    by simp
  from terminal_nodes_final [OF sample_calm [OF s(1)] run s(2,3)] sample_calm [OF s(1)] run s
  show ?thesis by blast
qed

section \<open>Parameters of dispatched nodes\<close>

fun phase_params :: "task_phase \<Rightarrow> pyval dict option" where
  "phase_params (Dispatched params i a) = Some params"
| "phase_params (Sleeping params i a d) = Some params"
| "phase_params _ = None"

definition keeps_params :: "pyval dict \<Rightarrow> task_phase \<times> task_graph \<Rightarrow> bool" where
  "keeps_params params pg \<longleftrightarrow> phase_params (fst pg) \<in> {None, Some params}"

lemma finish_failed_params: "keeps_params params (finish_failed now nid g)"
  by (auto simp: keeps_params_def finish_failed_def split: sum.splits)

lemma fail_node_params: "keeps_params params (fail_node env now nid err g)"
  using finish_failed_params [of params]
  by (auto simp: keeps_params_def fail_node_def after_replan_def Let_def
      split: option.splits replan_start.splits sum.splits)

lemma finish_completed_params: "keeps_params params (finish_completed env now nid r g)"
  by (auto simp: keeps_params_def finish_completed_def split: prod.splits option.splits)

lemma give_up_params: "keeps_params params (give_up env now n err g)"
  using fail_node_params [of params] by (auto simp: keeps_params_def give_up_def split: option.splits)

lemma attempt_failed_params: "keeps_params params (attempt_failed env now n params i a err g)"
  using give_up_params [of params] by (auto simp: keeps_params_def attempt_failed_def Let_def)

lemma begin_attempt_params: "keeps_params params (begin_attempt env now n params i a g)"
  using attempt_failed_params [of params]
  by (auto simp: keeps_params_def begin_attempt_def split: option.splits)

lemma begin_iteration_params: "keeps_params params (begin_iteration env now n params i g)"
  using begin_attempt_params [of params] give_up_params [of params]
  by (auto simp: keeps_params_def begin_iteration_def)

lemma attempt_replied_params: "keeps_params params (attempt_replied env now n params i a r g)"
  using attempt_failed_params [of params] begin_iteration_params [of params] finish_completed_params [of params]
  by (auto simp: keeps_params_def attempt_replied_def attempt_succeeded_def Let_def split: outcome.splits)

lemma fallback_replied_params: "phase_params (fst (fallback_replied env now n fb r g)) = None"
  using fail_node_params [of "[]"] fail_node_params [of "[([], PNone)]"]
  by (fastforce simp: keeps_params_def fallback_replied_def split: outcome.splits prod.splits option.splits)

lemma after_replan_params: "phase_params (fst (after_replan now nid g)) = None"
  by (auto simp: after_replan_def finish_failed_def split: sum.splits)

lemma event_params:
  assumes "node_event env ev running g n p = Some pg" "phase_params (fst pg) = Some params"
  shows "phase_params p = Some params
    \<or> (p = Waiting \<and> (\<exists>now. params = resolve_params (se_str env) (se_getattr env)
                               (adjust_node (tn_id n) (set_running now) g) n))"
proof (cases p)
  case Waiting
  then obtain now where "pg = start_node env now n g" using assms by (cases ev) (auto split: if_splits)
  with assms(2) begin_iteration_params [of "resolve_params (se_str env) (se_getattr env)
      (adjust_node (tn_id n) (set_running now) g) n" env now n 0 "adjust_node (tn_id n) (set_running now) g"]
  show ?thesis using Waiting by (auto simp: start_node_def run_node_def Let_def keeps_params_def split: if_splits)
next
  case (Dispatched ps i a)
  then have "(\<exists>now r. pg = attempt_replied env now n ps i a r g) \<or> (\<exists>e. pg = (Escaped e, g))"
    using assms(1) by (cases ev) (auto split: if_splits)
  with assms(2) Dispatched show ?thesis
    by (metis (no_types) attempt_replied_params keeps_params_def fst_conv insertE option.distinct(1)
        phase_params.simps(1,7) singletonD)
next
  case (Sleeping ps i a d)
  then have "(\<exists>now h. pg = begin_attempt env now n ps i (Suc a) h) \<or> (\<exists>e. pg = (Escaped e, g))"
    using assms(1) by (cases ev) auto
  with assms(2) Sleeping show ?thesis
    by (metis (no_types) begin_attempt_params keeps_params_def fst_conv insertE option.distinct(1)
        phase_params.simps(2,7) singletonD)
next
  case (InFallback fb)
  then show ?thesis
    using assms fallback_replied_params [of env _ n fb _ g]
    by (cases ev) (auto split: if_splits outcome.splits reply.splits)
next
  case Replanning
  then show ?thesis
    using assms after_replan_params by (cases ev) auto
qed (use assms in \<open>cases ev; auto split: if_splits\<close>)+

definition params_now :: "sched_env \<Rightarrow> task_graph \<Rightarrow> string \<Rightarrow> pyval dict \<Rightarrow> bool" where
  "params_now env g k params \<longleftrightarrow>
     (\<exists>n. get_node g k = Some n \<and> params = resolve_params (se_str env) (se_getattr env) g n)"

definition params_ok :: "sched_env \<Rightarrow> sched \<Rightarrow> bool" where
  "params_ok env s \<longleftrightarrow>
     (\<forall>(k, p) \<in> set (sc_wave s). \<forall>params. phase_params p = Some params \<longrightarrow> params_now env (sc_graph s) k params)"

lemma resolve_params_node:
  "same_plan n m \<Longrightarrow> resolve_params str_of getattr_of g n = resolve_params str_of getattr_of g m"
  by (simp add: resolve_params_def same_plan_def)

lemma params_now_frame:
  assumes "valid_graph g" "plan_eq g h" "params_now env g k params"
    and "\<And>a. (a, k) \<in> (dep_rel g)\<^sup>+ \<Longrightarrow> get_node h a = get_node g a"
  shows "params_now env h k params"
proof -
  obtain n where n: "get_node g k = Some n" "params = resolve_params (se_str env) (se_getattr env) g n"
    using assms(3) by (auto simp: params_now_def)
  obtain m where m: "get_node h k = Some m" "same_plan n m" using assms(2) n(1) by (rule plan_eq_getE)
  have "resolve_params (se_str env) (se_getattr env) g n = resolve_params (se_str env) (se_getattr env) h n"
    using assms(4) by (intro resolve_params_stable [OF assms(1,2) n(1)]) simp
  with n m resolve_params_node [OF m(2)] show ?thesis by (auto simp: params_now_def)
qed

lemma calm_valid: "calm env g0 s \<Longrightarrow> valid_graph (sc_graph s)"
proof -
  assume c: "calm env g0 s"
  then have g0: "graph_wf g0" "valid_graph g0" and pe: "plan_eq g0 (sc_graph s)"
    by (auto simp: calm_def tracked_def)
  then have "validate g0 = Inr []" using validate_spec [OF g0(1)] by auto
  then have "validate (sc_graph s) = Inr []" using validate_plan_eq [OF pe g0(1)] by simp
  then show ?thesis using validate_spec [of "sc_graph s"] calm_wf [OF c] by auto
qed

lemma turn_same_node:
  assumes "turn_result env nid g pg" "k \<noteq> nid" "(nid, k) \<notin> (dep_rel g)\<^sup>+"
  shows "get_node (snd pg) k = get_node g k"
  using assms(1)
proof cases
  case (turn_failed m h now r)
  then have "get_node h k = get_node m k" using assms(3) by simp
  with turn_failed(1,2) assms(2) show ?thesis by (simp add: off_def)
qed (use assms(2) in \<open>auto simp: off_def\<close>)

lemma params_node_event:
  assumes c: "calm env g0 s" and step: "sched_next env ev s = Some t" "event_node ev = Some nid" "no_abort ev"
    and ok: "params_ok env s"
  shows "params_ok env t"
proof -
  let ?g = "sc_graph s"
  have tr: "tracked env g0 s" and cg: "calm_graph ?g" using c by (auto simp: calm_def)
  have wf: "wf (dep_rel ?g)" using calm_wf [OF c] by simp
  have valid: "valid_graph ?g" by (rule calm_valid [OF c])
  have wave: "dict_wf (sc_wave s)" using tr by (simp add: tracked_def wave_ok_def)
  obtain p n pg where x: "(nid, p) \<in> set (sc_wave s)" "map_of (sc_wave s) nid = Some p"
    "get_node ?g nid = Some n" "tn_id n = nid" "at_node env ?g n"
    "node_event env ev (running_count s) ?g n p = Some pg" "t = resume nid pg s"
    "phase_ok n p" "\<not> sc_done s"
    using sched_next_nodeE [OF step(1,2) tr] by blast
  have turn: "turn_result env nid ?g pg"
    using node_event_turn [OF x(6) no_abortD [OF step(3)] x(5)] step(2) x(4)
      phase_ok_not_replanning [OF x(8)] by simp
  have graph: "sc_graph t = snd pg" using x(7) by (simp add: resume_def)
  have pe: "plan_eq ?g (snd pg)" by (rule turn_plan [OF turn])
  have "p = Waiting \<or> in_flight p" using x(6) node_event_settled [of p] by (cases p) auto
  then have nid: "sat ?g nid" "\<not> ended ?g nid"
    using c x(1) calm_graphD(2) [OF cg, of nid]
    by (auto simp: calm_def calm_phase_def ended_def terminal_status_def)
  have above: "get_node (snd pg) a = get_node ?g a"
    if "sat ?g k" "status_of ?g k \<noteq> Some SKIPPED" "(a, k) \<in> (dep_rel ?g)\<^sup>+" for a k
  proof -
    have "ended ?g a" using calm_above [OF wf cg that] by (rule satisfied_ended)
    with nid(2) have "a \<noteq> nid" by blast
    from turn_final [OF turn this \<open>ended ?g a\<close>] show ?thesis .
  qed
  have self: "status_of ?g nid \<noteq> Some SKIPPED" using nid(2) by (auto simp: ended_def terminal_status_def)
  have "params_now env (snd pg) k params"
    if kr: "(k, r) \<in> set (sc_wave t)" and params: "phase_params r = Some params" for k r params
  proof -
    have "(k \<noteq> nid \<and> (k, r) \<in> set (sc_wave s)) \<or> (k = nid \<and> r = fst pg)"
      using wave_resume [OF wave kr [unfolded x(7)]] by simp
    then show ?thesis
    proof
      assume k: "k \<noteq> nid \<and> (k, r) \<in> set (sc_wave s)"
      have "params_now env ?g k params" using ok k params by (auto simp: params_ok_def)
      moreover have "status_of ?g k = Some RUNNING"
        using c k params by (cases r) (auto simp: calm_def calm_phase_def)
      then have "sat ?g k" "status_of ?g k \<noteq> Some SKIPPED" using calm_graphD(2) [OF cg] by auto
      ultimately show ?thesis using params_now_frame [OF valid pe] above by blast
    next
      assume k: "k = nid \<and> r = fst pg"
      then have "phase_params (fst pg) = Some params" using params by simp
      from event_params [OF x(6) this] consider "phase_params p = Some params"
        | now where "params = resolve_params (se_str env) (se_getattr env)
            (adjust_node nid (set_running now) ?g) n"
        using x(4) by blast
      then have "params_now env ?g nid params"
      proof cases
        case 1
        with ok x(1) show ?thesis by (auto simp: params_ok_def)
      next
        case (2 now)
        let ?h = "adjust_node nid (set_running now) ?g"
        have "plan_eq ?g ?h" by (rule plan_eq_adjust) simp
        moreover have "get_node ?h a = get_node ?g a" if "(a, nid) \<in> (dep_rel ?g)\<^sup>+" for a
        proof -
          have "a \<noteq> nid" using that wf_acyclic [OF wf] by (auto simp: acyclic_def)
          then show ?thesis by (simp add: get_adjust_node)
        qed
        ultimately have "resolve_params (se_str env) (se_getattr env) ?g n
            = resolve_params (se_str env) (se_getattr env) ?h n"
          by (intro resolve_params_stable [OF valid _ x(3)]) simp_all
        with 2 x(3) show ?thesis by (auto simp: params_now_def)
      qed
      with params_now_frame [OF valid pe] above [OF nid(1) self] k show ?thesis by blast
    qed
  qed
  then show ?thesis using graph by (auto simp: params_ok_def)
qed

lemma params_run:
  assumes "calm env g0 s" "params_ok env s" "sched_run env evs s = Some t" "list_all no_abort evs"
  shows "params_ok env t"
  using assms
proof (induction evs arbitrary: s)
  case (Cons ev evs)
  then obtain u where u: "sched_next env ev s = Some u" "sched_run env evs u = Some t"
    by (auto split: option.splits)
  have "params_ok env u"
  proof (cases "event_node ev")
    case None
    then obtain now where "u = next_wave now s" using sched_next_wave(1) [OF u(1)] by blast
    then show ?thesis
      by (cases rule: next_wave_cases [of now s]) (auto simp: params_ok_def)
  next
    case (Some nid)
    then show ?thesis using params_node_event [OF Cons.prems(1) u(1)] Cons.prems(2,4) by simp
  qed
  moreover have "calm env g0 u" using calm_sched_next [OF Cons.prems(1) u(1)] Cons.prems(4) by simp
  ultimately show ?case using Cons.IH u(2) Cons.prems(4) by simp
qed simp

text \<open>
  The parameters a node is executed with, through all its attempts and iterations, are at
  every moment what \<open>resolve_params\<close> gives on the current graph: no result they refer to can
  still change while the node runs.
\<close>

theorem dispatched_params_current:
  assumes "calm_run_of env g evs s" "(k, p) \<in> set (sc_wave s)" "phase_params p = Some params"
  shows "\<exists>n. get_node (sc_graph s) k = Some n
    \<and> params = resolve_params (se_str env) (se_getattr env) (sc_graph s) n"
proof -
  obtain s0 where s0: "sched_init env g = Inr s0" "sched_run env evs s0 = Some s" "list_all no_abort evs"
    using assms(1) by (auto simp: calm_run_of_def)
  have "calm env g s0" "sc_wave s0 = []"
    using assms(1) s0(1) calm_init tracked_init(3) by (auto simp: calm_run_of_def)
  then have "params_ok env s" using params_run [OF _ _ s0(2,3)] by (simp add: params_ok_def)
  with assms(2,3) show ?thesis by (auto simp: params_ok_def params_now_def)
qed

theorem dispatched_params_current_witness:
  "\<exists>s n. calm_run_of sample_env sample_graph (take 5 sample_events) s \<and> get_node (sc_graph s) ''b'' = Some n
     \<and> [(''x'', PInt 7)] = resolve_params (se_str sample_env) (se_getattr sample_env) (sc_graph s) n"
proof -
  have "map_option (\<lambda>s. map_option phase_params (map_of (sc_wave s) ''b'')) (sample_state 5)
      = Some (Some (Some [(''x'', PInt 7)]))" by code_simp
  then obtain s p where s: "sample_state 5 = Some s" "map_of (sc_wave s) ''b'' = Some p"
    "phase_params p = Some [(''x'', PInt 7)]" by auto
  have "(''b'', p) \<in> set (sc_wave s)" by (rule map_of_SomeD [OF s(2)])
  then show ?thesis
    using dispatched_params_current [OF sample_calm [OF s(1)] _ s(3)] sample_calm [OF s(1)] by blast
qed

section \<open>Corner cases\<close>

text \<open>
  A quoted reference in a condition compares the \<open>repr\<close> of the status, quotes included, with the
  bare word: the text handed to \<open>eval\<close> is \<open>"'completed'" == "completed"\<close>, which is false.
\<close>

lemma quoted_status_condition:
  "resolve_condition (sample_env\<lparr>se_repr := \<lambda>v. case v of PStr s \<Rightarrow> quoted s | _ \<Rightarrow> []\<rparr>)
     (CHR 0x22 # ''${a.status}'' @ [CHR 0x22] @ '' == '' @ [CHR 0x22] @ ''completed'' @ [CHR 0x22])
     (adjust_node ''a'' (set_completed 1 PNone) sample_graph)
   = CHR 0x22 # quoted ''completed'' @ [CHR 0x22] @ '' == '' @ [CHR 0x22] @ ''completed'' @ [CHR 0x22]"
  by code_simp

text \<open>
  When the fallback action succeeds and the completion callback raises, the node that was marked
  completed is marked failed and the nodes below it are skipped.
\<close>

lemma fallback_callback_fails_node:
  "map (\<lambda>(k, n). (k, tn_status n)) (tg_nodes (snd (fallback_replied
       (sample_env\<lparr>se_on_complete := \<lambda>_ _. Some ''boom''\<rparr>) 1 (sample_node ''a'' [] []) ''fb'' (Ret (PInt 1)) sample_graph)))
     = [(''a'', FAILED), (''b'', SKIPPED), (''c'', SKIPPED)]"
  by code_simp

end
