(* ===== verification/Iteration_Budget.thy ===== *)
theory Iteration_Budget imports LF_Prelude begin

text \<open>
  \<open>engine/budget.py\<close>: the iteration budget of an agent loop, with difficulty-driven widening
  (\<open>retarget\<close>), progress-gated widening (\<open>grant_extension\<close>) and refunds. Floats are \<open>real\<close>;
  \<open>py_round\<close> is Python's \<open>round\<close> (ties to even).
\<close>

section \<open>Configuration\<close>

datatype budget_status = BUDGET_OK | WARNING | SOFT_LIMIT | EXHAUSTED

record budget_config =
  bc_max_iterations :: int
  bc_soft_limit :: int
  bc_warning_threshold :: int
  bc_iter_ceiling :: int
  bc_hard_cap :: int
  bc_scale_k :: real
  bc_max_refunds :: int
  bc_soft_ratio :: real
  bc_warning_ratio :: real

definition default_budget_config :: budget_config where
  "default_budget_config =
     \<lparr>bc_max_iterations = 20, bc_soft_limit = 14, bc_warning_threshold = 10, bc_iter_ceiling = 0,
      bc_hard_cap = 0, bc_scale_k = 1, bc_max_refunds = 0, bc_soft_ratio = 4 / 5, bc_warning_ratio = 1 / 2\<rparr>"

definition ceiling_of :: "budget_config \<Rightarrow> int" where
  "ceiling_of c = (if bc_iter_ceiling c > bc_max_iterations c then bc_iter_ceiling c else bc_max_iterations c)"

definition absolute_ceiling :: "budget_config \<Rightarrow> int" where
  "absolute_ceiling c = (if bc_hard_cap c > 0 then max (bc_hard_cap c) (ceiling_of c) else ceiling_of c)"

definition elastic :: "budget_config \<Rightarrow> bool" where
  "elastic c \<longleftrightarrow> bc_iter_ceiling c > bc_max_iterations c"

definition py_round :: "real \<Rightarrow> int" where
  "py_round x =
     (let f = \<lfloor>x\<rfloor>; d = x - of_int f
      in if d < 1 / 2 then f else if d > 1 / 2 then f + 1 else if even f then f else f + 1)"

section \<open>The budget\<close>

record iter_budget =
  ib_config :: budget_config
  ib_consumed :: int
  ib_refunded :: int
  ib_effective_max :: int

definition new_budget :: "budget_config \<Rightarrow> iter_budget" where
  "new_budget c = \<lparr>ib_config = c, ib_consumed = 0, ib_refunded = 0, ib_effective_max = max 1 (bc_max_iterations c)\<rparr>"

definition for_tool_execution :: "int \<Rightarrow> int \<Rightarrow> iter_budget" where
  "for_tool_execution max_calls soft =
     new_budget (default_budget_config\<lparr>bc_max_iterations := max_calls, bc_soft_limit := soft,
       bc_warning_threshold := max 1 (soft - 4)\<rparr>)"

definition used :: "iter_budget \<Rightarrow> int" where
  "used b = ib_consumed b - ib_refunded b"

definition remaining :: "iter_budget \<Rightarrow> int" where
  "remaining b = ib_effective_max b - (ib_consumed b - ib_refunded b)"

definition exhausted :: "iter_budget \<Rightarrow> bool" where
  "exhausted b \<longleftrightarrow> remaining b \<le> 0"

definition tier :: "iter_budget \<Rightarrow> int \<Rightarrow> budget_status" where
  "tier b u =
     (if u \<ge> ib_effective_max b then EXHAUSTED
      else
        let c = ib_config b;
            eff = of_int (ib_effective_max b);
            soft = (if elastic c then max 1 (py_round (bc_soft_ratio c * eff)) else bc_soft_limit c);
            warning = (if elastic c then max 1 (py_round (bc_warning_ratio c * eff)) else bc_warning_threshold c)
        in if u \<ge> soft then SOFT_LIMIT else if u \<ge> warning then WARNING else BUDGET_OK)"

definition consume :: "iter_budget \<Rightarrow> budget_status \<times> iter_budget" where
  "consume b =
     (let b' = b\<lparr>ib_consumed := ib_consumed b + 1\<rparr> in (tier b' (used b'), b'))"

definition status :: "iter_budget \<Rightarrow> budget_status" where
  "status b = tier b (used b)"

definition refund :: "iter_budget \<Rightarrow> iter_budget" where
  "refund b =
     (if bc_max_refunds (ib_config b) \<noteq> 0 \<and> ib_refunded b \<ge> bc_max_refunds (ib_config b) then b
      else b\<lparr>ib_refunded := ib_refunded b + 1\<rparr>)"

definition elastic_max :: "budget_config \<Rightarrow> real \<Rightarrow> int" where
  "elastic_max c difficulty =
     (let base = bc_max_iterations c;
          span = max 0 (ceiling_of c - base);
          clamped = max 0 (min 1 difficulty);
          target = base + py_round (bc_scale_k c * clamped * of_int span)
      in max base (min target (ceiling_of c)))"

definition retarget :: "int \<Rightarrow> iter_budget \<Rightarrow> iter_budget" where
  "retarget new_max b =
     (let floor = max (bc_max_iterations (ib_config b)) (used b);
          candidate = min new_max (ceiling_of (ib_config b))
      in b\<lparr>ib_effective_max := max (ib_effective_max b) (max candidate floor)\<rparr>)"

definition can_extend :: "iter_budget \<Rightarrow> bool" where
  "can_extend b \<longleftrightarrow> ib_effective_max b < absolute_ceiling (ib_config b)"

definition grant_extension :: "int \<Rightarrow> iter_budget \<Rightarrow> iter_budget" where
  "grant_extension step b =
     b\<lparr>ib_effective_max := min (ib_effective_max b + max 1 step) (absolute_ceiling (ib_config b))\<rparr>"

section \<open>A loop driven by the budget\<close>

text \<open>
  The loop consumes one iteration per round and stops at \<open>EXHAUSTED\<close>; between rounds it may
  refund, retarget and extend. \<open>budget_run\<close> returns the number of rounds that went on.
\<close>

datatype budget_op = Consume | Refund | Retarget int | Extend int

fun budget_run :: "budget_op list \<Rightarrow> iter_budget \<Rightarrow> (nat \<times> iter_budget) option" where
  "budget_run [] b = Some (0, b)"
| "budget_run (Consume # ops) b =
     (case consume b of
        (st, b') \<Rightarrow> if st = EXHAUSTED then None
                   else map_option (\<lambda>(k, b''). (Suc k, b'')) (budget_run ops b'))"
| "budget_run (Refund # ops) b = budget_run ops (refund b)"
| "budget_run (Retarget m # ops) b = budget_run ops (retarget m b)"
| "budget_run (Extend s # ops) b = budget_run ops (grant_extension s b)"

definition budget_ok :: "budget_config \<Rightarrow> iter_budget \<Rightarrow> bool" where
  "budget_ok c b \<longleftrightarrow> ib_config b = c \<and> used b \<le> ib_effective_max b
     \<and> bc_max_iterations c \<le> ib_effective_max b \<and> ib_effective_max b \<le> absolute_ceiling c
     \<and> (bc_max_refunds c \<noteq> 0 \<longrightarrow> ib_refunded b \<le> max 0 (bc_max_refunds c)) \<and> 0 \<le> ib_refunded b"

lemma ceiling_bounds:
  "bc_max_iterations c \<le> ceiling_of c" "ceiling_of c \<le> absolute_ceiling c"
  by (auto simp: ceiling_of_def absolute_ceiling_def)

lemma budget_ok_new: "1 \<le> bc_max_iterations c \<Longrightarrow> budget_ok c (new_budget c)"
  using ceiling_bounds [of c] by (auto simp: budget_ok_def new_budget_def used_def)

lemma budget_ok_consume:
  assumes "budget_ok c b" "consume b = (st, b')" "st \<noteq> EXHAUSTED"
  shows "budget_ok c b' \<and> used b' < ib_effective_max b' \<and> ib_consumed b' = ib_consumed b + 1"
proof -
  have b': "b' = b\<lparr>ib_consumed := ib_consumed b + 1\<rparr>" "st = tier b' (used b')"
    using assms(2) by (auto simp: consume_def Let_def)
  with assms(3) have "used b' < ib_effective_max b'" by (auto simp: tier_def split: if_splits)
  with assms(1) b'(1) show ?thesis by (auto simp: budget_ok_def used_def)
qed

lemma budget_ok_refund: "budget_ok c b \<Longrightarrow> budget_ok c (refund b)"
  by (auto simp: budget_ok_def refund_def used_def)

lemma budget_ok_retarget: "budget_ok c b \<Longrightarrow> budget_ok c (retarget m b)"
  using ceiling_bounds [of c] by (auto simp: budget_ok_def retarget_def Let_def used_def)

lemma budget_ok_extend: "budget_ok c b \<Longrightarrow> budget_ok c (grant_extension s b)"
  using ceiling_bounds [of c] by (auto simp: budget_ok_def grant_extension_def used_def)

lemma consumed_other [simp]:
  "ib_consumed (refund b) = ib_consumed b" "ib_consumed (retarget m b) = ib_consumed b"
  "ib_consumed (grant_extension s b) = ib_consumed b"
  by (simp_all add: refund_def retarget_def grant_extension_def Let_def)

lemma budget_run_ok:
  assumes "budget_run ops b = Some (k, b')" "budget_ok c b"
  shows "budget_ok c b' \<and> ib_consumed b' = ib_consumed b + int k"
  using assms
proof (induction ops b arbitrary: k rule: budget_run.induct)
  case (2 ops b)
  obtain st b1 where c1: "consume b = (st, b1)" by (cases "consume b")
  with "2.prems"(1) obtain j where j: "st \<noteq> EXHAUSTED" "budget_run ops b1 = Some (j, b')" "k = Suc j"
    by (auto split: if_splits)
  have b1: "budget_ok c b1" "ib_consumed b1 = ib_consumed b + 1"
    using budget_ok_consume [OF "2.prems"(2) c1 j(1)] by auto
  from "2.IH" [OF c1 [symmetric] j(1) j(2) b1(1)] b1(2) j(3) show ?case by simp
qed (auto simp: budget_ok_refund budget_ok_retarget budget_ok_extend)

text \<open>
  With a positive baseline and a refund limit, no interleaving of rounds, refunds, retargets
  and extensions lets a loop go on for more rounds than the absolute ceiling plus the refund
  limit; and at every moment the effective cap stays between the baseline and the absolute
  ceiling and is not below what has been used.
\<close>

theorem budget_loop_bounded:
  assumes "1 \<le> bc_max_iterations c" "0 < bc_max_refunds c" "budget_run ops (new_budget c) = Some (k, b)"
  shows "int k \<le> absolute_ceiling c + bc_max_refunds c
    \<and> bc_max_iterations c \<le> ib_effective_max b \<and> ib_effective_max b \<le> absolute_ceiling c
    \<and> used b \<le> ib_effective_max b"
proof -
  have "budget_ok c b" "ib_consumed b = int k"
    using budget_run_ok [OF assms(3) budget_ok_new [OF assms(1)]] by (auto simp: new_budget_def)
  with assms(2) show ?thesis by (auto simp: budget_ok_def used_def)
qed

theorem budget_loop_bounded_witness:
  "\<exists>k b. budget_run [Consume, Refund, Extend 2, Consume]
       (new_budget (default_budget_config\<lparr>bc_max_iterations := 2, bc_hard_cap := 3, bc_max_refunds := 1\<rparr>)) = Some (k, b)
     \<and> k = 2 \<and> int k \<le> 4"
proof -
  let ?c = "default_budget_config\<lparr>bc_max_iterations := 2, bc_hard_cap := 3, bc_max_refunds := 1\<rparr>"
  obtain b where run: "budget_run [Consume, Refund, Extend 2, Consume] (new_budget ?c) = Some (2, b)"
    by (simp add: consume_def tier_def used_def new_budget_def default_budget_config_def refund_def
        grant_extension_def absolute_ceiling_def ceiling_of_def Let_def elastic_def numeral_2_eq_2)
  have "absolute_ceiling ?c + bc_max_refunds ?c = 4"
    by (simp add: absolute_ceiling_def ceiling_of_def default_budget_config_def)
  moreover have "1 \<le> bc_max_iterations ?c" "0 < bc_max_refunds ?c" by simp_all
  ultimately show ?thesis using budget_loop_bounded [OF _ _ run] run by fastforce
qed

section \<open>Difficulty\<close>

lemma py_round_mono:
  assumes "x \<le> y"
  shows "py_round x \<le> py_round y"
proof (cases "\<lfloor>x\<rfloor> = \<lfloor>y\<rfloor>")
  case True
  with assms show ?thesis by (auto simp: py_round_def Let_def)
next
  case False
  with assms have "\<lfloor>x\<rfloor> + 1 \<le> \<lfloor>y\<rfloor>" using floor_mono [of x y] by linarith
  then show ?thesis by (auto simp: py_round_def Let_def)
qed

lemma py_round_int: "py_round (of_int n) = n"
  by (simp add: py_round_def)

text \<open>
  The cap computed for a difficulty lies between the baseline and the ceiling for any
  difficulty, is the baseline at 0, the ceiling at 1 with the default scale, and grows with the
  difficulty when the scale is not negative; retargeting never lowers the cap.
\<close>

theorem elastic_max_correct:
  "bc_max_iterations c \<le> elastic_max c d \<and> elastic_max c d \<le> ceiling_of c
   \<and> elastic_max c 0 = bc_max_iterations c
   \<and> (bc_scale_k c = 1 \<longrightarrow> elastic_max c 1 = ceiling_of c)
   \<and> (0 \<le> bc_scale_k c \<longrightarrow> d \<le> e \<longrightarrow> elastic_max c d \<le> elastic_max c e)
   \<and> ib_effective_max b \<le> ib_effective_max (retarget (elastic_max c d) b)"
proof (intro conjI impI)
  note bounds = ceiling_bounds(1) [of c]
  show "bc_max_iterations c \<le> elastic_max c d" "elastic_max c d \<le> ceiling_of c"
    using bounds by (simp_all add: elastic_max_def Let_def)
  show "elastic_max c 0 = bc_max_iterations c"
    using bounds py_round_int [of 0] by (simp add: elastic_max_def Let_def)
  show "elastic_max c 1 = ceiling_of c" if "bc_scale_k c = 1"
    using bounds that py_round_int [of "ceiling_of c - bc_max_iterations c"]
    by (simp add: elastic_max_def Let_def)
  show "elastic_max c d \<le> elastic_max c e" if "0 \<le> bc_scale_k c" "d \<le> e"
  proof -
    have "bc_scale_k c * max 0 (min 1 d) * of_int (max 0 (ceiling_of c - bc_max_iterations c))
        \<le> bc_scale_k c * max 0 (min 1 e) * of_int (max 0 (ceiling_of c - bc_max_iterations c))"
      using that by (intro mult_right_mono mult_left_mono) auto
    then show ?thesis
      unfolding elastic_max_def Let_def by (intro max.mono min.mono add_left_mono order_refl py_round_mono)
  qed
  show "ib_effective_max b \<le> ib_effective_max (retarget (elastic_max c d) b)"
    by (simp add: retarget_def Let_def)
qed

theorem elastic_max_correct_witness:
  "elastic_max (default_budget_config\<lparr>bc_iter_ceiling := 60\<rparr>) 1 = 60
   \<and> elastic_max (default_budget_config\<lparr>bc_iter_ceiling := 60\<rparr>) (1 / 2)
       \<le> elastic_max (default_budget_config\<lparr>bc_iter_ceiling := 60\<rparr>) (3 / 4)"
proof -
  let ?c = "default_budget_config\<lparr>bc_iter_ceiling := 60\<rparr>"
  have "bc_scale_k ?c = 1" "ceiling_of ?c = 60" by (simp_all add: default_budget_config_def ceiling_of_def)
  then show ?thesis using elastic_max_correct [of ?c "1 / 2" "3 / 4"] by simp
qed

text \<open>The alert level only rises with use.\<close>

definition level :: "budget_status \<Rightarrow> nat" where
  "level s = (case s of BUDGET_OK \<Rightarrow> 0 | WARNING \<Rightarrow> 1 | SOFT_LIMIT \<Rightarrow> 2 | EXHAUSTED \<Rightarrow> 3)"

lemma tier_mono: "u \<le> v \<Longrightarrow> level (tier b u) \<le> level (tier b v)"
  by (auto simp: tier_def level_def Let_def)

text \<open>
  Once more has been used than the ceiling allows, \<open>retarget\<close> raises the cap above the ceiling
  and a later extension lowers it again.
\<close>

lemma extension_lowers_cap:
  "(let c = default_budget_config\<lparr>bc_max_iterations := 1\<rparr>;
        b = retarget 0 ((new_budget c)\<lparr>ib_consumed := 5\<rparr>)
    in (ib_effective_max b, absolute_ceiling c, ib_effective_max (grant_extension 1 b))) = (5, 1, 1)"
  by (simp add: default_budget_config_def new_budget_def retarget_def grant_extension_def used_def
      absolute_ceiling_def ceiling_of_def Let_def)

end
