(* ===== verification/Recovery_Base.thy ===== *)
theory Recovery_Base imports LF_Prelude begin

text \<open>
  Data of \<open>engine/recovery\<close>: failure envelopes (\<open>failure_envelope.py\<close>), recovery decisions
  (\<open>recovery_decision.py\<close>), interaction requests (\<open>interaction_request.py\<close>), the one-shot guard
  (\<open>oneshot_guard.py\<close>) and the recovery budget (\<open>recovery_budget.py\<close>). Clock readings are
  arguments; identifiers made by \<open>uuid\<close> are left out, an envelope's own id is an argument.
\<close>

section \<open>Failure envelopes\<close>

datatype failure_source = SRC_LLM | SRC_TOOL | SRC_SYSTEM | SRC_SECURITY

datatype recoverability = AUTO_RETRY | AUTO_RECOVER | USER_FIXABLE | ADMIN_REQUIRED | NON_RECOVERABLE

datatype side_effect_state = SE_NONE | SE_COMMITTED | SE_PARTIAL | SE_UNKNOWN

fun source_value :: "failure_source \<Rightarrow> string" where
  "source_value SRC_LLM = ''llm''"
| "source_value SRC_TOOL = ''tool''"
| "source_value SRC_SYSTEM = ''system''"
| "source_value SRC_SECURITY = ''security''"

fun side_effect_value :: "side_effect_state \<Rightarrow> string" where
  "side_effect_value SE_NONE = ''none''"
| "side_effect_value SE_COMMITTED = ''committed''"
| "side_effect_value SE_PARTIAL = ''partial''"
| "side_effect_value SE_UNKNOWN = ''unknown''"

record failure_context =
  fc_tool_name :: string
  fc_arguments :: "(string \<times> pyval) list"

record failure_envelope =
  fe_id :: string
  fe_source :: failure_source
  fe_category :: string
  fe_class :: string
  fe_code :: string
  fe_message :: string
  fe_recoverability :: recoverability
  fe_side_effect :: side_effect_state
  fe_context :: failure_context
  fe_timestamp :: real
  fe_hint :: "string option"

section \<open>Decisions\<close>

datatype recovery_action =
    RETRY_WITH_BACKOFF | TRANSFORM_AND_RETRY | FAILOVER | HALT_CLEAN | HALT_WITH_CHECKPOINT
  | ASK_USER | SKIP_AND_CONTINUE

record backoff_config =
  bo_base_delay :: real
  bo_max_delay :: real
  bo_jitter_ratio :: real
  bo_algorithm :: string

record retry_semantics =
  rs_consumes_retry_budget :: bool
  rs_resets_retry_count :: bool
  rs_backoff :: "backoff_config option"

datatype interaction_type =
    APPROVAL | CLARIFICATION | PARAMETER_CONFIRMATION | RECOVERY_GUIDANCE | CREDENTIAL_SETUP
  | PERMISSION_GRANT | RETRY_CHOICE | CONFLICT_RESOLUTION | CONTINUE_AFTER_FIX | DEGRADED_MODE_CONFIRM

datatype severity = SEV_INFO | SEV_WARNING | SEV_ERROR | SEV_CRITICAL

datatype timeout_behavior = TB_CANCEL | TB_DEGRADE | TB_PERSIST

record suggested_action =
  sa_label :: string
  sa_command :: string
  sa_is_default :: bool

record interaction_request =
  ir_type :: interaction_type
  ir_severity :: severity
  ir_title :: string
  ir_description :: ftext
  ir_actions :: "suggested_action list"
  ir_context :: "ftext dict"
  ir_resumption_key :: string
  ir_timeout :: timeout_behavior

record recovery_decision =
  dc_envelope :: failure_envelope
  dc_action :: recovery_action
  dc_reason :: ftext
  dc_strategy_key :: string
  dc_semantics :: retry_semantics
  dc_budget_cost :: int
  dc_metadata :: "pyval dict"
  dc_interaction :: "interaction_request option"
  dc_transform :: string

definition is_terminal_decision :: "recovery_decision \<Rightarrow> bool" where
  "is_terminal_decision d \<longleftrightarrow> dc_action d \<in> {HALT_CLEAN, HALT_WITH_CHECKPOINT, ASK_USER}"

definition is_retry :: "recovery_decision \<Rightarrow> bool" where
  "is_retry d \<longleftrightarrow> dc_action d \<in> {RETRY_WITH_BACKOFF, TRANSFORM_AND_RETRY, FAILOVER}"

section \<open>The one-shot guard\<close>

record oneshot_guard =
  og_used :: "real dict"
  og_history :: "real dict list"

definition new_guard :: oneshot_guard where
  "new_guard = \<lparr>og_used = [], og_history = []\<rparr>"

definition guard_available :: "oneshot_guard \<Rightarrow> string \<Rightarrow> bool" where
  "guard_available g k \<longleftrightarrow> map_of (og_used g) k = None"

definition guard_mark :: "real \<Rightarrow> string \<Rightarrow> oneshot_guard \<Rightarrow> oneshot_guard" where
  "guard_mark now k g = (if map_of (og_used g) k = None then g\<lparr>og_used := dict_set k now (og_used g)\<rparr> else g)"

definition guard_used_strategies :: "oneshot_guard \<Rightarrow> string list" where
  "guard_used_strategies g = map fst (sort_key snd (og_used g))"

definition guard_new_turn :: "oneshot_guard \<Rightarrow> oneshot_guard" where
  "guard_new_turn g =
     g\<lparr>og_used := [], og_history := (if og_used g \<noteq> [] then og_history g @ [og_used g] else og_history g)\<rparr>"

definition guard_reset :: "oneshot_guard \<Rightarrow> oneshot_guard" where
  "guard_reset g = g\<lparr>og_used := [], og_history := []\<rparr>"

lemma guard_mark_available [simp]:
  "guard_available (guard_mark now k g) j \<longleftrightarrow> guard_available g j \<and> j \<noteq> k"
  by (auto simp: guard_available_def guard_mark_def map_of_dict_set)

section \<open>The recovery budget\<close>

record recovery_budget =
  rb_max_retry_per_category :: int
  rb_max_transform_attempts :: int
  rb_max_failovers :: int
  rb_max_credential_rotations :: int
  rb_turn_deadline :: real
  rb_total :: int
  rb_consumed :: int
  rb_category_consumed :: "int dict"
  rb_transforms_used :: int
  rb_failovers_used :: int
  rb_rotations_used :: int
  rb_deadline_start :: real

definition default_recovery_budget :: recovery_budget where
  "default_recovery_budget =
     \<lparr>rb_max_retry_per_category = 3, rb_max_transform_attempts = 2, rb_max_failovers = 2,
      rb_max_credential_rotations = 3, rb_turn_deadline = 300, rb_total = 12,
      rb_consumed = 0, rb_category_consumed = [], rb_transforms_used = 0, rb_failovers_used = 0,
      rb_rotations_used = 0, rb_deadline_start = 0\<rparr>"

definition budget_start_deadline :: "real \<Rightarrow> recovery_budget \<Rightarrow> recovery_budget" where
  "budget_start_deadline now b = b\<lparr>rb_deadline_start := now\<rparr>"

definition budget_new_turn :: "real \<Rightarrow> recovery_budget \<Rightarrow> recovery_budget" where
  "budget_new_turn now b =
     budget_start_deadline now
       (b\<lparr>rb_consumed := 0, rb_category_consumed := [], rb_transforms_used := 0,
          rb_failovers_used := 0, rb_rotations_used := 0\<rparr>)"

definition deadline_exceeded :: "real \<Rightarrow> recovery_budget \<Rightarrow> bool" where
  "deadline_exceeded now b =
     (if rb_deadline_start b = 0 \<or> rb_turn_deadline b \<le> 0 then False
      else now - rb_deadline_start b > rb_turn_deadline b)"

definition category_used :: "recovery_budget \<Rightarrow> string \<Rightarrow> int" where
  "category_used b c = (case map_of (rb_category_consumed b) c of Some v \<Rightarrow> v | None \<Rightarrow> 0)"

definition can_afford :: "real \<Rightarrow> recovery_budget \<Rightarrow> int \<Rightarrow> string \<Rightarrow> bool" where
  "can_afford now b cost category =
     (if deadline_exceeded now b then False
      else if rb_consumed b + cost > rb_total b then False
      else if category \<noteq> [] \<and> category_used b category + cost > rb_max_retry_per_category b then False
      else True)"

text \<open>\<open>consume\<close> raises \<open>ValueError\<close> when the cost cannot be afforded.\<close>

definition budget_consume :: "real \<Rightarrow> int \<Rightarrow> string \<Rightarrow> recovery_budget \<Rightarrow> recovery_budget option" where
  "budget_consume now cost category b =
     (if \<not> can_afford now b cost category then None
      else let b' = b\<lparr>rb_consumed := rb_consumed b + cost\<rparr>
           in Some (if category = [] then b'
                    else b'\<lparr>rb_category_consumed := dict_set category (category_used b category + cost)
                                                     (rb_category_consumed b)\<rparr>))"

definition consume_transform :: "recovery_budget \<Rightarrow> recovery_budget" where
  "consume_transform b = b\<lparr>rb_transforms_used := rb_transforms_used b + 1\<rparr>"

definition consume_failover :: "recovery_budget \<Rightarrow> recovery_budget" where
  "consume_failover b = b\<lparr>rb_failovers_used := rb_failovers_used b + 1\<rparr>"

definition consume_rotation :: "recovery_budget \<Rightarrow> recovery_budget" where
  "consume_rotation b = b\<lparr>rb_rotations_used := rb_rotations_used b + 1\<rparr>"

definition can_transform :: "recovery_budget \<Rightarrow> bool" where
  "can_transform b \<longleftrightarrow> rb_transforms_used b < rb_max_transform_attempts b"

definition can_failover :: "recovery_budget \<Rightarrow> bool" where
  "can_failover b \<longleftrightarrow> rb_failovers_used b < rb_max_failovers b"

definition can_rotate :: "recovery_budget \<Rightarrow> bool" where
  "can_rotate b \<longleftrightarrow> rb_rotations_used b < rb_max_credential_rotations b"

definition budget_remaining :: "recovery_budget \<Rightarrow> int" where
  "budget_remaining b = max 0 (rb_total b - rb_consumed b)"

definition category_remaining :: "recovery_budget \<Rightarrow> string \<Rightarrow> int" where
  "category_remaining b c = max 0 (rb_max_retry_per_category b - category_used b c)"

text \<open>Accounting: nothing is spent beyond the limits, and categories add up to no more than the total.\<close>

definition budget_inv :: "recovery_budget \<Rightarrow> bool" where
  "budget_inv b \<longleftrightarrow>
     0 \<le> rb_consumed b \<and> rb_consumed b \<le> max 0 (rb_total b) \<and> dict_wf (rb_category_consumed b)
   \<and> (\<forall>c. 0 \<le> category_used b c \<and> category_used b c \<le> max 0 (rb_max_retry_per_category b))"

lemma budget_inv_new_turn: "budget_inv (budget_new_turn now b)"
  by (simp add: budget_inv_def budget_new_turn_def budget_start_deadline_def category_used_def dict_wf_def)

lemma budget_inv_consume:
  assumes "budget_inv b" "0 \<le> cost" "budget_consume now cost category b = Some b'"
  shows "budget_inv b'" "rb_consumed b' = rb_consumed b + cost"
proof -
  have aff: "can_afford now b cost category" using assms(3) by (auto simp: budget_consume_def split: if_splits)
  then have total: "rb_consumed b + cost \<le> rb_total b"
    and cat: "category \<noteq> [] \<Longrightarrow> category_used b category + cost \<le> rb_max_retry_per_category b"
    by (auto simp: can_afford_def split: if_splits)
  show c: "rb_consumed b' = rb_consumed b + cost"
    using assms(3) by (auto simp: budget_consume_def Let_def split: if_splits)
  have "category_used b' c = (if c = category \<and> category \<noteq> [] then category_used b c + cost else category_used b c)" for c
    using assms(3) by (auto simp: budget_consume_def Let_def category_used_def map_of_dict_set split: if_splits)
  moreover have "rb_total b' = rb_total b" "rb_max_retry_per_category b' = rb_max_retry_per_category b"
    "dict_wf (rb_category_consumed b')"
    using assms(1,3) by (auto simp: budget_consume_def Let_def budget_inv_def dict_wf_set split: if_splits)
  ultimately show "budget_inv b'"
    using assms(1,2) total cat c by (auto simp: budget_inv_def)
qed

end
