(* ===== verification/Recovery_Coordinator.thy ===== *)
theory Recovery_Coordinator imports Recovery_Base begin

text \<open>
  \<open>engine/recovery/recovery_coordinator.py\<close>: the coordinator the agent loop calls on every
  failure. A strategy of the \<open>RecoveryStrategy\<close> protocol is a record of its properties and its
  two methods; the private attributes of the registered strategies are the coordinator's
  \<open>rc_private\<close>, of any type. \<open>decide\<close> may raise. The code asks \<open>time.monotonic()\<close> anew at each place
  that needs it: \<open>recovery_env\<close> holds, for the strategies tried in turn, one reading for each place
  (\<open>clock_reading\<close>), any reals, so that the deadline may pass between two of them.
\<close>

section \<open>State and strategies\<close>

text \<open>
  The places: \<open>start_deadline\<close> of a new turn and the deadline check that opens \<open>evaluate\<close>; the
  \<open>can_afford\<close> and the cooldown test of a strategy's \<open>can_apply\<close>; the cooldown its \<open>decide\<close> sets; the
  \<open>can_afford\<close> before a decision is committed; the one inside \<open>consume\<close>.
\<close>

datatype clock_reading = At_Start | At_Retry_Check | At_Cooldown_Check | At_Cooldown_Start | At_Afford | At_Consume

record recovery_env =
  ev_clock :: "nat \<Rightarrow> clock_reading \<Rightarrow> real"
  ev_wall :: real
  ev_rotatable :: "bool option"

text \<open>The reading of the current strategy, and the readings left when it has been passed over.\<close>

definition ev_at :: "recovery_env \<Rightarrow> clock_reading \<Rightarrow> real" where
  "ev_at ev r = ev_clock ev 0 r"

definition ev_next :: "recovery_env \<Rightarrow> recovery_env" where
  "ev_next ev = ev\<lparr>ev_clock := \<lambda>n. ev_clock ev (Suc n)\<rparr>"

record recovery_state =
  rst_consecutive_failures :: int
  rst_consecutive_api_errors :: int
  rst_last_error_category :: string
  rst_compress_phase :: nat
  rst_last_failure :: real
  rst_total_decisions :: int
  rst_turn_id :: int

definition initial_recovery_state :: recovery_state where
  "initial_recovery_state =
     \<lparr>rst_consecutive_failures = 0, rst_consecutive_api_errors = 0, rst_last_error_category = [],
      rst_compress_phase = 0, rst_last_failure = 0, rst_total_decisions = 0, rst_turn_id = 0\<rparr>"

record 'p strategy =
  st_key :: string
  st_priority :: int
  st_repeatable :: bool
  st_sources :: "string list"
  st_categories :: "string list"
  st_can_apply :: "recovery_env \<Rightarrow> failure_envelope \<Rightarrow> recovery_state \<Rightarrow> recovery_budget \<Rightarrow> 'p \<Rightarrow> bool"
  st_decide :: "recovery_env \<Rightarrow> failure_envelope \<Rightarrow> recovery_state \<Rightarrow> 'p \<Rightarrow> (recovery_decision \<times> 'p) outcome"

datatype audit_entry =
    DecisionEntry string recovery_action string ftext int int real
  | OutcomeEntry string bool real int

record 'p coordinator =
  rc_strategies :: "'p strategy list"
  rc_budget :: recovery_budget
  rc_guard :: oneshot_guard
  rc_state :: recovery_state
  rc_audit :: "audit_entry list"
  rc_private :: 'p

definition new_coordinator :: "'p strategy list \<Rightarrow> recovery_budget \<Rightarrow> 'p \<Rightarrow> 'p coordinator" where
  "new_coordinator ss b p =
     \<lparr>rc_strategies = sort_key st_priority ss, rc_budget = b, rc_guard = new_guard,
      rc_state = initial_recovery_state, rc_audit = [], rc_private = p\<rparr>"

section \<open>Terminal decisions\<close>

definition no_budget_semantics :: retry_semantics where
  "no_budget_semantics =
     \<lparr>rs_consumes_retry_budget = False, rs_resets_retry_count = False, rs_backoff = None\<rparr>"

definition decision ::
  "failure_envelope \<Rightarrow> recovery_action \<Rightarrow> ftext \<Rightarrow> string \<Rightarrow> retry_semantics \<Rightarrow> int \<Rightarrow> recovery_decision" where
  "decision e act reason key sem cost =
     \<lparr>dc_envelope = e, dc_action = act, dc_reason = reason, dc_strategy_key = key, dc_semantics = sem,
      dc_budget_cost = cost, dc_metadata = [], dc_interaction = None, dc_transform = []\<rparr>"

definition plain_action :: "string \<Rightarrow> suggested_action" where
  "plain_action l = \<lparr>sa_label = l, sa_command = [], sa_is_default = False\<rparr>"

definition str_or :: "string \<Rightarrow> string \<Rightarrow> string" where
  "str_or a b = (if a \<noteq> [] then a else b)"

definition terminal_interaction :: "oneshot_guard \<Rightarrow> failure_envelope \<Rightarrow> ftext \<Rightarrow> interaction_request" where
  "terminal_interaction g e reason =
     (let hint = (case fe_hint e of Some h \<Rightarrow> h | None \<Rightarrow> []);
          failure = str_or (fe_code e) (str_or (fe_category e) ''unknown failure'');
          attempted = py_join '', '' (guard_used_strategies g);
          d0 = (if fe_message e \<noteq> [] then [Txt (fe_message e)] else reason);
          d1 = (if hint \<noteq> [] then d0 @ [Txt '' '', Txt hint] else d0);
          d2 = (if attempted \<noteq> [] then d1 @ [Txt '' Recovery already tried: '', Txt attempted, Txt ''.''] else d1)
      in \<lparr>ir_type = RETRY_CHOICE, ir_severity = SEV_ERROR,
          ir_title = ''This turn stopped: '' @ failure,
          ir_description = d2,
          ir_actions = [(plain_action ''Rephrase or narrow the request and try again'')\<lparr>sa_is_default := True\<rparr>,
                        (plain_action ''Check the daemon log for the full error'')\<lparr>sa_command := ''leap daemon logs''\<rparr>],
          ir_context = [(''category'', [Txt (fe_category e)]), (''failure_code'', [Txt (fe_code e)]),
                        (''reason'', reason), (''source'', [Txt (source_value (fe_source e))])],
          ir_resumption_key = fe_id e, ir_timeout = TB_PERSIST\<rparr>)"

definition make_terminal :: "oneshot_guard \<Rightarrow> failure_envelope \<Rightarrow> ftext \<Rightarrow> recovery_decision" where
  "make_terminal g e reason =
     (decision e HALT_CLEAN reason ''<terminal>'' no_budget_semantics 0)
       \<lparr>dc_interaction := Some (terminal_interaction g e reason)\<rparr>"

definition terminal_decision :: "oneshot_guard \<Rightarrow> failure_envelope \<Rightarrow> recovery_decision" where
  "terminal_decision g e = make_terminal g e [Txt ''No applicable recovery strategy found'']"

definition side_effect_halt :: "failure_envelope \<Rightarrow> string list \<Rightarrow> recovery_decision" where
  "side_effect_halt e blocked =
     (let tool = str_or (fc_tool_name (fe_context e)) ''the operation'';
          label = side_effect_value (fe_side_effect e);
          reason = [Txt ''Automatic retry is blocked: '', Txt tool, Txt '' failed with side-effect state '',
                    Txt (quoted label), Txt '', so replaying it could duplicate the effect. '',
                    Txt ''Strategies withheld: '', Txt (py_join '', '' blocked), Txt ''.'']
      in (decision e HALT_WITH_CHECKPOINT reason ''<side_effect_gated>'' no_budget_semantics 0)
           \<lparr>dc_interaction := Some
              \<lparr>ir_type = RETRY_CHOICE, ir_severity = SEV_WARNING,
               ir_title = tool @ '' may already have taken effect'',
               ir_description =
                 [Txt ''It failed with '', Txt (quoted (str_or (fe_code e) (fe_category e))),
                  Txt '', but its side-effect state is '', Txt (quoted label),
                  Txt '', so retrying automatically could apply it twice. '',
                  Txt ''Check whether it took effect, then decide how to proceed.''],
               ir_actions = [(plain_action ''Verify the target state, then retry if it did not apply'')\<lparr>sa_is_default := True\<rparr>,
                             plain_action ''Abandon this step and continue''],
               ir_context = [(''category'', [Txt (fe_category e)]), (''failure_code'', [Txt (fe_code e)]),
                             (''side_effect_state'', [Txt label]), (''tool_name'', [Txt tool])],
               ir_resumption_key = fe_id e, ir_timeout = TB_PERSIST\<rparr>\<rparr>)"

section \<open>Bookkeeping\<close>

definition record_audit :: "recovery_env \<Rightarrow> recovery_decision \<Rightarrow> string \<Rightarrow> 'p coordinator \<Rightarrow> 'p coordinator" where
  "record_audit ev d key c =
     c\<lparr>rc_audit := rc_audit c @
        [DecisionEntry (fe_id (dc_envelope d)) (dc_action d) key (dc_reason d) (dc_budget_cost d)
           (budget_remaining (rc_budget c)) (ev_wall ev)]\<rparr>"

definition matches_source :: "'p strategy \<Rightarrow> failure_envelope \<Rightarrow> bool" where
  "matches_source s e \<longleftrightarrow> st_sources s = [] \<or> source_value (fe_source e) \<in> set (st_sources s)"

definition matches_category :: "'p strategy \<Rightarrow> failure_envelope \<Rightarrow> bool" where
  "matches_category s e \<longleftrightarrow> st_categories s = [] \<or> fe_category e \<in> set (st_categories s)"

definition update_state :: "failure_envelope \<Rightarrow> recovery_state \<Rightarrow> recovery_state" where
  "update_state e st =
     st\<lparr>rst_last_error_category := fe_category e, rst_last_failure := fe_timestamp e,
        rst_total_decisions := rst_total_decisions st + 1,
        rst_consecutive_api_errors :=
          (if source_value (fe_source e) = ''llm'' then rst_consecutive_api_errors st + 1
           else rst_consecutive_api_errors st)\<rparr>"

text \<open>\<open>audit_metadata_dict.get("phase_index")\<close>.\<close>

definition phase_index :: "recovery_decision \<Rightarrow> nat option" where
  "phase_index d = (case map_of (dc_metadata d) ''phase_index'' of Some (PInt i) \<Rightarrow> Some (nat i) | _ \<Rightarrow> None)"

definition commit_state_changes :: "recovery_decision \<Rightarrow> 'p strategy \<Rightarrow> recovery_state \<Rightarrow> recovery_state" where
  "commit_state_changes d s st =
     (if st_key s = ''context_compress''
      then (case phase_index d of Some i \<Rightarrow> st\<lparr>rst_compress_phase := i + 1\<rparr> | None \<Rightarrow> st)
      else st)"

definition rollback_state_changes :: "recovery_decision \<Rightarrow> 'p strategy \<Rightarrow> recovery_state \<Rightarrow> recovery_state" where
  "rollback_state_changes d s st =
     (if st_key s = ''context_compress''
      then (case phase_index d of Some i \<Rightarrow> st\<lparr>rst_compress_phase := i\<rparr> | None \<Rightarrow> st)
      else st)"

definition consume_type_budget :: "recovery_decision \<Rightarrow> recovery_budget \<Rightarrow> recovery_budget" where
  "consume_type_budget d b =
     (case dc_action d of
        TRANSFORM_AND_RETRY \<Rightarrow> consume_transform b
      | FAILOVER \<Rightarrow> if py_contains ''credential'' (dc_strategy_key d) then consume_rotation b else consume_failover b
      | _ \<Rightarrow> b)"

section \<open>Evaluation\<close>

text \<open>The guards of the strategy loop, before \<open>decide\<close> is called.\<close>

definition eligible :: "recovery_env \<Rightarrow> failure_envelope \<Rightarrow> 'p coordinator \<Rightarrow> 'p strategy \<Rightarrow> bool" where
  "eligible ev e c s \<longleftrightarrow>
     matches_source s e \<and> matches_category s e
     \<and> (st_repeatable s \<or> guard_available (rc_guard c) (st_key s))
     \<and> st_can_apply s ev e (rc_state c) (rc_budget c) (rc_private c)"

text \<open>What an accepted decision changes: budget, private phase, type counters, guard, shared state, audit.\<close>

definition commit_decision ::
  "recovery_env \<Rightarrow> failure_envelope \<Rightarrow> 'p strategy \<Rightarrow> recovery_decision \<Rightarrow> 'p coordinator
   \<Rightarrow> (recovery_decision \<times> 'p coordinator) outcome" where
  "commit_decision ev e s d c =
     (case (if dc_budget_cost d > 0
            then budget_consume (ev_at ev At_Consume) (dc_budget_cost d) (fe_category e) (rc_budget c)
            else Some (rc_budget c)) of
        None \<Rightarrow> Raise ''ValueError: Budget exceeded''
      | Some b \<Rightarrow>
          Ret (d, record_audit ev d (st_key s)
                (c\<lparr>rc_budget := consume_type_budget d b,
                   rc_guard := (if st_repeatable s then rc_guard c
                                else guard_mark (ev_wall ev) (st_key s) (rc_guard c)),
                   rc_state := update_state e (commit_state_changes d s (rc_state c))\<rparr>)))"

fun try_strategies ::
  "recovery_env \<Rightarrow> failure_envelope \<Rightarrow> 'p strategy list \<Rightarrow> 'p coordinator
   \<Rightarrow> (recovery_decision \<times> 'p coordinator) outcome" where
  "try_strategies ev e [] c =
     (let d = terminal_decision (rc_guard c) e in Ret (d, record_audit ev d ''<none_matched>'' c))"
| "try_strategies ev e (s # ss) c =
     (if \<not> eligible ev e c s then try_strategies (ev_next ev) e ss c
      else case st_decide s ev e (rc_state c) (rc_private c) of
             Raise x \<Rightarrow> Raise x
           | Ret (d, p) \<Rightarrow>
               if dc_budget_cost d > 0 \<and> \<not> can_afford (ev_at ev At_Afford) (rc_budget c) (dc_budget_cost d) (fe_category e)
               then try_strategies (ev_next ev) e ss
                      (c\<lparr>rc_private := p, rc_state := rollback_state_changes d s (rc_state c)\<rparr>)
               else commit_decision ev e s d (c\<lparr>rc_private := p\<rparr>))"

definition attempted_text :: "oneshot_guard \<Rightarrow> string" where
  "attempted_text g = str_or (py_join '', '' (guard_used_strategies g)) ''none''"

definition halt_with :: "recovery_env \<Rightarrow> recovery_decision \<Rightarrow> string \<Rightarrow> 'p coordinator
    \<Rightarrow> (recovery_decision \<times> 'p coordinator) outcome" where
  "halt_with ev d key c = Ret (d, record_audit ev d key c)"

definition evaluate ::
  "recovery_env \<Rightarrow> failure_envelope \<Rightarrow> 'p coordinator \<Rightarrow> (recovery_decision \<times> 'p coordinator) outcome" where
  "evaluate ev e c =
     (if fe_side_effect e \<noteq> SE_NONE
      then halt_with ev (side_effect_halt e [''all automatic recovery'']) ''<side_effect_gated>'' c
      else if deadline_exceeded (ev_at ev At_Start) (rc_budget c)
      then halt_with ev
             (make_terminal (rc_guard c) e
                [Txt ''Turn deadline exceeded ('', Flt (rb_turn_deadline (rc_budget c)),
                 Txt ''s). Strategies attempted: '', Txt (attempted_text (rc_guard c)), Txt ''.''])
             ''<deadline>'' c
      else if budget_remaining (rc_budget c) = 0
      then halt_with ev
             (make_terminal (rc_guard c) e
                [Txt ''Recovery budget exhausted ('', Num (rb_consumed (rc_budget c)), Txt ''/'',
                 Num (rb_total (rc_budget c)), Txt ''). Strategies attempted: '',
                 Txt (attempted_text (rc_guard c)), Txt ''. Last error: '', Txt (fe_category e), Txt ''/'',
                 Txt (fe_code e), Txt ''.''])
             ''<budget_exhausted>'' c
      else if fe_recoverability e = NON_RECOVERABLE
      then halt_with ev
             (make_terminal (rc_guard c) e
                [Txt ''Failure is non-recoverable: '', Txt (take 100 (fe_message e)), Txt ''. Category: '',
                 Txt (fe_category e), Txt '', code: '', Txt (fe_code e), Txt ''.''])
             ''<non_recoverable>'' c
      else try_strategies ev e (rc_strategies c) c)"

definition on_strategy_outcome :: "recovery_env \<Rightarrow> string \<Rightarrow> bool \<Rightarrow> 'p coordinator \<Rightarrow> 'p coordinator" where
  "on_strategy_outcome ev did success c =
     (let st = (if success
                then (rc_state c)\<lparr>rst_consecutive_failures := 0, rst_consecutive_api_errors := 0\<rparr>
                else (rc_state c)\<lparr>rst_consecutive_failures := rst_consecutive_failures (rc_state c) + 1\<rparr>)
      in c\<lparr>rc_state := st,
           rc_audit := rc_audit c @ [OutcomeEntry did success (ev_wall ev) (rst_consecutive_failures st)]\<rparr>)"

definition record_success :: "'p coordinator \<Rightarrow> 'p coordinator" where
  "record_success c =
     c\<lparr>rc_state := (rc_state c)\<lparr>rst_consecutive_failures := 0, rst_consecutive_api_errors := 0,
                                rst_last_error_category := []\<rparr>\<rparr>"

definition coordinator_new_turn :: "recovery_env \<Rightarrow> int \<Rightarrow> 'p coordinator \<Rightarrow> 'p coordinator" where
  "coordinator_new_turn ev turn c =
     c\<lparr>rc_guard := guard_new_turn (rc_guard c), rc_budget := budget_new_turn (ev_at ev At_Start) (rc_budget c),
       rc_state := (rc_state c)\<lparr>rst_compress_phase := 0, rst_consecutive_failures := 0,
                                rst_consecutive_api_errors := 0, rst_turn_id := turn\<rparr>\<rparr>"

section \<open>A turn\<close>

text \<open>The calls the agent loop makes within one turn, in order.\<close>

datatype turn_event =
    FailureEv recovery_env failure_envelope
  | OutcomeEv recovery_env string bool
  | SuccessEv

fun run_turn :: "turn_event list \<Rightarrow> 'p coordinator \<Rightarrow> (recovery_decision list \<times> 'p coordinator) outcome" where
  "run_turn [] c = Ret ([], c)"
| "run_turn (FailureEv ev e # evs) c =
     (case evaluate ev e c of
        Raise x \<Rightarrow> Raise x
      | Ret (d, c') \<Rightarrow> (case run_turn evs c' of Raise x \<Rightarrow> Raise x | Ret (ds, c'') \<Rightarrow> Ret (d # ds, c'')))"
| "run_turn (OutcomeEv ev did success # evs) c = run_turn evs (on_strategy_outcome ev did success c)"
| "run_turn (SuccessEv # evs) c = run_turn evs (record_success c)"

end
