(* ===== verification/Recovery_Strategies.thy ===== *)
theory Recovery_Strategies imports Recovery_Coordinator begin

text \<open>
  The nine built-in strategies of \<open>engine/recovery/strategies\<close>, each a record of its properties,
  its \<open>can_apply\<close> and its \<open>decide\<close>. Only \<open>CompressionTimeoutStrategy\<close> keeps attributes of its
  own (\<open>compression_private\<close>); \<open>ContextCompressStrategy\<close> works on the shared compress phase. The
  long dash of the placeholder text is written as its UTF-8 bytes.
\<close>

section \<open>Shared\<close>

definition retry_sem :: "bool \<Rightarrow> bool \<Rightarrow> backoff_config option \<Rightarrow> retry_semantics" where
  "retry_sem consumes resets bo =
     \<lparr>rs_consumes_retry_budget = consumes, rs_resets_retry_count = resets, rs_backoff = bo\<rparr>"

record compression_private =
  cp_timeouts :: int
  cp_cooldown_end :: real

definition new_private :: compression_private where
  "new_private = \<lparr>cp_timeouts = 0, cp_cooldown_end = 0\<rparr>"

section \<open>Context compression\<close>

definition phases :: "string list" where
  "phases = [''history_summarize'', ''multimodal_to_text'', ''disclosure_shrink'']"

definition context_compress :: "compression_private strategy" where
  "context_compress =
     \<lparr>st_key = ''context_compress'', st_priority = 10, st_repeatable = True,
      st_sources = [''llm''], st_categories = [''context_overflow'', ''payload_too_large''],
      st_can_apply = (\<lambda>ev e st b p. rst_compress_phase st < length phases),
      st_decide = (\<lambda>ev e st p.
        let i = rst_compress_phase st in
        if i < length phases
        then Ret ((decision e TRANSFORM_AND_RETRY
                     [Txt ''Context overflow: applying compression phase '', Txt (quoted (phases ! i)),
                      Txt '' ('', Num (int i + 1), Txt ''/'', Num (int (length phases)), Txt '')'']
                     ''context_compress'' (retry_sem False False None) 0)
                    \<lparr>dc_metadata := [(''phase'', PStr (phases ! i)), (''phase_index'', PInt (int i))]\<rparr>, p)
        else Raise ''IndexError: tuple index out of range'')\<rparr>"

section \<open>Compression timeouts\<close>

definition cooldown_tiers :: "(int \<times> real) list" where
  "cooldown_tiers = [(1, 60), (2, 300), (3, 900)]"

fun cooldown_from :: "(int \<times> real) list \<Rightarrow> int \<Rightarrow> real" where
  "cooldown_from [] n = snd (last cooldown_tiers)"
| "cooldown_from ((t, c) # ts) n = (if n \<le> t then c else cooldown_from ts n)"

definition cooldown_for_count :: "int \<Rightarrow> real" where
  "cooldown_for_count n = cooldown_from cooldown_tiers n"

definition max_retries_before_degradation :: int where
  "max_retries_before_degradation = 3"

definition summary_placeholder :: string where
  "summary_placeholder =
     ''[DETERMINISTIC SUMMARY '' @ [CHR 0xE2, CHR 0x80, CHR 0x94] @ '' compression unavailable]''"

definition compression_record_success :: "compression_private \<Rightarrow> compression_private" where
  "compression_record_success p = p\<lparr>cp_timeouts := 0, cp_cooldown_end := 0\<rparr>"

definition compression_can_apply ::
  "recovery_env \<Rightarrow> failure_envelope \<Rightarrow> recovery_state \<Rightarrow> recovery_budget \<Rightarrow> compression_private \<Rightarrow> bool" where
  "compression_can_apply ev e st b p =
     (if \<not> can_afford (ev_at ev At_Retry_Check) b 1 (fe_category e)
      then cp_timeouts p \<ge> max_retries_before_degradation
      else if cp_cooldown_end p > 0 \<and> ev_at ev At_Cooldown_Check < cp_cooldown_end p then False else True)"

definition compression_decide ::
  "recovery_env \<Rightarrow> failure_envelope \<Rightarrow> recovery_state \<Rightarrow> compression_private
   \<Rightarrow> (recovery_decision \<times> compression_private) outcome" where
  "compression_decide ev e st p =
     (let n = cp_timeouts p + 1; p' = p\<lparr>cp_timeouts := n\<rparr>; cooldown = cooldown_for_count n in
      if n \<ge> max_retries_before_degradation
      then Ret ((decision e SKIP_AND_CONTINUE
                   [Txt ''Compression timed out '', Num n,
                    Txt '' consecutive times '', Txt [CHR 0xE2, CHR 0x80, CHR 0x94],
                    Txt '' degrading to deterministic summary'']
                   ''compression_timeout'' (retry_sem False False None) 0)
                  \<lparr>dc_metadata := [(''consecutive_timeouts'', PInt n), (''degradation'', PBool True),
                                   (''placeholder'', PStr summary_placeholder)],
                   dc_transform := summary_placeholder\<rparr>, p')
      else Ret ((decision e RETRY_WITH_BACKOFF
                   [Txt ''Compression timeout #'', Num n, Txt '': cooldown '', Flt cooldown, Txt ''s before retry'']
                   ''compression_timeout''
                   (retry_sem True False
                      (Some \<lparr>bo_base_delay = cooldown, bo_max_delay = cooldown, bo_jitter_ratio = 0,
                             bo_algorithm = ''fixed''\<rparr>)) 1)
                  \<lparr>dc_metadata := [(''consecutive_timeouts'', PInt n), (''cooldown_seconds'', PFloat cooldown),
                                   (''degradation'', PBool False)]\<rparr>,
                p'\<lparr>cp_cooldown_end := ev_at ev At_Cooldown_Start + cooldown\<rparr>))"

definition compression_timeout :: "compression_private strategy" where
  "compression_timeout =
     \<lparr>st_key = ''compression_timeout'', st_priority = 12, st_repeatable = True,
      st_sources = [''llm'', ''system''],
      st_categories = [''compression_timeout'', ''context_compression_timeout''],
      st_can_apply = compression_can_apply, st_decide = compression_decide\<rparr>"

section \<open>Transformations\<close>

definition transform_once :: "failure_envelope \<Rightarrow> string \<Rightarrow> string \<Rightarrow> recovery_decision" where
  "transform_once e key reason =
     decision e TRANSFORM_AND_RETRY [Txt reason] key (retry_sem False False None) 0"

definition multimodal_strip :: "'p strategy" where
  "multimodal_strip =
     \<lparr>st_key = ''multimodal_strip'', st_priority = 15, st_repeatable = False,
      st_sources = [''llm''], st_categories = [''image_too_large''],
      st_can_apply = (\<lambda>ev e st b p. let msg = py_lower (fe_message e) in
        py_contains ''image'' msg \<or> py_contains ''large'' msg \<or> py_contains ''size'' msg
        \<or> fe_category e = ''image_too_large''),
      st_decide = (\<lambda>ev e st p.
        Ret (transform_once e ''multimodal_strip''
               ''Image too large: stripping multimodal content to text descriptions'', p))\<rparr>"

definition thinking_disable :: "'p strategy" where
  "thinking_disable =
     \<lparr>st_key = ''thinking_disable'', st_priority = 30, st_repeatable = False,
      st_sources = [''llm''], st_categories = [''format_error''],
      st_can_apply = (\<lambda>ev e st b p. True),
      st_decide = (\<lambda>ev e st p.
        Ret (transform_once e ''thinking_disable'' ''Disable thinking mode to resolve format conflict'', p))\<rparr>"

definition native_to_text :: "'p strategy" where
  "native_to_text =
     \<lparr>st_key = ''native_to_text'', st_priority = 35, st_repeatable = False,
      st_sources = [''llm''], st_categories = [''format_error''],
      st_can_apply = (\<lambda>ev e st b p. let msg = py_lower (fe_message e) in
        py_contains ''tool_call'' msg \<or> py_contains ''function_call'' msg \<or> py_contains ''native'' msg
        \<or> py_contains ''tool_use'' msg \<or> py_contains ''tools'' msg),
      st_decide = (\<lambda>ev e st p.
        Ret (transform_once e ''native_to_text'' ''Fall back from native tool calling to text mode'', p))\<rparr>"

definition tool_schema_expand :: "'p strategy" where
  "tool_schema_expand =
     \<lparr>st_key = ''tool_schema_expand'', st_priority = 40, st_repeatable = False,
      st_sources = [''tool''], st_categories = [''tool_unknown''],
      st_can_apply = (\<lambda>ev e st b p. fe_recoverability e = AUTO_RECOVER),
      st_decide = (\<lambda>ev e st p.
        Ret ((transform_once e ''tool_schema_expand'' ''Expand tool schema for unknown tool recovery'')
               \<lparr>dc_metadata := [(''tool_name'', PStr (fc_tool_name (fe_context e)))]\<rparr>, p))\<rparr>"

section \<open>Failover\<close>

definition failover_decision :: "failure_envelope \<Rightarrow> string \<Rightarrow> ftext \<Rightarrow> recovery_decision" where
  "failover_decision e key reason =
     (decision e FAILOVER reason key (retry_sem True True None) 1)
       \<lparr>dc_metadata := [(''trigger_category'', PStr (fe_category e))]\<rparr>"

definition provider_failover :: "'p strategy" where
  "provider_failover =
     \<lparr>st_key = ''provider_failover'', st_priority = 20, st_repeatable = False,
      st_sources = [''llm''],
      st_categories = [''billing'', ''auth_permanent'', ''overloaded'', ''model_not_found'', ''content_blocked''],
      st_can_apply = (\<lambda>ev e st b p. can_failover b),
      st_decide = (\<lambda>ev e st p.
        Ret (failover_decision e ''provider_failover''
               [Txt ''Provider failure ('', Txt (fe_category e), Txt ''): failing over to alternate provider/model''], p))\<rparr>"

definition credential_rotate :: "'p strategy" where
  "credential_rotate =
     \<lparr>st_key = ''credential_rotate'', st_priority = 25, st_repeatable = False,
      st_sources = [''llm''], st_categories = [''auth_error'', ''rate_limited'', ''billing''],
      st_can_apply = (\<lambda>ev e st b p.
        if \<not> can_rotate b then False
        else case ev_rotatable ev of Some r \<Rightarrow> r | None \<Rightarrow> True),
      st_decide = (\<lambda>ev e st p.
        Ret (failover_decision e ''credential_rotate''
               [Txt ''Credential issue ('', Txt (fe_category e), Txt ''): rotating to alternate credentials''], p))\<rparr>"

section \<open>Jittered retry\<close>

definition jitter_backoff :: "real \<Rightarrow> real \<Rightarrow> backoff_config" where
  "jitter_backoff base cap =
     \<lparr>bo_base_delay = base, bo_max_delay = cap, bo_jitter_ratio = 1 / 2, bo_algorithm = ''decorrelated_jitter''\<rparr>"

definition backoff_configs :: "backoff_config dict" where
  "backoff_configs =
     [(''rate_limited'', jitter_backoff 5 120), (''transient'', jitter_backoff 1 60),
      (''overloaded'', jitter_backoff 1 60), (''tool_timeout'', jitter_backoff 2 30)]"

definition default_backoff :: backoff_config where
  "default_backoff = jitter_backoff 1 60"

definition backoff_for :: "string \<Rightarrow> backoff_config" where
  "backoff_for category = (case map_of backoff_configs category of Some b \<Rightarrow> b | None \<Rightarrow> default_backoff)"

definition jittered_retry :: "'p strategy" where
  "jittered_retry =
     \<lparr>st_key = ''jittered_retry'', st_priority = 100, st_repeatable = True,
      st_sources = [''llm'', ''tool'', ''system''], st_categories = [],
      st_can_apply = (\<lambda>ev e st b p. fe_recoverability e = AUTO_RETRY),
      st_decide = (\<lambda>ev e st p.
        let bo = backoff_for (fe_category e) in
        Ret ((decision e RETRY_WITH_BACKOFF
                [Txt ''Transient failure ('', Txt (fe_category e), Txt ''): retrying with jittered backoff'']
                ''jittered_retry'' (retry_sem True False (Some bo)) 1)
               \<lparr>dc_metadata := [(''base_delay'', PFloat (bo_base_delay bo)),
                                (''category'', PStr (fe_category e)),
                                (''max_delay'', PFloat (bo_max_delay bo))]\<rparr>, p))\<rparr>"

definition default_strategies :: "compression_private strategy list" where
  "default_strategies =
     [context_compress, compression_timeout, multimodal_strip, provider_failover, credential_rotate,
      thinking_disable, native_to_text, tool_schema_expand, jittered_retry]"

lemmas strategy_defs =
  context_compress_def compression_timeout_def multimodal_strip_def provider_failover_def
  credential_rotate_def thinking_disable_def native_to_text_def tool_schema_expand_def jittered_retry_def

lemmas decision_defs = decision_def transform_once_def failover_decision_def

lemma default_strategies_keys:
  "map st_key default_strategies =
     [''context_compress'', ''compression_timeout'', ''multimodal_strip'', ''provider_failover'',
      ''credential_rotate'', ''thinking_disable'', ''native_to_text'', ''tool_schema_expand'', ''jittered_retry'']"
  by (simp add: default_strategies_def strategy_defs)

text \<open>The list is already in priority order, so sorting at registration keeps it.\<close>

lemma default_strategies_sorted: "sort_key st_priority default_strategies = default_strategies"
  by (simp add: default_strategies_def strategy_defs)

end
