(* ===== verification/Recovery_Coordinator_Props.thy ===== *)
theory Recovery_Coordinator_Props imports Recovery_Strategies begin

text \<open>
  The interface of the \<open>RecoveryStrategy\<close> protocol as a locale, the coordinator's properties
  proved from it, and its interpretation on the built-in strategies.
\<close>

section \<open>The protocol\<close>

definition acceptable :: "recovery_env \<Rightarrow> failure_envelope \<Rightarrow> 'p coordinator \<Rightarrow> 'p strategy \<Rightarrow> bool" where
  "acceptable ev e c s \<longleftrightarrow>
     eligible ev e c s
     \<and> (case st_decide s ev e (rc_state c) (rc_private c) of
          Ret (d, p) \<Rightarrow> dc_budget_cost d > 0 \<longrightarrow> can_afford (ev_at ev At_Afford) (rc_budget c) (dc_budget_cost d) (fe_category e)
        | Raise x \<Rightarrow> False)"

text \<open>The first acceptable strategy, with the readings of its turn.\<close>

fun first_acceptable ::
  "recovery_env \<Rightarrow> failure_envelope \<Rightarrow> 'p coordinator \<Rightarrow> 'p strategy list \<Rightarrow> (recovery_env \<times> 'p strategy) option" where
  "first_acceptable ev e c [] = None"
| "first_acceptable ev e c (s # ss) =
     (if acceptable ev e c s then Some (ev, s) else first_acceptable (ev_next ev) e c ss)"

definition choice :: "recovery_env \<Rightarrow> failure_envelope \<Rightarrow> 'p coordinator \<Rightarrow> 'p strategy list \<Rightarrow> recovery_decision" where
  "choice ev e c ss =
     (case first_acceptable ev e c ss of
        None \<Rightarrow> terminal_decision (rc_guard c) e
      | Some (ev', s) \<Rightarrow> (case st_decide s ev' e (rc_state c) (rc_private c) of
                     Ret (d, p) \<Rightarrow> d | Raise x \<Rightarrow> terminal_decision (rc_guard c) e))"

text \<open>
  The deadline passes after \<open>can_afford\<close> has let a decision through and before \<open>consume\<close> asks again: for
  one of the first \<open>k\<close> strategies the one reading is within the deadline of the turn and the other is not.
\<close>

definition deadline_slips :: "nat \<Rightarrow> recovery_env \<Rightarrow> recovery_budget \<Rightarrow> bool" where
  "deadline_slips k ev b \<longleftrightarrow>
     (\<exists>n < k. \<not> deadline_exceeded (ev_clock ev n At_Afford) b \<and> deadline_exceeded (ev_clock ev n At_Consume) b)"

definition consume_error :: string where
  "consume_error = ''ValueError: Budget exceeded''"

lemma slips_next: "deadline_slips k (ev_next ev) b \<Longrightarrow> deadline_slips (Suc k) ev b"
  by (auto simp: deadline_slips_def ev_next_def)

lemma slips_here:
  "\<not> deadline_exceeded (ev_at ev At_Afford) b \<Longrightarrow> deadline_exceeded (ev_at ev At_Consume) b \<Longrightarrow> deadline_slips (Suc k) ev b"
  by (auto simp: deadline_slips_def ev_at_def)

text \<open>A clock that stands still during a call, or one whose turns have no deadline, never slips.\<close>

lemma steady_clock: "ev_clock ev = (\<lambda>n r. t) \<Longrightarrow> \<not> deadline_slips k ev b"
  by (simp add: deadline_slips_def)

lemma no_deadline: "rb_turn_deadline b \<le> 0 \<Longrightarrow> \<not> deadline_slips k ev b"
  by (simp add: deadline_slips_def deadline_exceeded_def)

text \<open>What one call of \<open>evaluate\<close> may do to a coordinator, given the decision it returned.\<close>

definition turn_step ::
  "('p coordinator \<Rightarrow> nat) \<Rightarrow> 'p strategy list \<Rightarrow> failure_envelope \<Rightarrow> 'p coordinator
   \<Rightarrow> recovery_decision \<Rightarrow> 'p coordinator \<Rightarrow> bool" where
  "turn_step pot ss e c d c' \<longleftrightarrow>
     rc_strategies c' = rc_strategies c \<and> dc_envelope d = e
   \<and> pot c' + (if is_retry d then 1 else 0) \<le> pot c
   \<and> (budget_inv (rc_budget c) \<longrightarrow> budget_inv (rc_budget c'))
   \<and> rb_total (rc_budget c') = rb_total (rc_budget c)
   \<and> (\<forall>t. deadline_exceeded t (rc_budget c') = deadline_exceeded t (rc_budget c))
   \<and> (\<forall>k. guard_available (rc_guard c') k \<longrightarrow> guard_available (rc_guard c) k)
   \<and> (\<forall>s \<in> set ss. dc_strategy_key d = st_key s \<longrightarrow> \<not> st_repeatable s \<longrightarrow>
        guard_available (rc_guard c) (st_key s) \<and> \<not> guard_available (rc_guard c') (st_key s))"

lemma record_audit_fields [simp]:
  "rc_strategies (record_audit ev d k c) = rc_strategies c" "rc_budget (record_audit ev d k c) = rc_budget c"
  "rc_guard (record_audit ev d k c) = rc_guard c" "rc_state (record_audit ev d k c) = rc_state c"
  "rc_private (record_audit ev d k c) = rc_private c"
  by (simp_all add: record_audit_def)

lemma consume_type_fields [simp]:
  "rb_total (consume_type_budget d b) = rb_total b" "rb_consumed (consume_type_budget d b) = rb_consumed b"
  "rb_category_consumed (consume_type_budget d b) = rb_category_consumed b"
  "rb_max_retry_per_category (consume_type_budget d b) = rb_max_retry_per_category b"
  "deadline_exceeded t (consume_type_budget d b) = deadline_exceeded t b"
  by (auto simp: consume_type_budget_def consume_transform_def consume_failover_def consume_rotation_def
      deadline_exceeded_def split: recovery_action.splits)

lemma category_used_type [simp]: "category_used (consume_type_budget d b) k = category_used b k"
  by (simp add: category_used_def)

lemma budget_remaining_type [simp]: "budget_remaining (consume_type_budget d b) = budget_remaining b"
  by (simp add: budget_remaining_def)

lemma budget_inv_type [simp]: "budget_inv (consume_type_budget d b) = budget_inv b"
  by (simp add: budget_inv_def)

lemma update_state_phase [simp]: "rst_compress_phase (update_state e st) = rst_compress_phase st"
  by (simp add: update_state_def)

lemma terminal_fields [simp]:
  "dc_action (make_terminal g e r) = HALT_CLEAN" "dc_envelope (make_terminal g e r) = e"
  "dc_strategy_key (make_terminal g e r) = ''<terminal>''"
  "dc_interaction (make_terminal g e r) = Some (terminal_interaction g e r)"
  "dc_budget_cost (make_terminal g e r) = 0" "dc_reason (make_terminal g e r) = r"
  by (simp_all add: make_terminal_def decision_def)

lemma side_effect_halt_fields [simp]:
  "dc_action (side_effect_halt e b) = HALT_WITH_CHECKPOINT" "dc_envelope (side_effect_halt e b) = e"
  "dc_strategy_key (side_effect_halt e b) = ''<side_effect_gated>''"
  "dc_budget_cost (side_effect_halt e b) = 0"
  by (simp_all add: side_effect_halt_def decision_def Let_def)

lemma budget_consume_total:
  "budget_consume now cost k b = Some b' \<Longrightarrow> rb_total b' = rb_total b \<and> rb_consumed b' = rb_consumed b + cost \<and> rb_consumed b + cost \<le> rb_total b
    \<and> (\<forall>t. deadline_exceeded t b' = deadline_exceeded t b)"
  by (auto simp: budget_consume_def can_afford_def deadline_exceeded_def Let_def split: if_splits)

text \<open>\<open>consume\<close> answers after \<open>can_afford\<close> what \<open>can_afford\<close> would, but for the deadline.\<close>

lemma consume_after_afford:
  "can_afford t b cost k \<Longrightarrow> budget_consume t' cost k b = None \<longleftrightarrow> deadline_exceeded t' b"
  by (auto simp: can_afford_def budget_consume_def Let_def split: if_splits)

lemma afford_in_time: "can_afford t b cost k \<Longrightarrow> \<not> deadline_exceeded t b"
  by (auto simp: can_afford_def)

locale recovery_strategies =
  fixes strategies :: "'p strategy list" and free_keys :: "string list" and max_phase :: nat
  assumes keys_distinct: "distinct (map st_key strategies)"
    and keys_plain: "s \<in> set strategies \<Longrightarrow> st_key s \<notin> {''<terminal>'', ''<side_effect_gated>''}"
    and decide_returns: "s \<in> set strategies \<Longrightarrow> st_can_apply s ev e st b p \<Longrightarrow>
           \<exists>d p'. st_decide s ev e st p = Ret (d, p')"
    and decide_law: "s \<in> set strategies \<Longrightarrow> st_decide s ev e st p = Ret (d, p') \<Longrightarrow>
           0 \<le> dc_budget_cost d \<and> dc_strategy_key d = st_key s \<and> dc_envelope d = e"
    and phase_law: "s \<in> set strategies \<Longrightarrow> st_decide s ev e st p = Ret (d, p') \<Longrightarrow>
           st_key s = ''context_compress'' \<Longrightarrow>
           phase_index d = Some (rst_compress_phase st) \<and> rst_compress_phase st < max_phase"
    and retry_pays: "s \<in> set strategies \<Longrightarrow> st_decide s ev e st p = Ret (d, p') \<Longrightarrow> is_retry d \<Longrightarrow>
           0 < dc_budget_cost d \<or> \<not> st_repeatable s \<and> st_key s \<in> set free_keys
           \<or> st_key s = ''context_compress''"
    and private_frame: "s \<in> set strategies \<Longrightarrow> t \<in> set strategies \<Longrightarrow> st_key s \<noteq> st_key t \<Longrightarrow>
           st_decide s ev e st p = Ret (d, p') \<Longrightarrow>
           st_can_apply t ev' e st b p' = st_can_apply t ev' e st b p
           \<and> (\<forall>d1 p1. st_decide t ev' e st p = Ret (d1, p1) \<longrightarrow> (\<exists>p2. st_decide t ev' e st p' = Ret (d1, p2)))"
begin

definition potential :: "'p coordinator \<Rightarrow> nat" where
  "potential c =
     nat (budget_remaining (rc_budget c)) + length (filter (guard_available (rc_guard c)) free_keys)
     + (max_phase - rst_compress_phase (rc_state c))"

lemma rollback_same:
  assumes "s \<in> set strategies" "st_decide s ev e st p = Ret (d, p')"
  shows "rollback_state_changes d s st = st"
  using phase_law [OF assms] by (simp add: rollback_state_changes_def split: option.split)

lemma key_inj: "s \<in> set strategies \<Longrightarrow> t \<in> set strategies \<Longrightarrow> st_key s = st_key t \<Longrightarrow> s = t"
  using keys_distinct by (auto simp: distinct_map inj_on_def)

lemma free_shrinks:
  assumes "k \<in> set ks" "guard_available g k"
  shows "length (filter (guard_available (guard_mark now k g)) ks) < length (filter (guard_available g) ks)"
proof -
  have le: "length (filter (guard_available (guard_mark now k g)) js) \<le> length (filter (guard_available g) js)" for js
    by (induction js) auto
  show ?thesis using assms(1)
  proof (induction ks)
    case (Cons j js)
    show ?case
    proof (cases "j = k")
      case True
      have "length (filter (guard_available (guard_mark now k g)) (j # js)) = length (filter (guard_available (guard_mark now k g)) js)"
        using True by simp
      also have "\<dots> < Suc (length (filter (guard_available g) js))"
        using le [of js] by (rule le_imp_less_Suc)
      also have "\<dots> = length (filter (guard_available g) (j # js))"
        using True assms(2) by simp
      finally show ?thesis .
    next
      case False
      then show ?thesis using Cons by auto
    qed
  qed simp
qed

lemma commit_step:
  assumes s: "s \<in> set strategies" and el: "eligible ev e c s"
    and dec: "st_decide s ev e (rc_state c) q = Ret (d, p)"
    and ok: "(if dc_budget_cost d > 0 then budget_consume (ev_at ev At_Consume) (dc_budget_cost d) (fe_category e) (rc_budget c)
              else Some (rc_budget c)) = Some b"
  shows "\<exists>c'. commit_decision ev e s d (c\<lparr>rc_private := p\<rparr>) = Ret (d, c') \<and> turn_step potential strategies e c d c'"
proof -
  let ?cost = "dc_budget_cost d"
  note b = ok
  let ?g = "if st_repeatable s then rc_guard c else guard_mark (ev_wall ev) (st_key s) (rc_guard c)"
  let ?st = "update_state e (commit_state_changes d s (rc_state c))"
  let ?c = "record_audit ev d (st_key s) (c\<lparr>rc_private := p, rc_budget := consume_type_budget d b, rc_guard := ?g, rc_state := ?st\<rparr>)"
  have com: "commit_decision ev e s d (c\<lparr>rc_private := p\<rparr>) = Ret (d, ?c)"
    using b by (auto simp: commit_decision_def)
  have law: "0 \<le> ?cost" "dc_strategy_key d = st_key s" "dc_envelope d = e"
    using decide_law [OF s dec] by auto
  have bud: "rb_total b = rb_total (rc_budget c)" "nat (budget_remaining b) \<le> nat (budget_remaining (rc_budget c))"
    "?cost > 0 \<Longrightarrow> nat (budget_remaining b) < nat (budget_remaining (rc_budget c))"
    "budget_inv (rc_budget c) \<Longrightarrow> budget_inv b" "\<And>t. deadline_exceeded t b = deadline_exceeded t (rc_budget c)"
    using b budget_consume_total [of "ev_at ev At_Consume" ?cost "fe_category e" "rc_budget c" b]
      budget_inv_consume(1) [of "rc_budget c" ?cost "ev_at ev At_Consume" "fe_category e" b]
    by (auto simp: budget_remaining_def split: if_splits)
  have free: "length (filter (guard_available ?g) free_keys) \<le> length (filter (guard_available (rc_guard c)) free_keys)"
    by (induction free_keys) auto
  have free1: "length (filter (guard_available ?g) free_keys) < length (filter (guard_available (rc_guard c)) free_keys)"
    if "\<not> st_repeatable s" "st_key s \<in> set free_keys"
    using that el free_shrinks [of "st_key s" free_keys "rc_guard c" "ev_wall ev"] by (auto simp: eligible_def)
  have phase: "max_phase - rst_compress_phase ?st \<le> max_phase - rst_compress_phase (rc_state c)"
    and phase1: "st_key s = ''context_compress'' \<Longrightarrow>
      max_phase - rst_compress_phase ?st < max_phase - rst_compress_phase (rc_state c)"
    using phase_law [OF s dec] by (auto simp: commit_state_changes_def)
  have pot_eq: "potential ?c = nat (budget_remaining b) + length (filter (guard_available ?g) free_keys)
      + (max_phase - rst_compress_phase ?st)"
    by (simp add: potential_def)
  have pot: "potential ?c + (if is_retry d then 1 else 0) \<le> potential c"
  proof (cases "is_retry d")
    case True
    consider "?cost > 0" | "\<not> st_repeatable s" "st_key s \<in> set free_keys" | "st_key s = ''context_compress''"
      using retry_pays [OF s dec True] by blast
    then have "potential ?c + 1 \<le> potential c"
    proof cases
      case 1
      show ?thesis unfolding pot_eq potential_def [of c] using bud(3) [OF 1] free phase by linarith
    next
      case 2
      show ?thesis unfolding pot_eq potential_def [of c] using free1 [OF 2] bud(2) phase by linarith
    next
      case 3
      show ?thesis unfolding pot_eq potential_def [of c] using phase1 [OF 3] bud(2) free by linarith
    qed
    then show ?thesis using True by simp
  next
    case False
    have "potential ?c \<le> potential c"
      unfolding pot_eq potential_def [of c] using bud(2) free phase by linarith
    then show ?thesis using False by simp
  qed
  have once: "guard_available (rc_guard c) (st_key t) \<and> \<not> guard_available (rc_guard ?c) (st_key t)"
    if t: "t \<in> set strategies" "dc_strategy_key d = st_key t" "\<not> st_repeatable t" for t
  proof -
    have "t = s" using key_inj [OF t(1) s] t(2) law(2) by simp
    then show ?thesis using t(3) el by (simp add: eligible_def)
  qed
  have "turn_step potential strategies e c d ?c"
    unfolding turn_step_def using law bud pot once by auto
  then show ?thesis using com by blast
qed

lemma terminal_step:
  assumes "d = make_terminal g e r \<or> d = side_effect_halt e x"
  shows "turn_step potential strategies e c d (record_audit ev d k c)"
proof -
  have "\<forall>s \<in> set strategies. dc_strategy_key d \<noteq> st_key s"
    using assms keys_plain by fastforce
  then show ?thesis using assms by (auto simp: turn_step_def potential_def is_retry_def)
qed

lemma eligible_frame:
  assumes "s \<in> set strategies" "t \<in> set strategies" "st_key s \<noteq> st_key t"
    "st_decide s ev e (rc_state c) (rc_private c) = Ret (d, p)"
  shows "eligible ev' e (c\<lparr>rc_private := p\<rparr>) t = eligible ev' e c t"
  using private_frame [OF assms(1-4)] by (simp add: eligible_def)

lemma acceptable_frame:
  assumes "s \<in> set strategies" "t \<in> set strategies" "st_key s \<noteq> st_key t"
    "st_decide s ev e (rc_state c) (rc_private c) = Ret (d, p)"
  shows "acceptable ev' e (c\<lparr>rc_private := p\<rparr>) t = acceptable ev' e c t"
proof (cases "eligible ev' e c t")
  case True
  then obtain d1 p1 where d1: "st_decide t ev' e (rc_state c) (rc_private c) = Ret (d1, p1)"
    using decide_returns [OF assms(2)] unfolding eligible_def by blast
  then obtain p2 where "st_decide t ev' e (rc_state c) p = Ret (d1, p2)"
    using private_frame [OF assms] by blast
  then show ?thesis using d1 eligible_frame [OF assms] by (simp add: acceptable_def)
next
  case False
  then show ?thesis using eligible_frame [OF assms] by (simp add: acceptable_def)
qed

lemma choice_frame:
  assumes "s \<in> set strategies" "set ss \<subseteq> set strategies" "st_key s \<notin> st_key ` set ss"
    "st_decide s ev e (rc_state c) (rc_private c) = Ret (d, p)"
  shows "choice ev' e (c\<lparr>rc_private := p\<rparr>) ss = choice ev' e c ss"
  using assms(2,3)
proof (induction ss arbitrary: ev')
  case Nil
  then show ?case by (simp add: choice_def)
next
  case (Cons t ts)
  have t: "t \<in> set strategies" "st_key s \<noteq> st_key t" using Cons.prems by auto
  have acc: "acceptable ev' e (c\<lparr>rc_private := p\<rparr>) t = acceptable ev' e c t"
    by (rule acceptable_frame [OF assms(1) t assms(4)])
  show ?case
  proof (cases "acceptable ev' e c t")
    case True
    then obtain d1 p1 where d1: "st_decide t ev' e (rc_state c) (rc_private c) = Ret (d1, p1)"
      by (auto simp: acceptable_def split: outcome.splits)
    then obtain p2 where "st_decide t ev' e (rc_state c) p = Ret (d1, p2)"
      using private_frame [OF assms(1) t assms(4)] by blast
    then show ?thesis using True acc d1 by (simp add: choice_def)
  next
    case False
    then show ?thesis using acc Cons by (simp add: choice_def)
  qed
qed

text \<open>What a call of \<open>evaluate\<close> or of its loop may come to: a decision, or \<open>consume\<close> raising after the
  deadline has slipped by.\<close>

definition step_or_slip ::
  "nat \<Rightarrow> recovery_env \<Rightarrow> failure_envelope \<Rightarrow> 'p coordinator \<Rightarrow> (recovery_decision \<times> 'p coordinator) outcome \<Rightarrow> bool" where
  "step_or_slip k ev e c r \<longleftrightarrow>
     (case r of
        Ret (d, c') \<Rightarrow> turn_step potential strategies e c d c'
      | Raise x \<Rightarrow> x = consume_error \<and> deadline_slips k ev (rc_budget c))"

lemma try_step:
  assumes "set ss \<subseteq> set strategies" "distinct (map st_key ss)"
  shows "step_or_slip (length ss) ev e c (try_strategies ev e ss c)
    \<and> (\<forall>d c'. try_strategies ev e ss c = Ret (d, c') \<longrightarrow> d = choice ev e c ss)"
  using assms
proof (induction ss arbitrary: c ev)
  case Nil
  then show ?case
    by (auto simp: step_or_slip_def choice_def Let_def terminal_decision_def intro!: terminal_step)
next
  case (Cons s ss)
  have s: "s \<in> set strategies" and ss: "set ss \<subseteq> set strategies" "distinct (map st_key ss)" "st_key s \<notin> st_key ` set ss"
    using Cons.prems by auto
  show ?case
  proof (cases "eligible ev e c s")
    case False
    then have "choice ev e c (s # ss) = choice (ev_next ev) e c ss" by (simp add: choice_def acceptable_def)
    then show ?thesis using Cons.IH [OF ss(1,2), of "ev_next ev" c] False
      by (auto simp: step_or_slip_def slips_next split: outcome.splits)
  next
    case True
    then obtain d p where d: "st_decide s ev e (rc_state c) (rc_private c) = Ret (d, p)"
      using decide_returns [OF s] unfolding eligible_def by blast
    let ?cost = "dc_budget_cost d"
    let ?rej = "?cost > 0 \<and> \<not> can_afford (ev_at ev At_Afford) (rc_budget c) ?cost (fe_category e)"
    show ?thesis
    proof (cases ?rej)
      case rej: True
      let ?c = "c\<lparr>rc_private := p\<rparr>"
      have same: "c\<lparr>rc_private := p, rc_state := rollback_state_changes d s (rc_state c)\<rparr> = ?c"
        using rollback_same [OF s d] by simp
      have ch: "choice ev e c (s # ss) = choice (ev_next ev) e ?c ss"
        using choice_frame [OF s ss(1,3) d, of "ev_next ev"] d rej by (simp add: choice_def acceptable_def)
      have "try_strategies ev e (s # ss) c = try_strategies (ev_next ev) e ss ?c"
        using True d rej same by simp
      then show ?thesis using Cons.IH [OF ss(1,2), of "ev_next ev" ?c] ch
        by (auto simp: step_or_slip_def turn_step_def potential_def slips_next split: outcome.splits)
    next
      case acc: False
      have ch: "choice ev e c (s # ss) = d"
        using True d acc by (simp add: choice_def acceptable_def)
      have try_eq: "try_strategies ev e (s # ss) c = commit_decision ev e s d (c\<lparr>rc_private := p\<rparr>)"
        using True d acc by auto
      let ?paid = "if ?cost > 0 then budget_consume (ev_at ev At_Consume) ?cost (fe_category e) (rc_budget c)
        else Some (rc_budget c)"
      show ?thesis
      proof (cases ?paid)
        case None
        then have slip: "?cost > 0" "deadline_slips (Suc (length ss)) ev (rc_budget c)"
          using acc consume_after_afford afford_in_time slips_here by (metis option.distinct(1))+
        have "commit_decision ev e s d (c\<lparr>rc_private := p\<rparr>) = Raise consume_error"
          using None slip(1) by (simp add: commit_decision_def consume_error_def)
        then show ?thesis using try_eq slip(2) by (simp add: step_or_slip_def)
      next
        case (Some b)
        obtain c' where "commit_decision ev e s d (c\<lparr>rc_private := p\<rparr>) = Ret (d, c')"
          "turn_step potential strategies e c d c'"
          using commit_step [OF s True d Some] by blast
        then show ?thesis using try_eq ch by (simp add: step_or_slip_def)
      qed
    qed
  qed
qed

lemma halt_step:
  assumes "d = make_terminal (rc_guard c) e r \<or> d = side_effect_halt e x"
  shows "step_or_slip n ev e c (halt_with ev d k c)"
  using terminal_step [OF assms] by (simp add: step_or_slip_def halt_with_def)

lemma evaluate_step:
  assumes "rc_strategies c = strategies"
  shows "step_or_slip (length strategies) ev e c (evaluate ev e c)"
proof -
  have "step_or_slip (length strategies) ev e c (try_strategies ev e strategies c)"
    using try_step [of strategies ev e c] keys_distinct by simp
  then show ?thesis
    unfolding evaluate_def assms using halt_step by presburger
qed

lemma outcome_potential [simp]:
  "potential (on_strategy_outcome ev did b c) = potential c" "potential (record_success c) = potential c"
  by (simp_all add: potential_def on_strategy_outcome_def record_success_def Let_def)

lemma event_fields [simp]:
  "rc_strategies (on_strategy_outcome ev did b c) = rc_strategies c" "rc_strategies (record_success c) = rc_strategies c"
  "rc_guard (on_strategy_outcome ev did b c) = rc_guard c" "rc_guard (record_success c) = rc_guard c"
  "rc_budget (on_strategy_outcome ev did b c) = rc_budget c" "rc_budget (record_success c) = rc_budget c"
  by (simp_all add: on_strategy_outcome_def record_success_def Let_def)

text \<open>What a turn may come to, from a coordinator: its decisions, or a call whose deadline slips by.\<close>

definition turn_ok :: "turn_event list \<Rightarrow> 'p coordinator \<Rightarrow> (recovery_decision list \<times> 'p coordinator) outcome \<Rightarrow> bool" where
  "turn_ok evs c r \<longleftrightarrow>
     (case r of
        Ret (ds, c') \<Rightarrow>
          potential c' + length (filter is_retry ds) \<le> potential c
          \<and> (budget_inv (rc_budget c) \<longrightarrow> budget_inv (rc_budget c'))
          \<and> (\<forall>s \<in> set strategies. \<not> st_repeatable s \<longrightarrow>
               length (filter (\<lambda>d. dc_strategy_key d = st_key s) ds) \<le> (if guard_available (rc_guard c) (st_key s) then 1 else 0))
      | Raise x \<Rightarrow> x = consume_error
          \<and> (\<exists>ev e. FailureEv ev e \<in> set evs \<and> deadline_slips (length strategies) ev (rc_budget c)))"

lemma slips_same_deadline:
  "\<forall>t. deadline_exceeded t b' = deadline_exceeded t b \<Longrightarrow> deadline_slips k ev b' = deadline_slips k ev b"
  by (simp add: deadline_slips_def)

lemma turn_ok_failure:
  assumes st: "turn_step potential strategies e c d c1" and rest: "turn_ok evs c1 (run_turn evs c1)"
    and ev: "evaluate ev e c = Ret (d, c1)"
  shows "turn_ok (FailureEv ev e # evs) c (run_turn (FailureEv ev e # evs) c)"
proof (cases "run_turn evs c1")
  case (Raise x)
  have "deadline_slips k ev' (rc_budget c1) = deadline_slips k ev' (rc_budget c)" for k ev'
    using st slips_same_deadline unfolding turn_step_def by blast
  then show ?thesis using rest Raise ev by (auto simp: turn_ok_def)
next
  case (Ret r)
  obtain ds c2 where r: "r = (ds, c2)" by (cases r)
  have p2: "potential c2 + length (filter is_retry ds) \<le> potential c1"
    and b2: "budget_inv (rc_budget c1) \<longrightarrow> budget_inv (rc_budget c2)"
    and o2: "\<And>s. s \<in> set strategies \<Longrightarrow> \<not> st_repeatable s \<Longrightarrow>
       length (filter (\<lambda>d. dc_strategy_key d = st_key s) ds) \<le> (if guard_available (rc_guard c1) (st_key s) then 1 else 0)"
    using rest Ret r by (simp_all add: turn_ok_def)
  have "potential c2 + length (filter is_retry (d # ds)) \<le> potential c"
    using p2 st by (auto simp: turn_step_def split: if_splits)
  moreover have "length (filter (\<lambda>d. dc_strategy_key d = st_key s) (d # ds))
      \<le> (if guard_available (rc_guard c) (st_key s) then 1 else 0)"
    if s: "s \<in> set strategies" "\<not> st_repeatable s" for s
  proof -
    have mono: "guard_available (rc_guard c1) (st_key s) \<Longrightarrow> guard_available (rc_guard c) (st_key s)"
      and own: "dc_strategy_key d = st_key s \<Longrightarrow>
        guard_available (rc_guard c) (st_key s) \<and> \<not> guard_available (rc_guard c1) (st_key s)"
      using st s by (auto simp: turn_step_def)
    show ?thesis using mono own o2 [OF s] by (auto split: if_splits)
  qed
  moreover have "budget_inv (rc_budget c) \<longrightarrow> budget_inv (rc_budget c2)"
    using b2 st by (auto simp: turn_step_def)
  ultimately show ?thesis using ev Ret r by (simp add: turn_ok_def)
qed

lemma turn_facts:
  assumes "rc_strategies c = strategies"
  shows "turn_ok evs c (run_turn evs c)"
  using assms
proof (induction evs arbitrary: c)
  case Nil
  then show ?case by (simp add: turn_ok_def)
next
  case (Cons x evs)
  show ?case
  proof (cases x)
    case (FailureEv ev e)
    show ?thesis
    proof (cases "evaluate ev e c")
      case (Raise y)
      then show ?thesis using evaluate_step [OF Cons.prems, of ev e] FailureEv
        by (auto simp: turn_ok_def step_or_slip_def)
    next
      case (Ret r)
      obtain d c1 where r: "r = (d, c1)" by (cases r)
      then have st: "turn_step potential strategies e c d c1"
        using evaluate_step [OF Cons.prems, of ev e] Ret by (simp add: step_or_slip_def)
      have "rc_strategies c1 = strategies" using st Cons.prems by (simp add: turn_step_def)
      then show ?thesis using turn_ok_failure [OF st Cons.IH] FailureEv Ret r by simp
    qed
  next
    case (OutcomeEv ev did b)
    then show ?thesis using Cons.IH [of "on_strategy_outcome ev did b c"] Cons.prems
      by (auto simp: turn_ok_def split: outcome.splits)
  next
    case SuccessEv
    then show ?thesis using Cons.IH [of "record_success c"] Cons.prems
      by (auto simp: turn_ok_def split: outcome.splits)
  qed
qed

end

end
