(* ===== verification/Recovery_Turns.thy ===== *)
theory Recovery_Turns imports Recovery_Coordinator_Props begin

text \<open>
  The built-in strategies satisfy the protocol, and what follows for the coordinator the engine
  builds: no automatic replay over a side effect, the first acceptable strategy wins, the number
  of automatic recoveries of a turn is bounded, one-shot strategies fire once.
\<close>

section \<open>The built-in strategies\<close>

definition free_transforms :: "string list" where
  "free_transforms = [''multimodal_strip'', ''thinking_disable'', ''native_to_text'', ''tool_schema_expand'']"

lemma compression_decide_cases:
  assumes "compression_decide ev e st p = Ret (d, p')"
  shows "dc_strategy_key d = ''compression_timeout'' \<and> dc_envelope d = e
       \<and> (dc_action d = SKIP_AND_CONTINUE \<and> dc_budget_cost d = 0
          \<or> dc_action d = RETRY_WITH_BACKOFF \<and> dc_budget_cost d = 1)"
  using assms by (auto simp: compression_decide_def decision_def Let_def split: if_splits)

lemma compression_decide_returns: "\<exists>d p'. compression_decide ev e st p = Ret (d, p')"
  by (auto simp: compression_decide_def Let_def)

lemma in_default:
  "s \<in> set default_strategies \<longleftrightarrow>
     s = context_compress \<or> s = compression_timeout \<or> s = multimodal_strip \<or> s = provider_failover
     \<or> s = credential_rotate \<or> s = thinking_disable \<or> s = native_to_text \<or> s = tool_schema_expand
     \<or> s = jittered_retry"
  by (simp add: default_strategies_def)

lemma default_returns:
  assumes "s \<in> set default_strategies" "st_can_apply s ev e st b p"
  shows "\<exists>d p'. st_decide s ev e st p = Ret (d, p')"
  using assms unfolding in_default
  by (elim disjE) (simp_all add: strategy_defs compression_decide_returns Let_def)

lemma default_law:
  assumes "s \<in> set default_strategies" "st_decide s ev e st p = Ret (d, p')"
  shows "0 \<le> dc_budget_cost d \<and> dc_strategy_key d = st_key s \<and> dc_envelope d = e"
  using assms unfolding in_default
  by (elim disjE)
    (auto simp: strategy_defs decision_defs Let_def split: if_splits dest!: compression_decide_cases)

lemma default_phase:
  assumes "s \<in> set default_strategies" "st_decide s ev e st p = Ret (d, p')" "st_key s = ''context_compress''"
  shows "phase_index d = Some (rst_compress_phase st) \<and> rst_compress_phase st < 3"
  using assms unfolding in_default
  by (elim disjE)
    (auto simp: strategy_defs decision_defs phases_def phase_index_def Let_def split: if_splits)

lemma default_pays:
  assumes "s \<in> set default_strategies" "st_decide s ev e st p = Ret (d, p')" "is_retry d"
  shows "0 < dc_budget_cost d \<or> \<not> st_repeatable s \<and> st_key s \<in> set free_transforms
         \<or> st_key s = ''context_compress''"
  using assms unfolding in_default
  by (elim disjE)
    (auto simp: strategy_defs decision_defs free_transforms_def is_retry_def Let_def split: if_splits
      dest!: compression_decide_cases)

lemma default_frame:
  assumes "s \<in> set default_strategies" "t \<in> set default_strategies" "st_key s \<noteq> st_key t"
    "st_decide s ev e st p = Ret (d, p')"
  shows "st_can_apply t ev' e st b p' = st_can_apply t ev' e st b p
     \<and> (\<forall>d1 p1. st_decide t ev' e st p = Ret (d1, p1) \<longrightarrow> (\<exists>p2. st_decide t ev' e st p' = Ret (d1, p2)))"
proof (cases "t = compression_timeout")
  case True
  then have "p' = p"
    using assms unfolding in_default by (elim disjE) (auto simp: strategy_defs Let_def split: if_splits)
  then show ?thesis by auto
next
  case False
  then show ?thesis
    using assms(2) unfolding in_default
    by (elim disjE) (auto simp: strategy_defs Let_def split: if_splits)
qed

interpretation builtin: recovery_strategies default_strategies free_transforms 3
proof unfold_locales
  show "distinct (map st_key default_strategies)"
    by (simp add: default_strategies_keys)
  show "st_key s \<notin> {''<terminal>'', ''<side_effect_gated>''}" if "s \<in> set default_strategies" for s
    using that unfolding in_default by (elim disjE) (simp_all add: strategy_defs)
qed (fact default_returns default_law default_phase default_pays default_frame)+

section \<open>Side effects\<close>

lemma side_effect_facts:
  assumes "fe_side_effect e \<noteq> SE_NONE"
  shows "evaluate ev e c =
    Ret (side_effect_halt e [''all automatic recovery''],
         record_audit ev (side_effect_halt e [''all automatic recovery'']) ''<side_effect_gated>'' c)"
  using assms by (simp add: evaluate_def halt_with_def)

text \<open>
  C12. A failure whose side effect may have landed (committed, partial or unknown) is never
  replayed: whatever strategies, budget and deadline, \<open>evaluate\<close> answers
  \<open>HALT_WITH_CHECKPOINT\<close> at cost 0 with a persistent request the user can resume by the
  envelope's id, and it changes nothing but the audit log. Conversely every automatic retry,
  transformation or failover of any coordinator answers a failure without side effects.
\<close>

theorem side_effect_never_replayed:
  "(fe_side_effect e \<noteq> SE_NONE \<longrightarrow>
     (\<exists>d c' r. evaluate ev e c = Ret (d, c') \<and> dc_action d = HALT_WITH_CHECKPOINT \<and> dc_budget_cost d = 0
        \<and> dc_interaction d = Some r \<and> ir_resumption_key r = fe_id e \<and> ir_timeout r = TB_PERSIST
        \<and> rc_budget c' = rc_budget c \<and> rc_guard c' = rc_guard c \<and> rc_state c' = rc_state c
        \<and> rc_private c' = rc_private c \<and> length (rc_audit c') = length (rc_audit c) + 1))
   \<and> (\<forall>d c'. evaluate ev e c = Ret (d, c') \<longrightarrow> is_retry d \<longrightarrow> fe_side_effect e = SE_NONE)"
proof (cases "fe_side_effect e = SE_NONE")
  case False
  then show ?thesis
    using side_effect_facts [OF False, of ev c]
    by (auto simp: record_audit_def side_effect_halt_def Let_def decision_def is_retry_def)
qed simp

definition turn_envelope :: "string \<Rightarrow> recoverability \<Rightarrow> side_effect_state \<Rightarrow> failure_envelope" where
  "turn_envelope category rec se =
     \<lparr>fe_id = ''env-1'', fe_source = SRC_LLM, fe_category = category, fe_class = ''api'', fe_code = ''503'',
      fe_message = ''service unavailable'', fe_recoverability = rec, fe_side_effect = se,
      fe_context = \<lparr>fc_tool_name = ''file_write'', fc_arguments = []\<rparr>, fe_timestamp = 0, fe_hint = None\<rparr>"

definition turn_env :: recovery_env where
  "turn_env = \<lparr>ev_clock = (\<lambda>n r. 5), ev_wall = 5, ev_rotatable = Some True\<rparr>"

definition sample_coordinator :: "compression_private coordinator" where
  "sample_coordinator =
     coordinator_new_turn turn_env 1 (new_coordinator default_strategies default_recovery_budget new_private)"

text \<open>The fields a turn starts with.\<close>

lemma new_turn_fields [simp]:
  "rc_strategies (coordinator_new_turn ev n c) = rc_strategies c"
  "rst_compress_phase (rc_state (coordinator_new_turn ev n c)) = 0"
  "guard_available (rc_guard (coordinator_new_turn ev n c)) k"
  "rb_total (rc_budget (coordinator_new_turn ev n c)) = rb_total (rc_budget c)"
  "rb_consumed (rc_budget (coordinator_new_turn ev n c)) = 0"
  "budget_inv (rc_budget (coordinator_new_turn ev n c))"
  by (simp_all add: coordinator_new_turn_def guard_new_turn_def guard_available_def budget_inv_new_turn)
    (simp_all add: budget_new_turn_def budget_start_deadline_def)

lemma rc_new_coordinator [simp]: "rc_strategies (new_coordinator ss b p) = sort_key st_priority ss"
  by (simp add: new_coordinator_def)

lemma sample_strategies: "rc_strategies sample_coordinator = default_strategies"
  by (simp add: sample_coordinator_def default_strategies_sorted)

section \<open>Bounded recovery\<close>

theorem side_effect_never_replayed_witness:
  "\<exists>d c'. evaluate turn_env (turn_envelope ''transient'' AUTO_RETRY SE_UNKNOWN) sample_coordinator = Ret (d, c')
      \<and> dc_action d = HALT_WITH_CHECKPOINT"
  using side_effect_never_replayed
    [of "turn_envelope ''transient'' AUTO_RETRY SE_UNKNOWN" turn_env sample_coordinator]
  by (auto simp: turn_envelope_def)

lemma deadline_new_turn:
  "deadline_exceeded t (rc_budget (coordinator_new_turn ev n c)) \<longleftrightarrow>
     ev_at ev At_Start \<noteq> 0 \<and> 0 < rb_turn_deadline (rc_budget c)
     \<and> t - ev_at ev At_Start > rb_turn_deadline (rc_budget c)"
  by (auto simp: coordinator_new_turn_def budget_new_turn_def budget_start_deadline_def deadline_exceeded_def)

lemma nine_strategies: "length default_strategies = 9"
  by (simp add: default_strategies_def)

lemma new_turn_potential:
  assumes "rc_strategies c = default_strategies"
  shows "builtin.potential (coordinator_new_turn ev n c) = nat (rb_total (rc_budget c)) + 7"
proof -
  have "length (filter (guard_available (rc_guard (coordinator_new_turn ev n c))) free_transforms) = 4"
    by (simp add: free_transforms_def)
  then show ?thesis by (simp add: builtin.potential_def budget_remaining_def)
qed

text \<open>
  The deadline of a turn that begins at \<open>t0\<close> passes between the two readings the coordinator takes for
  one decision, the one of \<open>can_afford\<close> and the one of \<open>consume\<close>.
\<close>

definition deadline_between :: "real \<Rightarrow> real \<Rightarrow> recovery_env \<Rightarrow> bool" where
  "deadline_between t0 limit ev \<longleftrightarrow>
     t0 \<noteq> 0 \<and> 0 < limit \<and> (\<exists>n < 9. ev_clock ev n At_Afford \<le> t0 + limit \<and> t0 + limit < ev_clock ev n At_Consume)"

lemma slips_between:
  "deadline_slips 9 ev' (rc_budget (coordinator_new_turn ev n c)) \<longleftrightarrow>
     deadline_between (ev_at ev At_Start) (rb_turn_deadline (rc_budget c)) ev'"
  by (auto simp: deadline_slips_def deadline_between_def deadline_new_turn not_less algebra_simps) fastforce?

text \<open>
  C13. Recovery within a turn is bounded. After \<open>new_turn\<close>, for the built-in strategies, any budget, any
  readings of the clock and any sequence of failures, outcome reports and successes: when the turn's
  calls return, at most \<open>total_recovery_actions + 7\<close> of the decisions are automatic retries,
  transformations or failovers (the budgeted ones, four free one-shot transformations, three compression
  phases), each one-shot strategy decides at most once, and the budget's accounting holds at the end.
  A call raises in one case only: the deadline of the turn passes between \<open>can_afford\<close> and the second
  check inside \<open>consume\<close>, for one of the nine strategies of some failure; the error is then the
  \<open>ValueError\<close> of \<open>consume\<close>. So no call raises in a turn without a deadline, nor when the clock does not
  cross it at that place.
\<close>

theorem turn_recovery_bounded:
  assumes "rc_strategies c = default_strategies"
  shows "case run_turn evs (coordinator_new_turn ev n c) of
      Ret (ds, c') \<Rightarrow>
        length (filter is_retry ds) \<le> nat (rb_total (rc_budget c)) + 7
        \<and> (\<forall>s \<in> set default_strategies. \<not> st_repeatable s \<longrightarrow>
             length (filter (\<lambda>d. dc_strategy_key d = st_key s) ds) \<le> 1)
        \<and> budget_inv (rc_budget c')
    | Raise x \<Rightarrow>
        x = consume_error
        \<and> (\<exists>ev' e. FailureEv ev' e \<in> set evs
             \<and> deadline_between (ev_at ev At_Start) (rb_turn_deadline (rc_budget c)) ev')"
proof -
  have "builtin.turn_ok evs (coordinator_new_turn ev n c) (run_turn evs (coordinator_new_turn ev n c))"
    by (rule builtin.turn_facts) (simp add: assms)
  then show ?thesis
    by (auto simp: builtin.turn_ok_def new_turn_potential [OF assms] nine_strategies slips_between split: outcome.splits)
qed

definition two_failures :: "turn_event list" where
  "two_failures = [FailureEv turn_env (turn_envelope ''transient'' AUTO_RETRY SE_NONE), SuccessEv,
     FailureEv turn_env (turn_envelope ''overloaded'' AUTO_RETRY SE_NONE)]"

theorem turn_recovery_bounded_witness:
  "\<exists>ds c'. run_turn two_failures (coordinator_new_turn turn_env 2 sample_coordinator) = Ret (ds, c')
      \<and> length (filter is_retry ds) \<le> 19"
proof -
  have steady: "\<not> deadline_between t0 limit turn_env" for t0 limit
    by (simp add: deadline_between_def turn_env_def)
  have "rb_total (rc_budget sample_coordinator) = 12"
    by (simp add: sample_coordinator_def new_coordinator_def default_recovery_budget_def
        coordinator_new_turn_def budget_new_turn_def budget_start_deadline_def)
  then show ?thesis
    using turn_recovery_bounded [OF sample_strategies, of two_failures turn_env 2] steady
    by (cases "run_turn two_failures (coordinator_new_turn turn_env 2 sample_coordinator)")
      (auto simp: two_failures_def)
qed

text \<open>
  And it does happen: a turn that began at 5 with the default deadline of 300 seconds, a failure of the
  provider whose \<open>can_afford\<close> reads 305 and whose \<open>consume\<close> reads 306.
\<close>

definition late_env :: recovery_env where
  "late_env = \<lparr>ev_clock = (\<lambda>n r. if r = At_Consume then 306 else 305), ev_wall = 5, ev_rotatable = Some True\<rparr>"

lemma late_consume_raises:
  "case evaluate late_env (turn_envelope ''overloaded'' AUTO_RETRY SE_NONE) sample_coordinator of
     Raise x \<Rightarrow> x = consume_error | Ret r \<Rightarrow> False"
  by code_simp

section \<open>The choice of a strategy\<close>

text \<open>
  Past the four gates (no side effect, deadline, budget, recoverability), \<open>evaluate\<close> answers with the
  decision of the first built-in strategy in priority order that is acceptable when its turn comes (its
  source and category match, its one-shot guard is free, \<open>can_apply\<close> holds, and its cost is
  affordable), and with the terminal decision when there is none: a strategy rejected on the way
  changes nothing that a later one sees.
\<close>

lemma evaluate_first_acceptable:
  assumes "rc_strategies c = default_strategies"
    "fe_side_effect e = SE_NONE" "\<not> deadline_exceeded (ev_at ev At_Start) (rc_budget c)"
    "budget_remaining (rc_budget c) \<noteq> 0" "fe_recoverability e \<noteq> NON_RECOVERABLE"
    "evaluate ev e c = Ret (d, c')"
  shows "d = choice ev e c default_strategies"
proof -
  have "evaluate ev e c = try_strategies ev e default_strategies c"
    using assms(1-5) by (simp add: evaluate_def)
  then show ?thesis
    using builtin.try_step [of default_strategies ev e c] builtin.keys_distinct assms(6)
    by (metis order_refl)
qed

section \<open>Compression\<close>

text \<open>
  Repeated compression timeouts: the third and every later one degrades to the deterministic
  summary at cost 0, so these decisions are not bounded by the recovery budget.
\<close>

lemma compression_degrades:
  assumes "2 \<le> cp_timeouts p"
  shows "\<exists>d p'. compression_decide ev e st p = Ret (d, p') \<and> dc_action d = SKIP_AND_CONTINUE
     \<and> dc_budget_cost d = 0 \<and> cp_timeouts p' = cp_timeouts p + 1 \<and> cp_cooldown_end p' = cp_cooldown_end p"
  using assms by (auto simp: compression_decide_def max_retries_before_degradation_def decision_def Let_def)

text \<open>
  A timeout decision is not rejected for the budget unless the deadline passes between two readings:
  \<open>can_apply\<close> lets an unaffordable one through only once the decision is the free one, so \<open>decide\<close> does
  not advance the counter in vain.
\<close>

lemma timeout_not_rejected:
  assumes "eligible ev e c compression_timeout" "compression_decide ev e st (rc_private c) = Ret (d, p)"
    "deadline_exceeded (ev_at ev At_Afford) (rc_budget c) \<longrightarrow> deadline_exceeded (ev_at ev At_Retry_Check) (rc_budget c)"
  shows "dc_budget_cost d > 0 \<longrightarrow> can_afford (ev_at ev At_Afford) (rc_budget c) (dc_budget_cost d) (fe_category e)"
  using assms
  by (auto simp: eligible_def compression_timeout_def compression_can_apply_def compression_decide_def can_afford_def
      decision_def Let_def max_retries_before_degradation_def split: if_splits)

end
