(* ===== verification/Recovery_Checkpoint.thy ===== *)
theory Recovery_Checkpoint imports Templates begin

text \<open>
  \<open>engine/recovery/recovery_checkpoint.py\<close>: checkpoints with a lifecycle, the in-memory store with
  its compare-and-swap \<open>consume\<close>, and \<open>CheckpointResumer.resume\<close>, which is written over the
  \<open>CheckpointStore\<close> protocol: here over a record of its operations. Every operation takes the
  clock reading it makes; \<open>resume\<close> makes three. The resumer changes the object the store holds,
  so its change and the following \<open>save\<close> are one update under the checkpoint's id.
\<close>

section \<open>Checkpoints\<close>

datatype checkpoint_state = CP_PENDING | CP_CONSUMED | CP_EXPIRED | CP_CANCELLED

record precondition =
  pc_key :: string
  pc_expected :: string
  pc_description :: string
  pc_critical :: bool

record step_record =
  sr_id :: string
  sr_tool_name :: string
  sr_action :: string
  sr_result :: string
  sr_timestamp :: real
  sr_side_effect :: bool

record checkpoint =
  cp_id :: string
  cp_session :: string
  cp_turn :: int
  cp_version :: int
  cp_created_at :: real
  cp_ttl :: real
  cp_state :: checkpoint_state
  cp_failure :: "pyval dict"
  cp_interaction :: string
  cp_completed :: "step_record list"
  cp_pending :: "string list"
  cp_messages :: "pyval list"
  cp_preconditions :: "precondition list"
  cp_context :: "pyval dict"
  cp_attempts :: int
  cp_max_attempts :: int
  cp_consumed_at :: "real option"

definition expires_at :: "checkpoint \<Rightarrow> real" where
  "expires_at cp = cp_created_at cp + cp_ttl cp"

definition is_expired :: "real \<Rightarrow> checkpoint \<Rightarrow> bool" where
  "is_expired now cp \<longleftrightarrow> now > cp_created_at cp + cp_ttl cp"

definition is_consumable :: "real \<Rightarrow> checkpoint \<Rightarrow> bool" where
  "is_consumable now cp \<longleftrightarrow>
     cp_state cp = CP_PENDING \<and> \<not> is_expired now cp \<and> cp_attempts cp < cp_max_attempts cp"

section \<open>The in-memory store\<close>

type_synonym store = "checkpoint dict"

definition store_save :: "checkpoint \<Rightarrow> store \<Rightarrow> store" where
  "store_save cp s = dict_set (cp_id cp) cp s"

definition store_load :: "real \<Rightarrow> string \<Rightarrow> store \<Rightarrow> checkpoint option \<times> store" where
  "store_load now i s =
     (case map_of s i of
        None \<Rightarrow> (None, s)
      | Some cp \<Rightarrow> if is_expired now cp then (None, dict_pop i s) else (Some cp, s))"

definition to_consumed :: "real \<Rightarrow> checkpoint \<Rightarrow> checkpoint" where
  "to_consumed now cp =
     cp\<lparr>cp_state := CP_CONSUMED, cp_consumed_at := Some now, cp_version := cp_version cp + 1\<rparr>"

definition store_consume :: "real \<Rightarrow> string \<Rightarrow> store \<Rightarrow> bool \<times> store" where
  "store_consume now i s =
     (case map_of s i of
        None \<Rightarrow> (False, s)
      | Some cp \<Rightarrow>
          if is_expired now cp then (False, dict_adjust i (\<lambda>c. c\<lparr>cp_state := CP_EXPIRED\<rparr>) s)
          else if cp_state cp \<noteq> CP_PENDING then (False, s)
          else if cp_attempts cp \<ge> cp_max_attempts cp then (False, s)
          else (True, dict_adjust i (to_consumed now) s))"

definition store_load_and_consume :: "real \<Rightarrow> string \<Rightarrow> store \<Rightarrow> checkpoint option \<times> store" where
  "store_load_and_consume now i s =
     (case map_of s i of
        None \<Rightarrow> (None, s)
      | Some cp \<Rightarrow>
          if is_expired now cp then (None, dict_adjust i (\<lambda>c. c\<lparr>cp_state := CP_EXPIRED\<rparr>) s)
          else if cp_state cp \<noteq> CP_PENDING then (None, s)
          else if cp_attempts cp \<ge> cp_max_attempts cp then (None, s)
          else let taken = to_consumed now (cp\<lparr>cp_attempts := cp_attempts cp + 1\<rparr>)
               in (Some taken, dict_adjust i (\<lambda>_. taken) s))"

definition expire_stale :: "real \<Rightarrow> checkpoint \<Rightarrow> checkpoint" where
  "expire_stale now cp =
     (if is_expired now cp \<and> cp_state cp = CP_PENDING then cp\<lparr>cp_state := CP_EXPIRED\<rparr> else cp)"

definition store_list_pending :: "real \<Rightarrow> string \<Rightarrow> store \<Rightarrow> checkpoint list \<times> store" where
  "store_list_pending now session s =
     (let s' = map (\<lambda>(k, cp). (k, expire_stale now cp)) s
      in (filter (\<lambda>cp. cp_state cp = CP_PENDING \<and> (session = [] \<or> cp_session cp = session)) (map snd s'), s'))"

definition store_cancel :: "string \<Rightarrow> store \<Rightarrow> bool \<times> store" where
  "store_cancel i s =
     (case map_of s i of
        None \<Rightarrow> (False, s)
      | Some cp \<Rightarrow>
          if cp_state cp \<noteq> CP_PENDING then (False, s)
          else (True, dict_adjust i (\<lambda>c. c\<lparr>cp_state := CP_CANCELLED, cp_version := cp_version c + 1\<rparr>) s))"

definition store_cleanup_expired :: "real \<Rightarrow> store \<Rightarrow> nat \<times> store" where
  "store_cleanup_expired now s =
     (length (filter (\<lambda>(k, cp). is_expired now cp) s), filter (\<lambda>(k, cp). \<not> is_expired now cp) s)"

section \<open>The resumer\<close>

record 's store_ops =
  so_save :: "checkpoint \<Rightarrow> 's \<Rightarrow> 's"
  so_load :: "real \<Rightarrow> string \<Rightarrow> 's \<Rightarrow> checkpoint option \<times> 's"
  so_consume :: "real \<Rightarrow> string \<Rightarrow> 's \<Rightarrow> bool \<times> 's"

definition memory_ops :: "store store_ops" where
  "memory_ops = \<lparr>so_save = store_save, so_load = store_load, so_consume = store_consume\<rparr>"

record resume_result =
  rr_success :: bool
  rr_reason :: string
  rr_messages :: "pyval list"
  rr_context :: "pyval dict"
  rr_warnings :: "string list"

definition resume_refused :: "string \<Rightarrow> string list \<Rightarrow> resume_result" where
  "resume_refused reason warnings =
     \<lparr>rr_success = False, rr_reason = reason, rr_messages = [], rr_context = [], rr_warnings = warnings\<rparr>"

definition not_available :: string where
  "not_available = ''Checkpoint not available (expired, consumed, or not found)''"

text \<open>The value a precondition sees: \<open>str(context.get(key, ""))\<close>.\<close>

definition actual_value :: "(pyval \<Rightarrow> string) \<Rightarrow> pyval dict \<Rightarrow> precondition \<Rightarrow> string" where
  "actual_value str_of ctx pc = (case map_of ctx (pc_key pc) of Some v \<Rightarrow> py_str str_of v | None \<Rightarrow> [])"

definition drifted :: "(pyval \<Rightarrow> string) \<Rightarrow> pyval dict \<Rightarrow> precondition \<Rightarrow> bool" where
  "drifted str_of ctx pc \<longleftrightarrow> actual_value str_of ctx pc \<noteq> pc_expected pc"

definition drift_message :: "(pyval \<Rightarrow> string) \<Rightarrow> pyval dict \<Rightarrow> precondition \<Rightarrow> string" where
  "drift_message str_of ctx pc =
     pc_key pc @ '': expected '' @ quoted (pc_expected pc) @ '', got '' @ quoted (actual_value str_of ctx pc)"

fun check_drift ::
  "(pyval \<Rightarrow> string) \<Rightarrow> pyval dict \<Rightarrow> precondition list \<Rightarrow> string list \<Rightarrow> string list \<Rightarrow> string list \<times> string list" where
  "check_drift str_of ctx [] errs warns = (errs, warns)"
| "check_drift str_of ctx (pc # pcs) errs warns =
     (if drifted str_of ctx pc
      then if pc_critical pc then check_drift str_of ctx pcs (errs @ [drift_message str_of ctx pc]) warns
           else check_drift str_of ctx pcs errs (warns @ [drift_message str_of ctx pc])
      else check_drift str_of ctx pcs errs warns)"

definition count_attempt :: "checkpoint \<Rightarrow> checkpoint" where
  "count_attempt cp =
     (let cp' = cp\<lparr>cp_attempts := cp_attempts cp + 1\<rparr>
      in if cp_attempts cp' \<ge> cp_max_attempts cp' then cp'\<lparr>cp_state := CP_EXPIRED\<rparr> else cp')"

definition resume_note :: "(pyval \<Rightarrow> string) \<Rightarrow> checkpoint \<Rightarrow> pyval" where
  "resume_note str_of cp =
     (let msg = (case map_of (cp_failure cp) ''message'' of Some v \<Rightarrow> py_str str_of v | None \<Rightarrow> ''unknown'')
      in PDict [(''role'', PStr ''system''),
                (''content'', PStr (''[Recovery] Resuming from checkpoint. Previous failure: '' @ msg
                   @ ''. User has resolved the issue. Continue from where you left off.''))])"

definition resume_checkpoint ::
  "'s store_ops \<Rightarrow> (pyval \<Rightarrow> string) \<Rightarrow> real \<Rightarrow> real \<Rightarrow> real \<Rightarrow> string \<Rightarrow> pyval dict \<Rightarrow> 's \<Rightarrow> resume_result \<times> 's" where
  "resume_checkpoint ops str_of t1 t2 t3 i ctx s =
     (case so_load ops t1 i s of
        (None, s1) \<Rightarrow> (resume_refused not_available [], s1)
      | (Some cp, s1) \<Rightarrow>
          if \<not> is_consumable t2 cp then (resume_refused not_available [], s1)
          else (case check_drift str_of ctx (cp_preconditions cp) [] [] of (errs, warns) \<Rightarrow>
            if errs \<noteq> []
            then (resume_refused (''Critical precondition drift: '' @ py_join ''; '' errs) warns,
                  so_save ops (count_attempt cp) s1)
            else (case so_consume ops t3 i s1 of
                    (False, s2) \<Rightarrow> (resume_refused not_available [], s2)
                  | (True, s2) \<Rightarrow>
                      (\<lparr>rr_success = True, rr_reason = [],
                        rr_messages = cp_messages cp @ [resume_note str_of cp],
                        rr_context = cp_context cp, rr_warnings = warns\<rparr>, s2))))"

section \<open>Histories\<close>

text \<open>Calls on the in-memory store, and the checkpoints their callers were told they own.\<close>

datatype ck_event =
    CkSave checkpoint
  | CkLoad real string
  | CkConsume real string
  | CkTake real string
  | CkList real string
  | CkCancel string
  | CkCleanup real
  | CkResume real real real string "pyval dict"

fun ck_step :: "(pyval \<Rightarrow> string) \<Rightarrow> ck_event \<Rightarrow> store \<Rightarrow> string list \<times> store" where
  "ck_step str_of (CkSave cp) s = ([], store_save cp s)"
| "ck_step str_of (CkLoad t i) s = ([], snd (store_load t i s))"
| "ck_step str_of (CkConsume t i) s = (case store_consume t i s of (b, s') \<Rightarrow> (if b then [i] else [], s'))"
| "ck_step str_of (CkTake t i) s =
     (case store_load_and_consume t i s of (r, s') \<Rightarrow> (if r \<noteq> None then [i] else [], s'))"
| "ck_step str_of (CkList t session) s = ([], snd (store_list_pending t session s))"
| "ck_step str_of (CkCancel i) s = ([], snd (store_cancel i s))"
| "ck_step str_of (CkCleanup t) s = ([], snd (store_cleanup_expired t s))"
| "ck_step str_of (CkResume t1 t2 t3 i ctx) s =
     (case resume_checkpoint memory_ops str_of t1 t2 t3 i ctx s of
        (r, s') \<Rightarrow> (if rr_success r then [i] else [], s'))"

fun ck_run :: "(pyval \<Rightarrow> string) \<Rightarrow> ck_event list \<Rightarrow> store \<Rightarrow> string list \<times> store" where
  "ck_run str_of [] s = ([], s)"
| "ck_run str_of (e # es) s =
     (case ck_step str_of e s of (own, s1) \<Rightarrow> (case ck_run str_of es s1 of (owns, s2) \<Rightarrow> (own @ owns, s2)))"

end
