(* ===== verification/Recovery_Checkpoint_Props.thy ===== *)
theory Recovery_Checkpoint_Props imports Recovery_Checkpoint begin

text \<open>
  The contract of the \<open>CheckpointStore\<close> protocol as a locale, the resumer's behaviour proved from
  it, its interpretation on the in-memory store, and what follows over sequences of operations:
  a checkpoint is consumed at most once and resume attempts stay within their limit.
\<close>

section \<open>The store contract\<close>

definition critical_drift :: "(pyval \<Rightarrow> string) \<Rightarrow> pyval dict \<Rightarrow> checkpoint \<Rightarrow> bool" where
  "critical_drift str_of ctx cp \<longleftrightarrow> (\<exists>pc \<in> set (cp_preconditions cp). pc_critical pc \<and> drifted str_of ctx pc)"

definition drift_warnings :: "(pyval \<Rightarrow> string) \<Rightarrow> pyval dict \<Rightarrow> checkpoint \<Rightarrow> string list" where
  "drift_warnings str_of ctx cp =
     map (drift_message str_of ctx) (filter (\<lambda>pc. \<not> pc_critical pc \<and> drifted str_of ctx pc) (cp_preconditions cp))"

lemma check_drift_eq:
  "check_drift str_of ctx pcs errs warns =
     (errs @ map (drift_message str_of ctx) (filter (\<lambda>pc. pc_critical pc \<and> drifted str_of ctx pc) pcs),
      warns @ map (drift_message str_of ctx) (filter (\<lambda>pc. \<not> pc_critical pc \<and> drifted str_of ctx pc) pcs))"
  by (induction pcs arbitrary: errs warns) auto

lemma check_drift_checkpoint:
  "check_drift str_of ctx (cp_preconditions cp) [] [] = (errs, warns) \<Longrightarrow>
     (errs \<noteq> [] \<longleftrightarrow> critical_drift str_of ctx cp) \<and> warns = drift_warnings str_of ctx cp"
  by (auto simp: check_drift_eq critical_drift_def drift_warnings_def filter_empty_conv)

locale checkpoint_store =
  fixes ops :: "'s store_ops" and look :: "'s \<Rightarrow> string \<Rightarrow> checkpoint option" and wf :: "'s \<Rightarrow> bool"
  assumes look_id: "wf s \<Longrightarrow> look s i = Some cp \<Longrightarrow> cp_id cp = i"
    and save_law: "wf s \<Longrightarrow> wf (so_save ops cp s) \<and> look (so_save ops cp s) = (look s)(cp_id cp \<mapsto> cp)"
    and load_law: "wf s \<Longrightarrow> so_load ops t i s = (r, s') \<Longrightarrow> wf s' \<and>
       (case look s i of
          None \<Rightarrow> r = None \<and> look s' = look s
        | Some cp \<Rightarrow> if is_expired t cp then r = None \<and> look s' = (look s)(i := None)
                    else r = Some cp \<and> look s' = look s)"
    and consume_law: "wf s \<Longrightarrow> so_consume ops t i s = (b, s') \<Longrightarrow> wf s' \<and>
       (case look s i of
          None \<Rightarrow> \<not> b \<and> look s' = look s
        | Some cp \<Rightarrow> if is_expired t cp then \<not> b \<and> look s' = (look s)(i \<mapsto> cp\<lparr>cp_state := CP_EXPIRED\<rparr>)
                    else if is_consumable t cp then b \<and> look s' = (look s)(i \<mapsto> to_consumed t cp)
                    else \<not> b \<and> look s' = look s)"
begin

text \<open>\<open>resume\<close> of a checkpoint that was found and is consumable.\<close>

lemma resume_found:
  assumes wf: "wf s" and r: "resume_checkpoint ops str_of t1 t2 t3 i ctx s = (r, s')"
    and l: "so_load ops t1 i s = (Some cp, s1)" and cp: "look s i = Some cp" "look s1 = look s" "wf s1"
    and ok: "is_consumable t2 cp"
  obtains
    (drift) "critical_drift str_of ctx cp" "\<not> rr_success r" "look s' = (look s)(i \<mapsto> count_attempt cp)"
      "rr_warnings r = drift_warnings str_of ctx cp" "wf s'"
  | (late) "\<not> critical_drift str_of ctx cp" "is_expired t3 cp" "\<not> rr_success r" "rr_reason r = not_available"
      "look s' = (look s)(i \<mapsto> cp\<lparr>cp_state := CP_EXPIRED\<rparr>)" "wf s'"
  | (resumed) "\<not> critical_drift str_of ctx cp" "is_consumable t3 cp" "rr_success r"
      "rr_messages r = cp_messages cp @ [resume_note str_of cp]" "rr_context r = cp_context cp"
      "rr_warnings r = drift_warnings str_of ctx cp" "look s' = (look s)(i \<mapsto> to_consumed t3 cp)" "wf s'"
proof -
  obtain errs warns where cd: "check_drift str_of ctx (cp_preconditions cp) [] [] = (errs, warns)"
    by (cases "check_drift str_of ctx (cp_preconditions cp) [] []") auto
  note dr = check_drift_checkpoint [OF cd]
  show thesis
  proof (cases "critical_drift str_of ctx cp")
    case True
    then have "s' = so_save ops (count_attempt cp) s1" "\<not> rr_success r" "rr_warnings r = drift_warnings str_of ctx cp"
      using r l ok cd dr by (auto simp: resume_checkpoint_def resume_refused_def)
    moreover have "cp_id (count_attempt cp) = i"
      using look_id [OF wf cp(1)] by (simp add: count_attempt_def Let_def)
    ultimately show thesis
      using drift [OF True] save_law [OF cp(3), of "count_attempt cp"] cp(2) by simp
  next
    case False
    obtain b s2 where c: "so_consume ops t3 i s1 = (b, s2)" by (cases "so_consume ops t3 i s1") auto
    have cl: "wf s2" "if is_expired t3 cp then \<not> b \<and> look s2 = (look s)(i \<mapsto> cp\<lparr>cp_state := CP_EXPIRED\<rparr>)
                else if is_consumable t3 cp then b \<and> look s2 = (look s)(i \<mapsto> to_consumed t3 cp)
                else \<not> b \<and> look s2 = look s"
      using consume_law [OF cp(3) c] cp by auto
    have res: "r = (if b then \<lparr>rr_success = True, rr_reason = [],
                    rr_messages = cp_messages cp @ [resume_note str_of cp],
                    rr_context = cp_context cp, rr_warnings = drift_warnings str_of ctx cp\<rparr>
                  else resume_refused not_available [])" "s' = s2"
      using r l ok cd dr False c by (auto simp: resume_checkpoint_def split: bool.splits)
    have "is_consumable t3 cp" if "\<not> is_expired t3 cp" using that ok by (simp add: is_consumable_def)
    then show thesis using late [OF False] resumed [OF False] cl res
      by (cases "is_expired t3 cp") (simp_all add: resume_refused_def)
  qed
qed

text \<open>The four ends of \<open>resume\<close>.\<close>

lemma resume_cases:
  assumes wf: "wf s" and r: "resume_checkpoint ops str_of t1 t2 t3 i ctx s = (r, s')"
  obtains
    (gone) "look s i = None \<or> (\<exists>cp. look s i = Some cp \<and> is_expired t1 cp)" "\<not> rr_success r"
      "rr_reason r = not_available" "look s' = (look s)(i := None)" "wf s'"
  | (closed) cp where "look s i = Some cp" "\<not> is_expired t1 cp" "\<not> is_consumable t2 cp" "\<not> rr_success r"
      "rr_reason r = not_available" "look s' = look s" "wf s'"
  | (drift) cp where "look s i = Some cp" "\<not> is_expired t1 cp" "is_consumable t2 cp" "critical_drift str_of ctx cp"
      "\<not> rr_success r" "look s' = (look s)(i \<mapsto> count_attempt cp)" "rr_warnings r = drift_warnings str_of ctx cp" "wf s'"
  | (late) cp where "look s i = Some cp" "\<not> is_expired t1 cp" "is_consumable t2 cp" "\<not> critical_drift str_of ctx cp"
      "is_expired t3 cp" "\<not> rr_success r" "rr_reason r = not_available"
      "look s' = (look s)(i \<mapsto> cp\<lparr>cp_state := CP_EXPIRED\<rparr>)" "wf s'"
  | (resumed) cp where "look s i = Some cp" "\<not> is_expired t1 cp" "is_consumable t2 cp" "\<not> critical_drift str_of ctx cp"
      "is_consumable t3 cp" "rr_success r" "rr_messages r = cp_messages cp @ [resume_note str_of cp]"
      "rr_context r = cp_context cp" "rr_warnings r = drift_warnings str_of ctx cp"
      "look s' = (look s)(i \<mapsto> to_consumed t3 cp)" "wf s'"
proof -
  obtain l s1 where l: "so_load ops t1 i s = (l, s1)" by (cases "so_load ops t1 i s") auto
  note ll = load_law [OF wf l]
  show thesis
  proof (cases l)
    case None
    then have "r = resume_refused not_available []" "s' = s1"
      using r l by (auto simp: resume_checkpoint_def)
    moreover have "look s i = None \<or> (\<exists>cp. look s i = Some cp \<and> is_expired t1 cp)" "look s1 = (look s)(i := None)"
      using ll None by (auto split: option.splits if_splits)
    ultimately show thesis using gone ll by (simp add: resume_refused_def)
  next
    case (Some cp)
    have cp: "look s i = Some cp" "\<not> is_expired t1 cp" "look s1 = look s" and wf1: "wf s1"
      using ll Some by (auto split: option.splits if_splits)
    show thesis
    proof (cases "is_consumable t2 cp")
      case False
      then have "r = resume_refused not_available []" "s' = s1"
        using r l Some by (auto simp: resume_checkpoint_def)
      then show thesis using closed [OF cp(1,2) False] cp(3) wf1 by (simp add: resume_refused_def)
    next
      case ok: True
      show thesis
        by (rule resume_found [OF wf r l [unfolded Some] cp(1,3) wf1 ok];
            rule drift late resumed; (rule cp(1,2) ok | assumption))
    qed
  qed
qed

end

section \<open>The in-memory store\<close>

definition store_wf :: "store \<Rightarrow> bool" where
  "store_wf s \<longleftrightarrow> (\<forall>i cp. map_of s i = Some cp \<longrightarrow> cp_id cp = i)"

lemma to_consumed_fields [simp]:
  "cp_id (to_consumed t cp) = cp_id cp" "cp_state (to_consumed t cp) = CP_CONSUMED"
  "cp_attempts (to_consumed t cp) = cp_attempts cp" "cp_max_attempts (to_consumed t cp) = cp_max_attempts cp"
  by (simp_all add: to_consumed_def)

interpretation memory: checkpoint_store memory_ops map_of store_wf
proof unfold_locales
  show "cp_id cp = i" if "store_wf s" "map_of s i = Some cp" for s i cp
    using that by (simp add: store_wf_def)
  show "store_wf (so_save memory_ops cp s) \<and> map_of (so_save memory_ops cp s) = (map_of s)(cp_id cp \<mapsto> cp)"
    if "store_wf s" for s cp
    using that by (simp add: memory_ops_def store_save_def store_wf_def dict_simps)
  show "store_wf s' \<and> (case map_of s i of
          None \<Rightarrow> r = None \<and> map_of s' = map_of s
        | Some cp \<Rightarrow> if is_expired t cp then r = None \<and> map_of s' = (map_of s)(i := None)
                    else r = Some cp \<and> map_of s' = map_of s)"
    if "store_wf s" "so_load memory_ops t i s = (r, s')" for s t i r s'
    using that by (auto simp: memory_ops_def store_load_def store_wf_def dict_simps fun_eq_iff split: option.splits if_splits)
  show "store_wf s' \<and> (case map_of s i of
          None \<Rightarrow> \<not> b \<and> map_of s' = map_of s
        | Some cp \<Rightarrow> if is_expired t cp then \<not> b \<and> map_of s' = (map_of s)(i \<mapsto> cp\<lparr>cp_state := CP_EXPIRED\<rparr>)
                    else if is_consumable t cp then b \<and> map_of s' = (map_of s)(i \<mapsto> to_consumed t cp)
                    else \<not> b \<and> map_of s' = map_of s)"
    if "store_wf s" "so_consume memory_ops t i s = (b, s')" for s t i b s'
  proof (cases "map_of s i")
    case None
    then show ?thesis using that by (simp add: memory_ops_def store_consume_def)
  next
    case (Some cp)
    then show ?thesis
      using that by (auto simp: memory_ops_def store_consume_def store_wf_def is_consumable_def dict_simps fun_eq_iff
          split: if_splits)
  qed
qed

section \<open>Lifecycle\<close>

text \<open>What one store operation other than \<open>save\<close> may do to one entry.\<close>

inductive life :: "checkpoint option \<Rightarrow> checkpoint option \<Rightarrow> bool" where
  keep: "life x x"
| gone: "life x None"
| expire: "life (Some cp) (Some (cp\<lparr>cp_state := CP_EXPIRED\<rparr>))"
| cancel: "cp_state cp = CP_PENDING \<Longrightarrow>
     life (Some cp) (Some (cp\<lparr>cp_state := CP_CANCELLED, cp_version := cp_version cp + 1\<rparr>))"
| consume: "cp_state cp = CP_PENDING \<Longrightarrow> life (Some cp) (Some (to_consumed t cp))"
| take: "cp_state cp = CP_PENDING \<Longrightarrow> cp_attempts cp < cp_max_attempts cp \<Longrightarrow>
     life (Some cp) (Some (to_consumed t (cp\<lparr>cp_attempts := cp_attempts cp + 1\<rparr>)))"
| drift: "cp_state cp = CP_PENDING \<Longrightarrow> cp_attempts cp < cp_max_attempts cp \<Longrightarrow>
     life (Some cp) (Some (count_attempt cp))"

definition pending_at :: "checkpoint option \<Rightarrow> bool" where
  "pending_at x \<longleftrightarrow> (\<exists>cp. x = Some cp \<and> cp_state cp = CP_PENDING)"

text \<open>Attempts within the limit, and room for one more while pending.\<close>

definition attempts_ok :: "checkpoint \<Rightarrow> bool" where
  "attempts_ok cp \<longleftrightarrow> 0 \<le> cp_attempts cp \<and> cp_attempts cp \<le> cp_max_attempts cp
     \<and> (cp_state cp = CP_PENDING \<longrightarrow> cp_attempts cp < cp_max_attempts cp)"

lemma count_attempt_fields [simp]:
  "cp_attempts (count_attempt cp) = cp_attempts cp + 1" "cp_max_attempts (count_attempt cp) = cp_max_attempts cp"
  "cp_id (count_attempt cp) = cp_id cp"
  "cp_state (count_attempt cp) = (if cp_attempts cp + 1 \<ge> cp_max_attempts cp then CP_EXPIRED else cp_state cp)"
  by (simp_all add: count_attempt_def Let_def)

lemma life_pending: "life x y \<Longrightarrow> pending_at y \<Longrightarrow> pending_at x"
  by (induction rule: life.induct) (auto simp: pending_at_def)

lemma life_attempts: "life x y \<Longrightarrow> y = Some cp' \<Longrightarrow> (\<And>cp. x = Some cp \<Longrightarrow> attempts_ok cp) \<Longrightarrow> attempts_ok cp'"
  by (induction rule: life.induct) (auto simp: attempts_ok_def split: if_splits)

lemma life_id: "life x y \<Longrightarrow> y = Some cp' \<Longrightarrow> (\<And>cp. x = Some cp \<Longrightarrow> cp_id cp = i) \<Longrightarrow> cp_id cp' = i"
  by (induction rule: life.induct) auto

definition saves :: "string \<Rightarrow> ck_event \<Rightarrow> bool" where
  "saves i e = (case e of CkSave cp \<Rightarrow> cp_id cp = i | _ \<Rightarrow> False)"

lemma map_of_expire_stale: "map_of (map (\<lambda>(k, cp). (k, f cp)) s) j = map_option f (map_of s j)"
  by (induction s) auto

lemma map_of_filter_value:
  assumes "dict_wf s"
  shows "map_of (filter (\<lambda>(k, cp). P cp) s) j = (case map_of s j of None \<Rightarrow> None | Some cp \<Rightarrow> if P cp then Some cp else None)"
  using assms
proof (induction s)
  case (Cons x s)
  obtain k cp where x: "x = (k, cp)" by force
  have "dict_wf s" "k \<notin> fst ` set s" using Cons.prems by (auto simp: x dict_wf_def)
  then have "map_of (filter (\<lambda>(k, cp). P cp) s) k = None"
    by (auto simp: map_of_eq_None_iff)
  then show ?case using Cons \<open>dict_wf s\<close> by (auto simp: x split: option.splits)
qed simp

lemma life_take:
  assumes "store_load_and_consume t i s = (got, s')"
  shows "life (map_of s j) (map_of s' j)
     \<and> (got \<noteq> None \<and> j = i \<longrightarrow> pending_at (map_of s j) \<and> \<not> pending_at (map_of s' j))"
proof (cases "map_of s i")
  case None
  then show ?thesis using assms by (auto simp: store_load_and_consume_def intro: life.intros)
next
  case (Some cp)
  show ?thesis
  proof (cases "is_consumable t cp \<and> j = i")
    case True
    then have "life (map_of s j) (Some (to_consumed t (cp\<lparr>cp_attempts := cp_attempts cp + 1\<rparr>)))"
      using Some life.take [of cp t] by (simp add: is_consumable_def)
    then show ?thesis using True Some assms
      by (auto simp: store_load_and_consume_def Let_def dict_simps pending_at_def is_consumable_def split: if_splits)
  next
    case False
    then show ?thesis using Some assms
      by (auto simp: store_load_and_consume_def Let_def dict_simps pending_at_def is_consumable_def
          intro: life.intros split: if_splits)
  qed
qed

lemma life_resume:
  assumes wf: "store_wf s" and r: "resume_checkpoint memory_ops str_of t1 t2 t3 i ctx s = (r, s')"
  shows "life (map_of s j) (map_of s' j)
     \<and> (rr_success r \<and> j = i \<longrightarrow> pending_at (map_of s j) \<and> \<not> pending_at (map_of s' j))"
proof (cases "j = i")
  case False
  with r show ?thesis by (cases rule: memory.resume_cases [OF wf r]) (auto intro: life.intros)
next
  case True
  with r show ?thesis
    by (cases rule: memory.resume_cases [OF wf r])
      (auto simp: pending_at_def is_consumable_def intro: life.intros)
qed

lemma life_step:
  assumes wf: "store_wf s" "dict_wf s" and step: "ck_step str_of e s = (own, s')" and ns: "\<not> saves j e"
  shows "life (map_of s j) (map_of s' j)
     \<and> length (filter ((=) j) own) \<le> (if pending_at (map_of s j) \<and> \<not> pending_at (map_of s' j) then 1 else 0)"
proof (cases e)
  case (CkSave cp)
  then show ?thesis using step ns by (auto simp: saves_def store_save_def dict_simps intro: life.intros)
next
  case (CkLoad t i)
  then show ?thesis
    using step by (auto simp: store_load_def dict_simps intro: life.intros split: option.splits if_splits)
next
  case (CkConsume t i)
  then show ?thesis
  proof (cases "map_of s i")
    case None
    then show ?thesis using step CkConsume by (auto simp: store_consume_def intro: life.intros)
  next
    case (Some cp)
    then show ?thesis using step CkConsume
      by (auto simp: store_consume_def dict_simps pending_at_def intro: life.intros split: if_splits)
  qed
next
  case (CkTake t i)
  obtain got s1 where g: "store_load_and_consume t i s = (got, s1)" by fastforce
  then show ?thesis using step CkTake life_take [OF g, of j] by (auto split: option.splits)
next
  case (CkList t session)
  have "life (map_of s j) (map_option (expire_stale t) (map_of s j))"
    by (cases "map_of s j") (auto simp: expire_stale_def intro: life.intros)
  then show ?thesis using step CkList by (auto simp: store_list_pending_def Let_def map_of_expire_stale)
next
  case (CkCancel i)
  then show ?thesis
    using step by (auto simp: store_cancel_def dict_simps intro: life.intros split: option.splits if_splits)
next
  case (CkCleanup t)
  have "map_of s' j = (case map_of s j of None \<Rightarrow> None | Some cp \<Rightarrow> if \<not> is_expired t cp then Some cp else None)"
    using step CkCleanup map_of_filter_value [OF wf(2), of "\<lambda>cp. \<not> is_expired t cp" j]
    by (auto simp: store_cleanup_expired_def)
  then show ?thesis using step CkCleanup by (auto intro: life.intros split: option.splits)
next
  case (CkResume t1 t2 t3 i ctx)
  obtain r s1 where r: "resume_checkpoint memory_ops str_of t1 t2 t3 i ctx s = (r, s1)" by fastforce
  then have "own = (if rr_success r then [i] else [])" "s' = s1" using step CkResume by auto
  then show ?thesis using life_resume [OF wf(1) r, of j] by auto
qed

lemma memory_ops_simps [simp]:
  "so_save memory_ops = store_save" "so_load memory_ops = store_load" "so_consume memory_ops = store_consume"
  by (simp_all add: memory_ops_def)

lemma wf_step:
  assumes "store_wf s" "dict_wf s" "ck_step str_of e s = (own, s')"
  shows "store_wf s' \<and> dict_wf s'"
proof
  show "store_wf s'"
    unfolding store_wf_def
  proof (intro allI impI)
    fix j cp' assume j: "map_of s' j = Some cp'"
    show "cp_id cp' = j"
    proof (cases "saves j e")
      case True
      then show ?thesis using j assms by (auto simp: saves_def store_save_def dict_simps split: ck_event.splits)
    next
      case False
      show ?thesis
        using life_id [OF conjunct1 [OF life_step [OF assms False]] j] assms(1) by (auto simp: store_wf_def)
    qed
  qed
  have filt: "dict_wf (filter P s)" for P :: "string \<times> checkpoint \<Rightarrow> bool"
    using assms(2) by (simp add: dict_wf_def distinct_map_filter)
  have mp: "dict_wf (map (\<lambda>(k, cp). (k, f cp)) s)" for f :: "checkpoint \<Rightarrow> checkpoint"
    using assms(2) by (simp add: dict_wf_def comp_def case_prod_beta)
  have load: "dict_wf (snd (store_load t i s))" for t i
    using assms(2) by (auto simp: store_load_def dict_wf_pop split: option.splits)
  have cons: "dict_wf (snd (store_consume t i u))" if "dict_wf u" for t i u
    using that by (auto simp: store_consume_def dict_wf_adjust split: option.splits)
  show "dict_wf s'"
  proof (cases e)
    case (CkSave cp)
    then show ?thesis using assms by (auto simp: store_save_def dict_wf_set)
  next
    case (CkConsume t i)
    then show ?thesis using assms cons [OF assms(2), of t i] by (auto split: prod.splits)
  next
    case (CkResume t1 t2 t3 i ctx)
    obtain l s1 where l: "store_load t1 i s = (l, s1)" by (cases "store_load t1 i s") auto
    then have "dict_wf s1" using load [of t1 i] by simp
    then show ?thesis using assms(3) CkResume l cons [of s1 t3 i]
      by (auto simp: resume_checkpoint_def store_save_def dict_wf_set split: option.splits prod.splits if_splits bool.splits)
  qed (use assms load cons filt mp in \<open>auto simp: store_load_and_consume_def store_list_pending_def store_cancel_def
      store_cleanup_expired_def Let_def dict_wf_adjust split: option.splits prod.splits if_splits\<close>)
qed

lemma run_facts:
  assumes "store_wf s" "dict_wf s" "\<forall>e \<in> set evs. \<not> saves j e" "ck_run str_of evs s = (own, s')"
  shows "length (filter ((=) j) own) \<le> (if pending_at (map_of s j) then 1 else 0)
     \<and> (pending_at (map_of s' j) \<longrightarrow> pending_at (map_of s j) \<and> j \<notin> set own)"
  using assms
proof (induction evs arbitrary: s own)
  case Nil
  then show ?case by simp
next
  case (Cons e evs)
  obtain o1 s1 where e: "ck_step str_of e s = (o1, s1)" by (cases "ck_step str_of e s") auto
  obtain o2 where r: "ck_run str_of evs s1 = (o2, s')" and own: "own = o1 @ o2"
    using Cons.prems(4) e by (auto split: prod.splits)
  have ns: "\<not> saves j e" using Cons.prems(3) by simp
  note l = life_step [OF Cons.prems(1,2) e ns]
  have wf1: "store_wf s1" "dict_wf s1" using wf_step [OF Cons.prems(1,2) e] by auto
  have ih: "length (filter ((=) j) o2) \<le> (if pending_at (map_of s1 j) then 1 else 0)"
    "pending_at (map_of s' j) \<longrightarrow> pending_at (map_of s1 j) \<and> j \<notin> set o2"
    using Cons.IH [OF wf1 _ r] Cons.prems(3) by auto
  have p: "pending_at (map_of s1 j) \<Longrightarrow> pending_at (map_of s j)"
    using life_pending l by blast
  have "length (filter ((=) j) own) \<le> (if pending_at (map_of s j) then 1 else 0)"
    using l ih(1) p own by (auto split: if_splits)
  moreover have "j \<notin> set o1" if "pending_at (map_of s1 j)"
  proof -
    have "length (filter ((=) j) o1) = 0" using l that by auto
    then show ?thesis by (auto simp: filter_empty_conv)
  qed
  ultimately show ?case using ih(2) p own by auto
qed

lemma run_attempts:
  assumes "store_wf s" "dict_wf s" "\<forall>i cp. map_of s i = Some cp \<longrightarrow> attempts_ok cp"
    "\<forall>e \<in> set evs. \<forall>cp. e = CkSave cp \<longrightarrow> attempts_ok cp" "ck_run str_of evs s = (own, s')"
  shows "\<forall>i cp. map_of s' i = Some cp \<longrightarrow> attempts_ok cp"
  using assms
proof (induction evs arbitrary: s own)
  case Nil
  then show ?case by simp
next
  case (Cons e evs)
  obtain o1 s1 where e: "ck_step str_of e s = (o1, s1)" by (cases "ck_step str_of e s") auto
  obtain o2 where r: "ck_run str_of evs s1 = (o2, s')" using Cons.prems(5) e by (auto split: prod.splits)
  have "attempts_ok cp" if cp: "map_of s1 i = Some cp" for i cp
  proof (cases "saves i e")
    case True
    then show ?thesis using cp e Cons.prems(4) by (auto simp: saves_def store_save_def dict_simps split: ck_event.splits)
  next
    case False
    show ?thesis
      using life_attempts [OF conjunct1 [OF life_step [OF Cons.prems(1,2) e False]] cp] Cons.prems(3) by blast
  qed
  then show ?case using Cons.IH [OF _ _ _ _ r] wf_step [OF Cons.prems(1,2) e] Cons.prems(4) by simp
qed

section \<open>Properties\<close>

lemma store_wf_empty [simp]: "store_wf []" "dict_wf []"
  by (simp_all add: store_wf_def dict_wf_def)

lemma run_wf: "store_wf s \<Longrightarrow> dict_wf s \<Longrightarrow> ck_run str_of evs s = (own, s') \<Longrightarrow> store_wf s' \<and> dict_wf s'"
proof (induction evs arbitrary: s own)
  case (Cons e evs)
  then show ?case using wf_step [of s str_of e] by (auto split: prod.splits)
qed simp

lemma resume_exact_facts:
  assumes "store_wf s" and r: "resume_checkpoint memory_ops str_of t1 t2 t3 i ctx s = (r, s')"
  shows "rr_success r \<longleftrightarrow>
       (\<exists>cp. map_of s i = Some cp \<and> \<not> is_expired t1 cp \<and> is_consumable t2 cp
          \<and> \<not> critical_drift str_of ctx cp \<and> is_consumable t3 cp)" (is ?A)
    and "map_of s i = Some cp \<Longrightarrow> rr_success r \<Longrightarrow>
       map_of s' = (map_of s)(i \<mapsto> to_consumed t3 cp) \<and> rr_messages r = cp_messages cp @ [resume_note str_of cp]
       \<and> rr_context r = cp_context cp \<and> rr_warnings r = drift_warnings str_of ctx cp"
    and "map_of s i = Some cp \<Longrightarrow> \<not> is_expired t1 cp \<Longrightarrow> is_consumable t2 cp \<Longrightarrow> critical_drift str_of ctx cp \<Longrightarrow>
       map_of s' = (map_of s)(i \<mapsto> count_attempt cp)"
    and "j \<noteq> i \<Longrightarrow> map_of s' j = map_of s j"
  by (cases rule: memory.resume_cases [OF assms]; auto simp: is_consumable_def)+

text \<open>
  Resuming: on any well-formed in-memory store, \<open>resume\<close> succeeds exactly when the checkpoint
  is there, unexpired at load, pending with attempts left, free of critical drift, and still
  consumable at the compare-and-swap. On success it is marked consumed with its version
  advanced, and the result carries the snapshot followed by the recovery note, the saved context
  and the warnings of the non-critical drifts. Critical drift spends one attempt and keeps the
  checkpoint pending until its limit. No other checkpoint is touched.
\<close>

theorem resume_exact:
  assumes "store_wf s" and "resume_checkpoint memory_ops str_of t1 t2 t3 i ctx s = (r, s')"
  shows "(rr_success r \<longleftrightarrow>
       (\<exists>cp. map_of s i = Some cp \<and> \<not> is_expired t1 cp \<and> is_consumable t2 cp
          \<and> \<not> critical_drift str_of ctx cp \<and> is_consumable t3 cp))
     \<and> (\<forall>cp. map_of s i = Some cp \<longrightarrow> rr_success r \<longrightarrow>
          map_of s' = (map_of s)(i \<mapsto> to_consumed t3 cp) \<and> rr_messages r = cp_messages cp @ [resume_note str_of cp]
          \<and> rr_context r = cp_context cp \<and> rr_warnings r = drift_warnings str_of ctx cp)
     \<and> (\<forall>cp. map_of s i = Some cp \<longrightarrow> \<not> is_expired t1 cp \<longrightarrow> is_consumable t2 cp \<longrightarrow> critical_drift str_of ctx cp \<longrightarrow>
          map_of s' = (map_of s)(i \<mapsto> count_attempt cp))
     \<and> (\<forall>j. j \<noteq> i \<longrightarrow> map_of s' j = map_of s j)"
  using resume_exact_facts [OF assms] by blast

definition sample_checkpoint :: checkpoint where
  "sample_checkpoint =
     \<lparr>cp_id = ''c1'', cp_session = ''s'', cp_turn = 4, cp_version = 1, cp_created_at = 0, cp_ttl = 3600,
      cp_state = CP_PENDING, cp_failure = [(''message'', PStr ''timeout'')], cp_interaction = ''r1'',
      cp_completed = [], cp_pending = [''deploy''], cp_messages = [PStr ''m''],
      cp_preconditions =
        [\<lparr>pc_key = ''workspace_root'', pc_expected = ''/w'', pc_description = [], pc_critical = True\<rparr>],
      cp_context = [], cp_attempts = 0, cp_max_attempts = 2, cp_consumed_at = None\<rparr>"

lemma sample_resume:
  "\<exists>r s'. resume_checkpoint memory_ops (\<lambda>_. []) 1 1 2 ''c1'' [(''workspace_root'', PStr ''/w'')]
     [(''c1'', sample_checkpoint)] = (r, s')"
  by (cases "resume_checkpoint memory_ops (\<lambda>_. []) 1 1 2 ''c1'' [(''workspace_root'', PStr ''/w'')]
     [(''c1'', sample_checkpoint)]") auto

theorem resume_exact_witness:
  "\<exists>r s'. resume_checkpoint memory_ops (\<lambda>_. []) 1 1 2 ''c1'' [(''workspace_root'', PStr ''/w'')]
     [(''c1'', sample_checkpoint)] = (r, s') \<and> rr_success r \<and> cp_state (the (map_of s' ''c1'')) = CP_CONSUMED"
proof -
  obtain r s' where r: "resume_checkpoint memory_ops (\<lambda>_. []) 1 1 2 ''c1'' [(''workspace_root'', PStr ''/w'')]
     [(''c1'', sample_checkpoint)] = (r, s')"
    using sample_resume by blast
  have wf: "store_wf [(''c1'', sample_checkpoint)]" by (simp add: store_wf_def sample_checkpoint_def)
  have "is_consumable 1 sample_checkpoint" "is_consumable 2 sample_checkpoint" "\<not> is_expired 1 sample_checkpoint"
    by (simp_all add: sample_checkpoint_def is_consumable_def is_expired_def)
  moreover have "\<not> critical_drift (\<lambda>_. []) [(''workspace_root'', PStr ''/w'')] sample_checkpoint"
    by (simp add: sample_checkpoint_def critical_drift_def drifted_def actual_value_def py_str_def)
  moreover have at: "map_of [(''c1'', sample_checkpoint)] ''c1'' = Some sample_checkpoint" by simp
  ultimately have "rr_success r"
    using conjunct1 [OF resume_exact [OF wf r]] by blast
  moreover from this have "map_of s' ''c1'' = Some (to_consumed 2 sample_checkpoint)"
    using conjunct1 [OF conjunct2 [OF resume_exact [OF wf r]]] at by force
  ultimately show ?thesis using r by auto
qed

text \<open>
  C30. A checkpoint is handed out at most once. Start from the empty store and let any operations
  happen; then, over any further sequence of loads, consumes, load-and-consumes, listings,
  cancellations, cleanups and resumes that does not save a checkpoint under the same id again, at
  most one call reports that it consumed it, and none does if it was not pending at the start or
  is still pending at the end.
\<close>

theorem checkpoint_single_use:
  assumes "ck_run str_of pre [] = (own0, s)" "\<forall>e \<in> set evs. \<not> saves j e" "ck_run str_of evs s = (own, s')"
  shows "length (filter ((=) j) own) \<le> (if pending_at (map_of s j) then 1 else 0)
     \<and> (pending_at (map_of s' j) \<longrightarrow> j \<notin> set own)"
  using run_facts [of s evs j str_of own s'] run_wf [of "[]" str_of pre own0 s] assms by simp

definition sample_calls :: "ck_event list" where
  "sample_calls = [CkResume 1 1 2 ''c1'' [(''workspace_root'', PStr ''/w'')], CkTake 3 ''c1'']"

theorem checkpoint_single_use_witness:
  "ck_run (\<lambda>_. []) [CkSave sample_checkpoint] [] = ([], [(''c1'', sample_checkpoint)])
   \<and> length (filter ((=) ''c1'') (fst (ck_run (\<lambda>_. []) sample_calls [(''c1'', sample_checkpoint)]))) \<le> 1"
proof -
  have pre: "ck_run (\<lambda>_. []) [CkSave sample_checkpoint] [] = ([], [(''c1'', sample_checkpoint)])"
    by (simp add: store_save_def dict_set_def sample_checkpoint_def)
  have ns: "\<forall>e \<in> set sample_calls. \<not> saves ''c1'' e" by (simp add: sample_calls_def saves_def)
  show ?thesis
    using pre checkpoint_single_use [OF pre ns surjective_pairing [of "ck_run (\<lambda>_. []) sample_calls [(''c1'', sample_checkpoint)]"]]
    by (auto split: if_splits)
qed

text \<open>
  Resume attempts are bounded: if every saved checkpoint starts within its limit, then after
  any sequence of operations from the empty store each stored checkpoint has made at most
  \<open>max_resume_attempts\<close> attempts, and one that is still pending has an attempt left, so repeated
  drift ends in \<open>EXPIRED\<close>, never in a checkpoint that is pending and cannot be resumed.
\<close>

theorem resume_attempts_bounded:
  assumes "ck_run str_of evs [] = (own, s)" "\<forall>e \<in> set evs. \<forall>cp. e = CkSave cp \<longrightarrow> attempts_ok cp"
  shows "\<forall>i cp. map_of s i = Some cp \<longrightarrow> 0 \<le> cp_attempts cp \<and> cp_attempts cp \<le> cp_max_attempts cp
     \<and> (cp_state cp = CP_PENDING \<longrightarrow> cp_attempts cp < cp_max_attempts cp)"
proof -
  have "\<forall>i cp. map_of s i = Some cp \<longrightarrow> attempts_ok cp"
    by (rule run_attempts [OF store_wf_empty _ assms(2,1)]) simp
  then show ?thesis unfolding attempts_ok_def by blast
qed

theorem resume_attempts_bounded_witness:
  "\<exists>cp. map_of (snd (ck_run (\<lambda>_. []) [CkSave sample_checkpoint, CkResume 1 1 2 ''c1'' []] [])) ''c1'' = Some cp
     \<and> cp_attempts cp \<le> cp_max_attempts cp \<and> cp_attempts cp = 1"
proof -
  let ?evs = "[CkSave sample_checkpoint, CkResume 1 1 2 ''c1'' []]"
  have "attempts_ok sample_checkpoint" by (simp add: attempts_ok_def sample_checkpoint_def)
  then have ok: "\<forall>e \<in> set ?evs. \<forall>cp. e = CkSave cp \<longrightarrow> attempts_ok cp"
    by simp
  have "\<exists>cp. map_of (snd (ck_run (\<lambda>_. []) ?evs [])) ''c1'' = Some cp \<and> cp_attempts cp = 1"
    by (simp add: store_save_def dict_set_def sample_checkpoint_def resume_checkpoint_def memory_ops_def store_load_def
        is_expired_def is_consumable_def drifted_def actual_value_def count_attempt_def Let_def)
  then show ?thesis
    using resume_attempts_bounded [OF surjective_pairing ok, of "\<lambda>_. []"] by blast
qed

end
