(* ===== verification/Turn_Admission.thy ===== *)
theory Turn_Admission imports LF_Prelude begin

text \<open>
  \<open>daemon/turn_admission.py\<close>: bounded concurrent turns with exclusive maintenance windows. The
  coroutines run on one event loop, so the code between two suspensions is one step; an event
  names the coroutine that runs and why (it was entered, its future was granted, it was cancelled).
  The semaphore is \<open>asyncio.Semaphore\<close> of the standard library (CPython 3.11 and later): a
  counter, a queue of futures, \<open>release\<close> that grants the first open future, and \<open>acquire\<close> that
  queues behind any waiter.
\<close>

section \<open>The semaphore\<close>

datatype waiter = WTurn nat | WPark nat | WDrain

type_synonym queue = "(waiter \<times> bool) list"

text \<open>Grant the first waiter whose future is still open.\<close>

fun grant_first :: "queue \<Rightarrow> queue option" where
  "grant_first [] = None"
| "grant_first ((w, True) # ws) = map_option (\<lambda>q. (w, True) # q) (grant_first ws)"
| "grant_first ((w, False) # ws) = Some ((w, True) # ws)"

function wake_all :: "int \<Rightarrow> queue \<Rightarrow> int \<times> queue" where
  "wake_all v ws =
     (if v > 0 then (case grant_first ws of None \<Rightarrow> (v, ws) | Some q \<Rightarrow> wake_all (v - 1) q) else (v, ws))"
  by pat_completeness auto
termination
  by (relation "measure (\<lambda>(v, ws). nat v)") auto

declare wake_all.simps [simp del]

definition sem_release :: "int \<Rightarrow> queue \<Rightarrow> int \<times> queue" where
  "sem_release v ws = (case grant_first ws of None \<Rightarrow> (v + 1, ws) | Some q \<Rightarrow> (v, q))"

section \<open>Admission state\<close>

text \<open>
  A turn inside its slot's context manager keeps the \<open>held\<close> flag of its \<open>_SlotHolder\<close> and the
  number of its coroutines that are parked on a human.
\<close>

datatype turn_phase = Queued | Inside bool nat | Left

datatype exclusive_phase = Draining nat | Running

record admission =
  ad_n :: nat
  ad_value :: int
  ad_waiters :: queue
  ad_slots :: int
  ad_active :: int
  ad_waiting :: int
  ad_parked :: int
  ad_exclusive :: "exclusive_phase option"
  ad_turns :: "(nat \<times> turn_phase) list"

definition new_admission :: "int \<Rightarrow> admission" where
  "new_admission max_turns =
     \<lparr>ad_n = nat (max 1 max_turns), ad_value = max 1 max_turns, ad_waiters = [], ad_slots = 0, ad_active = 0,
      ad_waiting = 0, ad_parked = 0, ad_exclusive = None, ad_turns = []\<rparr>"

definition locked :: "admission \<Rightarrow> bool" where
  "locked a \<longleftrightarrow> ad_value a = 0 \<or> ad_waiters a \<noteq> []"

record admission_snapshot =
  sn_max_concurrent :: int
  sn_active :: int
  sn_waiting :: int
  sn_parked :: int
  sn_available :: int
  sn_slots_in_use :: int
  sn_locked :: bool

definition snapshot :: "admission \<Rightarrow> admission_snapshot" where
  "snapshot a =
     \<lparr>sn_max_concurrent = int (ad_n a), sn_active = max 0 (ad_active a), sn_waiting = max 0 (ad_waiting a),
      sn_parked = max 0 (ad_parked a), sn_available = max 0 (int (ad_n a) - ad_slots a),
      sn_slots_in_use = max 0 (ad_slots a), sn_locked = locked a\<rparr>"

definition set_turn :: "nat \<Rightarrow> turn_phase \<Rightarrow> admission \<Rightarrow> admission" where
  "set_turn t p a = a\<lparr>ad_turns := dict_set t p (ad_turns a)\<rparr>"

section \<open>Steps\<close>

text \<open>\<open>_acquire_slot\<close> on an open semaphore, and its first half (queueing) on a locked one.\<close>

definition take_slot :: "admission \<Rightarrow> admission" where
  "take_slot a = a\<lparr>ad_value := ad_value a - 1, ad_slots := ad_slots a + 1, ad_active := ad_active a + 1\<rparr>"

definition queue_slot :: "waiter \<Rightarrow> admission \<Rightarrow> admission" where
  "queue_slot w a = a\<lparr>ad_waiters := ad_waiters a @ [(w, False)], ad_waiting := ad_waiting a + 1\<rparr>"

text \<open>A queued \<open>acquire\<close> resumes with its future granted, or is cancelled: granted or not, the
  future leaves the queue, and the waiters the counter allows are granted.\<close>

definition leave_queue :: "waiter \<times> bool \<Rightarrow> int \<Rightarrow> admission \<Rightarrow> admission" where
  "leave_queue e given a =
     (case wake_all (ad_value a + given) (remove1 e (ad_waiters a)) of
        (v, ws) \<Rightarrow> a\<lparr>ad_value := v, ad_waiters := ws\<rparr>)"

definition granted_slot :: "waiter \<Rightarrow> admission \<Rightarrow> admission" where
  "granted_slot w a =
     (let a1 = leave_queue (w, True) 0 a
      in a1\<lparr>ad_waiting := max 0 (ad_waiting a1 - 1), ad_slots := ad_slots a1 + 1, ad_active := ad_active a1 + 1\<rparr>)"

definition cancelled_slot :: "waiter \<Rightarrow> bool \<Rightarrow> admission \<Rightarrow> admission" where
  "cancelled_slot w g a =
     (let a1 = leave_queue (w, g) (if g then 1 else 0) a in a1\<lparr>ad_waiting := max 0 (ad_waiting a1 - 1)\<rparr>)"

definition release_sem :: "admission \<Rightarrow> admission" where
  "release_sem a = (case sem_release (ad_value a) (ad_waiters a) of (v, ws) \<Rightarrow> a\<lparr>ad_value := v, ad_waiters := ws\<rparr>)"

definition release_slot :: "admission \<Rightarrow> admission" where
  "release_slot a =
     release_sem (a\<lparr>ad_active := max 0 (ad_active a - 1), ad_slots := max 0 (ad_slots a - 1)\<rparr>)"

text \<open>\<open>_SlotHolder.release\<close>: only a held slot is given back.\<close>

definition holder_release :: "bool \<Rightarrow> admission \<Rightarrow> admission" where
  "holder_release held a = (if held then release_slot a else a)"

primrec release_drained :: "nat \<Rightarrow> admission \<Rightarrow> admission" where
  "release_drained 0 a = a"
| "release_drained (Suc k) a = release_drained k (release_sem (a\<lparr>ad_slots := max 0 (ad_slots a - 1)\<rparr>))"

definition drained_one :: "nat \<Rightarrow> admission \<Rightarrow> admission" where
  "drained_one k a =
     a\<lparr>ad_slots := ad_slots a + 1,
       ad_exclusive := Some (if k + 1 = ad_n a then Running else Draining (k + 1))\<rparr>"

text \<open>
  Events. \<open>EnterTurn\<close>, \<open>GrantTurn\<close>, \<open>CancelTurn\<close>, \<open>ExitTurn\<close> are \<open>turn_slot\<close>; \<open>Park\<close>,
  \<open>Answered\<close>, \<open>GrantPark\<close>, \<open>CancelPark\<close> are \<open>parked_for_human_decision\<close> with \<open>reacquire\<close>;
  the others are \<open>exclusive\<close>, entered only while its lock is free.
\<close>

datatype adm_event =
    EnterTurn nat | GrantTurn nat | CancelTurn nat bool | ExitTurn nat
  | Park nat | Answered nat | GrantPark nat | CancelPark nat bool
  | LockExclusive | DrainStep | GrantDrain | CancelDrain bool | ExitExclusive

text \<open>\<open>parked_for_human_decision\<close>: give the slot back and count the parked turn; then, answered, count it
  back and \<open>reacquire\<close> unless the slot is held. A queued \<open>reacquire\<close> is granted or cancelled.\<close>

definition park_turn :: "nat \<Rightarrow> admission \<Rightarrow> admission option" where
  "park_turn t a =
     (case map_of (ad_turns a) t of
        Some (Inside held p) \<Rightarrow>
          (let a1 = holder_release held a
           in Some (set_turn t (Inside False (p + 1)) (a1\<lparr>ad_parked := ad_parked a1 + 1\<rparr>)))
      | _ \<Rightarrow> None)"

definition park_answered :: "nat \<Rightarrow> admission \<Rightarrow> admission option" where
  "park_answered t a =
     (case map_of (ad_turns a) t of
        Some (Inside held (Suc p)) \<Rightarrow>
          (let a1 = a\<lparr>ad_parked := max 0 (ad_parked a - 1)\<rparr>
           in Some (if held then set_turn t (Inside True p) a1
                    else if locked a1 then set_turn t (Inside False p) (queue_slot (WPark t) a1)
                    else set_turn t (Inside True p) (take_slot a1)))
      | _ \<Rightarrow> None)"

definition park_reacquired :: "nat \<Rightarrow> admission \<Rightarrow> admission option" where
  "park_reacquired t a =
     (case map_of (ad_turns a) t of
        Some (Inside held p) \<Rightarrow>
          if (WPark t, True) \<in> set (ad_waiters a)
          then Some (set_turn t (Inside True p) (granted_slot (WPark t) a)) else None
      | _ \<Rightarrow> None)"

definition park_cancelled :: "nat \<Rightarrow> bool \<Rightarrow> admission \<Rightarrow> admission option" where
  "park_cancelled t g a =
     (case map_of (ad_turns a) t of
        Some (Inside held p) \<Rightarrow>
          if (WPark t, g) \<in> set (ad_waiters a) then Some (cancelled_slot (WPark t) g a) else None
      | _ \<Rightarrow> None)"

text \<open>\<open>exclusive\<close> inside its lock: acquire slot after slot, and give back what was acquired.\<close>

definition drain_step :: "admission \<Rightarrow> admission option" where
  "drain_step a =
     (case ad_exclusive a of
        Some (Draining k) \<Rightarrow>
          if WDrain \<in> fst ` set (ad_waiters a) then None
          else Some (if locked a then a\<lparr>ad_waiters := ad_waiters a @ [(WDrain, False)]\<rparr>
                     else drained_one k (a\<lparr>ad_value := ad_value a - 1\<rparr>))
      | _ \<Rightarrow> None)"

definition drain_granted :: "admission \<Rightarrow> admission option" where
  "drain_granted a =
     (case ad_exclusive a of
        Some (Draining k) \<Rightarrow>
          if (WDrain, True) \<in> set (ad_waiters a) then Some (drained_one k (leave_queue (WDrain, True) 0 a)) else None
      | _ \<Rightarrow> None)"

definition drain_cancelled :: "bool \<Rightarrow> admission \<Rightarrow> admission option" where
  "drain_cancelled g a =
     (case ad_exclusive a of
        Some (Draining k) \<Rightarrow>
          if (WDrain, g) \<in> set (ad_waiters a)
          then Some ((release_drained k (leave_queue (WDrain, g) (if g then 1 else 0) a))\<lparr>ad_exclusive := None\<rparr>)
          else None
      | _ \<Rightarrow> None)"

definition exclusive_exit :: "admission \<Rightarrow> admission option" where
  "exclusive_exit a =
     (case ad_exclusive a of
        Some Running \<Rightarrow> Some ((release_drained (ad_n a) a)\<lparr>ad_exclusive := None\<rparr>)
      | _ \<Rightarrow> None)"

declare park_turn_def [simp] park_answered_def [simp] park_reacquired_def [simp] park_cancelled_def [simp] drain_step_def [simp] drain_granted_def [simp] drain_cancelled_def [simp] exclusive_exit_def [simp]

fun adm_step :: "adm_event \<Rightarrow> admission \<Rightarrow> admission option" where
  "adm_step (EnterTurn t) a =
     (if map_of (ad_turns a) t \<noteq> None then None
      else Some (if locked a then set_turn t Queued (queue_slot (WTurn t) a)
                 else set_turn t (Inside True 0) (take_slot a)))"
| "adm_step (GrantTurn t) a =
     (if map_of (ad_turns a) t = Some Queued \<and> (WTurn t, True) \<in> set (ad_waiters a)
      then Some (set_turn t (Inside True 0) (granted_slot (WTurn t) a)) else None)"
| "adm_step (CancelTurn t g) a =
     (if map_of (ad_turns a) t = Some Queued \<and> (WTurn t, g) \<in> set (ad_waiters a)
      then Some (set_turn t Left (cancelled_slot (WTurn t) g a)) else None)"
| "adm_step (ExitTurn t) a =
     (case map_of (ad_turns a) t of
        Some (Inside held p) \<Rightarrow>
          if p = 0 \<and> WPark t \<notin> fst ` set (ad_waiters a)
          then Some (set_turn t Left (holder_release held a)) else None
      | _ \<Rightarrow> None)"
| "adm_step (Park t) a = park_turn t a"
| "adm_step (Answered t) a = park_answered t a"
| "adm_step (GrantPark t) a = park_reacquired t a"
| "adm_step (CancelPark t g) a = park_cancelled t g a"
| "adm_step LockExclusive a =
     (if ad_exclusive a = None then Some (a\<lparr>ad_exclusive := Some (Draining 0)\<rparr>) else None)"
| "adm_step DrainStep a = drain_step a"
| "adm_step GrantDrain a = drain_granted a"
| "adm_step (CancelDrain g) a = drain_cancelled g a"
| "adm_step ExitExclusive a = exclusive_exit a"

inductive adm_reach :: "int \<Rightarrow> admission \<Rightarrow> bool" for n where
  start: "adm_reach n (new_admission n)"
| step: "adm_reach n a \<Longrightarrow> adm_step e a = Some a' \<Longrightarrow> adm_reach n a'"

end
