(* ===== verification/Turn_Admission_Props.thy ===== *)
theory Turn_Admission_Props imports Turn_Admission begin

text \<open>
  Invariants of the admission control over every reachable state: slots are conserved, never more
  than \<open>N\<close> are in use, an exclusive window runs alone, no wakeup is lost; and, for turns whose
  coroutines park one at a time, the slots in use are exactly the turns that hold one.
\<close>

section \<open>Queues\<close>

definition granted :: "queue \<Rightarrow> int" where
  "granted ws = int (length (filter snd ws))"

definition cnt :: "(waiter \<Rightarrow> bool) \<Rightarrow> queue \<Rightarrow> nat" where
  "cnt P ws = length (filter P (map fst ws))"

definition awake :: "int \<Rightarrow> queue \<Rightarrow> bool" where
  "awake v ws \<longleftrightarrow> 0 \<le> v \<and> (v = 0 \<or> ws = [] \<or> (\<exists>e \<in> set ws. snd e))"

lemma awake_all: "0 \<le> v \<Longrightarrow> \<forall>e \<in> set ws. snd e \<Longrightarrow> awake v ws"
  by (cases ws) (auto simp: awake_def)

lemma granted_simps [simp]:
  "granted [] = 0" "granted (e # ws) = (if snd e then 1 else 0) + granted ws"
  "granted (us @ ws) = granted us + granted ws"
  by (simp_all add: granted_def)

lemma cnt_simps [simp]:
  "cnt P [] = 0" "cnt P (e # ws) = (if P (fst e) then 1 else 0) + cnt P ws" "cnt P (us @ ws) = cnt P us + cnt P ws"
  by (simp_all add: cnt_def)

lemma cnt_zero_iff: "cnt P ws = 0 \<longleftrightarrow> (\<forall>w \<in> fst ` set ws. \<not> P w)"
  by (induction ws) auto

lemma cnt_cong: "map fst ws = map fst us \<Longrightarrow> cnt P ws = cnt P us"
  by (simp add: cnt_def)

lemma grant_first_None: "grant_first ws = None \<longleftrightarrow> (\<forall>e \<in> set ws. snd e)"
  by (induction ws rule: grant_first.induct) auto

lemma grant_first_Some:
  "grant_first ws = Some q \<Longrightarrow> map fst q = map fst ws \<and> granted q = granted ws + 1"
  by (induction ws arbitrary: q rule: grant_first.induct) auto

lemma wake_all_facts:
  "0 \<le> v \<Longrightarrow> wake_all v ws = (v', q) \<Longrightarrow>
     awake v' q \<and> v' + granted q = v + granted ws \<and> map fst q = map fst ws"
proof (induction v ws arbitrary: v' q rule: wake_all.induct)
  case (1 v ws)
  show ?case
  proof (cases "v > 0")
    case False
    then have "wake_all v ws = (v, ws)" by (simp add: wake_all.simps [of v ws])
    then show ?thesis using "1.prems" False by (auto simp: awake_def)
  next
    case True
    show ?thesis
    proof (cases "grant_first ws")
      case None
      then have "wake_all v ws = (v, ws)" by (simp add: wake_all.simps [of v ws])
      then show ?thesis using "1.prems" grant_first_None [THEN iffD1, OF None] by (auto intro: awake_all)
    next
      case (Some u)
      then show ?thesis
        using "1.IH" [OF True Some, of v' q] "1.prems" True grant_first_Some [OF Some]
        by (simp add: wake_all.simps [of v ws])
    qed
  qed
qed

lemma sem_release_facts:
  assumes "awake v ws" "sem_release v ws = (v', q)"
  shows "awake v' q \<and> v' + granted q = v + granted ws + 1 \<and> map fst q = map fst ws"
proof (cases "grant_first ws")
  case None
  then have "v' = v + 1" "q = ws" using assms(2) by (auto simp: sem_release_def)
  moreover have "0 \<le> v" using assms(1) by (simp add: awake_def)
  ultimately show ?thesis using grant_first_None [THEN iffD1, OF None] by (auto intro: awake_all)
next
  case (Some u)
  have "granted u > 0" using grant_first_Some [OF Some] by (simp add: granted_def)
  then have "\<exists>e \<in> set u. snd e" by (auto simp: granted_def filter_empty_conv)
  then show ?thesis using assms Some grant_first_Some [OF Some] by (auto simp: sem_release_def awake_def)
qed

lemma granted_remove1: "e \<in> set ws \<Longrightarrow> granted (remove1 e ws) = granted ws - (if snd e then 1 else 0)"
  by (induction ws) auto

lemma cnt_remove1: "e \<in> set ws \<Longrightarrow> cnt P (remove1 e ws) + (if P (fst e) then 1 else 0) = cnt P ws"
  by (induction ws) auto

section \<open>Sums over the turns\<close>

definition total :: "(turn_phase \<Rightarrow> int) \<Rightarrow> (nat \<times> turn_phase) list \<Rightarrow> int" where
  "total f d = sum_list (map (f \<circ> snd) d)"

fun holds :: "turn_phase \<Rightarrow> int" where
  "holds (Inside True p) = 1"
| "holds _ = 0"

fun parks :: "turn_phase \<Rightarrow> int" where
  "parks (Inside h p) = int p"
| "parks _ = 0"

lemma total_set:
  "dict_wf d \<Longrightarrow> total f (dict_set t p d) = total f d + f p - (case map_of d t of None \<Rightarrow> 0 | Some q \<Rightarrow> f q)"
proof (induction d)
  case Nil
  then show ?case by (simp add: total_def dict_set_def)
next
  case (Cons x d)
  obtain k q where x: "x = (k, q)" by force
  have "dict_wf d" and k: "k \<notin> fst ` set d" using Cons.prems by (auto simp: x dict_wf_def)
  then have "map_of d k = None" by (simp add: map_of_eq_None_iff)
  then show ?case using Cons.IH [OF \<open>dict_wf d\<close>] by (auto simp: x total_def dict_set_def)
qed

lemma total_nonneg: "(\<And>p. 0 \<le> f p) \<Longrightarrow> 0 \<le> total f d"
  unfolding total_def by (induction d) auto

lemma total_member: "(\<And>p. 0 \<le> f p) \<Longrightarrow> map_of d t = Some q \<Longrightarrow> f q \<le> total f d"
proof (induction d)
  case (Cons x d)
  have "0 \<le> total f d" using total_nonneg [of f d] Cons.prems(1) by blast
  then show ?case using Cons by (cases x) (auto simp: total_def split: if_splits intro: add_increasing)
qed simp

lemma holds_nonneg [simp]: "0 \<le> holds p" "holds p \<le> 1"
  by (cases p rule: holds.cases; simp)+

lemma parks_nonneg [simp]: "0 \<le> parks p"
  by (cases p) auto

section \<open>The invariant\<close>

fun drained :: "nat \<Rightarrow> exclusive_phase option \<Rightarrow> int" where
  "drained n None = 0"
| "drained n (Some (Draining k)) = int k"
| "drained n (Some Running) = int n"

abbreviation queued_count :: "admission \<Rightarrow> nat" where
  "queued_count a \<equiv> cnt (\<lambda>w. w \<noteq> WDrain) (ad_waiters a)"

definition adm_inv :: "admission \<Rightarrow> bool" where
  "adm_inv a \<longleftrightarrow>
     1 \<le> ad_n a \<and> dict_wf (ad_turns a) \<and> awake (ad_value a) (ad_waiters a)
   \<and> ad_value a + granted (ad_waiters a) + ad_slots a = int (ad_n a)
   \<and> ad_slots a = ad_active a + drained (ad_n a) (ad_exclusive a)
   \<and> total holds (ad_turns a) \<le> ad_active a
   \<and> ad_waiting a = int (queued_count a)
   \<and> ad_parked a = total parks (ad_turns a)
   \<and> (\<forall>k. ad_exclusive a = Some (Draining k) \<longrightarrow> k < ad_n a)
   \<and> (WDrain \<in> fst ` set (ad_waiters a) \<longrightarrow> (\<exists>k. ad_exclusive a = Some (Draining k)))
   \<and> cnt ((=) WDrain) (ad_waiters a) \<le> 1"

text \<open>What the queue operations do to the fields the invariant reads.\<close>

lemma leave_queue_facts:
  assumes "awake (ad_value a) (ad_waiters a)" "(w, g) \<in> set (ad_waiters a)" "given = 0 \<or> given = 1"
  defines "a' \<equiv> leave_queue (w, g) given a"
  shows "awake (ad_value a') (ad_waiters a')"
    and "ad_value a' + granted (ad_waiters a') = ad_value a + given + granted (ad_waiters a) - (if g then 1 else 0)"
    and "cnt P (ad_waiters a') + (if P w then 1 else 0) = cnt P (ad_waiters a)"
    and "ad_n a' = ad_n a" "ad_slots a' = ad_slots a" "ad_active a' = ad_active a" "ad_waiting a' = ad_waiting a"
      "ad_parked a' = ad_parked a" "ad_exclusive a' = ad_exclusive a" "ad_turns a' = ad_turns a"
proof -
  obtain v q where w: "wake_all (ad_value a + given) (remove1 (w, g) (ad_waiters a)) = (v, q)"
    by (cases "wake_all (ad_value a + given) (remove1 (w, g) (ad_waiters a))") auto
  have "0 \<le> ad_value a + given" using assms(1,3) by (auto simp: awake_def)
  note f = wake_all_facts [OF this w]
  have a': "a' = a\<lparr>ad_value := v, ad_waiters := q\<rparr>" by (simp add: a'_def leave_queue_def w)
  show "awake (ad_value a') (ad_waiters a')" using f a' by simp
  show "ad_value a' + granted (ad_waiters a') = ad_value a + given + granted (ad_waiters a) - (if g then 1 else 0)"
    using f a' granted_remove1 [OF assms(2)] by simp
  have "cnt P q = cnt P (remove1 (w, g) (ad_waiters a))" using f by (intro cnt_cong) simp
  then show "cnt P (ad_waiters a') + (if P w then 1 else 0) = cnt P (ad_waiters a)"
    using a' cnt_remove1 [OF assms(2), of P] by simp
qed (simp_all add: a'_def leave_queue_def split: prod.split)

lemma release_sem_facts:
  assumes "awake (ad_value a) (ad_waiters a)"
  defines "a' \<equiv> release_sem a"
  shows "awake (ad_value a') (ad_waiters a')"
    and "ad_value a' + granted (ad_waiters a') = ad_value a + granted (ad_waiters a) + 1"
    and "map fst (ad_waiters a') = map fst (ad_waiters a)"
    and "ad_n a' = ad_n a" "ad_slots a' = ad_slots a" "ad_active a' = ad_active a" "ad_waiting a' = ad_waiting a"
      "ad_parked a' = ad_parked a" "ad_exclusive a' = ad_exclusive a" "ad_turns a' = ad_turns a"
proof -
  obtain v q where w: "sem_release (ad_value a) (ad_waiters a) = (v, q)"
    by (cases "sem_release (ad_value a) (ad_waiters a)") auto
  note f = sem_release_facts [OF assms(1) w]
  have a': "a' = a\<lparr>ad_value := v, ad_waiters := q\<rparr>" by (simp add: a'_def release_sem_def w)
  show "awake (ad_value a') (ad_waiters a')"
    "ad_value a' + granted (ad_waiters a') = ad_value a + granted (ad_waiters a) + 1"
    "map fst (ad_waiters a') = map fst (ad_waiters a)" using f a' by simp_all
qed (simp_all add: a'_def release_sem_def split: prod.split)

lemma release_drained_facts:
  assumes "awake (ad_value a) (ad_waiters a)" "int k \<le> ad_slots a"
  shows "awake (ad_value (release_drained k a)) (ad_waiters (release_drained k a))
    \<and> ad_value (release_drained k a) + granted (ad_waiters (release_drained k a)) + ad_slots (release_drained k a)
      = ad_value a + granted (ad_waiters a) + ad_slots a
    \<and> ad_slots (release_drained k a) = ad_slots a - int k
    \<and> map fst (ad_waiters (release_drained k a)) = map fst (ad_waiters a)
    \<and> ad_n (release_drained k a) = ad_n a \<and> ad_active (release_drained k a) = ad_active a
    \<and> ad_waiting (release_drained k a) = ad_waiting a \<and> ad_parked (release_drained k a) = ad_parked a
    \<and> ad_turns (release_drained k a) = ad_turns a"
  using assms
proof (induction k arbitrary: a)
  case 0
  then show ?case by simp
next
  case (Suc k)
  let ?b = "a\<lparr>ad_slots := max 0 (ad_slots a - 1)\<rparr>"
  have aw: "awake (ad_value ?b) (ad_waiters ?b)" using Suc.prems by simp
  note f = release_sem_facts [OF aw]
  have "int k \<le> ad_slots (release_sem ?b)" using f(5) Suc.prems by simp
  from Suc.IH [OF f(1) this] show ?case using f(2-10) Suc.prems by simp
qed

lemma fst_in_iff: "map fst (ws :: queue) = map fst us \<Longrightarrow> w \<in> fst ` set ws \<longleftrightarrow> w \<in> fst ` set us"
  by (metis list.set_map)

lemma adm_inv_start: "adm_inv (new_admission n)"
  by (cases "1 \<le> n") (simp_all add: adm_inv_def new_admission_def awake_def dict_wf_def total_def max_def nat_le_eq_zle)

lemma set_turn_fields [simp]:
  "ad_n (set_turn t p a) = ad_n a" "ad_value (set_turn t p a) = ad_value a" "ad_waiters (set_turn t p a) = ad_waiters a"
  "ad_slots (set_turn t p a) = ad_slots a" "ad_active (set_turn t p a) = ad_active a"
  "ad_waiting (set_turn t p a) = ad_waiting a" "ad_parked (set_turn t p a) = ad_parked a"
  "ad_exclusive (set_turn t p a) = ad_exclusive a" "ad_turns (set_turn t p a) = dict_set t p (ad_turns a)"
  by (simp_all add: set_turn_def)

lemma adm_invD:
  assumes "adm_inv a"
  shows "1 \<le> ad_n a" "dict_wf (ad_turns a)" "awake (ad_value a) (ad_waiters a)"
    "ad_value a + granted (ad_waiters a) + ad_slots a = int (ad_n a)"
    "ad_slots a = ad_active a + drained (ad_n a) (ad_exclusive a)"
    "total holds (ad_turns a) \<le> ad_active a" "ad_waiting a = int (queued_count a)"
    "ad_parked a = total parks (ad_turns a)"
    "ad_exclusive a = Some (Draining k) \<Longrightarrow> k < ad_n a"
    "WDrain \<in> fst ` set (ad_waiters a) \<Longrightarrow> \<exists>k. ad_exclusive a = Some (Draining k)"
    "cnt ((=) WDrain) (ad_waiters a) \<le> 1"
  using assms unfolding adm_inv_def by blast+

lemma in_cnt: "w \<in> fst ` set ws \<longleftrightarrow> 0 < cnt ((=) w) ws"
  using cnt_zero_iff [of "(=) w" ws] by auto

lemma adm_invI:
  assumes "1 \<le> ad_n a" "dict_wf (ad_turns a)" "awake (ad_value a) (ad_waiters a)"
    "ad_value a + granted (ad_waiters a) + ad_slots a = int (ad_n a)"
    "ad_slots a = ad_active a + drained (ad_n a) (ad_exclusive a)"
    "total holds (ad_turns a) \<le> ad_active a" "ad_waiting a = int (queued_count a)"
    "ad_parked a = total parks (ad_turns a)"
    "\<And>k. ad_exclusive a = Some (Draining k) \<Longrightarrow> k < ad_n a"
    "0 < cnt ((=) WDrain) (ad_waiters a) \<Longrightarrow> \<exists>k. ad_exclusive a = Some (Draining k)"
    "cnt ((=) WDrain) (ad_waiters a) \<le> 1"
  shows "adm_inv a"
  unfolding adm_inv_def in_cnt using assms by blast

lemma granted_slot_facts:
  assumes "awake (ad_value a) (ad_waiters a)" "(w, True) \<in> set (ad_waiters a)" "w \<noteq> WDrain"
    "ad_waiting a = int (queued_count a)"
  defines "a' \<equiv> granted_slot w a"
  shows "awake (ad_value a') (ad_waiters a')"
    and "ad_value a' + granted (ad_waiters a') + ad_slots a' = ad_value a + granted (ad_waiters a) + ad_slots a"
    and "ad_waiting a' = int (queued_count a')"
    and "cnt P (ad_waiters a') + (if P w then 1 else 0) = cnt P (ad_waiters a)"
    and "ad_n a' = ad_n a" "ad_slots a' = ad_slots a + 1" "ad_active a' = ad_active a + 1"
      "ad_parked a' = ad_parked a" "ad_exclusive a' = ad_exclusive a" "ad_turns a' = ad_turns a"
proof -
  note f = leave_queue_facts [OF assms(1,2), of 0]
  let ?b = "leave_queue (w, True) 0 a"
  have a': "ad_value a' = ad_value ?b" "ad_waiters a' = ad_waiters ?b"
    "ad_waiting a' = max 0 (ad_waiting ?b - 1)" "ad_slots a' = ad_slots ?b + 1" "ad_active a' = ad_active ?b + 1"
    "ad_n a' = ad_n ?b" "ad_parked a' = ad_parked ?b" "ad_exclusive a' = ad_exclusive ?b" "ad_turns a' = ad_turns ?b"
    by (simp_all add: a'_def granted_slot_def Let_def)
  show "awake (ad_value a') (ad_waiters a')" using f(1) a' by simp
  show "ad_value a' + granted (ad_waiters a') + ad_slots a' = ad_value a + granted (ad_waiters a) + ad_slots a"
    using f(2) f(5) a' by simp
  show c: "cnt P (ad_waiters a') + (if P w then 1 else 0) = cnt P (ad_waiters a)" for P
    using f(3) [of P] a' by simp
  show "ad_waiting a' = int (queued_count a')"
    using c [of "\<lambda>w. w \<noteq> WDrain"] f(7) a' assms(3,4) by simp
qed (use leave_queue_facts [OF assms(1,2), of 0] in \<open>simp_all add: a'_def granted_slot_def Let_def\<close>)

lemma cancelled_slot_facts:
  assumes "awake (ad_value a) (ad_waiters a)" "(w, g) \<in> set (ad_waiters a)" "w \<noteq> WDrain"
    "ad_waiting a = int (queued_count a)"
  defines "a' \<equiv> cancelled_slot w g a"
  shows "awake (ad_value a') (ad_waiters a')"
    and "ad_value a' + granted (ad_waiters a') = ad_value a + granted (ad_waiters a)"
    and "ad_waiting a' = int (queued_count a')"
    and "cnt P (ad_waiters a') + (if P w then 1 else 0) = cnt P (ad_waiters a)"
    and "ad_n a' = ad_n a" "ad_slots a' = ad_slots a" "ad_active a' = ad_active a"
      "ad_parked a' = ad_parked a" "ad_exclusive a' = ad_exclusive a" "ad_turns a' = ad_turns a"
proof -
  let ?given = "if g then 1 else 0 :: int"
  have giv: "?given = 0 \<or> ?given = 1" by simp
  note f = leave_queue_facts [OF assms(1,2) giv]
  let ?b = "leave_queue (w, g) ?given a"
  have a': "a' = ?b\<lparr>ad_waiting := max 0 (ad_waiting ?b - 1)\<rparr>"
    by (simp add: a'_def cancelled_slot_def Let_def)
  show "awake (ad_value a') (ad_waiters a')" using f(1) a' by simp
  show "ad_value a' + granted (ad_waiters a') = ad_value a + granted (ad_waiters a)" using f(2) a' by simp
  show c: "cnt P (ad_waiters a') + (if P w then 1 else 0) = cnt P (ad_waiters a)" for P
    using f(3) [of P] a' by simp
  show "ad_waiting a' = int (queued_count a')"
    using c [of "\<lambda>w. w \<noteq> WDrain"] f(7) a' assms(3,4) by simp
  show "ad_n a' = ad_n a" "ad_slots a' = ad_slots a" "ad_active a' = ad_active a"
      "ad_parked a' = ad_parked a" "ad_exclusive a' = ad_exclusive a" "ad_turns a' = ad_turns a"
    using f(4-10) a' by simp_all
qed

lemma release_slot_facts:
  assumes "awake (ad_value a) (ad_waiters a)" "1 \<le> ad_active a" "1 \<le> ad_slots a"
  defines "a' \<equiv> release_slot a"
  shows "awake (ad_value a') (ad_waiters a')"
    and "ad_value a' + granted (ad_waiters a') + ad_slots a' = ad_value a + granted (ad_waiters a) + ad_slots a"
    and "cnt P (ad_waiters a') = cnt P (ad_waiters a)"
    and "ad_n a' = ad_n a" "ad_slots a' = ad_slots a - 1" "ad_active a' = ad_active a - 1" "ad_waiting a' = ad_waiting a"
      "ad_parked a' = ad_parked a" "ad_exclusive a' = ad_exclusive a" "ad_turns a' = ad_turns a"
proof -
  let ?b = "a\<lparr>ad_active := max 0 (ad_active a - 1), ad_slots := max 0 (ad_slots a - 1)\<rparr>"
  have aw: "awake (ad_value ?b) (ad_waiters ?b)" using assms(1) by simp
  note f = release_sem_facts [OF aw]
  have a': "a' = release_sem ?b" by (simp add: a'_def release_slot_def)
  show "awake (ad_value a') (ad_waiters a')" using f(1) a' by simp
  show "ad_value a' + granted (ad_waiters a') + ad_slots a' = ad_value a + granted (ad_waiters a) + ad_slots a"
    using f(2,5) a' assms(3) by simp
  show "cnt P (ad_waiters a') = cnt P (ad_waiters a)" using f(3) a' by (intro cnt_cong) simp
  show "ad_n a' = ad_n a" "ad_slots a' = ad_slots a - 1" "ad_active a' = ad_active a - 1" "ad_waiting a' = ad_waiting a"
      "ad_parked a' = ad_parked a" "ad_exclusive a' = ad_exclusive a" "ad_turns a' = ad_turns a"
    using f(4-10) a' assms(2,3) by simp_all
qed

lemma drained_nonneg: "0 \<le> drained n x"
  by (cases "(n, x)" rule: drained.cases) auto

lemma awake_append: "awake v ws \<Longrightarrow> v = 0 \<or> ws \<noteq> [] \<Longrightarrow> awake v (ws @ [(w, False)])"
  by (auto simp: awake_def)

lemma step_slots:
  assumes "adm_inv a" "map_of (ad_turns a) t = Some (Inside True p)"
  shows "1 \<le> ad_active a" "1 \<le> ad_slots a"
proof -
  have "holds (Inside True p) \<le> total holds (ad_turns a)" by (rule total_member [OF _ assms(2)]) simp
  then show "1 \<le> ad_active a" using adm_invD(6) [OF assms(1)] by simp
  then show "1 \<le> ad_slots a"
    using adm_invD(5) [OF assms(1)] drained_nonneg [of "ad_n a" "ad_exclusive a"] by linarith
qed

lemma inv_take: 
  assumes "adm_inv a" "\<not> locked a"
  shows "awake (ad_value (take_slot a)) (ad_waiters (take_slot a))"
    "ad_value (take_slot a) + granted (ad_waiters (take_slot a)) + ad_slots (take_slot a) = int (ad_n a)"
  using adm_invD(3,4) [OF assms(1)] assms(2) by (auto simp: take_slot_def locked_def awake_def)

lemma take_slot_fields [simp]:
  "ad_n (take_slot a) = ad_n a" "ad_waiters (take_slot a) = ad_waiters a" "ad_slots (take_slot a) = ad_slots a + 1"
  "ad_active (take_slot a) = ad_active a + 1" "ad_waiting (take_slot a) = ad_waiting a"
  "ad_parked (take_slot a) = ad_parked a" "ad_exclusive (take_slot a) = ad_exclusive a" "ad_turns (take_slot a) = ad_turns a"
  by (simp_all add: take_slot_def)

lemma queue_slot_fields [simp]:
  "ad_n (queue_slot w a) = ad_n a" "ad_value (queue_slot w a) = ad_value a"
  "ad_waiters (queue_slot w a) = ad_waiters a @ [(w, False)]" "ad_slots (queue_slot w a) = ad_slots a"
  "ad_active (queue_slot w a) = ad_active a" "ad_waiting (queue_slot w a) = ad_waiting a + 1"
  "ad_parked (queue_slot w a) = ad_parked a" "ad_exclusive (queue_slot w a) = ad_exclusive a"
  "ad_turns (queue_slot w a) = ad_turns a"
  by (simp_all add: queue_slot_def)

lemma inv_queue:
  assumes "adm_inv a" "locked a" "w \<noteq> WDrain"
  shows "adm_inv (queue_slot w a)"
  by (rule adm_invI)
    (use adm_invD [OF assms(1)] assms(2,3) in_cnt in \<open>auto simp: locked_def intro: awake_append\<close>)

text \<open>Changing what the turns record, with the counters adjusted accordingly.\<close>

lemma inv_set_turn:
  assumes "adm_inv a" "map_of (ad_turns a) t = Some q" "holds p \<le> holds q" "parks p = parks q"
  shows "adm_inv (set_turn t p a)"
  by (rule adm_invI)
    (use adm_invD [OF assms(1)] assms(2-4) in_cnt in \<open>auto simp: total_set dict_wf_set\<close>)

lemma inv_granted:
  assumes "adm_inv a" "(w, True) \<in> set (ad_waiters a)" "w \<noteq> WDrain" "map_of (ad_turns a) t = Some q"
    "holds p \<le> holds q + 1" "parks p = parks q"
  shows "adm_inv (set_turn t p (granted_slot w a))"
proof -
  note D = adm_invD [OF assms(1)]
  note f = granted_slot_facts [OF D(3) assms(2,3) D(7)]
  have c: "cnt ((=) WDrain) (ad_waiters (granted_slot w a)) = cnt ((=) WDrain) (ad_waiters a)"
    using f(4) [of "(=) WDrain"] assms(3) by auto
  show ?thesis
    by (rule adm_invI)
      (use D f c assms(4-6) in_cnt in \<open>auto simp: total_set dict_wf_set\<close>)
qed

lemma inv_cancelled:
  assumes "adm_inv a" "(w, g) \<in> set (ad_waiters a)" "w \<noteq> WDrain"
  shows "adm_inv (cancelled_slot w g a)"
proof -
  note D = adm_invD [OF assms(1)]
  note f = cancelled_slot_facts [OF D(3) assms(2,3) D(7)]
  have c: "cnt ((=) WDrain) (ad_waiters (cancelled_slot w g a)) = cnt ((=) WDrain) (ad_waiters a)"
    using f(4) [of "(=) WDrain"] assms(3) by auto
  show ?thesis
    by (rule adm_invI) (use D f c in_cnt in auto)
qed

lemma inv_released:
  assumes "adm_inv a" "map_of (ad_turns a) t = Some (Inside True p)" "holds q = 0" "parks q = int p"
  shows "adm_inv (set_turn t q (release_slot a))"
proof -
  note D = adm_invD [OF assms(1)]
  note f = release_slot_facts [OF D(3) step_slots [OF assms(1,2)]]
  show ?thesis
    by (rule adm_invI) (use D f assms(2-4) in_cnt in \<open>auto simp: total_set dict_wf_set\<close>)
qed

lemma locked_parked [simp]: "locked (a\<lparr>ad_parked := x\<rparr>) = locked a"
  by (simp add: locked_def)

lemma inv_parked:
  assumes "adm_inv a" "map_of (ad_turns a) t = Some (Inside held p)"
  shows "adm_inv (set_turn t (Inside False (p + 1)) ((holder_release held a)\<lparr>ad_parked := ad_parked (holder_release held a) + 1\<rparr>))"
proof (cases held)
  case True
  note D = adm_invD [OF assms(1)]
  have t: "map_of (ad_turns a) t = Some (Inside True p)" using assms(2) True by simp
  note f = release_slot_facts [OF D(3) step_slots [OF assms(1) t]]
  show ?thesis
    by (rule adm_invI) (use D f True assms(2) in_cnt in \<open>auto simp: total_set dict_wf_set holder_release_def\<close>)
next
  case False
  show ?thesis
    by (rule adm_invI)
      (use adm_invD [OF assms(1)] False assms(2) in_cnt in \<open>auto simp: total_set dict_wf_set holder_release_def\<close>)
qed

lemma inv_answered:
  assumes inv: "adm_inv a" and t: "map_of (ad_turns a) t = Some (Inside held (Suc p))"
  defines "b \<equiv> a\<lparr>ad_parked := max 0 (ad_parked a - 1)\<rparr>"
  shows "held \<Longrightarrow> adm_inv (set_turn t (Inside True p) b)"
    and "\<not> held \<Longrightarrow> locked b \<Longrightarrow> adm_inv (set_turn t (Inside False p) (queue_slot (WPark t) b))"
    and "\<not> held \<Longrightarrow> \<not> locked b \<Longrightarrow> adm_inv (set_turn t (Inside True p) (take_slot b))"
proof -
  note D = adm_invD [OF inv]
  have "parks (Inside held (Suc p)) \<le> total parks (ad_turns a)" by (rule total_member [OF _ t]) simp
  then have b: "ad_parked b = ad_parked a - 1" using D(8) by (simp add: b_def)
  show "adm_inv (set_turn t (Inside True p) b)" if held
    by (rule adm_invI) (use D b t that in_cnt in \<open>auto simp: total_set dict_wf_set b_def\<close>)
  show "adm_inv (set_turn t (Inside False p) (queue_slot (WPark t) b))" if "\<not> held" "locked b"
    by (rule adm_invI)
      (use D b t that in_cnt in \<open>auto simp: total_set dict_wf_set b_def locked_def intro: awake_append\<close>)
  show "adm_inv (set_turn t (Inside True p) (take_slot b))" if "\<not> held" "\<not> locked b"
    by (rule adm_invI)
      (use D b t that in_cnt inv_take [OF inv] in \<open>auto simp: total_set dict_wf_set b_def locked_def take_slot_def awake_def\<close>)
qed

lemma inv_entered:
  assumes "adm_inv a" "map_of (ad_turns a) t = None"
  shows "locked a \<Longrightarrow> adm_inv (set_turn t Queued (queue_slot (WTurn t) a))"
    and "\<not> locked a \<Longrightarrow> adm_inv (set_turn t (Inside True 0) (take_slot a))"
proof -
  note D = adm_invD [OF assms(1)]
  show "adm_inv (set_turn t Queued (queue_slot (WTurn t) a))" if "locked a"
    by (rule adm_invI)
      (use D that assms(2) in_cnt in \<open>auto simp: total_set dict_wf_set locked_def intro: awake_append\<close>)
  show "adm_inv (set_turn t (Inside True 0) (take_slot a))" if "\<not> locked a"
    by (rule adm_invI) (use D that assms(2) in_cnt inv_take [OF assms(1)] in \<open>auto simp: total_set dict_wf_set\<close>)
qed

lemma inv_drained_one:
  assumes "adm_inv a" "ad_exclusive a = Some (Draining k)"
  shows "\<not> locked a \<Longrightarrow> adm_inv (drained_one k (a\<lparr>ad_value := ad_value a - 1\<rparr>))"
    and "(WDrain, True) \<in> set (ad_waiters a) \<Longrightarrow> adm_inv (drained_one k (leave_queue (WDrain, True) 0 a))"
proof -
  note D = adm_invD [OF assms(1)]
  have k: "k < ad_n a" using D(9) assms(2) by blast
  show "adm_inv (drained_one k (a\<lparr>ad_value := ad_value a - 1\<rparr>))" if "\<not> locked a"
    by (rule adm_invI)
      (use D that assms(2) k in_cnt in \<open>auto simp: drained_one_def locked_def awake_def split: if_splits\<close>)
  show "adm_inv (drained_one k (leave_queue (WDrain, True) 0 a))" if w: "(WDrain, True) \<in> set (ad_waiters a)"
  proof -
    note f = leave_queue_facts [OF D(3) w, of 0]
    have "cnt ((=) WDrain) (ad_waiters (leave_queue (WDrain, True) 0 a)) = 0"
      "queued_count (leave_queue (WDrain, True) 0 a) = queued_count a"
      using f(3) [of "(=) WDrain"] f(3) [of "\<lambda>w. w \<noteq> WDrain"] D(11) by auto
    then show ?thesis
      by - (rule adm_invI, use D f assms(2) k in \<open>auto simp: drained_one_def split: if_splits\<close>)
  qed
qed

lemma inv_exclusive_end:
  assumes "awake (ad_value b) (ad_waiters b)" "ad_value b + granted (ad_waiters b) + ad_slots b = int (ad_n b)"
    "1 \<le> ad_n b" "dict_wf (ad_turns b)" "ad_slots b = ad_active b + int k" "0 \<le> ad_active b"
    "total holds (ad_turns b) \<le> ad_active b"
    "ad_waiting b = int (queued_count b)" "ad_parked b = total parks (ad_turns b)" "cnt ((=) WDrain) (ad_waiters b) = 0"
  shows "adm_inv ((release_drained k b)\<lparr>ad_exclusive := None\<rparr>)"
proof -
  have "int k \<le> ad_slots b" using assms(5,6) by simp
  note f = release_drained_facts [OF assms(1) this]
  have c: "cnt P (ad_waiters (release_drained k b)) = cnt P (ad_waiters b)" for P
    using f by (intro cnt_cong) simp
  show ?thesis
    by (rule adm_invI) (use f c assms in auto)
qed

lemma active_nonneg: "adm_inv a \<Longrightarrow> 0 \<le> ad_active a"
  using adm_invD(6) [of a] total_nonneg [of holds "ad_turns a"] by auto

lemma inv_exclusive:
  assumes "adm_inv a"
  shows "ad_exclusive a = Some Running \<Longrightarrow> adm_inv ((release_drained (ad_n a) a)\<lparr>ad_exclusive := None\<rparr>)"
    and "ad_exclusive a = Some (Draining k) \<Longrightarrow> (WDrain, g) \<in> set (ad_waiters a) \<Longrightarrow>
      adm_inv ((release_drained k (leave_queue (WDrain, g) (if g then 1 else 0) a))\<lparr>ad_exclusive := None\<rparr>)"
proof -
  note D = adm_invD [OF assms]
  show "adm_inv ((release_drained (ad_n a) a)\<lparr>ad_exclusive := None\<rparr>)" if r: "ad_exclusive a = Some Running"
  proof (rule inv_exclusive_end)
    show "cnt ((=) WDrain) (ad_waiters a) = 0" using D(10) r in_cnt [of WDrain "ad_waiters a"] by force
  qed (use D r active_nonneg [OF assms] in auto)
  show "adm_inv ((release_drained k (leave_queue (WDrain, g) (if g then 1 else 0) a))\<lparr>ad_exclusive := None\<rparr>)"
    if r: "ad_exclusive a = Some (Draining k)" and w: "(WDrain, g) \<in> set (ad_waiters a)"
  proof -
    have giv: "(if g then 1 else 0 :: int) = 0 \<or> (if g then 1 else 0 :: int) = 1" by simp
    note f = leave_queue_facts [OF D(3) w giv]
    let ?b = "leave_queue (WDrain, g) (if g then 1 else 0) a"
    have c: "cnt ((=) WDrain) (ad_waiters ?b) = 0" "queued_count ?b = queued_count a"
      using f(3) [of "(=) WDrain"] f(3) [of "\<lambda>w. w \<noteq> WDrain"] D(11) by auto
    show ?thesis
    proof (rule inv_exclusive_end)
      show "ad_value ?b + granted (ad_waiters ?b) + ad_slots ?b = int (ad_n ?b)"
        using f(2,4,5) D(4) by simp
    qed (use D f(1,4-10) c r active_nonneg [OF assms] in auto)
  qed
qed

lemma inv_cancel_turn:
  assumes inv: "adm_inv a" and st: "adm_step (CancelTurn t g) a = Some a'"
  shows "adm_inv a'"
proof -
  have c: "(WTurn t, g) \<in> set (ad_waiters a)" "map_of (ad_turns a) t = Some Queued"
    and a': "a' = set_turn t Left (cancelled_slot (WTurn t) g a)"
    using st by (auto split: if_splits)
  note D = adm_invD [OF inv]
  have "ad_turns (cancelled_slot (WTurn t) g a) = ad_turns a"
    using cancelled_slot_facts [OF D(3) c(1) _ D(7)] by simp
  then show ?thesis
    unfolding a' using inv_set_turn [OF inv_cancelled [OF inv c(1)], of t Queued Left] c(2) by simp
qed

lemma inv_exit_turn:
  assumes inv: "adm_inv a" and st: "adm_step (ExitTurn t) a = Some a'"
  shows "adm_inv a'"
proof -
  obtain held where h: "map_of (ad_turns a) t = Some (Inside held 0)" "a' = set_turn t Left (holder_release held a)"
    using st by (auto split: option.splits turn_phase.splits if_splits)
  then show ?thesis
    using inv_released [OF inv, of t 0 Left] inv_set_turn [OF inv, of t "Inside False 0" Left]
    by (cases held) (auto simp: holder_release_def)
qed

lemma inv_drain_step:
  assumes inv: "adm_inv a" and st: "adm_step DrainStep a = Some a'"
  shows "adm_inv a'"
proof -
  obtain k where k: "ad_exclusive a = Some (Draining k)" "WDrain \<notin> fst ` set (ad_waiters a)"
    and a': "a' = (if locked a then a\<lparr>ad_waiters := ad_waiters a @ [(WDrain, False)]\<rparr>
             else drained_one k (a\<lparr>ad_value := ad_value a - 1\<rparr>))"
    using st by (auto split: option.splits exclusive_phase.splits if_splits)
  show ?thesis
  proof (cases "locked a")
    case True
    have "cnt ((=) WDrain) (ad_waiters a) = 0" using k(2) in_cnt [of WDrain "ad_waiters a"] by simp
    then show ?thesis using True a' k(1) adm_invD [OF inv]
      by - (rule adm_invI, auto simp: locked_def intro: awake_append)
  next
    case False
    then show ?thesis using a' inv_drained_one(1) [OF inv k(1)] by simp
  qed
qed

lemma adm_inv_step:
  assumes inv: "adm_inv a" and st: "adm_step e a = Some a'"
  shows "adm_inv a'"
proof (cases e)
  case (EnterTurn t)
  then show ?thesis using st inv_entered [OF inv] by (auto split: if_splits)
next
  case (GrantTurn t)
  then show ?thesis using st inv_granted [OF inv, of "WTurn t" t Queued "Inside True 0"] by (auto split: if_splits)
next
  case (CancelTurn t g)
  then show ?thesis using inv_cancel_turn [OF inv] st by blast
next
  case (ExitTurn t)
  then show ?thesis using inv_exit_turn [OF inv] st by blast
next
  case (Park t)
  then show ?thesis
    using st inv_parked [OF inv] by (auto simp: Let_def split: option.splits turn_phase.splits)
next
  case (Answered t)
  then obtain held p where h: "map_of (ad_turns a) t = Some (Inside held (Suc p))"
    using st by (auto split: option.splits turn_phase.splits nat.splits)
  then show ?thesis
    using st Answered inv_answered [OF inv h] by (auto simp: Let_def split: if_splits)
next
  case (GrantPark t)
  then obtain held p where h: "map_of (ad_turns a) t = Some (Inside held p)" "(WPark t, True) \<in> set (ad_waiters a)"
      "a' = set_turn t (Inside True p) (granted_slot (WPark t) a)"
    using st by (auto split: option.splits turn_phase.splits if_splits)
  then show ?thesis
    using inv_granted [OF inv h(2) _ h(1), of "Inside True p"] by simp
next
  case (CancelPark t g)
  then show ?thesis
    using st inv_cancelled [OF inv, of "WPark t" g] by (auto split: option.splits turn_phase.splits if_splits)
next
  case LockExclusive
  then have l: "ad_exclusive a = None" "a' = a\<lparr>ad_exclusive := Some (Draining 0)\<rparr>" using st by (auto split: if_splits)
  show ?thesis
    by (rule adm_invI) (use adm_invD [OF inv] l in_cnt in auto)
next
  case DrainStep
  then show ?thesis using inv_drain_step [OF inv] st by blast
next
  case GrantDrain
  then show ?thesis
    using st inv_drained_one(2) [OF inv] by (auto split: option.splits exclusive_phase.splits if_splits)
next
  case (CancelDrain g)
  then obtain k where k: "ad_exclusive a = Some (Draining k)" "(WDrain, g) \<in> set (ad_waiters a)"
    "a' = (release_drained k (leave_queue (WDrain, g) (if g then 1 else 0) a))\<lparr>ad_exclusive := None\<rparr>"
    using st by (auto split: option.splits exclusive_phase.splits if_splits)
  show ?thesis unfolding k(3) by (rule inv_exclusive(2) [OF inv k(1,2)])
next
  case ExitExclusive
  then show ?thesis
    using st inv_exclusive(1) [OF inv] by (auto split: option.splits exclusive_phase.splits if_splits)
qed

lemma adm_inv_reach: "adm_reach n a \<Longrightarrow> adm_inv a"
  by (induction rule: adm_reach.induct) (auto intro: adm_inv_start adm_inv_step)

section \<open>Turns that park one coroutine at a time\<close>

definition solo_event :: "adm_event \<Rightarrow> admission \<Rightarrow> bool" where
  "solo_event e a =
     (case e of
        Park t \<Rightarrow> (\<exists>held. map_of (ad_turns a) t = Some (Inside held 0)) \<and> WPark t \<notin> fst ` set (ad_waiters a)
      | _ \<Rightarrow> True)"

inductive solo_reach :: "int \<Rightarrow> admission \<Rightarrow> bool" for n where
  start: "solo_reach n (new_admission n)"
| step: "solo_reach n a \<Longrightarrow> solo_event e a \<Longrightarrow> adm_step e a = Some a' \<Longrightarrow> solo_reach n a'"

lemma solo_adm: "solo_reach n a \<Longrightarrow> adm_reach n a"
  by (induction rule: solo_reach.induct) (auto intro: adm_reach.intros)

abbreviation reacquiring :: "nat \<Rightarrow> admission \<Rightarrow> nat" where
  "reacquiring t a \<equiv> cnt ((=) (WPark t)) (ad_waiters a)"

fun park_ok :: "turn_phase option \<Rightarrow> nat \<Rightarrow> bool" where
  "park_ok (Some (Inside held p)) r \<longleftrightarrow> p + r \<le> 1 \<and> (held \<longrightarrow> p + r = 0)"
| "park_ok _ r \<longleftrightarrow> r = 0"

definition turn_ok :: "admission \<Rightarrow> nat \<Rightarrow> bool" where
  "turn_ok a t \<longleftrightarrow> park_ok (map_of (ad_turns a) t) (reacquiring t a)"

definition solo_inv :: "admission \<Rightarrow> bool" where
  "solo_inv a \<longleftrightarrow> adm_inv a \<and> total holds (ad_turns a) = ad_active a \<and> (\<forall>t. turn_ok a t)"

lemma solo_update:
  assumes "\<forall>t. turn_ok a t" "dict_wf (ad_turns a)" "total holds (ad_turns a) = ad_active a"
    and "ad_turns b = dict_set t q (ad_turns a)"
    "\<And>u. u \<noteq> t \<Longrightarrow> reacquiring u b = reacquiring u a" "park_ok (Some q) (reacquiring t b)"
    "ad_active b = ad_active a + holds q - (case map_of (ad_turns a) t of None \<Rightarrow> 0 | Some p \<Rightarrow> holds p)"
  shows "total holds (ad_turns b) = ad_active b \<and> (\<forall>u. turn_ok b u)"
proof
  show "total holds (ad_turns b) = ad_active b"
    using assms(2-4,7) by (simp add: total_set)
  show "\<forall>u. turn_ok b u"
  proof
    fix u
    show "turn_ok b u"
    proof (cases "u = t")
      case True
      then show ?thesis using assms(4,6) by (simp add: turn_ok_def dict_simps)
    next
      case False
      then show ?thesis
        using assms(1) [rule_format, of u] assms(4,5) by (simp add: turn_ok_def dict_simps)
    qed
  qed
qed

lemma turn_ok_same:
  assumes "\<forall>t. turn_ok a t" "ad_turns b = ad_turns a" "\<And>u. reacquiring u b = reacquiring u a"
  shows "\<forall>u. turn_ok b u"
  using assms by (simp add: turn_ok_def)

lemma release_drained_frame:
  "ad_turns (release_drained k a) = ad_turns a \<and> ad_active (release_drained k a) = ad_active a
   \<and> cnt P (ad_waiters (release_drained k a)) = cnt P (ad_waiters a)"
proof (induction k arbitrary: a)
  case (Suc k)
  have "cnt P (ad_waiters (release_sem b)) = cnt P (ad_waiters b)" for b
    by (auto simp: release_sem_def sem_release_def dest: grant_first_Some intro!: cnt_cong split: option.splits)
  moreover have "ad_turns (release_sem b) = ad_turns b" "ad_active (release_sem b) = ad_active b" for b
    by (simp_all add: release_sem_def split: prod.splits)
  ultimately show ?case using Suc by simp
qed simp

abbreviation solo_part :: "admission \<Rightarrow> bool" where
  "solo_part a \<equiv> total holds (ad_turns a) = ad_active a \<and> (\<forall>t. turn_ok a t)"

lemma solo_invD:
  assumes "solo_inv a"
  shows "adm_inv a" "total holds (ad_turns a) = ad_active a" "\<forall>t. turn_ok a t"
  using assms by (auto simp: solo_inv_def)

lemma solo_enter:
  assumes inv: "solo_inv a" and st: "adm_step (EnterTurn t) a = Some a'"
  shows "solo_part a'"
proof -
  note adm = solo_invD(1) [OF inv] and hold = solo_invD(2) [OF inv] and ok = solo_invD(3) [OF inv]
  note D = adm_invD [OF adm]
  have t: "map_of (ad_turns a) t = None"
    and a': "a' = (if locked a then set_turn t Queued (queue_slot (WTurn t) a) else set_turn t (Inside True 0) (take_slot a))"
    using st by (auto split: if_splits)
  have z: "reacquiring t a = 0" using ok [rule_format, of t] t by (simp add: turn_ok_def)
  show ?thesis
  proof (cases "locked a")
    case True
    then show ?thesis using a' t z by - (rule solo_update [OF ok D(2) hold, of _ t Queued], auto)
  next
    case False
    then show ?thesis using a' t z by - (rule solo_update [OF ok D(2) hold, of _ t "Inside True 0"], auto)
  qed
qed

lemma solo_grant:
  assumes inv: "solo_inv a" and st: "adm_step (GrantTurn t) a = Some a'"
  shows "solo_part a'"
proof -
  note adm = solo_invD(1) [OF inv] and hold = solo_invD(2) [OF inv] and ok = solo_invD(3) [OF inv]
  note D = adm_invD [OF adm]
  have t: "map_of (ad_turns a) t = Some Queued" and w: "(WTurn t, True) \<in> set (ad_waiters a)"
    and a': "a' = set_turn t (Inside True 0) (granted_slot (WTurn t) a)"
    using st by (auto split: if_splits)
  note f = granted_slot_facts [OF D(3) w _ D(7)]
  have r: "reacquiring u (granted_slot (WTurn t) a) = reacquiring u a" for u
    using f(4) [of "(=) (WPark u)"] by simp
  have "reacquiring t a = 0" using ok [rule_format, of t] t by (simp add: turn_ok_def)
  then show ?thesis
    using a' t f(7,10) r by - (rule solo_update [OF ok D(2) hold, of _ t "Inside True 0"], auto)
qed

lemma solo_cancel:
  assumes inv: "solo_inv a" and st: "adm_step (CancelTurn t g) a = Some a'"
  shows "solo_part a'"
proof -
  note adm = solo_invD(1) [OF inv] and hold = solo_invD(2) [OF inv] and ok = solo_invD(3) [OF inv]
  note D = adm_invD [OF adm]
  have t: "map_of (ad_turns a) t = Some Queued" and w: "(WTurn t, g) \<in> set (ad_waiters a)"
    and a': "a' = set_turn t Left (cancelled_slot (WTurn t) g a)"
    using st by (auto split: if_splits)
  note f = cancelled_slot_facts [OF D(3) w _ D(7)]
  have r: "reacquiring u (cancelled_slot (WTurn t) g a) = reacquiring u a" for u
    using f(4) [of "(=) (WPark u)"] by simp
  have "reacquiring t a = 0" using ok [rule_format, of t] t by (simp add: turn_ok_def)
  then show ?thesis
    using a' t f(7,10) r by - (rule solo_update [OF ok D(2) hold, of _ t Left], auto)
qed

lemma solo_exit:
  assumes inv: "solo_inv a" and st: "adm_step (ExitTurn t) a = Some a'"
  shows "solo_part a'"
proof -
  note adm = solo_invD(1) [OF inv] and hold = solo_invD(2) [OF inv] and ok = solo_invD(3) [OF inv]
  note D = adm_invD [OF adm]
  obtain held where t: "map_of (ad_turns a) t = Some (Inside held 0)" "WPark t \<notin> fst ` set (ad_waiters a)"
    and a': "a' = set_turn t Left (holder_release held a)"
    using st by (auto split: option.splits turn_phase.splits if_splits)
  have z: "reacquiring t a = 0" using t(2) in_cnt [of "WPark t" "ad_waiters a"] by simp
  show ?thesis
  proof (cases held)
    case True
    note f = release_slot_facts [OF D(3) step_slots [OF adm, of t 0]]
    have "ad_turns (release_slot a) = ad_turns a" "ad_active (release_slot a) = ad_active a - 1"
      "cnt P (ad_waiters (release_slot a)) = cnt P (ad_waiters a)" for P
      using f(3,6,10) t(1) True by auto
    then show ?thesis
      using a' t(1) z True by - (rule solo_update [OF ok D(2) hold, of _ t Left], auto simp: holder_release_def)
  next
    case False
    then show ?thesis
      using a' t(1) z by - (rule solo_update [OF ok D(2) hold, of _ t Left], auto simp: holder_release_def)
  qed
qed

lemma solo_park:
  assumes inv: "solo_inv a" and st: "adm_step (Park t) a = Some a'" and so: "solo_event (Park t) a"
  shows "solo_part a'"
proof -
  note adm = solo_invD(1) [OF inv] and hold = solo_invD(2) [OF inv] and ok = solo_invD(3) [OF inv]
  note D = adm_invD [OF adm]
  obtain held where t: "map_of (ad_turns a) t = Some (Inside held 0)" "WPark t \<notin> fst ` set (ad_waiters a)"
    and a': "a' = set_turn t (Inside False 1) ((holder_release held a)\<lparr>ad_parked := ad_parked (holder_release held a) + 1\<rparr>)"
    using st so by (auto simp: solo_event_def Let_def)
  have z: "reacquiring t a = 0" using t(2) in_cnt [of "WPark t" "ad_waiters a"] by simp
  show ?thesis
  proof (cases held)
    case True
    note f = release_slot_facts [OF D(3) step_slots [OF adm, of t 0]]
    have "ad_turns (release_slot a) = ad_turns a" "ad_active (release_slot a) = ad_active a - 1"
      "cnt P (ad_waiters (release_slot a)) = cnt P (ad_waiters a)" for P
      using f(3,6,10) t(1) True by auto
    then show ?thesis
      using a' t(1) z True by - (rule solo_update [OF ok D(2) hold, of _ t "Inside False 1"], auto simp: holder_release_def)
  next
    case False
    then show ?thesis
      using a' t(1) z by - (rule solo_update [OF ok D(2) hold, of _ t "Inside False 1"], auto simp: holder_release_def)
  qed
qed

lemma solo_answered:
  assumes inv: "solo_inv a" and st: "adm_step (Answered t) a = Some a'"
  shows "solo_part a'"
proof -
  note adm = solo_invD(1) [OF inv] and hold = solo_invD(2) [OF inv] and ok = solo_invD(3) [OF inv]
  note D = adm_invD [OF adm]
  obtain held p where t: "map_of (ad_turns a) t = Some (Inside held (Suc p))"
    using st by (auto split: option.splits turn_phase.splits nat.splits)
  have z: "\<not> held" "p = 0" "reacquiring t a = 0" using ok [rule_format, of t] t by (auto simp: turn_ok_def)
  let ?b = "a\<lparr>ad_parked := max 0 (ad_parked a - 1)\<rparr>"
  show ?thesis
  proof (cases "locked ?b")
    case True
    then have "a' = set_turn t (Inside False 0) (queue_slot (WPark t) ?b)"
      using st t z by (simp add: Let_def)
    then show ?thesis using t z by - (rule solo_update [OF ok D(2) hold, of _ t "Inside False 0"], auto)
  next
    case False
    then have "a' = set_turn t (Inside True 0) (take_slot ?b)"
      using st t z by (simp add: Let_def)
    then show ?thesis using t z by - (rule solo_update [OF ok D(2) hold, of _ t "Inside True 0"], auto)
  qed
qed

lemma solo_regrant:
  assumes inv: "solo_inv a" and st: "adm_step (GrantPark t) a = Some a'"
  shows "solo_part a'"
proof -
  note adm = solo_invD(1) [OF inv] and hold = solo_invD(2) [OF inv] and ok = solo_invD(3) [OF inv]
  note D = adm_invD [OF adm]
  obtain held p where t: "map_of (ad_turns a) t = Some (Inside held p)" and w: "(WPark t, True) \<in> set (ad_waiters a)"
    and a': "a' = set_turn t (Inside True p) (granted_slot (WPark t) a)"
    using st by (auto split: option.splits turn_phase.splits if_splits)
  note f = granted_slot_facts [OF D(3) w _ D(7)]
  have "0 < reacquiring t a" using in_cnt [of "WPark t" "ad_waiters a"] w by force
  then have z: "\<not> held" "p = 0" "reacquiring t a = 1" using ok [rule_format, of t] t by (auto simp: turn_ok_def)
  have r: "reacquiring u (granted_slot (WPark t) a) = (if u = t then 0 else reacquiring u a)" for u
    using f(4) [of "(=) (WPark u)"] z(3) by auto
  show ?thesis
    using a' t f(7,10) r z by - (rule solo_update [OF ok D(2) hold, of _ t "Inside True 0"], auto)
qed

lemma solo_recancel:
  assumes inv: "solo_inv a" and st: "adm_step (CancelPark t g) a = Some a'"
  shows "solo_part a'"
proof -
  note adm = solo_invD(1) [OF inv] and hold = solo_invD(2) [OF inv] and ok = solo_invD(3) [OF inv]
  note D = adm_invD [OF adm]
  obtain held p where t: "map_of (ad_turns a) t = Some (Inside held p)" and w: "(WPark t, g) \<in> set (ad_waiters a)"
    and a': "a' = cancelled_slot (WPark t) g a"
    using st by (auto split: option.splits turn_phase.splits if_splits)
  note f = cancelled_slot_facts [OF D(3) w _ D(7)]
  have r: "reacquiring u (cancelled_slot (WPark t) g a) + (if u = t then 1 else 0) = reacquiring u a" for u
    using f(4) [of "(=) (WPark u)"] by auto
  have "turn_ok a' u" for u
    using ok [rule_format, of u] r [of u] f(10) a'
    by (cases "(map_of (ad_turns a) u, 0 :: nat)" rule: park_ok.cases) (auto simp: turn_ok_def split: if_splits)
  then show ?thesis using a' hold f(7,10) by simp
qed

lemma solo_lock:
  assumes inv: "solo_inv a" and st: "adm_step LockExclusive a = Some a'"
  shows "solo_part a'"
proof -
  note adm = solo_invD(1) [OF inv] and hold = solo_invD(2) [OF inv] and ok = solo_invD(3) [OF inv]
  note D = adm_invD [OF adm]
  have "a' = a\<lparr>ad_exclusive := Some (Draining 0)\<rparr>" using st by (auto split: if_splits)
  then show ?thesis using hold ok by (auto simp: turn_ok_def)
qed

lemma solo_drain:
  assumes inv: "solo_inv a" and st: "adm_step DrainStep a = Some a'"
  shows "solo_part a'"
proof -
  note adm = solo_invD(1) [OF inv] and hold = solo_invD(2) [OF inv] and ok = solo_invD(3) [OF inv]
  note D = adm_invD [OF adm]
  have "ad_turns a' = ad_turns a \<and> ad_active a' = ad_active a \<and> (\<forall>u. reacquiring u a' = reacquiring u a)"
    using st by (auto simp: drained_one_def split: option.splits exclusive_phase.splits if_splits)
  then show ?thesis using hold turn_ok_same [OF ok] by simp
qed

lemma solo_drained:
  assumes inv: "solo_inv a" and st: "adm_step GrantDrain a = Some a'"
  shows "solo_part a'"
proof -
  note adm = solo_invD(1) [OF inv] and hold = solo_invD(2) [OF inv] and ok = solo_invD(3) [OF inv]
  note D = adm_invD [OF adm]
  obtain k where k: "(WDrain, True) \<in> set (ad_waiters a)" "a' = drained_one k (leave_queue (WDrain, True) 0 a)"
    using st by (auto split: option.splits exclusive_phase.splits if_splits)
  note f = leave_queue_facts [OF D(3) k(1), of 0]
  have "ad_turns a' = ad_turns a \<and> ad_active a' = ad_active a \<and> (\<forall>u. reacquiring u a' = reacquiring u a)"
  proof -
    have "reacquiring u (leave_queue (WDrain, True) 0 a) = reacquiring u a" for u
      using f(3) [of "(=) (WPark u)"] by simp
    then show ?thesis using k(2) f(6,10) by (simp add: drained_one_def)
  qed
  then show ?thesis using hold turn_ok_same [OF ok] by simp
qed

lemma solo_drain_cancel:
  assumes inv: "solo_inv a" and st: "adm_step (CancelDrain g) a = Some a'"
  shows "solo_part a'"
proof -
  note adm = solo_invD(1) [OF inv] and hold = solo_invD(2) [OF inv] and ok = solo_invD(3) [OF inv]
  note D = adm_invD [OF adm]
  obtain k where k: "(WDrain, g) \<in> set (ad_waiters a)"
      "a' = (release_drained k (leave_queue (WDrain, g) (if g then 1 else 0) a))\<lparr>ad_exclusive := None\<rparr>"
    using st by (auto split: option.splits exclusive_phase.splits if_splits)
  have giv: "(if g then 1 else 0 :: int) = 0 \<or> (if g then 1 else 0 :: int) = 1" by simp
  note f = leave_queue_facts [OF D(3) k(1) giv]
  have "reacquiring u (leave_queue (WDrain, g) (if g then 1 else 0) a) = reacquiring u a" for u
    using f(3) [of "(=) (WPark u)"] by simp
  then have "ad_turns a' = ad_turns a \<and> ad_active a' = ad_active a \<and> (\<forall>u. reacquiring u a' = reacquiring u a)"
    using k(2) f(6,10) by (simp add: release_drained_frame)
  then show ?thesis using hold turn_ok_same [OF ok] by simp
qed

lemma solo_release:
  assumes inv: "solo_inv a" and st: "adm_step ExitExclusive a = Some a'"
  shows "solo_part a'"
proof -
  note adm = solo_invD(1) [OF inv] and hold = solo_invD(2) [OF inv] and ok = solo_invD(3) [OF inv]
  note D = adm_invD [OF adm]
  have "a' = (release_drained (ad_n a) a)\<lparr>ad_exclusive := None\<rparr>"
    using st by (auto split: option.splits exclusive_phase.splits)
  then have "ad_turns a' = ad_turns a \<and> ad_active a' = ad_active a \<and> (\<forall>u. reacquiring u a' = reacquiring u a)"
    by (simp add: release_drained_frame)
  then show ?thesis using hold turn_ok_same [OF ok] by simp
qed

lemmas solo_steps = solo_enter solo_grant solo_cancel solo_exit solo_answered solo_regrant solo_recancel solo_lock solo_drain solo_drained solo_drain_cancel solo_release

lemma solo_part_step: "solo_inv a \<Longrightarrow> adm_step e a = Some a' \<Longrightarrow> solo_event e a \<Longrightarrow> solo_part a'"
  by (induction e) (rule solo_steps, assumption, assumption | rule solo_park, assumption, assumption, assumption)+

lemma solo_step:
  assumes "solo_inv a" "solo_event e a" "adm_step e a = Some a'"
  shows "solo_inv a'"
  using adm_inv_step [OF solo_invD(1) [OF assms(1)] assms(3)] solo_part_step [OF assms(1,3,2)]
  unfolding solo_inv_def by (rule conjI)

lemma solo_inv_reach: "solo_reach n a \<Longrightarrow> solo_inv a"
proof (induction rule: solo_reach.induct)
  case start
  have "total holds (ad_turns (new_admission n)) = ad_active (new_admission n)" "\<forall>t. turn_ok (new_admission n) t"
    by (simp_all add: new_admission_def total_def turn_ok_def)
  then show ?case using adm_inv_start by (simp add: solo_inv_def)
qed (rule solo_step)

section \<open>Properties\<close>

lemma adm_n_step:
  assumes "adm_inv a" "adm_step e a = Some a'"
  shows "ad_n a' = ad_n a"
proof -
  have r: "ad_n (release_sem b) = ad_n b" for b by (simp add: release_sem_def split: prod.splits)
  have d: "ad_n (release_drained k b) = ad_n b" for k b by (induction k arbitrary: b) (simp_all add: r)
  have l: "ad_n (leave_queue x g b) = ad_n b" for x g b by (simp add: leave_queue_def split: prod.splits)
  show ?thesis
    using assms(2)
    by (cases e) (auto simp: r d l holder_release_def release_slot_def granted_slot_def cancelled_slot_def
        drained_one_def Let_def split: if_splits option.splits turn_phase.splits exclusive_phase.splits nat.splits)
qed

lemma adm_n_reach: "adm_reach n a \<Longrightarrow> ad_n a = nat (max 1 n)"
proof (induction rule: adm_reach.induct)
  case start
  then show ?case by (simp add: new_admission_def)
next
  case (step a e a')
  then show ?case using adm_n_step [OF adm_inv_reach [OF step.hyps(1)] step.hyps(2)] by simp
qed

text \<open>
  C17. Admission is bounded and its counters are exact. In every state reachable from
  \<open>TurnAdmission(n)\<close>, through any interleaving of turns, parks, cancellations and exclusive
  windows: the open permits, the permits granted to waiters that have not resumed and the slots in
  use add up to \<open>max 1 n\<close>; the turns that hold a slot number at most \<open>active\<close>, which is at most
  \<open>max 1 n\<close>; \<open>waiting\<close> and \<open>parked\<close> count the queued and the parked coroutines; and no wakeup
  is lost: if someone waits and nobody has been granted, all slots are in use.
\<close>

theorem admission_bounded:
  assumes "adm_reach n a"
  shows "ad_value a + granted (ad_waiters a) + ad_slots a = max 1 n
    \<and> 0 \<le> ad_value a
    \<and> total holds (ad_turns a) \<le> ad_active a \<and> ad_active a \<le> ad_slots a \<and> ad_slots a \<le> max 1 n
    \<and> ad_waiting a = int (queued_count a) \<and> ad_parked a = total parks (ad_turns a)
    \<and> (ad_waiters a \<noteq> [] \<and> granted (ad_waiters a) = 0 \<longrightarrow> ad_slots a = max 1 n)"
proof -
  note D = adm_invD [OF adm_inv_reach [OF assms]]
  have n: "int (ad_n a) = max 1 n" using adm_n_reach [OF assms] by simp
  have v: "0 \<le> ad_value a" using D(3) by (simp add: awake_def)
  have g: "0 \<le> granted (ad_waiters a)" by (simp add: granted_def)
  have "ad_value a = 0" if "ad_waiters a \<noteq> []" "granted (ad_waiters a) = 0"
    using D(3) that by (auto simp: awake_def granted_def filter_empty_conv)
  then show ?thesis
    using D(4-8) n v g drained_nonneg [of "ad_n a" "ad_exclusive a"] by auto
qed

fun adm_run :: "adm_event list \<Rightarrow> admission \<Rightarrow> admission option" where
  "adm_run [] a = Some a"
| "adm_run (e # es) a = (case adm_step e a of None \<Rightarrow> None | Some b \<Rightarrow> adm_run es b)"

lemma adm_run_reach: "adm_reach n a \<Longrightarrow> adm_run es a = Some b \<Longrightarrow> adm_reach n b"
  by (induction es arbitrary: a) (auto split: option.splits intro: adm_reach.step)

lemmas adm_eval = new_admission_def set_turn_def locked_def take_slot_def queue_slot_def leave_queue_def
  granted_slot_def cancelled_slot_def release_sem_def release_slot_def holder_release_def drained_one_def
  sem_release_def wake_all.simps dict_set_def Let_def

lemma sample_two_turns:
  "adm_run [EnterTurn 0, EnterTurn 1] (new_admission 1) =
     Some \<lparr>ad_n = 1, ad_value = 0, ad_waiters = [(WTurn 1, False)], ad_slots = 1, ad_active = 1, ad_waiting = 1,
           ad_parked = 0, ad_exclusive = None, ad_turns = [(0, Inside True 0), (1, Queued)]\<rparr>"
  by (simp add: adm_eval)

theorem admission_bounded_witness:
  "\<exists>a. adm_reach 1 a \<and> ad_waiters a = [(WTurn 1, False)] \<and> ad_slots a = 1"
proof -
  obtain a where a: "adm_run [EnterTurn 0, EnterTurn 1] (new_admission 1) = Some a" "ad_waiters a = [(WTurn 1, False)]"
    using sample_two_turns by simp
  have r: "adm_reach 1 a" by (rule adm_run_reach [OF adm_reach.start a(1)])
  then show ?thesis using admission_bounded [OF r] a(2) by auto
qed

text \<open>
  C22. Exclusive maintenance runs alone. Whenever an exclusive operation is inside its window, no
  turn holds a slot, no turn is active, none has been granted one, and a turn that arrives or
  whose human answers can only queue.
\<close>

theorem exclusive_alone:
  assumes "adm_reach n a" "ad_exclusive a = Some Running"
  shows "ad_active a = 0 \<and> total holds (ad_turns a) = 0 \<and> ad_value a = 0 \<and> granted (ad_waiters a) = 0
    \<and> (\<forall>t p. map_of (ad_turns a) t \<noteq> Some (Inside True p))
    \<and> (\<forall>t b. adm_step (EnterTurn t) a = Some b \<longrightarrow> map_of (ad_turns b) t = Some Queued)
    \<and> (\<forall>t b. adm_step (Answered t) a = Some b \<longrightarrow> (\<exists>p. map_of (ad_turns b) t = Some (Inside False p)))"
proof -
  note D = adm_invD [OF adm_inv_reach [OF assms(1)]]
  have act: "ad_slots a = ad_active a + int (ad_n a)" using D(5) assms(2) by simp
  have "0 \<le> ad_value a" using D(3) by (simp add: awake_def)
  moreover have "0 \<le> granted (ad_waiters a)" by (simp add: granted_def)
  moreover have "0 \<le> total holds (ad_turns a)" by (rule total_nonneg) simp
  ultimately have z: "ad_active a = 0" "total holds (ad_turns a) = 0" "ad_value a = 0" "granted (ad_waiters a) = 0"
    using act D(4,6) by linarith+
  have nh: "map_of (ad_turns a) t \<noteq> Some (Inside True p)" for t p
  proof
    assume "map_of (ad_turns a) t = Some (Inside True p)"
    from total_member [of holds, OF _ this] show False using z(2) by simp
  qed
  have lk: "locked a" using z(3) by (simp add: locked_def)
  have e: "map_of (ad_turns b) t = Some Queued" if "adm_step (EnterTurn t) a = Some b" for t b
    using that lk by (auto simp: dict_simps split: if_splits)
  have w: "\<exists>p. map_of (ad_turns b) t = Some (Inside False p)" if s: "adm_step (Answered t) a = Some b" for t b
  proof -
    obtain held p where h: "map_of (ad_turns a) t = Some (Inside held (Suc p))"
      using s by (auto split: option.splits turn_phase.splits nat.splits)
    then have "\<not> held" using nh [of t "Suc p"] by (cases held) auto
    then show ?thesis using s h lk by (auto simp: dict_simps Let_def)
  qed
  show ?thesis using z nh e w by blast
qed

theorem exclusive_alone_witness:
  "\<exists>a. adm_reach 1 a \<and> ad_exclusive a = Some Running \<and> ad_active a = 0"
proof -
  have "\<exists>a. adm_run [LockExclusive, DrainStep] (new_admission 1) = Some a \<and> ad_exclusive a = Some Running"
    by (simp add: adm_eval)
  then obtain a where a: "adm_run [LockExclusive, DrainStep] (new_admission 1) = Some a" "ad_exclusive a = Some Running"
    by blast
  have r: "adm_reach 1 a" by (rule adm_run_reach [OF adm_reach.start a(1)])
  then show ?thesis using exclusive_alone [OF r a(2)] a(2) by blast
qed

text \<open>
  No slot is lost or gained while each turn has at most one coroutine parked or reacquiring:
  the active counter is then exactly the number of turns that hold a slot, and once every turn has
  left, nobody queues and no exclusive window is open, all \<open>max 1 n\<close> permits are open again,
  whatever was cancelled on the way.
\<close>

theorem solo_capacity_restored:
  assumes "solo_reach n a"
  shows "total holds (ad_turns a) = ad_active a
    \<and> (ad_waiters a = [] \<and> ad_exclusive a = None \<and> map snd (ad_turns a) = [Left, Left, Left] \<longrightarrow>
         ad_value a = max 1 n \<and> ad_slots a = 0)"
proof -
  have inv: "adm_inv a" "total holds (ad_turns a) = ad_active a"
    using solo_inv_reach [OF assms] by (simp_all add: solo_inv_def)
  have n: "int (ad_n a) = max 1 n" using adm_n_reach [OF solo_adm [OF assms]] by simp
  have "total holds d = 0" if "\<forall>p \<in> snd ` set d. p = Left" for d
    using that by (induction d) (auto simp: total_def)
  then show ?thesis using adm_invD(4,5) [OF inv(1)] inv(2) n by auto
qed

theorem solo_capacity_restored_witness:
  "\<exists>a. solo_reach 1 a \<and> ad_turns a = [(0, Left)] \<and> ad_value a = 1"
proof -
  define b where "b = \<lparr>ad_n = 1, ad_value = 0, ad_waiters = [], ad_slots = 1, ad_active = 1, ad_waiting = 0,
           ad_parked = 0, ad_exclusive = None, ad_turns = [(0::nat, Inside True 0)]\<rparr>"
  define c where "c = \<lparr>ad_n = 1, ad_value = 1, ad_waiters = [], ad_slots = 0, ad_active = 0, ad_waiting = 0,
           ad_parked = 0, ad_exclusive = None, ad_turns = [(0::nat, Left)]\<rparr>"
  have b: "adm_step (EnterTurn 0) (new_admission 1) = Some b" by (simp add: adm_eval b_def)
  have c: "adm_step (ExitTurn 0) b = Some c" by (simp add: adm_eval b_def c_def)
  have so: "solo_event (EnterTurn 0) x" "solo_event (ExitTurn 0) x" for x by (simp_all add: solo_event_def)
  have r: "solo_reach 1 c"
    by (rule solo_reach.step [OF solo_reach.step [OF solo_reach.start so(1) b] so(2) c])
  show ?thesis using solo_capacity_restored [OF r] r by (auto simp: c_def)
qed

text \<open>
  When two coroutines of one turn wait on a human at once, a slot can be lost for good:
  \<open>reacquire\<close> tests \<open>held\<close> before it waits, so both queue and both take a slot, and the turn
  gives one back. With two slots there is a run after which every turn has left, nobody waits and
  no maintenance runs, and yet only one permit is open and one slot counts as in use.
\<close>

theorem concurrent_parks_leak:
  "\<exists>a. adm_reach 2 a \<and> ad_waiters a = [] \<and> ad_exclusive a = None \<and> snd ` set (ad_turns a) \<subseteq> {Left}
     \<and> ad_value a = 1 \<and> ad_slots a = 1"
proof -
  let ?es = "[EnterTurn 0, Park 0, Park 0, EnterTurn 1, EnterTurn 2, Answered 0, Answered 0,
    ExitTurn 1, ExitTurn 2, GrantPark 0, GrantPark 0, ExitTurn 0]"
  have "\<exists>a. adm_run ?es (new_admission 2) = Some a \<and> ad_waiters a = [] \<and> ad_exclusive a = None
      \<and> (\<forall>p \<in> snd ` set (ad_turns a). p = Left) \<and> ad_value a = 1 \<and> ad_slots a = 1"
    by (simp add: adm_eval)
  then obtain a where a: "adm_run ?es (new_admission 2) = Some a" "ad_waiters a = []" "ad_exclusive a = None"
      "\<forall>p \<in> snd ` set (ad_turns a). p = Left" "ad_value a = 1" "ad_slots a = 1"
    by blast
  have "adm_reach 2 a" by (rule adm_run_reach [OF adm_reach.start a(1)])
  with a show ?thesis by blast
qed

end
