(* ===== verification/Tool_Execution.thy ===== *)
theory Tool_Execution imports LF_Prelude "HOL-Library.List_Lexorder" "HOL-Library.Char_ord" begin

text \<open>
  \<open>engine/tools/tool_execution.py\<close>: execution policies, idempotency keys and the execution ledger;
  the table behind it in \<open>storage/conversation_store.py\<close>; and the ledger protocol of
  \<open>ToolDispatchEngine._execute_tool_with_ledger\<close> as steps of concurrent calls. SHA-256 of the
  canonical JSON is the parameter \<open>digest\<close>; fresh execution ids are arguments.
\<close>

section \<open>Policies\<close>

datatype exec_policy = READ_ONLY | MUTATING_IDEMPOTENT | MUTATING_ONCE | EXTERNAL_SIDE_EFFECT

fun policy_value :: "exec_policy \<Rightarrow> string" where
  "policy_value READ_ONLY = ''read_only''"
| "policy_value MUTATING_IDEMPOTENT = ''mutating_idempotent''"
| "policy_value MUTATING_ONCE = ''mutating_once''"
| "policy_value EXTERNAL_SIDE_EFFECT = ''external_side_effect''"

definition policy_of :: "string \<Rightarrow> exec_policy option" where
  "policy_of s =
     find (\<lambda>p. policy_value p = s) [READ_ONLY, MUTATING_IDEMPOTENT, MUTATING_ONCE, EXTERNAL_SIDE_EFFECT]"

definition effect_is_uncertain_on_failure :: "string \<Rightarrow> bool" where
  "effect_is_uncertain_on_failure p \<longleftrightarrow> p = ''external_side_effect'' \<or> p = ''mutating_once''"

definition normalize_execution_policy :: "exec_policy \<Rightarrow> string \<Rightarrow> exec_policy" where
  "normalize_execution_policy fallback s = (case policy_of s of Some p \<Rightarrow> p | None \<Rightarrow> fallback)"

record tool_spec =
  ts_execution_policy :: string
  ts_risk_level :: string
  ts_mutates_state :: bool
  ts_idempotency_scope :: string
  ts_effect_scope :: string

definition execution_policy_for :: "tool_spec option \<Rightarrow> exec_policy" where
  "execution_policy_for spec =
     (case spec of
        None \<Rightarrow> EXTERNAL_SIDE_EFFECT
      | Some s \<Rightarrow>
          (case policy_of (ts_execution_policy s) of
             Some p \<Rightarrow> p
           | None \<Rightarrow>
               if ts_risk_level s = ''read_only'' \<and> \<not> ts_mutates_state s \<and> ts_effect_scope s \<noteq> ''external''
               then READ_ONLY
               else if ts_effect_scope s = ''external'' \<or> ts_risk_level s = ''external'' then EXTERNAL_SIDE_EFFECT
               else if ts_idempotency_scope s = ''session'' then MUTATING_ONCE
               else if ts_mutates_state s then EXTERNAL_SIDE_EFFECT
               else EXTERNAL_SIDE_EFFECT))"

section \<open>Idempotency keys\<close>

text \<open>\<open>json.dumps(..., sort_keys=True)\<close> sees a value up to the order of its dictionaries.\<close>

fun canonical :: "pyval \<Rightarrow> pyval" where
  "canonical (PDict d) = PDict (sort_key fst (map (\<lambda>kv. (fst kv, canonical (snd kv))) d))"
| "canonical (PList xs) = PList (map canonical xs)"
| "canonical v = v"

record idem_payload =
  ip_session :: string
  ip_turn :: string
  ip_scope :: string
  ip_tool :: string
  ip_arguments :: pyval
  ip_policy :: string

definition removeprefix :: "string \<Rightarrow> string \<Rightarrow> string" where
  "removeprefix p s = (if py_prefix p s then drop (length p) s else s)"

definition idempotency_payload ::
  "string \<Rightarrow> string \<Rightarrow> string \<Rightarrow> pyval dict \<Rightarrow> exec_policy \<Rightarrow> idem_payload" where
  "idempotency_payload session turn tool args policy =
     (let scope = (if policy = READ_ONLY \<or> policy = MUTATING_IDEMPOTENT then ''turn'' else ''session'')
      in \<lparr>ip_session = session, ip_turn = (if scope = ''turn'' then turn else []), ip_scope = scope,
          ip_tool = removeprefix ''gp_'' tool, ip_arguments = canonical (PDict args),
          ip_policy = policy_value policy\<rparr>)"

definition build_idempotency_key ::
  "(idem_payload \<Rightarrow> string) \<Rightarrow> string \<Rightarrow> string \<Rightarrow> string \<Rightarrow> pyval dict \<Rightarrow> exec_policy \<Rightarrow> string" where
  "build_idempotency_key digest session turn tool args policy =
     digest (idempotency_payload session turn tool args policy)"

section \<open>Records\<close>

datatype exec_status = ST_RESERVED | ST_RUNNING | ST_COMPLETED | ST_FAILED_RETRYABLE | ST_FAILED_FINAL

fun exec_status_value :: "exec_status \<Rightarrow> string" where
  "exec_status_value ST_RESERVED = ''reserved''"
| "exec_status_value ST_RUNNING = ''running''"
| "exec_status_value ST_COMPLETED = ''completed''"
| "exec_status_value ST_FAILED_RETRYABLE = ''failed_retryable''"
| "exec_status_value ST_FAILED_FINAL = ''failed_final''"

record exec_record =
  er_id :: string
  er_session :: string
  er_turn :: string
  er_command :: string
  er_call :: string
  er_tool :: string
  er_key :: string
  er_arguments :: "pyval dict"
  er_policy :: exec_policy
  er_status :: exec_status
  er_result :: pyval
  er_created_at :: real
  er_completed_at :: real

record tool_call =
  tc_session :: string
  tc_turn :: string
  tc_command :: string
  tc_call :: string
  tc_tool :: string
  tc_arguments :: "pyval dict"
  tc_policy :: exec_policy

definition call_key :: "(idem_payload \<Rightarrow> string) \<Rightarrow> tool_call \<Rightarrow> string" where
  "call_key digest c = build_idempotency_key digest (tc_session c) (tc_turn c) (tc_tool c) (tc_arguments c) (tc_policy c)"

definition create_record :: "string \<Rightarrow> real \<Rightarrow> string \<Rightarrow> tool_call \<Rightarrow> exec_record" where
  "create_record eid now key c =
     \<lparr>er_id = eid, er_session = tc_session c, er_turn = tc_turn c, er_command = tc_command c, er_call = tc_call c,
      er_tool = tc_tool c, er_key = key, er_arguments = tc_arguments c, er_policy = tc_policy c,
      er_status = ST_RUNNING, er_result = PNone, er_created_at = now, er_completed_at = 0\<rparr>"

definition mark_record_completed :: "real \<Rightarrow> pyval \<Rightarrow> exec_record \<Rightarrow> exec_record" where
  "mark_record_completed now result r = r\<lparr>er_status := ST_COMPLETED, er_result := result, er_completed_at := now\<rparr>"

definition mark_record_failed :: "real \<Rightarrow> pyval \<Rightarrow> bool \<Rightarrow> exec_record \<Rightarrow> exec_record" where
  "mark_record_failed now result retryable r =
     r\<lparr>er_status := (if retryable then ST_FAILED_RETRYABLE else ST_FAILED_FINAL), er_result := result,
       er_completed_at := now\<rparr>"

text \<open>\<open>d.get(k)\<close> tested for truth, and \<open>bool(d.get(k, default))\<close>.\<close>

definition get_true :: "pyval dict \<Rightarrow> string \<Rightarrow> bool" where
  "get_true d k = (case map_of d k of Some v \<Rightarrow> py_truthy v | None \<Rightarrow> False)"

definition result_ok :: "pyval \<Rightarrow> bool" where
  "result_ok v = (case v of PDict d \<Rightarrow> (case map_of d ''ok'' of Some x \<Rightarrow> py_truthy x | None \<Rightarrow> True) | _ \<Rightarrow> True)"

definition result_retryable :: "pyval \<Rightarrow> bool" where
  "result_retryable v = (case v of PDict d \<Rightarrow> get_true d ''retryable'' | _ \<Rightarrow> False)"

definition settled_record :: "real \<Rightarrow> pyval \<Rightarrow> exec_record \<Rightarrow> exec_record" where
  "settled_record now result r =
     (if result_ok result then mark_record_completed now result r
      else mark_record_failed now result (result_retryable result) r)"

definition duplicate_result :: "exec_record \<Rightarrow> pyval dict" where
  "duplicate_result r =
     (let completed = (er_status r = ST_COMPLETED);
          payload = [(''ok'', PBool completed), (''already_executed'', PBool True), (''duplicate_suppressed'', PBool True),
             (''execution_reused'', PBool completed), (''execution_skipped'', PBool (\<not> completed)),
             (''counts_as_failure'', PBool False), (''counts_as_tool_attempt'', PBool False), (''ui_hidden'', PBool True),
             (''execution_id'', PStr (er_id r)), (''idempotency_key'', PStr (er_key r)),
             (''execution_status'', PStr (exec_status_value (er_status r))), (''original_result'', er_result r),
             (''retryable'', PBool (er_status r = ST_FAILED_RETRYABLE))]
             @ (if completed then []
                else [(''error'', PStr (''An identical side-effect attempt is already recorded. ''
                         @ ''Review the original result before retrying.''))]);
          original = (case er_result r of PDict d \<Rightarrow> d | _ \<Rightarrow> [])
      in if get_true original ''side_effect_uncertain''
         then payload @ [(''side_effect_uncertain'', PBool True)]
              @ (if get_true original ''retry_guidance''
                 then [(''retry_guidance'', the (map_of original ''retry_guidance''))] else [])
         else payload)"

section \<open>The durable table\<close>

text \<open>
  The operations the ledger uses of its store. A failing store call is swallowed: it reads as
  \<open>None\<close> and writes nothing. \<open>table_ops\<close> is \<open>ConversationStore\<close>: a table with the unique key
  \<open>(session_id, idempotency_key)\<close>.
\<close>

record 'd exec_store =
  es_get :: "'d \<Rightarrow> string \<Rightarrow> string \<Rightarrow> exec_record option"
  es_reserve :: "exec_record \<Rightarrow> 'd \<Rightarrow> 'd"
  es_complete :: "exec_record \<Rightarrow> 'd \<Rightarrow> 'd"

definition same_row :: "string \<Rightarrow> string \<Rightarrow> exec_record \<Rightarrow> bool" where
  "same_row session key r \<longleftrightarrow> er_session r = session \<and> er_key r = key"

definition table_get :: "exec_record list \<Rightarrow> string \<Rightarrow> string \<Rightarrow> exec_record option" where
  "table_get rows session key = find (same_row session key) rows"

definition table_reserve :: "exec_record \<Rightarrow> exec_record list \<Rightarrow> exec_record list" where
  "table_reserve r rows =
     (if \<exists>q \<in> set rows. same_row (er_session r) (er_key r) q then rows else rows @ [r])"

definition table_complete :: "exec_record \<Rightarrow> exec_record list \<Rightarrow> exec_record list" where
  "table_complete r rows =
     map (\<lambda>q. if same_row (er_session r) (er_key r) q
              then q\<lparr>er_status := er_status r, er_result := er_result r, er_completed_at := er_completed_at r,
                     er_call := (if er_call r \<noteq> [] then er_call r else er_call q)\<rparr>
              else q) rows"

definition table_ops :: "exec_record list exec_store" where
  "table_ops = \<lparr>es_get = table_get, es_reserve = table_reserve, es_complete = table_complete\<rparr>"

section \<open>The ledger\<close>

record 'd ledger =
  lg_records :: "exec_record dict"
  lg_inflight :: "string list"
  lg_store :: 'd

definition new_ledger :: "'d \<Rightarrow> 'd ledger" where
  "new_ledger d = \<lparr>lg_records = [], lg_inflight = [], lg_store = d\<rparr>"

definition ledger_reset :: "'d \<Rightarrow> 'd ledger \<Rightarrow> 'd ledger" where
  "ledger_reset d l = l\<lparr>lg_records := [], lg_inflight := [], lg_store := d\<rparr>"

definition ledger_existing :: "'d exec_store \<Rightarrow> string \<Rightarrow> string \<Rightarrow> 'd ledger \<Rightarrow> exec_record option" where
  "ledger_existing ops session key l =
     (case map_of (lg_records l) key of Some r \<Rightarrow> Some r | None \<Rightarrow> es_get ops (lg_store l) session key)"

text \<open>\<open>reserve\<close>: the record to run, or (\<open>Inr\<close>) the record of an identical earlier call.\<close>

definition ledger_reserve ::
  "'d exec_store \<Rightarrow> (idem_payload \<Rightarrow> string) \<Rightarrow> string \<Rightarrow> real \<Rightarrow> tool_call \<Rightarrow> 'd ledger
   \<Rightarrow> (exec_record + exec_record) \<times> 'd ledger" where
  "ledger_reserve ops digest eid now c l =
     (let key = call_key digest c in
      case (if tc_policy c \<noteq> READ_ONLY then ledger_existing ops (tc_session c) key l else None) of
        Some r \<Rightarrow> (Inr r, l)
      | None \<Rightarrow>
          let r = create_record eid now key c
          in (Inl r, l\<lparr>lg_records := dict_set key r (lg_records l),
                       lg_inflight := (if tc_policy c \<noteq> READ_ONLY then key # removeAll key (lg_inflight l)
                                       else lg_inflight l),
                       lg_store := es_reserve ops r (lg_store l)\<rparr>))"

definition ledger_complete :: "'d exec_store \<Rightarrow> exec_record \<Rightarrow> 'd ledger \<Rightarrow> 'd ledger" where
  "ledger_complete ops updated l =
     l\<lparr>lg_records := dict_set (er_key updated) updated (lg_records l),
       lg_inflight := removeAll (er_key updated) (lg_inflight l),
       lg_store := es_complete ops updated (lg_store l)\<rparr>"

definition ledger_current :: "exec_record \<Rightarrow> 'd ledger \<Rightarrow> exec_record" where
  "ledger_current r l = (case map_of (lg_records l) (er_key r) of Some q \<Rightarrow> q | None \<Rightarrow> r)"

text \<open>\<open>wait_for_completion\<close> after its timeout.\<close>

definition still_running :: "real \<Rightarrow> exec_record \<Rightarrow> exec_record" where
  "still_running now r =
     mark_record_failed now
       (PDict [(''ok'', PBool False), (''error'', PStr ''Original tool execution is still running.''),
               (''retryable'', PBool True), (''already_executed'', PBool True), (''duplicate_suppressed'', PBool True),
               (''counts_as_failure'', PBool False), (''counts_as_tool_attempt'', PBool False), (''ui_hidden'', PBool True)])
       True r"

section \<open>Concurrent calls\<close>

text \<open>
  A call reserves its key, then executes, replies with the duplicate payload, or waits for the
  future of the running original; \<open>Woken\<close> is a waiter whose future was resolved, \<open>Orphaned\<close> one
  whose future a reset of the ledger dropped. A cancelled call leaves its record running: only
  \<open>Exception\<close> is caught around the execution.
\<close>

datatype call_phase =
    Executing exec_record
  | Waiting exec_record
  | Orphaned exec_record
  | Woken exec_record
  | Replied "pyval dict"
  | Finished exec_record
  | Gone

record 'd dispatch =
  dp_ledger :: "'d ledger"
  dp_calls :: "(nat \<times> call_phase) list"
  dp_log :: "(string \<times> string \<times> exec_policy) list"

definition uncertain_failure :: "exec_policy \<Rightarrow> pyval dict \<Rightarrow> bool" where
  "uncertain_failure policy d \<longleftrightarrow>
     map_of d ''counts_as_failure'' \<noteq> Some (PBool False)
   \<and> \<not> (get_true d ''already_executed'' \<or> get_true d ''duplicate_suppressed'' \<or> get_true d ''execution_skipped'')
   \<and> map_of d ''ok'' = Some (PBool False)
   \<and> effect_is_uncertain_on_failure (policy_value policy)"

definition annotate_uncertain_effect :: "exec_policy \<Rightarrow> pyval dict \<Rightarrow> pyval dict" where
  "annotate_uncertain_effect policy d =
     (if uncertain_failure policy d
      then dict_set ''retry_guidance''
             (PStr (''This operation may already have taken effect despite the error. ''
                @ ''Verify the current state before retrying; do not simply repeat the call.''))
             (dict_set ''side_effect_uncertain'' (PBool True) d)
      else d)"

text \<open>
  The failure fingerprint of a failed result, how often the frame has now seen it, and the text of
  its failure code. Absent when the execution raised, or when no frame keeps count.
\<close>

record repeat_info =
  rp_digest :: string
  rp_count :: int
  rp_code :: string

definition annotate_terminal_repeat :: "string \<Rightarrow> repeat_info option \<Rightarrow> pyval dict \<Rightarrow> pyval dict" where
  "annotate_terminal_repeat tool info d =
     (if map_of d ''ok'' \<noteq> Some (PBool False) \<or> map_of d ''counts_as_failure'' = Some (PBool False) then d
      else case info of
        None \<Rightarrow> d
      | Some i \<Rightarrow>
          let d1 = dict_set ''failure_repeat_count'' (PInt (rp_count i))
                     (dict_set ''failure_fingerprint'' (PStr (rp_digest i)) d)
          in if rp_count i < 2 then d1
             else dict_set ''error'' (PStr (''The same failed '' @ tool @ '' action recurred ('' @ rp_code i
                       @ ''); do not retry it again without changing the action or satisfying its preconditions.''))
                   (dict_set ''original_failure_code'' (PStr (rp_code i))
                     (dict_set ''retryable'' (PBool False)
                       (dict_set ''failure_code'' (PStr ''repeated_terminal_failure'')
                         (dict_set ''failure_class'' (PStr ''repeated_failure'') d1)))))"

definition ledger_result :: "exec_record \<Rightarrow> repeat_info option \<Rightarrow> pyval \<Rightarrow> pyval dict" where
  "ledger_result r info result =
     annotate_terminal_repeat (er_tool r) info
       (annotate_uncertain_effect (er_policy r)
         (dict_set ''tool_call_id'' (PStr (er_call r))
           (dict_set ''execution_policy'' (PStr (policy_value (er_policy r)))
             (dict_set ''idempotency_key'' (PStr (er_key r))
               (dict_set ''execution_id'' (PStr (er_id r))
                 (case result of PDict d \<Rightarrow> d | v \<Rightarrow> [(''ok'', PBool True), (''result'', v)]))))))"

datatype call_event =
    CallTool nat string real tool_call
  | FinishCall nat real "repeat_info option" pyval
  | WakeCall nat
  | TimeoutCall nat real
  | CancelCall nat
  | ResetLedger

text \<open>A completed execution resolves the future of its key: every waiter on it is woken.\<close>

definition wake :: "exec_record \<Rightarrow> call_phase \<Rightarrow> call_phase" where
  "wake updated p = (case p of Waiting r \<Rightarrow> if er_key r = er_key updated then Woken updated else p | _ \<Rightarrow> p)"

fun waiting_on :: "call_phase \<Rightarrow> exec_record option" where
  "waiting_on (Waiting r) = Some r"
| "waiting_on (Orphaned r) = Some r"
| "waiting_on _ = None"

fun open_call :: "call_phase \<Rightarrow> bool" where
  "open_call (Replied d) = False"
| "open_call (Finished r) = False"
| "open_call Gone = False"
| "open_call _ = True"

fun dispatch_step ::
  "'d exec_store \<Rightarrow> (idem_payload \<Rightarrow> string) \<Rightarrow> call_event \<Rightarrow> 'd dispatch \<Rightarrow> 'd dispatch option" where
  "dispatch_step ops digest (CallTool i eid now c) s =
     (if map_of (dp_calls s) i \<noteq> None then None
      else case ledger_reserve ops digest eid now c (dp_ledger s) of
        (Inl r, l) \<Rightarrow> Some (s\<lparr>dp_ledger := l, dp_calls := dict_set i (Executing r) (dp_calls s),
                              dp_log := dp_log s @ [(tc_session c, er_key r, tc_policy c)]\<rparr>)
      | (Inr r, l) \<Rightarrow>
          let p = (if er_status r = ST_RUNNING
                   then if er_key r \<in> set (lg_inflight l) then Waiting r
                        else Replied (duplicate_result (ledger_current r l))
                   else Replied (duplicate_result r))
          in Some (s\<lparr>dp_calls := dict_set i p (dp_calls s)\<rparr>))"
| "dispatch_step ops digest (FinishCall i now info result) s =
     (case map_of (dp_calls s) i of
        Some (Executing r) \<Rightarrow>
          let updated = settled_record now (PDict (ledger_result r info result)) r
          in Some (s\<lparr>dp_ledger := ledger_complete ops updated (dp_ledger s),
                     dp_calls := map (\<lambda>(j, p). (j, if er_key updated \<in> set (lg_inflight (dp_ledger s))
                                                   then wake updated p else p))
                                   (dict_set i (Finished updated) (dp_calls s))\<rparr>)
      | _ \<Rightarrow> None)"
| "dispatch_step ops digest (WakeCall i) s =
     (case map_of (dp_calls s) i of
        Some (Woken r) \<Rightarrow> Some (s\<lparr>dp_calls := dict_set i (Replied (duplicate_result r)) (dp_calls s)\<rparr>)
      | _ \<Rightarrow> None)"
| "dispatch_step ops digest (TimeoutCall i now) s =
     (case map_of (dp_calls s) i of
        Some p \<Rightarrow>
          (case waiting_on p of
             Some r \<Rightarrow> Some (s\<lparr>dp_calls := dict_set i
                    (Replied (duplicate_result (still_running now (ledger_current r (dp_ledger s))))) (dp_calls s)\<rparr>)
           | None \<Rightarrow> None)
      | None \<Rightarrow> None)"
| "dispatch_step ops digest (CancelCall i) s =
     (case map_of (dp_calls s) i of
        Some p \<Rightarrow> if open_call p then Some (s\<lparr>dp_calls := dict_set i Gone (dp_calls s)\<rparr>) else None
      | None \<Rightarrow> None)"
| "dispatch_step ops digest ResetLedger s =
     Some (s\<lparr>dp_ledger := ledger_reset (lg_store (dp_ledger s)) (dp_ledger s),
             dp_calls := map (\<lambda>(j, p). (j, case p of Waiting r \<Rightarrow> Orphaned r | _ \<Rightarrow> p)) (dp_calls s)\<rparr>)"

definition new_dispatch :: "'d \<Rightarrow> 'd dispatch" where
  "new_dispatch d = \<lparr>dp_ledger = new_ledger d, dp_calls = [], dp_log = []\<rparr>"

fun dispatch_run ::
  "'d exec_store \<Rightarrow> (idem_payload \<Rightarrow> string) \<Rightarrow> call_event list \<Rightarrow> 'd dispatch \<Rightarrow> 'd dispatch option" where
  "dispatch_run ops digest [] s = Some s"
| "dispatch_run ops digest (e # es) s =
     (case dispatch_step ops digest e s of None \<Rightarrow> None | Some t \<Rightarrow> dispatch_run ops digest es t)"

end
