(* ===== verification/Tool_Execution_Props.thy ===== *)
theory Tool_Execution_Props imports Tool_Execution begin

text \<open>
  The contract of the durable execution store as a locale and its interpretation on the table;
  side effects run at most once per idempotency key, within a process and across resets; what a
  suppressed duplicate reports; the fail-safe resolution of execution policies.
\<close>

section \<open>The store contract\<close>

definition side_effects :: "(string \<times> string \<times> exec_policy) list \<Rightarrow> (string \<times> string) list" where
  "side_effects xs = map (\<lambda>(s, k, p). (s, k)) (filter (\<lambda>(s, k, p). p \<noteq> READ_ONLY) xs)"

lemma side_effects_append [simp]:
  "side_effects (xs @ [(s, k, p)]) = side_effects xs @ (if p = READ_ONLY then [] else [(s, k)])"
  by (simp add: side_effects_def)

lemma reserve_cases:
  assumes "ledger_reserve ops digest eid now c l = (r, l')"
  obtains
    (dup) q where "tc_policy c \<noteq> READ_ONLY" "r = Inr q" "l' = l"
      "ledger_existing ops (tc_session c) (call_key digest c) l = Some q"
  | (fresh) q where "r = Inl q" "q = create_record eid now (call_key digest c) c"
      "tc_policy c \<noteq> READ_ONLY \<Longrightarrow> ledger_existing ops (tc_session c) (call_key digest c) l = None"
      "lg_records l' = dict_set (call_key digest c) q (lg_records l)" "lg_store l' = es_reserve ops q (lg_store l)"
proof (cases "if tc_policy c \<noteq> READ_ONLY then ledger_existing ops (tc_session c) (call_key digest c) l else None")
  case None
  let ?q = "create_record eid now (call_key digest c) c"
  have "r = Inl ?q" "lg_records l' = dict_set (call_key digest c) ?q (lg_records l)" "lg_store l' = es_reserve ops ?q (lg_store l)"
    using assms None by (auto simp: ledger_reserve_def Let_def)
  then show thesis using fresh None by (auto split: if_splits)
next
  case (Some q)
  then show thesis using dup assms by (auto simp: ledger_reserve_def Let_def split: if_splits)
qed

locale execution_store =
  fixes ops :: "'d exec_store" and valid :: "'d \<Rightarrow> bool"
  assumes reserve_valid: "valid d \<Longrightarrow> valid (es_reserve ops r d)"
    and complete_valid: "valid d \<Longrightarrow> valid (es_complete ops r d)"
    and get_reserve: "valid d \<Longrightarrow> es_get ops (es_reserve ops r d) s k =
      (case es_get ops d s k of Some q \<Rightarrow> Some q | None \<Rightarrow> if same_row s k r then Some r else None)"
    and get_complete: "valid d \<Longrightarrow> es_get ops (es_complete ops r d) s k = None \<longleftrightarrow> es_get ops d s k = None"
begin

text \<open>Every executed side effect has a row, and was executed once.\<close>

definition logged :: "'d \<Rightarrow> 'd dispatch \<Rightarrow> bool" where
  "logged d0 s \<longleftrightarrow> valid (lg_store (dp_ledger s))
     \<and> (\<forall>(se, k) \<in> set (side_effects (dp_log s)). es_get ops (lg_store (dp_ledger s)) se k \<noteq> None)
     \<and> (\<forall>se k. es_get ops d0 se k \<noteq> None \<longrightarrow>
          es_get ops (lg_store (dp_ledger s)) se k \<noteq> None \<and> (se, k) \<notin> set (side_effects (dp_log s)))
     \<and> distinct (side_effects (dp_log s))"

lemma logged_call:
  assumes log: "logged d0 s" and r: "ledger_reserve ops digest eid now c (dp_ledger s) = (Inl q, l)"
  shows "logged d0 (s\<lparr>dp_ledger := l, dp_calls := cs, dp_log := dp_log s @ [(tc_session c, er_key q, tc_policy c)]\<rparr>)"
  using r
proof (cases rule: reserve_cases)
  case (dup p)
  then show ?thesis by simp
next
  case (fresh p)
  have q: "q = create_record eid now (call_key digest c) c" "er_key q = call_key digest c" "er_session q = tc_session c"
    using fresh(1,2) by (simp_all add: create_record_def)
  have st: "lg_store l = es_reserve ops q (lg_store (dp_ledger s))" using fresh(1,5) by simp
  have val: "valid (lg_store (dp_ledger s))" using log by (simp add: logged_def)
  have new: "es_get ops (lg_store (dp_ledger s)) (tc_session c) (er_key q) = None" if "tc_policy c \<noteq> READ_ONLY"
    using fresh(3) [OF that] q(2) by (simp add: ledger_existing_def split: option.splits)
  have keep: "es_get ops (lg_store l) se k \<noteq> None" if "es_get ops (lg_store (dp_ledger s)) se k \<noteq> None" for se k
    using that get_reserve [OF val, of q se k] st by auto
  have own: "es_get ops (lg_store l) (tc_session c) (er_key q) \<noteq> None"
    using get_reserve [OF val, of q "tc_session c" "er_key q"] st q(3) by (auto simp: same_row_def split: option.splits)
  show ?thesis
  proof (cases "tc_policy c = READ_ONLY")
    case True
    then show ?thesis using log reserve_valid [OF val, of q] keep st by (auto simp: logged_def)
  next
    case False
    have d0: "es_get ops d0 (tc_session c) (er_key q) = None"
      using log new [OF False] unfolding logged_def by (metis not_Some_eq)
    have "(tc_session c, er_key q) \<notin> set (side_effects (dp_log s))"
      using log new [OF False] unfolding logged_def by auto
    then show ?thesis using False log reserve_valid [OF val, of q] keep own st d0 by (auto simp: logged_def)
  qed
qed

lemma logged_frame:
  assumes "logged d0 s" "dp_log t = dp_log s" "lg_store (dp_ledger t) = lg_store (dp_ledger s)"
  shows "logged d0 t"
  using assms by (simp add: logged_def)

lemma logged_step:
  assumes log: "logged d0 s" and st: "dispatch_step ops digest e s = Some t"
  shows "logged d0 t"
proof (cases e)
  case (CallTool i eid now c)
  obtain r l where r: "ledger_reserve ops digest eid now c (dp_ledger s) = (r, l)" by fastforce
  show ?thesis
  proof (cases r)
    case (Inl q)
    then have "t = s\<lparr>dp_ledger := l, dp_calls := dict_set i (Executing q) (dp_calls s),
                     dp_log := dp_log s @ [(tc_session c, er_key q, tc_policy c)]\<rparr>"
      using st CallTool r by (simp split: if_splits)
    then show ?thesis using logged_call [OF log r [unfolded Inl]] by simp
  next
    case (Inr q)
    then have "dp_log t = dp_log s" "dp_ledger t = dp_ledger s"
      using st CallTool r by (auto simp: Let_def split: if_splits)
    then show ?thesis by (intro logged_frame [OF log]) simp_all
  qed
next
  case (FinishCall i now info result)
  then obtain r where "map_of (dp_calls s) i = Some (Executing r)"
    "dp_log t = dp_log s"
    "lg_store (dp_ledger t) = es_complete ops (settled_record now (PDict (ledger_result r info result)) r) (lg_store (dp_ledger s))"
    using st by (auto simp: Let_def ledger_complete_def split: option.splits call_phase.splits)
  then show ?thesis
    using log get_complete complete_valid by (auto simp: logged_def)
qed (use st log in \<open>auto simp: ledger_reset_def split: option.splits call_phase.splits if_splits intro: logged_frame\<close>)

lemma logged_run: "logged d0 s \<Longrightarrow> dispatch_run ops digest es s = Some t \<Longrightarrow> logged d0 t"
  by (induction es arbitrary: s) (auto split: option.splits intro: logged_step)

lemma at_most_once:
  assumes "valid d" "dispatch_run ops digest es (new_dispatch d) = Some s"
  shows "distinct (side_effects (dp_log s))
     \<and> (\<forall>se k. es_get ops d se k \<noteq> None \<longrightarrow> (se, k) \<notin> set (side_effects (dp_log s)))"
proof -
  have "logged d (new_dispatch d)"
    using assms(1) by (simp add: logged_def new_dispatch_def new_ledger_def side_effects_def)
  from logged_run [OF this assms(2)] show ?thesis unfolding logged_def by blast
qed

end

section \<open>The table\<close>

lemma find_append: "find P (xs @ ys) = (case find P xs of Some x \<Rightarrow> Some x | None \<Rightarrow> find P ys)"
  by (induction xs) auto

lemma find_map_same: "(\<And>x. P (f x) = P x) \<Longrightarrow> find P (map f xs) = map_option f (find P xs)"
  by (induction xs) auto

interpretation table: execution_store table_ops "\<lambda>_. True"
proof unfold_locales
  show "es_get table_ops (es_reserve table_ops r d) s k =
      (case es_get table_ops d s k of Some q \<Rightarrow> Some q | None \<Rightarrow> if same_row s k r then Some r else None)"
    for d r s k
  proof (cases "\<exists>q \<in> set d. same_row (er_session r) (er_key r) q")
    case True
    have "\<not> same_row s k r" if "find (same_row s k) d = None"
    proof
      assume "same_row s k r"
      then have "s = er_session r" "k = er_key r" by (auto simp: same_row_def)
      then show False using True that by (auto simp: find_None_iff)
    qed
    then show ?thesis
      using True by (auto simp: table_ops_def table_get_def table_reserve_def split: option.splits)
  next
    case False
    then have "table_reserve r d = d @ [r]" unfolding table_reserve_def by presburger
    then show ?thesis by (simp add: table_ops_def table_get_def find_append split: option.split)
  qed
  show "es_get table_ops (es_complete table_ops r d) s k = None \<longleftrightarrow> es_get table_ops d s k = None" for d r s k
  proof -
    have "find (same_row s k) (table_complete r d) = map_option
        (\<lambda>q. if same_row (er_session r) (er_key r) q
              then q\<lparr>er_status := er_status r, er_result := er_result r, er_completed_at := er_completed_at r,
                     er_call := (if er_call r \<noteq> [] then er_call r else er_call q)\<rparr>
              else q) (find (same_row s k) d)"
      unfolding table_complete_def by (rule find_map_same) (simp add: same_row_def)
    then show ?thesis by (simp add: table_ops_def table_get_def)
  qed
qed simp_all

section \<open>Without a reset\<close>

definition remembered :: "'d dispatch \<Rightarrow> bool" where
  "remembered s \<longleftrightarrow> distinct (map snd (side_effects (dp_log s)))
     \<and> (\<forall>k \<in> snd ` set (side_effects (dp_log s)). map_of (lg_records (dp_ledger s)) k \<noteq> None)"

lemma remembered_frame:
  "remembered s \<Longrightarrow> dp_log t = dp_log s \<Longrightarrow> dp_ledger t = dp_ledger s \<Longrightarrow> remembered t"
  by (simp add: remembered_def)

lemma remembered_step:
  assumes rem: "remembered s" and st: "dispatch_step ops digest e s = Some t" and nr: "e \<noteq> ResetLedger"
  shows "remembered t"
proof (cases e)
  case (CallTool i eid now c)
  obtain r l where r: "ledger_reserve ops digest eid now c (dp_ledger s) = (r, l)" by fastforce
  from r show ?thesis
  proof (cases rule: reserve_cases)
    case (dup q)
    then have "dp_log t = dp_log s" "dp_ledger t = dp_ledger s"
      using st CallTool r by (auto simp: Let_def split: if_splits)
    then show ?thesis using rem by (simp add: remembered_def)
  next
    case (fresh q)
    have t: "dp_log t = dp_log s @ [(tc_session c, er_key q, tc_policy c)]" "dp_ledger t = l"
      using st CallTool r fresh(1) by (auto split: if_splits)
    have k: "er_key q = call_key digest c" using fresh(2) by (simp add: create_record_def)
    have "map_of (lg_records (dp_ledger s)) (er_key q) = None" if "tc_policy c \<noteq> READ_ONLY"
      using fresh(3) [OF that] k by (simp add: ledger_existing_def split: option.splits)
    then show ?thesis
      using rem t fresh(4) k by (auto simp: remembered_def dict_simps)
  qed
next
  case (FinishCall i now info result)
  then obtain u where t: "dp_log t = dp_log s" "dp_ledger t = ledger_complete ops u (dp_ledger s)"
    using st by (auto simp: Let_def split: option.splits call_phase.splits)
  have keep: "map_of (lg_records (dp_ledger t)) k \<noteq> None" if "map_of (lg_records (dp_ledger s)) k \<noteq> None" for k
    using that t(2) by (simp add: ledger_complete_def dict_simps)
  show ?thesis using rem keep unfolding remembered_def t(1) by blast
qed (use st nr in \<open>auto split: option.splits call_phase.splits if_splits intro: remembered_frame [OF rem]\<close>)

lemma remembered_run:
  "remembered s \<Longrightarrow> ResetLedger \<notin> set es \<Longrightarrow> dispatch_run ops digest es s = Some t \<Longrightarrow> remembered t"
proof (induction es arbitrary: s)
  case (Cons e es)
  then show ?case using remembered_step [of s ops digest e] by (auto split: option.splits)
qed simp

section \<open>What a duplicate reports\<close>

definition truthful :: "exec_record \<Rightarrow> bool" where
  "truthful r \<longleftrightarrow> (er_status r = ST_COMPLETED \<longrightarrow> result_ok (er_result r))"

definition truthful_reply :: "pyval dict \<Rightarrow> bool" where
  "truthful_reply d \<longleftrightarrow> (\<exists>r. truthful r \<and> d = duplicate_result r)"

fun truthful_phase :: "call_phase \<Rightarrow> bool" where
  "truthful_phase (Executing r) = (er_status r = ST_RUNNING)"
| "truthful_phase (Waiting r) = truthful r"
| "truthful_phase (Orphaned r) = truthful r"
| "truthful_phase (Woken r) = truthful r"
| "truthful_phase (Replied d) = truthful_reply d"
| "truthful_phase (Finished r) = truthful r"
| "truthful_phase Gone = True"

definition truthful_table :: "exec_record list \<Rightarrow> bool" where
  "truthful_table rows \<longleftrightarrow> (\<forall>r \<in> set rows. truthful r)"

definition truthful_state :: "exec_record list dispatch \<Rightarrow> bool" where
  "truthful_state s \<longleftrightarrow> truthful_table (lg_store (dp_ledger s))
     \<and> (\<forall>k r. map_of (lg_records (dp_ledger s)) k = Some r \<longrightarrow> truthful r)
     \<and> (\<forall>i p. map_of (dp_calls s) i = Some p \<longrightarrow> truthful_phase p)"

lemma truthful_settled: "truthful (settled_record now v r)"
  by (simp add: truthful_def settled_record_def mark_record_completed_def mark_record_failed_def)

lemma truthful_created: "truthful (create_record eid now k c)" "er_status (create_record eid now k c) = ST_RUNNING"
  by (simp_all add: truthful_def create_record_def)

lemma truthful_still_running: "truthful (still_running now r)"
  by (simp add: truthful_def still_running_def mark_record_failed_def)

lemma truthful_get: "truthful_table rows \<Longrightarrow> table_get rows se k = Some r \<Longrightarrow> truthful r"
  by (auto simp: truthful_table_def table_get_def find_Some_iff)

lemma truthful_reserve: "truthful_table rows \<Longrightarrow> truthful r \<Longrightarrow> truthful_table (table_reserve r rows)"
  by (auto simp: truthful_table_def table_reserve_def)

lemma truthful_complete: "truthful_table rows \<Longrightarrow> truthful r \<Longrightarrow> truthful_table (table_complete r rows)"
  by (auto simp: truthful_table_def table_complete_def truthful_def)

lemma map_of_map_phase: "map_of (map (\<lambda>(j, p). (j, f p)) d) i = map_option f (map_of d i)"
  by (induction d) auto

lemma truthful_current:
  "truthful_state s \<Longrightarrow> truthful r \<Longrightarrow> truthful (ledger_current r (dp_ledger s))"
  by (auto simp: truthful_state_def ledger_current_def split: option.splits)

lemma table_ops_simps [simp]:
  "es_get table_ops = table_get" "es_reserve table_ops = table_reserve" "es_complete table_ops = table_complete"
  by (simp_all add: table_ops_def)

lemma truthful_set_call:
  assumes "truthful_state s" "truthful_phase p"
  shows "truthful_state (s\<lparr>dp_calls := dict_set i p (dp_calls s)\<rparr>)"
  using assms by (auto simp: truthful_state_def dict_simps)

lemma truthful_call:
  assumes tr: "truthful_state s" and st: "dispatch_step table_ops digest (CallTool i eid now c) s = Some t"
  shows "truthful_state t"
proof -
  obtain r l where r: "ledger_reserve table_ops digest eid now c (dp_ledger s) = (r, l)" by fastforce
  from r show ?thesis
  proof (cases rule: reserve_cases)
    case (dup q)
    have q: "truthful q"
      using dup(4) tr by (auto simp: ledger_existing_def truthful_state_def dest: truthful_get split: option.splits)
    have "truthful_phase (Replied (duplicate_result q))" "truthful_phase (Waiting q)"
      "truthful_phase (Replied (duplicate_result (ledger_current q (dp_ledger s))))"
      using q truthful_current [OF tr q] by (auto simp: truthful_reply_def)
    then show ?thesis
      using st r dup(2,3) truthful_set_call [OF tr] by (auto simp: Let_def split: if_splits)
  next
    case (fresh q)
    have t: "t = s\<lparr>dp_ledger := l, dp_calls := dict_set i (Executing q) (dp_calls s),
                   dp_log := dp_log s @ [(tc_session c, er_key q, tc_policy c)]\<rparr>"
      using st r fresh(1) by (auto split: if_splits)
    show ?thesis
      using tr fresh(2,4,5) truthful_created truthful_reserve
      by (auto simp: t truthful_state_def dict_simps)
  qed
qed

lemma truthful_finish:
  assumes tr: "truthful_state s" and st: "dispatch_step table_ops digest (FinishCall i now info result) s = Some t"
  shows "truthful_state t"
proof -
  obtain r where r: "map_of (dp_calls s) i = Some (Executing r)"
    using st by (auto split: option.splits call_phase.splits)
  let ?u = "settled_record now (PDict (ledger_result r info result)) r"
  let ?f = "\<lambda>p. if er_key ?u \<in> set (lg_inflight (dp_ledger s)) then wake ?u p else p"
  have t: "t = s\<lparr>dp_ledger := ledger_complete table_ops ?u (dp_ledger s),
                 dp_calls := map (\<lambda>(j, p). (j, ?f p)) (dict_set i (Finished ?u) (dp_calls s))\<rparr>"
    using st r by (simp add: Let_def)
  have f: "truthful_phase (?f p)" if "truthful_phase p" for p
    using that truthful_settled by (cases p) (auto simp: wake_def)
  have calls: "truthful_phase p" if jp: "map_of (dp_calls t) j = Some p" for j p
  proof -
    have "map_of (dp_calls t) j = map_option ?f (map_of (dict_set i (Finished ?u) (dp_calls s)) j)"
      by (simp add: t map_of_map_phase)
    then obtain q where q: "map_of (dict_set i (Finished ?u) (dp_calls s)) j = Some q" "p = ?f q"
      using jp by (cases "map_of (dict_set i (Finished ?u) (dp_calls s)) j") simp_all
    have "truthful_phase q"
      using q(1) tr truthful_settled by (auto simp: dict_simps truthful_state_def split: if_splits)
    then show ?thesis using f q(2) by blast
  qed
  have "truthful_table (lg_store (dp_ledger t))" "\<forall>k q. map_of (lg_records (dp_ledger t)) k = Some q \<longrightarrow> truthful q"
    using tr truthful_complete truthful_settled by (auto simp: t ledger_complete_def truthful_state_def dict_simps)
  then show ?thesis using calls unfolding truthful_state_def by blast
qed

lemma truthful_step:
  assumes tr: "truthful_state s" and st: "dispatch_step table_ops digest e s = Some t"
  shows "truthful_state t"
proof (cases e)
  case (CallTool i eid now c)
  then show ?thesis using truthful_call [OF tr] st by simp
next
  case (FinishCall i now info result)
  then show ?thesis using truthful_finish [OF tr] st by blast
next
  case (WakeCall i)
  then obtain r where r: "map_of (dp_calls s) i = Some (Woken r)" "t = s\<lparr>dp_calls := dict_set i (Replied (duplicate_result r)) (dp_calls s)\<rparr>"
    using st by (auto split: option.splits call_phase.splits)
  have "truthful_phase (Woken r)" using tr r(1) unfolding truthful_state_def by blast
  then show ?thesis unfolding r(2) by (intro truthful_set_call [OF tr]) (auto simp: truthful_reply_def)
next
  case (TimeoutCall i now)
  then obtain r where "t = s\<lparr>dp_calls := dict_set i
      (Replied (duplicate_result (still_running now (ledger_current r (dp_ledger s))))) (dp_calls s)\<rparr>"
    using st by (auto split: option.splits)
  then show ?thesis
    using truthful_set_call [OF tr, of "Replied (duplicate_result (still_running now (ledger_current r (dp_ledger s))))" i]
      truthful_still_running [of now "ledger_current r (dp_ledger s)"] unfolding truthful_phase.simps truthful_reply_def by blast
next
  case (CancelCall i)
  then show ?thesis using st truthful_set_call [OF tr, of Gone i] by (auto split: option.splits if_splits)
next
  case ResetLedger
  then have t: "t = s\<lparr>dp_ledger := ledger_reset (lg_store (dp_ledger s)) (dp_ledger s),
             dp_calls := map (\<lambda>(j, p). (j, case p of Waiting r \<Rightarrow> Orphaned r | _ \<Rightarrow> p)) (dp_calls s)\<rparr>"
    using st by simp
  have "truthful_phase (case p of Waiting r \<Rightarrow> Orphaned r | _ \<Rightarrow> p)" if "truthful_phase p" for p
    using that by (cases p) auto
  then show ?thesis
    using tr by (auto simp: t truthful_state_def ledger_reset_def map_of_map_phase)
qed

lemma truthful_run: "truthful_state s \<Longrightarrow> dispatch_run table_ops digest es s = Some t \<Longrightarrow> truthful_state t"
  by (induction es arbitrary: s) (auto split: option.splits intro: truthful_step)

lemma duplicate_fields:
  "map_of (duplicate_result r) ''ok'' = Some (PBool (er_status r = ST_COMPLETED))"
  "map_of (duplicate_result r) ''original_result'' = Some (er_result r)"
  "map_of (duplicate_result r) ''duplicate_suppressed'' = Some (PBool True)"
  by (auto simp: duplicate_result_def Let_def)

section \<open>Properties\<close>

definition sample_call :: "exec_policy \<Rightarrow> tool_call" where
  "sample_call p =
     \<lparr>tc_session = ''s'', tc_turn = ''t1'', tc_command = ''c'', tc_call = ''call-1'', tc_tool = ''message_send'',
      tc_arguments = [(''to'', PStr ''ops'')], tc_policy = p\<rparr>"

definition sample_history :: "call_event list" where
  "sample_history =
     [CallTool 0 ''e0'' 1 (sample_call EXTERNAL_SIDE_EFFECT), CallTool 1 ''e1'' 2 (sample_call EXTERNAL_SIDE_EFFECT),
      FinishCall 0 3 None (PDict [(''ok'', PBool False), (''retryable'', PBool True)]), WakeCall 1, ResetLedger,
      CallTool 2 ''e2'' 5 (sample_call EXTERNAL_SIDE_EFFECT)]"

lemmas dispatch_eval = sample_history_def sample_call_def new_dispatch_def new_ledger_def ledger_reserve_def
  ledger_existing_def call_key_def build_idempotency_key_def idempotency_payload_def removeprefix_def
  create_record_def table_get_def table_reserve_def same_row_def dict_set_def settled_record_def result_ok_def
  ledger_result_def annotate_terminal_repeat_def annotate_uncertain_effect_def uncertain_failure_def get_true_def py_truthy_def
  effect_is_uncertain_on_failure_def result_retryable_def mark_record_failed_def mark_record_completed_def
  ledger_complete_def table_complete_def ledger_reset_def wake_def ledger_current_def Let_def

lemma sample_history_runs:
  "\<exists>s. dispatch_run table_ops ip_tool sample_history (new_dispatch []) = Some s
     \<and> map snd (dp_log s) = [(''message_send'', EXTERNAL_SIDE_EFFECT)]"
  by (simp add: dispatch_eval)

text \<open>
  C7. Side effects run at most once. With the conversation store behind the ledger, whatever the
  interleaving of concurrent calls, completions, failures, timeouts, cancellations and ledger
  resets: each (session, idempotency key) of a call that is not read-only is executed at most once,
  and not at all when the table already held it, so also across restarts of the process. A failure
  marked retryable is no exception: the identical call is not executed again.
\<close>

theorem side_effect_at_most_once:
  assumes "dispatch_run table_ops digest es (new_dispatch rows) = Some s"
  shows "distinct (side_effects (dp_log s))
     \<and> (\<forall>se k. table_get rows se k \<noteq> None \<longrightarrow> (se, k) \<notin> set (side_effects (dp_log s)))"
  using table.at_most_once [OF TrueI assms] by simp

theorem side_effect_at_most_once_witness:
  "\<exists>s. dispatch_run table_ops ip_tool sample_history (new_dispatch []) = Some s
     \<and> distinct (side_effects (dp_log s))"
proof -
  obtain s where s: "dispatch_run table_ops ip_tool sample_history (new_dispatch []) = Some s"
    using sample_history_runs by blast
  show ?thesis using side_effect_at_most_once [OF s] s by blast
qed

text \<open>
  Without a durable store, or with one whose calls all fail, the ledger alone still runs each
  idempotency key of a side effect at most once, as long as it is not reset.
\<close>

theorem side_effect_at_most_once_in_memory:
  assumes "dispatch_run ops digest es (new_dispatch d) = Some s" "ResetLedger \<notin> set es"
  shows "distinct (map snd (side_effects (dp_log s)))"
proof -
  have "remembered (new_dispatch d)" by (simp add: remembered_def new_dispatch_def side_effects_def)
  from remembered_run [OF this assms(2,1)] show ?thesis by (simp add: remembered_def)
qed

definition no_store :: "unit exec_store" where
  "no_store = \<lparr>es_get = (\<lambda>d s k. None), es_reserve = (\<lambda>r d. d), es_complete = (\<lambda>r d. d)\<rparr>"

theorem side_effect_at_most_once_in_memory_witness:
  "\<exists>s. dispatch_run no_store ip_tool (take 4 sample_history) (new_dispatch ()) = Some s
     \<and> distinct (map snd (side_effects (dp_log s)))"
proof -
  have run: "\<exists>s. dispatch_run no_store ip_tool (take 4 sample_history) (new_dispatch ()) = Some s"
    by (simp add: dispatch_eval no_store_def)
  then obtain s where s: "dispatch_run no_store ip_tool (take 4 sample_history) (new_dispatch ()) = Some s" by blast
  have "ResetLedger \<notin> set (take 4 sample_history)" by (simp add: sample_history_def)
  from side_effect_at_most_once_in_memory [OF s this] s show ?thesis by blast
qed

text \<open>
  A suppressed duplicate tells the truth. If the table's completed rows carry successful
  results, then in every reachable state each reply given instead of an execution is the duplicate
  payload of some record, is marked as suppressed, says \<open>ok\<close> only when the original's recorded
  result was successful, and carries that result.
\<close>

theorem duplicate_replies_truthful:
  assumes "truthful_table rows" "dispatch_run table_ops digest es (new_dispatch rows) = Some s"
    "map_of (dp_calls s) i = Some (Replied d)"
  shows "map_of d ''duplicate_suppressed'' = Some (PBool True)
     \<and> (\<exists>ok v. map_of d ''ok'' = Some (PBool ok) \<and> map_of d ''original_result'' = Some v \<and> (ok \<longrightarrow> result_ok v))"
proof -
  have "truthful_state (new_dispatch rows)"
    using assms(1) by (simp add: truthful_state_def new_dispatch_def new_ledger_def)
  then have "truthful_state s" by (rule truthful_run [OF _ assms(2)])
  then have "truthful_phase (Replied d)" using assms(3) unfolding truthful_state_def by blast
  then obtain r where "truthful r" "d = duplicate_result r" by (auto simp: truthful_reply_def)
  then show ?thesis by (auto simp: duplicate_fields truthful_def)
qed

theorem duplicate_replies_truthful_witness:
  "\<exists>s d. dispatch_run table_ops ip_tool sample_history (new_dispatch []) = Some s
     \<and> map_of (dp_calls s) 2 = Some (Replied d) \<and> map_of d ''duplicate_suppressed'' = Some (PBool True)"
proof -
  have "\<exists>s d. dispatch_run table_ops ip_tool sample_history (new_dispatch []) = Some s
     \<and> map_of (dp_calls s) 2 = Some (Replied d)"
    by (simp add: dispatch_eval)
  then obtain s d where s: "dispatch_run table_ops ip_tool sample_history (new_dispatch []) = Some s"
    "map_of (dp_calls s) 2 = Some (Replied d)" by blast
  have "truthful_table []" by (simp add: truthful_table_def)
  from duplicate_replies_truthful [OF this s] s show ?thesis by blast
qed

text \<open>
  Idempotency keys separate exactly what they should: if the digest does not collide on the two
  payloads, two calls share a key just when they agree on session, policy, tool name up to the
  \<open>gp_\<close> prefix and arguments up to the order of dictionary keys, and, for read-only and
  idempotent calls, on the turn.
\<close>

theorem idempotency_key_exact:
  assumes "inj_on digest {idempotency_payload (tc_session a) (tc_turn a) (tc_tool a) (tc_arguments a) (tc_policy a),
                          idempotency_payload (tc_session b) (tc_turn b) (tc_tool b) (tc_arguments b) (tc_policy b)}"
  shows "call_key digest a = call_key digest b \<longleftrightarrow>
     tc_session a = tc_session b \<and> tc_policy a = tc_policy b
   \<and> removeprefix ''gp_'' (tc_tool a) = removeprefix ''gp_'' (tc_tool b)
   \<and> canonical (PDict (tc_arguments a)) = canonical (PDict (tc_arguments b))
   \<and> (tc_policy a \<in> {READ_ONLY, MUTATING_IDEMPOTENT} \<longrightarrow> tc_turn a = tc_turn b)"
proof -
  have pv: "policy_value p = policy_value q \<longleftrightarrow> p = q" for p q
    by (cases p; cases q; simp)
  have "call_key digest a = call_key digest b \<longleftrightarrow>
     idempotency_payload (tc_session a) (tc_turn a) (tc_tool a) (tc_arguments a) (tc_policy a)
     = idempotency_payload (tc_session b) (tc_turn b) (tc_tool b) (tc_arguments b) (tc_policy b)"
    unfolding call_key_def build_idempotency_key_def using inj_on_eq_iff [OF assms] by blast
  then show ?thesis
    by (cases "tc_policy a"; cases "tc_policy b") (auto simp: idempotency_payload_def Let_def)
qed

theorem idempotency_key_exact_witness:
  "call_key ip_tool (sample_call MUTATING_ONCE) = call_key ip_tool ((sample_call MUTATING_ONCE)\<lparr>tc_turn := ''t2'', tc_tool := ''gp_message_send''\<rparr>)"
proof -
  let ?a = "sample_call MUTATING_ONCE" and ?b = "(sample_call MUTATING_ONCE)\<lparr>tc_turn := ''t2'', tc_tool := ''gp_message_send''\<rparr>"
  have same: "idempotency_payload (tc_session ?a) (tc_turn ?a) (tc_tool ?a) (tc_arguments ?a) (tc_policy ?a)
      = idempotency_payload (tc_session ?b) (tc_turn ?b) (tc_tool ?b) (tc_arguments ?b) (tc_policy ?b)"
    by (simp add: idempotency_payload_def sample_call_def removeprefix_def Let_def)
  show ?thesis
    by (subst idempotency_key_exact) (simp_all only: same, simp_all add: sample_call_def removeprefix_def)
qed

text \<open>
  Policies fail safe: a tool counts as read-only only if its metadata declares it, or its risk
  level is \<open>read_only\<close>, it does not mutate state and its effect is not external; an unregistered
  tool is an external side effect; and a policy whose failures leave the effect unknown is never
  turned into one that may be repeated.
\<close>

theorem execution_policy_fail_safe:
  "execution_policy_for None = EXTERNAL_SIDE_EFFECT
   \<and> (execution_policy_for (Some s) = READ_ONLY \<longleftrightarrow>
       ts_execution_policy s = ''read_only''
       \<or> (policy_of (ts_execution_policy s) = None \<and> ts_risk_level s = ''read_only'' \<and> \<not> ts_mutates_state s
          \<and> ts_effect_scope s \<noteq> ''external''))
   \<and> (execution_policy_for (Some s) = MUTATING_IDEMPOTENT \<longleftrightarrow> ts_execution_policy s = ''mutating_idempotent'')
   \<and> (effect_is_uncertain_on_failure (policy_value p) \<longleftrightarrow> p \<notin> {READ_ONLY, MUTATING_IDEMPOTENT})"
proof (intro conjI)
  have po: "policy_of v = Some q \<longleftrightarrow> v = policy_value q" for v q
    by (cases q) (auto simp: policy_of_def split: if_splits)
  have ro: "policy_of v = Some READ_ONLY \<longleftrightarrow> v = ''read_only''"
    and mi: "policy_of v = Some MUTATING_IDEMPOTENT \<longleftrightarrow> v = ''mutating_idempotent''" for v
    by (simp_all add: po)
  show "execution_policy_for None = EXTERNAL_SIDE_EFFECT" by (simp add: execution_policy_for_def)
  show "execution_policy_for (Some s) = READ_ONLY \<longleftrightarrow>
     ts_execution_policy s = ''read_only''
     \<or> (policy_of (ts_execution_policy s) = None \<and> ts_risk_level s = ''read_only'' \<and> \<not> ts_mutates_state s
        \<and> ts_effect_scope s \<noteq> ''external'')"
    unfolding ro [of "ts_execution_policy s", symmetric]
    by (cases "policy_of (ts_execution_policy s)") (simp_all add: execution_policy_for_def)
  show "execution_policy_for (Some s) = MUTATING_IDEMPOTENT \<longleftrightarrow> ts_execution_policy s = ''mutating_idempotent''"
    unfolding mi [of "ts_execution_policy s", symmetric]
    by (cases "policy_of (ts_execution_policy s)") (simp_all add: execution_policy_for_def)
  show "effect_is_uncertain_on_failure (policy_value p) \<longleftrightarrow> p \<notin> {READ_ONLY, MUTATING_IDEMPOTENT}"
    by (cases p) (auto simp: effect_is_uncertain_on_failure_def)
qed

end
