(* ===== verification/Tool_Concurrency.thy ===== *)
theory Tool_Concurrency imports Tool_Execution "HOL-Library.Sublist" "HOL-Library.Multiset" begin

text \<open>
  \<open>engine/tools/tool_concurrency.py\<close>: the partition of a batch of tool calls into a concurrent and
  a sequential group, from the execution policies of the tools and the paths of idempotent writes.
  \<open>normpath\<close> is \<open>os.path.normpath\<close> on POSIX systems.
\<close>

section \<open>Paths\<close>

abbreviation slash :: char where
  "slash \<equiv> CHR ''/''"

text \<open>The number of leading slashes kept: two stay two, three or more are one.\<close>

definition initial_slashes :: "string \<Rightarrow> nat" where
  "initial_slashes p =
     (if py_prefix ''/'' p
      then if py_prefix ''//'' p \<and> \<not> py_prefix ''///'' p then 2 else 1
      else 0)"

fun norm_comps :: "nat \<Rightarrow> string list \<Rightarrow> string list \<Rightarrow> string list" where
  "norm_comps n acc [] = acc"
| "norm_comps n acc (c # cs) =
     (if c = [] \<or> c = ''.'' then norm_comps n acc cs
      else if c \<noteq> ''..'' \<or> (n = 0 \<and> acc = []) \<or> (acc \<noteq> [] \<and> last acc = ''..'')
      then norm_comps n (acc @ [c]) cs
      else if acc \<noteq> [] then norm_comps n (butlast acc) cs
      else norm_comps n acc cs)"

definition path_comps :: "string \<Rightarrow> string list" where
  "path_comps p = norm_comps (initial_slashes p) [] (py_split slash p)"

definition normpath :: "string \<Rightarrow> string" where
  "normpath p =
     (if p = [] then ''.''
      else let q = replicate (initial_slashes p) slash @ py_join ''/'' (path_comps p)
           in if q = [] then ''.'' else q)"

definition paths_overlap :: "string \<Rightarrow> string \<Rightarrow> bool" where
  "paths_overlap left right =
     (if left = [] \<or> right = [] then False
      else let l = normpath left; r = normpath right
           in l = r \<or> py_prefix (l @ ''/'') r \<or> py_prefix (r @ ''/'') l)"

definition extract_path :: "pyval dict \<Rightarrow> string" where
  "extract_path args =
     (case find (\<lambda>k. case map_of args k of Some (PStr s) \<Rightarrow> s \<noteq> [] | _ \<Rightarrow> False)
            [''path'', ''file_path'', ''target'', ''filename''] of
        Some k \<Rightarrow> (case map_of args k of Some (PStr s) \<Rightarrow> s | _ \<Rightarrow> [])
      | None \<Rightarrow> [])"

section \<open>Partition\<close>

record batch_call =
  bc_id :: string
  bc_name :: string
  bc_arguments :: "pyval dict"

text \<open>The injected \<open>spec_lookup\<close>: absent, raising, or answering with a spec or \<open>None\<close>.\<close>

type_synonym spec_lookup = "(string \<Rightarrow> tool_spec option outcome) option"

definition policy_for :: "spec_lookup \<Rightarrow> string \<Rightarrow> exec_policy option" where
  "policy_for lookup name =
     (case lookup of
        None \<Rightarrow> None
      | Some f \<Rightarrow> (case f name of
          Raise e \<Rightarrow> None
        | Ret None \<Rightarrow> None
        | Ret (Some spec) \<Rightarrow> Some (execution_policy_for (Some spec))))"

fun partition_loop ::
  "spec_lookup \<Rightarrow> string list \<Rightarrow> batch_call list \<Rightarrow> batch_call list \<times> batch_call list" where
  "partition_loop lookup paths [] = ([], [])"
| "partition_loop lookup paths (c # cs) =
     (case policy_for lookup (bc_name c) of
        Some READ_ONLY \<Rightarrow> (case partition_loop lookup paths cs of (con, seq) \<Rightarrow> (c # con, seq))
      | Some MUTATING_IDEMPOTENT \<Rightarrow>
          (let path = extract_path (bc_arguments c) in
           if path \<noteq> [] \<and> \<not> (\<exists>p \<in> set paths. paths_overlap path p)
           then (case partition_loop lookup (paths @ [path]) cs of (con, seq) \<Rightarrow> (c # con, seq))
           else (case partition_loop lookup paths cs of (con, seq) \<Rightarrow> (con, c # seq)))
      | _ \<Rightarrow> (case partition_loop lookup paths cs of (con, seq) \<Rightarrow> (con, c # seq)))"

definition partition_calls :: "spec_lookup \<Rightarrow> batch_call list \<Rightarrow> batch_call list \<times> batch_call list" where
  "partition_calls lookup calls =
     (if length calls \<le> 1 then (calls, []) else partition_loop lookup [] calls)"

section \<open>Paths overlap by components\<close>

lemma py_split_append: "py_split sep (xs @ sep # ys) = py_split sep xs @ py_split sep ys"
proof (induction xs)
  case (Cons x xs)
  show ?case
  proof (cases "x = sep")
    case False
    obtain p ps where "py_split sep xs = p # ps" by (cases "py_split sep xs") auto
    then show ?thesis using Cons False by simp
  qed (use Cons in simp)
qed simp

lemma py_split_single: "sep \<notin> set p \<Longrightarrow> py_split sep p = [p]"
  by (induction p) auto

lemma py_split_join: "ps \<noteq> [] \<Longrightarrow> \<forall>p \<in> set ps. sep \<notin> set p \<Longrightarrow> py_split sep (py_join [sep] ps) = ps"
  by (induction "[sep]" ps rule: py_join.induct) (auto simp: py_split_single py_split_append)

lemma py_join_snoc: "py_join [sep] (ps @ qs) = (if ps = [] then py_join [sep] qs else if qs = [] then py_join [sep] ps
    else py_join [sep] ps @ sep # py_join [sep] qs)"
proof (induction "[sep]" ps rule: py_join.induct)
  case (2 p)
  then show ?case by (cases qs) auto
qed auto

lemma norm_comps_plain:
  "\<forall>c \<in> set acc. c \<noteq> [] \<and> slash \<notin> set c \<Longrightarrow> \<forall>c \<in> set cs. slash \<notin> set c \<Longrightarrow>
     \<forall>c \<in> set (norm_comps n acc cs). c \<noteq> [] \<and> slash \<notin> set c"
proof (induction n acc cs rule: norm_comps.induct)
  case (2 n acc c cs)
  have last: "\<forall>d \<in> set (butlast acc). d \<noteq> [] \<and> slash \<notin> set d"
    using "2.prems"(1) by (blast dest: in_set_butlastD)
  have cs: "\<forall>d \<in> set cs. slash \<notin> set d" and c: "slash \<notin> set c" using "2.prems"(2) by simp_all
  show ?case
  proof (cases "c = [] \<or> c = ''.''")
    case True
    then show ?thesis using "2.IH"(1) [OF True "2.prems"(1) cs] by simp
  next
    case plain: False
    show ?thesis
    proof (cases "c \<noteq> ''..'' \<or> (n = 0 \<and> acc = []) \<or> (acc \<noteq> [] \<and> last acc = ''..'')")
      case True
      have "\<forall>d \<in> set (acc @ [c]). d \<noteq> [] \<and> slash \<notin> set d" using "2.prems"(1) c plain by simp
      from "2.IH"(2) [OF plain True this cs] show ?thesis using plain True by simp
    next
      case up: False
      show ?thesis
      proof (cases "acc = []")
        case True
        then show ?thesis using "2.IH"(4) [OF plain up] "2.prems"(1) cs plain up by simp
      next
        case False
        then show ?thesis using "2.IH"(3) [OF plain up False last cs] plain up by simp
      qed
    qed
  qed
qed simp

lemma path_comps_plain: "c \<in> set (path_comps p) \<Longrightarrow> c \<noteq> [] \<and> slash \<notin> set c"
  unfolding path_comps_def using norm_comps_plain [of "[]" "py_split slash p" "initial_slashes p"]
  by (auto dest: py_split_parts)

text \<open>Two joined component lists, one a directory prefix of the other.\<close>

lemma join_prefix_iff:
  assumes "ps \<noteq> []" "\<forall>p \<in> set ps. slash \<notin> set p" "\<forall>p \<in> set qs. slash \<notin> set p" "qs \<noteq> []"
  shows "py_prefix (py_join ''/'' ps @ ''/'') (py_join ''/'' qs) \<longleftrightarrow> strict_prefix ps qs"
proof
  assume "py_prefix (py_join ''/'' ps @ ''/'') (py_join ''/'' qs)"
  then obtain t where t: "py_join ''/'' qs = py_join ''/'' ps @ slash # t" by (auto simp: py_prefix_append)
  have "qs = py_split slash (py_join ''/'' qs)" using py_split_join assms(3,4) by auto
  also have "\<dots> = ps @ py_split slash t" unfolding t py_split_append using py_split_join assms(1,2) by auto
  finally show "strict_prefix ps qs" by (auto simp: strict_prefix_def prefix_def)
next
  assume "strict_prefix ps qs"
  then obtain rs where "qs = ps @ rs" "rs \<noteq> []" by (auto simp: strict_prefix_def prefix_def)
  then show "py_prefix (py_join ''/'' ps @ ''/'') (py_join ''/'' qs)"
    using assms(1) by (auto simp: py_prefix_append py_join_snoc)
qed

definition absolute :: "string \<Rightarrow> bool" where
  "absolute p \<longleftrightarrow> initial_slashes p = 1"

lemma join_head:
  assumes "ps \<noteq> []" "\<forall>p \<in> set ps. p \<noteq> [] \<and> slash \<notin> set p"
  shows "py_join ''/'' ps \<noteq> []"
  using assms by (cases "(''/'', ps)" rule: py_join.cases) auto

lemma normpath_absolute: "absolute p \<Longrightarrow> normpath p = slash # py_join ''/'' (path_comps p)"
proof -
  assume a: "absolute p"
  then have "p \<noteq> []" by (auto simp: absolute_def initial_slashes_def)
  then show ?thesis using a by (simp add: normpath_def absolute_def Let_def)
qed

lemma py_join_inj:
  assumes "\<forall>p \<in> set ps. p \<noteq> [] \<and> slash \<notin> set p" "\<forall>p \<in> set qs. p \<noteq> [] \<and> slash \<notin> set p"
    "py_join ''/'' ps = py_join ''/'' qs"
  shows "ps = qs"
proof (cases "ps = [] \<or> qs = []")
  case True
  then show ?thesis using assms join_head [of ps] join_head [of qs] by fastforce
next
  case False
  have "ps = py_split slash (py_join ''/'' ps)" using False assms(1) by (intro py_split_join [symmetric]) simp_all
  also have "\<dots> = py_split slash (py_join ''/'' qs)" by (simp only: assms(3))
  also have "\<dots> = qs" using False assms(2) by (intro py_split_join) simp_all
  finally show ?thesis .
qed

lemma paths_overlap_facts:
  assumes "absolute l" "absolute r" "path_comps l \<noteq> []" "path_comps r \<noteq> []"
  shows "paths_overlap l r \<longleftrightarrow> prefix (path_comps l) (path_comps r) \<or> prefix (path_comps r) (path_comps l)"
proof -
  have ne: "l \<noteq> []" "r \<noteq> []" using assms(1,2) by (auto simp: absolute_def initial_slashes_def)
  have pl: "\<forall>p \<in> set (path_comps x). p \<noteq> [] \<and> slash \<notin> set p" for x using path_comps_plain by blast
  have "paths_overlap l r \<longleftrightarrow> path_comps l = path_comps r
      \<or> strict_prefix (path_comps l) (path_comps r) \<or> strict_prefix (path_comps r) (path_comps l)"
    using ne join_prefix_iff [OF assms(3) _ _ assms(4)] join_prefix_iff [OF assms(4) _ _ assms(3)]
      py_join_inj [OF pl pl, of l r] pl [of l] pl [of r]
    by (auto simp: paths_overlap_def Let_def normpath_absolute assms(1,2))
  then show ?thesis by (auto simp: strict_prefix_def)
qed

text \<open>The root directory is not seen to contain anything: its normal form ends in the separator.\<close>

lemma root_overlap_missed: "path_comps ''/'' = [] \<and> \<not> paths_overlap ''/'' ''/x''"
  by (simp add: path_comps_def paths_overlap_def normpath_def initial_slashes_def Let_def)

section \<open>Properties\<close>

text \<open>
  Paths overlap exactly when one is an ancestor of the other. For absolute paths with at least
  one component left after normalisation (empty parts and dots dropped, double dots resolved),
  \<open>_paths_overlap\<close> holds if and only if the component list of one is a prefix of the other's, so
  siblings that merely share a name prefix do not overlap.
\<close>

theorem paths_overlap_exact:
  assumes "absolute l" "absolute r" "path_comps l \<noteq> []" "path_comps r \<noteq> []"
  shows "paths_overlap l r \<longleftrightarrow> prefix (path_comps l) (path_comps r) \<or> prefix (path_comps r) (path_comps l)"
  by (rule paths_overlap_facts [OF assms])

theorem paths_overlap_exact_witness:
  "paths_overlap ''/w/a/../b'' ''/w//b/c'' \<and> \<not> paths_overlap ''/w/b'' ''/w/bc''"
proof -
  have "absolute ''/w/a/../b''" "absolute ''/w//b/c''" "absolute ''/w/b''" "absolute ''/w/bc''"
    by (simp_all add: absolute_def initial_slashes_def)
  moreover have "path_comps ''/w/a/../b'' = [''w'', ''b'']" "path_comps ''/w//b/c'' = [''w'', ''b'', ''c'']"
    "path_comps ''/w/b'' = [''w'', ''b'']" "path_comps ''/w/bc'' = [''w'', ''bc'']"
    by (simp_all add: path_comps_def initial_slashes_def)
  ultimately show ?thesis
    using paths_overlap_exact [of "''/w/a/../b''" "''/w//b/c''"] paths_overlap_exact [of "''/w/b''" "''/w/bc''"]
    by simp
qed

definition write_paths :: "spec_lookup \<Rightarrow> batch_call list \<Rightarrow> string list" where
  "write_paths lookup cs =
     map (\<lambda>c. extract_path (bc_arguments c))
       (filter (\<lambda>c. policy_for lookup (bc_name c) = Some MUTATING_IDEMPOTENT) cs)"

lemma write_paths_simps [simp]:
  "write_paths lookup [] = []"
  "write_paths lookup (c # cs) =
     (if policy_for lookup (bc_name c) = Some MUTATING_IDEMPOTENT then extract_path (bc_arguments c) # write_paths lookup cs
      else write_paths lookup cs)"
  by (simp_all add: write_paths_def)

lemma paths_overlap_sym: "paths_overlap l r = paths_overlap r l"
  by (auto simp: paths_overlap_def Let_def)

lemma partition_loop_facts:
  "partition_loop lookup paths cs = (con, seq) \<Longrightarrow>
     mset con + mset seq = mset cs \<and> subseq con cs \<and> subseq seq cs
     \<and> (\<forall>c \<in> set con. policy_for lookup (bc_name c) = Some READ_ONLY
          \<or> policy_for lookup (bc_name c) = Some MUTATING_IDEMPOTENT \<and> extract_path (bc_arguments c) \<noteq> [])
     \<and> (\<forall>c \<in> set seq. policy_for lookup (bc_name c) \<noteq> Some READ_ONLY)
     \<and> sorted_wrt (\<lambda>p q. \<not> paths_overlap p q) (write_paths lookup con)
     \<and> (\<forall>w \<in> set (write_paths lookup con). \<forall>p \<in> set paths. \<not> paths_overlap w p)"
proof (induction cs arbitrary: paths con seq)
  case (Cons c cs)
  let ?p = "extract_path (bc_arguments c)"
  consider (ro) "policy_for lookup (bc_name c) = Some READ_ONLY"
    | (wr) "policy_for lookup (bc_name c) = Some MUTATING_IDEMPOTENT"
        "?p \<noteq> [] \<and> \<not> (\<exists>p \<in> set paths. paths_overlap ?p p)"
    | (skip) "policy_for lookup (bc_name c) = Some MUTATING_IDEMPOTENT"
        "\<not> (?p \<noteq> [] \<and> \<not> (\<exists>p \<in> set paths. paths_overlap ?p p))"
    | (other) "policy_for lookup (bc_name c) \<notin> {Some READ_ONLY, Some MUTATING_IDEMPOTENT}"
    by blast
  then show ?case
  proof cases
    case ro
    then obtain con' where c': "partition_loop lookup paths cs = (con', seq)" "con = c # con'"
      using Cons.prems by (auto split: prod.splits)
    show ?thesis using Cons.IH [OF c'(1)] ro c'(2) by auto
  next
    case wr
    obtain con' where c': "partition_loop lookup (paths @ [?p]) cs = (con', seq)" "con = c # con'"
      using Cons.prems wr by (auto simp: Let_def split: prod.splits)
    show ?thesis using Cons.IH [OF c'(1)] wr c'(2) paths_overlap_sym by auto
  next
    case skip
    obtain seq' where c': "partition_loop lookup paths cs = (con, seq')" "seq = c # seq'"
      using Cons.prems skip by (auto simp: Let_def split: prod.splits if_splits)
    show ?thesis using Cons.IH [OF c'(1)] skip(1) c'(2) by auto
  next
    case other
    then obtain seq' where c': "partition_loop lookup paths cs = (con, seq')" "seq = c # seq'"
      using Cons.prems by (auto split: prod.splits option.splits exec_policy.splits)
    show ?thesis using Cons.IH [OF c'(1)] other c'(2) by auto
  qed
qed simp

text \<open>A read is grouped with an overlapping write of the same batch, whatever path it reads.\<close>

lemma read_joins_overlapping_write:
  assumes "policy_for lookup (bc_name w) = Some MUTATING_IDEMPOTENT" "extract_path (bc_arguments w) \<noteq> []"
    "policy_for lookup (bc_name r) = Some READ_ONLY"
  shows "partition_calls lookup [w, r] = ([w, r], [])"
  using assms by (simp add: partition_calls_def Let_def)

text \<open>
  The partition of a batch is sound. For a batch of at least two calls, the concurrent and the
  sequential group together hold exactly the calls of the batch, each group in batch order; every
  concurrent call is declared read-only or is an idempotent write that names a path; no read-only
  call waits in the sequential group; a tool without a resolvable policy never runs concurrently; and
  no two writes of the concurrent group have overlapping paths.
\<close>

theorem partition_correct:
  assumes "length calls > 1" "partition_calls lookup calls = (con, seq)"
  shows "mset con + mset seq = mset calls \<and> subseq con calls \<and> subseq seq calls
     \<and> (\<forall>c \<in> set con. policy_for lookup (bc_name c) = Some READ_ONLY
          \<or> policy_for lookup (bc_name c) = Some MUTATING_IDEMPOTENT \<and> extract_path (bc_arguments c) \<noteq> [])
     \<and> (\<forall>c \<in> set seq. policy_for lookup (bc_name c) \<noteq> Some READ_ONLY)
     \<and> sorted_wrt (\<lambda>p q. \<not> paths_overlap p q) (write_paths lookup con)"
  using assms partition_loop_facts [of lookup "[]" calls con seq] by (simp add: partition_calls_def)

definition batch_specs :: "string \<Rightarrow> tool_spec option outcome" where
  "batch_specs n =
     (let spec = (\<lambda>p. \<lparr>ts_execution_policy = p, ts_risk_level = [], ts_mutates_state = False,
                        ts_idempotency_scope = [], ts_effect_scope = []\<rparr>)
      in if n = ''read'' then Ret (Some (spec ''read_only''))
         else if n = ''write'' then Ret (Some (spec ''mutating_idempotent''))
         else if n = ''boom'' then Raise ''LookupError'' else Ret None)"

definition batch_sample :: "batch_call list" where
  "batch_sample =
     [\<lparr>bc_id = ''1'', bc_name = ''write'', bc_arguments = [(''path'', PStr ''/w/a'')]\<rparr>,
      \<lparr>bc_id = ''2'', bc_name = ''boom'', bc_arguments = []\<rparr>,
      \<lparr>bc_id = ''3'', bc_name = ''write'', bc_arguments = [(''path'', PStr ''/w/a/b'')]\<rparr>,
      \<lparr>bc_id = ''4'', bc_name = ''read'', bc_arguments = []\<rparr>]"

theorem partition_correct_witness:
  "map bc_id (fst (partition_calls (Some batch_specs) batch_sample)) = [''1'', ''4'']
   \<and> mset (fst (partition_calls (Some batch_specs) batch_sample))
      + mset (snd (partition_calls (Some batch_specs) batch_sample)) = mset batch_sample"
proof -
  have l: "length batch_sample > 1" by (simp add: batch_sample_def)
  have "map bc_id (fst (partition_calls (Some batch_specs) batch_sample)) = [''1'', ''4'']"
    by code_simp
  then show ?thesis using partition_correct [OF l prod.collapse [symmetric], of "Some batch_specs"] by blast
qed

end
