(* ===== verification/Tool_Guardrails.thy ===== *)
theory Tool_Guardrails imports LF_Prelude begin

text \<open>
  \<open>engine/tools/tool_guardrails.py\<close>: the four built-in guards over the message history and their
  composite, with \<open>ToolDispatchEngine._check_guardrail\<close> that acts on the verdict. The JSON parser
  and the two digests of a call (\<open>FailureFingerprint\<close> for a failed result, the SHA-256 of the
  normalised call otherwise) are the parameters of \<open>guard_env\<close>.
\<close>

section \<open>Messages and verdicts\<close>

record guard_call =
  gc_id :: string
  gc_name :: string
  gc_arguments :: pyval

record guard_msg =
  gm_role :: string
  gm_calls :: "guard_call list"
  gm_content :: pyval
  gm_call_id :: string

record violation =
  vi_violated :: bool
  vi_reason :: ftext
  vi_halt :: bool
  vi_suggestion :: string
  vi_progress_independent :: bool

definition no_violation :: violation where
  "no_violation =
     \<lparr>vi_violated = False, vi_reason = [], vi_halt = False, vi_suggestion = [], vi_progress_independent = False\<rparr>"

record guard_env =
  ge_loads :: "string \<Rightarrow> pyval option"
  ge_failure_digest :: "string \<Rightarrow> pyval dict \<Rightarrow> pyval dict \<Rightarrow> string"
  ge_call_digest :: "string \<Rightarrow> pyval \<Rightarrow> pyval \<Rightarrow> string"

text \<open>\<open>xs[-k:]\<close> for any integer \<open>k\<close>: \<open>-0\<close> is the start of the list.\<close>

definition py_tail :: "int \<Rightarrow> 'a list \<Rightarrow> 'a list" where
  "py_tail k xs = (if k > 0 then drop (length xs - nat k) xs else drop (nat (- k)) xs)"

definition all_same :: "'a list \<Rightarrow> bool" where
  "all_same xs \<longleftrightarrow> xs \<noteq> [] \<and> (\<forall>x \<in> set xs. x = hd xs)"

section \<open>Repetition\<close>

definition has_calls :: "guard_msg \<Rightarrow> bool" where
  "has_calls m \<longleftrightarrow> gm_role m = ''assistant'' \<and> gm_calls m \<noteq> []"

definition parse_content :: "guard_env \<Rightarrow> pyval \<Rightarrow> pyval" where
  "parse_content env v =
     (case v of PStr s \<Rightarrow> (case ge_loads env s of Some w \<Rightarrow> w | None \<Rightarrow> PStr s) | _ \<Rightarrow> PStr [])"

fun results_by_id :: "guard_env \<Rightarrow> guard_msg list \<Rightarrow> pyval dict \<Rightarrow> pyval dict" where
  "results_by_id env [] acc = acc"
| "results_by_id env (m # ms) acc =
     results_by_id env ms
       (if gm_role m = ''tool'' then dict_set (gm_call_id m) (parse_content env (gm_content m)) acc else acc)"

definition call_arguments :: "guard_env \<Rightarrow> guard_call \<Rightarrow> pyval" where
  "call_arguments env c =
     (case gc_arguments c of
        PStr s \<Rightarrow> (case ge_loads env s of Some v \<Rightarrow> v | None \<Rightarrow> PDict [])
      | v \<Rightarrow> v)"

definition call_signature :: "guard_env \<Rightarrow> pyval dict \<Rightarrow> guard_call \<Rightarrow> string" where
  "call_signature env results c =
     (let args = call_arguments env c;
          result = (case map_of results (gc_id c) of Some v \<Rightarrow> v | None \<Rightarrow> PStr [])
      in case result of
           PDict d \<Rightarrow>
             if map_of d ''ok'' = Some (PBool False)
             then take 12 (ge_failure_digest env (gc_name c) (case args of PDict a \<Rightarrow> a | _ \<Rightarrow> []) d)
             else take 12 (ge_call_digest env (gc_name c) args result)
         | _ \<Rightarrow> take 12 (ge_call_digest env (gc_name c) args result))"

definition repetition_check :: "guard_env \<Rightarrow> int \<Rightarrow> guard_msg list \<Rightarrow> violation" where
  "repetition_check env max_repeats history =
     (let tool_msgs = filter has_calls history;
          results = results_by_id env history [];
          hashes = map (call_signature env results) (concat (map gm_calls (py_tail (max_repeats * 2) tool_msgs)))
      in if tool_msgs = [] then no_violation
         else if int (length hashes) \<ge> max_repeats \<and> all_same (py_tail max_repeats hashes)
         then \<lparr>vi_violated = True,
               vi_reason = [Txt ''Identical tool call returned the same result '', Num max_repeats, Txt '' times''],
               vi_halt = True, vi_suggestion = ''Try a different approach or provide the final answer.'',
               vi_progress_independent = True\<rparr>
         else no_violation)"

section \<open>Stagnation\<close>

definition is_tool_result :: "guard_msg \<Rightarrow> bool" where
  "is_tool_result m \<longleftrightarrow>
     gm_role m = ''tool'' \<or> gm_role m = ''user''
       \<and> (case gm_content m of PStr s \<Rightarrow> py_prefix ''Tool result ('' (dropWhile py_space s) | _ \<Rightarrow> False)"

definition is_success_result :: "guard_env \<Rightarrow> string \<Rightarrow> bool" where
  "is_success_result env s \<longleftrightarrow>
     py_contains (CHR 0x22 # ''ok'' @ CHR 0x22 # '': true'') s
     \<or> py_contains (CHR 0x22 # ''ok'' @ CHR 0x22 # '':true'') s
     \<or> (case ge_loads env s of Some (PDict d) \<Rightarrow> map_of d ''ok'' = Some (PBool True) | _ \<Rightarrow> False)"

definition is_success :: "guard_env \<Rightarrow> guard_msg \<Rightarrow> bool" where
  "is_success env m = (case gm_content m of PStr s \<Rightarrow> is_success_result env s | _ \<Rightarrow> False)"

definition stagnation_check :: "guard_env \<Rightarrow> int \<Rightarrow> real \<Rightarrow> guard_msg list \<Rightarrow> violation outcome" where
  "stagnation_check env window min_rate history =
     (let tool_results = filter is_tool_result (py_tail (window * 3) history);
          recent = py_tail window tool_results;
          rate = real (length (filter (is_success env) recent)) / real (length recent)
      in if int (length tool_results) < window then Ret no_violation
         else if recent = [] then Raise ''division by zero''
         else if rate < min_rate
         then Ret \<lparr>vi_violated = True,
                vi_reason = [Txt ''Low tool success rate ('', Flt rate, Txt '') in last '', Num (int (length recent)), Txt '' calls''],
                vi_halt = False, vi_suggestion = ''Most recent tool calls are failing. Reassess your approach.'',
                vi_progress_independent = False\<rparr>
         else Ret no_violation)"

section \<open>Domination\<close>

definition tool_names :: "guard_msg list \<Rightarrow> string list" where
  "tool_names history =
     filter (\<lambda>n. n \<noteq> [])
       (map gc_name (concat (map gm_calls (filter (\<lambda>m. gm_role m = ''assistant'') history))))"

definition domination_check :: "int \<Rightarrow> guard_msg list \<Rightarrow> violation" where
  "domination_check threshold history =
     (let recent = tool_names history; tail = py_tail threshold recent
      in if int (length recent) < threshold then no_violation
         else if all_same tail
         then \<lparr>vi_violated = True,
               vi_reason = [Txt (''Tool '' @ quoted (hd tail) @ '' used ''), Num threshold, Txt '' times consecutively''],
               vi_halt = False, vi_suggestion = ''Consider using a different tool or providing the answer directly.'',
               vi_progress_independent = False\<rparr>
         else no_violation)"

section \<open>Turn cap\<close>

definition count_calls :: "guard_msg list \<Rightarrow> int" where
  "count_calls history =
     int (sum_list (map (\<lambda>m. length (gm_calls m)) (filter (\<lambda>m. gm_role m = ''assistant'') history)))"

definition turn_cap_check :: "int \<Rightarrow> int option \<Rightarrow> guard_msg list \<Rightarrow> violation \<times> int option" where
  "turn_cap_check max_calls baseline history =
     (case baseline of
        None \<Rightarrow> (no_violation, Some (count_calls history))
      | Some b \<Rightarrow>
          (let n = count_calls history - b
           in if n \<ge> max_calls
              then \<lparr>vi_violated = True,
                    vi_reason = [Txt ''Turn tool-call cap reached ('', Num n, Txt ''/'', Num max_calls, Txt '')''],
                    vi_halt = True, vi_suggestion = ''Provide the best answer with the information gathered so far.'',
                    vi_progress_independent = True\<rparr>
              else no_violation, baseline))"

section \<open>The composite\<close>

datatype guard = Repetition int | Stagnation int real | Domination int | Turn_Cap int "int option"

fun guard_check :: "guard_env \<Rightarrow> guard \<Rightarrow> guard_msg list \<Rightarrow> violation outcome \<times> guard" where
  "guard_check env (Repetition k) history = (Ret (repetition_check env k history), Repetition k)"
| "guard_check env (Stagnation w r) history = (stagnation_check env w r history, Stagnation w r)"
| "guard_check env (Domination k) history = (Ret (domination_check k history), Domination k)"
| "guard_check env (Turn_Cap k b) history =
     (case turn_cap_check k b history of (v, b') \<Rightarrow> (Ret v, Turn_Cap k b'))"

fun guard_reset :: "guard \<Rightarrow> guard" where
  "guard_reset (Turn_Cap k b) = Turn_Cap k None"
| "guard_reset g = g"

definition default_guards :: "int \<Rightarrow> int \<Rightarrow> real \<Rightarrow> int \<Rightarrow> int \<Rightarrow> guard list" where
  "default_guards max_repeats window min_rate max_same max_calls =
     [Repetition max_repeats, Stagnation window min_rate, Domination max_same, Turn_Cap max_calls None]"

fun composite_loop ::
  "guard_env \<Rightarrow> guard_msg list \<Rightarrow> violation option \<Rightarrow> guard list \<Rightarrow> violation outcome \<times> guard list" where
  "composite_loop env history worst [] = (Ret (case worst of Some v \<Rightarrow> v | None \<Rightarrow> no_violation), [])"
| "composite_loop env history worst (g # gs) =
     (case guard_check env g history of
        (Raise e, g') \<Rightarrow> (Raise e, g' # gs)
      | (Ret v, g') \<Rightarrow>
          if vi_violated v \<and> vi_halt v then (Ret v, g' # gs)
          else (let worst' = (if vi_violated v
                              then (case worst of None \<Rightarrow> Some v | Some w \<Rightarrow> if \<not> vi_halt w then Some v else worst)
                              else worst)
                in case composite_loop env history worst' gs of (r, gs') \<Rightarrow> (r, g' # gs')))"

definition composite_check :: "guard_env \<Rightarrow> guard list \<Rightarrow> guard_msg list \<Rightarrow> violation outcome \<times> guard list" where
  "composite_check env guards history = composite_loop env history None guards"

definition composite_reset :: "guard list \<Rightarrow> guard list" where
  "composite_reset guards = map guard_reset guards"

section \<open>Acting on the verdict\<close>

text \<open>Whether the loop stops, and the text of the appended user message.\<close>

definition notice :: "string \<Rightarrow> violation \<Rightarrow> ftext" where
  "notice label v = Txt label # vi_reason v @ [Txt (''. '' @ vi_suggestion v)]"

definition guard_verdict :: "bool \<Rightarrow> violation \<Rightarrow> bool \<times> ftext option" where
  "guard_verdict stalled v =
     (if \<not> vi_violated v then (False, None)
      else if vi_halt v \<and> (vi_progress_independent v \<or> stalled)
      then (True, Some (notice ''SYSTEM GUARDRAIL: '' v))
      else if \<not> stalled then (False, None)
      else (False, Some (notice ''SYSTEM WARNING: '' v)))"

text \<open>
  A turn: \<open>reset\<close> and one priming \<open>check\<close> on the messages before the turn, its verdict unused, then
  rounds that append messages and check. A round brings the stall marker it reads. \<open>render\<close> prints
  the message that is appended.
\<close>

fun turn_rounds ::
  "guard_env \<Rightarrow> (ftext \<Rightarrow> string) \<Rightarrow> guard list \<Rightarrow> guard_msg list \<Rightarrow> (bool \<times> guard_msg list) list
   \<Rightarrow> guard_msg list \<times> bool outcome" where
  "turn_rounds env render guards history [] = (history, Ret False)"
| "turn_rounds env render guards history ((stalled, ms) # rounds) =
     (case composite_check env guards (history @ ms) of
        (Raise e, guards') \<Rightarrow> (history @ ms, Raise e)
      | (Ret v, guards') \<Rightarrow>
          (case guard_verdict stalled v of (halt, text) \<Rightarrow>
             let h = history @ ms @ (case text of None \<Rightarrow> []
                       | Some t \<Rightarrow> [\<lparr>gm_role = ''user'', gm_calls = [], gm_content = PStr (render t), gm_call_id = []\<rparr>])
             in if halt then (h, Ret True) else turn_rounds env render guards' h rounds))"

definition guarded_turn ::
  "guard_env \<Rightarrow> (ftext \<Rightarrow> string) \<Rightarrow> guard list \<Rightarrow> guard_msg list \<Rightarrow> (bool \<times> guard_msg list) list
   \<Rightarrow> guard_msg list \<times> bool outcome" where
  "guarded_turn env render guards history rounds =
     (case composite_check env (composite_reset guards) history of
        (Raise e, guards') \<Rightarrow> (history, Raise e)
      | (Ret v, guards') \<Rightarrow> turn_rounds env render guards' history rounds)"

end
