(* ===== verification/Tool_Guardrails_Props.thy ===== *)
theory Tool_Guardrails_Props imports Tool_Guardrails begin

text \<open>
  The composite returns the first halt or the last warning; the window of the repetition guard
  loses nothing; and the turn cap bounds the tool calls of a turn, once its baseline is taken.
\<close>

section \<open>The composite\<close>

definition stops :: "violation outcome \<Rightarrow> bool" where
  "stops r = (case r of Raise e \<Rightarrow> True | Ret v \<Rightarrow> vi_violated v \<and> vi_halt v)"

definition warning_of :: "violation outcome \<Rightarrow> violation option" where
  "warning_of r = (case r of Ret v \<Rightarrow> if vi_violated v then Some v else None | Raise e \<Rightarrow> None)"

definition guard_results :: "guard_env \<Rightarrow> guard list \<Rightarrow> guard_msg list \<Rightarrow> violation outcome list" where
  "guard_results env guards history = map (\<lambda>g. fst (guard_check env g history)) guards"

definition checked_guards :: "guard_env \<Rightarrow> guard list \<Rightarrow> guard_msg list \<Rightarrow> guard list" where
  "checked_guards env guards history =
     (let n = Suc (length (takeWhile (\<lambda>r. \<not> stops r) (guard_results env guards history)))
      in map (\<lambda>g. snd (guard_check env g history)) (take n guards) @ drop n guards)"

lemma guard_results_simps [simp]:
  "guard_results env [] history = []"
  "guard_results env (g # gs) history = fst (guard_check env g history) # guard_results env gs history"
  by (simp_all add: guard_results_def)

lemma checked_guards_simps:
  "checked_guards env [] history = []"
  "checked_guards env (g # gs) history = snd (guard_check env g history)
     # (if stops (fst (guard_check env g history)) then gs else checked_guards env gs history)"
  by (simp_all add: checked_guards_def Let_def)

lemma composite_loop_eq:
  assumes "\<And>w. worst = Some w \<Longrightarrow> \<not> vi_halt w"
  shows "composite_loop env history worst guards =
     (case find stops (guard_results env guards history) of
        Some r \<Rightarrow> r
      | None \<Rightarrow> Ret (last ((case worst of None \<Rightarrow> no_violation | Some w \<Rightarrow> w)
                        # List.map_filter warning_of (guard_results env guards history))),
      checked_guards env guards history)"
  using assms
proof (induction guards arbitrary: worst)
  case Nil
  then show ?case by (simp add: checked_guards_simps map_filter_def split: option.splits)
next
  case (Cons g gs)
  obtain r g' where g: "guard_check env g history = (r, g')" by fastforce
  show ?case
  proof (cases r)
    case (Raise e)
    then show ?thesis using g by (simp add: checked_guards_simps stops_def)
  next
    case (Ret v)
    consider "vi_violated v \<and> vi_halt v" | "vi_violated v \<and> \<not> vi_halt v" | "\<not> vi_violated v" by blast
    then show ?thesis
    proof cases
      case 1
      then show ?thesis using g Ret by (simp add: checked_guards_simps stops_def)
    next
      case 2
      then have w: "(case worst of None \<Rightarrow> Some v | Some w \<Rightarrow> if \<not> vi_halt w then Some v else worst) = Some v"
        using Cons.prems by (auto split: option.splits)
      show ?thesis
        using g Ret 2 w Cons.IH [of "Some v"]
        by (simp add: checked_guards_simps stops_def warning_of_def map_filter_simps Let_def split: prod.splits option.splits)
    next
      case 3
      then show ?thesis
        using g Ret Cons.IH [OF Cons.prems]
        by (simp add: checked_guards_simps stops_def warning_of_def map_filter_simps Let_def split: prod.splits option.splits)
    qed
  qed
qed

lemma find_holds: "find P xs = Some x \<Longrightarrow> P x"
  by (auto simp: find_Some_iff)

section \<open>The repetition window\<close>

lemma length_py_tail: "k > 0 \<Longrightarrow> length (py_tail k xs) = min (nat k) (length xs)"
  by (simp add: py_tail_def)

lemma length_concat_ge:
  "\<forall>m \<in> set ms. gm_calls m \<noteq> [] \<Longrightarrow> length (concat (map gm_calls ms)) \<ge> length ms"
  by (induction ms) (auto simp: Suc_le_eq neq_Nil_conv)

lemma py_tail_append: "k > 0 \<Longrightarrow> int (length ys) \<ge> k \<Longrightarrow> py_tail k (xs @ ys) = py_tail k ys"
  by (simp add: py_tail_def)

lemma py_tail_map: "py_tail k (map f xs) = map f (py_tail k xs)"
  by (simp add: py_tail_def drop_map)

text \<open>The last \<open>2 k\<close> messages with calls hold the last \<open>k\<close> calls.\<close>

lemma window_calls:
  assumes "k > 0" "\<forall>m \<in> set ms. gm_calls m \<noteq> []"
  defines "window \<equiv> concat (map gm_calls (py_tail (k * 2) ms))" and "calls \<equiv> concat (map gm_calls ms)"
  shows "(int (length window) \<ge> k) = (int (length calls) \<ge> k)
       \<and> (int (length calls) \<ge> k \<longrightarrow> py_tail k window = py_tail k calls)"
proof (cases "int (length ms) \<le> k * 2")
  case True
  then have "py_tail (k * 2) ms = ms" using assms(1) by (simp add: py_tail_def)
  then show ?thesis by (simp add: window_def calls_def)
next
  case False
  let ?n = "length ms - nat (k * 2)"
  have t: "py_tail (k * 2) ms = drop ?n ms" using assms(1) by (simp add: py_tail_def)
  have "length (drop ?n ms) \<le> length window"
    unfolding window_def t using assms(2) by (intro length_concat_ge) (meson in_set_dropD)
  then have w: "int (length window) \<ge> k" using False assms(1) by simp
  have "calls = concat (map gm_calls (take ?n ms)) @ window"
    unfolding calls_def window_def t by (metis append_take_drop_id concat_append map_append)
  then show ?thesis using w py_tail_append [OF assms(1) w] by simp
qed

definition call_signatures :: "guard_env \<Rightarrow> guard_msg list \<Rightarrow> string list" where
  "call_signatures env history =
     map (call_signature env (results_by_id env history [])) (concat (map gm_calls (filter has_calls history)))"

lemma repetition_check_eq:
  assumes "k > 0"
  shows "vi_violated (repetition_check env k history) \<longleftrightarrow>
     int (length (call_signatures env history)) \<ge> k \<and> all_same (py_tail k (call_signatures env history))"
proof -
  let ?ms = "filter has_calls history"
  have "\<forall>m \<in> set ?ms. gm_calls m \<noteq> []" by (simp add: has_calls_def)
  note w = window_calls [OF assms this]
  show ?thesis
    using w assms
    by (cases "?ms = []")
      (auto simp: repetition_check_def call_signatures_def Let_def py_tail_map no_violation_def)
qed

section \<open>The turn cap\<close>

abbreviation builtin_guards :: "int \<Rightarrow> int \<Rightarrow> real \<Rightarrow> int \<Rightarrow> int \<Rightarrow> int option \<Rightarrow> guard list" where
  "builtin_guards reps w rate same cap b \<equiv> [Repetition reps, Stagnation w rate, Domination same, Turn_Cap cap b]"

lemma count_calls_append [simp]: "count_calls (xs @ ys) = count_calls xs + count_calls ys"
  by (simp add: count_calls_def)

lemma count_calls_simps [simp]:
  "count_calls [] = 0"
  "gm_calls m = [] \<Longrightarrow> count_calls [m] = 0"
  by (simp_all add: count_calls_def)

lemma repetition_check_halts:
  "vi_violated (repetition_check env k h) \<Longrightarrow>
     vi_halt (repetition_check env k h) \<and> vi_progress_independent (repetition_check env k h)"
  by (auto simp: repetition_check_def Let_def no_violation_def split: if_splits)

lemma no_other_halts:
  "\<not> vi_halt (domination_check k h)"
  "stagnation_check env w r h = Ret v \<Longrightarrow> \<not> vi_halt v"
  by (auto simp: domination_check_def stagnation_check_def Let_def no_violation_def split: if_splits)

lemma cap_check_halts:
  "turn_cap_check cap (Some b) h = (v, b') \<Longrightarrow> b' = Some b \<and> (vi_halt v \<longleftrightarrow> count_calls h - b \<ge> cap)
     \<and> (vi_violated v \<longleftrightarrow> count_calls h - b \<ge> cap) \<and> (vi_progress_independent v \<longleftrightarrow> count_calls h - b \<ge> cap)"
  by (auto simp: turn_cap_check_def Let_def no_violation_def split: if_splits)

lemma builtin_check:
  assumes "composite_check env (builtin_guards reps w rate same cap (Some b)) h = (r, gs)"
  shows "gs = builtin_guards reps w rate same cap (Some b)
     \<and> (\<forall>v. r = Ret v \<longrightarrow> vi_violated v \<and> vi_halt v \<longrightarrow> vi_progress_independent v)
     \<and> (\<forall>v. r = Ret v \<longrightarrow> count_calls h - b \<ge> cap \<longrightarrow> vi_violated v \<and> vi_halt v)"
proof -
  let ?gs = "builtin_guards reps w rate same cap (Some b)"
  obtain v where cap: "turn_cap_check cap (Some b) h = (v, Some b)"
    using cap_check_halts [of cap b h] by (cases "turn_cap_check cap (Some b) h") auto
  have eq: "r = (case find stops (guard_results env ?gs h) of Some r \<Rightarrow> r
      | None \<Rightarrow> Ret (last (no_violation # List.map_filter warning_of (guard_results env ?gs h))))"
    "gs = checked_guards env ?gs h"
    using assms composite_loop_eq [of None env h ?gs] by (simp_all add: composite_check_def)
  have gs: "gs = ?gs" unfolding eq(2) by (simp add: checked_guards_simps cap)
  have halts: "vi_halt u \<and> vi_violated u \<and> vi_progress_independent u"
    if "find stops (guard_results env ?gs h) = Some (Ret u)" for u
    using that repetition_check_halts [of env reps h] no_other_halts cap_check_halts [OF cap]
    by (auto simp: cap stops_def split: if_splits outcome.splits)
  have warns: "\<not> (vi_violated u \<and> vi_halt u)"
    if "find stops (guard_results env ?gs h) = None"
      "r = Ret u" for u
  proof -
    have "u = no_violation \<or> u \<in> set (List.map_filter warning_of (guard_results env ?gs h))"
      using that eq(1) last_in_set [of "no_violation # List.map_filter warning_of (guard_results env ?gs h)"] by auto
    moreover have "\<forall>q \<in> set (guard_results env ?gs h). \<not> stops q" using that(1) by (meson find_None_iff)
    ultimately show ?thesis
      by (auto simp: no_violation_def map_filter_def warning_of_def stops_def split: outcome.splits if_splits)
  qed
  have capped: "find stops (guard_results env ?gs h) \<noteq> None" if "count_calls h - b \<ge> cap"
    using that cap_check_halts [OF cap] by (auto simp: cap stops_def find_None_iff)
  show ?thesis
    using gs halts warns capped eq(1) by (cases "find stops (guard_results env ?gs h)") auto
qed

lemma rounds_bounded:
  assumes "turn_rounds env render (builtin_guards reps w rate same cap (Some b)) h rounds = (h', r)"
    "\<forall>(stalled, ms) \<in> set rounds. count_calls ms \<le> k" "count_calls h - b \<le> max 0 (cap - 1)" "0 \<le> k"
  shows "count_calls h' - b \<le> max 0 (cap - 1) + k \<and> (r = Ret False \<and> rounds \<noteq> [] \<longrightarrow> count_calls h' - b < cap)"
  using assms(1-3)
proof (induction rounds arbitrary: h)
  case Nil
  then show ?case using assms(4) by auto
next
  case (Cons round rounds)
  let ?gs = "builtin_guards reps w rate same cap (Some b)"
  obtain stalled ms where round: "round = (stalled, ms)" by fastforce
  obtain q gs where q: "composite_check env ?gs (h @ ms) = (q, gs)" by fastforce
  have le: "count_calls (h @ ms) - b \<le> max 0 (cap - 1) + k" using Cons.prems(2,3) round by auto
  show ?case
  proof (cases q)
    case (Raise e)
    then show ?thesis using Cons.prems(1) round q le by auto
  next
    case (Ret v)
    obtain halt t where vd: "guard_verdict stalled v = (halt, t)" by fastforce
    define h1 where "h1 = h @ ms @ (case t of None \<Rightarrow> [] | Some t \<Rightarrow>
      [\<lparr>gm_role = ''user'', gm_calls = [], gm_content = PStr (render t), gm_call_id = []\<rparr>])"
    have c: "count_calls h1 = count_calls (h @ ms)" by (auto simp: h1_def split: option.splits)
    note b = builtin_check [OF q]
    have step: "turn_rounds env render ?gs h (round # rounds) =
       (if halt then (h1, Ret True) else turn_rounds env render ?gs h1 rounds)"
      using round q Ret vd b by (simp add: h1_def Let_def)
    show ?thesis
    proof (cases halt)
      case True
      then show ?thesis using Cons.prems(1) step c le by auto
    next
      case False
      then have "\<not> (vi_violated v \<and> vi_halt v)" using vd b Ret by (auto simp: guard_verdict_def split: if_splits)
      then have below: "count_calls h1 - b < cap" using b Ret c by force
      then have "count_calls h1 - b \<le> max 0 (cap - 1)" by simp
      from Cons.IH [OF _ _ this, of] below show ?thesis
        using Cons.prems(1,2) step False by (cases "rounds = []") auto
    qed
  qed
qed

lemma primed_guards:
  assumes "composite_check env (builtin_guards reps w rate same cap None) h = (Ret v, gs)" "\<not> (vi_violated v \<and> vi_halt v)"
  shows "gs = builtin_guards reps w rate same cap (Some (count_calls h))"
proof -
  let ?gs = "builtin_guards reps w rate same cap None"
  have eq: "(Ret v, gs) = (case find stops (guard_results env ?gs h) of Some r \<Rightarrow> r
      | None \<Rightarrow> Ret (last (no_violation # List.map_filter warning_of (guard_results env ?gs h))),
      checked_guards env ?gs h)"
    using assms(1) composite_loop_eq [of None env h ?gs] by (simp add: composite_check_def)
  have "find stops (guard_results env ?gs h) = None"
  proof (rule ccontr)
    assume "find stops (guard_results env ?gs h) \<noteq> None"
    then obtain q where q: "find stops (guard_results env ?gs h) = Some q" by blast
    then have "stops q" by (rule find_holds)
    moreover have "q = Ret v" using q eq by simp
    ultimately show False using assms(2) by (simp add: stops_def)
  qed
  then have "\<forall>q \<in> set (guard_results env ?gs h). \<not> stops q" by (meson find_None_iff)
  then show ?thesis using eq by (simp add: checked_guards_simps turn_cap_check_def)
qed

lemma tail_replicate:
  assumes "k > 0"
  shows "int (length xs) \<ge> k \<and> all_same (py_tail k xs) \<longleftrightarrow> (\<exists>pre x. xs = pre @ replicate (nat k) x)"
proof
  assume a: "int (length xs) \<ge> k \<and> all_same (py_tail k xs)"
  have t: "py_tail k xs = drop (length xs - nat k) xs" using assms by (simp add: py_tail_def)
  have "py_tail k xs = replicate (nat k) (hd (py_tail k xs))"
    using a assms by (intro replicate_eqI) (auto simp: all_same_def length_py_tail)
  then have "xs = take (length xs - nat k) xs @ replicate (nat k) (hd (py_tail k xs))"
    unfolding t by (metis append_take_drop_id)
  then show "\<exists>pre x. xs = pre @ replicate (nat k) x" by blast
next
  assume "\<exists>pre x. xs = pre @ replicate (nat k) x"
  then obtain pre x where x: "xs = pre @ replicate (nat k) x" by blast
  then have "py_tail k xs = replicate (nat k) x" using assms by (simp add: py_tail_append py_tail_def)
  then show "int (length xs) \<ge> k \<and> all_same (py_tail k xs)" using x assms by (auto simp: all_same_def)
qed

section \<open>Properties\<close>

definition show_env :: guard_env where
  "show_env = \<lparr>ge_loads = (\<lambda>s. None), ge_failure_digest = (\<lambda>n a r. n), ge_call_digest = (\<lambda>n a r. n)\<rparr>"

definition calls_msg :: "string \<Rightarrow> guard_msg" where
  "calls_msg n =
     \<lparr>gm_role = ''assistant'', gm_calls = [\<lparr>gc_id = n, gc_name = n, gc_arguments = PStr ''{}''\<rparr>],
      gm_content = PNone, gm_call_id = []\<rparr>"

lemmas guard_eval = show_env_def calls_msg_def composite_check_def composite_reset_def no_violation_def
  repetition_check_def has_calls_def call_signature_def call_arguments_def all_same_def py_tail_def
  stagnation_check_def is_tool_result_def domination_check_def tool_names_def turn_cap_check_def
  count_calls_def guard_verdict_def guarded_turn_def Let_def

text \<open>
  The tool calls of a turn are capped. Whatever cap state an earlier turn left, if the priming
  check of the built-in guards does not itself halt, then over any rounds of at most \<open>k\<close> tool calls
  each, whatever the stall marker says, the turn makes at most \<open>max 0 (cap - 1) + k\<close> calls, and a turn
  that went through all its rounds without a halt made fewer than \<open>cap\<close>.
\<close>

theorem turn_cap_bounded:
  assumes "composite_check env (builtin_guards reps w rate same cap None) h = (Ret v, gs)" "\<not> (vi_violated v \<and> vi_halt v)"
    "guarded_turn env render (builtin_guards reps w rate same cap b) h rounds = (h', r)"
    "\<forall>(stalled, ms) \<in> set rounds. count_calls ms \<le> k" "0 \<le> k"
  shows "count_calls h' - count_calls h \<le> max 0 (cap - 1) + k
     \<and> (r = Ret False \<and> rounds \<noteq> [] \<longrightarrow> count_calls h' - count_calls h < cap)"
proof -
  have "turn_rounds env render (builtin_guards reps w rate same cap (Some (count_calls h))) h rounds = (h', r)"
    using assms(1,3) primed_guards [OF assms(1,2)] by (simp add: guarded_turn_def composite_reset_def)
  then show ?thesis by (rule rounds_bounded) (use assms(4,5) in auto)
qed

theorem turn_cap_bounded_witness:
  "snd (guarded_turn show_env (\<lambda>_. []) (builtin_guards 2 10 0 9 2 None) [calls_msg ''a'']
     [(False, [calls_msg ''b'']), (False, [calls_msg ''c'']), (False, [calls_msg ''d''])]) = Ret True
   \<and> count_calls (fst (guarded_turn show_env (\<lambda>_. []) (builtin_guards 2 10 0 9 2 None) [calls_msg ''a'']
     [(False, [calls_msg ''b'']), (False, [calls_msg ''c'']), (False, [calls_msg ''d''])])) \<le> 3"
proof -
  let ?rounds = "[(False, [calls_msg ''b'']), (False, [calls_msg ''c'']), (False, [calls_msg ''d''])]"
  have prime: "composite_check show_env (builtin_guards 2 10 0 9 2 None) [calls_msg ''a'']
      = (Ret no_violation, builtin_guards 2 10 0 9 2 (Some 1))"
    by (simp add: guard_eval)
  have halts: "snd (guarded_turn show_env (\<lambda>_. []) (builtin_guards 2 10 0 9 2 None) [calls_msg ''a''] ?rounds) = Ret True"
    by (simp add: guard_eval)
  have "\<forall>(stalled, ms) \<in> set ?rounds. count_calls ms \<le> 1" by (simp add: guard_eval)
  from turn_cap_bounded [OF prime _ surjective_pairing this, of "\<lambda>_. []" None] halts show ?thesis
    by (simp add: no_violation_def) (simp add: count_calls_def calls_msg_def)
qed

text \<open>
  The composite runs the guards in order up to the first that halts or raises, and returns its
  verdict; with no such guard it returns the last warning, or no violation. The guards behind the
  deciding one are not run, so they do not change their state.
\<close>

theorem composite_check_exact:
  "composite_check env guards history =
     (case find stops (guard_results env guards history) of
        Some r \<Rightarrow> r
      | None \<Rightarrow> Ret (last (no_violation # List.map_filter warning_of (guard_results env guards history))),
      checked_guards env guards history)"
  using composite_loop_eq [of None env history guards] by (simp add: composite_check_def split: option.splits)

text \<open>
  The repetition guard fires exactly on a no-progress loop: for a positive limit, looking only at
  the last \<open>2 * max_repeats\<close> messages with tool calls, it reports a violation if and only if the
  signatures of all tool calls of the history end in \<open>max_repeats\<close> equal ones, and then its verdict
  is a halt that does not depend on the stall marker.
\<close>

theorem repetition_check_exact:
  assumes "k > 0"
  shows "(vi_violated (repetition_check env k history)
        \<longleftrightarrow> (\<exists>pre x. call_signatures env history = pre @ replicate (nat k) x))
     \<and> (vi_violated (repetition_check env k history)
        \<longleftrightarrow> fst (guard_verdict False (repetition_check env k history)))"
  using repetition_check_eq [OF assms, of env history] tail_replicate [OF assms] repetition_check_halts [of env k history]
  by (auto simp: guard_verdict_def)

theorem repetition_check_exact_witness:
  "vi_violated (repetition_check show_env 2 [calls_msg ''b'', calls_msg ''a'', calls_msg ''a''])
   \<and> \<not> vi_violated (repetition_check show_env 2 [calls_msg ''a'', calls_msg ''b'', calls_msg ''a''])"
proof -
  have "call_signatures show_env [calls_msg ''b'', calls_msg ''a'', calls_msg ''a''] = [''b''] @ replicate (nat 2) ''a''"
    by (simp add: call_signatures_def guard_eval eval_nat_numeral)
  then have "\<exists>pre x. call_signatures show_env [calls_msg ''b'', calls_msg ''a'', calls_msg ''a''] = pre @ replicate (nat 2) x"
    by blast
  then have pos: "vi_violated (repetition_check show_env 2 [calls_msg ''b'', calls_msg ''a'', calls_msg ''a''])"
    using conjunct1 [OF repetition_check_exact [of 2 show_env "[calls_msg ''b'', calls_msg ''a'', calls_msg ''a'']"]] by simp
  have sigs: "call_signatures show_env [calls_msg ''a'', calls_msg ''b'', calls_msg ''a''] = [''a'', ''b'', ''a'']"
    by (simp add: call_signatures_def guard_eval)
  have "\<not> vi_violated (repetition_check show_env 2 [calls_msg ''a'', calls_msg ''b'', calls_msg ''a''])"
    using conjunct1 [OF repetition_check_exact [of 2 show_env "[calls_msg ''a'', calls_msg ''b'', calls_msg ''a'']"]]
    unfolding sigs by (auto simp: eval_nat_numeral append_eq_Cons_conv)
  with pos show ?thesis by blast
qed

text \<open>
  The priming check can be cut short: if the messages before the turn already end in a repetition, the
  repetition guard halts first, the cap takes its baseline only at the next check, and the calls of
  the first round are free. Here a cap of 2 with rounds of one call lets three calls through.
\<close>

lemma cap_baseline_missed:
  "\<exists>h'. guarded_turn show_env (\<lambda>_. []) (builtin_guards 2 10 0 9 2 None) [calls_msg ''a'', calls_msg ''a'']
       [(False, [calls_msg ''b'']), (False, [calls_msg ''c'']), (False, [calls_msg ''d''])] = (h', Ret True)
     \<and> count_calls h' - count_calls [calls_msg ''a'', calls_msg ''a''] = 3"
  by (simp add: guard_eval eval_nat_numeral)

end
