(* ===== verification/Think_Scrubber.thy ===== *)
theory Think_Scrubber imports LF_Prelude "HOL-Library.Sublist" begin

text \<open>
  \<open>engine/think_scrubber.py\<close>: the streaming state machine that removes think blocks, and the
  output sink around it. A chunk boundary is anywhere: the machine keeps the part of a tag seen so
  far in its buffer.
\<close>

section \<open>The state machine\<close>

definition open_tag :: string where
  "open_tag = ''<think>''"

definition close_tag :: string where
  "close_tag = ''</think>''"

record scrubber =
  sc_thinking :: bool
  sc_buf :: string

definition new_scrubber :: scrubber where
  "new_scrubber = \<lparr>sc_thinking = False, sc_buf = []\<rparr>"

text \<open>\<open>_feed_normal\<close> and \<open>_feed_in_think\<close>: the next state and the emitted text.\<close>

definition feed_normal :: "char \<Rightarrow> scrubber \<Rightarrow> string \<times> scrubber" where
  "feed_normal ch s =
     (if sc_buf s \<noteq> []
      then let candidate = sc_buf s @ [ch]
           in if py_prefix candidate open_tag
              then ([], if candidate = open_tag then s\<lparr>sc_buf := [], sc_thinking := True\<rparr> else s\<lparr>sc_buf := candidate\<rparr>)
              else if ch = CHR ''<'' then (sc_buf s, s\<lparr>sc_buf := [ch]\<rparr>)
              else (sc_buf s @ [ch], s\<lparr>sc_buf := []\<rparr>)
      else if ch = CHR ''<'' then ([], s\<lparr>sc_buf := [ch]\<rparr>)
      else ([ch], s))"

definition feed_in_think :: "char \<Rightarrow> scrubber \<Rightarrow> string \<times> scrubber" where
  "feed_in_think ch s =
     (if sc_buf s \<noteq> []
      then let candidate = sc_buf s @ [ch]
           in if py_prefix candidate close_tag
              then ([], if candidate = close_tag then s\<lparr>sc_buf := [], sc_thinking := False\<rparr> else s\<lparr>sc_buf := candidate\<rparr>)
              else ([], s\<lparr>sc_buf := (if ch = CHR ''<'' then [ch] else [])\<rparr>)
      else ([], if ch = CHR ''<'' then s\<lparr>sc_buf := [ch]\<rparr> else s))"

definition feed :: "char \<Rightarrow> scrubber \<Rightarrow> string \<times> scrubber" where
  "feed ch s = (if \<not> sc_thinking s then feed_normal ch s else feed_in_think ch s)"

fun scrub :: "string \<Rightarrow> scrubber \<Rightarrow> string \<times> scrubber" where
  "scrub [] s = ([], s)"
| "scrub (ch # chunk) s =
     (case feed ch s of (out, s1) \<Rightarrow> (case scrub chunk s1 of (outs, s2) \<Rightarrow> (out @ outs, s2)))"

definition scrub_flush :: "scrubber \<Rightarrow> string \<times> scrubber" where
  "scrub_flush s = (if \<not> sc_thinking s \<and> sc_buf s \<noteq> [] then (sc_buf s, s\<lparr>sc_buf := []\<rparr>) else ([], s\<lparr>sc_buf := []\<rparr>))"

definition scrub_reset :: "scrubber \<Rightarrow> scrubber" where
  "scrub_reset s = new_scrubber"

section \<open>The sink\<close>

text \<open>What the wrapped sink receives, in order. Empty chunks are not forwarded.\<close>

datatype sink_event = Chunk_Out string | Final_Out string | Closed_Out

record scrub_sink =
  sk_scrubber :: scrubber
  sk_inner :: "sink_event list"

definition new_sink :: scrub_sink where
  "new_sink = \<lparr>sk_scrubber = new_scrubber, sk_inner = []\<rparr>"

definition forward_chunk :: "string \<times> scrubber \<Rightarrow> scrub_sink \<Rightarrow> scrub_sink" where
  "forward_chunk r k = k\<lparr>sk_scrubber := snd r, sk_inner := sk_inner k @ (if fst r \<noteq> [] then [Chunk_Out (fst r)] else [])\<rparr>"

definition emit_chunk :: "string \<Rightarrow> scrub_sink \<Rightarrow> scrub_sink" where
  "emit_chunk chunk k = forward_chunk (scrub chunk (sk_scrubber k)) k"

definition emit_final :: "string \<Rightarrow> scrub_sink \<Rightarrow> scrub_sink" where
  "emit_final content k =
     (case scrub content new_scrubber of (out, s) \<Rightarrow>
        k\<lparr>sk_inner := sk_inner k @ [Final_Out (out @ fst (scrub_flush s))]\<rparr>)"

definition close_sink :: "scrub_sink \<Rightarrow> scrub_sink" where
  "close_sink k =
     (let k1 = forward_chunk (scrub_flush (sk_scrubber k)) k in k1\<lparr>sk_inner := sk_inner k1 @ [Closed_Out]\<rparr>)"

section \<open>Reference\<close>

text \<open>
  The text without its blocks, read as a whole: at an opening tag everything up to and with the next
  closing tag goes, or the rest of the text if there is none.
\<close>

fun after_close :: "string \<Rightarrow> string" where
  "after_close [] = []"
| "after_close (c # cs) = (if py_prefix close_tag (c # cs) then drop (length close_tag) (c # cs) else after_close cs)"

lemma after_close_length: "length (after_close s) \<le> length s"
  by (induction s) auto

function strip_think :: "string \<Rightarrow> string" where
  "strip_think [] = []"
| "strip_think (c # cs) =
     (if py_prefix open_tag (c # cs) then strip_think (after_close (drop (length open_tag) (c # cs)))
      else c # strip_think cs)"
  by pat_completeness auto
termination
proof (relation "measure length")
  fix c :: char and cs
  have "length (after_close (drop (length open_tag) (c # cs))) \<le> length (drop (length open_tag) (c # cs))"
    by (rule after_close_length)
  then show "(after_close (drop (length open_tag) (c # cs)), c # cs) \<in> measure length"
    by (simp add: open_tag_def)
qed simp_all

section \<open>The machine follows the reference\<close>

text \<open>What the machine still owes for the coming text: the reference on the buffered part of a tag and it.\<close>

definition owed :: "scrubber \<Rightarrow> string \<Rightarrow> string" where
  "owed s t = (if sc_thinking s then strip_think (after_close (sc_buf s @ t)) else strip_think (sc_buf s @ t))"

definition tag_buf :: "scrubber \<Rightarrow> bool" where
  "tag_buf s \<longleftrightarrow> sc_buf s \<in> (if sc_thinking s then {[], ''<'', ''</'', ''</t'', ''</th'', ''</thi'', ''</thin'', ''</think''}
                       else {[], ''<'', ''<t'', ''<th'', ''<thi'', ''<thin'', ''<think''})"

lemma strip_think_plain: "c \<noteq> CHR ''<'' \<Longrightarrow> strip_think (c # t) = c # strip_think t"
  by (simp add: open_tag_def)

lemma after_close_plain: "c \<noteq> CHR ''<'' \<Longrightarrow> after_close (c # t) = after_close t"
  by (simp add: close_tag_def)

lemma tag_eval:
  "strip_think (open_tag @ t) = strip_think (after_close t)" "after_close (close_tag @ t) = t"
  by (simp_all add: open_tag_def close_tag_def)

lemmas tag_step = feed_def feed_normal_def feed_in_think_def owed_def tag_buf_def open_tag_def close_tag_def Let_def
  strip_think_plain after_close_plain

lemma feed_normal_owed:
  assumes "tag_buf s" "\<not> sc_thinking s"
  shows "owed s (c # t) = fst (feed c s) @ owed (snd (feed c s)) t \<and> tag_buf (snd (feed c s))"
proof -
  consider "sc_buf s = []" | "sc_buf s = ''<''" | "sc_buf s = ''<t''" | "sc_buf s = ''<th''" | "sc_buf s = ''<thi''"
    | "sc_buf s = ''<thin''" | "sc_buf s = ''<think''"
    using assms by (auto simp: tag_buf_def)
  then show ?thesis by cases (use assms in \<open>auto simp: tag_step\<close>)
qed

lemma feed_think_owed:
  assumes "tag_buf s" "sc_thinking s"
  shows "owed s (c # t) = fst (feed c s) @ owed (snd (feed c s)) t \<and> tag_buf (snd (feed c s))"
proof -
  consider "sc_buf s = []" | "sc_buf s = ''<''" | "sc_buf s = ''</''" | "sc_buf s = ''</t''" | "sc_buf s = ''</th''"
    | "sc_buf s = ''</thi''" | "sc_buf s = ''</thin''" | "sc_buf s = ''</think''"
    using assms by (auto simp: tag_buf_def)
  then show ?thesis by cases (use assms in \<open>auto simp: tag_step\<close>)
qed

lemma scrub_owed:
  "tag_buf s \<Longrightarrow> owed s (t @ u) = fst (scrub t s) @ owed (snd (scrub t s)) u \<and> tag_buf (snd (scrub t s))"
proof (induction t arbitrary: s)
  case (Cons c t)
  have "owed s (c # (t @ u)) = fst (feed c s) @ owed (snd (feed c s)) (t @ u) \<and> tag_buf (snd (feed c s))"
    using feed_normal_owed feed_think_owed Cons.prems by blast
  then show ?case using Cons.IH [of "snd (feed c s)"] by (simp add: case_prod_unfold)
qed simp

lemma flush_owed: "tag_buf s \<Longrightarrow> fst (scrub_flush s) = owed s []"
  by (auto simp: tag_buf_def scrub_flush_def owed_def open_tag_def close_tag_def split: if_splits)

lemma new_scrubber_owed: "owed new_scrubber t = strip_think t" "tag_buf new_scrubber"
  by (simp_all add: owed_def new_scrubber_def tag_buf_def)

lemma scrub_append: "scrub (t @ u) s = (fst (scrub t s) @ fst (scrub u (snd (scrub t s))), snd (scrub u (snd (scrub t s))))"
  by (induction t arbitrary: s) (auto split: prod.splits)

section \<open>The sink\<close>

definition chunk_text :: "sink_event list \<Rightarrow> string" where
  "chunk_text es = concat (map (\<lambda>e. case e of Chunk_Out t \<Rightarrow> t | _ \<Rightarrow> []) es)"

lemma chunk_text_append [simp]: "chunk_text (xs @ ys) = chunk_text xs @ chunk_text ys"
  by (simp add: chunk_text_def)

lemma chunk_text_simps [simp]:
  "chunk_text [] = []" "chunk_text [Chunk_Out t] = t" "chunk_text [Closed_Out] = []" "chunk_text [Final_Out t] = []"
  by (simp_all add: chunk_text_def)

lemma forward_chunk_text:
  "chunk_text (sk_inner (forward_chunk r k)) = chunk_text (sk_inner k) @ fst r" "sk_scrubber (forward_chunk r k) = snd r"
  by (simp_all add: forward_chunk_def)

lemma emit_chunks_text:
  "chunk_text (sk_inner (fold emit_chunk chunks k)) = chunk_text (sk_inner k) @ fst (scrub (concat chunks) (sk_scrubber k))
   \<and> sk_scrubber (fold emit_chunk chunks k) = snd (scrub (concat chunks) (sk_scrubber k))"
proof (induction chunks arbitrary: k)
  case (Cons c chunks)
  show ?case
    using Cons.IH [of "emit_chunk c k"]
    by (simp add: emit_chunk_def forward_chunk_text scrub_append)
qed simp

lemma sink_chunks_text:
  "chunk_text (sk_inner (fold emit_chunk chunks new_sink)) = fst (scrub (concat chunks) new_scrubber)"
  "chunk_text (sk_inner (close_sink (fold emit_chunk chunks new_sink))) = strip_think (concat chunks)"
  using emit_chunks_text [of chunks new_sink] scrub_owed [OF new_scrubber_owed(2), of "concat chunks" "[]"]
    flush_owed [of "snd (scrub (concat chunks) new_scrubber)"]
  by (simp_all add: close_sink_def forward_chunk_text new_sink_def new_scrubber_owed Let_def)

text \<open>
  C39. Streaming agrees with the whole text. However the stream is cut into chunks, once the sink is
  closed the chunks the inner sink received are together the text with its think blocks removed, as
  the reference reads it in one piece; before that they are a prefix of it, whatever chunks still
  come; and \<open>emit_final\<close> sends exactly the reference's text, whatever state the stream left.
\<close>

theorem scrubbing_streams:
  "chunk_text (sk_inner (close_sink (fold emit_chunk chunks new_sink))) = strip_think (concat chunks)
   \<and> prefix (chunk_text (sk_inner (fold emit_chunk chunks new_sink))) (strip_think (concat chunks @ later))
   \<and> sk_inner (emit_final content k) = sk_inner k @ [Final_Out (strip_think content)]"
proof -
  have "strip_think (concat chunks @ later) = fst (scrub (concat chunks) new_scrubber) @ owed (snd (scrub (concat chunks) new_scrubber)) later"
    using scrub_owed [OF new_scrubber_owed(2), of "concat chunks" later] by (simp add: new_scrubber_owed)
  moreover have "sk_inner (emit_final content k) = sk_inner k @ [Final_Out (strip_think content)]"
    using scrub_owed [OF new_scrubber_owed(2), of content "[]"] flush_owed [of "snd (scrub content new_scrubber)"]
    by (simp add: emit_final_def new_scrubber_owed case_prod_unfold)
  ultimately show ?thesis by (simp add: sink_chunks_text)
qed

text \<open>A block inside a broken tag: removing it joins the halves, and the tag is in the output.\<close>

lemma tag_reassembled: "strip_think ''<th<think>x</think>ink>y'' = ''<think>y''"
  by (simp add: open_tag_def close_tag_def)

text \<open>Blocks do not nest: the outer block ends at the inner closing tag.\<close>

lemma nested_block_ends_early: "strip_think ''<think>a<think>b</think>c</think>d'' = ''c</think>d''"
  by (simp add: open_tag_def close_tag_def)

end
