(* ===== verification/Message_Healer.thy ===== *)
theory Message_Healer imports LF_Prelude begin

text \<open>
  \<open>engine/message_healer.py\<close>: the six repairs of a message sequence before a model call. A message
  is the keys the repairs read, and the other keys, which they keep. An absent \<open>tool_calls\<close> key is
  \<open>None\<close>; a present one that is empty or null is \<open>Some []\<close>. \<open>loads_ok\<close> says whether \<open>json.loads\<close>
  accepts a text.
\<close>

section \<open>Messages\<close>

record heal_call =
  hc_id :: string
  hc_call_id :: string
  hc_arguments :: pyval
  hc_other :: "pyval dict"

record heal_msg =
  hm_role :: string
  hm_content :: "pyval option"
  hm_calls :: "heal_call list option"
  hm_call_id :: string
  hm_other :: "pyval dict"

definition truthy_calls :: "heal_msg \<Rightarrow> bool" where
  "truthy_calls m = (case hm_calls m of Some (c # cs) \<Rightarrow> True | _ \<Rightarrow> False)"

definition is_tool :: "heal_msg \<Rightarrow> bool" where
  "is_tool m \<longleftrightarrow> hm_role m = ''tool''"

definition is_assistant :: "heal_msg \<Rightarrow> bool" where
  "is_assistant m \<longleftrightarrow> hm_role m = ''assistant''"

section \<open>Empty content\<close>

definition blank_content :: "heal_msg \<Rightarrow> bool" where
  "blank_content m = (case hm_content m of None \<Rightarrow> True | Some PNone \<Rightarrow> True | Some (PStr s) \<Rightarrow> py_strip s = [] | _ \<Rightarrow> False)"

definition fix_empty_content :: "heal_msg list \<Rightarrow> heal_msg list" where
  "fix_empty_content =
     map (\<lambda>m. if blank_content m \<and> \<not> truthy_calls m then m\<lparr>hm_content := Some (PStr ''(no content)'')\<rparr> else m)"

section \<open>Arguments\<close>

definition count_char :: "char \<Rightarrow> string \<Rightarrow> int" where
  "count_char c s = int (length (filter ((=) c) s))"

definition rstrip_char :: "char \<Rightarrow> string \<Rightarrow> string" where
  "rstrip_char c s = rev (dropWhile ((=) c) (rev s))"

definition before_last :: "char \<Rightarrow> string \<Rightarrow> string" where
  "before_last c s = rev (tl (dropWhile ((\<noteq>) c) (rev s)))"

definition balance_json :: "string \<Rightarrow> string" where
  "balance_json raw =
     (let c = rstrip_char (CHR '','') (py_strip raw);
          braces = count_char (CHR ''{'') c - count_char (CHR ''}'') c;
          c1 = (if braces > 0 then c @ replicate (nat braces) (CHR ''}'')
                else if braces < 0 then before_last (CHR ''}'') c else c);
          brackets = count_char (CHR ''['') c1 - count_char (CHR '']'') c1
      in if brackets > 0 then c1 @ replicate (nat brackets) (CHR '']'') else c1)"

definition try_repair_json :: "(string \<Rightarrow> bool) \<Rightarrow> string \<Rightarrow> string" where
  "try_repair_json loads_ok raw =
     (if py_strip raw = [] then ''{}''
      else if loads_ok raw then raw
      else if loads_ok (balance_json raw) then balance_json raw else ''{}'')"

definition repair_call :: "(string \<Rightarrow> bool) \<Rightarrow> heal_call \<Rightarrow> heal_call" where
  "repair_call loads_ok c =
     (case hc_arguments c of PStr raw \<Rightarrow> c\<lparr>hc_arguments := PStr (try_repair_json loads_ok raw)\<rparr> | _ \<Rightarrow> c)"

definition repair_tool_call_arguments :: "(string \<Rightarrow> bool) \<Rightarrow> heal_msg list \<Rightarrow> heal_msg list" where
  "repair_tool_call_arguments loads_ok =
     map (\<lambda>m. m\<lparr>hm_calls := map_option (map (repair_call loads_ok)) (hm_calls m)\<rparr>)"

section \<open>Role alternation\<close>

definition merged :: "heal_msg \<Rightarrow> heal_msg \<Rightarrow> heal_msg option" where
  "merged prev m =
     (if hm_role m = hm_role prev \<and> hm_role m \<noteq> ''system'' \<and> \<not> is_tool m \<and> hm_calls prev = None \<and> hm_calls m = None
      then (case (case hm_content prev of None \<Rightarrow> PStr [] | Some v \<Rightarrow> v, case hm_content m of None \<Rightarrow> PStr [] | Some v \<Rightarrow> v) of
              (PStr a, PStr b) \<Rightarrow> Some (prev\<lparr>hm_content := Some (PStr (a @ CHR 0x0A # b))\<rparr>)
            | _ \<Rightarrow> None)
      else None)"

fun alternate :: "heal_msg \<Rightarrow> heal_msg list \<Rightarrow> heal_msg list" where
  "alternate prev [] = [prev]"
| "alternate prev (m # ms) =
     (case merged prev m of Some p \<Rightarrow> alternate p ms | None \<Rightarrow> prev # alternate m ms)"

definition fix_role_alternation :: "heal_msg list \<Rightarrow> heal_msg list" where
  "fix_role_alternation ms = (case ms of [] \<Rightarrow> [] | m # rest \<Rightarrow> alternate m rest)"

section \<open>Orphan tool results\<close>

text \<open>The backward walk from a tool result: over tool results to an assistant message.\<close>

fun valid_parent :: "heal_msg list \<Rightarrow> bool" where
  "valid_parent [] = False"
| "valid_parent (m # before) =
     (if is_assistant m then hm_calls m \<noteq> None else if \<not> is_tool m then False else valid_parent before)"

fun orphan_loop :: "heal_msg list \<Rightarrow> heal_msg list \<Rightarrow> heal_msg list" where
  "orphan_loop before [] = []"
| "orphan_loop before (m # ms) =
     (if is_tool m \<and> \<not> valid_parent before then orphan_loop (m # before) ms else m # orphan_loop (m # before) ms)"

definition fix_orphan_tool_results :: "heal_msg list \<Rightarrow> heal_msg list" where
  "fix_orphan_tool_results ms = orphan_loop [] ms"

section \<open>Missing tool results\<close>

definition effective_id :: "heal_call \<Rightarrow> string" where
  "effective_id c = (if hc_id c \<noteq> [] then hc_id c else hc_call_id c)"

text \<open>The JSON text of a result that says the call was not executed.\<close>

definition skipped_content :: string where
  "skipped_content =
     (let q = (\<lambda>s. CHR 0x22 # s @ [CHR 0x22]) in
      ''{'' @ q ''ok'' @ '': false, '' @ q ''execution_skipped'' @ '': true, '' @ q ''skipped_reason'' @ '': ''
      @ q ''no_result_recorded'' @ '', '' @ q ''note'' @ '': ''
      @ q (''This tool call produced no result (batch stopped, cancelled, or truncated). ''
           @ ''Re-issue it if the action is still needed.'')
      @ '', '' @ q ''counts_as_failure'' @ '': false}'')"

definition synthetic_tool_result :: "string \<Rightarrow> heal_msg" where
  "synthetic_tool_result i =
     \<lparr>hm_role = ''tool'', hm_content = Some (PStr skipped_content), hm_calls = None, hm_call_id = i, hm_other = []\<rparr>"

fun synthesize :: "string list \<Rightarrow> heal_call list \<Rightarrow> heal_msg list \<times> string list" where
  "synthesize responded [] = ([], responded)"
| "synthesize responded (c # cs) =
     (let i = effective_id c in
      if i \<noteq> [] \<and> i \<notin> set responded
      then (case synthesize (i # responded) cs of (ms, r) \<Rightarrow> (synthetic_tool_result i # ms, r))
      else synthesize responded cs)"

function missing_loop :: "string list \<Rightarrow> heal_msg list \<Rightarrow> heal_msg list" where
  "missing_loop responded [] = []"
| "missing_loop responded (m # ms) =
     (if is_assistant m \<and> truthy_calls m
      then (case synthesize responded (the (hm_calls m)) of (added, responded') \<Rightarrow>
              m # takeWhile is_tool ms @ added @ missing_loop responded' (dropWhile is_tool ms))
      else m # missing_loop responded ms)"
  by pat_completeness auto
termination
  by (relation "measure (\<lambda>(responded, ms). length ms)") (auto simp: le_imp_less_Suc length_dropWhile_le)

definition tool_ids :: "heal_msg list \<Rightarrow> string list" where
  "tool_ids ms = filter (\<lambda>i. i \<noteq> []) (map hm_call_id (filter is_tool ms))"

definition fix_missing_tool_results :: "heal_msg list \<Rightarrow> heal_msg list" where
  "fix_missing_tool_results ms = missing_loop (tool_ids ms) ms"

section \<open>The open tail\<close>

fun tail_open :: "heal_msg list \<Rightarrow> bool" where
  "tail_open [] = False"
| "tail_open (m # before) = (if is_tool m then tail_open before else is_assistant m \<and> truthy_calls m)"

definition closing_message :: heal_msg where
  "closing_message =
     \<lparr>hm_role = ''assistant'', hm_content = Some (PStr ''Operation interrupted. Continuing...''), hm_calls = None,
      hm_call_id = [], hm_other = []\<rparr>"

definition close_interrupted :: "heal_msg list \<Rightarrow> heal_msg list" where
  "close_interrupted ms =
     (if ms = [] then ms
      else if \<not> is_tool (last ms) then ms
      else if tail_open (rev ms) then ms
      else ms @ [closing_message])"

section \<open>Healing\<close>

definition heal :: "(string \<Rightarrow> bool) \<Rightarrow> heal_msg list \<Rightarrow> heal_msg list" where
  "heal loads_ok ms =
     (if ms = [] then ms
      else close_interrupted (fix_missing_tool_results (fix_orphan_tool_results (fix_role_alternation
             (repair_tool_call_arguments loads_ok (fix_empty_content ms))))))"

end
