(* ===== verification/Message_Healer_Props.thy ===== *)
theory Message_Healer_Props imports Message_Healer begin

text \<open>
  A healed sequence satisfies the tool protocol, and a sequence that satisfies it already is not
  touched. Each requirement is established by one repair and kept by the later ones.
\<close>

section \<open>Requirements\<close>

definition content_ok :: "heal_msg \<Rightarrow> bool" where
  "content_ok m \<longleftrightarrow> \<not> blank_content m \<or> truthy_calls m"

definition arguments_ok :: "(string \<Rightarrow> bool) \<Rightarrow> heal_msg \<Rightarrow> bool" where
  "arguments_ok loads_ok m \<longleftrightarrow>
     (\<forall>cs. hm_calls m = Some cs \<longrightarrow> (\<forall>c \<in> set cs. \<forall>raw. hc_arguments c = PStr raw \<longrightarrow> loads_ok raw \<and> py_strip raw \<noteq> []))"

text \<open>Every tool result follows, over other tool results, an assistant message with \<open>tool_calls\<close>.\<close>

fun parented :: "heal_msg list \<Rightarrow> heal_msg list \<Rightarrow> bool" where
  "parented before [] = True"
| "parented before (m # ms) = ((is_tool m \<longrightarrow> valid_parent before) \<and> parented (m # before) ms)"

definition asked_ids :: "heal_msg list \<Rightarrow> string set" where
  "asked_ids ms = {effective_id c |c m cs. m \<in> set ms \<and> is_assistant m \<and> hm_calls m = Some cs \<and> c \<in> set cs} - {[]}"

lemma parented_iff: "parented before ms \<longleftrightarrow> (\<forall>i < length ms. is_tool (ms ! i) \<longrightarrow> valid_parent (rev (take i ms) @ before))"
proof (induction ms arbitrary: before)
  case (Cons m ms)
  then show ?case by (simp add: All_less_Suc2)
qed simp

lemma valid_parent_cong:
  "valid_parent a = valid_parent b \<Longrightarrow> valid_parent (m # a) = valid_parent (m # b)"
  by simp

lemma parented_cong: "valid_parent a = valid_parent b \<Longrightarrow> parented a ms = parented b ms"
proof (induction ms arbitrary: a b)
  case (Cons m ms)
  from Cons.IH [OF valid_parent_cong [OF Cons.prems]] Cons.prems show ?case by simp
qed simp

lemma parented_append: "parented before (xs @ ys) \<longleftrightarrow> parented before xs \<and> parented (rev xs @ before) ys"
  by (induction xs arbitrary: before) auto

section \<open>Contents and arguments\<close>

lemma strip_snoc_keeps: "py_strip a \<noteq> [] \<Longrightarrow> py_strip (a @ b) \<noteq> []"
proof -
  have "py_strip s = [] \<longleftrightarrow> (\<forall>c \<in> set s. py_space c)" for s
  proof -
    have "py_strip s = [] \<longleftrightarrow> (\<forall>c \<in> set (dropWhile py_space s). py_space c)"
      by (auto simp: py_strip_def dropWhile_eq_Nil_conv)
    also have "\<dots> \<longleftrightarrow> (\<forall>c \<in> set s. py_space c)"
      using set_takeWhileD [of _ py_space s] takeWhile_dropWhile_id [of py_space s]
      by (metis UnE set_append set_dropWhileD)
    finally show ?thesis .
  qed
  then show "py_strip a \<noteq> [] \<Longrightarrow> py_strip (a @ b) \<noteq> []" by auto
qed

lemma fix_empty_ok: "m \<in> set (fix_empty_content ms) \<Longrightarrow> content_ok m"
  by (auto simp: fix_empty_content_def content_ok_def blank_content_def py_strip_def py_space_def truthy_calls_def)

lemma repair_json_ok:
  assumes "loads_ok ''{}''"
  shows "loads_ok (try_repair_json loads_ok raw)"
  using assms by (simp add: try_repair_json_def)

lemma repair_arguments_ok:
  assumes "\<And>raw. loads_ok raw \<Longrightarrow> py_strip raw \<noteq> []" "loads_ok ''{}''" "m \<in> set (repair_tool_call_arguments loads_ok ms)"
  shows "arguments_ok loads_ok m"
  using assms repair_json_ok [of loads_ok]
  by (auto simp: repair_tool_call_arguments_def arguments_ok_def repair_call_def split: pyval.splits)

lemma repair_content_ok:
  assumes "\<forall>m \<in> set ms. content_ok m" "m \<in> set (repair_tool_call_arguments loads_ok ms)"
  shows "content_ok m"
  using assms by (auto simp: repair_tool_call_arguments_def content_ok_def blank_content_def truthy_calls_def
    split: option.splits list.splits)

definition text_of :: "heal_msg \<Rightarrow> pyval" where
  "text_of m = (case hm_content m of None \<Rightarrow> PStr [] | Some v \<Rightarrow> v)"

lemma merged_Some:
  assumes "merged prev m = Some p"
  shows "\<exists>a b. p = prev\<lparr>hm_content := Some (PStr (a @ CHR 0x0A # b))\<rparr> \<and> hm_calls prev = None
     \<and> (hm_content prev = Some (PStr a) \<or> hm_content prev = None \<and> a = []) \<and> hm_calls m = None"
proof -
  have calls: "hm_calls prev = None" "hm_calls m = None"
    using assms by (simp_all add: merged_def split: if_splits)
  have "case (text_of prev, text_of m) of (PStr a, PStr b) \<Rightarrow> p = prev\<lparr>hm_content := Some (PStr (a @ CHR 0x0A # b))\<rparr> | _ \<Rightarrow> False"
    using assms unfolding merged_def text_of_def [symmetric]
    by (cases "text_of prev"; cases "text_of m") (simp_all split: if_splits)
  then obtain a b where ab: "text_of prev = PStr a" "p = prev\<lparr>hm_content := Some (PStr (a @ CHR 0x0A # b))\<rparr>"
    by (cases "text_of prev"; cases "text_of m") auto
  have "hm_content prev = Some (PStr a) \<or> hm_content prev = None \<and> a = []"
    using ab(1) by (cases "hm_content prev") (simp_all add: text_of_def)
  then show ?thesis using calls ab(2) by blast
qed

lemma alternate_all:
  assumes "P prev" "\<forall>m \<in> set ms. P m" "\<And>a b p. P a \<Longrightarrow> P b \<Longrightarrow> merged a b = Some p \<Longrightarrow> P p"
  shows "\<forall>m \<in> set (alternate prev ms). P m"
  using assms(1,2)
proof (induction ms arbitrary: prev)
  case (Cons m ms)
  show ?case
  proof (cases "merged prev m")
    case None
    then show ?thesis using Cons.IH [of m] Cons.prems by simp
  next
    case (Some p)
    then have "P p" using assms(3) [of prev m p] Cons.prems by simp
    then show ?thesis using Cons.IH [of p] Cons.prems Some by simp
  qed
qed simp

lemma merged_content_ok:
  assumes "content_ok a" "merged a b = Some p"
  shows "content_ok p"
proof -
  obtain x y where "p = a\<lparr>hm_content := Some (PStr (x @ CHR 0x0A # y))\<rparr>" "hm_calls a = None"
    "hm_content a = Some (PStr x) \<or> hm_content a = None \<and> x = []"
    using merged_Some [OF assms(2)] by blast
  then show ?thesis
    using assms(1) strip_snoc_keeps [of x "CHR 0x0A # y"] by (auto simp: content_ok_def blank_content_def truthy_calls_def)
qed

lemma merged_arguments_ok: "merged a b = Some p \<Longrightarrow> arguments_ok loads_ok p"
  using merged_Some [of a b p] by (auto simp: arguments_ok_def)

lemma alternation_all:
  assumes "\<forall>m \<in> set ms. P m" "\<And>a b p. P a \<Longrightarrow> P b \<Longrightarrow> merged a b = Some p \<Longrightarrow> P p"
  shows "\<forall>m \<in> set (fix_role_alternation ms). P m"
proof (cases ms)
  case (Cons m rest)
  have "P m" "\<forall>x \<in> set rest. P x" using assms(1) Cons by simp_all
  then have "\<forall>x \<in> set (alternate m rest). P x" by (rule alternate_all) (rule assms(2))
  then show ?thesis using Cons by (simp add: fix_role_alternation_def)
qed (simp add: fix_role_alternation_def)

section \<open>Tool results\<close>

lemma orphan_loop_subset: "set (orphan_loop before ms) \<subseteq> set ms"
  by (induction before ms rule: orphan_loop.induct) auto

lemma orphan_loop_parented: "valid_parent a = valid_parent b \<Longrightarrow> parented a (orphan_loop b ms)"
proof (induction ms arbitrary: a b)
  case (Cons m ms)
  show ?case
  proof (cases "is_tool m \<and> \<not> valid_parent b")
    case True
    then have "valid_parent a = valid_parent (m # b)" using Cons.prems by (auto simp: is_tool_def is_assistant_def)
    from Cons.IH [OF this] show ?thesis using True by simp
  next
    case False
    with Cons.IH [OF valid_parent_cong [OF Cons.prems]] Cons.prems show ?thesis by auto
  qed
qed simp

lemma tools_keep_parent:
  assumes "\<forall>m \<in> set ts. is_tool m"
  shows "valid_parent (rev ts @ before) = valid_parent before"
proof -
  have "\<not> is_assistant m" if "is_tool m" for m using that by (simp add: is_tool_def is_assistant_def)
  moreover have "valid_parent (ts' @ before) = valid_parent before" if "\<forall>m \<in> set ts'. is_tool m" for ts'
    using that calculation by (induction ts') auto
  ultimately show ?thesis using assms by simp
qed

lemma parented_tools: "\<forall>m \<in> set ts. is_tool m \<Longrightarrow> valid_parent before \<Longrightarrow> parented before ts"
proof (induction ts arbitrary: before)
  case (Cons m ts)
  then show ?case by (auto simp: is_tool_def is_assistant_def)
qed simp

lemma synthesize_facts:
  "synthesize responded cs = (ms, r) \<Longrightarrow> (\<forall>m \<in> set ms. is_tool m \<and> hm_calls m = None \<and> \<not> blank_content m)
     \<and> set r = set responded \<union> set (map hm_call_id ms) \<and> [] \<notin> set (map hm_call_id ms)
     \<and> (\<forall>c \<in> set cs. effective_id c \<noteq> [] \<longrightarrow> effective_id c \<in> set r)"
proof (induction cs arbitrary: responded ms r)
  case (Cons c cs)
  let ?i = "effective_id c"
  have syn: "is_tool (synthetic_tool_result ?i)" "hm_calls (synthetic_tool_result ?i) = None"
    "\<not> blank_content (synthetic_tool_result ?i)" "hm_call_id (synthetic_tool_result ?i) = ?i"
    by (simp_all add: synthetic_tool_result_def is_tool_def blank_content_def skipped_content_def py_strip_def py_space_def Let_def)
  show ?case
  proof (cases "?i \<noteq> [] \<and> ?i \<notin> set responded")
    case True
    obtain ms' where ms': "synthesize (?i # responded) cs = (ms', r)" "ms = synthetic_tool_result ?i # ms'"
      using Cons.prems True by (auto simp: Let_def split: prod.splits)
    show ?thesis using Cons.IH [OF ms'(1)] ms'(2) True syn by auto
  next
    case False
    then have "synthesize responded cs = (ms, r)" using Cons.prems by (auto simp: Let_def)
    from Cons.IH [OF this] False show ?thesis by auto
  qed
qed simp

lemma tool_ids_append [simp]: "set (tool_ids (xs @ ys)) = set (tool_ids xs) \<union> set (tool_ids ys)"
  by (auto simp: tool_ids_def)

lemma asked_append [simp]: "asked_ids (xs @ ys) = asked_ids xs \<union> asked_ids ys"
  by (auto simp: asked_ids_def)

lemma tools_ask_nothing: "\<forall>m \<in> set ts. is_tool m \<Longrightarrow> asked_ids ts = {}"
  by (auto simp: asked_ids_def is_tool_def is_assistant_def)

lemma takeWhile_tools: "\<forall>m \<in> set (takeWhile is_tool ms). is_tool m"
  by (auto dest: set_takeWhileD)

lemma missing_loop_all:
  assumes "\<forall>m \<in> set ms. P m" "\<And>m. is_tool m \<Longrightarrow> hm_calls m = None \<Longrightarrow> \<not> blank_content m \<Longrightarrow> P m"
  shows "\<forall>m \<in> set (missing_loop responded ms). P m"
  using assms(1)
proof (induction responded ms rule: missing_loop.induct)
  case (2 responded m ms)
  show ?case
  proof (cases "is_assistant m \<and> truthy_calls m")
    case True
    obtain added r where s: "synthesize responded (the (hm_calls m)) = (added, r)" by fastforce
    have "\<forall>m \<in> set (dropWhile is_tool ms). P m" using "2.prems" by (auto dest: set_dropWhileD)
    from "2.IH"(1) [OF True s [symmetric] this] synthesize_facts [OF s] "2.prems" assms(2) True s show ?thesis
      by (auto dest: set_takeWhileD)
  next
    case False
    then show ?thesis using "2.IH"(2) "2.prems" by auto
  qed
qed simp

lemma missing_loop_parented:
  "parented before ms \<Longrightarrow> valid_parent before = valid_parent b \<Longrightarrow> parented b (missing_loop responded ms)"
proof (induction responded ms arbitrary: before b rule: missing_loop.induct)
  case (2 responded m ms)
  have m: "is_tool m \<longrightarrow> valid_parent b" "parented (m # before) ms" using "2.prems" by simp_all
  note same = valid_parent_cong [OF "2.prems"(2), of m]
  show ?case
  proof (cases "is_assistant m \<and> truthy_calls m")
    case True
    obtain added r where s: "synthesize responded (the (hm_calls m)) = (added, r)" by fastforce
    let ?ts = "takeWhile is_tool ms" and ?rest = "dropWhile is_tool ms"
    have tools: "\<forall>x \<in> set (?ts @ added). is_tool x" using takeWhile_tools synthesize_facts [OF s] by auto
    have vp: "valid_parent (m # b)" using True by (auto simp: truthy_calls_def split: option.splits)
    have vt: "valid_parent (rev ?ts @ m # before)" "valid_parent (rev (?ts @ added) @ m # b)"
      using vp same tools_keep_parent [OF takeWhile_tools] tools_keep_parent [OF tools] by simp_all
    have "parented (rev ?ts @ m # before) ?rest"
      using m(2) parented_append [of "m # before" ?ts ?rest] by simp
    from "2.IH"(1) [OF True s [symmetric] this, of "rev (?ts @ added) @ m # b"] vt
    have "parented (rev (?ts @ added) @ m # b) (missing_loop r ?rest)" by simp
    moreover have "parented (m # b) (?ts @ added)" by (rule parented_tools [OF tools vp])
    ultimately have "parented (m # b) ((?ts @ added) @ missing_loop r ?rest)" by (simp only: parented_append)
    then show ?thesis using True s m(1) by simp
  next
    case False
    then have eq: "missing_loop responded (m # ms) = m # missing_loop responded ms" by auto
    show ?thesis unfolding eq using "2.IH"(2) [OF False m(2) same] m(1) by simp
  qed
qed simp

lemma missing_loop_answers:
  "asked_ids (missing_loop responded ms) \<subseteq> set responded \<union> set (tool_ids (missing_loop responded ms))
   \<and> set (tool_ids ms) \<subseteq> set (tool_ids (missing_loop responded ms))"
proof (induction responded ms rule: missing_loop.induct)
  case (2 responded m ms)
  show ?case
  proof (cases "is_assistant m \<and> truthy_calls m")
    case True
    obtain added r where s: "synthesize responded (the (hm_calls m)) = (added, r)" by fastforce
    let ?ts = "takeWhile is_tool ms" and ?rest = "dropWhile is_tool ms"
    note f = synthesize_facts [OF s]
    have out: "missing_loop responded (m # ms) = [m] @ ?ts @ added @ missing_loop r ?rest" using True s by simp
    have "\<forall>x \<in> set added. is_tool x \<and> hm_call_id x \<noteq> []" using f by (simp add: image_iff) metis
    then have ids: "set (tool_ids added) = set (map hm_call_id added)" by (auto simp: tool_ids_def)
    have asked: "asked_ids [m] \<subseteq> set r" using f True by (auto simp: asked_ids_def)
    have none: "asked_ids ?ts = {}" "asked_ids added = {}"
      using tools_ask_nothing [OF takeWhile_tools] tools_ask_nothing [of added] f by blast+
    have r: "set r = set responded \<union> set (tool_ids added)" using f ids by simp
    have ms: "set (tool_ids (m # ms)) = set (tool_ids [m]) \<union> set (tool_ids ?ts) \<union> set (tool_ids ?rest)"
      using tool_ids_append [of "[m]" ms] tool_ids_append [of ?ts ?rest] by auto
    show ?thesis
      unfolding out ms asked_append tool_ids_append none using "2.IH"(1) [OF True s [symmetric]] asked r by blast
  next
    case False
    have none: "asked_ids [m] = {}"
      using False by (auto simp: asked_ids_def truthy_calls_def split: list.splits)
    have eq: "missing_loop responded (m # ms) = [m] @ missing_loop responded ms" using False by auto
    have ms: "set (tool_ids (m # ms)) = set (tool_ids [m]) \<union> set (tool_ids ms)"
      using tool_ids_append [of "[m]" ms] by simp
    show ?thesis unfolding eq ms asked_append tool_ids_append none using "2.IH"(2) [OF False] by blast
  qed
qed (simp add: asked_ids_def tool_ids_def)

lemma fix_missing_answers: "asked_ids (fix_missing_tool_results ms) \<subseteq> set (tool_ids (fix_missing_tool_results ms))"
  unfolding fix_missing_tool_results_def using missing_loop_answers [of "tool_ids ms" ms] by blast

section \<open>The open tail\<close>

lemma close_cases:
  "close_interrupted ms = ms \<and> (ms = [] \<or> \<not> is_tool (last ms) \<or> tail_open (rev ms))
   \<or> close_interrupted ms = ms @ [closing_message]"
  by (simp add: close_interrupted_def)

lemma closing_facts:
  "\<not> is_tool closing_message" "content_ok closing_message" "arguments_ok loads_ok closing_message"
  "asked_ids [closing_message] = {}"
  by (simp_all add: closing_message_def is_tool_def content_ok_def blank_content_def arguments_ok_def asked_ids_def
      py_strip_def py_space_def)

lemma close_all: "\<forall>m \<in> set ms. P m \<Longrightarrow> P closing_message \<Longrightarrow> \<forall>m \<in> set (close_interrupted ms). P m"
  using close_cases [of ms] by auto

section \<open>Healthy sequences\<close>

text \<open>All requirements, with and without alternation of roles.\<close>

definition protocol_ok :: "(string \<Rightarrow> bool) \<Rightarrow> heal_msg list \<Rightarrow> bool" where
  "protocol_ok loads_ok ms \<longleftrightarrow> (\<forall>m \<in> set ms. content_ok m \<and> arguments_ok loads_ok m) \<and> parented [] ms
     \<and> asked_ids ms \<subseteq> set (tool_ids ms) \<and> (ms = [] \<or> \<not> is_tool (last ms) \<or> tail_open (rev ms))"

definition healthy :: "(string \<Rightarrow> bool) \<Rightarrow> heal_msg list \<Rightarrow> bool" where
  "healthy loads_ok ms \<longleftrightarrow> protocol_ok loads_ok ms \<and> successively (\<lambda>a b. merged a b = None) ms"

lemma repair_keeps:
  assumes "\<forall>m \<in> set ms. arguments_ok loads_ok m"
  shows "repair_tool_call_arguments loads_ok ms = ms"
proof -
  have "map_option (map (repair_call loads_ok)) (hm_calls m) = hm_calls m" if "m \<in> set ms" for m
  proof (cases "hm_calls m")
    case (Some cs)
    have "repair_call loads_ok c = c" if "c \<in> set cs" for c
      using that assms \<open>m \<in> set ms\<close> Some
      by (cases c; cases "hc_arguments c") (auto simp: repair_call_def arguments_ok_def try_repair_json_def)
    then have "map (repair_call loads_ok) cs = cs" by (rule map_idI)
    then show ?thesis using Some by simp
  qed simp
  then show ?thesis unfolding repair_tool_call_arguments_def by (intro map_idI) simp
qed

lemma fix_empty_keeps: "\<forall>m \<in> set ms. content_ok m \<Longrightarrow> fix_empty_content ms = ms"
  unfolding fix_empty_content_def content_ok_def by (intro map_idI) auto

lemma alternate_keeps: "successively (\<lambda>a b. merged a b = None) (prev # ms) \<Longrightarrow> alternate prev ms = prev # ms"
  by (induction ms arbitrary: prev) auto

lemma orphan_keeps: "parented before ms \<Longrightarrow> orphan_loop before ms = ms"
  by (induction ms arbitrary: before) auto

lemma synthesize_none: "\<forall>c \<in> set cs. effective_id c \<noteq> [] \<longrightarrow> effective_id c \<in> set r \<Longrightarrow> synthesize r cs = ([], r)"
  by (induction cs) (auto simp: Let_def)

lemma missing_keeps: "asked_ids ms \<subseteq> set r \<Longrightarrow> missing_loop r ms = ms"
proof (induction r ms rule: missing_loop.induct)
  case (2 r m ms)
  have split: "asked_ids (m # ms) = asked_ids [m] \<union> asked_ids ms" using asked_append [of "[m]" ms] by simp
  show ?case
  proof (cases "is_assistant m \<and> truthy_calls m")
    case True
    obtain cs where cs: "hm_calls m = Some cs" using True by (auto simp: truthy_calls_def split: option.splits)
    have "effective_id c \<in> set r" if "c \<in> set cs" "effective_id c \<noteq> []" for c
    proof -
      have "effective_id c \<in> asked_ids [m]" using that True cs by (auto simp: asked_ids_def)
      then show ?thesis using "2.prems" split by blast
    qed
    then have s: "synthesize r (the (hm_calls m)) = ([], r)" using synthesize_none [of cs r] cs by simp
    have "asked_ids (dropWhile is_tool ms) \<subseteq> set r"
      using "2.prems" split asked_append [of "takeWhile is_tool ms" "dropWhile is_tool ms"] by auto
    from "2.IH"(1) [OF True s [symmetric] this] s True show ?thesis by simp
  next
    case False
    then have "missing_loop r (m # ms) = m # missing_loop r ms" by auto
    then show ?thesis using "2.IH"(2) [OF False] "2.prems" split by simp
  qed
qed simp

lemma healed_requirements:
  assumes "\<And>raw. loads_ok raw \<Longrightarrow> py_strip raw \<noteq> []" "loads_ok ''{}''"
  shows "\<forall>m \<in> set (heal loads_ok ms). content_ok m \<and> arguments_ok loads_ok m"
proof -
  let ?P = "\<lambda>m. content_ok m \<and> arguments_ok loads_ok m"
  let ?a = "repair_tool_call_arguments loads_ok (fix_empty_content ms)"
  have "\<forall>m \<in> set ?a. ?P m"
    using repair_content_ok fix_empty_ok repair_arguments_ok [where loads_ok = loads_ok, OF assms] by blast
  then have "\<forall>m \<in> set (fix_role_alternation ?a). ?P m"
    by (rule alternation_all [where P = ?P]) (use merged_content_ok merged_arguments_ok in blast)
  then have "\<forall>m \<in> set (fix_orphan_tool_results (fix_role_alternation ?a)). ?P m"
    unfolding fix_orphan_tool_results_def using orphan_loop_subset by blast
  then have "\<forall>m \<in> set (fix_missing_tool_results (fix_orphan_tool_results (fix_role_alternation ?a))). ?P m"
    unfolding fix_missing_tool_results_def
    by (rule missing_loop_all [where P = ?P]) (auto simp: content_ok_def arguments_ok_def)
  then have "\<forall>m \<in> set (close_interrupted (fix_missing_tool_results
      (fix_orphan_tool_results (fix_role_alternation ?a)))). ?P m"
    by (rule close_all) (use closing_facts in blast)
  then show ?thesis by (simp add: heal_def)
qed

lemma healed_pairs:
  assumes "ms \<noteq> []"
  shows "parented [] (heal loads_ok ms) \<and> asked_ids (heal loads_ok ms) \<subseteq> set (tool_ids (heal loads_ok ms))
     \<and> (heal loads_ok ms = [] \<or> \<not> is_tool (last (heal loads_ok ms)) \<or> tail_open (rev (heal loads_ok ms)))"
proof -
  let ?o = "fix_orphan_tool_results (fix_role_alternation (repair_tool_call_arguments loads_ok (fix_empty_content ms)))"
  let ?m = "fix_missing_tool_results ?o"
  have out: "heal loads_ok ms = close_interrupted ?m" using assms by (simp add: heal_def)
  have "parented [] ?o" unfolding fix_orphan_tool_results_def by (rule orphan_loop_parented) simp
  then have p: "parented [] ?m" unfolding fix_missing_tool_results_def by (rule missing_loop_parented) simp
  from close_cases [of ?m] show ?thesis
  proof (elim disjE)
    assume "close_interrupted ?m = ?m \<and> (?m = [] \<or> \<not> is_tool (last ?m) \<or> tail_open (rev ?m))"
    then show ?thesis using out p fix_missing_answers by simp
  next
    assume c: "close_interrupted ?m = ?m @ [closing_message]"
    have "parented [] (?m @ [closing_message])" using p closing_facts(1) by (simp add: parented_append)
    then show ?thesis
      unfolding out c using fix_missing_answers [of ?o] closing_facts(1,4) by auto
  qed
qed

section \<open>One result for each call\<close>

text \<open>The calling assistant messages in order: the ids each asks for, and the ids of the run of tool
  results right after it.\<close>

fun groups :: "heal_msg list \<Rightarrow> (string list \<times> string list) list" where
  "groups [] = []"
| "groups (m # ms) =
     (if is_assistant m \<and> truthy_calls m
      then [(map effective_id (the (hm_calls m)), map hm_call_id (takeWhile is_tool ms))] else []) @ groups ms"

text \<open>The protocol as the provider states it: each call with an id has exactly one result in that run.\<close>

definition answered_once :: "heal_msg list \<Rightarrow> bool" where
  "answered_once ms \<longleftrightarrow> (\<forall>(ids, run) \<in> set (groups ms). \<forall>i \<in> set ids. i \<noteq> [] \<longrightarrow> count_list run i = 1)"

text \<open>No id is asked for twice, and a result for an id that was asked for stands where it belongs, once.\<close>

definition well_identified :: "heal_msg list \<Rightarrow> bool" where
  "well_identified ms \<longleftrightarrow>
     distinct (filter (\<lambda>i. i \<noteq> []) (concat (map fst (groups ms))))
     \<and> (\<forall>(ids, run) \<in> set (groups ms). \<forall>i \<in> set ids. i \<noteq> [] \<longrightarrow>
          count_list run i \<le> 1 \<and> (i \<in> set (tool_ids ms) \<longrightarrow> i \<in> set run))"

lemma calling_not_tool: "is_assistant m \<Longrightarrow> \<not> is_tool m"
  by (simp add: is_assistant_def is_tool_def)

lemma run_in_tool_ids: "(ids, run) \<in> set (groups ms) \<Longrightarrow> i \<in> set run \<Longrightarrow> i \<noteq> [] \<Longrightarrow> i \<in> set (tool_ids ms)"
proof (induction ms)
  case (Cons m ms)
  have "i \<in> set (tool_ids ms)" if "i \<in> set (map hm_call_id (takeWhile is_tool ms))"
    using that Cons.prems(3) by (auto simp: tool_ids_def dest: set_takeWhileD)
  then have "i \<in> set (tool_ids ms)" using Cons by (auto split: if_splits)
  then show ?case by (simp add: tool_ids_def)
qed simp

lemma groups_map:
  assumes "\<And>m. is_assistant (f m) = is_assistant m" "\<And>m. is_tool (f m) = is_tool m" "\<And>m. truthy_calls (f m) = truthy_calls m"
    "\<And>m. hm_call_id (f m) = hm_call_id m"
    "\<And>m. truthy_calls m \<Longrightarrow> map effective_id (the (hm_calls (f m))) = map effective_id (the (hm_calls m))"
  shows "groups (map f ms) = groups ms" "tool_ids (map f ms) = tool_ids ms"
proof -
  have run: "map hm_call_id (takeWhile is_tool (map f ms)) = map hm_call_id (takeWhile is_tool ms)" for ms
    by (induction ms) (simp_all add: assms)
  show "groups (map f ms) = groups ms" by (induction ms) (simp_all add: assms run)
  show "tool_ids (map f ms) = tool_ids ms" by (induction ms) (simp_all add: assms tool_ids_def)
qed

lemma groups_empty: "groups (fix_empty_content ms) = groups ms" "tool_ids (fix_empty_content ms) = tool_ids ms"
  unfolding fix_empty_content_def
  by (rule groups_map; simp add: is_assistant_def is_tool_def truthy_calls_def)+

lemma repair_call_id: "effective_id (repair_call loads_ok c) = effective_id c"
  by (simp add: repair_call_def effective_id_def split: pyval.split)

lemma groups_repair:
  "groups (repair_tool_call_arguments loads_ok ms) = groups ms" "tool_ids (repair_tool_call_arguments loads_ok ms) = tool_ids ms"
  unfolding repair_tool_call_arguments_def
  by (rule groups_map; auto simp: is_assistant_def is_tool_def truthy_calls_def repair_call_id split: option.splits list.splits)+

lemma merged_plain:
  assumes "merged a b = Some p"
  shows "\<not> is_tool a" "\<not> is_tool b" "\<not> is_tool p" "\<not> truthy_calls a" "\<not> truthy_calls b" "\<not> truthy_calls p"
proof -
  have r: "hm_role b = hm_role a" "\<not> is_tool b" "hm_calls a = None" "hm_calls b = None"
    using assms by (auto simp: merged_def split: if_splits)
  obtain x y where "p = a\<lparr>hm_content := Some (PStr (x @ CHR 0x0A # y))\<rparr>" using merged_Some[OF assms] by blast
  then show "\<not> is_tool a" "\<not> is_tool b" "\<not> is_tool p" "\<not> truthy_calls a" "\<not> truthy_calls b" "\<not> truthy_calls p"
    using r by (simp_all add: is_tool_def truthy_calls_def)
qed

lemma alternate_run: "map hm_call_id (takeWhile is_tool (alternate prev ms)) = map hm_call_id (takeWhile is_tool (prev # ms))"
proof (induction ms arbitrary: prev)
  case (Cons m ms)
  show ?case
  proof (cases "merged prev m")
    case None
    then show ?thesis using Cons[of m] by simp
  next
    case (Some p)
    then show ?thesis using Cons[of p] merged_plain[OF Some] by simp
  qed
qed simp

lemma alternate_groups: "groups (alternate prev ms) = groups (prev # ms)"
proof (induction ms arbitrary: prev)
  case (Cons m ms)
  show ?case
  proof (cases "merged prev m")
    case None
    then show ?thesis using Cons[of m] alternate_run[of m ms] by simp
  next
    case (Some p)
    then show ?thesis using Cons[of p] merged_plain[OF Some] by simp
  qed
qed simp

lemma alternate_ids: "tool_ids (alternate prev ms) = tool_ids (prev # ms)"
proof (induction ms arbitrary: prev)
  case (Cons m ms)
  show ?case
  proof (cases "merged prev m")
    case None
    then show ?thesis using Cons[of m] by (simp add: tool_ids_def)
  next
    case (Some p)
    then show ?thesis using Cons[of p] merged_plain[OF Some] by (simp add: tool_ids_def)
  qed
qed (simp add: tool_ids_def)

lemma groups_alternation:
  "groups (fix_role_alternation ms) = groups ms" "tool_ids (fix_role_alternation ms) = tool_ids ms"
  by (cases ms; simp add: fix_role_alternation_def alternate_groups alternate_ids)+

lemma orphan_run: "valid_parent before \<Longrightarrow> takeWhile is_tool (orphan_loop before ms) = takeWhile is_tool ms"
proof (induction ms arbitrary: before)
  case (Cons m ms)
  show ?case
  proof (cases "is_tool m")
    case True
    then have "valid_parent (m # before)" using Cons.prems calling_not_tool by auto
    then show ?thesis using True Cons by simp
  qed simp
qed simp

lemma orphan_groups: "groups (orphan_loop before ms) = groups ms"
proof (induction ms arbitrary: before)
  case (Cons m ms)
  show ?case
  proof (cases "is_assistant m \<and> truthy_calls m")
    case True
    then have "valid_parent (m # before)" by (auto simp: truthy_calls_def split: option.splits)
    from orphan_run[OF this, of ms] show ?thesis using True Cons[of "m # before"] calling_not_tool[of m] by simp
  next
    case False
    then show ?thesis using Cons[of "m # before"] by auto
  qed
qed simp

lemma orphan_ids: "set (tool_ids (orphan_loop before ms)) \<subseteq> set (tool_ids ms)"
  using orphan_loop_subset[of before ms] by (auto simp: tool_ids_def)

text \<open>What the synthesis adds to the groups.\<close>

fun fresh_ids :: "string list \<Rightarrow> string list \<Rightarrow> string list \<times> string list" where
  "fresh_ids r [] = ([], r)"
| "fresh_ids r (i # js) =
     (if i \<noteq> [] \<and> i \<notin> set r then (case fresh_ids (i # r) js of (new, r') \<Rightarrow> (i # new, r')) else fresh_ids r js)"

fun answered :: "string list \<Rightarrow> (string list \<times> string list) list \<Rightarrow> (string list \<times> string list) list" where
  "answered r [] = []"
| "answered r ((ids, run) # gs) = (case fresh_ids r ids of (new, r') \<Rightarrow> (ids, run @ new) # answered r' gs)"

lemma synthesize_fresh: "synthesize r cs = (ms, r') \<Longrightarrow> fresh_ids r (map effective_id cs) = (map hm_call_id ms, r')"
proof (induction cs arbitrary: r ms r')
  case (Cons c cs)
  then show ?case by (auto simp: Let_def synthetic_tool_result_def split: if_splits prod.splits)
qed simp

lemma groups_tools: "\<forall>m \<in> set ts. is_tool m \<Longrightarrow> groups (ts @ ms) = groups ms"
  by (induction ts) (auto dest: calling_not_tool)

lemma groups_dropWhile: "groups (dropWhile is_tool ms) = groups ms"
  by (induction ms) (auto dest: calling_not_tool)

lemma missing_head: "takeWhile is_tool (missing_loop r (dropWhile is_tool ms)) = []"
proof (cases "dropWhile is_tool ms")
  case (Cons m rest)
  then have "\<not> is_tool m" using hd_dropWhile[of is_tool ms] by simp
  then show ?thesis using Cons by (auto split: prod.split)
next
  case Nil
  show ?thesis unfolding Nil by simp
qed

lemma groups_skip: "\<not> (is_assistant m \<and> truthy_calls m) \<Longrightarrow> groups (m # ms) = groups ms"
  by auto

lemma missing_run: "\<not> (is_assistant m \<and> truthy_calls m) \<Longrightarrow> missing_loop r (m # ms) = m # missing_loop r ms"
  by auto

lemma groups_missing: "groups (missing_loop r ms) = answered r (groups ms)"
proof (induction r ms rule: missing_loop.induct)
  case (2 r m ms)
  show ?case
  proof (cases "is_assistant m \<and> truthy_calls m")
    case True
    obtain added r' where s: "synthesize r (the (hm_calls m)) = (added, r')" by fastforce
    let ?run = "takeWhile is_tool ms" and ?rest = "missing_loop r' (dropWhile is_tool ms)"
    have tools: "\<forall>m \<in> set (?run @ added). is_tool m" using synthesize_facts[OF s] takeWhile_tools by auto
    have "takeWhile is_tool (?run @ added @ ?rest) = ?run @ added"
      using tools missing_head[of r' ms] by (simp add: takeWhile_append2)
    moreover have "groups (?run @ added @ ?rest) = answered r' (groups ms)"
      using groups_tools[OF tools, of ?rest] "2.IH"(1)[OF True s[symmetric]] by (simp add: groups_dropWhile)
    ultimately show ?thesis using True s synthesize_fresh[OF s] by simp
  next
    case False
    then show ?thesis using "2.IH"(2)[OF False] unfolding missing_run[OF False] groups_skip[OF False] by simp
  qed
qed simp

lemma fresh_distinct:
  assumes "distinct (filter (\<lambda>i. i \<noteq> []) ids)"
  shows "fst (fresh_ids r ids) = filter (\<lambda>i. i \<noteq> [] \<and> i \<notin> set r) ids \<and> set (snd (fresh_ids r ids)) = set r \<union> (set ids - {[]})"
  using assms
proof (induction ids arbitrary: r)
  case (Cons i ids)
  have d: "distinct (filter (\<lambda>i. i \<noteq> []) ids)" using Cons.prems by (simp split: if_splits)
  show ?case
  proof (cases "i \<noteq> [] \<and> i \<notin> set r")
    case True
    have same: "filter (\<lambda>j. j \<noteq> [] \<and> j \<notin> set (i # r)) ids = filter (\<lambda>j. j \<noteq> [] \<and> j \<notin> set r) ids"
      using Cons.prems True by (intro filter_cong) auto
    obtain new r' where f: "fresh_ids (i # r) ids = (new, r')" by (cases "fresh_ids (i # r) ids")
    have "new = filter (\<lambda>j. j \<noteq> [] \<and> j \<notin> set r) ids" "set r' = set (i # r) \<union> (set ids - {[]})"
      using Cons.IH[OF d, of "i # r"] f unfolding same by simp_all
    then show ?thesis using True f by auto
  next
    case False
    then have f: "fresh_ids r (i # ids) = fresh_ids r ids" by auto
    show ?thesis unfolding f using Cons.IH[OF d, of r] False by auto
  qed
qed simp

lemma count_filter_distinct:
  "distinct (filter (\<lambda>i. i \<noteq> []) ids) \<Longrightarrow> i \<in> set ids \<Longrightarrow> i \<noteq> [] \<Longrightarrow>
     count_list (filter (\<lambda>i. i \<noteq> [] \<and> P i) ids) i = (if P i then 1 else 0)"
proof (induction ids)
  case (Cons j ids)
  have none: "count_list (filter (\<lambda>i. i \<noteq> [] \<and> P i) ids) i = 0" if "i \<notin> set ids" for i
    using that by (simp add: count_list_0_iff)
  show ?case using Cons none by (auto split: if_splits)
qed simp

lemma answered_exactly:
  assumes "distinct (filter (\<lambda>i. i \<noteq> []) (concat (map fst gs)))"
    and "\<forall>(ids, run) \<in> set gs. \<forall>i \<in> set ids. i \<noteq> [] \<longrightarrow> count_list run i \<le> 1 \<and> (i \<in> set r \<longleftrightarrow> i \<in> set run)"
  shows "\<forall>(ids, run) \<in> set (answered r gs). \<forall>i \<in> set ids. i \<noteq> [] \<longrightarrow> count_list run i = 1"
  using assms
proof (induction gs arbitrary: r)
  case (Cons g gs)
  obtain ids run where g: "g = (ids, run)" by (cases g)
  obtain new r' where f: "fresh_ids r ids = (new, r')" by (cases "fresh_ids r ids")
  have d: "distinct (filter (\<lambda>i. i \<noteq> []) ids)" "distinct (filter (\<lambda>i. i \<noteq> []) (concat (map fst gs)))"
    "\<And>i. i \<noteq> [] \<Longrightarrow> i \<in> set ids \<Longrightarrow> i \<notin> set (concat (map fst gs))"
    using Cons.prems(1) g by auto
  have new: "new = filter (\<lambda>i. i \<noteq> [] \<and> i \<notin> set r) ids" and r': "set r' = set r \<union> (set ids - {[]})"
    using fresh_distinct[OF d(1), of r] f by simp_all
  have here: "count_list (run @ new) i = 1" if i: "i \<in> set ids" "i \<noteq> []" for i
  proof -
    have c: "count_list run i \<le> 1" "i \<in> set r \<longleftrightarrow> i \<in> set run" using Cons.prems(2) g i by auto
    have "count_list run i = 0 \<longleftrightarrow> i \<notin> set run" by (rule count_list_0_iff)
    then show ?thesis using c count_filter_distinct[OF d(1) i, of "\<lambda>i. i \<notin> set r"] new by (cases "i \<in> set run") auto
  qed
  have "\<forall>(ids, run) \<in> set gs. \<forall>i \<in> set ids. i \<noteq> [] \<longrightarrow> count_list run i \<le> 1 \<and> (i \<in> set r' \<longleftrightarrow> i \<in> set run)"
  proof clarify
    fix ids' run' i assume i: "(ids', run') \<in> set gs" "i \<in> set ids'" "i \<noteq> []"
    have "i \<in> set (concat (map fst gs))" using i by force
    then have "i \<notin> set ids" using d(3) i(3) by blast
    then show "count_list run' i \<le> 1 \<and> (i \<in> set r' \<longleftrightarrow> i \<in> set run')" using Cons.prems(2) i r' by auto
  qed
  from Cons.IH[OF d(2) this] here show ?case using g f by simp
qed simp

lemma groups_close: "groups (close_interrupted ms) = groups ms"
proof -
  have "groups (ms @ [closing_message]) = groups ms"
  proof (induction ms)
    case Nil
    show ?case by (simp add: closing_message_def truthy_calls_def)
  next
    case (Cons m ms)
    have "takeWhile is_tool (ms @ [closing_message]) = takeWhile is_tool ms"
      using closing_facts(1) by (induction ms) auto
    then show ?case using Cons by simp
  qed
  then show ?thesis using close_cases[of ms] by auto
qed

lemma heal_answers_once:
  assumes "well_identified ms"
  shows "answered_once (heal loads_ok ms)"
proof (cases "ms = []")
  case False
  let ?a = "fix_role_alternation (repair_tool_call_arguments loads_ok (fix_empty_content ms))"
  let ?o = "fix_orphan_tool_results ?a"
  have ga: "groups ?a = groups ms" "tool_ids ?a = tool_ids ms"
    by (simp_all add: groups_alternation groups_repair groups_empty)
  have go: "groups ?o = groups ms" using ga by (simp add: fix_orphan_tool_results_def orphan_groups)
  have ids: "set (tool_ids ?o) \<subseteq> set (tool_ids ms)"
    using orphan_ids[of "[]" ?a] ga by (simp add: fix_orphan_tool_results_def)
  have "groups (heal loads_ok ms) = answered (tool_ids ?o) (groups ms)"
    using False go by (simp add: heal_def groups_close fix_missing_tool_results_def groups_missing)
  moreover have "\<forall>(ids, run) \<in> set (groups ms). \<forall>i \<in> set ids. i \<noteq> [] \<longrightarrow>
      count_list run i \<le> 1 \<and> (i \<in> set (tool_ids ?o) \<longleftrightarrow> i \<in> set run)"
  proof clarify
    fix js run i assume i: "(js, run) \<in> set (groups ms)" "i \<in> set js" "i \<noteq> []"
    have "count_list run i \<le> 1" "i \<in> set (tool_ids ms) \<longrightarrow> i \<in> set run"
      using assms i by (auto simp: well_identified_def)
    moreover have "i \<in> set run \<longrightarrow> i \<in> set (tool_ids ?o)"
      using run_in_tool_ids[of js run ?o i] i go by auto
    ultimately show "count_list run i \<le> 1 \<and> (i \<in> set (tool_ids ?o) \<longleftrightarrow> i \<in> set run)" using ids by blast
  qed
  ultimately show ?thesis
    using answered_exactly[of "groups ms" "tool_ids ?o"] assms by (simp add: answered_once_def well_identified_def)
qed (simp add: heal_def answered_once_def)

section \<open>Properties\<close>

text \<open>
  C31. Healing repairs the tool protocol. If the JSON parser accepts \<open>{}\<close> and no blank text, then for any
  input: no message is without content unless it calls tools; all textual tool arguments parse; every tool
  result follows, over tool results only, an assistant message with \<open>tool_calls\<close>; every call with an id
  has a tool result with that id somewhere; and the sequence does not end in tool results that no calling
  assistant message opened. The full contract of the provider, exactly one result for each id in the run
  of tool results right after the calling message, holds when the input asks for no id twice and has no
  result for an asked id out of place or repeated in its run. It does not hold for every input: the code
  counts a call as answered by any result with its id, so it neither removes a second result nor answers
  a second call with a reused id.
\<close>

theorem heal_establishes_protocol:
  assumes "\<And>raw. loads_ok raw \<Longrightarrow> py_strip raw \<noteq> []" "loads_ok ''{}''"
  shows "protocol_ok loads_ok (heal loads_ok ms) \<and> (well_identified ms \<longrightarrow> answered_once (heal loads_ok ms))"
proof (cases "ms = []")
  case True
  then show ?thesis by (simp add: heal_def protocol_ok_def asked_ids_def answered_once_def)
next
  case False
  then show ?thesis
    unfolding protocol_ok_def
    using healed_requirements [where loads_ok = loads_ok, OF assms] healed_pairs [OF False] heal_answers_once by blast
qed

definition braces_ok :: "string \<Rightarrow> bool" where
  "braces_ok raw \<longleftrightarrow> py_strip raw \<noteq> [] \<and> count_char (CHR ''{'') raw = count_char (CHR ''}'') raw"

definition heal_sample :: "heal_msg list" where
  "heal_sample =
     (let msg = (\<lambda>r t cs i. \<lparr>hm_role = r, hm_content = Some (PStr t), hm_calls = cs, hm_call_id = i, hm_other = []\<rparr>);
          call = (\<lambda>i a. \<lparr>hc_id = i, hc_call_id = [], hc_arguments = PStr a, hc_other = []\<rparr>)
      in [msg ''tool'' ''old'' None ''c0'', msg ''user'' ''hi'' None [],
          msg ''assistant'' [] (Some [call ''c1'' ''{'', call ''c2'' ''{}'']) [], msg ''tool'' ''r'' None ''c2'',
          msg ''user'' [] None []])"

theorem heal_establishes_protocol_witness:
  "map hm_role (heal braces_ok heal_sample) = [''user'', ''assistant'', ''tool'', ''tool'', ''user'']
   \<and> protocol_ok braces_ok (heal braces_ok heal_sample) \<and> answered_once (heal braces_ok heal_sample)"
proof -
  have "well_identified heal_sample" by code_simp
  moreover have "braces_ok ''{}''" "\<And>raw. braces_ok raw \<Longrightarrow> py_strip raw \<noteq> []"
    by (simp_all add: braces_ok_def count_char_def py_strip_def py_space_def)
  note ok = heal_establishes_protocol [of braces_ok heal_sample, OF this(2,1)]
  moreover have "map hm_role (heal braces_ok heal_sample) = [''user'', ''assistant'', ''tool'', ''tool'', ''user'']"
    by code_simp
  ultimately show ?thesis by simp
qed

text \<open>The contract of the provider broken by the healed sequence: an id used in two rounds, whose second call
  stays unanswered, and a result that came twice.\<close>

definition reused_id :: "heal_msg list" where
  "reused_id =
     (let msg = (\<lambda>r t cs i. \<lparr>hm_role = r, hm_content = Some (PStr t), hm_calls = cs, hm_call_id = i, hm_other = []\<rparr>);
          call = \<lparr>hc_id = ''c1'', hc_call_id = [], hc_arguments = PStr ''{}'', hc_other = []\<rparr>
      in [msg ''assistant'' ''a'' (Some [call]) [], msg ''tool'' ''r'' None ''c1'', msg ''tool'' ''r'' None ''c1'',
          msg ''user'' ''go on'' None [], msg ''assistant'' ''b'' (Some [call]) [], msg ''user'' ''so?'' None []])"

lemma healed_ids_repeat:
  "heal braces_ok reused_id = reused_id" "groups reused_id = [([''c1''], [''c1'', ''c1'']), ([''c1''], [])]"
  by code_simp+

text \<open>
  Healing does no harm: a sequence that already satisfies the protocol and has no two adjacent
  messages the code would merge is returned unchanged.
\<close>

theorem heal_keeps_healthy:
  assumes "healthy loads_ok ms"
  shows "heal loads_ok ms = ms"
proof (cases ms)
  case (Cons m rest)
  have h: "\<forall>m \<in> set ms. content_ok m" "\<forall>m \<in> set ms. arguments_ok loads_ok m" "parented [] ms"
      "asked_ids ms \<subseteq> set (tool_ids ms)" "ms = [] \<or> \<not> is_tool (last ms) \<or> tail_open (rev ms)"
      "successively (\<lambda>a b. merged a b = None) (m # rest)"
    using assms Cons by (auto simp: healthy_def protocol_ok_def)
  have "fix_role_alternation ms = ms" using alternate_keeps [OF h(6)] Cons by (simp add: fix_role_alternation_def)
  then show ?thesis
    using h(5) fix_empty_keeps [OF h(1)] repair_keeps [OF h(2)] orphan_keeps [OF h(3)] missing_keeps [OF h(4)] Cons
    by (auto simp: heal_def fix_orphan_tool_results_def fix_missing_tool_results_def close_interrupted_def)
qed (simp add: heal_def)

theorem heal_keeps_healthy_witness:
  "heal braces_ok (heal braces_ok heal_sample) = heal braces_ok heal_sample"
proof -
  have "healthy braces_ok (heal braces_ok heal_sample)"
  proof -
    have "braces_ok ''{}''" "\<And>raw. braces_ok raw \<Longrightarrow> py_strip raw \<noteq> []"
      by (simp_all add: braces_ok_def count_char_def py_strip_def py_space_def)
    from healed_requirements [of braces_ok heal_sample, OF this(2,1)] healed_pairs [of heal_sample braces_ok]
    have "protocol_ok braces_ok (heal braces_ok heal_sample)"
      by (simp add: protocol_ok_def heal_sample_def Let_def)
    moreover have "successively (\<lambda>a b. merged a b = None) (heal braces_ok heal_sample)" by code_simp
    ultimately show ?thesis by (simp add: healthy_def)
  qed
  then show ?thesis by (rule heal_keeps_healthy)
qed

text \<open>
  Roles need not alternate in the result: merging runs before orphans are dropped, so dropping one
  between two assistant messages leaves them adjacent, and a second healing would merge them.
\<close>

definition split_by_orphan :: "heal_msg list" where
  "split_by_orphan =
     (let msg = (\<lambda>r t i. \<lparr>hm_role = r, hm_content = Some (PStr t), hm_calls = None, hm_call_id = i, hm_other = []\<rparr>)
      in [msg ''user'' ''u'' [], msg ''assistant'' ''a'' [], msg ''tool'' ''t'' ''c'', msg ''assistant'' ''b'' []])"

lemma heal_leaves_adjacent_roles:
  "map hm_role (heal braces_ok split_by_orphan) = [''user'', ''assistant'', ''assistant'']
   \<and> map hm_role (heal braces_ok (heal braces_ok split_by_orphan)) = [''user'', ''assistant'']"
  by code_simp

end
