(* ===== verification/Hardware_Trust.thy ===== *)
theory Hardware_Trust imports LF_Prelude "HOL-Library.Product_Lexorder" "HOL-Library.List_Lexorder" "HOL-Library.Char_ord" begin

text \<open>
  \<open>hardware/trust.py\<close>: the trust ledger of the (device, channel) pairs and the exemption from
  approval it grants. The forwarding to the plugin ledger, whose errors are swallowed, is the log
  \<open>tg_synced\<close>.
\<close>

section \<open>Levels\<close>

datatype trust_level = UNTRUSTED | CANDIDATE | VERIFIED | PRODUCTION

fun trust_rank :: "trust_level \<Rightarrow> nat" where
  "trust_rank UNTRUSTED = 0"
| "trust_rank CANDIDATE = 1"
| "trust_rank VERIFIED = 2"
| "trust_rank PRODUCTION = 3"

lemma trust_rank_inj: "trust_rank a = trust_rank b \<Longrightarrow> a = b"
  by (cases a; cases b) auto

instantiation trust_level :: linorder
begin

definition less_eq_trust_level :: "trust_level \<Rightarrow> trust_level \<Rightarrow> bool" where
  "less_eq_trust_level a b \<longleftrightarrow> trust_rank a \<le> trust_rank b"

definition less_trust_level :: "trust_level \<Rightarrow> trust_level \<Rightarrow> bool" where
  "less_trust_level a b \<longleftrightarrow> trust_rank a < trust_rank b"

instance
  by standard (auto simp: less_eq_trust_level_def less_trust_level_def intro: trust_rank_inj)

end

fun level_name :: "trust_level \<Rightarrow> string" where
  "level_name UNTRUSTED = ''UNTRUSTED''"
| "level_name CANDIDATE = ''CANDIDATE''"
| "level_name VERIFIED = ''VERIFIED''"
| "level_name PRODUCTION = ''PRODUCTION''"

text \<open>\<open>str.upper\<close> on ASCII, and the level a configuration names: an unknown name is \<open>UNTRUSTED\<close>.\<close>

definition py_upper :: "string \<Rightarrow> string" where
  "py_upper s = map (\<lambda>c. let n = of_char c :: nat in if 97 \<le> n \<and> n \<le> 122 then char_of (n - 32) else c) s"

definition level_of_name :: "string \<Rightarrow> trust_level" where
  "level_of_name s =
     (case find (\<lambda>l. level_name l = py_upper s) [UNTRUSTED, CANDIDATE, VERIFIED, PRODUCTION] of
        Some l \<Rightarrow> l | None \<Rightarrow> UNTRUSTED)"

fun level_below :: "trust_level \<Rightarrow> trust_level" where
  "level_below PRODUCTION = VERIFIED"
| "level_below VERIFIED = CANDIDATE"
| "level_below CANDIDATE = UNTRUSTED"
| "level_below UNTRUSTED = UNTRUSTED"

section \<open>The gate\<close>

record thresholds =
  th_initial :: trust_level
  th_candidate :: int
  th_verified :: int
  th_production :: int
  th_demote :: int
  th_override :: string

record trust_config =
  tf_initial :: string
  tf_promotions :: "int list"
  tf_demotion :: int
  tf_override :: string

type_synonym channel_key = "string \<times> string"

record trust_gate =
  tg_candidate :: int
  tg_verified :: int
  tg_production :: int
  tg_demote :: int
  tg_ok :: "(channel_key \<times> int) list"
  tg_fail :: "(channel_key \<times> int) list"
  tg_levels :: "(channel_key \<times> trust_level) list"
  tg_frozen :: "channel_key list"
  tg_devices :: "thresholds dict"
  tg_synced :: "(channel_key \<times> bool \<times> bool) list"

definition new_trust_gate :: "int \<Rightarrow> int \<Rightarrow> int \<Rightarrow> int \<Rightarrow> trust_gate" where
  "new_trust_gate candidate verified production demote =
     \<lparr>tg_candidate = max 1 candidate, tg_verified = max 1 verified, tg_production = max 1 production,
      tg_demote = max 1 demote, tg_ok = [], tg_fail = [], tg_levels = [], tg_frozen = [], tg_devices = [], tg_synced = []\<rparr>"

definition default_trust_gate :: trust_gate where
  "default_trust_gate = new_trust_gate 3 8 20 2"

definition resolve_thresholds :: "trust_gate \<Rightarrow> trust_config option \<Rightarrow> thresholds" where
  "resolve_thresholds g cfg =
     (case cfg of
        None \<Rightarrow> \<lparr>th_initial = UNTRUSTED, th_candidate = tg_candidate g, th_verified = tg_verified g,
                 th_production = tg_production g, th_demote = tg_demote g, th_override = []\<rparr>
      | Some c \<Rightarrow>
          let promo = tf_promotions c
          in \<lparr>th_initial = level_of_name (tf_initial c),
              th_candidate = (if length promo > 0 then max 1 (promo ! 0) else tg_candidate g),
              th_verified = (if length promo > 1 then max 1 (promo ! 1) else tg_verified g),
              th_production = (if length promo > 2 then max 1 (promo ! 2) else tg_production g),
              th_demote = (if tf_demotion c \<noteq> 0 then max 1 (tf_demotion c) else tg_demote g),
              th_override = tf_override c\<rparr>)"

definition register_device :: "string \<Rightarrow> trust_config option \<Rightarrow> trust_gate \<Rightarrow> trust_gate" where
  "register_device d cfg g =
     (if map_of (tg_devices g) d \<noteq> None then g
      else g\<lparr>tg_devices := dict_set d (resolve_thresholds g cfg) (tg_devices g)\<rparr>)"

definition thresholds_for :: "trust_gate \<Rightarrow> string \<Rightarrow> thresholds" where
  "thresholds_for g d = (case map_of (tg_devices g) d of Some th \<Rightarrow> th | None \<Rightarrow> resolve_thresholds g None)"

definition initial_level_for :: "trust_gate \<Rightarrow> string \<Rightarrow> trust_level" where
  "initial_level_for g d = th_initial (thresholds_for g d)"

definition stored_level :: "trust_gate \<Rightarrow> channel_key \<Rightarrow> trust_level" where
  "stored_level g key = (case map_of (tg_levels g) key of Some l \<Rightarrow> l | None \<Rightarrow> initial_level_for g (fst key))"

definition level_of :: "trust_gate \<Rightarrow> string \<Rightarrow> string \<Rightarrow> trust_level" where
  "level_of g d c = (if (d, c) \<in> set (tg_frozen g) then UNTRUSTED else stored_level g (d, c))"

definition may_skip_approval :: "trust_gate \<Rightarrow> string \<Rightarrow> string \<Rightarrow> bool \<Rightarrow> bool" where
  "may_skip_approval g d c reversible =
     (let th = thresholds_for g d
      in if th_override th = ''always'' then False
         else if th_override th = ''never'' \<and> reversible then True
         else if \<not> reversible then False
         else VERIFIED \<le> level_of g d c)"

definition allow_permanent :: "trust_gate \<Rightarrow> string \<Rightarrow> string \<Rightarrow> bool \<Rightarrow> bool" where
  "allow_permanent g d c reversible = may_skip_approval g d c reversible"

section \<open>Outcomes\<close>

definition streak :: "(channel_key \<times> int) list \<Rightarrow> channel_key \<Rightarrow> int" where
  "streak d key = (case map_of d key of Some n \<Rightarrow> n | None \<Rightarrow> 0)"

definition seed_level :: "channel_key \<Rightarrow> trust_gate \<Rightarrow> trust_gate" where
  "seed_level key g =
     (if map_of (tg_levels g) key = None \<and> initial_level_for g (fst key) \<noteq> UNTRUSTED
      then g\<lparr>tg_levels := dict_set key (initial_level_for g (fst key)) (tg_levels g)\<rparr> else g)"

definition maybe_promote :: "channel_key \<Rightarrow> trust_gate \<Rightarrow> trust_gate" where
  "maybe_promote key g =
     (let th = thresholds_for g (fst key); n = streak (tg_ok g) key; current = stored_level g key
      in if current < PRODUCTION \<and> n \<ge> th_production th then g\<lparr>tg_levels := dict_set key PRODUCTION (tg_levels g)\<rparr>
         else if current < VERIFIED \<and> n \<ge> th_verified th then g\<lparr>tg_levels := dict_set key VERIFIED (tg_levels g)\<rparr>
         else if current < CANDIDATE \<and> n \<ge> th_candidate th then g\<lparr>tg_levels := dict_set key CANDIDATE (tg_levels g)\<rparr>
         else g)"

definition demote_level :: "channel_key \<Rightarrow> trust_gate \<Rightarrow> trust_gate" where
  "demote_level key g =
     (let current = stored_level g key;
          g1 = (if UNTRUSTED < current then g\<lparr>tg_levels := dict_set key (level_below current) (tg_levels g)\<rparr> else g)
      in g1\<lparr>tg_fail := dict_set key 0 (tg_fail g1)\<rparr>)"

definition sync_trust :: "channel_key \<Rightarrow> bool \<Rightarrow> bool \<Rightarrow> trust_gate \<Rightarrow> trust_gate" where
  "sync_trust key success hard g = g\<lparr>tg_synced := tg_synced g @ [(key, success, hard)]\<rparr>"

definition record_trust_success :: "channel_key \<Rightarrow> trust_gate \<Rightarrow> trust_gate" where
  "record_trust_success key g =
     (if key \<in> set (tg_frozen g) then g
      else let g1 = seed_level key g;
               g2 = g1\<lparr>tg_ok := dict_set key (streak (tg_ok g1) key + 1) (tg_ok g1), tg_fail := dict_set key 0 (tg_fail g1)\<rparr>
           in sync_trust key True False (maybe_promote key g2))"

definition record_trust_failure :: "channel_key \<Rightarrow> bool \<Rightarrow> trust_gate \<Rightarrow> trust_gate" where
  "record_trust_failure key hard g =
     (if hard
      then sync_trust key False True
             (g\<lparr>tg_frozen := (if key \<in> set (tg_frozen g) then tg_frozen g else tg_frozen g @ [key]),
                tg_levels := dict_set key UNTRUSTED (tg_levels g), tg_ok := dict_set key 0 (tg_ok g),
                tg_fail := dict_set key 0 (tg_fail g)\<rparr>)
      else if key \<in> set (tg_frozen g) then g
      else let g1 = seed_level key g;
               g2 = g1\<lparr>tg_fail := dict_set key (streak (tg_fail g1) key + 1) (tg_fail g1), tg_ok := dict_set key 0 (tg_ok g1)\<rparr>
           in sync_trust key False False
                (if streak (tg_fail g2) key \<ge> th_demote (thresholds_for g2 (fst key)) then demote_level key g2 else g2))"

record trust_record =
  tr_device :: string
  tr_channel :: string
  tr_level :: trust_level
  tr_ok :: int
  tr_fail :: int
  tr_frozen :: bool

definition trust_record_of :: "trust_gate \<Rightarrow> channel_key \<Rightarrow> trust_record" where
  "trust_record_of g key =
     \<lparr>tr_device = fst key, tr_channel = snd key, tr_level = level_of g (fst key) (snd key),
      tr_ok = streak (tg_ok g) key, tr_fail = streak (tg_fail g) key, tr_frozen = (key \<in> set (tg_frozen g))\<rparr>"

definition all_trust_records :: "trust_gate \<Rightarrow> trust_record list" where
  "all_trust_records g = map (trust_record_of g) (sort (remdups (map fst (tg_levels g) @ tg_frozen g)))"

end
