(* ===== verification/Hardware_Writes.thy ===== *)
theory Hardware_Writes imports Hardware_Trust begin

text \<open>
  \<open>hardware/write_governor.py\<close>: the approval of a write, and the sequential batch; and
  \<open>hardware/interlocks.py\<close> with \<open>Interlock.evaluate\<close> of \<open>hardware/context.py\<close>. Drivers and the
  approval gate are parameters: what they answer, or that they raise. The audit log is assumed to
  accept its entries, and a level lookup to raise only what the code catches. Readings are scalars; a float that is not a number is outside the model.
\<close>

section \<open>Approval\<close>

text \<open>The descriptor's metadata, as far as the governor reads it: absent keys are empty or \<open>True\<close>.\<close>

record write_request =
  wr_device :: string
  wr_channels :: "string list"
  wr_identity :: string
  wr_reversible :: bool
  wm_device :: string
  wm_channel :: string
  wm_reversible :: bool
  wm_channels :: "string list"
  wm_commands :: "(bool \<times> string) list"

record governance =
  gd_allowed :: bool
  gd_denial :: string
  gd_trust_skipped :: bool
  gd_no_gate :: bool

record gate_answer =
  ga_approved :: bool
  ga_denial :: string
  ga_reason :: string

record skip_entry =
  se_device :: string
  se_channel :: string
  se_outcome :: string
  se_identity :: string

text \<open>The installed trust gate: its exemptions and its levels, either of which may raise.\<close>

record trust_view =
  tv_may_skip :: "string \<Rightarrow> string \<Rightarrow> bool \<Rightarrow> bool outcome"
  tv_level :: "string \<Rightarrow> string \<Rightarrow> trust_level outcome"

record governor =
  gv_gate :: "(write_request \<Rightarrow> gate_answer outcome) option"
  gv_trust :: "trust_view option"
  gv_skip_enabled :: bool
  gv_audit :: "skip_entry list option"

definition trust_gate_view :: "trust_gate \<Rightarrow> trust_view" where
  "trust_gate_view g =
     \<lparr>tv_may_skip = (\<lambda>d c r. Ret (may_skip_approval g d c r)), tv_level = (\<lambda>d c. Ret (level_of g d c))\<rparr>"

definition str_or_else :: "string \<Rightarrow> string \<Rightarrow> string" where
  "str_or_else a b = (if a \<noteq> [] then a else b)"

definition target_device :: "write_request \<Rightarrow> string" where
  "target_device r = str_or_else (wm_device r) (wr_device r)"

definition affected_channels :: "write_request \<Rightarrow> string list" where
  "affected_channels r =
     sort (remdups (wr_channels r @ (if wm_channel r \<noteq> [] then [wm_channel r] else []) @ wm_channels r
                    @ map snd (wm_commands r)))"

fun all_skip :: "trust_view \<Rightarrow> string \<Rightarrow> string list \<Rightarrow> bool outcome" where
  "all_skip tv d [] = Ret True"
| "all_skip tv d (c # cs) =
     (if c = [] then Ret False
      else case tv_may_skip tv d c True of
        Raise e \<Rightarrow> Raise e
      | Ret ok \<Rightarrow> if ok then all_skip tv d cs else Ret False)"

definition can_trust_skip :: "trust_view \<Rightarrow> write_request \<Rightarrow> bool outcome" where
  "can_trust_skip tv r =
     (if \<not> wr_reversible r \<or> \<not> wm_reversible r then Ret False
      else if \<exists>cmd \<in> set (wm_commands r). \<not> fst cmd then Ret False
      else if affected_channels r = [] then Ret False
      else all_skip tv (target_device r) (affected_channels r))"

definition audit_trust_skip :: "trust_view \<Rightarrow> write_request \<Rightarrow> skip_entry list option \<Rightarrow> skip_entry list option" where
  "audit_trust_skip tv r audit =
     (case audit of
        None \<Rightarrow> None
      | Some es \<Rightarrow>
          let d = target_device r;
              c = (if wm_channel r = [] \<and> wr_channels r \<noteq> [] then hd (wr_channels r) else wm_channel r);
              name = (case tv_level tv d c of Ret l \<Rightarrow> level_name l | Raise e \<Rightarrow> ''unknown'')
          in Some (es @ [\<lparr>se_device = d, se_channel = c, se_outcome = ''trust_skip=True level='' @ name,
                          se_identity = wr_identity r\<rparr>]))"

definition gate_missing :: string where
  "gate_missing = ''No approval gate is installed for hardware commands. Either start a TUI session (`leap chat`) or configure an edge approval channel (Settings -> hardware.approval_channel) so writes can be reviewed before they execute.''"

definition gate_failed :: string where
  "gate_failed = ''The approval gate failed while assessing this command, so it was refused.''"

definition denied :: "string \<Rightarrow> governance" where
  "denied msg = \<lparr>gd_allowed = False, gd_denial = msg, gd_trust_skipped = False, gd_no_gate = False\<rparr>"

definition ask_gate :: "governor \<Rightarrow> write_request \<Rightarrow> governance" where
  "ask_gate gv r =
     (case gv_gate gv of
        None \<Rightarrow> (denied gate_missing)\<lparr>gd_no_gate := True\<rparr>
      | Some gate \<Rightarrow> (case gate r of
          Raise e \<Rightarrow> denied gate_failed
        | Ret a \<Rightarrow>
            if ga_approved a then \<lparr>gd_allowed = True, gd_denial = [], gd_trust_skipped = False, gd_no_gate = False\<rparr>
            else denied (str_or_else (str_or_else (ga_denial a) (ga_reason a)) ''The command was not approved.'')))"

definition govern :: "governor \<Rightarrow> write_request \<Rightarrow> governance \<times> governor" where
  "govern gv r =
     (case gv_trust gv of
        Some tv \<Rightarrow>
          if gv_skip_enabled gv \<and> can_trust_skip tv r = Ret True
          then (\<lparr>gd_allowed = True, gd_denial = [], gd_trust_skipped = True, gd_no_gate = False\<rparr>,
                gv\<lparr>gv_audit := audit_trust_skip tv r (gv_audit gv)\<rparr>)
          else (ask_gate gv r, gv)
      | None \<Rightarrow> (ask_gate gv r, gv))"

section \<open>Interlocks\<close>

datatype reading = RNone | RBool bool | RNum real | RText string

definition reading_num :: "reading \<Rightarrow> real option" where
  "reading_num v = (case v of RBool b \<Rightarrow> Some (if b then 1 else 0) | RNum x \<Rightarrow> Some x | _ \<Rightarrow> None)"

text \<open>\<open>==\<close>, and \<open><\<close> where it is defined: numbers (booleans are numbers) and texts.\<close>

definition reading_eq :: "reading \<Rightarrow> reading \<Rightarrow> bool" where
  "reading_eq a b =
     (case (reading_num a, reading_num b) of (Some x, Some y) \<Rightarrow> x = y | _ \<Rightarrow> a = b)"

definition reading_less :: "reading \<Rightarrow> reading \<Rightarrow> bool option" where
  "reading_less a b =
     (case (reading_num a, reading_num b) of
        (Some x, Some y) \<Rightarrow> Some (x < y)
      | _ \<Rightarrow> (case (a, b) of (RText s, RText t) \<Rightarrow> Some (s < t) | _ \<Rightarrow> None))"

record interlock =
  il_id :: string
  il_channel :: string
  il_operator :: string
  il_value :: reading

text \<open>An operator the table lacks, and a comparison that raises, do not hold.\<close>

definition interlock_holds :: "interlock \<Rightarrow> reading \<Rightarrow> bool" where
  "interlock_holds il v =
     (let less = (\<lambda>a b. reading_less a b = Some True);
          leq = (\<lambda>a b. case reading_less a b of None \<Rightarrow> False | Some l \<Rightarrow> l \<or> reading_eq a b)
      in if il_operator il = ''eq'' then reading_eq v (il_value il)
         else if il_operator il = ''ne'' then \<not> reading_eq v (il_value il)
         else if il_operator il = ''lt'' then less v (il_value il)
         else if il_operator il = ''le'' then leq v (il_value il)
         else if il_operator il = ''gt'' then less (il_value il) v
         else if il_operator il = ''ge'' then leq (il_value il) v
         else False)"

record hw_channel =
  ch_id :: string
  ch_requires :: "string list"

record hw_context =
  hx_interlocks :: "interlock list"
  hx_channels :: "hw_channel list"
  hx_require_all :: bool

definition context_interlock :: "hw_context \<Rightarrow> string \<Rightarrow> interlock option" where
  "context_interlock cx name = find (\<lambda>i. il_id i = name) (hx_interlocks cx)"

text \<open>The names a write must check: those of the channel, then, under the blanket policy, those any
  channel of the device requires, each once.\<close>

definition required_interlocks :: "hw_context \<Rightarrow> hw_channel \<Rightarrow> string list" where
  "required_interlocks cx ch =
     (if hx_require_all cx
      then foldl (\<lambda>req name. if name \<in> set req then req else req @ [name]) (ch_requires ch)
             (concat (map ch_requires (hx_channels cx)))
      else ch_requires ch)"

definition interlock_failed :: "(string \<Rightarrow> reading outcome) \<Rightarrow> hw_context \<Rightarrow> string \<Rightarrow> bool" where
  "interlock_failed read cx name =
     (case context_interlock cx name of
        None \<Rightarrow> True
      | Some il \<Rightarrow> (case read (il_channel il) of Raise e \<Rightarrow> True | Ret v \<Rightarrow> \<not> interlock_holds il v))"

definition failed_interlocks :: "(string \<Rightarrow> reading outcome) \<Rightarrow> hw_context \<Rightarrow> hw_channel \<Rightarrow> string list" where
  "failed_interlocks read cx ch = filter (interlock_failed read cx) (required_interlocks cx ch)"

section \<open>Sequential batch\<close>

text \<open>A driver's verdict is a text; \<open>EFF_OTHER\<close> is one that is none of the four the table ranks.\<close>

datatype effect_state = EFF_NONE | EFF_COMMITTED | EFF_PARTIAL | EFF_UNKNOWN | EFF_OTHER string

fun effect_severity :: "effect_state \<Rightarrow> int" where
  "effect_severity EFF_NONE = 0"
| "effect_severity EFF_COMMITTED = 1"
| "effect_severity EFF_PARTIAL = 2"
| "effect_severity EFF_UNKNOWN = 3"
| "effect_severity (EFF_OTHER text) = 3"

fun worst_loop :: "effect_state \<Rightarrow> int \<Rightarrow> effect_state list \<Rightarrow> effect_state" where
  "worst_loop worst rank [] = worst"
| "worst_loop worst rank (s # ss) =
     (if effect_severity s > rank then worst_loop s (effect_severity s) ss else worst_loop worst rank ss)"

definition worst_side_effect_state :: "effect_state list \<Rightarrow> effect_state" where
  "worst_side_effect_state ss = worst_loop EFF_NONE (- 1) ss"

record write_outcome =
  wo_ok :: bool
  wo_effect :: effect_state
  wo_code :: string
  wo_error :: string

text \<open>What a driver does with a write: an outcome, a \<open>TransportError\<close> (code and text), another exception.\<close>

datatype driver_reply = Wrote write_outcome | Refused string string | Broke string

definition reply_outcome :: "driver_reply \<Rightarrow> write_outcome" where
  "reply_outcome r =
     (case r of
        Wrote w \<Rightarrow> w
      | Refused code err \<Rightarrow> \<lparr>wo_ok = False, wo_effect = EFF_NONE, wo_code = code, wo_error = err\<rparr>
      | Broke name \<Rightarrow> \<lparr>wo_ok = False, wo_effect = EFF_UNKNOWN, wo_code = ''driver_contract_violation'',
                       wo_error = ''Driver raised '' @ name @ ''; verify the channel before retrying.''\<rparr>)"

definition not_attempted :: write_outcome where
  "not_attempted =
     \<lparr>wo_ok = False, wo_effect = EFF_NONE, wo_code = ''batch_not_attempted'',
      wo_error = ''Not attempted because an earlier command in this batch failed.''\<rparr>"

record batch_outcome =
  bo_ok :: bool
  bo_outcomes :: "write_outcome list"
  bo_effect :: effect_state

text \<open>
  The loop over the commands: the driver is a state machine, its state after the batch comes with the
  outcomes.
\<close>

fun batch_loop ::
  "('d \<Rightarrow> 'c \<Rightarrow> driver_reply \<times> 'd) \<Rightarrow> bool \<Rightarrow> 'c list \<Rightarrow> 'd \<Rightarrow> write_outcome list \<times> 'd" where
  "batch_loop write stopped [] d = ([], d)"
| "batch_loop write stopped (c # cs) d =
     (if stopped then (case batch_loop write stopped cs d of (os, d') \<Rightarrow> (not_attempted # os, d'))
      else case write d c of
        (r, d1) \<Rightarrow> (case batch_loop write (\<not> wo_ok (reply_outcome r)) cs d1 of
                     (os, d2) \<Rightarrow> (reply_outcome r # os, d2)))"

definition execute_sequential_batch ::
  "('d \<Rightarrow> 'c \<Rightarrow> driver_reply \<times> 'd) \<Rightarrow> 'c list \<Rightarrow> 'd \<Rightarrow> batch_outcome \<times> 'd" where
  "execute_sequential_batch write commands d =
     (case batch_loop write False commands d of
        (os, d') \<Rightarrow>
          let ok = (\<forall>w \<in> set os. wo_ok w);
              effect = worst_side_effect_state (map wo_effect os);
              effect' = (if \<not> ok \<and> effect \<noteq> EFF_NONE \<and> effect \<noteq> EFF_UNKNOWN then EFF_PARTIAL else effect)
          in (\<lparr>bo_ok = ok, bo_outcomes = os, bo_effect = effect'\<rparr>, d'))"

end
