(* ===== verification/Hardware_Props.thy ===== *)
theory Hardware_Props imports Hardware_Writes "HOL-Library.Sublist" begin

text \<open>
  An exemption from approval is earned, channel by channel; interlocks fail closed; and a batch stops
  at its first failure and reports what may have happened.
\<close>

section \<open>Trust over a history\<close>

datatype trust_event = Succeeded channel_key | Failed channel_key bool

fun trust_step :: "trust_event \<Rightarrow> trust_gate \<Rightarrow> trust_gate" where
  "trust_step (Succeeded key) g = record_trust_success key g"
| "trust_step (Failed key hard) g = record_trust_failure key hard g"

definition trust_run :: "trust_event list \<Rightarrow> trust_gate \<Rightarrow> trust_gate" where
  "trust_run es g = fold trust_step es g"

definition fresh_gate :: "trust_gate \<Rightarrow> bool" where
  "fresh_gate g \<longleftrightarrow> tg_ok g = [] \<and> tg_fail g = [] \<and> tg_levels g = [] \<and> tg_frozen g = []"

text \<open>The successes of a key at the end of a history since its last failure; the history comes reversed.\<close>

fun recent_successes :: "channel_key \<Rightarrow> trust_event list \<Rightarrow> int" where
  "recent_successes key [] = 0"
| "recent_successes key (Succeeded k # es) = (if k = key then 1 else 0) + recent_successes key es"
| "recent_successes key (Failed k hard # es) = (if k = key then 0 else recent_successes key es)"

definition earned :: "thresholds \<Rightarrow> channel_key \<Rightarrow> trust_event list \<Rightarrow> bool" where
  "earned th key es \<longleftrightarrow> Failed key True \<notin> set es
     \<and> (VERIFIED \<le> th_initial th
        \<or> (\<exists>pre. prefix pre es \<and> recent_successes key (rev pre) \<ge> min (th_verified th) (th_production th)))"

definition same_setup :: "trust_gate \<Rightarrow> trust_gate \<Rightarrow> bool" where
  "same_setup g h \<longleftrightarrow> tg_devices h = tg_devices g \<and> tg_candidate h = tg_candidate g \<and> tg_verified h = tg_verified g
     \<and> tg_production h = tg_production g \<and> tg_demote h = tg_demote g"

lemma same_setup_refl [simp]: "same_setup g g"
  by (simp add: same_setup_def)

lemma same_setup_trans: "same_setup f g \<Longrightarrow> same_setup g h \<Longrightarrow> same_setup f h"
  by (simp add: same_setup_def)

lemma same_setup_thresholds: "same_setup g h \<Longrightarrow> thresholds_for h d = thresholds_for g d"
  by (simp add: same_setup_def thresholds_for_def resolve_thresholds_def split: option.splits)

lemma stored_cong: "same_setup g h \<Longrightarrow> tg_levels h = tg_levels g \<Longrightarrow> stored_level h key = stored_level g key"
  by (simp add: stored_level_def initial_level_for_def same_setup_thresholds split: option.splits)

lemma same_setup_updates [simp]:
  "same_setup f (g\<lparr>tg_ok := a\<rparr>) = same_setup f g" "same_setup f (g\<lparr>tg_fail := b\<rparr>) = same_setup f g"
  "same_setup f (g\<lparr>tg_levels := c\<rparr>) = same_setup f g" "same_setup f (g\<lparr>tg_frozen := e\<rparr>) = same_setup f g"
  "same_setup f (g\<lparr>tg_synced := s\<rparr>) = same_setup f g"
  by (simp_all add: same_setup_def)

lemma stored_updates [simp]:
  "stored_level (g\<lparr>tg_ok := a\<rparr>) key = stored_level g key" "stored_level (g\<lparr>tg_fail := b\<rparr>) key = stored_level g key"
  "stored_level (g\<lparr>tg_frozen := e\<rparr>) key = stored_level g key" "stored_level (g\<lparr>tg_synced := s\<rparr>) key = stored_level g key"
  by (rule stored_cong; simp)+

lemma thresholds_updates [simp]:
  "thresholds_for (g\<lparr>tg_ok := a\<rparr>) d = thresholds_for g d" "thresholds_for (g\<lparr>tg_fail := b\<rparr>) d = thresholds_for g d"
  "thresholds_for (g\<lparr>tg_levels := c\<rparr>) d = thresholds_for g d" "thresholds_for (g\<lparr>tg_frozen := e\<rparr>) d = thresholds_for g d"
  "thresholds_for (g\<lparr>tg_synced := s\<rparr>) d = thresholds_for g d"
  by (rule same_setup_thresholds; simp)+

lemma stored_set [simp]:
  "stored_level (g\<lparr>tg_levels := dict_set k l (tg_levels g)\<rparr>) key = (if key = k then l else stored_level g key)"
  by (simp add: stored_level_def initial_level_for_def dict_simps split: option.splits)

lemma level_le_simps [simp]: "VERIFIED \<le> l \<longleftrightarrow> l = VERIFIED \<or> l = PRODUCTION"
  by (cases l) (simp_all add: less_eq_trust_level_def)

lemma seed_facts [simp]:
  "same_setup f (seed_level k g) = same_setup f g" "stored_level (seed_level k g) key = stored_level g key"
  "tg_ok (seed_level k g) = tg_ok g" "tg_fail (seed_level k g) = tg_fail g" "tg_frozen (seed_level k g) = tg_frozen g"
  by (auto simp: seed_level_def) (simp add: stored_level_def)

lemma promote_facts:
  "same_setup f (maybe_promote k g) = same_setup f g" "tg_ok (maybe_promote k g) = tg_ok g"
  "tg_fail (maybe_promote k g) = tg_fail g" "tg_frozen (maybe_promote k g) = tg_frozen g"
  "key \<noteq> k \<Longrightarrow> stored_level (maybe_promote k g) key = stored_level g key"
  "VERIFIED \<le> stored_level (maybe_promote k g) k \<Longrightarrow> VERIFIED \<le> stored_level g k
     \<or> streak (tg_ok g) k \<ge> min (th_verified (thresholds_for g (fst k))) (th_production (thresholds_for g (fst k)))"
  by (auto simp: maybe_promote_def Let_def split: if_splits)

lemma demote_facts:
  "same_setup f (demote_level k g) = same_setup f g" "tg_ok (demote_level k g) = tg_ok g"
  "tg_frozen (demote_level k g) = tg_frozen g" "key \<noteq> k \<Longrightarrow> stored_level (demote_level k g) key = stored_level g key"
  "stored_level (demote_level k g) k = level_below (stored_level g k)"
  by (cases "stored_level g k"; auto simp: demote_level_def Let_def less_trust_level_def)+

text \<open>What the ledger knows about a key after a history.\<close>

definition trust_inv :: "trust_gate \<Rightarrow> channel_key \<Rightarrow> trust_event list \<Rightarrow> trust_gate \<Rightarrow> bool" where
  "trust_inv g0 key es g \<longleftrightarrow> same_setup g0 g
     \<and> (key \<in> set (tg_frozen g) \<longleftrightarrow> Failed key True \<in> set es)
     \<and> (key \<notin> set (tg_frozen g) \<longrightarrow> streak (tg_ok g) key = recent_successes key (rev es)
          \<and> (VERIFIED \<le> stored_level g key \<longrightarrow> earned (thresholds_for g0 (fst key)) key es))"

lemma earned_snoc:
  "earned th key es \<Longrightarrow> e \<noteq> Failed key True \<Longrightarrow> earned th key (es @ [e])"
  by (auto simp: earned_def intro: prefix_order.trans)

lemma earned_run:
  assumes "Failed key True \<notin> set es" "recent_successes key (rev es) \<ge> min (th_verified th) (th_production th)"
  shows "earned th key es"
  using assms unfolding earned_def by blast

lemma streak_set [simp]: "streak (dict_set k n d) key = (if key = k then n else streak d key)"
  by (simp add: streak_def dict_simps)

lemma success_frame:
  "same_setup f (record_trust_success k g) = same_setup f g" "tg_frozen (record_trust_success k g) = tg_frozen g"
  "key \<noteq> k \<Longrightarrow> streak (tg_ok (record_trust_success k g)) key = streak (tg_ok g) key
     \<and> stored_level (record_trust_success k g) key = stored_level g key"
  "k \<notin> set (tg_frozen g) \<Longrightarrow> streak (tg_ok (record_trust_success k g)) k = streak (tg_ok g) k + 1"
  by (simp_all add: record_trust_success_def sync_trust_def promote_facts Let_def)

lemma success_level:
  assumes "k \<notin> set (tg_frozen g)" "VERIFIED \<le> stored_level (record_trust_success k g) k"
  shows "VERIFIED \<le> stored_level g k
     \<or> streak (tg_ok g) k + 1 \<ge> min (th_verified (thresholds_for g (fst k))) (th_production (thresholds_for g (fst k)))"
proof -
  define g2 where "g2 = (seed_level k g)\<lparr>tg_ok := dict_set k (streak (tg_ok g) k + 1) (tg_ok g), tg_fail := dict_set k 0 (tg_fail g)\<rparr>"
  have th: "thresholds_for (seed_level k g) d = thresholds_for g d" for d by (rule same_setup_thresholds) simp
  have "stored_level (record_trust_success k g) k = stored_level (maybe_promote k g2) k"
    using assms(1) by (simp add: record_trust_success_def sync_trust_def Let_def g2_def)
  with assms(2) promote_facts(6) [of k g2] show ?thesis by (simp add: g2_def th)
qed

text \<open>A soft failure of a key that is not frozen.\<close>

definition failing :: "channel_key \<Rightarrow> trust_gate \<Rightarrow> trust_gate" where
  "failing k g = (seed_level k g)\<lparr>tg_fail := dict_set k (streak (tg_fail (seed_level k g)) k + 1) (tg_fail (seed_level k g)),
                                  tg_ok := dict_set k 0 (tg_ok (seed_level k g))\<rparr>"

lemma failure_soft:
  "k \<notin> set (tg_frozen g) \<Longrightarrow> record_trust_failure k False g = sync_trust k False False
     (if streak (tg_fail (failing k g)) k \<ge> th_demote (thresholds_for (failing k g) (fst k))
      then demote_level k (failing k g) else failing k g)"
  unfolding record_trust_failure_def failing_def Let_def by (simp only: if_False)

lemma failing_facts [simp]:
  "same_setup f (failing k g) = same_setup f g" "stored_level (failing k g) key = stored_level g key"
  "tg_frozen (failing k g) = tg_frozen g" "streak (tg_ok (failing k g)) key = (if key = k then 0 else streak (tg_ok g) key)"
  by (simp_all add: failing_def)

lemma failure_cases:
  obtains "hard" "record_trust_failure k hard g = sync_trust k False True
             (g\<lparr>tg_frozen := (if k \<in> set (tg_frozen g) then tg_frozen g else tg_frozen g @ [k]),
                tg_levels := dict_set k UNTRUSTED (tg_levels g), tg_ok := dict_set k 0 (tg_ok g),
                tg_fail := dict_set k 0 (tg_fail g)\<rparr>)"
  | "\<not> hard" "k \<in> set (tg_frozen g)" "record_trust_failure k hard g = g"
  | "\<not> hard" "k \<notin> set (tg_frozen g)" "record_trust_failure k hard g = sync_trust k False False (failing k g)"
  | "\<not> hard" "k \<notin> set (tg_frozen g)"
    "record_trust_failure k hard g = sync_trust k False False (demote_level k (failing k g))"
proof (cases hard)
  case True
  then show ?thesis by (rule that(1)) (simp add: True record_trust_failure_def)
next
  case False
  show ?thesis
  proof (cases "k \<in> set (tg_frozen g)")
    case True
    show ?thesis by (rule that(2) [OF False True]) (simp add: True False record_trust_failure_def)
  next
    case soft: False
    show ?thesis
      using that(3,4) [OF False soft] failure_soft [OF soft] False
      by (cases "streak (tg_fail (failing k g)) k \<ge> th_demote (thresholds_for (failing k g) (fst k))") simp_all
  qed
qed

lemma sync_facts [simp]:
  "same_setup f (sync_trust k a b g) = same_setup f g" "stored_level (sync_trust k a b g) key = stored_level g key"
  "tg_frozen (sync_trust k a b g) = tg_frozen g" "tg_ok (sync_trust k a b g) = tg_ok g"
  by (simp_all add: sync_trust_def)

lemma stored_from:
  "tg_levels h = dict_set k l (tg_levels g) \<Longrightarrow> same_setup g h \<Longrightarrow>
     stored_level h key = (if key = k then l else stored_level g key)"
  by (simp add: stored_level_def initial_level_for_def dict_simps same_setup_thresholds split: option.splits)

lemma hard_failure:
  "same_setup f (record_trust_failure k True g) = same_setup f g"
  "set (tg_frozen (record_trust_failure k True g)) = insert k (set (tg_frozen g))"
  "tg_ok (record_trust_failure k True g) = dict_set k 0 (tg_ok g)"
  "tg_levels (record_trust_failure k True g) = dict_set k UNTRUSTED (tg_levels g)"
  by (auto simp: record_trust_failure_def) (simp_all add: sync_trust_def)

lemma failure_frame:
  "same_setup f (record_trust_failure k hard g) = same_setup f g"
  "set (tg_frozen (record_trust_failure k hard g)) = set (tg_frozen g) \<union> (if hard then {k} else {})"
  "key \<noteq> k \<Longrightarrow> streak (tg_ok (record_trust_failure k hard g)) key = streak (tg_ok g) key
     \<and> stored_level (record_trust_failure k hard g) key = stored_level g key"
proof -
  have soft: "same_setup f (record_trust_failure k False g) = same_setup f g"
    "set (tg_frozen (record_trust_failure k False g)) = set (tg_frozen g)"
    "key \<noteq> k \<Longrightarrow> streak (tg_ok (record_trust_failure k False g)) key = streak (tg_ok g) key
       \<and> stored_level (record_trust_failure k False g) key = stored_level g key"
    by (cases rule: failure_cases [of False k g]; simp add: demote_facts)+
  have lv: "stored_level (record_trust_failure k True g) key = (if key = k then UNTRUSTED else stored_level g key)"
    by (rule stored_from) (simp_all add: hard_failure)
  show "same_setup f (record_trust_failure k hard g) = same_setup f g"
    using soft(1) hard_failure(1) by (cases hard) simp_all
  show "set (tg_frozen (record_trust_failure k hard g)) = set (tg_frozen g) \<union> (if hard then {k} else {})"
    using soft(2) hard_failure(2) by (cases hard) simp_all
  show "key \<noteq> k \<Longrightarrow> streak (tg_ok (record_trust_failure k hard g)) key = streak (tg_ok g) key
     \<and> stored_level (record_trust_failure k hard g) key = stored_level g key"
    using soft(3) hard_failure(3) lv by (cases hard) simp_all
qed

lemma failure_level:
  assumes "k \<notin> set (tg_frozen g)"
  shows "streak (tg_ok (record_trust_failure k False g)) k = 0"
    "VERIFIED \<le> stored_level (record_trust_failure k False g) k \<Longrightarrow> VERIFIED \<le> stored_level g k"
proof -
  show "streak (tg_ok (record_trust_failure k False g)) k = 0"
    using assms by (cases rule: failure_cases [of False k g]) (simp_all add: demote_facts)
  show "VERIFIED \<le> stored_level (record_trust_failure k False g) k \<Longrightarrow> VERIFIED \<le> stored_level g k"
    using assms by (cases rule: failure_cases [of False k g]; cases "stored_level g k") (simp_all add: demote_facts)
qed

lemma trust_inv_step:
  assumes inv: "trust_inv g0 key es g"
  shows "trust_inv g0 key (es @ [e]) (trust_step e g)"
proof (cases e)
  case (Succeeded k)
  have th: "thresholds_for g (fst key) = thresholds_for g0 (fst key)"
    using inv by (simp add: trust_inv_def same_setup_thresholds)
  show ?thesis
  proof (cases "k = key \<and> key \<notin> set (tg_frozen g)")
    case True
    then have no: "Failed key True \<notin> set (es @ [e])" using inv Succeeded by (simp add: trust_inv_def)
    have n: "streak (tg_ok g) key + 1 = recent_successes key (rev (es @ [e]))"
      using inv True Succeeded by (simp add: trust_inv_def)
    have "earned (thresholds_for g0 (fst key)) key (es @ [e])"
      if v: "VERIFIED \<le> stored_level (record_trust_success key g) key"
    proof (cases "VERIFIED \<le> stored_level g key")
      case True
      then have "earned (thresholds_for g0 (fst key)) key es"
        using inv \<open>k = key \<and> key \<notin> set (tg_frozen g)\<close> by (simp only: trust_inv_def) blast
      then show ?thesis using Succeeded by (simp add: earned_snoc)
    next
      case False
      then show ?thesis using success_level [OF _ v] True earned_run [OF no] n th by simp
    qed
    then show ?thesis using inv True Succeeded n by (simp add: trust_inv_def success_frame)
  next
    case False
    then have "record_trust_success k g = g \<or> k \<noteq> key" by (auto simp: record_trust_success_def)
    then show ?thesis using inv False Succeeded by (auto simp: trust_inv_def success_frame intro: earned_snoc)
  qed
next
  case (Failed k hard)
  show ?thesis
  proof (cases "k = key")
    case True
    show ?thesis
    proof (cases "hard \<or> key \<in> set (tg_frozen g)")
      case True
      then show ?thesis using inv Failed \<open>k = key\<close> by (auto simp: trust_inv_def failure_frame)
    next
      case False
      then show ?thesis using inv Failed \<open>k = key\<close> failure_level [of key g]
        by (auto simp: trust_inv_def failure_frame(1,2) intro: earned_snoc)
    qed
  next
    case False
    then show ?thesis using inv Failed failure_frame(3) [of key k hard g]
      by (auto simp: trust_inv_def failure_frame(1,2) intro: earned_snoc)
  qed
qed

lemma trust_inv_run:
  assumes "fresh_gate g0"
  shows "trust_inv g0 key es (trust_run es g0)"
proof (induction es rule: rev_induct)
  case Nil
  then show ?case
    using assms by (auto simp: trust_run_def trust_inv_def fresh_gate_def streak_def stored_level_def initial_level_for_def earned_def)
next
  case (snoc e es)
  then show ?case using trust_inv_step [of g0 key es "trust_run es g0" e] by (simp add: trust_run_def)
qed

text \<open>The exemption of one channel.\<close>

lemma exemption_earned:
  assumes "fresh_gate g0" "may_skip_approval (trust_run es g0) d c r"
  shows "r \<and> th_override (thresholds_for g0 d) \<noteq> ''always''
     \<and> (th_override (thresholds_for g0 d) = ''never'' \<or> earned (thresholds_for g0 d) (d, c) es)"
proof -
  have inv: "trust_inv g0 (d, c) es (trust_run es g0)" by (rule trust_inv_run [OF assms(1)])
  then have th: "thresholds_for (trust_run es g0) d = thresholds_for g0 d"
    by (simp add: trust_inv_def same_setup_thresholds)
  show ?thesis
    using assms(2) inv unfolding may_skip_approval_def th
    by (auto simp: Let_def level_of_def trust_inv_def split: if_splits)
qed

section \<open>Approval\<close>

lemma all_skip_iff: "all_skip tv d cs = Ret True \<longleftrightarrow> (\<forall>c \<in> set cs. c \<noteq> [] \<and> tv_may_skip tv d c True = Ret True)"
  by (induction cs) (auto split: outcome.splits)

text \<open>What a write touches: the channels of the request, the descriptor's anchor, list and commands.\<close>

definition write_channels :: "write_request \<Rightarrow> string set" where
  "write_channels r = set (wr_channels r) \<union> ({wm_channel r} - {[]}) \<union> set (wm_channels r) \<union> snd ` set (wm_commands r)"

lemma affected_set: "set (affected_channels r) = write_channels r"
  by (auto simp: affected_channels_def write_channels_def)

lemma can_skip_iff:
  "can_trust_skip tv r = Ret True \<longleftrightarrow> wr_reversible r \<and> wm_reversible r \<and> (\<forall>cmd \<in> set (wm_commands r). fst cmd)
     \<and> affected_channels r \<noteq> [] \<and> (\<forall>c \<in> set (affected_channels r). c \<noteq> [] \<and> tv_may_skip tv (target_device r) c True = Ret True)"
  by (auto simp: can_trust_skip_def all_skip_iff)

lemma ask_gate_allowed:
  "gd_allowed (ask_gate gv r) \<longleftrightarrow> (\<exists>gate a. gv_gate gv = Some gate \<and> gate r = Ret a \<and> ga_approved a)"
  "\<not> gd_trust_skipped (ask_gate gv r)"
  by (auto simp: ask_gate_def denied_def split: option.splits outcome.splits)

text \<open>
  C8. A hardware write runs only if the approval gate said so or trust was earned. Take the trust
  gate after any history of outcomes from a fresh one. The governor allows a write only if the
  installed gate answers with an approval, or when trust skipping is on, the write and all its
  commands are declared reversible, it names at least one channel, and every channel it affects, those
  of the descriptor included, is exempt on its device. A channel is exempt only if its device does
  not force approval and is configured to need none, or the channel never failed hard and either
  starts verified or once had the required number of successes in a row.
\<close>

theorem unapproved_write_earned:
  assumes "fresh_gate g0" "gv_trust gv = Some (trust_gate_view (trust_run es g0))" "gd_allowed (fst (govern gv r))"
  shows "(\<exists>gate a. gv_gate gv = Some gate \<and> gate r = Ret a \<and> ga_approved a)
     \<or> (gv_skip_enabled gv \<and> wr_reversible r \<and> wm_reversible r \<and> (\<forall>cmd \<in> set (wm_commands r). fst cmd)
        \<and> write_channels r \<noteq> {}
        \<and> (\<forall>c \<in> write_channels r. c \<noteq> []
             \<and> th_override (thresholds_for g0 (target_device r)) \<noteq> ''always''
             \<and> (th_override (thresholds_for g0 (target_device r)) = ''never''
                \<or> earned (thresholds_for g0 (target_device r)) (target_device r, c) es)))"
proof (cases "gv_skip_enabled gv \<and> can_trust_skip (trust_gate_view (trust_run es g0)) r = Ret True")
  case True
  then have skip: "gv_skip_enabled gv" "wr_reversible r" "wm_reversible r" "\<forall>cmd \<in> set (wm_commands r). fst cmd"
    "affected_channels r \<noteq> []"
    and chans: "\<forall>c \<in> set (affected_channels r). c \<noteq> [] \<and> may_skip_approval (trust_run es g0) (target_device r) c True"
    by (simp_all add: can_skip_iff trust_gate_view_def)
  have affected: "set (affected_channels r) = write_channels r" by (rule affected_set)
  then have "write_channels r \<noteq> {}" using skip(5) by auto
  have "\<forall>c \<in> set (affected_channels r). c \<noteq> []
             \<and> th_override (thresholds_for g0 (target_device r)) \<noteq> ''always''
             \<and> (th_override (thresholds_for g0 (target_device r)) = ''never''
                \<or> earned (thresholds_for g0 (target_device r)) (target_device r, c) es)"
    using chans exemption_earned [OF assms(1)] by blast
  then show ?thesis using skip \<open>write_channels r \<noteq> {}\<close> affected by simp
next
  case False
  then have "gd_allowed (ask_gate gv r)" using assms(2,3) by (auto simp: govern_def split: if_splits)
  then show ?thesis by (simp add: ask_gate_allowed)
qed

definition sample_write :: write_request where
  "sample_write =
     \<lparr>wr_device = ''arm'', wr_channels = [''x''], wr_identity = ''agent'', wr_reversible = True, wm_device = [],
      wm_channel = ''x'', wm_reversible = True, wm_channels = [], wm_commands = []\<rparr>"

definition sample_governor :: "trust_gate \<Rightarrow> governor" where
  "sample_governor g =
     \<lparr>gv_gate = Some (\<lambda>r. Raise ''Timeout''), gv_trust = Some (trust_gate_view g), gv_skip_enabled = True, gv_audit = Some []\<rparr>"

lemma sample_exempt:
  "gd_allowed (fst (govern (sample_governor (trust_run (replicate 8 (Succeeded (''arm'', ''x''))) default_trust_gate)) sample_write))
   \<and> \<not> gd_allowed (fst (govern (sample_governor (trust_run (replicate 7 (Succeeded (''arm'', ''x''))) default_trust_gate)) sample_write))"
  by code_simp

theorem unapproved_write_earned_witness:
  "gd_allowed (fst (govern (sample_governor (trust_run (replicate 8 (Succeeded (''arm'', ''x''))) default_trust_gate)) sample_write))
   \<and> earned (thresholds_for default_trust_gate ''arm'') (''arm'', ''x'') (replicate 8 (Succeeded (''arm'', ''x'')))"
proof -
  let ?es = "replicate 8 (Succeeded (''arm'', ''x''))"
  have fresh: "fresh_gate default_trust_gate" by (simp add: fresh_gate_def default_trust_gate_def new_trust_gate_def)
  have gv: "gv_trust (sample_governor (trust_run ?es default_trust_gate)) = Some (trust_gate_view (trust_run ?es default_trust_gate))"
    by (simp add: sample_governor_def)
  have gate: "gv_gate (sample_governor (trust_run ?es default_trust_gate)) = Some (\<lambda>r. Raise ''Timeout'')"
    by (simp add: sample_governor_def)
  have w: "write_channels sample_write = {''x''}" "target_device sample_write = ''arm''"
    by (simp_all add: write_channels_def sample_write_def target_device_def str_or_else_def)
  have th: "th_override (thresholds_for default_trust_gate ''arm'') = []"
    by (simp add: thresholds_for_def resolve_thresholds_def default_trust_gate_def new_trust_gate_def)
  show ?thesis
    using unapproved_write_earned [OF fresh gv conjunct1 [OF sample_exempt]] sample_exempt gate w th by auto
qed

section \<open>Interlocks\<close>

lemma foldl_required: "set (foldl (\<lambda>req name. if name \<in> set req then req else req @ [name]) req names) = set req \<union> set names"
  by (induction names arbitrary: req) auto

lemma required_set:
  "set (required_interlocks cx ch) = set (ch_requires ch)
     \<union> (if hx_require_all cx then (\<Union>c \<in> set (hx_channels cx). set (ch_requires c)) else {})"
  by (auto simp: required_interlocks_def foldl_required)

lemma no_failed_interlocks:
  "failed_interlocks read cx ch = [] \<longleftrightarrow>
     (\<forall>name \<in> set (required_interlocks cx ch).
        \<exists>il v. context_interlock cx name = Some il \<and> read (il_channel il) = Ret v \<and> interlock_holds il v)"
proof -
  have "\<not> interlock_failed read cx name \<longleftrightarrow>
      (\<exists>il v. context_interlock cx name = Some il \<and> read (il_channel il) = Ret v \<and> interlock_holds il v)" for name
    by (auto simp: interlock_failed_def split: option.splits outcome.splits)
  then show ?thesis by (auto simp: failed_interlocks_def filter_empty_conv)
qed

text \<open>A list without its later repetitions, and what it takes for an interlock to be satisfied.\<close>

definition first_occurrences :: "string list \<Rightarrow> string list" where
  "first_occurrences xs = rev (remdups (rev xs))"

definition interlock_satisfied :: "(string \<Rightarrow> reading outcome) \<Rightarrow> hw_context \<Rightarrow> string \<Rightarrow> bool" where
  "interlock_satisfied read cx name \<longleftrightarrow>
     (\<exists>il v. context_interlock cx name = Some il \<and> read (il_channel il) = Ret v \<and> interlock_holds il v)"

lemma failed_iff: "interlock_failed read cx name \<longleftrightarrow> \<not> interlock_satisfied read cx name"
  by (auto simp: interlock_failed_def interlock_satisfied_def split: option.splits outcome.splits)

lemma foldl_required_list:
  "foldl (\<lambda>req name. if name \<in> set req then req else req @ [name]) req names
     = req @ filter (\<lambda>n. n \<notin> set req) (first_occurrences names)"
  by (induction names rule: rev_induct) (auto simp: first_occurrences_def)

lemma required_list:
  "required_interlocks cx ch = ch_requires ch @
     (if hx_require_all cx
      then filter (\<lambda>n. n \<notin> set (ch_requires ch)) (first_occurrences (concat (map ch_requires (hx_channels cx)))) else [])"
  by (simp add: required_interlocks_def foldl_required_list)

lemma holds_operator:
  "interlock_holds il v \<Longrightarrow> il_operator il \<in> {''eq'', ''ne'', ''lt'', ''le'', ''gt'', ''ge''}"
  by (auto simp: interlock_holds_def Let_def split: if_splits)

lemma less_comparable: "reading_less a b = None \<longleftrightarrow> reading_less b a = None"
  by (cases a; cases b) (simp_all add: reading_less_def reading_num_def)

lemma holds_comparable:
  "interlock_holds il v \<Longrightarrow> il_operator il \<notin> {''eq'', ''ne''} \<Longrightarrow> reading_less v (il_value il) \<noteq> None"
  using less_comparable[of v "il_value il"]
  by (auto simp: interlock_holds_def Let_def split: if_splits option.splits)

text \<open>
  C35. Interlocks fail closed, and every failed one is reported. The answer is the list of exactly those
  required names that are not satisfied, in order: the channel's own, then, under the blanket policy, those
  that the other channels of the device name, each once. A name is satisfied only when the device declares
  it, its source can be read, and the reading passes the comparison. So a write has no failed interlock if
  and only if all of them are satisfied. An operator the code does not know never holds, nor does an
  ordering between values that cannot be ordered. Two doors stay open, against the comments of the code:
  the blanket policy sees only interlocks that some channel names, and the operator \<open>ne\<close> holds of a value
  it cannot be compared with.
\<close>

theorem interlocks_fail_closed:
  "failed_interlocks read cx ch =
     filter (\<lambda>name. \<not> interlock_satisfied read cx name)
       (ch_requires ch @
        (if hx_require_all cx
         then filter (\<lambda>n. n \<notin> set (ch_requires ch)) (first_occurrences (concat (map ch_requires (hx_channels cx)))) else []))
   \<and> (failed_interlocks read cx ch = [] \<longleftrightarrow>
      (\<forall>name \<in> set (ch_requires ch) \<union> (if hx_require_all cx then (\<Union>c \<in> set (hx_channels cx). set (ch_requires c)) else {}).
         \<exists>il v. context_interlock cx name = Some il \<and> read (il_channel il) = Ret v \<and> interlock_holds il v))
   \<and> (\<forall>il v. interlock_holds il v \<longrightarrow>
        il_operator il \<in> {''eq'', ''ne'', ''lt'', ''le'', ''gt'', ''ge''}
        \<and> (il_operator il \<notin> {''eq'', ''ne''} \<longrightarrow> reading_less v (il_value il) \<noteq> None))"
proof (intro conjI allI impI)
  show "failed_interlocks read cx ch =
     filter (\<lambda>name. \<not> interlock_satisfied read cx name)
       (ch_requires ch @
        (if hx_require_all cx
         then filter (\<lambda>n. n \<notin> set (ch_requires ch)) (first_occurrences (concat (map ch_requires (hx_channels cx)))) else []))"
    unfolding failed_interlocks_def required_list by (rule filter_cong) (simp_all only: failed_iff)
qed (simp_all only: no_failed_interlocks required_set holds_operator holds_comparable not_False_eq_True)

definition door :: interlock where
  "door = \<lparr>il_id = ''door'', il_channel = ''door_closed'', il_operator = ''eq'', il_value = RBool True\<rparr>"

definition two_doors :: hw_context where
  "two_doors = \<lparr>hx_interlocks = [door, door\<lparr>il_id := ''hood''\<rparr>, door\<lparr>il_id := ''lid'', il_channel := ''lid_closed''\<rparr>],
     hx_channels = [], hx_require_all = False\<rparr>"

theorem interlocks_fail_closed_witness:
  "failed_interlocks (\<lambda>c. if c = ''lid_closed'' then Ret (RBool True) else Raise ''Timeout'') two_doors
     \<lparr>ch_id = ''arm'', ch_requires = [''door'', ''lid'', ''hood'', ''fence'']\<rparr> = [''door'', ''hood'', ''fence'']"
  using interlocks_fail_closed [of "\<lambda>c. if c = ''lid_closed'' then Ret (RBool True) else Raise ''Timeout''" two_doors
      "\<lparr>ch_id = ''arm'', ch_requires = [''door'', ''lid'', ''hood'', ''fence'']\<rparr>"]
  by (simp add: two_doors_def door_def interlock_satisfied_def context_interlock_def interlock_holds_def reading_eq_def
      reading_num_def Let_def)

text \<open>The blanket policy does not see an interlock that no channel refers to.\<close>

lemma blanket_misses_unreferenced:
  "failed_interlocks (\<lambda>c. Ret (RBool False))
     \<lparr>hx_interlocks = [door], hx_channels = [\<lparr>ch_id = ''arm'', ch_requires = []\<rparr>], hx_require_all = True\<rparr>
     \<lparr>ch_id = ''arm'', ch_requires = []\<rparr> = []"
  by (simp add: failed_interlocks_def required_interlocks_def)

text \<open>\<open>ne\<close> holds of a reading that cannot be compared, and of no reading at all.\<close>

lemma missing_reading_satisfies_ne: "interlock_holds (door\<lparr>il_operator := ''ne''\<rparr>) RNone"
  by (simp add: interlock_holds_def door_def reading_eq_def reading_num_def Let_def)

section \<open>Batches\<close>

text \<open>A driver run over all commands, without the stop.\<close>

fun driver_run :: "('d \<Rightarrow> 'c \<Rightarrow> driver_reply \<times> 'd) \<Rightarrow> 'c list \<Rightarrow> 'd \<Rightarrow> driver_reply list \<times> 'd" where
  "driver_run write [] d = ([], d)"
| "driver_run write (c # cs) d =
     (case write d c of (r, d1) \<Rightarrow> (case driver_run write cs d1 of (rs, d2) \<Rightarrow> (r # rs, d2)))"

lemma batch_stopped: "batch_loop write True cs d = (replicate (length cs) not_attempted, d)"
  by (induction cs) auto

lemma batch_loop_run:
  "\<exists>n rs d'. n \<le> length cs \<and> driver_run write (take n cs) d = (rs, d') \<and> length rs = n
     \<and> batch_loop write False cs d = (map reply_outcome rs @ replicate (length cs - n) not_attempted, d')
     \<and> (\<forall>r \<in> set (butlast rs). wo_ok (reply_outcome r))
     \<and> (n < length cs \<longrightarrow> rs \<noteq> [] \<and> \<not> wo_ok (reply_outcome (last rs)))"
proof (induction cs arbitrary: d)
  case (Cons c cs)
  obtain r d1 where r: "write d c = (r, d1)" by fastforce
  show ?case
  proof (cases "wo_ok (reply_outcome r)")
    case True
    obtain n rs d' where n: "n \<le> length cs" "driver_run write (take n cs) d1 = (rs, d')" "length rs = n"
      "batch_loop write False cs d1 = (map reply_outcome rs @ replicate (length cs - n) not_attempted, d')"
      "\<forall>r \<in> set (butlast rs). wo_ok (reply_outcome r)" "n < length cs \<longrightarrow> rs \<noteq> [] \<and> \<not> wo_ok (reply_outcome (last rs))"
      using Cons.IH [of d1] by blast
    show ?thesis
      by (rule exI [of _ "Suc n"], rule exI [of _ "r # rs"], rule exI [of _ d']) (use n r True in auto)
  next
    case False
    show ?thesis
      by (rule exI [of _ 1], rule exI [of _ "[r]"], rule exI [of _ d1]) (use r False in \<open>simp add: batch_stopped\<close>)
  qed
qed simp

lemma severity_range: "0 \<le> effect_severity s \<and> effect_severity s \<le> 3"
  by (cases s) auto

lemma worst_loop_max:
  "rank = effect_severity worst \<or> rank = - 1 \<and> worst = EFF_NONE \<Longrightarrow>
     effect_severity (worst_loop worst rank ss) = Max (insert (effect_severity worst) (effect_severity ` set ss))"
proof (induction ss arbitrary: worst rank)
  case (Cons s ss)
  have ins: "Max (insert a (insert b X)) = (if b > a then Max (insert b X) else Max (insert a X))"
    if "finite X" for a b :: int and X
    using that by (cases "X = {}") (auto simp: max_def)
  show ?case
  proof (cases "effect_severity s > rank")
    case True
    then have "effect_severity s \<ge> effect_severity worst" using Cons.prems severity_range [of s] by auto
    then show ?thesis using True Cons.IH [of "effect_severity s" s] ins [of "effect_severity ` set ss"]
      by (cases "effect_severity s = effect_severity worst") auto
  next
    case False
    then have "rank = effect_severity worst" using Cons.prems severity_range [of s] by auto
    then show ?thesis using False Cons.IH [of rank worst] ins [of "effect_severity ` set ss"] by auto
  qed
qed simp

fun recognised :: "effect_state \<Rightarrow> bool" where
  "recognised (EFF_OTHER text) = False"
| "recognised _ = True"

lemma worst_severity:
  "effect_severity (worst_side_effect_state ss) = Max (insert 0 (effect_severity ` set ss))"
  using worst_loop_max [of "- 1" EFF_NONE ss] by (simp add: worst_side_effect_state_def)

lemma worst_loop_mem: "worst_loop worst rank ss \<in> insert worst (set ss)"
proof (induction ss arbitrary: worst rank)
  case (Cons s ss)
  show ?case using Cons.IH [of s "effect_severity s"] Cons.IH [of worst rank] by auto
qed simp

lemma worst_none: "worst_side_effect_state ss = EFF_NONE \<longleftrightarrow> (\<forall>s \<in> set ss. s = EFF_NONE)"
proof -
  have none: "s = EFF_NONE \<longleftrightarrow> effect_severity s \<le> 0" for s by (cases s) auto
  show ?thesis unfolding none worst_severity by simp
qed

lemma worst_unknown:
  "effect_severity (worst_side_effect_state ss) = 3 \<longleftrightarrow> (\<exists>s \<in> set ss. effect_severity s = 3)"
proof -
  let ?m = "Max (insert 0 (effect_severity ` set ss))"
  have "?m = 3 \<longleftrightarrow> 3 \<in> effect_severity ` set ss"
  proof
    assume "?m = 3"
    then show "3 \<in> effect_severity ` set ss" using Max_in [of "insert 0 (effect_severity ` set ss)"] by auto
  next
    assume "3 \<in> effect_severity ` set ss"
    then have "?m \<ge> 3" by (intro Max_ge) auto
    moreover have "?m \<le> 3" using severity_range by (intro Max.boundedI) auto
    ultimately show "?m = 3" by simp
  qed
  then show ?thesis unfolding worst_severity by (auto simp: image_iff intro: sym)
qed

lemma worst_recognised:
  assumes "\<forall>s \<in> set ss. recognised s"
  shows "worst_side_effect_state ss = EFF_UNKNOWN \<longleftrightarrow> EFF_UNKNOWN \<in> set ss"
proof -
  have unk: "recognised s \<Longrightarrow> s = EFF_UNKNOWN \<longleftrightarrow> effect_severity s = 3" for s by (cases s) auto
  have "recognised (worst_side_effect_state ss)"
    using worst_loop_mem [of EFF_NONE "- 1" ss] assms by (auto simp: worst_side_effect_state_def)
  then show ?thesis using unk worst_unknown [of ss] assms by metis
qed

text \<open>
  A sequential batch stops at its first failure and hides no effect. Some number \<open>n\<close> of commands
  reaches the driver, in order, and the driver is left as those \<open>n\<close> leave it; all but the last of them
  succeed, and if commands remain the last one failed; the rest are reported as not attempted. The
  batch is ok exactly if all commands were written successfully; its effect is none exactly if
  no outcome has an effect; and when the driver's verdicts are among the four it may give, it is
  unknown exactly if some outcome is unknown, and partial if the batch failed with known effects.
\<close>

theorem sequential_batch_correct:
  assumes "execute_sequential_batch write cs d = (b, d')"
  shows "\<exists>n rs. n \<le> length cs \<and> driver_run write (take n cs) d = (rs, d')
     \<and> bo_outcomes b = map reply_outcome rs @ replicate (length cs - n) not_attempted
     \<and> (\<forall>r \<in> set (butlast rs). wo_ok (reply_outcome r))
     \<and> (n < length cs \<longrightarrow> rs \<noteq> [] \<and> \<not> wo_ok (reply_outcome (last rs)))
     \<and> (bo_ok b \<longleftrightarrow> n = length cs \<and> (\<forall>r \<in> set rs. wo_ok (reply_outcome r)))
     \<and> ((\<forall>r \<in> set rs. recognised (wo_effect (reply_outcome r))) \<longrightarrow>
          (bo_effect b = EFF_UNKNOWN \<longleftrightarrow> (\<exists>r \<in> set rs. wo_effect (reply_outcome r) = EFF_UNKNOWN)))
     \<and> (bo_effect b = EFF_NONE \<longleftrightarrow> (\<forall>r \<in> set rs. wo_effect (reply_outcome r) = EFF_NONE))
     \<and> (\<not> bo_ok b \<longrightarrow> bo_effect b \<in> {EFF_NONE, EFF_PARTIAL, EFF_UNKNOWN})"
proof -
  obtain n rs d1 where n: "n \<le> length cs" "driver_run write (take n cs) d = (rs, d1)" "length rs = n"
    "batch_loop write False cs d = (map reply_outcome rs @ replicate (length cs - n) not_attempted, d1)"
    "\<forall>r \<in> set (butlast rs). wo_ok (reply_outcome r)" "n < length cs \<longrightarrow> rs \<noteq> [] \<and> \<not> wo_ok (reply_outcome (last rs))"
    using batch_loop_run [of cs "write" d] by (elim exE conjE) (rule that)
  define os where "os = map reply_outcome rs @ replicate (length cs - n) not_attempted"
  define w where "w = worst_side_effect_state (map wo_effect os)"
  have na: "\<not> wo_ok not_attempted" "wo_effect not_attempted = EFF_NONE" by (simp_all add: not_attempted_def)
  have b: "execute_sequential_batch write cs d
     = (\<lparr>bo_ok = (\<forall>x \<in> set os. wo_ok x), bo_outcomes = os,
         bo_effect = (if \<not> (\<forall>x \<in> set os. wo_ok x) \<and> w \<noteq> EFF_NONE \<and> w \<noteq> EFF_UNKNOWN then EFF_PARTIAL else w)\<rparr>, d1)"
    unfolding execute_sequential_batch_def n(4) os_def w_def by (simp add: Let_def)
  have d': "d' = d1" and os: "bo_outcomes b = os" and ok: "bo_ok b = (\<forall>x \<in> set os. wo_ok x)"
    and eff: "bo_effect b = (if \<not> bo_ok b \<and> w \<noteq> EFF_NONE \<and> w \<noteq> EFF_UNKNOWN then EFF_PARTIAL else w)"
    using assms unfolding b by auto
  have unk: "w = EFF_UNKNOWN \<longleftrightarrow> (\<exists>r \<in> set rs. wo_effect (reply_outcome r) = EFF_UNKNOWN)"
    if "\<forall>r \<in> set rs. recognised (wo_effect (reply_outcome r))"
  proof -
    have "\<forall>s \<in> set (map wo_effect os). recognised s" using that na by (auto simp: os_def)
    moreover have "EFF_UNKNOWN \<in> set (map wo_effect os) \<longleftrightarrow> (\<exists>r \<in> set rs. wo_effect (reply_outcome r) = EFF_UNKNOWN)"
      using na by (auto simp: os_def image_iff intro: sym)
    ultimately show ?thesis unfolding w_def using worst_recognised by metis
  qed
  have non: "w = EFF_NONE \<longleftrightarrow> (\<forall>r \<in> set rs. wo_effect (reply_outcome r) = EFF_NONE)"
    using na unfolding w_def worst_none by (auto simp: os_def)
  have all: "bo_ok b \<longleftrightarrow> n = length cs \<and> (\<forall>r \<in> set rs. wo_ok (reply_outcome r))"
  proof -
    have "set os = reply_outcome ` set rs \<union> (if n = length cs then {} else {not_attempted})"
      using n(1) by (simp add: os_def set_replicate_conv_if)
    then show ?thesis unfolding ok using na(1) by simp
  qed
  have eff': "(bo_effect b = EFF_UNKNOWN) = (w = EFF_UNKNOWN)" "(bo_effect b = EFF_NONE) = (w = EFF_NONE)"
    "\<not> bo_ok b \<longrightarrow> bo_effect b \<in> {EFF_NONE, EFF_PARTIAL, EFF_UNKNOWN}"
    unfolding eff by (cases w; simp)+
  have unk': "(\<forall>r \<in> set rs. recognised (wo_effect (reply_outcome r))) \<longrightarrow>
      (bo_effect b = EFF_UNKNOWN \<longleftrightarrow> (\<exists>r \<in> set rs. wo_effect (reply_outcome r) = EFF_UNKNOWN))"
    unfolding eff'(1) using unk by (rule impI)
  show ?thesis
    by (rule exI [of _ n], rule exI [of _ rs], intro conjI)
       (rule n(1), unfold d', rule n(2), unfold os os_def, rule refl, rule n(5), rule n(6), rule all, rule unk',
        unfold eff'(2), rule non, rule eff'(3))
qed

definition flaky :: "nat \<Rightarrow> string \<Rightarrow> driver_reply \<times> nat" where
  "flaky k c = (if c = ''bad'' then Refused ''limit'' ''out of range''
                else Wrote \<lparr>wo_ok = True, wo_effect = EFF_COMMITTED, wo_code = [], wo_error = []\<rparr>, k + 1)"

theorem sequential_batch_correct_witness:
  "snd (execute_sequential_batch flaky [''a'', ''bad'', ''c''] 0) = 2
   \<and> bo_effect (fst (execute_sequential_batch flaky [''a'', ''bad'', ''c''] 0)) \<in> {EFF_NONE, EFF_PARTIAL, EFF_UNKNOWN}"
proof -
  let ?p = "execute_sequential_batch flaky [''a'', ''bad'', ''c''] 0"
  have "snd ?p = 2 \<and> \<not> bo_ok (fst ?p)"
    by (simp add: execute_sequential_batch_def flaky_def reply_outcome_def not_attempted_def Let_def)
  then show ?thesis using sequential_batch_correct [OF surjective_pairing [of ?p]] by blast
qed

text \<open>A verdict outside the four, ranked like an unknown one and seen first, hides an unknown effect.\<close>

lemma unrecognised_hides_unknown:
  "bo_effect (fst (execute_sequential_batch
      (\<lambda>k c. (if k = 0 then Wrote \<lparr>wo_ok = True, wo_effect = EFF_OTHER ''queued'', wo_code = [], wo_error = []\<rparr>
             else Broke ''OSError'', Suc k)) [''a'', ''b''] 0)) = EFF_PARTIAL"
  by (simp add: execute_sequential_batch_def reply_outcome_def worst_side_effect_state_def Let_def)

end
