(* ===== verification/Node_Permit.thy ===== *)
theory Node_Permit imports Tool_Execution begin

text \<open>
  \<open>hardware/lhp/permit.py\<close>: execution permits, their wire form, the issuer and the verifier, and
  the write-mode gate of \<open>hardware/lhp/server.py\<close> that uses them.

  Ed25519 and SHA-256 are parameters: \<open>digest\<close> of a canonical JSON object, \<open>sign\<close> of a payload with
  a key, and \<open>sig_ok\<close>, which is true if \<open>bytes.fromhex\<close> and \<open>verify\<close> raise neither of the exceptions
  the verifier catches. \<open>int\<close> and \<open>float\<close> of a text, and \<open>str\<close> of a value that is no text, are
  parameters, too. Clock readings and nonces are arguments.
\<close>

section \<open>The action a permit is for\<close>

record lhp_action =
  ac_method :: string
  ac_device :: string
  ac_commands :: "(string \<times> pyval) list option"
  ac_effect :: string
  ac_band :: string
  ac_mode :: string
  ac_frequency :: real
  ac_channels :: "string list"
  ac_targets :: "real dict"
  ac_waypoints :: "(real \<times> real dict) list"
  ac_lease :: real
  ac_comm_loss :: string

definition float_dict :: "real dict \<Rightarrow> pyval" where
  "float_dict d = PDict (map (\<lambda>(k, v). (k, PFloat v)) d)"

definition entry_if :: "bool \<Rightarrow> string \<Rightarrow> pyval \<Rightarrow> pyval dict" where
  "entry_if present k v = (if present then [(k, v)] else [])"

text \<open>The object that is hashed, its keys sorted at every level as \<open>sort_keys\<close> does.\<close>

definition action_fields :: "lhp_action \<Rightarrow> pyval dict" where
  "action_fields a =
     [(''method'', PStr (ac_method a)), (''device_id'', PStr (ac_device a))]
     @ (case ac_commands a of
          None \<Rightarrow> [] | Some cs \<Rightarrow> [(''commands'', PList (map (\<lambda>(c, v). PList [PStr c, v]) cs))])
     @ entry_if (ac_effect a \<noteq> []) ''effect'' (PStr (ac_effect a))
     @ entry_if (ac_band a \<noteq> []) ''envelope_band'' (PStr (ac_band a))
     @ entry_if (ac_mode a \<noteq> []) ''mode'' (PStr (ac_mode a))
     @ entry_if (ac_frequency a \<noteq> 0) ''frequency_hz'' (PFloat (ac_frequency a))
     @ entry_if (ac_channels a \<noteq> []) ''channels'' (PList (map PStr (ac_channels a)))
     @ entry_if (ac_targets a \<noteq> []) ''targets'' (float_dict (ac_targets a))
     @ entry_if (ac_waypoints a \<noteq> []) ''waypoints''
         (PList (map (\<lambda>(t, wp). PList [PFloat t, float_dict wp]) (ac_waypoints a)))
     @ entry_if (ac_lease a \<noteq> 0) ''lease_s'' (PFloat (ac_lease a))
     @ entry_if (ac_comm_loss a \<noteq> []) ''comm_loss_policy'' (PStr (ac_comm_loss a))"

definition action_object :: "lhp_action \<Rightarrow> pyval" where
  "action_object a = canonical (PDict (action_fields a))"

definition action_digest :: "(pyval \<Rightarrow> string) \<Rightarrow> lhp_action \<Rightarrow> string" where
  "action_digest digest a = digest (action_object a)"

section \<open>Permits\<close>

record permit =
  pm_v :: int
  pm_issuer :: string
  pm_key_id :: string
  pm_audience :: string
  pm_session :: string
  pm_workspace :: string
  pm_approval :: string
  pm_digest :: string
  pm_issued_at :: real
  pm_expires_at :: real
  pm_nonce :: string
  pm_max_uses :: int
  pm_signature :: string

definition permit_version :: int where
  "permit_version = 1"

definition permit_to_dict :: "permit \<Rightarrow> pyval dict" where
  "permit_to_dict p =
     [(''v'', PInt (pm_v p)), (''issuer'', PStr (pm_issuer p)), (''key_id'', PStr (pm_key_id p)),
      (''audience'', PStr (pm_audience p)), (''session_id'', PStr (pm_session p)),
      (''workspace'', PStr (pm_workspace p)), (''approval_id'', PStr (pm_approval p)),
      (''action_digest'', PStr (pm_digest p)), (''issued_at'', PFloat (pm_issued_at p)),
      (''expires_at'', PFloat (pm_expires_at p)), (''nonce'', PStr (pm_nonce p)),
      (''max_uses'', PInt (pm_max_uses p)), (''signature'', PStr (pm_signature p))]"

definition signable_payload :: "permit \<Rightarrow> pyval" where
  "signable_payload p = canonical (PDict (dict_pop ''signature'' (permit_to_dict p)))"

text \<open>\<open>int\<close>, \<open>float\<close> and \<open>str\<close> of a wire value; the texts of the exceptions are not modelled.\<close>

record conversions =
  cv_int :: "string \<Rightarrow> int option"
  cv_float :: "string \<Rightarrow> real option"
  cv_str :: "pyval \<Rightarrow> string"

definition py_int :: "conversions \<Rightarrow> pyval \<Rightarrow> int outcome" where
  "py_int cv v =
     (case v of
        PInt i \<Rightarrow> Ret i | PBool b \<Rightarrow> Ret (if b then 1 else 0)
      | PFloat x \<Rightarrow> Ret (if x < 0 then \<lceil>x\<rceil> else \<lfloor>x\<rfloor>)
      | PStr s \<Rightarrow> (case cv_int cv s of Some i \<Rightarrow> Ret i | None \<Rightarrow> Raise ''ValueError'')
      | _ \<Rightarrow> Raise ''TypeError'')"

definition py_float :: "conversions \<Rightarrow> pyval \<Rightarrow> real outcome" where
  "py_float cv v =
     (case v of
        PInt i \<Rightarrow> Ret (of_int i) | PBool b \<Rightarrow> Ret (if b then 1 else 0) | PFloat x \<Rightarrow> Ret x
      | PStr s \<Rightarrow> (case cv_float cv s of Some x \<Rightarrow> Ret x | None \<Rightarrow> Raise ''ValueError'')
      | _ \<Rightarrow> Raise ''TypeError'')"

definition py_str :: "conversions \<Rightarrow> pyval \<Rightarrow> string" where
  "py_str cv v = (case v of PStr s \<Rightarrow> s | _ \<Rightarrow> cv_str cv v)"

text \<open>\<open>data.get(key) or default\<close>.\<close>

definition get_or :: "pyval dict \<Rightarrow> string \<Rightarrow> pyval \<Rightarrow> pyval" where
  "get_or d k dflt = (case map_of d k of Some v \<Rightarrow> if py_truthy v then v else dflt | None \<Rightarrow> dflt)"

definition get_default :: "pyval dict \<Rightarrow> string \<Rightarrow> pyval \<Rightarrow> pyval" where
  "get_default d k dflt = (case map_of d k of Some v \<Rightarrow> v | None \<Rightarrow> dflt)"

text \<open>\<open>dict(value)\<close> of a mapping, \<open>d.update(e)\<close>, and a call that uses the result of one that may raise.\<close>

definition as_dict :: "pyval \<Rightarrow> pyval dict outcome" where
  "as_dict v = (case v of PDict d \<Rightarrow> Ret d | _ \<Rightarrow> Raise ''TypeError'')"

definition dict_merge :: "'v dict \<Rightarrow> 'v dict \<Rightarrow> 'v dict" where
  "dict_merge d e = fold (\<lambda>(k, v). dict_set k v) e d"

definition and_then :: "'a outcome \<Rightarrow> ('a \<Rightarrow> 'b outcome) \<Rightarrow> 'b outcome" where
  "and_then r f = (case r of Raise e \<Rightarrow> Raise e | Ret v \<Rightarrow> f v)"

definition permit_from_dict :: "conversions \<Rightarrow> pyval dict \<Rightarrow> permit outcome" where
  "permit_from_dict cv d =
     (let str = (\<lambda>k. py_str cv (get_or d k (PStr []))) in
      case py_int cv (get_or d ''v'' (PInt permit_version)) of Raise e \<Rightarrow> Raise e | Ret v \<Rightarrow>
      case py_float cv (get_or d ''issued_at'' (PFloat 0)) of Raise e \<Rightarrow> Raise e | Ret issued \<Rightarrow>
      case py_float cv (get_or d ''expires_at'' (PFloat 0)) of Raise e \<Rightarrow> Raise e | Ret expires \<Rightarrow>
      case py_int cv (get_or d ''max_uses'' (PInt 1)) of Raise e \<Rightarrow> Raise e | Ret uses \<Rightarrow>
        Ret \<lparr>pm_v = v, pm_issuer = str ''issuer'', pm_key_id = str ''key_id'', pm_audience = str ''audience'',
             pm_session = str ''session_id'', pm_workspace = str ''workspace'', pm_approval = str ''approval_id'',
             pm_digest = str ''action_digest'', pm_issued_at = issued, pm_expires_at = expires,
             pm_nonce = str ''nonce'', pm_max_uses = uses, pm_signature = str ''signature''\<rparr>)"

section \<open>The issuer\<close>

record issuer =
  is_label :: string
  is_key_id :: string
  is_ttl :: real

definition new_issuer :: "string \<Rightarrow> string \<Rightarrow> real \<Rightarrow> issuer" where
  "new_issuer key_id label ttl = \<lparr>is_label = label, is_key_id = key_id, is_ttl = min (max 1 ttl) 60\<rparr>"

definition issue_permit ::
  "(pyval \<Rightarrow> string) \<Rightarrow> issuer \<Rightarrow> real \<Rightarrow> string \<Rightarrow> string \<Rightarrow> string \<Rightarrow> string \<Rightarrow> string \<Rightarrow> string \<Rightarrow> permit" where
  "issue_permit sign i now nonce audience session workspace approval digest =
     (let p = \<lparr>pm_v = permit_version, pm_issuer = is_label i, pm_key_id = is_key_id i, pm_audience = audience,
               pm_session = session, pm_workspace = workspace, pm_approval = approval, pm_digest = digest,
               pm_issued_at = now, pm_expires_at = now + is_ttl i, pm_nonce = nonce, pm_max_uses = 1,
               pm_signature = []\<rparr>
      in p\<lparr>pm_signature := sign (signable_payload p)\<rparr>)"

section \<open>The verifier\<close>

record 'pub verifier =
  vf_trusted :: "'pub dict"
  vf_node :: string
  vf_boot :: real
  vf_skew :: real
  vf_seen :: "real dict"

definition max_nonce_cache :: nat where
  "max_nonce_cache = 4096"

definition new_verifier :: "'pub dict \<Rightarrow> string \<Rightarrow> real \<Rightarrow> real \<Rightarrow> 'pub verifier" where
  "new_verifier trusted node boot skew =
     \<lparr>vf_trusted = trusted, vf_node = node, vf_boot = boot, vf_skew = max 0 skew, vf_seen = []\<rparr>"

datatype rejection = AUDIENCE_MISMATCH | DIGEST_MISMATCH | PRE_BOOT | EXPIRED | INVALID_SIGNATURE | REPLAYED

fun rejection_code :: "rejection \<Rightarrow> string" where
  "rejection_code AUDIENCE_MISMATCH = ''permit_audience_mismatch''"
| "rejection_code DIGEST_MISMATCH = ''permit_digest_mismatch''"
| "rejection_code PRE_BOOT = ''permit_pre_boot''"
| "rejection_code EXPIRED = ''permit_expired''"
| "rejection_code INVALID_SIGNATURE = ''permit_invalid''"
| "rejection_code REPLAYED = ''permit_replayed''"

definition evict_expired :: "real \<Rightarrow> 'pub verifier \<Rightarrow> 'pub verifier" where
  "evict_expired now v = v\<lparr>vf_seen := dropWhile (\<lambda>(n, expiry). expiry < now - vf_skew v) (vf_seen v)\<rparr>"

definition remember_nonce :: "permit \<Rightarrow> 'pub verifier \<Rightarrow> 'pub verifier" where
  "remember_nonce p v =
     (let seen = dict_set (pm_nonce p) (pm_expires_at p) (vf_seen v)
      in v\<lparr>vf_seen := (if length seen > max_nonce_cache then tl seen else seen)\<rparr>)"

definition verify_permit ::
  "('pub \<Rightarrow> string \<Rightarrow> pyval \<Rightarrow> bool) \<Rightarrow> real \<Rightarrow> string \<Rightarrow> permit \<Rightarrow> 'pub verifier
     \<Rightarrow> rejection option \<times> 'pub verifier" where
  "verify_permit sig_ok now expected p v =
     (if pm_audience p \<noteq> vf_node v then (Some AUDIENCE_MISMATCH, v)
      else if pm_digest p \<noteq> expected then (Some DIGEST_MISMATCH, v)
      else if pm_issued_at p < vf_boot v - vf_skew v then (Some PRE_BOOT, v)
      else if now > pm_expires_at p + vf_skew v then (Some EXPIRED, v)
      else case map_of (vf_trusted v) (pm_key_id p) of
        None \<Rightarrow> (Some INVALID_SIGNATURE, v)
      | Some pub \<Rightarrow>
          if \<not> sig_ok pub (pm_signature p) (signable_payload p) then (Some INVALID_SIGNATURE, v)
          else let v1 = evict_expired now v
               in if pm_nonce p \<in> set (map fst (vf_seen v1)) then (Some REPLAYED, v1)
                  else (None, remember_nonce p v1))"

section \<open>The write-mode gate\<close>

datatype write_mode = PERMIT_REQUIRED | TRUSTED_V1 | OBSERVE_ONLY

text \<open>Why the gate refuses: the failure codes of the outcome it returns. All report no side effect.\<close>

datatype gate_refusal = WritesDisabled | PermitRequired | NoIssuerKeys | MalformedPermit | Rejected rejection

text \<open>A request's permit: absent, or a value that may not be a mapping, as decoded from the frame.\<close>

definition missing_permit :: "'pub verifier \<Rightarrow> gate_refusal" where
  "missing_permit v = (if vf_trusted v \<noteq> [] then PermitRequired else NoIssuerKeys)"

definition check_permit ::
  "conversions \<Rightarrow> ('pub \<Rightarrow> string \<Rightarrow> pyval \<Rightarrow> bool) \<Rightarrow> real \<Rightarrow> pyval dict \<Rightarrow> 'pub verifier option
     \<Rightarrow> gate_refusal option outcome \<times> 'pub verifier option" where
  "check_permit cv sig_ok now params vo =
     (case vo of
        None \<Rightarrow> (Ret (Some NoIssuerKeys), None)
      | Some v \<Rightarrow> (case map_of params ''permit'' of
          None \<Rightarrow> (Ret (Some (missing_permit v)), Some v)
        | Some PNone \<Rightarrow> (Ret (Some (missing_permit v)), Some v)
        | Some (PDict d) \<Rightarrow>
            (case permit_from_dict cv d of
               Raise e \<Rightarrow> (Ret (Some MalformedPermit), Some v)
             | Ret p \<Rightarrow>
                 (case verify_permit sig_ok now (pm_digest p) p v of
                    (Some r, v') \<Rightarrow> (Ret (Some (Rejected r)), Some v')
                  | (None, v') \<Rightarrow> (Ret None, Some v')))
        | Some _ \<Rightarrow> (Raise ''AttributeError'', Some v)))"

definition write_mode_gate ::
  "conversions \<Rightarrow> ('pub \<Rightarrow> string \<Rightarrow> pyval \<Rightarrow> bool) \<Rightarrow> write_mode \<Rightarrow> real \<Rightarrow> pyval dict \<Rightarrow> 'pub verifier option
     \<Rightarrow> gate_refusal option outcome \<times> 'pub verifier option" where
  "write_mode_gate cv sig_ok mode now params vo =
     (case mode of
        OBSERVE_ONLY \<Rightarrow> (Ret (Some WritesDisabled), vo)
      | PERMIT_REQUIRED \<Rightarrow> check_permit cv sig_ok now params vo
      | TRUSTED_V1 \<Rightarrow> (Ret None, vo))"

end
