(* ===== verification/Node_Writes.thy ===== *)
theory Node_Writes imports Node_Permit Hardware_Writes begin

text \<open>
  The write handlers of a node, \<open>hardware/lhp/server.py\<close>: \<open>_handle_write\<close>, \<open>_handle_write_batch\<close> and
  \<open>_write_precheck\<close>, with \<open>Envelope.contains\<close> and \<open>rate_wait_s\<close> of \<open>hardware/context.py\<close> and
  \<open>check_safety_policy\<close> and the command baseline of \<open>hardware/registry.py\<close>.

  A handler is split where it suspends: the checks, then the transport under the device's lock, then
  the record of what was accepted. The transport is a parameter: what it answers, what reading it
  attaches, and its state. What a check reads of the world (clocks, interlock channels, degradation)
  is an argument. Outcomes carry their codes; the texts of errors are left out.
\<close>

section \<open>Declarations\<close>

record envelope =
  en_declared :: bool
  en_min :: "real option"
  en_max :: "real option"
  en_rate :: "real option"
  en_quantum :: "real option"
  en_allowed :: "pyval list"

record node_channel =
  nc_id :: string
  nc_direction :: string
  nc_quantity :: string
  nc_envelope :: envelope
  nc_requires :: "string list"

record safety_policy =
  sp_max_velocity :: real
  sp_max_force :: real
  sp_require_interlock :: bool

record node_context =
  cx_device :: string
  cx_channels :: "node_channel list"
  cx_interlocks :: "interlock list"
  cx_safety :: "safety_policy option"

definition context_channel :: "node_context \<Rightarrow> string \<Rightarrow> node_channel option" where
  "context_channel cx c = find (\<lambda>ch. nc_id ch = c) (cx_channels cx)"

definition is_writable :: "node_channel \<Rightarrow> bool" where
  "is_writable ch \<longleftrightarrow> nc_direction ch \<in> {''write'', ''readwrite''}"

definition channel_view :: "node_channel \<Rightarrow> hw_channel" where
  "channel_view ch = \<lparr>ch_id = nc_id ch, ch_requires = nc_requires ch\<rparr>"

definition interlock_view :: "node_context \<Rightarrow> hw_context" where
  "interlock_view cx =
     \<lparr>hx_interlocks = cx_interlocks cx, hx_channels = map channel_view (cx_channels cx),
      hx_require_all = (case cx_safety cx of None \<Rightarrow> False | Some sp \<Rightarrow> sp_require_interlock sp)\<rparr>"

section \<open>Limits\<close>

definition as_numeric :: "conversions \<Rightarrow> pyval \<Rightarrow> real option" where
  "as_numeric cv v =
     (case v of PInt i \<Rightarrow> Some (of_int i) | PFloat x \<Rightarrow> Some x | PStr s \<Rightarrow> cv_float cv (py_strip s) | _ \<Rightarrow> None)"

text \<open>\<open>==\<close>: numbers and booleans compare by value.\<close>

definition wire_num :: "pyval \<Rightarrow> real option" where
  "wire_num v = (case v of PInt i \<Rightarrow> Some (of_int i) | PFloat x \<Rightarrow> Some x | PBool b \<Rightarrow> Some (if b then 1 else 0) | _ \<Rightarrow> None)"

definition wire_eq :: "pyval \<Rightarrow> pyval \<Rightarrow> bool" where
  "wire_eq a b = (case (wire_num a, wire_num b) of (Some x, Some y) \<Rightarrow> x = y | _ \<Rightarrow> a = b)"

definition is_numeric_envelope :: "envelope \<Rightarrow> bool" where
  "is_numeric_envelope en \<longleftrightarrow> en_min en \<noteq> None \<or> en_max en \<noteq> None \<or> en_rate en \<noteq> None \<or> en_quantum en \<noteq> None"

definition envelope_contains :: "conversions \<Rightarrow> envelope \<Rightarrow> real \<Rightarrow> pyval \<Rightarrow> bool" where
  "envelope_contains cv en margin v =
     (if \<not> en_declared en then False
      else if en_allowed en \<noteq> [] then \<exists>a \<in> set (en_allowed en). wire_eq v a
      else case as_numeric cv v of
        None \<Rightarrow> \<not> is_numeric_envelope en
      | Some x \<Rightarrow>
          (case en_min en of None \<Rightarrow> True | Some lo \<Rightarrow> \<not> x < lo + max 0 margin)
          \<and> (case en_max en of None \<Rightarrow> True | Some hi \<Rightarrow> \<not> x > hi - max 0 margin))"

definition rate_wait :: "envelope \<Rightarrow> real \<Rightarrow> real \<Rightarrow> real" where
  "rate_wait en delta elapsed =
     (case en_rate en of
        None \<Rightarrow> 0
      | Some r \<Rightarrow>
          if r \<le> 0 then 0 else if \<bar>delta\<bar> = 0 then 0
          else max 0 (\<bar>delta\<bar> / r - max 0 elapsed))"

text \<open>\<open>check_safety_policy\<close>: whether the write is allowed.\<close>

definition over_limit :: "conversions \<Rightarrow> real \<Rightarrow> pyval \<Rightarrow> bool" where
  "over_limit cv limit v \<longleftrightarrow> limit > 0 \<and> (case as_numeric cv v of None \<Rightarrow> False | Some x \<Rightarrow> \<bar>x\<bar> > limit)"

definition safety_allows :: "conversions \<Rightarrow> node_context \<Rightarrow> node_channel \<Rightarrow> pyval \<Rightarrow> bool" where
  "safety_allows cv cx ch v =
     (case cx_safety cx of
        None \<Rightarrow> True
      | Some sp \<Rightarrow>
          if nc_quantity ch \<in> {''angular_velocity'', ''velocity''} \<and> over_limit cv (sp_max_velocity sp) v then False
          else if nc_quantity ch \<in> {''force'', ''torque''} \<and> over_limit cv (sp_max_force sp) v then False
          else \<not> (sp_require_interlock sp \<and> cx_interlocks cx = []))"

section \<open>The node\<close>

type_synonym baseline = "((string \<times> string) \<times> (real \<times> real)) list"

record 'pub node =
  no_mode :: write_mode
  no_verifier :: "'pub verifier option"
  no_contexts :: "node_context dict"
  no_last :: baseline

text \<open>What a check reads: the wall clock, the monotonic clock, the interlock channels of a device, and
  whether a device is degraded.\<close>

record world =
  wd_time :: real
  wd_mono :: real
  wd_read :: "string \<Rightarrow> string \<Rightarrow> reading outcome"
  wd_degraded :: "string \<Rightarrow> bool"

definition refusal :: "string \<Rightarrow> write_outcome" where
  "refusal code = \<lparr>wo_ok = False, wo_effect = EFF_NONE, wo_code = code, wo_error = []\<rparr>"

fun gate_code :: "gate_refusal \<Rightarrow> string" where
  "gate_code WritesDisabled = ''writes_disabled''"
| "gate_code PermitRequired = ''permit_required''"
| "gate_code NoIssuerKeys = ''permit_required''"
| "gate_code MalformedPermit = ''permit_required''"
| "gate_code (Rejected r) = rejection_code r"

definition write_precheck ::
  "conversions \<Rightarrow> world \<Rightarrow> baseline \<Rightarrow> node_context \<Rightarrow> node_channel \<Rightarrow> pyval \<Rightarrow> write_outcome option" where
  "write_precheck cv w base cx ch v =
     (if \<not> is_writable ch then Some (refusal ''not_writable'')
      else if \<not> envelope_contains cv (nc_envelope ch) 0 v then Some (refusal ''safety_policy_denied'')
      else if failed_interlocks (wd_read w (cx_device cx)) (interlock_view cx) (channel_view ch) \<noteq> []
        then Some (refusal ''interlock_unsatisfied'')
      else if wd_degraded w (cx_device cx) then Some (refusal ''device_degraded'')
      else if (case (as_numeric cv v, map_of base (cx_device cx, nc_id ch)) of
                 (Some x, Some (previous, stamp)) \<Rightarrow> rate_wait (nc_envelope ch) (x - previous) (wd_mono w - stamp) > 0
               | _ \<Rightarrow> False) then Some (refusal ''rate_limited'')
      else if \<not> safety_allows cv cx ch v then Some (refusal ''safety_policy_denied'')
      else None)"

definition record_accepted :: "conversions \<Rightarrow> real \<Rightarrow> string \<Rightarrow> string \<Rightarrow> pyval \<Rightarrow> 'pub node \<Rightarrow> 'pub node" where
  "record_accepted cv stamp d c v n =
     (case as_numeric cv v of None \<Rightarrow> n | Some x \<Rightarrow> n\<lparr>no_last := dict_set (d, c) (x, stamp) (no_last n)\<rparr>)"

definition require_str :: "pyval dict \<Rightarrow> string \<Rightarrow> string option" where
  "require_str params k = (case map_of params k of Some (PStr s) \<Rightarrow> if s = [] then None else Some s | _ \<Rightarrow> None)"

text \<open>A reply: an error frame with its code, or the outcome.\<close>

datatype 'o reply = ErrorFrame string | Answer 'o

section \<open>One write\<close>

datatype write_start = Refuse "write_outcome reply" | Proceed string string pyval

text \<open>The handler up to the device's lock.\<close>

definition write_begin ::
  "conversions \<Rightarrow> ('pub \<Rightarrow> string \<Rightarrow> pyval \<Rightarrow> bool) \<Rightarrow> world \<Rightarrow> pyval dict \<Rightarrow> 'pub node \<Rightarrow> write_start \<times> 'pub node" where
  "write_begin cv sig_ok w params n =
     (case (require_str params ''device_id'', require_str params ''channel_id'', map_of params ''value'') of
        (Some d, Some c, Some v) \<Rightarrow>
          (case map_of (no_contexts n) d of
             None \<Rightarrow> (Refuse (ErrorFrame ''unknown_device''), n)
           | Some cx \<Rightarrow> (case context_channel cx c of
               None \<Rightarrow> (Refuse (ErrorFrame ''unknown_channel''), n)
             | Some ch \<Rightarrow> (case write_mode_gate cv sig_ok (no_mode n) (wd_time w) params (no_verifier n) of
                 (Raise e, vo) \<Rightarrow> (Refuse (ErrorFrame ''internal_error''), n\<lparr>no_verifier := vo\<rparr>)
               | (Ret (Some g), vo) \<Rightarrow> (Refuse (Answer (refusal (gate_code g))), n\<lparr>no_verifier := vo\<rparr>)
               | (Ret None, vo) \<Rightarrow>
                   (case write_precheck cv w (no_last n) cx ch v of
                      Some r \<Rightarrow> (Refuse (Answer r), n\<lparr>no_verifier := vo\<rparr>)
                    | None \<Rightarrow> (Proceed d c v, n\<lparr>no_verifier := vo\<rparr>)))))
      | _ \<Rightarrow> (Refuse (ErrorFrame ''bad_request''), n))"

text \<open>A transport's answer, with the identity (device, channel) of the reading it attaches, if any.\<close>

type_synonym node_answer = "driver_reply \<times> (string \<times> string) option"

text \<open>
  A transport: getting hold of it, which may raise (with a code), its write, and, if it is a
  \<open>BatchTransport\<close>, its batch write with the verdict and the outcomes, or the code of what it raises.
\<close>

record 'd transport =
  tr_open :: "string \<Rightarrow> 'd \<Rightarrow> string option \<times> 'd"
  tr_write :: "string \<Rightarrow> string \<Rightarrow> pyval \<Rightarrow> 'd \<Rightarrow> node_answer \<times> 'd"
  tr_batch :: "(string \<Rightarrow> (string \<times> pyval) list \<Rightarrow> 'd
                  \<Rightarrow> (string + bool \<times> (write_outcome \<times> (string \<times> string) option) list) \<times> 'd) option"

definition wrong_reading :: "string \<Rightarrow> string \<Rightarrow> (string \<times> string) option \<Rightarrow> bool" where
  "wrong_reading d c rb =
     (case rb of None \<Rightarrow> False | Some (d', c') \<Rightarrow> c' \<noteq> c \<or> d' \<noteq> [] \<and> d' \<noteq> d)"

text \<open>The rest of the handler, with the transport's answer and the clock when it is recorded.\<close>

definition write_finish ::
  "conversions \<Rightarrow> real \<Rightarrow> string \<Rightarrow> string \<Rightarrow> pyval \<Rightarrow> node_answer \<Rightarrow> 'pub node \<Rightarrow> write_outcome reply \<times> 'pub node" where
  "write_finish cv stamp d c v answer n =
     (case answer of
        (Wrote out, rb) \<Rightarrow>
          if wrong_reading d c rb then (ErrorFrame ''internal_error'', n)
          else (Answer out, if wo_ok out then record_accepted cv stamp d c v n else n)
      | (Refused code err, rb) \<Rightarrow> (ErrorFrame (if code = [] then ''transport_error'' else code), n)
      | (Broke e, rb) \<Rightarrow> (ErrorFrame ''internal_error'', n))"

definition handle_write ::
  "conversions \<Rightarrow> ('pub \<Rightarrow> string \<Rightarrow> pyval \<Rightarrow> bool) \<Rightarrow> 'd transport \<Rightarrow> world \<Rightarrow> real \<Rightarrow> pyval dict
     \<Rightarrow> 'pub node \<Rightarrow> 'd \<Rightarrow> write_outcome reply \<times> 'pub node \<times> 'd" where
  "handle_write cv sig_ok tr w stamp params n dev =
     (case write_begin cv sig_ok w params n of
        (Refuse r, n1) \<Rightarrow> (r, n1, dev)
      | (Proceed d c v, n1) \<Rightarrow>
          (case tr_open tr d dev of
             (Some code, dev1) \<Rightarrow> (ErrorFrame code, n1, dev1)
           | (None, dev1) \<Rightarrow>
               (case tr_write tr d c v dev1 of
                  (answer, dev2) \<Rightarrow> (case write_finish cv stamp d c v answer n1 of (r, n2) \<Rightarrow> (r, n2, dev2)))))"

section \<open>A batch\<close>

text \<open>\<open>_require_commands\<close>: a non-empty list of pairs of a channel and a value.\<close>

fun parse_commands :: "pyval list \<Rightarrow> (string \<times> pyval) list option" where
  "parse_commands [] = Some []"
| "parse_commands (PList [PStr c, v] # items) =
     (if c = [] then None else map_option (\<lambda>cs. (c, v) # cs) (parse_commands items))"
| "parse_commands (item # items) = None"

definition require_commands :: "pyval dict \<Rightarrow> (string \<times> pyval) list option" where
  "require_commands params =
     (case map_of params ''commands'' of
        Some (PList items) \<Rightarrow> if items = [] then None else parse_commands items
      | _ \<Rightarrow> None)"

definition batch_payload :: "bool \<Rightarrow> write_outcome list \<Rightarrow> batch_outcome" where
  "batch_payload ok outs =
     (let merged = worst_side_effect_state (map wo_effect outs)
      in \<lparr>bo_ok = ok, bo_outcomes = outs, bo_effect = (if \<not> ok \<and> merged = EFF_COMMITTED then EFF_PARTIAL else merged)\<rparr>)"

datatype batch_start = RefuseBatch "batch_outcome reply" | ProceedBatch string "(string \<times> pyval) list"

text \<open>
  The handler up to the lock. The checks are made one after another, the \<open>i\<close>th in the world
  \<open>ws i\<close>, all against the baseline before the batch.
\<close>

definition batch_verdicts ::
  "conversions \<Rightarrow> (nat \<Rightarrow> world) \<Rightarrow> baseline \<Rightarrow> node_context \<Rightarrow> (string \<times> pyval) list \<Rightarrow> write_outcome option list" where
  "batch_verdicts cv ws base cx cmds =
     map (\<lambda>(i, c, v). write_precheck cv (ws i) base cx (the (context_channel cx c)) v) (enumerate 0 cmds)"

definition aborted_outcome :: "write_outcome option \<Rightarrow> write_outcome" where
  "aborted_outcome verdict = (case verdict of Some r \<Rightarrow> r | None \<Rightarrow> refusal ''batch_aborted'')"

definition batch_begin ::
  "conversions \<Rightarrow> ('pub \<Rightarrow> string \<Rightarrow> pyval \<Rightarrow> bool) \<Rightarrow> real \<Rightarrow> (nat \<Rightarrow> world) \<Rightarrow> pyval dict \<Rightarrow> 'pub node \<Rightarrow> batch_start \<times> 'pub node" where
  "batch_begin cv sig_ok now ws params n =
     (case (require_str params ''device_id'', require_commands params) of
        (Some d, Some cmds) \<Rightarrow>
          (case map_of (no_contexts n) d of
             None \<Rightarrow> (RefuseBatch (ErrorFrame ''unknown_device''), n)
           | Some cx \<Rightarrow>
               if \<exists>cmd \<in> set cmds. context_channel cx (fst cmd) = None
               then (RefuseBatch (ErrorFrame ''unknown_channel''), n)
               else (case write_mode_gate cv sig_ok (no_mode n) now params (no_verifier n) of
                 (Raise e, vo) \<Rightarrow> (RefuseBatch (ErrorFrame ''internal_error''), n\<lparr>no_verifier := vo\<rparr>)
               | (Ret (Some g), vo) \<Rightarrow>
                   (RefuseBatch (Answer (batch_payload False (map (\<lambda>_. refusal (gate_code g)) cmds))), n\<lparr>no_verifier := vo\<rparr>)
               | (Ret None, vo) \<Rightarrow>
                   let verdicts = batch_verdicts cv ws (no_last n) cx cmds
                   in if \<exists>v \<in> set verdicts. v \<noteq> None
                      then (RefuseBatch (Answer (batch_payload False
                              (map aborted_outcome verdicts))), n\<lparr>no_verifier := vo\<rparr>)
                      else (ProceedBatch d cmds, n\<lparr>no_verifier := vo\<rparr>)))
      | _ \<Rightarrow> (RefuseBatch (ErrorFrame ''bad_request''), n))"

text \<open>
  A transport without batches gets the commands one by one. A refusal stops the batch and is an
  outcome; any other exception leaves the handler (\<open>None\<close>), and with it the outcomes so far.
\<close>

fun drive_each ::
  "(string \<Rightarrow> pyval \<Rightarrow> 'd \<Rightarrow> node_answer \<times> 'd) \<Rightarrow> (string \<times> pyval) list \<Rightarrow> 'd
     \<Rightarrow> (write_outcome \<times> (string \<times> string) option) list option \<times> 'd" where
  "drive_each drive [] dev = (Some [], dev)"
| "drive_each drive ((c, v) # cmds) dev =
     (case drive c v dev of
        ((Broke e, rb), dev1) \<Rightarrow> (None, dev1)
      | ((Refused code err, rb), dev1) \<Rightarrow>
          (Some ((refusal code, None) # map (\<lambda>_. (refusal ''batch_aborted'', None)) cmds), dev1)
      | ((Wrote out, rb), dev1) \<Rightarrow>
          if wo_ok out
          then (case drive_each drive cmds dev1 of (os, dev2) \<Rightarrow> (map_option (\<lambda>os. (out, rb) # os) os, dev2))
          else (Some ((out, rb) # map (\<lambda>_. (refusal ''batch_aborted'', None)) cmds), dev1))"

text \<open>Checking and recording the outcomes, in order, the \<open>i\<close>th at the clock \<open>stamps i\<close>: a foreign reading
  ends the loop with an error.\<close>

fun record_outcomes ::
  "conversions \<Rightarrow> (nat \<Rightarrow> real) \<Rightarrow> string \<Rightarrow> (string \<times> pyval) list \<Rightarrow> (write_outcome \<times> (string \<times> string) option) list
     \<Rightarrow> 'pub node \<Rightarrow> bool \<times> 'pub node" where
  "record_outcomes cv stamps d ((c, v) # cmds) ((out, rb) # os) n =
     (if wrong_reading d c rb then (False, n)
      else record_outcomes cv (\<lambda>i. stamps (Suc i)) d cmds os (if wo_ok out then record_accepted cv (stamps 0) d c v n else n))"
| "record_outcomes cv stamps d _ _ n = (True, n)"

definition drive_batch ::
  "'d transport \<Rightarrow> string \<Rightarrow> (string \<times> pyval) list \<Rightarrow> 'd
     \<Rightarrow> (string + bool \<times> (write_outcome \<times> (string \<times> string) option) list) \<times> 'd" where
  "drive_batch tr d cmds dev =
     (case tr_open tr d dev of
        (Some code, dev1) \<Rightarrow> (Inl code, dev1)
      | (None, dev1) \<Rightarrow>
          (case tr_batch tr of
             Some write_batch \<Rightarrow> write_batch d cmds dev1
           | None \<Rightarrow>
               (case drive_each (tr_write tr d) cmds dev1 of
                  (None, dev2) \<Rightarrow> (Inl ''internal_error'', dev2)
                | (Some os, dev2) \<Rightarrow> (Inr (\<forall>a \<in> set os. wo_ok (fst a), os), dev2))))"

definition handle_write_batch ::
  "conversions \<Rightarrow> ('pub \<Rightarrow> string \<Rightarrow> pyval \<Rightarrow> bool) \<Rightarrow> 'd transport \<Rightarrow> real \<Rightarrow> (nat \<Rightarrow> world) \<Rightarrow> (nat \<Rightarrow> real) \<Rightarrow> pyval dict
     \<Rightarrow> 'pub node \<Rightarrow> 'd \<Rightarrow> batch_outcome reply \<times> 'pub node \<times> 'd" where
  "handle_write_batch cv sig_ok tr now ws stamps params n dev =
     (case batch_begin cv sig_ok now ws params n of
        (RefuseBatch r, n1) \<Rightarrow> (r, n1, dev)
      | (ProceedBatch d cmds, n1) \<Rightarrow>
          (case drive_batch tr d cmds dev of
             (Inl e, dev1) \<Rightarrow> (ErrorFrame e, n1, dev1)
           | (Inr (ok, os), dev1) \<Rightarrow>
               (case record_outcomes cv stamps d cmds os n1 of
                  (False, n2) \<Rightarrow> (ErrorFrame ''internal_error'', n2, dev1)
                | (True, n2) \<Rightarrow> (Answer (batch_payload ok (map fst os)), n2, dev1))))"

end
