(* ===== verification/Node_Permit_Props.thy ===== *)
theory Node_Permit_Props imports Node_Permit begin

text \<open>
  What a permit guarantees: the wire form keeps it, an accepted permit is authentic and fresh, and it is
  accepted again only after the cache of nonces has overflowed.
\<close>

section \<open>Wire form\<close>

lemma permit_roundtrip:
  assumes "pm_v p \<noteq> 0" "pm_max_uses p \<noteq> 0"
  shows "permit_from_dict cv (permit_to_dict p) = Ret p"
  using assms
  by (simp add: permit_from_dict_def permit_to_dict_def get_or_def py_truthy_def py_int_def py_float_def py_str_def Let_def)

section \<open>Verification\<close>

definition authentic :: "('pub \<Rightarrow> string \<Rightarrow> pyval \<Rightarrow> bool) \<Rightarrow> real \<Rightarrow> string \<Rightarrow> permit \<Rightarrow> 'pub verifier \<Rightarrow> bool" where
  "authentic sig_ok now expected p v \<longleftrightarrow>
     pm_audience p = vf_node v \<and> pm_digest p = expected
     \<and> vf_boot v - vf_skew v \<le> pm_issued_at p \<and> now \<le> pm_expires_at p + vf_skew v
     \<and> (\<exists>pub. map_of (vf_trusted v) (pm_key_id p) = Some pub \<and> sig_ok pub (pm_signature p) (signable_payload p))"

lemma verify_accepts:
  "fst (verify_permit sig_ok now expected p v) = None \<longleftrightarrow>
     authentic sig_ok now expected p v \<and> pm_nonce p \<notin> set (map fst (vf_seen (evict_expired now v)))"
  by (auto simp: verify_permit_def authentic_def Let_def split: option.splits)

lemma verify_state:
  "snd (verify_permit sig_ok now expected p v) =
     (if authentic sig_ok now expected p v
      then if pm_nonce p \<in> set (map fst (vf_seen (evict_expired now v))) then evict_expired now v
           else remember_nonce p (evict_expired now v)
      else v)"
  by (auto simp: verify_permit_def authentic_def Let_def split: option.splits)

lemma verifier_fields [simp]:
  "vf_node (evict_expired now v) = vf_node v" "vf_skew (evict_expired now v) = vf_skew v"
  "vf_boot (evict_expired now v) = vf_boot v" "vf_trusted (evict_expired now v) = vf_trusted v"
  "vf_node (remember_nonce p v) = vf_node v" "vf_skew (remember_nonce p v) = vf_skew v"
  "vf_boot (remember_nonce p v) = vf_boot v" "vf_trusted (remember_nonce p v) = vf_trusted v"
  by (simp_all add: evict_expired_def remember_nonce_def Let_def)

lemma verify_fields:
  "vf_node (snd (verify_permit sig_ok now expected p v)) = vf_node v"
  "vf_skew (snd (verify_permit sig_ok now expected p v)) = vf_skew v"
  "vf_boot (snd (verify_permit sig_ok now expected p v)) = vf_boot v"
  "vf_trusted (snd (verify_permit sig_ok now expected p v)) = vf_trusted v"
  by (simp_all add: verify_state)

section \<open>Runs of the verifier\<close>

text \<open>One request: the clock, the digest the caller expects, the permit.\<close>

type_synonym permit_check = "real \<times> string \<times> permit"

fun verify_run ::
  "('pub \<Rightarrow> string \<Rightarrow> pyval \<Rightarrow> bool) \<Rightarrow> permit_check list \<Rightarrow> 'pub verifier \<Rightarrow> bool list \<times> 'pub verifier" where
  "verify_run sig_ok [] v = ([], v)"
| "verify_run sig_ok ((now, expected, p) # cs) v =
     (case verify_permit sig_ok now expected p v of
        (r, v1) \<Rightarrow> (case verify_run sig_ok cs v1 of (rs, v2) \<Rightarrow> ((r = None) # rs, v2)))"

definition accepted :: "bool list \<Rightarrow> nat" where
  "accepted rs = length (filter id rs)"

lemma verify_run_Cons:
  "verify_run sig_ok ((now, expected, p) # cs) v =
     ((fst (verify_permit sig_ok now expected p v) = None)
        # fst (verify_run sig_ok cs (snd (verify_permit sig_ok now expected p v))),
      snd (verify_run sig_ok cs (snd (verify_permit sig_ok now expected p v))))"
  by (simp add: split_def)

lemma verify_run_append:
  "verify_run sig_ok (xs @ ys) v =
     (fst (verify_run sig_ok xs v) @ fst (verify_run sig_ok ys (snd (verify_run sig_ok xs v))),
      snd (verify_run sig_ok ys (snd (verify_run sig_ok xs v))))"
  by (induction xs arbitrary: v) (auto simp: verify_run_Cons simp del: verify_run.simps(2))

lemma verify_run_fields:
  "length (fst (verify_run sig_ok cs v)) = length cs"
  "vf_node (snd (verify_run sig_ok cs v)) = vf_node v" "vf_skew (snd (verify_run sig_ok cs v)) = vf_skew v"
  "vf_boot (snd (verify_run sig_ok cs v)) = vf_boot v" "vf_trusted (snd (verify_run sig_ok cs v)) = vf_trusted v"
  by (induction cs arbitrary: v) (auto simp: verify_run_Cons verify_fields simp del: verify_run.simps(2))

text \<open>Where the nonce of an accepted permit is, \<open>c\<close> acceptances later at time \<open>t\<close>.\<close>

definition remembered :: "permit \<Rightarrow> nat \<Rightarrow> real \<Rightarrow> 'pub verifier \<Rightarrow> bool" where
  "remembered p c t v \<longleftrightarrow>
     pm_expires_at p < t - vf_skew v \<or> max_nonce_cache \<le> c
     \<or> (\<exists>pre post. vf_seen v = pre @ (pm_nonce p, pm_expires_at p) # post \<and> length post \<le> c)"

lemma remembered_at:
  "vf_seen v = pre @ (pm_nonce p, pm_expires_at p) # post \<Longrightarrow> length post \<le> c \<Longrightarrow> remembered p c t v"
  unfolding remembered_def by blast

lemma dropWhile_keeps:
  "xs = pre @ x # post \<Longrightarrow> \<not> P x \<Longrightarrow> \<exists>pre'. dropWhile P xs = pre' @ x # post"
  by (induction pre arbitrary: xs) auto

lemma dict_set_fresh: "k \<notin> set (map fst d) \<Longrightarrow> dict_set k v d = d @ [(k, v)]"
  by (induction d) (auto simp: dict_set_def)

definition still_seen :: "real \<Rightarrow> 'pub verifier \<Rightarrow> real dict" where
  "still_seen now v = dropWhile (\<lambda>(n, expiry). expiry < now - vf_skew v) (vf_seen v)"

lemma still_seen_keeps:
  "vf_seen v = pre @ (n, e) # post \<Longrightarrow> \<not> e < now - vf_skew v \<Longrightarrow> \<exists>pre'. still_seen now v = pre' @ (n, e) # post"
  unfolding still_seen_def by (rule dropWhile_keeps) simp_all

text \<open>What one check does to the remembered nonces.\<close>

lemma verify_seen:
  "vf_seen (snd (verify_permit sig_ok now expected p v)) =
     (if fst (verify_permit sig_ok now expected p v) = None
      then (let s' = still_seen now v @ [(pm_nonce p, pm_expires_at p)] in if length s' > max_nonce_cache then tl s' else s')
      else if authentic sig_ok now expected p v then still_seen now v else vf_seen v)"
  by (auto simp: still_seen_def verify_accepts verify_state remember_nonce_def evict_expired_def dict_set_fresh Let_def)

lemma remembered_start:
  "fst (verify_permit sig_ok now expected p v) = None \<Longrightarrow>
     remembered p 0 now (snd (verify_permit sig_ok now expected p v))"
  unfolding remembered_def verify_seen
  by (cases "still_seen now v")
    (auto simp: max_nonce_cache_def Let_def)

lemma nonces_remembered_step:
  assumes "remembered p c t v" "t \<le> now" and r_def: "r = verify_permit sig_ok now expected q v"
  shows "remembered p (c + (if fst r = None then 1 else 0)) now (snd r)"
proof -
  let ?s = "still_seen now v"
  have skew: "vf_skew (snd r) = vf_skew v" by (simp add: r_def verify_fields)
  consider "pm_expires_at p < now - vf_skew v \<or> max_nonce_cache \<le> c"
    | pre post where "vf_seen v = pre @ (pm_nonce p, pm_expires_at p) # post" "length post \<le> c"
      "\<not> pm_expires_at p < now - vf_skew v"
    using assms(1,2) unfolding remembered_def by fastforce
  then show ?thesis
  proof cases
    case 1
    then show ?thesis using skew by (auto simp: remembered_def)
  next
    case 2
    obtain pre' where s: "?s = pre' @ (pm_nonce p, pm_expires_at p) # post"
      using still_seen_keeps [OF 2(1,3)] by blast
    show ?thesis
    proof (cases "fst r = None")
      case True
      have seen: "vf_seen (snd r) = (let s' = pre' @ (pm_nonce p, pm_expires_at p) # post @ [(pm_nonce q, pm_expires_at q)]
          in if length s' > max_nonce_cache then tl s' else s')"
        using True s by (simp add: r_def verify_seen)
      show ?thesis
      proof (cases pre')
        case Nil
        show ?thesis
        proof (cases "max_nonce_cache \<le> Suc (length post)")
          case True
          then show ?thesis using 2(2) \<open>fst r = None\<close> by (simp add: remembered_def)
        next
          case False
          then have "vf_seen (snd r) = [] @ (pm_nonce p, pm_expires_at p) # post @ [(pm_nonce q, pm_expires_at q)]"
            using seen Nil by (simp add: Let_def)
          then show ?thesis by (rule remembered_at) (use 2(2) True in simp)
        qed
      next
        case (Cons x xs)
        then have "\<exists>ys. vf_seen (snd r) = ys @ (pm_nonce p, pm_expires_at p) # post @ [(pm_nonce q, pm_expires_at q)]"
          using seen by (cases "length (x # xs @ post) + 2 > max_nonce_cache") (auto simp: Let_def)
        then show ?thesis using 2(2) True by (auto intro!: remembered_at)
      qed
    next
      case False
      then have "vf_seen (snd r) = ?s \<or> vf_seen (snd r) = vf_seen v" by (auto simp: r_def verify_seen)
      then show ?thesis using False s 2(1,2) unfolding remembered_def by auto
    qed
  qed
qed

lemma not_again:
  assumes "remembered p c t v" "t \<le> now" "fst (verify_permit sig_ok now expected p v) = None"
  shows "max_nonce_cache \<le> c"
proof (rule ccontr)
  assume c: "\<not> max_nonce_cache \<le> c"
  have a: "authentic sig_ok now expected p v" "pm_nonce p \<notin> fst ` set (vf_seen (evict_expired now v))"
    using assms(3) by (simp_all add: verify_accepts)
  then have fresh: "\<not> pm_expires_at p < now - vf_skew v" by (simp add: authentic_def)
  then obtain pre post where "vf_seen v = pre @ (pm_nonce p, pm_expires_at p) # post"
    using assms(1,2) c unfolding remembered_def by auto
  then obtain pre' where "still_seen now v = pre' @ (pm_nonce p, pm_expires_at p) # post"
    using still_seen_keeps fresh by blast
  then show False using a(2) by (simp add: evict_expired_def still_seen_def)
qed

section \<open>Single use\<close>

lemma verify_run_nth:
  assumes "k < length cs" "cs ! k = (now, expected, p)"
  shows "fst (verify_run sig_ok cs v) ! k
      = (fst (verify_permit sig_ok now expected p (snd (verify_run sig_ok (take k cs) v))) = None)"
    and "snd (verify_run sig_ok (take (Suc k) cs) v)
      = snd (verify_permit sig_ok now expected p (snd (verify_run sig_ok (take k cs) v)))"
proof -
  have cs: "cs = take k cs @ (now, expected, p) # drop (Suc k) cs" using id_take_nth_drop [OF assms(1)] assms(2) by simp
  have "fst (verify_run sig_ok cs v) ! k
      = fst (verify_run sig_ok (take k cs @ (now, expected, p) # drop (Suc k) cs) v) ! k"
    using cs by (rule arg_cong [where f = "\<lambda>cs. fst (verify_run sig_ok cs v) ! k"])
  also have "\<dots> = (fst (verify_permit sig_ok now expected p (snd (verify_run sig_ok (take k cs) v))) = None)"
    using assms(1) by (simp only: verify_run_append verify_run_Cons fst_conv) (simp add: nth_append verify_run_fields)
  finally show "fst (verify_run sig_ok cs v) ! k
      = (fst (verify_permit sig_ok now expected p (snd (verify_run sig_ok (take k cs) v))) = None)" .
  show "snd (verify_run sig_ok (take (Suc k) cs) v)
      = snd (verify_permit sig_ok now expected p (snd (verify_run sig_ok (take k cs) v)))"
    using assms by (simp add: take_Suc_conv_app_nth verify_run_append verify_run_Cons del: verify_run.simps(2))
qed

lemma nonces_remembered_run:
  assumes "sorted (map fst cs)" "i < length cs" "cs ! i = (t, d, p)" "fst (verify_run sig_ok cs v) ! i"
    and "i + m < length cs"
  shows "remembered p (card {k. i < k \<and> k \<le> i + m \<and> fst (verify_run sig_ok cs v) ! k}) (fst (cs ! (i + m)))
    (snd (verify_run sig_ok (take (Suc (i + m)) cs) v))"
  using assms(5)
proof (induction m)
  case 0
  have none: "{k. i < k \<and> k \<le> i + 0 \<and> fst (verify_run sig_ok cs v) ! k} = {}" by auto
  have "fst (verify_permit sig_ok t d p (snd (verify_run sig_ok (take i cs) v))) = None"
    using verify_run_nth(1) [OF assms(2,3), of sig_ok v] assms(4) by simp
  then show ?case
    unfolding none using remembered_start verify_run_nth(2) [OF assms(2,3), of sig_ok v] assms(3) by simp
next
  case (Suc m)
  let ?rs = "fst (verify_run sig_ok cs v)"
  obtain t' d' q where c: "cs ! Suc (i + m) = (t', d', q)" by (cases "cs ! Suc (i + m)")
  have le: "fst (cs ! (i + m)) \<le> t'"
    using sorted_nth_mono [OF assms(1), of "i + m" "Suc (i + m)"] Suc.prems c by simp
  have "{k. i < k \<and> k \<le> i + Suc m \<and> ?rs ! k}
      = {k. i < k \<and> k \<le> i + m \<and> ?rs ! k} \<union> (if ?rs ! Suc (i + m) then {Suc (i + m)} else {})"
    by (auto simp: le_Suc_eq)
  then have "card {k. i < k \<and> k \<le> i + Suc m \<and> ?rs ! k}
      = card {k. i < k \<and> k \<le> i + m \<and> ?rs ! k} + (if ?rs ! Suc (i + m) then 1 else 0)"
    by (auto simp: card_insert_if)
  then show ?case
    using nonces_remembered_step [OF Suc.IH le refl, of sig_ok d' q] verify_run_nth [of "Suc (i + m)" cs t' d' q sig_ok v] c Suc.prems
    by simp
qed

text \<open>
  C19. A permit is a single-use authorization. Whatever a node's verifier accepts while its clock does
  not go back is addressed to the node, names the digest the caller expects, was issued after the
  node's start and has not expired (up to the tolerated skew), and is signed by a trusted key. The
  same permit is accepted a second time only if at least 4096 other acceptances lie between the two.
\<close>

theorem permit_single_use:
  assumes "sorted (map fst cs)" and rs: "fst (verify_run sig_ok cs v) = rs"
  shows "(\<forall>k < length cs. rs ! k \<longrightarrow> authentic sig_ok (fst (cs ! k)) (fst (snd (cs ! k))) (snd (snd (cs ! k))) v)
     \<and> (\<forall>i j. i < j \<and> j < length cs \<and> rs ! i \<and> rs ! j \<and> snd (snd (cs ! i)) = snd (snd (cs ! j))
          \<longrightarrow> 4096 \<le> card {k. i < k \<and> k < j \<and> rs ! k})"
proof (intro conjI allI impI)
  fix k assume k: "k < length cs" "rs ! k"
  obtain t d p where c: "cs ! k = (t, d, p)" by (cases "cs ! k")
  have "authentic sig_ok t d p (snd (verify_run sig_ok (take k cs) v))"
    using verify_run_nth(1) [OF k(1) c, of sig_ok v] k(2) by (simp add: rs verify_accepts)
  then show "authentic sig_ok (fst (cs ! k)) (fst (snd (cs ! k))) (snd (snd (cs ! k))) v"
    by (simp add: c authentic_def verify_run_fields)
next
  fix i j assume *: "i < j \<and> j < length cs \<and> rs ! i \<and> rs ! j \<and> snd (snd (cs ! i)) = snd (snd (cs ! j))"
  obtain t d p where ci: "cs ! i = (t, d, p)" by (cases "cs ! i")
  obtain t' d' where cj: "cs ! j = (t', d', p)" using * ci by (cases "cs ! j") auto
  obtain m where m: "j = Suc (i + m)" using * less_imp_Suc_add by blast
  have "{k. i < k \<and> k \<le> i + m \<and> rs ! k} = {k. i < k \<and> k < j \<and> rs ! k}" by (auto simp: m less_Suc_eq_le)
  then have "remembered p (card {k. i < k \<and> k < j \<and> rs ! k}) (fst (cs ! (i + m))) (snd (verify_run sig_ok (take j cs) v))"
    using nonces_remembered_run [OF assms(1) _ ci, of sig_ok v m] * m rs by simp
  moreover have "fst (cs ! (i + m)) \<le> t'"
    using sorted_nth_mono [OF assms(1), of "i + m" j] * m cj by simp
  ultimately show "4096 \<le> card {k. i < k \<and> k < j \<and> rs ! k}"
    using not_again verify_run_nth(1) [OF _ cj, of sig_ok v] * rs unfolding max_nonce_cache_def by blast
qed

definition all_valid :: "unit \<Rightarrow> string \<Rightarrow> pyval \<Rightarrow> bool" where
  "all_valid pub signature payload = True"

definition sample_permit :: permit where
  "sample_permit =
     \<lparr>pm_v = 1, pm_issuer = ''host'', pm_key_id = ''k'', pm_audience = ''arm01'', pm_session = ''s'', pm_workspace = ''w'',
      pm_approval = ''a'', pm_digest = ''d'', pm_issued_at = 0, pm_expires_at = 10, pm_nonce = ''n'', pm_max_uses = 1,
      pm_signature = ''ff''\<rparr>"

definition sample_verifier :: "unit verifier" where
  "sample_verifier = new_verifier [(''k'', ())] ''arm01'' 0 2"

lemmas sample_defs = sample_permit_def sample_verifier_def all_valid_def new_verifier_def verify_permit_def
  evict_expired_def remember_nonce_def max_nonce_cache_def dict_set_def Let_def

lemma sample_run:
  "fst (verify_run all_valid [(1, ''d'', sample_permit), (2, ''d'', sample_permit)] sample_verifier) = [True, False]"
  by (simp add: sample_defs)

theorem permit_single_use_witness:
  "fst (verify_run all_valid [(1, ''d'', sample_permit), (2, ''d'', sample_permit)] sample_verifier) = [True, False]
   \<and> authentic all_valid 1 ''d'' sample_permit sample_verifier"
proof -
  have "sorted (map fst [(1 :: real, ''d'', sample_permit), (2, ''d'', sample_permit)])" by simp
  from permit_single_use [OF this sample_run, THEN conjunct1, THEN spec, of 0] show ?thesis using sample_run by simp
qed

text \<open>When the wall clock goes back, an evicted permit is taken again.\<close>

lemma clock_set_back_replays:
  "fst (verify_run all_valid
     [(1, ''d'', sample_permit), (20, ''d'', sample_permit\<lparr>pm_nonce := ''m'', pm_expires_at := 30\<rparr>), (2, ''d'', sample_permit)]
     sample_verifier) = [True, True, True]"
  by (simp add: sample_defs)

section \<open>What is signed, and what is authorized\<close>

lemma map_of_sort_key: "distinct (map fst d) \<Longrightarrow> map_of (sort_key fst d) = map_of d"
  by (subst map_of_inject_set) (simp_all add: distinct_map)

lemma canonical_dict_eq:
  assumes "canonical (PDict d) = canonical (PDict e)" "distinct (map fst d)" "distinct (map fst e)"
  shows "map_option canonical (map_of d k) = map_option canonical (map_of e k)"
proof -
  have "map_of (map (\<lambda>kv. (fst kv, canonical (snd kv))) d) k = map_option canonical (map_of d k)" for d :: "pyval dict"
    by (induction d) auto
  moreover have "map_of (map (\<lambda>kv. (fst kv, canonical (snd kv))) d) = map_of (map (\<lambda>kv. (fst kv, canonical (snd kv))) e)"
    using assms map_of_sort_key [of "map (\<lambda>kv. (fst kv, canonical (snd kv))) d"]
      map_of_sort_key [of "map (\<lambda>kv. (fst kv, canonical (snd kv))) e"] by (simp add: comp_def)
  ultimately show ?thesis by metis
qed

lemma payload_fields:
  "k \<noteq> ''signature'' \<Longrightarrow> map_of (dict_pop ''signature'' (permit_to_dict p)) k = map_of (permit_to_dict p) k"
  by (simp add: dict_simps)

lemma signature_covers:
  "signable_payload p = signable_payload q \<longleftrightarrow> p\<lparr>pm_signature := []\<rparr> = q\<lparr>pm_signature := []\<rparr>"
proof
  assume eq: "signable_payload p = signable_payload q"
  let ?d = "\<lambda>p. dict_pop ''signature'' (permit_to_dict p)"
  have "distinct (map fst (?d p))" for p by (simp add: dict_pop_def permit_to_dict_def)
  then have "map_option canonical (map_of (?d p) k) = map_option canonical (map_of (?d q) k)" for k
    using eq canonical_dict_eq [of "?d p" "?d q" k] by (simp add: signable_payload_def)
  note fields = this
  have "map_option canonical (map_of (permit_to_dict p) k) = map_option canonical (map_of (permit_to_dict q) k)"
    if "k \<noteq> ''signature''" for k
    using fields [of k] payload_fields [OF that] by simp
  from this [of "''v''"] this [of "''issuer''"] this [of "''key_id''"] this [of "''audience''"] this [of "''session_id''"]
    this [of "''workspace''"] this [of "''approval_id''"] this [of "''action_digest''"] this [of "''issued_at''"]
    this [of "''expires_at''"] this [of "''nonce''"] this [of "''max_uses''"]
  show "p\<lparr>pm_signature := []\<rparr> = q\<lparr>pm_signature := []\<rparr>"
    by (cases p; cases q) (simp add: permit_to_dict_def)
next
  assume "p\<lparr>pm_signature := []\<rparr> = q\<lparr>pm_signature := []\<rparr>"
  then show "signable_payload p = signable_payload q"
    by (cases p; cases q) (simp add: signable_payload_def permit_to_dict_def dict_pop_def)
qed

lemma map_of_entry_if [simp]: "map_of (entry_if b k v) j = (if j = k \<and> b then Some v else None)"
  by (simp add: entry_if_def)

lemma map_entry_if: "map (\<lambda>kv. (fst kv, canonical (snd kv))) (entry_if b k v) = entry_if b k (canonical v)"
  by (simp add: entry_if_def)

lemma canonical_if: "map_option canonical (if b then Some v else None) = (if b then Some (canonical v) else None)"
  by simp

lemma insort_key_map: "(\<And>x. f (g x) = h x) \<Longrightarrow> insort_key f (g x) (map g xs) = map g (insort_key h x xs)"
  by (induction xs) auto

lemma sort_key_map: "(\<And>x. f (g x) = h x) \<Longrightarrow> sort_key f (map g xs) = map g (sort_key h xs)"
  by (induction xs) (simp_all add: insort_key_map)

lemma canonical_float_dict: "canonical (float_dict d) = float_dict (sort_key fst d)"
  unfolding float_dict_def canonical.simps map_map
  by (subst sort_key_map [where h = fst]) (auto simp: comp_def split_def)

lemma action_lookup:
  "map_of (action_fields a) ''method'' = Some (PStr (ac_method a))"
  "map_of (action_fields a) ''device_id'' = Some (PStr (ac_device a))"
  "map_of (action_fields a) ''commands'' = map_option (\<lambda>cs. PList (map (\<lambda>(c, v). PList [PStr c, v]) cs)) (ac_commands a)"
  "map_of (action_fields a) ''effect'' = (if ac_effect a \<noteq> [] then Some (PStr (ac_effect a)) else None)"
  "map_of (action_fields a) ''envelope_band'' = (if ac_band a \<noteq> [] then Some (PStr (ac_band a)) else None)"
  "map_of (action_fields a) ''mode'' = (if ac_mode a \<noteq> [] then Some (PStr (ac_mode a)) else None)"
  "map_of (action_fields a) ''frequency_hz'' = (if ac_frequency a \<noteq> 0 then Some (PFloat (ac_frequency a)) else None)"
  "map_of (action_fields a) ''channels'' = (if ac_channels a \<noteq> [] then Some (PList (map PStr (ac_channels a))) else None)"
  "map_of (action_fields a) ''targets'' = (if ac_targets a \<noteq> [] then Some (float_dict (ac_targets a)) else None)"
  "map_of (action_fields a) ''waypoints'' = (if ac_waypoints a \<noteq> []
     then Some (PList (map (\<lambda>(t, wp). PList [PFloat t, float_dict wp]) (ac_waypoints a))) else None)"
  "map_of (action_fields a) ''lease_s'' = (if ac_lease a \<noteq> 0 then Some (PFloat (ac_lease a)) else None)"
  "map_of (action_fields a) ''comm_loss_policy'' = (if ac_comm_loss a \<noteq> [] then Some (PStr (ac_comm_loss a)) else None)"
  by (cases "ac_commands a"; simp add: action_fields_def map_add_def)+

lemma action_keys: "distinct (map fst (action_fields a))"
proof -
  have set: "j \<in> fst ` set (entry_if b k v) \<longleftrightarrow> b \<and> j = k" for b j k v by (auto simp: entry_if_def)
  have "map fst (entry_if b k v @ d) = (if b then [k] else []) @ map fst d" for b k v and d :: "pyval dict"
    by (simp add: entry_if_def)
  then have cons: "distinct (map fst (entry_if b k v @ d)) \<longleftrightarrow> (b \<longrightarrow> k \<notin> fst ` set d) \<and> distinct (map fst d)"
    for b k v and d :: "pyval dict" by auto
  have last: "distinct (map fst (entry_if b k v))" for b k v by (simp add: entry_if_def)
  show ?thesis
    unfolding action_fields_def
    by (cases "ac_commands a") (simp_all only: option.case append_Cons append_Nil list.map distinct.simps cons last, simp_all add: set image_Un)
qed

text \<open>The parts of an action up to the order of keys.\<close>

definition same_action :: "lhp_action \<Rightarrow> lhp_action \<Rightarrow> bool" where
  "same_action a b \<longleftrightarrow>
     ac_method a = ac_method b \<and> ac_device a = ac_device b
     \<and> map_option (map (\<lambda>(c, v). (c, canonical v))) (ac_commands a) = map_option (map (\<lambda>(c, v). (c, canonical v))) (ac_commands b)
     \<and> ac_effect a = ac_effect b \<and> ac_band a = ac_band b \<and> ac_mode a = ac_mode b \<and> ac_frequency a = ac_frequency b
     \<and> ac_channels a = ac_channels b \<and> sort_key fst (ac_targets a) = sort_key fst (ac_targets b)
     \<and> map (\<lambda>(t, wp). (t, sort_key fst wp)) (ac_waypoints a) = map (\<lambda>(t, wp). (t, sort_key fst wp)) (ac_waypoints b)
     \<and> ac_lease a = ac_lease b \<and> ac_comm_loss a = ac_comm_loss b"

lemma float_dict_inj: "float_dict d = float_dict e \<longleftrightarrow> d = e"
proof -
  have "inj (\<lambda>(k :: string, v). (k, PFloat v))" by (auto intro: injI)
  then show ?thesis by (simp add: float_dict_def inj_map_eq_map)
qed

lemma commands_eq:
  "map canonical (map (\<lambda>(c, v). PList [PStr c, v]) cs) = map canonical (map (\<lambda>(c, v). PList [PStr c, v]) ds)
     \<longleftrightarrow> map (\<lambda>(c, v). (c, canonical v)) cs = map (\<lambda>(c, v). (c, canonical v)) ds"
proof (induction cs arbitrary: ds)
  case (Cons c cs)
  then show ?case by (cases ds) (auto simp: split_def)
qed auto

lemma waypoints_eq:
  "map canonical (map (\<lambda>(t, wp). PList [PFloat t, float_dict wp]) ws) = map canonical (map (\<lambda>(t, wp). PList [PFloat t, float_dict wp]) us)
     \<longleftrightarrow> map (\<lambda>(t, wp). (t, sort_key fst wp)) ws = map (\<lambda>(t, wp). (t, sort_key fst wp)) us"
proof (induction ws arbitrary: us)
  case (Cons w ws)
  then show ?case by (cases us) (auto simp: split_def canonical_float_dict float_dict_inj)
qed auto

lemma sort_key_Nil_iff: "sort_key f xs = [] \<longleftrightarrow> xs = []"
  by (metis length_0_conv length_sort)

text \<open>
  A permit is for one action: the objects that are hashed for two actions are equal exactly if the
  actions agree in method, device, every command with its value, effect, envelope, mode, frequency,
  channels, targets, waypoints, lease and policy, up to the order of keys. No field is dropped, and
  no default is confused with a given value.
\<close>

theorem action_object_exact: "action_object a = action_object b \<longleftrightarrow> same_action a b"
proof
  assume "action_object a = action_object b"
  then have eq: "map_option canonical (map_of (action_fields a) k) = map_option canonical (map_of (action_fields b) k)" for k
    unfolding action_object_def by (rule canonical_dict_eq) (rule action_keys)+
  have "ac_method a = ac_method b" "ac_device a = ac_device b" "ac_effect a = ac_effect b"
    using eq [of "''method''"] eq [of "''device_id''"] eq [of "''effect''"] by (simp_all add: action_lookup canonical_if split: if_splits)
  moreover have "ac_band a = ac_band b" "ac_mode a = ac_mode b"
    using eq [of "''envelope_band''"] eq [of "''mode''"] by (simp_all add: action_lookup canonical_if split: if_splits)
  moreover have "ac_frequency a = ac_frequency b" "ac_lease a = ac_lease b"
    using eq [of "''frequency_hz''"] eq [of "''lease_s''"] by (simp_all add: action_lookup canonical_if split: if_splits)
  moreover have "ac_comm_loss a = ac_comm_loss b"
    using eq [of "''comm_loss_policy''"] by (simp add: action_lookup canonical_if split: if_splits)
  moreover have "map_option (map (\<lambda>(c, v). (c, canonical v))) (ac_commands a) = map_option (map (\<lambda>(c, v). (c, canonical v))) (ac_commands b)"
    using eq [of "''commands''"] commands_eq
    by (cases "ac_commands a"; cases "ac_commands b") (simp_all add: action_lookup)
  moreover have "ac_channels a = ac_channels b"
  proof -
    have "inj (canonical \<circ> PStr)" by (auto intro: injI)
    then show ?thesis using eq [of "''channels''"] by (auto simp: action_lookup inj_map_eq_map split: if_splits)
  qed
  moreover have "sort_key fst (ac_targets a) = sort_key fst (ac_targets b)"
    using eq [of "''targets''"] by (auto simp: action_lookup canonical_float_dict float_dict_inj split: if_splits)
  moreover have "map (\<lambda>(t, wp). (t, sort_key fst wp)) (ac_waypoints a) = map (\<lambda>(t, wp). (t, sort_key fst wp)) (ac_waypoints b)"
    using eq [of "''waypoints''"] waypoints_eq [of "ac_waypoints a" "ac_waypoints b"]
    by (auto simp: action_lookup split: if_splits)
  ultimately show "same_action a b" by (simp add: same_action_def)
next
  assume same: "same_action a b"
  let ?c = "map (\<lambda>kv. (fst kv, canonical (snd kv)))"
  have cmds: "?c (case ac_commands a of None \<Rightarrow> [] | Some cs \<Rightarrow> [(''commands'', PList (map (\<lambda>(c, v). PList [PStr c, v]) cs))])
      = ?c (case ac_commands b of None \<Rightarrow> [] | Some cs \<Rightarrow> [(''commands'', PList (map (\<lambda>(c, v). PList [PStr c, v]) cs))])"
    using same commands_eq by (cases "ac_commands a"; cases "ac_commands b") (simp_all add: same_action_def)
  have "map canonical (map (\<lambda>(t, wp). PList [PFloat t, float_dict wp]) (ac_waypoints a))
      = map canonical (map (\<lambda>(t, wp). PList [PFloat t, float_dict wp]) (ac_waypoints b))"
    using same by (simp only: waypoints_eq same_action_def)
  moreover have "ac_waypoints a = [] \<longleftrightarrow> ac_waypoints b = []" "ac_targets a = [] \<longleftrightarrow> ac_targets b = []"
    using same by (auto simp: same_action_def sort_key_Nil_iff dest: arg_cong [where f = length] sort_key_Nil_iff [THEN iffD1])
  ultimately have "?c (action_fields a) = ?c (action_fields b)"
    unfolding action_fields_def map_append cmds
    using same by (simp add: map_entry_if canonical_float_dict same_action_def)
  then show "action_object a = action_object b" by (simp add: action_object_def)
qed

section \<open>From the issuer to the gate\<close>

lemma signable_signature [simp]: "signable_payload (p\<lparr>pm_signature := s\<rparr>) = signable_payload p"
  by (simp add: signature_covers)

lemma issue_fields:
  "pm_audience (issue_permit sign i now nonce audience session workspace approval d) = audience"
    "pm_digest (issue_permit sign i now nonce audience session workspace approval d) = d"
    "pm_nonce (issue_permit sign i now nonce audience session workspace approval d) = nonce"
    "pm_key_id (issue_permit sign i now nonce audience session workspace approval d) = is_key_id i"
    "pm_issued_at (issue_permit sign i now nonce audience session workspace approval d) = now"
    "pm_expires_at (issue_permit sign i now nonce audience session workspace approval d) = now + is_ttl i"
    "pm_v (issue_permit sign i now nonce audience session workspace approval d) = 1"
    "pm_max_uses (issue_permit sign i now nonce audience session workspace approval d) = 1"
    "pm_signature (issue_permit sign i now nonce audience session workspace approval d)
      = sign (signable_payload (issue_permit sign i now nonce audience session workspace approval d))"
proof -
  have unsigned: "signable_payload (issue_permit sign i now nonce audience session workspace approval d)
      = signable_payload (issue_permit (\<lambda>_. []) i now nonce audience session workspace approval d)"
    unfolding signature_covers by (simp add: issue_permit_def Let_def)
  show "pm_signature (issue_permit sign i now nonce audience session workspace approval d)
      = sign (signable_payload (issue_permit sign i now nonce audience session workspace approval d))"
    unfolding unsigned by (simp add: issue_permit_def Let_def)
qed (simp_all add: issue_permit_def Let_def permit_version_def)

text \<open>The gate over the wire form is the verifier, with the digest taken from the permit.\<close>

lemma gate_verifies:
  assumes "map_of params ''permit'' = Some (PDict (permit_to_dict p))" "pm_v p \<noteq> 0" "pm_max_uses p \<noteq> 0"
  shows "write_mode_gate cv sig_ok PERMIT_REQUIRED now params (Some v) =
     (Ret (map_option Rejected (fst (verify_permit sig_ok now (pm_digest p) p v))), Some (snd (verify_permit sig_ok now (pm_digest p) p v)))"
  by (simp add: write_mode_gate_def check_permit_def assms permit_roundtrip split: prod.splits option.splits)

text \<open>
  A permit the host issues opens the node's gate, and opens it once: sent over the wire to the
  node it names, within its lifetime, under a key the node trusts and with an unused nonce, the gate
  lets the request pass, and refuses any later request with the same permit. Signing and checking a
  signature are assumed to agree.
\<close>

theorem issued_permit_opens_gate_once:
  assumes keys: "map_of (vf_trusted v) (is_key_id i) = Some pub" "\<And>payload. sig_ok pub (sign payload) payload"
    and p: "p = issue_permit sign i issued nonce (vf_node v) session workspace approval d"
    and time: "vf_boot v - vf_skew v \<le> issued" "now \<le> issued + is_ttl i + vf_skew v" "now \<le> later"
    and nonce: "nonce \<notin> set (map fst (vf_seen v))"
    and wire: "map_of params ''permit'' = Some (PDict (permit_to_dict p))"
      "map_of params' ''permit'' = Some (PDict (permit_to_dict p))"
  shows "\<exists>v'. write_mode_gate cv sig_ok PERMIT_REQUIRED now params (Some v) = (Ret None, Some v')
     \<and> fst (write_mode_gate cv sig_ok PERMIT_REQUIRED later params' (Some v')) \<in> {Ret (Some (Rejected REPLAYED)), Ret (Some (Rejected EXPIRED))}"
proof -
  note f = issue_fields [of sign i issued nonce "vf_node v" session workspace approval d, folded p]
  let ?r = "verify_permit sig_ok now d p v"
  have auth: "authentic sig_ok now d p v"
    unfolding authentic_def f using keys time by simp
  have "set (vf_seen (evict_expired now v)) \<subseteq> set (vf_seen v)"
    unfolding evict_expired_def by (auto dest: set_dropWhileD)
  then have "pm_nonce p \<notin> set (map fst (vf_seen (evict_expired now v)))" using nonce f(3) by auto
  then have ok: "fst ?r = None" using auth by (simp add: verify_accepts)
  have gate: "write_mode_gate cv sig_ok PERMIT_REQUIRED now params (Some v) = (Ret None, Some (snd ?r))"
    using gate_verifies [OF wire(1), of cv sig_ok now v] f ok by simp
  have "fst (verify_permit sig_ok later d p (snd ?r)) \<noteq> None"
    using not_again [OF remembered_start [OF ok] time(3)] by (auto simp: max_nonce_cache_def)
  then have "fst (verify_permit sig_ok later d p (snd ?r)) \<in> {Some REPLAYED, Some EXPIRED}"
    using auth unfolding authentic_def by (auto simp: verify_permit_def verify_fields Let_def split: if_splits option.splits)
  then show ?thesis
    using gate gate_verifies [OF wire(2), of cv sig_ok later "snd ?r"] f by auto
qed

theorem issued_permit_opens_gate_once_witness:
  "\<exists>v'. write_mode_gate \<lparr>cv_int = Map.empty, cv_float = Map.empty, cv_str = \<lambda>_. []\<rparr> all_valid PERMIT_REQUIRED 1
      [(''permit'', PDict (permit_to_dict (issue_permit (\<lambda>_. ''ff'') (new_issuer ''k'' ''host'' 10) 1 ''n'' ''arm01'' ''s'' ''w'' ''a'' ''d'')))]
      (Some sample_verifier) = (Ret None, Some v')"
proof -
  let ?i = "new_issuer ''k'' ''host'' 10" and ?p = "issue_permit (\<lambda>_. ''ff'') (new_issuer ''k'' ''host'' 10) 1 ''n'' ''arm01'' ''s'' ''w'' ''a'' ''d''"
  have "map_of (vf_trusted sample_verifier) (is_key_id ?i) = Some ()"
    "\<And>payload. all_valid () ((\<lambda>_. ''ff'') payload) payload"
    "?p = issue_permit (\<lambda>_. ''ff'') ?i 1 ''n'' (vf_node sample_verifier) ''s'' ''w'' ''a'' ''d''"
    "vf_boot sample_verifier - vf_skew sample_verifier \<le> 1" "1 \<le> 1 + is_ttl ?i + vf_skew sample_verifier" "(1 :: real) \<le> 1"
    "''n'' \<notin> set (map fst (vf_seen sample_verifier))"
    "map_of [(''permit'', PDict (permit_to_dict ?p))] ''permit'' = Some (PDict (permit_to_dict ?p))"
    by (simp_all add: sample_defs new_issuer_def)
  from issued_permit_opens_gate_once [where sign = "\<lambda>_. ''ff''" and sig_ok = all_valid, OF this this(8)] show ?thesis by blast
qed

end
