(* ===== verification/Node_Writes_Props.thy ===== *)
theory Node_Writes_Props imports Node_Writes Node_Permit_Props Hardware_Props begin

text \<open>
  What reaches a node's devices: only requests the gate let pass whose every command is admissible,
  and, when requests are served one after another, within the declared rate of each channel.
\<close>

section \<open>Admissible commands\<close>

definition gate_passed ::
  "conversions \<Rightarrow> ('pub \<Rightarrow> string \<Rightarrow> pyval \<Rightarrow> bool) \<Rightarrow> real \<Rightarrow> pyval dict \<Rightarrow> 'pub node \<Rightarrow> bool" where
  "gate_passed cv sig_ok now params n \<longleftrightarrow>
     no_mode n = TRUSTED_V1
     \<or> no_mode n = PERMIT_REQUIRED
       \<and> (\<exists>vf d p. no_verifier n = Some vf \<and> map_of params ''permit'' = Some (PDict d) \<and> permit_from_dict cv d = Ret p
            \<and> authentic sig_ok now (pm_digest p) p vf \<and> pm_nonce p \<notin> set (map fst (vf_seen (evict_expired now vf))))"

definition in_envelope :: "conversions \<Rightarrow> envelope \<Rightarrow> pyval \<Rightarrow> bool" where
  "in_envelope cv en v \<longleftrightarrow>
     en_declared en
     \<and> (if en_allowed en \<noteq> [] then \<exists>a \<in> set (en_allowed en). wire_eq v a
        else case as_numeric cv v of
          None \<Rightarrow> en_min en = None \<and> en_max en = None \<and> en_rate en = None \<and> en_quantum en = None
        | Some x \<Rightarrow> (\<forall>lo. en_min en = Some lo \<longrightarrow> lo \<le> x) \<and> (\<forall>hi. en_max en = Some hi \<longrightarrow> x \<le> hi))"

definition interlocks_hold :: "world \<Rightarrow> node_context \<Rightarrow> node_channel \<Rightarrow> bool" where
  "interlocks_hold w cx ch \<longleftrightarrow>
     (\<forall>name \<in> set (required_interlocks (interlock_view cx) (channel_view ch)).
        \<exists>il r. context_interlock (interlock_view cx) name = Some il \<and> wd_read w (cx_device cx) (il_channel il) = Ret r
          \<and> interlock_holds il r)"

definition within_rate :: "conversions \<Rightarrow> real \<Rightarrow> baseline \<Rightarrow> string \<Rightarrow> node_channel \<Rightarrow> pyval \<Rightarrow> bool" where
  "within_rate cv now base d ch v \<longleftrightarrow>
     (\<forall>x y t r. as_numeric cv v = Some x \<and> map_of base (d, nc_id ch) = Some (y, t) \<and> en_rate (nc_envelope ch) = Some r \<and> 0 < r
        \<longrightarrow> \<bar>x - y\<bar> \<le> r * max 0 (now - t))"

definition admissible :: "conversions \<Rightarrow> world \<Rightarrow> baseline \<Rightarrow> node_context \<Rightarrow> node_channel \<Rightarrow> pyval \<Rightarrow> bool" where
  "admissible cv w base cx ch v \<longleftrightarrow>
     nc_direction ch \<in> {''write'', ''readwrite''} \<and> in_envelope cv (nc_envelope ch) v \<and> interlocks_hold w cx ch
     \<and> \<not> wd_degraded w (cx_device cx) \<and> within_rate cv (wd_mono w) base (cx_device cx) ch v \<and> safety_allows cv cx ch v"

lemma envelope_contains_eq: "envelope_contains cv en 0 v \<longleftrightarrow> in_envelope cv en v"
  by (auto simp: envelope_contains_def in_envelope_def is_numeric_envelope_def split: option.splits)

lemma rate_wait_eq: "\<not> rate_wait en delta elapsed > 0 \<longleftrightarrow> (\<forall>r. en_rate en = Some r \<and> 0 < r \<longrightarrow> \<bar>delta\<bar> \<le> r * max 0 elapsed)"
proof (cases "en_rate en")
  case (Some r)
  have "\<not> max 0 (\<bar>delta\<bar> / r - max 0 elapsed) > 0 \<longleftrightarrow> \<bar>delta\<bar> \<le> r * max 0 elapsed" if "0 < r"
    using that pos_divide_le_eq [OF that, of "\<bar>delta\<bar>" "max 0 elapsed"] by (auto simp: mult.commute max_def)
  then show ?thesis using Some by (auto simp: rate_wait_def)
qed (simp add: rate_wait_def)

lemma precheck_admits: "write_precheck cv w base cx ch v = None \<longleftrightarrow> admissible cv w base cx ch v"
proof -
  have rate: "\<not> (case (as_numeric cv v, map_of base (cx_device cx, nc_id ch)) of
        (Some x, Some (previous, stamp)) \<Rightarrow> rate_wait (nc_envelope ch) (x - previous) (wd_mono w - stamp) > 0 | _ \<Rightarrow> False)
      \<longleftrightarrow> within_rate cv (wd_mono w) base (cx_device cx) ch v"
    using rate_wait_eq by (auto simp: within_rate_def split: option.splits)
  have locks: "failed_interlocks (wd_read w (cx_device cx)) (interlock_view cx) (channel_view ch) = [] \<longleftrightarrow> interlocks_hold w cx ch"
    by (simp add: no_failed_interlocks interlocks_hold_def)
  show ?thesis
    unfolding write_precheck_def admissible_def rate [symmetric] locks [symmetric] envelope_contains_eq [symmetric] is_writable_def
    by simp
qed

lemma precheck_refuses: "write_precheck cv w base cx ch v = Some r \<Longrightarrow> \<not> wo_ok r \<and> wo_effect r = EFF_NONE"
  by (auto simp: write_precheck_def refusal_def split: if_splits)

lemma gate_lets_pass:
  "fst (write_mode_gate cv sig_ok (no_mode n) now params (no_verifier n)) = Ret None \<longleftrightarrow> gate_passed cv sig_ok now params n"
proof -
  have "fst (check_permit cv sig_ok now params (Some vf)) = Ret None \<longleftrightarrow>
      (\<exists>d p. map_of params ''permit'' = Some (PDict d) \<and> permit_from_dict cv d = Ret p
         \<and> fst (verify_permit sig_ok now (pm_digest p) p vf) = None)" for vf
    by (auto simp: check_permit_def split: option.splits pyval.splits outcome.splits prod.splits)
  then show ?thesis
    unfolding gate_passed_def verify_accepts [symmetric]
    by (cases "no_mode n"; cases "no_verifier n") (auto simp: write_mode_gate_def check_permit_def)
qed

section \<open>Serving requests\<close>

text \<open>One request, with what its checks read and the clock when it is recorded.\<close>

datatype node_request = OneWrite world real "pyval dict" | BatchWrite real "nat \<Rightarrow> world" "nat \<Rightarrow> real" "pyval dict"

fun answered :: "write_outcome reply \<Rightarrow> write_outcome list" where
  "answered (Answer out) = [out]"
| "answered (ErrorFrame e) = []"

fun batch_answered :: "batch_outcome reply \<Rightarrow> write_outcome list" where
  "batch_answered (Answer b) = bo_outcomes b"
| "batch_answered (ErrorFrame e) = []"

fun serve ::
  "conversions \<Rightarrow> ('pub \<Rightarrow> string \<Rightarrow> pyval \<Rightarrow> bool) \<Rightarrow> 'd transport \<Rightarrow> node_request \<Rightarrow> 'pub node \<Rightarrow> 'd
     \<Rightarrow> write_outcome list \<times> 'pub node \<times> 'd" where
  "serve cv sig_ok tr (OneWrite w stamp params) n dev =
     (case handle_write cv sig_ok tr w stamp params n dev of (r, s) \<Rightarrow> (answered r, s))"
| "serve cv sig_ok tr (BatchWrite now ws stamps params) n dev =
     (case handle_write_batch cv sig_ok tr now ws stamps params n dev of (r, s) \<Rightarrow> (batch_answered r, s))"

text \<open>The commands a request asks for, and the worlds its gate and its \<open>i\<close>th check see.\<close>

fun request_commands :: "node_request \<Rightarrow> (string \<times> pyval) list" where
  "request_commands (OneWrite w stamp params) =
     (case (require_str params ''channel_id'', map_of params ''value'') of (Some c, Some v) \<Rightarrow> [(c, v)] | _ \<Rightarrow> [])"
| "request_commands (BatchWrite now ws stamps params) = (case require_commands params of Some cs \<Rightarrow> cs | None \<Rightarrow> [])"

fun request_params :: "node_request \<Rightarrow> pyval dict" where
  "request_params (OneWrite w stamp params) = params"
| "request_params (BatchWrite now ws stamps params) = params"

fun request_time :: "node_request \<Rightarrow> real" where
  "request_time (OneWrite w stamp params) = wd_time w"
| "request_time (BatchWrite now ws stamps params) = now"

fun request_world :: "node_request \<Rightarrow> nat \<Rightarrow> world" where
  "request_world (OneWrite w stamp params) i = w"
| "request_world (BatchWrite now ws stamps params) i = ws i"

fun request_stamp :: "node_request \<Rightarrow> nat \<Rightarrow> real" where
  "request_stamp (OneWrite w stamp params) i = stamp"
| "request_stamp (BatchWrite now ws stamps params) i = stamps i"

definition permitted ::
  "conversions \<Rightarrow> ('pub \<Rightarrow> string \<Rightarrow> pyval \<Rightarrow> bool) \<Rightarrow> node_request \<Rightarrow> 'pub node \<Rightarrow> bool" where
  "permitted cv sig_ok req n \<longleftrightarrow>
     request_commands req \<noteq> [] \<and> gate_passed cv sig_ok (request_time req) (request_params req) n
     \<and> (\<exists>d cx. require_str (request_params req) ''device_id'' = Some d \<and> map_of (no_contexts n) d = Some cx
          \<and> (\<forall>i < length (request_commands req). \<exists>ch. context_channel cx (fst (request_commands req ! i)) = Some ch
               \<and> admissible cv (request_world req i) (no_last n) cx ch (snd (request_commands req ! i))))"

lemma write_begin_proceeds:
  assumes "write_begin cv sig_ok w params n = (Proceed d c v, n1)"
  shows "permitted cv sig_ok (OneWrite w stamp params) n" "request_commands (OneWrite w stamp params) = [(c, v)]"
    "require_str params ''device_id'' = Some d" "no_last n1 = no_last n" "no_contexts n1 = no_contexts n" "no_mode n1 = no_mode n"
proof -
  obtain cx ch vo where *: "require_str params ''device_id'' = Some d" "require_str params ''channel_id'' = Some c"
    "map_of params ''value'' = Some v" "map_of (no_contexts n) d = Some cx" "context_channel cx c = Some ch"
    "write_mode_gate cv sig_ok (no_mode n) (wd_time w) params (no_verifier n) = (Ret None, vo)"
    "write_precheck cv w (no_last n) cx ch v = None" "n1 = n\<lparr>no_verifier := vo\<rparr>"
    using assms by (auto simp: write_begin_def split: option.splits prod.splits outcome.splits)
  then show "permitted cv sig_ok (OneWrite w stamp params) n"
    using gate_lets_pass [of cv sig_ok n "wd_time w" params] by (auto simp: permitted_def precheck_admits)
  show "request_commands (OneWrite w stamp params) = [(c, v)]" "require_str params ''device_id'' = Some d"
    "no_last n1 = no_last n" "no_contexts n1 = no_contexts n" "no_mode n1 = no_mode n" using * by simp_all
qed

lemma write_begin_refuses:
  assumes "write_begin cv sig_ok w params n = (Refuse r, n1)"
  shows "no_last n1 = no_last n" "\<forall>out \<in> set (answered r). \<not> wo_ok out \<and> wo_effect out = EFF_NONE"
    "no_contexts n1 = no_contexts n" "no_mode n1 = no_mode n"
  using assms precheck_refuses
  by (auto simp: write_begin_def refusal_def split: option.splits prod.splits outcome.splits)

lemma parse_commands_length: "parse_commands items = Some cmds \<Longrightarrow> length cmds = length items"
  by (induction items arbitrary: cmds rule: parse_commands.induct) (auto split: if_splits)

lemma require_commands_some: "require_commands params = Some cmds \<Longrightarrow> cmds \<noteq> []"
  using parse_commands_length by (fastforce simp: require_commands_def split: option.splits pyval.splits if_splits)

lemma batch_begin_proceeds:
  assumes "batch_begin cv sig_ok now ws params n = (ProceedBatch d cmds, n1)"
  shows "permitted cv sig_ok (BatchWrite now ws stamps params) n" "request_commands (BatchWrite now ws stamps params) = cmds"
    "require_str params ''device_id'' = Some d" "no_last n1 = no_last n" "no_contexts n1 = no_contexts n" "no_mode n1 = no_mode n"
proof -
  obtain cx vo where *: "require_str params ''device_id'' = Some d" "require_commands params = Some cmds"
    "map_of (no_contexts n) d = Some cx" "\<forall>cmd \<in> set cmds. context_channel cx (fst cmd) \<noteq> None"
    "write_mode_gate cv sig_ok (no_mode n) now params (no_verifier n) = (Ret None, vo)"
    "\<forall>v \<in> set (batch_verdicts cv ws (no_last n) cx cmds). v = None" "n1 = n\<lparr>no_verifier := vo\<rparr>"
    using assms by (auto simp: batch_begin_def Let_def split: option.splits prod.splits outcome.splits if_splits)
  have "\<exists>ch. context_channel cx (fst (cmds ! i)) = Some ch \<and> admissible cv (ws i) (no_last n) cx ch (snd (cmds ! i))"
    if i: "i < length cmds" for i
  proof -
    obtain ch where ch: "context_channel cx (fst (cmds ! i)) = Some ch" using *(4) nth_mem [OF i] by blast
    have "(i, cmds ! i) \<in> set (enumerate 0 cmds)" using i by (simp add: in_set_enumerate_eq)
    then have "write_precheck cv (ws i) (no_last n) cx (the (context_channel cx (fst (cmds ! i)))) (snd (cmds ! i))
        \<in> set (batch_verdicts cv ws (no_last n) cx cmds)"
      unfolding batch_verdicts_def by (force simp: split_def)
    then show ?thesis using *(6) ch by (auto simp: precheck_admits)
  qed
  moreover have "gate_passed cv sig_ok now params n" using gate_lets_pass [of cv sig_ok n now params] *(5) by simp
  ultimately show "permitted cv sig_ok (BatchWrite now ws stamps params) n"
    using *(1,2,3) require_commands_some by (simp add: permitted_def)
  show "request_commands (BatchWrite now ws stamps params) = cmds" "require_str params ''device_id'' = Some d"
    "no_last n1 = no_last n" "no_contexts n1 = no_contexts n" "no_mode n1 = no_mode n" using * by simp_all
qed

lemma batch_begin_refuses:
  assumes "batch_begin cv sig_ok now ws params n = (RefuseBatch r, n1)"
  shows "no_last n1 = no_last n" "no_contexts n1 = no_contexts n" "no_mode n1 = no_mode n"
    and "\<forall>out \<in> set (batch_answered r). \<not> wo_ok out \<and> wo_effect out = EFF_NONE"
proof -
  show "no_last n1 = no_last n" "no_contexts n1 = no_contexts n" "no_mode n1 = no_mode n"
    using assms by (auto simp: batch_begin_def Let_def split: option.splits prod.splits outcome.splits if_splits)
  have verdict: "\<not> wo_ok (aborted_outcome v) \<and> wo_effect (aborted_outcome v) = EFF_NONE"
    if "v \<in> set (batch_verdicts cv ws base cx cmds)" for v base cx cmds
    using that precheck_refuses by (auto simp: batch_verdicts_def split_def aborted_outcome_def refusal_def split: option.splits)
  have "(\<exists>e. r = ErrorFrame e) \<or> (\<exists>code (cmds :: (string \<times> pyval) list). r = Answer (batch_payload False (map (\<lambda>_. refusal code) cmds)))
      \<or> (\<exists>cx cmds. r = Answer (batch_payload False (map aborted_outcome (batch_verdicts cv ws (no_last n) cx cmds))))"
    using assms by (auto simp: batch_begin_def Let_def split: option.splits prod.splits outcome.splits if_splits)
  then consider e where "r = ErrorFrame e" | code and cmds :: "(string \<times> pyval) list" where "r = Answer (batch_payload False (map (\<lambda>_. refusal code) cmds))"
    | cx cmds where "r = Answer (batch_payload False (map aborted_outcome (batch_verdicts cv ws (no_last n) cx cmds)))"
    by blast
  then show "\<forall>out \<in> set (batch_answered r). \<not> wo_ok out \<and> wo_effect out = EFF_NONE"
  proof cases
    case 3
    then show ?thesis using verdict by (simp add: batch_payload_def Let_def)
  qed (simp_all add: batch_payload_def refusal_def Let_def)
qed

section \<open>A node with one channel\<close>

definition sample_channel :: node_channel where
  "sample_channel =
     \<lparr>nc_id = ''v'', nc_direction = ''write'', nc_quantity = ''velocity'',
      nc_envelope = \<lparr>en_declared = True, en_min = Some (- 9), en_max = Some 9, en_rate = Some 2, en_quantum = None, en_allowed = []\<rparr>,
      nc_requires = []\<rparr>"

definition sample_context :: node_context where
  "sample_context = \<lparr>cx_device = ''d'', cx_channels = [sample_channel], cx_interlocks = [], cx_safety = None\<rparr>"

definition sample_node :: "unit node" where
  "sample_node = \<lparr>no_mode = TRUSTED_V1, no_verifier = None, no_contexts = [(''d'', sample_context)],
     no_last = [((''d'', ''v''), (0, 0))]\<rparr>"

definition sample_conv :: conversions where
  "sample_conv = \<lparr>cv_int = Map.empty, cv_float = Map.empty, cv_str = \<lambda>_. []\<rparr>"

definition sample_world :: "real \<Rightarrow> world" where
  "sample_world t = \<lparr>wd_time = t, wd_mono = t, wd_read = \<lambda>_ _. Raise ''none'', wd_degraded = \<lambda>_. False\<rparr>"

text \<open>A device that keeps the list of what was written, and breaks on \<open>5\<close> without losing it.\<close>

definition sample_drive :: "string \<Rightarrow> string \<Rightarrow> pyval \<Rightarrow> pyval list \<Rightarrow> node_answer \<times> pyval list" where
  "sample_drive d c v dev =
     (if v = PInt 5 then ((Broke ''OSError'', None), dev)
      else ((Wrote \<lparr>wo_ok = True, wo_effect = EFF_COMMITTED, wo_code = [], wo_error = []\<rparr>, None), dev @ [v]))"

definition sample_transport :: "pyval list transport" where
  "sample_transport = \<lparr>tr_open = \<lambda>d dev. (None, dev), tr_write = sample_drive, tr_batch = None\<rparr>"

definition write_of :: "int \<Rightarrow> pyval dict" where
  "write_of i = [(''device_id'', PStr ''d''), (''channel_id'', PStr ''v''), (''value'', PInt i)]"

definition batch_of :: "int list \<Rightarrow> pyval dict" where
  "batch_of is = [(''device_id'', PStr ''d''), (''commands'', PList (map (\<lambda>i. PList [PStr ''v'', PInt i]) is))]"

definition no_signature :: "unit \<Rightarrow> string \<Rightarrow> pyval \<Rightarrow> bool" where
  "no_signature u s v \<longleftrightarrow> False"

lemmas node_demo =
  sample_channel_def sample_context_def sample_node_def sample_conv_def sample_world_def sample_drive_def sample_transport_def
  write_of_def batch_of_def write_begin_def write_finish_def handle_write_def batch_begin_def handle_write_batch_def
  batch_verdicts_def drive_batch_def require_str_def require_commands_def context_channel_def write_mode_gate_def
  write_precheck_def is_writable_def envelope_contains_def as_numeric_def failed_interlocks_def required_interlocks_def
  interlock_view_def channel_view_def rate_wait_def safety_allows_def record_accepted_def wrong_reading_def dict_set_def

section \<open>What a permitted request does\<close>

text \<open>What a request hands to an open transport: all to a batch write, or one by one up to some command.\<close>

definition written :: "'d transport \<Rightarrow> string \<Rightarrow> (string \<times> pyval) list \<Rightarrow> 'd \<Rightarrow> 'd" where
  "written tr d cmds dev = fold (\<lambda>(c, v) dev. snd (tr_write tr d c v dev)) cmds dev"

fun sent :: "'d transport \<Rightarrow> string \<Rightarrow> node_request \<Rightarrow> 'd \<Rightarrow> 'd \<Rightarrow> bool" where
  "sent tr d (OneWrite w stamp params) dev dev' \<longleftrightarrow>
     dev' = written tr d (request_commands (OneWrite w stamp params)) dev"
| "sent tr d (BatchWrite now ws stamps params) dev dev' \<longleftrightarrow>
     (let cmds = request_commands (BatchWrite now ws stamps params)
      in case tr_batch tr of
           Some write_batch \<Rightarrow> dev' = snd (write_batch d cmds dev)
         | None \<Rightarrow> \<exists>k \<in> {1..length cmds}. dev' = written tr d (take k cmds) dev)"

lemma drive_each_writes:
  "cmds \<noteq> [] \<Longrightarrow> \<exists>k \<in> {1..length cmds}. snd (drive_each (tr_write tr d) cmds dev) = written tr d (take k cmds) dev"
proof (induction cmds arbitrary: dev)
  case (Cons cmd cmds)
  obtain c v where cmd: "cmd = (c, v)" by fastforce
  obtain a rb dev1 where w: "tr_write tr d c v dev = ((a, rb), dev1)" by (metis surj_pair)
  have one: ?case if "snd (drive_each (tr_write tr d) (cmd # cmds) dev) = dev1"
    using that cmd w by (intro bexI [of _ 1]) (simp_all add: written_def)
  show ?case
  proof (cases "\<exists>out. a = Wrote out \<and> wo_ok out \<and> cmds \<noteq> []")
    case True
    then obtain k where "k \<in> {1..length cmds}" "snd (drive_each (tr_write tr d) cmds dev1) = written tr d (take k cmds) dev1"
      using Cons.IH by blast
    then show ?thesis
      using True cmd w by (intro bexI [of _ "Suc k"]) (auto simp: written_def split: prod.splits)
  next
    case False
    then have "snd (drive_each (tr_write tr d) (cmd # cmds) dev) = dev1"
      using cmd w by (cases a) auto
    then show ?thesis by (rule one)
  qed
qed simp

text \<open>A permitted request passes the checks.\<close>

lemma write_begin_permits:
  assumes "permitted cv sig_ok (OneWrite w stamp params) n"
  shows "\<exists>d c v. fst (write_begin cv sig_ok w params n) = Proceed d c v"
proof -
  obtain d cx c v ch where *: "require_str params ''device_id'' = Some d" "map_of (no_contexts n) d = Some cx"
    "require_str params ''channel_id'' = Some c" "map_of params ''value'' = Some v"
    "context_channel cx c = Some ch" "admissible cv w (no_last n) cx ch v"
    "gate_passed cv sig_ok (wd_time w) params n"
    using assms by (auto simp: permitted_def split: option.splits)
  obtain vo where "write_mode_gate cv sig_ok (no_mode n) (wd_time w) params (no_verifier n) = (Ret None, vo)"
    using gate_lets_pass [of cv sig_ok n "wd_time w" params] *(7) by (metis prod.collapse)
  then show ?thesis using * precheck_admits [of cv w "no_last n" cx ch v] by (simp add: write_begin_def)
qed

lemma batch_begin_permits:
  assumes "permitted cv sig_ok (BatchWrite now ws stamps params) n"
  shows "\<exists>d cmds. fst (batch_begin cv sig_ok now ws params n) = ProceedBatch d cmds"
proof -
  obtain d cx cmds where *: "require_str params ''device_id'' = Some d" "map_of (no_contexts n) d = Some cx"
    "require_commands params = Some cmds" "gate_passed cv sig_ok now params n"
    "\<And>i. i < length cmds \<Longrightarrow> \<exists>ch. context_channel cx (fst (cmds ! i)) = Some ch
       \<and> admissible cv (ws i) (no_last n) cx ch (snd (cmds ! i))"
    using assms by (auto simp: permitted_def split: option.splits)
  obtain vo where g: "write_mode_gate cv sig_ok (no_mode n) now params (no_verifier n) = (Ret None, vo)"
    using gate_lets_pass [of cv sig_ok n now params] *(4) by (metis prod.collapse)
  have "context_channel cx (fst cmd) \<noteq> None" if "cmd \<in> set cmds" for cmd
    using that *(5) unfolding in_set_conv_nth by fastforce
  moreover have "v = None" if verdict: "v \<in> set (batch_verdicts cv ws (no_last n) cx cmds)" for v
  proof -
    obtain i where i: "i < length cmds" "v = write_precheck cv (ws i) (no_last n) cx (the (context_channel cx (fst (cmds ! i)))) (snd (cmds ! i))"
      using verdict by (auto simp: batch_verdicts_def in_set_enumerate_eq)
    then show ?thesis using *(5) [OF i(1)] precheck_admits by fastforce
  qed
  ultimately show ?thesis using * g by (fastforce simp: batch_begin_def Let_def)
qed

text \<open>
  C10. What reaches a device was permitted. A request is permitted if it names a device and at least one
  command, the gate let it pass (a node in permit mode has verified a permit that is fresh, signed and
  unused), and every one of its commands is admissible: its channel writable, its value in the declared
  envelope, every required interlock read and satisfied, the device not degraded, the change within the
  channel's rate and the device's limits. Any other request leaves devices and baseline as they are, and
  every outcome it reports is a failure without effect. A permitted request opens the transport of the
  device it names: if that fails, no command is recorded and no outcome reported, only an error; if it
  opens, the transport is handed this request's commands and nothing else, all of them as a batch, or
  one by one in order up to some command. What the gate does not check is that the permit
  was issued for this request: it verifies a permit against the permit's own digest, so a permit for
  another action lets a request pass (lemma \<open>gate_ignores_command\<close>), which \<open>permit.py\<close> says it does not.
\<close>

theorem node_write_permitted:
  assumes "serve cv sig_ok tr req n dev = (outs, n', dev')"
  shows "if permitted cv sig_ok req n
     then \<exists>d. require_str (request_params req) ''device_id'' = Some d
       \<and> (case tr_open tr d dev of
            (Some code, dev1) \<Rightarrow> dev' = dev1 \<and> no_last n' = no_last n \<and> outs = []
          | (None, dev1) \<Rightarrow> sent tr d req dev1 dev')
     else dev' = dev \<and> no_last n' = no_last n \<and> (\<forall>out \<in> set outs. \<not> wo_ok out \<and> wo_effect out = EFF_NONE)"
proof (cases req)
  case (OneWrite w stamp params)
  obtain st n1 where b: "write_begin cv sig_ok w params n = (st, n1)" by fastforce
  show ?thesis
  proof (cases st)
    case (Refuse r)
    then have "\<not> permitted cv sig_ok req n" using OneWrite b write_begin_permits by fastforce
    then show ?thesis
      using assms OneWrite b Refuse write_begin_refuses [OF b [unfolded Refuse]] by (simp add: handle_write_def)
  next
    case (Proceed d c v)
    note p = write_begin_proceeds(1,2) [OF b [unfolded Proceed], of stamp] write_begin_proceeds(3,4) [OF b [unfolded Proceed]]
    then have "case tr_open tr d dev of (Some code, dev1) \<Rightarrow> dev' = dev1 \<and> no_last n' = no_last n \<and> outs = []
        | (None, dev1) \<Rightarrow> sent tr d req dev1 dev'"
      using assms OneWrite b Proceed by (auto simp: handle_write_def written_def simp del: request_commands.simps split: option.splits prod.splits)
    then show ?thesis using p OneWrite by simp
  qed
next
  case (BatchWrite now ws stamps params)
  obtain st n1 where b: "batch_begin cv sig_ok now ws params n = (st, n1)" by fastforce
  show ?thesis
  proof (cases st)
    case (RefuseBatch r)
    then have "\<not> permitted cv sig_ok req n" using BatchWrite b batch_begin_permits by fastforce
    then show ?thesis
      using assms BatchWrite b RefuseBatch batch_begin_refuses [OF b [unfolded RefuseBatch]] by (simp add: handle_write_batch_def)
  next
    case (ProceedBatch d cmds)
    note p = batch_begin_proceeds(1,2) [OF b [unfolded ProceedBatch], of stamps] batch_begin_proceeds(3,4) [OF b [unfolded ProceedBatch]]
    have "cmds \<noteq> []" using p(1,2) by (simp add: permitted_def)
    from drive_each_writes [OF this, of tr d]
    have "case tr_open tr d dev of (Some code, dev1) \<Rightarrow> dev' = dev1 \<and> no_last n' = no_last n \<and> outs = []
        | (None, dev1) \<Rightarrow> sent tr d req dev1 dev'"
      using assms BatchWrite b ProceedBatch p(2,4)
      by (auto simp: handle_write_batch_def drive_batch_def Let_def simp del: request_commands.simps
        split: option.splits prod.splits sum.splits bool.splits) (metis snd_conv)+
    then show ?thesis using p BatchWrite by simp
  qed
qed

theorem node_write_permitted_witness:
  "permitted sample_conv no_signature (OneWrite (sample_world 1) 1 (write_of 2)) sample_node"
proof -
  let ?w = "OneWrite (sample_world 1) 1 (write_of 2)"
  obtain outs n where "serve sample_conv no_signature sample_transport ?w sample_node [] = (outs, n, [PInt 2])"
    by (simp add: node_demo)
  from node_write_permitted [OF this] show ?thesis by (simp split: if_splits)
qed

section \<open>Rate\<close>

text \<open>What recording does to the baseline of one channel.\<close>

lemma record_accepted_last:
  "map_of (no_last (record_accepted cv stamp d c v n)) k
     = (if k = (d, c) \<and> as_numeric cv v \<noteq> None then Some (the (as_numeric cv v), stamp) else map_of (no_last n) k)"
  by (auto simp: record_accepted_def dict_simps split: option.splits)

lemma record_outcomes_last:
  assumes "record_outcomes cv stamps d cmds os n = (ok, n')" "distinct (map fst cmds)"
  shows "map_of (no_last n') k = map_of (no_last n) k
     \<or> (\<exists>c v x j. k = (d, c) \<and> (c, v) \<in> set cmds \<and> as_numeric cv v = Some x \<and> map_of (no_last n') k = Some (x, stamps j))"
  using assms
proof (induction cv stamps d cmds os n arbitrary: n' rule: record_outcomes.induct)
  case (1 cv stamps d c v cmds out rb os n)
  show ?case
  proof (cases "wrong_reading d c rb")
    case True
    then show ?thesis using "1.prems" by simp
  next
    case False
    let ?m = "if wo_ok out then record_accepted cv (stamps 0) d c v n else n"
    have r: "record_outcomes cv (\<lambda>i. stamps (Suc i)) d cmds os ?m = (ok, n')" using "1.prems"(1) False by simp
    have "map_of (no_last n') k = map_of (no_last ?m) k
        \<or> (\<exists>c v x j. k = (d, c) \<and> (c, v) \<in> set cmds \<and> as_numeric cv v = Some x \<and> map_of (no_last n') k = Some (x, stamps (Suc j)))"
      by (rule "1.IH" [OF False r]) (use "1.prems"(2) in simp)
    then show ?thesis
    proof
      assume "map_of (no_last n') k = map_of (no_last ?m) k"
      then show ?thesis by (cases "as_numeric cv v") (auto simp: record_accepted_last)
    qed auto
  qed
qed simp_all

lemma record_outcomes_fields:
  "record_outcomes cv stamps d cmds os n = (ok, n') \<Longrightarrow> no_contexts n' = no_contexts n \<and> no_mode n' = no_mode n"
proof (induction cv stamps d cmds os n arbitrary: n' rule: record_outcomes.induct)
  case (1 cv stamps d c v cmds out rb os n)
  then show ?case by (fastforce simp: record_accepted_def split: if_splits option.splits)
qed simp_all

text \<open>Serving one request moves the baseline of a channel at most once, to an admissible value.\<close>

lemma serve_baseline:
  assumes sv: "serve cv sig_ok tr req n dev = (outs, n', dev')"
    and dist: "distinct (map fst (request_commands req))"
  shows "no_contexts n' = no_contexts n \<and> (map_of (no_last n') k = map_of (no_last n) k
     \<or> (\<exists>d c v x i j cx ch. k = (d, c) \<and> map_of (no_contexts n) d = Some cx \<and> context_channel cx c = Some ch
          \<and> admissible cv (request_world req i) (no_last n) cx ch v \<and> as_numeric cv v = Some x \<and> i < length (request_commands req)
          \<and> map_of (no_last n') k = Some (x, request_stamp req j)))"
proof (cases req)
  case (OneWrite w stamp params)
  obtain st n1 where b: "write_begin cv sig_ok w params n = (st, n1)" by fastforce
  show ?thesis
  proof (cases st)
    case (Refuse r)
    then show ?thesis
      using sv OneWrite b write_begin_refuses [OF b [unfolded Refuse]] by (simp add: handle_write_def)
  next
    case (Proceed d c v)
    note p = write_begin_proceeds(1-2) [OF b [unfolded Proceed], of stamp] write_begin_proceeds(3-6) [OF b [unfolded Proceed]]
    obtain cx ch where cx: "map_of (no_contexts n) d = Some cx" "context_channel cx c = Some ch"
      "admissible cv w (no_last n) cx ch v"
      using p(1-3) by (auto simp: permitted_def)
    have "n' = n1 \<or> n' = record_accepted cv stamp d c v n1"
      using sv OneWrite b Proceed
      by (auto simp: handle_write_def write_finish_def split: prod.splits option.splits driver_reply.splits if_splits)
    then show ?thesis
    proof
      assume "n' = record_accepted cv stamp d c v n1"
      then show ?thesis
        using cx p(2,4,5) OneWrite by (cases "as_numeric cv v") (auto simp: record_accepted_last, simp_all add: record_accepted_def)
    qed (use p in simp)
  qed
next
  case (BatchWrite now ws stamps params)
  obtain st n1 where b: "batch_begin cv sig_ok now ws params n = (st, n1)" by fastforce
  show ?thesis
  proof (cases st)
    case (RefuseBatch r)
    then show ?thesis
      using sv BatchWrite b batch_begin_refuses [OF b [unfolded RefuseBatch]] by (simp add: handle_write_batch_def)
  next
    case (ProceedBatch d cmds)
    note p = batch_begin_proceeds(1-2) [OF b [unfolded ProceedBatch], of stamps]
      batch_begin_proceeds(3-6) [OF b [unfolded ProceedBatch]]
    have "n' = n1 \<or> (\<exists>os ok. record_outcomes cv stamps d cmds os n1 = (ok, n'))"
      using sv BatchWrite b ProceedBatch by (auto simp: handle_write_batch_def split: prod.splits sum.splits bool.splits)
    then show ?thesis
    proof (elim disjE exE)
      fix os ok
      assume r: "record_outcomes cv stamps d cmds os n1 = (ok, n')"
      obtain cx where cx: "map_of (no_contexts n) d = Some cx"
        "\<And>i. i < length cmds \<Longrightarrow> \<exists>ch. context_channel cx (fst (cmds ! i)) = Some ch
           \<and> admissible cv (ws i) (no_last n) cx ch (snd (cmds ! i))"
        using p(1-3) unfolding permitted_def by auto
      have one: "\<exists>i ch. context_channel cx c = Some ch \<and> admissible cv (ws i) (no_last n) cx ch v \<and> i < length cmds"
        if "(c, v) \<in> set cmds" for c v
        using that cx(2) unfolding in_set_conv_nth by (metis fst_conv snd_conv)
      consider "map_of (no_last n') k = map_of (no_last n) k"
        | c v x j where "k = (d, c)" "(c, v) \<in> set cmds" "as_numeric cv v = Some x" "map_of (no_last n') k = Some (x, stamps j)"
        using record_outcomes_last [OF r, of k] p(2,4) dist BatchWrite by auto
      then show ?thesis
      proof cases
        case 2
        obtain i ch where "context_channel cx c = Some ch" "admissible cv (ws i) (no_last n) cx ch v" "i < length cmds"
          using one [OF 2(2)] by blast
        then show ?thesis using 2 cx(1) p(2,5) record_outcomes_fields [OF r] BatchWrite by auto
      qed (use p(5) record_outcomes_fields [OF r] in simp)
    qed (use p in simp)
  qed
qed

text \<open>
  Requests served one after another from the clock \<open>t0\<close> to \<open>t1\<close>: each check reads the clock no
  earlier than what was recorded before it, each record no earlier than the checks.
\<close>

definition in_order :: "real \<Rightarrow> node_request \<Rightarrow> real \<Rightarrow> bool" where
  "in_order t0 req t1 \<longleftrightarrow>
     (\<forall>i j. t0 \<le> wd_mono (request_world req i) \<and> wd_mono (request_world req i) \<le> request_stamp req j \<and> request_stamp req j \<le> t1)"

inductive served ::
  "conversions \<Rightarrow> ('pub \<Rightarrow> string \<Rightarrow> pyval \<Rightarrow> bool) \<Rightarrow> 'd transport \<Rightarrow> real \<Rightarrow> 'pub node \<Rightarrow> 'd \<Rightarrow> real \<Rightarrow> 'pub node \<Rightarrow> 'd \<Rightarrow> bool"
  for cv sig_ok tr t0 n0 dev0 where
  nothing: "served cv sig_ok tr t0 n0 dev0 t0 n0 dev0"
| request: "served cv sig_ok tr t0 n0 dev0 t1 n1 dev1 \<Longrightarrow> serve cv sig_ok tr req n1 dev1 = (outs, n2, dev2)
    \<Longrightarrow> distinct (map fst (request_commands req)) \<Longrightarrow> in_order t1 req t2 \<Longrightarrow> served cv sig_ok tr t0 n0 dev0 t2 n2 dev2"

definition baseline_until :: "real \<Rightarrow> 'pub node \<Rightarrow> bool" where
  "baseline_until now n \<longleftrightarrow> (\<forall>k x t. map_of (no_last n) k = Some (x, t) \<longrightarrow> t \<le> now)"

text \<open>A registry keeps a context under its own device.\<close>

definition keyed :: "'pub node \<Rightarrow> bool" where
  "keyed n \<longleftrightarrow> (\<forall>d cx. map_of (no_contexts n) d = Some cx \<longrightarrow> cx_device cx = d)"

lemma context_channel_id: "context_channel cx c = Some ch \<Longrightarrow> nc_id ch = c"
  by (auto simp: context_channel_def find_Some_iff)

lemma serve_rate:
  assumes sv: "serve cv sig_ok tr req n dev = (outs, n', dev')" and dist: "distinct (map fst (request_commands req))"
    and ord: "in_order t0 req t1" and base: "baseline_until t0 n" and key: "keyed n"
    and cx: "map_of (no_contexts n) d = Some cx" "context_channel cx c = Some ch" "en_rate (nc_envelope ch) = Some r" "0 < r"
    and here: "map_of (no_last n) (d, c) = Some (x, t)"
  shows "\<exists>x' t'. map_of (no_last n') (d, c) = Some (x', t') \<and> t \<le> t' \<and> \<bar>x' - x\<bar> \<le> r * (t' - t)"
proof -
  consider "map_of (no_last n') (d, c) = map_of (no_last n) (d, c)"
    | v x' i j where "admissible cv (request_world req i) (no_last n) cx ch v" "as_numeric cv v = Some x'"
        "map_of (no_last n') (d, c) = Some (x', request_stamp req j)"
    using serve_baseline [OF sv dist, of "(d, c)"] cx(1,2) by auto
  then show ?thesis
  proof cases
    case 2
    let ?now = "wd_mono (request_world req i)"
    have "cx_device cx = d" "nc_id ch = c" using key cx context_channel_id by (auto simp: keyed_def)
    then have "\<bar>x' - x\<bar> \<le> r * max 0 (?now - t)"
      using 2(1,2) here cx(3,4) by (auto simp: admissible_def within_rate_def)
    moreover have le: "t \<le> ?now" "?now \<le> request_stamp req j"
      using base here ord unfolding baseline_until_def in_order_def by (meson order_trans)+
    moreover have "r * (?now - t) \<le> r * (request_stamp req j - t)"
      by (rule mult_left_mono) (use le cx(4) in auto)
    ultimately show ?thesis using 2(3) by auto
  qed (use here in simp)
qed

lemma serve_until:
  assumes sv: "serve cv sig_ok tr req n dev = (outs, n', dev')" and dist: "distinct (map fst (request_commands req))"
    and ord: "in_order t0 req t1" and base: "baseline_until t0 n"
  shows "baseline_until t1 n'" "no_contexts n' = no_contexts n"
proof -
  have "t0 \<le> t1" using ord unfolding in_order_def by (meson order_trans)
  then show "baseline_until t1 n'"
    using serve_baseline [OF sv dist] base ord unfolding baseline_until_def in_order_def
    by (smt (verit) option.inject prod.inject)
  show "no_contexts n' = no_contexts n" using serve_baseline [OF sv dist] by blast
qed

lemma served_until:
  assumes "served cv sig_ok tr t0 n0 dev0 t1 n1 dev1" "baseline_until t0 n0"
  shows "baseline_until t1 n1 \<and> no_contexts n1 = no_contexts n0"
  using assms by (induction rule: served.induct) (auto dest: serve_until)

lemma served_rate:
  assumes "served cv sig_ok tr t0 n0 dev0 t1 n1 dev1" and base: "baseline_until t0 n0" and key: "keyed n0"
    and cx: "map_of (no_contexts n0) d = Some cx" "context_channel cx c = Some ch" "en_rate (nc_envelope ch) = Some r" "0 < r"
    and here: "map_of (no_last n0) (d, c) = Some (x, t)"
  shows "\<exists>x' t'. map_of (no_last n1) (d, c) = Some (x', t') \<and> t \<le> t' \<and> \<bar>x' - x\<bar> \<le> r * (t' - t)"
  using assms(1)
proof (induction rule: served.induct)
  case (request t1 n1 dev1 req outs n2 dev2 t2)
  then obtain x1 s where 1: "map_of (no_last n1) (d, c) = Some (x1, s)" "t \<le> s" "\<bar>x1 - x\<bar> \<le> r * (s - t)" by blast
  have b: "baseline_until t1 n1" "no_contexts n1 = no_contexts n0" using served_until [OF request.hyps(1) base] by simp_all
  have "keyed n1" using key b(2) by (simp add: keyed_def)
  then obtain x2 s2 where 2: "map_of (no_last n2) (d, c) = Some (x2, s2)" "s \<le> s2" "\<bar>x2 - x1\<bar> \<le> r * (s2 - s)"
    using serve_rate [OF request.hyps(2-4) b(1) _ _ cx(2-4) 1(1)] cx(1) b(2) by auto
  have "\<bar>x2 - x\<bar> \<le> r * (s2 - s) + r * (s - t)" using 1(3) 2(3) by linarith
  also have "\<dots> = r * (s2 - t)" by (simp add: algebra_simps)
  finally show ?case using 1(2) 2 by auto
qed (use here in simp)

text \<open>
  C18. Rate of a channel. When a node serves its requests one after another, no batch naming a channel
  twice, then between any two moments the recorded value of a channel with a rate limit moves by at
  most the limit times the time between the two commands, however many requests are served between
  them, whichever of them are refused, and whatever the devices answer.
\<close>

theorem node_slew_bounded:
  assumes "served cv sig_ok tr t0 n0 dev0 t1 n1 dev1" "baseline_until t0 n0" "keyed n0"
    and "map_of (no_contexts n0) d = Some cx" "context_channel cx c = Some ch" "en_rate (nc_envelope ch) = Some r" "0 < r"
    and "map_of (no_last n0) (d, c) = Some (x, t)" "map_of (no_last n1) (d, c) = Some (x', t')"
  shows "t \<le> t' \<and> \<bar>x' - x\<bar> \<le> r * (t' - t)"
  using served_rate [OF assms(1-8)] assms(9) by auto

theorem node_slew_bounded_witness:
  "\<exists>n. served sample_conv no_signature sample_transport 0 sample_node [] 1 n [PInt 2]
     \<and> map_of (no_last n) (''d'', ''v'') = Some (2, 1) \<and> \<bar>2 - 0\<bar> \<le> 2 * (1 - (0 :: real))"
proof -
  let ?w = "OneWrite (sample_world 1) 1 (write_of 2)"
  obtain outs n where n: "serve sample_conv no_signature sample_transport ?w sample_node [] = (outs, n, [PInt 2])"
    "map_of (no_last n) (''d'', ''v'') = Some (2, 1)"
    by (simp add: node_demo)
  have "distinct (map fst (request_commands ?w))" by (simp add: node_demo)
  moreover have "in_order 0 ?w 1" by (simp add: in_order_def sample_world_def)
  ultimately have run: "served sample_conv no_signature sample_transport 0 sample_node [] 1 n [PInt 2]"
    using served.request [OF served.nothing n(1)] by blast
  have "baseline_until 0 sample_node" "keyed sample_node" "map_of (no_contexts sample_node) ''d'' = Some sample_context"
    "context_channel sample_context ''v'' = Some sample_channel" "en_rate (nc_envelope sample_channel) = Some 2" "(0 :: real) < 2"
    "map_of (no_last sample_node) (''d'', ''v'') = Some (0, 0)"
    by (simp_all add: baseline_until_def keyed_def sample_node_def sample_context_def sample_channel_def context_channel_def)
  from node_slew_bounded [OF run this n(2)] show ?thesis using run n(2) by blast
qed

section \<open>What is not checked\<close>

text \<open>The gate reads the permit and not the command: it opens for whatever the request asks.\<close>

lemma gate_ignores_command:
  "map_of params ''permit'' = map_of params' ''permit''
     \<Longrightarrow> write_mode_gate cv sig_ok mode now params vo = write_mode_gate cv sig_ok mode now params' vo"
  by (cases mode; cases vo) (simp_all add: write_mode_gate_def check_permit_def)

text \<open>A batch that names a channel twice moves it by more than its rate: both commands are checked against
  the baseline before the batch.\<close>

lemma batch_exceeds_rate:
  "snd (snd (handle_write_batch sample_conv no_signature sample_transport 1 (\<lambda>_. sample_world 1) (\<lambda>_. 1) (batch_of [2, - 2]) sample_node []))
     = [PInt 2, PInt (- 2)]"
  "\<bar>- 2 - 2\<bar> > 2 * (1 - 1 :: real)"
  by (simp_all add: node_demo)

text \<open>So do two requests whose checks are made before either is recorded: the checks are outside the lock.\<close>

lemma interleaved_exceeds_rate:
  "fst (write_begin sample_conv no_signature (sample_world 1) (write_of 2) sample_node) = Proceed ''d'' ''v'' (PInt 2)"
  "fst (write_begin sample_conv no_signature (sample_world 1) (write_of (- 2))
      (snd (write_begin sample_conv no_signature (sample_world 1) (write_of 2) sample_node))) = Proceed ''d'' ''v'' (PInt (- 2))"
  by (simp_all add: node_demo)

text \<open>A driver that breaks in a batch takes the outcome and the baseline of what was already written with it.\<close>

lemma broken_batch_forgets:
  "handle_write_batch sample_conv no_signature sample_transport 3 (\<lambda>_. sample_world 3) (\<lambda>_. 3) (batch_of [2, 5]) sample_node []
     = (ErrorFrame ''internal_error'', sample_node, [PInt 2])"
  by (simp add: node_demo)

end
