(* ===== verification/Node_Control.thy ===== *)
theory Node_Control imports Node_Writes begin

text \<open>
  Control sessions of a node, \<open>hardware/lhp/control_sessions.py\<close>, with the start and the stop of a
  device's control loop in \<open>hardware/registry.py\<close> and \<open>hardware/control_bus.py\<close>.

  The sessions live on one event loop; a step is the code between two suspensions. A session's
  watchdog is the time at which it runs next. The loop of a device runs in a thread of its own: what
  the sessions see of it is whether it counts as running. Clock readings, fresh identifiers, and what
  thread and device do are arguments of the events.
\<close>

section \<open>Control loops\<close>

text \<open>
  A thread that finds no open transport returns without clearing the flag that it runs (\<open>Stuck\<close>), and
  a thread that does not join in time runs on until it ends (\<open>Stopping\<close>).
\<close>

datatype bus = Idle | Running | Stopping | Stuck

text \<open>The halts that reach a device: by a session's policy, or by a loop when it ends.\<close>

datatype halt = PolicyHalt string | LoopHalt string

record control_session =
  cs_id :: string
  cs_device :: string
  cs_conn :: string
  cs_mode :: string
  cs_frequency :: real
  cs_channels :: "string list"
  cs_lease :: real
  cs_policy :: string
  cs_started :: real
  cs_renewed :: real
  cs_halted :: bool
  cs_wake :: "real option"

definition expires_at :: "control_session \<Rightarrow> real" where
  "expires_at s = cs_renewed s + cs_lease s"

definition expires_in :: "real \<Rightarrow> control_session \<Rightarrow> real" where
  "expires_in now s = max 0 (expires_at s - now)"

record open_request =
  or_device :: string
  or_mode :: string
  or_frequency :: real
  or_channels :: "string list"
  or_lease :: real
  or_policy :: string
  or_conn :: string

text \<open>
  The sessions, the devices' latest session, the loops, the opens that await their check, the
  disconnects under way with the sessions still to visit, and the halts so far.
\<close>

record control_node =
  cn_sessions :: "control_session dict"
  cn_devices :: "string dict"
  cn_buses :: "bus dict"
  cn_opening :: "(nat \<times> open_request) list"
  cn_dropping :: "(string \<times> string list) list"
  cn_halts :: "halt list"

definition new_control_node :: control_node where
  "new_control_node = \<lparr>cn_sessions = [], cn_devices = [], cn_buses = [], cn_opening = [], cn_dropping = [], cn_halts = []\<rparr>"

definition bus_of :: "control_node \<Rightarrow> string \<Rightarrow> bus" where
  "bus_of n d = (case map_of (cn_buses n) d of None \<Rightarrow> Idle | Some b \<Rightarrow> b)"

text \<open>\<open>start_control_loop\<close>: false if it raises. \<open>fault\<close> stands for a remote device, an unknown one,
  one without channels, and a thread that does not start.\<close>

definition start_loop :: "bool \<Rightarrow> bool \<Rightarrow> string \<Rightarrow> control_node \<Rightarrow> bool \<times> control_node" where
  "start_loop fault transport_open d n =
     (if fault \<or> bus_of n d \<noteq> Idle then (False, n)
      else (True, n\<lparr>cn_buses := dict_set d (if transport_open then Running else Stuck) (cn_buses n)\<rparr>))"

text \<open>The end of a loop's thread: it halts the device on any path.\<close>

definition loop_ends :: "string \<Rightarrow> control_node \<Rightarrow> control_node" where
  "loop_ends d n = n\<lparr>cn_buses := dict_set d Idle (cn_buses n), cn_halts := cn_halts n @ [LoopHalt d]\<rparr>"

definition stop_loop :: "bool \<Rightarrow> string \<Rightarrow> control_node \<Rightarrow> control_node" where
  "stop_loop joined d n =
     (case bus_of n d of
        Idle \<Rightarrow> n
      | Stuck \<Rightarrow> n
      | _ \<Rightarrow> if joined then loop_ends d n else n\<lparr>cn_buses := dict_set d Stopping (cn_buses n)\<rparr>)"

section \<open>Requests\<close>

datatype control_reply =
    ControlError string
  | ControlRaise string
  | Opened string real
  | Renewed string real real
  | Updated string real
  | Closed string string

definition param_str :: "conversions \<Rightarrow> pyval dict \<Rightarrow> string \<Rightarrow> string" where
  "param_str cv params k = py_str cv (get_or params k (PStr []))"

definition parse_frequency :: "conversions \<Rightarrow> pyval dict \<Rightarrow> real option" where
  "parse_frequency cv params =
     (let hz = (case py_float cv (get_or params ''frequency_hz'' (PFloat 100)) of Ret x \<Rightarrow> x | Raise e \<Rightarrow> 100)
      in if hz \<le> 0 then None else Some hz)"

definition parse_lease :: "conversions \<Rightarrow> pyval dict \<Rightarrow> real" where
  "parse_lease cv params =
     (let lease = (case py_float cv (get_or params ''lease_s'' (PFloat 1)) of Ret x \<Rightarrow> x | Raise e \<Rightarrow> 1)
      in max (2 / 10) (min 10 lease))"

definition parse_channels :: "conversions \<Rightarrow> pyval dict \<Rightarrow> string list" where
  "parse_channels cv params =
     (case map_of params ''channels'' of Some (PList vs) \<Rightarrow> map (py_str cv) (filter py_truthy vs) | _ \<Rightarrow> [])"

text \<open>The start of \<open>open\<close>, up to the check of the device.\<close>

definition open_begin ::
  "conversions \<Rightarrow> (string \<Rightarrow> node_context option) \<Rightarrow> nat \<Rightarrow> pyval dict \<Rightarrow> string \<Rightarrow> control_node \<Rightarrow> control_reply option \<times> control_node" where
  "open_begin cv cxs ticket params conn n =
     (let d = param_str cv params ''device_id''; policy = py_str cv (get_or params ''comm_loss_policy'' (PStr ''halt'')) in
      case parse_frequency cv params of
        None \<Rightarrow> (Some (ControlRaise ''ValueError''), n)
      | Some hz \<Rightarrow>
          if policy \<notin> {''halt'', ''hold''} then (Some (ControlError ''invalid_comm_loss_policy''), n)
          else if cxs d = None then (Some (ControlError ''unknown_device''), n)
          else if (case map_of (cn_devices n) d of
                     Some cid \<Rightarrow> cid \<noteq> [] \<and> (case map_of (cn_sessions n) cid of Some s \<Rightarrow> \<not> cs_halted s | None \<Rightarrow> False)
                   | None \<Rightarrow> False) then (Some (ControlError ''control_session_exists''), n)
          else (None, n\<lparr>cn_opening := cn_opening n @ [(ticket,
                 \<lparr>or_device = d, or_mode = param_str cv params ''mode'', or_frequency = hz, or_channels = parse_channels cv params,
                  or_lease = parse_lease cv params, or_policy = policy, or_conn = conn\<rparr>)]\<rparr>))"

text \<open>\<open>_precheck\<close>: the error code; \<open>ws c\<close> is what the check of channel \<open>c\<close> reads.\<close>

definition control_precheck :: "(string \<Rightarrow> world) \<Rightarrow> world \<Rightarrow> node_context \<Rightarrow> string option" where
  "control_precheck ws w cx =
     (if \<exists>ch \<in> set (cx_channels cx). is_writable ch
           \<and> failed_interlocks (wd_read (ws (nc_id ch)) (cx_device cx)) (interlock_view cx) (channel_view ch) \<noteq> []
      then Some ''interlock_unsatisfied''
      else if wd_degraded w (cx_device cx) then Some ''device_degraded'' else None)"

definition new_session :: "string \<Rightarrow> open_request \<Rightarrow> real \<Rightarrow> control_session" where
  "new_session cid r now =
     \<lparr>cs_id = cid, cs_device = or_device r, cs_conn = or_conn r, cs_mode = or_mode r, cs_frequency = or_frequency r,
      cs_channels = or_channels r, cs_lease = or_lease r, cs_policy = or_policy r, cs_started = now, cs_renewed = now,
      cs_halted = False, cs_wake = Some now\<rparr>"

text \<open>The rest of \<open>open\<close>: the loop starts, the session is stored, its watchdog runs at once.\<close>

definition open_end ::
  "(string \<Rightarrow> node_context option) \<Rightarrow> (string \<Rightarrow> world) \<Rightarrow> world \<Rightarrow> bool \<Rightarrow> bool \<Rightarrow> string \<Rightarrow> real \<Rightarrow> nat \<Rightarrow> control_node
     \<Rightarrow> control_reply option \<times> control_node" where
  "open_end cxs ws w fault transport_open cid now ticket n =
     (case map_of (cn_opening n) ticket of
        None \<Rightarrow> (None, n)
      | Some r \<Rightarrow>
          let n1 = n\<lparr>cn_opening := filter (\<lambda>p. fst p \<noteq> ticket) (cn_opening n)\<rparr> in
          case Option.bind (cxs (or_device r)) (control_precheck ws w) of
            Some code \<Rightarrow> (Some (ControlError code), n1)
          | None \<Rightarrow>
              (case start_loop fault transport_open (or_device r) n1 of
                 (False, n2) \<Rightarrow> (Some (ControlError ''control_start_failed''), n2)
               | (True, n2) \<Rightarrow>
                   (Some (Opened cid (or_lease r)),
                    n2\<lparr>cn_sessions := dict_set cid (new_session cid r now) (cn_sessions n2),
                       cn_devices := dict_set (or_device r) cid (cn_devices n2)\<rparr>)))"

text \<open>A request on a session by the connection that opened it.\<close>

definition owned :: "conversions \<Rightarrow> pyval dict \<Rightarrow> string \<Rightarrow> control_node \<Rightarrow> string + control_session" where
  "owned cv params conn n =
     (case map_of (cn_sessions n) (param_str cv params ''control_id'') of
        None \<Rightarrow> Inl ''unknown_control_session''
      | Some s \<Rightarrow> if cs_conn s \<noteq> conn then Inl ''not_session_owner'' else Inr s)"

definition put_session :: "control_session \<Rightarrow> control_node \<Rightarrow> control_node" where
  "put_session s n = n\<lparr>cn_sessions := dict_set (cs_id s) s (cn_sessions n)\<rparr>"

definition renew_session :: "conversions \<Rightarrow> pyval dict \<Rightarrow> string \<Rightarrow> real \<Rightarrow> control_node \<Rightarrow> control_reply \<times> control_node" where
  "renew_session cv params conn now n =
     (case owned cv params conn n of
        Inl code \<Rightarrow> (ControlError code, n)
      | Inr s \<Rightarrow>
          if cs_halted s then (ControlError ''session_halted'', n)
          else let s1 = s\<lparr>cs_renewed := now\<rparr> in (Renewed (cs_id s) (cs_lease s) (expires_in now s1), put_session s1 n))"

definition update_session :: "conversions \<Rightarrow> pyval dict \<Rightarrow> string \<Rightarrow> real \<Rightarrow> control_node \<Rightarrow> control_reply \<times> control_node" where
  "update_session cv params conn now n =
     (case owned cv params conn n of
        Inl code \<Rightarrow> (ControlError code, n)
      | Inr s \<Rightarrow>
          if cs_halted s then (ControlError ''session_halted'', n)
          else let s1 = s\<lparr>cs_renewed := now\<rparr> in (Updated (cs_id s) (expires_in now s1), put_session s1 n))"

section \<open>The end of a session\<close>

text \<open>What \<open>_stop_session\<close> and \<open>_execute_comm_loss\<close> share: the session halts, its watchdog is cancelled,
  its device's loop is stopped.\<close>

definition end_session :: "bool \<Rightarrow> control_session \<Rightarrow> control_node \<Rightarrow> control_node" where
  "end_session joined s n = stop_loop joined (cs_device s) (put_session (s\<lparr>cs_halted := True, cs_wake := None\<rparr>) n)"

definition stop_session :: "bool \<Rightarrow> control_session \<Rightarrow> control_node \<Rightarrow> string \<times> control_node" where
  "stop_session joined s n =
     (if cs_halted s then (''already_stopped'', n) else (''stopped'', end_session joined s n))"

definition close_session :: "conversions \<Rightarrow> bool \<Rightarrow> pyval dict \<Rightarrow> string \<Rightarrow> control_node \<Rightarrow> control_reply \<times> control_node" where
  "close_session cv joined params conn n =
     (case owned cv params conn n of
        Inl code \<Rightarrow> (ControlError code, n)
      | Inr s \<Rightarrow> (case stop_session joined s n of (status, n1) \<Rightarrow> (Closed (cs_id s) status, n1)))"

text \<open>\<open>reaches\<close>: the halt of the policy reaches the device.\<close>

definition comm_loss :: "bool \<Rightarrow> bool \<Rightarrow> control_session \<Rightarrow> control_node \<Rightarrow> control_node" where
  "comm_loss joined reaches s n =
     (if cs_halted s then n
      else let n1 = end_session joined s n
           in if cs_policy s = ''halt'' \<and> reaches then n1\<lparr>cn_halts := cn_halts n1 @ [PolicyHalt (cs_device s)]\<rparr> else n1)"

text \<open>
  One round of a watchdog. Ending the session cancels the watchdog itself, so its halt is cancelled
  at the first point where it suspends.
\<close>

definition watchdog_runs :: "bool \<Rightarrow> bool \<Rightarrow> bool \<Rightarrow> real \<Rightarrow> string \<Rightarrow> control_node \<Rightarrow> control_node" where
  "watchdog_runs joined suspends reaches now cid n =
     (case map_of (cn_sessions n) cid of
        None \<Rightarrow> n
      | Some s \<Rightarrow>
          if cs_halted s then put_session (s\<lparr>cs_wake := None\<rparr>) n
          else if expires_in now s \<le> 0 then comm_loss joined (reaches \<and> \<not> suspends) s n
          else put_session (s\<lparr>cs_wake := Some (now + min (expires_in now s) (cs_lease s / 2))\<rparr>) n)"

text \<open>\<open>on_disconnect\<close>: a snapshot of the sessions, visited one by one.\<close>

definition disconnect :: "string \<Rightarrow> control_node \<Rightarrow> control_node" where
  "disconnect conn n = n\<lparr>cn_dropping := cn_dropping n @ [(conn, map fst (cn_sessions n))]\<rparr>"

definition drop_next :: "bool \<Rightarrow> bool \<Rightarrow> nat \<Rightarrow> control_node \<Rightarrow> control_node" where
  "drop_next joined reaches i n =
     (case cn_dropping n ! i of
        (conn, []) \<Rightarrow> n
      | (conn, cid # cids) \<Rightarrow>
          let n1 = n\<lparr>cn_dropping := (cn_dropping n)[i := (conn, cids)]\<rparr> in
          case map_of (cn_sessions n1) cid of
            None \<Rightarrow> n1
          | Some s \<Rightarrow> if cs_conn s = conn \<and> \<not> cs_halted s then comm_loss joined reaches s n1 else n1)"

text \<open>\<open>shutdown\<close>, with nothing else running.\<close>

definition shutdown_sessions :: "(string \<Rightarrow> bool) \<Rightarrow> control_node \<Rightarrow> control_node" where
  "shutdown_sessions joined n =
     (fold (\<lambda>s n. snd (stop_session (joined (cs_id s)) s n)) (map snd (cn_sessions n)) n)\<lparr>cn_sessions := [], cn_devices := []\<rparr>"

section \<open>Runs\<close>

datatype control_event =
    Open nat "pyval dict" string
  | Checked nat "string \<Rightarrow> world" world bool bool string
  | Renew "pyval dict" string
  | Update "pyval dict" string
  | Close bool "pyval dict" string
  | Watch bool bool bool string
  | Disconnect string
  | DropNext bool bool nat
  | LoopEnds string

fun control_step ::
  "conversions \<Rightarrow> (string \<Rightarrow> node_context option) \<Rightarrow> real \<Rightarrow> control_event \<Rightarrow> control_node \<Rightarrow> control_node" where
  "control_step cv cxs now (Open ticket params conn) n = snd (open_begin cv cxs ticket params conn n)"
| "control_step cv cxs now (Checked ticket ws w fault transport_open cid) n = snd (open_end cxs ws w fault transport_open cid now ticket n)"
| "control_step cv cxs now (Renew params conn) n = snd (renew_session cv params conn now n)"
| "control_step cv cxs now (Update params conn) n = snd (update_session cv params conn now n)"
| "control_step cv cxs now (Close joined params conn) n = snd (close_session cv joined params conn n)"
| "control_step cv cxs now (Watch joined suspends reaches cid) n = watchdog_runs joined suspends reaches now cid n"
| "control_step cv cxs now (Disconnect conn) n = disconnect conn n"
| "control_step cv cxs now (DropNext joined reaches i) n = drop_next joined reaches i n"
| "control_step cv cxs now (LoopEnds d) n = loop_ends d n"

text \<open>
  When an event can happen. Identifiers of sessions and tickets of opens are fresh; a watchdog runs
  once its time has come; a thread that ends is one that runs.
\<close>

fun control_enabled :: "real \<Rightarrow> control_event \<Rightarrow> control_node \<Rightarrow> bool" where
  "control_enabled now (Open ticket params conn) n \<longleftrightarrow> ticket \<notin> set (map fst (cn_opening n))"
| "control_enabled now (Checked ticket ws w fault transport_open cid) n \<longleftrightarrow>
     ticket \<in> set (map fst (cn_opening n)) \<and> cid \<noteq> [] \<and> cid \<notin> set (map fst (cn_sessions n))"
| "control_enabled now (Watch joined suspends reaches cid) n \<longleftrightarrow>
     (case map_of (cn_sessions n) cid of None \<Rightarrow> False | Some s \<Rightarrow> (case cs_wake s of None \<Rightarrow> False | Some t \<Rightarrow> t \<le> now))"
| "control_enabled now (DropNext joined reaches i) n \<longleftrightarrow> i < length (cn_dropping n)"
| "control_enabled now (LoopEnds d) n \<longleftrightarrow> bus_of n d \<in> {Running, Stopping}"
| "control_enabled now _ n \<longleftrightarrow> True"

text \<open>
  The states of a node after the events \<open>es\<close>, the latest first, up to the clock \<open>t\<close>. \<open>allowed\<close> restricts
  the events further.
\<close>

inductive control_run ::
  "conversions \<Rightarrow> (string \<Rightarrow> node_context option) \<Rightarrow> (control_event \<Rightarrow> control_node \<Rightarrow> bool)
     \<Rightarrow> (real \<times> control_event) list \<Rightarrow> real \<Rightarrow> control_node \<Rightarrow> bool"
  for cv cxs allowed where
  start: "control_run cv cxs allowed [] t new_control_node"
| event: "control_run cv cxs allowed es t n \<Longrightarrow> t \<le> now \<Longrightarrow> control_enabled now e n \<Longrightarrow> allowed e n
    \<Longrightarrow> control_run cv cxs allowed ((now, e) # es) now (control_step cv cxs now e n)"
| wait: "control_run cv cxs allowed es t n \<Longrightarrow> t \<le> now \<Longrightarrow> control_run cv cxs allowed es now n"

end
