(* ===== verification/Node_Control_Props.thy ===== *)
theory Node_Control_Props imports Node_Control Node_Writes_Props begin

text \<open>
  A control loop that runs and has not been told to stop is held by a session, and a session lives only
  while its connection renews it.
\<close>

section \<open>One step\<close>

lemma loop_fields [simp]:
  "cn_sessions (loop_ends d n) = cn_sessions n" "cn_opening (loop_ends d n) = cn_opening n"
  "cn_sessions (stop_loop joined d n) = cn_sessions n" "cn_opening (stop_loop joined d n) = cn_opening n"
  by (simp_all add: loop_ends_def stop_loop_def split: bus.split)

lemma put_session_fields [simp]:
  "cn_sessions (put_session s n) = dict_set (cs_id s) s (cn_sessions n)" "cn_buses (put_session s n) = cn_buses n"
  "cn_opening (put_session s n) = cn_opening n" "bus_of (put_session s n) d = bus_of n d"
  by (simp_all add: put_session_def bus_of_def)

lemma end_session_fields [simp]:
  "cn_sessions (end_session joined s n) = dict_set (cs_id s) (s\<lparr>cs_halted := True, cs_wake := None\<rparr>) (cn_sessions n)"
  "cn_opening (end_session joined s n) = cn_opening n"
  by (simp_all add: end_session_def)

lemma bus_of_dict_set: "cn_buses n' = dict_set d b (cn_buses n) \<Longrightarrow> bus_of n' d' = (if d' = d then b else bus_of n d')"
  by (simp add: bus_of_def dict_simps)

lemma bus_of_cong: "cn_buses n' = cn_buses n \<Longrightarrow> bus_of n' d = bus_of n d"
  by (simp add: bus_of_def)

lemma bus_of_loop_ends: "bus_of (loop_ends d n) d' = (if d' = d then Idle else bus_of n d')"
  by (rule bus_of_dict_set) (simp add: loop_ends_def)

lemma bus_of_end_session:
  "bus_of (end_session joined s n) d =
     (if d = cs_device s \<and> bus_of n d \<in> {Running, Stopping} then (if joined then Idle else Stopping) else bus_of n d)"
  by (cases "bus_of n (cs_device s)")
     (simp_all add: end_session_def stop_loop_def bus_of_loop_ends, simp_all add: bus_of_def put_session_def dict_simps)

text \<open>The requests that keep a session alive: its opening, and renewals by its own connection.\<close>

fun keeps_alive :: "conversions \<Rightarrow> string \<Rightarrow> string \<Rightarrow> control_event \<Rightarrow> bool" where
  "keeps_alive cv cid conn (Checked ticket ws w fault transport_open cid') \<longleftrightarrow> cid' = cid"
| "keeps_alive cv cid conn (Renew params conn') \<longleftrightarrow> conn' = conn \<and> param_str cv params ''control_id'' = cid"
| "keeps_alive cv cid conn (Update params conn') \<longleftrightarrow> conn' = conn \<and> param_str cv params ''control_id'' = cid"
| "keeps_alive cv cid conn _ \<longleftrightarrow> False"

definition ids_ok :: "control_node \<Rightarrow> bool" where
  "ids_ok n \<longleftrightarrow> (\<forall>cid s. map_of (cn_sessions n) cid = Some s \<longrightarrow> cs_id s = cid)"

text \<open>What one event does to the sessions and the loops.\<close>

definition unchanged :: "control_node \<Rightarrow> control_node \<Rightarrow> bool" where
  "unchanged n n' \<longleftrightarrow> cn_sessions n' = cn_sessions n \<and> cn_buses n' = cn_buses n"

definition renewed_in :: "conversions \<Rightarrow> real \<Rightarrow> control_event \<Rightarrow> control_node \<Rightarrow> control_node \<Rightarrow> bool" where
  "renewed_in cv now e n n' \<longleftrightarrow> cn_buses n' = cn_buses n
     \<and> (\<exists>s. map_of (cn_sessions n) (cs_id s) = Some s \<and> \<not> cs_halted s \<and> keeps_alive cv (cs_id s) (cs_conn s) e
          \<and> cn_sessions n' = dict_set (cs_id s) (s\<lparr>cs_renewed := now\<rparr>) (cn_sessions n))"

definition slept_in :: "real \<Rightarrow> control_node \<Rightarrow> control_node \<Rightarrow> bool" where
  "slept_in now n n' \<longleftrightarrow> cn_buses n' = cn_buses n
     \<and> (\<exists>s w. map_of (cn_sessions n) (cs_id s) = Some s \<and> (\<not> cs_halted s \<longrightarrow> 0 < expires_in now s \<and> w = Some (now + min (expires_in now s) (cs_lease s / 2)))
          \<and> cn_sessions n' = dict_set (cs_id s) (s\<lparr>cs_wake := w\<rparr>) (cn_sessions n))"

definition ended_in :: "control_node \<Rightarrow> control_node \<Rightarrow> bool" where
  "ended_in n n' \<longleftrightarrow>
     (\<exists>s joined. map_of (cn_sessions n) (cs_id s) = Some s \<and> \<not> cs_halted s \<and> cn_sessions n' = cn_sessions (end_session joined s n)
        \<and> cn_buses n' = cn_buses (end_session joined s n))"

definition opened_in :: "real \<Rightarrow> control_event \<Rightarrow> control_node \<Rightarrow> control_node \<Rightarrow> bool" where
  "opened_in now e n n' \<longleftrightarrow>
     (\<exists>ticket ws w fault opn cid r b. e = Checked ticket ws w fault opn cid \<and> map_of (cn_opening n) ticket = Some r
        \<and> map_of (cn_sessions n) cid = None \<and> bus_of n (or_device r) = Idle \<and> b = (if opn then Running else Stuck)
        \<and> cn_sessions n' = dict_set cid (new_session cid r now) (cn_sessions n) \<and> cn_buses n' = dict_set (or_device r) b (cn_buses n))"

lemma comm_loss_step:
  assumes "map_of (cn_sessions n) cid = Some s" "ids_ok n"
  shows "unchanged n (comm_loss joined reaches s n) \<or> ended_in n (comm_loss joined reaches s n)"
proof (cases "cs_halted s")
  case False
  then show ?thesis
    using assms unfolding comm_loss_def ended_in_def ids_ok_def Let_def
    by (intro disjI2 exI [of _ s] exI [of _ joined]) auto
qed (simp add: comm_loss_def unchanged_def)

lemma owned_session:
  "owned cv params conn n = Inr s \<Longrightarrow> ids_ok n
     \<Longrightarrow> map_of (cn_sessions n) (cs_id s) = Some s \<and> cs_conn s = conn \<and> param_str cv params ''control_id'' = cs_id s"
  by (auto simp: owned_def ids_ok_def split: option.splits if_splits)

lemma renewed_put:
  assumes "owned cv params conn n = Inr s" "ids_ok n" "\<not> cs_halted s" "e = Renew params conn \<or> e = Update params conn"
  shows "renewed_in cv now e n (put_session (s\<lparr>cs_renewed := now\<rparr>) n)"
  using owned_session [OF assms(1,2)] assms(3,4) unfolding renewed_in_def by auto

lemma renew_step:
  assumes "ids_ok n"
  shows "unchanged n (snd (renew_session cv params conn now n)) \<or> renewed_in cv now (Renew params conn) n (snd (renew_session cv params conn now n))"
    and "unchanged n (snd (update_session cv params conn now n)) \<or> renewed_in cv now (Update params conn) n (snd (update_session cv params conn now n))"
  using renewed_put [OF _ assms]
  by (simp_all add: renew_session_def update_session_def unchanged_def Let_def split: sum.split)

lemma close_step:
  assumes "ids_ok n"
  shows "unchanged n (snd (close_session cv joined params conn n)) \<or> ended_in n (snd (close_session cv joined params conn n))"
proof (cases "owned cv params conn n")
  case (Inr s)
  then show ?thesis
    using owned_session [OF Inr assms] by (auto simp: close_session_def stop_session_def unchanged_def ended_in_def)
qed (simp add: close_session_def unchanged_def)

lemma watch_step:
  assumes "ids_ok n"
  shows "unchanged n (watchdog_runs joined suspends reaches now cid n) \<or> slept_in now n (watchdog_runs joined suspends reaches now cid n)
     \<or> ended_in n (watchdog_runs joined suspends reaches now cid n)"
proof (cases "map_of (cn_sessions n) cid")
  case (Some s)
  then have id: "cs_id s = cid" using assms by (simp add: ids_ok_def)
  have "slept_in now n (put_session (s\<lparr>cs_wake := w\<rparr>) n)"
    if "\<not> cs_halted s \<longrightarrow> 0 < expires_in now s \<and> w = Some (now + min (expires_in now s) (cs_lease s / 2))" for w
    using Some id that unfolding slept_in_def by auto
  then show ?thesis
    using comm_loss_step [OF Some assms, of joined "reaches \<and> \<not> suspends"] Some by (auto simp: watchdog_runs_def)
qed (simp add: watchdog_runs_def unchanged_def)

lemma drop_step:
  assumes "ids_ok n"
  shows "unchanged n (drop_next joined reaches i n) \<or> ended_in n (drop_next joined reaches i n)"
proof -
  obtain conn cids where d: "cn_dropping n ! i = (conn, cids)" by fastforce
  show ?thesis
  proof (cases cids)
    case (Cons cid rem)
    let ?n = "n\<lparr>cn_dropping := (cn_dropping n)[i := (conn, rem)]\<rparr>"
    have same: "unchanged ?n n' = unchanged n n'" "ended_in ?n n' = ended_in n n'" for n'
      by (simp_all add: unchanged_def ended_in_def end_session_def stop_loop_def put_session_def bus_of_def loop_ends_def split: bus.split)
    have "ids_ok ?n" using assms by (simp add: ids_ok_def)
    then have "unchanged n (comm_loss joined reaches s ?n) \<or> ended_in n (comm_loss joined reaches s ?n)"
      if "map_of (cn_sessions n) cid = Some s" for s
      using comm_loss_step [of ?n cid s joined reaches] that unfolding same by simp
    then show ?thesis using d Cons by (auto simp: drop_next_def Let_def unchanged_def split: option.splits)
  qed (simp add: drop_next_def d unchanged_def)
qed

lemma open_step:
  "unchanged n (snd (open_begin cv cxs ticket params conn n))"
  "control_enabled now (Checked ticket ws w fault opn cid) n \<Longrightarrow>
     unchanged n (snd (open_end cxs ws w fault opn cid now ticket n))
     \<or> opened_in now (Checked ticket ws w fault opn cid) n (snd (open_end cxs ws w fault opn cid now ticket n))"
  subgoal by (simp add: open_begin_def unchanged_def Let_def split: option.split)
  subgoal
    by (auto simp: open_end_def unchanged_def opened_in_def Let_def start_loop_def bus_of_def map_of_eq_None_iff
      split: option.splits bind_splits)
  done

lemma control_step_cases:
  fixes cv :: conversions and cxs :: "string \<Rightarrow> node_context option"
  assumes "control_enabled now e n" "ids_ok n"
  defines "n' \<equiv> control_step cv cxs now e n"
  obtains "unchanged n n'" | "renewed_in cv now e n n'" | "slept_in now n n'" | "ended_in n n'" | "opened_in now e n n'"
    | d where "e = LoopEnds d" "n' = loop_ends d n" "bus_of n d \<in> {Running, Stopping}"
proof (cases e)
  case (Open ticket params conn)
  then show ?thesis using that(1) open_step(1) by (simp add: n'_def)
next
  case (Checked ticket ws w fault opn cid)
  then show ?thesis using that(1,5) open_step(2) [of now ticket ws w fault opn cid n cxs] assms(1) unfolding n'_def by (metis control_step.simps(2))
next
  case (Renew params conn)
  then show ?thesis using that(1,2) renew_step(1) [OF assms(2), of cv params conn now] unfolding n'_def by auto
next
  case (Update params conn)
  then show ?thesis using that(1,2) renew_step(2) [OF assms(2), of cv params conn now] unfolding n'_def by auto
next
  case (Close joined params conn)
  then show ?thesis using that(1,4) close_step [OF assms(2), of cv joined params conn] unfolding n'_def by auto
next
  case (Watch joined suspends reaches cid)
  then show ?thesis using that(1,3,4) watch_step [OF assms(2), of joined suspends reaches now cid] unfolding n'_def by auto
next
  case (Disconnect conn)
  then show ?thesis using that(1) by (simp add: n'_def unchanged_def disconnect_def)
next
  case (DropNext joined reaches i)
  then show ?thesis using that(1,4) drop_step [OF assms(2), of joined reaches i] unfolding n'_def by auto
next
  case (LoopEnds d)
  then show ?thesis using that(6) [of d] assms(1) by (simp add: n'_def)
qed

section \<open>Invariants\<close>

definition live :: "control_node \<Rightarrow> string \<Rightarrow> control_session \<Rightarrow> bool" where
  "live n cid s \<longleftrightarrow> map_of (cn_sessions n) cid = Some s \<and> \<not> cs_halted s"

lemma live_cong: "cn_sessions n' = cn_sessions n \<Longrightarrow> live n' cid s \<longleftrightarrow> live n cid s"
  by (simp add: live_def)

text \<open>The live sessions after each kind of change.\<close>

lemma live_renewed:
  assumes "renewed_in cv now e n n'" "live n' cid s"
  shows "live n cid s \<or> (\<exists>s0. live n cid s0 \<and> s = s0\<lparr>cs_renewed := now\<rparr> \<and> keeps_alive cv cid (cs_conn s) e)"
  using assms by (auto simp: renewed_in_def live_def dict_simps split: if_splits)

lemma live_slept:
  assumes "slept_in now n n'" "live n' cid s"
  shows "live n cid s \<or> (\<exists>s0. live n cid s0 \<and> 0 < expires_in now s0
       \<and> s = s0\<lparr>cs_wake := Some (now + min (expires_in now s0) (cs_lease s0 / 2))\<rparr>)"
  using assms by (auto simp: slept_in_def live_def dict_simps split: if_splits)

lemma live_ended: "ended_in n n' \<Longrightarrow> live n' cid s \<Longrightarrow> live n cid s"
  by (auto simp: ended_in_def live_def dict_simps split: if_splits)

lemma live_opened:
  assumes "opened_in now e n n'" "live n' cid s"
  shows "live n cid s \<or> (\<exists>ticket ws w fault opn r. e = Checked ticket ws w fault opn cid \<and> map_of (cn_opening n) ticket = Some r
     \<and> map_of (cn_sessions n) cid = None \<and> s = new_session cid r now)"
  using assms by (auto simp: opened_in_def live_def dict_simps split: if_splits)

lemma ids_ok_put: "ids_ok n \<Longrightarrow> cn_sessions n' = dict_set cid s (cn_sessions n) \<Longrightarrow> cs_id s = cid \<Longrightarrow> ids_ok n'"
  by (simp add: ids_ok_def dict_simps)

lemma ids_ok_step:
  assumes "control_enabled now e n" "ids_ok n"
  shows "ids_ok (control_step cv cxs now e n)"
  using assms
proof (cases rule: control_step_cases [where cv = cv and cxs = cxs])
  case 2
  then show ?thesis using assms(2) by (auto simp: renewed_in_def intro: ids_ok_put)
next
  case 3
  then show ?thesis using assms(2) by (auto simp: slept_in_def intro: ids_ok_put)
next
  case 4
  then show ?thesis using assms(2) by (auto simp: ended_in_def intro: ids_ok_put)
next
  case 5
  then show ?thesis using assms(2) by (auto simp: opened_in_def new_session_def intro: ids_ok_put)
qed (use assms(2) in \<open>simp_all add: unchanged_def ids_ok_def\<close>)

lemma ids_ok_run: "control_run cv cxs allowed es t n \<Longrightarrow> ids_ok n"
  by (induction rule: control_run.induct) (simp_all add: ids_ok_step, simp add: ids_ok_def new_control_node_def)

text \<open>Leases are in range.\<close>

definition lease_ok :: "real \<Rightarrow> bool" where
  "lease_ok l \<longleftrightarrow> 2 / 10 \<le> l \<and> l \<le> 10"

definition leases_ok :: "control_node \<Rightarrow> bool" where
  "leases_ok n \<longleftrightarrow> (\<forall>ticket r. map_of (cn_opening n) ticket = Some r \<longrightarrow> lease_ok (or_lease r))"

lemma lease_ok_parse: "lease_ok (parse_lease cv params)"
  by (simp add: lease_ok_def parse_lease_def Let_def)

lemma opening_kept [simp]:
  "cn_opening (snd (renew_session cv params conn now n)) = cn_opening n"
  "cn_opening (snd (update_session cv params conn now n)) = cn_opening n"
  "cn_opening (comm_loss joined reaches s n) = cn_opening n"
  "cn_opening (snd (close_session cv joined params conn n)) = cn_opening n"
  by (simp_all add: renew_session_def update_session_def comm_loss_def close_session_def stop_session_def Let_def split: sum.split)

lemma leases_ok_step:
  assumes "leases_ok n"
  shows "leases_ok (control_step cv cxs now e n)"
proof (cases e)
  case (Open ticket params conn)
  then show ?thesis
    using assms lease_ok_parse
    by (auto simp: leases_ok_def open_begin_def Let_def map_add_def split: option.splits if_splits)
next
  case (Checked ticket ws w fault opn cid)
  have "map_of (filter (\<lambda>p. fst p \<noteq> ticket) ps) k = (if k = ticket then None else map_of ps k)" for k and ps :: "(nat \<times> open_request) list"
    by (induction ps) auto
  then have "leases_ok (n\<lparr>cn_opening := filter (\<lambda>p. fst p \<noteq> ticket) (cn_opening n)\<rparr>)"
    using assms by (simp add: leases_ok_def)
  then show ?thesis
    using assms Checked by (simp add: leases_ok_def open_end_def Let_def start_loop_def split: option.split)
next
  case (Watch joined suspends reaches cid)
  then show ?thesis using assms by (simp add: leases_ok_def watchdog_runs_def split: option.split)
next
  case (DropNext joined reaches i)
  then show ?thesis
    using assms by (auto simp: leases_ok_def drop_next_def Let_def split: prod.splits list.splits option.splits)
qed (use assms in \<open>simp_all add: leases_ok_def disconnect_def\<close>)

lemma leases_ok_run: "control_run cv cxs allowed es t n \<Longrightarrow> leases_ok n"
  by (induction rule: control_run.induct) (simp_all add: leases_ok_step, simp add: leases_ok_def new_control_node_def)

text \<open>A live session's watchdog is due no later than its lease, which counts from a request of its connection.\<close>

definition kept_alive :: "conversions \<Rightarrow> (real \<times> control_event) list \<Rightarrow> string \<Rightarrow> control_session \<Rightarrow> bool" where
  "kept_alive cv es cid s \<longleftrightarrow> lease_ok (cs_lease s) \<and> (\<exists>w. cs_wake s = Some w \<and> w \<le> expires_at s)
     \<and> (\<exists>e. (cs_renewed s, e) \<in> set es \<and> keeps_alive cv cid (cs_conn s) e)"

definition renewed_until :: "real \<Rightarrow> control_session \<Rightarrow> bool" where
  "renewed_until t s \<longleftrightarrow> cs_renewed s \<le> t"

lemma kept_alive_more: "kept_alive cv es cid s \<Longrightarrow> kept_alive cv (e # es) cid s"
  by (auto simp: kept_alive_def)

lemma kept_alive_run:
  "control_run cv cxs allowed es t n \<Longrightarrow> live n cid s \<Longrightarrow> kept_alive cv es cid s \<and> cs_renewed s \<le> t"
proof (induction arbitrary: cid s rule: control_run.induct)
  case (event es t n now e)
  note ids = ids_ok_run [OF event.hyps(1)] and opn = leases_ok_run [OF event.hyps(1)]
  have old: "kept_alive cv ((now, e) # es) cid s0 \<and> cs_renewed s0 \<le> now" if "live n cid s0" for cid s0
    using event.IH [OF that] event.hyps(2) kept_alive_more by force
  show ?case
  proof (cases rule: control_step_cases [OF event.hyps(3) ids, where cv = cv and cxs = cxs])
    case 1
    then show ?thesis using old [of cid s] event.prems by (simp add: unchanged_def live_def)
  next
    case 2
    show ?thesis
    proof (cases "live n cid s")
      case False
      then obtain s0 where s0: "live n cid s0" "s = s0\<lparr>cs_renewed := now\<rparr>" "keeps_alive cv cid (cs_conn s) e"
        using live_renewed [OF 2 event.prems] by blast
      then show ?thesis using old [OF s0(1)] by (auto simp: kept_alive_def expires_at_def)
    qed (use old in simp)
  next
    case 3
    show ?thesis
    proof (cases "live n cid s")
      case False
      then obtain s0 where s0: "live n cid s0" "s = s0\<lparr>cs_wake := Some (now + min (expires_in now s0) (cs_lease s0 / 2))\<rparr>"
        "0 < expires_in now s0"
        using live_slept [OF 3 event.prems] by blast
      have "now + min (expires_in now s0) (cs_lease s0 / 2) \<le> expires_at s0"
        using s0(3) by (simp add: expires_in_def)
      then show ?thesis using old [OF s0(1)] s0(2) by (auto simp: kept_alive_def expires_at_def)
    qed (use old in simp)
  next
    case 4
    then show ?thesis using old live_ended event.prems by blast
  next
    case 5
    show ?thesis
    proof (cases "live n cid s")
      case False
      then obtain ticket ws w fault opn r where r: "e = Checked ticket ws w fault opn cid" "map_of (cn_opening n) ticket = Some r"
        "s = new_session cid r now"
        using live_opened [OF 5 event.prems] by blast
      have "lease_ok (or_lease r)" using opn r(2) by (auto simp: leases_ok_def)
      moreover have "keeps_alive cv cid (cs_conn s) e" using r(1) by simp
      moreover have "(cs_renewed s, e) \<in> set ((now, e) # es)" using r(3) by (simp add: new_session_def)
      ultimately show ?thesis
        unfolding kept_alive_def using r(3) by (intro conjI exI [of _ now] exI [of _ e]) (simp_all add: new_session_def expires_at_def lease_ok_def)
    qed (use old in simp)
  next
    case (6 d)
    then show ?thesis using old [of cid s] event.prems by (simp add: live_def)
  qed
next
  case (wait es t n now)
  then show ?case using order_trans by blast
qed (simp add: live_def new_control_node_def)

text \<open>A loop that runs is held by a live session.\<close>

definition held :: "control_node \<Rightarrow> bool" where
  "held n \<longleftrightarrow> (\<forall>d. bus_of n d = Running \<longrightarrow> (\<exists>cid s. live n cid s \<and> cs_device s = d))"

lemma live_put:
  assumes "cn_sessions n' = dict_set k y (cn_sessions n)" "map_of (cn_sessions n) k = Some x"
    and "cs_device y = cs_device x" "cs_halted y = cs_halted x" "live n cid s"
  shows "\<exists>s'. live n' cid s' \<and> cs_device s' = cs_device s"
  using assms by (cases "cid = k") (auto simp: live_def dict_simps)

lemma live_stays:
  "renewed_in cv now e n n' \<Longrightarrow> live n cid s \<Longrightarrow> \<exists>s'. live n' cid s' \<and> cs_device s' = cs_device s"
  "slept_in now n n' \<Longrightarrow> live n cid s \<Longrightarrow> \<exists>s'. live n' cid s' \<and> cs_device s' = cs_device s"
  "opened_in now e n n' \<Longrightarrow> live n cid s \<Longrightarrow> \<exists>s'. live n' cid s' \<and> cs_device s' = cs_device s"
  subgoal by (auto simp: renewed_in_def intro!: live_put)
  subgoal unfolding slept_in_def by (elim conjE exE) (rule live_put, assumption+, simp_all)
  subgoal by (auto simp: opened_in_def live_def dict_simps)
  done

lemma held_step:
  assumes en: "control_enabled now e n" and ids: "ids_ok n" and held: "held n"
  shows "held (control_step cv cxs now e n)"
  unfolding held_def
proof (intro allI impI)
  fix d
  let ?n = "control_step cv cxs now e n"
  assume run: "bus_of ?n d = Running"
  note same = bus_of_cong [of ?n n d] and old = held [unfolded held_def, rule_format, of d]
  show "\<exists>cid s. live ?n cid s \<and> cs_device s = d"
  proof (cases rule: control_step_cases [OF en ids, where cv = cv and cxs = cxs])
    case 1
    then show ?thesis using old same run by (simp add: unchanged_def live_def)
  next
    case 2
    then show ?thesis using old same run live_stays(1) [OF 2] unfolding renewed_in_def by metis
  next
    case 3
    then show ?thesis using old same run live_stays(2) [OF 3] unfolding slept_in_def by metis
  next
    case 4
    then obtain s joined where s: "cn_sessions ?n = cn_sessions (end_session joined s n)" "cn_buses ?n = cn_buses (end_session joined s n)"
      "map_of (cn_sessions n) (cs_id s) = Some s"
      by (auto simp: ended_in_def)
    then have "bus_of n d = Running" "d \<noteq> cs_device s"
      using run bus_of_cong [OF s(2)] by (auto simp: bus_of_end_session split: if_splits)
    then obtain cid s' where s': "live n cid s'" "cs_device s' = d" using old by blast
    moreover have "cid \<noteq> cs_id s" using s' \<open>d \<noteq> cs_device s\<close> s(3) by (auto simp: live_def)
    ultimately show ?thesis using s(1) by (auto simp: live_def dict_simps)
  next
    case 5
    then obtain cid r b where o: "cn_buses ?n = dict_set (or_device r) b (cn_buses n)"
      "cn_sessions ?n = dict_set cid (new_session cid r now) (cn_sessions n)" "map_of (cn_sessions n) cid = None"
      by (auto simp: opened_in_def)
    show ?thesis
    proof (cases "d = or_device r")
      case True
      then show ?thesis using o(2) by (auto simp: live_def dict_simps new_session_def intro!: exI [of _ cid])
    next
      case False
      then have "bus_of n d = Running" using run bus_of_dict_set [OF o(1)] by simp
      then show ?thesis using old live_stays(3) [OF 5] by metis
    qed
  next
    case (6 d')
    then show ?thesis using old run by (auto simp: bus_of_loop_ends live_def split: if_splits)
  qed
qed

lemma held_run: "control_run cv cxs allowed es t n \<Longrightarrow> held n"
  by (induction rule: control_run.induct)
     (simp_all add: held_step ids_ok_run, simp add: held_def new_control_node_def bus_of_def)

text \<open>
  A loop that counts as running and does not run: it was told to stop when its session halted, or it
  was started on a closed transport and its thread returned before its first command.
\<close>

definition told_to_stop :: "control_node \<Rightarrow> string \<Rightarrow> bool" where
  "told_to_stop n d \<longleftrightarrow> (\<exists>cid s. map_of (cn_sessions n) cid = Some s \<and> cs_device s = d \<and> cs_halted s)"

definition started_closed :: "(real \<times> control_event) list \<Rightarrow> control_node \<Rightarrow> string \<Rightarrow> bool" where
  "started_closed es n d \<longleftrightarrow> (\<exists>now ticket ws w fault cid s. (now, Checked ticket ws w fault False cid) \<in> set es
     \<and> map_of (cn_sessions n) cid = Some s \<and> cs_device s = d)"

definition accounted :: "(real \<times> control_event) list \<Rightarrow> control_node \<Rightarrow> bool" where
  "accounted es n \<longleftrightarrow> (\<forall>d. (bus_of n d = Stopping \<longrightarrow> told_to_stop n d) \<and> (bus_of n d = Stuck \<longrightarrow> started_closed es n d))"

definition grown :: "control_node \<Rightarrow> control_node \<Rightarrow> bool" where
  "grown n n' \<longleftrightarrow> (\<forall>cid s. map_of (cn_sessions n) cid = Some s
     \<longrightarrow> (\<exists>s'. map_of (cn_sessions n') cid = Some s' \<and> cs_device s' = cs_device s \<and> (cs_halted s \<longrightarrow> cs_halted s')))"

lemma grownI:
  "cn_sessions n' = cn_sessions n \<Longrightarrow> grown n n'"
  "cn_sessions n' = dict_set cid s' (cn_sessions n) \<Longrightarrow> map_of (cn_sessions n) cid = Some s
     \<Longrightarrow> cs_device s' = cs_device s \<Longrightarrow> (cs_halted s \<Longrightarrow> cs_halted s') \<Longrightarrow> grown n n'"
  "cn_sessions n' = dict_set cid s' (cn_sessions n) \<Longrightarrow> map_of (cn_sessions n) cid = None \<Longrightarrow> grown n n'"
  by (auto simp: grown_def dict_simps)

lemma grown_step:
  assumes "control_enabled now e n" "ids_ok n"
  shows "grown n (control_step cv cxs now e n)"
proof (cases rule: control_step_cases [OF assms, where cv = cv and cxs = cxs])
  case 2
  then show ?thesis unfolding renewed_in_def by (auto intro: grownI(2))
next
  case 3
  then show ?thesis unfolding slept_in_def by (auto intro: grownI(2))
next
  case 4
  then show ?thesis unfolding ended_in_def by (auto intro: grownI(2))
next
  case 5
  then show ?thesis unfolding opened_in_def by (auto intro: grownI(3))
qed (simp_all add: grownI(1) unchanged_def)

lemma grown_keeps:
  assumes "grown n n'"
  shows "told_to_stop n d \<Longrightarrow> told_to_stop n' d" "started_closed es n d \<Longrightarrow> started_closed (e # es) n' d"
  using assms unfolding grown_def told_to_stop_def started_closed_def by (meson, metis list.set_intros(2))

lemma accounted_step:
  assumes en: "control_enabled now e n" and ids: "ids_ok n" and acc: "accounted es n"
  shows "accounted ((now, e) # es) (control_step cv cxs now e n)"
proof -
  let ?n = "control_step cv cxs now e n"
  have old: "told_to_stop ?n d" if "bus_of n d = Stopping" for d
    using acc that grown_keeps(1) [OF grown_step [OF en ids]] by (auto simp: accounted_def)
  have oldc: "started_closed ((now, e) # es) ?n d" if "bus_of n d = Stuck" for d
    using acc that grown_keeps(2) [OF grown_step [OF en ids]] by (auto simp: accounted_def)
  have same: "accounted ((now, e) # es) ?n" if "cn_buses ?n = cn_buses n"
    using old oldc bus_of_cong [OF that] by (simp add: accounted_def)
  show ?thesis
  proof (cases rule: control_step_cases [OF en ids, where cv = cv and cxs = cxs])
    case 4
    then obtain s joined where s: "cn_sessions ?n = cn_sessions (end_session joined s n)" "cn_buses ?n = cn_buses (end_session joined s n)"
      by (auto simp: ended_in_def)
    then have "told_to_stop ?n (cs_device s)"
      by (auto simp: told_to_stop_def dict_simps intro!: exI [of _ "cs_id s"])
    then show ?thesis
      using old oldc bus_of_cong [OF s(2)] by (auto simp: accounted_def bus_of_end_session split: if_splits)
  next
    case 5
    then obtain ticket ws w fault opn cid r where o: "e = Checked ticket ws w fault opn cid"
      "cn_buses ?n = dict_set (or_device r) (if opn then Running else Stuck) (cn_buses n)"
      "cn_sessions ?n = dict_set cid (new_session cid r now) (cn_sessions n)"
      by (auto simp: opened_in_def)
    then have "\<not> opn \<Longrightarrow> started_closed ((now, e) # es) ?n (or_device r)"
      by (fastforce simp: started_closed_def dict_simps new_session_def)
    then show ?thesis
      using old oldc bus_of_dict_set [OF o(2)] by (auto simp: accounted_def split: if_splits)
  next
    case (6 d)
    then show ?thesis using old oldc by (auto simp: accounted_def bus_of_loop_ends)
  qed (auto intro: same simp: unchanged_def renewed_in_def slept_in_def)
qed

lemma accounted_run: "control_run cv cxs allowed es t n \<Longrightarrow> accounted es n"
  by (induction rule: control_run.induct)
     (simp_all add: accounted_step ids_ok_run, simp add: accounted_def new_control_node_def bus_of_def)

section \<open>A node with one device\<close>

definition sample_contexts :: "string \<Rightarrow> node_context option" where
  "sample_contexts d = (if d = ''d'' then Some sample_context else None)"

definition open_params :: "pyval dict" where
  "open_params = [(''device_id'', PStr ''d''), (''lease_s'', PFloat 1)]"

abbreviation checked :: "nat \<Rightarrow> bool \<Rightarrow> string \<Rightarrow> control_event" where
  "checked ticket transport_open cid \<equiv> Checked ticket (\<lambda>_. sample_world 0) (sample_world 0) False transport_open cid"

definition control_steps :: "(real \<times> control_event) list \<Rightarrow> control_node" where
  "control_steps es = fold (\<lambda>(now, e). control_step sample_conv sample_contexts now e) es new_control_node"

definition demo_session :: "string \<Rightarrow> control_session" where
  "demo_session cid = new_session cid \<lparr>or_device = ''d'', or_mode = [], or_frequency = 100, or_channels = [], or_lease = 1,
     or_policy = ''halt'', or_conn = ''c''\<rparr> 0"

lemmas control_demo = control_steps_def sample_contexts_def open_params_def sample_conv_def sample_world_def sample_context_def sample_channel_def
  new_control_node_def open_begin_def open_end_def parse_frequency_def parse_lease_def parse_channels_def param_str_def get_or_def
  py_str_def py_float_def py_truthy_def control_precheck_def is_writable_def failed_interlocks_def required_interlocks_def interlock_view_def
  channel_view_def start_loop_def bus_of_def dict_set_def new_session_def Let_def

lemma demo_opened:
  "control_steps [(0, Open 0 open_params ''c''), (0, checked 0 True ''s'')]
     = \<lparr>cn_sessions = [(''s'', demo_session ''s'')], cn_devices = [(''d'', ''s'')], cn_buses = [(''d'', Running)],
        cn_opening = [], cn_dropping = [], cn_halts = []\<rparr>"
  by (simp add: control_demo demo_session_def)

lemma demo_run:
  assumes "\<And>ticket params conn n. allowed (Open ticket params conn) n" "\<And>ticket ws w fault opn cid n. allowed (Checked ticket ws w fault opn cid) n"
  shows "control_run sample_conv sample_contexts allowed [(0, checked 0 True ''s''), (0, Open 0 open_params ''c'')] 0
     (control_steps [(0, Open 0 open_params ''c''), (0, checked 0 True ''s'')])"
proof -
  let ?n = "control_step sample_conv sample_contexts 0 (Open 0 open_params ''c'') new_control_node"
  have "control_run sample_conv sample_contexts allowed [(0, Open 0 open_params ''c'')] 0 ?n"
    using control_run.event [OF control_run.start, of 0 0 "Open 0 open_params ''c''"] assms(1) by (simp add: new_control_node_def)
  moreover have "control_enabled 0 (checked 0 True ''s'') ?n" by (simp add: control_demo)
  ultimately have "control_run sample_conv sample_contexts allowed ((0, checked 0 True ''s'') # [(0, Open 0 open_params ''c'')]) 0
      (control_step sample_conv sample_contexts 0 (checked 0 True ''s'') ?n)"
    using assms(2) by (intro control_run.event) auto
  then show ?thesis by (simp add: control_steps_def)
qed

text \<open>The three ways in which a loop counts as running.\<close>

lemma running_held:
  assumes "control_run cv cxs allowed es t n" "bus_of n d = Running"
    and "\<And>cid s w. map_of (cn_sessions n) cid = Some s \<Longrightarrow> cs_wake s = Some w \<Longrightarrow> t \<le> w + latency"
  shows "\<exists>cid s now e. map_of (cn_sessions n) cid = Some s \<and> cs_device s = d \<and> \<not> cs_halted s
     \<and> (now, e) \<in> set es \<and> keeps_alive cv cid (cs_conn s) e \<and> cs_lease s \<le> 10 \<and> now \<le> t \<and> t \<le> now + cs_lease s + latency"
proof -
  obtain cid s where s: "live n cid s" "cs_device s = d" using held_run [OF assms(1)] assms(2) by (auto simp: held_def)
  then obtain w e where "cs_wake s = Some w" "w \<le> expires_at s" "(cs_renewed s, e) \<in> set es" "keeps_alive cv cid (cs_conn s) e"
    "lease_ok (cs_lease s)" "cs_renewed s \<le> t"
    using kept_alive_run [OF assms(1) s(1)] by (auto simp: kept_alive_def)
  moreover have "t \<le> w + latency" using assms(3) [of cid s w] s(1) calculation(1) by (simp add: live_def)
  ultimately show ?thesis
    using s by (intro exI [of _ cid] exI [of _ s] exI [of _ "cs_renewed s"] exI [of _ e]) (auto simp: live_def expires_at_def lease_ok_def)
qed

lemma counted_loop:
  assumes "control_run cv cxs allowed es t n"
  shows "bus_of n d = Stopping \<Longrightarrow> \<exists>cid s. map_of (cn_sessions n) cid = Some s \<and> cs_device s = d \<and> cs_halted s"
    and "bus_of n d = Stuck \<Longrightarrow> \<exists>now ticket ws w fault cid s. (now, Checked ticket ws w fault False cid) \<in> set es
       \<and> map_of (cn_sessions n) cid = Some s \<and> cs_device s = d"
  using accounted_run [OF assms] unfolding accounted_def told_to_stop_def started_closed_def by simp_all

text \<open>
  C14. Dead-man's switch. Suppose the watchdogs run no later than \<open>latency\<close> after they are due, and a
  device's loop counts as running at some time. Then one of three things holds. The loop's thread runs
  and has not been told to stop; then a live session of the device holds it, and the connection of that
  session opened, renewed or updated it within its lease, which is at most ten seconds, plus the
  latency. Or the loop has been told to stop, because a session of the device ended, and its thread has
  not yet done so: the code waits two seconds for it and no more, and nothing here bounds how long a
  driver call holds it. Or the loop was started while the transport was closed, and its thread returned
  without a command: such a loop counts as running though nothing runs, with or without a live
  session, and blocks its device. So once a client has been silent for its lease and the latency, what
  is left of a loop is one already told to stop or one that never ran.
\<close>

theorem control_deadman:
  assumes "control_run cv cxs allowed es t n" "bus_of n d \<noteq> Idle"
    and "\<And>cid s w. map_of (cn_sessions n) cid = Some s \<Longrightarrow> cs_wake s = Some w \<Longrightarrow> t \<le> w + latency"
  shows "case bus_of n d of
       Running \<Rightarrow> \<exists>cid s now e. map_of (cn_sessions n) cid = Some s \<and> cs_device s = d \<and> \<not> cs_halted s
         \<and> (now, e) \<in> set es \<and> keeps_alive cv cid (cs_conn s) e \<and> cs_lease s \<le> 10 \<and> now \<le> t \<and> t \<le> now + cs_lease s + latency
     | Stopping \<Rightarrow> \<exists>cid s. map_of (cn_sessions n) cid = Some s \<and> cs_device s = d \<and> cs_halted s
     | Stuck \<Rightarrow> \<exists>now ticket ws w fault cid s. (now, Checked ticket ws w fault False cid) \<in> set es
         \<and> map_of (cn_sessions n) cid = Some s \<and> cs_device s = d
     | Idle \<Rightarrow> False"
proof (cases "bus_of n d")
  case Idle
  then show ?thesis using assms(2) by simp
next
  case Running
  from running_held [OF assms(1) this assms(3)] show ?thesis by (simp only: Running bus.case)
qed (simp_all only: bus.case counted_loop [OF assms(1)])

theorem control_deadman_witness:
  "\<exists>cid s now e. map_of (cn_sessions (control_steps [(0, Open 0 open_params ''c''), (0, checked 0 True ''s'')])) cid = Some s
     \<and> cs_device s = ''d'' \<and> \<not> cs_halted s \<and> (now, e) \<in> set [(0, checked 0 True ''s''), (0, Open 0 open_params ''c'')]
     \<and> keeps_alive sample_conv cid (cs_conn s) e \<and> cs_lease s \<le> 10 \<and> now \<le> 1 \<and> 1 \<le> now + cs_lease s + 1"
proof -
  let ?n = "control_steps [(0, Open 0 open_params ''c''), (0, checked 0 True ''s'')]"
  have run: "control_run sample_conv sample_contexts (\<lambda>_ _. True) [(0, checked 0 True ''s''), (0, Open 0 open_params ''c'')] 1 ?n"
    by (rule control_run.wait [OF demo_run]) simp_all
  have b: "bus_of ?n ''d'' = Running" by (simp add: demo_opened bus_of_def)
  moreover have "1 \<le> w + 1" if "map_of (cn_sessions ?n) cid = Some s" "cs_wake s = Some w" for cid s w
    using that by (auto simp: demo_opened demo_session_def new_session_def split: if_splits)
  ultimately show ?thesis
    using control_deadman [OF run, of "''d''" 1] unfolding b by (simp only: bus.case bus.distinct not_False_eq_True)
qed

section \<open>One session for each device\<close>

definition only_stopped_end :: "control_event \<Rightarrow> control_node \<Rightarrow> bool" where
  "only_stopped_end e n \<longleftrightarrow> (\<forall>d. e = LoopEnds d \<longrightarrow> bus_of n d = Stopping)"

definition sole :: "control_node \<Rightarrow> bool" where
  "sole n \<longleftrightarrow> (\<forall>cid s. live n cid s \<longrightarrow> bus_of n (cs_device s) \<in> {Running, Stuck}
     \<and> (\<forall>cid' s'. live n cid' s' \<and> cs_device s' = cs_device s \<longrightarrow> cid' = cid))"

lemma sole_same:
  assumes "sole n" "\<And>d. bus_of n' d = bus_of n d" "\<And>cid s. live n' cid s \<Longrightarrow> \<exists>s0. live n cid s0 \<and> cs_device s = cs_device s0"
  shows "sole n'"
  using assms unfolding sole_def by metis

lemma sole_step:
  assumes en: "control_enabled now e n" "only_stopped_end e n" and ids: "ids_ok n" and sole: "sole n"
  shows "sole (control_step cv cxs now e n)"
proof -
  let ?n = "control_step cv cxs now e n"
  show ?thesis
  proof (cases rule: control_step_cases [OF en(1) ids, where cv = cv and cxs = cxs])
    case 1
    then show ?thesis by (intro sole_same [OF sole] bus_of_cong) (auto simp: unchanged_def live_def)
  next
    case 2
    then show ?thesis
      using live_renewed [OF 2] by (intro sole_same [OF sole] bus_of_cong) (force simp: renewed_in_def)+
  next
    case 3
    then show ?thesis
      using live_slept [OF 3] by (intro sole_same [OF sole] bus_of_cong) (force simp: slept_in_def)+
  next
    case 4
    then obtain s joined where s: "cn_sessions ?n = cn_sessions (end_session joined s n)" "cn_buses ?n = cn_buses (end_session joined s n)"
      "live n (cs_id s) s"
      by (auto simp: ended_in_def live_def)
    have live: "live n cid s' \<and> cs_device s' \<noteq> cs_device s" if "live ?n cid s'" for cid s'
    proof -
      have "live n cid s'" "cid \<noteq> cs_id s" using that s(1) by (auto simp: live_def dict_simps split: if_splits)
      then show ?thesis using sole s(3) unfolding sole_def by blast
    qed
    have "bus_of ?n d = bus_of n d" if "d \<noteq> cs_device s" for d using bus_of_cong [OF s(2)] that by (simp add: bus_of_end_session)
    then show ?thesis using sole live unfolding sole_def by metis
  next
    case 5
    then obtain cid r b where o: "cn_buses ?n = dict_set (or_device r) b (cn_buses n)" "b \<in> {Running, Stuck}" "bus_of n (or_device r) = Idle"
      "cn_sessions ?n = dict_set cid (new_session cid r now) (cn_sessions n)"
      by (auto simp: opened_in_def split: if_splits)
    have fresh: "cs_device s \<noteq> or_device r" if "live n cid s" for cid s using sole that o(3) unfolding sole_def by fastforce
    have live: "(cid' = cid \<and> cs_device s = or_device r) \<or> (cid' \<noteq> cid \<and> live n cid' s)" if "live ?n cid' s" for cid' s
      using that o(4) by (auto simp: live_def dict_simps new_session_def split: if_splits)
    show ?thesis
      unfolding sole_def
    proof (intro allI impI conjI, goal_cases)
      case (1 cid' s)
      then show ?case using live [OF 1] bus_of_dict_set [OF o(1)] o(2) sole fresh unfolding sole_def by metis
    next
      case (2 cid1 s1 cid2 s2)
      then show ?case using live [OF 2(1)] live [of cid2 s2] fresh sole unfolding sole_def by metis
    qed
  next
    case (6 d)
    then have "bus_of n d = Stopping" using en(2) by (simp add: only_stopped_end_def)
    then have "cs_device s \<noteq> d" if "live n cid s" for cid s using sole that unfolding sole_def by fastforce
    then show ?thesis using sole 6(2) unfolding sole_def by (simp add: live_def bus_of_loop_ends) blast
  qed
qed

text \<open>
  C37. One session for each device. As long as no control loop ends by itself, a device has at most one
  live session, whatever the order of requests, checks that suspend, watchdogs and disconnects, and
  its loop counts as running: of two opens that pass the check together only one starts the loop.
\<close>

theorem one_session_per_device:
  assumes "control_run cv cxs only_stopped_end es t n"
    and "map_of (cn_sessions n) cid = Some s" "\<not> cs_halted s" "map_of (cn_sessions n) cid' = Some s'" "\<not> cs_halted s'"
    and "cs_device s = cs_device s'"
  shows "cid = cid' \<and> bus_of n (cs_device s) \<in> {Running, Stuck}"
proof -
  have "sole n" using assms(1)
    by (induction rule: control_run.induct)
       (simp_all add: sole_step ids_ok_run, simp add: sole_def live_def new_control_node_def)
  then show ?thesis using assms(2-6) unfolding sole_def live_def by metis
qed

theorem one_session_per_device_witness:
  "\<exists>n. control_run sample_conv sample_contexts only_stopped_end [(0, checked 0 True ''s''), (0, Open 0 open_params ''c'')] 0 n
     \<and> map_of (cn_sessions n) ''s'' = Some (demo_session ''s'') \<and> bus_of n ''d'' \<in> {Running, Stuck}"
proof -
  let ?n = "control_steps [(0, Open 0 open_params ''c''), (0, checked 0 True ''s'')]"
  have run: "control_run sample_conv sample_contexts only_stopped_end [(0, checked 0 True ''s''), (0, Open 0 open_params ''c'')] 0 ?n"
    by (rule demo_run) (simp_all add: only_stopped_end_def)
  have s: "map_of (cn_sessions ?n) ''s'' = Some (demo_session ''s'')" "\<not> cs_halted (demo_session ''s'')" "cs_device (demo_session ''s'') = ''d''"
    by (simp_all add: demo_opened demo_session_def new_session_def)
  from one_session_per_device [OF run s(1,2) s(1,2)] show ?thesis using run s by auto
qed

section \<open>What the sessions do not do\<close>

text \<open>If a loop ends by itself between two opens that passed the check, both sessions live.\<close>

lemma two_sessions_when_loop_ends:
  "map (cs_halted \<circ> snd) (cn_sessions (control_steps
     [(0, Open 0 open_params ''c''), (0, Open 1 open_params ''c''), (0, checked 0 True ''s''), (0, LoopEnds ''d''), (0, checked 1 True ''t'')]))
     = [False, False]"
  by (simp add: control_demo loop_ends_def)

text \<open>A session opened while the transport is not open never runs, and its device takes no session after it.\<close>

lemma unopened_transport_sticks:
  "fst (open_end sample_contexts (\<lambda>_. sample_world 0) (sample_world 0) False True ''t'' 0 1 (control_steps
     [(0, Open 0 open_params ''c''), (0, checked 0 False ''s''), (0, Close True [(''control_id'', PStr ''s'')] ''c''), (0, Open 1 open_params ''c'')]))
     = Some (ControlError ''control_start_failed'')"
  by (simp add: control_demo close_session_def owned_def stop_session_def end_session_def stop_loop_def put_session_def)

text \<open>The halt a session asks for when its lease expires is cancelled with its watchdog, if it suspends.\<close>

lemma expiry_halt_cancelled:
  "PolicyHalt d \<in> set (cn_halts (watchdog_runs joined True reaches now cid n)) \<longleftrightarrow> PolicyHalt d \<in> set (cn_halts n)"
  by (auto simp: watchdog_runs_def comm_loss_def end_session_def stop_loop_def loop_ends_def put_session_def split: option.split bus.split)

text \<open>The policy \<open>hold\<close> halts the device all the same: the loop halts it when it stops.\<close>

lemma hold_halts:
  "cs_policy s = ''hold'' \<Longrightarrow> \<not> cs_halted s \<Longrightarrow> bus_of n (cs_device s) = Running
     \<Longrightarrow> cn_halts (comm_loss True reaches s n) = cn_halts n @ [LoopHalt (cs_device s)]"
  by (simp add: comm_loss_def end_session_def stop_loop_def loop_ends_def put_session_def bus_of_def)

end
