(* ===== verification/Event_Store.thy ===== *)
theory Event_Store imports Node_Permit begin

text \<open>
  \<open>domain/evolution_event.py\<close> and \<open>storage/evolution_event_store.py\<close>: the append-only log of evolution
  events with its queries, the leased teacher jobs, and the saved projections.

  A table is the list of its rows in order of insertion; the log's sequence numbers count every
  attempted insertion, also those a conflict or a rollback undoes. The process lock makes every
  operation one step. \<open>hash\<close> is the SHA-256 of the canonical JSON of a value. JSON values are kept,
  so the stored payload is the canonical form of the given one, and the hash column, a function
  of it, is left out. Event identifiers and clock readings are arguments.
\<close>

section \<open>Events\<close>

record evo_context =
  ec_profile :: string
  ec_workspace :: string
  ec_session :: string
  ec_generation :: int
  ec_turn :: string
  ec_frame :: string
  ec_action :: string
  ec_observation :: string
  ec_requirement :: string
  ec_decision :: string
  ec_proposal :: string
  ec_artifact :: string
  ec_plugin :: string
  ec_version :: string
  ec_correlation :: string
  ec_causation :: string

definition no_context :: evo_context where
  "no_context = \<lparr>ec_profile = [], ec_workspace = [], ec_session = [], ec_generation = 0, ec_turn = [], ec_frame = [], ec_action = [],
     ec_observation = [], ec_requirement = [], ec_decision = [], ec_proposal = [], ec_artifact = [], ec_plugin = [], ec_version = [],
     ec_correlation = [], ec_causation = []\<rparr>"

definition context_to_dict :: "evo_context \<Rightarrow> pyval dict" where
  "context_to_dict c =
     [(''profile_id'', PStr (ec_profile c)), (''workspace_id'', PStr (ec_workspace c)), (''session_id'', PStr (ec_session c)),
      (''session_generation'', PInt (ec_generation c)), (''turn_id'', PStr (ec_turn c)), (''frame_id'', PStr (ec_frame c)),
      (''action_id'', PStr (ec_action c)), (''observation_id'', PStr (ec_observation c)), (''requirement_id'', PStr (ec_requirement c)),
      (''decision_id'', PStr (ec_decision c)), (''proposal_id'', PStr (ec_proposal c)), (''artifact_id'', PStr (ec_artifact c)),
      (''plugin_id'', PStr (ec_plugin c)), (''version_id'', PStr (ec_version c)), (''correlation_id'', PStr (ec_correlation c)),
      (''causation_id'', PStr (ec_causation c))]"

record evo_event =
  ee_id :: string
  ee_type :: string
  ee_context :: evo_context
  ee_payload :: "pyval dict"
  ee_at :: real
  ee_producer :: string
  ee_privacy :: string
  ee_dedup :: string

definition content_hash :: "(pyval \<Rightarrow> string) \<Rightarrow> pyval \<Rightarrow> string" where
  "content_hash hash v = hash (canonical v)"

definition canonical_dict :: "pyval dict \<Rightarrow> pyval dict" where
  "canonical_dict d = sort_key fst (map (\<lambda>kv. (fst kv, canonical (snd kv))) d)"

definition create_event ::
  "(pyval \<Rightarrow> string) \<Rightarrow> string \<Rightarrow> string \<Rightarrow> evo_context \<Rightarrow> pyval dict \<Rightarrow> string \<Rightarrow> string \<Rightarrow> real \<Rightarrow> string \<Rightarrow> evo_event outcome" where
  "create_event hash eid type cx payload producer privacy now dedup =
     (let identity = (if dedup \<noteq> [] then dedup else content_hash hash (PDict
            [(''event_type'', PStr type), (''context'', PDict (context_to_dict cx)),
             (''payload_hash'', PStr (content_hash hash (PDict payload))), (''producer'', PStr producer)]))
      in if eid = [] \<or> type = [] \<or> producer = [] \<or> identity = [] \<or> ec_generation cx < 0 then Raise ''ValueError''
         else Ret \<lparr>ee_id = eid, ee_type = type, ee_context = cx, ee_payload = canonical_dict payload, ee_at = now,
                   ee_producer = producer, ee_privacy = (if privacy \<noteq> [] then privacy else ''system''), ee_dedup = identity\<rparr>)"

section \<open>Teacher jobs\<close>

datatype job_status = JOB_PENDING | JOB_RUNNING | JOB_COMPLETED | JOB_FAILED_RETRYABLE | JOB_FAILED_FINAL

record teacher_job =
  tj_id :: string
  tj_profile :: string
  tj_workspace :: string
  tj_session :: string
  tj_generation :: int
  tj_episode :: string
  tj_from :: int
  tj_through :: int
  tj_reason :: string
  tj_goal :: string
  tj_status :: job_status
  tj_owner :: string
  tj_until :: real
  tj_attempts :: nat
  tj_model :: string
  tj_prompt_hash :: string
  tj_artifact :: string
  tj_next :: real
  tj_created :: real
  tj_updated :: real
  tj_completed :: real
  tj_error :: string

type_synonym projection_key = "string \<times> string \<times> string"

record event_db =
  db_events :: "(nat \<times> evo_event) list"
  db_next :: nat
  db_jobs :: "teacher_job list"
  db_projections :: "(projection_key \<times> (int \<times> pyval dict \<times> real)) list"

definition empty_db :: event_db where
  "empty_db = \<lparr>db_events = [], db_next = 1, db_jobs = [], db_projections = []\<rparr>"

section \<open>The log\<close>

text \<open>One insertion: a known pair of profile and key is skipped, a known identifier raises.\<close>

definition insert_event :: "evo_event \<Rightarrow> event_db \<Rightarrow> bool outcome \<times> event_db" where
  "insert_event e db =
     (let db1 = db\<lparr>db_next := Suc (db_next db)\<rparr> in
      if \<exists>r \<in> set (db_events db). ec_profile (ee_context (snd r)) = ec_profile (ee_context e) \<and> ee_dedup (snd r) = ee_dedup e
      then (Ret False, db1)
      else if \<exists>r \<in> set (db_events db). ee_id (snd r) = ee_id e then (Raise ''ConstraintException'', db1)
      else (Ret True, db1\<lparr>db_events := db_events db @ [(db_next db, e)]\<rparr>))"

definition append_event :: "evo_event \<Rightarrow> event_db \<Rightarrow> bool outcome \<times> event_db" where
  "append_event e db = insert_event e db"

text \<open>The insertions of a transaction, with the number of rows inserted.\<close>

fun insert_events :: "evo_event list \<Rightarrow> event_db \<Rightarrow> nat outcome \<times> event_db" where
  "insert_events [] db = (Ret 0, db)"
| "insert_events (e # es) db =
     (case insert_event e db of
        (Raise x, db1) \<Rightarrow> (Raise x, db1)
      | (Ret b, db1) \<Rightarrow>
          (case insert_events es db1 of
             (Raise x, db2) \<Rightarrow> (Raise x, db2)
           | (Ret n, db2) \<Rightarrow> (Ret (if b then Suc n else n), db2)))"

definition rollback :: "event_db \<Rightarrow> event_db \<Rightarrow> event_db" where
  "rollback db db1 = db\<lparr>db_next := db_next db1\<rparr>"

definition append_many :: "evo_event list \<Rightarrow> event_db \<Rightarrow> nat outcome \<times> event_db" where
  "append_many es db =
     (case insert_events es db of (Raise x, db1) \<Rightarrow> (Raise x, rollback db db1) | (Ret n, db1) \<Rightarrow> (Ret n, db1))"

text \<open>A query: empty texts, no generation and a zero \<open>through\<close> do not restrict it.\<close>

record event_query =
  eq_profile :: string
  eq_session :: string
  eq_generation :: "int option"
  eq_correlation :: string
  eq_proposal :: string
  eq_proposals_only :: bool
  eq_type :: string
  eq_after :: int
  eq_through :: int
  eq_limit :: int

definition any_event :: event_query where
  "any_event = \<lparr>eq_profile = [], eq_session = [], eq_generation = None, eq_correlation = [], eq_proposal = [], eq_proposals_only = False,
     eq_type = [], eq_after = 0, eq_through = 0, eq_limit = 500\<rparr>"

definition restricts :: "string \<Rightarrow> string \<Rightarrow> bool" where
  "restricts q v \<longleftrightarrow> q = [] \<or> v = q"

definition query_matches :: "event_query \<Rightarrow> nat \<times> evo_event \<Rightarrow> bool" where
  "query_matches q r =
     (let c = ee_context (snd r) in
      int (fst r) > max 0 (eq_after q) \<and> (eq_through q > 0 \<longrightarrow> int (fst r) \<le> eq_through q)
      \<and> restricts (eq_profile q) (ec_profile c) \<and> restricts (eq_session q) (ec_session c)
      \<and> restricts (eq_correlation q) (ec_correlation c) \<and> restricts (eq_proposal q) (ec_proposal c)
      \<and> restricts (eq_type q) (ee_type (snd r)) \<and> (eq_proposals_only q \<longrightarrow> ec_proposal c \<noteq> [])
      \<and> (case eq_generation q of None \<Rightarrow> True | Some g \<Rightarrow> ec_generation c = g))"

definition read_events :: "event_query \<Rightarrow> event_db \<Rightarrow> (nat \<times> evo_event) list" where
  "read_events q db = take (nat (min (max 1 (eq_limit q)) 5000)) (filter (query_matches q) (db_events db))"

definition max_sequence :: "(nat \<times> evo_event) list \<Rightarrow> nat" where
  "max_sequence rs = fold max (map fst rs) 0"

definition latest_sequence :: "string \<Rightarrow> string \<Rightarrow> event_db \<Rightarrow> nat" where
  "latest_sequence profile session db =
     max_sequence (filter (\<lambda>r. restricts profile (ec_profile (ee_context (snd r))) \<and> restricts session (ec_session (ee_context (snd r)))) (db_events db))"

definition evidence_types :: "string list" where
  "evidence_types = [''action.started'', ''action.completed'', ''action.failed'', ''environment.observed'']"

definition latest_evidence_sequence :: "string \<Rightarrow> string \<Rightarrow> int option \<Rightarrow> event_db \<Rightarrow> nat" where
  "latest_evidence_sequence profile session generation db =
     max_sequence (filter (\<lambda>r. ec_profile (ee_context (snd r)) = profile \<and> ec_session (ee_context (snd r)) = session
         \<and> ee_type (snd r) \<in> set evidence_types
         \<and> (case generation of None \<Rightarrow> True | Some g \<Rightarrow> ec_generation (ee_context (snd r)) = g)) (db_events db))"

definition count_events :: "string \<Rightarrow> string \<Rightarrow> event_db \<Rightarrow> nat" where
  "count_events profile type db =
     length (filter (\<lambda>r. restricts profile (ec_profile (ee_context (snd r))) \<and> restricts type (ee_type (snd r))) (db_events db))"

definition payload_int :: "string \<Rightarrow> evo_event \<Rightarrow> int" where
  "payload_int k e = (case map_of (ee_payload e) k of Some (PInt i) \<Rightarrow> i | Some (PBool b) \<Rightarrow> if b then 1 else 0 | _ \<Rightarrow> 0)"

definition last_finalized_sequence :: "string \<Rightarrow> string \<Rightarrow> int option \<Rightarrow> event_db \<Rightarrow> int" where
  "last_finalized_sequence profile session generation db =
     (case map (payload_int ''through_sequence'' \<circ> snd) (read_events (any_event\<lparr>eq_profile := profile, eq_session := session,
             eq_generation := generation, eq_type := ''session.finalized'', eq_limit := 5000\<rparr>) db) of
        [] \<Rightarrow> 0 | i # is \<Rightarrow> fold max is i)"

section \<open>Finalizing and teaching\<close>

text \<open>The row a finalization inserts, unless its profile and episode are known.\<close>

definition insert_job :: "teacher_job \<Rightarrow> event_db \<Rightarrow> unit outcome \<times> event_db" where
  "insert_job j db =
     (if \<exists>k \<in> set (db_jobs db). tj_profile k = tj_profile j \<and> tj_episode k = tj_episode j then (Ret (), db)
      else if \<exists>k \<in> set (db_jobs db). tj_id k = tj_id j then (Raise ''ConstraintException'', db)
      else (Ret (), db\<lparr>db_jobs := db_jobs db @ [j]\<rparr>))"

record slice =
  sl_profile :: string
  sl_workspace :: string
  sl_session :: string
  sl_generation :: int
  sl_from :: int
  sl_through :: int
  sl_reason :: string
  sl_goal :: string
  sl_model :: string

definition slice_digest :: "(pyval \<Rightarrow> string) \<Rightarrow> slice \<Rightarrow> string" where
  "slice_digest hash s = take 24 (content_hash hash (PDict
     [(''profile_id'', PStr (sl_profile s)), (''workspace_id'', PStr (sl_workspace s)), (''session_id'', PStr (sl_session s)),
      (''session_generation'', PInt (sl_generation s)), (''from_sequence'', PInt (sl_from s)), (''through_sequence'', PInt (sl_through s))]))"

definition episode_id :: "(pyval \<Rightarrow> string) \<Rightarrow> slice \<Rightarrow> string" where
  "episode_id hash s = ''episode-'' @ slice_digest hash s"

definition job_id :: "(pyval \<Rightarrow> string) \<Rightarrow> slice \<Rightarrow> string" where
  "job_id hash s = ''teacher-'' @ slice_digest hash s"

definition slice_context :: "(pyval \<Rightarrow> string) \<Rightarrow> slice \<Rightarrow> evo_context" where
  "slice_context hash s = no_context\<lparr>ec_profile := sl_profile s, ec_workspace := sl_workspace s, ec_session := sl_session s,
     ec_generation := sl_generation s, ec_correlation := episode_id hash s\<rparr>"

definition new_job :: "(pyval \<Rightarrow> string) \<Rightarrow> slice \<Rightarrow> real \<Rightarrow> teacher_job" where
  "new_job hash s now =
     \<lparr>tj_id = job_id hash s, tj_profile = sl_profile s, tj_workspace = sl_workspace s, tj_session = sl_session s, tj_generation = sl_generation s,
      tj_episode = episode_id hash s, tj_from = sl_from s, tj_through = sl_through s, tj_reason = sl_reason s, tj_goal = sl_goal s,
      tj_status = JOB_PENDING, tj_owner = [], tj_until = 0, tj_attempts = 0, tj_model = sl_model s, tj_prompt_hash = [], tj_artifact = [],
      tj_next = 0, tj_created = now, tj_updated = now, tj_completed = 0, tj_error = []\<rparr>"

definition finalize_rows :: "evo_event list \<Rightarrow> teacher_job \<Rightarrow> event_db \<Rightarrow> unit outcome \<times> event_db" where
  "finalize_rows es j db =
     (case insert_events es db of
        (Raise e, db1) \<Rightarrow> (Raise e, rollback db db1)
      | (Ret _, db1) \<Rightarrow>
          (case insert_job j db1 of (Raise e, db2) \<Rightarrow> (Raise e, rollback db db2) | (Ret _, db2) \<Rightarrow> (Ret (), db2)))"

definition finalize_session ::
  "(pyval \<Rightarrow> string) \<Rightarrow> real \<Rightarrow> string \<Rightarrow> string \<Rightarrow> slice \<Rightarrow> event_db \<Rightarrow> (string \<times> string) outcome \<times> event_db" where
  "finalize_session hash now eid1 eid2 s db =
     (if sl_session s = [] then (Raise ''ValueError'', db)
      else if sl_through s \<le> sl_from s then (Ret ([], []), db)
      else
        let ep = episode_id hash s; jid = job_id hash s; cx = slice_context hash s in
        case create_event hash eid1 ''session.finalized'' cx
               [(''episode_id'', PStr ep), (''from_sequence'', PInt (sl_from s)), (''through_sequence'', PInt (sl_through s)),
                (''reason'', PStr (sl_reason s)), (''goal'', PStr (sl_goal s))]
               ''session.finalizer'' ''system'' now (''session.finalized:'' @ ep) of
          Raise e \<Rightarrow> (Raise e, db)
        | Ret finalized \<Rightarrow>
          (case create_event hash eid2 ''teacher.job_queued'' (cx\<lparr>ec_causation := eid1\<rparr>)
                  [(''episode_id'', PStr ep), (''job_id'', PStr jid), (''model'', PStr (sl_model s)),
                   (''from_sequence'', PInt (sl_from s)), (''through_sequence'', PInt (sl_through s))]
                  ''session.finalizer'' ''system'' now (''teacher.job_queued:'' @ jid) of
             Raise e \<Rightarrow> (Raise e, db)
           | Ret queued \<Rightarrow>
             (case finalize_rows [finalized, queued] (new_job hash s now) db of
                (Raise e, db1) \<Rightarrow> (Raise e, db1)
              | (Ret _, db1) \<Rightarrow> (Ret (ep, jid), db1))))"

definition update_job :: "string \<Rightarrow> (teacher_job \<Rightarrow> teacher_job) \<Rightarrow> event_db \<Rightarrow> event_db" where
  "update_job jid f db = db\<lparr>db_jobs := map (\<lambda>j. if tj_id j = jid then f j else j) (db_jobs db)\<rparr>"

definition claimable :: "real \<Rightarrow> string \<Rightarrow> teacher_job \<Rightarrow> bool" where
  "claimable now profile j \<longleftrightarrow>
     (tj_status j \<in> {JOB_PENDING, JOB_FAILED_RETRYABLE} \<and> tj_next j \<le> now \<or> tj_status j = JOB_RUNNING \<and> tj_until j \<le> now)
     \<and> restricts profile (tj_profile j)"

text \<open>The oldest such job; of equally old ones the first, where the query leaves the choice open.\<close>

definition claim_job :: "string \<Rightarrow> string \<Rightarrow> real \<Rightarrow> real \<Rightarrow> event_db \<Rightarrow> teacher_job option \<times> event_db" where
  "claim_job owner profile lease now db =
     (case sort_key tj_created (filter (claimable now profile) (db_jobs db)) of
        [] \<Rightarrow> (None, db)
      | j # _ \<Rightarrow>
          let f = (\<lambda>k. k\<lparr>tj_status := JOB_RUNNING, tj_owner := owner, tj_until := now + max 1 lease,
                         tj_attempts := Suc (tj_attempts k), tj_updated := now\<rparr>)
          in (Some (f j), update_job (tj_id j) f db))"

definition owns :: "string \<Rightarrow> string \<Rightarrow> event_db \<Rightarrow> bool" where
  "owns jid owner db \<longleftrightarrow> (\<exists>j \<in> set (db_jobs db). tj_id j = jid \<and> tj_status j = JOB_RUNNING \<and> tj_owner j = owner)"

definition renew_job :: "string \<Rightarrow> string \<Rightarrow> real \<Rightarrow> real \<Rightarrow> event_db \<Rightarrow> bool \<times> event_db" where
  "renew_job jid owner lease now db =
     (if owns jid owner db then (True, update_job jid (\<lambda>j. j\<lparr>tj_until := now + max 1 lease, tj_updated := now\<rparr>) db)
      else (False, db))"

text \<open>Facts and verdict of a job, in one transaction.\<close>

definition settle_job :: "string \<Rightarrow> string \<Rightarrow> evo_event list \<Rightarrow> (teacher_job \<Rightarrow> teacher_job) \<Rightarrow> event_db \<Rightarrow> bool outcome \<times> event_db" where
  "settle_job jid owner events f db =
     (if \<not> owns jid owner db then (Ret False, db)
      else case insert_events events db of
        (Raise e, db1) \<Rightarrow> (Raise e, rollback db db1)
      | (Ret _, db1) \<Rightarrow> (Ret True, update_job jid f db1))"

definition complete_job :: "string \<Rightarrow> string \<Rightarrow> evo_event list \<Rightarrow> string \<Rightarrow> string \<Rightarrow> real \<Rightarrow> event_db \<Rightarrow> bool outcome \<times> event_db" where
  "complete_job jid owner events prompt_hash artifact now db =
     settle_job jid owner events (\<lambda>j. j\<lparr>tj_status := JOB_COMPLETED, tj_owner := [], tj_until := 0, tj_prompt_hash := prompt_hash,
       tj_artifact := artifact, tj_completed := now, tj_updated := now, tj_error := []\<rparr>) db"

definition fail_job :: "string \<Rightarrow> string \<Rightarrow> string \<Rightarrow> bool \<Rightarrow> real \<Rightarrow> evo_event list \<Rightarrow> real \<Rightarrow> event_db \<Rightarrow> bool outcome \<times> event_db" where
  "fail_job jid err owner retryable after events now db =
     settle_job jid owner events (\<lambda>j. j\<lparr>tj_status := (if retryable then JOB_FAILED_RETRYABLE else JOB_FAILED_FINAL), tj_owner := [],
       tj_until := 0, tj_next := (if retryable then now + max 0 after else 0), tj_updated := now, tj_error := take 2000 err\<rparr>) db"

definition teacher_job_of :: "string \<Rightarrow> event_db \<Rightarrow> teacher_job option" where
  "teacher_job_of jid db = find (\<lambda>j. tj_id j = jid) (db_jobs db)"

section \<open>Projections\<close>

definition load_projection :: "projection_key \<Rightarrow> event_db \<Rightarrow> (int \<times> pyval dict) option" where
  "load_projection k db = map_option (\<lambda>(i, d, t). (i, d)) (map_of (db_projections db) k)"

definition save_projection :: "projection_key \<Rightarrow> int \<Rightarrow> pyval dict \<Rightarrow> real \<Rightarrow> event_db \<Rightarrow> event_db" where
  "save_projection k i d now db = db\<lparr>db_projections := dict_set k (i, canonical_dict d, now) (db_projections db)\<rparr>"

definition delete_projection :: "projection_key \<Rightarrow> event_db \<Rightarrow> event_db" where
  "delete_projection k db = db\<lparr>db_projections := dict_pop k (db_projections db)\<rparr>"

end
