(* ===== verification/Event_Store_Props.thy ===== *)
theory Event_Store_Props imports Event_Store "HOL-Library.Sublist" begin

text \<open>
  The log only grows, its sequence numbers are cursors, and a job belongs to the worker that
  claimed it until its lease is over.
\<close>

section \<open>Runs\<close>

datatype store_op =
    Append evo_event
  | AppendMany "evo_event list"
  | Finalize string string slice
  | Claim string string real
  | RenewJob string string real
  | CompleteJob string string "evo_event list" string string
  | FailJob string string string bool real "evo_event list"
  | SaveProjection projection_key int "pyval dict"
  | DeleteProjection projection_key

fun store_step :: "(pyval \<Rightarrow> string) \<Rightarrow> real \<Rightarrow> store_op \<Rightarrow> event_db \<Rightarrow> event_db" where
  "store_step hash now (Append e) db = snd (append_event e db)"
| "store_step hash now (AppendMany es) db = snd (append_many es db)"
| "store_step hash now (Finalize eid1 eid2 s) db = snd (finalize_session hash now eid1 eid2 s db)"
| "store_step hash now (Claim owner profile lease) db = snd (claim_job owner profile lease now db)"
| "store_step hash now (RenewJob jid owner lease) db = snd (renew_job jid owner lease now db)"
| "store_step hash now (CompleteJob jid owner es ph art) db = snd (complete_job jid owner es ph art now db)"
| "store_step hash now (FailJob jid err owner retryable after es) db = snd (fail_job jid err owner retryable after es now db)"
| "store_step hash now (SaveProjection k i d) db = save_projection k i d now db"
| "store_step hash now (DeleteProjection k) db = delete_projection k db"

definition store_run :: "(pyval \<Rightarrow> string) \<Rightarrow> (real \<times> store_op) list \<Rightarrow> event_db \<Rightarrow> event_db" where
  "store_run hash ops db = fold (\<lambda>(now, op). store_step hash now op) ops db"

lemma store_run_simps [simp]:
  "store_run hash [] db = db" "store_run hash ((now, op) # ops) db = store_run hash ops (store_step hash now op db)"
  by (simp_all add: store_run_def)

lemma store_run_append: "store_run hash (ops @ ops') db = store_run hash ops' (store_run hash ops db)"
  by (simp add: store_run_def)

section \<open>The log\<close>

definition log_key :: "nat \<times> evo_event \<Rightarrow> string \<times> string" where
  "log_key r = (ec_profile (ee_context (snd r)), ee_dedup (snd r))"

text \<open>Sequence numbers ascend; keys and identifiers are unique.\<close>

definition log_ok :: "event_db \<Rightarrow> bool" where
  "log_ok db \<longleftrightarrow> sorted_wrt (<) (map fst (db_events db)) \<and> (\<forall>r \<in> set (db_events db). 0 < fst r \<and> fst r < db_next db)
     \<and> distinct (map log_key (db_events db)) \<and> distinct (map (ee_id \<circ> snd) (db_events db)) \<and> 0 < db_next db"

definition log_grows :: "event_db \<Rightarrow> event_db \<Rightarrow> bool" where
  "log_grows db db' \<longleftrightarrow> prefix (db_events db) (db_events db') \<and> (log_ok db \<longrightarrow> log_ok db')"

lemma log_grows_refl [simp]: "log_grows db db"
  by (simp add: log_grows_def)

lemma log_grows_trans: "log_grows a b \<Longrightarrow> log_grows b c \<Longrightarrow> log_grows a c"
  by (auto simp: log_grows_def)

lemma log_grows_same: "db_events db' = db_events db \<Longrightarrow> db_next db' \<ge> db_next db \<Longrightarrow> log_grows db db'"
  by (force simp: log_grows_def log_ok_def)

lemma insert_event_fields [simp]:
  "db_jobs (snd (insert_event e db)) = db_jobs db" "db_next (snd (insert_event e db)) = Suc (db_next db)"
  by (simp_all add: insert_event_def Let_def)

lemma log_grows_insert: "log_grows db (snd (insert_event e db))"
proof (cases "fst (insert_event e db) = Ret True")
  case True
  then have "db_events (snd (insert_event e db)) = db_events db @ [(db_next db, e)]"
    "\<forall>r \<in> set (db_events db). log_key r \<noteq> (ec_profile (ee_context e), ee_dedup e) \<and> ee_id (snd r) \<noteq> ee_id e"
    by (auto simp: insert_event_def Let_def log_key_def split: if_splits)
  then show ?thesis
    unfolding log_grows_def log_ok_def by (force simp: sorted_wrt_append log_key_def)
next
  case False
  then show ?thesis by (intro log_grows_same) (auto simp: insert_event_def Let_def split: if_splits)
qed

lemma insert_events_fields: "db_jobs (snd (insert_events es db)) = db_jobs db" "db_next db \<le> db_next (snd (insert_events es db))"
proof (induction es db rule: insert_events.induct)
  case (2 e es db)
  obtain r db1 where i: "insert_event e db = (r, db1)" by fastforce
  then have "db_jobs db1 = db_jobs db" "db_next db1 = Suc (db_next db)"
    using insert_event_fields [of e db] by simp_all
  moreover obtain r2 db2 where "insert_events es db1 = (r2, db2)" by fastforce
  moreover {
    case 1
    then show ?case using i calculation "2.IH"(1) [OF i [symmetric]] by (cases r; cases r2) auto
  next
    case 2
    then show ?case using i calculation "2.IH"(2) [OF i [symmetric]] by (cases r; cases r2) auto
  }
qed simp_all

lemma log_grows_inserts: "log_grows db (snd (insert_events es db))"
proof (induction es db rule: insert_events.induct)
  case (2 e es db)
  obtain r db1 where i: "insert_event e db = (r, db1)" by fastforce
  moreover obtain r2 db2 where "insert_events es db1 = (r2, db2)" by fastforce
  ultimately show ?case
    using log_grows_insert [of db e] "2.IH" [OF i [symmetric]] by (cases r; cases r2) (auto intro: log_grows_trans)
qed simp

lemma log_grows_rollback: "db_next db \<le> db_next db1 \<Longrightarrow> log_grows db (rollback db db1)"
  by (intro log_grows_same) (simp_all add: rollback_def)

lemma log_grows_update: "log_grows db (update_job jid f db)"
  by (intro log_grows_same) (simp_all add: update_job_def)

lemma log_grows_settle: "log_grows db (snd (settle_job jid owner es f db))"
proof -
  obtain r db1 where i: "insert_events es db = (r, db1)" by fastforce
  then show ?thesis
    using log_grows_inserts [of db es] insert_events_fields(2) [of db es] log_grows_trans log_grows_update
    by (cases r) (auto simp: settle_job_def log_grows_rollback)
qed

lemma insert_job_fields [simp]: "db_events (snd (insert_job j db)) = db_events db" "db_next (snd (insert_job j db)) = db_next db"
  by (simp_all add: insert_job_def)

lemma log_grows_rows: "log_grows db (snd (finalize_rows es j db))"
proof -
  obtain r db1 where i: "insert_events es db = (r, db1)" by fastforce
  obtain r2 db2 where j: "insert_job j db1 = (r2, db2)" by fastforce
  have "log_grows db db1" "db_next db \<le> db_next db1" using log_grows_inserts [of db es] insert_events_fields(2) [of db es] i by simp_all
  moreover have "log_grows db1 db2" "db_next db2 = db_next db1"
    using log_grows_same [of "snd (insert_job j db1)" db1] insert_job_fields [of j db1] j by simp_all
  ultimately show ?thesis
    using i j log_grows_trans [of db db1 db2] by (cases r; cases r2) (auto simp: finalize_rows_def log_grows_rollback)
qed

lemma snd_outcome_map: "snd (case p of (Raise e, d) \<Rightarrow> (Raise e, d) | (Ret _, d) \<Rightarrow> (Ret x, d)) = snd p"
  by (simp split: prod.split outcome.split)

lemma snd_if: "snd (if b then p else q) = (if b then snd p else snd q)"
  by simp

lemma snd_outcome: "snd (case r of Raise e \<Rightarrow> f e | Ret v \<Rightarrow> g v) = (case r of Raise e \<Rightarrow> snd (f e) | Ret v \<Rightarrow> snd (g v))"
  by (cases r) simp_all

lemma finalize_db:
  "snd (finalize_session hash now eid1 eid2 s db) = db
   \<or> (\<exists>es. snd (finalize_session hash now eid1 eid2 s db) = snd (finalize_rows es (new_job hash s now) db))"
  unfolding finalize_session_def Let_def snd_if snd_outcome snd_outcome_map snd_conv
  by (auto split: outcome.split)

lemma log_grows_step: "log_grows db (store_step hash now op db)"
proof (cases op)
  case (AppendMany es)
  obtain r db1 where i: "insert_events es db = (r, db1)" by fastforce
  then show ?thesis
    using AppendMany log_grows_inserts [of db es] insert_events_fields(2) [of db es] by (cases r) (auto simp: append_many_def log_grows_rollback)
next
  case (Finalize eid1 eid2 s)
  then show ?thesis using finalize_db [of hash now eid1 eid2 s db] log_grows_rows by (metis log_grows_refl store_step.simps(3))
next
  case (Claim owner profile lease)
  then show ?thesis by (auto simp: claim_job_def Let_def log_grows_update split: list.split)
qed (simp_all add: append_event_def log_grows_insert renew_job_def complete_job_def fail_job_def log_grows_update log_grows_settle
      log_grows_same save_projection_def delete_projection_def)

lemma log_grows_run: "log_grows db (store_run hash ops db)"
proof (induction ops arbitrary: db)
  case (Cons p ops)
  then show ?case using log_grows_trans [OF log_grows_step Cons.IH] by (cases p) simp
qed simp

text \<open>
  C21. The log is append-only. Whatever operations run, in whatever order, each with the events it is
  given: what was logged stays, in place and unchanged; sequence numbers ascend strictly, so a cursor
  never skips or repeats an event; and no profile logs two events under one key, not within a batch
  and not across a transaction that was rolled back.
\<close>

theorem event_log_append_only:
  "prefix (db_events (store_run hash ops empty_db)) (db_events (store_run hash (ops @ ops') empty_db))
   \<and> sorted_wrt (<) (map fst (db_events (store_run hash (ops @ ops') empty_db)))
   \<and> distinct (map (\<lambda>r. (ec_profile (ee_context (snd r)), ee_dedup (snd r))) (db_events (store_run hash (ops @ ops') empty_db)))"
proof -
  let ?a = "store_run hash ops empty_db" and ?b = "store_run hash (ops @ ops') empty_db"
  have "log_ok empty_db" by (simp add: log_ok_def empty_db_def)
  moreover have g: "log_grows empty_db ?a" "log_grows ?a ?b" unfolding store_run_append by (rule log_grows_run)+
  ultimately have "log_ok ?b" unfolding log_grows_def by blast
  then show ?thesis using g(2) unfolding log_grows_def log_ok_def log_key_def by blast
qed

section \<open>Leases\<close>

definition jobs_ok :: "event_db \<Rightarrow> bool" where
  "jobs_ok db \<longleftrightarrow> distinct (map tj_id (db_jobs db))"

lemma update_job_ids: "(\<And>j. tj_id (f j) = tj_id j) \<Longrightarrow> map tj_id (db_jobs (update_job jid f db)) = map tj_id (db_jobs db)"
  by (simp add: update_job_def comp_def)

text \<open>What one operation does to a job that is under another worker's lease.\<close>

definition untouched :: "teacher_job \<Rightarrow> event_db \<Rightarrow> event_db \<Rightarrow> bool" where
  "untouched j db db' \<longleftrightarrow> (jobs_ok db \<longrightarrow> jobs_ok db' \<and> (j \<in> set (db_jobs db) \<longrightarrow> j \<in> set (db_jobs db')))"

lemma untouched_same: "db_jobs db' = db_jobs db \<Longrightarrow> untouched j db db'"
  by (simp add: untouched_def jobs_ok_def)

lemma untouched_update:
  assumes "\<And>k. tj_id (f k) = tj_id k" "j \<in> set (db_jobs db) \<Longrightarrow> tj_id j \<noteq> jid"
  shows "untouched j db (update_job jid f db)"
  unfolding untouched_def jobs_ok_def update_job_ids [OF assms(1)]
  using assms(2) by (auto simp: update_job_def image_iff)

lemma untouched_rows: "untouched j db (snd (finalize_rows es k db))"
proof -
  obtain r db1 where i: "insert_events es db = (r, db1)" by fastforce
  then have "db_jobs db1 = db_jobs db" using insert_events_fields(1) [of es db] by simp
  then show ?thesis
    using i by (cases r) (auto simp: finalize_rows_def insert_job_def untouched_def jobs_ok_def rollback_def split: if_splits)
qed

lemma untouched_settle:
  assumes "\<And>k. tj_id (f k) = tj_id k" "j \<in> set (db_jobs db) \<Longrightarrow> owns jid owner db \<Longrightarrow> tj_id j \<noteq> jid"
  shows "untouched j db (snd (settle_job jid owner es f db))"
proof (cases "owns jid owner db")
  case True
  obtain r db1 where i: "insert_events es db = (r, db1)" by fastforce
  then have jobs: "db_jobs db1 = db_jobs db" using insert_events_fields(1) [of es db] by simp
  have "untouched j db1 (update_job jid f db1)" by (rule untouched_update) (use assms True jobs in auto)
  then have "untouched j db (update_job jid f db1)" using jobs by (simp add: untouched_def jobs_ok_def)
  then show ?thesis using i True by (cases r) (auto simp: settle_job_def untouched_same rollback_def)
qed (simp add: settle_job_def untouched_same)

text \<open>The operations that may not be the owner's: the lease still runs, and no verdict or renewal is the owner's.\<close>

fun by_others :: "teacher_job \<Rightarrow> store_op \<Rightarrow> bool" where
  "by_others j (RenewJob jid owner lease) \<longleftrightarrow> jid \<noteq> tj_id j \<or> owner \<noteq> tj_owner j"
| "by_others j (CompleteJob jid owner es ph art) \<longleftrightarrow> jid \<noteq> tj_id j \<or> owner \<noteq> tj_owner j"
| "by_others j (FailJob jid err owner retryable after es) \<longleftrightarrow> jid \<noteq> tj_id j \<or> owner \<noteq> tj_owner j"
| "by_others j _ \<longleftrightarrow> True"

lemma jobs_eq: "jobs_ok db \<Longrightarrow> j \<in> set (db_jobs db) \<Longrightarrow> k \<in> set (db_jobs db) \<Longrightarrow> tj_id j = tj_id k \<Longrightarrow> j = k"
  unfolding jobs_ok_def by (metis distinct_map inj_onD)

lemma claim_job_picks:
  assumes "sort_key tj_created (filter (claimable now profile) (db_jobs db)) = k # ks"
  shows "k \<in> set (db_jobs db)" "claimable now profile k"
  using arg_cong [OF assms, of set] by auto

lemma untouched_step:
  assumes others: "by_others j op"
    and lease: "tj_status j = JOB_RUNNING \<and> now < tj_until j \<or> tj_status j \<in> {JOB_COMPLETED, JOB_FAILED_FINAL}"
    and ok: "jobs_ok db"
  shows "untouched j db (store_step hash now op db)"
proof (cases op)
  case (AppendMany es)
  obtain r db1 where i: "insert_events es db = (r, db1)" by fastforce
  then show ?thesis
    using AppendMany insert_events_fields(1) [of es db] by (cases r) (auto simp: append_many_def untouched_same rollback_def)
next
  case (Finalize eid1 eid2 s)
  then show ?thesis
    using finalize_db [of hash now eid1 eid2 s db] untouched_rows by (metis untouched_same store_step.simps(3))
next
  case (Claim owner profile lease')
  have "tj_id j \<noteq> tj_id k" if "j \<in> set (db_jobs db)" "sort_key tj_created (filter (claimable now profile) (db_jobs db)) = k # ks" for k ks
    using claim_job_picks [OF that(2)] jobs_eq [OF ok that(1)] lease by (auto simp: claimable_def)
  then show ?thesis
    using Claim by (auto simp: claim_job_def Let_def untouched_same intro!: untouched_update split: list.split)
next
  case (RenewJob jid owner lease')
  have "tj_id j \<noteq> jid" if "j \<in> set (db_jobs db)" "owns jid owner db"
    using that others RenewJob jobs_eq [OF ok that(1)] lease by (auto simp: owns_def)
  then show ?thesis using RenewJob by (auto simp: renew_job_def untouched_same intro!: untouched_update)
next
  case (CompleteJob jid owner es ph art)
  have "tj_id j \<noteq> jid" if "j \<in> set (db_jobs db)" "owns jid owner db"
    using that others CompleteJob jobs_eq [OF ok that(1)] lease by (auto simp: owns_def)
  then show ?thesis using CompleteJob by (auto simp: complete_job_def intro!: untouched_settle)
next
  case (FailJob jid err owner retryable after es)
  have "tj_id j \<noteq> jid" if "j \<in> set (db_jobs db)" "owns jid owner db"
    using that others FailJob jobs_eq [OF ok that(1)] lease by (auto simp: owns_def)
  then show ?thesis using FailJob by (auto simp: fail_job_def intro!: untouched_settle)
qed (simp_all add: append_event_def untouched_same save_projection_def delete_projection_def)

lemma untouched_run:
  assumes "\<And>now op. (now, op) \<in> set ops \<Longrightarrow> by_others j op
      \<and> (tj_status j = JOB_RUNNING \<and> now < tj_until j \<or> tj_status j \<in> {JOB_COMPLETED, JOB_FAILED_FINAL})"
    and "jobs_ok db" "j \<in> set (db_jobs db)"
  shows "jobs_ok (store_run hash ops db) \<and> j \<in> set (db_jobs (store_run hash ops db))"
  using assms
proof (induction ops arbitrary: db)
  case (Cons p ops)
  obtain now op where p: "p = (now, op)" by fastforce
  have "by_others j op" "tj_status j = JOB_RUNNING \<and> now < tj_until j \<or> tj_status j \<in> {JOB_COMPLETED, JOB_FAILED_FINAL}"
    using Cons.prems(1) [of now op] p by simp_all
  then have "untouched j db (store_step hash now op db)" by (rule untouched_step) (rule Cons.prems)
  then have "jobs_ok (store_step hash now op db) \<and> j \<in> set (db_jobs (store_step hash now op db))"
    using Cons.prems(2,3) by (simp add: untouched_def)
  moreover have "by_others j op' \<and> (tj_status j = JOB_RUNNING \<and> now' < tj_until j \<or> tj_status j \<in> {JOB_COMPLETED, JOB_FAILED_FINAL})"
    if "(now', op') \<in> set ops" for now' op' using Cons.prems(1) [of now' op'] that by simp
  ultimately show ?case using Cons.IH [of "store_step hash now op db"] p by simp
qed simp

text \<open>Identifiers stay unique under every operation.\<close>

lemma jobs_ok_claim: "jobs_ok db \<Longrightarrow> jobs_ok (snd (claim_job owner profile lease now db))"
  by (auto simp: claim_job_def jobs_ok_def Let_def update_job_ids split: list.split)

text \<open>
  C20. A lease is exclusive. Between the claim of a job and the end of its lease, whatever other
  workers and the rest of the program do to the store, with their own claims, renewals and
  verdicts, the job stays as claimed: no other worker claims it, and the verdict of a worker
  that does not own it is refused and records none of its facts.
\<close>

theorem teacher_lease_exclusive:
  assumes "jobs_ok db" and claim: "claim_job owner profile lease now0 db = (Some j, db1)"
    and "\<And>now op. (now, op) \<in> set ops \<Longrightarrow> now < now0 + max 1 lease \<and> by_others j op"
    and "other \<noteq> owner"
  shows "j \<in> set (db_jobs (store_run hash ops db1)) \<and> tj_status j = JOB_RUNNING \<and> tj_owner j = owner
    \<and> complete_job (tj_id j) other es ph art now (store_run hash ops db1) = (Ret False, store_run hash ops db1)
    \<and> fail_job (tj_id j) err other retryable after es now (store_run hash ops db1) = (Ret False, store_run hash ops db1)
    \<and> (now < now0 + max 1 lease \<longrightarrow> (\<forall>k. fst (claim_job other profile' lease' now (store_run hash ops db1)) = Some k \<longrightarrow> tj_id k \<noteq> tj_id j))"
proof -
  let ?db = "store_run hash ops db1"
  obtain k ks where k: "sort_key tj_created (filter (claimable now0 profile) (db_jobs db)) = k # ks"
    using claim by (auto simp: claim_job_def split: list.splits)
  let ?f = "\<lambda>k. k\<lparr>tj_status := JOB_RUNNING, tj_owner := owner, tj_until := now0 + max 1 lease, tj_attempts := Suc (tj_attempts k), tj_updated := now0\<rparr>"
  have j: "j = ?f k" "db1 = update_job (tj_id k) ?f db" using claim k by (simp_all add: claim_job_def Let_def)
  have "j \<in> set (db_jobs db1)" using claim_job_picks(1) [OF k] j by (force simp: update_job_def)
  moreover have "jobs_ok db1" using jobs_ok_claim [OF assms(1), of owner profile lease now0] claim by simp
  ultimately have run: "jobs_ok ?db" "j \<in> set (db_jobs ?db)"
    using untouched_run [of ops j db1 hash] assms(3) j(1) by auto
  have no: "\<not> owns (tj_id j) other ?db"
  proof
    assume "owns (tj_id j) other ?db"
    then obtain k' where k': "k' \<in> set (db_jobs ?db)" "tj_id k' = tj_id j" "tj_owner k' = other" by (auto simp: owns_def)
    have "tj_owner j = owner" unfolding j(1) by simp
    then show False using jobs_eq [OF run(1) k'(1) run(2) k'(2)] k'(3) assms(4) by simp
  qed
  have free: "tj_id k' \<noteq> tj_id j"
    if now: "now < now0 + max 1 lease" and k': "fst (claim_job other profile' lease' now ?db) = Some k'" for k'
  proof -
    obtain k0 ks0 where k0: "sort_key tj_created (filter (claimable now profile') (db_jobs ?db)) = k0 # ks0"
      using k' by (auto simp: claim_job_def split: list.splits)
    have "tj_id k' = tj_id k0" using k' k0 by (auto simp: claim_job_def Let_def)
    moreover have "k0 \<noteq> j" using claim_job_picks(2) [OF k0] now j(1) by (auto simp: claimable_def)
    ultimately show ?thesis using jobs_eq [OF run(1) claim_job_picks(1) [OF k0] run(2)] by auto
  qed
  have "complete_job (tj_id j) other es ph art now ?db = (Ret False, ?db)"
    "fail_job (tj_id j) err other retryable after es now ?db = (Ret False, ?db)"
    using no by (simp_all add: complete_job_def fail_job_def settle_job_def)
  moreover have "tj_status j = JOB_RUNNING" "tj_owner j = owner" unfolding j(1) by simp_all
  ultimately show ?thesis using run(2) free by blast
qed

definition sample_slice :: slice where
  "sample_slice = \<lparr>sl_profile = ''p'', sl_workspace = [], sl_session = ''s'', sl_generation = 0, sl_from = 0, sl_through = 3,
     sl_reason = [], sl_goal = [], sl_model = []\<rparr>"

definition sample_db :: event_db where
  "sample_db = empty_db\<lparr>db_jobs := [new_job (\<lambda>_. ''h'') sample_slice 0]\<rparr>"

theorem teacher_lease_exclusive_witness:
  "\<exists>j db1. claim_job ''w'' ''p'' 60 1 sample_db = (Some j, db1)
     \<and> fst (complete_job (tj_id j) ''v'' [] [] [] 5 (store_run (\<lambda>_. ''h'') [(2, Claim ''v'' ''p'' 60), (3, RenewJob (tj_id j) ''v'' 60)] db1)) = Ret False"
proof -
  obtain j db1 where j: "claim_job ''w'' ''p'' 60 1 sample_db = (Some j, db1)" "tj_owner j = ''w''"
    by (simp add: claim_job_def sample_db_def empty_db_def new_job_def claimable_def restricts_def sample_slice_def Let_def)
  have "jobs_ok sample_db" by (simp add: jobs_ok_def sample_db_def)
  moreover have "now < 1 + max 1 60 \<and> by_others j op"
    if "(now, op) \<in> set [(2, Claim ''v'' ''p'' 60), (3, RenewJob (tj_id j) ''v'' 60)]" for now :: real and op
    using that j(2) by auto
  moreover have "''v'' \<noteq> ''w''" by simp
  ultimately have "complete_job (tj_id j) ''v'' [] [] [] 5 (store_run (\<lambda>_. ''h'') [(2, Claim ''v'' ''p'' 60), (3, RenewJob (tj_id j) ''v'' 60)] db1)
      = (Ret False, store_run (\<lambda>_. ''h'') [(2, Claim ''v'' ''p'' 60), (3, RenewJob (tj_id j) ''v'' 60)] db1)"
    by (rule teacher_lease_exclusive [OF _ j(1), THEN conjunct2, THEN conjunct2, THEN conjunct2, THEN conjunct1])
  from arg_cong [OF this, of fst] show ?thesis using j(1) unfolding fst_conv by blast
qed

end
