(* ===== verification/Proposal_Store.thy ===== *)
theory Proposal_Store imports Event_Store begin

text \<open>
  \<open>storage/capability_proposal_queue.py\<close>: capability proposals, kept as states in the event log. The
  store's lock makes every operation one step. A requirement is its dictionary, as \<open>to_dict\<close> gives
  it. A payload that is no mapping where one is needed raises; a list of pairs, which \<open>dict\<close> would
  also take, is read as such a payload.
\<close>

section \<open>Proposals\<close>

datatype proposal_status =
    P_PENDING | P_GENERATED | P_APPROVED | P_INSTALLED | P_PROBATION | P_VERIFIED
  | P_REJECTED | P_FAILED | P_QUARANTINED | P_SUPERSEDED | P_EXPIRED | P_NO_OP

definition statuses :: "(proposal_status \<times> string) list" where
  "statuses =
     [(P_PENDING, ''PENDING''), (P_GENERATED, ''GENERATED''), (P_APPROVED, ''APPROVED''), (P_INSTALLED, ''INSTALLED''),
      (P_PROBATION, ''PROBATION''), (P_VERIFIED, ''VERIFIED''), (P_REJECTED, ''REJECTED''), (P_FAILED, ''FAILED''),
      (P_QUARANTINED, ''QUARANTINED''), (P_SUPERSEDED, ''SUPERSEDED''), (P_EXPIRED, ''EXPIRED''), (P_NO_OP, ''NO_OP'')]"

definition status_name :: "proposal_status \<Rightarrow> string" where
  "status_name st = the (map_of statuses st)"

text \<open>\<open>_coerce_status\<close>; the upper-case form of a text is that of its ASCII letters.\<close>

definition upper :: "string \<Rightarrow> string" where
  "upper s = map (\<lambda>c. if of_char c \<in> {97..122 :: nat} then char_of (of_char c - 32 :: nat) else c) s"

definition coerce_status :: "conversions \<Rightarrow> pyval \<Rightarrow> proposal_status" where
  "coerce_status cv v =
     (case map_of (map prod.swap statuses) (upper (if py_truthy v then py_str cv v else ''PENDING'')) of
        None \<Rightarrow> P_PENDING | Some st \<Rightarrow> st)"

definition cancellations :: "proposal_status set" where
  "cancellations = {P_REJECTED, P_FAILED, P_SUPERSEDED, P_EXPIRED, P_NO_OP}"

fun allowed_transitions :: "proposal_status \<Rightarrow> proposal_status set" where
  "allowed_transitions P_PENDING = insert P_GENERATED cancellations"
| "allowed_transitions P_GENERATED = insert P_APPROVED cancellations"
| "allowed_transitions P_APPROVED = insert P_INSTALLED cancellations"
| "allowed_transitions P_INSTALLED = {P_PROBATION, P_QUARANTINED, P_FAILED}"
| "allowed_transitions P_PROBATION = {P_VERIFIED, P_QUARANTINED, P_FAILED}"
| "allowed_transitions P_VERIFIED = {P_PROBATION, P_QUARANTINED, P_FAILED}"
| "allowed_transitions P_QUARANTINED = {P_FAILED, P_PROBATION}"
| "allowed_transitions _ = {}"

definition active_statuses :: "proposal_status list" where
  "active_statuses = [P_PENDING, P_GENERATED, P_APPROVED, P_INSTALLED, P_PROBATION, P_VERIFIED]"

record proposal =
  pr_id :: string
  pr_status :: proposal_status
  pr_requirements :: "pyval dict list"
  pr_environment :: "pyval dict"
  pr_risk :: "pyval dict"
  pr_source :: string
  pr_observations :: "string list"
  pr_policy :: "pyval dict"
  pr_code :: string
  pr_proposal_approval :: string
  pr_mutation_approval :: string
  pr_install :: "pyval dict"
  pr_tests :: "pyval dict list"
  pr_trust :: "pyval dict"
  pr_created :: real
  pr_updated :: real
  pr_expires :: "real option"
  pr_metadata :: "pyval dict"

definition proposal_to_dict :: "proposal \<Rightarrow> pyval dict" where
  "proposal_to_dict p =
     [(''proposal_id'', PStr (pr_id p)), (''status'', PStr (status_name (pr_status p))),
      (''requirements'', PList (map PDict (pr_requirements p))), (''environment'', PDict (pr_environment p)),
      (''risk'', PDict (pr_risk p)), (''source'', PStr (pr_source p)),
      (''observation_ids'', PList (map PStr (pr_observations p))), (''policy_decision'', PDict (pr_policy p)),
      (''generated_code_ref'', PStr (pr_code p)), (''proposal_approval_id'', PStr (pr_proposal_approval p)),
      (''mutation_approval_id'', PStr (pr_mutation_approval p)), (''install_result'', PDict (pr_install p)),
      (''test_results'', PList (map PDict (pr_tests p))), (''trust_state'', PDict (pr_trust p)),
      (''created_at'', PFloat (pr_created p)), (''updated_at'', PFloat (pr_updated p)),
      (''expires_at'', (case pr_expires p of None \<Rightarrow> PNone | Some x \<Rightarrow> PFloat x)), (''metadata'', PDict (pr_metadata p))]"

text \<open>The items of an iteration over a value.\<close>

definition py_items :: "pyval \<Rightarrow> pyval list outcome" where
  "py_items v =
     (case v of PList vs \<Rightarrow> Ret vs | PStr s \<Rightarrow> Ret (map (\<lambda>c. PStr [c]) s) | PDict d \<Rightarrow> Ret (map (PStr \<circ> fst) d)
      | _ \<Rightarrow> Raise ''TypeError'')"

definition dict_items :: "pyval list \<Rightarrow> pyval dict list" where
  "dict_items vs = List.map_filter (\<lambda>v. case v of PDict d \<Rightarrow> Some d | _ \<Rightarrow> None) vs"

definition optional_float :: "conversions \<Rightarrow> pyval option \<Rightarrow> real option" where
  "optional_float cv v =
     (case v of None \<Rightarrow> None | Some PNone \<Rightarrow> None
      | Some w \<Rightarrow> (case py_float cv w of Ret x \<Rightarrow> Some x | Raise e \<Rightarrow> None))"

definition proposal_from_dict :: "conversions \<Rightarrow> pyval dict \<Rightarrow> proposal outcome" where
  "proposal_from_dict cv d =
     (let str = (\<lambda>k. py_str cv (get_or d k (PStr []))); dict = (\<lambda>k. as_dict (get_or d k (PDict [])));
          items = (\<lambda>k. py_items (get_or d k (PList []))) in
      and_then (items ''requirements'') (\<lambda>reqs.
      and_then (dict ''environment'') (\<lambda>env.
      and_then (dict ''risk'') (\<lambda>risk.
      and_then (items ''observation_ids'') (\<lambda>obs.
      and_then (dict ''policy_decision'') (\<lambda>policy.
      and_then (dict ''install_result'') (\<lambda>install.
      and_then (items ''test_results'') (\<lambda>tests.
      and_then (dict ''trust_state'') (\<lambda>trust.
      and_then (py_float cv (get_or d ''created_at'' (PFloat 0))) (\<lambda>created.
      and_then (py_float cv (get_or d ''updated_at'' (PFloat 0))) (\<lambda>updated.
      and_then (dict ''metadata'') (\<lambda>metadata.
        Ret \<lparr>pr_id = str ''proposal_id'',
             pr_status = coerce_status cv (case map_of d ''status'' of None \<Rightarrow> PNone | Some v \<Rightarrow> v),
             pr_requirements = dict_items reqs, pr_environment = env, pr_risk = risk,
             pr_source = py_str cv (get_or d ''source'' (PStr ''runtime'')), pr_observations = map (py_str cv) obs,
             pr_policy = policy, pr_code = str ''generated_code_ref'', pr_proposal_approval = str ''proposal_approval_id'',
             pr_mutation_approval = str ''mutation_approval_id'', pr_install = install, pr_tests = dict_items tests,
             pr_trust = trust, pr_created = created, pr_updated = updated,
             pr_expires = optional_float cv (map_of d ''expires_at''), pr_metadata = metadata\<rparr>))))))))))))"

section \<open>Identity and state events\<close>

definition requirement_identity :: "conversions \<Rightarrow> pyval dict \<Rightarrow> pyval outcome" where
  "requirement_identity cv d =
     (let str = (\<lambda>k. PStr (py_str cv (get_or d k (PStr [])))) in
      case py_items (get_or d ''required_platform_capabilities'' (PList [])) of
        Raise e \<Rightarrow> Raise e
      | Ret caps \<Rightarrow> Ret (PDict
          [(''requirement_id'', str ''requirement_id''), (''capability'', str ''capability''), (''origin'', str ''origin''),
           (''max_risk_level'', str ''max_risk_level''),
           (''required_platform_capabilities'', PList (map PStr (sort (map (py_str cv) caps))))]))"

fun identities :: "conversions \<Rightarrow> pyval dict list \<Rightarrow> pyval list outcome" where
  "identities cv [] = Ret []"
| "identities cv (r # rs) =
     (case requirement_identity cv r of Raise e \<Rightarrow> Raise e
      | Ret v \<Rightarrow> (case identities cv rs of Raise e \<Rightarrow> Raise e | Ret vs \<Rightarrow> Ret (v # vs)))"

definition proposal_identity :: "(pyval \<Rightarrow> string) \<Rightarrow> conversions \<Rightarrow> pyval dict list \<Rightarrow> pyval dict \<Rightarrow> string outcome" where
  "proposal_identity hash cv reqs env =
     (case identities cv reqs of Raise e \<Rightarrow> Raise e
      | Ret ids \<Rightarrow> Ret (''prop-'' @ take 16 (content_hash hash (PDict
          [(''identity'', PList ids),
           (''environment'', PDict [(''fingerprint_id'', get_default env ''fingerprint_id'' (PStr [])),
              (''platform_capabilities'', get_default env ''platform_capabilities'' (PList [])),
              (''workspace_markers'', get_default env ''workspace_markers'' (PList []))])]))))"

fun status_event :: "proposal_status \<Rightarrow> string" where
  "status_event P_PENDING = ''proposal.created''"
| "status_event P_GENERATED = ''proposal.generated''"
| "status_event P_APPROVED = ''proposal.approved''"
| "status_event P_INSTALLED = ''plugin.installed''"
| "status_event P_PROBATION = ''plugin.probation_started''"
| "status_event P_VERIFIED = ''plugin.verified''"
| "status_event P_REJECTED = ''proposal.rejected''"
| "status_event P_FAILED = ''proposal.failed''"
| "status_event P_QUARANTINED = ''plugin.quarantined''"
| "status_event P_SUPERSEDED = ''proposal.superseded''"
| "status_event P_EXPIRED = ''proposal.expired''"
| "status_event P_NO_OP = ''proposal.no_op''"

record proposal_store =
  ps_profile :: string
  ps_ttl_hours :: nat

definition new_proposal_store :: "string \<Rightarrow> int \<Rightarrow> proposal_store" where
  "new_proposal_store profile ttl = \<lparr>ps_profile = profile, ps_ttl_hours = nat (max 0 ttl)\<rparr>"

text \<open>A state without the time of its update, as its key in the log sees it.\<close>

definition state_identity :: "proposal \<Rightarrow> pyval" where
  "state_identity p = PDict (dict_pop ''updated_at'' (proposal_to_dict p))"

definition state_key :: "(pyval \<Rightarrow> string) \<Rightarrow> proposal \<Rightarrow> string" where
  "state_key hash p = ''proposal.state:'' @ pr_id p @ '':'' @ status_name (pr_status p) @ '':'' @ content_hash hash (state_identity p)"

definition state_event ::
  "(pyval \<Rightarrow> string) \<Rightarrow> conversions \<Rightarrow> proposal_store \<Rightarrow> string \<Rightarrow> proposal \<Rightarrow> proposal_status option \<Rightarrow> evo_event outcome" where
  "state_event hash cv st eid p previous =
     (let str = (\<lambda>d k. py_str cv (get_or d k (PStr []))); first = (case pr_requirements p of [] \<Rightarrow> [] | r # _ \<Rightarrow> r) in
      create_event hash eid (if Some (pr_status p) \<noteq> previous then status_event (pr_status p) else ''proposal.updated'')
        (no_context\<lparr>ec_profile := ps_profile st, ec_workspace := str (pr_environment p) ''workspace_id'',
           ec_session := str (pr_environment p) ''session_id'', ec_requirement := str first ''requirement_id'',
           ec_proposal := pr_id p, ec_artifact := pr_code p, ec_plugin := str (pr_metadata p) ''plugin_id'',
           ec_correlation := pr_id p\<rparr>)
        [(''proposal_state'', PDict (proposal_to_dict p)),
         (''previous_status'', PStr (case previous of None \<Rightarrow> [] | Some s \<Rightarrow> status_name s)),
         (''status'', PStr (status_name (pr_status p))), (''reason'', PStr (str (pr_metadata p) ''terminal_reason''))]
        ''proposal.orchestrator'' ''profile'' (pr_updated p)
        (case previous of None \<Rightarrow> ''proposal.created:'' @ pr_id p | Some s \<Rightarrow> state_key hash p))"

section \<open>Operations\<close>

text \<open>The last state in a slice of the log.\<close>

fun last_state :: "conversions \<Rightarrow> (nat \<times> evo_event) list \<Rightarrow> proposal option outcome" where
  "last_state cv [] = Ret None"
| "last_state cv (r # rs) =
     (case map_of (ee_payload (snd r)) ''proposal_state'' of
        Some (PDict d) \<Rightarrow> (case proposal_from_dict cv d of Raise e \<Rightarrow> Raise e | Ret p \<Rightarrow> Ret (Some p))
      | _ \<Rightarrow> last_state cv rs)"

definition get_proposal :: "conversions \<Rightarrow> proposal_store \<Rightarrow> string \<Rightarrow> event_db \<Rightarrow> proposal option outcome" where
  "get_proposal cv st pid db =
     last_state cv (rev (read_events (any_event\<lparr>eq_profile := ps_profile st, eq_proposal := pid, eq_limit := 5000\<rparr>) db))"

definition new_proposal ::
  "proposal_store \<Rightarrow> real \<Rightarrow> string \<Rightarrow> pyval dict list \<Rightarrow> pyval dict \<Rightarrow> pyval dict \<Rightarrow> string \<Rightarrow> string list \<Rightarrow> pyval dict \<Rightarrow> proposal" where
  "new_proposal st now pid reqs env risk source obs metadata =
     \<lparr>pr_id = pid, pr_status = P_PENDING, pr_requirements = reqs, pr_environment = env, pr_risk = risk,
      pr_source = (if source = [] then ''runtime'' else source), pr_observations = obs, pr_policy = [], pr_code = [],
      pr_proposal_approval = [], pr_mutation_approval = [], pr_install = [], pr_tests = [], pr_trust = [],
      pr_created = now, pr_updated = now,
      pr_expires = (if ps_ttl_hours st > 0 then Some (now + real (ps_ttl_hours st) * 3600) else None), pr_metadata = metadata\<rparr>"

definition prepare_enqueue ::
  "(pyval \<Rightarrow> string) \<Rightarrow> conversions \<Rightarrow> proposal_store \<Rightarrow> real \<Rightarrow> string \<Rightarrow> pyval dict list \<Rightarrow> pyval dict \<Rightarrow> pyval dict \<Rightarrow> string
     \<Rightarrow> string list \<Rightarrow> pyval dict \<Rightarrow> event_db \<Rightarrow> (proposal \<times> evo_event option) outcome" where
  "prepare_enqueue hash cv st now eid reqs env risk source obs metadata db =
     (case proposal_identity hash cv reqs env of Raise e \<Rightarrow> Raise e | Ret pid \<Rightarrow>
      case get_proposal cv st pid db of Raise e \<Rightarrow> Raise e
      | Ret (Some p) \<Rightarrow> Ret (p, None)
      | Ret None \<Rightarrow>
          let p = new_proposal st now pid reqs env risk source obs metadata
          in case state_event hash cv st eid p None of Raise e \<Rightarrow> Raise e | Ret e \<Rightarrow> Ret (p, Some e))"

text \<open>Appending an event and reading the state back: \<open>stored or item\<close>.\<close>

definition append_and_get :: "conversions \<Rightarrow> proposal_store \<Rightarrow> evo_event \<Rightarrow> proposal \<Rightarrow> event_db \<Rightarrow> proposal outcome \<times> event_db" where
  "append_and_get cv st e p db =
     (case append_event e db of
        (Raise x, db1) \<Rightarrow> (Raise x, db1)
      | (Ret _, db1) \<Rightarrow>
          (case get_proposal cv st (pr_id p) db1 of
             Raise x \<Rightarrow> (Raise x, db1) | Ret None \<Rightarrow> (Ret p, db1) | Ret (Some q) \<Rightarrow> (Ret q, db1)))"

definition enqueue ::
  "(pyval \<Rightarrow> string) \<Rightarrow> conversions \<Rightarrow> proposal_store \<Rightarrow> real \<Rightarrow> string \<Rightarrow> pyval dict list \<Rightarrow> pyval dict \<Rightarrow> pyval dict \<Rightarrow> string
     \<Rightarrow> string list \<Rightarrow> pyval dict \<Rightarrow> event_db \<Rightarrow> proposal outcome \<times> event_db" where
  "enqueue hash cv st now eid reqs env risk source obs metadata db =
     (case prepare_enqueue hash cv st now eid reqs env risk source obs metadata db of
        Raise e \<Rightarrow> (Raise e, db)
      | Ret (p, None) \<Rightarrow> (Ret p, db)
      | Ret (p, Some e) \<Rightarrow> append_and_get cv st e p db)"

text \<open>What an update gives: \<open>None\<close> for what it leaves.\<close>

record proposal_change =
  pc_policy :: "pyval dict option"
  pc_code :: "string option"
  pc_proposal_approval :: "string option"
  pc_mutation_approval :: "string option"
  pc_install :: "pyval dict option"
  pc_tests :: "pyval dict list option"
  pc_trust :: "pyval dict option"
  pc_metadata :: "pyval dict option"

definition no_change :: proposal_change where
  "no_change = \<lparr>pc_policy = None, pc_code = None, pc_proposal_approval = None, pc_mutation_approval = None, pc_install = None,
     pc_tests = None, pc_trust = None, pc_metadata = None\<rparr>"

definition or_old :: "'a option \<Rightarrow> 'a \<Rightarrow> 'a" where
  "or_old v old = (case v of None \<Rightarrow> old | Some x \<Rightarrow> x)"

text \<open>\<open>{**d, **e}\<close>.\<close>

definition updated_proposal :: "real \<Rightarrow> proposal_status \<Rightarrow> proposal_change \<Rightarrow> proposal \<Rightarrow> proposal" where
  "updated_proposal now target c p =
     p\<lparr>pr_status := target, pr_policy := or_old (pc_policy c) (pr_policy p), pr_code := or_old (pc_code c) (pr_code p),
       pr_proposal_approval := or_old (pc_proposal_approval c) (pr_proposal_approval p),
       pr_mutation_approval := or_old (pc_mutation_approval c) (pr_mutation_approval p),
       pr_install := or_old (pc_install c) (pr_install p), pr_tests := or_old (pc_tests c) (pr_tests p),
       pr_trust := or_old (pc_trust c) (pr_trust p), pr_updated := now,
       pr_metadata := dict_merge (pr_metadata p) (or_old (pc_metadata c) [])\<rparr>"

definition append_state ::
  "(pyval \<Rightarrow> string) \<Rightarrow> conversions \<Rightarrow> proposal_store \<Rightarrow> string \<Rightarrow> proposal \<Rightarrow> proposal_status \<Rightarrow> event_db \<Rightarrow> proposal outcome \<times> event_db" where
  "append_state hash cv st eid p previous db =
     (case state_event hash cv st eid p (Some previous) of Raise e \<Rightarrow> (Raise e, db) | Ret e \<Rightarrow> append_and_get cv st e p db)"

definition update_proposal ::
  "(pyval \<Rightarrow> string) \<Rightarrow> conversions \<Rightarrow> proposal_store \<Rightarrow> real \<Rightarrow> string \<Rightarrow> string \<Rightarrow> proposal_status option \<Rightarrow> proposal_change \<Rightarrow> event_db
     \<Rightarrow> proposal option outcome \<times> event_db" where
  "update_proposal hash cv st now eid pid status c db =
     (case get_proposal cv st pid db of
        Raise e \<Rightarrow> (Raise e, db)
      | Ret None \<Rightarrow> (Ret None, db)
      | Ret (Some p) \<Rightarrow>
          let target = or_old status (pr_status p) in
          if target \<noteq> pr_status p \<and> target \<notin> allowed_transitions (pr_status p) then (Raise ''ValueError'', db)
          else (case append_state hash cv st eid (updated_proposal now target c p) (pr_status p) db of
                  (Raise e, db1) \<Rightarrow> (Raise e, db1) | (Ret q, db1) \<Rightarrow> (Ret (Some q), db1)))"

text \<open>\<open>transition\<close>; \<open>changes\<close> are absent if no keyword was given.\<close>

definition known :: "proposal option outcome \<times> event_db \<Rightarrow> proposal outcome \<times> event_db" where
  "known r = (case r of (Raise e, db) \<Rightarrow> (Raise e, db) | (Ret None, db) \<Rightarrow> (Raise ''KeyError'', db) | (Ret (Some p), db) \<Rightarrow> (Ret p, db))"

definition transition ::
  "(pyval \<Rightarrow> string) \<Rightarrow> conversions \<Rightarrow> proposal_store \<Rightarrow> real \<Rightarrow> string \<Rightarrow> string \<Rightarrow> proposal_status \<Rightarrow> proposal_change option \<Rightarrow> event_db
     \<Rightarrow> proposal outcome \<times> event_db" where
  "transition hash cv st now eid pid target changes db =
     (case get_proposal cv st pid db of
        Raise e \<Rightarrow> (Raise e, db)
      | Ret None \<Rightarrow> (Raise ''KeyError'', db)
      | Ret (Some p) \<Rightarrow>
          if target = pr_status p
          then (case changes of None \<Rightarrow> (Ret p, db) | Some c \<Rightarrow> known (update_proposal hash cv st now eid pid None c db))
          else if target \<notin> allowed_transitions (pr_status p) then (Raise ''ValueError'', db)
          else known (update_proposal hash cv st now eid pid (Some target) (or_old changes no_change) db))"

section \<open>Lists\<close>

fun collect :: "conversions \<Rightarrow> (nat \<times> evo_event) list \<Rightarrow> proposal dict \<Rightarrow> proposal dict outcome" where
  "collect cv [] latest = Ret latest"
| "collect cv (r # rs) latest =
     (case map_of (ee_payload (snd r)) ''proposal_state'' of
        Some (PDict d) \<Rightarrow>
          (case proposal_from_dict cv d of Raise e \<Rightarrow> Raise e | Ret p \<Rightarrow> collect cv rs (dict_set (pr_id p) p latest))
      | _ \<Rightarrow> collect cv rs latest)"

definition proposal_page :: "proposal_store \<Rightarrow> nat \<Rightarrow> event_db \<Rightarrow> (nat \<times> evo_event) list" where
  "proposal_page st cursor db =
     read_events (any_event\<lparr>eq_profile := ps_profile st, eq_proposals_only := True, eq_after := int cursor, eq_limit := 5000\<rparr>) db"

lemma proposal_page_after: "r \<in> set (proposal_page st cursor db) \<Longrightarrow> r \<in> set (db_events db) \<and> cursor < fst r"
  by (auto simp: proposal_page_def read_events_def query_matches_def Let_def any_event_def dest: in_set_takeD)

text \<open>The pages, from a cursor to the end of the log.\<close>

function pages :: "conversions \<Rightarrow> proposal_store \<Rightarrow> nat \<Rightarrow> event_db \<Rightarrow> proposal dict \<Rightarrow> proposal dict outcome" where
  "pages cv st cursor db latest =
     (let records = proposal_page st cursor db in
      if records = [] then Ret latest
      else case collect cv records latest of
        Raise e \<Rightarrow> Raise e
      | Ret latest1 \<Rightarrow> if length records < 5000 then Ret latest1 else pages cv st (fst (last records)) db latest1)"
  by pat_completeness auto

termination
proof (relation "measure (\<lambda>(cv, st, cursor, db, latest). card {r \<in> set (db_events db). cursor < fst r})", goal_cases)
  case (2 cv st cursor db latest records latest1)
  have "last records \<in> set (db_events db)" "cursor < fst (last records)"
    using proposal_page_after [of "last records" st cursor db] 2(1,2) by simp_all
  then have "{r \<in> set (db_events db). fst (last records) < fst r} \<subset> {r \<in> set (db_events db). cursor < fst r}" by auto
  then show ?case by (simp add: psubset_card_mono)
qed simp

declare pages.simps [simp del]

text \<open>\<open>list_items\<close>: newest first; the sort is stable also when reversed.\<close>

definition sort_time :: "proposal \<Rightarrow> real" where
  "sort_time p = (if pr_updated p \<noteq> 0 then pr_updated p else pr_created p)"

definition limited :: "int \<Rightarrow> 'a list \<Rightarrow> 'a list" where
  "limited limit xs = (if limit \<le> 0 then xs else take (nat limit) xs)"

definition list_items :: "conversions \<Rightarrow> proposal_store \<Rightarrow> string \<Rightarrow> int \<Rightarrow> event_db \<Rightarrow> proposal list outcome" where
  "list_items cv st status limit db =
     (case pages cv st 0 db [] of
        Raise e \<Rightarrow> Raise e
      | Ret latest \<Rightarrow>
          let items = filter (\<lambda>p. status = [] \<or> status_name (pr_status p) = status) (map snd latest)
          in Ret (limited limit (sort_key (\<lambda>p. - sort_time p) items)))"

definition find_by_metadata :: "conversions \<Rightarrow> proposal_store \<Rightarrow> string \<Rightarrow> string \<Rightarrow> event_db \<Rightarrow> proposal option outcome" where
  "find_by_metadata cv st key target db =
     (case list_items cv st [] 0 db of
        Raise e \<Rightarrow> Raise e
      | Ret items \<Rightarrow> Ret (find (\<lambda>p. py_str cv (get_or (pr_metadata p) key (PStr [])) = target) items))"

definition active_proposals :: "conversions \<Rightarrow> proposal_store \<Rightarrow> int \<Rightarrow> event_db \<Rightarrow> proposal list outcome" where
  "active_proposals cv st limit db =
     (case list_items cv st [] 0 db of
        Raise e \<Rightarrow> Raise e
      | Ret items \<Rightarrow> Ret (limited limit (filter (\<lambda>p. pr_status p \<in> set active_statuses) items)))"

end
