(* ===== verification/Proposal_Store_Props.thy ===== *)
theory Proposal_Store_Props imports Proposal_Store Event_Store_Props Node_Writes_Props begin

text \<open>
  The proposals in the log: what is read back is what was recorded, states follow the table of
  transitions, and the store behaves as a history for each proposal.
\<close>

section \<open>Round trip\<close>

definition canonical_proposal :: "proposal \<Rightarrow> proposal" where
  "canonical_proposal p =
     p\<lparr>pr_requirements := map canonical_dict (pr_requirements p), pr_environment := canonical_dict (pr_environment p),
       pr_risk := canonical_dict (pr_risk p), pr_policy := canonical_dict (pr_policy p), pr_install := canonical_dict (pr_install p),
       pr_tests := map canonical_dict (pr_tests p), pr_trust := canonical_dict (pr_trust p), pr_metadata := canonical_dict (pr_metadata p)\<rparr>"

lemma canonical_PDict: "canonical (PDict d) = PDict (canonical_dict d)"
  by (simp add: canonical_dict_def)

lemma canonical_dicts: "map canonical (map PDict ds) = map PDict (map canonical_dict ds)"
  by (simp add: canonical_PDict del: canonical.simps)

lemma canonical_strs: "map canonical (map PStr ss) = map PStr ss"
  by simp

lemma map_of_canonical_dict:
  assumes "distinct (map fst d)"
  shows "map_of (canonical_dict d) k = map_option canonical (map_of d k)"
proof -
  have "distinct (map fst (map (\<lambda>kv. (fst kv, canonical (snd kv))) d))" using assms by (simp add: comp_def)
  moreover have "map_of (map (\<lambda>kv. (fst kv, canonical (snd kv))) d) k = map_option canonical (map_of d k)"
    by (induction d) auto
  ultimately show ?thesis by (simp add: canonical_dict_def map_of_sort_key)
qed

lemma dict_items_dicts [simp]: "dict_items (map PDict ds) = ds"
  by (induction ds) (simp_all add: dict_items_def)

lemma canonical_dict_Nil [simp]: "canonical_dict d = [] \<longleftrightarrow> d = []"
  by (simp add: canonical_dict_def sort_key_Nil_iff)

lemma coerce_status_name [simp]: "coerce_status cv (PStr (status_name st)) = st"
  by (cases st) (simp_all add: coerce_status_def status_name_def statuses_def py_truthy_def py_str_def upper_def)

lemma proposal_keys: "distinct (map fst (proposal_to_dict p))"
  by (simp add: proposal_to_dict_def)

lemma proposal_lookup:
  "map_of (canonical_dict (proposal_to_dict p)) ''proposal_id'' = Some (PStr (pr_id p))"
  "map_of (canonical_dict (proposal_to_dict p)) ''status'' = Some (PStr (status_name (pr_status p)))"
  "map_of (canonical_dict (proposal_to_dict p)) ''requirements'' = Some (PList (map PDict (map canonical_dict (pr_requirements p))))"
  "map_of (canonical_dict (proposal_to_dict p)) ''environment'' = Some (PDict (canonical_dict (pr_environment p)))"
  "map_of (canonical_dict (proposal_to_dict p)) ''risk'' = Some (PDict (canonical_dict (pr_risk p)))"
  "map_of (canonical_dict (proposal_to_dict p)) ''source'' = Some (PStr (pr_source p))"
  "map_of (canonical_dict (proposal_to_dict p)) ''observation_ids'' = Some (PList (map PStr (pr_observations p)))"
  "map_of (canonical_dict (proposal_to_dict p)) ''policy_decision'' = Some (PDict (canonical_dict (pr_policy p)))"
  "map_of (canonical_dict (proposal_to_dict p)) ''generated_code_ref'' = Some (PStr (pr_code p))"
  "map_of (canonical_dict (proposal_to_dict p)) ''proposal_approval_id'' = Some (PStr (pr_proposal_approval p))"
  "map_of (canonical_dict (proposal_to_dict p)) ''mutation_approval_id'' = Some (PStr (pr_mutation_approval p))"
  "map_of (canonical_dict (proposal_to_dict p)) ''install_result'' = Some (PDict (canonical_dict (pr_install p)))"
  "map_of (canonical_dict (proposal_to_dict p)) ''test_results'' = Some (PList (map PDict (map canonical_dict (pr_tests p))))"
  "map_of (canonical_dict (proposal_to_dict p)) ''trust_state'' = Some (PDict (canonical_dict (pr_trust p)))"
  "map_of (canonical_dict (proposal_to_dict p)) ''created_at'' = Some (PFloat (pr_created p))"
  "map_of (canonical_dict (proposal_to_dict p)) ''updated_at'' = Some (PFloat (pr_updated p))"
  "map_of (canonical_dict (proposal_to_dict p)) ''expires_at'' = Some (case pr_expires p of None \<Rightarrow> PNone | Some x \<Rightarrow> PFloat x)"
  "map_of (canonical_dict (proposal_to_dict p)) ''metadata'' = Some (PDict (canonical_dict (pr_metadata p)))"
  unfolding map_of_canonical_dict [OF proposal_keys]
  by (simp_all add: proposal_to_dict_def canonical_dict_def comp_def split: option.split)

lemma stored_str: "map_of d k = Some (PStr s) \<Longrightarrow> py_str cv (get_or d k (PStr [])) = s"
  by (simp add: get_or_def py_str_def py_truthy_def)

lemma stored_dict: "map_of d k = Some (PDict e) \<Longrightarrow> as_dict (get_or d k (PDict [])) = Ret e"
  by (simp add: get_or_def as_dict_def py_truthy_def)

lemma stored_list: "map_of d k = Some (PList vs) \<Longrightarrow> py_items (get_or d k (PList [])) = Ret vs"
  by (simp add: get_or_def py_items_def py_truthy_def)

lemma stored_float: "map_of d k = Some (PFloat x) \<Longrightarrow> py_float cv (get_or d k (PFloat 0)) = Ret x"
  by (simp add: get_or_def py_float_def py_truthy_def)

lemma stored_source: "map_of d k = Some (PStr s) \<Longrightarrow> s \<noteq> [] \<Longrightarrow> py_str cv (get_or d k dflt) = s"
  by (simp add: get_or_def py_str_def py_truthy_def)

lemma stored_expiry: "map_of d k = Some (case x of None \<Rightarrow> PNone | Some t \<Rightarrow> PFloat t) \<Longrightarrow> optional_float cv (map_of d k) = x"
  by (simp add: optional_float_def py_float_def split: option.split)

lemma map_py_str [simp]: "map (py_str cv) (map PStr ss) = ss"
  by (induction ss) (simp_all add: py_str_def)

lemma from_to_dict:
  assumes "pr_source p \<noteq> []"
  shows "proposal_from_dict cv (canonical_dict (proposal_to_dict p)) = Ret (canonical_proposal p)"
  unfolding proposal_from_dict_def Let_def
    stored_list [OF proposal_lookup(3)] stored_dict [OF proposal_lookup(4)] stored_dict [OF proposal_lookup(5)]
    stored_list [OF proposal_lookup(7)] stored_dict [OF proposal_lookup(8)] stored_dict [OF proposal_lookup(12)]
    stored_list [OF proposal_lookup(13)] stored_dict [OF proposal_lookup(14)] stored_float [OF proposal_lookup(15)]
    stored_float [OF proposal_lookup(16)] stored_dict [OF proposal_lookup(18)] and_then_def outcome.case
    stored_str [OF proposal_lookup(1)] stored_source [OF proposal_lookup(6) assms] stored_str [OF proposal_lookup(9)]
    stored_str [OF proposal_lookup(10)] stored_str [OF proposal_lookup(11)] stored_expiry [OF proposal_lookup(17)]
    proposal_lookup(2) option.case coerce_status_name dict_items_dicts map_py_str
  by (cases p) (simp add: canonical_proposal_def)

section \<open>Histories\<close>

definition of_proposal :: "proposal_store \<Rightarrow> string \<Rightarrow> nat \<times> evo_event \<Rightarrow> bool" where
  "of_proposal st pid r \<longleftrightarrow> ec_profile (ee_context (snd r)) = ps_profile st \<and> ec_proposal (ee_context (snd r)) = pid"

definition proposal_events :: "proposal_store \<Rightarrow> string \<Rightarrow> event_db \<Rightarrow> (nat \<times> evo_event) list" where
  "proposal_events st pid db = filter (of_proposal st pid) (db_events db)"

text \<open>The state an event records, if it records one.\<close>

definition state_of :: "conversions \<Rightarrow> nat \<times> evo_event \<Rightarrow> proposal option" where
  "state_of cv r =
     (case map_of (ee_payload (snd r)) ''proposal_state'' of
        Some (PDict d) \<Rightarrow> (case proposal_from_dict cv d of Ret p \<Rightarrow> Some p | Raise e \<Rightarrow> None)
      | _ \<Rightarrow> None)"

text \<open>The abstract state of the store: for each proposal the states recorded, oldest first.\<close>

definition history :: "conversions \<Rightarrow> proposal_store \<Rightarrow> string \<Rightarrow> event_db \<Rightarrow> proposal list" where
  "history cv st pid db = List.map_filter (state_of cv) (proposal_events st pid db)"

text \<open>An event without a state, or with a readable state of the proposal it names.\<close>

definition tame :: "conversions \<Rightarrow> nat \<times> evo_event \<Rightarrow> bool" where
  "tame cv r \<longleftrightarrow> map_of (ee_payload (snd r)) ''proposal_state'' = None
     \<or> (\<exists>d p. map_of (ee_payload (snd r)) ''proposal_state'' = Some (PDict d) \<and> proposal_from_dict cv d = Ret p
          \<and> pr_id p = ec_proposal (ee_context (snd r)) \<and> pr_source p \<noteq> [])"

definition all_tame :: "conversions \<Rightarrow> proposal_store \<Rightarrow> event_db \<Rightarrow> bool" where
  "all_tame cv st db \<longleftrightarrow> (\<forall>r \<in> set (db_events db). ec_profile (ee_context (snd r)) = ps_profile st \<longrightarrow> tame cv r)"

lemma map_filter_simps:
  "List.map_filter f [] = []" "List.map_filter f (x # xs) = (case f x of None \<Rightarrow> List.map_filter f xs | Some y \<Rightarrow> y # List.map_filter f xs)"
  "List.map_filter f (xs @ ys) = List.map_filter f xs @ List.map_filter f ys" "List.map_filter f (rev xs) = rev (List.map_filter f xs)"
  by (simp_all add: List.map_filter_def rev_map rev_filter split: option.split)

lemma last_state_step:
  "tame cv r \<Longrightarrow> last_state cv (r # rs) = (case state_of cv r of None \<Rightarrow> last_state cv rs | Some p \<Rightarrow> Ret (Some p))"
  by (auto simp: tame_def state_of_def)

lemma last_state_tame:
  "(\<And>r. r \<in> set rs \<Longrightarrow> tame cv r)
     \<Longrightarrow> last_state cv rs = Ret (case List.map_filter (state_of cv) rs of [] \<Rightarrow> None | p # _ \<Rightarrow> Some p)"
proof (induction rs)
  case (Cons r rs)
  then have "last_state cv (r # rs) = (case state_of cv r of None \<Rightarrow> last_state cv rs | Some p \<Rightarrow> Ret (Some p))"
    by (intro last_state_step) simp
  then show ?case using Cons by (simp add: map_filter_simps del: last_state.simps split: option.split)
qed (simp add: map_filter_simps)

lemma hd_rev_last: "(case rev xs of [] \<Rightarrow> None | p # _ \<Rightarrow> Some p) = (if xs = [] then None else Some (last xs))"
  by (cases xs rule: rev_cases) simp_all

lemma read_proposal:
  assumes "ps_profile st \<noteq> []" "pid \<noteq> []" "log_ok db" "length (proposal_events st pid db) \<le> 5000"
  shows "read_events (any_event\<lparr>eq_profile := ps_profile st, eq_proposal := pid, eq_limit := 5000\<rparr>) db = proposal_events st pid db"
proof -
  have "query_matches (any_event\<lparr>eq_profile := ps_profile st, eq_proposal := pid, eq_limit := 5000\<rparr>) r = of_proposal st pid r"
    if "r \<in> set (db_events db)" for r
    using assms(1-3) that by (auto simp: query_matches_def any_event_def restricts_def of_proposal_def Let_def log_ok_def)
  then have "filter (query_matches (any_event\<lparr>eq_profile := ps_profile st, eq_proposal := pid, eq_limit := 5000\<rparr>)) (db_events db)
      = proposal_events st pid db"
    unfolding proposal_events_def by (rule filter_cong [OF refl])
  then show ?thesis using assms(4) by (simp add: read_events_def any_event_def)
qed

lemma get_history:
  assumes "ps_profile st \<noteq> []" "pid \<noteq> []" "log_ok db" "all_tame cv st db" "length (proposal_events st pid db) \<le> 5000"
  shows "get_proposal cv st pid db = Ret (if history cv st pid db = [] then None else Some (last (history cv st pid db)))"
proof -
  have "tame cv r" if "r \<in> set (rev (proposal_events st pid db))" for r
    using that assms(4) by (auto simp: proposal_events_def of_proposal_def all_tame_def)
  then show ?thesis
    unfolding get_proposal_def read_proposal [OF assms(1-3,5)] history_def
    by (subst last_state_tame) (simp_all add: map_filter_simps hd_rev_last)
qed

text \<open>Every state in a history is one of its proposal.\<close>

lemma history_id:
  assumes "all_tame cv st db" "p \<in> set (history cv st pid db)"
  shows "pr_id p = pid \<and> pr_source p \<noteq> []"
proof -
  obtain r where r: "r \<in> set (db_events db)" "of_proposal st pid r" "state_of cv r = Some p"
    using assms(2) by (auto simp: history_def List.map_filter_def proposal_events_def)
  then have "tame cv r" using assms(1) by (auto simp: all_tame_def of_proposal_def)
  then show ?thesis using r(2,3) by (auto simp: tame_def state_of_def of_proposal_def)
qed

section \<open>Recording a state\<close>

lemma proposal_state_stored:
  "map_of (canonical_dict [(''proposal_state'', PDict d), (''previous_status'', PStr s), (''status'', PStr t), (''reason'', PStr u)]) ''proposal_state''
     = Some (PDict (canonical_dict d))"
  by (subst map_of_canonical_dict) (simp_all add: canonical_dict_def)

lemma state_event_fields:
  assumes "state_event hash cv st eid p prev = Ret e"
  shows "ee_id e = eid" "ec_profile (ee_context e) = ps_profile st" "ec_proposal (ee_context e) = pr_id p"
    "map_of (ee_payload e) ''proposal_state'' = Some (PDict (canonical_dict (proposal_to_dict p)))"
    "ee_dedup e = (case prev of None \<Rightarrow> ''proposal.created:'' @ pr_id p | Some s \<Rightarrow> state_key hash p)"
  using assms unfolding state_event_def create_event_def Let_def
  by (auto simp: no_context_def proposal_state_stored state_key_def split: if_splits option.splits)

lemma create_event_ok:
  "eid \<noteq> [] \<Longrightarrow> type \<noteq> [] \<Longrightarrow> producer \<noteq> [] \<Longrightarrow> dedup \<noteq> [] \<Longrightarrow> 0 \<le> ec_generation cx
     \<Longrightarrow> \<exists>e. create_event hash eid type cx payload producer privacy now dedup = Ret e"
  by (simp add: create_event_def Let_def)

lemma state_event_ok:
  assumes "eid \<noteq> []"
  obtains e where "state_event hash cv st eid p prev = Ret e"
proof -
  have "status_event (pr_status p) \<noteq> []" by (cases "pr_status p") simp_all
  then have "\<exists>e. state_event hash cv st eid p prev = Ret e"
    unfolding state_event_def Let_def
    by (intro create_event_ok) (use assms in \<open>simp_all add: no_context_def state_key_def split: option.split\<close>)
  then show thesis using that by blast
qed

text \<open>An event of the profile that records the state \<open>p\<close>.\<close>

definition records :: "proposal_store \<Rightarrow> proposal \<Rightarrow> evo_event \<Rightarrow> bool" where
  "records st p e \<longleftrightarrow>
     ec_profile (ee_context e) = ps_profile st \<and> ec_proposal (ee_context e) = pr_id p
     \<and> map_of (ee_payload e) ''proposal_state'' = Some (PDict (canonical_dict (proposal_to_dict p)))"

lemma state_event_records: "state_event hash cv st eid p prev = Ret e \<Longrightarrow> records st p e"
  by (simp add: records_def state_event_fields)

lemma state_of_recorded:
  assumes "records st p e" "pr_source p \<noteq> []"
  shows "state_of cv (k, e) = Some (canonical_proposal p)" "tame cv (k, e)"
  using assms(1) [unfolded records_def] from_to_dict [OF assms(2), of cv] assms(2)
  by (simp_all add: state_of_def tame_def canonical_proposal_def)

text \<open>A key of the profile that is in the log.\<close>

definition key_logged :: "proposal_store \<Rightarrow> string \<Rightarrow> event_db \<Rightarrow> bool" where
  "key_logged st key db \<longleftrightarrow> (\<exists>r \<in> set (db_events db). ec_profile (ee_context (snd r)) = ps_profile st \<and> ee_dedup (snd r) = key)"

definition fresh_id :: "string \<Rightarrow> event_db \<Rightarrow> bool" where
  "fresh_id eid db \<longleftrightarrow> eid \<noteq> [] \<and> (\<forall>r \<in> set (db_events db). ee_id (snd r) \<noteq> eid)"

lemma history_append:
  "db_events db' = db_events db @ [r] \<Longrightarrow>
     history cv st pid db' = history cv st pid db @ (if of_proposal st pid r then (case state_of cv r of None \<Rightarrow> [] | Some p \<Rightarrow> [p]) else [])"
  by (simp add: history_def proposal_events_def map_filter_simps split: option.split)

lemma history_cong: "db_events db' = db_events db \<Longrightarrow> history cv st pid db' = history cv st pid db"
  by (simp add: history_def proposal_events_def)

lemma record_event:
  assumes ev: "records st p e" and src: "pr_source p \<noteq> []" and fresh: "fresh_id (ee_id e) db"
    and tame: "all_tame cv st db" and log: "log_ok db"
  defines "db' \<equiv> snd (append_event e db)"
  shows "fst (append_event e db) = Ret (\<not> key_logged st (ee_dedup e) db)" "all_tame cv st db'" "log_ok db'"
    and "history cv st pid db' = history cv st pid db
      @ (if \<not> key_logged st (ee_dedup e) db \<and> pid = pr_id p then [canonical_proposal p] else [])"
    and "length (proposal_events st pid db') \<le> Suc (length (proposal_events st pid db))"
proof -
  note s = state_of_recorded [OF ev src]
  have f: "ec_profile (ee_context e) = ps_profile st" "ec_proposal (ee_context e) = pr_id p" using ev by (simp_all add: records_def)
  have ok: "\<not> (\<exists>r \<in> set (db_events db). ee_id (snd r) = ee_id e)" using fresh by (auto simp: fresh_id_def)
  then show r: "fst (append_event e db) = Ret (\<not> key_logged st (ee_dedup e) db)"
    using f(1) by (auto simp: append_event_def insert_event_def Let_def key_logged_def)
  have d: "db_events db' = db_events db @ (if key_logged st (ee_dedup e) db then [] else [(db_next db, e)])"
    using ok f(1) by (auto simp: db'_def append_event_def insert_event_def Let_def key_logged_def)
  then show "all_tame cv st db'" using tame s(2) by (auto simp: all_tame_def split: if_splits)
  show "log_ok db'" using log log_grows_insert [of db e] by (simp add: log_grows_def db'_def append_event_def)
  show "length (proposal_events st pid db') \<le> Suc (length (proposal_events st pid db))" using d by (simp add: proposal_events_def)
  show "history cv st pid db' = history cv st pid db
      @ (if \<not> key_logged st (ee_dedup e) db \<and> pid = pr_id p then [canonical_proposal p] else [])"
  proof (cases "key_logged st (ee_dedup e) db")
    case False
    then have "db_events db' = db_events db @ [(db_next db, e)]" using d by simp
    from history_append [OF this, of cv st pid] show ?thesis
      using False f s(1) [where k = "db_next db"] by (auto simp: of_proposal_def)
  next
    case True
    then have "db_events db' = db_events db" using d by simp
    from history_cong [OF this, of cv st pid] True show ?thesis by simp
  qed
qed

lemma record_state:
  assumes ev: "state_event hash cv st eid p prev = Ret e" and src: "pr_source p \<noteq> []" and fresh: "fresh_id eid db"
    and tame: "all_tame cv st db" and log: "log_ok db"
  defines "db' \<equiv> snd (append_event e db)"
  shows "fst (append_event e db) = Ret (\<not> key_logged st (ee_dedup e) db)" "all_tame cv st db'" "log_ok db'"
    and "history cv st pid db' = history cv st pid db
      @ (if \<not> key_logged st (ee_dedup e) db \<and> pid = pr_id p then [canonical_proposal p] else [])"
    and "length (proposal_events st pid db') \<le> Suc (length (proposal_events st pid db))"
  unfolding db'_def
  by (rule record_event [OF state_event_records [OF ev] src _ tame log],
      use fresh state_event_fields(1) [OF ev] in simp)+

section \<open>Operations on histories\<close>

text \<open>
  The abstract store: an update reads the latest state, refuses an illegal transition, and records
  the new state unless it is already known, in which case it changes nothing.
\<close>

definition spec_update ::
  "(proposal \<Rightarrow> bool) \<Rightarrow> real \<Rightarrow> proposal_status option \<Rightarrow> proposal_change \<Rightarrow> proposal list \<Rightarrow> proposal option outcome \<times> proposal list" where
  "spec_update known_state now status c h =
     (if h = [] then (Ret None, h)
      else let p = last h; target = or_old status (pr_status p); q = updated_proposal now target c p in
        if target \<noteq> pr_status p \<and> target \<notin> allowed_transitions (pr_status p) then (Raise ''ValueError'', h)
        else if known_state q then (Ret (Some p), h)
        else (Ret (Some (canonical_proposal q)), h @ [canonical_proposal q]))"

text \<open>A database a proposal store can read: ordered, with readable states.\<close>

definition readable :: "conversions \<Rightarrow> proposal_store \<Rightarrow> event_db \<Rightarrow> bool" where
  "readable cv st db \<longleftrightarrow> ps_profile st \<noteq> [] \<and> log_ok db \<and> all_tame cv st db"

lemma canonical_proposal_fields [simp]:
  "pr_id (canonical_proposal p) = pr_id p" "pr_status (canonical_proposal p) = pr_status p" "pr_source (canonical_proposal p) = pr_source p"
  by (simp_all add: canonical_proposal_def)

lemma updated_proposal_fields [simp]:
  "pr_id (updated_proposal now target c p) = pr_id p" "pr_status (updated_proposal now target c p) = target"
  "pr_source (updated_proposal now target c p) = pr_source p"
  by (simp_all add: updated_proposal_def)

lemma append_and_get_history:
  assumes ev: "state_event hash cv st eid p prev = Ret e" and src: "pr_source p \<noteq> []" and fresh: "fresh_id eid db"
    and ok: "readable cv st db" and pid: "pr_id p \<noteq> []" and few: "length (proposal_events st (pr_id p) db) < 5000"
  defines "h \<equiv> history cv st (pr_id p) db @ (if \<not> key_logged st (ee_dedup e) db then [canonical_proposal p] else [])"
    and "r \<equiv> append_and_get cv st e p db"
  shows "fst r = Ret (if h = [] then p else last h)" "history cv st (pr_id p) (snd r) = h"
    "pid' \<noteq> pr_id p \<Longrightarrow> history cv st pid' (snd r) = history cv st pid' db" "readable cv st (snd r)"
    "length (proposal_events st pid' (snd r)) \<le> Suc (length (proposal_events st pid' db))"
proof -
  let ?db = "snd (append_event e db)"
  note rec = record_state [OF ev src fresh ok [unfolded readable_def, THEN conjunct2, THEN conjunct2] ok [unfolded readable_def, THEN conjunct2, THEN conjunct1]]
  have few': "length (proposal_events st (pr_id p) ?db) \<le> 5000" using rec(5) [of "pr_id p"] few by simp
  have h: "history cv st (pr_id p) ?db = h" using rec(4) [of "pr_id p"] by (simp add: h_def)
  have "get_proposal cv st (pr_id p) ?db = Ret (if h = [] then None else Some (last h))"
    using get_history [OF _ pid rec(3,2) few'] ok h by (simp add: readable_def)
  then have r: "r = (Ret (if h = [] then p else last h), ?db)"
    using rec(1) by (cases "append_event e db") (simp add: r_def append_and_get_def)
  show "fst r = Ret (if h = [] then p else last h)" "history cv st (pr_id p) (snd r) = h" using r h by simp_all
  show "pid' \<noteq> pr_id p \<Longrightarrow> history cv st pid' (snd r) = history cv st pid' db"
    "length (proposal_events st pid' (snd r)) \<le> Suc (length (proposal_events st pid' db))"
    using r rec(4,5) [of pid'] by simp_all
  show "readable cv st (snd r)" using r rec(2,3) ok by (simp add: readable_def)
qed

lemma update_history:
  fixes hash :: "pyval \<Rightarrow> string" and now :: real and status :: "proposal_status option" and c :: proposal_change
  assumes ok: "readable cv st db" and pid: "pid \<noteq> []" and few: "length (proposal_events st pid db) < 5000" and fresh: "fresh_id eid db"
  defines "r \<equiv> update_proposal hash cv st now eid pid status c db"
    and "s \<equiv> spec_update (\<lambda>q. key_logged st (state_key hash q) db) now status c (history cv st pid db)"
  shows "fst r = fst s" "history cv st pid (snd r) = snd s"
    "pid' \<noteq> pid \<Longrightarrow> history cv st pid' (snd r) = history cv st pid' db" "readable cv st (snd r)"
    "length (proposal_events st pid' (snd r)) \<le> Suc (length (proposal_events st pid' db))"
proof -
  let ?h = "history cv st pid db"
  have get: "get_proposal cv st pid db = Ret (if ?h = [] then None else Some (last ?h))"
    using get_history [of st pid db cv] ok pid few by (simp add: readable_def)
  have goal: "fst r = fst s \<and> history cv st pid (snd r) = snd s \<and> (pid' \<noteq> pid \<longrightarrow> history cv st pid' (snd r) = history cv st pid' db)
      \<and> readable cv st (snd r) \<and> length (proposal_events st pid' (snd r)) \<le> Suc (length (proposal_events st pid' db))"
  proof (cases "?h = []")
    case True
    then show ?thesis using get ok by (simp add: r_def s_def update_proposal_def spec_update_def)
  next
    case False
    let ?p = "last ?h"
    let ?q = "updated_proposal now (or_old status (pr_status ?p)) c ?p"
    have p: "pr_id ?p = pid" "pr_source ?p \<noteq> []" using history_id [of cv st db ?p pid] False ok by (auto simp: readable_def)
    show ?thesis
    proof (cases "or_old status (pr_status ?p) \<noteq> pr_status ?p \<and> or_old status (pr_status ?p) \<notin> allowed_transitions (pr_status ?p)")
      case True
      then show ?thesis using get False ok by (simp add: r_def s_def update_proposal_def spec_update_def Let_def)
    next
      case legal: False
      have "eid \<noteq> []" using fresh by (simp add: fresh_id_def)
      then obtain e where e: "state_event hash cv st eid ?q (Some (pr_status ?p)) = Ret e" by (rule state_event_ok)
      have key: "ee_dedup e = state_key hash ?q" using state_event_fields(5) [OF e] by simp
      have "pr_source ?q \<noteq> []" "pr_id ?q = pid" "pr_id ?q \<noteq> []" using p pid by simp_all
      note a = append_and_get_history [OF e this(1) fresh ok this(3), unfolded this(2), OF few]
      obtain v db1 where v: "append_and_get cv st e ?q db = (v, db1)" by fastforce
      then have r: "r = (case v of Raise x \<Rightarrow> (Raise x, db1) | Ret q \<Rightarrow> (Ret (Some q), db1))"
        using get False legal e by (auto simp: r_def update_proposal_def append_state_def Let_def split: outcome.split)
      show ?thesis
        using a [unfolded v fst_conv snd_conv key] r False legal
        by (simp add: s_def spec_update_def Let_def)
    qed
  qed
  then show "fst r = fst s" "history cv st pid (snd r) = snd s"
    "pid' \<noteq> pid \<Longrightarrow> history cv st pid' (snd r) = history cv st pid' db" "readable cv st (snd r)"
    "length (proposal_events st pid' (snd r)) \<le> Suc (length (proposal_events st pid' db))" by blast+
qed

section \<open>Runs\<close>

text \<open>An event that is not a proposal's state of this profile.\<close>

definition harmless :: "proposal_store \<Rightarrow> nat \<times> evo_event \<Rightarrow> bool" where
  "harmless st r \<longleftrightarrow> ec_profile (ee_context (snd r)) \<noteq> ps_profile st \<or> map_of (ee_payload (snd r)) ''proposal_state'' = None"

text \<open>
  What the teacher commits together with its result (\<open>evolution/teacher_worker.py\<close>): facts without a
  proposal's state, and creations that \<open>prepare_enqueue\<close> built before, on whatever log it then read, with
  another causation.
\<close>

definition caused :: "string \<Rightarrow> evo_event \<Rightarrow> evo_event" where
  "caused c e = e\<lparr>ee_context := (ee_context e)\<lparr>ec_causation := c\<rparr>\<rparr>"

definition prepared :: "(pyval \<Rightarrow> string) \<Rightarrow> conversions \<Rightarrow> proposal_store \<Rightarrow> evo_event \<Rightarrow> bool" where
  "prepared hash cv st e \<longleftrightarrow>
     (\<exists>now eid reqs env risk source obs metadata db0 p e0 c.
        prepare_enqueue hash cv st now eid reqs env risk source obs metadata db0 = Ret (p, Some e0) \<and> e = caused c e0)"

definition teacher_event :: "(pyval \<Rightarrow> string) \<Rightarrow> conversions \<Rightarrow> proposal_store \<Rightarrow> evo_event \<Rightarrow> bool" where
  "teacher_event hash cv st e \<longleftrightarrow> map_of (ee_payload e) ''proposal_state'' = None \<or> prepared hash cv st e"

text \<open>The log under the operations of the store, the teacher's commits and other writers, which record no such
  state.\<close>

inductive proposal_run :: "(pyval \<Rightarrow> string) \<Rightarrow> conversions \<Rightarrow> proposal_store \<Rightarrow> event_db \<Rightarrow> bool"
  for hash cv st where
  start: "proposal_run hash cv st empty_db"
| enqueued: "proposal_run hash cv st db \<Longrightarrow> fresh_id eid db
    \<Longrightarrow> proposal_run hash cv st (snd (enqueue hash cv st now eid reqs env risk source obs metadata db))"
| updated: "proposal_run hash cv st db \<Longrightarrow> fresh_id eid db \<Longrightarrow> pid \<noteq> []
    \<Longrightarrow> proposal_run hash cv st (snd (update_proposal hash cv st now eid pid status c db))"
| moved: "proposal_run hash cv st db \<Longrightarrow> fresh_id eid db \<Longrightarrow> pid \<noteq> []
    \<Longrightarrow> proposal_run hash cv st (snd (transition hash cv st now eid pid target changes db))"
| taught: "proposal_run hash cv st db \<Longrightarrow> \<forall>e \<in> set events. teacher_event hash cv st e \<and> fresh_id (ee_id e) db
    \<Longrightarrow> distinct (map ee_id events)
    \<Longrightarrow> proposal_run hash cv st (snd (complete_job job owner events prompt artifact now db))"
| others: "proposal_run hash cv st db \<Longrightarrow> db_events db' = db_events db @ news \<Longrightarrow> log_ok db' \<Longrightarrow> \<forall>r \<in> set news. harmless st r
    \<Longrightarrow> proposal_run hash cv st db'"

lemma snd_append_and_get: "snd (append_and_get cv st e p db) = snd (append_event e db)"
  by (cases "append_event e db") (simp add: append_and_get_def split: outcome.split option.split)

lemma log_grows_append_state: "log_grows db (snd (append_state hash cv st eid p prev db))"
  by (simp add: append_state_def snd_append_and_get append_event_def log_grows_insert split: outcome.split)

lemma update_db:
  "snd (update_proposal hash cv st now eid pid status c db) = db
   \<or> (\<exists>p target. get_proposal cv st pid db = Ret (Some p)
        \<and> snd (update_proposal hash cv st now eid pid status c db)
            = snd (append_state hash cv st eid (updated_proposal now target c p) (pr_status p) db))"
proof -
  have "snd (case r of (Raise e, d) \<Rightarrow> (Raise e, d) | (Ret q, d) \<Rightarrow> (Ret (Some q), d)) = snd r" for r :: "proposal outcome \<times> event_db"
    by (simp split: prod.split outcome.split)
  then show ?thesis unfolding update_proposal_def Let_def by (auto split: outcome.split option.split)
qed

lemma log_grows_update_proposal: "log_grows db (snd (update_proposal hash cv st now eid pid status c db))"
  using update_db [of hash cv st now eid pid status c db] log_grows_append_state by (metis log_grows_refl)

lemma transition_db:
  "snd (transition hash cv st now eid pid target changes db) = db
   \<or> (\<exists>status c. snd (transition hash cv st now eid pid target changes db) = snd (update_proposal hash cv st now eid pid status c db))"
proof -
  have k: "snd (known r) = snd r" for r by (simp add: known_def split: prod.split outcome.split option.split)
  show ?thesis
    unfolding transition_def by (auto simp: k split: outcome.split option.split)
qed

lemma enqueue_db:
  "snd (enqueue hash cv st now eid reqs env risk source obs metadata db) = db
   \<or> (\<exists>pid e. pid \<noteq> [] \<and> get_proposal cv st pid db = Ret None
        \<and> state_event hash cv st eid (new_proposal st now pid reqs env risk source obs metadata) None = Ret e
        \<and> snd (enqueue hash cv st now eid reqs env risk source obs metadata db)
            = snd (append_and_get cv st e (new_proposal st now pid reqs env risk source obs metadata) db))"
  unfolding enqueue_def prepare_enqueue_def Let_def
  by (auto simp: proposal_identity_def split: outcome.splits option.splits prod.splits)

lemma new_proposal_fields [simp]:
  "pr_id (new_proposal st now pid reqs env risk source obs metadata) = pid"
  "pr_status (new_proposal st now pid reqs env risk source obs metadata) = P_PENDING"
  "pr_source (new_proposal st now pid reqs env risk source obs metadata) \<noteq> []"
  by (simp_all add: new_proposal_def)

text \<open>Updates keep the log readable, however long it is.\<close>

lemma get_source:
  assumes "readable cv st db" "get_proposal cv st pid db = Ret (Some p)"
  shows "pr_source p \<noteq> []"
proof -
  let ?rs = "read_events (any_event\<lparr>eq_profile := ps_profile st, eq_proposal := pid, eq_limit := 5000\<rparr>) db"
  have t: "tame cv r" if "r \<in> set ?rs" for r
    using assms(1) that
    by (auto simp: readable_def all_tame_def read_events_def query_matches_def any_event_def restricts_def Let_def dest!: in_set_takeD)
  have "last_state cv (rev ?rs) = Ret (case List.map_filter (state_of cv) (rev ?rs) of [] \<Rightarrow> None | p # _ \<Rightarrow> Some p)"
    by (rule last_state_tame) (use t in simp)
  then have "p \<in> set (List.map_filter (state_of cv) (rev ?rs))"
    using assms(2) by (auto simp: get_proposal_def split: list.splits)
  then obtain r where "r \<in> set ?rs" "state_of cv r = Some p" by (auto simp: List.map_filter_def)
  then show ?thesis using t [of r] by (auto simp: tame_def state_of_def)
qed

lemma readable_update:
  assumes ok: "readable cv st db" and fresh: "fresh_id eid db"
  shows "readable cv st (snd (update_proposal hash cv st now eid pid status c db))"
proof (rule disjE [OF update_db [of hash cv st now eid pid status c db]])
  assume "\<exists>p target. get_proposal cv st pid db = Ret (Some p)
      \<and> snd (update_proposal hash cv st now eid pid status c db)
          = snd (append_state hash cv st eid (updated_proposal now target c p) (pr_status p) db)"
  then obtain p target where p: "get_proposal cv st pid db = Ret (Some p)"
    "snd (update_proposal hash cv st now eid pid status c db) = snd (append_state hash cv st eid (updated_proposal now target c p) (pr_status p) db)"
    by blast
  have src: "pr_source (updated_proposal now target c p) \<noteq> []" using get_source [OF ok p(1)] by simp
  show ?thesis
  proof (cases "state_event hash cv st eid (updated_proposal now target c p) (Some (pr_status p))")
    case (Ret e)
    then show ?thesis
      using record_state(2,3) [OF Ret src fresh] ok p(2) by (simp add: append_state_def snd_append_and_get readable_def)
  qed (use ok p(2) in \<open>simp add: append_state_def\<close>)
qed (use ok in simp)

text \<open>The creation that a late commit records.\<close>

lemma prepared_records:
  assumes "prepared hash cv st e"
  obtains p where "records st p e" "pr_source p \<noteq> []" "pr_status p = P_PENDING" "ee_dedup e = ''proposal.created:'' @ pr_id p"
proof -
  obtain now eid reqs env risk source obs metadata db0 q e0 c where
    "prepare_enqueue hash cv st now eid reqs env risk source obs metadata db0 = Ret (q, Some e0)" "e = caused c e0"
    using assms unfolding prepared_def by blast
  then obtain pid where ev: "state_event hash cv st eid (new_proposal st now pid reqs env risk source obs metadata) None = Ret e0"
    and e: "e = caused c e0"
    unfolding prepare_enqueue_def Let_def by (auto split: outcome.splits option.splits)
  let ?p = "new_proposal st now pid reqs env risk source obs metadata"
  have "records st ?p e" using state_event_records [OF ev] e by (simp add: records_def caused_def)
  moreover have "ee_dedup e = ''proposal.created:'' @ pr_id ?p" using state_event_fields(5) [OF ev] e by (simp add: caused_def)
  ultimately show thesis using that new_proposal_fields(2,3) by blast
qed

lemma insert_plain:
  assumes "map_of (ee_payload e) ''proposal_state'' = None" "readable cv st db"
  shows "readable cv st (snd (insert_event e db))" "history cv st pid (snd (insert_event e db)) = history cv st pid db"
proof -
  have t: "tame cv (k, e)" "state_of cv (k, e) = None" for k using assms(1) by (simp_all add: tame_def state_of_def)
  consider "db_events (snd (insert_event e db)) = db_events db"
    | "db_events (snd (insert_event e db)) = db_events db @ [(db_next db, e)]"
    by (cases "db_events (snd (insert_event e db)) = db_events db") (auto simp: insert_event_def Let_def split: if_splits)
  then have "all_tame cv st (snd (insert_event e db)) \<and> history cv st pid (snd (insert_event e db)) = history cv st pid db"
  proof cases
    case 1
    then show ?thesis using assms(2) history_cong [OF 1] by (simp add: readable_def all_tame_def)
  next
    case 2
    then show ?thesis using assms(2) t history_append [OF 2, of cv st pid] by (auto simp: readable_def all_tame_def)
  qed
  then show "readable cv st (snd (insert_event e db))" "history cv st pid (snd (insert_event e db)) = history cv st pid db"
    using assms(2) log_grows_insert [of db e] by (simp_all add: readable_def log_grows_def)
qed

lemma key_logged_mono: "prefix (db_events db) (db_events db') \<Longrightarrow> key_logged st key db \<Longrightarrow> key_logged st key db'"
  by (auto simp: key_logged_def elim!: prefixE)

lemma key_logged_insert: "ec_profile (ee_context e) = ps_profile st \<Longrightarrow> fresh_id (ee_id e) db \<Longrightarrow> key_logged st (ee_dedup e) (snd (insert_event e db))"
  by (auto simp: key_logged_def insert_event_def fresh_id_def Let_def)

text \<open>Each proposal with a state has the key of its creation in the log: a second creation is skipped.\<close>

definition status_step :: "proposal \<Rightarrow> proposal \<Rightarrow> bool" where
  "status_step p q \<longleftrightarrow> pr_status q = pr_status p \<or> pr_status q \<in> allowed_transitions (pr_status p)"

definition legal :: "proposal list \<Rightarrow> bool" where
  "legal h \<longleftrightarrow> (h \<noteq> [] \<longrightarrow> pr_status (hd h) = P_PENDING) \<and> successively status_step h"

definition created_once :: "conversions \<Rightarrow> proposal_store \<Rightarrow> event_db \<Rightarrow> string \<Rightarrow> bool" where
  "created_once cv st db pid \<longleftrightarrow>
     legal (history cv st pid db) \<and> (history cv st pid db \<noteq> [] \<longrightarrow> key_logged st (''proposal.created:'' @ pid) db)"

lemma created_grows:
  assumes "log_grows db db'" "history cv st pid db' = history cv st pid db" "created_once cv st db pid"
  shows "created_once cv st db' pid"
  using assms key_logged_mono [of db db' st] by (auto simp: created_once_def log_grows_def)

lemma creation_recorded:
  assumes "records st p e" "pr_source p \<noteq> []" "pr_status p = P_PENDING" "ee_dedup e = ''proposal.created:'' @ pr_id p"
    and "fresh_id (ee_id e) db" "readable cv st db" "\<forall>pid. created_once cv st db pid"
  shows "created_once cv st (snd (insert_event e db)) pid"
proof -
  note h = record_event(4) [OF assms(1,2,5), of cv pid, unfolded append_event_def]
  have ok: "all_tame cv st db" "log_ok db" using assms(6) by (simp_all add: readable_def)
  have key: "key_logged st (ee_dedup e) (snd (insert_event e db))"
    using key_logged_insert assms(1,5) by (simp add: records_def)
  show ?thesis
  proof (cases "\<not> key_logged st (ee_dedup e) db \<and> pid = pr_id p")
    case True
    then have "history cv st pid db = []" using assms(4,7) by (auto simp: created_once_def)
    then show ?thesis using h [OF ok] True key assms(3,4) by (simp add: created_once_def legal_def)
  next
    case False
    then have "history cv st pid (snd (insert_event e db)) = history cv st pid db" using h [OF ok] by simp
    then show ?thesis using created_grows [OF log_grows_insert] assms(7) by blast
  qed
qed

lemma teacher_insert:
  assumes "teacher_event hash cv st e" "fresh_id (ee_id e) db" "readable cv st db"
  shows "readable cv st (snd (insert_event e db))"
    and "\<forall>pid. created_once cv st db pid \<Longrightarrow> created_once cv st (snd (insert_event e db)) pid"
proof -
  consider "map_of (ee_payload e) ''proposal_state'' = None" | p where "records st p e" "pr_source p \<noteq> []"
      "pr_status p = P_PENDING" "ee_dedup e = ''proposal.created:'' @ pr_id p"
    using assms(1) prepared_records unfolding teacher_event_def by metis
  then have "readable cv st (snd (insert_event e db))
    \<and> ((\<forall>pid. created_once cv st db pid) \<longrightarrow> created_once cv st (snd (insert_event e db)) pid)"
  proof cases
    case 1
    then show ?thesis using insert_plain [OF 1 assms(3)] created_grows [OF log_grows_insert [of db e]] by metis
  next
    case (2 p)
    have "readable cv st (snd (insert_event e db))"
      using record_event(2,3) [OF 2(1,2) assms(2), of cv] assms(3) by (simp add: readable_def append_event_def)
    then show ?thesis using creation_recorded [OF 2 assms(2,3)] by blast
  qed
  then show "readable cv st (snd (insert_event e db))"
    "\<forall>pid. created_once cv st db pid \<Longrightarrow> created_once cv st (snd (insert_event e db)) pid" by blast+
qed

lemma fresh_after_insert: "fresh_id eid db \<Longrightarrow> ee_id e \<noteq> eid \<Longrightarrow> fresh_id eid (snd (insert_event e db))"
  by (auto simp: fresh_id_def insert_event_def Let_def)

lemma teacher_inserts:
  assumes "\<forall>e \<in> set es. teacher_event hash cv st e \<and> fresh_id (ee_id e) db" "distinct (map ee_id es)" "readable cv st db"
  shows "readable cv st (snd (insert_events es db))
    \<and> ((\<forall>pid. created_once cv st db pid) \<longrightarrow> (\<forall>pid. created_once cv st (snd (insert_events es db)) pid))"
  using assms
proof (induction es arbitrary: db)
  case (Cons e es)
  let ?db = "snd (insert_event e db)"
  have e: "teacher_event hash cv st e" "fresh_id (ee_id e) db" using Cons.prems(1) by simp_all
  note t = teacher_insert [OF e Cons.prems(3)]
  have fresh: "\<forall>e' \<in> set es. teacher_event hash cv st e' \<and> fresh_id (ee_id e') ?db"
    using Cons.prems(1,2) fresh_after_insert by (force simp: image_iff)
  have "distinct (map ee_id es)" using Cons.prems(2) by simp
  note rest = Cons.IH [OF fresh this t(1)]
  have "snd (insert_events (e # es) db) = ?db \<or> snd (insert_events (e # es) db) = snd (insert_events es ?db)"
    by (auto split: prod.splits outcome.splits)
  then show ?case using t rest by metis
qed simp

lemma created_cong: "db_events db' = db_events db \<Longrightarrow> created_once cv st db' pid = created_once cv st db pid"
  by (simp add: created_once_def history_def proposal_events_def key_logged_def)

lemma settle_events:
  "db_events (snd (settle_job job owner es f db)) = db_events db
   \<or> db_events (snd (settle_job job owner es f db)) = db_events (snd (insert_events es db))"
  by (auto simp: settle_job_def rollback_def update_job_def split: prod.splits outcome.splits)

lemma taught_step:
  assumes "\<forall>e \<in> set es. teacher_event hash cv st e \<and> fresh_id (ee_id e) db" "distinct (map ee_id es)" "readable cv st db"
  shows "readable cv st (snd (complete_job job owner es prompt artifact now db))"
    and "\<forall>pid. created_once cv st db pid \<Longrightarrow> created_once cv st (snd (complete_job job owner es prompt artifact now db)) pid"
proof -
  obtain f where c: "complete_job job owner es prompt artifact now db = settle_job job owner es f db"
    by (simp add: complete_job_def)
  let ?db = "snd (settle_job job owner es f db)"
  note ins = teacher_inserts [OF assms]
  have ok: "log_ok ?db" using log_grows_settle [of db job owner es f] assms(3) by (simp add: log_grows_def readable_def)
  consider "db_events ?db = db_events db" | "db_events ?db = db_events (snd (insert_events es db))"
    using settle_events by blast
  then have "readable cv st ?db \<and> ((\<forall>pid. created_once cv st db pid) \<longrightarrow> created_once cv st ?db pid)" for pid
  proof cases
    case 1
    then show ?thesis using assms(3) ok created_cong [OF 1] by (simp add: readable_def all_tame_def)
  next
    case 2
    then show ?thesis using ins ok created_cong [OF 2] by (simp add: readable_def all_tame_def)
  qed
  then show "readable cv st (snd (complete_job job owner es prompt artifact now db))"
    "\<forall>pid. created_once cv st db pid \<Longrightarrow> created_once cv st (snd (complete_job job owner es prompt artifact now db)) pid"
    unfolding c by blast+
qed

text \<open>Every run leaves the log readable; it only grows.\<close>

lemma readable_run:
  assumes "proposal_run hash cv st db" "ps_profile st \<noteq> []"
  shows "readable cv st db"
  using assms(1)
proof (induction rule: proposal_run.induct)
  case start
  then show ?case using assms(2) by (simp add: readable_def log_ok_def all_tame_def empty_db_def)
next
  case (enqueued db eid now reqs env risk source obs metadata)
  show ?case
  proof (rule disjE [OF enqueue_db [of hash cv st now eid reqs env risk source obs metadata db]])
    assume "\<exists>pid e. pid \<noteq> [] \<and> get_proposal cv st pid db = Ret None
        \<and> state_event hash cv st eid (new_proposal st now pid reqs env risk source obs metadata) None = Ret e
        \<and> snd (enqueue hash cv st now eid reqs env risk source obs metadata db)
            = snd (append_and_get cv st e (new_proposal st now pid reqs env risk source obs metadata) db)"
    then show ?thesis
      using record_state(2,3) [OF _ new_proposal_fields(3) enqueued.hyps(2), of hash cv st] enqueued.IH
      unfolding readable_def snd_append_and_get by metis
  qed (use enqueued.IH in simp)
next
  case (updated db eid pid now status c)
  show ?case using readable_update [OF updated.IH updated.hyps(2)] by simp
next
  case (moved db eid pid now target changes)
  show ?case
    using transition_db [of hash cv st now eid pid target changes db] readable_update [OF moved.IH moved.hyps(2)] moved.IH by metis
next
  case (taught db events job owner prompt artifact now)
  show ?case by (rule taught_step(1) [OF taught.hyps(2,3) taught.IH])
next
  case (others db db' news)
  then show ?case by (auto simp: readable_def all_tame_def harmless_def tame_def)
qed

section \<open>Lifecycle and refinement\<close>

definition few_events :: "proposal_store \<Rightarrow> event_db \<Rightarrow> bool" where
  "few_events st db \<longleftrightarrow> (\<forall>pid. length (proposal_events st pid db) < 5000)"

lemma few_events_prefix: "prefix (db_events db) (db_events db') \<Longrightarrow> few_events st db' \<Longrightarrow> few_events st db"
proof (unfold few_events_def, intro allI)
  fix pid
  assume "prefix (db_events db) (db_events db')" "\<forall>pid. length (proposal_events st pid db') < 5000"
  then have "length (proposal_events st pid db) \<le> length (proposal_events st pid db')" "length (proposal_events st pid db') < 5000"
    by (auto simp: proposal_events_def elim!: prefixE)
  then show "length (proposal_events st pid db) < 5000" by linarith
qed

lemma few_before_update:
  assumes "few_events st (snd (update_proposal hash cv st now eid pid status c db))"
  shows "few_events st db"
  by (rule few_events_prefix [OF _ assms]) (use log_grows_update_proposal [of db hash cv st now eid pid status c] in \<open>simp add: log_grows_def\<close>)

lemma legal_snoc: "legal h \<Longrightarrow> h \<noteq> [] \<Longrightarrow> status_step (last h) p \<Longrightarrow> legal (h @ [p])"
  by (simp add: legal_def successively_append_iff)

lemma legal_spec: "legal h \<Longrightarrow> legal (snd (spec_update known_state now status c h))"
  by (auto simp: spec_update_def Let_def status_step_def intro!: legal_snoc split: if_splits)

lemma created_update:
  assumes "readable cv st db" "pid \<noteq> []" "few_events st db" "fresh_id eid db" "created_once cv st db pid'"
  shows "created_once cv st (snd (update_proposal hash cv st now eid pid status c db)) pid'"
proof -
  let ?db = "snd (update_proposal hash cv st now eid pid status c db)"
  note u = update_history [where hash = hash and now = now and status = status and c = c,
    OF assms(1,2) assms(3) [unfolded few_events_def, rule_format] assms(4)]
  have key: "key_logged st k ?db" if "key_logged st k db" for k
    using key_logged_mono that log_grows_update_proposal [of db hash cv st now eid pid status c] by (auto simp: log_grows_def)
  show ?thesis
  proof (cases "pid' = pid")
    case True
    have "history cv st pid ?db \<noteq> [] \<Longrightarrow> history cv st pid db \<noteq> []" using u(2) by (auto simp: spec_update_def)
    then show ?thesis using u(2) legal_spec assms(5) key True by (auto simp: created_once_def)
  next
    case False
    then show ?thesis using u(3) [of pid'] key assms(5) by (auto simp: created_once_def)
  qed
qed

lemma created_run:
  assumes "proposal_run hash cv st db" "ps_profile st \<noteq> []"
  shows "few_events st db \<longrightarrow> (\<forall>pid. created_once cv st db pid)"
  using assms(1)
proof (induction rule: proposal_run.induct)
  case start
  then show ?case
    by (simp add: created_once_def history_def proposal_events_def empty_db_def map_filter_simps legal_def)
next
  case (enqueued db eid now reqs env risk source obs metadata)
  note ok = readable_run [OF enqueued.hyps(1) assms(2)]
  let ?db = "snd (enqueue hash cv st now eid reqs env risk source obs metadata db)"
  let ?p = "\<lambda>pid. new_proposal st now pid reqs env risk source obs metadata"
  consider "?db = db" | pid e where "state_event hash cv st eid (?p pid) None = Ret e"
      "?db = snd (append_and_get cv st e (?p pid) db)"
    using enqueue_db [of hash cv st now eid reqs env risk source obs metadata db] by blast
  then show ?case
  proof cases
    case (2 pid e)
    have db: "?db = snd (insert_event e db)" using 2(2) by (simp add: snd_append_and_get append_event_def)
    have f: "ee_dedup e = ''proposal.created:'' @ pr_id (?p pid)" "fresh_id (ee_id e) db"
      using state_event_fields(1,5) [OF 2(1)] enqueued.hyps(2) by simp_all
    have "few_events st ?db \<Longrightarrow> few_events st db"
      using few_events_prefix [of db ?db st] log_grows_insert [of db e] by (simp add: db log_grows_def)
    then show ?thesis
      using creation_recorded [OF state_event_records [OF 2(1)] new_proposal_fields(3,2) f ok] enqueued.IH unfolding db by blast
  qed (use enqueued.IH in simp)
next
  case (updated db eid pid now status c)
  then show ?case
    using created_update [OF readable_run [OF updated.hyps(1) assms(2)] updated.hyps(3) _ updated.hyps(2)] few_before_update by blast
next
  case (moved db eid pid now target changes)
  consider "snd (transition hash cv st now eid pid target changes db) = db"
    | status c where "snd (transition hash cv st now eid pid target changes db) = snd (update_proposal hash cv st now eid pid status c db)"
    using transition_db [of hash cv st now eid pid target changes db] by blast
  then show ?case
  proof cases
    case (2 status c)
    show ?thesis
      unfolding 2
      using created_update [OF readable_run [OF moved.hyps(1) assms(2)] moved.hyps(3) _ moved.hyps(2)] moved.IH few_before_update by blast
  qed (use moved.IH in simp)
next
  case (taught db events job owner prompt artifact now)
  let ?db = "snd (complete_job job owner events prompt artifact now db)"
  have "few_events st ?db \<Longrightarrow> few_events st db"
    using few_events_prefix [of db ?db st] log_grows_settle [of db job owner events] by (simp add: complete_job_def log_grows_def)
  then show ?case
    using taught_step(2) [OF taught.hyps(2,3) readable_run [OF taught.hyps(1) assms(2)]] taught.IH by blast
next
  case (others db db' news)
  have ok: "readable cv st db" using readable_run [OF others.hyps(1) assms(2)] .
  have "few_events st db" if "few_events st db'" using few_events_prefix [of db db'] others.hyps(2) that by simp
  moreover have "history cv st pid db' = history cv st pid db" for pid
  proof -
    have "List.map_filter (state_of cv) (filter (of_proposal st pid) news) = []"
      using others.hyps(4) by (auto simp: List.map_filter_def filter_empty_conv harmless_def of_proposal_def state_of_def)
    then show ?thesis using others.hyps(2) by (simp add: history_def proposal_events_def map_filter_simps)
  qed
  moreover have "log_grows db db'" using others.hyps(2,3) by (simp add: log_grows_def)
  ultimately show ?case using others.IH created_grows by blast
qed

text \<open>
  C34. Lifecycle of proposals. Whatever proposals are enqueued, updated and moved, by operations in any
  order, and whatever the teacher commits with the result of a job (its facts, and creations it prepared
  before, when the log was another, and commits after others may have created and moved the proposal), the
  states recorded for a proposal begin with PENDING and each follows the one before it by a transition of the table, or keeps its status: in
  particular nothing follows a rejected, failed, superseded, expired or no-op proposal but updates of
  the same status. A creation that comes too late is skipped, for its key is in the log. Other writers of
  the log take part as long as they record no \<open>proposal_state\<close> for the profile; in the repository only this
  store builds such events. This is for logs with fewer than 5000 events for each proposal.
\<close>

theorem proposal_lifecycle:
  assumes "proposal_run hash cv st db" "ps_profile st \<noteq> []" "few_events st db"
  shows "(history cv st pid db \<noteq> [] \<longrightarrow> pr_status (hd (history cv st pid db)) = P_PENDING)
    \<and> (\<forall>i. Suc i < length (history cv st pid db) \<longrightarrow>
         pr_status (history cv st pid db ! Suc i) = pr_status (history cv st pid db ! i)
         \<or> pr_status (history cv st pid db ! Suc i) \<in> allowed_transitions (pr_status (history cv st pid db ! i)))"
proof -
  have "legal (history cv st pid db)" using created_run [OF assms(1,2)] assms(3) by (simp add: created_once_def)
  then show ?thesis by (auto simp: legal_def successively_conv_nth status_step_def)
qed

text \<open>
  C33. Refinement. An update of the event-sourced store is an update of the proposal's history: it
  reads the latest state, returns nothing for an unknown proposal, refuses an illegal transition and
  changes nothing then, and otherwise records the new state, unless the log already has its key, and
  returns the latest state. No other proposal's history changes. This holds while fewer than 5000
  events name the proposal.
\<close>

theorem update_refines:
  assumes "proposal_run hash cv st db" "ps_profile st \<noteq> []" "pid \<noteq> []"
    and "length (proposal_events st pid db) < 5000" "fresh_id eid db"
  shows "(fst (update_proposal hash cv st now eid pid status c db), history cv st pid (snd (update_proposal hash cv st now eid pid status c db)))
      = spec_update (\<lambda>q. key_logged st (state_key hash q) db) now status c (history cv st pid db)
    \<and> (\<forall>other. other \<noteq> pid \<longrightarrow>
        history cv st other (snd (update_proposal hash cv st now eid pid status c db)) = history cv st other db)"
  using update_history [where hash = hash and now = now and status = status and c = c, OF readable_run [OF assms(1,2)] assms(3-5)] by (simp add: prod_eq_iff)

section \<open>Listing\<close>

definition listed :: "proposal_store \<Rightarrow> nat \<Rightarrow> event_db \<Rightarrow> (nat \<times> evo_event) list" where
  "listed st n db = filter (\<lambda>r. ec_profile (ee_context (snd r)) = ps_profile st \<and> ec_proposal (ee_context (snd r)) \<noteq> [] \<and> n < fst r) (db_events db)"

lemma page_listed: "ps_profile st \<noteq> [] \<Longrightarrow> proposal_page st cursor db = take 5000 (listed st cursor db)"
  by (simp add: proposal_page_def read_events_def listed_def query_matches_def any_event_def restricts_def Let_def conj_ac cong: filter_cong)

lemma sorted_after:
  fixes xs ys :: "(nat \<times> 'e) list"
  assumes "sorted_wrt (<) (map fst (xs @ ys))" "xs \<noteq> []"
  shows "filter (\<lambda>r. fst (last xs) < fst r) (xs @ ys) = ys"
proof -
  have "filter (\<lambda>r. fst (last xs) < fst r) xs = []"
    using assms by (cases xs rule: rev_cases) (auto simp: filter_empty_conv sorted_wrt_append)
  moreover have "filter (\<lambda>r. fst (last xs) < fst r) ys = ys"
    using assms by (auto simp: sorted_wrt_append intro!: filter_True)
  ultimately show ?thesis by simp
qed

lemma listed_next:
  assumes "log_ok db" "listed st cursor db = xs @ ys" "xs \<noteq> []"
  shows "listed st (fst (last xs)) db = ys"
proof -
  have "sorted_wrt (<) (map fst (listed st cursor db))"
    using assms(1) unfolding listed_def log_ok_def by (auto simp: sorted_wrt_map intro: sorted_wrt_filter)
  then have "filter (\<lambda>r. fst (last xs) < fst r) (listed st cursor db) = ys" using sorted_after [of xs ys] assms(2,3) by simp
  moreover have "cursor < fst (last xs)"
  proof -
    have "last xs \<in> set (listed st cursor db)" using assms(2,3) by simp
    then show ?thesis by (simp add: listed_def)
  qed
  ultimately show ?thesis by (auto simp: listed_def intro: filter_cong)
qed

lemma collect_append: "collect cv (xs @ ys) latest = and_then (collect cv xs latest) (\<lambda>l. collect cv ys l)"
  by (induction cv xs latest rule: collect.induct)
     (auto simp: and_then_def split: option.split pyval.split outcome.split)

lemma pages_collect:
  assumes "ps_profile st \<noteq> []" "log_ok db"
  shows "pages cv st cursor db latest = collect cv (listed st cursor db) latest"
  using assms
proof (induction cv st cursor db latest rule: pages.induct)
  case (1 cv st cursor db latest)
  let ?page = "take 5000 (listed st cursor db)"
  have page: "proposal_page st cursor db = ?page" using page_listed "1.prems"(1) by simp
  show ?case
  proof (cases "listed st cursor db = []")
    case True
    then show ?thesis by (subst pages.simps) (simp add: page)
  next
    case False
    show ?thesis
    proof (cases "collect cv ?page latest")
      case (Ret latest1)
      show ?thesis
      proof (cases "length ?page < 5000")
        case True
        then have "?page = listed st cursor db" by simp
        then show ?thesis using False Ret True by (subst pages.simps) (simp add: page Let_def)
      next
        case long: False
        have ne: "?page \<noteq> []" using False by simp
        have eq: "listed st cursor db = ?page @ drop 5000 (listed st cursor db)" by simp
        have "pages cv st (fst (last ?page)) db latest1 = collect cv (listed st (fst (last ?page)) db) latest1"
          using "1.IH" [OF page [symmetric] ne Ret long] "1.prems" by simp
        also have "listed st (fst (last ?page)) db = drop 5000 (listed st cursor db)"
          by (rule listed_next [OF "1.prems"(2) eq ne])
        finally have "pages cv st (fst (last ?page)) db latest1 = collect cv (listed st cursor db) latest"
          using Ret eq collect_append [of cv ?page "drop 5000 (listed st cursor db)" latest] by (simp add: and_then_def)
        then show ?thesis using ne Ret long by (subst pages.simps) (simp add: page Let_def)
      qed
    next
      case (Raise e)
      then have "collect cv (listed st cursor db) latest = Raise e"
        using collect_append [of cv ?page "drop 5000 (listed st cursor db)" latest] by (simp add: and_then_def)
      then show ?thesis using Raise False by (subst pages.simps) (simp add: page Let_def)
    qed
  qed
qed

text \<open>Collecting: the last state of each proposal, one entry each.\<close>

lemma collect_step:
  "tame cv r \<Longrightarrow> collect cv (r # rs) latest = (case state_of cv r of None \<Rightarrow> collect cv rs latest | Some p \<Rightarrow> collect cv rs (dict_set (pr_id p) p latest))"
  by (auto simp: tame_def state_of_def)

definition put_state :: "proposal \<Rightarrow> proposal dict \<Rightarrow> proposal dict" where
  "put_state p latest = dict_set (pr_id p) p latest"

lemma collect_tame:
  "(\<And>r. r \<in> set rs \<Longrightarrow> tame cv r) \<Longrightarrow> collect cv rs latest = Ret (fold put_state (List.map_filter (state_of cv) rs) latest)"
proof (induction rs arbitrary: latest)
  case (Cons r rs)
  then have "collect cv (r # rs) latest = (case state_of cv r of None \<Rightarrow> collect cv rs latest | Some p \<Rightarrow> collect cv rs (dict_set (pr_id p) p latest))"
    by (intro collect_step) simp
  then show ?case using Cons by (simp add: map_filter_simps put_state_def del: collect.simps split: option.split)
qed (simp add: map_filter_simps)

lemma fold_put_snoc: "fold put_state (ps @ [p]) d = put_state p (fold put_state ps d)"
  by simp

lemma put_state_facts: "map_of (put_state p d) = (map_of d)(pr_id p \<mapsto> p)" "dict_wf d \<Longrightarrow> dict_wf (put_state p d)"
  by (simp_all add: put_state_def dict_simps dict_wf_set)

lemma fold_put_state:
  "map_of (fold put_state ps []) pid = (let qs = filter (\<lambda>p. pr_id p = pid) ps in if qs = [] then None else Some (last qs))"
  "dict_wf (fold put_state ps [])" "(k, p) \<in> set (fold put_state ps []) \<Longrightarrow> pr_id p = k"
proof (induction ps rule: rev_induct)
  case (snoc q ps)
  have wf: "dict_wf (fold put_state (ps @ [q]) [])" unfolding fold_put_snoc by (rule put_state_facts(2) [OF snoc(2)])
  {
    case 1
    then show ?case using snoc(1) unfolding fold_put_snoc by (simp add: put_state_facts Let_def)
  next
    case 2
    show ?case by (rule wf)
  next
    case 3
    from dict_wf_lookup [OF wf 3] show ?case
      using snoc(3) [OF map_of_SomeD] unfolding fold_put_snoc by (auto simp: put_state_facts split: if_splits)
  }
qed (simp_all add: dict_wf_def)


lemma sort_time_sorted: "sorted_wrt (\<lambda>p q. sort_time q \<le> sort_time p) (sort_key (\<lambda>p. - sort_time p) ps)"
  using sorted_sort_key [of "\<lambda>p. - sort_time p" ps] by (simp add: sorted_map)

lemma listed_history:
  assumes "log_ok db" "all_tame cv st db" "pid \<noteq> []"
  shows "filter (\<lambda>p. pr_id p = pid) (List.map_filter (state_of cv) (listed st 0 db)) = history cv st pid db"
proof -
  have "filter (\<lambda>p. pr_id p = pid) (List.map_filter (state_of cv) rs) = List.map_filter (state_of cv) (filter (of_proposal st pid) rs)"
    if "\<forall>r \<in> set rs. ec_profile (ee_context (snd r)) = ps_profile st \<and> tame cv r" for rs
    using that
  proof (induction rs)
    case (Cons r rs)
    then have "tame cv r" "ec_profile (ee_context (snd r)) = ps_profile st" by simp_all
    then have "(case state_of cv r of None \<Rightarrow> True | Some p \<Rightarrow> pr_id p = pid \<longleftrightarrow> of_proposal st pid r)"
      by (auto simp: tame_def state_of_def of_proposal_def)
    then show ?case using Cons by (auto simp: map_filter_simps split: option.splits)
  qed (simp add: map_filter_simps)
  moreover have "\<forall>r \<in> set (listed st 0 db). ec_profile (ee_context (snd r)) = ps_profile st \<and> tame cv r"
    using assms(2) by (auto simp: listed_def all_tame_def)
  moreover have "filter (of_proposal st pid) (listed st 0 db) = proposal_events st pid db"
    using assms(1,3) unfolding listed_def proposal_events_def filter_filter
    by (intro filter_cong) (auto simp: of_proposal_def log_ok_def)
  ultimately show ?thesis by (simp add: history_def)
qed

lemma listed_latest:
  assumes "readable cv st db"
  shows "\<exists>latest. pages cv st 0 db [] = Ret latest \<and> distinct (map pr_id (map snd latest))
    \<and> set (map snd latest) = {p. \<exists>pid. pid \<noteq> [] \<and> history cv st pid db \<noteq> [] \<and> p = last (history cv st pid db)}"
proof -
  let ?ps = "List.map_filter (state_of cv) (listed st 0 db)"
  let ?latest = "fold put_state ?ps []"
  have tame: "tame cv r" if "r \<in> set (listed st 0 db)" for r using that assms by (auto simp: listed_def readable_def all_tame_def)
  have "pages cv st 0 db [] = Ret ?latest"
    using pages_collect [of st db cv 0 "[]"] collect_tame [OF tame, of "listed st 0 db"] assms by (simp add: readable_def)
  moreover have "map (pr_id \<circ> snd) ?latest = map fst ?latest" using fold_put_state(3) by (auto simp: map_eq_conv)
  then have "distinct (map pr_id (map snd ?latest))" using fold_put_state(2) [of ?ps] unfolding dict_wf_def map_map by metis
  moreover have "set (map snd ?latest) = {p. \<exists>pid. pid \<noteq> [] \<and> history cv st pid db \<noteq> [] \<and> p = last (history cv st pid db)}"
  proof -
    have ids: "pr_id p \<noteq> []" if p: "p \<in> set ?ps" for p
    proof -
      obtain r where r: "r \<in> set (listed st 0 db)" "state_of cv r = Some p" using p by (auto simp: List.map_filter_def)
      then show ?thesis using tame [OF r(1)] by (auto simp: listed_def tame_def state_of_def)
    qed
    have look: "map_of ?latest pid = (if history cv st pid db = [] then None else Some (last (history cv st pid db)))" if "pid \<noteq> []" for pid
      using fold_put_state(1) [of ?ps pid] listed_history [OF _ _ that] assms by (simp add: readable_def Let_def)
    have val: "p \<in> set (map snd ?latest) \<longleftrightarrow> (\<exists>pid. map_of ?latest pid = Some p)" for p
      using dict_wf_lookup [OF fold_put_state(2) [of ?ps]] by (force dest: map_of_SomeD)
    have none: "map_of ?latest [] = None"
      using fold_put_state(1) [of ?ps "[]"] ids by (auto simp: Let_def filter_empty_conv)
    show ?thesis
    proof (intro set_eqI iffI)
      fix p
      assume "p \<in> set (map snd ?latest)"
      then obtain pid where pid: "map_of ?latest pid = Some p" using val by blast
      then have "pid \<noteq> []" using none by auto
      with look [OF this] pid show "p \<in> {p. \<exists>pid. pid \<noteq> [] \<and> history cv st pid db \<noteq> [] \<and> p = last (history cv st pid db)}"
        by (intro CollectI exI [of _ pid]) (simp split: if_splits)
    next
      fix p
      assume "p \<in> {p. \<exists>pid. pid \<noteq> [] \<and> history cv st pid db \<noteq> [] \<and> p = last (history cv st pid db)}"
      then obtain pid where "pid \<noteq> []" "history cv st pid db \<noteq> []" "p = last (history cv st pid db)" by blast
      then have "map_of ?latest pid = Some p" using look by simp
      then show "p \<in> set (map snd ?latest)" using val by blast
    qed
  qed
  ultimately show ?thesis by blast
qed

text \<open>
  C38. Listing is complete. Whatever the length of the log, \<open>list_items\<close> reads all of it, page by page, and
  returns the latest recorded state of every proposal of the profile that has the wanted status,
  each once, newest first, up to the limit.
\<close>

theorem list_items_exact:
  assumes "proposal_run hash cv st db" "ps_profile st \<noteq> []"
  shows "\<exists>items. list_items cv st status limit db = Ret (if limit \<le> 0 then items else take (nat limit) items)
    \<and> distinct (map pr_id items) \<and> sorted_wrt (\<lambda>p q. sort_time q \<le> sort_time p) items
    \<and> set items = {p. \<exists>pid. pid \<noteq> [] \<and> history cv st pid db \<noteq> [] \<and> p = last (history cv st pid db)
                       \<and> (status = [] \<or> status_name (pr_status p) = status)}"
proof -
  obtain latest where l: "pages cv st 0 db [] = Ret latest" "distinct (map pr_id (map snd latest))"
    "set (map snd latest) = {p. \<exists>pid. pid \<noteq> [] \<and> history cv st pid db \<noteq> [] \<and> p = last (history cv st pid db)}"
    using listed_latest [OF readable_run [OF assms]] by blast
  let ?xs = "filter (\<lambda>p. status = [] \<or> status_name (pr_status p) = status) (map snd latest)"
  let ?items = "sort_key (\<lambda>p. - sort_time p) ?xs"
  have "list_items cv st status limit db = Ret (if limit \<le> 0 then ?items else take (nat limit) ?items)"
    using l(1) by (simp add: list_items_def limited_def Let_def)
  moreover have "distinct (map pr_id ?items)"
  proof -
    have "distinct (map pr_id ?xs)" by (rule distinct_map_filter [OF l(2)])
    then show ?thesis by (simp only: distinct_map set_sort distinct_sort)
  qed
  moreover have "set ?items = {p. \<exists>pid. pid \<noteq> [] \<and> history cv st pid db \<noteq> [] \<and> p = last (history cv st pid db)
      \<and> (status = [] \<or> status_name (pr_status p) = status)}"
    using l(3) by (simp only: set_sort set_filter) blast
  ultimately show ?thesis using sort_time_sorted [of ?xs] by blast
qed

section \<open>A store with one proposal\<close>

definition sample_store :: proposal_store where
  "sample_store = \<lparr>ps_profile = ''p'', ps_ttl_hours = 72\<rparr>"

definition one_hash :: "pyval \<Rightarrow> string" where
  "one_hash v = ''h''"

lemma one_proposal_run:
  "\<exists>db p. proposal_run one_hash sample_conv sample_store db \<and> few_events sample_store db \<and> fresh_id ''f'' db
     \<and> history sample_conv sample_store ''prop-h'' db = [p]"
proof -
  let ?p = "new_proposal sample_store 1 ''prop-h'' [] [] [] [] [] []"
  have empty: "readable sample_conv sample_store empty_db" "history sample_conv sample_store pid empty_db = []"
    "proposal_events sample_store pid empty_db = []" "fresh_id ''e'' empty_db" for pid
    by (simp_all add: readable_def log_ok_def all_tame_def empty_db_def history_def proposal_events_def map_filter_simps sample_store_def fresh_id_def)
  obtain e where e: "state_event one_hash sample_conv sample_store ''e'' ?p None = Ret e" by (rule state_event_ok [of "''e''"]) simp_all
  have "get_proposal sample_conv sample_store ''prop-h'' empty_db = Ret None"
    using get_history [of sample_store "''prop-h''" empty_db sample_conv] empty by (simp add: readable_def)
  then have enq: "enqueue one_hash sample_conv sample_store 1 ''e'' [] [] [] [] [] [] empty_db
      = append_and_get sample_conv sample_store e ?p empty_db"
    using e by (simp add: enqueue_def prepare_enqueue_def proposal_identity_def content_hash_def one_hash_def)
  let ?db = "snd (append_and_get sample_conv sample_store e ?p empty_db)"
  have "proposal_run one_hash sample_conv sample_store ?db"
    using proposal_run.enqueued [OF proposal_run.start empty(4), of one_hash sample_conv sample_store 1 "[]" "[]" "[]" "[]" "[]" "[]"]
    unfolding enq .
  moreover note a = append_and_get_history [OF e new_proposal_fields(3) empty(4) empty(1)]
  have new: "\<not> key_logged sample_store (ee_dedup e) empty_db" by (simp add: key_logged_def empty_db_def)
  have "history sample_conv sample_store ''prop-h'' ?db = [canonical_proposal ?p]" using a(2) empty(2,3) new by simp
  moreover have "length (proposal_events sample_store pid ?db) \<le> 1" for pid using a(5) [of pid] empty(3) by simp
  then have "few_events sample_store ?db" unfolding few_events_def by (meson le_less_trans one_less_numeral_iff semiring_norm)
  moreover have "fresh_id ''f'' ?db"
    using state_event_fields(1) [OF e] by (simp add: snd_append_and_get append_event_def insert_event_def fresh_id_def empty_db_def Let_def)
  ultimately show ?thesis by blast
qed

theorem proposal_lifecycle_witness:
  "\<exists>db p. proposal_run one_hash sample_conv sample_store db \<and> history sample_conv sample_store ''prop-h'' db = [p] \<and> pr_status p = P_PENDING"
proof -
  obtain db p where d: "proposal_run one_hash sample_conv sample_store db" "few_events sample_store db"
    "history sample_conv sample_store ''prop-h'' db = [p]"
    using one_proposal_run by blast
  from proposal_lifecycle [OF d(1) _ d(2), of "''prop-h''"] show ?thesis using d by (auto simp: sample_store_def)
qed

theorem update_refines_witness:
  "\<exists>db p. history sample_conv sample_store ''prop-h'' db = [p]
     \<and> fst (update_proposal one_hash sample_conv sample_store 2 ''f'' ''prop-h'' (Some P_GENERATED) no_change db)
         = fst (spec_update (\<lambda>q. key_logged sample_store (state_key one_hash q) db) 2 (Some P_GENERATED) no_change [p])"
proof -
  obtain db p where d: "proposal_run one_hash sample_conv sample_store db" "few_events sample_store db" "fresh_id ''f'' db"
    "history sample_conv sample_store ''prop-h'' db = [p]"
    using one_proposal_run by blast
  have "ps_profile sample_store \<noteq> []" "''prop-h'' \<noteq> []" "length (proposal_events sample_store ''prop-h'' db) < 5000"
    using d(2) by (simp_all add: sample_store_def few_events_def)
  from update_refines [OF d(1) this d(3), where status = "Some P_GENERATED" and c = no_change and now = 2] d(4)
  have "fst (update_proposal one_hash sample_conv sample_store 2 ''f'' ''prop-h'' (Some P_GENERATED) no_change db)
      = fst (spec_update (\<lambda>q. key_logged sample_store (state_key one_hash q) db) 2 (Some P_GENERATED) no_change [p])"
    by (metis fst_conv)
  then show ?thesis using d(4) by blast
qed

theorem list_items_exact_witness:
  "\<exists>db p items. history sample_conv sample_store ''prop-h'' db = [p] \<and> list_items sample_conv sample_store [] 0 db = Ret items \<and> p \<in> set items"
proof -
  obtain db p where d: "proposal_run one_hash sample_conv sample_store db" "history sample_conv sample_store ''prop-h'' db = [p]"
    using one_proposal_run by blast
  have "ps_profile sample_store \<noteq> []" by (simp add: sample_store_def)
  from list_items_exact [OF d(1) this, of "[]" 0] obtain items where "list_items sample_conv sample_store [] 0 db = Ret items"
    "set items = {p. \<exists>pid. pid \<noteq> [] \<and> history sample_conv sample_store pid db \<noteq> [] \<and> p = last (history sample_conv sample_store pid db)}"
    by auto
  then show ?thesis using d(2) by (intro exI [of _ db] exI [of _ p] exI [of _ items]) (auto intro!: exI [of _ "''prop-h''"])
qed

section \<open>What the store loses\<close>

text \<open>The key of a state does not see when it was reached.\<close>

lemma state_key_time: "state_key hash (p\<lparr>pr_updated := t\<rparr>) = state_key hash p"
  by (simp add: state_key_def state_identity_def proposal_to_dict_def dict_pop_def)

text \<open>A proposal that returns to a state it was in before, with nothing else changed, stays where it is:
  the transition is dropped and the answer is the old state.\<close>

lemma return_is_dropped:
  assumes "readable cv st db" "pid \<noteq> []" "length (proposal_events st pid db) < 5000" "fresh_id eid db"
    and "history cv st pid db = hs @ [b]" "b = a\<lparr>pr_status := s, pr_updated := t\<rparr>" "key_logged st (state_key hash a) db"
    and "pr_status a \<in> allowed_transitions s"
  shows "fst (update_proposal hash cv st now eid pid (Some (pr_status a)) no_change db) = Ret (Some b)"
    "history cv st pid (snd (update_proposal hash cv st now eid pid (Some (pr_status a)) no_change db)) = hs @ [b]"
proof -
  have "updated_proposal now (pr_status a) no_change b = a\<lparr>pr_updated := now\<rparr>"
    unfolding assms(6) by (simp add: updated_proposal_def no_change_def or_old_def dict_merge_def)
  then have "spec_update (\<lambda>q. key_logged st (state_key hash q) db) now (Some (pr_status a)) no_change (hs @ [b]) = (Ret (Some b), hs @ [b])"
    using assms(6-8) by (simp add: spec_update_def or_old_def state_key_time Let_def)
  then show "fst (update_proposal hash cv st now eid pid (Some (pr_status a)) no_change db) = Ret (Some b)"
    "history cv st pid (snd (update_proposal hash cv st now eid pid (Some (pr_status a)) no_change db)) = hs @ [b]"
    using update_history(1,2) [OF assms(1-4), where hash = hash and now = now and status = "Some (pr_status a)" and c = no_change] assms(5)
    by simp_all
qed

text \<open>After 5000 events a proposal's state is read as it was then, whatever is recorded later.\<close>

lemma later_states_unread:
  assumes "ps_profile st \<noteq> []" "pid \<noteq> []" "log_ok db" "length (proposal_events st pid db) \<ge> 5000"
    and "db_events db' = db_events db @ news"
  shows "get_proposal cv st pid db' = get_proposal cv st pid db"
proof -
  let ?q = "query_matches (any_event\<lparr>eq_profile := ps_profile st, eq_proposal := pid, eq_limit := 5000\<rparr>)"
  have "?q r = of_proposal st pid r" if "r \<in> set (db_events db)" for r
    using assms(1-3) that by (auto simp: query_matches_def any_event_def restricts_def of_proposal_def Let_def log_ok_def)
  then have "filter ?q (db_events db) = proposal_events st pid db"
    unfolding proposal_events_def by (rule filter_cong [OF refl])
  then show ?thesis using assms(4,5) by (simp add: get_proposal_def read_events_def any_event_def)
qed

end
