(* ===== verification/Action_Descriptors.thy ===== *)
theory Action_Descriptors imports Node_Permit begin

text \<open>
  \<open>security/actions.py\<close>: the descriptor of an operation that may need consent, its constructors and
  its signature. A dictionary argument that may be None is the empty dictionary. \<open>fresh\<close> is the id
  \<open>uuid4\<close> draws; \<open>dumps\<close>, \<open>hash\<close> and \<open>repr\<close> stand for \<open>json.dumps\<close>, the first 24 digits of SHA-256
  over it, and \<open>repr\<close> of a text.
\<close>

section \<open>Texts\<close>

definition py_capitalize :: "string \<Rightarrow> string" where
  "py_capitalize s =
     (case s of [] \<Rightarrow> []
      | c # cs \<Rightarrow> (let n = of_char c :: nat in if 97 \<le> n \<and> n \<le> 122 then char_of (n - 32) else c) # py_lower cs)"

text \<open>\<open>re.sub(r"\s+", " ", text)\<close>, and \<open>" ".join(text.split())\<close>.\<close>

fun collapse_spaces :: "string \<Rightarrow> string" where
  "collapse_spaces [] = []"
| "collapse_spaces (c # cs) =
     (if \<not> py_space c then c # collapse_spaces cs
      else case cs of [] \<Rightarrow> '' '' | d # _ \<Rightarrow> if py_space d then collapse_spaces cs else CHR '' '' # collapse_spaces cs)"

definition rejoin_words :: "string \<Rightarrow> string" where
  "rejoin_words s = collapse_spaces (py_strip s)"

definition utf8_length :: "string \<Rightarrow> int" where
  "utf8_length s = (\<Sum>c \<leftarrow> s. if of_char c < (128 :: nat) then 1 else 2)"

definition any_in :: "string list \<Rightarrow> string \<Rightarrow> bool" where
  "any_in ws s = list_ex (\<lambda>w. py_contains w s) ws"

section \<open>Descriptors\<close>

record action =
  ac_kind :: string
  ac_summary :: string
  ac_detail :: string
  ac_effect :: string
  ac_resource :: string
  ac_origin :: string
  ac_id :: string
  ac_session :: string
  ac_turn :: string
  ac_call :: string
  ac_metadata :: "pyval dict"

definition new_action ::
  "string \<Rightarrow> string \<Rightarrow> string \<Rightarrow> string \<Rightarrow> string \<Rightarrow> string \<Rightarrow> string \<Rightarrow> pyval dict \<Rightarrow> action" where
  "new_action fresh kind summary detail effect resource origin metadata =
     \<lparr>ac_kind = kind, ac_summary = summary, ac_detail = detail, ac_effect = effect, ac_resource = resource,
      ac_origin = origin, ac_id = fresh, ac_session = [], ac_turn = [], ac_call = [], ac_metadata = metadata\<rparr>"

definition str_default :: "string \<Rightarrow> string \<Rightarrow> string" where
  "str_default dflt s = (if s = [] then dflt else s)"

definition summarize_shell :: "string \<Rightarrow> string" where
  "summarize_shell command =
     (if py_contains ''<<'' command then ''Run script via heredoc''
      else if any_in [''curl'', ''wget''] (py_lower command) then ''Run shell command with network access''
      else ''Run shell command'')"

definition shell_action :: "string \<Rightarrow> string \<Rightarrow> string \<Rightarrow> string \<Rightarrow> pyval dict \<Rightarrow> action" where
  "shell_action fresh command cwd origin metadata =
     new_action fresh ''shell.command'' (summarize_shell command) command ''execute'' (str_default ''shell'' cwd) origin
       (if cwd = [] then metadata else dict_set ''cwd'' (PStr cwd) metadata)"

definition workspace_escape_action ::
  "string \<Rightarrow> string \<Rightarrow> string \<Rightarrow> string \<Rightarrow> string \<Rightarrow> string \<Rightarrow> pyval dict \<Rightarrow> action" where
  "workspace_escape_action fresh path operation effect detail origin metadata =
     new_action fresh ''workspace.escape'' (''Allow '' @ operation @ '' outside the workspace: '' @ path)
       (str_default (operation @ '' wants to access '' @ path @ '', which is outside the active workspace.'') detail)
       effect path origin
       (dict_merge metadata [(''operation'', PStr operation), (''workspace_escape'', PBool True)])"

definition device_effects :: "(string \<times> string) list" where
  "device_effects =
     [(''device.read'', ''read''), (''device.configure'', ''configure''), (''device.actuate'', ''execute''),
      (''device.dispense'', ''execute''), (''device.estop'', ''execute'')]"

definition render_device_value :: "conversions \<Rightarrow> pyval \<Rightarrow> string \<Rightarrow> string" where
  "render_device_value cv value unit =
     (if value = PNone then []
      else if unit = [] then py_str cv value else py_strip (py_str cv value @ '' '' @ unit))"

definition device_action ::
  "conversions \<Rightarrow> string \<Rightarrow> string \<Rightarrow> string \<Rightarrow> string \<Rightarrow> string \<Rightarrow> pyval \<Rightarrow> string \<Rightarrow> string \<Rightarrow> string \<Rightarrow> bool \<Rightarrow>
   string \<Rightarrow> pyval dict \<Rightarrow> action" where
  "device_action cv fresh kind device channel quantity value unit band location reversible origin metadata =
     (let merged = dict_merge metadata
            [(''device_id'', PStr device), (''channel_id'', PStr channel), (''envelope_band'', PStr band),
             (''reversible'', PBool reversible)];
          place = (if location = [] then [] else '' at '' @ location);
          rendered = render_device_value cv value unit;
          word = List.last (py_split (CHR ''.'') kind);
          resource = device @ '':'' @ channel
      in new_action fresh kind (py_capitalize word @ '' '' @ device @ ''.'' @ channel @ place)
           (word @ '' '' @ device @ ''.'' @ channel @ (if rendered = [] then [] else '' to '' @ rendered) @ place @ ''.'')
           (case map_of device_effects kind of Some e \<Rightarrow> e | None \<Rightarrow> ''execute'')
           (if band = [] then resource else resource @ ''@'' @ band) origin
           (if quantity = [] then merged else dict_set ''quantity'' (PStr quantity) merged))"

definition mcp_action ::
  "(string \<Rightarrow> string) \<Rightarrow> string \<Rightarrow> string \<Rightarrow> string \<Rightarrow> string \<Rightarrow> bool \<Rightarrow> string \<Rightarrow> pyval dict \<Rightarrow> action" where
  "mcp_action repr fresh server tool description read_only origin metadata =
     (let detail = ''MCP server '' @ repr server @ '' tool '' @ repr tool in
      new_action fresh ''mcp.tool'' (''Run MCP tool '' @ tool @ '' from server '' @ server)
        (if py_strip description = [] then detail else detail @ '': '' @ take 400 (rejoin_words description))
        (if read_only then ''read'' else ''execute'') (server @ '':'' @ tool) origin
        (dict_merge metadata [(''server'', PStr server), (''tool'', PStr tool), (''read_only'', PBool read_only)]))"

definition file_read_action :: "string \<Rightarrow> string \<Rightarrow> string \<Rightarrow> pyval dict \<Rightarrow> action" where
  "file_read_action fresh path mode metadata =
     new_action fresh ''file.read'' (''Read file: '' @ path) (''Read local file content from '' @ path) ''read'' path
       ''agent_tool'' (dict_merge metadata [(''mode'', PStr mode)])"

definition file_write_action :: "string \<Rightarrow> string \<Rightarrow> string \<Rightarrow> string \<Rightarrow> pyval dict \<Rightarrow> action" where
  "file_write_action fresh path content mode metadata =
     new_action fresh ''file.write'' (''Write file: '' @ path) (take 500 content) ''write'' path ''agent_tool''
       (dict_merge metadata [(''mode'', PStr mode), (''bytes'', PInt (utf8_length content))])"

definition gateway_send_action :: "string \<Rightarrow> string \<Rightarrow> string \<Rightarrow> string \<Rightarrow> pyval dict \<Rightarrow> action" where
  "gateway_send_action fresh platform chat text metadata =
     new_action fresh ''gateway.send'' (''Send message to '' @ platform @ ''/'' @ chat) text ''send''
       (platform @ '':'' @ chat) ''agent_tool''
       (dict_merge metadata [(''platform'', PStr platform), (''chat_id'', PStr chat)])"

definition effect_for_platform_action :: "string \<Rightarrow> string" where
  "effect_for_platform_action name =
     (let lowered = py_lower name in
      if any_in [''send'', ''reply'', ''message''] lowered then ''send''
      else if any_in [''delete'', ''remove''] lowered then ''delete''
      else if any_in [''create'', ''update'', ''write'', ''append'', ''approve''] lowered then ''write''
      else ''read'')"

definition platform_action ::
  "conversions \<Rightarrow> (pyval \<Rightarrow> string) \<Rightarrow> string \<Rightarrow> string \<Rightarrow> string \<Rightarrow> pyval dict \<Rightarrow> string \<Rightarrow> pyval dict \<Rightarrow> action" where
  "platform_action cv dumps fresh platform name payload backend metadata =
     (let merged = dict_merge metadata
            [(''platform'', PStr platform), (''action'', PStr name), (''backend_kind'', PStr backend)]
      in new_action fresh ''platform.action'' (''Run '' @ platform @ ''.'' @ name) (take 1000 (dumps (PDict payload)))
           (py_str cv (get_or merged ''effect'' (PStr (effect_for_platform_action name))))
           (platform @ '':'' @ name) ''agent_tool'' merged)"

definition network_fetch_action :: "string \<Rightarrow> string \<Rightarrow> string \<Rightarrow> string \<Rightarrow> pyval dict \<Rightarrow> action" where
  "network_fetch_action fresh url origin verb metadata =
     new_action fresh ''network.fetch'' (''Fetch '' @ verb @ '' '' @ origin) url ''read'' origin ''agent_tool''
       (dict_merge metadata [(''url'', PStr url), (''method'', PStr verb), (''origin'', PStr origin)])"

section \<open>Identity for grants\<close>

definition normalize_resource :: "string \<Rightarrow> string" where
  "normalize_resource r = py_lower (py_strip (py_replace [CHR 0x5C] ''/'' r))"

definition normalize_detail :: "string \<Rightarrow> string \<Rightarrow> string" where
  "normalize_detail kind detail =
     (if kind \<in> {''gateway.send'', ''platform.action''} then ''<platform-payload>''
      else if kind = ''network.fetch'' then ''<network-target>''
      else if kind = ''mcp.tool'' then ''<mcp-invocation>''
      else if py_prefix ''device.'' kind then ''<device-command>''
      else take 4000 (collapse_spaces (py_strip detail)))"

definition signature_payload :: "action \<Rightarrow> pyval" where
  "signature_payload a = PDict
     [(''kind'', PStr (ac_kind a)), (''effect'', PStr (ac_effect a)),
      (''resource'', PStr (normalize_resource (ac_resource a))),
      (''detail'', PStr (normalize_detail (ac_kind a) (ac_detail a))), (''origin'', PStr (ac_origin a))]"

definition signature :: "(pyval \<Rightarrow> string) \<Rightarrow> action \<Rightarrow> string" where
  "signature hash a = hash (signature_payload a)"

section \<open>Wire form\<close>

definition action_to_dict :: "action \<Rightarrow> pyval dict" where
  "action_to_dict a =
     [(''kind'', PStr (ac_kind a)), (''summary'', PStr (ac_summary a)), (''detail'', PStr (ac_detail a)),
      (''effect'', PStr (ac_effect a)), (''resource'', PStr (ac_resource a)), (''origin'', PStr (ac_origin a)),
      (''action_id'', PStr (ac_id a)), (''session_id'', PStr (ac_session a)), (''turn_id'', PStr (ac_turn a)),
      (''tool_call_id'', PStr (ac_call a)), (''metadata'', PDict (ac_metadata a))]"

definition action_from_dict :: "conversions \<Rightarrow> string \<Rightarrow> pyval dict \<Rightarrow> action outcome" where
  "action_from_dict cv fresh d =
     (let str = (\<lambda>k dflt. py_str cv (get_or d k (PStr dflt))) in
      and_then (as_dict (get_or d ''metadata'' (PDict []))) (\<lambda>metadata.
        Ret \<lparr>ac_kind = str ''kind'' ''external.action'', ac_summary = str ''summary'' ''Action'',
             ac_detail = str ''detail'' [], ac_effect = str ''effect'' ''execute'', ac_resource = str ''resource'' [],
             ac_origin = str ''origin'' ''agent_tool'', ac_id = str ''action_id'' fresh,
             ac_session = str ''session_id'' [], ac_turn = str ''turn_id'' [], ac_call = str ''tool_call_id'' [],
             ac_metadata = metadata\<rparr>))"

text \<open>A descriptor whose required texts are not empty survives the wire.\<close>

lemma action_from_to_dict:
  assumes "ac_kind a \<noteq> []" "ac_summary a \<noteq> []" "ac_effect a \<noteq> []" "ac_origin a \<noteq> []" "ac_id a \<noteq> []"
  shows "action_from_dict cv fresh (action_to_dict a) = Ret a"
  using assms by (cases a) (auto simp: action_from_dict_def action_to_dict_def get_or_def and_then_def as_dict_def
      py_truthy_def py_str_def Let_def)

end
