(* ===== verification/Regular_Search.thy ===== *)
theory Regular_Search imports LF_Prelude begin

text \<open>
  Python's \<open>re.search\<close> for the patterns the security layer compiles. A spot is a place in the text:
  the character before it, if any, and the text after it. \<open>rx_spots\<close> computes where a match that begins
  at a spot can end; \<open>rx_path\<close> says it as a relation, and \<open>rx_spots_iff\<close> that the two agree. Only
  whether a match exists is used, so the order in which \<open>re\<close> tries the alternatives does not matter.
  The character classes are those of the characters a \<open>char\<close> holds.
\<close>

section \<open>Patterns\<close>

datatype regex =
    RxEmpty
  | RxChar "char \<Rightarrow> bool"
  | RxSeq regex regex
  | RxAlt regex regex
  | RxStar regex
  | RxBoundary
  | RxFinish

type_synonym spot = "char option \<times> string"

definition word_char :: "char \<Rightarrow> bool" where
  "word_char c \<longleftrightarrow> (let n = of_char c :: nat in
     48 \<le> n \<and> n \<le> 57 \<or> 65 \<le> n \<and> n \<le> 90 \<or> n = 95 \<or> 97 \<le> n \<and> n \<le> 122
     \<or> n \<in> {170, 178, 179, 181, 185, 186, 188, 189, 190} \<or> 192 \<le> n \<and> n \<noteq> 215 \<and> n \<noteq> 247)"

fun at_boundary :: "spot \<Rightarrow> bool" where
  "at_boundary (p, s) =
     ((case p of None \<Rightarrow> False | Some c \<Rightarrow> word_char c) \<noteq> (case s of [] \<Rightarrow> False | c # _ \<Rightarrow> word_char c))"

fun at_finish :: "spot \<Rightarrow> bool" where
  "at_finish (p, s) = (s = [] \<or> s = [CHR 0x0A])"

fun char_spots :: "(char \<Rightarrow> bool) \<Rightarrow> spot \<Rightarrow> spot list" where
  "char_spots f (p, []) = []"
| "char_spots f (p, c # cs) = (if f c then [(Some c, cs)] else [])"

text \<open>Repetition: an iteration that consumes nothing adds nothing.\<close>

fun star_spots :: "nat \<Rightarrow> (spot \<Rightarrow> spot list) \<Rightarrow> spot \<Rightarrow> spot list" where
  "star_spots 0 f st = [st]"
| "star_spots (Suc n) f st =
     st # concat (map (star_spots n f) (filter (\<lambda>st'. length (snd st') < length (snd st)) (f st)))"

primrec rx_spots :: "regex \<Rightarrow> spot \<Rightarrow> spot list" where
  "rx_spots RxEmpty = (\<lambda>st. [st])"
| "rx_spots (RxChar f) = char_spots f"
| "rx_spots (RxSeq r1 r2) = (\<lambda>st. concat (map (rx_spots r2) (rx_spots r1 st)))"
| "rx_spots (RxAlt r1 r2) = (\<lambda>st. rx_spots r1 st @ rx_spots r2 st)"
| "rx_spots (RxStar r) = (\<lambda>st. star_spots (length (snd st)) (rx_spots r) st)"
| "rx_spots RxBoundary = (\<lambda>st. if at_boundary st then [st] else [])"
| "rx_spots RxFinish = (\<lambda>st. if at_finish st then [st] else [])"

fun spots_from :: "char option \<Rightarrow> string \<Rightarrow> spot list" where
  "spots_from p [] = [(p, [])]"
| "spots_from p (c # cs) = (p, c # cs) # spots_from (Some c) cs"

definition rx_search :: "regex \<Rightarrow> string \<Rightarrow> bool" where
  "rx_search r s = list_ex (\<lambda>st. rx_spots r st \<noteq> []) (spots_from None s)"

section \<open>Writing patterns\<close>

text \<open>With \<open>IGNORECASE\<close> a letter of the pattern, which is ASCII, also matches its other case.\<close>

definition same_letter :: "bool \<Rightarrow> char \<Rightarrow> char \<Rightarrow> bool" where
  "same_letter ic c d \<longleftrightarrow> d = c \<or> ic \<and> py_lower_char d = py_lower_char c"

definition rx_letter :: "bool \<Rightarrow> char \<Rightarrow> regex" where
  "rx_letter ic c = RxChar (same_letter ic c)"

definition in_range :: "bool \<Rightarrow> nat \<Rightarrow> nat \<Rightarrow> char \<Rightarrow> bool" where
  "in_range ic a b c \<longleftrightarrow> (let n = of_char (if ic then py_lower_char c else c) in a \<le> n \<and> n \<le> b)"

definition rx_range :: "bool \<Rightarrow> nat \<Rightarrow> nat \<Rightarrow> regex" where
  "rx_range ic a b = RxChar (in_range ic a b)"

definition other_than :: "char \<Rightarrow> char \<Rightarrow> bool" where
  "other_than c d \<longleftrightarrow> d \<noteq> c"

definition no_space :: "char \<Rightarrow> bool" where
  "no_space c \<longleftrightarrow> \<not> py_space c"

fun rx_seq :: "regex list \<Rightarrow> regex" where
  "rx_seq [] = RxEmpty"
| "rx_seq (r # rs) = (if rs = [] then r else RxSeq r (rx_seq rs))"

fun rx_alt :: "regex list \<Rightarrow> regex" where
  "rx_alt [] = RxChar (\<lambda>_. False)"
| "rx_alt (r # rs) = (if rs = [] then r else RxAlt r (rx_alt rs))"

definition rx_text :: "bool \<Rightarrow> string \<Rightarrow> regex" where
  "rx_text ic s = rx_seq (map (rx_letter ic) s)"

definition rx_texts :: "bool \<Rightarrow> string list \<Rightarrow> regex" where
  "rx_texts ic ss = rx_alt (map (rx_text ic) ss)"

definition rx_plus :: "regex \<Rightarrow> regex" where
  "rx_plus r = RxSeq r (RxStar r)"

definition rx_opt :: "regex \<Rightarrow> regex" where
  "rx_opt r = RxAlt r RxEmpty"

definition rx_any :: regex where
  "rx_any = RxStar (RxChar (other_than (CHR 0x0A)))"

definition rx_space :: regex where
  "rx_space = RxChar py_space"

definition rx_visible :: regex where
  "rx_visible = RxStar (RxChar no_space)"

section \<open>What a search finds\<close>

inductive rx_path :: "regex \<Rightarrow> spot \<Rightarrow> spot \<Rightarrow> bool" where
  Empty: "rx_path RxEmpty st st"
| Char: "f c \<Longrightarrow> rx_path (RxChar f) (p, c # cs) (Some c, cs)"
| Seq: "rx_path r1 st st' \<Longrightarrow> rx_path r2 st' st'' \<Longrightarrow> rx_path (RxSeq r1 r2) st st''"
| AltL: "rx_path r1 st st' \<Longrightarrow> rx_path (RxAlt r1 r2) st st'"
| AltR: "rx_path r2 st st' \<Longrightarrow> rx_path (RxAlt r1 r2) st st'"
| StarEnd: "rx_path (RxStar r) st st"
| StarStep: "rx_path r st st' \<Longrightarrow> rx_path (RxStar r) st' st'' \<Longrightarrow> rx_path (RxStar r) st st''"
| Boundary: "at_boundary st \<Longrightarrow> rx_path RxBoundary st st"
| Finish: "at_finish st \<Longrightarrow> rx_path RxFinish st st"

inductive_cases rx_path_cases:
  "rx_path RxEmpty st st'" "rx_path (RxChar f) st st'" "rx_path (RxSeq r1 r2) st st'"
  "rx_path (RxAlt r1 r2) st st'" "rx_path RxBoundary st st'" "rx_path RxFinish st st'"

text \<open>A path consumes a part of the text; one that consumes nothing stays where it is.\<close>

lemma rx_path_consumes: "rx_path r st st' \<Longrightarrow> st' = st \<or> length (snd st') < length (snd st)"
  by (induction rule: rx_path.induct) auto

lemma star_spots_sound:
  assumes "\<And>st st'. st' \<in> set (f st) \<Longrightarrow> rx_path r st st'"
  shows "st' \<in> set (star_spots n f st) \<Longrightarrow> rx_path (RxStar r) st st'"
proof (induction n arbitrary: st)
  case 0
  then show ?case by (simp add: rx_path.StarEnd)
next
  case (Suc n)
  then consider "st' = st" | st1 where "st1 \<in> set (f st)" "st' \<in> set (star_spots n f st1)" by auto
  then show ?case using Suc.IH assms by cases (blast intro: rx_path.StarEnd rx_path.StarStep)+
qed

lemma star_path_spots:
  assumes "rx_path q st st'" "q = RxStar r" "length (snd st) \<le> n"
    and "\<And>st st'. rx_path r st st' \<Longrightarrow> st' \<in> set (f st)"
  shows "st' \<in> set (star_spots n f st)"
  using assms
proof (induction arbitrary: n rule: rx_path.induct)
  case (StarEnd r st)
  then show ?case by (cases n) auto
next
  case (StarStep r0 st st1 st2)
  have r: "r0 = r" using StarStep.prems(1) by simp
  from rx_path_consumes[OF StarStep.hyps(1)] show ?case
  proof
    assume "st1 = st"
    with StarStep show ?thesis by simp
  next
    assume less: "length (snd st1) < length (snd st)"
    with StarStep.prems(2) obtain m where n: "n = Suc m" and m: "length (snd st1) \<le> m" by (cases n) auto
    have "st2 \<in> set (star_spots m f st1)" using StarStep.IH(2) StarStep.prems m by blast
    moreover have "st1 \<in> set (f st)" using StarStep.hyps(1) StarStep.prems(3) r by blast
    ultimately have "st2 \<in> (\<Union>t \<in> {t \<in> set (f st). length (snd t) < length (snd st)}. set (star_spots m f t))"
      using less by blast
    then show ?thesis using n by simp
  qed
qed auto

theorem rx_spots_iff: "st' \<in> set (rx_spots r st) \<longleftrightarrow> rx_path r st st'"
proof (induction r arbitrary: st st')
  case (RxChar f)
  show ?case by (cases st; cases "snd st") (auto intro: rx_path.intros elim: rx_path_cases)
next
  case (RxStar r)
  show ?case
  proof
    assume "st' \<in> set (rx_spots (RxStar r) st)"
    then show "rx_path (RxStar r) st st'" using star_spots_sound[of "rx_spots r" r] RxStar.IH by simp
  next
    assume p: "rx_path (RxStar r) st st'"
    have "st' \<in> set (star_spots (length (snd st)) (rx_spots r) st)"
      by (rule star_path_spots[OF p refl order_refl]) (simp add: RxStar.IH)
    then show "st' \<in> set (rx_spots (RxStar r) st)" by simp
  qed
next
  case (RxSeq r1 r2)
  have "rx_path (RxSeq r1 r2) st st' \<longleftrightarrow> (\<exists>t. rx_path r1 st t \<and> rx_path r2 t st')"
    by (blast intro: rx_path.Seq elim: rx_path_cases)
  then show ?case by (auto simp: RxSeq.IH)
next
  case RxBoundary
  then show ?case by (auto intro: rx_path.intros elim: rx_path_cases)
next
  case RxFinish
  then show ?case by (auto intro: rx_path.intros elim: rx_path_cases)
qed (auto intro: rx_path.intros elim: rx_path_cases)

lemma rx_search_iff:
  "rx_search r s \<longleftrightarrow> (\<exists>st st'. st \<in> set (spots_from None s) \<and> rx_path r st st')"
proof -
  have "rx_spots r st \<noteq> [] \<longleftrightarrow> (\<exists>st'. rx_path r st st')" for st
    using rx_spots_iff[of _ r st] by (metis list.set_intros(1) list.exhaust empty_iff list.set(1))
  then show ?thesis by (auto simp: rx_search_def list_ex_iff)
qed

text \<open>A quick test: the pattern asks for a character the text does not have.\<close>

primrec rx_misses :: "string \<Rightarrow> regex \<Rightarrow> bool" where
  "rx_misses s RxEmpty = False"
| "rx_misses s (RxChar f) = (\<not> list_ex f s)"
| "rx_misses s (RxSeq r1 r2) = (rx_misses s r1 \<or> rx_misses s r2)"
| "rx_misses s (RxAlt r1 r2) = (rx_misses s r1 \<and> rx_misses s r2)"
| "rx_misses s (RxStar r) = False"
| "rx_misses s RxBoundary = False"
| "rx_misses s RxFinish = False"

lemma rx_path_suffix: "rx_path r st st' \<Longrightarrow> set (snd st') \<subseteq> set (snd st)"
  by (induction rule: rx_path.induct) auto

lemma rx_path_misses: "rx_path r st st' \<Longrightarrow> set (snd st) \<subseteq> set s \<Longrightarrow> \<not> rx_misses s r"
  by (induction rule: rx_path.induct) (auto simp: list_ex_iff dest: rx_path_suffix)

lemma spots_from_suffix: "st \<in> set (spots_from p s) \<Longrightarrow> set (snd st) \<subseteq> set s"
  by (induction s arbitrary: p) auto

lemma search_misses: "rx_misses s r \<Longrightarrow> \<not> rx_search r s"
  using rx_path_misses spots_from_suffix by (fastforce simp: rx_search_iff)

lemma none_found:
  "list_all (\<lambda>r. rx_misses s r \<or> \<not> rx_search r s) rs \<Longrightarrow> \<not> list_ex (\<lambda>r. rx_search r s) rs"
  by (auto simp: list_all_iff list_ex_iff dest: search_misses)

end
