(* ===== verification/Action_Risk.thy ===== *)
theory Action_Risk imports Action_Descriptors Regular_Search begin

text \<open>
  \<open>security/risk.py\<close>: the assessment of an action's risk. The patterns over shell commands are regular
  expressions; \<open>shlex.split\<close> and the parts of \<open>pathlib\<close> the classifier uses are written out. A \<open>host\<close>
  holds what the classifier reads of the machine: \<open>hs_home\<close> is \<open>os.path.expanduser\<close> of a \<open>~\<close> or
  \<open>~name\<close>, \<open>hs_roots\<close> the texts of the configured data roots.
\<close>

section \<open>Assessments\<close>

datatype risk_level = RL_SAFE | RL_LOW | RL_MEDIUM | RL_HIGH | RL_CRITICAL

definition risk_levels :: "(string \<times> risk_level) list" where
  "risk_levels =
     [(''safe'', RL_SAFE), (''low'', RL_LOW), (''medium'', RL_MEDIUM), (''high'', RL_HIGH), (''critical'', RL_CRITICAL)]"

fun risk_value :: "risk_level \<Rightarrow> string" where
  "risk_value RL_SAFE = ''safe''"
| "risk_value RL_LOW = ''low''"
| "risk_value RL_MEDIUM = ''medium''"
| "risk_value RL_HIGH = ''high''"
| "risk_value RL_CRITICAL = ''critical''"

record risk =
  rk_level :: risk_level
  rk_score :: real
  rk_reasons :: "string list"
  rk_explanation :: string
  rk_hardline :: bool
  rk_permanent :: bool
  rk_metadata :: "pyval dict"

definition plain_risk :: "risk_level \<Rightarrow> real \<Rightarrow> string list \<Rightarrow> string \<Rightarrow> risk" where
  "plain_risk level score reasons explanation =
     \<lparr>rk_level = level, rk_score = score, rk_reasons = reasons, rk_explanation = explanation,
      rk_hardline = False, rk_permanent = True, rk_metadata = []\<rparr>"

definition guarded_risk :: "risk_level \<Rightarrow> real \<Rightarrow> string list \<Rightarrow> string \<Rightarrow> risk" where
  "guarded_risk level score reasons explanation = (plain_risk level score reasons explanation)\<lparr>rk_permanent := False\<rparr>"

definition hardline_risk :: "real \<Rightarrow> string list \<Rightarrow> string \<Rightarrow> risk" where
  "hardline_risk score reasons explanation =
     (plain_risk RL_CRITICAL score reasons explanation)\<lparr>rk_hardline := True, rk_permanent := False\<rparr>"

definition risk_to_dict :: "risk \<Rightarrow> pyval dict" where
  "risk_to_dict r =
     [(''level'', PStr (risk_value (rk_level r))), (''score'', PFloat (rk_score r)),
      (''reasons'', PList (map PStr (rk_reasons r))), (''explanation'', PStr (rk_explanation r)),
      (''hardline'', PBool (rk_hardline r)), (''allow_permanent'', PBool (rk_permanent r)),
      (''metadata'', PDict (rk_metadata r))]"

section \<open>Paths\<close>

text \<open>A path is its root and its parts, without the empty and the \<open>.\<close> ones.\<close>

type_synonym posix_path = "string \<times> string list"

definition path_of :: "string \<Rightarrow> posix_path" where
  "path_of s =
     (if py_prefix ''//'' s \<and> \<not> py_prefix ''///'' s then ''//'' else if py_prefix ''/'' s then ''/'' else [],
      filter (\<lambda>p. p \<noteq> [] \<and> p \<noteq> ''.'') (py_split (CHR ''/'') s))"

definition path_text :: "posix_path \<Rightarrow> string" where
  "path_text p = str_default ''.'' (fst p @ py_join ''/'' (snd p))"

definition path_name :: "posix_path \<Rightarrow> string" where
  "path_name p = (if snd p = [] then [] else List.last (snd p))"

definition path_expanduser :: "(string \<Rightarrow> string) \<Rightarrow> posix_path \<Rightarrow> posix_path outcome" where
  "path_expanduser home p =
     (if fst p = [] \<and> snd p \<noteq> [] \<and> py_prefix ''~'' (hd (snd p)) then
        let h = home (hd (snd p)) in
        if py_prefix ''~'' h then Raise ''Could not determine home directory.''
        else Ret (fst (path_of h), snd (path_of h) @ tl (snd p))
      else Ret p)"

definition forward_slashes :: "string \<Rightarrow> string" where
  "forward_slashes s = py_replace [CHR 0x5C] ''/'' s"

definition py_suffix :: "string \<Rightarrow> string \<Rightarrow> bool" where
  "py_suffix p s = py_prefix (rev p) (rev s)"

definition rstrip_slash :: "string \<Rightarrow> string" where
  "rstrip_slash s = rev (dropWhile (\<lambda>c. c = CHR ''/'') (rev s))"

record host =
  hs_home :: "string \<Rightarrow> string"
  hs_roots :: "string list"

definition sensitive_names :: "string list" where
  "sensitive_names =
     [''.env'', ''.env.local'', ''.env.production'', ''credentials.json'', ''secrets.yaml'', ''secrets.yml'',
      ''vault.json'', ''vault.key'', ''.npmrc'', ''.pypirc'', ''.netrc'']"

definition sensitive_parts :: "string list" where
  "sensitive_parts = [''/.ssh/'', ''/.gnupg/'', ''/.aws/'', ''/.kube/'']"

section \<open>Shell words\<close>

text \<open>\<open>shlex.split(command, posix=True, comments=False)\<close>. \<open>Escape q\<close> is entered from a word (\<open>None\<close>)
  or from inside double quotes.\<close>

datatype shlex_state = Blank | Word | Quote char | Escape "char option"

definition shlex_blank :: "char \<Rightarrow> bool" where
  "shlex_blank c \<longleftrightarrow> of_char c \<in> {9, 10, 13, 32 :: nat}"

abbreviation "backslash \<equiv> CHR 0x5C"

definition shlex_open :: "char \<Rightarrow> shlex_state" where
  "shlex_open c = (if c = backslash then Escape None else if of_char c \<in> {34, 39 :: nat} then Quote c else Word)"

definition shlex_text :: "char \<Rightarrow> string" where
  "shlex_text c = (if shlex_open c = Word then [c] else [])"

fun shlex_words :: "shlex_state \<Rightarrow> string \<Rightarrow> bool \<Rightarrow> string \<Rightarrow> string list outcome" where
  "shlex_words Blank token inq [] = Ret []"
| "shlex_words Blank token inq (c # cs) =
     (if shlex_blank c then shlex_words Blank [] False cs else shlex_words (shlex_open c) (shlex_text c) False cs)"
| "shlex_words Word token inq [] = Ret (if token \<noteq> [] \<or> inq then [token] else [])"
| "shlex_words Word token inq (c # cs) =
     (if shlex_blank c then
        (if token \<noteq> [] \<or> inq then and_then (shlex_words Blank [] False cs) (\<lambda>ws. Ret (token # ws))
         else shlex_words Blank [] False cs)
      else shlex_words (shlex_open c) (token @ shlex_text c) inq cs)"
| "shlex_words (Quote q) token inq [] = Raise ''No closing quotation''"
| "shlex_words (Quote q) token inq (c # cs) =
     (if c = q then shlex_words Word token True cs
      else if c = backslash \<and> q = CHR 0x22 then shlex_words (Escape (Some q)) token True cs
      else shlex_words (Quote q) (token @ [c]) True cs)"
| "shlex_words (Escape q) token inq [] = Raise ''No escaped character''"
| "shlex_words (Escape q) token inq (c # cs) =
     (case q of
        None \<Rightarrow> shlex_words Word (token @ [c]) inq cs
      | Some d \<Rightarrow>
          shlex_words (Quote d) (token @ (if c \<noteq> backslash \<and> c \<noteq> d then [backslash, c] else [c])) inq cs)"

definition shlex_split :: "string \<Rightarrow> string list outcome" where
  "shlex_split s = shlex_words Blank [] False s"

section \<open>Sensitive operands of a shell command\<close>

definition sensitive_suffixes :: "string list" where
  "sensitive_suffixes =
     [''/.leapflow/config.yaml'', ''/.leapflow/workspace.yaml'', ''/config/user.yaml'', ''/mcp_servers.json'',
      ''/workspace.yaml'', ''/tui_history'']"

definition after_equals :: "string \<Rightarrow> string" where
  "after_equals s = (case dropWhile (\<lambda>c. c \<noteq> CHR ''='') s of [] \<Rightarrow> s | _ # rest \<Rightarrow> rest)"

definition sensitive_shell_path :: "host \<Rightarrow> string \<Rightarrow> bool outcome" where
  "sensitive_shell_path h token =
     (let candidate = forward_slashes (py_strip (after_equals token)) in
      if candidate = [] \<or> list_ex (\<lambda>p. py_prefix p candidate) [''http://'', ''https://''] then Ret False
      else and_then (path_expanduser (hs_home h) (path_of candidate)) (\<lambda>p.
        let expanded = forward_slashes (path_text p); lowered = rstrip_slash (py_lower expanded) in
        Ret (py_lower (path_name (path_of expanded)) \<in> set sensitive_names
             \<or> any_in sensitive_parts lowered
             \<or> list_ex (\<lambda>e. py_suffix e lowered) sensitive_suffixes
             \<or> list_ex (\<lambda>root. let r = rstrip_slash (forward_slashes (py_lower root)) in
                          lowered = r \<or> py_prefix (r @ ''/'') lowered) (hs_roots h))))"

fun any_outcome :: "('a \<Rightarrow> bool outcome) \<Rightarrow> 'a list \<Rightarrow> bool outcome" where
  "any_outcome f [] = Ret False"
| "any_outcome f (x # xs) = and_then (f x) (\<lambda>b. if b then Ret True else any_outcome f xs)"

definition control_operators :: "string list" where
  "control_operators = [''&&'', ''||'', '';'', ''|'', ''&'']"

definition redirection_operators :: "string list" where
  "redirection_operators = [''>'', ''>>'', ''<'', ''<<'', ''<<<'']"

definition file_access_commands :: "string list" where
  "file_access_commands =
     [''.'', ''awk'', ''cat'', ''chmod'', ''chown'', ''cp'', ''cut'', ''diff'', ''find'', ''grep'', ''head'',
      ''less'', ''ln'', ''ls'', ''more'', ''mv'', ''rg'', ''ripgrep'', ''rm'', ''sed'', ''sort'', ''source'',
      ''stat'', ''tail'', ''tee'', ''test'', ''touch'', ''uniq'', ''vim'']"

definition pattern_commands :: "string list" where
  "pattern_commands = [''awk'', ''grep'', ''rg'', ''ripgrep'', ''sed'']"

text \<open>The group of \<open>re.match(r"^(?:\\d*(?:>>?|<<?<?))(.+)$", token)\<close>: in the raw string \<open>\\\<close> is a
  backslash and \<open>d*\<close> letters \<open>d\<close>. The operators are tried longest first; a final newline is left out.\<close>

definition whole_line :: "string \<Rightarrow> string option" where
  "whole_line s =
     (let body = (if s \<noteq> [] \<and> List.last s = CHR 0x0A then butlast s else s) in
      if body \<noteq> [] \<and> CHR 0x0A \<notin> set body then Some body else None)"

definition glued_target :: "string \<Rightarrow> string option" where
  "glued_target token =
     (case token of [] \<Rightarrow> None
      | c # cs \<Rightarrow>
          if c \<noteq> backslash then None
          else let rest = dropWhile (\<lambda>c. c = CHR ''d'') cs in
               case List.map_filter (\<lambda>oper. if py_prefix oper rest then whole_line (drop (length oper) rest) else None)
                      [''>>'', ''>'', ''<<<'', ''<<'', ''<''] of
                 [] \<Rightarrow> None | t # _ \<Rightarrow> Some t)"

fun redirection_hit :: "host \<Rightarrow> string list \<Rightarrow> bool outcome" where
  "redirection_hit h [] = Ret False"
| "redirection_hit h (t # ts) =
     (if t \<in> set redirection_operators then
        and_then (case ts of [] \<Rightarrow> Ret False | u # _ \<Rightarrow> sensitive_shell_path h u)
          (\<lambda>b. if b then Ret True else redirection_hit h ts)
      else and_then (case glued_target t of None \<Rightarrow> Ret False | Some u \<Rightarrow> sensitive_shell_path h u)
          (\<lambda>b. if b then Ret True else redirection_hit h ts))"

definition operand_hit :: "host \<Rightarrow> string list \<Rightarrow> bool outcome" where
  "operand_hit h segment =
     (case dropWhile (\<lambda>t. py_prefix ''-'' t \<or> py_contains ''='' t) segment of
        [] \<Rightarrow> Ret False
      | t # rest \<Rightarrow>
          let command = py_lower t; operands = filter (\<lambda>u. \<not> py_prefix ''-'' u) rest in
          if command \<notin> set file_access_commands then Ret False
          else any_outcome (sensitive_shell_path h) (if command \<in> set pattern_commands then tl operands else operands))"

definition segment_hit :: "host \<Rightarrow> string list \<Rightarrow> bool outcome" where
  "segment_hit h segment =
     (if segment = [] then Ret False
      else and_then (redirection_hit h segment) (\<lambda>b. if b then Ret True else operand_hit h segment))"

fun segments_hit :: "host \<Rightarrow> string list \<Rightarrow> string list \<Rightarrow> bool outcome" where
  "segments_hit h segment [] = Ret False"
| "segments_hit h segment (t # ts) =
     (if t \<in> set control_operators
      then and_then (segment_hit h segment) (\<lambda>b. if b then Ret True else segments_hit h [] ts)
      else segments_hit h (segment @ [t]) ts)"

definition mentions_sensitive_config :: "host \<Rightarrow> string \<Rightarrow> bool outcome" where
  "mentions_sensitive_config h command =
     (case shlex_split command of Raise e \<Rightarrow> Ret False | Ret tokens \<Rightarrow> segments_hit h [] (tokens @ ['';'']))"

end
