(* ===== verification/Risk_Classifier.thy ===== *)
theory Risk_Classifier imports Action_Risk begin

text \<open>
  \<open>DefaultRiskClassifier\<close> and \<open>CompositeRiskClassifier\<close> of \<open>security/risk.py\<close>: one assessment per kind
  of action. An assessment may raise: \<open>~name\<close> of an unknown user, and a byte count that is no number.
\<close>

section \<open>Shell patterns\<close>

definition rx_words :: "string list \<Rightarrow> regex" where
  "rx_words ws = rx_seq [RxBoundary, rx_texts True ws, RxBoundary]"

abbreviation "spaces1 \<equiv> rx_plus rx_space"
abbreviation "spaces0 \<equiv> RxStar rx_space"
abbreviation "ci \<equiv> rx_text True"
abbreviation "exact \<equiv> rx_text False"

definition shell_hardline :: "(regex \<times> string) list" where
  "shell_hardline =
     [(rx_seq [RxBoundary, ci ''rm'', spaces1, rx_any, ci ''-'', rx_visible, ci ''r'', rx_visible, ci ''f'', rx_any,
               rx_space, ci ''/'', spaces0, RxFinish], ''recursive_delete_root''),
      (rx_words [''mkfs''], ''format_filesystem''),
      (rx_seq [RxBoundary, ci ''dd'', spaces1, rx_any, ci ''of=/dev/''], ''raw_device_write''),
      (rx_seq [exact '':()'', spaces0, exact ''{'', spaces0, exact '':'', spaces0, exact ''|'', spaces0, exact '':'', spaces0, exact ''&'',
               spaces0, exact ''}'', spaces0, exact '';'', spaces0, exact '':''], ''fork_bomb''),
      (rx_words [''shutdown'', ''reboot'', ''halt'', ''poweroff''], ''system_shutdown'')]"

definition shell_high :: "(regex \<times> string) list" where
  "shell_high =
     [(rx_seq [RxBoundary, rx_texts True [''python'', ''python2'', ''python3'', ''perl'', ''ruby'', ''node'', ''bash'', ''sh'', ''zsh'', ''ksh''],
               spaces1, ci ''<<''], ''script_execution_via_heredoc''),
      (rx_seq [rx_words [''curl'', ''wget''], rx_any, ci ''|'', spaces0, rx_texts True [''bash'', ''sh'']],
       ''remote_script_execution''),
      (rx_seq [rx_words [''sudo''], rx_any, rx_texts True [''-S'', ''--stdin'', ''--askpass'', ''-A''], RxBoundary],
       ''privileged_command_with_password_path''),
      (rx_seq [RxBoundary, ci ''git'', spaces1, ci ''push'', RxBoundary, rx_any, rx_texts True [''--force'', ''-f''], RxBoundary],
       ''git_force_push''),
      (rx_seq [RxBoundary, ci ''systemctl'', spaces1, rx_texts True [''stop'', ''restart'', ''disable'', ''mask''], RxBoundary],
       ''service_lifecycle_change'')]"

definition rx_octal :: regex where
  "rx_octal = RxStar (rx_range False 48 55)"

definition shell_medium :: "(regex \<times> string) list" where
  "shell_medium =
     [(rx_words [''sudo''], ''privileged_command''),
      (rx_seq [RxBoundary, ci ''rm'', spaces1, ci ''-r'', RxBoundary], ''recursive_delete''),
      (rx_seq [RxBoundary, ci ''chmod'', spaces1, rx_octal, ci ''7'', rx_octal, RxBoundary], ''broad_permission_change''),
      (rx_words [''curl'', ''wget'', ''ssh'', ''scp'', ''rsync'', ''nc'', ''ncat''], ''external_network_access''),
      (rx_seq [RxBoundary, rx_texts True [''pip'', ''npm'', ''brew''], spaces1, ci ''install'', RxBoundary],
       ''dependency_install'')]"

definition matched_reasons :: "string \<Rightarrow> (regex \<times> string) list \<Rightarrow> string list" where
  "matched_reasons command rules = map snd (filter (\<lambda>(r, _). rx_search r command) rules)"

section \<open>One kind at a time\<close>

definition assess_shell :: "host \<Rightarrow> action \<Rightarrow> risk outcome" where
  "assess_shell h a =
     (let command = ac_detail a in
      case find (\<lambda>(r, _). rx_search r command) shell_hardline of
        Some (_, reason) \<Rightarrow>
          Ret (hardline_risk 1 [reason] ''This command can irreversibly damage the host and is never run by LeapFlow.'')
      | None \<Rightarrow>
          let high = matched_reasons command shell_high; medium = matched_reasons command shell_medium in
          and_then (mentions_sensitive_config h command) (\<lambda>sensitive.
          Ret (if high \<noteq> [] then
                 guarded_risk RL_HIGH 0.82 (high @ (if sensitive then [''writes_or_reads_sensitive_config''] else []))
                   ''This shell command executes code, changes runtime state, or reaches sensitive resources.''
               else if sensitive then
                 guarded_risk RL_HIGH 0.8 [''sensitive_config_reference'']
                   ''This command references LeapFlow configuration, secrets, or profile data.''
               else if medium \<noteq> [] then
                 plain_risk RL_MEDIUM 0.58 medium ''This shell command has side effects or reaches external systems.''
               else plain_risk RL_LOW 0.15 [''ordinary_shell_command''] [])))"

definition meta_str :: "conversions \<Rightarrow> action \<Rightarrow> string \<Rightarrow> string \<Rightarrow> string" where
  "meta_str cv a k dflt = py_str cv (get_or (ac_metadata a) k (PStr dflt))"

definition meta_true :: "action \<Rightarrow> string \<Rightarrow> bool" where
  "meta_true a k = py_truthy (get_default (ac_metadata a) k PNone)"

definition assess_workspace_escape :: "conversions \<Rightarrow> action \<Rightarrow> risk" where
  "assess_workspace_escape cv a =
     (let operation = meta_str cv a ''operation'' ''tool'';
          metadata = [(''operation'', PStr operation), (''effect'', PStr (ac_effect a))] in
      if ac_effect a \<in> {''write'', ''execute'', ''delete''} then
        (guarded_risk RL_HIGH 0.7 [''workspace_escape_mutating'']
           (operation @ '' would modify or execute against a path outside the active workspace.''))\<lparr>rk_metadata := metadata\<rparr>
      else
        (plain_risk RL_MEDIUM 0.5 [''workspace_escape_read'']
           (operation @ '' would read a path outside the active workspace.''))\<lparr>rk_metadata := metadata\<rparr>)"

text \<open>The expanded path of a file action: its name, and its whole text with forward slashes, both in lower case.\<close>

definition resource_path :: "host \<Rightarrow> action \<Rightarrow> (string \<times> string) outcome" where
  "resource_path h a =
     and_then (path_expanduser (hs_home h) (path_of (ac_resource a)))
       (\<lambda>p. Ret (py_lower (path_name p), py_lower (forward_slashes (path_text p))))"

definition internal_read_categories :: "string list" where
  "internal_read_categories =
     [''approval_state'', ''audit_log'', ''memory_store'', ''leapflow_profile_data'', ''runtime_state'', ''config'',
      ''mcp_config'', ''workspace_manifest'', ''history'', ''cache_sensitive'']"

definition assess_file_read :: "conversions \<Rightarrow> host \<Rightarrow> action \<Rightarrow> risk outcome" where
  "assess_file_read cv h a =
     and_then (resource_path h a) (\<lambda>(name, normalized).
     let category = meta_str cv a ''sensitivity_category'' [] in
     Ret (if category \<in> {''credential'', ''secret_vault''} then
            guarded_risk RL_HIGH 0.82 [''credential_file_read'']
              ''This reads credentials, tokens, or security-sensitive configuration. Content will be redacted.''
          else if category \<in> set internal_read_categories then
            guarded_risk RL_HIGH 0.75 [category @ ''_read''] ''This reads LeapFlow internal data. Content will be redacted.''
          else if name \<in> set sensitive_names \<or> any_in sensitive_parts normalized then
            guarded_risk RL_HIGH 0.78 [''sensitive_file_read'']
              ''This reads credentials, configuration, or security-sensitive files.''
          else plain_risk RL_LOW 0.1 [''ordinary_file_read''] []))"

definition system_prefixes :: "string list" where
  "system_prefixes = [''/system'', ''/usr'', ''/bin'', ''/sbin'', ''/etc'']"

definition assess_file_write :: "conversions \<Rightarrow> host \<Rightarrow> action \<Rightarrow> risk outcome" where
  "assess_file_write cv h a =
     and_then (resource_path h a) (\<lambda>(name, normalized).
     and_then (py_int cv (get_or (ac_metadata a) ''bytes'' (PInt 0))) (\<lambda>size.
     let category = meta_str cv a ''sensitivity_category'' [] in
     Ret (if list_ex (\<lambda>p. py_prefix p normalized) system_prefixes then
            hardline_risk 0.95 [''system_path_write''] ''This writes to an operating-system controlled path.''
          else if category \<in> {''runtime_database'', ''database'', ''runtime_control'', ''secret_vault''} then
            hardline_risk 0.95 [category @ ''_write'']
              ''This writes to protected LeapFlow runtime, database, or secret storage.''
          else if category \<in> {''config'', ''mcp_config'', ''workspace_manifest'', ''history'', ''cache_sensitive'', ''approval_state''} then
            guarded_risk RL_HIGH 0.8 [category @ ''_write'']
              ''This writes to sensitive LeapFlow runtime configuration or state.''
          else if name \<in> set sensitive_names \<or> any_in sensitive_parts normalized then
            guarded_risk RL_HIGH 0.8 [''sensitive_file_write'']
              ''This writes to credentials, configuration, or security-sensitive files.''
          else if size > 20000 then
            plain_risk RL_MEDIUM 0.5 [''large_file_write''] ''This writes a non-trivial amount of content.''
          else plain_risk RL_LOW 0.2 [''ordinary_file_write''] [])))"

definition internal_targets :: "string list" where
  "internal_targets = [''loopback'', ''private'', ''link_local'', ''metadata'', ''unspecified'', ''reserved'']"

definition assess_network_fetch :: "conversions \<Rightarrow> action \<Rightarrow> risk" where
  "assess_network_fetch cv a =
     (let category = meta_str cv a ''target_category'' ''unknown'';
          scheme = py_lower (meta_str cv a ''scheme'' []);
          origin = ac_resource a;
          metadata = [(''origin'', PStr origin), (''target_category'', PStr category)] in
      (if meta_true a ''has_credentials'' then
         guarded_risk RL_HIGH 0.8 [''url_embedded_credentials'']
           (''The URL carries credentials, so fetching it would send them to '' @ origin @ '' and record them in this turn.'')
       else if category \<in> set internal_targets then
         guarded_risk RL_HIGH 0.82 [category @ ''_network_target'', ''internal_service_access'']
           (origin @ '' resolves to a '' @ py_replace ''_'' '' '' category
            @ '' address, which can reach services on this machine or private network rather than the public internet.'')
       else if scheme \<noteq> [] \<and> scheme \<noteq> ''https'' then
         plain_risk RL_LOW 0.3 [''public_network_read'', ''plaintext_transport'']
           (''Reads '' @ origin @ '' over plaintext '' @ scheme @ ''.'')
       else plain_risk RL_LOW 0.15 [''public_network_read''] (''Reads public web content from '' @ origin @ ''.''))
      \<lparr>rk_metadata := metadata\<rparr>)"

definition platform_metadata :: "action \<Rightarrow> string list \<Rightarrow> pyval dict" where
  "platform_metadata a ks = map (\<lambda>k. (k, get_default (ac_metadata a) k (PStr []))) ks"

definition level_score :: "risk_level \<Rightarrow> real" where
  "level_score l =
     (case l of RL_SAFE \<Rightarrow> 0.05 | RL_LOW \<Rightarrow> 0.2 | RL_MEDIUM \<Rightarrow> 0.5 | RL_HIGH \<Rightarrow> 0.78 | RL_CRITICAL \<Rightarrow> 0.95)"

definition platform_risk_level :: "conversions \<Rightarrow> action \<Rightarrow> risk option" where
  "platform_risk_level cv a =
     (let metadata = platform_metadata a [''backend_kind'', ''platform'', ''action''];
          raw = py_lower (meta_str cv a ''risk_level'' []) in
      if map_of (ac_metadata a) ''platform'' = Some (PStr ''plugin_management'') then
        Some ((guarded_risk RL_HIGH 0.78 [''agent_self_modification'']
                 ''This action changes the agent's own plugin composition.'')\<lparr>rk_metadata := metadata\<rparr>)
      else if raw = [] then None
      else case map_of risk_levels raw of
             None \<Rightarrow> None
           | Some level \<Rightarrow> Some
               \<lparr>rk_level = level, rk_score = level_score level, rk_reasons = [''registered_platform_action''],
                rk_explanation = ''This risk level comes from the registered platform action spec.'',
                rk_hardline = (level = RL_CRITICAL), rk_permanent = (level \<notin> {RL_HIGH, RL_CRITICAL}),
                rk_metadata = metadata\<rparr>)"

definition assess_platform :: "conversions \<Rightarrow> action \<Rightarrow> risk" where
  "assess_platform cv a =
     (case platform_risk_level cv a of
        Some r \<Rightarrow> r
      | None \<Rightarrow>
          (if ac_effect a = ''read'' then
             plain_risk RL_MEDIUM 0.5 [''platform_data_access''] ''This reads data from an external platform.''
           else guarded_risk RL_HIGH 0.74 [''external_platform_action'']
             ''This performs an action through an external platform backend.'')
          \<lparr>rk_metadata := platform_metadata a [''backend_kind'']\<rparr>)"

definition assess_mcp_tool :: "(string \<Rightarrow> string) \<Rightarrow> conversions \<Rightarrow> action \<Rightarrow> risk" where
  "assess_mcp_tool repr cv a =
     (let server = repr (meta_str cv a ''server'' ''unknown'') in
      if meta_true a ''read_only'' then
        plain_risk RL_LOW 0.25 [''mcp_tool_read_only'']
          (''This calls a tool the '' @ server @ '' MCP server declares as read-only. It still runs third-party code on this machine.'')
      else plain_risk RL_HIGH 0.7 [''mcp_tool_undeclared_effect'']
          (''This calls a tool on the '' @ server @ '' MCP server that does not declare itself read-only, so its effect is unknown. It runs third-party code with this agent's privileges.''))"

section \<open>Dispatch\<close>

definition default_assess :: "(string \<Rightarrow> string) \<Rightarrow> conversions \<Rightarrow> host \<Rightarrow> action \<Rightarrow> risk outcome" where
  "default_assess repr cv h a =
     (let kind = ac_kind a in
      if kind = ''shell.command'' then assess_shell h a
      else if kind = ''file.read'' then assess_file_read cv h a
      else if kind = ''file.write'' then assess_file_write cv h a
      else if kind = ''network.fetch'' then Ret (assess_network_fetch cv a)
      else if kind = ''workspace.escape'' then Ret (assess_workspace_escape cv a)
      else if kind = ''mcp.tool'' then Ret (assess_mcp_tool repr cv a)
      else if kind = ''gateway.send'' then
        Ret (guarded_risk RL_HIGH 0.72 [''external_message_send''] ''This sends content to an external platform conversation.'')
      else if kind = ''platform.action'' then Ret (assess_platform cv a)
      else if kind \<in> {''scheduler.arm'', ''skill.promote'', ''app.install'', ''runtime.configure''} then
        Ret (guarded_risk RL_HIGH 0.75 [''long_lived_or_runtime_changing_action'']
               ''This action can change future runtime behavior or run without the current terminal.'')
      else Ret (plain_risk RL_MEDIUM 0.5 [''external_action''] []))"

text \<open>The longest registered prefix of the kind decides; of equally long ones the first.\<close>

definition composite_assess ::
  "(string \<times> (action \<Rightarrow> risk outcome)) list \<Rightarrow> (action \<Rightarrow> risk outcome) \<Rightarrow> action \<Rightarrow> risk outcome" where
  "composite_assess by_prefix fallback a =
     (case find (\<lambda>(p, _). py_prefix p (ac_kind a)) (sort_key (\<lambda>(p, _). - int (length p)) by_prefix) of
        Some (_, assess) \<Rightarrow> assess a | None \<Rightarrow> fallback a)"

end
