(* ===== verification/Device_Risk.thy ===== *)
theory Device_Risk imports Risk_Classifier Node_Writes begin

text \<open>
  \<open>hardware/risk.py\<close>: the assessment of an action on a device from the declaration of its channel. A
  registry is a function from device ids to declarations with its setting for grants; \<open>fmt\<close> is the
  format \<open>g\<close> of a number.
\<close>

section \<open>Declarations\<close>

record dev_envelope = envelope +
  de_settling :: real
  de_reversible :: bool
  de_requires :: "string list"

record dev_channel =
  dc_id :: string
  dc_direction :: string
  dc_quantity :: string
  dc_effect :: string
  dc_privacy :: string
  dc_envelope :: dev_envelope

record dev_context =
  dx_location :: string
  dx_channels :: "dev_channel list"
  dx_interlocks :: "interlock list"

record dev_registry =
  dr_context :: "string \<Rightarrow> dev_context option"
  dr_envelope_grant :: bool

definition dev_channel_of :: "dev_context \<Rightarrow> string \<Rightarrow> dev_channel option" where
  "dev_channel_of cx c = find (\<lambda>ch. dc_id ch = c) (dx_channels cx)"

definition dev_interlock :: "dev_context \<Rightarrow> string \<Rightarrow> interlock option" where
  "dev_interlock cx name = find (\<lambda>i. il_id i = name) (dx_interlocks cx)"

definition dev_writable :: "dev_channel \<Rightarrow> bool" where
  "dev_writable ch \<longleftrightarrow> dc_direction ch \<in> {''write'', ''readwrite''}"

definition dev_readable :: "dev_channel \<Rightarrow> bool" where
  "dev_readable ch \<longleftrightarrow> dc_direction ch \<in> {''read'', ''readwrite''}"

definition privacy_gated :: "dev_channel \<Rightarrow> bool" where
  "privacy_gated ch \<longleftrightarrow> dc_privacy ch \<in> {''environment'', ''personal''}"

definition format_bound :: "(real \<Rightarrow> string) \<Rightarrow> real option \<Rightarrow> string" where
  "format_bound fmt b = (case b of None \<Rightarrow> ''-'' | Some x \<Rightarrow> fmt x)"

definition band_key :: "(real \<Rightarrow> string) \<Rightarrow> conversions \<Rightarrow> dev_envelope \<Rightarrow> string" where
  "band_key fmt cv en =
     (if \<not> en_declared en then ''undeclared''
      else if en_allowed en \<noteq> [] then ''enum:'' @ py_join '','' (sort (map (py_str cv) (en_allowed en)))
      else py_join '':''
             [format_bound fmt (en_min en), format_bound fmt (en_max en), format_bound fmt (en_rate en),
              if de_reversible en then ''rev'' else ''irrev''])"

definition describe_bounds :: "(real \<Rightarrow> string) \<Rightarrow> dev_envelope \<Rightarrow> string" where
  "describe_bounds fmt en =
     ''allowed range '' @ (case en_min en of None \<Rightarrow> ''-inf'' | Some x \<Rightarrow> fmt x) @ ''..''
     @ (case en_max en of None \<Rightarrow> ''+inf'' | Some x \<Rightarrow> fmt x)"

section \<open>Assessment\<close>

definition effect_for_kind :: "(string \<times> string) list" where
  "effect_for_kind =
     [(''device.read'', ''read''), (''device.configure'', ''configure''), (''device.actuate'', ''actuate''),
      (''device.dispense'', ''dispense'')]"

definition device_hardline :: "string \<Rightarrow> string \<Rightarrow> risk" where
  "device_hardline reason explanation = hardline_risk 1 [reason] explanation"

definition unevaluable_interlocks :: "dev_context \<Rightarrow> dev_envelope \<Rightarrow> string list" where
  "unevaluable_interlocks cx en =
     sort (filter (\<lambda>name. case dev_interlock cx name of
                      None \<Rightarrow> True
                    | Some lock \<Rightarrow> il_channel lock \<notin> set (map dc_id (filter dev_readable (dx_channels cx))))
             (de_requires en))"

definition device_target :: "conversions \<Rightarrow> dev_registry \<Rightarrow> action \<Rightarrow> string \<times> string \<times> (dev_context \<times> dev_channel) option" where
  "device_target cv reg a =
     (let device = meta_str cv a ''device_id'' []; channel = meta_str cv a ''channel_id'' [] in
      (device, channel,
       (case dr_context reg device of None \<Rightarrow> None
        | Some cx \<Rightarrow> (case dev_channel_of cx channel of None \<Rightarrow> None | Some ch \<Rightarrow> Some (cx, ch)))))"

definition assess_device_read :: "conversions \<Rightarrow> dev_registry \<Rightarrow> action \<Rightarrow> risk" where
  "assess_device_read cv reg a =
     (case device_target cv reg a of
        (device, channel, Some (cx, ch)) \<Rightarrow>
          if \<not> privacy_gated ch then
            plain_risk RL_SAFE 0 [''device_read''] ''Reading a channel has no physical effect.''
          else
            let personal = dc_privacy ch = ''personal'';
                whom = (if personal then ''the person using this machine'' else ''the physical space around it'');
                location = dx_location cx in
            (guarded_risk (if personal then RL_HIGH else RL_MEDIUM) (if personal then 0.9 else 0.6)
               [''privacy_disclosure'', ''privacy_'' @ dc_privacy ch]
               (''Reading '' @ device @ ''.'' @ channel @ '' observes '' @ whom
                @ (if location = [] then [] else '' at '' @ location)
                @ ''. It has no physical effect, and it discloses the surroundings, so it needs consent before it happens.''))
            \<lparr>rk_metadata := [(''privacy'', PStr (dc_privacy ch)), (''quantity'', PStr (dc_quantity ch))]\<rparr>
      | (device, channel, None) \<Rightarrow>
          plain_risk RL_SAFE 0 [''device_read''] ''Reading a channel has no physical effect.'')"

definition device_tier ::
  "(real \<Rightarrow> string) \<Rightarrow> conversions \<Rightarrow> dev_registry \<Rightarrow> string \<Rightarrow> dev_envelope \<Rightarrow> string \<Rightarrow> string \<Rightarrow> risk" where
  "device_tier fmt cv reg effect en device channel =
     (let target = device @ ''.'' @ channel; reusable = dr_envelope_grant reg;
          metadata = [(''envelope_band'', PStr (band_key fmt cv en))] in
      if effect \<in> {''actuate'', ''dispense'', ''emit''} then
        let irreversible = (\<not> de_reversible en); external = (effect = ''dispense'') in
        \<lparr>rk_level = RL_HIGH, rk_score = (if irreversible then 0.8 else 0.7),
         rk_reasons = (''device_'' @ effect) # (if irreversible then [''irreversible''] else []),
         rk_explanation = ''This commands '' @ target @ '' within its declared envelope''
           @ (if irreversible then ''. The effect cannot be undone by writing the value back.'' else ''.''),
         rk_hardline = False, rk_permanent = (reusable \<and> \<not> (irreversible \<or> external)), rk_metadata = metadata\<rparr>
      else
        \<lparr>rk_level = RL_MEDIUM, rk_score = 0.5, rk_reasons = [''device_'' @ effect],
         rk_explanation = ''This changes a setpoint on '' @ target @ '' within its declared envelope''
           @ (if de_settling en > 0 then '', stabilising after '' @ fmt (de_settling en) @ ''s.'' else ''.''),
         rk_hardline = False, rk_permanent = reusable, rk_metadata = metadata\<rparr>)"

text \<open>\<open>metadata.get("interlocks_failed") or ()\<close>, iterated; a value that cannot be iterated raises.\<close>

definition failed_names :: "conversions \<Rightarrow> action \<Rightarrow> string outcome" where
  "failed_names cv a =
     (case get_or (ac_metadata a) ''interlocks_failed'' (PList []) of
        PList vs \<Rightarrow> Ret (py_join '', '' (map (py_str cv) vs))
      | PStr s \<Rightarrow> Ret (py_join '', '' (map (\<lambda>c. [c]) s))
      | PDict d \<Rightarrow> Ret (py_join '', '' (map fst d))
      | _ \<Rightarrow> Raise ''TypeError'')"

definition assess_device ::
  "(string \<Rightarrow> string) \<Rightarrow> (real \<Rightarrow> string) \<Rightarrow> conversions \<Rightarrow> dev_registry \<Rightarrow> action \<Rightarrow> risk outcome" where
  "assess_device repr fmt cv reg a =
     (if ac_kind a = ''device.estop'' then
        Ret (plain_risk RL_SAFE 0 [''emergency_stop''] ''Emergency stop is never gated.'')
      else if ac_kind a = ''device.read'' then Ret (assess_device_read cv reg a)
      else case device_target cv reg a of
        (device, channel, None) \<Rightarrow>
          Ret (device_hardline ''unresolvable_target''
            (''No declared channel '' @ device @ ''.'' @ channel
             @ ''. A device command that cannot be described against a declaration cannot be assessed, so it is refused.''))
      | (device, channel, Some (cx, ch)) \<Rightarrow>
          let target = device @ ''.'' @ channel; en = dc_envelope ch;
              expected = (case map_of effect_for_kind (ac_kind a) of Some e \<Rightarrow> e | None \<Rightarrow> []) in
          if \<not> dev_writable ch then
            Ret (device_hardline ''channel_not_writable''
              (''Channel '' @ target @ '' is not writable in the admitted declaration. Check the load report for the admission rule that demoted it.''))
          else if expected \<noteq> [] \<and> dc_effect ch \<noteq> expected then
            Ret (device_hardline ''effect_class_mismatch''
              (''Channel '' @ target @ '' declares effect '' @ repr (dc_effect ch) @ '', but this tool performs ''
               @ repr expected @ ''. Use the tool matching the declared effect class.''))
          else if \<not> en_declared en then
            Ret (device_hardline ''envelope_undeclared''
              (''Channel '' @ target @ '' has no declared operating envelope. Physical limits must be declared before the channel can be commanded.''))
          else if unevaluable_interlocks cx en \<noteq> [] then
            Ret (device_hardline ''interlock_unevaluable''
              (''Interlocks '' @ py_join '', '' (unevaluable_interlocks cx en) @ '' cannot be evaluated for '' @ target
               @ ''. An interlock that cannot be checked is treated as unsatisfied.''))
          else if map_of (ac_metadata a) ''interlocks_satisfied'' = Some (PBool False) then
            and_then (failed_names cv a) (\<lambda>names.
            Ret (device_hardline ''interlock_unsatisfied''
              (''Interlock '' @ str_default ''one or more'' names @ '' is not satisfied for '' @ target @ ''.'')))
          else if map_of (ac_metadata a) ''value_in_envelope'' = Some (PBool False) then
            Ret (device_hardline ''value_out_of_envelope''
              (''Requested value is outside the declared envelope for '' @ target @ '' ('' @ describe_bounds fmt en @ '').''))
          else Ret (device_tier fmt cv reg (dc_effect ch) en device channel))"

definition risk_classifier ::
  "(string \<Rightarrow> string) \<Rightarrow> (real \<Rightarrow> string) \<Rightarrow> conversions \<Rightarrow> host \<Rightarrow> dev_registry option \<Rightarrow> action \<Rightarrow> risk outcome" where
  "risk_classifier repr fmt cv h registry a =
     (case registry of
        None \<Rightarrow> default_assess repr cv h a
      | Some reg \<Rightarrow> composite_assess [(''device.'', assess_device repr fmt cv reg)] (default_assess repr cv h) a)"

end
