(* ===== verification/Approval_Grants.thy ===== *)
theory Approval_Grants imports Action_Risk begin

text \<open>
  \<open>security/grants.py\<close>: reusable decisions, their store in memory and in a JSON file, the key of a grant
  and the audit log. The file holds the value its text decodes to. A clock reading is never 0, which
  \<open>is_expired\<close> would read again.
\<close>

section \<open>Grants\<close>

datatype grant_scope = SC_ONCE | SC_TURN | SC_SESSION | SC_PROFILE | SC_GLOBAL

fun scope_value :: "grant_scope \<Rightarrow> string" where
  "scope_value SC_ONCE = ''once''"
| "scope_value SC_TURN = ''turn''"
| "scope_value SC_SESSION = ''session''"
| "scope_value SC_PROFILE = ''profile''"
| "scope_value SC_GLOBAL = ''global''"

record grant =
  gr_key :: string
  gr_scope :: string
  gr_decision :: string
  gr_kind :: string
  gr_effect :: string
  gr_resource :: string
  gr_reason :: string
  gr_created :: real
  gr_expires :: "real option"

definition grant_expired :: "real \<Rightarrow> grant \<Rightarrow> bool" where
  "grant_expired now g = (case gr_expires g of None \<Rightarrow> False | Some e \<Rightarrow> now \<ge> e)"

definition grant_to_dict :: "grant \<Rightarrow> pyval dict" where
  "grant_to_dict g =
     [(''key'', PStr (gr_key g)), (''scope'', PStr (gr_scope g)), (''decision'', PStr (gr_decision g)),
      (''action_kind'', PStr (gr_kind g)), (''effect'', PStr (gr_effect g)), (''resource'', PStr (gr_resource g)),
      (''reason'', PStr (gr_reason g)), (''created_at'', PFloat (gr_created g)),
      (''expires_at'', (case gr_expires g of None \<Rightarrow> PNone | Some e \<Rightarrow> PFloat e))]"

text \<open>The expiry is kept as it is; comparing the clock with what is no number raises.\<close>

definition expiry_of :: "pyval dict \<Rightarrow> real option outcome" where
  "expiry_of d =
     (case get_default d ''expires_at'' PNone of
        PNone \<Rightarrow> Ret None | PFloat x \<Rightarrow> Ret (Some x) | PInt i \<Rightarrow> Ret (Some (of_int i))
      | PBool b \<Rightarrow> Ret (Some (if b then 1 else 0)) | _ \<Rightarrow> Raise ''TypeError'')"

definition grant_from_dict :: "conversions \<Rightarrow> real \<Rightarrow> real option \<Rightarrow> pyval dict \<Rightarrow> grant outcome" where
  "grant_from_dict cv now expires d =
     (let str = (\<lambda>k dflt. py_str cv (get_or d k (PStr dflt))) in
      and_then (py_float cv (get_or d ''created_at'' (PFloat now))) (\<lambda>created.
        Ret \<lparr>gr_key = str ''key'' [], gr_scope = str ''scope'' ''session'', gr_decision = str ''decision'' ''allow'',
             gr_kind = str ''action_kind'' [], gr_effect = str ''effect'' [], gr_resource = str ''resource'' [],
             gr_reason = str ''reason'' [], gr_created = created, gr_expires = expires\<rparr>))"

section \<open>Stores\<close>

record grant_store =
  gs_grants :: "grant dict"
  gs_json :: bool
  gs_file :: "pyval option"

definition memory_store :: grant_store where
  "memory_store = \<lparr>gs_grants = [], gs_json = False, gs_file = None\<rparr>"

definition grant_get :: "real \<Rightarrow> string \<Rightarrow> grant_store \<Rightarrow> grant option \<times> grant_store" where
  "grant_get now key st =
     (case map_of (gs_grants st) key of
        None \<Rightarrow> (None, st)
      | Some g \<Rightarrow> if grant_expired now g then (None, st\<lparr>gs_grants := dict_pop key (gs_grants st)\<rparr>) else (Some g, st))"

definition grant_list :: "real \<Rightarrow> grant_store \<Rightarrow> grant list \<times> grant_store" where
  "grant_list now st =
     (let live = filter (\<lambda>(k, g). \<not> grant_expired now g) (gs_grants st) in
      (map snd live, st\<lparr>gs_grants := live\<rparr>))"

definition grant_save :: "real \<Rightarrow> grant_store \<Rightarrow> grant_store" where
  "grant_save now st =
     (let (gs, st') = grant_list now st in st'\<lparr>gs_file := Some (PList (map (PDict \<circ> grant_to_dict) gs))\<rparr>)"

definition grant_put :: "real \<Rightarrow> grant \<Rightarrow> grant_store \<Rightarrow> grant_store" where
  "grant_put now g st =
     (let st' = st\<lparr>gs_grants := dict_set (gr_key g) g (gs_grants st)\<rparr> in if gs_json st then grant_save now st' else st')"

definition load_item :: "conversions \<Rightarrow> real \<Rightarrow> pyval \<Rightarrow> grant dict \<Rightarrow> grant dict outcome" where
  "load_item cv now v gs =
     (case v of
        PDict d \<Rightarrow>
          and_then (grant_from_dict cv now None d) (\<lambda>g.
          if gr_key g = [] then Ret gs
          else and_then (expiry_of d) (\<lambda>e.
            let g' = g\<lparr>gr_expires := e\<rparr> in
            Ret (if grant_expired now g' then gs else dict_set (gr_key g') g' gs)))
      | _ \<Rightarrow> Ret gs)"

fun load_items :: "conversions \<Rightarrow> real \<Rightarrow> pyval list \<Rightarrow> grant dict \<Rightarrow> grant dict outcome" where
  "load_items cv now [] gs = Ret gs"
| "load_items cv now (v # vs) gs = and_then (load_item cv now v gs) (load_items cv now vs)"

text \<open>The store a new process builds over the file; a file that cannot be read or decoded is \<open>None\<close>.\<close>

definition grant_load :: "conversions \<Rightarrow> real \<Rightarrow> pyval option \<Rightarrow> grant_store outcome" where
  "grant_load cv now file =
     (case file of
        Some (PList vs) \<Rightarrow>
          and_then (load_items cv now vs []) (\<lambda>gs. Ret \<lparr>gs_grants = gs, gs_json = True, gs_file = file\<rparr>)
      | _ \<Rightarrow> Ret \<lparr>gs_grants = [], gs_json = True, gs_file = file\<rparr>)"

section \<open>Keys and audit\<close>

definition grant_key :: "(pyval \<Rightarrow> string) \<Rightarrow> action \<Rightarrow> string \<Rightarrow> string" where
  "grant_key hash a scope =
     (let session = (if scope \<in> {''session'', ''turn''} then ac_session a else []);
          turn = (if scope = ''turn'' then ac_turn a else [])
      in py_join '':'' (filter (\<lambda>p. p \<noteq> []) [scope, session, turn, ac_kind a, ac_effect a, signature hash a]))"

record audit_entry =
  au_ts :: real
  au_id :: string
  au_session :: string
  au_turn :: string
  au_call :: string
  au_kind :: string
  au_effect :: string
  au_resource :: string
  au_decision :: string
  au_scope :: string
  au_actor :: string
  au_level :: string
  au_reasons :: "string list"
  au_reason :: string
  au_detail :: string

definition new_entry :: "real \<Rightarrow> action \<Rightarrow> string \<Rightarrow> risk \<Rightarrow> string \<Rightarrow> string \<Rightarrow> string \<Rightarrow> audit_entry" where
  "new_entry ts a decision r scope actor reason =
     \<lparr>au_ts = ts, au_id = ac_id a, au_session = ac_session a, au_turn = ac_turn a, au_call = ac_call a,
      au_kind = ac_kind a, au_effect = ac_effect a, au_resource = ac_resource a, au_decision = decision,
      au_scope = scope, au_actor = actor, au_level = risk_value (rk_level r), au_reasons = rk_reasons r,
      au_reason = reason, au_detail = take 500 (ac_detail a)\<rparr>"

end
