(* ===== verification/Approval_Gate.thy ===== *)
theory Approval_Gate imports Approval_Grants begin

text \<open>
  \<open>security/policy.py\<close>, \<open>security/approval.py\<close> and \<open>security/guardian.py\<close>: the policy, the gate that
  remembers a session's consent around the surface that asks, the breaker of denials, and the
  guardian's recommendation. Asking is a suspension: \<open>gate_ask\<close> is the gate before its delegate
  answers, \<open>gate_answer\<close> after.
\<close>

section \<open>Policy\<close>

datatype policy_verdict = V_ALLOW | V_ASK | V_DENY

record policy_decision =
  pd_verdict :: policy_verdict
  pd_reason :: string
  pd_permanent :: bool

type_synonym policy_rule = "action \<Rightarrow> risk \<Rightarrow> policy_decision option"

record policy =
  po_rules :: "policy_rule list"
  po_bypass :: bool

definition joined_reasons :: "risk \<Rightarrow> string \<Rightarrow> string" where
  "joined_reasons r dflt = str_default dflt (py_join ''; '' (rk_reasons r))"

definition policy_evaluate :: "policy \<Rightarrow> action \<Rightarrow> risk \<Rightarrow> policy_decision" where
  "policy_evaluate po a r =
     (if rk_hardline r \<or> rk_level r = RL_CRITICAL then
        \<lparr>pd_verdict = V_DENY, pd_reason = joined_reasons r ''hardline_block'', pd_permanent = False\<rparr>
      else if po_bypass po then \<lparr>pd_verdict = V_ALLOW, pd_reason = ''bypass_mode'', pd_permanent = True\<rparr>
      else case List.map_filter (\<lambda>rule. rule a r) (po_rules po) of
             d # _ \<Rightarrow> d
           | [] \<Rightarrow>
               if rk_level r \<in> {RL_HIGH, RL_MEDIUM} \<or> rk_score r \<ge> 0.35 then
                 \<lparr>pd_verdict = V_ASK, pd_reason = joined_reasons r ''approval_required'', pd_permanent = rk_permanent r\<rparr>
               else \<lparr>pd_verdict = V_ALLOW, pd_reason = ''low_risk'', pd_permanent = True\<rparr>)"

section \<open>Decisions and requests\<close>

datatype approval_decision =
  D_ALLOW | D_ONCE | D_SESSION | D_ALL_SESSION | D_ALWAYS | D_DENY | D_DENY_ALWAYS | D_CANCEL

fun decision_value :: "approval_decision \<Rightarrow> string" where
  "decision_value D_ALLOW = ''allow''"
| "decision_value D_ONCE = ''allow_once''"
| "decision_value D_SESSION = ''allow_session''"
| "decision_value D_ALL_SESSION = ''allow_all_session''"
| "decision_value D_ALWAYS = ''allow_always''"
| "decision_value D_DENY = ''deny''"
| "decision_value D_DENY_ALWAYS = ''deny_always''"
| "decision_value D_CANCEL = ''cancel_workflow''"

definition all_decisions :: "approval_decision list" where
  "all_decisions = [D_ALLOW, D_ONCE, D_SESSION, D_ALL_SESSION, D_ALWAYS, D_DENY, D_DENY_ALWAYS, D_CANCEL]"

definition decision_of :: "string \<Rightarrow> approval_decision option" where
  "decision_of v = find (\<lambda>d. decision_value d = v) all_decisions"

record approval_request =
  rq_category :: string
  rq_detail :: string
  rq_id :: string
  rq_hint :: real
  rq_metadata :: "pyval dict"
  rq_action :: "action option"
  rq_risk :: "risk option"
  rq_choices :: "string list"
  rq_default :: string
  rq_display :: "pyval dict"

definition request_grant_key :: "(pyval \<Rightarrow> string) \<Rightarrow> approval_request \<Rightarrow> string" where
  "request_grant_key hash rq =
     (case rq_action rq of Some a \<Rightarrow> rq_category rq @ '':'' @ signature hash a | None \<Rightarrow> rq_category rq)"

section \<open>The session's gate\<close>

record gate_entry =
  ge_ts :: real
  ge_request :: string
  ge_category :: string
  ge_key :: string
  ge_decision :: approval_decision
  ge_detail :: string
  ge_risk :: "risk option"
  ge_reason :: "string option"

record session_gate =
  sg_approved :: "string list"
  sg_bypass :: bool
  sg_log :: "gate_entry list"

definition new_gate :: session_gate where
  "new_gate = \<lparr>sg_approved = [], sg_bypass = False, sg_log = []\<rparr>"

definition log_decision ::
  "(pyval \<Rightarrow> string) \<Rightarrow> real \<Rightarrow> approval_request \<Rightarrow> approval_decision \<Rightarrow> string option \<Rightarrow> session_gate \<Rightarrow> session_gate" where
  "log_decision hash ts rq d reason g =
     g\<lparr>sg_log := sg_log g @
        [\<lparr>ge_ts = ts, ge_request = rq_id rq, ge_category = rq_category rq, ge_key = request_grant_key hash rq,
          ge_decision = d, ge_detail = take 200 (rq_detail rq), ge_risk = rq_risk rq, ge_reason = reason\<rparr>]\<rparr>"

definition gate_ask ::
  "(pyval \<Rightarrow> string) \<Rightarrow> real \<Rightarrow> approval_request \<Rightarrow> session_gate \<Rightarrow> approval_decision option \<times> session_gate" where
  "gate_ask hash ts rq g =
     (if sg_bypass g \<or> request_grant_key hash rq \<in> set (sg_approved g)
      then (Some D_ALLOW, log_decision hash ts rq D_ALLOW (Some ''session_approved'') g)
      else (None, g))"

definition remember_key :: "string \<Rightarrow> session_gate \<Rightarrow> session_gate" where
  "remember_key k g = g\<lparr>sg_approved := List.insert k (sg_approved g)\<rparr>"

definition gate_answer ::
  "(pyval \<Rightarrow> string) \<Rightarrow> real \<Rightarrow> approval_request \<Rightarrow> approval_decision \<Rightarrow> session_gate \<Rightarrow> approval_decision \<times> session_gate" where
  "gate_answer hash ts rq d g =
     (let key = request_grant_key hash rq; consent = Some ''user_allow_session'' in
      if rq_choices rq \<noteq> [] \<and> decision_value d \<notin> set (rq_choices rq) then
        let fallback = (case decision_of (rq_default rq) of Some f \<Rightarrow> f | None \<Rightarrow> D_DENY) in
        (fallback, log_decision hash ts rq fallback None g)
      else case d of
        D_ALL_SESSION \<Rightarrow> (D_ALLOW, log_decision hash ts rq D_ALL_SESSION consent (g\<lparr>sg_bypass := True\<rparr>))
      | D_SESSION \<Rightarrow> (D_SESSION, log_decision hash ts rq D_SESSION consent (remember_key key g))
      | D_ALWAYS \<Rightarrow> (D_ALWAYS, log_decision hash ts rq D_ALWAYS consent (remember_key key g))
      | _ \<Rightarrow> (d, log_decision hash ts rq d None g))"

definition gate_reset :: "session_gate \<Rightarrow> session_gate" where
  "gate_reset g = g\<lparr>sg_approved := []\<rparr>"

definition is_allowing :: "approval_decision \<Rightarrow> bool" where
  "is_allowing d \<longleftrightarrow> d \<in> {D_ALLOW, D_ONCE, D_SESSION, D_ALWAYS}"

text \<open>\<open>check\<close>: the request of the shell's older interface, whose answer is whether it is allowed.\<close>

definition legacy_request :: "string \<Rightarrow> string \<Rightarrow> string \<Rightarrow> approval_request" where
  "legacy_request fresh request_id command =
     (let a = shell_action fresh command [] ''agent_tool'' [] in
      \<lparr>rq_category = ac_kind a, rq_detail = command, rq_id = request_id, rq_hint = 0.7, rq_metadata = [],
       rq_action = Some a, rq_risk = None, rq_choices = [''allow_once'', ''allow_session'', ''deny''],
       rq_default = ''deny'', rq_display = []\<rparr>)"

section \<open>Breaker\<close>

record breaker =
  br_max :: int
  br_consecutive :: int
  br_tripped :: bool

definition new_breaker :: "int \<Rightarrow> breaker" where
  "new_breaker n = \<lparr>br_max = max 1 n, br_consecutive = 0, br_tripped = False\<rparr>"

definition record_denial :: "breaker \<Rightarrow> breaker" where
  "record_denial b =
     (let n = br_consecutive b + 1 in b\<lparr>br_consecutive := n, br_tripped := (n \<ge> br_max b \<or> br_tripped b)\<rparr>)"

definition record_approval :: "breaker \<Rightarrow> breaker" where
  "record_approval b = b\<lparr>br_consecutive := 0\<rparr>"

definition breaker_reset :: "breaker \<Rightarrow> breaker" where
  "breaker_reset b = b\<lparr>br_consecutive := 0, br_tripped := False\<rparr>"

section \<open>Guardian\<close>

record guardian_config =
  gc_mode :: string
  gc_approve :: real
  gc_deny :: real
  gc_max_denials :: int

definition default_guardian_config :: guardian_config where
  "default_guardian_config = \<lparr>gc_mode = ''hybrid'', gc_approve = 0.3, gc_deny = 0.8, gc_max_denials = 3\<rparr>"

datatype recommendation = R_APPROVE | R_REVIEW | R_DENY

definition map_score :: "guardian_config \<Rightarrow> real \<Rightarrow> recommendation" where
  "map_score cfg score =
     (if score \<le> gc_approve cfg then R_APPROVE else if score \<ge> gc_deny cfg then R_DENY else R_REVIEW)"

text \<open>What the model's classification came to, and the verdict with its reasoning; \<open>fmt\<close> writes two
  decimals. A verdict that came from a score is also sent to the audit sink. The long dash of
  two reasonings is a hyphen here.\<close>

datatype classification = Scored real | TimedOut | Failed string

record guardian_verdict =
  gv_score :: real
  gv_recommendation :: recommendation
  gv_reasoning :: string

definition recommendation_text :: "recommendation \<Rightarrow> string" where
  "recommendation_text rec =
     (case rec of R_APPROVE \<Rightarrow> ''auto-approve (below threshold)'' | R_REVIEW \<Rightarrow> ''escalate to human review''
      | R_DENY \<Rightarrow> ''auto-deny (above threshold)'')"

definition guardian_evaluate ::
  "(real \<Rightarrow> string) \<Rightarrow> guardian_config \<Rightarrow> classification \<Rightarrow> guardian_verdict \<times> bool" where
  "guardian_evaluate fmt cfg c =
     (case c of
        Scored x \<Rightarrow>
          (\<lparr>gv_score = x, gv_recommendation = map_score cfg x,
            gv_reasoning = py_strip (''LLM risk score '' @ fmt x @ '': '' @ recommendation_text (map_score cfg x))\<rparr>, True)
      | TimedOut \<Rightarrow>
          (\<lparr>gv_score = 0.5, gv_recommendation = R_REVIEW,
            gv_reasoning = ''LLM timed out - falling back to human review''\<rparr>, False)
      | Failed e \<Rightarrow>
          (\<lparr>gv_score = 0.5, gv_recommendation = R_REVIEW,
            gv_reasoning = ''LLM error - falling back to human review ('' @ take 120 e @ '')''\<rparr>, False))"

end
