(* ===== verification/Risk_Props.thy ===== *)
theory Risk_Props imports Device_Risk Approval_Gate begin

text \<open>
  What an assessment can be, and what the policy makes of it. \<open>risk_wf\<close> is the contract between the
  classifiers and the policy: level, score and the two flags agree, so the policy without rules asks
  about exactly the medium and high ones.
\<close>

section \<open>Well-formed assessments\<close>

definition risk_wf :: "risk \<Rightarrow> bool" where
  "risk_wf r \<longleftrightarrow>
     (rk_hardline r \<longleftrightarrow> rk_level r = RL_CRITICAL) \<and> (rk_hardline r \<longrightarrow> \<not> rk_permanent r)
     \<and> 0 \<le> rk_score r \<and> rk_score r \<le> 1 \<and> (rk_level r \<in> {RL_SAFE, RL_LOW} \<longleftrightarrow> rk_score r < 0.35) \<and> rk_reasons r \<noteq> []"

lemma plain_wf:
  "level \<noteq> RL_CRITICAL \<Longrightarrow> 0 \<le> x \<Longrightarrow> x \<le> 1 \<Longrightarrow> (level \<in> {RL_SAFE, RL_LOW} \<longleftrightarrow> x < 0.35) \<Longrightarrow> rs \<noteq> [] \<Longrightarrow>
   risk_wf (plain_risk level x rs e)"
  by (simp add: risk_wf_def plain_risk_def)

lemma guarded_wf:
  "level \<noteq> RL_CRITICAL \<Longrightarrow> 0 \<le> x \<Longrightarrow> x \<le> 1 \<Longrightarrow> (level \<in> {RL_SAFE, RL_LOW} \<longleftrightarrow> x < 0.35) \<Longrightarrow> rs \<noteq> [] \<Longrightarrow>
   risk_wf (guarded_risk level x rs e)"
  by (simp add: risk_wf_def plain_risk_def guarded_risk_def)

lemma hardline_wf: "0.35 \<le> x \<Longrightarrow> x \<le> 1 \<Longrightarrow> rs \<noteq> [] \<Longrightarrow> risk_wf (hardline_risk x rs e)"
  by (simp add: risk_wf_def plain_risk_def hardline_risk_def)

lemma metadata_wf: "risk_wf r \<Longrightarrow> risk_wf (r\<lparr>rk_metadata := m\<rparr>)"
  by (simp add: risk_wf_def)

lemma if_wf: "(b \<Longrightarrow> risk_wf x) \<Longrightarrow> (\<not> b \<Longrightarrow> risk_wf y) \<Longrightarrow> risk_wf (if b then x else y)"
  by simp

text \<open>The same for a classifier that may raise: whatever it returns is well-formed.\<close>

definition returns_wf :: "risk outcome \<Rightarrow> bool" where
  "returns_wf m \<longleftrightarrow> (\<forall>r. m = Ret r \<longrightarrow> risk_wf r)"

lemma and_then_elim: "and_then m f = Ret y \<Longrightarrow> (\<And>x. m = Ret x \<Longrightarrow> f x = Ret y \<Longrightarrow> P) \<Longrightarrow> P"
  by (cases m) (auto simp: and_then_def)

lemma ret_wf: "risk_wf r \<Longrightarrow> returns_wf (Ret r)"
  by (simp add: returns_wf_def)

lemma then_wf: "(\<And>x. returns_wf (f x)) \<Longrightarrow> returns_wf (and_then m f)"
  by (cases m) (simp_all add: returns_wf_def and_then_def)

lemma cond_wf: "(b \<Longrightarrow> returns_wf x) \<Longrightarrow> (\<not> b \<Longrightarrow> returns_wf y) \<Longrightarrow> returns_wf (if b then x else y)"
  by simp

lemmas wf_intros = if_wf ret_wf then_wf cond_wf metadata_wf plain_wf guarded_wf hardline_wf

lemma shell_wf: "returns_wf (assess_shell h a)"
proof (cases "find (\<lambda>(r, _). rx_search r (ac_detail a)) shell_hardline")
  case (Some p)
  show ?thesis unfolding assess_shell_def Let_def Some option.case
    by (cases p) (simp only: prod.case, intro ret_wf hardline_wf, simp_all)
next
  case None
  show ?thesis unfolding assess_shell_def Let_def None option.case by (intro wf_intros) simp_all
qed

lemma file_read_wf: "returns_wf (assess_file_read cv h a)"
  unfolding assess_file_read_def Let_def split_beta by (intro wf_intros) simp_all

lemma file_write_wf: "returns_wf (assess_file_write cv h a)"
  unfolding assess_file_write_def Let_def split_beta by (intro wf_intros) simp_all

lemma network_wf: "risk_wf (assess_network_fetch cv a)"
  unfolding assess_network_fetch_def Let_def by (intro wf_intros) simp_all

lemma escape_wf: "risk_wf (assess_workspace_escape cv a)"
  unfolding assess_workspace_escape_def Let_def by (intro wf_intros) simp_all

lemma mcp_wf: "risk_wf (assess_mcp_tool repr cv a)"
  unfolding assess_mcp_tool_def Let_def by (intro wf_intros) simp_all

lemma registered_wf:
  "rs \<noteq> [] \<Longrightarrow> risk_wf \<lparr>rk_level = l, rk_score = level_score l, rk_reasons = rs, rk_explanation = e,
     rk_hardline = (l = RL_CRITICAL), rk_permanent = (l \<notin> {RL_HIGH, RL_CRITICAL}), rk_metadata = m\<rparr>"
  by (cases l) (simp_all add: risk_wf_def level_score_def)

lemma optional_wf:
  "pred_option risk_wf None" "risk_wf r \<Longrightarrow> pred_option risk_wf (Some r)"
  "(b \<Longrightarrow> pred_option risk_wf x) \<Longrightarrow> (\<not> b \<Longrightarrow> pred_option risk_wf y) \<Longrightarrow> pred_option risk_wf (if b then x else y)"
  "(\<And>l. pred_option risk_wf (f l)) \<Longrightarrow> pred_option risk_wf (case m of None \<Rightarrow> None | Some l \<Rightarrow> f l)"
  by (simp_all split: option.split)

lemma platform_level_wf: "pred_option risk_wf (platform_risk_level cv a)"
  unfolding platform_risk_level_def Let_def
  by (intro optional_wf metadata_wf guarded_wf registered_wf) simp_all

lemma platform_wf: "risk_wf (assess_platform cv a)"
proof (cases "platform_risk_level cv a")
  case None
  show ?thesis unfolding assess_platform_def None option.case by (intro wf_intros) simp_all
next
  case (Some r)
  show ?thesis using platform_level_wf[of cv a] unfolding assess_platform_def Some by simp
qed

lemma default_wf: "returns_wf (default_assess repr cv h a)"
  unfolding default_assess_def Let_def
  by (intro cond_wf shell_wf file_read_wf file_write_wf ret_wf network_wf escape_wf mcp_wf platform_wf
      guarded_wf plain_wf) simp_all

lemma tier_wf: "risk_wf (device_tier fmt cv reg eff en device channel)"
  unfolding device_tier_def Let_def by (rule if_wf) (simp_all add: risk_wf_def)

lemma device_hardline_wf: "risk_wf (device_hardline reason e)"
  unfolding device_hardline_def by (rule hardline_wf) simp_all

lemma device_read_wf: "risk_wf (assess_device_read cv reg a)"
proof -
  obtain device channel t where t: "device_target cv reg a = (device, channel, t)" by (metis prod_cases3)
  show ?thesis
  proof (cases t)
    case None
    show ?thesis unfolding assess_device_read_def t None prod.case option.case Let_def
      by (intro wf_intros device_hardline_wf) simp_all
  next
    case (Some p)
    obtain cx ch where p: "p = (cx, ch)" by (cases p)
    show ?thesis unfolding assess_device_read_def t Some p prod.case option.case Let_def
      by (intro wf_intros device_hardline_wf) simp_all
  qed
qed

lemma device_wf: "returns_wf (assess_device repr fmt cv reg a)"
proof -
  obtain device channel t where t: "device_target cv reg a = (device, channel, t)" by (metis prod_cases3)
  show ?thesis
  proof (cases t)
    case None
    show ?thesis unfolding assess_device_def t None prod.case option.case Let_def
      by (intro wf_intros device_hardline_wf device_read_wf) simp_all
  next
    case (Some p)
    obtain cx ch where p: "p = (cx, ch)" by (cases p)
    show ?thesis unfolding assess_device_def t Some p prod.case option.case Let_def
      by (intro wf_intros device_hardline_wf device_read_wf tier_wf) simp_all
  qed
qed

lemma composite_cases:
  "risk_classifier repr fmt cv h registry a = Ret r \<Longrightarrow>
   default_assess repr cv h a = Ret r \<or> (\<exists>reg. registry = Some reg \<and> assess_device repr fmt cv reg a = Ret r)"
  by (auto simp: risk_classifier_def composite_assess_def split: option.splits if_splits)

lemma classifier_wf: "risk_classifier repr fmt cv h registry a = Ret r \<Longrightarrow> risk_wf r"
  using composite_cases default_wf device_wf unfolding returns_wf_def by blast

text \<open>
  C27. Every assessment the installed classifier returns, for any action, host and registry of devices,
  is well-formed: hardline exactly when critical, then without a permanent grant, scored between 0 and
  1, below the policy's threshold exactly when safe or low, and with a reason. Hence the policy without
  rules and bypass refuses the critical ones, asks about the medium and high ones and allows the rest.
\<close>

theorem assessment_well_formed:
  assumes "risk_classifier repr fmt cv h registry a = Ret r"
  shows "risk_wf r \<and> pd_verdict (policy_evaluate \<lparr>po_rules = [], po_bypass = False\<rparr> a r) =
    (case rk_level r of RL_CRITICAL \<Rightarrow> V_DENY | RL_HIGH \<Rightarrow> V_ASK | RL_MEDIUM \<Rightarrow> V_ASK | _ \<Rightarrow> V_ALLOW)"
  using classifier_wf[OF assms]
  by (cases "rk_level r") (auto simp: policy_evaluate_def risk_wf_def map_filter_simps)

definition gateway_message :: action where
  "gateway_message = gateway_send_action ''a1'' ''slack'' ''c1'' ''hello'' []"

definition plain_text :: conversions where
  "plain_text = \<lparr>cv_int = (\<lambda>_. None), cv_float = (\<lambda>_. None), cv_str = (\<lambda>_. [])\<rparr>"

definition bare_host :: host where
  "bare_host = \<lparr>hs_home = (\<lambda>_. ''/home/u''), hs_roots = []\<rparr>"

theorem assessment_well_formed_witness:
  "\<exists>r. risk_classifier id (\<lambda>_. []) plain_text bare_host None gateway_message = Ret r \<and> risk_wf r"
proof -
  have "risk_classifier id (\<lambda>_. []) plain_text bare_host None gateway_message =
    Ret (guarded_risk RL_HIGH 0.72 [''external_message_send''] ''This sends content to an external platform conversation.'')"
    by (simp add: risk_classifier_def default_assess_def gateway_message_def gateway_send_action_def new_action_def Let_def)
  from this assessment_well_formed[OF this] show ?thesis by blast
qed

section \<open>Device commands\<close>

text \<open>
  C15. A command to a device that the policy would not refuse is never allowed unasked, and rests on the
  declaration: the channel is declared and writable, its effect is the one the tool performs, its
  envelope is declared, every required interlock is declared over a readable channel, and the caller
  reported neither a failed interlock nor a value outside the envelope. A permanent grant is offered
  only when the setting allows grants, never for dispensing, and for an actuation only when the envelope
  is reversible. For \<open>device.configure\<close> the code does not look at reversibility: it offers the grant
  exactly when the setting allows it, also for a setpoint declared irreversible, although the comment of
  \<open>_tier_for\<close> excepts every irreversible write.
\<close>

theorem device_command_gated:
  assumes "risk_classifier repr fmt cv h (Some reg) a = Ret r" "\<not> rk_hardline r"
    and "ac_kind a \<in> {''device.configure'', ''device.actuate'', ''device.dispense''}"
  shows "pd_verdict (policy_evaluate \<lparr>po_rules = [], po_bypass = False\<rparr> a r) = V_ASK \<and>
    (\<exists>cx ch. dr_context reg (meta_str cv a ''device_id'' []) = Some cx
       \<and> dev_channel_of cx (meta_str cv a ''channel_id'' []) = Some ch \<and> dev_writable ch
       \<and> map_of effect_for_kind (ac_kind a) = Some (dc_effect ch) \<and> en_declared (dc_envelope ch)
       \<and> (\<forall>name \<in> set (de_requires (dc_envelope ch)). \<exists>lock c. dev_interlock cx name = Some lock
            \<and> c \<in> set (dx_channels cx) \<and> dev_readable c \<and> il_channel lock = dc_id c)
       \<and> map_of (ac_metadata a) ''interlocks_satisfied'' \<noteq> Some (PBool False)
       \<and> map_of (ac_metadata a) ''value_in_envelope'' \<noteq> Some (PBool False)
       \<and> (rk_permanent r \<longrightarrow> dr_envelope_grant reg \<and> dc_effect ch \<noteq> ''dispense''
            \<and> (dc_effect ch = ''actuate'' \<longrightarrow> de_reversible (dc_envelope ch)))
       \<and> (dc_effect ch = ''configure'' \<longrightarrow> rk_permanent r = dr_envelope_grant reg))"
proof -
  have pre: "py_prefix ''device.'' (ac_kind a)" and kind: "ac_kind a \<noteq> ''device.estop''" "ac_kind a \<noteq> ''device.read''"
    using assms(3) by auto
  have ad: "assess_device repr fmt cv reg a = Ret r"
    using assms(1) pre by (simp add: risk_classifier_def composite_assess_def)
  obtain expected where ex: "map_of effect_for_kind (ac_kind a) = Some expected" "expected \<noteq> []"
    using assms(3) by (auto simp: effect_for_kind_def)
  have hard: "rk_hardline (device_hardline x y)" for x y by (simp add: device_hardline_def hardline_risk_def)
  obtain device channel t where t: "device_target cv reg a = (device, channel, t)" by (metis prod_cases3)
  have names: "device = meta_str cv a ''device_id'' []" "channel = meta_str cv a ''channel_id'' []"
    using t by (simp_all add: device_target_def Let_def)
  from ad kind t hard assms(2) obtain cx ch where some: "t = Some (cx, ch)"
    unfolding assess_device_def by (cases t) auto
  have target: "dr_context reg device = Some cx" "dev_channel_of cx channel = Some ch"
    using t some names by (auto simp: device_target_def Let_def split: option.splits)
  have r: "r = device_tier fmt cv reg (dc_effect ch) (dc_envelope ch) device channel"
    and facts: "dev_writable ch" "dc_effect ch = expected" "en_declared (dc_envelope ch)"
      "unevaluable_interlocks cx (dc_envelope ch) = []"
      "map_of (ac_metadata a) ''interlocks_satisfied'' \<noteq> Some (PBool False)"
      "map_of (ac_metadata a) ''value_in_envelope'' \<noteq> Some (PBool False)"
    using ad kind t some ex hard assms(2) unfolding assess_device_def
    by (auto simp: Let_def split: if_splits elim!: and_then_elim)
  have locks: "\<forall>name \<in> set (de_requires (dc_envelope ch)). \<exists>lock c. dev_interlock cx name = Some lock
            \<and> c \<in> set (dx_channels cx) \<and> dev_readable c \<and> il_channel lock = dc_id c"
  proof
    fix name assume n: "name \<in> set (de_requires (dc_envelope ch))"
    have "filter (\<lambda>name. case dev_interlock cx name of None \<Rightarrow> True
        | Some lock \<Rightarrow> il_channel lock \<notin> set (map dc_id (filter dev_readable (dx_channels cx)))) (de_requires (dc_envelope ch)) = []"
      using facts(4) unfolding unevaluable_interlocks_def by (metis set_empty set_sort)
    with n show "\<exists>lock c. dev_interlock cx name = Some lock \<and> c \<in> set (dx_channels cx) \<and> dev_readable c \<and> il_channel lock = dc_id c"
      by (fastforce simp: filter_empty_conv split: option.splits)
  qed
  have "dc_effect ch \<in> {''configure'', ''actuate'', ''dispense''}"
    using assms(3) ex(1) facts(2) by (auto simp: effect_for_kind_def)
  then have perm: "rk_permanent r \<longrightarrow> dr_envelope_grant reg \<and> dc_effect ch \<noteq> ''dispense''
      \<and> (dc_effect ch = ''actuate'' \<longrightarrow> de_reversible (dc_envelope ch))"
    and configure: "dc_effect ch = ''configure'' \<longrightarrow> rk_permanent r = dr_envelope_grant reg"
    and ask: "pd_verdict (policy_evaluate \<lparr>po_rules = [], po_bypass = False\<rparr> a r) = V_ASK"
    by (auto simp: r device_tier_def policy_evaluate_def map_filter_simps Let_def)
  show ?thesis using ask target names facts ex locks perm configure by auto
qed

definition pump_band :: dev_envelope where
  "pump_band = \<lparr>en_declared = True, en_min = Some 0, en_max = Some 5, en_rate = None, en_quantum = None,
     en_allowed = [], de_settling = 0, de_reversible = True, de_requires = [''cold'']\<rparr>"

definition pump_flow :: dev_channel where
  "pump_flow = \<lparr>dc_id = ''flow'', dc_direction = ''write'', dc_quantity = ''rate'', dc_effect = ''actuate'',
     dc_privacy = ''none'', dc_envelope = pump_band\<rparr>"

definition pump_temp :: dev_channel where
  "pump_temp = \<lparr>dc_id = ''temp'', dc_direction = ''read'', dc_quantity = ''heat'', dc_effect = ''read'',
     dc_privacy = ''none'', dc_envelope = pump_band\<rparr>"

definition pump_context :: dev_context where
  "pump_context = \<lparr>dx_location = ''lab'', dx_channels = [pump_flow, pump_temp],
     dx_interlocks = [\<lparr>il_id = ''cold'', il_channel = ''temp'', il_operator = ''lt'', il_value = RNum 30\<rparr>]\<rparr>"

definition pump_devices :: dev_registry where
  "pump_devices = \<lparr>dr_context = [''pump'' \<mapsto> pump_context], dr_envelope_grant = True\<rparr>"

definition pump_command :: action where
  "pump_command = new_action ''a1'' ''device.actuate'' [] [] ''execute'' ''pump:flow'' ''agent''
     [(''device_id'', PStr ''pump''), (''channel_id'', PStr ''flow'')]"

lemmas pump_defs = pump_band_def pump_flow_def pump_temp_def pump_context_def pump_devices_def

lemma pump_assessed:
  "risk_classifier repr fmt cv h (Some pump_devices) pump_command =
     Ret (device_tier fmt cv pump_devices ''actuate'' pump_band ''pump'' ''flow'')"
proof -
  have target: "device_target cv pump_devices pump_command = (''pump'', ''flow'', Some (pump_context, pump_flow))"
    by (simp add: device_target_def meta_str_def get_or_def py_truthy_def py_str_def pump_command_def new_action_def pump_defs dev_channel_of_def Let_def)
  have locks: "unevaluable_interlocks pump_context pump_band = []"
    by (simp add: unevaluable_interlocks_def dev_interlock_def dev_readable_def pump_defs)
  have kind: "ac_kind pump_command = ''device.actuate''" by (simp add: pump_command_def new_action_def)
  show ?thesis unfolding risk_classifier_def composite_assess_def
    by (simp add: kind assess_device_def target Let_def locks effect_for_kind_def)
      (simp add: pump_flow_def dev_writable_def locks pump_command_def new_action_def, simp add: pump_band_def)
qed

theorem device_command_gated_witness:
  "pd_verdict (policy_evaluate \<lparr>po_rules = [], po_bypass = False\<rparr> pump_command
     (device_tier (\<lambda>_. ''x'') plain_text pump_devices ''actuate'' pump_band ''pump'' ''flow'')) = V_ASK"
proof -
  have "\<not> rk_hardline (device_tier (\<lambda>_. ''x'') plain_text pump_devices ''actuate'' pump_band ''pump'' ''flow'')"
    by (simp add: device_tier_def Let_def)
  from device_command_gated[OF pump_assessed this, THEN conjunct1] show ?thesis
    by (simp add: pump_command_def new_action_def)
qed

text \<open>An irreversible setpoint gets the reusable grant, and nothing marks it as irreversible.\<close>

lemma irreversible_configure_reusable:
  "\<not> de_reversible en \<Longrightarrow> dr_envelope_grant reg \<Longrightarrow>
     rk_permanent (device_tier fmt cv reg ''configure'' en device channel)
     \<and> ''irreversible'' \<notin> set (rk_reasons (device_tier fmt cv reg ''configure'' en device channel))"
  by (simp add: device_tier_def)

end
