(* ===== verification/Approval_Flow.thy ===== *)
theory Approval_Flow imports Approval_Gate begin

text \<open>
  \<open>security/orchestrator.py\<close>: the evaluation of an action. It suspends while the guardian's model answers
  and while the surface asks the user; the code between two suspensions is one step, and any number of
  evaluations run on one orchestrator and one gate. \<open>evaluate_begin\<close>, \<open>guardian_answers\<close> and
  \<open>user_answers\<close> are the steps, \<open>approval_step\<close> the events of a run. \<open>clk i\<close> is the \<open>i\<close>-th clock
  reading of a step, \<open>fresh\<close> the id of the request it may make.
\<close>

section \<open>Results\<close>

record approval_result =
  ar_approved :: bool
  ar_decision :: string
  ar_action :: action
  ar_risk :: risk
  ar_scope :: string
  ar_reason :: string
  ar_consent :: bool

definition denial_message :: "approval_result \<Rightarrow> string" where
  "denial_message r =
     (if ar_approved r then []
      else if rk_hardline (ar_risk r) \<or> rk_level (ar_risk r) = RL_CRITICAL then
        ''BLOCKED: This action is prohibited by LeapFlow's hardline safety policy. Run it manually outside the agent if you genuinely need it.''
      else
        ''BLOCKED: User denied this action. The user has not consented to this outcome. Do not retry, rephrase, or attempt the same outcome through another tool. Ask the user for a revised instruction.'')"

record orchestrator =
  or_policy :: policy
  or_grants :: grant_store
  or_audit :: "audit_entry list"
  or_guardian :: bool
  or_config :: guardian_config
  or_breaker :: breaker

record approver =
  ap_orch :: orchestrator
  ap_gate :: session_gate

definition new_orchestrator ::
  "policy \<Rightarrow> grant_store \<Rightarrow> audit_entry list \<Rightarrow> guardian_config option \<Rightarrow> guardian_config option \<Rightarrow> orchestrator" where
  "new_orchestrator po grants audit adapter config =
     (let cfg = (case config of Some c \<Rightarrow> c | None \<Rightarrow>
                  (case adapter of Some c \<Rightarrow> c | None \<Rightarrow> default_guardian_config)) in
      \<lparr>or_policy = po, or_grants = grants, or_audit = audit, or_guardian = (adapter \<noteq> None), or_config = cfg,
       or_breaker = new_breaker (gc_max_denials cfg)\<rparr>)"

definition reset_turn :: "orchestrator \<Rightarrow> orchestrator" where
  "reset_turn o1 = o1\<lparr>or_breaker := breaker_reset (or_breaker o1)\<rparr>"

text \<open>\<open>_approved\<close> and \<open>_denied\<close>, with the breaker's record their callers make first.\<close>

definition conclude ::
  "bool \<Rightarrow> real \<Rightarrow> action \<Rightarrow> risk \<Rightarrow> string \<Rightarrow> string \<Rightarrow> string \<Rightarrow> orchestrator \<Rightarrow> approval_result \<times> orchestrator" where
  "conclude ok ts a r actor scope reason o1 =
     (let decision = (if ok then ''allow'' else ''deny'') in
      (\<lparr>ar_approved = ok, ar_decision = decision, ar_action = a, ar_risk = r, ar_scope = scope, ar_reason = reason,
        ar_consent = (ok \<and> actor = ''user'')\<rparr>,
       o1\<lparr>or_audit := or_audit o1 @ [new_entry ts a decision r scope actor reason]\<rparr>))"

definition approved ::
  "real \<Rightarrow> action \<Rightarrow> risk \<Rightarrow> string \<Rightarrow> string \<Rightarrow> string \<Rightarrow> orchestrator \<Rightarrow> approval_result \<times> orchestrator" where
  "approved ts a r actor scope reason o1 =
     conclude True ts a r actor scope reason (o1\<lparr>or_breaker := record_approval (or_breaker o1)\<rparr>)"

definition refused ::
  "real \<Rightarrow> action \<Rightarrow> risk \<Rightarrow> string \<Rightarrow> string \<Rightarrow> string \<Rightarrow> orchestrator \<Rightarrow> approval_result \<times> orchestrator" where
  "refused ts a r actor scope reason o1 =
     conclude False ts a r actor scope reason (o1\<lparr>or_breaker := record_denial (or_breaker o1)\<rparr>)"

section \<open>Pieces of an evaluation\<close>

fun lookup_grants ::
  "(pyval \<Rightarrow> string) \<Rightarrow> (nat \<Rightarrow> real) \<Rightarrow> nat \<Rightarrow> action \<Rightarrow> string list \<Rightarrow> grant_store \<Rightarrow> grant option \<times> grant_store" where
  "lookup_grants hash clk i a [] gs = (None, gs)"
| "lookup_grants hash clk i a (sc # scs) gs =
     (case grant_get (clk i) (grant_key hash a sc) gs of
        (Some g, gs') \<Rightarrow> (Some g, gs')
      | (None, gs') \<Rightarrow> lookup_grants hash clk (Suc i) a scs gs')"

definition existing_grant ::
  "(pyval \<Rightarrow> string) \<Rightarrow> (nat \<Rightarrow> real) \<Rightarrow> action \<Rightarrow> grant_store \<Rightarrow> grant option \<times> grant_store" where
  "existing_grant hash clk a gs = lookup_grants hash clk 0 a [''turn'', ''session'', ''profile''] gs"

definition approval_choices :: "bool \<Rightarrow> string list" where
  "approval_choices permanent =
     [''allow_once'', ''allow_session'', ''allow_all_session''] @ (if permanent then [''allow_always''] else [])
     @ [''deny'', ''deny_always'', ''show_details'']"

definition approval_title :: "risk \<Rightarrow> string" where
  "approval_title r =
     (if rk_level r = RL_CRITICAL then ''Critical Action Blocked''
      else if rk_level r = RL_HIGH then ''High Risk Action'' else ''Action Approval'')"

definition approval_request_for :: "string \<Rightarrow> action \<Rightarrow> risk \<Rightarrow> bool \<Rightarrow> approval_request" where
  "approval_request_for fresh a r permanent =
     \<lparr>rq_category = ac_kind a, rq_detail = ac_detail a, rq_id = fresh, rq_hint = rk_score r,
      rq_metadata = [(''action'', PDict (action_to_dict a)), (''risk'', PDict (risk_to_dict r)),
                     (''allow_permanent'', PBool permanent)],
      rq_action = Some a, rq_risk = Some r, rq_choices = approval_choices permanent,
      rq_default = (if rk_level r \<in> {RL_HIGH, RL_CRITICAL} then ''deny'' else ''allow_once''),
      rq_display = [(''title'', PStr (approval_title r)), (''summary'', PStr (ac_summary a)),
                    (''reason'', PStr (rk_explanation r))]\<rparr>"

definition scope_from_decision :: "approval_decision \<Rightarrow> string" where
  "scope_from_decision d = (case d of D_SESSION \<Rightarrow> ''session'' | D_ALWAYS \<Rightarrow> ''profile'' | _ \<Rightarrow> ''once'')"

definition user_grant :: "(pyval \<Rightarrow> string) \<Rightarrow> real \<Rightarrow> action \<Rightarrow> string \<Rightarrow> string \<Rightarrow> string \<Rightarrow> grant" where
  "user_grant hash now a scope decision reason =
     \<lparr>gr_key = grant_key hash a scope, gr_scope = scope, gr_decision = decision, gr_kind = ac_kind a,
      gr_effect = ac_effect a, gr_resource = ac_resource a, gr_reason = reason, gr_created = now, gr_expires = None\<rparr>"

definition put_grant :: "real \<Rightarrow> grant \<Rightarrow> orchestrator \<Rightarrow> orchestrator" where
  "put_grant now g o1 = o1\<lparr>or_grants := grant_put now g (or_grants o1)\<rparr>"

definition settle ::
  "(pyval \<Rightarrow> string) \<Rightarrow> (nat \<Rightarrow> real) \<Rightarrow> action \<Rightarrow> risk \<Rightarrow> approval_decision \<Rightarrow> orchestrator \<Rightarrow> approval_result \<times> orchestrator" where
  "settle hash clk a r d o1 =
     (if is_allowing d then
        let scope = scope_from_decision d in
        approved (clk 2) a r ''user'' scope (decision_value d)
          (if scope \<in> {''session'', ''profile''}
           then put_grant (clk 1) (user_grant hash (clk 0) a scope ''allow'' ''user_approved'') o1 else o1)
      else if d = D_DENY_ALWAYS then
        refused (clk 2) a r ''user'' ''session'' (decision_value d)
          (put_grant (clk 1) (user_grant hash (clk 0) a ''session'' ''deny'' ''user_denied'') o1)
      else refused (clk 2) a r ''user'' ''once'' (decision_value d) o1)"

section \<open>Steps\<close>

text \<open>What an evaluation waits for: the guardian, or the user with the request it showed.\<close>

datatype waiting = AskGuardian action risk bool | AskUser action risk approval_request

datatype step_result = Done approval_result | Waits waiting | Crashed string

definition ask_user ::
  "(pyval \<Rightarrow> string) \<Rightarrow> (nat \<Rightarrow> real) \<Rightarrow> string \<Rightarrow> action \<Rightarrow> risk \<Rightarrow> bool \<Rightarrow> approver \<Rightarrow> step_result \<times> approver" where
  "ask_user hash clk fresh a r permanent ap =
     (let rq = approval_request_for fresh a r permanent in
      case gate_ask hash (clk 3) rq (ap_gate ap) of
        (None, g) \<Rightarrow> (Waits (AskUser a r rq), ap\<lparr>ap_gate := g\<rparr>)
      | (Some d, g) \<Rightarrow>
          (let (res, o1) = settle hash clk a r d (ap_orch ap) in (Done res, \<lparr>ap_orch = o1, ap_gate = g\<rparr>)))"

definition finish :: "approver \<Rightarrow> approval_result \<times> orchestrator \<Rightarrow> step_result \<times> approver" where
  "finish ap p = (Done (fst p), ap\<lparr>ap_orch := snd p\<rparr>)"

definition after_policy ::
  "(pyval \<Rightarrow> string) \<Rightarrow> (nat \<Rightarrow> real) \<Rightarrow> string \<Rightarrow> action \<Rightarrow> risk \<Rightarrow> bool \<Rightarrow> approver \<Rightarrow> step_result \<times> approver" where
  "after_policy hash clk fresh a r permanent ap =
     (let o1 = ap_orch ap in
      if br_tripped (or_breaker o1) then
        finish ap (conclude False (clk 4) a r ''denial_breaker'' ''once'' ''consecutive denial limit reached'' o1)
      else case existing_grant hash clk a (or_grants o1) of
        (Some g, gs) \<Rightarrow>
          let o2 = o1\<lparr>or_grants := gs\<rparr> in
          finish ap
            (if py_prefix ''deny'' (gr_decision g) then refused (clk 4) a r ''grant'' ''once'' (gr_reason g) o2
             else approved (clk 4) a r ''grant'' (gr_scope g) (gr_reason g) o2)
      | (None, gs) \<Rightarrow>
          let ap2 = ap\<lparr>ap_orch := o1\<lparr>or_grants := gs\<rparr>\<rparr> in
          if gc_mode (or_config o1) = ''static_only'' \<or> \<not> or_guardian o1
          then ask_user hash clk fresh a r permanent ap2
          else (Waits (AskGuardian a r permanent), ap2))"

definition evaluate_begin ::
  "(action \<Rightarrow> risk outcome) \<Rightarrow> (pyval \<Rightarrow> string) \<Rightarrow> (nat \<Rightarrow> real) \<Rightarrow> string \<Rightarrow> action \<Rightarrow> approver \<Rightarrow> step_result \<times> approver" where
  "evaluate_begin assess hash clk fresh a ap =
     (case assess a of
        Raise e \<Rightarrow> (Crashed e, ap)
      | Ret r \<Rightarrow>
          let d = policy_evaluate (or_policy (ap_orch ap)) a r in
          case pd_verdict d of
            V_ALLOW \<Rightarrow> finish ap (approved (clk 0) a r ''policy'' ''once'' (pd_reason d) (ap_orch ap))
          | V_DENY \<Rightarrow> finish ap (refused (clk 0) a r ''policy'' ''once'' (pd_reason d) (ap_orch ap))
          | V_ASK \<Rightarrow> after_policy hash clk fresh a r (pd_permanent d) ap)"

text \<open>\<open>None\<close> is a guardian whose call raised.\<close>

definition guardian_answers ::
  "(pyval \<Rightarrow> string) \<Rightarrow> (real \<Rightarrow> string) \<Rightarrow> (nat \<Rightarrow> real) \<Rightarrow> string \<Rightarrow> guardian_verdict option \<Rightarrow>
   action \<Rightarrow> risk \<Rightarrow> bool \<Rightarrow> approver \<Rightarrow> step_result \<times> approver" where
  "guardian_answers hash fmt clk fresh v a r permanent ap =
     (case v of
        None \<Rightarrow> ask_user hash clk fresh a r permanent ap
      | Some gv \<Rightarrow>
          (case gv_recommendation gv of
             R_APPROVE \<Rightarrow> finish ap (approved (clk 0) a r ''guardian'' ''once''
                            (''guardian auto-approve (score='' @ fmt (gv_score gv) @ '')'') (ap_orch ap))
           | R_DENY \<Rightarrow> finish ap (refused (clk 0) a r ''guardian'' ''once''
                            (''guardian auto-deny (score='' @ fmt (gv_score gv) @ '')'') (ap_orch ap))
           | R_REVIEW \<Rightarrow> ask_user hash clk fresh a r permanent ap))"

definition user_answers ::
  "(pyval \<Rightarrow> string) \<Rightarrow> (nat \<Rightarrow> real) \<Rightarrow> approval_decision \<Rightarrow> action \<Rightarrow> risk \<Rightarrow> approval_request \<Rightarrow> approver \<Rightarrow>
   step_result \<times> approver" where
  "user_answers hash clk d a r rq ap =
     (let (d', g) = gate_answer hash (clk 3) rq d (ap_gate ap);
          (res, o1) = settle hash clk a r d' (ap_orch ap) in
      (Done res, \<lparr>ap_orch = o1, ap_gate = g\<rparr>))"

section \<open>Runs\<close>

record approvals =
  as_core :: approver
  as_waiting :: "(nat \<times> waiting) list"
  as_results :: "approval_result list"

record services =
  sv_assess :: "action \<Rightarrow> risk outcome"
  sv_hash :: "pyval \<Rightarrow> string"
  sv_fmt :: "real \<Rightarrow> string"
  sv_adapter :: guardian_config

datatype approval_event =
    Evaluate nat action string
  | GuardianSays nat classification string
  | GuardianFails nat string
  | UserSays nat approval_decision
  | Abandon nat
  | TurnReset
  | GateReset

definition new_approvals :: "orchestrator \<Rightarrow> approvals" where
  "new_approvals o1 = \<lparr>as_core = \<lparr>ap_orch = o1, ap_gate = new_gate\<rparr>, as_waiting = [], as_results = []\<rparr>"

definition absorb :: "nat \<Rightarrow> approvals \<Rightarrow> step_result \<times> approver \<Rightarrow> approvals" where
  "absorb i st p =
     (let rest = dict_pop i (as_waiting st) in
      case fst p of
        Done res \<Rightarrow> \<lparr>as_core = snd p, as_waiting = rest, as_results = as_results st @ [res]\<rparr>
      | Waits w \<Rightarrow> \<lparr>as_core = snd p, as_waiting = rest @ [(i, w)], as_results = as_results st\<rparr>
      | Crashed e \<Rightarrow> \<lparr>as_core = snd p, as_waiting = rest, as_results = as_results st\<rparr>)"

text \<open>An event for an evaluation that does not wait for it changes nothing.\<close>

fun approval_step :: "services \<Rightarrow> (nat \<Rightarrow> real) \<Rightarrow> approval_event \<Rightarrow> approvals \<Rightarrow> approvals" where
  "approval_step sv clk (Evaluate i a fresh) st =
     (if map_of (as_waiting st) i \<noteq> None then st
      else absorb i st (evaluate_begin (sv_assess sv) (sv_hash sv) clk fresh a (as_core st)))"
| "approval_step sv clk (GuardianSays i c fresh) st =
     (case map_of (as_waiting st) i of
        Some (AskGuardian a r permanent) \<Rightarrow>
          absorb i st (guardian_answers (sv_hash sv) (sv_fmt sv) clk fresh
            (Some (fst (guardian_evaluate (sv_fmt sv) (sv_adapter sv) c))) a r permanent (as_core st))
      | _ \<Rightarrow> st)"
| "approval_step sv clk (GuardianFails i fresh) st =
     (case map_of (as_waiting st) i of
        Some (AskGuardian a r permanent) \<Rightarrow>
          absorb i st (guardian_answers (sv_hash sv) (sv_fmt sv) clk fresh None a r permanent (as_core st))
      | _ \<Rightarrow> st)"
| "approval_step sv clk (UserSays i d) st =
     (case map_of (as_waiting st) i of
        Some (AskUser a r rq) \<Rightarrow> absorb i st (user_answers (sv_hash sv) clk d a r rq (as_core st))
      | _ \<Rightarrow> st)"
| "approval_step sv clk (Abandon i) st = st\<lparr>as_waiting := dict_pop i (as_waiting st)\<rparr>"
| "approval_step sv clk TurnReset st =
     st\<lparr>as_core := (as_core st)\<lparr>ap_orch := reset_turn (ap_orch (as_core st))\<rparr>\<rparr>"
| "approval_step sv clk GateReset st = st\<lparr>as_core := (as_core st)\<lparr>ap_gate := gate_reset (ap_gate (as_core st))\<rparr>\<rparr>"

definition approval_run :: "services \<Rightarrow> ((nat \<Rightarrow> real) \<times> approval_event) list \<Rightarrow> approvals \<Rightarrow> approvals" where
  "approval_run sv es st = fold (\<lambda>(clk, e). approval_step sv clk e) es st"

end
