(* ===== verification/Approval_Flow_Props.thy ===== *)
theory Approval_Flow_Props imports Approval_Flow begin

text \<open>
  What an approval rests on. \<open>waiting_ok\<close> says what every suspended evaluation has already passed;
  \<open>step_cases\<close> takes an event apart into the pieces of the orchestrator. The theorems are about runs of
  any events, in any order, from a new gate.
\<close>

section \<open>Pieces\<close>

lemmas conclude_defs = approved_def refused_def conclude_def

definition res_entry :: "approval_result \<Rightarrow> string \<times> string \<times> string \<times> string \<times> string \<times> string" where
  "res_entry res =
     (ac_id (ar_action res), ac_kind (ar_action res), ar_decision res, ar_scope res, risk_value (rk_level (ar_risk res)), ar_reason res)"

definition entry_view :: "audit_entry \<Rightarrow> string \<times> string \<times> string \<times> string \<times> string \<times> string" where
  "entry_view e = (au_id e, au_kind e, au_decision e, au_scope e, au_level e, au_reason e)"

text \<open>What a piece that ends an evaluation does: one result, one entry that says the same.\<close>

definition entry_matches :: "approval_result \<Rightarrow> audit_entry \<Rightarrow> bool" where
  "entry_matches res e \<longleftrightarrow>
     entry_view e = res_entry res \<and> (ar_consent res \<longleftrightarrow> ar_approved res \<and> au_actor e = ''user'')"

definition concludes :: "action \<Rightarrow> risk \<Rightarrow> orchestrator \<Rightarrow> approval_result \<times> orchestrator \<Rightarrow> bool" where
  "concludes a r o1 p \<longleftrightarrow>
     ar_action (fst p) = a \<and> ar_risk (fst p) = r \<and>
     ar_decision (fst p) = (if ar_approved (fst p) then ''allow'' else ''deny'') \<and>
     (\<exists>e. or_audit (snd p) = or_audit o1 @ [e] \<and> entry_matches (fst p) e) \<and>
     or_policy (snd p) = or_policy o1 \<and> or_guardian (snd p) = or_guardian o1 \<and> or_config (snd p) = or_config o1"

lemma conclude_concludes [simp]:
  "concludes a r o1 (approved ts a r actor scope reason o1)"
  "concludes a r o1 (refused ts a r actor scope reason o1)"
  "concludes a r o1 (conclude ok ts a r actor scope reason o1)"
  by (auto simp: concludes_def conclude_defs entry_matches_def entry_view_def res_entry_def new_entry_def Let_def)

lemma concludes_cong:
  assumes "concludes a r o2 p" "or_audit o2 = or_audit o1" "or_policy o2 = or_policy o1"
    "or_guardian o2 = or_guardian o1" "or_config o2 = or_config o1"
  shows "concludes a r o1 p"
  using assms by (simp add: concludes_def)

lemma put_grant_frame [simp]:
  "or_audit (put_grant now g o1) = or_audit o1" "or_policy (put_grant now g o1) = or_policy o1"
  "or_guardian (put_grant now g o1) = or_guardian o1" "or_config (put_grant now g o1) = or_config o1"
  "or_breaker (put_grant now g o1) = or_breaker o1"
  by (simp_all add: put_grant_def)

lemma settle_concludes: "concludes a r o1 (settle hash clk a r d o1)"
  unfolding settle_def Let_def by (auto intro: concludes_cong[OF conclude_concludes(1)] concludes_cong[OF conclude_concludes(2)])

lemma settle_approved [simp]:
  "ar_approved (fst (settle hash clk a r d o1)) \<longleftrightarrow> is_allowing d"
  "ar_consent (fst (settle hash clk a r d o1)) \<longleftrightarrow> is_allowing d"
  by (auto simp: settle_def conclude_defs Let_def)

section \<open>What a step leaves\<close>

text \<open>The suspended evaluation has an assessment the policy wants asked about.\<close>

definition asked :: "services \<Rightarrow> policy \<Rightarrow> action \<Rightarrow> risk \<Rightarrow> bool \<Rightarrow> bool" where
  "asked sv po a r permanent \<longleftrightarrow>
     sv_assess sv a = Ret r \<and> pd_verdict (policy_evaluate po a r) = V_ASK
     \<and> pd_permanent (policy_evaluate po a r) = permanent"

fun waiting_ok :: "services \<Rightarrow> orchestrator \<Rightarrow> waiting \<Rightarrow> bool" where
  "waiting_ok sv o1 (AskGuardian a r permanent) =
     (asked sv (or_policy o1) a r permanent \<and> or_guardian o1 \<and> gc_mode (or_config o1) \<noteq> ''static_only'')"
| "waiting_ok sv o1 (AskUser a r rq) =
     (\<exists>fresh permanent. asked sv (or_policy o1) a r permanent \<and> rq = approval_request_for fresh a r permanent)"

definition outcome_ok :: "services \<Rightarrow> action \<Rightarrow> risk \<Rightarrow> approver \<Rightarrow> step_result \<times> approver \<Rightarrow> bool" where
  "outcome_ok sv a r ap p \<longleftrightarrow>
     (case fst p of
        Done res \<Rightarrow> concludes a r (ap_orch ap) (res, ap_orch (snd p))
      | Waits w \<Rightarrow> waiting_ok sv (ap_orch ap) w \<and> or_audit (ap_orch (snd p)) = or_audit (ap_orch ap)
          \<and> or_policy (ap_orch (snd p)) = or_policy (ap_orch ap)
          \<and> or_guardian (ap_orch (snd p)) = or_guardian (ap_orch ap) \<and> or_config (ap_orch (snd p)) = or_config (ap_orch ap)
      | Crashed e \<Rightarrow> sv_assess sv a = Raise e \<and> snd p = ap)"

lemma outcome_ok_cong:
  assumes "outcome_ok sv a r ap2 p" "ap_gate ap2 = ap_gate ap" "\<And>e. fst p \<noteq> Crashed e"
    and "or_audit (ap_orch ap2) = or_audit (ap_orch ap)" "or_policy (ap_orch ap2) = or_policy (ap_orch ap)"
    "or_guardian (ap_orch ap2) = or_guardian (ap_orch ap)" "or_config (ap_orch ap2) = or_config (ap_orch ap)"
  shows "outcome_ok sv a r ap p"
proof (cases "fst p")
  case (Waits w)
  have "waiting_ok sv (ap_orch ap2) w = waiting_ok sv (ap_orch ap) w"
    using assms(5-7) by (cases w) auto
  with Waits assms show ?thesis by (simp add: outcome_ok_def)
qed (use assms in \<open>auto simp: outcome_ok_def concludes_def\<close>)

lemma ask_user_ok:
  assumes "asked sv (or_policy (ap_orch ap)) a r permanent"
  shows "outcome_ok sv a r ap (ask_user hash clk fresh a r permanent ap)"
  using assms settle_concludes[of a r "ap_orch ap" hash clk D_ALLOW]
  by (auto simp: ask_user_def outcome_ok_def gate_ask_def Let_def split: prod.splits)

lemma ask_user_not_crashed: "fst (ask_user hash clk fresh a r permanent ap) \<noteq> Crashed e"
  by (auto simp: ask_user_def Let_def split: prod.splits option.splits)

lemma after_policy_ok:
  assumes "asked sv (or_policy (ap_orch ap)) a r permanent"
  shows "outcome_ok sv a r ap (after_policy hash clk fresh a r permanent ap)"
proof (cases "br_tripped (or_breaker (ap_orch ap))")
  case True
  then show ?thesis by (simp add: after_policy_def outcome_ok_def finish_def Let_def)
next
  case False
  obtain og gs where eg: "existing_grant hash clk a (or_grants (ap_orch ap)) = (og, gs)" by fastforce
  let ?o2 = "(ap_orch ap)\<lparr>or_grants := gs\<rparr>"
  show ?thesis
  proof (cases og)
    case (Some g)
    have "concludes a r (ap_orch ap) (refused (clk 4) a r ''grant'' ''once'' (gr_reason g) ?o2)"
      "concludes a r (ap_orch ap) (approved (clk 4) a r ''grant'' (gr_scope g) (gr_reason g) ?o2)"
      by (rule concludes_cong[OF conclude_concludes(2)], simp_all) (rule concludes_cong[OF conclude_concludes(1)], simp_all)
    then show ?thesis using False eg Some by (auto simp: after_policy_def outcome_ok_def finish_def Let_def)
  next
    case None
    let ?ap2 = "ap\<lparr>ap_orch := ?o2\<rparr>"
    have "outcome_ok sv a r ap (ask_user hash clk fresh a r permanent ?ap2)"
      by (rule outcome_ok_cong[OF ask_user_ok[of _ ?ap2]]) (use assms ask_user_not_crashed in auto)
    then show ?thesis using False eg None assms by (auto simp: after_policy_def outcome_ok_def finish_def Let_def)
  qed
qed

lemma begin_unfolds:
  assumes "sv_assess sv a = Ret r"
  shows "evaluate_begin (sv_assess sv) hash clk fresh a ap =
    (let d = policy_evaluate (or_policy (ap_orch ap)) a r in
     case pd_verdict d of
       V_ALLOW \<Rightarrow> finish ap (approved (clk 0) a r ''policy'' ''once'' (pd_reason d) (ap_orch ap))
     | V_DENY \<Rightarrow> finish ap (refused (clk 0) a r ''policy'' ''once'' (pd_reason d) (ap_orch ap))
     | V_ASK \<Rightarrow> after_policy hash clk fresh a r (pd_permanent d) ap)"
  using assms by (simp add: evaluate_begin_def)

lemma begin_raises:
  "sv_assess sv a = Raise e \<Longrightarrow> evaluate_begin (sv_assess sv) hash clk fresh a ap = (Crashed e, ap)"
  by (simp add: evaluate_begin_def)

lemma begin_ok:
  assumes "sv_assess sv a = Ret r"
  shows "outcome_ok sv a r ap (evaluate_begin (sv_assess sv) hash clk fresh a ap)"
proof (cases "pd_verdict (policy_evaluate (or_policy (ap_orch ap)) a r)")
  case V_ASK
  with assms show ?thesis by (simp add: begin_unfolds Let_def after_policy_ok asked_def)
qed (use assms in \<open>simp_all add: begin_unfolds outcome_ok_def finish_def Let_def\<close>)

lemma guardian_ok:
  assumes "asked sv (or_policy (ap_orch ap)) a r permanent"
  shows "outcome_ok sv a r ap (guardian_answers hash fmt clk fresh v a r permanent ap)"
  using ask_user_ok[OF assms, of hash clk fresh]
  by (auto simp: guardian_answers_def outcome_ok_def finish_def split: option.splits recommendation.splits)

lemma user_ok: "outcome_ok sv a r ap (user_answers hash clk d a r rq ap)"
  using settle_concludes[of a r "ap_orch ap" hash clk "fst (gate_answer hash (clk 3) rq d (ap_gate ap))"]
  by (auto simp: user_answers_def outcome_ok_def Let_def split: prod.splits)


section \<open>Runs\<close>

definition same_setup :: "orchestrator \<Rightarrow> orchestrator \<Rightarrow> bool" where
  "same_setup o1 o2 \<longleftrightarrow> or_policy o2 = or_policy o1 \<and> or_guardian o2 = or_guardian o1 \<and> or_config o2 = or_config o1"

abbreviation orch :: "approvals \<Rightarrow> orchestrator" where
  "orch st \<equiv> ap_orch (as_core st)"

definition flow_inv :: "services \<Rightarrow> orchestrator \<Rightarrow> approvals \<Rightarrow> bool" where
  "flow_inv sv o1 st \<longleftrightarrow>
     (\<forall>w \<in> snd ` set (as_waiting st). waiting_ok sv o1 w) \<and> same_setup o1 (orch st) \<and>
     (\<forall>res \<in> set (as_results st). sv_assess sv (ar_action res) = Ret (ar_risk res)
        \<and> ar_decision res = (if ar_approved res then ''allow'' else ''deny'')) \<and>
     (\<exists>es. or_audit (orch st) = or_audit o1 @ es \<and> list_all2 entry_matches (as_results st) es)"

lemma waiting_ok_setup: "same_setup o1 o2 \<Longrightarrow> waiting_ok sv o2 w = waiting_ok sv o1 w"
  by (cases w) (auto simp: same_setup_def)

lemma flow_inv_new: "flow_inv sv o1 (new_approvals o1)"
  by (simp add: flow_inv_def new_approvals_def same_setup_def)

text \<open>Every event leaves the results and the audit alone, or absorbs one sound piece.\<close>

lemma step_shape:
  assumes "flow_inv sv o1 st"
  obtains (quiet) "as_results (approval_step sv clk e st) = as_results st"
      "set (as_waiting (approval_step sv clk e st)) \<subseteq> set (as_waiting st)"
      "or_audit (orch (approval_step sv clk e st)) = or_audit (orch st)"
      "same_setup (orch st) (orch (approval_step sv clk e st))"
    | (moves) i a r p where "approval_step sv clk e st = absorb i st p" "sv_assess sv a = Ret r"
      "outcome_ok sv a r (as_core st) p"
proof -
  have unmoved: "same_setup o1 (orch st)" and ws: "\<And>i w. map_of (as_waiting st) i = Some w \<Longrightarrow> waiting_ok sv (orch st) w"
    using assms waiting_ok_setup by (force simp: flow_inv_def dest: map_of_SomeD)+
  have stays: thesis if "approval_step sv clk e st = st"
    by (rule quiet) (simp_all add: that same_setup_def)
  show thesis
  proof (cases e)
    case (Evaluate i a fresh)
    show thesis
    proof (cases "map_of (as_waiting st) i")
      case None
      show thesis
      proof (cases "sv_assess sv a")
        case (Ret r)
        with Evaluate None show thesis by (intro moves[OF _ Ret begin_ok[OF Ret]]) simp
      next
        case (Raise err)
        with Evaluate None show thesis
          by (intro quiet) (auto simp: begin_raises absorb_def same_setup_def dict_pop_def Let_def)
      qed
    qed (use Evaluate stays in simp)
  next
    case (GuardianSays i c fresh)
    show thesis
    proof (cases "\<exists>a r pm. map_of (as_waiting st) i = Some (AskGuardian a r pm)")
      case True
      then obtain a r pm where w: "map_of (as_waiting st) i = Some (AskGuardian a r pm)" by blast
      then have wanted: "asked sv (or_policy (orch st)) a r pm" using ws by force
      then have r: "sv_assess sv a = Ret r" by (simp add: asked_def)
      show thesis by (rule moves[OF _ r guardian_ok[OF wanted]]) (use GuardianSays w in simp)
    qed (use GuardianSays stays in \<open>auto split: option.splits waiting.splits\<close>)
  next
    case (GuardianFails i fresh)
    show thesis
    proof (cases "\<exists>a r pm. map_of (as_waiting st) i = Some (AskGuardian a r pm)")
      case True
      then obtain a r pm where w: "map_of (as_waiting st) i = Some (AskGuardian a r pm)" by blast
      then have wanted: "asked sv (or_policy (orch st)) a r pm" using ws by force
      then have r: "sv_assess sv a = Ret r" by (simp add: asked_def)
      show thesis by (rule moves[OF _ r guardian_ok[OF wanted]]) (use GuardianFails w in simp)
    qed (use GuardianFails stays in \<open>auto split: option.splits waiting.splits\<close>)
  next
    case (UserSays i d)
    show thesis
    proof (cases "\<exists>a r rq. map_of (as_waiting st) i = Some (AskUser a r rq)")
      case True
      then obtain a r rq where w: "map_of (as_waiting st) i = Some (AskUser a r rq)" by blast
      then have r: "sv_assess sv a = Ret r" using ws[OF w] by (auto simp: asked_def)
      show thesis by (rule moves[OF _ r user_ok]) (use UserSays w in simp)
    qed (use UserSays stays in \<open>auto split: option.splits waiting.splits\<close>)
  next
    case (Abandon i)
    then show thesis by (intro quiet) (auto simp: same_setup_def dict_pop_def)
  next
    case TurnReset
    then show thesis by (intro quiet) (auto simp: same_setup_def reset_turn_def)
  next
    case GateReset
    then show thesis by (intro quiet) (auto simp: same_setup_def)
  qed
qed

lemma absorb_inv:
  assumes "flow_inv sv o1 st" "sv_assess sv a = Ret r" "outcome_ok sv a r (as_core st) p"
  shows "flow_inv sv o1 (absorb i st p)"
proof (cases "fst p")
  case (Done res)
  have sub: "set (dict_pop i (as_waiting st)) \<subseteq> set (as_waiting st)" by (auto simp: dict_pop_def)
  from Done assms(3) have c: "concludes a r (orch st) (res, ap_orch (snd p))" by (simp add: outcome_ok_def)
  then obtain e where e: "or_audit (ap_orch (snd p)) = or_audit (orch st) @ [e]" "entry_matches res e"
    by (auto simp: concludes_def)
  obtain es where es: "or_audit (orch st) = or_audit o1 @ es" "list_all2 entry_matches (as_results st) es"
    using assms(1) by (auto simp: flow_inv_def)
  have "list_all2 entry_matches (as_results st @ [res]) (es @ [e])" using es(2) e(2) by (simp add: list_all2_appendI)
  then show ?thesis using Done c e es assms(1,2) sub
    by (auto simp: flow_inv_def absorb_def concludes_def same_setup_def Let_def image_iff subset_iff)
next
  case (Waits w)
  have sub: "set (dict_pop i (as_waiting st)) \<subseteq> set (as_waiting st)" by (auto simp: dict_pop_def)
  have "waiting_ok sv o1 w" using Waits assms waiting_ok_setup by (auto simp: outcome_ok_def flow_inv_def)
  then show ?thesis using Waits assms(1,3) sub
    by (auto simp: flow_inv_def absorb_def outcome_ok_def same_setup_def Let_def image_iff subset_iff)
next
  case (Crashed e)
  then show ?thesis using assms by (simp add: outcome_ok_def)
qed

lemma flow_inv_step:
  assumes "flow_inv sv o1 st"
  shows "flow_inv sv o1 (approval_step sv clk e st)"
  using assms
proof (cases rule: step_shape[of sv o1 st clk e])
  case quiet
  then show ?thesis using assms by (auto simp: flow_inv_def same_setup_def image_iff subset_iff)
next
  case (moves i a r p)
  then show ?thesis using absorb_inv[OF assms] by simp
qed

lemma flow_inv_run: "flow_inv sv o1 st \<Longrightarrow> flow_inv sv o1 (approval_run sv es st)"
  by (induction es arbitrary: st) (auto simp: approval_run_def flow_inv_step)


section \<open>The audit\<close>

text \<open>
  C26. Whatever the order of events, the audit log is what it was before with one entry per result
  after it, in the order of the results, each naming the action, decision, scope, level and reason of
  its result; a result claims the user's consent exactly when it is an approval its entry ascribes to
  the user, and every result carries the classifier's assessment of its action.
\<close>

theorem audit_complete:
  "\<exists>es. or_audit (orch (approval_run sv evs (new_approvals o1))) = or_audit o1 @ es
        \<and> list_all2 entry_matches (as_results (approval_run sv evs (new_approvals o1))) es
        \<and> (\<forall>res \<in> set (as_results (approval_run sv evs (new_approvals o1))).
              sv_assess sv (ar_action res) = Ret (ar_risk res))"
  using flow_inv_run[OF flow_inv_new, of sv o1 evs] by (auto simp: flow_inv_def)

section \<open>Causes\<close>

text \<open>
  The user's consents that a prompt offers. An answer that was not offered (a cancelled workflow, the
  bare \<open>allow\<close>, a permanent grant where none is offered) is replaced by the prompt's default, which is
  \<open>allow_once\<close> unless the risk is high or critical: an approval without a consent.
\<close>

definition consents :: "bool \<Rightarrow> approval_decision \<Rightarrow> bool" where
  "consents permanent d \<longleftrightarrow> d \<in> {D_ONCE, D_SESSION, D_ALL_SESSION} \<or> d = D_ALWAYS \<and> permanent"

definition defaulted_to_allow :: "bool \<Rightarrow> risk \<Rightarrow> approval_decision \<Rightarrow> bool" where
  "defaulted_to_allow permanent r d \<longleftrightarrow>
     (d \<in> {D_ALLOW, D_CANCEL} \<or> d = D_ALWAYS \<and> \<not> permanent) \<and> rk_level r \<notin> {RL_HIGH, RL_CRITICAL}"

lemma gate_answer_allows:
  "is_allowing (fst (gate_answer hash ts (approval_request_for fresh a r permanent) d g))
     \<longleftrightarrow> consents permanent d \<or> defaulted_to_allow permanent r d"
  by (cases d; cases permanent; cases "rk_level r")
    (simp_all add: gate_answer_def approval_request_for_def approval_choices_def consents_def defaulted_to_allow_def is_allowing_def
      decision_of_def all_decisions_def Let_def)

text \<open>A suspended evaluation began while the breaker was not tripped.\<close>

fun waits_on :: "waiting \<Rightarrow> action" where
  "waits_on (AskGuardian a r permanent) = a"
| "waits_on (AskUser a r rq) = a"

definition began_unbroken ::
  "services \<Rightarrow> ((nat \<Rightarrow> real) \<times> approval_event) list \<Rightarrow> orchestrator \<Rightarrow> nat \<Rightarrow> action \<Rightarrow> bool" where
  "began_unbroken sv evs o1 i a \<longleftrightarrow>
     (\<exists>before clk fresh after. evs = before @ (clk, Evaluate i a fresh) # after
        \<and> map_of (as_waiting (approval_run sv before (new_approvals o1))) i = None
        \<and> \<not> br_tripped (or_breaker (orch (approval_run sv before (new_approvals o1)))))"

lemma ask_user_waits: "fst (ask_user hash clk fresh a r permanent ap) = Waits w \<Longrightarrow> waits_on w = a"
  by (auto simp: ask_user_def Let_def split: prod.splits option.splits)

lemma begin_waits:
  "fst (evaluate_begin assess hash clk fresh a ap) = Waits w \<Longrightarrow> waits_on w = a \<and> \<not> br_tripped (or_breaker (ap_orch ap))"
  by (auto simp: evaluate_begin_def after_policy_def finish_def Let_def
    split: outcome.splits policy_verdict.splits if_splits prod.splits option.splits dest: ask_user_waits)

lemma guardian_waits: "fst (guardian_answers hash fmt clk fresh v a r permanent ap) = Waits w \<Longrightarrow> waits_on w = a"
  by (auto simp: guardian_answers_def finish_def split: option.splits recommendation.splits dest: ask_user_waits)

lemma user_ends: "fst (user_answers hash clk d a r rq ap) \<noteq> Waits w"
  by (auto simp: user_answers_def Let_def split: prod.splits)

lemma absorb_waiting:
  "(j, w) \<in> set (as_waiting (absorb i st p)) \<Longrightarrow> (j, w) \<in> set (as_waiting st) \<or> j = i \<and> fst p = Waits w"
  by (auto simp: absorb_def dict_pop_def Let_def split: step_result.splits)

lemma step_waiting:
  assumes "(j, w) \<in> set (as_waiting (approval_step sv clk e st))"
  shows "(\<exists>w0. (j, w0) \<in> set (as_waiting st) \<and> waits_on w0 = waits_on w)
     \<or> (\<exists>fresh. e = Evaluate j (waits_on w) fresh \<and> map_of (as_waiting st) j = None \<and> \<not> br_tripped (or_breaker (orch st)))"
proof -
  have stays: ?thesis if "(j, w) \<in> set (as_waiting st)" using that by blast
  have resumed: ?thesis if "(j, w) \<in> set (as_waiting (absorb i st p))" "map_of (as_waiting st) i = Some w0"
    "\<And>w. fst p = Waits w \<Longrightarrow> waits_on w = waits_on w0" for i p w0
    using absorb_waiting [OF that(1)] map_of_SomeD [OF that(2)] that(3) stays by metis
  show ?thesis
  proof (cases e)
    case (Evaluate i a fresh)
    show ?thesis
    proof (cases "map_of (as_waiting st) i")
      case None
      then have "(j, w) \<in> set (as_waiting (absorb i st (evaluate_begin (sv_assess sv) (sv_hash sv) clk fresh a (as_core st))))"
        using assms Evaluate by simp
      from absorb_waiting [OF this] show ?thesis using None Evaluate begin_waits stays by metis
    qed (use assms Evaluate stays in simp)
  next
    case (GuardianSays i c fresh)
    show ?thesis
    proof (cases "\<exists>a r pm. map_of (as_waiting st) i = Some (AskGuardian a r pm)")
      case True
      then obtain a r pm where g: "map_of (as_waiting st) i = Some (AskGuardian a r pm)" by blast
      show ?thesis by (rule resumed [OF _ g]) (use assms GuardianSays g guardian_waits in auto)
    qed (use assms GuardianSays stays in \<open>auto split: option.splits waiting.splits\<close>)
  next
    case (GuardianFails i fresh)
    show ?thesis
    proof (cases "\<exists>a r pm. map_of (as_waiting st) i = Some (AskGuardian a r pm)")
      case True
      then obtain a r pm where g: "map_of (as_waiting st) i = Some (AskGuardian a r pm)" by blast
      show ?thesis by (rule resumed [OF _ g]) (use assms GuardianFails g guardian_waits in auto)
    qed (use assms GuardianFails stays in \<open>auto split: option.splits waiting.splits\<close>)
  next
    case (UserSays i d)
    show ?thesis
    proof (cases "\<exists>a r rq. map_of (as_waiting st) i = Some (AskUser a r rq)")
      case True
      then obtain a r rq where g: "map_of (as_waiting st) i = Some (AskUser a r rq)" by blast
      show ?thesis by (rule resumed [OF _ g]) (use assms UserSays g user_ends in auto)
    qed (use assms UserSays stays in \<open>auto split: option.splits waiting.splits\<close>)
  qed (use assms stays in \<open>auto simp: dict_pop_def\<close>)
qed

lemma waiting_began:
  "(i, w) \<in> set (as_waiting (approval_run sv evs (new_approvals o1))) \<Longrightarrow> began_unbroken sv evs o1 i (waits_on w)"
proof (induction evs arbitrary: w rule: rev_induct)
  case (snoc ev evs)
  obtain clk e where ev: "ev = (clk, e)" by fastforce
  have more: "began_unbroken sv (evs @ [ev]) o1 i a" if "began_unbroken sv evs o1 i a" for a
    using that unfolding began_unbroken_def by fastforce
  from snoc.prems have "(i, w) \<in> set (as_waiting (approval_step sv clk e (approval_run sv evs (new_approvals o1))))"
    by (simp add: approval_run_def ev)
  from step_waiting [OF this] show ?case
  proof (elim disjE exE conjE)
    fix w0 assume "(i, w0) \<in> set (as_waiting (approval_run sv evs (new_approvals o1)))" "waits_on w0 = waits_on w"
    then show ?thesis using snoc.IH more by metis
  next
    fix fresh assume "e = Evaluate i (waits_on w) fresh" "map_of (as_waiting (approval_run sv evs (new_approvals o1))) i = None"
      "\<not> br_tripped (or_breaker (orch (approval_run sv evs (new_approvals o1))))"
    then show ?thesis unfolding began_unbroken_def ev by blast
  qed
qed (simp add: approval_run_def new_approvals_def)

lemma lookup_grants_found:
  "lookup_grants hash clk i a scs gs = (Some g, gs') \<Longrightarrow>
   \<exists>sc \<in> set scs. \<exists>j. map_of (gs_grants gs) (grant_key hash a sc) = Some g \<and> \<not> grant_expired (clk j) g"
proof (induction scs arbitrary: i gs)
  case (Cons sc scs)
  show ?case
  proof (cases "grant_get (clk i) (grant_key hash a sc) gs")
    case (Pair og gs1)
    show ?thesis
    proof (cases og)
      case None
      with Cons.prems Pair have "lookup_grants hash clk (Suc i) a scs gs1 = (Some g, gs')" by simp
      from Cons.IH[OF this] obtain sc' j where *: "sc' \<in> set scs" "map_of (gs_grants gs1) (grant_key hash a sc') = Some g"
        "\<not> grant_expired (clk j) g" by blast
      have "map_of (gs_grants gs) k = Some g" if "map_of (gs_grants gs1) k = Some g" for k
        using that Pair None by (auto simp: grant_get_def map_of_dict_pop split: option.splits if_splits)
      with * show ?thesis by auto
    next
      case (Some g1)
      with Cons.prems Pair show ?thesis by (auto simp: grant_get_def split: option.splits if_splits)
    qed
  qed
qed simp

definition remembered_consent :: "(pyval \<Rightarrow> string) \<Rightarrow> action \<Rightarrow> session_gate \<Rightarrow> bool" where
  "remembered_consent hash a g \<longleftrightarrow> sg_bypass g \<or> ac_kind a @ '':'' @ signature hash a \<in> set (sg_approved g)"

definition stored_consent :: "(pyval \<Rightarrow> string) \<Rightarrow> (nat \<Rightarrow> real) \<Rightarrow> action \<Rightarrow> grant_store \<Rightarrow> bool" where
  "stored_consent hash clk a gs \<longleftrightarrow>
     (\<exists>sc \<in> {''turn'', ''session'', ''profile''}. \<exists>g j. map_of (gs_grants gs) (grant_key hash a sc) = Some g
        \<and> \<not> grant_expired (clk j) g \<and> \<not> py_prefix ''deny'' (gr_decision g))"

definition approval_cause ::
  "services \<Rightarrow> ((nat \<Rightarrow> real) \<times> approval_event) list \<Rightarrow> orchestrator \<Rightarrow> (nat \<Rightarrow> real) \<Rightarrow> approval_event \<Rightarrow> action \<Rightarrow> risk \<Rightarrow> bool" where
  "approval_cause sv evs o1 clk e a r \<longleftrightarrow>
     (let ap = as_core (approval_run sv evs (new_approvals o1)); d = policy_evaluate (or_policy o1) a r;
          memory = remembered_consent (sv_hash sv) a (ap_gate ap) in
      rk_level r \<noteq> RL_CRITICAL \<and> \<not> rk_hardline r \<and>
      (case e of
         Evaluate i b fresh \<Rightarrow>
           b = a \<and> (pd_verdict d = V_ALLOW
             \<or> pd_verdict d = V_ASK \<and> \<not> br_tripped (or_breaker (ap_orch ap))
               \<and> (memory \<or> stored_consent (sv_hash sv) clk a (or_grants (ap_orch ap))))
       | GuardianSays i c fresh \<Rightarrow>
           pd_verdict d = V_ASK \<and> began_unbroken sv evs o1 i a
           \<and> (memory \<or> (\<exists>x. c = Scored x \<and> x \<le> gc_approve (sv_adapter sv)))
       | GuardianFails i fresh \<Rightarrow> pd_verdict d = V_ASK \<and> began_unbroken sv evs o1 i a \<and> memory
       | UserSays i answer \<Rightarrow>
           pd_verdict d = V_ASK \<and> began_unbroken sv evs o1 i a
           \<and> (consents (pd_permanent d) answer \<or> defaulted_to_allow (pd_permanent d) r answer)
       | _ \<Rightarrow> False))"

lemma not_denied:
  "pd_verdict (policy_evaluate po a r) \<noteq> V_DENY \<Longrightarrow> rk_level r \<noteq> RL_CRITICAL \<and> \<not> rk_hardline r"
  by (auto simp: policy_evaluate_def split: if_splits)

lemma finish_fst [simp]: "fst (finish ap p) = Done (fst p)"
  by (simp add: finish_def)

lemma ask_user_approves:
  assumes "fst (ask_user hash clk fresh a r permanent ap) = Done res" "ar_approved res"
  shows "remembered_consent hash a (ap_gate ap)"
  using assms by (auto simp: ask_user_def gate_ask_def remembered_consent_def request_grant_key_def
      approval_request_for_def Let_def split: if_splits prod.splits)

lemma conclude_approved [simp]:
  "ar_approved (fst (approved ts a r actor scope reason o1))" "\<not> ar_approved (fst (refused ts a r actor scope reason o1))"
  "ar_approved (fst (conclude ok ts a r actor scope reason o1)) = ok"
  by (simp_all add: conclude_defs Let_def)

lemma after_policy_approves:
  assumes "fst (after_policy hash clk fresh a r permanent ap) = Done res" "ar_approved res"
  shows "\<not> br_tripped (or_breaker (ap_orch ap))
    \<and> (remembered_consent hash a (ap_gate ap) \<or> stored_consent hash clk a (or_grants (ap_orch ap)))"
proof -
  have nt: "\<not> br_tripped (or_breaker (ap_orch ap))"
    using assms by (auto simp: after_policy_def Let_def)
  obtain og gs where eg: "existing_grant hash clk a (or_grants (ap_orch ap)) = (og, gs)" by fastforce
  show ?thesis
  proof (cases og)
    case None
    then show ?thesis using assms nt eg
      by (auto simp: after_policy_def Let_def split: if_splits dest: ask_user_approves)
  next
    case (Some g)
    then have "\<not> py_prefix ''deny'' (gr_decision g)"
      using assms nt eg by (auto simp: after_policy_def Let_def split: if_splits)
    with lookup_grants_found[OF eg[unfolded existing_grant_def Some]] nt show ?thesis
      unfolding stored_consent_def by fastforce
  qed
qed

lemma absorbed_result:
  assumes "as_results (absorb i st p) = as_results st @ [res]"
  shows "fst p = Done res"
  using assms by (auto simp: absorb_def Let_def split: step_result.splits)

lemma guardian_approves:
  assumes "fst (guardian_answers hash fmt clk fresh (Some (fst (guardian_evaluate fmt cfg c))) a r permanent ap) = Done res"
    "ar_approved res"
  shows "remembered_consent hash a (ap_gate ap) \<or> (\<exists>x. c = Scored x \<and> x \<le> gc_approve cfg)"
  using assms
  by (cases c) (auto simp: guardian_answers_def guardian_evaluate_def map_score_def split: if_splits dest: ask_user_approves)

lemma begin_approves:
  assumes "fst (evaluate_begin assess hash clk fresh a ap) = Done res" "ar_approved res" "assess a = Ret r"
  shows "pd_verdict (policy_evaluate (or_policy (ap_orch ap)) a r) = V_ALLOW
    \<or> pd_verdict (policy_evaluate (or_policy (ap_orch ap)) a r) = V_ASK \<and> \<not> br_tripped (or_breaker (ap_orch ap))
      \<and> (remembered_consent hash a (ap_gate ap) \<or> stored_consent hash clk a (or_grants (ap_orch ap)))"
  using assms
  by (auto simp: evaluate_begin_def Let_def split: policy_verdict.splits dest: after_policy_approves)

lemma user_approves:
  assumes "fst (user_answers hash clk d a r (approval_request_for fresh a r permanent) ap) = Done res" "ar_approved res"
  shows "consents permanent d \<or> defaulted_to_allow permanent r d"
proof -
  obtain d' g where ga: "gate_answer hash (clk 3) (approval_request_for fresh a r permanent) d (ap_gate ap) = (d', g)"
    by fastforce
  have "res = fst (settle hash clk a r d' (ap_orch ap))"
    using assms(1) by (auto simp: user_answers_def ga Let_def split: prod.splits)
  then have "is_allowing d'" using assms(2) by simp
  then show ?thesis using gate_answer_allows[of hash "clk 3" fresh a r permanent d "ap_gate ap"] ga by simp
qed

lemma piece_result:
  assumes "outcome_ok sv a r ap p" "fst p = Done res"
  shows "ar_action res = a" "ar_risk res = r"
  using assms by (simp_all add: outcome_ok_def concludes_def)

lemma cause_of_approval:
  assumes step: "as_results (approval_step sv clk e (approval_run sv evs (new_approvals o1)))
      = as_results (approval_run sv evs (new_approvals o1)) @ [res]"
    and ok: "ar_approved res"
  shows "approval_cause sv evs o1 clk e (ar_action res) (ar_risk res)"
proof -
  define st where "st = approval_run sv evs (new_approvals o1)"
  have inv: "flow_inv sv o1 st" unfolding st_def by (rule flow_inv_run[OF flow_inv_new])
  have ws: "waiting_ok sv (orch st) w" if "map_of (as_waiting st) i = Some w" for i w
    using inv waiting_ok_setup map_of_SomeD[OF that] by (force simp: flow_inv_def)
  note step = step[folded st_def]
  have asked_ok: "rk_level r \<noteq> RL_CRITICAL \<and> \<not> rk_hardline r" if "asked sv (or_policy (orch st)) a r pm" for a r pm
    using that not_denied[of "or_policy (orch st)" a r] by (auto simp: asked_def)
  have po: "or_policy (orch st) = or_policy o1" using inv by (simp add: flow_inv_def same_setup_def)
  have began: "began_unbroken sv evs o1 i (waits_on w)" if "map_of (as_waiting st) i = Some w" for i w
    using waiting_began map_of_SomeD [OF that] unfolding st_def by blast
  note cause = approval_cause_def st_def [symmetric] asked_def Let_def po
  show ?thesis
  proof (cases e)
    case (Evaluate i a fresh)
    let ?p = "evaluate_begin (sv_assess sv) (sv_hash sv) clk fresh a (as_core st)"
    have free: "map_of (as_waiting st) i = None" using step Evaluate by (auto split: if_splits)
    then have ended: "fst ?p = Done res" using step Evaluate absorbed_result by simp
    then obtain r where r: "sv_assess sv a = Ret r" by (cases "sv_assess sv a") (auto simp: begin_raises)
    note pr = piece_result[OF begin_ok[OF r] ended]
    note ba = begin_approves[OF ended ok r]
    from ba have "pd_verdict (policy_evaluate (or_policy (orch st)) a r) \<noteq> V_DENY" by auto
    from not_denied[OF this] ba show ?thesis using Evaluate pr by (simp add: cause)
  next
    case (GuardianSays i c fresh)
    from step GuardianSays obtain a r pm where w: "map_of (as_waiting st) i = Some (AskGuardian a r pm)"
      by (auto split: option.splits waiting.splits)
    have wanted: "asked sv (or_policy (orch st)) a r pm" using ws[OF w] by simp
    let ?p = "guardian_answers (sv_hash sv) (sv_fmt sv) clk fresh
      (Some (fst (guardian_evaluate (sv_fmt sv) (sv_adapter sv) c))) a r pm (as_core st)"
    have ended: "fst ?p = Done res" using step GuardianSays w absorbed_result by simp
    show ?thesis using GuardianSays began[OF w] guardian_approves[OF ended ok] asked_ok[OF wanted] wanted
        piece_result[OF guardian_ok[OF wanted] ended] by (auto simp: cause)
  next
    case (GuardianFails i fresh)
    from step GuardianFails obtain a r pm where w: "map_of (as_waiting st) i = Some (AskGuardian a r pm)"
      by (auto split: option.splits waiting.splits)
    have wanted: "asked sv (or_policy (orch st)) a r pm" using ws[OF w] by simp
    let ?p = "guardian_answers (sv_hash sv) (sv_fmt sv) clk fresh None a r pm (as_core st)"
    have ended: "fst ?p = Done res" using step GuardianFails w absorbed_result by simp
    then have "remembered_consent (sv_hash sv) a (ap_gate (as_core st))"
      using ask_user_approves ok by (simp add: guardian_answers_def)
    then show ?thesis using GuardianFails began[OF w] asked_ok[OF wanted] wanted
        piece_result[OF guardian_ok[OF wanted] ended] by (simp add: cause)
  next
    case (UserSays i d)
    from step UserSays obtain a r rq where w: "map_of (as_waiting st) i = Some (AskUser a r rq)"
      by (auto split: option.splits waiting.splits)
    then obtain fr pm where wanted: "asked sv (or_policy (orch st)) a r pm" and rq: "rq = approval_request_for fr a r pm"
      using ws[OF w] by auto
    have ended: "fst (user_answers (sv_hash sv) clk d a r rq (as_core st)) = Done res"
      using step UserSays w absorbed_result by simp
    show ?thesis using UserSays began[OF w] user_approves[OF ended[unfolded rq] ok] asked_ok[OF wanted] wanted
        piece_result[OF user_ok ended] by (simp add: cause)
  qed (use step in simp_all)
qed

text \<open>
  C4. In any run, an action is approved only for a cause. It is not hardline or critical, and either the
  policy allows it, or the policy wants it asked about, the breaker was not tripped when its evaluation
  began, and one of four things holds: a live stored grant covers it when the evaluation begins; the
  session's memory covers it when the gate is asked, at the beginning or after the guardian answered or
  failed; the guardian's model scored it no higher than the threshold; or the user answered the prompt.
  An answer that approves is a consent the prompt offered, or, when the risk is neither high nor
  critical, an answer it did not offer, which the code replaces by the default \<open>allow_once\<close>: a cancelled
  workflow is then approved without a consent, and its result claims the user's consent all the same
  (lemma \<open>cancel_approves\<close>), though the comment in the code says that it fails closed. The breaker is read
  at the beginning only: an evaluation that waits is not stopped by a breaker that trips meanwhile.
\<close>

theorem approval_has_cause:
  assumes step: "as_results (approval_step sv clk e (approval_run sv evs (new_approvals o1)))
      = as_results (approval_run sv evs (new_approvals o1)) @ [res]"
    and ok: "ar_approved res"
  shows "approval_cause sv evs o1 clk e (ar_action res) (ar_risk res)"
  using step ok by (rule cause_of_approval)

text \<open>
  C5. An action assessed as hardline or critical is refused at once and without a prompt, whatever
  the configuration, the grants, the session's memory and the state of the breaker: its evaluation adds
  one refusal with the hardline message and leaves the suspended evaluations and the gate alone.
\<close>

theorem hardline_refused:
  assumes "sv_assess sv a = Ret r" "rk_hardline r \<or> rk_level r = RL_CRITICAL" "i \<notin> fst ` set (as_waiting st)"
  shows "\<exists>res. as_results (approval_step sv clk (Evaluate i a fresh) st) = as_results st @ [res] \<and> \<not> ar_approved res
      \<and> py_prefix ''BLOCKED: This action is prohibited by LeapFlow'' (denial_message res)
      \<and> as_waiting (approval_step sv clk (Evaluate i a fresh) st) = as_waiting st
      \<and> ap_gate (as_core (approval_step sv clk (Evaluate i a fresh) st)) = ap_gate (as_core st)"
proof -
  have v: "pd_verdict (policy_evaluate (or_policy (orch st)) a r) = V_DENY"
    using assms(2) by (auto simp: policy_evaluate_def)
  have n: "map_of (as_waiting st) i = None" using assms(3) by (simp add: map_of_eq_None_iff)
  have "dict_pop i (as_waiting st) = as_waiting st" using assms(3) by (force simp: dict_pop_def filter_id_conv)
  then show ?thesis using assms(2) n v
    by (auto simp: begin_unfolds[OF assms(1)] absorb_def finish_def Let_def conclude_defs denial_message_def)
qed


section \<open>Examples\<close>

text \<open>A risk the policy asks about, an action that has it, and runs of the orchestrator the program builds.\<close>

definition flat_hash :: "pyval \<Rightarrow> string" where
  "flat_hash v =
     (case v of PDict d \<Rightarrow> py_join ''/'' (map (\<lambda>(k, w). case w of PStr s \<Rightarrow> filter (\<lambda>c. c \<noteq> CHR '':'') s | _ \<Rightarrow> []) d) | _ \<Rightarrow> [])"

definition demo_services :: "risk \<Rightarrow> services" where
  "demo_services r =
     \<lparr>sv_assess = (\<lambda>_. Ret r), sv_hash = flat_hash, sv_fmt = (\<lambda>_. []), sv_adapter = default_guardian_config\<rparr>"

definition demo_medium :: risk where
  "demo_medium = plain_risk RL_MEDIUM 0.58 [''external_network_access''] []"

definition demo_high :: risk where
  "demo_high = guarded_risk RL_HIGH 0.72 [''external_message_send''] []"

definition demo_orchestrator :: orchestrator where
  "demo_orchestrator = new_orchestrator \<lparr>po_rules = [], po_bypass = False\<rparr> memory_store [] None None"

definition demo_action :: "string \<Rightarrow> action" where
  "demo_action command = shell_action ''a1'' command [] ''agent_tool'' []"

definition demo_run :: "risk \<Rightarrow> approval_event list \<Rightarrow> approvals" where
  "demo_run r evs = approval_run (demo_services r) (map (\<lambda>e. (\<lambda>_. 1, e)) evs) (new_approvals demo_orchestrator)"

lemmas demo_defs = demo_run_def demo_services_def demo_medium_def demo_high_def demo_orchestrator_def demo_action_def
  approval_run_def new_approvals_def new_orchestrator_def memory_store_def default_guardian_config_def new_breaker_def
  evaluate_begin_def policy_evaluate_def after_policy_def existing_grant_def grant_get_def finish_def ask_user_def
  gate_ask_def new_gate_def absorb_def user_answers_def gate_answer_def approval_request_for_def approval_choices_def
  settle_def conclude_defs record_denial_def record_approval_def plain_risk_def guarded_risk_def decision_of_def
  all_decisions_def is_allowing_def log_decision_def request_grant_key_def dict_pop_def

text \<open>Cancelling the workflow at a prompt of medium risk is taken as the user's consent.\<close>

lemma cancel_approves:
  "map (\<lambda>res. (ar_approved res, ar_consent res, ar_reason res))
     (as_results (demo_run demo_medium [Evaluate 0 (demo_action ''curl x'') ''r1'', UserSays 0 D_CANCEL]))
   = [(True, True, ''allow_once'')]"
  by (simp add: demo_defs Let_def map_filter_simps)

theorem approval_has_cause_witness:
  "approval_cause (demo_services demo_high) [(\<lambda>_. 1, Evaluate 0 (demo_action ''send'') ''r1'')] demo_orchestrator
     (\<lambda>_. 1) (UserSays 0 D_ONCE) (demo_action ''send'') demo_high"
proof -
  let ?sv = "demo_services demo_high"
  let ?evs = "[(\<lambda>_. 1, Evaluate 0 (demo_action ''send'') ''r1'')]"
  let ?st = "approval_run ?sv ?evs (new_approvals demo_orchestrator)"
  let ?res = "\<lparr>ar_approved = True, ar_decision = ''allow'', ar_action = demo_action ''send'', ar_risk = demo_high,
                ar_scope = ''once'', ar_reason = ''allow_once'', ar_consent = True\<rparr>"
  have "as_results (approval_step ?sv (\<lambda>_. 1) (UserSays 0 D_ONCE) ?st) = as_results ?st @ [?res]"
    by (simp add: demo_defs scope_from_decision_def Let_def map_filter_simps)
  from approval_has_cause[OF this] show ?thesis by simp
qed

theorem hardline_refused_witness:
  "\<exists>res. as_results (approval_step (demo_services (hardline_risk 1 [''format_filesystem''] [])) (\<lambda>_. 1)
            (Evaluate 0 (demo_action ''mkfs'') ''r1'') (new_approvals demo_orchestrator)) = [res] \<and> \<not> ar_approved res"
proof -
  have "sv_assess (demo_services (hardline_risk 1 [''format_filesystem''] [])) (demo_action ''mkfs'')
      = Ret (hardline_risk 1 [''format_filesystem''] [])" by (simp add: demo_services_def)
  from hardline_refused[OF this, of 0 "new_approvals demo_orchestrator" "\<lambda>_. 1" "''r1''"] show ?thesis
    by (auto simp: hardline_risk_def new_approvals_def)
qed

theorem audit_complete_witness:
  "\<exists>e. or_audit (orch (demo_run demo_high [Evaluate 0 (demo_action ''send'') ''r1'', UserSays 0 D_ONCE])) = [e]
     \<and> au_actor e = ''user'' \<and> au_decision e = ''allow''"
proof -
  let ?evs = "map (\<lambda>e. (\<lambda>_ :: nat. 1 :: real, e)) [Evaluate 0 (demo_action ''send'') ''r1'', UserSays 0 D_ONCE]"
  let ?st = "approval_run (demo_services demo_high) ?evs (new_approvals demo_orchestrator)"
  have r: "map (\<lambda>res. (ar_decision res, ar_consent res)) (as_results ?st) = [(''allow'', True)]"
    by (simp add: demo_defs scope_from_decision_def Let_def map_filter_simps)
  have no: "or_audit demo_orchestrator = []" by (simp add: demo_orchestrator_def new_orchestrator_def)
  from audit_complete[of "demo_services demo_high" ?evs demo_orchestrator] r no obtain res es where
    "as_results ?st = [res]" "or_audit (orch ?st) = es" "list_all2 entry_matches [res] es"
    by (auto simp: map_eq_Cons_conv)
  then show ?thesis using r
    by (auto simp: demo_run_def list_all2_Cons1 entry_matches_def entry_view_def res_entry_def)
qed

end
