(* ===== verification/Approval_Consent_Props.thy ===== *)
theory Approval_Consent_Props imports Approval_Flow_Props begin

text \<open>
  What a remembered consent covers. A grant's key determines the scope, the session and the signed
  parts of the action when the digest has no collision; and every consent that is reused was given
  earlier in the run for an action with the same signed parts. The last section runs the orchestrator
  into the cases where this is not what its texts promise.
\<close>

section \<open>Keys\<close>

definition digest_ok :: "(pyval \<Rightarrow> string) \<Rightarrow> action \<Rightarrow> bool" where
  "digest_ok hash a \<longleftrightarrow> signature hash a \<noteq> [] \<and> CHR '':'' \<notin> set (signature hash a)"

definition collision_free :: "(pyval \<Rightarrow> string) \<Rightarrow> action \<Rightarrow> action \<Rightarrow> bool" where
  "collision_free hash a b \<longleftrightarrow> (signature hash a = signature hash b \<longrightarrow> signature_payload a = signature_payload b)"

abbreviation after_colon :: "string \<Rightarrow> string" where
  "after_colon p \<equiv> (if p = [] then [] else CHR '':'' # p)"

lemma join_more: "xs \<noteq> [] \<Longrightarrow> py_join '':'' (xs @ filter (\<lambda>p. p \<noteq> []) [p]) = py_join '':'' xs @ after_colon p"
  by (induction xs rule: induct_list012) (auto simp: neq_Nil_conv)

lemma grant_key_form:
  assumes "sc \<noteq> []"
  shows "grant_key hash a sc =
    sc @ after_colon (if sc \<in> {''session'', ''turn''} then ac_session a else [])
       @ after_colon (if sc = ''turn'' then ac_turn a else [])
       @ after_colon (ac_kind a) @ after_colon (ac_effect a) @ after_colon (signature hash a)"
proof -
  have split: "filter (\<lambda>p. p \<noteq> []) [p, q, r, s, t, u] =
      ((((filter (\<lambda>p. p \<noteq> []) [p] @ filter (\<lambda>p. p \<noteq> []) [q]) @ filter (\<lambda>p. p \<noteq> []) [r]) @ filter (\<lambda>p. p \<noteq> []) [s])
       @ filter (\<lambda>p. p \<noteq> []) [t]) @ filter (\<lambda>p. p \<noteq> []) [u]" for p q r s t u :: string by simp
  have one: "filter (\<lambda>p. p \<noteq> []) [sc] = [sc]" "py_join '':'' [sc] = sc" using assms by simp_all
  show ?thesis unfolding grant_key_def Let_def split one(1)
    by (subst join_more, simp)+ simp
qed

lemma colon_cancel:
  assumes "u @ CHR '':'' # s = v @ CHR '':'' # t" "CHR '':'' \<notin> set s" "CHR '':'' \<notin> set t"
  shows "u = v \<and> s = t"
proof -
  have "takeWhile (\<lambda>c. c \<noteq> CHR '':'') (rev (w @ CHR '':'' # x)) = rev x" if "CHR '':'' \<notin> set x" for w x
    using that by (auto simp: takeWhile_append2 takeWhile_tail)
  from this[OF assms(2), of u] this[OF assms(3), of v] have "s = t" unfolding assms(1) by simp
  with assms(1) show ?thesis by simp
qed

lemma same_payload_fields:
  assumes "signature_payload a = signature_payload b"
  shows "ac_kind a = ac_kind b" "ac_effect a = ac_effect b" "ac_origin a = ac_origin b"
    "normalize_resource (ac_resource a) = normalize_resource (ac_resource b)"
  using assms by (auto simp: signature_payload_def)

text \<open>
  C36. Two actions have the same key at the scopes users grant exactly when the scopes agree, the signed
  parts of the actions agree (kind, effect, normalised resource, normalised detail, origin), and, for
  the scope of a session, the sessions agree; the digest is assumed not to collide on the two.
\<close>

theorem grant_key_exact:
  assumes "digest_ok hash a" "digest_ok hash b" "collision_free hash a b"
    and "sc \<in> {''session'', ''profile''}" "sc' \<in> {''session'', ''profile''}"
  shows "grant_key hash a sc = grant_key hash b sc' \<longleftrightarrow>
    sc = sc' \<and> signature_payload a = signature_payload b \<and> (sc = ''session'' \<longrightarrow> ac_session a = ac_session b)"
proof
  assume eq: "grant_key hash a sc = grant_key hash b sc'"
  have ne: "sc \<noteq> []" "sc' \<noteq> []" "signature hash a \<noteq> []" "signature hash b \<noteq> []"
    using assms by (auto simp: digest_ok_def)
  let ?p = "\<lambda>a sc. sc @ after_colon (if sc = ''session'' then ac_session a else []) @ after_colon (ac_kind a) @ after_colon (ac_effect a)"
  have form: "grant_key hash x s = ?p x s @ CHR '':'' # signature hash x"
    if "s \<in> {''session'', ''profile''}" "signature hash x \<noteq> []" for x s
    using that grant_key_form[of s hash x] by auto
  have "?p a sc = ?p b sc' \<and> signature hash a = signature hash b"
    by (rule colon_cancel) (use eq form assms ne in \<open>simp_all add: digest_ok_def del: append_assoc\<close>)
  then have p: "?p a sc = ?p b sc'" and payload: "signature_payload a = signature_payload b"
    using assms(3) by (auto simp: collision_free_def)
  have "sc @ after_colon (if sc = ''session'' then ac_session a else [])
      = sc' @ after_colon (if sc' = ''session'' then ac_session b else [])"
    using p unfolding same_payload_fields(1,2)[OF payload] by (simp only: append_same_eq append_assoc[symmetric])
  then show "sc = sc' \<and> signature_payload a = signature_payload b \<and> (sc = ''session'' \<longrightarrow> ac_session a = ac_session b)"
    using payload assms(4,5) by (auto split: if_splits)
next
  assume *: "sc = sc' \<and> signature_payload a = signature_payload b \<and> (sc = ''session'' \<longrightarrow> ac_session a = ac_session b)"
  then have payload: "signature_payload a = signature_payload b" and scope: "sc = sc'" by simp_all
  have sig: "signature hash a = signature hash b" using payload by (simp add: signature_def)
  have "sc \<noteq> ''turn''" using assms(4) by auto
  then show "grant_key hash a sc = grant_key hash b sc'"
    using * unfolding grant_key_def Let_def scope sig same_payload_fields(1,2)[OF payload] by auto
qed

theorem grant_key_exact_witness:
  "grant_key flat_hash (demo_action ''ls'') ''session'' \<noteq> grant_key flat_hash (demo_action ''ps'') ''session''"
proof -
  have sig: "signature flat_hash (demo_action ''ls'') = ''shell.command/execute/shell/ls/agent_tool''"
    "signature flat_hash (demo_action ''ps'') = ''shell.command/execute/shell/ps/agent_tool''"
    by (simp_all add: signature_def signature_payload_def demo_action_def shell_action_def new_action_def flat_hash_def
      normalize_resource_def normalize_detail_def py_strip_def py_space_def py_lower_def py_lower_char_def str_default_def)
  then have d: "digest_ok flat_hash (demo_action ''ls'')" "digest_ok flat_hash (demo_action ''ps'')"
    "collision_free flat_hash (demo_action ''ls'') (demo_action ''ps'')"
    by (simp_all add: digest_ok_def collision_free_def)
  have "signature_payload (demo_action ''ls'') \<noteq> signature_payload (demo_action ''ps'')"
    using sig by (auto simp: signature_def)
  then show ?thesis using grant_key_exact[OF d, of "''session''" "''session''"] by simp
qed

section \<open>Where a remembered consent comes from\<close>

abbreviation allows :: "grant \<Rightarrow> bool" where
  "allows g \<equiv> \<not> py_prefix ''deny'' (gr_decision g)"

definition allowed_grants :: "grant_store \<Rightarrow> string set" where
  "allowed_grants gs = {k. \<exists>g. (k, g) \<in> set (gs_grants gs) \<and> allows g}"

text \<open>The keys a result adds to the store and to the gate.\<close>

definition granted_by :: "(pyval \<Rightarrow> string) \<Rightarrow> approval_result \<Rightarrow> string set" where
  "granted_by hash res =
     (if ar_consent res then {grant_key hash (ar_action res) sc | sc. sc \<in> {''session'', ''profile''}} else {})"

definition remembered_by :: "(pyval \<Rightarrow> string) \<Rightarrow> approval_result \<Rightarrow> string set" where
  "remembered_by hash res =
     (if ar_consent res then {ac_kind (ar_action res) @ '':'' @ signature hash (ar_action res)} else {})"

definition adds_only :: "(pyval \<Rightarrow> string) \<Rightarrow> approver \<Rightarrow> step_result \<times> approver \<Rightarrow> bool" where
  "adds_only hash ap p \<longleftrightarrow>
     (let new = (\<lambda>f. case fst p of Done res \<Rightarrow> f hash res | _ \<Rightarrow> {}) in
      allowed_grants (or_grants (ap_orch (snd p))) \<subseteq> allowed_grants (or_grants (ap_orch ap)) \<union> new granted_by
      \<and> set (sg_approved (ap_gate (snd p))) \<subseteq> set (sg_approved (ap_gate ap)) \<union> new remembered_by)"

lemma set_update_subset: "set (AList.update k v d) \<subseteq> insert (k, v) (set d)"
  by (induction d) auto

lemma grant_put_adds:
  "allowed_grants (grant_put now g gs) \<subseteq> allowed_grants gs \<union> (if allows g then {gr_key g} else {})"
  using set_update_subset[of "gr_key g" g "gs_grants gs"]
  by (auto simp: allowed_grants_def grant_put_def grant_save_def grant_list_def dict_set_def Let_def)

lemma grant_get_drops: "grant_get now k gs = (og, gs') \<Longrightarrow> allowed_grants gs' \<subseteq> allowed_grants gs"
  by (auto simp: grant_get_def allowed_grants_def dict_pop_def split: option.splits if_splits)

lemma lookup_drops: "lookup_grants hash clk i a scs gs = (og, gs') \<Longrightarrow> allowed_grants gs' \<subseteq> allowed_grants gs"
  by (induction scs arbitrary: i gs) (fastforce split: prod.splits option.splits dest: grant_get_drops)+

lemma settle_adds:
  "allowed_grants (or_grants (snd (settle hash clk a r d o1)))
     \<subseteq> allowed_grants (or_grants o1) \<union> granted_by hash (fst (settle hash clk a r d o1))"
proof -
  have "allowed_grants (or_grants (put_grant t (user_grant hash t' a sc dec why) o1))
      \<subseteq> allowed_grants (or_grants o1) \<union> (if py_prefix ''deny'' dec then {} else {grant_key hash a sc})" for t t' sc dec why
    using grant_put_adds[of t "user_grant hash t' a sc dec why" "or_grants o1"]
    by (simp add: put_grant_def user_grant_def split: if_splits)
  note put = subsetD[OF this]
  show ?thesis
    by (auto simp: settle_def conclude_defs granted_by_def scope_from_decision_def Let_def split: approval_decision.splits
        dest!: put)
qed

lemma gate_ask_keeps: "gate_ask hash ts rq g = (d, g') \<Longrightarrow> sg_approved g' = sg_approved g"
  by (auto simp: gate_ask_def log_decision_def split: if_splits)

lemma gate_answer_adds:
  assumes "gate_answer hash ts rq d g = (d', g')" "rq_action rq = Some a" "rq_category rq = ac_kind a"
  shows "set (sg_approved g') \<subseteq> set (sg_approved g) \<union> (if is_allowing d' then {ac_kind a @ '':'' @ signature hash a} else {})"
  using assms
  by (auto simp: gate_answer_def log_decision_def remember_key_def request_grant_key_def is_allowing_def Let_def
      split: if_splits approval_decision.splits)

lemma adds_only_mono:
  assumes "adds_only hash ap2 p" "ap_gate ap2 = ap_gate ap"
    "allowed_grants (or_grants (ap_orch ap2)) \<subseteq> allowed_grants (or_grants (ap_orch ap))"
  shows "adds_only hash ap p"
  using assms unfolding adds_only_def Let_def by auto

lemma adds_only_same:
  assumes "or_grants (ap_orch (snd p)) = or_grants (ap_orch ap)" "ap_gate (snd p) = ap_gate ap"
  shows "adds_only hash ap p"
  using assms by (simp add: adds_only_def Let_def)

lemma finish_adds_only:
  "adds_only hash ap (finish ap (approved ts a r actor scope reason (ap_orch ap)))"
  "adds_only hash ap (finish ap (refused ts a r actor scope reason (ap_orch ap)))"
  "adds_only hash ap (finish ap (conclude ok ts a r actor scope reason (ap_orch ap)))"
  by (rule adds_only_same; simp add: finish_def conclude_defs Let_def)+

lemma ask_user_adds: "adds_only hash ap (ask_user hash clk fresh a r permanent ap)"
proof -
  obtain od g where ga: "gate_ask hash (clk 3) (approval_request_for fresh a r permanent) (ap_gate ap) = (od, g)" by fastforce
  show ?thesis
  proof (cases od)
    case None
    then show ?thesis using ga gate_ask_keeps[OF ga] by (simp add: ask_user_def adds_only_def Let_def)
  next
    case (Some d)
    obtain res o1 where st: "settle hash clk a r d (ap_orch ap) = (res, o1)" by fastforce
    show ?thesis using ga Some st gate_ask_keeps[OF ga] settle_adds[of hash clk a r d "ap_orch ap"]
      by (simp add: ask_user_def adds_only_def Let_def)
  qed
qed

lemma after_policy_adds: "adds_only hash ap (after_policy hash clk fresh a r permanent ap)"
proof -
  obtain og gs where eg: "existing_grant hash clk a (or_grants (ap_orch ap)) = (og, gs)" by fastforce
  let ?ap2 = "ap\<lparr>ap_orch := (ap_orch ap)\<lparr>or_grants := gs\<rparr>\<rparr>"
  have drops: "allowed_grants gs \<subseteq> allowed_grants (or_grants (ap_orch ap))"
    using eg unfolding existing_grant_def by (rule lookup_drops)
  have up: "adds_only hash ap p" if "adds_only hash ?ap2 p" for p
    by (rule adds_only_mono[OF that]) (use drops in simp_all)
  have fin: "finish ap q = finish ?ap2 q" for q by (simp add: finish_def)
  show ?thesis
  proof (cases "br_tripped (or_breaker (ap_orch ap))")
    case True
    then show ?thesis by (simp add: after_policy_def Let_def finish_adds_only)
  next
    case False
    show ?thesis
    proof (cases og)
      case (Some g)
      have "adds_only hash ap (finish ap (refused (clk 4) a r ''grant'' ''once'' (gr_reason g) (ap_orch ?ap2)))"
        "adds_only hash ap (finish ap (approved (clk 4) a r ''grant'' (gr_scope g) (gr_reason g) (ap_orch ?ap2)))"
        unfolding fin by (rule up, rule finish_adds_only)+
      then show ?thesis using False eg Some by (simp add: after_policy_def Let_def)
    next
      case None
      have "adds_only hash ap (ask_user hash clk fresh a r permanent ?ap2)" by (rule up, rule ask_user_adds)
      moreover have "adds_only hash ap (Waits w, ?ap2)" for w by (rule up, rule adds_only_same) simp_all
      ultimately show ?thesis using False eg None by (simp add: after_policy_def Let_def)
    qed
  qed
qed

lemma begin_adds: "adds_only hash ap (evaluate_begin assess hash clk fresh a ap)"
proof (cases "assess a")
  case (Ret r)
  then show ?thesis
    by (cases "pd_verdict (policy_evaluate (or_policy (ap_orch ap)) a r)")
      (simp_all add: evaluate_begin_def Let_def finish_adds_only after_policy_adds)
qed (simp add: evaluate_begin_def adds_only_same)

lemma guardian_adds: "adds_only hash ap (guardian_answers hash fmt clk fresh v a r permanent ap)"
  by (auto simp: guardian_answers_def finish_adds_only ask_user_adds split: option.splits recommendation.splits)

lemma user_adds:
  assumes "rq = approval_request_for fresh a r permanent"
  shows "adds_only hash ap (user_answers hash clk d a r rq ap)"
proof -
  obtain d' g where ga: "gate_answer hash (clk 3) rq d (ap_gate ap) = (d', g)" by fastforce
  obtain res o1 where st: "settle hash clk a r d' (ap_orch ap) = (res, o1)" by fastforce
  have res: "ar_consent res = is_allowing d'" "ar_action res = a"
    using settle_approved(2)[of hash clk a r d' "ap_orch ap"] settle_concludes[of a r "ap_orch ap" hash clk d'] st
    by (simp_all add: concludes_def)
  have "set (sg_approved g) \<subseteq> set (sg_approved (ap_gate ap)) \<union> remembered_by hash res"
    using gate_answer_adds[OF ga, of a] assms res
    by (auto simp: approval_request_for_def remembered_by_def split: if_splits)
  then show ?thesis using ga st settle_adds[of hash clk a r d' "ap_orch ap"]
    by (simp add: user_answers_def adds_only_def Let_def)
qed

definition consent_inv :: "services \<Rightarrow> approvals \<Rightarrow> bool" where
  "consent_inv sv st \<longleftrightarrow>
     allowed_grants (or_grants (orch st)) \<subseteq> (\<Union>res \<in> set (as_results st). granted_by (sv_hash sv) res)
     \<and> set (sg_approved (ap_gate (as_core st))) \<subseteq> (\<Union>res \<in> set (as_results st). remembered_by (sv_hash sv) res)"

lemma consent_absorb:
  assumes "consent_inv sv st" "adds_only (sv_hash sv) (as_core st) p"
  shows "consent_inv sv (absorb i st p)"
  using assms by (cases "fst p") (fastforce simp: consent_inv_def adds_only_def absorb_def Let_def)+

lemma consent_step:
  assumes "flow_inv sv o1 st" "consent_inv sv st"
  shows "consent_inv sv (approval_step sv clk e st)"
proof (cases e)
  case (UserSays i d)
  have "adds_only (sv_hash sv) (as_core st) (user_answers (sv_hash sv) clk d a r rq (as_core st))"
    if "map_of (as_waiting st) i = Some (AskUser a r rq)" for a r rq
  proof -
    have "waiting_ok sv o1 (AskUser a r rq)" using assms(1) map_of_SomeD[OF that] by (force simp: flow_inv_def)
    then show ?thesis by (auto intro: user_adds)
  qed
  then show ?thesis using UserSays assms(2) by (auto intro: consent_absorb split: option.splits waiting.splits)
next
  case (Evaluate i a fresh)
  then show ?thesis using assms(2) by (simp add: consent_absorb begin_adds)
next
  case (GuardianSays i c fresh)
  then show ?thesis using assms(2) by (auto intro: consent_absorb guardian_adds split: option.splits waiting.splits)
next
  case (GuardianFails i fresh)
  then show ?thesis using assms(2) by (auto intro: consent_absorb guardian_adds split: option.splits waiting.splits)
qed (use assms(2) in \<open>simp_all add: consent_inv_def reset_turn_def gate_reset_def\<close>)

lemma consent_run:
  "flow_inv sv o1 st \<Longrightarrow> consent_inv sv st \<Longrightarrow> consent_inv sv (approval_run sv es st)"
  by (induction es arbitrary: st) (auto simp: approval_run_def flow_inv_step consent_step)

text \<open>
  C16. A consent is reused only for what was consented to. Start from a store without grants and let any
  events run; when, without the session-wide bypass, an action the policy wants asked about is approved
  as its evaluation begins, an earlier result of the run is an approval by the user for an action with
  the same signature; and when the digest does not collide on these two actions, they have the same kind,
  effect, origin and normalised resource and detail. Of the digest only its form is assumed: hexadecimal
  text, so not empty and without a colon. It may collide on other actions.
\<close>

theorem consent_reused_exactly:
  assumes "gs_grants (or_grants o1) = []"
    and "as_results (approval_step sv clk (Evaluate i a fresh) (approval_run sv evs (new_approvals o1)))
        = as_results (approval_run sv evs (new_approvals o1)) @ [res]" "ar_approved res"
    and "pd_verdict (policy_evaluate (or_policy o1) a (ar_risk res)) = V_ASK"
    and "\<not> sg_bypass (ap_gate (as_core (approval_run sv evs (new_approvals o1))))"
    and "\<And>b. digest_ok (sv_hash sv) b"
  shows "\<exists>res0 \<in> set (as_results (approval_run sv evs (new_approvals o1))).
    ar_consent res0 \<and> signature (sv_hash sv) (ar_action res0) = signature (sv_hash sv) a
    \<and> (collision_free (sv_hash sv) (ar_action res0) a \<longrightarrow>
         signature_payload (ar_action res0) = signature_payload a
         \<and> ac_kind (ar_action res0) = ac_kind a \<and> ac_effect (ar_action res0) = ac_effect a
         \<and> ac_origin (ar_action res0) = ac_origin a
         \<and> normalize_resource (ac_resource (ar_action res0)) = normalize_resource (ac_resource a))"
proof -
  define st where "st = approval_run sv evs (new_approvals o1)"
  have inv: "flow_inv sv o1 st" unfolding st_def by (rule flow_inv_run[OF flow_inv_new])
  have con: "consent_inv sv st" unfolding st_def
    by (rule consent_run[OF flow_inv_new]) (simp add: consent_inv_def new_approvals_def new_gate_def allowed_grants_def assms(1))
  have cause: "approval_cause sv evs o1 clk (Evaluate i a fresh) (ar_action res) (ar_risk res)"
    using cause_of_approval[OF assms(2,3)] .
  have act: "ar_action res = a" using cause by (simp add: approval_cause_def Let_def)
  let ?h = "sv_hash sv"
  have "remembered_consent ?h a (ap_gate (as_core st)) \<or> stored_consent ?h clk a (or_grants (orch st))"
    using cause assms(4) by (auto simp: approval_cause_def Let_def act st_def)
  then obtain res0 where res0: "res0 \<in> set (as_results st)" "ar_consent res0" "signature ?h (ar_action res0) = signature ?h a"
  proof
    assume "remembered_consent ?h a (ap_gate (as_core st))"
    then have "ac_kind a @ '':'' @ signature ?h a \<in> set (sg_approved (ap_gate (as_core st)))"
      using assms(5) by (simp add: remembered_consent_def st_def)
    with con obtain res0 where r: "res0 \<in> set (as_results st)" "ac_kind a @ '':'' @ signature ?h a \<in> remembered_by ?h res0"
      unfolding consent_inv_def by blast
    then have c: "ar_consent res0"
      and "ac_kind a @ CHR '':'' # signature ?h a = ac_kind (ar_action res0) @ CHR '':'' # signature ?h (ar_action res0)"
      by (auto simp: remembered_by_def split: if_splits)
    from colon_cancel[OF this(2)] show thesis using that[OF r(1) c] assms(6) by (auto simp: digest_ok_def)
  next
    assume "stored_consent ?h clk a (or_grants (orch st))"
    then obtain sc g where sc: "sc \<in> {''turn'', ''session'', ''profile''}"
      and g: "map_of (gs_grants (or_grants (orch st))) (grant_key ?h a sc) = Some g" "allows g"
      by (auto simp: stored_consent_def)
    then have "grant_key ?h a sc \<in> allowed_grants (or_grants (orch st))"
      unfolding allowed_grants_def using map_of_SomeD[OF g(1)] by blast
    with con obtain res0 where r: "res0 \<in> set (as_results st)" "grant_key ?h a sc \<in> granted_by ?h res0"
      unfolding consent_inv_def by blast
    then obtain sc' where c: "ar_consent res0" and sc': "sc' \<in> {''session'', ''profile''}"
      and k: "grant_key ?h a sc = grant_key ?h (ar_action res0) sc'"
      by (auto simp: granted_by_def split: if_splits)
    have form: "\<exists>u. grant_key ?h x s = u @ CHR '':'' # signature ?h x" if "s \<in> {''turn'', ''session'', ''profile''}" for x s
      using that assms(6)[of x] grant_key_form[of s ?h x] by (auto simp: digest_ok_def simp flip: append_assoc)
    obtain u v where "grant_key ?h a sc = u @ CHR '':'' # signature ?h a"
      "grant_key ?h (ar_action res0) sc' = v @ CHR '':'' # signature ?h (ar_action res0)"
      using form[OF sc, of a] form[of sc' "ar_action res0"] sc' by blast
    with k have "u @ CHR '':'' # signature ?h a = v @ CHR '':'' # signature ?h (ar_action res0)" by simp
    from colon_cancel[OF this] show thesis using that[OF r(1) c] assms(6) by (auto simp: digest_ok_def)
  qed
  have "signature_payload (ar_action res0) = signature_payload a" if "collision_free ?h (ar_action res0) a"
    using res0(3) that by (simp add: collision_free_def)
  with res0 same_payload_fields show ?thesis unfolding st_def by blast
qed

definition mark :: "action \<Rightarrow> pyval \<Rightarrow> string" where
  "mark a v = (if v = signature_payload a then ''x'' else ''y'')"

theorem consent_reused_exactly_witness:
  "let a = demo_action ''curl x''; sv = (demo_services demo_medium)\<lparr>sv_hash := mark a\<rparr>;
       evs = [(\<lambda>_. 1, Evaluate 0 a ''r1''), (\<lambda>_. 1, UserSays 0 D_SESSION)] in
   \<exists>res0 \<in> set (as_results (approval_run sv evs (new_approvals demo_orchestrator))).
     ar_consent res0 \<and> signature_payload (ar_action res0) = signature_payload a"
proof -
  let ?a = "demo_action ''curl x''"
  let ?sv = "(demo_services demo_medium)\<lparr>sv_hash := mark ?a\<rparr>"
  let ?evs = "[(\<lambda>_. 1, Evaluate 0 ?a ''r1''), (\<lambda>_. 1, UserSays 0 D_SESSION)]"
  let ?st = "approval_run ?sv ?evs (new_approvals demo_orchestrator)"
  let ?res = "\<lparr>ar_approved = True, ar_decision = ''allow'', ar_action = ?a, ar_risk = demo_medium,
                ar_scope = ''session'', ar_reason = ''user_approved'', ar_consent = False\<rparr>"
  have hash: "digest_ok (sv_hash ?sv) b" for b
    by (auto simp: digest_ok_def signature_def mark_def)
  have free: "collision_free (sv_hash ?sv) b ?a" for b
    by (simp add: collision_free_def signature_def mark_def)
  have step: "as_results (approval_step ?sv (\<lambda>_. 1) (Evaluate 1 ?a ''r2'') ?st) = as_results ?st @ [?res]"
    and bypass: "\<not> sg_bypass (ap_gate (as_core ?st))"
    by (simp_all add: demo_defs scope_from_decision_def put_grant_def user_grant_def grant_put_def grant_key_def signature_def
        mark_def dict_set_def remember_key_def grant_expired_def new_action_def Let_def map_filter_simps)
  have pol: "pd_verdict (policy_evaluate (or_policy demo_orchestrator) ?a (ar_risk ?res)) = V_ASK"
    by (simp add: demo_defs map_filter_simps)
  have "\<exists>res0 \<in> set (as_results ?st). ar_consent res0 \<and> signature_payload (ar_action res0) = signature_payload ?a"
    using consent_reused_exactly[OF _ step _ pol bypass hash] free by (auto simp: demo_defs)
  then show ?thesis by (simp only: Let_def)
qed

section \<open>Consents that reach further\<close>

lemmas consent_demo = demo_defs scope_from_decision_def put_grant_def user_grant_def grant_put_def grant_key_def
  signature_def mark_def dict_set_def remember_key_def grant_expired_def new_action_def map_filter_simps

definition marked_run :: "action \<Rightarrow> approval_event list \<Rightarrow> approvals" where
  "marked_run a evs =
     approval_run ((demo_services demo_medium)\<lparr>sv_hash := mark a\<rparr>) (map (\<lambda>e. (\<lambda>_. 1, e)) evs) (new_approvals demo_orchestrator)"

definition verdicts :: "approvals \<Rightarrow> (bool \<times> string) list" where
  "verdicts st = map (\<lambda>res. (ar_approved res, ar_reason res)) (as_results st)"

text \<open>\<open>reset\<close>, which clears the session's approvals, leaves the session-wide bypass: the next action is
  approved unasked.\<close>

lemma reset_keeps_bypass:
  "verdicts (marked_run (demo_action ''curl x'')
     [Evaluate 0 (demo_action ''curl x'') ''r1'', UserSays 0 D_ALL_SESSION, GateReset, Evaluate 1 (demo_action ''ssh y'') ''r2''])
   = [(True, ''allow''), (True, ''allow'')]"
  by (simp add: marked_run_def verdicts_def gate_reset_def consent_demo Let_def)

text \<open>A consent for one session approves the same action of another: the gate's memory does not name the
  session.\<close>

lemma consent_crosses_sessions:
  "verdicts (marked_run (demo_action ''curl x'')
     [Evaluate 0 ((demo_action ''curl x'')\<lparr>ac_session := ''s1''\<rparr>) ''r1'', UserSays 0 D_SESSION,
      Evaluate 1 ((demo_action ''curl x'')\<lparr>ac_session := ''s2''\<rparr>) ''r2''])
   = [(True, ''allow_session''), (True, ''allow'')]"
  by (simp add: marked_run_def verdicts_def consent_demo signature_payload_def Let_def)

section \<open>The breaker\<close>

abbreviation tripped :: "orchestrator \<Rightarrow> bool" where
  "tripped o1 \<equiv> br_tripped (or_breaker o1)"

lemma record_tripped [simp]:
  "br_tripped b \<Longrightarrow> br_tripped (record_denial b)" "br_tripped (record_approval b) = br_tripped b"
  by (simp_all add: record_denial_def record_approval_def Let_def)

lemma conclude_tripped [simp]:
  "tripped o1 \<Longrightarrow> tripped (snd (approved ts a r actor scope reason o1))"
  "tripped o1 \<Longrightarrow> tripped (snd (refused ts a r actor scope reason o1))"
  "tripped (snd (conclude ok ts a r actor scope reason o1)) = tripped o1"
  by (simp_all add: conclude_defs Let_def)

lemma settle_tripped: "tripped o1 \<Longrightarrow> tripped (snd (settle hash clk a r d o1))"
  by (simp add: settle_def Let_def)

lemma ask_user_tripped: "tripped (ap_orch ap) \<Longrightarrow> tripped (ap_orch (snd (ask_user hash clk fresh a r permanent ap)))"
  using settle_tripped[of "ap_orch ap" hash clk a r D_ALLOW]
  by (auto simp: ask_user_def gate_ask_def Let_def split: prod.splits)

lemma after_policy_tripped:
  assumes "tripped (ap_orch ap)"
  shows "after_policy hash clk fresh a r permanent ap =
    finish ap (conclude False (clk 4) a r ''denial_breaker'' ''once'' ''consecutive denial limit reached'' (ap_orch ap))"
  using assms by (simp add: after_policy_def Let_def)

lemma begin_tripped: "tripped (ap_orch ap) \<Longrightarrow> tripped (ap_orch (snd (evaluate_begin assess hash clk fresh a ap)))"
  by (auto simp: evaluate_begin_def finish_def after_policy_tripped Let_def split: outcome.splits policy_verdict.splits)

lemma guardian_tripped:
  "tripped (ap_orch ap) \<Longrightarrow> tripped (ap_orch (snd (guardian_answers hash fmt clk fresh v a r permanent ap)))"
  by (auto simp: guardian_answers_def finish_def ask_user_tripped split: option.splits recommendation.splits)

lemma user_tripped: "tripped (ap_orch ap) \<Longrightarrow> tripped (ap_orch (snd (user_answers hash clk d a r rq ap)))"
  using settle_tripped[of "ap_orch ap" hash clk a r "fst (gate_answer hash (clk 3) rq d (ap_gate ap))"]
  by (auto simp: user_answers_def Let_def split: prod.splits) 

lemma absorb_core [simp]: "as_core (absorb i st p) = snd p"
  by (auto simp: absorb_def Let_def split: step_result.splits)

lemma step_tripped: "tripped (orch st) \<Longrightarrow> e \<noteq> TurnReset \<Longrightarrow> tripped (orch (approval_step sv clk e st))"
  by (cases e) (auto simp: begin_tripped guardian_tripped user_tripped split: option.splits waiting.splits)

lemma run_tripped:
  "tripped (orch st) \<Longrightarrow> TurnReset \<notin> snd ` set es \<Longrightarrow> tripped (orch (approval_run sv es st))"
  by (induction es arbitrary: st) (auto simp: approval_run_def step_tripped)

text \<open>
  C29. A tripped breaker stays tripped through any events but the reset of the turn, approvals
  included; and while it is, an action the policy wants asked about is refused as its evaluation
  begins, without a prompt, a lookup of grants or a call of the guardian.
\<close>

theorem breaker_latches:
  assumes "tripped (orch st)" "TurnReset \<notin> snd ` set es" "sv_assess sv a = Ret r"
    and "pd_verdict (policy_evaluate (or_policy (orch (approval_run sv es st))) a r) = V_ASK"
    and "i \<notin> fst ` set (as_waiting (approval_run sv es st))"
  shows "\<exists>res. as_results (approval_step sv clk (Evaluate i a fresh) (approval_run sv es st))
        = as_results (approval_run sv es st) @ [res]
      \<and> \<not> ar_approved res \<and> ar_reason res = ''consecutive denial limit reached''
      \<and> as_waiting (approval_step sv clk (Evaluate i a fresh) (approval_run sv es st)) = as_waiting (approval_run sv es st)
      \<and> or_grants (orch (approval_step sv clk (Evaluate i a fresh) (approval_run sv es st)))
        = or_grants (orch (approval_run sv es st))"
proof -
  have t: "tripped (orch (approval_run sv es st))" using assms(1,2) by (rule run_tripped)
  have n: "map_of (as_waiting (approval_run sv es st)) i = None" using assms(5) by (simp add: map_of_eq_None_iff)
  have "dict_pop i (as_waiting (approval_run sv es st)) = as_waiting (approval_run sv es st)"
    using assms(5) by (force simp: dict_pop_def filter_id_conv)
  then show ?thesis using n assms(4)
    by (simp add: begin_unfolds[OF assms(3)] after_policy_tripped[OF t] absorb_def finish_def conclude_def Let_def)
qed

theorem breaker_latches_witness:
  "\<exists>res. as_results (approval_step (demo_services demo_medium) (\<lambda>_. 1) (Evaluate 0 (demo_action ''ls'') ''r'')
       (new_approvals (demo_orchestrator\<lparr>or_breaker := record_denial (new_breaker 1)\<rparr>))) = [res]
     \<and> ar_reason res = ''consecutive denial limit reached''"
proof -
  let ?st = "new_approvals (demo_orchestrator\<lparr>or_breaker := record_denial (new_breaker 1)\<rparr>)"
  let ?sv = "demo_services demo_medium"
  have "tripped (orch ?st)" "sv_assess ?sv (demo_action ''ls'') = Ret demo_medium"
    "pd_verdict (policy_evaluate (or_policy (orch (approval_run ?sv [] ?st))) (demo_action ''ls'') demo_medium) = V_ASK"
    by (simp_all add: demo_defs Let_def map_filter_simps)
  from breaker_latches[OF this(1) _ this(2,3), of 0 "\<lambda>_. 1" "''r''"] show ?thesis
    by (auto simp: approval_run_def new_approvals_def)
qed

section \<open>Grants across processes\<close>

definition grant_ok :: "grant \<Rightarrow> bool" where
  "grant_ok g \<longleftrightarrow> gr_key g \<noteq> [] \<and> gr_scope g \<noteq> [] \<and> gr_decision g \<noteq> [] \<and> gr_created g \<noteq> 0"

definition store_ok :: "grant_store \<Rightarrow> bool" where
  "store_ok st \<longleftrightarrow> gs_json st \<and> dict_wf (gs_grants st) \<and> (\<forall>(k, g) \<in> set (gs_grants st). k = gr_key g \<and> grant_ok g)"

lemma saved_expiry: "expiry_of (grant_to_dict g) = Ret (gr_expires g)"
  by (cases "gr_expires g") (simp_all add: expiry_of_def get_default_def grant_to_dict_def)

lemma saved_grant:
  assumes "grant_ok g"
  shows "grant_from_dict cv now None (grant_to_dict g) = Ret (g\<lparr>gr_expires := None\<rparr>)"
proof -
  have str: "py_str cv (get_or (grant_to_dict g) k (PStr dflt)) = v"
    if "map_of (grant_to_dict g) k = Some (PStr v)" "v = [] \<Longrightarrow> dflt = []" for k v dflt
    using that by (auto simp: get_or_def py_truthy_def py_str_def)
  have time: "py_float cv (get_or (grant_to_dict g) ''created_at'' (PFloat now)) = Ret (gr_created g)"
    using assms by (simp add: get_or_def grant_to_dict_def py_truthy_def py_float_def grant_ok_def)
  have ne: "gr_scope g \<noteq> []" "gr_decision g \<noteq> []" using assms by (simp_all add: grant_ok_def)
  have "map_of (grant_to_dict g) ''key'' = Some (PStr (gr_key g))" "map_of (grant_to_dict g) ''scope'' = Some (PStr (gr_scope g))"
    "map_of (grant_to_dict g) ''decision'' = Some (PStr (gr_decision g))" "map_of (grant_to_dict g) ''action_kind'' = Some (PStr (gr_kind g))"
    "map_of (grant_to_dict g) ''effect'' = Some (PStr (gr_effect g))" "map_of (grant_to_dict g) ''resource'' = Some (PStr (gr_resource g))"
    "map_of (grant_to_dict g) ''reason'' = Some (PStr (gr_reason g))"
    by (simp_all add: grant_to_dict_def)
  note fields = this[THEN str]
  show ?thesis unfolding grant_from_dict_def Let_def time and_then_def
    using ne by (simp add: fields)
qed

lemma load_saved_item:
  assumes "grant_ok g"
  shows "load_item cv now (PDict (grant_to_dict g)) gs = Ret (if grant_expired now g then gs else dict_set (gr_key g) g gs)"
proof -
  have "gr_key g \<noteq> []" using assms by (simp add: grant_ok_def)
  then show ?thesis by (simp add: load_item_def saved_grant[OF assms] saved_expiry and_then_def Let_def)
qed

lemma update_fresh: "k \<notin> fst ` set d \<Longrightarrow> AList.update k v d = d @ [(k, v)]"
  by (induction d) auto

lemma load_saved_items:
  assumes "dict_wf (acc @ d)" "\<forall>(k, g) \<in> set d. k = gr_key g \<and> grant_ok g"
  shows "load_items cv now (map (PDict \<circ> grant_to_dict) (map snd d)) acc = Ret (acc @ filter (\<lambda>(k, g). \<not> grant_expired now g) d)"
  using assms
proof (induction d arbitrary: acc)
  case (Cons kg d)
  obtain k g where kg: "kg = (k, g)" by fastforce
  with Cons.prems have k: "k = gr_key g" "grant_ok g" "k \<notin> fst ` set acc" by (auto simp: dict_wf_def)
  show ?case
  proof (cases "grant_expired now g")
    case True
    have "dict_wf (acc @ d)" using Cons.prems(1) by (simp add: dict_wf_def kg)
    then show ?thesis using Cons.IH[of acc] Cons.prems(2) True k by (simp add: kg load_saved_item and_then_def)
  next
    case False
    have "dict_wf ((acc @ [(k, g)]) @ d)" using Cons.prems(1) by (simp add: kg)
    then show ?thesis using Cons.IH[of "acc @ [(k, g)]"] Cons.prems(2) False k
      by (simp add: kg load_saved_item and_then_def dict_set_def update_fresh)
  qed
qed simp

lemma store_ok_put:
  assumes "store_ok st" "grant_ok g"
  shows "store_ok (grant_put now g st)"
proof -
  have wf: "dict_wf (dict_set (gr_key g) g (gs_grants st))" using assms(1) by (simp add: store_ok_def dict_wf_set)
  then have "dict_wf (filter (\<lambda>(k, g). \<not> grant_expired now g) (dict_set (gr_key g) g (gs_grants st)))"
    unfolding dict_wf_def by (rule distinct_map_filter)
  then show ?thesis using assms set_update_subset[of "gr_key g" g "gs_grants st"]
    by (fastforce simp: store_ok_def grant_put_def grant_save_def grant_list_def dict_set_def Let_def)
qed

lemma load_after_put:
  assumes "store_ok st" "grant_ok g"
  shows "grant_load cv later (gs_file (grant_put now g st)) =
    Ret \<lparr>gs_grants = filter (\<lambda>(k, h). \<not> grant_expired later h) (gs_grants (grant_put now g st)),
         gs_json = True, gs_file = gs_file (grant_put now g st)\<rparr>"
proof -
  have ok: "store_ok (grant_put now g st)" using assms by (rule store_ok_put)
  have saved: "gs_file (grant_put now g st) = Some (PList (map (PDict \<circ> grant_to_dict) (map snd (gs_grants (grant_put now g st)))))"
    using assms(1) by (simp add: grant_put_def grant_save_def grant_list_def store_ok_def Let_def)
  show ?thesis unfolding saved using load_saved_items[of "[]" "gs_grants (grant_put now g st)" cv later] ok
    by (simp add: grant_load_def store_ok_def and_then_def)
qed

text \<open>
  C40. What a JSON store writes is what the next process loads: after a grant is put, a store built later
  over the file holds exactly the grants of the first one that have not expired by then, in the same
  order, whatever their scope.
\<close>

theorem grants_roundtrip:
  assumes "store_ok st" "grant_ok g"
  shows "grant_load cv later (gs_file (grant_put now g st)) =
    Ret \<lparr>gs_grants = filter (\<lambda>(k, h). \<not> grant_expired later h) (gs_grants (grant_put now g st)),
         gs_json = True, gs_file = gs_file (grant_put now g st)\<rparr>"
  using assms by (rule load_after_put)

definition text_only :: conversions where
  "text_only = \<lparr>cv_int = (\<lambda>_. None), cv_float = (\<lambda>_. None), cv_str = (\<lambda>_. [])\<rparr>"

theorem grants_roundtrip_witness:
  "\<exists>st. grant_load text_only 9 (gs_file st) = Ret st \<and> map fst (gs_grants st) = [''k'']"
proof -
  let ?st = "memory_store\<lparr>gs_json := True\<rparr>"
  let ?g = "\<lparr>gr_key = ''k'', gr_scope = ''session'', gr_decision = ''allow'', gr_kind = ''shell.command'', gr_effect = ''execute'',
             gr_resource = ''shell'', gr_reason = ''user_approved'', gr_created = 1, gr_expires = None\<rparr>"
  have "store_ok ?st" "grant_ok ?g" by (simp_all add: store_ok_def memory_store_def dict_wf_def grant_ok_def)
  note rt = grants_roundtrip[OF this, of text_only 9 1]
  have "gs_grants (grant_put 1 ?g ?st) = [(''k'', ?g)]"
    by (simp add: grant_put_def grant_save_def grant_list_def memory_store_def dict_set_def grant_expired_def Let_def)
  then show ?thesis using rt
    by (intro exI[of _ "grant_put 1 ?g ?st"])
      (simp add: grant_expired_def grant_put_def grant_save_def grant_list_def memory_store_def dict_set_def Let_def)
qed

text \<open>A consent for the session is such a grant; and as no action of the program names its session, the
  next process finds it.\<close>

lemma session_consent_survives_restart:
  assumes "store_ok (or_grants o1)" "signature hash a \<noteq> []" "\<And>i. clk i \<noteq> 0"
  shows "\<exists>gs g. grant_load cv later (gs_file (or_grants (snd (settle hash clk a r D_SESSION o1)))) = Ret gs
    \<and> map_of (gs_grants gs) (grant_key hash a ''session'') = Some g \<and> gr_decision g = ''allow'' \<and> gr_expires g = None"
proof -
  let ?g = "user_grant hash (clk 0) a ''session'' ''allow'' ''user_approved''"
  have "grant_key hash a ''session'' \<noteq> []" by (simp add: grant_key_form)
  then have g: "grant_ok ?g" using assms(3) by (simp add: grant_ok_def user_grant_def)
  have st: "or_grants (snd (settle hash clk a r D_SESSION o1)) = grant_put (clk 1) ?g (or_grants o1)"
    by (simp add: settle_def is_allowing_def scope_from_decision_def conclude_defs put_grant_def Let_def)
  have ok: "store_ok (grant_put (clk 1) ?g (or_grants o1))" using assms(1) g by (rule store_ok_put)
  have live: "map_of (gs_grants (grant_put (clk 1) ?g (or_grants o1))) (gr_key ?g) = Some ?g"
  proof -
    have "dict_wf (gs_grants (grant_put (clk 1) ?g (or_grants o1)))" using ok by (simp add: store_ok_def)
    moreover have "(gr_key ?g, ?g) \<in> set (dict_set (gr_key ?g) ?g (gs_grants (or_grants o1)))"
      by (rule map_of_SomeD) (simp add: map_of_dict_set)
    then have "(gr_key ?g, ?g) \<in> set (gs_grants (grant_put (clk 1) ?g (or_grants o1)))"
      by (auto simp: grant_put_def grant_save_def grant_list_def grant_expired_def user_grant_def Let_def)
    ultimately show ?thesis by (rule dict_wf_lookup)
  qed
  have wf: "dict_wf (filter (\<lambda>(k, h). \<not> grant_expired later h) (gs_grants (grant_put (clk 1) ?g (or_grants o1))))"
    using ok unfolding store_ok_def dict_wf_def by (simp add: distinct_map_filter)
  have "(gr_key ?g, ?g) \<in> set (filter (\<lambda>(k, h). \<not> grant_expired later h) (gs_grants (grant_put (clk 1) ?g (or_grants o1))))"
    using map_of_SomeD[OF live] by (simp add: grant_expired_def user_grant_def)
  from dict_wf_lookup[OF wf this] show ?thesis unfolding st load_after_put[OF assms(1) g]
    by (auto simp: user_grant_def)
qed

end
