(* ===== verification/Approval_Coordinator.thy ===== *)
theory Approval_Coordinator imports Approval_Gate Node_Permit begin

text \<open>
  \<open>daemon/approval_coordinator.py\<close>: the queue of prompts a daemon waits on, as steps on one event loop.
  A call of \<open>request_approval\<close> is cut at its one wait; a future is a number the coordinator hands out,
  with its result once it is done (\<open>None\<close> when its wait was cancelled). Queues are numbers and never
  full. The slot given back during the wait belongs to the turn admission.
\<close>

section \<open>State\<close>

record pending =
  pn_request :: "pyval dict"
  pn_future :: nat
  pn_queue :: nat
  pn_created :: real

record coordinator =
  co_pending :: "pending dict"
  co_live :: "string list"
  co_next :: nat
  co_done :: "(nat \<times> pyval dict option) list"
  co_waits :: "(nat \<times> string) list"
  co_sent :: "(nat \<times> string \<times> pyval dict) list"
  co_answers :: "(nat \<times> string) list"

definition new_coordinator :: coordinator where
  "new_coordinator = \<lparr>co_pending = [], co_live = [], co_next = 0, co_done = [], co_waits = [], co_sent = [], co_answers = []\<rparr>"

definition is_done :: "coordinator \<Rightarrow> nat \<Rightarrow> bool" where
  "is_done co f \<longleftrightarrow> f \<in> fst ` set (co_done co)"

definition register_route :: "string \<Rightarrow> coordinator \<Rightarrow> coordinator" where
  "register_route r co = (if r = [] then co else co\<lparr>co_live := List.insert r (co_live co)\<rparr>)"

definition unregister_route :: "string \<Rightarrow> coordinator \<Rightarrow> coordinator" where
  "unregister_route r co = co\<lparr>co_live := removeAll r (co_live co)\<rparr>"

section \<open>Prompts\<close>

text \<open>\<open>fresh\<close> is the identifier drawn for a request without one. A request outside every route is
  answered at once.\<close>

definition request_begin ::
  "real \<Rightarrow> string \<Rightarrow> string \<Rightarrow> pyval dict \<Rightarrow> (nat \<times> string) option \<Rightarrow> coordinator \<Rightarrow> string option \<times> coordinator" where
  "request_begin now fresh own payload route co =
     (case route of
        None \<Rightarrow> (Some ''deny'', co)
      | Some (queue, active) \<Rightarrow>
          let pid = str_default fresh own;
              rid = str_default pid active;
              body = dict_set ''request_id'' (PStr rid) (dict_set ''pending_id'' (PStr pid) payload);
              f = co_next co
          in (None, co\<lparr>co_pending := dict_set pid \<lparr>pn_request = body, pn_future = f, pn_queue = queue, pn_created = now\<rparr> (co_pending co),
                       co_next := Suc f, co_waits := co_waits co @ [(f, pid)],
                       co_sent := co_sent co @ [(queue, rid, body)]\<rparr>))"

text \<open>The end of the wait: with the future's result, or by cancellation, which cancels the future. The
  entry under the pending id is removed in both cases.\<close>

definition end_wait :: "nat \<Rightarrow> string \<Rightarrow> coordinator \<Rightarrow> coordinator" where
  "end_wait f pid co = co\<lparr>co_waits := dict_pop f (co_waits co), co_pending := dict_pop pid (co_pending co)\<rparr>"

definition request_resumes :: "conversions \<Rightarrow> nat \<Rightarrow> coordinator \<Rightarrow> coordinator" where
  "request_resumes cv f co =
     (case (map_of (co_waits co) f, map_of (co_done co) f) of
        (Some pid, Some (Some result)) \<Rightarrow>
          (end_wait f pid co)\<lparr>co_answers := co_answers co @ [(f, py_str cv (get_or result ''decision'' (PStr ''deny'')))]\<rparr>
      | _ \<Rightarrow> co)"

definition request_cancelled :: "nat \<Rightarrow> coordinator \<Rightarrow> coordinator" where
  "request_cancelled f co =
     (case map_of (co_waits co) f of
        None \<Rightarrow> co
      | Some pid \<Rightarrow>
          end_wait f pid (if is_done co f then co else co\<lparr>co_done := (f, None) # co_done co\<rparr>))"

definition set_result :: "nat \<Rightarrow> string \<Rightarrow> string \<Rightarrow> coordinator \<Rightarrow> coordinator" where
  "set_result f decision reason co =
     co\<lparr>co_done := (f, Some [(''decision'', PStr decision), (''reason'', PStr reason)]) # co_done co\<rparr>"

section \<open>Answers\<close>

definition normalize_decision :: "string \<Rightarrow> string" where
  "normalize_decision d =
     (let v = py_lower (py_strip (str_default ''deny'' d)) in
      if v \<in> {''allow'', ''allow_once'', ''allow_session'', ''allow_all_session'', ''allow_always'', ''deny'',
              ''deny_always'', ''cancel_workflow''}
      then v else ''deny'')"

definition resolve_refused :: "string \<Rightarrow> pyval dict" where
  "resolve_refused msg = [(''ok'', PBool False), (''error'', PStr msg)]"

definition resolve :: "string \<Rightarrow> string \<Rightarrow> string \<Rightarrow> coordinator \<Rightarrow> pyval dict \<times> coordinator" where
  "resolve pid decision reason co =
     (case map_of (co_pending co) pid of
        None \<Rightarrow> (resolve_refused (''Unknown approval request: '' @ pid), co)
      | Some p \<Rightarrow>
          if is_done co (pn_future p) then
            (resolve_refused (''Approval request is no longer pending: '' @ pid), co)
          else
            ([(''ok'', PBool True), (''pending_id'', PStr pid), (''decision'', PStr (normalize_decision decision))],
             set_result (pn_future p) (normalize_decision decision) reason co))"

definition cancel :: "string \<Rightarrow> string \<Rightarrow> coordinator \<Rightarrow> pyval dict \<times> coordinator" where
  "cancel pid reason co = resolve pid ''deny'' reason co"

definition pending_payloads :: "coordinator \<Rightarrow> pyval dict list" where
  "pending_payloads co = map (pn_request \<circ> snd) (co_pending co)"

section \<open>Releases\<close>

text \<open>The body of the three release loops for one entry, and the loop over a copy of the table.\<close>

definition release :: "string \<Rightarrow> string \<times> pending \<Rightarrow> coordinator \<Rightarrow> coordinator" where
  "release reason e co =
     (let co' = (if is_done co (pn_future (snd e)) then co else set_result (pn_future (snd e)) ''deny'' reason co)
      in co'\<lparr>co_pending := dict_pop (fst e) (co_pending co')\<rparr>)"

definition release_where :: "(pending \<Rightarrow> bool) \<Rightarrow> string \<Rightarrow> coordinator \<Rightarrow> coordinator" where
  "release_where P reason co = fold (release reason) (filter (\<lambda>e. P (snd e)) (co_pending co)) co"

definition request_id_of :: "pending \<Rightarrow> pyval" where
  "request_id_of p = get_default (pn_request p) ''request_id'' PNone"

definition deny_for_queue :: "nat \<Rightarrow> string \<Rightarrow> coordinator \<Rightarrow> coordinator" where
  "deny_for_queue q reason co = release_where (\<lambda>p. pn_queue p = q) reason co"

definition deny_for_request :: "string \<Rightarrow> string \<Rightarrow> coordinator \<Rightarrow> coordinator" where
  "deny_for_request r reason co = release_where (\<lambda>p. request_id_of p = PStr r) reason co"

definition orphaned :: "conversions \<Rightarrow> coordinator \<Rightarrow> pending \<Rightarrow> bool" where
  "orphaned cv co p =
     (let r = py_str cv (get_or (pn_request p) ''request_id'' (PStr [])) in r \<noteq> [] \<and> r \<notin> set (co_live co))"

definition prune_orphaned :: "conversions \<Rightarrow> coordinator \<Rightarrow> int \<times> coordinator" where
  "prune_orphaned cv co =
     (int (length (filter (\<lambda>e. orphaned cv co (snd e)) (co_pending co))), release_where (orphaned cv co) ''owner_gone'' co)"

section \<open>The gate\<close>

definition daemon_decision :: "string \<Rightarrow> approval_decision" where
  "daemon_decision d = (case decision_of d of Some x \<Rightarrow> x | None \<Rightarrow> D_DENY)"

section \<open>Runs\<close>

text \<open>What can happen on the loop. A step for a wait that is not there, or whose future is not done,
  changes nothing.\<close>

datatype prompt_event =
    Ask real string string "pyval dict" nat string
  | Answer string string string
  | Cancel string string
  | Resume nat
  | Interrupt nat
  | Opened string
  | Closed string
  | QueueGone nat string
  | RequestGone string string
  | Prune

fun prompt_step :: "conversions \<Rightarrow> prompt_event \<Rightarrow> coordinator \<Rightarrow> coordinator" where
  "prompt_step cv (Ask now fresh own payload queue active) co = snd (request_begin now fresh own payload (Some (queue, active)) co)"
| "prompt_step cv (Answer pid decision reason) co = snd (resolve pid decision reason co)"
| "prompt_step cv (Cancel pid reason) co = snd (cancel pid reason co)"
| "prompt_step cv (Resume f) co = request_resumes cv f co"
| "prompt_step cv (Interrupt f) co = request_cancelled f co"
| "prompt_step cv (Opened r) co = register_route r co"
| "prompt_step cv (Closed r) co = unregister_route r co"
| "prompt_step cv (QueueGone q reason) co = deny_for_queue q reason co"
| "prompt_step cv (RequestGone r reason) co = deny_for_request r reason co"
| "prompt_step cv Prune co = snd (prune_orphaned cv co)"

definition prompt_run :: "conversions \<Rightarrow> prompt_event list \<Rightarrow> coordinator \<Rightarrow> coordinator" where
  "prompt_run cv es co = fold (prompt_step cv) es co"

end
