(* ===== verification/Approval_Coordinator_Props.thy ===== *)
theory Approval_Coordinator_Props imports Approval_Coordinator begin

text \<open>
  What a prompt's answer can come from, and that no prompt is lost: as long as it is unanswered it is in
  the table, where the user and the release paths find it.
\<close>

section \<open>Frames\<close>

lemma run_nil [simp]: "prompt_run cv [] co = co"
  by (simp add: prompt_run_def)

lemma run_snoc [simp]: "prompt_run cv (es @ [e]) co = prompt_step cv e (prompt_run cv es co)"
  by (simp add: prompt_run_def)

lemma set_result_fields [simp]:
  "co_pending (set_result f d r co) = co_pending co" "co_waits (set_result f d r co) = co_waits co"
  "co_next (set_result f d r co) = co_next co" "co_answers (set_result f d r co) = co_answers co"
  "co_live (set_result f d r co) = co_live co"
  "co_done (set_result f d r co) = (f, Some [(''decision'', PStr d), (''reason'', PStr r)]) # co_done co"
  "is_done (set_result f d r co) g \<longleftrightarrow> g = f \<or> is_done co g"
  by (auto simp: set_result_def is_done_def)

lemma end_wait_fields [simp]:
  "co_pending (end_wait f pid co) = dict_pop pid (co_pending co)" "co_waits (end_wait f pid co) = dict_pop f (co_waits co)"
  "co_next (end_wait f pid co) = co_next co" "co_answers (end_wait f pid co) = co_answers co"
  "co_done (end_wait f pid co) = co_done co" "is_done (end_wait f pid co) g = is_done co g"
  by (simp_all add: end_wait_def is_done_def)

lemma release_fields [simp]:
  "co_waits (release reason e co) = co_waits co" "co_next (release reason e co) = co_next co"
  "co_answers (release reason e co) = co_answers co" "co_pending (release reason e co) = dict_pop (fst e) (co_pending co)"
  "is_done (release reason e co) g \<longleftrightarrow> g = pn_future (snd e) \<or> is_done co g"
  by (auto simp: release_def Let_def is_done_def)

lemma releases_fields [simp]:
  "co_waits (fold (release reason) es co) = co_waits co" "co_next (fold (release reason) es co) = co_next co"
  "co_answers (fold (release reason) es co) = co_answers co"
  "is_done (fold (release reason) es co) g \<longleftrightarrow> g \<in> (pn_future \<circ> snd) ` set es \<or> is_done co g"
  by (induction es arbitrary: co) auto

lemma releases_pending:
  "map_of (co_pending (fold (release reason) es co)) pid = (if pid \<in> fst ` set es then None else map_of (co_pending co) pid)"
  by (induction es arbitrary: co) (auto simp: dict_simps)

lemma release_done:
  "map_of (co_done (release reason e co)) g =
     (if is_done co g \<or> g \<noteq> pn_future (snd e) then map_of (co_done co) g
      else Some (Some [(''decision'', PStr ''deny''), (''reason'', PStr reason)]))"
  by (auto simp: release_def Let_def is_done_def map_of_eq_None_iff)

lemma done_lookup: "is_done co g \<longleftrightarrow> map_of (co_done co) g \<noteq> None"
  by (simp add: is_done_def map_of_eq_None_iff)

lemma releases_done:
  "map_of (co_done (fold (release reason) es co)) g =
     (if is_done co g \<or> g \<notin> (pn_future \<circ> snd) ` set es then map_of (co_done co) g
      else Some (Some [(''decision'', PStr ''deny''), (''reason'', PStr reason)]))"
proof (induction es arbitrary: co)
  case Nil
  then show ?case by simp
next
  case (Cons e es)
  show ?case by (simp add: Cons.IH release_done del: release_fields(4))
qed

lemma normalized_nonempty [simp]: "normalize_decision d \<noteq> []"
  by (simp add: normalize_decision_def Let_def)

lemma decision_read:
  "d \<noteq> [] \<Longrightarrow> py_str cv (get_or [(''decision'', PStr d), (''reason'', PStr r)] ''decision'' (PStr ''deny'')) = d"
  by (simp add: get_or_def py_truthy_def py_str_def)

section \<open>Where answers come from\<close>

definition answered_by_user :: "conversions \<Rightarrow> prompt_event list \<Rightarrow> nat \<Rightarrow> string \<Rightarrow> bool" where
  "answered_by_user cv es f d \<longleftrightarrow>
     (\<exists>i < length es. \<exists>pid decision reason. es ! i = Answer pid decision reason \<and> normalize_decision decision = d
        \<and> (f, pid) \<in> set (co_waits (prompt_run cv (take i es) new_coordinator)))"

lemma answered_later: "answered_by_user cv es f d \<Longrightarrow> answered_by_user cv (es @ [e]) f d"
  unfolding answered_by_user_def
  by (elim exE conjE, rule_tac x = i in exI) (auto simp: nth_append intro!: exI)

lemma answered_now:
  "(f, pid) \<in> set (co_waits (prompt_run cv es new_coordinator)) \<Longrightarrow>
   answered_by_user cv (es @ [Answer pid decision reason]) f (normalize_decision decision)"
  unfolding answered_by_user_def by (intro exI[of _ "length es"]) auto

section \<open>Well-formed states\<close>

definition below_next :: "coordinator \<Rightarrow> bool" where
  "below_next co \<longleftrightarrow>
     (\<forall>f \<in> fst ` set (co_waits co) \<union> fst ` set (co_done co) \<union> (pn_future \<circ> snd) ` set (co_pending co). f < co_next co)"

definition co_wf :: "coordinator \<Rightarrow> bool" where
  "co_wf co \<longleftrightarrow> dict_wf (co_pending co) \<and> dict_wf (co_waits co) \<and> below_next co \<and>
     (\<forall>pid p. map_of (co_pending co) pid = Some p \<longrightarrow> \<not> is_done co (pn_future p) \<longrightarrow> map_of (co_waits co) (pn_future p) = Some pid)"

lemma below_done: "below_next co \<Longrightarrow> is_done co f \<Longrightarrow> f < co_next co"
  by (simp add: below_next_def is_done_def)

lemma wf_new: "co_wf new_coordinator"
  by (simp add: co_wf_def below_next_def new_coordinator_def dict_wf_def)

lemma dict_pop_subset: "set (dict_pop k d) \<subseteq> set d"
  by (auto simp: dict_pop_def)

lemma set_dict_set: "set (dict_set k v d) \<subseteq> insert (k, v) (set d)"
  unfolding dict_set_def by (induction d) auto

lemma wf_ask:
  assumes "co_wf co"
  shows "co_wf (snd (request_begin now fresh own payload (Some (queue, active)) co))"
proof -
  have n: "map_of (co_waits co) (co_next co) = None"
    using assms by (force simp: co_wf_def below_next_def map_of_eq_None_iff)
  have old: "pn_future p \<noteq> co_next co" if "map_of (co_pending co) pid = Some p" for pid p
    using assms map_of_SomeD[OF that] by (force simp: co_wf_def below_next_def)
  have w: "dict_wf (co_waits co @ [(co_next co, x)])" for x
    using assms n by (simp add: co_wf_def dict_wf_def map_of_eq_None_iff image_iff)
  have futures: "(pn_future \<circ> snd) ` set (dict_set k q (co_pending co)) \<subseteq> {..< Suc (co_next co)}"
    if "pn_future q = co_next co" for k q
  proof -
    have "(pn_future \<circ> snd) ` set (co_pending co) \<subseteq> {..< co_next co}"
      using assms by (auto simp: co_wf_def below_next_def)
    then have "pn_future (snd e) < Suc (co_next co)" if "e \<in> set (co_pending co)" for e using that by fastforce
    then show ?thesis using set_dict_set[of k q "co_pending co"] that by fastforce
  qed
  have b: "below_next (co\<lparr>co_pending := dict_set k q (co_pending co), co_next := Suc (co_next co),
      co_waits := co_waits co @ [(co_next co, x)], co_sent := s\<rparr>)" if "pn_future q = co_next co" for k q x s
    using assms futures[OF that, of k] by (auto simp: co_wf_def below_next_def less_Suc_eq)
  show ?thesis using assms n old w b
    by (auto simp: request_begin_def Let_def co_wf_def is_done_def dict_simps inv_intros map_add_def split: option.splits)
qed

text \<open>Every other operation keeps the counter, ends waits only with their entry, and marks only futures
  that exist.\<close>

lemma wf_shrink:
  assumes "co_wf co" "co_next co' = co_next co" "dict_wf (co_pending co')" "dict_wf (co_waits co')"
    and "set (co_pending co') \<subseteq> set (co_pending co)" "set (co_waits co') \<subseteq> set (co_waits co)"
    and "\<And>f. is_done co' f \<Longrightarrow> is_done co f \<or> f \<in> fst ` set (co_waits co) \<union> (pn_future \<circ> snd) ` set (co_pending co)"
    and "\<And>f. is_done co f \<Longrightarrow> is_done co' f"
    and "\<And>pid p. map_of (co_pending co') pid = Some p \<Longrightarrow> \<not> is_done co' (pn_future p) \<Longrightarrow> map_of (co_waits co') (pn_future p) = Some pid"
  shows "co_wf co'"
proof -
  have below: "below_next co" using assms(1) unfolding co_wf_def by blast
  have w: "f < co_next co" if "f \<in> fst ` set (co_waits co)" for f using below that unfolding below_next_def by blast
  have p: "f < co_next co" if "f \<in> (pn_future \<circ> snd) ` set (co_pending co)" for f
    using below that unfolding below_next_def by blast
  have d: "f < co_next co" if "is_done co' f" for f
    using assms(7)[OF that] w[of f] p[of f] below_done[OF below, of f] by blast
  have "fst ` set (co_waits co') \<subseteq> {..< co_next co}" using image_mono[OF assms(6), of fst] w by blast
  moreover have "(pn_future \<circ> snd) ` set (co_pending co') \<subseteq> {..< co_next co}"
    using image_mono[OF assms(5), of "pn_future \<circ> snd"] p by blast
  moreover have "fst ` set (co_done co') \<subseteq> {..< co_next co}" using d unfolding is_done_def by blast
  ultimately have "below_next co'" unfolding below_next_def assms(2) by blast
  then show ?thesis using assms(3,4,9) unfolding co_wf_def by blast
qed

lemma entry_waits:
  "co_wf co \<Longrightarrow> map_of (co_pending co) pid = Some p \<Longrightarrow> \<not> is_done co (pn_future p) \<Longrightarrow>
   map_of (co_waits co) (pn_future p) = Some pid"
  unfolding co_wf_def by blast

lemma wf_parts: "co_wf co \<Longrightarrow> dict_wf (co_pending co)" "co_wf co \<Longrightarrow> dict_wf (co_waits co)"
  unfolding co_wf_def by blast+

lemma entry_future: "map_of (co_pending co) pid = Some p \<Longrightarrow> pn_future p \<in> (pn_future \<circ> snd) ` set (co_pending co)"
  by (force dest: map_of_SomeD)

lemma wf_set_result: "co_wf co \<Longrightarrow> map_of (co_pending co) pid = Some p \<Longrightarrow> co_wf (set_result (pn_future p) d r co)"
  by (rule wf_shrink[of co], use entry_future[of co pid p] in \<open>simp_all add: wf_parts entry_waits\<close>) blast

lemma wf_end_wait:
  assumes "co_wf co" "map_of (co_waits co) f = Some pid" "is_done co f"
  shows "co_wf (end_wait f pid co)"
proof (rule wf_shrink[OF assms(1)])
  fix pid' p
  assume "map_of (co_pending (end_wait f pid co)) pid' = Some p" "\<not> is_done (end_wait f pid co) (pn_future p)"
  then show "map_of (co_waits (end_wait f pid co)) (pn_future p) = Some pid'"
    using assms by (auto simp: dict_simps entry_waits split: if_splits)
qed (use assms(1) dict_pop_subset in \<open>simp_all add: wf_parts inv_intros\<close>)

lemma releases_shrink: "set (co_pending (fold (release reason) es co)) \<subseteq> set (co_pending co)"
proof (induction es arbitrary: co)
  case (Cons e es)
  show ?case using Cons.IH[of "release reason e co"] dict_pop_subset[of "fst e" "co_pending co"] by auto
qed simp

lemma wf_releases:
  assumes "co_wf co" "set es \<subseteq> set (co_pending co)"
  shows "co_wf (fold (release reason) es co)"
proof (rule wf_shrink[OF assms(1)])
  show "set (co_pending (fold (release reason) es co)) \<subseteq> set (co_pending co)" by (rule releases_shrink)
  have "dict_wf (co_pending c) \<Longrightarrow> dict_wf (co_pending (fold (release reason) es c))" for c
    by (induction es arbitrary: c) (simp_all add: inv_intros)
  then show "dict_wf (co_pending (fold (release reason) es co))" using assms(1) by (simp add: wf_parts)
qed (use assms in \<open>auto simp: wf_parts entry_waits releases_pending split: if_splits\<close>)

lemma wf_fields: "co_wf (co\<lparr>co_live := l\<rparr>) = co_wf co" "co_wf (co\<lparr>co_answers := a\<rparr>) = co_wf co"
  by (simp_all add: co_wf_def below_next_def is_done_def)

lemma wf_cancelled: "co_wf co \<Longrightarrow> co_wf (request_cancelled f co)"
proof (cases "map_of (co_waits co) f")
  case (Some pid)
  assume wf: "co_wf co"
  have f: "f \<in> fst ` set (co_waits co)" using Some by (force dest: map_of_SomeD)
  have new: "co_wf (co\<lparr>co_done := (f, None) # co_done co\<rparr>)"
    by (rule wf_shrink[OF wf]) (use wf f in \<open>auto simp: wf_parts entry_waits is_done_def\<close>)
  show ?thesis using wf_end_wait[OF wf Some] wf_end_wait[OF new, of f pid] Some
    by (simp add: request_cancelled_def is_done_def)
qed (simp add: request_cancelled_def)

lemma wf_resumes: "co_wf co \<Longrightarrow> co_wf (request_resumes cv f co)"
  by (auto simp: request_resumes_def wf_fields done_lookup intro: wf_end_wait split: option.splits)

lemma wf_resolve: "co_wf co \<Longrightarrow> co_wf (snd (resolve pid d r co))"
  by (auto simp: resolve_def wf_set_result split: option.splits)

lemma queue_wf_step: "co_wf co \<Longrightarrow> co_wf (prompt_step cv e co)"
  by (cases e) (simp_all add: wf_ask wf_resolve cancel_def wf_resumes wf_cancelled register_route_def unregister_route_def
      wf_fields deny_for_queue_def deny_for_request_def prune_orphaned_def release_where_def wf_releases)

lemma wf_run: "co_wf (prompt_run cv es new_coordinator)"
  by (induction es rule: rev_induct) (simp_all add: wf_new queue_wf_step)

section \<open>Sources\<close>

definition sourced :: "conversions \<Rightarrow> prompt_event list \<Rightarrow> nat \<Rightarrow> string \<Rightarrow> bool" where
  "sourced cv es f d \<longleftrightarrow> d = ''deny'' \<or> answered_by_user cv es f d"

definition results_sourced :: "conversions \<Rightarrow> prompt_event list \<Rightarrow> coordinator \<Rightarrow> bool" where
  "results_sourced cv es co \<longleftrightarrow>
     (\<forall>f res. map_of (co_done co) f = Some (Some res) \<longrightarrow>
        (\<exists>d reason. res = [(''decision'', PStr d), (''reason'', PStr reason)] \<and> d \<noteq> [] \<and> sourced cv es f d))"

definition answers_sourced :: "conversions \<Rightarrow> prompt_event list \<Rightarrow> coordinator \<Rightarrow> bool" where
  "answers_sourced cv es co \<longleftrightarrow> (\<forall>(f, d) \<in> set (co_answers co). sourced cv es f d)"

lemma sourced_later: "sourced cv es f d \<Longrightarrow> sourced cv (es @ [e]) f d"
  by (auto simp: sourced_def answered_later)

lemma results_later: "results_sourced cv es co \<Longrightarrow> results_sourced cv (es @ [e]) co"
  unfolding results_sourced_def using sourced_later by blast

lemma results_set:
  "results_sourced cv es co \<Longrightarrow> sourced cv es f d \<Longrightarrow> d \<noteq> [] \<Longrightarrow> results_sourced cv es (set_result f d r co)"
  unfolding results_sourced_def by auto

lemma results_releases: "results_sourced cv es co \<Longrightarrow> results_sourced cv es (fold (release reason) xs co)"
  unfolding results_sourced_def by (auto simp: releases_done sourced_def)

lemma results_fields:
  "results_sourced cv es (co\<lparr>co_live := l\<rparr>) = results_sourced cv es co"
  "results_sourced cv es (co\<lparr>co_answers := a\<rparr>) = results_sourced cv es co"
  "results_sourced cv es (end_wait f pid co) = results_sourced cv es co"
  "results_sourced cv es co \<Longrightarrow> results_sourced cv es (co\<lparr>co_done := (f, None) # co_done co\<rparr>)"
  by (simp_all add: results_sourced_def)

lemma results_step:
  assumes "results_sourced cv es (prompt_run cv es new_coordinator)"
  shows "results_sourced cv (es @ [e]) (prompt_run cv (es @ [e]) new_coordinator)"
proof -
  let ?co = "prompt_run cv es new_coordinator"
  have old: "results_sourced cv (es @ [e]) ?co" using assms by (rule results_later)
  show ?thesis
  proof (cases e)
    case (Answer pid d reason)
    show ?thesis
    proof (cases "map_of (co_pending ?co) pid")
      case (Some p)
      show ?thesis
      proof (cases "is_done ?co (pn_future p)")
        case False
        then have "(pn_future p, pid) \<in> set (co_waits ?co)"
          using entry_waits[OF wf_run Some] by (simp add: map_of_SomeD)
        then have "sourced cv (es @ [e]) (pn_future p) (normalize_decision d)"
          unfolding Answer sourced_def by (blast intro: answered_now)
        then show ?thesis using old Answer Some False by (simp add: resolve_def results_set)
      qed (use old Answer Some in \<open>simp add: resolve_def\<close>)
    qed (use old Answer in \<open>simp add: resolve_def\<close>)
  next
    case (Cancel pid reason)
    have "normalize_decision ''deny'' = ''deny''" by code_simp
    then have "results_sourced cv (es @ [e]) (snd (resolve pid ''deny'' reason ?co))"
      using old by (auto simp: resolve_def results_set sourced_def split: option.split)
    then show ?thesis by (simp add: Cancel cancel_def)
  next
    case (Opened r)
    show ?thesis using old by (cases "r = []") (simp_all add: Opened register_route_def results_fields)
  next
    case (Ask now fresh own payload queue active)
    then show ?thesis using old by (simp add: request_begin_def Let_def results_sourced_def)
  next
    case (Resume f)
    then show ?thesis using old by (simp add: request_resumes_def results_fields split: option.split)
  next
    case (Interrupt f)
    then show ?thesis using old by (simp add: request_cancelled_def results_fields split: option.split)
  qed (use old in \<open>simp_all add: register_route_def unregister_route_def results_fields deny_for_queue_def
      deny_for_request_def prune_orphaned_def release_where_def results_releases\<close>)
qed

lemma results_run: "results_sourced cv es (prompt_run cv es new_coordinator)"
proof (induction es rule: rev_induct)
  case Nil
  show ?case by (simp add: results_sourced_def new_coordinator_def)
next
  case (snoc e es)
  then show ?case by (rule results_step)
qed

lemma answers_frame:
  "\<nexists>f. e = Resume f \<Longrightarrow> co_answers (prompt_step cv e co) = co_answers co"
  by (cases e) (simp_all add: request_begin_def Let_def resolve_def cancel_def request_cancelled_def register_route_def
      unregister_route_def deny_for_queue_def deny_for_request_def prune_orphaned_def release_where_def split: option.split)

lemma answers_run: "answers_sourced cv es (prompt_run cv es new_coordinator)"
proof (induction es rule: rev_induct)
  case Nil
  show ?case by (simp add: answers_sourced_def new_coordinator_def)
next
  case (snoc e es)
  let ?co = "prompt_run cv es new_coordinator"
  have old: "answers_sourced cv (es @ [e]) ?co" using snoc sourced_later by (fastforce simp: answers_sourced_def)
  show ?case
  proof (cases "\<exists>f. e = Resume f")
    case True
    then obtain f where e: "e = Resume f" by blast
    show ?thesis
    proof (cases "\<exists>pid res. map_of (co_waits ?co) f = Some pid \<and> map_of (co_done ?co) f = Some (Some res)")
      case True
      then obtain pid res where r: "map_of (co_waits ?co) f = Some pid" "map_of (co_done ?co) f = Some (Some res)" by blast
      obtain d reason where d: "res = [(''decision'', PStr d), (''reason'', PStr reason)]" "d \<noteq> []" "sourced cv es f d"
        using results_run[of cv es] r(2) unfolding results_sourced_def by blast
      show ?thesis using old r d sourced_later[OF d(3)]
        by (simp add: e request_resumes_def answers_sourced_def decision_read)
    next
      case False
      then have "request_resumes cv f ?co = ?co" by (auto simp: request_resumes_def split: option.split)
      then show ?thesis using old by (simp add: e)
    qed
  next
    case False
    then show ?thesis using old answers_frame[of e cv ?co] by (simp add: answers_sourced_def)
  qed
qed

text \<open>
  C9. A prompt is answered with anything but a denial only because the user resolved that prompt, under
  its own id, with that decision, while it was waiting. Whatever the order of prompts, answers,
  cancellations, ended turns, closed streams and sweeps, no other path approves.
\<close>

theorem approval_only_by_resolve:
  assumes "(f, d) \<in> set (co_answers (prompt_run cv es new_coordinator))" "d \<noteq> ''deny''"
  shows "\<exists>i < length es. \<exists>pid decision reason. es ! i = Answer pid decision reason \<and> normalize_decision decision = d
    \<and> (f, pid) \<in> set (co_waits (prompt_run cv (take i es) new_coordinator))"
proof -
  have "sourced cv es f d" using answers_run[of cv es] assms(1) by (auto simp: answers_sourced_def)
  then show ?thesis using assms(2) unfolding sourced_def answered_by_user_def by blast
qed

section \<open>No prompt is lost\<close>

fun asked :: "prompt_event \<Rightarrow> string list" where
  "asked (Ask now fresh own payload queue active) = [str_default fresh own]"
| "asked _ = []"

definition asked_ids :: "prompt_event list \<Rightarrow> string list" where
  "asked_ids es = concat (map asked es)"

definition reachable_prompts :: "prompt_event list \<Rightarrow> coordinator \<Rightarrow> bool" where
  "reachable_prompts es co \<longleftrightarrow>
     (\<forall>pid p. map_of (co_pending co) pid = Some p \<longrightarrow> pid \<in> set (asked_ids es)) \<and>
     (\<forall>f pid. map_of (co_waits co) f = Some pid \<longrightarrow> pid \<in> set (asked_ids es)) \<and>
     (\<forall>f g pid. map_of (co_waits co) f = Some pid \<and> map_of (co_waits co) g = Some pid \<longrightarrow> f = g) \<and>
     (\<forall>f pid. map_of (co_waits co) f = Some pid \<longrightarrow> \<not> is_done co f \<longrightarrow>
        (\<exists>p. map_of (co_pending co) pid = Some p \<and> pn_future p = f \<and> (\<exists>r. request_id_of p = PStr r)))"

lemma reachable_parts:
  assumes "reachable_prompts es co"
  shows "map_of (co_pending co) pid = Some p \<Longrightarrow> pid \<in> set (asked_ids es)"
    "map_of (co_waits co) f = Some pid \<Longrightarrow> pid \<in> set (asked_ids es)"
    "map_of (co_waits co) f = Some pid \<Longrightarrow> map_of (co_waits co) g = Some pid \<Longrightarrow> f = g"
    "map_of (co_waits co) f = Some pid \<Longrightarrow> \<not> is_done co f \<Longrightarrow>
       \<exists>p. map_of (co_pending co) pid = Some p \<and> pn_future p = f \<and> (\<exists>r. request_id_of p = PStr r)"
  using assms unfolding reachable_prompts_def by blast+

text \<open>What keeps it: waits and entries only go, an undone wait keeps its entry.\<close>

lemma reachable_shrink:
  assumes "reachable_prompts es co" "set (asked_ids es) \<subseteq> set (asked_ids es')"
    and "\<And>f pid. map_of (co_waits co') f = Some pid \<Longrightarrow> map_of (co_waits co) f = Some pid"
    and "\<And>pid p. map_of (co_pending co') pid = Some p \<Longrightarrow> map_of (co_pending co) pid = Some p"
    and "\<And>f pid p. map_of (co_waits co') f = Some pid \<Longrightarrow> \<not> is_done co' f \<Longrightarrow>
      map_of (co_pending co) pid = Some p \<Longrightarrow> pn_future p = f \<Longrightarrow> \<not> is_done co f \<and> map_of (co_pending co') pid = Some p"
    and "\<And>f. is_done co f \<Longrightarrow> is_done co' f"
  shows "reachable_prompts es' co'"
  unfolding reachable_prompts_def
proof (intro conjI allI impI)
  fix f pid assume w: "map_of (co_waits co') f = Some pid" "\<not> is_done co' f"
  then have "\<not> is_done co f" using assms(6) by blast
  then obtain p where "map_of (co_pending co) pid = Some p" "pn_future p = f" "\<exists>r. request_id_of p = PStr r"
    using reachable_parts(4)[OF assms(1) assms(3)[OF w(1)]] by blast
  then show "\<exists>p. map_of (co_pending co') pid = Some p \<and> pn_future p = f \<and> (\<exists>r. request_id_of p = PStr r)"
    using assms(5)[OF w] by blast
qed (use assms(2-4) reachable_parts(1-3)[OF assms(1)] in blast)+

lemma reachable_end_wait:
  assumes "reachable_prompts es co" "map_of (co_waits co) f = Some pid" "set (asked_ids es) \<subseteq> set (asked_ids es')"
  shows "reachable_prompts es' (end_wait f pid co)"
proof (rule reachable_shrink[OF assms(1,3)])
  fix g k p
  assume "map_of (co_waits (end_wait f pid co)) g = Some k" "\<not> is_done (end_wait f pid co) g"
    "map_of (co_pending co) k = Some p"
  then show "\<not> is_done co g \<and> map_of (co_pending (end_wait f pid co)) k = Some p"
    using reachable_parts(3)[OF assms(1,2), of g] by (auto simp: dict_simps split: if_splits)
qed (auto simp: dict_simps split: if_splits)

lemma reachable_releases:
  assumes "reachable_prompts es co" "co_wf co" "set xs \<subseteq> set (co_pending co)" "set (asked_ids es) \<subseteq> set (asked_ids es')"
  shows "reachable_prompts es' (fold (release reason) xs co)"
proof (rule reachable_shrink[OF assms(1,4)])
  fix f pid p
  assume *: "\<not> is_done (fold (release reason) xs co) f" "map_of (co_pending co) pid = Some p" "pn_future p = f"
  have "pid \<notin> fst ` set xs"
  proof
    assume "pid \<in> fst ` set xs"
    then obtain q where "(pid, q) \<in> set xs" by force
    then have "map_of (co_pending co) pid = Some q" using assms(3) dict_wf_lookup[OF wf_parts(1)[OF assms(2)]] by blast
    with \<open>(pid, q) \<in> set xs\<close> * have "f \<in> (pn_future \<circ> snd) ` set xs" by force
    with * show False by simp
  qed
  with * show "\<not> is_done co f \<and> map_of (co_pending (fold (release reason) xs co)) pid = Some p"
    by (simp add: releases_pending)
qed (simp_all add: releases_pending split: if_splits)

lemma reachable_ask:
  assumes "reachable_prompts es co" "co_wf co" "str_default fresh own \<notin> set (asked_ids es)"
  shows "reachable_prompts (es @ [Ask now fresh own payload queue active])
    (snd (request_begin now fresh own payload (Some (queue, active)) co))"
proof -
  let ?pid = "str_default fresh own"
  have none: "map_of (co_pending co) ?pid = None" "\<And>f. map_of (co_waits co) f \<noteq> Some ?pid"
    using assms(3) reachable_parts(1,2)[OF assms(1)] by (metis not_None_eq)+
  have below: "below_next co" using assms(2) unfolding co_wf_def by blast
  then have n: "map_of (co_waits co) (co_next co) = None" "\<not> is_done co (co_next co)"
    using below_done[OF below] by (force simp: below_next_def map_of_eq_None_iff)+
  let ?co = "snd (request_begin now fresh own payload (Some (queue, active)) co)"
  have waits: "map_of (co_waits ?co) f = (if f = co_next co then Some ?pid else map_of (co_waits co) f)" for f
    using n(1) by (simp add: request_begin_def Let_def map_add_def split: option.split)
  have d: "is_done ?co f = is_done co f" for f by (simp add: request_begin_def Let_def is_done_def)
  obtain q where q: "co_pending ?co = dict_set ?pid q (co_pending co)" "pn_future q = co_next co" "\<exists>r. request_id_of q = PStr r"
    by (simp add: request_begin_def Let_def request_id_of_def get_default_def dict_simps)
  have ids: "asked_ids (es @ [Ask now fresh own payload queue active]) = asked_ids es @ [?pid]" by (simp add: asked_ids_def)
  show ?thesis unfolding reachable_prompts_def ids q(1) d
  proof (intro conjI allI impI)
    fix f pid assume w: "map_of (co_waits ?co) f = Some pid" "\<not> is_done co f"
    show "\<exists>p. map_of (dict_set ?pid q (co_pending co)) pid = Some p \<and> pn_future p = f \<and> (\<exists>r. request_id_of p = PStr r)"
    proof (cases "f = co_next co")
      case True
      then show ?thesis using w q by (auto simp: waits dict_simps)
    next
      case False
      then have "map_of (co_waits co) f = Some pid" using w(1) by (simp add: waits)
      moreover from this have "pid \<noteq> ?pid" using none(2) by blast
      ultimately show ?thesis using reachable_parts(4)[OF assms(1) _ w(2)] by (simp add: dict_simps)
    qed
  qed (use reachable_parts(1-3)[OF assms(1)] none(2) in \<open>auto simp: waits dict_simps split: if_splits\<close>)
qed

lemma ids_snoc [simp]: "asked_ids (es @ [e]) = asked_ids es @ asked e"
  by (simp add: asked_ids_def)

lemma reachable_later:
  assumes "reachable_prompts es co" "set (asked_ids es) \<subseteq> set (asked_ids es')" "co_waits co' = co_waits co"
    "co_pending co' = co_pending co" "\<And>f. is_done co f \<Longrightarrow> is_done co' f"
  shows "reachable_prompts es' co'"
  by (rule reachable_shrink[OF assms(1,2)]) (use assms(3-5) in auto)

lemma reachable_step:
  assumes "reachable_prompts es co" "co_wf co" "distinct (asked_ids (es @ [e]))"
  shows "reachable_prompts (es @ [e]) (prompt_step cv e co)"
proof -
  have ids: "set (asked_ids es) \<subseteq> set (asked_ids (es @ [e]))" by simp
  have same: "reachable_prompts (es @ [e]) co" by (rule reachable_later[OF assms(1) ids]) simp_all
  have rel: "reachable_prompts (es @ [e]) (release_where P reason co)" for P reason
    unfolding release_where_def by (rule reachable_releases[OF assms(1,2) _ ids]) auto
  have res: "reachable_prompts (es @ [e]) (snd (resolve pid d reason co))" for pid d reason
    by (rule reachable_later[OF assms(1) ids]) (simp_all add: resolve_def split: option.split)
  show ?thesis
  proof (cases e)
    case (Ask now fresh own payload queue active)
    then show ?thesis using reachable_ask[OF assms(1,2)] assms(3) by simp
  next
    case (Resume f)
    have "reachable_prompts (es @ [e]) (request_resumes cv f co)"
    proof (cases "map_of (co_waits co) f")
      case (Some pid)
      have fin: "reachable_prompts (es @ [e]) ((end_wait f pid co)\<lparr>co_answers := a\<rparr>)" for a
        by (rule reachable_later[OF reachable_end_wait[OF assms(1) Some ids]]) (simp_all add: is_done_def)
      show ?thesis using fin same Some by (simp add: request_resumes_def split: option.split)
    qed (use same in \<open>simp add: request_resumes_def\<close>)
    then show ?thesis by (simp add: Resume)
  next
    case (Interrupt f)
    have "reachable_prompts (es @ [e]) (request_cancelled f co)"
    proof (cases "map_of (co_waits co) f")
      case (Some pid)
      have "reachable_prompts es (co\<lparr>co_done := (f, None) # co_done co\<rparr>)"
        by (rule reachable_later[OF assms(1)]) (simp_all add: is_done_def)
      from reachable_end_wait[OF this _ ids, of f pid] reachable_end_wait[OF assms(1) Some ids] Some
      show ?thesis by (simp add: request_cancelled_def)
    qed (use same in \<open>simp add: request_cancelled_def\<close>)
    then show ?thesis by (simp add: Interrupt)
  next
    case (Opened r)
    then show ?thesis using reachable_later[OF same, of "es @ [e]" "register_route r co"]
      by (simp add: register_route_def is_done_def)
  next
    case (Closed r)
    then show ?thesis using reachable_later[OF same, of "es @ [e]" "unregister_route r co"]
      by (simp add: unregister_route_def is_done_def)
  qed (use rel res in \<open>simp_all add: cancel_def deny_for_queue_def deny_for_request_def prune_orphaned_def\<close>)
qed

lemma reachable_run: "distinct (asked_ids es) \<Longrightarrow> reachable_prompts es (prompt_run cv es new_coordinator)"
proof (induction es rule: rev_induct)
  case Nil
  show ?case by (simp add: reachable_prompts_def new_coordinator_def)
next
  case (snoc e es)
  then show ?case using reachable_step[OF _ wf_run, of es cv es e] by simp
qed

lemma resumes_with:
  "map_of (co_waits co) f = Some pid \<Longrightarrow> map_of (co_done co) f = Some (Some [(''decision'', PStr d), (''reason'', PStr r)]) \<Longrightarrow>
   d \<noteq> [] \<Longrightarrow> co_answers (request_resumes cv f co) = co_answers co @ [(f, d)]"
  by (simp add: request_resumes_def decision_read)

lemma released_iff:
  assumes "co_wf co" "map_of (co_pending co) pid = Some p" "\<not> is_done co (pn_future p)"
  shows "is_done (release_where P reason co) (pn_future p) \<longleftrightarrow> P p"
proof
  assume "is_done (release_where P reason co) (pn_future p)"
  then obtain k q where q: "(k, q) \<in> set (co_pending co)" "P q" "pn_future q = pn_future p"
    using assms(3) by (auto simp: release_where_def)
  then have kq: "map_of (co_pending co) k = Some q" using dict_wf_lookup[OF wf_parts(1)[OF assms(1)]] by blast
  from entry_waits[OF assms(1) kq] entry_waits[OF assms] q(3) assms(3) have "k = pid" by simp
  with kq assms(2) q(2) show "P p" by simp
qed (use assms(2) map_of_SomeD in \<open>force simp: release_where_def\<close>)

lemma released_answer:
  assumes "co_wf co" "map_of (co_pending co) pid = Some p" "\<not> is_done co (pn_future p)" "P p"
  shows "co_answers (request_resumes cv (pn_future p) (release_where P reason co)) = co_answers co @ [(pn_future p, ''deny'')]"
proof -
  have "map_of (co_done (release_where P reason co)) (pn_future p) = Some (Some [(''decision'', PStr ''deny''), (''reason'', PStr reason)])"
    using released_iff[OF assms(1-3), of P reason] assms(3,4) unfolding release_where_def releases_done by (auto simp: release_where_def)
  from resumes_with[OF _ this, of pid cv] entry_waits[OF assms(1-3)] show ?thesis by (simp add: release_where_def)
qed

text \<open>
  C28. No prompt is lost. When prompts have distinct ids, every prompt that waits unanswered is in the
  table under its id, and so can end: resolving it hands its wait the normalised decision, the end of
  its request or of its stream hands it a denial, and a sweep ends it exactly when its request has no
  live route.
\<close>

theorem no_prompt_lost:
  fixes es :: "prompt_event list" and cv :: conversions
  defines "co \<equiv> prompt_run cv es new_coordinator"
  assumes "distinct (asked_ids es)" "map_of (co_waits co) f = Some pid" "\<not> is_done co f"
  shows "\<exists>p r. map_of (co_pending co) pid = Some p \<and> pn_future p = f \<and> request_id_of p = PStr r
    \<and> co_answers (request_resumes cv f (snd (resolve pid d reason co))) = co_answers co @ [(f, normalize_decision d)]
    \<and> co_answers (request_resumes cv f (deny_for_request r reason co)) = co_answers co @ [(f, ''deny'')]
    \<and> co_answers (request_resumes cv f (deny_for_queue (pn_queue p) reason co)) = co_answers co @ [(f, ''deny'')]
    \<and> (is_done (snd (prune_orphaned cv co)) f \<longleftrightarrow> r \<noteq> [] \<and> r \<notin> set (co_live co))"
proof -
  have wf: "co_wf co" unfolding co_def by (rule wf_run)
  obtain p r where p: "map_of (co_pending co) pid = Some p" "pn_future p = f" "request_id_of p = PStr r"
    using reachable_parts(4)[OF reachable_run[OF assms(2)], of cv f pid] assms(3,4) unfolding co_def by blast
  have nd: "\<not> is_done co (pn_future p)" using p(2) assms(4) by simp
  have "co_answers (request_resumes cv f (snd (resolve pid d reason co))) = co_answers co @ [(f, normalize_decision d)]"
    using resumes_with[of "set_result f (normalize_decision d) reason co" f pid "normalize_decision d" reason cv] p assms(3,4)
    by (simp add: resolve_def)
  moreover have "orphaned cv co p \<longleftrightarrow> r \<noteq> [] \<and> r \<notin> set (co_live co)"
  proof -
    have "map_of (pn_request p) ''request_id'' = Some (PStr r)"
      using p(3) by (auto simp: request_id_of_def get_default_def split: option.splits)
    then show ?thesis by (auto simp: orphaned_def Let_def get_or_def py_truthy_def py_str_def)
  qed
  ultimately show ?thesis
    using p released_answer[OF wf p(1) nd] released_iff[OF wf p(1) nd, of "orphaned cv co" "''owner_gone''"]
    by (intro exI[of _ p] exI[of _ r]) (simp add: deny_for_request_def deny_for_queue_def prune_orphaned_def)
qed

section \<open>Runs\<close>

definition plain_conv :: conversions where
  "plain_conv = \<lparr>cv_int = (\<lambda>_. None), cv_float = (\<lambda>_. None), cv_str = (\<lambda>_. [])\<rparr>"

definition asked_twice :: "prompt_event list" where
  "asked_twice = [Opened ''t1'', Ask 0 ''u1'' ''p1'' [] 0 ''t1'', Ask 0 ''u2'' ''p2'' [] 0 ''t1'']"

lemmas coordinator_defs = asked_twice_def prompt_run_def new_coordinator_def register_route_def request_begin_def str_default_def
  resolve_def is_done_def set_result_def request_resumes_def end_wait_def dict_set_def dict_pop_def get_or_def py_truthy_def
  py_str_def prune_orphaned_def orphaned_def release_where_def release_def

theorem approval_only_by_resolve_witness:
  "let es = asked_twice @ [Answer ''p2'' ''allow_once'' [], Resume 1] in
   \<exists>i < length es. \<exists>pid decision reason. es ! i = Answer pid decision reason \<and> normalize_decision decision = ''allow_once''"
proof -
  have "normalize_decision ''allow_once'' = ''allow_once''" by code_simp
  then have "(1, ''allow_once'') \<in> set (co_answers (prompt_run plain_conv (asked_twice @ [Answer ''p2'' ''allow_once'' [], Resume 1]) new_coordinator))"
    by (simp add: coordinator_defs Let_def)
  from approval_only_by_resolve[OF this] show ?thesis unfolding Let_def by fast
qed

theorem no_prompt_lost_witness:
  "let co = prompt_run plain_conv asked_twice new_coordinator in
   co_answers (request_resumes plain_conv 1 (snd (resolve ''p2'' ''deny'' [] co))) = [(1, ''deny'')]
   \<and> \<not> is_done (snd (prune_orphaned plain_conv co)) 1"
proof -
  let ?co = "prompt_run plain_conv asked_twice new_coordinator"
  have "distinct (asked_ids asked_twice)" "map_of (co_waits ?co) 1 = Some ''p2''" "\<not> is_done ?co 1"
    by (simp_all add: coordinator_defs asked_ids_def Let_def)
  from no_prompt_lost[OF this, of "''deny''" "[]"] obtain p r where
    "map_of (co_pending ?co) ''p2'' = Some p" "request_id_of p = PStr r"
    "co_answers (request_resumes plain_conv 1 (snd (resolve ''p2'' ''deny'' [] ?co))) = co_answers ?co @ [(1, normalize_decision ''deny'')]"
    "is_done (snd (prune_orphaned plain_conv ?co)) 1 \<longleftrightarrow> r \<noteq> [] \<and> r \<notin> set (co_live ?co)" by blast
  moreover have "normalize_decision ''deny'' = ''deny''" by code_simp
  moreover have "co_answers ?co = []" "co_live ?co = [''t1'']" by (simp_all add: coordinator_defs Let_def)
  ultimately show ?thesis
    by (auto simp: Let_def coordinator_defs request_id_of_def get_default_def)
qed

text \<open>A request outside any named turn gets its own id as that of its turn, which no route carries: the next
  sweep denies it.\<close>

lemma unnamed_turn_swept:
  "co_answers (prompt_run plain_conv [Ask 0 ''u1'' ''p1'' [] 0 [], Prune, Resume 0] new_coordinator) = [(0, ''deny'')]"
  by (simp add: coordinator_defs Let_def)

end
