(* ===== verification/Error_Classifier.thy ===== *)
theory Error_Classifier imports Recovery_Base Action_Descriptors begin

text \<open>
  \<open>engine/recovery/error_classifier.py\<close>: the category of an error from its HTTP status and its text. The
  two tables that can be extended at run time are a record; the friendly texts of categories are a
  parameter. An exception is its class name, the names of all its classes, its text and its attributes.
\<close>

section \<open>Categories\<close>

datatype error_category =
    EC_TRANSIENT | EC_RATE_LIMITED | EC_OVERLOADED | EC_CONTEXT_OVERFLOW | EC_PAYLOAD_TOO_LARGE | EC_FORMAT_ERROR
  | EC_TOOL_FAILURE | EC_AUTH_ERROR | EC_AUTH_PERMANENT | EC_BILLING | EC_CONTENT_BLOCKED | EC_MODEL_NOT_FOUND
  | EC_IMAGE_TOO_LARGE | EC_SSL_ERROR | EC_PERMANENT

fun category_value :: "error_category \<Rightarrow> string" where
  "category_value EC_TRANSIENT = ''transient''"
| "category_value EC_RATE_LIMITED = ''rate_limited''"
| "category_value EC_OVERLOADED = ''overloaded''"
| "category_value EC_CONTEXT_OVERFLOW = ''context_overflow''"
| "category_value EC_PAYLOAD_TOO_LARGE = ''payload_too_large''"
| "category_value EC_FORMAT_ERROR = ''format_error''"
| "category_value EC_TOOL_FAILURE = ''tool_failure''"
| "category_value EC_AUTH_ERROR = ''auth_error''"
| "category_value EC_AUTH_PERMANENT = ''auth_permanent''"
| "category_value EC_BILLING = ''billing''"
| "category_value EC_CONTENT_BLOCKED = ''content_blocked''"
| "category_value EC_MODEL_NOT_FOUND = ''model_not_found''"
| "category_value EC_IMAGE_TOO_LARGE = ''image_too_large''"
| "category_value EC_SSL_ERROR = ''ssl_error''"
| "category_value EC_PERMANENT = ''permanent''"

record recovery_plan =
  rp_retry :: bool
  rp_backoff :: bool
  rp_compress :: bool
  rp_inform :: bool
  rp_fallback :: bool
  rp_rotate :: bool
  rp_retries :: int
  rp_delay :: real

definition no_plan :: recovery_plan where
  "no_plan = \<lparr>rp_retry = False, rp_backoff = False, rp_compress = False, rp_inform = False, rp_fallback = False,
     rp_rotate = False, rp_retries = 0, rp_delay = 1\<rparr>"

definition build_recovery_map :: "int \<Rightarrow> real \<Rightarrow> error_category \<Rightarrow> recovery_plan" where
  "build_recovery_map retries delay c =
     (case c of
        EC_TRANSIENT \<Rightarrow> no_plan\<lparr>rp_retry := True, rp_backoff := True, rp_retries := retries\<rparr>
      | EC_RATE_LIMITED \<Rightarrow> no_plan\<lparr>rp_retry := True, rp_backoff := True, rp_retries := retries + 2, rp_delay := delay\<rparr>
      | EC_OVERLOADED \<Rightarrow> no_plan\<lparr>rp_retry := True, rp_backoff := True, rp_retries := retries, rp_delay := delay * 2\<rparr>
      | EC_CONTEXT_OVERFLOW \<Rightarrow> no_plan\<lparr>rp_retry := True, rp_compress := True, rp_retries := 1\<rparr>
      | EC_PAYLOAD_TOO_LARGE \<Rightarrow> no_plan\<lparr>rp_retry := True, rp_compress := True, rp_retries := 1\<rparr>
      | EC_FORMAT_ERROR \<Rightarrow> no_plan\<lparr>rp_retry := True, rp_retries := 2\<rparr>
      | EC_TOOL_FAILURE \<Rightarrow> no_plan\<lparr>rp_inform := True\<rparr>
      | EC_AUTH_ERROR \<Rightarrow> no_plan\<lparr>rp_rotate := True, rp_retry := True, rp_retries := 1\<rparr>
      | EC_BILLING \<Rightarrow> no_plan\<lparr>rp_rotate := True, rp_fallback := True\<rparr>
      | EC_CONTENT_BLOCKED \<Rightarrow> no_plan\<lparr>rp_fallback := True\<rparr>
      | EC_MODEL_NOT_FOUND \<Rightarrow> no_plan\<lparr>rp_fallback := True\<rparr>
      | EC_IMAGE_TOO_LARGE \<Rightarrow> no_plan\<lparr>rp_retry := True, rp_retries := 1\<rparr>
      | _ \<Rightarrow> no_plan)"

definition recovery_map :: "error_category \<Rightarrow> recovery_plan" where
  "recovery_map = build_recovery_map 3 5"

section \<open>Tables\<close>

text \<open>A rule asks for one of its words, or by its predicate for one of each of two groups.\<close>

datatype rule_test = AnyWord "string list" | Both "string list" "string list"

fun passes :: "rule_test \<Rightarrow> string \<Rightarrow> bool" where
  "passes (AnyWord ws) s = any_in ws s"
| "passes (Both us ws) s = (any_in us s \<and> any_in ws s)"

type_synonym message_rule = "error_category \<times> rule_test"

record error_tables =
  et_status :: "(int \<times> error_category) list"
  et_rules :: "message_rule list"

definition status_codes :: "(int \<times> error_category) list" where
  "status_codes = [(401, EC_AUTH_PERMANENT), (413, EC_PAYLOAD_TOO_LARGE), (503, EC_OVERLOADED), (504, EC_TRANSIENT)]"

definition context_words :: "string list" where
  "context_words = [''context'', ''token'', ''length'', ''maximum context'', ''max_tokens'']"

definition status_refinement :: "(int \<times> message_rule list \<times> error_category) list" where
  "status_refinement =
     [(403, [(EC_BILLING, AnyWord [''billing'', ''quota'', ''payment''])], EC_AUTH_PERMANENT),
      (402, [(EC_RATE_LIMITED, AnyWord [''try again'', ''resets at'', ''temporary''])], EC_BILLING),
      (404, [(EC_MODEL_NOT_FOUND, AnyWord [''model''])], EC_PERMANENT),
      (422, [(EC_CONTEXT_OVERFLOW, AnyWord context_words)], EC_FORMAT_ERROR),
      (429, [(EC_OVERLOADED, AnyWord [''overloaded'', ''capacity''])], EC_RATE_LIMITED),
      (500, [(EC_CONTEXT_OVERFLOW, AnyWord context_words)], EC_TRANSIENT),
      (502, [(EC_CONTEXT_OVERFLOW, AnyWord context_words)], EC_TRANSIENT)]"

definition client_refinement :: "message_rule list" where
  "client_refinement =
     [(EC_CONTENT_BLOCKED, AnyWord [''content_policy'', ''safety'', ''blocked'']),
      (EC_IMAGE_TOO_LARGE, Both [''image''] [''large'', ''size''])]"

definition message_rules :: "message_rule list" where
  "message_rules =
     [(EC_SSL_ERROR, Both [''ssl'', ''certificate''] [''verify'', ''expired'']),
      (EC_TRANSIENT, AnyWord [''timeout'', ''timed out'', ''connection'']),
      (EC_RATE_LIMITED, AnyWord [''rate'', ''429'', ''too many'', ''throttl'']),
      (EC_OVERLOADED, AnyWord [''overloaded'', ''503'', ''capacity'', ''server busy'']),
      (EC_CONTEXT_OVERFLOW, AnyWord context_words),
      (EC_BILLING, AnyWord [''insufficient_quota'', ''billing'', ''payment'', ''quota exceeded'', ''402'']),
      (EC_AUTH_ERROR, AnyWord [''api_key'', ''api key'', ''unauthorized'', ''forbidden'', ''401'', ''403'']),
      (EC_CONTENT_BLOCKED, AnyWord [''content_policy'', ''safety'', ''content filter'', ''moderation'']),
      (EC_FORMAT_ERROR, AnyWord [''format'', ''json'', ''parse'']),
      (EC_MODEL_NOT_FOUND, Both [''model''] [''not found'', ''does not exist''])]"

definition tool_error_rules :: "message_rule list" where
  "tool_error_rules =
     [(EC_TOOL_FAILURE, AnyWord [''permission'', ''access denied'']), (EC_TRANSIENT, AnyWord [''timeout'', ''timed out'']),
      (EC_TOOL_FAILURE, AnyWord [''not found'']), (EC_RATE_LIMITED, AnyWord [''rate'', ''throttl''])]"

definition default_tables :: error_tables where
  "default_tables = \<lparr>et_status = status_codes, et_rules = message_rules\<rparr>"

definition register_message_rule :: "message_rule \<Rightarrow> int \<Rightarrow> error_tables \<Rightarrow> error_tables" where
  "register_message_rule rule priority t =
     (if priority < 0 \<or> priority \<ge> int (length (et_rules t)) then t\<lparr>et_rules := et_rules t @ [rule]\<rparr>
      else t\<lparr>et_rules := take (nat priority) (et_rules t) @ rule # drop (nat priority) (et_rules t)\<rparr>)"

definition register_status_code :: "int \<Rightarrow> error_category \<Rightarrow> error_tables \<Rightarrow> error_tables" where
  "register_status_code status c t = t\<lparr>et_status := dict_set status c (et_status t)\<rparr>"

section \<open>Classification\<close>

definition first_rule :: "message_rule list \<Rightarrow> error_category \<Rightarrow> string \<Rightarrow> error_category" where
  "first_rule rules fallback msg =
     (case find (\<lambda>(_, t). passes t msg) rules of Some (c, _) \<Rightarrow> c | None \<Rightarrow> fallback)"

definition classify_by_status :: "error_tables \<Rightarrow> int \<Rightarrow> string \<Rightarrow> error_category option" where
  "classify_by_status t status msg =
     (case map_of (et_status t) status of
        Some c \<Rightarrow> Some c
      | None \<Rightarrow>
          (case map_of status_refinement status of
             Some (rules, fallback) \<Rightarrow> Some (first_rule rules fallback msg)
           | None \<Rightarrow>
               if 400 \<le> status \<and> status < 500 then Some (first_rule client_refinement EC_FORMAT_ERROR msg)
               else if 500 \<le> status \<and> status < 600 then Some EC_TRANSIENT
               else None))"

definition classify_by_message :: "error_tables \<Rightarrow> string \<Rightarrow> error_category" where
  "classify_by_message t msg = first_rule (et_rules t) EC_PERMANENT msg"

definition classify_tool_message :: "string \<Rightarrow> error_category" where
  "classify_tool_message err = first_rule tool_error_rules EC_TOOL_FAILURE (py_lower err)"

record exn =
  ex_name :: string
  ex_classes :: "string list"
  ex_text :: string
  ex_attrs :: "pyval dict"

definition status_attribute :: "exn \<Rightarrow> string \<Rightarrow> int option" where
  "status_attribute ex k =
     (case map_of (ex_attrs ex) k of Some (PInt n) \<Rightarrow> if 100 \<le> n \<and> n \<le> 599 then Some n else None | _ \<Rightarrow> None)"

definition status_texts :: "(int \<times> string) list" where
  "status_texts =
     [(400, ''400''), (401, ''401''), (402, ''402''), (403, ''403''), (404, ''404''), (413, ''413''), (422, ''422''),
      (429, ''429''), (500, ''500''), (502, ''502''), (503, ''503''), (504, ''504'')]"

definition extract_status_code :: "exn \<Rightarrow> int option" where
  "extract_status_code ex =
     (case List.map_filter (status_attribute ex) [''status_code'', ''status'', ''code'', ''http_status''] of
        n # _ \<Rightarrow> Some n
      | [] \<Rightarrow> map_option fst (find (\<lambda>(_, s). py_contains s (ex_text ex)) status_texts))"

definition classify :: "error_tables \<Rightarrow> exn \<Rightarrow> error_category" where
  "classify t ex =
     (let msg = py_lower (ex_text ex) in
      case extract_status_code ex of
        None \<Rightarrow> classify_by_message t msg
      | Some status \<Rightarrow> (case classify_by_status t status msg of Some c \<Rightarrow> c | None \<Rightarrow> classify_by_message t msg))"

record classified_error =
  ce_category :: error_category
  ce_status :: "int option"
  ce_message :: string
  ce_retryable :: bool
  ce_compress :: bool
  ce_fallback :: bool
  ce_rotate :: bool

definition classify_detailed :: "error_tables \<Rightarrow> (error_category \<Rightarrow> recovery_plan) \<Rightarrow> exn \<Rightarrow> classified_error" where
  "classify_detailed t plans ex =
     (let c = classify t ex; p = plans c in
      \<lparr>ce_category = c, ce_status = extract_status_code ex, ce_message = take 500 (ex_text ex), ce_retryable = rp_retry p,
       ce_compress = rp_compress p, ce_fallback = rp_fallback p, ce_rotate = rp_rotate p\<rparr>)"

definition classify_tool_error :: "conversions \<Rightarrow> pyval dict \<Rightarrow> error_category" where
  "classify_tool_error cv d =
     (if py_truthy (get_default d ''ok'' (PBool True)) then EC_TRANSIENT
      else classify_tool_message (py_str cv (get_default d ''error'' (PStr []))))"

definition friendly_message :: "(error_category \<Rightarrow> string option) \<Rightarrow> error_category \<Rightarrow> string \<Rightarrow> string" where
  "friendly_message texts c detail =
     (case texts c of
        Some s \<Rightarrow> s
      | None \<Rightarrow>
          let rest = py_strip detail; start = ''LLM request failed ('' @ category_value c in
          if rest \<noteq> [] then start @ ''): '' @ take 200 rest else start @ '').'')"

text \<open>\<open>draw\<close> is the random number between 0 and 1.\<close>

definition jittered_backoff :: "real \<Rightarrow> real \<Rightarrow> real \<Rightarrow> nat \<Rightarrow> real" where
  "jittered_backoff draw base cap attempt = draw * min cap (base * 2 ^ attempt)"

end
