(* ===== verification/Unified_Classifier.thy ===== *)
theory Unified_Classifier imports Error_Classifier Recovery_Coordinator Tool_Execution begin

text \<open>
  \<open>engine/recovery/unified_classifier.py\<close>: envelopes from exceptions and tool results; and
  \<open>_evaluate_tool_failures\<close> of \<open>engine/tool_dispatch_engine.py\<close>, which decides by them whether a turn ends
  and writes each decision to the audit sink (\<open>engine/recovery/recovery_audit.py\<close>).
  The id and the time of a new envelope are arguments; a result holds plain values, so a side-effect
  state in it is text.
\<close>

section \<open>Recoverability\<close>

definition default_mappings :: "(recoverability \<times> string) dict" where
  "default_mappings =
     [(''transient'', AUTO_RETRY, ''transient''), (''rate_limited'', AUTO_RETRY, ''rate_limited''),
      (''overloaded'', AUTO_RETRY, ''overloaded''), (''context_overflow'', AUTO_RECOVER, ''context_overflow''),
      (''payload_too_large'', AUTO_RECOVER, ''payload_too_large''), (''format_error'', AUTO_RECOVER, ''format_error''),
      (''tool_failure'', USER_FIXABLE, ''tool_failure''), (''auth_error'', AUTO_RETRY, ''auth_error''),
      (''auth_permanent'', NON_RECOVERABLE, ''auth_permanent''), (''billing'', USER_FIXABLE, ''billing''),
      (''content_blocked'', NON_RECOVERABLE, ''content_blocked''), (''model_not_found'', USER_FIXABLE, ''model_not_found''),
      (''image_too_large'', AUTO_RECOVER, ''image_too_large''), (''ssl_error'', NON_RECOVERABLE, ''ssl_error''),
      (''permanent'', NON_RECOVERABLE, ''permanent''), (''internal_defect'', NON_RECOVERABLE, ''internal_defect'')]"

definition register_mapping ::
  "string \<Rightarrow> recoverability \<Rightarrow> string \<Rightarrow> (recoverability \<times> string) dict \<Rightarrow> (recoverability \<times> string) dict" where
  "register_mapping category r cls reg = dict_set category (r, str_default category cls) reg"

definition mapping_of :: "(recoverability \<times> string) dict \<Rightarrow> string \<Rightarrow> recoverability \<times> string" where
  "mapping_of reg category = (case map_of reg category of Some m \<Rightarrow> m | None \<Rightarrow> (NON_RECOVERABLE, ''unknown''))"

definition defect_types :: "string list" where
  "defect_types =
     [''AttributeError'', ''NameError'', ''TypeError'', ''IndexError'', ''KeyError'', ''ImportError'', ''AssertionError'',
      ''NotImplementedError'']"

definition instance_of :: "exn \<Rightarrow> string list \<Rightarrow> bool" where
  "instance_of ex ts \<longleftrightarrow> list_ex (\<lambda>t. t \<in> set ts) (ex_classes ex)"

section \<open>Envelopes\<close>

definition create_envelope ::
  "string \<times> real \<Rightarrow> failure_source \<Rightarrow> string \<Rightarrow> string \<Rightarrow> string \<Rightarrow> string \<Rightarrow> recoverability \<Rightarrow> side_effect_state \<Rightarrow>
   failure_context \<Rightarrow> string option \<Rightarrow> failure_envelope" where
  "create_envelope born src category cls code msg r se ctx hint =
     \<lparr>fe_id = fst born, fe_source = src, fe_category = category, fe_class = cls, fe_code = code, fe_message = msg,
      fe_recoverability = r, fe_side_effect = se, fe_context = ctx, fe_timestamp = snd born, fe_hint = hint\<rparr>"

definition no_context :: failure_context where
  "no_context = \<lparr>fc_tool_name = [], fc_arguments = []\<rparr>"

definition provider_context :: "string \<Rightarrow> string \<Rightarrow> failure_context" where
  "provider_context provider model =
     no_context\<lparr>fc_arguments := if provider \<noteq> [] \<or> model \<noteq> []
                               then [(''model'', PStr model), (''provider'', PStr provider)] else []\<rparr>"

definition classify_internal_defect :: "string \<times> real \<Rightarrow> exn \<Rightarrow> string \<Rightarrow> string \<Rightarrow> failure_envelope" where
  "classify_internal_defect born ex provider model =
     create_envelope born SRC_SYSTEM ''internal_defect'' ''internal_defect'' (''internal_'' @ py_lower (ex_name ex))
       (take 500 (ex_name ex @ '': '' @ ex_text ex)) NON_RECOVERABLE SE_NONE (provider_context provider model)
       (Some (''This is a defect in LeapFlow ('' @ ex_name ex
              @ ''), not a provider or network problem. Retrying will not help; the traceback is in the daemon log.''))"

definition exn_attr :: "conversions \<Rightarrow> exn \<Rightarrow> string \<Rightarrow> string" where
  "exn_attr cv ex k = py_str cv (get_default (ex_attrs ex) k PNone)"

definition classify_credentials_exhausted ::
  "conversions \<Rightarrow> string \<times> real \<Rightarrow> exn \<Rightarrow> string \<Rightarrow> string \<Rightarrow> failure_envelope" where
  "classify_credentials_exhausted cv born ex provider model =
     create_envelope born SRC_LLM ''auth_permanent'' ''auth_permanent'' ''llm_credentials_exhausted'' (take 500 (ex_text ex))
       ADMIN_REQUIRED SE_NONE (provider_context (str_default (exn_attr cv ex ''provider'') provider) model)
       (Some (''All configured LLM API keys are unusable ('' @ exn_attr cv ex ''dead'' @ '' revoked/billing-dead, ''
              @ exn_attr cv ex ''cooling_down''
              @ '' rate-limited). Add or restore a valid key, or wait for rate limits to reset.''))"

record llm_classifier =
  lc_tables :: error_tables
  lc_registry :: "(recoverability \<times> string) dict"
  lc_texts :: "error_category \<Rightarrow> string option"

definition classify_llm_error ::
  "llm_classifier \<Rightarrow> conversions \<Rightarrow> string \<times> real \<Rightarrow> exn \<Rightarrow> string \<Rightarrow> string \<Rightarrow> failure_envelope" where
  "classify_llm_error lc cv born ex provider model =
     (if instance_of ex defect_types then classify_internal_defect born ex provider model
      else if instance_of ex [''AllCredentialsExhausted''] then classify_credentials_exhausted cv born ex provider model
      else
        let c = classify (lc_tables lc) ex; value = category_value c; (r, cls) = mapping_of (lc_registry lc) value;
            hint = friendly_message (lc_texts lc) c (take 200 (ex_text ex)) in
        create_envelope born SRC_LLM value cls (''llm_'' @ value) (take 500 (ex_text ex)) r SE_NONE
          (provider_context provider model) (if hint \<noteq> [] then Some hint else None))"

section \<open>Tool results\<close>

definition permission_classes :: "string list" where
  "permission_classes = [''authorization'', ''scope_denied'']"

definition permission_codes :: "string list" where
  "permission_codes = [''access_denied'', ''missing_scope'', ''platform_degraded'']"

definition correctable_codes :: "string list" where
  "correctable_codes =
     [''shell_command_not_found'', ''shell_command_required'', ''shell_invalid_cwd'', ''shell_nonzero_exit'',
      ''shell_syntax_error'', ''window_discovery_invalid_result'', ''window_target_required'']"

definition terminal_codes :: "string list" where
  "terminal_codes =
     [''approval_denied'', ''cua_driver_unavailable'', ''repeated_terminal_failure'', ''shell_command_blocked'',
      ''shell_cwd_blocked'', ''shell_execution_failed'', ''shell_io_failure'', ''workspace_access_denied'']"

definition timeout_words :: "string list" where
  "timeout_words = [''timeout'', ''timed out'']"

definition side_effect_of_policy :: "pyval \<Rightarrow> side_effect_state" where
  "side_effect_of_policy policy =
     (if policy = PStr ''read_only'' then SE_NONE
      else if policy = PStr ''external_side_effect'' then SE_UNKNOWN
      else if policy \<in> {PStr ''mutating_idempotent'', PStr ''mutating_once''} then SE_PARTIAL
      else SE_UNKNOWN)"

definition side_effect_named :: "string \<Rightarrow> side_effect_state option" where
  "side_effect_named s = find (\<lambda>st. side_effect_value st = s) [SE_NONE, SE_COMMITTED, SE_PARTIAL, SE_UNKNOWN]"

definition side_effect_of_result :: "pyval dict \<Rightarrow> pyval \<Rightarrow> side_effect_state" where
  "side_effect_of_result d policy =
     (if map_of d ''effect_uncertain'' = Some (PBool True) then SE_UNKNOWN
      else case map_of d ''side_effect_state'' of
             None \<Rightarrow> side_effect_of_policy policy
           | Some (PStr s) \<Rightarrow> (case side_effect_named (py_lower (py_strip s)) of Some st \<Rightarrow> st | None \<Rightarrow> SE_UNKNOWN)
           | Some _ \<Rightarrow> SE_UNKNOWN)"

definition tool_context_of :: "string \<Rightarrow> failure_context" where
  "tool_context_of tool = no_context\<lparr>fc_tool_name := tool\<rparr>"

definition is_failure_result :: "pyval dict \<Rightarrow> bool" where
  "is_failure_result d \<longleftrightarrow>
     get_default d ''ok'' (PBool True) \<noteq> PBool True
     \<and> \<not> py_truthy (get_default d ''duplicate_suppressed'' (PBool False))
     \<and> map_of d ''counts_as_failure'' \<noteq> Some (PBool False)"

definition classify_tool_result ::
  "conversions \<Rightarrow> string \<times> real \<Rightarrow> pyval dict \<Rightarrow> string \<Rightarrow> pyval \<Rightarrow> failure_envelope option" where
  "classify_tool_result cv born d tool policy =
     (if \<not> is_failure_result d then None
      else
        let text = (\<lambda>k. py_str cv (get_or d k (PStr [])));
            cls = text ''failure_class''; code = text ''failure_code''; err = text ''error''; kind = text ''error_type'';
            retryable = (case get_default d ''retryable'' PNone of PNone \<Rightarrow> True | v \<Rightarrow> py_truthy v);
            se = side_effect_of_result d policy;
            envelope = (\<lambda>category c1 c2 msg r s.
              create_envelope born SRC_TOOL category c1 c2 msg r s (tool_context_of tool) None) in
        Some
          (if cls \<in> set permission_classes \<or> code \<in> set permission_codes then
             envelope ''tool_permission'' (str_default ''authorization'' cls) (str_default ''permission_denied'' code)
               (str_default ''Permission denied'' err) NON_RECOVERABLE se
           else if code \<in> set correctable_codes then
             envelope ''tool_failure'' (str_default ''agent_correctable_tool_failure'' cls) code
               (str_default ''Tool action failed and requires a changed approach'' err) USER_FIXABLE se
           else if code \<in> set terminal_codes then
             envelope ''tool_terminal'' (str_default ''terminal_tool_failure'' cls) code
               (str_default ''Tool execution cannot be retried safely'' err) NON_RECOVERABLE se
           else if kind = ''unknown_tool'' \<and> retryable then
             envelope ''tool_unknown'' ''unknown_tool'' (str_default ''tool_not_found'' code)
               (str_default (''Unknown tool: '' @ tool) err) AUTO_RECOVER SE_NONE
           else if any_in timeout_words (py_lower err) then
             envelope ''tool_timeout'' ''timeout'' (str_default ''execution_timeout'' code) err
               (if policy = PStr ''read_only'' then AUTO_RETRY else USER_FIXABLE) se
           else
             envelope ''tool_failure'' (str_default ''tool_error'' cls) (str_default ''execution_failed'' code)
               (str_default ''Tool execution failed'' err) (if retryable then AUTO_RETRY else USER_FIXABLE) se))"

section \<open>System errors\<close>

definition classify_system_error :: "conversions \<Rightarrow> string \<times> real \<Rightarrow> exn \<Rightarrow> failure_envelope" where
  "classify_system_error cv born ex =
     (let msg = py_lower (ex_text ex);
          envelope = (\<lambda>category cls code r se.
            create_envelope born SRC_SYSTEM category cls code (take 500 (ex_text ex)) r se no_context None) in
      if instance_of ex [''TimeoutError''] then envelope ''system_timeout'' ''timeout'' ''system_timeout'' AUTO_RETRY SE_NONE
      else if instance_of ex [''MemoryError''] then
        envelope ''system_resource'' ''memory_error'' ''out_of_memory'' NON_RECOVERABLE SE_UNKNOWN
      else if instance_of ex [''OSError''] then
        envelope ''system_io'' ''os_error'' (''errno_'' @ py_str cv (get_default (ex_attrs ex) ''errno'' (PStr ''unknown'')))
          AUTO_RETRY SE_UNKNOWN
      else if any_in timeout_words msg then envelope ''system_timeout'' ''timeout'' ''system_timeout'' AUTO_RETRY SE_NONE
      else if any_in [''connection'', ''refused'', ''reset''] msg then
        envelope ''system_network'' ''connection_error'' ''connection_failed'' AUTO_RETRY SE_NONE
      else envelope ''system_unknown'' (py_lower (ex_name ex)) ''unclassified'' USER_FIXABLE SE_UNKNOWN)"

section \<open>The audit sink\<close>

text \<open>
  \<open>RecoveryAuditEntry\<close>, without the random \<open>decision_id\<close> and the outcome, which is empty until it is
  filled in. The sink is the list of the entries given to \<open>record\<close>: a failed write to the file is logged
  and swallowed. The coordinator's own \<open>rc_audit\<close> is another list.
\<close>

record audit_line =
  al_timestamp :: real
  al_session :: string
  al_turn :: int
  al_envelope :: string
  al_source :: failure_source
  al_category :: string
  al_code :: string
  al_recoverability :: recoverability
  al_key :: string
  al_action :: recovery_action
  al_reason :: ftext
  al_cost :: int
  al_consumed :: int
  al_remaining :: int

definition create_audit_entry ::
  "real \<Rightarrow> string \<Rightarrow> int \<Rightarrow> failure_envelope \<Rightarrow> recovery_decision \<Rightarrow> recovery_budget \<Rightarrow> audit_line" where
  "create_audit_entry now session turn e d b =
     \<lparr>al_timestamp = now, al_session = session, al_turn = turn, al_envelope = fe_id e, al_source = fe_source e,
      al_category = fe_category e, al_code = fe_code e, al_recoverability = fe_recoverability e,
      al_key = dc_strategy_key d, al_action = dc_action d, al_reason = dc_reason d, al_cost = dc_budget_cost d,
      al_consumed = rb_consumed b, al_remaining = budget_remaining b\<rparr>"

section \<open>Failures of a batch\<close>

text \<open>The decision that hands a recoverable failure back to the model.\<close>

definition feedback_decision :: "failure_envelope \<Rightarrow> recovery_decision" where
  "feedback_decision e =
     decision e SKIP_AND_CONTINUE [Txt ''Tool failure fed back to the agent for autonomous diagnosis and retry'']
       ''tool_feedback''
       \<lparr>rs_consumes_retry_budget = True, rs_resets_retry_count = False, rs_backoff = None\<rparr> 0"

text \<open>The items are the tools and results of a batch, each with the id and time its envelope gets; the
  first one that is not recoverable ends the turn with the coordinator's reason. Every decision goes to
  the sink.\<close>

fun evaluate_failures ::
  "conversions \<Rightarrow> recovery_env \<Rightarrow> string \<Rightarrow> int \<Rightarrow> ((string \<times> real) \<times> string \<times> pyval) list \<Rightarrow> 'p coordinator \<Rightarrow>
   audit_line list \<Rightarrow> (ftext option \<times> 'p coordinator \<times> audit_line list) outcome" where
  "evaluate_failures cv ev session turn [] c sink = Ret (None, c, sink)"
| "evaluate_failures cv ev session turn ((born, tool, v) # items) c sink =
     (case v of
        PDict d \<Rightarrow>
          (case classify_tool_result cv born d tool (get_default d ''execution_policy'' (PStr ''read_only'')) of
             None \<Rightarrow> evaluate_failures cv ev session turn items c sink
           | Some e \<Rightarrow>
               if fe_recoverability e = NON_RECOVERABLE then
                 and_then (evaluate ev e c) (\<lambda>(dec, c').
                 Ret (Some (if dc_reason dec = []
                            then [Txt (''Non-recoverable tool failure ('' @ fe_category e @ '')'')] else dc_reason dec), c',
                      sink @ [create_audit_entry (ev_wall ev) session turn e dec (rc_budget c')]))
               else evaluate_failures cv ev session turn items c
                      (sink @ [create_audit_entry (ev_wall ev) session turn e (feedback_decision e) (rc_budget c)]))
      | _ \<Rightarrow> evaluate_failures cv ev session turn items c sink)"

text \<open>Without a coordinator nothing is decided.\<close>

definition evaluate_tool_failures ::
  "conversions \<Rightarrow> recovery_env \<Rightarrow> string \<Rightarrow> int \<Rightarrow> ((string \<times> real) \<times> string \<times> pyval) list \<Rightarrow> 'p coordinator option \<Rightarrow>
   audit_line list \<Rightarrow> (ftext option \<times> 'p coordinator option \<times> audit_line list) outcome" where
  "evaluate_tool_failures cv ev session turn items coordinator sink =
     (case coordinator of
        None \<Rightarrow> Ret (None, None, sink)
      | Some c \<Rightarrow> and_then (evaluate_failures cv ev session turn items c sink) (\<lambda>(r, c', sink'). Ret (r, Some c', sink')))"

text \<open>The failed results of a batch, as the loop hands them over: \<open>_tool_result_counts_as_failure\<close>.\<close>

definition is_control_signal :: "pyval dict \<Rightarrow> bool" where
  "is_control_signal d \<longleftrightarrow>
     get_true d ''already_executed'' \<or> get_true d ''duplicate_suppressed'' \<or> get_true d ''execution_skipped''"

definition counts_as_failure :: "pyval \<Rightarrow> bool" where
  "counts_as_failure v \<longleftrightarrow>
     (case v of
        PDict d \<Rightarrow> map_of d ''counts_as_failure'' \<noteq> Some (PBool False) \<and> \<not> is_control_signal d
          \<and> map_of d ''ok'' = Some (PBool False)
      | _ \<Rightarrow> False)"

definition failed_items ::
  "((string \<times> real) \<times> string \<times> pyval) list \<Rightarrow> ((string \<times> real) \<times> string \<times> pyval) list" where
  "failed_items batch = filter (\<lambda>(born, tool, v). counts_as_failure v) batch"

end
