(* ===== verification/Shell_Gate.thy ===== *)
theory Shell_Gate imports Risk_Classifier begin

text \<open>
  \<open>tools/shell_tools.py\<close> and \<open>tools/execution_context.py\<close>: what \<open>shell_run\<close> decides before it starts a
  process, on a POSIX system. The gates it may ask are arguments: what each would answer. A
  \<open>shell_env\<close> holds what is read of the machine: \<open>sh_home\<close> is \<open>os.path.expanduser\<close> of \<open>~\<close> or \<open>~name\<close>,
  \<open>sh_resolve\<close> \<open>Path.resolve\<close>, \<open>sh_vars\<close> \<open>os.path.expandvars\<close>, \<open>sh_real\<close> the real path of an expanded one,
  \<open>sh_hint\<close> the hint about managed paths, which only lengthens a message.
\<close>

section \<open>Patterns\<close>

definition hardline_patterns :: "regex list" where
  "hardline_patterns =
     [RxAlt (rx_seq [RxBoundary, ci ''rm'', spaces1, rx_any, ci ''-'', rx_visible, ci ''r'', rx_visible, ci ''f''])
            (rx_seq [RxBoundary, ci ''rm'', spaces1, rx_any, ci ''-'', rx_visible, ci ''f'', rx_visible, ci ''r'']),
      rx_seq [RxBoundary, ci ''rm'', spaces1, ci ''-rf'', spaces1, ci ''/'', spaces0, RxFinish],
      rx_words [''mkfs''],
      rx_seq [RxBoundary, ci ''dd'', spaces1, rx_any, ci ''of=/dev/''],
      rx_seq [exact '':'', RxEmpty, spaces0, exact ''{'', spaces0, exact '':'', spaces0, exact ''|'', spaces0, exact '':'', spaces0, exact ''&'',
              spaces0, exact ''}'', spaces0, exact '';'', spaces0, exact '':''],
      rx_seq [RxBoundary, ci ''>'', rx_opt (ci ''.''), ci ''/dev/'', RxAlt (ci ''s'') (ci ''h''), ci ''d'', rx_range True 97 122],
      rx_words [''shutdown'', ''reboot'', ''halt'', ''poweroff'']]"

definition dangerous_patterns :: "regex list" where
  "dangerous_patterns =
     [rx_words [''sudo''],
      rx_seq [RxBoundary, ci ''chmod'', spaces1, rx_octal, ci ''7'', rx_octal, RxBoundary],
      rx_words [''chown''],
      rx_seq [rx_words [''curl''], rx_any, ci ''|'', spaces0, rx_texts True [''bash'', ''sh'']],
      rx_seq [rx_words [''wget''], rx_any, ci ''|'', spaces0, rx_texts True [''bash'', ''sh'']],
      rx_seq [RxBoundary, rx_texts True [''python'', ''python2'', ''python3'', ''perl'', ''ruby'', ''node'', ''bash'', ''sh'', ''zsh'', ''ksh''],
              spaces1, ci ''<<''],
      rx_seq [RxBoundary, rx_texts True [''pip'', ''npm'', ''brew''], spaces1, ci ''install'', RxBoundary],
      rx_seq [RxBoundary, ci ''git'', spaces1, ci ''push'', spaces1, rx_any, ci ''--force'', RxBoundary],
      rx_seq [RxBoundary, ci ''rm'', spaces1, ci ''-r'', RxBoundary],
      rx_seq [RxBoundary, ci ''kill'', spaces1, ci ''-9'', RxBoundary],
      rx_words [''iptables'', ''nft''],
      rx_seq [RxBoundary, ci ''systemctl'', spaces1, rx_texts True [''stop'', ''disable'', ''mask''], RxBoundary]]"

definition is_hardline_blocked :: "string \<Rightarrow> bool" where
  "is_hardline_blocked command = list_ex (\<lambda>p. rx_search p command) hardline_patterns"

definition is_dangerous :: "string \<Rightarrow> bool" where
  "is_dangerous command = list_ex (\<lambda>p. rx_search p command) dangerous_patterns"

section \<open>Workspace\<close>

record tool_context =
  tc_root :: posix_path
  tc_allowed :: "posix_path list"
  tc_session :: string

record shell_env =
  sh_cv :: conversions
  sh_home :: "string \<Rightarrow> string"
  sh_resolve :: "posix_path \<Rightarrow> posix_path"
  sh_vars :: "string \<Rightarrow> string"
  sh_real :: "string \<Rightarrow> string"
  sh_hint :: "posix_path \<Rightarrow> string"
  sh_max_timeout :: real

definition blocked_cwd_prefixes :: "string list" where
  "blocked_cwd_prefixes = [''/System'', ''/usr'', ''/bin'', ''/sbin'', ''/var/root'']"

definition is_cwd_blocked :: "shell_env \<Rightarrow> string \<Rightarrow> bool" where
  "is_cwd_blocked env cwd \<longleftrightarrow> cwd \<noteq> [] \<and> list_ex (\<lambda>p. py_prefix p (sh_real env cwd)) blocked_cwd_prefixes"

definition path_join :: "posix_path \<Rightarrow> posix_path \<Rightarrow> posix_path" where
  "path_join p q = (if fst q = [] then (fst p, snd p @ snd q) else q)"

definition expand_resolve :: "shell_env \<Rightarrow> posix_path \<Rightarrow> posix_path outcome" where
  "expand_resolve env p = and_then (path_expanduser (sh_home env) p) (\<lambda>q. Ret (sh_resolve env q))"

definition relative_to :: "posix_path \<Rightarrow> posix_path \<Rightarrow> bool" where
  "relative_to p base \<longleftrightarrow> fst p = fst base \<and> take (length (snd base)) (snd p) = snd base"

definition resolve_workspace_path :: "shell_env \<Rightarrow> tool_context option \<Rightarrow> string \<Rightarrow> string \<Rightarrow> posix_path outcome" where
  "resolve_workspace_path env ctx v dflt =
     and_then (path_expanduser (sh_home env) (path_of (str_default dflt v))) (\<lambda>p.
       Ret (sh_resolve env (case ctx of Some c \<Rightarrow> if fst p = [] then path_join (tc_root c) p else p | None \<Rightarrow> p)))"

definition is_within_allowed_roots :: "shell_env \<Rightarrow> posix_path \<Rightarrow> tool_context \<Rightarrow> bool outcome" where
  "is_within_allowed_roots env p c =
     and_then (expand_resolve env p) (\<lambda>q. Ret (list_ex (relative_to q) (tc_allowed c)))"

definition workspace_scope_refusal :: "shell_env \<Rightarrow> tool_context option \<Rightarrow> posix_path \<Rightarrow> string \<Rightarrow> pyval dict option outcome" where
  "workspace_scope_refusal env ctx p operation =
     (case ctx of
        None \<Rightarrow> Ret None
      | Some c \<Rightarrow>
          and_then (is_within_allowed_roots env p c) (\<lambda>inside.
          Ret (if inside then None
               else Some
                 [(''ok'', PBool False),
                  (''error'', PStr (operation @ '' path is outside the active workspace. Resolved path: '' @ path_text p
                     @ ''; workspace root: '' @ path_text (tc_root c)
                     @ ''. Approval is required to access paths outside the workspace.'' @ sh_hint env p)),
                  (''error_type'', PStr ''outside_workspace''), (''retryable'', PBool False),
                  (''workspace_root'', PStr (path_text (tc_root c))),
                  (''allowed_roots'', PList (map (PStr \<circ> path_text) (tc_allowed c))),
                  (''resolved_path'', PStr (path_text p)), (''session_id'', PStr (tc_session c))])))"

text \<open>What the gate reached answers: there is none that evaluates, it raises, or it gives a result with
  its denial message.\<close>

datatype gate_reply = NoEvaluator | EvaluatorRaises | Evaluated bool string

definition require_workspace_access ::
  "shell_env \<Rightarrow> tool_context option \<Rightarrow> gate_reply \<Rightarrow> posix_path \<Rightarrow> string \<Rightarrow> pyval dict option outcome" where
  "require_workspace_access env ctx reply p operation =
     and_then (workspace_scope_refusal env ctx p operation) (\<lambda>refusal.
     Ret (case refusal of
            None \<Rightarrow> None
          | Some d \<Rightarrow>
              (case reply of
                 Evaluated ok denial \<Rightarrow>
                   if ok then None else if denial \<noteq> [] then Some (dict_set ''error'' (PStr denial) d) else Some d
               | _ \<Rightarrow> Some d)))"

section \<open>Operands that leave the workspace\<close>

definition expand_operand :: "shell_env \<Rightarrow> string \<Rightarrow> string" where
  "expand_operand env token =
     (let candidate = after_equals token in
      if CHR ''$'' \<notin> set candidate then candidate
      else
        let expanded = sh_vars env candidate;
            body = (case expanded of _ # c # rest \<Rightarrow> if c = CHR '':'' then rest else expanded | _ \<Rightarrow> expanded) in
        if CHR '':'' \<in> set body \<or> list_ex py_space expanded then [] else expanded)"

definition has_parent_traversal :: "string \<Rightarrow> bool" where
  "has_parent_traversal operand \<longleftrightarrow> ''..'' \<in> set (snd (path_of operand))"

definition windows_absolute :: "string \<Rightarrow> bool" where
  "windows_absolute s =
     (case s of
        a # b # c # _ \<Rightarrow>
          (let n = of_char (py_lower_char a) :: nat in 97 \<le> n \<and> n \<le> 122) \<and> b = CHR '':'' \<and> c \<in> {backslash, CHR ''/''}
      | _ \<Rightarrow> False)"

definition operand_path :: "shell_env \<Rightarrow> posix_path \<Rightarrow> string \<Rightarrow> posix_path option" where
  "operand_path env base token =
     (if list_ex (\<lambda>p. py_prefix p token) [''http://'', ''https://''] then None
      else
        let operand = expand_operand env token in
        if operand = [] then None
        else if list_ex (\<lambda>p. py_prefix p operand) [''/'', ''~''] \<or> windows_absolute operand then Some (path_of operand)
        else if has_parent_traversal operand then Some (path_join base (path_of operand))
        else None)"

fun first_escape :: "shell_env \<Rightarrow> tool_context \<Rightarrow> posix_path \<Rightarrow> string list \<Rightarrow> posix_path option outcome" where
  "first_escape env c base [] = Ret None"
| "first_escape env c base (t # ts) =
     (case operand_path env base t of
        None \<Rightarrow> first_escape env c base ts
      | Some p \<Rightarrow>
          and_then (expand_resolve env p) (\<lambda>q.
          and_then (is_within_allowed_roots env q c) (\<lambda>inside.
          if inside then first_escape env c base ts else Ret (Some q))))"

fun split_words :: "string \<Rightarrow> string \<Rightarrow> string list" where
  "split_words w [] = (if w = [] then [] else [w])"
| "split_words w (c # cs) =
     (if py_space c then (if w = [] then split_words [] cs else w # split_words [] cs) else split_words (w @ [c]) cs)"

definition command_escape :: "shell_env \<Rightarrow> tool_context option \<Rightarrow> string \<Rightarrow> posix_path option \<Rightarrow> posix_path option outcome" where
  "command_escape env ctx command cwd =
     (case ctx of
        None \<Rightarrow> Ret None
      | Some c \<Rightarrow>
          first_escape env c (case cwd of Some p \<Rightarrow> p | None \<Rightarrow> tc_root c)
            (case shlex_split command of Ret ts \<Rightarrow> ts | Raise e \<Rightarrow> split_words [] command))"

section \<open>The decision\<close>

text \<open>\<open>_approve_command\<close>: no gate, an evaluator, or one with only the older \<open>check\<close>.\<close>

datatype command_gate = NoGate | Evaluator "(bool \<times> string) outcome" | Checker "bool outcome"

definition approve_command :: "command_gate \<Rightarrow> bool \<times> string" where
  "approve_command g =
     (let denied = ''Dangerous command requires approval (denied)'' in
      case g of
        NoGate \<Rightarrow> (False, ''Dangerous command blocked (no approval gate configured)'')
      | Evaluator (Ret (ok, message)) \<Rightarrow> if ok then (True, []) else (False, str_default denied message)
      | Checker (Ret ok) \<Rightarrow> (ok, if ok then [] else denied)
      | _ \<Rightarrow> (False, denied))"

definition shell_failure :: "string \<Rightarrow> string \<Rightarrow> string \<Rightarrow> bool \<Rightarrow> string option \<Rightarrow> pyval dict" where
  "shell_failure err failure_class failure_code retryable cwd =
     [(''ok'', PBool False), (''error'', PStr err), (''failure_class'', PStr failure_class),
      (''failure_code'', PStr failure_code), (''retryable'', PBool retryable), (''returncode'', PNone),
      (''stdout'', PStr []), (''stderr'', PStr []),
      (''cwd'', (case cwd of None \<Rightarrow> PNone | Some c \<Rightarrow> PStr c))]"

definition annotate_refusal :: "pyval dict \<Rightarrow> string \<Rightarrow> string \<Rightarrow> pyval dict" where
  "annotate_refusal d failure_class failure_code =
     dict_merge d
       [(''ok'', PBool False), (''failure_class'', PStr failure_class), (''failure_code'', PStr failure_code),
        (''retryable'', PBool False), (''returncode'', get_default d ''returncode'' PNone)]"

datatype shell_decision = Refuse "pyval dict" | Spawn string "string option" real

record shell_gates =
  sl_cwd :: gate_reply
  sl_operand :: gate_reply
  sl_command :: command_gate

definition scope_check ::
  "shell_env \<Rightarrow> tool_context option \<Rightarrow> gate_reply \<Rightarrow> posix_path option \<Rightarrow> string \<Rightarrow>
   shell_decision outcome \<Rightarrow> shell_decision outcome" where
  "scope_check env ctx reply p operation rest =
     (case p of
        None \<Rightarrow> rest
      | Some q \<Rightarrow>
          and_then (require_workspace_access env ctx reply q operation) (\<lambda>err.
          case err of
            Some d \<Rightarrow> Ret (Refuse (annotate_refusal d ''scope_denied'' ''workspace_access_denied''))
          | None \<Rightarrow> rest))"

definition shell_cwd :: "shell_env \<Rightarrow> tool_context option \<Rightarrow> pyval dict \<Rightarrow> posix_path option outcome" where
  "shell_cwd env ctx params =
     (let raw = get_or params ''cwd'' PNone in
      if raw = PNone then Ret (map_option tc_root ctx)
      else and_then (resolve_workspace_path env ctx (py_str (sh_cv env) raw) ''.'') (\<lambda>p. Ret (Some p)))"

definition shell_decide :: "shell_env \<Rightarrow> tool_context option \<Rightarrow> shell_gates \<Rightarrow> pyval dict \<Rightarrow> shell_decision outcome" where
  "shell_decide env ctx gates params =
     and_then (shell_cwd env ctx params) (\<lambda>cwd_path.
     and_then (py_float (sh_cv env) (get_default params ''timeout'' (PFloat 30))) (\<lambda>asked.
     let cwd = map_option path_text cwd_path; timeout = min asked (sh_max_timeout env) in
     case get_default params ''command'' (PStr []) of
       PStr command \<Rightarrow>
         if py_strip command = [] then
           Ret (Refuse (shell_failure ''Missing required parameter: command'' ''invalid_request'' ''shell_command_required'' False cwd))
         else if is_hardline_blocked command then
           Ret (Refuse (shell_failure ''Command blocked by safety policy (destructive pattern detected)''
             ''safety_policy'' ''shell_command_blocked'' False cwd))
         else if is_cwd_blocked env (case cwd of None \<Rightarrow> [] | Some c \<Rightarrow> c) then
           Ret (Refuse (shell_failure (''Working directory blocked by safety policy: '' @ the cwd)
             ''safety_policy'' ''shell_cwd_blocked'' False cwd))
         else
           scope_check env ctx (sl_cwd gates) cwd_path ''shell_run cwd''
             (and_then (command_escape env ctx command cwd_path) (\<lambda>escape.
              scope_check env ctx (sl_operand gates) escape ''shell_run command''
                (let (ok, message) = (if is_dangerous command then approve_command (sl_command gates) else (True, [])) in
                 Ret (if ok then Spawn command cwd timeout
                      else Refuse (shell_failure message ''authorization'' ''approval_denied'' False cwd)))))
     | _ \<Rightarrow>
         Ret (Refuse (shell_failure ''Missing required parameter: command'' ''invalid_request'' ''shell_command_required'' False cwd))))"

end
