(* ===== verification/Shell_Gate_Props.thy ===== *)
theory Shell_Gate_Props imports Shell_Gate Approval_Gate begin

text \<open>
  When \<open>shell_run\<close> starts a process, and how it answers when it does not. The last section evaluates the
  patterns of the two layers on commands that pass both.
\<close>

section \<open>Starting a process\<close>

lemma and_then_Ret [simp]: "and_then r f = Ret y \<longleftrightarrow> (\<exists>x. r = Ret x \<and> f x = Ret y)"
  by (cases r) (auto simp: and_then_def)

lemma first_escape_step:
  "first_escape env c base (t # ts) =
     (case operand_path env base t of
        None \<Rightarrow> first_escape env c base ts
      | Some p \<Rightarrow>
          (case expand_resolve env p of Raise e \<Rightarrow> Raise e
           | Ret q \<Rightarrow> (case is_within_allowed_roots env q c of Raise e \<Rightarrow> Raise e
                       | Ret inside \<Rightarrow> if inside then first_escape env c base ts else Ret (Some q))))"
  by (simp add: and_then_def split: option.split outcome.split)

lemma first_escape_none:
  assumes "first_escape env c base ts = Ret None"
  shows "\<forall>t \<in> set ts. \<forall>p. operand_path env base t = Some p \<longrightarrow>
    (\<exists>q. expand_resolve env p = Ret q \<and> is_within_allowed_roots env q c = Ret True)"
  using assms
proof (induction ts)
  case (Cons t ts)
  from Cons.prems have rest: "first_escape env c base ts = Ret None"
    and here: "\<And>p. operand_path env base t = Some p \<Longrightarrow>
      \<exists>q. expand_resolve env p = Ret q \<and> is_within_allowed_roots env q c = Ret True"
    unfolding first_escape_step by (auto split: option.splits outcome.splits if_splits simp del: split_paired_Ex)
  then show ?case using Cons.IH by simp
qed simp

lemma escape_outside:
  assumes "first_escape env c base ts = Ret (Some q)"
  shows "is_within_allowed_roots env q c = Ret False"
  using assms
proof (induction ts)
  case (Cons t ts)
  then show ?case unfolding first_escape_step by (simp split: option.splits outcome.splits if_splits)
qed simp

text \<open>What \<open>require_workspace_access\<close> lets through: there is no context, the path is inside, or the gate
  approved.\<close>

definition access_given :: "shell_env \<Rightarrow> tool_context option \<Rightarrow> gate_reply \<Rightarrow> posix_path \<Rightarrow> bool" where
  "access_given env ctx reply p \<longleftrightarrow>
     (case ctx of None \<Rightarrow> True | Some c \<Rightarrow> is_within_allowed_roots env p c = Ret True \<or> (\<exists>m. reply = Evaluated True m))"

lemma access_iff:
  assumes "require_workspace_access env ctx reply p operation = Ret None"
  shows "access_given env ctx reply p"
proof (cases ctx)
  case (Some c)
  from assms obtain refusal where r: "workspace_scope_refusal env ctx p operation = Ret refusal"
    and final: "(case refusal of None \<Rightarrow> None
          | Some d \<Rightarrow> (case reply of Evaluated ok denial \<Rightarrow>
                   if ok then None else if denial \<noteq> [] then Some (dict_set ''error'' (PStr denial) d) else Some d
               | _ \<Rightarrow> Some d)) = None"
    unfolding require_workspace_access_def and_then_Ret by blast
  show ?thesis
  proof (cases refusal)
    case None
    with r Some have "is_within_allowed_roots env p c = Ret True"
      unfolding workspace_scope_refusal_def by (simp split: if_splits)
    then show ?thesis by (simp add: access_given_def Some)
  next
    case (Some d)
    then obtain m where "reply = Evaluated True m" using final by (auto split: gate_reply.splits if_splits)
    then show ?thesis by (simp add: access_given_def split: option.split)
  qed
qed (simp add: access_given_def)

lemma scope_check_spawns:
  assumes "scope_check env ctx reply p operation rest = Ret (Spawn a b c)"
  shows "rest = Ret (Spawn a b c)" "\<And>q. p = Some q \<Longrightarrow> access_given env ctx reply q"
  using assms by (auto simp: scope_check_def split: option.splits dest: access_iff)

text \<open>What the shell's operands reach: for every word the guard reads as a path, that path, resolved, is
  inside the allowed roots; unless the gate approved the first one that is not.\<close>

definition operands_given :: "shell_env \<Rightarrow> tool_context option \<Rightarrow> gate_reply \<Rightarrow> posix_path option \<Rightarrow> string \<Rightarrow> bool" where
  "operands_given env ctx reply cwd command \<longleftrightarrow>
     (case ctx of
        None \<Rightarrow> True
      | Some c \<Rightarrow>
          (\<exists>m. reply = Evaluated True m) \<or>
          (\<forall>t \<in> set (case shlex_split command of Ret ts \<Rightarrow> ts | Raise e \<Rightarrow> split_words [] command).
             \<forall>p. operand_path env (case cwd of Some q \<Rightarrow> q | None \<Rightarrow> tc_root c) t = Some p \<longrightarrow>
               (\<exists>q. expand_resolve env p = Ret q \<and> is_within_allowed_roots env q c = Ret True)))"

definition command_approved :: "command_gate \<Rightarrow> bool" where
  "command_approved g \<longleftrightarrow> (\<exists>m. g = Evaluator (Ret (True, m))) \<or> g = Checker (Ret True)"

lemma approve_command_iff: "fst (approve_command g) \<longleftrightarrow> command_approved g"
proof (cases g)
  case (Evaluator r)
  then show ?thesis by (cases r) (auto simp: approve_command_def command_approved_def Let_def split: if_splits)
next
  case (Checker r)
  then show ?thesis by (cases r) (auto simp: approve_command_def command_approved_def Let_def)
qed (simp add: approve_command_def command_approved_def)

lemma escape_given:
  assumes "command_escape env ctx command cwd = Ret escape" "\<And>q. escape = Some q \<Longrightarrow> access_given env ctx reply q"
  shows "operands_given env ctx reply cwd command"
proof (cases ctx)
  case (Some c)
  show ?thesis
  proof (cases escape)
    case None
    then show ?thesis using assms(1) Some using first_escape_none by (simp add: command_escape_def operands_given_def)
  next
    case (Some q)
    then have "is_within_allowed_roots env q c = Ret False"
      using assms(1) \<open>ctx = Some c\<close> by (auto simp: command_escape_def intro: escape_outside)
    then show ?thesis using assms(2)[OF Some] \<open>ctx = Some c\<close> by (auto simp: access_given_def operands_given_def)
  qed
qed (simp add: operands_given_def)

lemma decide_spawns:
  assumes "shell_decide env ctx gates params = Ret (Spawn command cwd timeout)"
  shows "\<exists>p. shell_cwd env ctx params = Ret p \<and> cwd = map_option path_text p
    \<and> get_default params ''command'' (PStr []) = PStr command \<and> py_strip command \<noteq> []
    \<and> \<not> is_hardline_blocked command \<and> \<not> is_cwd_blocked env (case cwd of None \<Rightarrow> [] | Some c \<Rightarrow> c)
    \<and> (\<forall>q. p = Some q \<longrightarrow> access_given env ctx (sl_cwd gates) q)
    \<and> operands_given env ctx (sl_operand gates) p command
    \<and> (is_dangerous command \<longrightarrow> command_approved (sl_command gates)) \<and> timeout \<le> sh_max_timeout env"
proof -
  from assms obtain p t where p: "shell_cwd env ctx params = Ret p"
    and d: "(let cwd = map_option path_text p; timeout = min t (sh_max_timeout env) in
     case get_default params ''command'' (PStr []) of
       PStr command \<Rightarrow>
         if py_strip command = [] then
           Ret (Refuse (shell_failure ''Missing required parameter: command'' ''invalid_request'' ''shell_command_required'' False cwd))
         else if is_hardline_blocked command then
           Ret (Refuse (shell_failure ''Command blocked by safety policy (destructive pattern detected)''
             ''safety_policy'' ''shell_command_blocked'' False cwd))
         else if is_cwd_blocked env (case cwd of None \<Rightarrow> [] | Some c \<Rightarrow> c) then
           Ret (Refuse (shell_failure (''Working directory blocked by safety policy: '' @ the cwd)
             ''safety_policy'' ''shell_cwd_blocked'' False cwd))
         else
           scope_check env ctx (sl_cwd gates) p ''shell_run cwd''
             (and_then (command_escape env ctx command p) (\<lambda>escape.
              scope_check env ctx (sl_operand gates) escape ''shell_run command''
                (let (ok, message) = (if is_dangerous command then approve_command (sl_command gates) else (True, [])) in
                 Ret (if ok then Spawn command cwd timeout
                      else Refuse (shell_failure message ''authorization'' ''approval_denied'' False cwd)))))
     | _ \<Rightarrow>
         Ret (Refuse (shell_failure ''Missing required parameter: command'' ''invalid_request'' ''shell_command_required'' False cwd)))
     = Ret (Spawn command cwd timeout)"
    unfolding shell_decide_def and_then_Ret by blast
  then obtain cmd where c: "get_default params ''command'' (PStr []) = PStr cmd"
    by (cases "get_default params ''command'' (PStr [])") (simp_all add: Let_def)
  from d c have checks: "py_strip cmd \<noteq> []" "\<not> is_hardline_blocked cmd"
      "\<not> is_cwd_blocked env (case map_option path_text p of None \<Rightarrow> [] | Some c \<Rightarrow> c)"
    and s: "scope_check env ctx (sl_cwd gates) p ''shell_run cwd''
             (and_then (command_escape env ctx cmd p) (\<lambda>escape.
              scope_check env ctx (sl_operand gates) escape ''shell_run command''
                (let (ok, message) = (if is_dangerous cmd then approve_command (sl_command gates) else (True, [])) in
                 Ret (if ok then Spawn cmd (map_option path_text p) (min t (sh_max_timeout env))
                      else Refuse (shell_failure message ''authorization'' ''approval_denied'' False (map_option path_text p))))))
      = Ret (Spawn command cwd timeout)"
    by (simp_all add: Let_def split: if_splits)
  from scope_check_spawns(1)[OF s] obtain escape where e: "command_escape env ctx cmd p = Ret escape"
    and s2: "scope_check env ctx (sl_operand gates) escape ''shell_run command''
                (let (ok, message) = (if is_dangerous cmd then approve_command (sl_command gates) else (True, [])) in
                 Ret (if ok then Spawn cmd (map_option path_text p) (min t (sh_max_timeout env))
                      else Refuse (shell_failure message ''authorization'' ''approval_denied'' False (map_option path_text p))))
      = Ret (Spawn command cwd timeout)" by auto
  from scope_check_spawns(1)[OF s2] have last: "command = cmd" "cwd = map_option path_text p"
      "timeout = min t (sh_max_timeout env)" "is_dangerous cmd \<longrightarrow> fst (approve_command (sl_command gates))"
    by (auto split: if_splits prod.splits)
  show ?thesis using p c checks last scope_check_spawns(2)[OF s] escape_given[OF e scope_check_spawns(2)[OF s2]]
    by (auto simp: approve_command_iff)
qed

text \<open>
  C6. The shell starts a process only for the command it was given, when the command is not blank,
  matches no hardline pattern, its directory is neither blocked nor outside the allowed roots without an
  approval, every word read as a path resolves inside those roots unless the gate approved an escape,
  and, when the command matches a dangerous pattern, the approval gate approved it; the timeout is at
  most the configured ceiling.
\<close>

theorem shell_spawn_guarded:
  assumes "shell_decide env ctx gates params = Ret (Spawn command cwd timeout)"
  shows "\<exists>p. shell_cwd env ctx params = Ret p \<and> cwd = map_option path_text p
    \<and> get_default params ''command'' (PStr []) = PStr command \<and> py_strip command \<noteq> []
    \<and> \<not> is_hardline_blocked command \<and> \<not> is_cwd_blocked env (case cwd of None \<Rightarrow> [] | Some c \<Rightarrow> c)
    \<and> (\<forall>q. p = Some q \<longrightarrow> access_given env ctx (sl_cwd gates) q)
    \<and> operands_given env ctx (sl_operand gates) p command
    \<and> (is_dangerous command \<longrightarrow> command_approved (sl_command gates)) \<and> timeout \<le> sh_max_timeout env"
  using assms by (rule decide_spawns)

definition demo_env :: shell_env where
  "demo_env = \<lparr>sh_cv = \<lparr>cv_int = (\<lambda>_. None), cv_float = (\<lambda>_. None), cv_str = (\<lambda>_. [])\<rparr>, sh_home = (\<lambda>_. ''/home/u''),
     sh_resolve = (\<lambda>p. p), sh_vars = (\<lambda>s. s), sh_real = (\<lambda>s. s), sh_hint = (\<lambda>_. []), sh_max_timeout = 300\<rparr>"

definition demo_context :: tool_context where
  "demo_context = \<lparr>tc_root = (''/'', [''w'']), tc_allowed = [(''/'', [''w''])], tc_session = []\<rparr>"

definition demo_gates :: "command_gate \<Rightarrow> shell_gates" where
  "demo_gates g = \<lparr>sl_cwd = NoEvaluator, sl_operand = NoEvaluator, sl_command = g\<rparr>"

lemmas decide_demo = shell_decide_def shell_cwd_def demo_env_def demo_context_def demo_gates_def get_or_def get_default_def
  and_then_def py_float_def path_text_def str_default_def is_cwd_blocked_def blocked_cwd_prefixes_def scope_check_def
  require_workspace_access_def workspace_scope_refusal_def is_within_allowed_roots_def expand_resolve_def
  path_expanduser_def relative_to_def command_escape_def approve_command_def py_strip_def py_space_def

lemma demo_spawns:
  assumes "\<not> is_hardline_blocked ''chown u x''" "is_dangerous ''chown u x''" "shlex_split ''chown u x'' = Ret [''chown'', ''u'', ''x'']"
  shows "shell_decide demo_env (Some demo_context) (demo_gates (Checker (Ret True))) [(''command'', PStr ''chown u x'')]
    = Ret (Spawn ''chown u x'' (Some ''/w'') 30)"
  using assms by (simp add: decide_demo operand_path_def expand_operand_def after_equals_def windows_absolute_def
      has_parent_traversal_def path_of_def py_lower_char_def Let_def)

lemma chown_found: "rx_search (rx_words [''chown'']) ''chown u x''"
  by code_simp

lemma demo_patterns:
  "\<not> is_hardline_blocked ''chown u x''" "is_dangerous ''chown u x''" "shlex_split ''chown u x'' = Ret [''chown'', ''u'', ''x'']"
proof -
  show "\<not> is_hardline_blocked ''chown u x''" unfolding is_hardline_blocked_def by (rule none_found) code_simp
  show "is_dangerous ''chown u x''" using chown_found unfolding is_dangerous_def dangerous_patterns_def list_ex_Cons_iff by blast
  show "shlex_split ''chown u x'' = Ret [''chown'', ''u'', ''x'']" by code_simp
qed

theorem shell_spawn_guarded_witness: "command_approved (Checker (Ret True)) \<and> \<not> is_hardline_blocked ''chown u x''"
  using shell_spawn_guarded[OF demo_spawns[OF demo_patterns]] demo_patterns by (auto simp: demo_gates_def)

section \<open>Refusing\<close>

definition refusal_codes :: "(string \<times> string) list" where
  "refusal_codes =
     [(''invalid_request'', ''shell_command_required''), (''safety_policy'', ''shell_command_blocked''),
      (''safety_policy'', ''shell_cwd_blocked''), (''scope_denied'', ''workspace_access_denied''),
      (''authorization'', ''approval_denied'')]"

text \<open>Without the marks by which a result is not counted as a failure.\<close>

definition unmarked :: "pyval dict \<Rightarrow> bool" where
  "unmarked d \<longleftrightarrow> map_of d ''duplicate_suppressed'' = None \<and> map_of d ''counts_as_failure'' = None
     \<and> map_of d ''already_executed'' = None \<and> map_of d ''execution_skipped'' = None"

definition refusal_form :: "pyval dict \<Rightarrow> bool" where
  "refusal_form d \<longleftrightarrow>
     map_of d ''ok'' = Some (PBool False) \<and> map_of d ''retryable'' = Some (PBool False)
     \<and> (\<exists>m. map_of d ''error'' = Some (PStr m)) \<and> map_of d ''returncode'' = Some PNone \<and> unmarked d
     \<and> (\<exists>(fc, code) \<in> set refusal_codes. map_of d ''failure_class'' = Some (PStr fc) \<and> map_of d ''failure_code'' = Some (PStr code))"

lemma shell_failure_form:
  "(fc, code) \<in> set refusal_codes \<Longrightarrow> refusal_form (shell_failure m fc code False cwd)"
  by (auto simp: refusal_form_def unmarked_def shell_failure_def)

lemma access_refusal:
  assumes "require_workspace_access env ctx reply p operation = Ret (Some d)"
  shows "(\<exists>m. map_of d ''error'' = Some (PStr m)) \<and> map_of d ''returncode'' = None \<and> unmarked d"
proof -
  from assms obtain refusal where r: "workspace_scope_refusal env ctx p operation = Ret refusal"
    and final: "(case refusal of None \<Rightarrow> None
          | Some d \<Rightarrow> (case reply of Evaluated ok denial \<Rightarrow>
                   if ok then None else if denial \<noteq> [] then Some (dict_set ''error'' (PStr denial) d) else Some d
               | _ \<Rightarrow> Some d)) = Some d"
    unfolding require_workspace_access_def and_then_Ret by blast
  then obtain d0 where d0: "refusal = Some d0" by (cases refusal) auto
  from r d0 have "(\<exists>m. map_of d0 ''error'' = Some (PStr m)) \<and> map_of d0 ''returncode'' = None \<and> unmarked d0"
    unfolding workspace_scope_refusal_def by (auto simp: unmarked_def split: option.splits if_splits)
  then show ?thesis using final d0 by (auto simp: unmarked_def map_of_dict_set split: gate_reply.splits if_splits)
qed

lemma annotated_form:
  assumes "\<exists>m. map_of d ''error'' = Some (PStr m)" "map_of d ''returncode'' = None" "unmarked d"
  shows "refusal_form (annotate_refusal d ''scope_denied'' ''workspace_access_denied'')"
  using assms by (auto simp: refusal_form_def unmarked_def annotate_refusal_def dict_merge_def map_of_dict_set get_default_def refusal_codes_def)

lemma scope_check_refuses:
  assumes "scope_check env ctx reply p operation rest = Ret (Refuse d)"
  shows "refusal_form d \<or> rest = Ret (Refuse d)"
proof (cases p)
  case (Some q)
  with assms obtain err where e: "require_workspace_access env ctx reply q operation = Ret err"
    and k: "(case err of Some d' \<Rightarrow> Ret (Refuse (annotate_refusal d' ''scope_denied'' ''workspace_access_denied'')) | None \<Rightarrow> rest)
      = Ret (Refuse d)" by (auto simp: scope_check_def)
  show ?thesis
  proof (cases err)
    case (Some d')
    then show ?thesis using k access_refusal[of env ctx reply q operation d'] e annotated_form[of d'] by auto
  qed (use k in simp)
qed (use assms in \<open>simp add: scope_check_def\<close>)

lemma decide_refuses:
  assumes "shell_decide env ctx gates params = Ret (Refuse d)"
  shows "refusal_form d"
proof -
  have codes: "(''invalid_request'', ''shell_command_required'') \<in> set refusal_codes"
    "(''safety_policy'', ''shell_command_blocked'') \<in> set refusal_codes" "(''safety_policy'', ''shell_cwd_blocked'') \<in> set refusal_codes"
    "(''authorization'', ''approval_denied'') \<in> set refusal_codes"
    by (simp_all add: refusal_codes_def)
  have tail: "refusal_form d" if "scope_check env ctx (sl_cwd gates) p ''shell_run cwd''
             (and_then (command_escape env ctx cmd p) (\<lambda>escape.
              scope_check env ctx (sl_operand gates) escape ''shell_run command''
                (let (ok, message) = (if is_dangerous cmd then approve_command (sl_command gates) else (True, [])) in
                 Ret (if ok then Spawn cmd c t
                      else Refuse (shell_failure message ''authorization'' ''approval_denied'' False c)))))
      = Ret (Refuse d)" for p cmd c t
  proof -
    from scope_check_refuses[OF that] consider "refusal_form d" | "(and_then (command_escape env ctx cmd p) (\<lambda>escape.
              scope_check env ctx (sl_operand gates) escape ''shell_run command''
                (let (ok, message) = (if is_dangerous cmd then approve_command (sl_command gates) else (True, [])) in
                 Ret (if ok then Spawn cmd c t
                      else Refuse (shell_failure message ''authorization'' ''approval_denied'' False c))))) = Ret (Refuse d)" by blast
    then show ?thesis
    proof cases
      case 2
      then obtain escape where e: "scope_check env ctx (sl_operand gates) escape ''shell_run command''
                (let (ok, message) = (if is_dangerous cmd then approve_command (sl_command gates) else (True, [])) in
                 Ret (if ok then Spawn cmd c t
                      else Refuse (shell_failure message ''authorization'' ''approval_denied'' False c))) = Ret (Refuse d)" by auto
      from scope_check_refuses[OF e] show ?thesis
        using shell_failure_form[OF codes(4)] by (auto split: prod.splits if_splits)
    qed
  qed
  from assms obtain p t where "(let cwd = map_option path_text p; timeout = min t (sh_max_timeout env) in
     case get_default params ''command'' (PStr []) of
       PStr command \<Rightarrow>
         if py_strip command = [] then
           Ret (Refuse (shell_failure ''Missing required parameter: command'' ''invalid_request'' ''shell_command_required'' False cwd))
         else if is_hardline_blocked command then
           Ret (Refuse (shell_failure ''Command blocked by safety policy (destructive pattern detected)''
             ''safety_policy'' ''shell_command_blocked'' False cwd))
         else if is_cwd_blocked env (case cwd of None \<Rightarrow> [] | Some c \<Rightarrow> c) then
           Ret (Refuse (shell_failure (''Working directory blocked by safety policy: '' @ the cwd)
             ''safety_policy'' ''shell_cwd_blocked'' False cwd))
         else
           scope_check env ctx (sl_cwd gates) p ''shell_run cwd''
             (and_then (command_escape env ctx command p) (\<lambda>escape.
              scope_check env ctx (sl_operand gates) escape ''shell_run command''
                (let (ok, message) = (if is_dangerous command then approve_command (sl_command gates) else (True, [])) in
                 Ret (if ok then Spawn command cwd timeout
                      else Refuse (shell_failure message ''authorization'' ''approval_denied'' False cwd)))))
     | _ \<Rightarrow>
         Ret (Refuse (shell_failure ''Missing required parameter: command'' ''invalid_request'' ''shell_command_required'' False cwd)))
     = Ret (Refuse d)"
    unfolding shell_decide_def and_then_Ret by blast
  then show ?thesis using shell_failure_form[OF codes(1)] shell_failure_form[OF codes(2)] shell_failure_form[OF codes(3)] tail
    unfolding Let_def by (auto split: pyval.splits if_splits)
qed

text \<open>
  The checks of \<open>shell_run\<close> in their order, each with when it refuses and with the class and code of the
  refusal: a blank command, the hardline patterns, a blocked directory, the gate of the directory, the
  gate of the first operand that leaves the workspace, the gate of a dangerous command.
\<close>

definition command_text :: "pyval dict \<Rightarrow> string" where
  "command_text params = (case get_default params ''command'' (PStr []) of PStr c \<Rightarrow> c | _ \<Rightarrow> [])"

definition shell_checks ::
  "shell_env \<Rightarrow> tool_context option \<Rightarrow> shell_gates \<Rightarrow> posix_path option \<Rightarrow> posix_path option \<Rightarrow> string \<Rightarrow>
   (bool \<times> string \<times> string) list" where
  "shell_checks env ctx gates cwd escape command =
     [(py_strip command = [], ''invalid_request'', ''shell_command_required''),
      (is_hardline_blocked command, ''safety_policy'', ''shell_command_blocked''),
      (is_cwd_blocked env (case cwd of None \<Rightarrow> [] | Some q \<Rightarrow> path_text q), ''safety_policy'', ''shell_cwd_blocked''),
      (case cwd of None \<Rightarrow> False | Some q \<Rightarrow> \<not> access_given env ctx (sl_cwd gates) q,
         ''scope_denied'', ''workspace_access_denied''),
      (case escape of None \<Rightarrow> False | Some q \<Rightarrow> \<not> access_given env ctx (sl_operand gates) q,
         ''scope_denied'', ''workspace_access_denied''),
      (is_dangerous command \<and> \<not> command_approved (sl_command gates), ''authorization'', ''approval_denied'')]"

definition refused_with :: "string \<Rightarrow> string \<Rightarrow> shell_decision outcome \<Rightarrow> bool" where
  "refused_with fc code r \<longleftrightarrow>
     (case r of
        Ret (Refuse d) \<Rightarrow> refusal_form d \<and> map_of d ''failure_class'' = Some (PStr fc) \<and> map_of d ''failure_code'' = Some (PStr code)
      | _ \<Rightarrow> False)"

lemma refused_with_failure:
  "(fc, code) \<in> set refusal_codes \<Longrightarrow> refused_with fc code (Ret (Refuse (shell_failure m fc code False cwd)))"
  using shell_failure_form[of fc code m cwd] by (simp add: refused_with_def) (simp add: shell_failure_def)

lemma scope_check_total:
  assumes "\<And>q c. p = Some q \<Longrightarrow> ctx = Some c \<Longrightarrow> \<exists>b. is_within_allowed_roots env q c = Ret b"
  shows "if (case p of None \<Rightarrow> False | Some q \<Rightarrow> \<not> access_given env ctx reply q)
         then refused_with ''scope_denied'' ''workspace_access_denied'' (scope_check env ctx reply p operation rest)
         else scope_check env ctx reply p operation rest = rest"
proof (cases p)
  case (Some q)
  show ?thesis
  proof (cases ctx)
    case None
    then show ?thesis using Some
      by (simp add: access_given_def scope_check_def require_workspace_access_def workspace_scope_refusal_def and_then_def)
  next
    case c: (Some c)
    obtain b where b: "is_within_allowed_roots env q c = Ret b" using assms[OF Some c] by blast
    obtain err where err: "require_workspace_access env ctx reply q operation = Ret err"
      using b c by (simp add: require_workspace_access_def workspace_scope_refusal_def and_then_def)
    have given: "err = None \<longleftrightarrow> access_given env ctx reply q"
      using err b c by (cases b; cases reply)
        (auto simp: access_given_def require_workspace_access_def workspace_scope_refusal_def and_then_def split: if_splits)
    have "refused_with ''scope_denied'' ''workspace_access_denied''
        (Ret (Refuse (annotate_refusal d ''scope_denied'' ''workspace_access_denied'')))" if "err = Some d" for d
      using access_refusal[of env ctx reply q operation d] annotated_form[of d] err that
      by (simp add: refused_with_def) (simp add: annotate_refusal_def dict_merge_def map_of_dict_set)
    then show ?thesis using given err Some by (cases err) (simp_all add: scope_check_def and_then_def)
  qed
qed (simp add: scope_check_def)

text \<open>The last two gates, when the operands could be read.\<close>

lemma command_escape_within:
  assumes "command_escape env ctx command cwd = Ret (Some q)" "ctx = Some c"
  shows "is_within_allowed_roots env q c = Ret False"
  using assms by (auto simp: command_escape_def intro: escape_outside)

definition last_gates :: "shell_env \<Rightarrow> tool_context option \<Rightarrow> shell_gates \<Rightarrow> string \<Rightarrow> string option \<Rightarrow> real \<Rightarrow>
    posix_path option \<Rightarrow> shell_decision outcome" where
  "last_gates env ctx gates command cwd timeout escape =
     scope_check env ctx (sl_operand gates) escape ''shell_run command''
       (let (ok, message) = (if is_dangerous command then approve_command (sl_command gates) else (True, [])) in
        Ret (if ok then Spawn command cwd timeout
             else Refuse (shell_failure message ''authorization'' ''approval_denied'' False cwd)))"

lemma last_gates_total:
  assumes "command_escape env ctx command p = Ret escape"
  shows "if (case escape of None \<Rightarrow> False | Some q \<Rightarrow> \<not> access_given env ctx (sl_operand gates) q)
         then refused_with ''scope_denied'' ''workspace_access_denied'' (last_gates env ctx gates command cwd t escape)
         else if is_dangerous command \<and> \<not> command_approved (sl_command gates)
         then refused_with ''authorization'' ''approval_denied'' (last_gates env ctx gates command cwd t escape)
         else last_gates env ctx gates command cwd t escape = Ret (Spawn command cwd t)"
proof -
  let ?rest = "let (ok, message) = (if is_dangerous command then approve_command (sl_command gates) else (True, [])) in
        Ret (if ok then Spawn command cwd t
             else Refuse (shell_failure message ''authorization'' ''approval_denied'' False cwd))"
  have scope: "if (case escape of None \<Rightarrow> False | Some q \<Rightarrow> \<not> access_given env ctx (sl_operand gates) q)
      then refused_with ''scope_denied'' ''workspace_access_denied'' (last_gates env ctx gates command cwd t escape)
      else last_gates env ctx gates command cwd t escape = ?rest"
    unfolding last_gates_def by (rule scope_check_total) (use assms command_escape_within in blast)
  have rest: "if is_dangerous command \<and> \<not> command_approved (sl_command gates)
      then refused_with ''authorization'' ''approval_denied'' ?rest else ?rest = Ret (Spawn command cwd t)"
    using approve_command_iff[of "sl_command gates"]
    by (auto simp: refusal_codes_def intro!: refused_with_failure split: prod.split)
  show ?thesis using scope rest by presburger
qed

lemma decide_unfolded:
  assumes "shell_cwd env ctx params = Ret p" "py_float (sh_cv env) (get_default params ''timeout'' (PFloat 30)) = Ret asked"
    "command_escape env ctx (command_text params) p = Ret escape"
  shows "shell_decide env ctx gates params =
     (let cwd = map_option path_text p; command = command_text params in
      if py_strip command = [] then
        Ret (Refuse (shell_failure ''Missing required parameter: command'' ''invalid_request'' ''shell_command_required'' False cwd))
      else if is_hardline_blocked command then
        Ret (Refuse (shell_failure ''Command blocked by safety policy (destructive pattern detected)''
          ''safety_policy'' ''shell_command_blocked'' False cwd))
      else if is_cwd_blocked env (case cwd of None \<Rightarrow> [] | Some c \<Rightarrow> c) then
        Ret (Refuse (shell_failure (''Working directory blocked by safety policy: '' @ the cwd)
          ''safety_policy'' ''shell_cwd_blocked'' False cwd))
      else scope_check env ctx (sl_cwd gates) p ''shell_run cwd''
             (last_gates env ctx gates command cwd (min asked (sh_max_timeout env)) escape))"
proof (cases "get_default params ''command'' (PStr [])")
  case (PStr c)
  then show ?thesis using assms by (simp add: shell_decide_def and_then_def command_text_def last_gates_def Let_def)
qed (use assms in \<open>simp_all add: shell_decide_def and_then_def command_text_def py_strip_def Let_def\<close>)

lemma first_check:
  assumes "if d then rf x4 y4 s else s = l" "if e then rf x5 y5 l else if f then rf x6 y6 l else l = ok"
    "rf x1 y1 r1" "rf x2 y2 r2" "rf x3 y3 r3"
  shows "case find fst [(a, x1, y1), (b, x2, y2), (c, x3, y3), (d, x4, y4), (e, x5, y5), (f, x6, y6)] of
      None \<Rightarrow> (if a then r1 else if b then r2 else if c then r3 else s) = ok
    | Some (failed, fc, code) \<Rightarrow> rf fc code (if a then r1 else if b then r2 else if c then r3 else s)"
  using assms by (auto split: if_splits)

text \<open>
  C25. The shell's answer is decided by its first failing check. When the directory, the timeout and the
  operands can be read: if none of the checks fails, the command is started in that directory with the
  timeout capped; otherwise nothing is started, and the refusal is a shell failure (not ok, not retryable,
  no return code, with a text) that carries the class and code of the first check that fails in the code's
  order. A gate that is missing, raises or does not approve fails its check, be it the gate of the
  directory, of an operand outside the workspace, or of a dangerous command.
\<close>

theorem shell_fails_closed:
  assumes "shell_cwd env ctx params = Ret p"
    and "py_float (sh_cv env) (get_default params ''timeout'' (PFloat 30)) = Ret asked"
    and "\<And>q c. p = Some q \<Longrightarrow> ctx = Some c \<Longrightarrow> \<exists>b. is_within_allowed_roots env q c = Ret b"
    and "command_escape env ctx (command_text params) p = Ret escape"
  shows "case find fst (shell_checks env ctx gates p escape (command_text params)) of
      None \<Rightarrow> shell_decide env ctx gates params
                = Ret (Spawn (command_text params) (map_option path_text p) (min asked (sh_max_timeout env)))
    | Some (failed, fc, code) \<Rightarrow> refused_with fc code (shell_decide env ctx gates params)"
proof -
  let ?t = "min asked (sh_max_timeout env)" and ?cwd = "map_option path_text p" and ?cmd = "command_text params"
  have cwd: "(case ?cwd of None \<Rightarrow> [] | Some c \<Rightarrow> c) = (case p of None \<Rightarrow> [] | Some q \<Rightarrow> path_text q)" by (cases p) simp_all
  have codes: "refused_with ''invalid_request'' ''shell_command_required''
       (Ret (Refuse (shell_failure m ''invalid_request'' ''shell_command_required'' False c)))"
    "refused_with ''safety_policy'' ''shell_command_blocked''
       (Ret (Refuse (shell_failure m ''safety_policy'' ''shell_command_blocked'' False c)))"
    "refused_with ''safety_policy'' ''shell_cwd_blocked''
       (Ret (Refuse (shell_failure m ''safety_policy'' ''shell_cwd_blocked'' False c)))" for m c
    by (rule refused_with_failure, simp add: refusal_codes_def)+
  note last = last_gates_total[OF assms(4), of gates ?cwd ?t]
  note scope = scope_check_total[of p ctx env "sl_cwd gates" "''shell_run cwd''" "last_gates env ctx gates ?cmd ?cwd ?t escape", OF assms(3)]
  show ?thesis
    unfolding decide_unfolded[OF assms(1,2,4)] Let_def cwd shell_checks_def
    by (rule first_check[where rf = refused_with, OF scope last codes])
qed

definition list_etc :: "pyval dict" where
  "list_etc = [(''command'', PStr ''ls /etc'')]"

lemma list_etc_text: "command_text list_etc = ''ls /etc''"
  by (simp add: command_text_def list_etc_def get_default_def)

lemma list_etc_escapes: "command_escape demo_env (Some demo_context) ''ls /etc'' (Some (''/'', [''w''])) = Ret (Some (''/'', [''etc'']))"
  by code_simp

lemma list_etc_harmless: "\<not> is_hardline_blocked ''ls /etc''"
  unfolding is_hardline_blocked_def by (rule none_found) code_simp

text \<open>No pattern matches; without a gate the operand outside the workspace is refused.\<close>

theorem shell_fails_closed_witness:
  "refused_with ''scope_denied'' ''workspace_access_denied''
     (shell_decide demo_env (Some demo_context) (demo_gates (Checker (Ret True))) list_etc)"
proof -
  let ?gates = "demo_gates (Checker (Ret True))" and ?p = "Some (''/'', [''w''])"
  have cwd: "shell_cwd demo_env (Some demo_context) list_etc = Ret ?p"
    by (simp add: shell_cwd_def list_etc_def get_or_def py_truthy_def demo_context_def)
  have t: "py_float (sh_cv demo_env) (get_default list_etc ''timeout'' (PFloat 30)) = Ret 30"
    by (simp add: py_float_def get_default_def list_etc_def)
  have inside: "is_within_allowed_roots demo_env (''/'', [''w'']) demo_context = Ret True"
    "is_within_allowed_roots demo_env (''/'', [''etc'']) demo_context = Ret False" by code_simp+
  have roots: "\<exists>b. is_within_allowed_roots demo_env q c = Ret b" if "?p = Some q" "Some demo_context = Some c" for q c
    using that inside(1) by auto
  have esc: "command_escape demo_env (Some demo_context) (command_text list_etc) ?p = Ret (Some (''/'', [''etc'']))"
    by (simp add: list_etc_text list_etc_escapes)
  have fine: "py_strip ''ls /etc'' \<noteq> []" "\<not> is_cwd_blocked demo_env (path_text (''/'', [''w'']))" by code_simp+
  have first: "find fst (shell_checks demo_env (Some demo_context) ?gates ?p (Some (''/'', [''etc''])) (command_text list_etc))
      = Some (True, ''scope_denied'', ''workspace_access_denied'')"
    using inside fine list_etc_harmless
    by (simp add: shell_checks_def list_etc_text access_given_def demo_gates_def)
  show ?thesis
    using shell_fails_closed[OF cwd t roots esc, of ?gates] unfolding first by simp
qed

section \<open>Commands that pass\<close>

definition demo_host :: host where
  "demo_host = \<lparr>hs_home = (\<lambda>_. ''/home/u''), hs_roots = []\<rparr>"

text \<open>The fork bomb: the group in the pattern is empty, so it asks for a brace right after the colon.\<close>

lemma fork_bomb_passes: "\<not> is_hardline_blocked '':(){ :|:& };:''" "\<not> is_dangerous '':(){ :|:& };:''"
  unfolding is_hardline_blocked_def is_dangerous_def by (rule none_found, code_simp)+

text \<open>The flags of a recursive deletion as separate words.\<close>

lemma separate_flags_pass: "\<not> is_hardline_blocked ''rm -f -r ~''" "\<not> is_dangerous ''rm -f -r ~''"
  unfolding is_hardline_blocked_def is_dangerous_def by (rule none_found, code_simp)+

text \<open>Writing to a disk with a blank around the redirection.\<close>

lemma disk_write_passes: "\<not> is_hardline_blocked ''cat x > /dev/sda''" "\<not> is_dangerous ''cat x > /dev/sda''"
  unfolding is_hardline_blocked_def is_dangerous_def by (rule none_found, code_simp)+

text \<open>A redirection glued to its target is not read as a path; the classifier's own pattern for it asks
  for a backslash, which no word of these commands begins with.\<close>

lemma glued_redirection_unread:
  "operand_path env base ''>/etc/passwd'' = None" "operand_path env base ''>>/home/v/x'' = None"
  by (simp_all add: operand_path_def expand_operand_def after_equals_def windows_absolute_def has_parent_traversal_def
      path_of_def py_lower_char_def)

lemma glued_target_none: "py_prefix [backslash] t = False \<Longrightarrow> glued_target t = None"
  by (cases t) (auto simp: glued_target_def)

lemma glued_redirection_unclassified:
  "mentions_sensitive_config demo_host ''echo a > ~/.env'' = Ret True"
  "mentions_sensitive_config demo_host ''echo a >~/.env'' = Ret False"
  "mentions_sensitive_config demo_host ''cat ~/.env;ls'' = Ret False"
  by code_simp+

text \<open>What the shell tool calls dangerous the classifier may call ordinary: the policy then allows it and
  nobody is asked.\<close>

lemma unmatched_command_allowed:
  assumes "find (\<lambda>(r, _). rx_search r (ac_detail a)) shell_hardline = None" "matched_reasons (ac_detail a) shell_high = []"
    "matched_reasons (ac_detail a) shell_medium = []" "mentions_sensitive_config h (ac_detail a) = Ret False"
  shows "\<exists>r. assess_shell h a = Ret r \<and> pd_verdict (policy_evaluate \<lparr>po_rules = [], po_bypass = b\<rparr> a r) = V_ALLOW"
  using assms by (simp add: assess_shell_def and_then_def plain_risk_def policy_evaluate_def map_filter_simps Let_def)

lemma kill_found: "rx_search (rx_seq [RxBoundary, ci ''kill'', spaces1, ci ''-9'', RxBoundary]) ''kill -9 1''"
  by code_simp

lemma kill_is_dangerous: "is_dangerous ''kill -9 1''"
  using kill_found unfolding is_dangerous_def dangerous_patterns_def list_ex_Cons_iff by blast

lemma none_matched:
  assumes "list_all (\<lambda>r. rx_misses s r \<or> \<not> rx_search r s) (map fst rules)"
  shows "matched_reasons s rules = []" "find (\<lambda>(r, _). rx_search r s) rules = None"
  using none_found[OF assms] by (auto simp: matched_reasons_def list_ex_iff find_None_iff filter_empty_conv)

lemma kill_is_ordinary:
  "find (\<lambda>(r, _). rx_search r ''kill -9 1'') shell_hardline = None" "matched_reasons ''kill -9 1'' shell_high = []"
  "matched_reasons ''kill -9 1'' shell_medium = []" "mentions_sensitive_config demo_host ''kill -9 1'' = Ret False"
proof -
  show "find (\<lambda>(r, _). rx_search r ''kill -9 1'') shell_hardline = None" by (rule none_matched) code_simp
  show "matched_reasons ''kill -9 1'' shell_high = []" by (rule none_matched) code_simp
  show "matched_reasons ''kill -9 1'' shell_medium = []" by (rule none_matched) code_simp
  show "mentions_sensitive_config demo_host ''kill -9 1'' = Ret False" by code_simp
qed

lemma dangerous_command_unasked:
  "\<exists>r. assess_shell demo_host (shell_action fresh ''kill -9 1'' cwd origin metadata) = Ret r
     \<and> pd_verdict (policy_evaluate \<lparr>po_rules = [], po_bypass = b\<rparr> (shell_action fresh ''kill -9 1'' cwd origin metadata) r) = V_ALLOW"
  by (rule unmatched_command_allowed) (simp_all add: shell_action_def new_action_def kill_is_ordinary)

end
