(* ===== verification/Unified_Classifier_Props.thy ===== *)
theory Unified_Classifier_Props imports Unified_Classifier Recovery_Turns Shell_Gate_Props begin

text \<open>
  What the classification of failures decides: which tool results end a turn, when a failure counts as
  free of side effects, that defects of the program are never treated as conditions of a provider, and
  what becomes of the shell's refusals.
\<close>

section \<open>Tool results\<close>

lemma create_fields [simp]:
  "fe_recoverability (create_envelope b s c k f m r se x h) = r" "fe_side_effect (create_envelope b s c k f m r se x h) = se"
  "fe_category (create_envelope b s c k f m r se x h) = c" "fe_code (create_envelope b s c k f m r se x h) = f"
  by (simp_all add: create_envelope_def)

text \<open>The results that end a turn.\<close>

definition ends_turn :: "conversions \<Rightarrow> pyval \<Rightarrow> bool" where
  "ends_turn cv v \<longleftrightarrow>
     (case v of
        PDict d \<Rightarrow>
          is_failure_result d \<and>
          (py_str cv (get_or d ''failure_class'' (PStr [])) \<in> set permission_classes
           \<or> py_str cv (get_or d ''failure_code'' (PStr [])) \<in> set permission_codes \<union> set terminal_codes)
      | _ \<Rightarrow> False)"

lemma correctable_not_terminal: "x \<in> set correctable_codes \<Longrightarrow> x \<notin> set terminal_codes"
  by (auto simp: correctable_codes_def terminal_codes_def)

lemma classified_iff: "classify_tool_result cv born d tool policy = None \<longleftrightarrow> \<not> is_failure_result d"
  by (simp add: classify_tool_result_def Let_def)

lemma fatal_iff:
  assumes "classify_tool_result cv born d tool policy = Some e"
  shows "fe_recoverability e = NON_RECOVERABLE \<longleftrightarrow> ends_turn cv (PDict d)"
proof -
  have f: "is_failure_result d" using assms classified_iff by (metis option.distinct(1))
  show ?thesis using assms f correctable_not_terminal[of "py_str cv (get_or d ''failure_code'' (PStr []))"]
    unfolding classify_tool_result_def Let_def
    by (simp add: ends_turn_def) (auto split: if_splits)
qed

lemma evaluate_fatal:
  assumes "fe_recoverability e = NON_RECOVERABLE"
  shows "\<exists>dec key. evaluate ev e c = Ret (dec, record_audit ev dec key c) \<and> is_terminal_decision dec \<and> dc_budget_cost dec = 0
    \<and> dc_envelope dec = e"
proof -
  have t: "is_terminal_decision (make_terminal g e r)" "dc_budget_cost (make_terminal g e r) = 0" "dc_envelope (make_terminal g e r) = e" for g r
    by (simp_all add: make_terminal_def decision_def is_terminal_decision_def)
  have s: "is_terminal_decision (side_effect_halt e b)" "dc_budget_cost (side_effect_halt e b) = 0" "dc_envelope (side_effect_halt e b) = e" for b
    by (simp_all add: side_effect_halt_def decision_def is_terminal_decision_def Let_def)
  show ?thesis unfolding evaluate_def halt_with_def using assms t s by (simp only: if_True simp_thms split: if_split) blast
qed

lemma audit_frame [simp]:
  "rc_budget (record_audit ev d k c) = rc_budget c" "rc_guard (record_audit ev d k c) = rc_guard c"
  "rc_state (record_audit ev d k c) = rc_state c" "rc_private (record_audit ev d k c) = rc_private c"
  "length (rc_audit (record_audit ev d k c)) = Suc (length (rc_audit c))"
  by (simp_all add: record_audit_def)

text \<open>The envelope of an item of the batch, and the failures handed back: those before the first that
  ends the turn, in order.\<close>

definition item_envelope :: "conversions \<Rightarrow> (string \<times> real) \<times> string \<times> pyval \<Rightarrow> failure_envelope option" where
  "item_envelope cv item =
     (case item of (born, tool, v) \<Rightarrow>
        (case v of
           PDict d \<Rightarrow> classify_tool_result cv born d tool (get_default d ''execution_policy'' (PStr ''read_only''))
         | _ \<Rightarrow> None))"

definition item_ends :: "conversions \<Rightarrow> (string \<times> real) \<times> string \<times> pyval \<Rightarrow> bool" where
  "item_ends cv item \<longleftrightarrow> ends_turn cv (snd (snd item))"

definition fed_back :: "conversions \<Rightarrow> ((string \<times> real) \<times> string \<times> pyval) list \<Rightarrow> failure_envelope list" where
  "fed_back cv items = List.map_filter (item_envelope cv) (takeWhile (\<lambda>i. \<not> item_ends cv i) items)"

lemma item_ends_iff:
  "item_ends cv i \<longleftrightarrow> (\<exists>e. item_envelope cv i = Some e \<and> fe_recoverability e = NON_RECOVERABLE)"
proof -
  obtain born tool v where i: "i = (born, tool, v)" by (cases i)
  show ?thesis
  proof (cases v)
    case (PDict d)
    let ?e = "classify_tool_result cv born d tool (get_default d ''execution_policy'' (PStr ''read_only''))"
    show ?thesis
    proof (cases ?e)
      case None
      then have "\<not> ends_turn cv v" using classified_iff PDict by (auto simp: ends_turn_def)
      then show ?thesis using None i PDict by (simp add: item_ends_def item_envelope_def)
    next
      case (Some e)
      show ?thesis using fatal_iff[OF Some] Some i PDict by (simp add: item_ends_def item_envelope_def)
    qed
  qed (use i in \<open>simp_all add: item_ends_def item_envelope_def ends_turn_def\<close>)
qed

lemma evaluate_failures_Cons:
  "evaluate_failures cv ev session turn (i # items) c sink =
     (case item_envelope cv i of
        None \<Rightarrow> evaluate_failures cv ev session turn items c sink
      | Some e \<Rightarrow>
          if fe_recoverability e = NON_RECOVERABLE then
            and_then (evaluate ev e c) (\<lambda>(dec, c').
            Ret (Some (if dc_reason dec = []
                       then [Txt (''Non-recoverable tool failure ('' @ fe_category e @ '')'')] else dc_reason dec), c',
                 sink @ [create_audit_entry (ev_wall ev) session turn e dec (rc_budget c')]))
          else evaluate_failures cv ev session turn items c
                 (sink @ [create_audit_entry (ev_wall ev) session turn e (feedback_decision e) (rc_budget c)]))"
proof -
  obtain born tool v where i: "i = (born, tool, v)" by (cases i)
  show ?thesis unfolding i item_envelope_def by (cases v) simp_all
qed

declare evaluate_failures.simps(2) [simp del]

text \<open>What is decided: the reason the turn ends with, the coordinator afterwards and the lines written.\<close>

definition failures_decided ::
  "conversions \<Rightarrow> recovery_env \<Rightarrow> string \<Rightarrow> int \<Rightarrow> ((string \<times> real) \<times> string \<times> pyval) list \<Rightarrow> 'p coordinator \<Rightarrow>
   ftext option \<Rightarrow> 'p coordinator \<Rightarrow> audit_line list \<Rightarrow> bool" where
  "failures_decided cv ev session turn items c r c' lines \<longleftrightarrow>
     (r \<noteq> None \<longleftrightarrow> (\<exists>i \<in> set items. item_ends cv i))
     \<and> rc_budget c' = rc_budget c \<and> rc_guard c' = rc_guard c \<and> rc_state c' = rc_state c \<and> rc_private c' = rc_private c
     \<and> length (rc_audit c') = length (rc_audit c) + (if r = None then 0 else 1)
     \<and> (\<exists>final. lines = map (\<lambda>e. create_audit_entry (ev_wall ev) session turn e (feedback_decision e) (rc_budget c))
                         (fed_back cv items) @ final
          \<and> (if r = None then final = []
             else \<exists>dec. final = [create_audit_entry (ev_wall ev) session turn (dc_envelope dec) dec (rc_budget c)]
                    \<and> item_envelope cv (the (find (item_ends cv) items)) = Some (dc_envelope dec)
                    \<and> is_terminal_decision dec \<and> dc_budget_cost dec = 0))"

lemma fed_back_Cons:
  "fed_back cv (i # items) =
     (if item_ends cv i then [] else case item_envelope cv i of None \<Rightarrow> fed_back cv items | Some e \<Rightarrow> e # fed_back cv items)"
  by (simp add: fed_back_def map_filter_simps split: option.split)

lemma decided_skip:
  assumes "item_envelope cv i = None"
  shows "failures_decided cv ev session turn (i # items) c r c' lines = failures_decided cv ev session turn items c r c' lines"
  using assms by (simp add: failures_decided_def fed_back_Cons item_ends_iff)

lemma decided_fed:
  assumes "item_envelope cv i = Some e" "\<not> item_ends cv i" "failures_decided cv ev session turn items c r c' lines"
  shows "failures_decided cv ev session turn (i # items) c r c'
    (create_audit_entry (ev_wall ev) session turn e (feedback_decision e) (rc_budget c) # lines)"
  using assms by (simp add: failures_decided_def fed_back_Cons cong: if_cong split del: if_split)

lemma failures_evaluated:
  "\<exists>r c' lines. evaluate_failures cv ev session turn items c sink = Ret (r, c', sink @ lines)
     \<and> failures_decided cv ev session turn items c r c' lines"
proof (induction items arbitrary: sink)
  case Nil
  have "failures_decided cv ev session turn [] c None c []"
    by (simp add: failures_decided_def fed_back_def map_filter_simps)
  then show ?case by force
next
  case (Cons i items)
  show ?case
  proof (cases "item_envelope cv i")
    case None
    then show ?thesis unfolding evaluate_failures_Cons decided_skip[OF None] using Cons[of sink] by simp
  next
    case (Some e)
    let ?line = "create_audit_entry (ev_wall ev) session turn e (feedback_decision e) (rc_budget c)"
    show ?thesis
    proof (cases "fe_recoverability e = NON_RECOVERABLE")
      case True
      then have stop: "item_ends cv i" using Some by (simp add: item_ends_iff)
      obtain dec key where dec: "evaluate ev e c = Ret (dec, record_audit ev dec key c)"
        "is_terminal_decision dec" "dc_budget_cost dec = 0" "dc_envelope dec = e"
        using evaluate_fatal[OF True, of ev c] by blast
      let ?r = "Some (if dc_reason dec = []
                      then [Txt (''Non-recoverable tool failure ('' @ fe_category e @ '')'')] else dc_reason dec)"
      have "failures_decided cv ev session turn (i # items) c ?r (record_audit ev dec key c)
          [create_audit_entry (ev_wall ev) session turn e dec (rc_budget c)]"
        using dec stop Some by (auto simp: failures_decided_def fed_back_Cons intro!: exI[of _ dec])
      moreover have "evaluate_failures cv ev session turn (i # items) c sink = Ret (?r, record_audit ev dec key c,
          sink @ [create_audit_entry (ev_wall ev) session turn e dec (rc_budget c)])"
        using dec(1) True Some by (simp add: evaluate_failures_Cons and_then_def)
      ultimately show ?thesis by blast
    next
      case False
      then have go: "\<not> item_ends cv i" using Some by (simp add: item_ends_iff)
      obtain r c' lines where "evaluate_failures cv ev session turn items c (sink @ [?line]) = Ret (r, c', (sink @ [?line]) @ lines)"
        and d: "failures_decided cv ev session turn items c r c' lines"
        using Cons[of "sink @ [?line]"] by blast
      then have "evaluate_failures cv ev session turn (i # items) c sink = Ret (r, c', sink @ ?line # lines)"
        using False Some by (simp add: evaluate_failures_Cons)
      then show ?thesis using decided_fed[OF Some go d] by blast
    qed
  qed
qed

text \<open>
  C23. After a batch of tools the turn ends exactly when some result is a failure that permission or a
  terminal code rules out; every other failure goes back to the model. Deciding never raises, spends no
  recovery budget and uses up no strategy. The audit sink gets, in order, one line of the zero-cost
  decision \<open>SKIP_AND_CONTINUE\<close> for each recoverable failure before the one that ends the turn, and then
  one line of the terminal decision about that one, when there is one; the coordinator's own log gets an
  entry for the terminal decision only. Without a coordinator nothing is decided and nothing is written.
\<close>

theorem tool_failures_decide_turn:
  "evaluate_tool_failures cv ev session turn items None sink = Ret (None, None, sink)
   \<and> (\<exists>r c' final.
        evaluate_tool_failures cv ev session turn items (Some c) sink
          = Ret (r, Some c',
                 sink @ map (\<lambda>e. create_audit_entry (ev_wall ev) session turn e (feedback_decision e) (rc_budget c))
                          (fed_back cv items) @ final)
        \<and> (r \<noteq> None \<longleftrightarrow> (\<exists>v \<in> (snd \<circ> snd) ` set items. ends_turn cv v))
        \<and> rc_budget c' = rc_budget c \<and> rc_guard c' = rc_guard c \<and> rc_state c' = rc_state c \<and> rc_private c' = rc_private c
        \<and> length (rc_audit c') = length (rc_audit c) + (if r = None then 0 else 1)
        \<and> (if r = None then final = []
           else \<exists>dec. final = [create_audit_entry (ev_wall ev) session turn (dc_envelope dec) dec (rc_budget c)]
                  \<and> item_envelope cv (the (find (item_ends cv) items)) = Some (dc_envelope dec)
                  \<and> is_terminal_decision dec \<and> dc_budget_cost dec = 0))"
proof -
  obtain r c' lines where "evaluate_failures cv ev session turn items c sink = Ret (r, c', sink @ lines)"
    and d: "failures_decided cv ev session turn items c r c' lines"
    using failures_evaluated by blast
  then have eq: "evaluate_tool_failures cv ev session turn items (Some c) sink = Ret (r, Some c', sink @ lines)"
    by (simp add: evaluate_tool_failures_def and_then_def)
  have "(\<exists>i \<in> set items. item_ends cv i) \<longleftrightarrow> (\<exists>v \<in> (snd \<circ> snd) ` set items. ends_turn cv v)"
    by (simp add: item_ends_def)
  with d eq show ?thesis
    unfolding failures_decided_def evaluate_tool_failures_def[of cv ev session turn items None sink] by auto
qed

section \<open>Evidence\<close>

text \<open>What a failed result has to say before it counts as free of side effects.\<close>

definition shows_no_effect :: "conversions \<Rightarrow> pyval dict \<Rightarrow> pyval \<Rightarrow> bool" where
  "shows_no_effect cv d policy \<longleftrightarrow>
     py_str cv (get_or d ''error_type'' (PStr [])) = ''unknown_tool''
     \<or> map_of d ''effect_uncertain'' \<noteq> Some (PBool True) \<and>
       (case map_of d ''side_effect_state'' of
          None \<Rightarrow> policy = PStr ''read_only''
        | Some v \<Rightarrow> \<exists>s. v = PStr s \<and> py_lower (py_strip s) = ''none'')"

lemma named_none: "side_effect_named s = Some SE_NONE \<longleftrightarrow> s = ''none''"
  by (auto simp: side_effect_named_def)

lemma policy_none: "side_effect_of_policy policy = SE_NONE \<longleftrightarrow> policy = PStr ''read_only''"
  by (simp add: side_effect_of_policy_def)

lemma named_text_none:
  "(case side_effect_named s of Some st \<Rightarrow> st | None \<Rightarrow> SE_UNKNOWN) = SE_NONE \<longleftrightarrow> s = ''none''"
  unfolding named_none[symmetric] by (simp split: option.split)

lemma result_none:
  "side_effect_of_result d policy = SE_NONE \<longleftrightarrow>
     map_of d ''effect_uncertain'' \<noteq> Some (PBool True) \<and>
     (case map_of d ''side_effect_state'' of
        None \<Rightarrow> policy = PStr ''read_only'' | Some v \<Rightarrow> \<exists>s. v = PStr s \<and> py_lower (py_strip s) = ''none'')"
proof (cases "map_of d ''side_effect_state''")
  case None
  then show ?thesis by (simp add: side_effect_of_result_def policy_none)
next
  case (Some v)
  then show ?thesis
    by (cases v; cases "map_of d ''effect_uncertain'' = Some (PBool True)")
      (simp_all add: side_effect_of_result_def named_text_none)
qed

lemma no_effect_shown:
  assumes "classify_tool_result cv born d tool policy = Some e" "fe_side_effect e = SE_NONE"
  shows "shows_no_effect cv d policy"
proof -
  have "side_effect_of_result d policy = SE_NONE \<or> py_str cv (get_or d ''error_type'' (PStr [])) = ''unknown_tool''"
    using assms unfolding classify_tool_result_def Let_def by (auto split: if_splits)
  then show ?thesis unfolding shows_no_effect_def result_none by blast
qed

lemma halt_action: "dc_action (side_effect_halt e b) = HALT_WITH_CHECKPOINT"
  by (simp add: side_effect_halt_def decision_def Let_def)

lemma retry_no_effect:
  assumes "evaluate ev e c = Ret (dec, c')" "is_retry dec"
  shows "fe_side_effect e = SE_NONE"
proof (rule ccontr)
  assume "fe_side_effect e \<noteq> SE_NONE"
  from side_effect_facts[OF this, of ev c] assms(1) have "dec = side_effect_halt e [''all automatic recovery'']"
    by (simp only: outcome.inject prod.inject)
  with assms(2) show False by (simp add: is_retry_def halt_action)
qed

lemma retry_recoverable: "evaluate ev e c = Ret (dec, c') \<Longrightarrow> is_retry dec \<Longrightarrow> fe_recoverability e \<noteq> NON_RECOVERABLE"
  using evaluate_fatal[of e ev c] by (auto simp: is_terminal_decision_def is_retry_def)

text \<open>
  C11. An automatic retry of a failed tool needs evidence: the coordinator answers a tool's failure with a
  retry, a transformation or a failover only when the result does not end the turn, and the tool was
  unknown, or its result does not say the effect is uncertain and either names the state none or names
  no state while the tool's policy is read-only. A state that cannot be read counts as unknown.
\<close>

theorem replay_needs_evidence:
  assumes "classify_tool_result cv born d tool policy = Some e" "evaluate ev e c = Ret (dec, c')" "is_retry dec"
  shows "shows_no_effect cv d policy \<and> \<not> ends_turn cv (PDict d)"
  using no_effect_shown[OF assms(1) retry_no_effect[OF assms(2,3)]] fatal_iff[OF assms(1)] retry_recoverable[OF assms(2,3)]
  by blast

section \<open>Exceptions\<close>

text \<open>
  A defect of the program is never taken for a condition of the provider: whatever its text, the
  tables and the registry, an exception of a defect's type becomes a failure of the system that names
  its type, and the coordinator ends the turn at no cost. A drained pool of credentials needs an
  administrator, whatever its text.
\<close>

theorem defects_end_turn:
  "(instance_of ex defect_types \<longrightarrow>
      (\<exists>dec key. evaluate ev (classify_llm_error lc cv born ex provider model) c
          = Ret (dec, record_audit ev dec key c) \<and> is_terminal_decision dec \<and> dc_budget_cost dec = 0)
      \<and> fe_category (classify_llm_error lc cv born ex provider model) = ''internal_defect''
      \<and> fe_code (classify_llm_error lc cv born ex provider model) = ''internal_'' @ py_lower (ex_name ex))
   \<and> (\<not> instance_of ex defect_types \<and> instance_of ex [''AllCredentialsExhausted''] \<longrightarrow>
      fe_recoverability (classify_llm_error lc cv born ex provider model) = ADMIN_REQUIRED)"
proof (intro conjI impI)
  assume d: "instance_of ex defect_types"
  then have e: "classify_llm_error lc cv born ex provider model = classify_internal_defect born ex provider model"
    by (simp add: classify_llm_error_def)
  show "\<exists>dec key. evaluate ev (classify_llm_error lc cv born ex provider model) c
      = Ret (dec, record_audit ev dec key c) \<and> is_terminal_decision dec \<and> dc_budget_cost dec = 0"
    unfolding e using evaluate_fatal[of "classify_internal_defect born ex provider model" ev c]
    by (auto simp: classify_internal_defect_def)
  show "fe_category (classify_llm_error lc cv born ex provider model) = ''internal_defect''"
    "fe_code (classify_llm_error lc cv born ex provider model) = ''internal_'' @ py_lower (ex_name ex)"
    unfolding e by (simp_all add: classify_internal_defect_def)
qed (simp add: classify_llm_error_def classify_credentials_exhausted_def)

section \<open>Refusals of the shell\<close>

lemma merged_lookup: "k \<notin> fst ` set x \<Longrightarrow> map_of (dict_merge d x) k = map_of d k"
proof (induction x arbitrary: d)
  case (Cons p x)
  then show ?case by (cases p) (simp add: dict_merge_def map_of_dict_set)
qed (simp add: dict_merge_def)

text \<open>The keys by which a result is read as a failure, and by which its class is decided.\<close>

definition decisive_keys :: "string list" where
  "decisive_keys = [''ok'', ''failure_class'', ''failure_code'', ''duplicate_suppressed'', ''counts_as_failure'',
     ''already_executed'', ''execution_skipped'']"

definition leaves_verdict :: "pyval dict \<Rightarrow> bool" where
  "leaves_verdict x \<longleftrightarrow> list_all (\<lambda>k. k \<notin> set decisive_keys) (map fst x)"

text \<open>
  A refusal's way back: \<open>_post_process_tool_result\<close> and the interceptors may replace or add the fields \<open>x\<close>,
  \<open>_execute_and_finalize\<close> annotates the result (\<open>ledger_result\<close>: the ids and the policy of the record, an
  uncertain effect, and the verdict on a repeated failure) and adds the fields \<open>y\<close> of the evidence and status.
\<close>

definition dispatched :: "exec_record \<Rightarrow> repeat_info option \<Rightarrow> pyval dict \<Rightarrow> pyval dict \<Rightarrow> pyval dict \<Rightarrow> pyval dict" where
  "dispatched rec info x y d = dict_merge (ledger_result rec info (PDict (dict_merge d x))) y"

definition repeated :: "repeat_info option \<Rightarrow> bool" where
  "repeated info \<longleftrightarrow> (case info of Some i \<Rightarrow> 2 \<le> rp_count i | None \<Rightarrow> False)"

lemma untouched: "leaves_verdict x \<Longrightarrow> k \<in> set decisive_keys \<Longrightarrow> map_of (dict_merge d x) k = map_of d k"
  by (rule merged_lookup) (auto simp: leaves_verdict_def list_all_iff)

lemma uncertain_lookup:
  "k \<notin> {''retry_guidance'', ''side_effect_uncertain''} \<Longrightarrow> map_of (annotate_uncertain_effect p d) k = map_of d k"
  by (simp add: annotate_uncertain_effect_def map_of_dict_set)

lemma repeat_lookup:
  "k \<notin> {''failure_repeat_count'', ''failure_fingerprint''} \<Longrightarrow>
     \<not> repeated info \<or> k \<notin> {''error'', ''original_failure_code'', ''retryable'', ''failure_code'', ''failure_class''} \<Longrightarrow>
     map_of (annotate_terminal_repeat tool info d) k = map_of d k"
  by (simp add: annotate_terminal_repeat_def map_of_dict_set repeated_def Let_def split: option.splits) blast?

lemma repeat_marks:
  assumes "map_of d ''ok'' = Some (PBool False)" "map_of d ''counts_as_failure'' = None" "repeated info"
  shows "map_of (annotate_terminal_repeat tool info d) ''failure_class'' = Some (PStr ''repeated_failure'')"
    "map_of (annotate_terminal_repeat tool info d) ''failure_code'' = Some (PStr ''repeated_terminal_failure'')"
  using assms by (simp_all add: annotate_terminal_repeat_def map_of_dict_set repeated_def Let_def split: option.splits)

text \<open>The result before the verdict on a repetition.\<close>

definition identified :: "exec_record \<Rightarrow> pyval dict \<Rightarrow> pyval dict" where
  "identified rec d =
     annotate_uncertain_effect (er_policy rec)
       (dict_set ''tool_call_id'' (PStr (er_call rec))
         (dict_set ''execution_policy'' (PStr (policy_value (er_policy rec)))
           (dict_set ''idempotency_key'' (PStr (er_key rec)) (dict_set ''execution_id'' (PStr (er_id rec)) d))))"

lemma identified_lookup: "k \<in> set decisive_keys \<Longrightarrow> map_of (identified rec d) k = map_of d k"
  unfolding identified_def by (subst uncertain_lookup) (auto simp: decisive_keys_def map_of_dict_set)

lemma ledger_identified: "ledger_result rec info (PDict d) = annotate_terminal_repeat (er_tool rec) info (identified rec d)"
  by (simp add: ledger_result_def identified_def)

lemma ledger_lookup:
  assumes "map_of d ''ok'' = Some (PBool False)" "map_of d ''counts_as_failure'' = None"
  shows "k \<in> {''ok'', ''duplicate_suppressed'', ''counts_as_failure'', ''already_executed'', ''execution_skipped''} \<Longrightarrow>
       map_of (ledger_result rec info (PDict d)) k = map_of d k"
    "\<not> repeated info \<Longrightarrow> k \<in> {''failure_class'', ''failure_code''} \<Longrightarrow> map_of (ledger_result rec info (PDict d)) k = map_of d k"
    "repeated info \<Longrightarrow> map_of (ledger_result rec info (PDict d)) ''failure_class'' = Some (PStr ''repeated_failure'')"
    "repeated info \<Longrightarrow> map_of (ledger_result rec info (PDict d)) ''failure_code'' = Some (PStr ''repeated_terminal_failure'')"
proof -
  assume k: "k \<in> {''ok'', ''duplicate_suppressed'', ''counts_as_failure'', ''already_executed'', ''execution_skipped''}"
  then have "map_of (annotate_terminal_repeat (er_tool rec) info (identified rec d)) k = map_of (identified rec d) k"
    by (intro repeat_lookup) auto
  also have "\<dots> = map_of d k" using k by (intro identified_lookup) (auto simp: decisive_keys_def)
  finally show "map_of (ledger_result rec info (PDict d)) k = map_of d k" unfolding ledger_identified .
next
  assume once: "\<not> repeated info" and k: "k \<in> {''failure_class'', ''failure_code''}"
  then have "map_of (annotate_terminal_repeat (er_tool rec) info (identified rec d)) k = map_of (identified rec d) k"
    by (intro repeat_lookup) auto
  also have "\<dots> = map_of d k" using k by (intro identified_lookup) (auto simp: decisive_keys_def)
  finally show "map_of (ledger_result rec info (PDict d)) k = map_of d k" unfolding ledger_identified .
next
  have base: "map_of (identified rec d) ''ok'' = Some (PBool False)" "map_of (identified rec d) ''counts_as_failure'' = None"
    using assms identified_lookup[of "''ok''" rec d] identified_lookup[of "''counts_as_failure''" rec d]
    by (simp_all add: decisive_keys_def)
  assume "repeated info"
  from repeat_marks[OF base this]
  show "map_of (ledger_result rec info (PDict d)) ''failure_class'' = Some (PStr ''repeated_failure'')"
    "map_of (ledger_result rec info (PDict d)) ''failure_code'' = Some (PStr ''repeated_terminal_failure'')"
    unfolding ledger_identified by simp_all
qed

lemma refusal_dispatched:
  assumes "refusal_form d" "leaves_verdict x" "leaves_verdict y"
  shows "counts_as_failure (PDict (dispatched rec info x y d))"
    "ends_turn cv (PDict (dispatched rec info x y d)) \<longleftrightarrow>
       map_of d ''failure_code'' \<noteq> Some (PStr ''shell_command_required'') \<or> repeated info"
proof -
  let ?d = "dict_merge d x" and ?f = "dispatched rec info x y d"
  have dx: "map_of ?d k = map_of d k" if "k \<in> set decisive_keys" for k using untouched[OF assms(2) that] .
  have ok: "map_of ?d ''ok'' = Some (PBool False)" "map_of ?d ''counts_as_failure'' = None"
    using assms(1) dx[of "''ok''"] dx[of "''counts_as_failure''"] by (simp_all add: refusal_form_def unmarked_def decisive_keys_def)
  have fin: "map_of ?f k = map_of (ledger_result rec info (PDict ?d)) k" if "k \<in> set decisive_keys" for k
    using untouched[OF assms(3) that] by (simp add: dispatched_def)
  have flags: "map_of ?f ''ok'' = Some (PBool False)" "map_of ?f ''counts_as_failure'' = None" "map_of ?f ''already_executed'' = None"
    "map_of ?f ''duplicate_suppressed'' = None" "map_of ?f ''execution_skipped'' = None"
    using assms(1) ledger_lookup(1)[OF ok, where rec = rec and info = info] dx fin
    by (simp_all add: refusal_form_def unmarked_def decisive_keys_def)
  show "counts_as_failure (PDict ?f)"
    using flags by (simp add: counts_as_failure_def is_control_signal_def get_true_def)
  have fail: "is_failure_result ?f" using flags by (simp add: is_failure_result_def get_default_def py_truthy_def)
  obtain fc code where codes: "(fc, code) \<in> set refusal_codes" "map_of d ''failure_class'' = Some (PStr fc)"
      "map_of d ''failure_code'' = Some (PStr code)"
    using assms(1) unfolding refusal_form_def by blast
  have ne: "fc \<noteq> []" "code \<noteq> []" using codes(1) by (auto simp: refusal_codes_def)
  show "ends_turn cv (PDict ?f) \<longleftrightarrow> map_of d ''failure_code'' \<noteq> Some (PStr ''shell_command_required'') \<or> repeated info"
  proof (cases "repeated info")
    case True
    have "map_of ?f ''failure_code'' = Some (PStr ''repeated_terminal_failure'')"
      using ledger_lookup(4)[OF ok True, where rec = rec] fin[of "''failure_code''"] by (simp add: decisive_keys_def)
    then show ?thesis using True fail by (simp add: ends_turn_def get_or_def py_truthy_def py_str_def terminal_codes_def)
  next
    case False
    have "map_of ?f ''failure_class'' = Some (PStr fc)" "map_of ?f ''failure_code'' = Some (PStr code)"
      using ledger_lookup(2)[OF ok False, where rec = rec] fin dx codes(2,3) by (simp_all add: decisive_keys_def)
    then have "ends_turn cv (PDict ?f) \<longleftrightarrow> fc \<in> set permission_classes \<or> code \<in> set permission_codes \<union> set terminal_codes"
      using fail ne by (simp add: ends_turn_def get_or_def py_truthy_def py_str_def)
    also have "\<dots> \<longleftrightarrow> code \<noteq> ''shell_command_required''"
      using codes(1) by (auto simp: refusal_codes_def permission_classes_def permission_codes_def terminal_codes_def)
    finally show ?thesis using codes(3) False by simp
  qed
qed

lemma failed_items_split:
  "counts_as_failure v \<Longrightarrow> failed_items (before @ (born, tool, v) # after) = failed_items before @ (born, tool, v) # failed_items after"
  by (simp add: failed_items_def)

text \<open>
  C24. A command the shell refuses ends the turn. Whatever batch its refusal comes back in, whatever the
  dispatcher's layers put beside the verdict (ids, policy, redacted text, evidence, status), when the
  failures of the batch are decided the turn ends, except when the command was missing: then the refusal
  goes back to the model, and the turn goes on unless another result of the batch ends it or the ledger
  has marked this one a repeated failure, which the code makes terminal by overwriting its class and code.
\<close>

theorem shell_refusal_ends_turn:
  assumes "shell_decide env ctx gates params = Ret (Refuse d)" and "leaves_verdict x" and "leaves_verdict y"
  shows "\<exists>r c' sink'.
    evaluate_tool_failures cv ev session turn
      (failed_items (before @ (born, ''shell_run'', PDict (dispatched rec info x y d)) # after)) (Some c) sink
      = Ret (r, Some c', sink')
    \<and> (r = None \<longleftrightarrow>
         map_of d ''failure_code'' = Some (PStr ''shell_command_required'') \<and> \<not> repeated info
         \<and> \<not> list_ex (item_ends cv) (failed_items (before @ after)))"
proof -
  let ?v = "PDict (dispatched rec info x y d)"
  let ?items = "failed_items (before @ (born, ''shell_run'', ?v) # after)"
  note refused = refusal_dispatched[OF decide_refuses[OF assms(1)] assms(2,3), where rec = rec and info = info]
  obtain r c' lines where ev: "evaluate_failures cv ev session turn ?items c sink = Ret (r, c', sink @ lines)"
    and d: "failures_decided cv ev session turn ?items c r c' lines" using failures_evaluated by blast
  have eq: "evaluate_tool_failures cv ev session turn ?items (Some c) sink = Ret (r, Some c', sink @ lines)"
    using ev by (simp add: evaluate_tool_failures_def and_then_def)
  have "(\<exists>i \<in> set ?items. item_ends cv i) \<longleftrightarrow>
      item_ends cv (born, ''shell_run'', ?v) \<or> list_ex (item_ends cv) (failed_items (before @ after))"
    unfolding failed_items_split[OF refused(1)] by (auto simp: list_ex_iff failed_items_def)
  then have "r = None \<longleftrightarrow> map_of d ''failure_code'' = Some (PStr ''shell_command_required'') \<and> \<not> repeated info
         \<and> \<not> list_ex (item_ends cv) (failed_items (before @ after))"
    using d refused(2)[where cv = cv] by (auto simp: failures_decided_def item_ends_def)
  then show ?thesis using eq by blast
qed

section \<open>Runs\<close>

definition read_timeout :: "pyval dict" where
  "read_timeout = [(''ok'', PBool False), (''error'', PStr ''timed out'')]"

lemma read_timeout_classified:
  "classify_tool_result (sh_cv demo_env) (''e1'', 0) read_timeout ''file_read'' (PStr ''read_only'') =
     Some (create_envelope (''e1'', 0) SRC_TOOL ''tool_timeout'' ''timeout'' ''execution_timeout'' ''timed out'' AUTO_RETRY
       SE_NONE (tool_context_of ''file_read'') None)"
proof -
  have "any_in timeout_words (py_lower ''timed out'')" by code_simp
  then show ?thesis
    by (simp add: classify_tool_result_def read_timeout_def is_failure_result_def get_default_def get_or_def py_truthy_def
        py_str_def permission_classes_def permission_codes_def correctable_codes_def terminal_codes_def str_default_def
        side_effect_of_result_def side_effect_of_policy_def Let_def)
qed

definition timeout_failure :: failure_envelope where
  "timeout_failure = create_envelope (''e1'', 0) SRC_TOOL ''tool_timeout'' ''timeout'' ''execution_timeout'' ''timed out'' AUTO_RETRY
     SE_NONE (tool_context_of ''file_read'') None"

lemma read_timeout_retried:
  "case evaluate turn_env timeout_failure sample_coordinator of Ret (dec, c') \<Rightarrow> is_retry dec | Raise e \<Rightarrow> False"
  by code_simp

theorem replay_needs_evidence_witness:
  "shows_no_effect (sh_cv demo_env) read_timeout (PStr ''read_only'') \<and> \<not> ends_turn (sh_cv demo_env) (PDict read_timeout)"
proof -
  obtain dec c' where "evaluate turn_env timeout_failure sample_coordinator = Ret (dec, c')" "is_retry dec"
    using read_timeout_retried by (auto split: outcome.splits)
  from replay_needs_evidence[OF read_timeout_classified this[unfolded timeout_failure_def]] show ?thesis .
qed

definition plain_llm :: llm_classifier where
  "plain_llm = \<lparr>lc_tables = default_tables, lc_registry = default_mappings, lc_texts = (\<lambda>_. None)\<rparr>"

definition context_typo :: exn where
  "context_typo = \<lparr>ex_name = ''AttributeError'', ex_classes = [''AttributeError'', ''Exception''],
     ex_text = ''no attribute context_length'', ex_attrs = []\<rparr>"

theorem defects_end_turn_witness:
  "fe_category (classify_llm_error plain_llm (sh_cv demo_env) (''e1'', 0) context_typo [] []) = ''internal_defect''"
proof -
  have "instance_of context_typo defect_types" by (simp add: instance_of_def context_typo_def defect_types_def)
  then show ?thesis
    using defects_end_turn[of context_typo turn_env plain_llm "sh_cv demo_env" "(''e1'', 0)" "[]" "[]" sample_coordinator] by blast
qed

definition dispatcher_fields :: "pyval dict" where
  "dispatcher_fields = [(''execution_policy'', PStr ''external_side_effect'')]"

definition shell_record :: exec_record where
  "shell_record = create_record ''x1'' 0 ''k1''
     \<lparr>tool_call.tc_session = ''s'', tc_turn = ''t1'', tc_command = ''c'', tc_call = ''call-1'', tc_tool = ''shell_run'',
      tc_arguments = [(''command'', PStr ''chown u x'')], tc_policy = EXTERNAL_SIDE_EFFECT\<rparr>"

definition denied :: "pyval dict" where
  "denied = shell_failure ''Dangerous command blocked (no approval gate configured)'' ''authorization'' ''approval_denied'' False (Some ''/w'')"

lemma denied_refused:
  "shell_decide demo_env (Some demo_context) (demo_gates NoGate) [(''command'', PStr ''chown u x'')] = Ret (Refuse denied)"
  using demo_patterns by (simp add: decide_demo operand_path_def expand_operand_def after_equals_def windows_absolute_def
      has_parent_traversal_def path_of_def py_lower_char_def denied_def Let_def)

theorem shell_refusal_ends_turn_witness:
  "\<exists>r c' sink'. evaluate_tool_failures (sh_cv demo_env) turn_env ''s'' 1
       (failed_items [((''e0'', 0), ''file_read'', PDict read_timeout),
          ((''e1'', 0), ''shell_run'', PDict (dispatched shell_record None [] [(''execution_status'', PStr ''failed'')] denied))])
       (Some sample_coordinator) [] = Ret (Some r, Some c', sink')"
proof -
  have free: "leaves_verdict []" "leaves_verdict [(''execution_status'', PStr ''failed'')]"
    by (simp_all add: leaves_verdict_def decisive_keys_def)
  obtain r c' sink' where run: "evaluate_tool_failures (sh_cv demo_env) turn_env ''s'' 1
       (failed_items ([((''e0'', 0), ''file_read'', PDict read_timeout)] @
          ((''e1'', 0), ''shell_run'', PDict (dispatched shell_record None [] [(''execution_status'', PStr ''failed'')] denied)) # []))
       (Some sample_coordinator) [] = Ret (r, Some c', sink')"
    and none: "r = None \<longleftrightarrow> map_of denied ''failure_code'' = Some (PStr ''shell_command_required'') \<and> \<not> repeated None
         \<and> \<not> list_ex (item_ends (sh_cv demo_env)) (failed_items ([((''e0'', 0), ''file_read'', PDict read_timeout)] @ []))"
    using shell_refusal_ends_turn[OF denied_refused free, of "sh_cv demo_env" turn_env "''s''" 1] by blast
  have "map_of denied ''failure_code'' \<noteq> Some (PStr ''shell_command_required'')"
    by (simp add: denied_def shell_failure_def)
  with none have "r \<noteq> None" by simp
  then show ?thesis using run by auto
qed

text \<open>A command the shell refused has run nothing, but its result does not say so: by the policy of the
  tool its side effect counts as unknown, and the user is asked whether it took effect.\<close>

lemma refusal_counts_as_unknown:
  "map_option fe_side_effect (classify_tool_result cv born (dict_merge denied dispatcher_fields) ''shell_run''
     (PStr ''external_side_effect'')) = Some SE_UNKNOWN"
proof -
  have "side_effect_of_result (dict_merge denied dispatcher_fields) (PStr ''external_side_effect'') = SE_UNKNOWN"
    by (simp add: side_effect_of_result_def side_effect_of_policy_def merged_lookup dispatcher_fields_def denied_def shell_failure_def)
  moreover have "is_failure_result (dict_merge denied dispatcher_fields)"
    by (simp add: is_failure_result_def get_default_def py_truthy_def merged_lookup dispatcher_fields_def denied_def shell_failure_def)
  moreover have "get_or (dict_merge denied dispatcher_fields) ''failure_class'' (PStr []) = PStr ''authorization''"
    by (simp add: get_or_def py_truthy_def merged_lookup dispatcher_fields_def denied_def shell_failure_def)
  ultimately show ?thesis
    by (simp add: classify_tool_result_def Let_def py_str_def permission_classes_def)
qed

section \<open>Words inside words\<close>

text \<open>A number in the text is taken for a status, and a word of a rule is found inside another word.\<close>

lemma texts_misread:
  "classify default_tables \<lparr>ex_name = ''APIError'', ex_classes = [], ex_text = ''failed to generate a reply'', ex_attrs = []\<rparr>
     = EC_RATE_LIMITED"
  "classify default_tables \<lparr>ex_name = ''APIError'', ex_classes = [], ex_text = ''closed after 4010 ms'', ex_attrs = []\<rparr>
     = EC_AUTH_PERMANENT"
  "classify default_tables \<lparr>ex_name = ''APIError'', ex_classes = [], ex_text = ''invalid access token'', ex_attrs = []\<rparr>
     = EC_CONTEXT_OVERFLOW"
  by code_simp+

end
