(* ===== verification/Spec2Isabelle.thy ===== *)
theory Spec2Isabelle imports LF_Prelude Graph_Loops Templates Task_Graph Task_Graph_State Task_Graph_Props Task_Graph_Validate Task_Graph_Plan Task_Graph_Codec Graph_Planner Graph_Planner_Props Task_Scheduler Task_Scheduler_Props Task_Scheduler_Turns Task_Scheduler_Bound Task_Scheduler_Outcome Iteration_Budget Recovery_Turns Recovery_Checkpoint_Props Turn_Admission_Props Tool_Execution_Props Tool_Concurrency Tool_Guardrails_Props Think_Scrubber Message_Healer_Props Hardware_Props Node_Writes_Props Node_Control_Props Event_Store_Props Proposal_Store_Props Risk_Props Approval_Flow_Props Approval_Consent_Props Approval_Coordinator_Props Unified_Classifier_Props begin

text \<open>
  Leapflow, \<open>src/src/leapflow\<close>: the parts of the agent engine that decide what runs, what is
  repeated, and what is admitted. Paths below are relative to that directory.

  The program. A turn of the agent alternates model calls and tool calls. Work that needs several
  steps is planned as a task graph (\<open>engine/task_planning\<close>), which a scheduler runs in waves and a
  planner repairs when a node fails. A failing call is classified and handed to the recovery
  coordinator (\<open>engine/recovery\<close>), which asks strategies in order of priority for a decision, within a
  budget. Tool calls of a batch are partitioned into concurrent and sequential ones, each is executed
  under a ledger that suppresses identical side effects, and guards over the message history stop a
  turn that loops. An iteration budget bounds the turn. Before a model call the message sequence is
  healed; what the model streams is scrubbed of its reasoning. A write to a device passes its
  interlocks and the approval of the write governor. Other actions with effects are described, assessed
  and, when the policy wants it, put to the user (\<open>security\<close>); the shell tool gates its commands before
  it starts a process. The daemon admits a bounded number of turns at a time.

  Conventions. \<open>LF_Prelude\<close> holds Python values, dictionaries, strings and calls that may raise.
  State is a record per class, passed explicitly; a method that changes state returns the new one;
  what may raise is an \<open>outcome\<close> or a sum. Coroutines are step relations or step functions over
  events: the code between two suspensions is one step. Every operation takes the clock readings it
  makes as arguments. Texts with numbers in them are \<open>ftext\<close>.

  Theories and the code they model.
  \<^item> \<open>Templates\<close>, \<open>Graph_Loops\<close>, \<open>Task_Graph\<close>, \<open>Task_Graph_State\<close>, \<open>Task_Graph_Codec\<close>:
    \<open>task_graph.py\<close>. Template references, the work-list loops, nodes and queries, topological order,
    cycle check, validation, state changes and parameter resolution, and the dictionary codec.
    \<open>Task_Graph_Props\<close>, \<open>Task_Graph_Validate\<close> and \<open>Task_Graph_Plan\<close> show that the order is
    topological, the cycle check exact up to repeated dependencies, validation equivalent to its
    specification, ready nodes and transitive queries correct, and built graphs sound.
  \<^item> \<open>Graph_Planner\<close>: \<open>graph_planner.py\<close>, from the model's text to a graph, and the replacement of
    a failed node. \<open>Graph_Planner_Props\<close>: a planned graph is valid, a replacement keeps the graph
    well-formed, closed and acyclic.
  \<^item> \<open>Task_Scheduler\<close>: \<open>scheduler.py\<close>, one phase per suspension of \<open>_execute_node\<close>; waves as
    \<open>next_wave\<close>, whole runs as \<open>sched_run\<close> over replies of the dispatcher. \<open>_Props\<close>, \<open>_Turns\<close>,
    \<open>_Bound\<close> and \<open>_Outcome\<close>: safety of waves and no stuck state; what one event does to the graph;
    a measure that every event lowers, so runs end; and the state of the graph when they do.
  \<^item> \<open>Iteration_Budget\<close>: \<open>engine/budget.py\<close>, with the bound on any sequence of its operations.
  \<^item> \<open>Recovery_Base\<close>, \<open>Recovery_Coordinator\<close>, \<open>Recovery_Strategies\<close>: envelopes, decisions, budget,
    guard, \<open>recovery_coordinator.py\<close> and the nine built-in strategies. \<open>Recovery_Coordinator_Props\<close>
    proves a turn's facts in the locale \<open>recovery_strategies\<close> (a strategy returns, keeps its frame, pays
    for what it repeats), \<open>Recovery_Turns\<close> interprets it on the built-in list: no side effect is
    replayed, the recoveries of a turn are bounded, the first acceptable strategy wins.
  \<^item> \<open>Recovery_Checkpoint\<close>: \<open>recovery_checkpoint.py\<close>; the resumer is written over the store's
    operations. \<open>_Props\<close> has the locale \<open>checkpoint_store\<close>, interpreted on the in-memory store:
    resuming is exact, a checkpoint is handed out once, attempts are bounded.
  \<^item> \<open>Turn_Admission\<close>: \<open>daemon/turn_admission.py\<close> with the semaphore of the standard library
    (CPython 3.11 and later). \<open>_Props\<close>: admitted turns are bounded, an exclusive window runs alone,
    capacity comes back when no turn has two parked coroutines, and is lost when one has.
  \<^item> \<open>Tool_Execution\<close>: \<open>engine/tools/tool_execution.py\<close>, the table of
    \<open>storage/conversation_store.py\<close> and the ledger protocol of \<open>engine/tool_dispatch_engine.py\<close> as
    steps of concurrent calls. \<open>_Props\<close> has the locale \<open>execution_store\<close>, interpreted on the table:
    a side effect is executed at most once per key, and duplicates report what happened.
  \<^item> \<open>Tool_Concurrency\<close>: \<open>engine/tools/tool_concurrency.py\<close>. Overlap of paths is ancestry; the
    partition of a batch is sound.
  \<^item> \<open>Tool_Guardrails\<close>: \<open>engine/tools/tool_guardrails.py\<close> and \<open>_check_guardrail\<close>. \<open>_Props\<close>: what
    the composite returns, that the repetition window loses nothing, and that the turn cap bounds
    the calls of a turn.
  \<^item> \<open>Message_Healer\<close>: \<open>engine/message_healer.py\<close>. \<open>_Props\<close>: a healed sequence satisfies the
    tool protocol, a healthy one is not changed.
  \<^item> \<open>Think_Scrubber\<close>: \<open>engine/think_scrubber.py\<close>. Scrubbing a stream in any chunks agrees with the
    whole text.
  \<^item> \<open>Hardware_Trust\<close>, \<open>Hardware_Writes\<close>: \<open>hardware/trust.py\<close>, the approval and the sequential batch
    of \<open>write_governor.py\<close>, \<open>interlocks.py\<close> and the merge of effects of \<open>transport.py\<close>.
    \<open>Hardware_Props\<close>: a write runs only with an approval or with trust its channels earned, interlocks
    fail closed, and a batch reports what reached the driver.
  \<^item> \<open>Node_Permit\<close>, \<open>Node_Writes\<close>: the node's side of remote hardware, \<open>hardware/lhp/permit.py\<close> and
    the write handlers of \<open>lhp/server.py\<close> with the checks of \<open>context.py\<close> and \<open>registry.py\<close>. \<open>_Props\<close>: a
    permit opens the gate once, the hashed object determines the action, a device is reached only
    by admissible commands, and requests served in turn stay within each channel's rate.
  \<^item> \<open>Node_Control\<close>: \<open>hardware/lhp/control_sessions.py\<close> as steps on one event loop, with what it sees of
    the loops of \<open>registry.py\<close> and \<open>control_bus.py\<close>. \<open>_Props\<close>: a loop runs only while a session holds it
    whose connection renewed it within its lease, and a device has one live session.
  \<^item> \<open>Event_Store\<close>: \<open>domain/evolution_event.py\<close> and \<open>storage/evolution_event_store.py\<close>. \<open>_Props\<close>: the log is
    append-only with ascending cursors and unique keys, and a teacher job's lease is exclusive.
  \<^item> \<open>Proposal_Store\<close>: \<open>storage/capability_proposal_queue.py\<close> over that log. \<open>_Props\<close>: an update refines an
    update of the proposal's history, states follow the table of transitions, listing is complete.

  \<^item> \<open>Regular_Search\<close>: searching with regular expressions by derivatives, for the pattern tables below.
    \<open>Action_Descriptors\<close>, \<open>Action_Risk\<close>, \<open>Risk_Classifier\<close>, \<open>Device_Risk\<close>: \<open>security/actions.py\<close>,
    \<open>security/risk.py\<close> with \<open>shlex.split\<close>, and \<open>hardware/risk.py\<close> over declared channels. \<open>Risk_Props\<close>:
    every assessment is well-formed, so the policy asks about exactly the medium and high ones, and a
    command to a device is never allowed unasked and rests on its declaration.
  \<^item> \<open>Approval_Gate\<close>, \<open>Approval_Grants\<close>, \<open>Approval_Flow\<close>: \<open>security/policy.py\<close>, \<open>approval.py\<close>,
    \<open>guardian.py\<close>, \<open>grants.py\<close> and \<open>orchestrator.py\<close>. An evaluation is cut at its waits for the guardian
    and the user; \<open>approval_run\<close> interleaves any number of them. \<open>Approval_Flow_Props\<close>: nothing is approved
    without a cause, hardline actions are refused at once, the audit has one entry per result.
    \<open>Approval_Consent_Props\<close>: keys of grants, reuse of consents, the breaker, and grants on disk.
  \<^item> \<open>Approval_Coordinator\<close>: \<open>daemon/approval_coordinator.py\<close>, the prompts a daemon waits on. \<open>_Props\<close>: only the
    user's own answer approves a prompt, and no prompt is lost.
  \<^item> \<open>Shell_Gate\<close>: \<open>tools/shell_tools.py\<close> up to the start of the process and \<open>tools/execution_context.py\<close>.
    \<open>_Props\<close>: what has been checked when a process starts, and that broken gates refuse.
  \<^item> \<open>Error_Classifier\<close>, \<open>Unified_Classifier\<close>: \<open>engine/recovery/error_classifier.py\<close>,
    \<open>unified_classifier.py\<close> and \<open>_evaluate_tool_failures\<close> of \<open>engine/tool_dispatch_engine.py\<close>.
    \<open>Unified_Classifier_Props\<close>: which results end a turn, that a replay needs evidence of no effect, that
    defects of the program are not recovered from, and what becomes of the shell's refusals.

  Bounds and fuel. No operation is cut off by fuel. The facts on proposals hold while fewer than 5000
  events name a proposal, the limit of a read. Loops are structural or have a termination proof
  (work lists by the nodes still open, pages by the events after the cursor, \<open>wake_all\<close> by the semaphore's counter). Runs of the scheduler,
  of a turn's recovery and of the budget are lists of events, and the theorems bound their length.

  Parameters of the model, for code that is not in the repository: signatures and digests of permits, \<open>json.loads\<close>, \<open>str\<close> of a value
  that is not text, \<open>eval\<close> of a condition, the digests of an idempotency key and of a repeated call,
  the replies of language models, users, dispatchers and callbacks, clocks and random delays, JSON text,
  \<open>repr\<close> and number formats, rules added to the policy, and of the host the home directories, symbolic
  links and environment variables. The digest of
  a failed call also stands for the normalisation by regular expressions before it.

  Not modelled. Prompt texts, logging, metrics and display; the engine's main loop, whose decisions are
  those of the components above; the storage layer but for the tables of tool
  executions, evolution events and teacher jobs; the
  daemon's service, the gateway, the feasibility
  checks and drivers of hardware, the services of security apart from risk and approval (redaction,
  secrets, network checks), the shell process and its output, memory, plugins, perception and the user
  interfaces. \<open>exclusive_gate\<close> and the sink methods that only forward are left out. In the ledger's
  table a failing store call is read as no entry. The repeated-failure fingerprint a finished call
  carries is an argument of its event.
\<close>

end
